(* ===== verification/KPrelude.thy ===== *)
theory KPrelude
  imports Main "HOL-Library.Word"
begin

text \<open>
  Shared vocabulary of the development: the machine types of \<open>inc/types.h\<close>, the outcome type in
  which an \<open>ASSERT\<close>, a \<open>KeBugCheck\<close>, a null dereference or a spin that cannot end is a value, the
  rounding macros, the status codes of \<open>inc/error.h\<close> the kernel returns, and the generic facts the
  component theories share. \<open>outcome\<close> is the collection of rewrite rules for outcomes.
\<close>

unbundle bit_operations_syntax

section \<open>Machine types\<close>

type_synonym UCHAR = "8 word"
type_synonym USHORT = "16 word"
type_synonym ULONG = "32 word"
type_synonym LONG = "32 word"
type_synonym LONG64 = "64 word"
type_synonym ULONG64 = "64 word"

section \<open>Outcomes\<close>

text \<open>
  \<open>DEBUG\<close> is defined unconditionally in \<open>inc/assert.h\<close>, so a failing \<open>ASSERT\<close> calls
  \<open>_KeBugCheck\<close>, which does not return. The string names the function and the failing check.
\<close>

datatype fault =
    AssertionFailed string
  | KeBugCheck string
  | NullPointer
  | OutOfBounds
  | Hang

named_theorems outcome

definition ASSERT :: "string \<Rightarrow> bool \<Rightarrow> fault + 'a \<Rightarrow> fault + 'a" where
  "ASSERT msg c k = (if c then k else Inl (AssertionFailed msg))"

definition bind :: "fault + 'a \<Rightarrow> ('a \<Rightarrow> fault + 'b) \<Rightarrow> fault + 'b" where
  "bind m f = (case m of Inl e \<Rightarrow> Inl e | Inr x \<Rightarrow> f x)"

definition deref :: "'p option \<Rightarrow> ('p \<Rightarrow> fault + 'a) \<Rightarrow> fault + 'a" where
  "deref p f = (case p of None \<Rightarrow> Inl NullPointer | Some a \<Rightarrow> f a)"

lemma ASSERT_True [simp, outcome]: "c \<Longrightarrow> ASSERT msg c k = k"
  by (simp add: ASSERT_def)

lemma ASSERT_False [simp, outcome]: "\<not> c \<Longrightarrow> ASSERT msg c k = Inl (AssertionFailed msg)"
  by (simp add: ASSERT_def)

lemma ASSERT_Inr [outcome]: "ASSERT msg c k = Inr y \<longleftrightarrow> c \<and> k = Inr y"
  by (simp add: ASSERT_def)

lemma bind_Inr [simp, outcome]: "bind (Inr x) f = f x"
  by (simp add: bind_def)

lemma bind_Inl [simp, outcome]: "bind (Inl e) f = Inl e"
  by (simp add: bind_def)

lemma bind_eq_Inr [outcome]: "bind m f = Inr y \<longleftrightarrow> (\<exists>x. m = Inr x \<and> f x = Inr y)"
  by (cases m) (auto simp: bind_def)

lemma bind_assoc: "bind (bind m f) g = bind m (\<lambda>x. bind (f x) g)"
  by (cases m) auto

lemma deref_Some [simp, outcome]: "deref (Some a) f = f a"
  by (simp add: deref_def)

lemma deref_None [simp, outcome]: "deref None f = Inl NullPointer"
  by (simp add: deref_def)

lemma deref_eq_Inr [outcome]: "deref p f = Inr y \<longleftrightarrow> (\<exists>a. p = Some a \<and> f a = Inr y)"
  by (cases p) auto

section \<open>Counted loops\<close>

text \<open>
  A counted loop \<open>for (i = a; i < b; i++)\<close> runs its body on \<open>range32 a b\<close>, in order, threading the
  state and stopping at the first fault.
\<close>

definition range32 :: "ULONG \<Rightarrow> ULONG \<Rightarrow> ULONG list" where
  "range32 a b = map of_nat [unat a..<unat b]"

fun foldE :: "('i \<Rightarrow> 's \<Rightarrow> fault + 's) \<Rightarrow> 'i list \<Rightarrow> 's \<Rightarrow> fault + 's" where
  "foldE f [] s = Inr s"
| "foldE f (i # is) s = bind (f i s) (foldE f is)"

lemma foldE_append: "foldE f (xs @ ys) s = bind (foldE f xs s) (foldE f ys)"
  by (induction xs arbitrary: s) (auto simp: bind_assoc fun_eq_iff intro!: arg_cong [of _ _ "bind _"])

lemma foldE_progress:
  assumes "P s"
    and "\<And>i s. i \<in> set is \<Longrightarrow> P s \<Longrightarrow> \<exists>s'. f i s = Inr s' \<and> P s'"
  shows "\<exists>s'. foldE f is s = Inr s' \<and> P s'"
  using assms
proof (induction "is" arbitrary: s)
  case (Cons i "is")
  then obtain s1 where "f i s = Inr s1" "P s1" by (meson list.set_intros(1))
  with Cons show ?case by auto
qed auto

lemma foldE_invariant:
  assumes "foldE f is s = Inr s'" and "P s"
    and "\<And>i s s'. i \<in> set is \<Longrightarrow> P s \<Longrightarrow> f i s = Inr s' \<Longrightarrow> P s'"
  shows "P s'"
  using assms
proof (induction "is" arbitrary: s)
  case (Cons i "is")
  from Cons.prems(1) obtain s1 where s1: "f i s = Inr s1" "foldE f is s1 = Inr s'"
    by (auto simp: bind_eq_Inr)
  have "P s1" using Cons.prems(2,3) s1(1) by auto
  then show ?case using Cons.IH [OF s1(2)] Cons.prems(3) by auto
qed auto

lemma unat_of_nat32: "n < 2 ^ 32 \<Longrightarrow> unat (of_nat n :: ULONG) = n"
  by (simp add: unat_of_nat)

lemma unat_ULONG_less: "unat (w :: ULONG) < 2 ^ 32"
  using unsigned_less [of w, where ?'a = nat] by simp

lemma set_range32: "set (range32 a b) = {i. a \<le> i \<and> i < b}"
proof -
  have "i \<in> (of_nat ` {unat a..<unat b} :: ULONG set)" if "a \<le> i" "i < b" for i
    using that by (intro image_eqI [of _ _ "unat i"]) (auto simp: word_le_nat_alt word_less_nat_alt)
  moreover have "a \<le> of_nat n \<and> (of_nat n :: ULONG) < b" if "unat a \<le> n" "n < unat b" for n
  proof -
    have "unat (of_nat n :: ULONG) = n"
      using that unat_ULONG_less [of b] by (intro unat_of_nat32) simp
    then show ?thesis using that by (simp add: word_le_nat_alt word_less_nat_alt)
  qed
  ultimately show ?thesis by (auto simp: range32_def)
qed

section \<open>Refinement\<close>

text \<open>
  A specification gives for each operation the next abstract state, or \<open>None\<close> where the operation may not be
  called. Operations of the kernel simulate it when, from related states, the kernel performs what the
  specification allows, without a fault, and ends in related states; then it does so for every sequence of calls.
\<close>

fun spec_run :: "('x \<Rightarrow> 'a \<Rightarrow> 'a option) \<Rightarrow> 'x list \<Rightarrow> 'a \<Rightarrow> 'a option" where
  "spec_run spec [] a = Some a"
| "spec_run spec (x # xs) a = (case spec x a of None \<Rightarrow> None | Some a' \<Rightarrow> spec_run spec xs a')"

locale simulation =
  fixes kernel :: "'x \<Rightarrow> 's \<Rightarrow> fault + 's" and spec :: "'x \<Rightarrow> 'a \<Rightarrow> 'a option"
    and allowed :: "'x \<Rightarrow> bool" and related :: "'s \<Rightarrow> 'a \<Rightarrow> bool"
  assumes step: "related s a \<Longrightarrow> allowed x \<Longrightarrow> spec x a = Some a' \<Longrightarrow> \<exists>s'. kernel x s = Inr s' \<and> related s' a'"
begin

lemma run:
  assumes "related s a" and "\<forall>x \<in> set xs. allowed x" and "spec_run spec xs a = Some a'"
  shows "\<exists>s'. foldE kernel xs s = Inr s' \<and> related s' a'"
  using assms
proof (induction xs arbitrary: s a)
  case (Cons x xs)
  then obtain b where b: "spec x a = Some b" "spec_run spec xs b = Some a'" by (auto split: option.splits)
  then obtain s1 where "kernel x s = Inr s1" "related s1 b" using step Cons.prems by (meson list.set_intros(1))
  then show ?case using Cons.IH [of s1 b] Cons.prems b by auto
qed auto

end

section \<open>Rounding\<close>

text \<open>\<open>ROUNDDOWN\<close> and \<open>ROUNDUP\<close> of \<open>inc/types.h\<close>, on 32-bit values with wrap-around.\<close>

definition ROUNDDOWN :: "ULONG \<Rightarrow> ULONG \<Rightarrow> ULONG" where
  "ROUNDDOWN a n = a - a mod n"

definition ROUNDUP :: "ULONG \<Rightarrow> ULONG \<Rightarrow> ULONG" where
  "ROUNDUP a n = ROUNDDOWN (a + n - 1) n"

lemma unat_ROUNDDOWN: "unat (ROUNDDOWN a n) = unat a div unat n * unat n"
proof -
  have "unat (a mod n) \<le> unat a" by (simp add: unat_mod)
  then have "unat (a - a mod n) = unat a - unat a mod unat n"
    by (simp add: unat_sub word_le_nat_alt unat_mod)
  then show ?thesis by (simp add: ROUNDDOWN_def minus_mod_eq_div_mult)
qed

lemma unat_add_no_wrap:
  fixes a b :: "'a::len word"
  shows "unat a + unat b < 2 ^ LENGTH('a) \<Longrightarrow> unat (a + b) = unat a + unat b"
  by (simp add: unat_word_ariths)

lemma unat_ROUNDUP:
  assumes "0 < unat n" and "unat a + unat n - 1 < 2 ^ 32"
  shows "unat (ROUNDUP a n) = (unat a + unat n - 1) div unat n * unat n"
proof -
  have n1: "unat (n - 1) = unat n - 1"
    using assms(1) by (simp add: unat_sub word_le_nat_alt)
  have "unat (a + (n - 1)) = unat a + (unat n - 1)"
    using assms n1 by (subst unat_add_no_wrap) auto
  moreover have "a + n - 1 = a + (n - 1)" by simp
  ultimately have "unat (a + n - 1) = unat a + unat n - 1"
    using assms(1) by (metis Nat.add_diff_assoc Suc_leI One_nat_def)
  then show ?thesis by (simp add: ROUNDUP_def unat_ROUNDDOWN)
qed

lemma ROUNDUP_bounds:
  assumes "0 < unat n" and "unat a + unat n - 1 < 2 ^ 32"
  shows "unat a \<le> unat (ROUNDUP a n)" and "unat (ROUNDUP a n) < unat a + unat n"
    and "unat n dvd unat (ROUNDUP a n)"
proof -
  let ?N = "unat n" and ?A = "unat a"
  have eq: "unat (ROUNDUP a n) = (?A + ?N - 1) div ?N * ?N"
    by (rule unat_ROUNDUP [OF assms])
  have "(?A + ?N - 1) div ?N * ?N + (?A + ?N - 1) mod ?N = ?A + ?N - 1"
    by (rule div_mult_mod_eq)
  moreover have "(?A + ?N - 1) mod ?N < ?N" using assms(1) by simp
  ultimately show "?A \<le> unat (ROUNDUP a n)" "unat (ROUNDUP a n) < ?A + ?N"
    using eq assms(1) by linarith+
  show "?N dvd unat (ROUNDUP a n)" using eq by simp
qed

section \<open>Status codes\<close>

text \<open>
  \<open>KSTATUS\<close> is a signed 32-bit value (\<open>inc/error.h\<close>); a negative value is an error. The
  abbreviations are the codes the modelled code returns.
\<close>

type_synonym KSTATUS = LONG

abbreviation (input) STATUS_SUCCESS :: KSTATUS where "STATUS_SUCCESS \<equiv> 0x00000000"
abbreviation (input) STATUS_OBJECT_NAME_EXISTS :: KSTATUS where "STATUS_OBJECT_NAME_EXISTS \<equiv> 0x40000000"
abbreviation (input) STATUS_INVALID_PARAMETER :: KSTATUS where "STATUS_INVALID_PARAMETER \<equiv> 0xC000000D"
abbreviation (input) STATUS_NO_MEMORY :: KSTATUS where "STATUS_NO_MEMORY \<equiv> 0xC0000017"
abbreviation (input) STATUS_OBJECT_NAME_NOT_FOUND :: KSTATUS where
  "STATUS_OBJECT_NAME_NOT_FOUND \<equiv> 0xC0000034"
abbreviation (input) STATUS_OBJECT_NAME_COLLISION :: KSTATUS where
  "STATUS_OBJECT_NAME_COLLISION \<equiv> 0xC0000035"
abbreviation (input) STATUS_OBJECT_PATH_NOT_FOUND :: KSTATUS where
  "STATUS_OBJECT_PATH_NOT_FOUND \<equiv> 0xC000003A"
abbreviation (input) STATUS_INSUFFICIENT_RESOURCES :: KSTATUS where
  "STATUS_INSUFFICIENT_RESOURCES \<equiv> 0xC000009A"
abbreviation (input) STATUS_TOO_MANY_OPENED_FILES :: KSTATUS where
  "STATUS_TOO_MANY_OPENED_FILES \<equiv> 0xC000011F"
abbreviation (input) STATUS_INVALID_DEVICE_OBJECT_PARAMETER :: KSTATUS where
  "STATUS_INVALID_DEVICE_OBJECT_PARAMETER \<equiv> 0xC0000369"

definition success :: "KSTATUS \<Rightarrow> bool" where
  "success Status \<longleftrightarrow> sint STATUS_SUCCESS \<le> sint Status"

lemma success_codes [simp]:
  "success STATUS_SUCCESS" "success STATUS_OBJECT_NAME_EXISTS"
  "\<not> success STATUS_INVALID_PARAMETER" "\<not> success STATUS_NO_MEMORY"
  "\<not> success STATUS_OBJECT_NAME_NOT_FOUND" "\<not> success STATUS_OBJECT_NAME_COLLISION"
  "\<not> success STATUS_OBJECT_PATH_NOT_FOUND" "\<not> success STATUS_INSUFFICIENT_RESOURCES"
  "\<not> success STATUS_TOO_MANY_OPENED_FILES" "\<not> success STATUS_INVALID_DEVICE_OBJECT_PARAMETER"
  by (simp_all add: success_def)

end
