(* ===== verification/KList.thy ===== *)
theory KList
  imports KPrelude
begin

text \<open>
  The intrusive lists of \<open>inc/list.h\<close>: the circular doubly linked list of the \<open>LIST_*\<close> macros, with
  a head that counts its elements, and the headed ring of \<open>LIST_ENTRY\<close>. A link field is a pair of
  maps from nodes to node pointers (a null pointer is \<open>None\<close>), so several lists may share one
  field. Both forms implement one interface, the locale \<open>intrusive_list\<close>, whose laws say which
  sequence of nodes a heap represents after each operation.
\<close>

section \<open>The \<open>LIST_*\<close> macros\<close>

record 'p links =
  le_next :: "'p \<Rightarrow> 'p option"
  le_prev :: "'p \<Rightarrow> 'p option"

record 'p list_head =
  lh_first :: "'p option"
  NumberOfElements :: ULONG

type_synonym 'p klist = "'p links \<times> 'p list_head"

definition set_next :: "'p \<Rightarrow> 'p option \<Rightarrow> 'p links \<Rightarrow> 'p links" where
  "set_next p v m = m\<lparr>le_next := (le_next m)(p := v)\<rparr>"

definition set_prev :: "'p \<Rightarrow> 'p option \<Rightarrow> 'p links \<Rightarrow> 'p links" where
  "set_prev p v m = m\<lparr>le_prev := (le_prev m)(p := v)\<rparr>"

definition LIST_INIT :: "'p list_head" where
  "LIST_INIT = \<lparr>lh_first = None, NumberOfElements = 0\<rparr>"

definition LIST_INIT_ENTRY :: "'p \<Rightarrow> 'p links \<Rightarrow> 'p links" where
  "LIST_INIT_ENTRY elm m = set_prev elm None (set_next elm None m)"

definition LIST_EMPTY :: "'p list_head \<Rightarrow> bool" where
  "LIST_EMPTY h \<longleftrightarrow> lh_first h = None"

definition LIST_LAST :: "'p klist \<Rightarrow> 'p option" where
  "LIST_LAST = (\<lambda>(m, h). case lh_first h of None \<Rightarrow> None | Some f \<Rightarrow> le_prev m f)"

definition LIST_NEXT :: "'p klist \<Rightarrow> 'p \<Rightarrow> 'p option" where
  "LIST_NEXT = (\<lambda>(m, h) elm. if le_next m elm = lh_first h then None else le_next m elm)"

definition LIST_PREV :: "'p klist \<Rightarrow> 'p \<Rightarrow> 'p option" where
  "LIST_PREV = (\<lambda>(m, h) elm. if le_prev m elm = LIST_LAST (m, h) then None else le_prev m elm)"

text \<open>
  A macro argument is substituted as text and evaluated at each use, so the element after which
  \<open>LIST_INSERT_AFTER\<close> inserts is an expression over the links, read again in each assignment.
\<close>

definition LIST_INSERT_AFTER :: "('p links \<Rightarrow> 'p option) \<Rightarrow> 'p \<Rightarrow> 'p klist \<Rightarrow> fault + 'p klist" where
  "LIST_INSERT_AFTER listelm elm = (\<lambda>(m, h).
     deref (listelm m) (\<lambda>l.
     let m = set_next elm (le_next m l) m in
     deref (listelm m) (\<lambda>l.
     let m = set_next l (Some elm) m in
     let m = set_prev elm (listelm m) m in
     deref (le_next m elm) (\<lambda>n.
     let m = set_prev n (Some elm) m in
     Inr (m, h\<lparr>NumberOfElements := NumberOfElements h + 1\<rparr>)))))"

definition LIST_INSERT_BEFORE :: "'p \<Rightarrow> 'p \<Rightarrow> 'p klist \<Rightarrow> fault + 'p klist" where
  "LIST_INSERT_BEFORE listelm elm = LIST_INSERT_AFTER (\<lambda>m. le_prev m listelm) elm"

definition LIST_INSERT_HEAD :: "'p \<Rightarrow> 'p klist \<Rightarrow> fault + 'p klist" where
  "LIST_INSERT_HEAD elm = (\<lambda>(m, h).
     case lh_first h of
       None \<Rightarrow>
         (let h = h\<lparr>lh_first := Some elm\<rparr>;
              m = set_next elm (Some elm) (set_prev elm (Some elm) m)
          in ASSERT ''LIST_INSERT_HEAD: NumberOfElements == 0'' (NumberOfElements h = 0)
               (Inr (m, h\<lparr>NumberOfElements := NumberOfElements h + 1\<rparr>)))
     | Some f \<Rightarrow>
         bind (LIST_INSERT_BEFORE f elm (m, h)) (\<lambda>(m, h). Inr (m, h\<lparr>lh_first := Some elm\<rparr>)))"

definition LIST_INSERT_TAIL :: "'p \<Rightarrow> 'p klist \<Rightarrow> fault + 'p klist" where
  "LIST_INSERT_TAIL elm = (\<lambda>(m, h).
     case lh_first h of
       None \<Rightarrow> LIST_INSERT_HEAD elm (m, h)
     | Some f \<Rightarrow> LIST_INSERT_BEFORE f elm (m, h))"

definition LIST_REMOVE :: "'p \<Rightarrow> 'p klist \<Rightarrow> fault + 'p klist" where
  "LIST_REMOVE elm = (\<lambda>(m, h).
     let h = (if Some elm = lh_first h then h\<lparr>lh_first := LIST_NEXT (m, h) elm\<rparr> else h) in
     deref (le_prev m elm) (\<lambda>p.
     let m = set_next p (le_next m elm) m in
     deref (le_next m elm) (\<lambda>n.
     let m = set_prev n (le_prev m elm) m in
     Inr (m, h\<lparr>NumberOfElements := NumberOfElements h - 1\<rparr>))))"

definition LIST_REMOVE_HEAD :: "'p klist \<Rightarrow> fault + ('p option \<times> 'p klist)" where
  "LIST_REMOVE_HEAD = (\<lambda>(m, h).
     case lh_first h of
       None \<Rightarrow> Inr (None, (m, h))
     | Some elm \<Rightarrow> bind (LIST_REMOVE elm (m, h)) (\<lambda>l. Inr (Some elm, l)))"

definition LIST_REMOVE_TAIL :: "'p klist \<Rightarrow> fault + ('p option \<times> 'p klist)" where
  "LIST_REMOVE_TAIL = (\<lambda>(m, h).
     if LIST_EMPTY h then Inr (None, (m, h))
     else deref (LIST_LAST (m, h)) (\<lambda>elm.
       bind (LIST_REMOVE elm (m, h)) (\<lambda>l. Inr (Some elm, l))))"

text \<open>
  \<open>LIST_FOREACH\<close> visits nodes until \<open>LIST_NEXT\<close> is null. The model collects the nodes visited; the
  fuel bounds the walk, and running out of it is \<open>Hang\<close>.
\<close>

fun LIST_FOREACH_from :: "nat \<Rightarrow> 'p klist \<Rightarrow> 'p option \<Rightarrow> fault + 'p list" where
  "LIST_FOREACH_from fuel l None = Inr []"
| "LIST_FOREACH_from 0 l (Some p) = Inl Hang"
| "LIST_FOREACH_from (Suc fuel) l (Some p) =
     bind (LIST_FOREACH_from fuel l (LIST_NEXT l p)) (\<lambda>ps. Inr (p # ps))"

definition LIST_FOREACH :: "nat \<Rightarrow> 'p klist \<Rightarrow> fault + 'p list" where
  "LIST_FOREACH fuel l = LIST_FOREACH_from fuel l (lh_first (snd l))"

section \<open>Rings\<close>

text \<open>\<open>chain m xs\<close>: neighbouring nodes of \<open>xs\<close> point at each other.\<close>

fun chain :: "'p links \<Rightarrow> 'p list \<Rightarrow> bool" where
  "chain m (x # y # zs) \<longleftrightarrow> le_next m x = Some y \<and> le_prev m y = Some x \<and> chain m (y # zs)"
| "chain m _ \<longleftrightarrow> True"

definition ring :: "'p links \<Rightarrow> 'p list \<Rightarrow> bool" where
  "ring m xs \<longleftrightarrow> distinct xs \<and> (xs \<noteq> [] \<longrightarrow> chain m (xs @ [hd xs]))"

definition klist_rep :: "'p klist \<Rightarrow> 'p list \<Rightarrow> bool" where
  "klist_rep l xs \<longleftrightarrow> ring (fst l) xs \<and>
     lh_first (snd l) = (if xs = [] then None else Some (hd xs)) \<and>
     NumberOfElements (snd l) = of_nat (length xs)"

lemma set_next_sel [simp]:
  "le_next (set_next p v m) = (le_next m)(p := v)" "le_prev (set_next p v m) = le_prev m"
  by (simp_all add: set_next_def)

lemma set_prev_sel [simp]:
  "le_prev (set_prev p v m) = (le_prev m)(p := v)" "le_next (set_prev p v m) = le_next m"
  by (simp_all add: set_prev_def)

lemma chain_append: "chain m (xs @ y # zs) \<longleftrightarrow> chain m (xs @ [y]) \<and> chain m (y # zs)"
  by (induction m xs rule: chain.induct) auto

lemma chain_snoc2: "chain m (xs @ [x, y]) \<longleftrightarrow>
    chain m (xs @ [x]) \<and> le_next m x = Some y \<and> le_prev m y = Some x"
  using chain_append [of m xs x "[y]"] by simp

lemma butlast_last_Cons: "xs \<noteq> [] \<Longrightarrow> butlast xs @ last xs # ys = xs @ ys"
  by (metis append_butlast_last_id append_Cons append_assoc append_Nil)

lemma chain_cong:
  "(\<And>p. p \<in> set (butlast xs) \<Longrightarrow> le_next m' p = le_next m p) \<Longrightarrow>
   (\<And>p. p \<in> set (tl xs) \<Longrightarrow> le_prev m' p = le_prev m p) \<Longrightarrow> chain m' xs = chain m xs"
  by (induction m xs rule: chain.induct) (auto split: if_splits)

lemma ring_Nil [simp]: "ring m []"
  by (simp add: ring_def)

lemma ring_rotate1: "ring m (rotate1 xs) = ring m xs"
proof (cases xs)
  case (Cons x ys)
  show ?thesis
  proof (cases ys)
    case (Cons y zs)
    have "chain m (y # zs @ [x, y]) \<longleftrightarrow>
        chain m (y # zs @ [x]) \<and> le_next m x = Some y \<and> le_prev m y = Some x"
      using chain_snoc2 [of m "y # zs" x y] by simp
    with \<open>xs = x # ys\<close> Cons show ?thesis by (auto simp: ring_def)
  qed (use \<open>xs = x # ys\<close> in simp)
qed simp

lemma ring_rotate: "ring m (ys @ xs) = ring m (xs @ ys)"
proof -
  have "ring m (rotate n zs) = ring m zs" for n zs
    by (induction n) (auto simp: ring_rotate1)
  from this [of "length xs" "xs @ ys"] show ?thesis by (simp add: rotate_append)
qed

lemma ring_last_hd:
  assumes "ring m xs" and "xs \<noteq> []"
  shows "le_next m (last xs) = Some (hd xs)" and "le_prev m (hd xs) = Some (last xs)"
proof -
  have "chain m (butlast xs @ [last xs, hd xs])"
    using assms by (simp add: butlast_last_Cons ring_def)
  then show "le_next m (last xs) = Some (hd xs)" "le_prev m (hd xs) = Some (last xs)"
    by (simp_all add: chain_snoc2)
qed

lemma ring_chain: "ring m xs \<Longrightarrow> chain m xs"
  using chain_snoc2 [of m "butlast xs" "last xs" "hd xs"]
  by (cases "xs = []") (auto simp: ring_def butlast_last_Cons)

lemma ring_intro:
  "distinct xs \<Longrightarrow> xs \<noteq> [] \<Longrightarrow> chain m xs \<Longrightarrow> le_next m (last xs) = Some (hd xs) \<Longrightarrow>
   le_prev m (hd xs) = Some (last xs) \<Longrightarrow> ring m xs"
  using chain_snoc2 [of m "butlast xs" "last xs" "hd xs"]
  by (simp add: ring_def butlast_last_Cons)

subsection \<open>Splicing\<close>

lemma set_butlast_subset: "set (butlast xs) \<subseteq> set xs"
  by (auto dest: in_set_butlastD)

lemma set_tl_subset: "set (tl xs) \<subseteq> set xs"
  by (cases xs) auto

lemma ring_snoc:
  assumes r: "ring m ws" and ne: "ws \<noteq> []" and e: "e \<notin> set ws"
    and n: "le_next m' = (le_next m)(e := Some (hd ws), last ws := Some e)"
    and p: "le_prev m' = (le_prev m)(e := Some (last ws), hd ws := Some e)"
  shows "ring m' (ws @ [e])"
proof (rule ring_intro)
  have d: "distinct ws" using r by (simp add: ring_def)
  have "last ws \<notin> set (butlast ws)" "hd ws \<notin> set (tl ws)"
    using d ne by (metis append_butlast_last_id distinct_butlast not_distinct_conv_prefix,
        metis distinct.simps(2) list.collapse)
  then have "chain m' ws = chain m ws"
    using e n p set_butlast_subset [of ws] set_tl_subset [of ws] by (intro chain_cong) auto
  then have "chain m' ws" using r by (simp add: ring_chain)
  moreover have "le_next m' (last ws) = Some e" "le_prev m' e = Some (last ws)"
    using n p e ne by (auto simp: fun_upd_def)
  ultimately show "chain m' (ws @ [e])"
    using chain_snoc2 [of m' "butlast ws" "last ws" e] ne by (simp add: butlast_last_Cons)
  show "distinct (ws @ [e])" using d e by simp
  show "le_next m' (last (ws @ [e])) = Some (hd (ws @ [e]))"
    "le_prev m' (hd (ws @ [e])) = Some (last (ws @ [e]))"
    using n p ne e by auto
qed simp

lemma ring_unlink:
  assumes r: "ring m (e # ws)" and ne: "ws \<noteq> []"
    and n: "le_next m' = (le_next m)(last ws := Some (hd ws))"
    and p: "le_prev m' = (le_prev m)(hd ws := Some (last ws))"
  shows "ring m' ws"
proof (rule ring_intro)
  show d: "distinct ws" using r by (simp add: ring_def)
  have "last ws \<notin> set (butlast ws)" "hd ws \<notin> set (tl ws)"
    using d ne by (metis append_butlast_last_id distinct_butlast not_distinct_conv_prefix,
        metis distinct.simps(2) list.collapse)
  then have "chain m' ws = chain m ws" using n p by (intro chain_cong) auto
  moreover have "chain m ws"
    using ring_chain [OF r] ne by (cases ws) auto
  ultimately show "chain m' ws" by simp
qed (use n p ne in auto)

lemma ring_neighbours:
  assumes "ring m (e # ws)" and "ws \<noteq> []"
  shows "le_next m e = Some (hd ws)" "le_prev m e = Some (last ws)"
proof -
  show "le_next m e = Some (hd ws)"
    using ring_chain [OF assms(1)] assms(2) by (cases ws) auto
  show "le_prev m e = Some (last ws)"
    using ring_last_hd(2) [OF assms(1)] assms(2) by simp
qed

lemma ring_singleton: "ring m [e] \<longleftrightarrow> le_next m e = Some e \<and> le_prev m e = Some e"
  by (simp add: ring_def)

section \<open>Each macro implements its list operation\<close>

text \<open>The nodes outside the list and the inserted node keep their links.\<close>

definition links_frame :: "'p set \<Rightarrow> 'p links \<Rightarrow> 'p links \<Rightarrow> bool" where
  "links_frame A m m' \<longleftrightarrow> (\<forall>p. p \<notin> A \<longrightarrow> le_next m' p = le_next m p \<and> le_prev m' p = le_prev m p)"

lemma ring_frame:
  assumes "links_frame A m m'" and "set xs \<inter> A = {}" and r: "ring m xs"
  shows "ring m' xs"
proof (cases "xs = []")
  case False
  have same: "le_next m' p = le_next m p" "le_prev m' p = le_prev m p" if "p \<in> set xs" for p
    using assms(1,2) that by (auto simp: links_frame_def)
  have "chain m' xs = chain m xs"
    using same set_butlast_subset [of xs] set_tl_subset [of xs] by (intro chain_cong) auto
  then show ?thesis
    using False r ring_chain [OF r] ring_last_hd [OF r False] same
    by (intro ring_intro) (auto simp: ring_def)
qed simp

lemma LIST_INSERT_AFTER_correct:
  assumes r: "ring m (as @ a # bs)" and e: "e \<notin> set (as @ a # bs)"
    and la: "\<And>v. listelm (set_next e v m) = Some a" "listelm m = Some a"
      "\<And>v. listelm (set_next a (Some e) (set_next e v m)) = Some a"
  shows "\<exists>m'. LIST_INSERT_AFTER listelm e (m, h) =
      Inr (m', h\<lparr>NumberOfElements := NumberOfElements h + 1\<rparr>) \<and>
    ring m' (as @ a # e # bs) \<and> links_frame (set (e # as @ a # bs)) m m'"
proof -
  let ?ws = "bs @ as @ [a]"
  have rw: "ring m ?ws" using r ring_rotate [of m "as @ [a]" bs] by simp
  have na: "le_next m a = Some (hd ?ws)" using ring_last_hd(1) [OF rw] by simp
  have ea: "e \<noteq> a" using e by auto
  let ?m = "set_prev (hd ?ws) (Some e) (set_prev e (Some a)
      (set_next a (Some e) (set_next e (Some (hd ?ws)) m)))"
  have eq: "LIST_INSERT_AFTER listelm e (m, h) =
      Inr (?m, h\<lparr>NumberOfElements := NumberOfElements h + 1\<rparr>)"
    using na ea la by (simp add: LIST_INSERT_AFTER_def Let_def)
  have "ring ?m (?ws @ [e])"
    by (rule ring_snoc [OF rw]) (use e in auto)
  then have r': "ring ?m (as @ a # e # bs)"
    using ring_rotate [of ?m bs "as @ [a, e]"] by simp
  have "hd ?ws \<in> set (as @ a # bs)" by (cases bs; cases as) auto
  then have fr: "links_frame (set (e # as @ a # bs)) m ?m"
    by (auto simp: links_frame_def)
  show ?thesis using eq r' fr by blast
qed

text \<open>Inserting before the first node of a ring puts the new node at the end of the sequence.\<close>

lemma LIST_INSERT_BEFORE_first:
  assumes r: "ring m (x # xs)" and e: "e \<notin> set (x # xs)"
  shows "\<exists>m'. LIST_INSERT_BEFORE x e (m, h) =
      Inr (m', h\<lparr>NumberOfElements := NumberOfElements h + 1\<rparr>) \<and>
    ring m' (x # xs @ [e]) \<and> links_frame (set (e # x # xs)) m m'"
proof -
  let ?as = "butlast (x # xs)" and ?a = "last (x # xs)"
  have sp: "x # xs = ?as @ ?a # []"
    by (metis append_butlast_last_id list.distinct(1))
  have pv: "le_prev m x = Some ?a" using ring_last_hd(2) [OF r] by simp
  have "ring m (?as @ ?a # [])" "e \<notin> set (?as @ ?a # [])"
    using r e sp by metis+
  note ins = LIST_INSERT_AFTER_correct [OF this, of "\<lambda>m. le_prev m x" h]
  obtain m' where m': "LIST_INSERT_AFTER (\<lambda>m. le_prev m x) e (m, h) =
        Inr (m', h\<lparr>NumberOfElements := NumberOfElements h + 1\<rparr>)"
      "ring m' (?as @ ?a # e # [])" "links_frame (set (e # ?as @ ?a # [])) m m'"
    using ins pv by auto
  have "?as @ ?a # e # [] = x # xs @ [e]"
    using butlast_last_Cons [of "x # xs" "[e]"] by simp
  moreover have "set (e # ?as @ ?a # []) = set (e # x # xs)" using sp by metis
  ultimately show ?thesis using m' unfolding LIST_INSERT_BEFORE_def by metis
qed

lemma LIST_INSERT_HEAD_correct:
  assumes "klist_rep l xs" and "e \<notin> set xs"
  shows "\<exists>l'. LIST_INSERT_HEAD e l = Inr l' \<and> klist_rep l' (e # xs) \<and>
    links_frame (insert e (set xs)) (fst l) (fst l')"
proof (cases xs)
  case Nil
  with assms show ?thesis
    by (cases l) (auto simp: LIST_INSERT_HEAD_def klist_rep_def Let_def ring_singleton links_frame_def)
next
  case (Cons x ys)
  obtain m h where l: "l = (m, h)" by fastforce
  have r: "ring m (x # ys)" and f: "lh_first h = Some x"
    and n: "NumberOfElements h = of_nat (length xs)"
    using assms(1) l Cons by (auto simp: klist_rep_def)
  from LIST_INSERT_BEFORE_first [OF r, of e h] assms(2) Cons obtain m' where
    m': "LIST_INSERT_BEFORE x e (m, h) = Inr (m', h\<lparr>NumberOfElements := NumberOfElements h + 1\<rparr>)"
      "ring m' (x # ys @ [e])" "links_frame (set (e # x # ys)) m m'" by auto
  have "ring m' (e # x # ys)" using ring_rotate [of m' "[e]" "x # ys"] m'(2) by simp
  then show ?thesis
    using l f n m' Cons by (auto simp: LIST_INSERT_HEAD_def klist_rep_def)
qed

lemma LIST_INSERT_TAIL_correct:
  assumes "klist_rep l xs" and "e \<notin> set xs"
  shows "\<exists>l'. LIST_INSERT_TAIL e l = Inr l' \<and> klist_rep l' (xs @ [e]) \<and>
    links_frame (insert e (set xs)) (fst l) (fst l')"
proof (cases xs)
  case Nil
  with assms LIST_INSERT_HEAD_correct [OF assms] show ?thesis
    by (cases l) (auto simp: LIST_INSERT_TAIL_def klist_rep_def)
next
  case (Cons x ys)
  obtain m h where l: "l = (m, h)" by fastforce
  have r: "ring m (x # ys)" and f: "lh_first h = Some x"
    and n: "NumberOfElements h = of_nat (length xs)"
    using assms(1) l Cons by (auto simp: klist_rep_def)
  from LIST_INSERT_BEFORE_first [OF r, of e h] assms(2) Cons obtain m' where
    m': "LIST_INSERT_BEFORE x e (m, h) = Inr (m', h\<lparr>NumberOfElements := NumberOfElements h + 1\<rparr>)"
      "ring m' (x # ys @ [e])" "links_frame (set (e # x # ys)) m m'" by auto
  then show ?thesis
    using l f n Cons by (auto simp: LIST_INSERT_TAIL_def klist_rep_def)
qed

lemma LIST_NEXT_hd:
  assumes "klist_rep l (x # xs)"
  shows "LIST_NEXT l x = (case xs of [] \<Rightarrow> None | y # _ \<Rightarrow> Some y)"
  using assms by (cases l; cases xs) (auto simp: LIST_NEXT_def klist_rep_def ring_def)

lemma LIST_REMOVE_correct:
  assumes k: "klist_rep l (as @ e # bs)"
  shows "\<exists>l'. LIST_REMOVE e l = Inr l' \<and> klist_rep l' (as @ bs) \<and>
    links_frame (set (as @ e # bs)) (fst l) (fst l')"
proof -
  obtain m h where l: "l = (m, h)" by fastforce
  let ?ws = "bs @ as"
  have r: "ring m (e # ?ws)"
    using k l ring_rotate [of m as "e # bs"] by (auto simp: klist_rep_def)
  let ?f = "if Some e = lh_first h then LIST_NEXT (m, h) e else lh_first h"
  have f: "?f = (if as @ bs = [] then None else Some (hd (as @ bs)))"
  proof (cases as)
    case Nil
    with k l LIST_NEXT_hd [of l e bs] show ?thesis
      by (cases bs) (auto simp: klist_rep_def)
  next
    case (Cons a as')
    with k l have "Some e \<noteq> lh_first h" by (auto simp: klist_rep_def ring_def)
    with k l Cons show ?thesis by (auto simp: klist_rep_def)
  qed
  show ?thesis
  proof (cases "?ws = []")
    case True
    with r have "le_next m e = Some e" "le_prev m e = Some e" by (auto simp: ring_singleton)
    with k l f True show ?thesis
      by (auto simp: LIST_REMOVE_def klist_rep_def links_frame_def Let_def)
  next
    case False
    note nb = ring_neighbours [OF r False]
    have ne: "last ?ws \<noteq> e" "hd ?ws \<noteq> e"
      using r last_in_set [OF False] hd_in_set [OF False] unfolding ring_def
      by (metis distinct.simps(2))+
    let ?m = "set_prev (hd ?ws) (Some (last ?ws)) (set_next (last ?ws) (Some (hd ?ws)) m)"
    have "ring ?m ?ws" by (rule ring_unlink [OF r False]) simp_all
    then have "ring ?m (as @ bs)" using ring_rotate [of ?m as bs] by simp
    moreover have "links_frame (set (as @ e # bs)) m ?m"
      using False last_in_set [OF False] hd_in_set [OF False] by (auto simp: links_frame_def)
    ultimately show ?thesis
      using k l f nb ne by (auto simp: LIST_REMOVE_def klist_rep_def Let_def)
  qed
qed

lemma LIST_REMOVE_HEAD_correct:
  assumes "klist_rep l xs"
  shows "\<exists>l'. LIST_REMOVE_HEAD l = Inr (case xs of [] \<Rightarrow> None | x # _ \<Rightarrow> Some x, l') \<and>
    klist_rep l' (tl xs) \<and> links_frame (set xs) (fst l) (fst l')"
proof (cases xs)
  case Nil
  with assms show ?thesis
    by (cases l) (auto simp: LIST_REMOVE_HEAD_def klist_rep_def links_frame_def)
next
  case (Cons x ys)
  with assms LIST_REMOVE_correct [of l "[]" x ys] show ?thesis
    by (cases l) (auto simp: LIST_REMOVE_HEAD_def klist_rep_def)
qed

lemma LIST_REMOVE_TAIL_correct:
  assumes "klist_rep l xs"
  shows "\<exists>l'. LIST_REMOVE_TAIL l = Inr (if xs = [] then None else Some (last xs), l') \<and>
    klist_rep l' (butlast xs) \<and> links_frame (set xs) (fst l) (fst l')"
proof (cases "xs = []")
  case True
  with assms show ?thesis
    by (cases l) (auto simp: LIST_REMOVE_TAIL_def LIST_EMPTY_def klist_rep_def links_frame_def)
next
  case False
  then have sp: "xs = butlast xs @ last xs # []" by simp
  obtain m h where l: "l = (m, h)" by fastforce
  have "LIST_LAST (m, h) = Some (last xs)"
    using assms False l ring_last_hd(2) [of m xs] by (auto simp: LIST_LAST_def klist_rep_def)
  moreover obtain l' where "LIST_REMOVE (last xs) l = Inr l'" "klist_rep l' (butlast xs)"
      "links_frame (set xs) (fst l) (fst l')"
    using LIST_REMOVE_correct [of l "butlast xs" "last xs" "[]"] assms sp by auto
  ultimately show ?thesis
    using assms l False by (auto simp: LIST_REMOVE_TAIL_def LIST_EMPTY_def klist_rep_def)
qed

lemma LIST_NEXT_at:
  assumes "klist_rep l (as @ b # cs)"
  shows "LIST_NEXT l b = (case cs of [] \<Rightarrow> None | c # _ \<Rightarrow> Some c)"
proof -
  obtain m h where l: "l = (m, h)" "ring m (as @ b # cs)" and h: "lh_first h = Some (hd (as @ [b]))"
    using assms by (cases l; cases as) (auto simp: klist_rep_def)
  show ?thesis
  proof (cases cs)
    case Nil
    then show ?thesis using ring_last_hd(1) [OF l(2)] h l(1) by (simp add: LIST_NEXT_def)
  next
    case (Cons c ds)
    have "le_next m b = Some c"
      using ring_chain [OF l(2)] Cons chain_append [of m as b "c # ds"] by simp
    moreover have "hd (as @ [b]) \<noteq> c" using l(2) Cons by (cases as) (auto simp: ring_def)
    ultimately show ?thesis using l(1) h Cons by (simp add: LIST_NEXT_def)
  qed
qed

lemma LIST_PREV_at:
  assumes "klist_rep l (as @ b # cs)"
  shows "LIST_PREV l b = (if as = [] then None else Some (last as))"
proof -
  obtain m h where l: "l = (m, h)" "ring m (as @ b # cs)" and h: "lh_first h = Some (hd (as @ [b]))"
    using assms by (cases l; cases as) (auto simp: klist_rep_def)
  have la: "le_prev m (hd (as @ [b])) = Some (last (b # cs))"
    using ring_last_hd(2) [OF l(2)] by (cases as) auto
  show ?thesis
  proof (cases as rule: rev_cases)
    case Nil
    then show ?thesis using la h l(1) by (simp add: LIST_PREV_def LIST_LAST_def)
  next
    case (snoc ds d)
    have "le_prev m b = Some d"
      using ring_chain [OF l(2)] snoc chain_append [of m ds d "b # cs"] by simp
    moreover have "d \<noteq> last (b # cs)" using l(2) snoc by (auto simp: ring_def)
    ultimately show ?thesis using l(1) h la snoc by (simp add: LIST_PREV_def LIST_LAST_def)
  qed
qed

lemma LIST_FOREACH_from_correct:
  assumes "klist_rep l (as @ b # bs)" and "length bs < fuel"
  shows "LIST_FOREACH_from fuel l (Some b) = Inr (b # bs)"
  using assms
proof (induction bs arbitrary: as b fuel)
  case Nil
  then show ?case using LIST_NEXT_at [of l as b "[]"] by (cases fuel) auto
next
  case (Cons c cs)
  obtain n where "fuel = Suc n" "length cs < n" using Cons.prems(2) by (cases fuel) auto
  then show ?case
    using Cons.IH [of "as @ [b]" c n] Cons.prems(1) LIST_NEXT_at [OF Cons.prems(1)] by simp
qed

lemma LIST_FOREACH_correct:
  assumes "klist_rep l xs" and "length xs \<le> fuel"
  shows "LIST_FOREACH fuel l = Inr xs"
proof (cases xs)
  case Nil
  with assms show ?thesis by (simp add: LIST_FOREACH_def klist_rep_def)
next
  case (Cons x ys)
  with assms LIST_FOREACH_from_correct [of l "[]" x ys fuel] show ?thesis
    by (simp add: LIST_FOREACH_def klist_rep_def)
qed

section \<open>Lists that share their link fields\<close>

text \<open>
  The heads \<open>hs\<close> with the links \<open>m\<close> hold the sequences \<open>qs\<close>, and no element is on two of them: the
  ready queues of the scheduler share one link field of a thread, the wait queues one of a wait block.
  An operation on one list leaves the others alone.
\<close>

definition klists :: "'p links \<Rightarrow> 'p list_head list \<Rightarrow> 'p list list \<Rightarrow> bool" where
  "klists m hs qs \<longleftrightarrow> length hs = length qs \<and> (\<forall>i < length qs. klist_rep (m, hs ! i) (qs ! i)) \<and>
     (\<forall>i < length qs. \<forall>j < length qs. i \<noteq> j \<longrightarrow> set (qs ! i) \<inter> set (qs ! j) = {})"

lemma klist_rep_frame: "klist_rep (m, h) xs \<Longrightarrow> links_frame A m m' \<Longrightarrow> set xs \<inter> A = {} \<Longrightarrow> klist_rep (m', h) xs"
  by (auto simp: klist_rep_def dest: ring_frame)

lemma klists_nth: "klists m hs qs \<Longrightarrow> i < length qs \<Longrightarrow> klist_rep (m, hs ! i) (qs ! i)"
  by (simp add: klists_def)

lemma klists_update:
  assumes k: "klists m hs qs" and i: "i < length qs" and r: "klist_rep (m', h) ys"
    and fr: "links_frame (insert e (set (qs ! i))) m m'" and ys: "set ys \<subseteq> insert e (set (qs ! i))"
    and e: "\<And>j. j < length qs \<Longrightarrow> j \<noteq> i \<Longrightarrow> e \<notin> set (qs ! j)"
  shows "klists m' (hs[i := h]) (qs[i := ys])"
proof -
  have disj: "set (qs ! j) \<inter> insert e (set (qs ! i)) = {}" if "j < length qs" "j \<noteq> i" for j
    using k e that i by (auto simp: klists_def)
  have "klist_rep (m', hs ! j) (qs ! j)" if "j < length qs" "j \<noteq> i" for j
    using klist_rep_frame [OF klists_nth [OF k that(1)] fr disj [OF that]] .
  then show ?thesis
    using k i r ys disj unfolding klists_def by (auto simp: nth_list_update) blast+
qed

lemma klists_insert_tail:
  assumes k: "klists m hs qs" and i: "i < length qs" and e: "\<And>j. j < length qs \<Longrightarrow> e \<notin> set (qs ! j)"
  shows "\<exists>l. LIST_INSERT_TAIL e (m, hs ! i) = Inr l \<and> klists (fst l) (hs[i := snd l]) (qs[i := qs ! i @ [e]])"
proof -
  obtain l where l: "LIST_INSERT_TAIL e (m, hs ! i) = Inr l" "klist_rep l (qs ! i @ [e])"
    "links_frame (insert e (set (qs ! i))) m (fst l)"
    using LIST_INSERT_TAIL_correct [OF klists_nth [OF k i] e [OF i]] by auto
  then show ?thesis using klists_update [OF k i, of "fst l" "snd l" "qs ! i @ [e]" e] e by auto
qed

lemma klists_remove_head:
  assumes k: "klists m hs qs" and i: "i < length qs" and e: "qs ! i = e # xs"
  shows "\<exists>l. LIST_REMOVE_HEAD (m, hs ! i) = Inr (Some e, l) \<and> klists (fst l) (hs[i := snd l]) (qs[i := xs])"
proof -
  obtain l where l: "LIST_REMOVE_HEAD (m, hs ! i) = Inr (Some e, l)" "klist_rep l xs"
    "links_frame (set (qs ! i)) m (fst l)"
    using LIST_REMOVE_HEAD_correct [OF klists_nth [OF k i]] e by auto
  have "e \<notin> set (qs ! j)" if "j < length qs" "j \<noteq> i" for j using k i e that by (auto simp: klists_def)
  then show ?thesis using klists_update [OF k i, of "fst l" "snd l" xs e] l e by (auto simp: insert_absorb)
qed

lemma ring_next: "ring m xs \<Longrightarrow> x \<in> set xs \<Longrightarrow> le_next m x \<noteq> None"
proof -
  assume r: "ring m xs" and "x \<in> set xs"
  then obtain as bs where "xs = as @ x # bs" by (meson split_list)
  then have "ring m (x # bs @ as)" using r ring_rotate [of m as "x # bs"] by simp
  then show ?thesis by (cases "bs @ as") (auto simp: ring_def)
qed

text \<open>Two rings over the same links are equal or have no node in common.\<close>

lemma chain_unique:
  "chain m (x # xs @ [d]) \<Longrightarrow> chain m (x # ys @ [d]) \<Longrightarrow> d \<notin> set xs \<Longrightarrow> d \<notin> set ys \<Longrightarrow> xs = ys"
proof (induction xs arbitrary: x ys)
  case Nil
  then show ?case by (cases ys) auto
next
  case (Cons a xs)
  then show ?case by (cases ys) auto
qed

lemma ring_unique: "ring m (d # xs) \<Longrightarrow> ring m (d # ys) \<Longrightarrow> xs = ys"
  by (rule chain_unique [of m d xs d]) (auto simp: ring_def)

lemma chain_in_ring: "ring m xs \<Longrightarrow> chain m (x # zs) \<Longrightarrow> x \<in> set xs \<Longrightarrow> set zs \<subseteq> set xs"
proof (induction zs arbitrary: x)
  case (Cons z zs)
  from Cons.prems(3) obtain as bs where "xs = as @ x # bs" by (meson split_list)
  then have r: "ring m (x # bs @ as)" "set (x # bs @ as) = set xs" using Cons.prems(1) ring_rotate [of m as "x # bs"] by auto
  then have "z \<in> set xs" using Cons.prems(2) by (cases "bs @ as") (auto simp: ring_def)
  then show ?case using Cons.IH [OF Cons.prems(1), of z] Cons.prems(2) by simp
qed simp

lemma rings_disjoint:
  assumes "ring m (d # xs)" "ring m (e # ys)" "d \<noteq> e" "e \<notin> set xs"
  shows "set (d # xs) \<inter> set (e # ys) = {}"
proof (rule ccontr)
  assume "set (d # xs) \<inter> set (e # ys) \<noteq> {}"
  then obtain x where x: "x \<in> set (d # xs)" "x \<in> set (e # ys)" by blast
  then obtain as bs where "e # ys = as @ x # bs" by (meson split_list)
  then have "ring m (x # bs @ as)" "e \<in> set (x # bs @ as)" using assms(2) ring_rotate [of m as "x # bs"] list.set_intros(1) [of e ys] by (simp, metis Un_iff list.set(2) set_append insert_iff)
  then have "e \<in> set (d # xs)" using chain_in_ring [OF assms(1) ring_chain x(1), of "bs @ as"] x(1) by auto
  then show False using assms(3,4) by simp
qed

section \<open>The \<open>LIST_ENTRY\<close> ring\<close>

text \<open>The head is itself a node; \<open>Flink\<close> and \<open>Blink\<close> are the two link fields.\<close>

abbreviation Flink :: "'p links \<Rightarrow> 'p \<Rightarrow> 'p option" where "Flink \<equiv> le_next"
abbreviation Blink :: "'p links \<Rightarrow> 'p \<Rightarrow> 'p option" where "Blink \<equiv> le_prev"

definition InitializeListHead :: "'p \<Rightarrow> 'p links \<Rightarrow> 'p links" where
  "InitializeListHead ListHead m =
     (let m = set_prev ListHead (Some ListHead) m in set_next ListHead (Blink m ListHead) m)"

definition InsertHeadList :: "'p \<Rightarrow> 'p \<Rightarrow> 'p links \<Rightarrow> fault + 'p links" where
  "InsertHeadList ListHead Entry m =
     (let OldFlink = Flink m ListHead;
          m = set_next Entry OldFlink m;
          m = set_prev Entry (Some ListHead) m
      in deref OldFlink (\<lambda>old. Inr (set_next ListHead (Some Entry) (set_prev old (Some Entry) m))))"

definition InsertTailList :: "'p \<Rightarrow> 'p \<Rightarrow> 'p links \<Rightarrow> fault + 'p links" where
  "InsertTailList ListHead Entry m =
     (let OldBlink = Blink m ListHead;
          m = set_next Entry (Some ListHead) m;
          m = set_prev Entry OldBlink m
      in deref OldBlink (\<lambda>old. Inr (set_prev ListHead (Some Entry) (set_next old (Some Entry) m))))"

definition IsListEmpty :: "'p \<Rightarrow> 'p links \<Rightarrow> bool" where
  "IsListEmpty ListHead m \<longleftrightarrow> Flink m ListHead = Some ListHead"

definition RemoveEntryList :: "'p \<Rightarrow> 'p links \<Rightarrow> fault + (bool \<times> 'p links)" where
  "RemoveEntryList Entry m =
     (let OldFlink = Flink m Entry; OldBlink = Blink m Entry
      in deref OldFlink (\<lambda>f. let m = set_prev f OldBlink m in
         deref OldBlink (\<lambda>b. Inr (OldFlink = OldBlink, set_next b OldFlink m))))"

definition RemoveHeadList :: "'p \<Rightarrow> 'p links \<Rightarrow> fault + ('p option \<times> 'p links)" where
  "RemoveHeadList ListHead m =
     (let Entry = Flink m ListHead
      in deref Entry (\<lambda>e. let f = Flink m e; m = set_next ListHead f m in
         deref f (\<lambda>f. Inr (Entry, set_prev f (Some ListHead) m))))"

definition RemoveTailList :: "'p \<Rightarrow> 'p links \<Rightarrow> fault + ('p option \<times> 'p links)" where
  "RemoveTailList ListHead m =
     (let Entry = Blink m ListHead
      in deref Entry (\<lambda>e. let b = Blink m e; m = set_prev ListHead b m in
         deref b (\<lambda>b. Inr (Entry, set_next b (Some ListHead) m))))"

lemma InitializeListHead_ring: "ring (InitializeListHead h m) [h]"
  by (simp add: InitializeListHead_def ring_singleton Let_def)

lemma IsListEmpty_ring: "ring m (h # xs) \<Longrightarrow> IsListEmpty h m \<longleftrightarrow> xs = []"
  using ring_neighbours(1) [of m h xs]
  by (cases xs) (auto simp: IsListEmpty_def ring_singleton ring_def)

lemma InsertTailList_correct:
  assumes "ring m (h # xs)" and "e \<notin> set (h # xs)"
  shows "\<exists>m'. InsertTailList h e m = Inr m' \<and> ring m' (h # xs @ [e]) \<and>
    links_frame (set (e # h # xs)) m m'"
proof -
  let ?o = "last (h # xs)"
  let ?m = "set_prev h (Some e) (set_next ?o (Some e) (set_prev e (Some ?o) (set_next e (Some h) m)))"
  have "Blink m h = Some ?o" using ring_last_hd(2) [OF assms(1)] by simp
  then have "InsertTailList h e m = Inr ?m" by (simp add: InsertTailList_def Let_def)
  moreover have "ring ?m ((h # xs) @ [e])"
    by (rule ring_snoc [OF assms(1)]) (use assms(2) in auto)
  moreover have "links_frame (set (e # h # xs)) m ?m"
    using last_in_set [of "h # xs"] by (auto simp: links_frame_def split: if_splits)
  ultimately show ?thesis by auto
qed

lemma InsertHeadList_correct:
  assumes r: "ring m (h # xs)" and e: "e \<notin> set (h # xs)"
  shows "\<exists>m'. InsertHeadList h e m = Inr m' \<and> ring m' (h # e # xs) \<and>
    links_frame (set (e # h # xs)) m m'"
proof -
  let ?ws = "xs @ [h]"
  let ?o = "hd ?ws"
  let ?m = "set_next h (Some e) (set_prev ?o (Some e) (set_prev e (Some h) (set_next e (Some ?o) m)))"
  have rw: "ring m ?ws" using r ring_rotate [of m "[h]" xs] by simp
  have "Flink m h = Some ?o" using ring_last_hd(1) [OF rw] by simp
  then have "InsertHeadList h e m = Inr ?m" by (simp add: InsertHeadList_def Let_def)
  moreover have "ring ?m (?ws @ [e])" by (rule ring_snoc [OF rw]) (use e in auto)
  then have "ring ?m (h # e # xs)" using ring_rotate [of ?m xs "[h, e]"] by simp
  moreover have "?o \<in> set (h # xs)" by (cases xs) auto
  then have "links_frame (set (e # h # xs)) m ?m" by (auto simp: links_frame_def)
  ultimately show ?thesis by blast
qed

lemma RemoveHeadList_correct:
  assumes r: "ring m (h # e # xs)"
  shows "\<exists>m'. RemoveHeadList h m = Inr (Some e, m') \<and> ring m' (h # xs) \<and>
    links_frame (set (h # e # xs)) m m'"
proof -
  let ?ws = "xs @ [h]"
  have re: "ring m (e # ?ws)" using r ring_rotate [of m "[h]" "e # xs"] by simp
  have f: "Flink m h = Some e" using ring_chain [OF r] by simp
  have fe: "Flink m e = Some (hd ?ws)" using ring_neighbours(1) [OF re] by simp
  let ?m = "set_prev (hd ?ws) (Some h) (set_next h (Some (hd ?ws)) m)"
  have "RemoveHeadList h m = Inr (Some e, ?m)" using f fe by (simp add: RemoveHeadList_def Let_def)
  moreover have "ring ?m ?ws" by (rule ring_unlink [OF re]) simp_all
  then have "ring ?m (h # xs)" using ring_rotate [of ?m "[h]" xs] by simp
  moreover have "hd ?ws \<in> set (h # xs)" by (cases xs) auto
  then have "links_frame (set (h # e # xs)) m ?m" by (auto simp: links_frame_def)
  ultimately show ?thesis by blast
qed

lemma RemoveEntryList_correct:
  assumes r: "ring m (as @ e # bs)" and ne: "as @ bs \<noteq> []"
  shows "\<exists>m'. RemoveEntryList e m = Inr (length (as @ bs) = 1, m') \<and> ring m' (as @ bs) \<and>
    links_frame (set (as @ e # bs)) m m'"
proof -
  let ?ws = "bs @ as"
  have re: "ring m (e # ?ws)" using r ring_rotate [of m as "e # bs"] by simp
  have ws: "?ws \<noteq> []" using ne by auto
  note nb = ring_neighbours [OF re ws]
  have "hd ?ws = last ?ws \<longleftrightarrow> length ?ws = 1"
    using ws re by (cases ?ws) (auto simp: ring_def dest: last_in_set split: if_splits)
  then have one: "hd ?ws = last ?ws \<longleftrightarrow> length (as @ bs) = 1" by (simp add: add.commute)
  have hl: "e \<noteq> hd ?ws" "e \<noteq> last ?ws"
    using re hd_in_set [OF ws] last_in_set [OF ws] unfolding ring_def by (metis distinct.simps(2))+
  let ?m = "set_next (last ?ws) (Some (hd ?ws)) (set_prev (hd ?ws) (Some (last ?ws)) m)"
  have "RemoveEntryList e m = Inr (length (as @ bs) = 1, ?m)"
    using nb one by (simp add: RemoveEntryList_def Let_def del: last_append hd_append2)
  moreover have "ring ?m ?ws" by (rule ring_unlink [OF re ws]) simp_all
  then have "ring ?m (as @ bs)" using ring_rotate [of ?m as bs] by simp
  moreover have "links_frame (set (as @ e # bs)) m ?m"
    using hd_in_set [OF ws] last_in_set [OF ws] by (auto simp: links_frame_def)
  ultimately show ?thesis by blast
qed

lemma RemoveTailList_correct:
  assumes r: "ring m (h # xs @ [e])"
  shows "\<exists>m'. RemoveTailList h m = Inr (Some e, m') \<and> ring m' (h # xs) \<and>
    links_frame (set (h # xs @ [e])) m m'"
proof -
  have re: "ring m (e # h # xs)" using r ring_rotate [of m "[e]" "h # xs"] by simp
  have b: "Blink m h = Some e" using ring_chain [OF re] by simp
  have be: "Blink m e = Some (last (h # xs))" using ring_neighbours(2) [OF re] by simp
  let ?m = "set_next (last (h # xs)) (Some h) (set_prev h (Some (last (h # xs))) m)"
  have "RemoveTailList h m = Inr (Some e, ?m)" using b be by (simp add: RemoveTailList_def Let_def)
  moreover have "ring ?m (h # xs)" by (rule ring_unlink [OF re]) simp_all
  moreover have "links_frame (set (h # xs @ [e])) m ?m"
    using last_in_set [of "h # xs"] by (auto simp: links_frame_def split: if_splits)
  ultimately show ?thesis by blast
qed

section \<open>The interface\<close>

text \<open>
  What a client of either list form relies on: a sequence of nodes is represented, and every
  operation has its effect on that sequence. \<open>linkable\<close> says which nodes may be inserted.
\<close>

fun remove_n :: "('s \<Rightarrow> fault + ('p option \<times> 's)) \<Rightarrow> nat \<Rightarrow> 's \<Rightarrow> fault + ('p option list \<times> 's)" where
  "remove_n rm 0 s = Inr ([], s)"
| "remove_n rm (Suc n) s =
     bind (rm s) (\<lambda>(e, s). bind (remove_n rm n s) (\<lambda>(es, s). Inr (e # es, s)))"

locale intrusive_list =
  fixes rep :: "'s \<Rightarrow> 'p list \<Rightarrow> bool"
    and linkable :: "'s \<Rightarrow> 'p \<Rightarrow> bool"
    and insert_head :: "'p \<Rightarrow> 's \<Rightarrow> fault + 's"
    and insert_tail :: "'p \<Rightarrow> 's \<Rightarrow> fault + 's"
    and remove_head :: "'s \<Rightarrow> fault + ('p option \<times> 's)"
    and remove_tail :: "'s \<Rightarrow> fault + ('p option \<times> 's)"
    and remove :: "'p \<Rightarrow> 's \<Rightarrow> fault + 's"
    and is_empty :: "'s \<Rightarrow> bool"
  assumes rep_insert_head: "rep s xs \<Longrightarrow> linkable s e \<Longrightarrow> e \<notin> set xs \<Longrightarrow>
      \<exists>s'. insert_head e s = Inr s' \<and> rep s' (e # xs) \<and> linkable s' = linkable s"
    and rep_insert_tail: "rep s xs \<Longrightarrow> linkable s e \<Longrightarrow> e \<notin> set xs \<Longrightarrow>
      \<exists>s'. insert_tail e s = Inr s' \<and> rep s' (xs @ [e]) \<and> linkable s' = linkable s"
    and rep_remove_head: "rep s (x # xs) \<Longrightarrow>
      \<exists>s'. remove_head s = Inr (Some x, s') \<and> rep s' xs \<and> linkable s' = linkable s"
    and rep_remove_tail: "rep s (xs @ [x]) \<Longrightarrow>
      \<exists>s'. remove_tail s = Inr (Some x, s') \<and> rep s' xs \<and> linkable s' = linkable s"
    and rep_remove: "rep s (as @ e # bs) \<Longrightarrow>
      \<exists>s'. remove e s = Inr s' \<and> rep s' (as @ bs) \<and> linkable s' = linkable s"
    and rep_is_empty: "rep s xs \<Longrightarrow> is_empty s \<longleftrightarrow> xs = []"
begin

lemma insert_all_tail:
  "rep s xs \<Longrightarrow> distinct (xs @ es) \<Longrightarrow> (\<And>e. e \<in> set es \<Longrightarrow> linkable s e) \<Longrightarrow>
   \<exists>s'. foldE insert_tail es s = Inr s' \<and> rep s' (xs @ es)"
proof (induction es arbitrary: s xs)
  case (Cons e es)
  then obtain s1 where s1: "insert_tail e s = Inr s1" "rep s1 (xs @ [e])" "linkable s1 = linkable s"
    using rep_insert_tail [of s xs e] by auto
  then have "\<exists>s'. foldE insert_tail es s1 = Inr s' \<and> rep s' ((xs @ [e]) @ es)"
    using Cons.prems by (intro Cons.IH) auto
  with s1 show ?case by auto
qed auto

lemma insert_all_head:
  "rep s xs \<Longrightarrow> distinct (xs @ es) \<Longrightarrow> (\<And>e. e \<in> set es \<Longrightarrow> linkable s e) \<Longrightarrow>
   \<exists>s'. foldE insert_head es s = Inr s' \<and> rep s' (rev es @ xs)"
proof (induction es arbitrary: s xs)
  case (Cons e es)
  then obtain s1 where s1: "insert_head e s = Inr s1" "rep s1 (e # xs)" "linkable s1 = linkable s"
    using rep_insert_head [of s xs e] by auto
  then have "\<exists>s'. foldE insert_head es s1 = Inr s' \<and> rep s' (rev es @ e # xs)"
    using Cons.prems by (intro Cons.IH) auto
  with s1 show ?case by auto
qed auto

lemma remove_n_head:
  "rep s (es @ xs) \<Longrightarrow>
   \<exists>s'. remove_n remove_head (length es) s = Inr (map Some es, s') \<and> rep s' xs"
proof (induction es arbitrary: s)
  case (Cons e es)
  then obtain s1 where s1: "remove_head s = Inr (Some e, s1)" "rep s1 (es @ xs)"
    using rep_remove_head [of s e "es @ xs"] by auto
  with Cons.IH [of s1] show ?case by auto
qed auto

lemma fifo:
  assumes "rep s []" and "distinct es" and "\<And>e. e \<in> set es \<Longrightarrow> linkable s e"
  shows "\<exists>s1 s2. foldE insert_tail es s = Inr s1 \<and>
    remove_n remove_head (length es) s1 = Inr (map Some es, s2) \<and> rep s2 [] \<and> is_empty s2"
proof -
  obtain s1 where "foldE insert_tail es s = Inr s1" "rep s1 es"
    using insert_all_tail [OF assms(1), of es] assms(2,3) by auto
  moreover obtain s2 where "remove_n remove_head (length es) s1 = Inr (map Some es, s2)" "rep s2 []"
    using remove_n_head [of s1 es "[]"] calculation(2) by auto
  ultimately show ?thesis using rep_is_empty by blast
qed

lemma lifo:
  assumes "rep s []" and "distinct es" and "\<And>e. e \<in> set es \<Longrightarrow> linkable s e"
  shows "\<exists>s1 s2. foldE insert_head es s = Inr s1 \<and>
    remove_n remove_head (length es) s1 = Inr (map Some (rev es), s2) \<and> is_empty s2"
proof -
  obtain s1 where "foldE insert_head es s = Inr s1" "rep s1 (rev es)"
    using insert_all_head [OF assms(1), of es] assms(2,3) by auto
  moreover obtain s2 where
      "remove_n remove_head (length es) s1 = Inr (map Some (rev es), s2)" "rep s2 []"
    using remove_n_head [of s1 "rev es" "[]"] calculation(2) by auto
  ultimately show ?thesis using rep_is_empty by blast
qed

end

interpretation macros: intrusive_list klist_rep "\<lambda>_ _. True" LIST_INSERT_HEAD LIST_INSERT_TAIL
  LIST_REMOVE_HEAD LIST_REMOVE_TAIL LIST_REMOVE "\<lambda>l. LIST_EMPTY (snd l)"
proof (unfold_locales, goal_cases)
  case (1 s xs e)
  then show ?case using LIST_INSERT_HEAD_correct [of s xs e] by auto
next
  case (2 s xs e)
  then show ?case using LIST_INSERT_TAIL_correct [of s xs e] by auto
next
  case (3 s x xs)
  then show ?case using LIST_REMOVE_HEAD_correct [of s "x # xs"] by auto
next
  case (4 s xs x)
  then show ?case using LIST_REMOVE_TAIL_correct [of s "xs @ [x]"] by auto
next
  case (5 s as e bs)
  then show ?case using LIST_REMOVE_correct [of s as e bs] by auto
next
  case (6 s xs)
  then show ?case by (simp add: LIST_EMPTY_def klist_rep_def)
qed

text \<open>The headed ring as a pair of the links and the head node.\<close>

definition entry_rep :: "'p links \<times> 'p \<Rightarrow> 'p list \<Rightarrow> bool" where
  "entry_rep s xs \<longleftrightarrow> ring (fst s) (snd s # xs)"

definition on_links :: "('p links \<Rightarrow> fault + 'p links) \<Rightarrow> 'p links \<times> 'p \<Rightarrow> fault + ('p links \<times> 'p)" where
  "on_links f s = bind (f (fst s)) (\<lambda>m. Inr (m, snd s))"

definition on_links_val ::
    "('p links \<Rightarrow> fault + ('a \<times> 'p links)) \<Rightarrow> 'p links \<times> 'p \<Rightarrow> fault + ('a \<times> ('p links \<times> 'p))" where
  "on_links_val f s = bind (f (fst s)) (\<lambda>(v, m). Inr (v, (m, snd s)))"

interpretation entries: intrusive_list entry_rep "\<lambda>s e. e \<noteq> snd s"
  "\<lambda>e s. on_links (InsertHeadList (snd s) e) s" "\<lambda>e s. on_links (InsertTailList (snd s) e) s"
  "\<lambda>s. on_links_val (RemoveHeadList (snd s)) s" "\<lambda>s. on_links_val (RemoveTailList (snd s)) s"
  "\<lambda>e s. bind (on_links_val (RemoveEntryList e) s) (\<lambda>(_, s). Inr s)"
  "\<lambda>s. IsListEmpty (snd s) (fst s)"
proof (unfold_locales, goal_cases)
  case (1 s xs e)
  then show ?case
    using InsertHeadList_correct [of "fst s" "snd s" xs e] by (auto simp: entry_rep_def on_links_def)
next
  case (2 s xs e)
  then show ?case
    using InsertTailList_correct [of "fst s" "snd s" xs e] by (auto simp: entry_rep_def on_links_def)
next
  case (3 s x xs)
  then show ?case
    using RemoveHeadList_correct [of "fst s" "snd s" x xs]
    by (auto simp: entry_rep_def on_links_val_def)
next
  case (4 s xs x)
  then show ?case
    using RemoveTailList_correct [of "fst s" "snd s" xs x]
    by (auto simp: entry_rep_def on_links_val_def)
next
  case (5 s as e bs)
  then show ?case
    using RemoveEntryList_correct [of "fst s" "snd s # as" e bs]
    by (auto simp: entry_rep_def on_links_val_def)
next
  case (6 s xs)
  then show ?case using IsListEmpty_ring [of "fst s" "snd s" xs] by (simp add: entry_rep_def)
qed

section \<open>Properties\<close>

text \<open>C31. Enqueueing distinct nodes with \<open>LIST_INSERT_TAIL\<close> on an initialised head and dequeueing
  them with \<open>LIST_REMOVE_HEAD\<close> never asserts or follows a null link, returns the nodes in
  insertion order and leaves the list empty, whatever the nodes' links held before.
\<close>

theorem klist_fifo:
  assumes "distinct es"
  shows "\<exists>s1 s2. foldE LIST_INSERT_TAIL es (m, LIST_INIT) = Inr s1 \<and>
    LIST_FOREACH (length es) s1 = Inr es \<and>
    NumberOfElements (snd s1) = of_nat (length es) \<and>
    remove_n LIST_REMOVE_HEAD (length es) s1 = Inr (map Some es, s2) \<and> LIST_EMPTY (snd s2)"
proof -
  have e: "klist_rep (m, LIST_INIT) []" by (simp add: klist_rep_def LIST_INIT_def)
  obtain s1 where s1: "foldE LIST_INSERT_TAIL es (m, LIST_INIT) = Inr s1" "klist_rep s1 es"
    using macros.insert_all_tail [OF e, of es] assms by auto
  have "LIST_FOREACH (length es) s1 = Inr es" by (rule LIST_FOREACH_correct [OF s1(2)]) simp
  moreover have "NumberOfElements (snd s1) = of_nat (length es)"
    using s1(2) by (simp add: klist_rep_def)
  ultimately show ?thesis using macros.fifo [OF e assms] s1 by auto
qed

theorem klist_fifo_witness:
  "\<exists>s1 s2. foldE LIST_INSERT_TAIL [3, 1, 2 :: nat]
        (\<lparr>le_next = \<lambda>_. None, le_prev = \<lambda>_. None\<rparr>, LIST_INIT) = Inr s1 \<and>
     LIST_FOREACH (length [3, 1, 2 :: nat]) s1 = Inr [3, 1, 2] \<and>
     NumberOfElements (snd s1) = of_nat (length [3, 1, 2 :: nat]) \<and>
     remove_n LIST_REMOVE_HEAD (length [3, 1, 2 :: nat]) s1 = Inr (map Some [3, 1, 2], s2) \<and>
     LIST_EMPTY (snd s2)"
  by (rule klist_fifo) simp

end
