(* ===== verification/KeState.thy ===== *)
theory KeState
  imports KList
begin

text \<open>
  The state of the (single) processor and the hardware abstraction layer: the interrupt mask
  registers of \<open>hal/pic.c\<close> and the IRQL mask table of \<open>hal/halx86.c\<close>, the processor control block of
  \<open>ke/processor.c\<close> with its current IRQL, current thread, counters and DPC list, and the spin locks.
  \<open>ke_state\<close> is extensible: the scheduler and the memory manager add their own fields. The lemmas
  show that the mask programmed into the interrupt controller follows the current IRQL.
\<close>

section \<open>State\<close>

type_synonym KIRQL = ULONG
type_synonym kthread = nat
type_synonym PKTHREAD = "kthread option"
type_synonym dpc = nat

abbreviation (input) PASSIVE_LEVEL :: KIRQL where "PASSIVE_LEVEL \<equiv> 0"
abbreviation (input) APC_LEVEL :: KIRQL where "APC_LEVEL \<equiv> 1"
abbreviation (input) DISPATCH_LEVEL :: KIRQL where "DISPATCH_LEVEL \<equiv> 2"
abbreviation (input) CLOCK1_LEVEL :: KIRQL where "CLOCK1_LEVEL \<equiv> 28"
abbreviation (input) HIGH_LEVEL :: KIRQL where "HIGH_LEVEL \<equiv> 31"
abbreviation (input) MAX_IRQL_LEVEL :: KIRQL where "MAX_IRQL_LEVEL \<equiv> 31"

record KSPIN_LOCK =
  Lock :: ULONG
  Thread :: PKTHREAD
  OldIrql :: KIRQL

text \<open>
  The lock variables of the kernel; \<open>ISR_Spinlock\<close> is one per interrupt vector, \<open>ProcessLock\<close> one per process.
\<close>

datatype lock =
    DispatcherDataBaseLock
  | ProcessorLock
  | PoolLock
  | SystemPteSpinLock
  | UserPteSpinLock
  | ExitThreadLock
  | PsActiveProcessHeadLock
  | ISR_Spinlock nat
  | ObjectTypeLock nat | DirectoryLock ULONG
  | ProcessLock nat

datatype KDPC_IMPORTANCE = LowImportance | MediumImportance | HighImportance | MediumHighImportance

text \<open>\<open>Type\<close> is a \<open>KOBJECTS\<close> value; \<open>DeferredRoutine\<close> names the routine the pointer refers to.\<close>

abbreviation (input) DpcObject :: UCHAR where "DpcObject \<equiv> 19"
abbreviation (input) ThreadedDpcObject :: UCHAR where "ThreadedDpcObject \<equiv> 24"

record KDPC =
  Type :: UCHAR
  Importance :: KDPC_IMPORTANCE
  Number :: USHORT
  DeferredRoutine :: nat
  DeferredContext :: ULONG
  SystemArgument1 :: ULONG
  SystemArgument2 :: ULONG

record ke_state =
  Picinitdone :: bool
  Pic8259Mask :: USHORT
  Flags_IF :: bool
  Hal8259MaskTable :: "USHORT list"
  CurrentIrql :: KIRQL
  CurrentThread :: PKTHREAD
  IdleThread :: PKTHREAD
  TimerTicks :: ULONG64
  IdleTime :: ULONG64
  DpcTime :: ULONG64
  IsrTime :: ULONG64
  SoftwareInterrupt :: "ULONG list"
  spin_locks :: "lock \<Rightarrow> KSPIN_LOCK"
  Dpcs :: "dpc \<Rightarrow> KDPC"
  DpcListEntry :: "dpc links"
  DpcListHead :: "dpc list_head"

section \<open>The interrupt controller and the IRQL mask table\<close>

definition HalAreInterruptsEnabled :: "'a ke_state_scheme \<Rightarrow> bool" where
  "HalAreInterruptsEnabled s = Flags_IF s"

definition HalDisableInterrupts :: "'a ke_state_scheme \<Rightarrow> bool \<times> 'a ke_state_scheme" where
  "HalDisableInterrupts s = (HalAreInterruptsEnabled s, s\<lparr>Flags_IF := False\<rparr>)"

definition HalEnableInterrupts :: "'a ke_state_scheme \<Rightarrow> bool \<times> 'a ke_state_scheme" where
  "HalEnableInterrupts s = (HalAreInterruptsEnabled s, s\<lparr>Flags_IF := True\<rparr>)"

definition Pic8259GetMask :: "'a ke_state_scheme \<Rightarrow> USHORT" where
  "Pic8259GetMask s = Pic8259Mask s"

definition Pic8259SetMask :: "USHORT \<Rightarrow> 'a ke_state_scheme \<Rightarrow> fault + 'a ke_state_scheme" where
  "Pic8259SetMask new_mask s =
     (if \<not> Picinitdone s then
        ASSERT ''Pic8259SetMask: mask == Pic8259Mask'' (new_mask = Pic8259Mask s)
        (ASSERT ''Pic8259SetMask: interrupts disabled'' (\<not> HalAreInterruptsEnabled s) (Inr s))
      else Inr (s\<lparr>Pic8259Mask := new_mask\<rparr>))"

abbreviation (input) DEFAULT_PIC_MASK :: USHORT where "DEFAULT_PIC_MASK \<equiv> 0xFFFB"
abbreviation (input) IRQ_START :: ULONG where "IRQ_START \<equiv> 0x20"
abbreviation (input) IRQ_END :: ULONG where "IRQ_END \<equiv> 0x3F"
abbreviation (input) SYSCALL_INTR :: ULONG where "SYSCALL_INTR \<equiv> 0x40"

definition Pic8259Init :: "'a ke_state_scheme \<Rightarrow> fault + 'a ke_state_scheme" where
  "Pic8259Init s = Pic8259SetMask DEFAULT_PIC_MASK (s\<lparr>Picinitdone := True\<rparr>)"

text \<open>\<open>Hal8259MaskTable[irql]\<close>; the array has \<open>MAX_IRQL_LEVEL + 1\<close> entries.\<close>

definition mask_at :: "KIRQL \<Rightarrow> 'a ke_state_scheme \<Rightarrow> (USHORT \<Rightarrow> fault + 'b) \<Rightarrow> fault + 'b" where
  "mask_at irql s k =
     (if unat irql < length (Hal8259MaskTable s) then k (Hal8259MaskTable s ! unat irql) else Inl OutOfBounds)"

definition set_mask_at :: "KIRQL \<Rightarrow> USHORT \<Rightarrow> 'a ke_state_scheme \<Rightarrow> fault + 'a ke_state_scheme" where
  "set_mask_at irql v s =
     (if unat irql < length (Hal8259MaskTable s)
      then Inr (s\<lparr>Hal8259MaskTable := (Hal8259MaskTable s)[unat irql := v]\<rparr>) else Inl OutOfBounds)"

definition KeGetCurrentIrql :: "'a ke_state_scheme \<Rightarrow> fault + KIRQL" where
  "KeGetCurrentIrql s =
     ASSERT ''KeGetCurrentIrql: CurrentIrql <= MAX_IRQL_LEVEL'' (CurrentIrql s \<le> MAX_IRQL_LEVEL)
       (Inr (CurrentIrql s))"

definition KiSetCurrentIrql :: "KIRQL \<Rightarrow> 'a ke_state_scheme \<Rightarrow> fault + 'a ke_state_scheme" where
  "KiSetCurrentIrql NewIrql s =
     ASSERT ''KiSetCurrentIrql: NewIrql <= MAX_IRQL_LEVEL'' (NewIrql \<le> MAX_IRQL_LEVEL)
       (Inr (s\<lparr>CurrentIrql := NewIrql\<rparr>))"

definition unmask :: "ULONG \<Rightarrow> USHORT" where
  "unmask Vector = ucast (NOT (push_bit (unat (Vector - IRQ_START)) (1 :: ULONG)))"

definition register_body :: "USHORT \<Rightarrow> KIRQL \<Rightarrow> 'a ke_state_scheme \<Rightarrow> fault + 'a ke_state_scheme" where
  "register_body vmask irql s = mask_at irql s (\<lambda>m. set_mask_at irql (m AND vmask) s)"

definition HalRegisterVectortoIrql :: "KIRQL \<Rightarrow> ULONG \<Rightarrow> 'a ke_state_scheme \<Rightarrow> fault + 'a ke_state_scheme" where
  "HalRegisterVectortoIrql Irql Vector s =
     ASSERT ''HalRegisterVectortoIrql: Irql <= MAX_IRQL_LEVEL'' (Irql \<le> MAX_IRQL_LEVEL)
     (bind (foldE (register_body (unmask Vector)) (range32 0 Irql) s) (\<lambda>s.
      bind (KeGetCurrentIrql s) (\<lambda>irql. mask_at irql s (\<lambda>m. Pic8259SetMask m s))))"

definition HalRaiseIrql :: "KIRQL \<Rightarrow> KIRQL \<Rightarrow> 'a ke_state_scheme \<Rightarrow> fault + 'a ke_state_scheme" where
  "HalRaiseIrql NewIrql Current s =
     mask_at Current s (\<lambda>m.
     ASSERT ''HalRaiseIrql: Hal8259MaskTable[CurrentIrql] == Pic8259GetMask()'' (m = Pic8259GetMask s)
     (ASSERT ''HalRaiseIrql: NewIrql >= CurrentIrql'' (NewIrql \<ge> Current)
       (mask_at NewIrql s (\<lambda>m. Pic8259SetMask m s))))"

definition HalLowerIrql :: "KIRQL \<Rightarrow> KIRQL \<Rightarrow> 'a ke_state_scheme \<Rightarrow> fault + 'a ke_state_scheme" where
  "HalLowerIrql NewIrql Current s =
     mask_at Current s (\<lambda>m.
     ASSERT ''HalLowerIrql: Hal8259MaskTable[CurrentIrql] == Pic8259GetMask()'' (m = Pic8259GetMask s)
     (ASSERT ''HalLowerIrql: NewIrql <= CurrentIrql'' (NewIrql \<le> Current)
       (mask_at NewIrql s (\<lambda>m. Pic8259SetMask m s))))"

definition Halinit :: "'a ke_state_scheme \<Rightarrow> fault + 'a ke_state_scheme" where
  "Halinit s =
     bind (Pic8259Init s) (foldE (\<lambda>i s.
       ASSERT ''Halinit: default mask'' (Pic8259GetMask s = 0xFFFB)
         (set_mask_at i (Pic8259GetMask s) s)) (map of_nat [0..<32]))"

section \<open>The processor control block\<close>

definition KiGetCurrentTimerTicks :: "'a ke_state_scheme \<Rightarrow> ULONG64" where
  "KiGetCurrentTimerTicks s = TimerTicks s"

definition KiIncrementCurrentTimerTicks :: "'a ke_state_scheme \<Rightarrow> 'a ke_state_scheme" where
  "KiIncrementCurrentTimerTicks s = s\<lparr>TimerTicks := TimerTicks s + 1\<rparr>"

definition KeGetCurrentThread :: "'a ke_state_scheme \<Rightarrow> PKTHREAD" where
  "KeGetCurrentThread s = CurrentThread s"

definition KiSetCurrentThread :: "PKTHREAD \<Rightarrow> 'a ke_state_scheme \<Rightarrow> fault + 'a ke_state_scheme" where
  "KiSetCurrentThread t s =
     ASSERT ''KiSetCurrentThread: Thread'' (t \<noteq> None) (Inr (s\<lparr>CurrentThread := t\<rparr>))"

definition KiGetIdleThread :: "'a ke_state_scheme \<Rightarrow> PKTHREAD" where
  "KiGetIdleThread s = IdleThread s"

text \<open>\<open>KiProcessorBlock\<close> has \<open>MAX_ALLOWED_NUM_PROCESSORS\<close>, one, entry.\<close>

definition KiGetPrcb :: "ULONG \<Rightarrow> fault + 'b \<Rightarrow> fault + 'b" where
  "KiGetPrcb ProcessorNumber k = (if ProcessorNumber = 0 then k else Inl OutOfBounds)"

definition KiSetIdleThread :: "PKTHREAD \<Rightarrow> LONG \<Rightarrow> 'a ke_state_scheme \<Rightarrow> fault + 'a ke_state_scheme" where
  "KiSetIdleThread t ProcessorNumber s =
     (if ProcessorNumber = - 1 then Inr (s\<lparr>IdleThread := t\<rparr>)
      else KiGetPrcb ProcessorNumber (Inr (s\<lparr>IdleThread := t\<rparr>)))"

definition KiRequestSoftwareInterrupt :: "KIRQL \<Rightarrow> 'a ke_state_scheme \<Rightarrow> fault + 'a ke_state_scheme" where
  "KiRequestSoftwareInterrupt Irql s =
     ASSERT ''KiRequestSoftwareInterrupt: Irql'' (Irql = DISPATCH_LEVEL \<or> Irql = APC_LEVEL)
       (Inr (s\<lparr>SoftwareInterrupt := (SoftwareInterrupt s)[unat (Irql - 1) := 1]\<rparr>))"

definition KiIncrementCurrentProcessorsIdleTime :: "'a ke_state_scheme \<Rightarrow> 'a ke_state_scheme" where
  "KiIncrementCurrentProcessorsIdleTime s = s\<lparr>IdleTime := IdleTime s + 1\<rparr>"

definition KiIncrementCurrentProcessorsDpcTime :: "'a ke_state_scheme \<Rightarrow> 'a ke_state_scheme" where
  "KiIncrementCurrentProcessorsDpcTime s = s\<lparr>DpcTime := DpcTime s + 1\<rparr>"

definition KiIncrementCurrentProcessorsIsrTime :: "'a ke_state_scheme \<Rightarrow> 'a ke_state_scheme" where
  "KiIncrementCurrentProcessorsIsrTime s = s\<lparr>IsrTime := IsrTime s + 1\<rparr>"

section \<open>The mask follows the IRQL\<close>

text \<open>
  \<open>hal_ok\<close>: the controller is programmed with the table entry of the current IRQL, and before the
  controller is initialised every entry is the mask it has and interrupts are off.
\<close>

definition hal_ok :: "'a ke_state_scheme \<Rightarrow> bool" where
  "hal_ok s \<longleftrightarrow> length (Hal8259MaskTable s) = 32 \<and> CurrentIrql s \<le> MAX_IRQL_LEVEL \<and>
     Hal8259MaskTable s ! unat (CurrentIrql s) = Pic8259Mask s \<and>
     (\<not> Picinitdone s \<longrightarrow> \<not> Flags_IF s \<and> (\<forall>m \<in> set (Hal8259MaskTable s). m = Pic8259Mask s))"

text \<open>A higher IRQL masks every interrupt a lower one masks.\<close>

definition mask_mono :: "'a ke_state_scheme \<Rightarrow> bool" where
  "mask_mono s \<longleftrightarrow> (\<forall>i j n. i \<le> j \<and> j < length (Hal8259MaskTable s) \<and> bit (Hal8259MaskTable s ! i) n \<longrightarrow>
     bit (Hal8259MaskTable s ! j) n)"

lemma irql_less_32: "(i :: KIRQL) \<le> 31 \<Longrightarrow> unat i < 32"
  by (simp add: word_le_nat_alt)

lemma hal_ok_irql: "hal_ok s \<Longrightarrow> KeGetCurrentIrql s = Inr (CurrentIrql s)"
  by (simp add: hal_ok_def KeGetCurrentIrql_def)

lemma hal_ok_D:
  assumes "hal_ok s"
  shows "length (Hal8259MaskTable s) = 32" and "CurrentIrql s \<le> MAX_IRQL_LEVEL"
    and "Hal8259MaskTable s ! unat (CurrentIrql s) = Pic8259Mask s"
    and "\<not> Picinitdone s \<Longrightarrow> \<not> Flags_IF s"
    and "\<not> Picinitdone s \<Longrightarrow> i \<le> MAX_IRQL_LEVEL \<Longrightarrow> Hal8259MaskTable s ! unat i = Pic8259Mask s"
  using assms irql_less_32 [of i] by (auto simp: hal_ok_def)

lemma Pic8259SetMask_ok:
  assumes "hal_ok s" and "i \<le> MAX_IRQL_LEVEL"
  shows "Pic8259SetMask (Hal8259MaskTable s ! unat i) s = Inr (s\<lparr>Pic8259Mask := Hal8259MaskTable s ! unat i\<rparr>)"
  using hal_ok_D(4) [OF assms(1)] hal_ok_D(5) [OF assms(1) _ assms(2)]
  by (cases "Picinitdone s") (simp_all add: Pic8259SetMask_def HalAreInterruptsEnabled_def)

lemma Pic8259SetMask_irql [simp]:
  "Pic8259SetMask m (s\<lparr>CurrentIrql := i\<rparr>) = bind (Pic8259SetMask m s) (\<lambda>s. Inr (s\<lparr>CurrentIrql := i\<rparr>))"
  by (simp add: Pic8259SetMask_def HalAreInterruptsEnabled_def ASSERT_def)

definition at_irql :: "KIRQL \<Rightarrow> 'a ke_state_scheme \<Rightarrow> 'a ke_state_scheme" where
  "at_irql i s = s\<lparr>CurrentIrql := i, Pic8259Mask := Hal8259MaskTable s ! unat i\<rparr>"

lemma hal_ok_at_irql:
  assumes "hal_ok s" and "i \<le> MAX_IRQL_LEVEL"
  shows "hal_ok (at_irql i s)"
proof -
  have "\<forall>m \<in> set (Hal8259MaskTable s). m = Hal8259MaskTable s ! unat i" if "\<not> Picinitdone s"
    using hal_ok_D(5) [OF assms(1) that assms(2)] assms(1) that unfolding hal_ok_def by simp
  then show ?thesis using assms unfolding hal_ok_def at_irql_def by simp
qed

lemma at_irql_same: "hal_ok s \<Longrightarrow> at_irql (CurrentIrql s) s = s"
  by (simp add: hal_ok_def at_irql_def)

lemma at_irql_twice [simp]: "at_irql j (at_irql i s) = at_irql j s"
  by (simp add: at_irql_def)

lemma at_irql_sel [simp]:
  "CurrentIrql (at_irql i s) = i" "Hal8259MaskTable (at_irql i s) = Hal8259MaskTable s"
  "Pic8259Mask (at_irql i s) = Hal8259MaskTable s ! unat i" "Picinitdone (at_irql i s) = Picinitdone s"
  "Flags_IF (at_irql i s) = Flags_IF s" "CurrentThread (at_irql i s) = CurrentThread s"
  "spin_locks (at_irql i s) = spin_locks s" "Dpcs (at_irql i s) = Dpcs s"
  "DpcListEntry (at_irql i s) = DpcListEntry s" "DpcListHead (at_irql i s) = DpcListHead s"
  by (simp_all add: at_irql_def)

lemma HalRaiseIrql_eq:
  assumes "hal_ok s" and "CurrentIrql s \<le> i" and "i \<le> MAX_IRQL_LEVEL"
  shows "HalRaiseIrql i (CurrentIrql s) s = Inr (s\<lparr>Pic8259Mask := Hal8259MaskTable s ! unat i\<rparr>)"
  using assms irql_less_32 [of i] irql_less_32 [of "CurrentIrql s"] hal_ok_D [OF assms(1)]
  by (simp add: HalRaiseIrql_def mask_at_def Pic8259GetMask_def Pic8259SetMask_ok)

text \<open>\<open>KeLowerIrql\<close> stores the new IRQL before it programs the controller.\<close>

lemma HalLowerIrql_after_store:
  assumes "hal_ok s" and "i \<le> CurrentIrql s"
  shows "HalLowerIrql i (CurrentIrql s) (s\<lparr>CurrentIrql := i\<rparr>) = Inr (at_irql i s)"
proof -
  have i: "i \<le> MAX_IRQL_LEVEL" using assms hal_ok_D(2) [OF assms(1)] by (meson order_trans)
  show ?thesis
    using assms i irql_less_32 [OF i] irql_less_32 [of "CurrentIrql s"] hal_ok_D(1-3) [OF assms(1)]
    by (simp add: HalLowerIrql_def mask_at_def Pic8259GetMask_def Pic8259SetMask_ok at_irql_def)
qed

section \<open>Registering interrupt vectors\<close>

lemma bit_unmask:
  "bit (unmask v) n \<longleftrightarrow> n < 16 \<and> n \<noteq> unat (v - IRQ_START)"
  by (auto simp: unmask_def bit_simps)

lemma register_loop:
  assumes "b \<le> length (Hal8259MaskTable s)" and "b < 2 ^ 32"
  shows "foldE (register_body w) (map of_nat [0..<b]) s =
    Inr (s\<lparr>Hal8259MaskTable := map (\<lambda>k. if k < b then Hal8259MaskTable s ! k AND w
      else Hal8259MaskTable s ! k) [0..<length (Hal8259MaskTable s)]\<rparr>)"
  using assms
proof (induction b)
  case 0
  then show ?case by (simp add: map_nth)
next
  case (Suc b)
  let ?T = "Hal8259MaskTable s"
  have u: "unat (of_nat b :: KIRQL) = b" using Suc.prems by (intro unat_of_nat32) simp
  have "(map (\<lambda>k. if k < b then ?T ! k AND w else ?T ! k) [0..<length ?T])[b := ?T ! b AND w] =
      map (\<lambda>k. if k < Suc b then ?T ! k AND w else ?T ! k) [0..<length ?T]"
    using Suc.prems by (intro nth_equalityI) (auto simp: nth_list_update less_Suc_eq)
  with Suc u show ?case
    by (simp add: foldE_append register_body_def mask_at_def set_mask_at_def)
qed

lemma HalRegisterVectortoIrql_eq:
  assumes ok: "hal_ok s" and i: "Irql \<le> MAX_IRQL_LEVEL" and pic: "Picinitdone s"
  shows "HalRegisterVectortoIrql Irql Vector s = Inr (at_irql (CurrentIrql s)
    (s\<lparr>Hal8259MaskTable := map (\<lambda>k. if k < unat Irql then Hal8259MaskTable s ! k AND unmask Vector
      else Hal8259MaskTable s ! k) [0..<32]\<rparr>))"
proof -
  note d = hal_ok_D [OF ok]
  have "foldE (register_body (unmask Vector)) (range32 0 Irql) s =
      Inr (s\<lparr>Hal8259MaskTable := map (\<lambda>k. if k < unat Irql then Hal8259MaskTable s ! k AND unmask Vector
        else Hal8259MaskTable s ! k) [0..<32]\<rparr>)"
    using irql_less_32 [OF i] d(1) by (simp add: range32_def register_loop)
  then show ?thesis
    using irql_less_32 [OF d(2)] i pic d(2)
    by (simp add: HalRegisterVectortoIrql_def KeGetCurrentIrql_def mask_at_def Pic8259SetMask_def
        at_irql_def)
qed

lemma register_keeps_hal_ok:
  assumes "hal_ok s" and "Irql \<le> MAX_IRQL_LEVEL" and "Picinitdone s"
    and "HalRegisterVectortoIrql Irql Vector s = Inr s'"
  shows "hal_ok s'"
  using assms HalRegisterVectortoIrql_eq [OF assms(1-3), of Vector] hal_ok_D [OF assms(1)]
    irql_less_32 [of "CurrentIrql s"]
  by (auto simp: hal_ok_def)

lemma Halinit_eq:
  assumes "length (Hal8259MaskTable s) = 32"
  shows "Halinit s = Inr (s\<lparr>Picinitdone := True, Pic8259Mask := DEFAULT_PIC_MASK,
    Hal8259MaskTable := replicate 32 DEFAULT_PIC_MASK\<rparr>)"
proof -
  let ?s = "s\<lparr>Picinitdone := True, Pic8259Mask := DEFAULT_PIC_MASK\<rparr>"
  have "foldE (\<lambda>i s. ASSERT ''Halinit: default mask'' (Pic8259GetMask s = 0xFFFB)
         (set_mask_at i (Pic8259GetMask s) s)) (map of_nat [0..<n]) ?s =
      Inr (?s\<lparr>Hal8259MaskTable := replicate n DEFAULT_PIC_MASK @ drop n (Hal8259MaskTable s)\<rparr>)"
    if "n \<le> 32" for n
    using that
  proof (induction n)
    case (Suc n)
    have u: "unat (of_nat n :: KIRQL) = n" using Suc.prems by (intro unat_of_nat32) simp
    have "(replicate n DEFAULT_PIC_MASK @ drop n (Hal8259MaskTable s))[n := DEFAULT_PIC_MASK] =
        replicate (Suc n) DEFAULT_PIC_MASK @ drop (Suc n) (Hal8259MaskTable s)"
      using Suc.prems assms by (simp add: list_update_append replicate_append_same
          flip: Cons_nth_drop_Suc)
    with Suc u assms show ?case by (simp add: foldE_append set_mask_at_def Pic8259GetMask_def)
  qed simp
  from this [of 32] show ?thesis
    using assms by (simp add: Halinit_def Pic8259Init_def Pic8259SetMask_def)
qed

end
