(* ===== verification/KeLocks.thy ===== *)
theory KeLocks
  imports KeState
begin

text \<open>
  \<open>inc/interlocked.h\<close>, \<open>ke/irql.c\<close>, \<open>ke/locks.c\<close>, the processor lock of \<open>ke/processor.c\<close> and \<open>ke/dpc.c\<close>.
  Lowering the IRQL below \<open>DISPATCH_LEVEL\<close> drains the DPC queue, and draining the queue takes and
  releases the processor lock, which lowers the IRQL: the functions are mutually recursive. The
  model ties the knot through an argument: \<open>KeLowerIrql_with\<close> is the body of \<open>KeLowerIrql\<close> with the
  queue processor as its argument, and the loop of \<open>KiProcessDpcQueue\<close> passes itself with less fuel,
  one unit per round. \<open>run\<close> is what the deferred routine pointers refer to.
\<close>

section \<open>Interlocked operations\<close>

text \<open>Each returns the value it reports and the new contents of the location.\<close>

definition InterlockedExchangeAdd :: "LONG \<Rightarrow> LONG \<Rightarrow> LONG \<times> LONG" where
  "InterlockedExchangeAdd Addend Value = (Addend, Addend + Value)"

definition InterlockedIncrement :: "LONG \<Rightarrow> LONG \<times> LONG" where
  "InterlockedIncrement Addend = (let (r, a) = InterlockedExchangeAdd Addend 1 in (r + 1, a))"

definition InterlockedDecrement :: "LONG \<Rightarrow> LONG \<times> LONG" where
  "InterlockedDecrement Addend = (let (r, a) = InterlockedExchangeAdd Addend (- 1) in (r - 1, a))"

definition InterlockedCompareExchange :: "LONG \<Rightarrow> LONG \<Rightarrow> LONG \<Rightarrow> LONG \<times> LONG" where
  "InterlockedCompareExchange Destination Exchange Comperand =
     (Destination, if Destination = Comperand then Exchange else Destination)"

definition InterlockedExchange :: "LONG \<Rightarrow> LONG \<Rightarrow> LONG \<times> LONG" where
  "InterlockedExchange Target Value = (Target, Value)"

definition InterlockedAnd :: "LONG \<Rightarrow> LONG \<Rightarrow> LONG \<times> LONG" where
  "InterlockedAnd v m = (v, v AND m)"

definition InterlockedOr :: "LONG \<Rightarrow> LONG \<Rightarrow> LONG \<times> LONG" where
  "InterlockedOr v m = (v, v OR m)"

definition InterlockedXor :: "LONG \<Rightarrow> LONG \<Rightarrow> LONG \<times> LONG" where
  "InterlockedXor v m = (v, v XOR m)"

section \<open>Raising the IRQL\<close>

definition KeRaiseIrql :: "KIRQL \<Rightarrow> 'a ke_state_scheme \<Rightarrow> fault + (KIRQL \<times> 'a ke_state_scheme)" where
  "KeRaiseIrql NewIrql s =
     bind (KeGetCurrentIrql s) (\<lambda>Current.
     ASSERT ''KeRaiseIrql: NewIrql >= CurrentIrql'' (NewIrql \<ge> Current)
     (ASSERT ''KeRaiseIrql: NewIrql != 3'' (NewIrql \<noteq> 3)
     (bind (if NewIrql \<noteq> Current then bind (HalRaiseIrql NewIrql Current s) (KiSetCurrentIrql NewIrql)
            else Inr s) (\<lambda>s.
      Inr (Current, s)))))"

definition KeLowerIrql_with ::
  "('a ke_state_scheme \<Rightarrow> fault + 'a ke_state_scheme) \<Rightarrow> KIRQL \<Rightarrow> 'a ke_state_scheme \<Rightarrow> fault + 'a ke_state_scheme"
where
  "KeLowerIrql_with ProcessDpcQueue Old s =
     bind (KeGetCurrentIrql s) (\<lambda>Current.
     ASSERT ''KeLowerIrql: OldIrql <= CurrentIrql'' (Old \<le> Current)
     (bind (if Old < DISPATCH_LEVEL \<and> Current \<ge> DISPATCH_LEVEL then
              bind (KiSetCurrentIrql DISPATCH_LEVEL s) (\<lambda>s.
              bind (HalLowerIrql DISPATCH_LEVEL Current s) (\<lambda>s.
              bind (ProcessDpcQueue s) (\<lambda>s.
              Inr (DISPATCH_LEVEL, s))))
            else Inr (Current, s)) (\<lambda>(Current, s).
      if Old \<noteq> Current then bind (KiSetCurrentIrql Old s) (HalLowerIrql Old Current) else Inr s)))"

section \<open>Spin locks\<close>

definition set_lock :: "lock \<Rightarrow> (KSPIN_LOCK \<Rightarrow> KSPIN_LOCK) \<Rightarrow> 'a ke_state_scheme \<Rightarrow> 'a ke_state_scheme" where
  "set_lock l f s = s\<lparr>spin_locks := (spin_locks s)(l := f (spin_locks s l))\<rparr>"

text \<open>
  The argument of \<open>memset\<close> is the address of the parameter, a local copy of the pointer, so the lock
  the caller passes keeps its contents.
\<close>

definition KeInitializeSpinLock :: "lock \<Rightarrow> 'a ke_state_scheme \<Rightarrow> 'a ke_state_scheme" where
  "KeInitializeSpinLock l s = s"

definition KeQuerySpinLock :: "lock \<Rightarrow> 'a ke_state_scheme \<Rightarrow> ULONG \<times> PKTHREAD" where
  "KeQuerySpinLock l s = (Lock (spin_locks s l), Thread (spin_locks s l))"

text \<open>
  \<open>while (Result != 0) Result = InterlockedExchange(&SpinLock->Lock, 1)\<close>: nothing else runs at
  \<open>DISPATCH_LEVEL\<close> on the one processor, so the value of the lock is the one this loop wrote.
\<close>

fun spin :: "nat \<Rightarrow> lock \<Rightarrow> 'a ke_state_scheme \<Rightarrow> fault + 'a ke_state_scheme" where
  "spin 0 l s = Inl Hang"
| "spin (Suc fuel) l s =
     (let (Result, v) = InterlockedExchange (Lock (spin_locks s l)) 1;
          s = set_lock l (\<lambda>k. k\<lparr>Lock := v\<rparr>) s
      in if Result \<noteq> 0 then spin fuel l s else Inr s)"

abbreviation (input) SPINS :: nat where "SPINS \<equiv> 2"

definition KeAcquireSpinLock :: "lock \<Rightarrow> 'a ke_state_scheme \<Rightarrow> fault + (KIRQL \<times> 'a ke_state_scheme)" where
  "KeAcquireSpinLock l s =
     bind (KeGetCurrentIrql s) (\<lambda>Current.
     ASSERT ''KeAcquireSpinLock: IRQL <= DISPATCH_LEVEL'' (Current \<le> DISPATCH_LEVEL)
     (ASSERT ''KeAcquireSpinLock: SpinLock->Thread != DThread''
        (Thread (spin_locks s l) \<noteq> None \<longrightarrow> Thread (spin_locks s l) \<noteq> KeGetCurrentThread s)
     (bind (KeRaiseIrql DISPATCH_LEVEL s) (\<lambda>(Old, s).
      bind (spin SPINS l s) (\<lambda>s.
      Inr (Old, set_lock l (\<lambda>k. k\<lparr>OldIrql := Old, Thread := KeGetCurrentThread s\<rparr>) s))))))"

definition KeAcquireSpinLockAtDpcLevel :: "lock \<Rightarrow> 'a ke_state_scheme \<Rightarrow> fault + 'a ke_state_scheme" where
  "KeAcquireSpinLockAtDpcLevel l s =
     bind (KeGetCurrentIrql s) (\<lambda>DIrql.
     ASSERT ''KeAcquireSpinLockAtDpcLevel: IRQL >= DISPATCH_LEVEL'' (DIrql \<ge> DISPATCH_LEVEL)
     (ASSERT ''KeAcquireSpinLockAtDpcLevel: SpinLock->Thread != DThread''
        (Thread (spin_locks s l) \<noteq> None \<longrightarrow> Thread (spin_locks s l) \<noteq> KeGetCurrentThread s)
     (bind (spin SPINS l s) (\<lambda>s.
      Inr (set_lock l (\<lambda>k. k\<lparr>OldIrql := DISPATCH_LEVEL, Thread := KeGetCurrentThread s\<rparr>) s)))))"

definition unlock :: "string \<Rightarrow> lock \<Rightarrow> 'a ke_state_scheme \<Rightarrow> fault + 'a ke_state_scheme" where
  "unlock msg l s =
     (let (Result, v) = InterlockedExchange (Lock (spin_locks s l)) 0;
          s = set_lock l (\<lambda>k. k\<lparr>Lock := v\<rparr>) s
      in ASSERT msg (Result = 1) (Inr (set_lock l (\<lambda>k. k\<lparr>OldIrql := 0, Thread := None\<rparr>) s)))"

definition KeReleaseSpinLockFromDpcLevel :: "lock \<Rightarrow> 'a ke_state_scheme \<Rightarrow> fault + 'a ke_state_scheme" where
  "KeReleaseSpinLockFromDpcLevel l s =
     bind (KeGetCurrentIrql s) (\<lambda>DIrql.
     ASSERT ''KeReleaseSpinLockFromDpcLevel: IRQL >= DISPATCH_LEVEL'' (DIrql \<ge> DISPATCH_LEVEL)
     (ASSERT ''KeReleaseSpinLockFromDpcLevel: SpinLock->Thread == DThread''
        (Thread (spin_locks s l) = KeGetCurrentThread s)
        (unlock ''KeReleaseSpinLockFromDpcLevel: Result == 1'' l s)))"

section \<open>The processor lock and the DPC queue\<close>

definition KiLockProcessorRaisetoHighLevel ::
  "ULONG \<Rightarrow> 'a ke_state_scheme \<Rightarrow> fault + (KIRQL \<times> 'a ke_state_scheme)" where
  "KiLockProcessorRaisetoHighLevel ProcessorNumber s =
     KiGetPrcb ProcessorNumber
     (bind (KeRaiseIrql HIGH_LEVEL s) (\<lambda>(Old, s).
      bind (KeAcquireSpinLockAtDpcLevel ProcessorLock s) (\<lambda>s. Inr (Old, s))))"

definition KiUnLockProcessorFromHighLevel_with ::
  "('a ke_state_scheme \<Rightarrow> fault + 'a ke_state_scheme) \<Rightarrow> ULONG \<Rightarrow> KIRQL \<Rightarrow> 'a ke_state_scheme \<Rightarrow>
   fault + 'a ke_state_scheme" where
  "KiUnLockProcessorFromHighLevel_with ProcessDpcQueue ProcessorNumber Old s =
     bind (KeGetCurrentIrql s) (\<lambda>Current.
     ASSERT ''KiUnLockProcessorFromHighLevel: HIGH_LEVEL'' (Current = HIGH_LEVEL)
     (KiGetPrcb ProcessorNumber
     (bind (KeReleaseSpinLockFromDpcLevel ProcessorLock s) (KeLowerIrql_with ProcessDpcQueue Old))))"

type_synonym 's deferred_routines = "nat \<Rightarrow> dpc \<Rightarrow> ULONG \<Rightarrow> ULONG \<Rightarrow> ULONG \<Rightarrow> 's \<Rightarrow> fault + 's"

definition call_dpc ::
  "'a ke_state_scheme deferred_routines \<Rightarrow> dpc \<Rightarrow> 'a ke_state_scheme \<Rightarrow> fault + 'a ke_state_scheme" where
  "call_dpc run d s = (let k = Dpcs s d in
     run (DeferredRoutine k) d (DeferredContext k) (SystemArgument1 k) (SystemArgument2 k) s)"

definition dpc_list :: "'a ke_state_scheme \<Rightarrow> dpc klist" where
  "dpc_list s = (DpcListEntry s, DpcListHead s)"

definition set_dpc_list :: "dpc klist \<Rightarrow> 'a ke_state_scheme \<Rightarrow> 'a ke_state_scheme" where
  "set_dpc_list l s = s\<lparr>DpcListEntry := fst l, DpcListHead := snd l\<rparr>"

definition dpc_dequeue :: "'a ke_state_scheme \<Rightarrow> fault + (dpc option \<times> 'a ke_state_scheme)" where
  "dpc_dequeue s = bind (LIST_REMOVE_HEAD (dpc_list s)) (\<lambda>(e, l). Inr (e, set_dpc_list l s))"

definition KiProcessDpcQueue_with ::
  "('a ke_state_scheme \<Rightarrow> fault + 'a ke_state_scheme) \<Rightarrow> 'a ke_state_scheme \<Rightarrow> fault + 'a ke_state_scheme" where
  "KiProcessDpcQueue_with drain s =
     bind (KeGetCurrentIrql s) (\<lambda>DIrql.
     ASSERT ''KiProcessDpcQueue: DISPATCH_LEVEL'' (DIrql = DISPATCH_LEVEL) (drain s))"

text \<open>The loop \<open>while (!LIST_EMPTY(DpcList))\<close>.\<close>

fun dpc_loop ::
  "'a ke_state_scheme deferred_routines \<Rightarrow> nat \<Rightarrow> 'a ke_state_scheme \<Rightarrow> fault + 'a ke_state_scheme" where
  "dpc_loop run 0 s = Inl Hang"
| "dpc_loop run (Suc fuel) s =
     (if LIST_EMPTY (DpcListHead s) then Inr s
      else
        bind (KiLockProcessorRaisetoHighLevel 0 s) (\<lambda>(Old, s).
        bind (KeGetCurrentIrql s) (\<lambda>DIrql.
        ASSERT ''KiProcessDpcQueue: HIGH_LEVEL'' (DIrql = HIGH_LEVEL)
        (bind (dpc_dequeue s) (\<lambda>(DpcElement, s).
        bind (KiUnLockProcessorFromHighLevel_with (KiProcessDpcQueue_with (dpc_loop run fuel)) 0 Old s) (\<lambda>s.
        bind (KeGetCurrentIrql s) (\<lambda>DIrql.
        ASSERT ''KiProcessDpcQueue: back to DISPATCH_LEVEL'' (DIrql = DISPATCH_LEVEL)
        (deref DpcElement (\<lambda>d.
         bind (call_dpc run d s) (dpc_loop run fuel))))))))))"

definition KiProcessDpcQueue ::
  "'a ke_state_scheme deferred_routines \<Rightarrow> nat \<Rightarrow> 'a ke_state_scheme \<Rightarrow> fault + 'a ke_state_scheme" where
  "KiProcessDpcQueue run fuel = KiProcessDpcQueue_with (dpc_loop run fuel)"

definition KeLowerIrql ::
  "'a ke_state_scheme deferred_routines \<Rightarrow> nat \<Rightarrow> KIRQL \<Rightarrow> 'a ke_state_scheme \<Rightarrow> fault + 'a ke_state_scheme" where
  "KeLowerIrql run fuel = KeLowerIrql_with (KiProcessDpcQueue run fuel)"

definition KeReleaseSpinLock ::
  "'a ke_state_scheme deferred_routines \<Rightarrow> nat \<Rightarrow> lock \<Rightarrow> KIRQL \<Rightarrow> 'a ke_state_scheme \<Rightarrow>
   fault + 'a ke_state_scheme" where
  "KeReleaseSpinLock run fuel l Old s =
     bind (KeGetCurrentIrql s) (\<lambda>DIRQL.
     ASSERT ''KeReleaseSpinLock: IRQL == DISPATCH_LEVEL'' (DIRQL = DISPATCH_LEVEL)
     (ASSERT ''KeReleaseSpinLock: SpinLock->OldIrql == OldIrql''
        (l \<noteq> DispatcherDataBaseLock \<longrightarrow> OldIrql (spin_locks s l) = Old)
     (ASSERT ''KeReleaseSpinLock: SpinLock->Thread == DThread''
        (l \<noteq> DispatcherDataBaseLock \<longrightarrow> Thread (spin_locks s l) = KeGetCurrentThread s)
     (bind (unlock ''KeReleaseSpinLock: Result == 1'' l s) (KeLowerIrql run fuel Old)))))"

definition KiUnLockProcessorFromHighLevel ::
  "'a ke_state_scheme deferred_routines \<Rightarrow> nat \<Rightarrow> ULONG \<Rightarrow> KIRQL \<Rightarrow> 'a ke_state_scheme \<Rightarrow>
   fault + 'a ke_state_scheme" where
  "KiUnLockProcessorFromHighLevel run fuel =
     KiUnLockProcessorFromHighLevel_with (KiProcessDpcQueue run fuel)"

subsection \<open>The dispatcher database lock\<close>

definition KiLockDispatcherDataBase :: "'a ke_state_scheme \<Rightarrow> fault + (KIRQL \<times> 'a ke_state_scheme)" where
  "KiLockDispatcherDataBase = KeAcquireSpinLock DispatcherDataBaseLock"

definition KiUnLockDispatcherDataBase ::
  "'a ke_state_scheme deferred_routines \<Rightarrow> nat \<Rightarrow> KIRQL \<Rightarrow> 'a ke_state_scheme \<Rightarrow> fault + 'a ke_state_scheme" where
  "KiUnLockDispatcherDataBase run fuel = KeReleaseSpinLock run fuel DispatcherDataBaseLock"

definition KiLockDispatcherDataBaseAtDpcLevel :: "'a ke_state_scheme \<Rightarrow> fault + 'a ke_state_scheme" where
  "KiLockDispatcherDataBaseAtDpcLevel = KeAcquireSpinLockAtDpcLevel DispatcherDataBaseLock"

definition KiUnLockDispatcherDataBaseFromDpcLevel :: "'a ke_state_scheme \<Rightarrow> fault + 'a ke_state_scheme" where
  "KiUnLockDispatcherDataBaseFromDpcLevel = KeReleaseSpinLockFromDpcLevel DispatcherDataBaseLock"

definition KiQueryDispatcherDatabase :: "'a ke_state_scheme \<Rightarrow> ULONG \<times> PKTHREAD" where
  "KiQueryDispatcherDatabase = KeQuerySpinLock DispatcherDataBaseLock"

subsection \<open>Deferred procedure calls\<close>

definition ASSERT_DPC :: "KDPC \<Rightarrow> fault + 'b \<Rightarrow> fault + 'b" where
  "ASSERT_DPC k = ASSERT ''ASSERT_DPC'' (Type k = 0 \<or> Type k = DpcObject \<or> Type k = ThreadedDpcObject)"

definition set_dpc :: "dpc \<Rightarrow> (KDPC \<Rightarrow> KDPC) \<Rightarrow> 'a ke_state_scheme \<Rightarrow> 'a ke_state_scheme" where
  "set_dpc d f s = s\<lparr>Dpcs := (Dpcs s)(d := f (Dpcs s d))\<rparr>"

definition KeSetImportanceDpc :: "dpc \<Rightarrow> KDPC_IMPORTANCE \<Rightarrow> 'a ke_state_scheme \<Rightarrow> fault + 'a ke_state_scheme" where
  "KeSetImportanceDpc d imp s = ASSERT_DPC (Dpcs s d) (Inr (set_dpc d (\<lambda>k. k\<lparr>Importance := imp\<rparr>) s))"

definition KeSetTargetProcessorDpc :: "dpc \<Rightarrow> ULONG \<Rightarrow> 'a ke_state_scheme \<Rightarrow> fault + 'a ke_state_scheme" where
  "KeSetTargetProcessorDpc d n s = ASSERT_DPC (Dpcs s d) (Inr (set_dpc d (\<lambda>k. k\<lparr>Number := ucast n\<rparr>) s))"

text \<open>
  \<open>memset(Dpc, 0, sizeof(PKDPC))\<close> clears four bytes: \<open>Type\<close>, \<open>Importance\<close> and \<open>Number\<close>, all assigned
  again below. The list entry and the arguments keep what they held.
\<close>

definition KeInitializeDpc :: "dpc \<Rightarrow> nat \<Rightarrow> ULONG \<Rightarrow> 'a ke_state_scheme \<Rightarrow> 'a ke_state_scheme" where
  "KeInitializeDpc d Routine Context s =
     set_dpc d (\<lambda>k. k\<lparr>Type := DpcObject, DeferredRoutine := Routine, DeferredContext := Context,
       Importance := LowImportance, Number := 0\<rparr>) s"

text \<open>
  The test that the entry is linked and the walk of the list. The walk ends at the first match;
  its fuel is the list's own count of elements.
\<close>

definition dpc_queued :: "dpc \<Rightarrow> 'a ke_state_scheme \<Rightarrow> fault + bool" where
  "dpc_queued d s =
     (if le_next (DpcListEntry s) d \<noteq> None
      then bind (LIST_FOREACH (unat (NumberOfElements (DpcListHead s))) (dpc_list s)) (\<lambda>ds. Inr (d \<in> set ds))
      else Inr False)"

text \<open>The section both queue operations run under the lock of the processor the DPC targets.\<close>

definition with_processor_lock ::
  "'a ke_state_scheme deferred_routines \<Rightarrow> nat \<Rightarrow> dpc \<Rightarrow>
   ('a ke_state_scheme \<Rightarrow> fault + (bool \<times> 'a ke_state_scheme)) \<Rightarrow> 'a ke_state_scheme \<Rightarrow>
   fault + (bool \<times> 'a ke_state_scheme)" where
  "with_processor_lock run fuel d body s =
     bind (KiLockProcessorRaisetoHighLevel (ucast (Number (Dpcs s d))) s) (\<lambda>(Old, s).
     bind (body s) (\<lambda>(Ret, s).
     bind (KiUnLockProcessorFromHighLevel run fuel (ucast (Number (Dpcs s d))) Old s) (\<lambda>s.
     Inr (Ret, s))))"

definition dpc_insert :: "dpc \<Rightarrow> 'a ke_state_scheme \<Rightarrow> fault + (bool \<times> 'a ke_state_scheme)" where
  "dpc_insert d s =
     bind (dpc_queued d s) (\<lambda>queued.
     if queued then Inr (False, s)
     else if Importance (Dpcs s d) = HighImportance
     then bind (LIST_INSERT_HEAD d (dpc_list s)) (\<lambda>l. Inr (True, set_dpc_list l s))
     else bind (LIST_INSERT_TAIL d (dpc_list s)) (\<lambda>l. Inr (True, set_dpc_list l s)))"

definition dpc_remove :: "dpc \<Rightarrow> 'a ke_state_scheme \<Rightarrow> fault + (bool \<times> 'a ke_state_scheme)" where
  "dpc_remove d s =
     bind (dpc_queued d s) (\<lambda>queued.
     if queued then bind (LIST_REMOVE d (dpc_list s)) (\<lambda>l. Inr (True, set_dpc_list l s))
     else Inr (False, s))"

definition KeInsertQueueDpc ::
  "'a ke_state_scheme deferred_routines \<Rightarrow> nat \<Rightarrow> dpc \<Rightarrow> ULONG \<Rightarrow> ULONG \<Rightarrow> 'a ke_state_scheme \<Rightarrow>
   fault + (bool \<times> 'a ke_state_scheme)" where
  "KeInsertQueueDpc run fuel d Arg1 Arg2 s =
     ASSERT_DPC (Dpcs s d)
     (bind (KeGetCurrentIrql s) (\<lambda>DCurrentIrql.
      ASSERT ''KeInsertQueueDpc: IRQL > DISPATCH_LEVEL'' (DCurrentIrql > DISPATCH_LEVEL)
      (let s = set_dpc d (\<lambda>k. k\<lparr>SystemArgument1 := Arg1, SystemArgument2 := Arg2\<rparr>) s
       in KiGetPrcb (ucast (Number (Dpcs s d))) (with_processor_lock run fuel d (dpc_insert d) s))))"

definition KeRemoveQueueDpc ::
  "'a ke_state_scheme deferred_routines \<Rightarrow> nat \<Rightarrow> dpc \<Rightarrow> 'a ke_state_scheme \<Rightarrow>
   fault + (bool \<times> 'a ke_state_scheme)" where
  "KeRemoveQueueDpc run fuel d s =
     ASSERT_DPC (Dpcs s d)
     (bind (KeGetCurrentIrql s) (\<lambda>DCurrentIrql.
      ASSERT ''KeRemoveQueueDpc: IRQL == DISPATCH_LEVEL'' (DCurrentIrql = DISPATCH_LEVEL)
      (KiGetPrcb (ucast (Number (Dpcs s d))) (with_processor_lock run fuel d (dpc_remove d) s))))"

section \<open>IRQL transitions\<close>

lemma KeRaiseIrql_eq:
  assumes ok: "hal_ok s" and "CurrentIrql s \<le> i" and "i \<le> MAX_IRQL_LEVEL" and "i \<noteq> 3"
  shows "KeRaiseIrql i s = Inr (CurrentIrql s, at_irql i s)"
proof (cases "i = CurrentIrql s")
  case True
  with assms show ?thesis by (simp add: KeRaiseIrql_def hal_ok_irql at_irql_same)
next
  case False
  with assms show ?thesis
    by (simp add: KeRaiseIrql_def hal_ok_irql HalRaiseIrql_eq KiSetCurrentIrql_def at_irql_def)
qed

lemma KeLowerIrql_with_no_dpc:
  assumes ok: "hal_ok s" and "i \<le> CurrentIrql s"
    and "\<not> (i < DISPATCH_LEVEL \<and> CurrentIrql s \<ge> DISPATCH_LEVEL)"
  shows "KeLowerIrql_with proc i s = Inr (at_irql i s)"
proof -
  have "i \<le> MAX_IRQL_LEVEL" using assms(2) hal_ok_D(2) [OF ok] by (rule order_trans)
  with assms show ?thesis
    by (auto simp: KeLowerIrql_with_def hal_ok_irql KiSetCurrentIrql_def HalLowerIrql_after_store
        at_irql_same)
qed

lemma KeLowerIrql_with_dpc:
  assumes ok: "hal_ok s" and "i < DISPATCH_LEVEL" and "CurrentIrql s \<ge> DISPATCH_LEVEL"
    and "proc (at_irql DISPATCH_LEVEL s) = Inr s1" and "hal_ok s1" and "CurrentIrql s1 = DISPATCH_LEVEL"
  shows "KeLowerIrql_with proc i s = Inr (at_irql i s1)"
proof -
  have i: "i \<le> DISPATCH_LEVEL" "i \<le> CurrentIrql s" "i \<le> MAX_IRQL_LEVEL" "i \<noteq> DISPATCH_LEVEL"
    using assms(2,3) by (auto simp: word_less_nat_alt word_le_nat_alt)
  have "HalLowerIrql i DISPATCH_LEVEL (s1\<lparr>CurrentIrql := i\<rparr>) = Inr (at_irql i s1)"
    using HalLowerIrql_after_store [OF assms(5), of i] assms(6) i by simp
  with i assms HalLowerIrql_after_store [OF ok assms(3)] show ?thesis
    by (simp add: KeLowerIrql_with_def hal_ok_irql KiSetCurrentIrql_def)
qed

lemma KiProcessDpcQueue_empty:
  assumes "hal_ok s" and "CurrentIrql s = DISPATCH_LEVEL" and "LIST_EMPTY (DpcListHead s)"
  shows "KiProcessDpcQueue run (Suc fuel) s = Inr s"
  using assms by (simp add: KiProcessDpcQueue_def KiProcessDpcQueue_with_def hal_ok_irql)

text \<open>Nothing is queued, or the queue is not looked at.\<close>

lemma KeLowerIrql_quiet:
  assumes ok: "hal_ok s" and le: "i \<le> CurrentIrql s"
    and q: "LIST_EMPTY (DpcListHead s) \<or> i \<ge> DISPATCH_LEVEL"
  shows "KeLowerIrql run (Suc fuel) i s = Inr (at_irql i s)"
proof (cases "i < DISPATCH_LEVEL \<and> CurrentIrql s \<ge> DISPATCH_LEVEL")
  case True
  then have e: "LIST_EMPTY (DpcListHead s)" using q by auto
  have ok2: "hal_ok (at_irql DISPATCH_LEVEL s)" by (rule hal_ok_at_irql [OF ok]) simp
  have "KiProcessDpcQueue run (Suc fuel) (at_irql DISPATCH_LEVEL s) = Inr (at_irql DISPATCH_LEVEL s)"
    using e by (intro KiProcessDpcQueue_empty ok2) simp_all
  with ok2 show ?thesis
    using True KeLowerIrql_with_dpc [OF ok, of i "KiProcessDpcQueue run (Suc fuel)"]
    by (simp add: KeLowerIrql_def)
qed (simp add: KeLowerIrql_def KeLowerIrql_with_no_dpc [OF ok le])

section \<open>Spin lock protocol\<close>

definition free_lock :: KSPIN_LOCK where
  "free_lock = \<lparr>Lock = 0, Thread = None, OldIrql = 0\<rparr>"

definition hold :: "lock \<Rightarrow> KIRQL \<Rightarrow> 'a ke_state_scheme \<Rightarrow> 'a ke_state_scheme" where
  "hold l i s = set_lock l (\<lambda>_. \<lparr>Lock = 1, Thread = CurrentThread s, OldIrql = i\<rparr>) s"

lemma set_lock_sel [simp]:
  "CurrentIrql (set_lock l f s) = CurrentIrql s" "CurrentThread (set_lock l f s) = CurrentThread s"
  "DpcListHead (set_lock l f s) = DpcListHead s" "DpcListEntry (set_lock l f s) = DpcListEntry s"
  "Dpcs (set_lock l f s) = Dpcs s" "Hal8259MaskTable (set_lock l f s) = Hal8259MaskTable s"
  "spin_locks (set_lock l f s) = (spin_locks s)(l := f (spin_locks s l))"
  "hal_ok (set_lock l f s) = hal_ok s"
  by (simp_all add: set_lock_def hal_ok_def)

lemma hold_sel [simp]:
  "CurrentIrql (hold l i s) = CurrentIrql s" "CurrentThread (hold l i s) = CurrentThread s"
  "DpcListHead (hold l i s) = DpcListHead s" "DpcListEntry (hold l i s) = DpcListEntry s"
  "Dpcs (hold l i s) = Dpcs s" "hal_ok (hold l i s) = hal_ok s"
  "spin_locks (hold l i s) = (spin_locks s)(l := \<lparr>Lock = 1, Thread = CurrentThread s, OldIrql = i\<rparr>)"
  by (simp_all add: hold_def)

lemma set_lock_at_irql: "set_lock l f (at_irql i s) = at_irql i (set_lock l f s)"
  by (simp add: set_lock_def at_irql_def)

lemma set_lock_set_lock [simp]: "set_lock l f (set_lock l g s) = set_lock l (\<lambda>k. f (g k)) s"
  by (simp add: set_lock_def)

lemma set_lock_id: "f (spin_locks s l) = spin_locks s l \<Longrightarrow> set_lock l f s = s"
  by (simp add: set_lock_def)

lemma spin_eq:
  "spin (Suc fuel) l s = (if Lock (spin_locks s l) = 0 then Inr (set_lock l (\<lambda>k. k\<lparr>Lock := 1\<rparr>) s) else Inl Hang)"
  by (induction fuel arbitrary: s) (auto simp: InterlockedExchange_def)

lemma spin_SPINS:
  "spin SPINS l s = (if Lock (spin_locks s l) = 0 then Inr (set_lock l (\<lambda>k. k\<lparr>Lock := 1\<rparr>) s) else Inl Hang)"
  using spin_eq [of 1] by (simp only: numeral_2_eq_2 One_nat_def)

declare spin.simps [simp del]

lemma unlock_eq:
  "unlock msg l s = (if Lock (spin_locks s l) = 1 then Inr (set_lock l (\<lambda>_. free_lock) s)
     else Inl (AssertionFailed msg))"
proof -
  have "k\<lparr>Lock := 0, OldIrql := 0, Thread := None\<rparr> = free_lock" for k :: KSPIN_LOCK
    by (cases k) (simp add: free_lock_def)
  then show ?thesis by (simp add: unlock_def InterlockedExchange_def set_lock_def)
qed

lemma KeAcquireSpinLock_eq:
  assumes ok: "hal_ok s" and le: "CurrentIrql s \<le> DISPATCH_LEVEL" and fr: "spin_locks s l = free_lock"
  shows "KeAcquireSpinLock l s = Inr (CurrentIrql s, hold l (CurrentIrql s) (at_irql DISPATCH_LEVEL s))"
proof -
  have "KeRaiseIrql DISPATCH_LEVEL s = Inr (CurrentIrql s, at_irql DISPATCH_LEVEL s)"
    by (rule KeRaiseIrql_eq [OF ok le]) auto
  then show ?thesis
    using assms by (simp add: KeAcquireSpinLock_def hal_ok_irql free_lock_def spin_SPINS
        KeGetCurrentThread_def hold_def set_lock_def)
qed

lemma KeReleaseSpinLock_eq:
  assumes "hal_ok s" and "CurrentIrql s = DISPATCH_LEVEL"
    and "spin_locks s l = \<lparr>Lock = 1, Thread = CurrentThread s, OldIrql = i\<rparr>"
  shows "KeReleaseSpinLock run fuel l i s = KeLowerIrql run fuel i (set_lock l (\<lambda>_. free_lock) s)"
  using assms by (simp add: KeReleaseSpinLock_def hal_ok_irql unlock_eq KeGetCurrentThread_def)

lemma KeAcquireSpinLockAtDpcLevel_eq:
  assumes "hal_ok s" and "CurrentIrql s \<ge> DISPATCH_LEVEL" and "spin_locks s l = free_lock"
  shows "KeAcquireSpinLockAtDpcLevel l s = Inr (hold l DISPATCH_LEVEL s)"
  using assms by (simp add: KeAcquireSpinLockAtDpcLevel_def hal_ok_irql spin_SPINS
      KeGetCurrentThread_def hold_def free_lock_def) (simp add: set_lock_def)

lemma KeReleaseSpinLockFromDpcLevel_eq:
  assumes "hal_ok s" and "CurrentIrql s \<ge> DISPATCH_LEVEL"
    and "spin_locks s l = \<lparr>Lock = 1, Thread = CurrentThread s, OldIrql = i\<rparr>"
  shows "KeReleaseSpinLockFromDpcLevel l s = Inr (set_lock l (\<lambda>_. free_lock) s)"
  using assms by (simp add: KeReleaseSpinLockFromDpcLevel_def hal_ok_irql unlock_eq KeGetCurrentThread_def)

text \<open>The processor lock, taken and released around a critical section \<open>f\<close> at \<open>HIGH_LEVEL\<close>.\<close>

lemma processor_lock_eq:
  assumes ok: "hal_ok s" and fr: "spin_locks s ProcessorLock = free_lock"
  shows "KiLockProcessorRaisetoHighLevel 0 s =
    Inr (CurrentIrql s, hold ProcessorLock DISPATCH_LEVEL (at_irql HIGH_LEVEL s))"
proof -
  have "KeRaiseIrql HIGH_LEVEL s = Inr (CurrentIrql s, at_irql HIGH_LEVEL s)"
    using hal_ok_D(2) [OF ok] by (intro KeRaiseIrql_eq [OF ok]) auto
  moreover have "hal_ok (at_irql HIGH_LEVEL s)" by (rule hal_ok_at_irql [OF ok]) simp
  ultimately show ?thesis
    using fr by (simp add: KiLockProcessorRaisetoHighLevel_def KiGetPrcb_def KeAcquireSpinLockAtDpcLevel_eq)
qed

lemma processor_unlock_eq:
  assumes ok: "hal_ok s" and high: "CurrentIrql s = HIGH_LEVEL" and i: "DISPATCH_LEVEL \<le> i" "i \<le> HIGH_LEVEL"
    and held: "spin_locks s ProcessorLock = \<lparr>Lock = 1, Thread = CurrentThread s, OldIrql = j\<rparr>"
  shows "KiUnLockProcessorFromHighLevel_with proc 0 i s =
    Inr (at_irql i (set_lock ProcessorLock (\<lambda>_. free_lock) s))"
proof -
  have "KeReleaseSpinLockFromDpcLevel ProcessorLock s = Inr (set_lock ProcessorLock (\<lambda>_. free_lock) s)"
    using high by (intro KeReleaseSpinLockFromDpcLevel_eq [OF ok _ held]) simp
  moreover have "KeLowerIrql_with proc i (set_lock ProcessorLock (\<lambda>_. free_lock) s) =
      Inr (at_irql i (set_lock ProcessorLock (\<lambda>_. free_lock) s))"
    using ok high i by (intro KeLowerIrql_with_no_dpc) auto
  ultimately show ?thesis
    using ok high by (simp add: KiUnLockProcessorFromHighLevel_with_def hal_ok_irql KiGetPrcb_def)
qed

section \<open>Draining the DPC queue\<close>

definition dpc_rep :: "'a ke_state_scheme \<Rightarrow> dpc list \<Rightarrow> bool" where
  "dpc_rep s ds \<longleftrightarrow> klist_rep (dpc_list s) ds"

definition dpc_ready :: "'a ke_state_scheme \<Rightarrow> bool" where
  "dpc_ready s \<longleftrightarrow> hal_ok s \<and> CurrentIrql s = DISPATCH_LEVEL \<and> spin_locks s ProcessorLock = free_lock"

text \<open>
  What a deferred routine may do: it returns at \<open>DISPATCH_LEVEL\<close> without the processor lock and does
  not touch the DPC queue (\<open>KeInsertQueueDpc\<close> asserts an IRQL above \<open>DISPATCH_LEVEL\<close>).
\<close>

definition dpc_safe :: "'a ke_state_scheme deferred_routines \<Rightarrow> bool" where
  "dpc_safe run \<longleftrightarrow> (\<forall>r d c a b s. dpc_ready s \<longrightarrow>
     (\<exists>s'. run r d c a b s = Inr s' \<and> dpc_ready s' \<and> dpc_list s' = dpc_list s))"

lemma dpc_list_sel [simp]:
  "dpc_list (set_dpc_list l s) = l" "dpc_list (at_irql i s) = dpc_list s"
  "dpc_list (set_lock k f s) = dpc_list s" "dpc_list (hold k i s) = dpc_list s"
  by (simp_all add: dpc_list_def set_dpc_list_def hold_def)

lemma set_dpc_list_sel [simp]:
  "hal_ok (set_dpc_list l s) = hal_ok s" "CurrentIrql (set_dpc_list l s) = CurrentIrql s"
  "spin_locks (set_dpc_list l s) = spin_locks s" "CurrentThread (set_dpc_list l s) = CurrentThread s"
  "Dpcs (set_dpc_list l s) = Dpcs s" "dpc_ready (set_dpc_list l s) = dpc_ready s"
  by (simp_all add: set_dpc_list_def hal_ok_def dpc_ready_def)

lemma dpc_rep_empty: "dpc_rep s ds \<Longrightarrow> LIST_EMPTY (DpcListHead s) \<longleftrightarrow> ds = []"
  by (simp add: dpc_rep_def klist_rep_def dpc_list_def LIST_EMPTY_def)

lemma dpc_dequeue_Cons:
  assumes "dpc_rep s (d # ds)"
  obtains l where "LIST_REMOVE_HEAD (dpc_list s) = Inr (Some d, l)" and "klist_rep l ds"
  using LIST_REMOVE_HEAD_correct [OF assms [unfolded dpc_rep_def]] by auto

text \<open>Unlinking under the processor lock leaves everything but the queue as it was.\<close>

lemma under_processor_lock:
  assumes "hal_ok s" and "spin_locks s ProcessorLock = free_lock"
  shows "at_irql (CurrentIrql s) (set_lock ProcessorLock (\<lambda>_. free_lock)
    (set_dpc_list l (hold ProcessorLock i (at_irql j s)))) = set_dpc_list l s"
proof -
  have "(spin_locks s)(ProcessorLock := free_lock) = spin_locks s" using assms(2) by auto
  moreover have "s\<lparr>CurrentIrql := CurrentIrql s, Pic8259Mask := Hal8259MaskTable s ! unat (CurrentIrql s)\<rparr> = s"
    using hal_ok_D(3) [OF assms(1)] by simp
  ultimately show ?thesis
    using hal_ok_D(3) [OF assms(1)] by (simp add: at_irql_def set_lock_def set_dpc_list_def hold_def)
qed

definition dpc_step :: "'a ke_state_scheme deferred_routines \<Rightarrow> dpc \<Rightarrow> 'a ke_state_scheme \<Rightarrow> fault + 'a ke_state_scheme" where
  "dpc_step run d s = bind (dpc_dequeue s) (\<lambda>(e, s). call_dpc run d s)"

lemma dpc_loop_step:
  assumes r: "dpc_ready s" and q: "dpc_rep s (d # ds)"
  shows "dpc_loop run (Suc fuel) s = bind (dpc_step run d s) (dpc_loop run fuel)"
proof -
  obtain l where l: "LIST_REMOVE_HEAD (dpc_list s) = Inr (Some d, l)" using dpc_dequeue_Cons [OF q] .
  have ok: "hal_ok s" "CurrentIrql s = DISPATCH_LEVEL" "spin_locks s ProcessorLock = free_lock"
    using r by (auto simp: dpc_ready_def)
  let ?h = "hold ProcessorLock DISPATCH_LEVEL (at_irql HIGH_LEVEL s)"
  have okh: "hal_ok (set_dpc_list l ?h)" using hal_ok_at_irql [OF ok(1), of HIGH_LEVEL] by simp
  have "KiUnLockProcessorFromHighLevel_with proc 0 DISPATCH_LEVEL (set_dpc_list l ?h) =
      Inr (at_irql DISPATCH_LEVEL (set_lock ProcessorLock (\<lambda>_. free_lock) (set_dpc_list l ?h)))" for proc
    by (rule processor_unlock_eq [OF okh]) auto
  then have u: "KiUnLockProcessorFromHighLevel_with proc 0 DISPATCH_LEVEL (set_dpc_list l ?h) =
      Inr (set_dpc_list l s)" for proc
    using under_processor_lock [OF ok(1,3)] ok(2) by simp
  show ?thesis
    using ok okh l u processor_lock_eq [OF ok(1,3)] dpc_rep_empty [OF q]
    by (simp add: hal_ok_irql dpc_dequeue_def dpc_step_def)
qed

lemma dpc_loop_drains:
  assumes "dpc_safe run" and "dpc_ready s" and "dpc_rep s ds" and "length ds < fuel"
  shows "\<exists>s'. dpc_loop run fuel s = Inr s' \<and> foldE (dpc_step run) ds s = Inr s' \<and>
    dpc_ready s' \<and> dpc_rep s' []"
  using assms(2-)
proof (induction ds arbitrary: s fuel)
  case Nil
  then obtain f where "fuel = Suc f" by (cases fuel) auto
  with Nil dpc_rep_empty [OF Nil(2)] show ?case by simp
next
  case (Cons d ds)
  then obtain f where f: "fuel = Suc f" "length ds < f" by (cases fuel) auto
  obtain l where l: "LIST_REMOVE_HEAD (dpc_list s) = Inr (Some d, l)" "klist_rep l ds"
    using dpc_dequeue_Cons [OF Cons.prems(2)] .
  then have step: "dpc_step run d s = call_dpc run d (set_dpc_list l s)"
    by (simp add: dpc_step_def dpc_dequeue_def)
  obtain s1 where s1: "call_dpc run d (set_dpc_list l s) = Inr s1" "dpc_ready s1" "dpc_list s1 = l"
    using assms(1) Cons.prems(1) unfolding dpc_safe_def call_dpc_def Let_def
    by (metis dpc_list_sel(1) set_dpc_list_sel(6))
  then have "dpc_rep s1 ds" using l(2) by (simp add: dpc_rep_def)
  from Cons.IH [OF s1(2) this f(2)] show ?case
    using dpc_loop_step [OF Cons.prems(1,2)] step s1(1) f(1) by simp
qed

lemma KiProcessDpcQueue_drains:
  assumes "dpc_safe run" and "dpc_ready s" and "dpc_rep s ds" and "length ds < fuel"
  shows "\<exists>s'. KiProcessDpcQueue run fuel s = Inr s' \<and> foldE (dpc_step run) ds s = Inr s' \<and>
    dpc_ready s' \<and> dpc_rep s' []"
proof -
  have "hal_ok s" "CurrentIrql s = DISPATCH_LEVEL" using assms(2) by (auto simp: dpc_ready_def)
  then show ?thesis
    using dpc_loop_drains [OF assms]
    by (auto simp: KiProcessDpcQueue_def KiProcessDpcQueue_with_def hal_ok_irql)
qed

lemma dpc_queued_eq:
  assumes "dpc_rep s ds" and "length ds < 2 ^ 32"
  shows "dpc_queued d s = Inr (d \<in> set ds)"
proof (cases "d \<in> set ds")
  case True
  then obtain as bs where ds: "ds = as @ d # bs" by (meson split_list)
  have "ring (DpcListEntry s) (d # bs @ as)"
    using assms(1) ds ring_rotate [of "DpcListEntry s" as "d # bs"]
    by (simp add: dpc_rep_def klist_rep_def dpc_list_def)
  then have "le_next (DpcListEntry s) d \<noteq> None"
    using ring_neighbours(1) ring_singleton by (metis option.distinct(1))
  moreover have "LIST_FOREACH (unat (NumberOfElements (DpcListHead s))) (dpc_list s) = Inr ds"
    using assms by (intro LIST_FOREACH_correct)
      (auto simp: dpc_rep_def klist_rep_def dpc_list_def unat_of_nat32)
  ultimately show ?thesis using True by (simp add: dpc_queued_def)
next
  case False
  have "LIST_FOREACH (unat (NumberOfElements (DpcListHead s))) (dpc_list s) = Inr ds"
    using assms by (intro LIST_FOREACH_correct)
      (auto simp: dpc_rep_def klist_rep_def dpc_list_def unat_of_nat32)
  with False show ?thesis by (simp add: dpc_queued_def)
qed

lemma set_dpc_sel [simp]:
  "hal_ok (set_dpc d f s) = hal_ok s" "CurrentIrql (set_dpc d f s) = CurrentIrql s"
  "spin_locks (set_dpc d f s) = spin_locks s" "CurrentThread (set_dpc d f s) = CurrentThread s"
  "dpc_list (set_dpc d f s) = dpc_list s" "Dpcs (set_dpc d f s) = (Dpcs s)(d := f (Dpcs s d))"
  by (simp_all add: set_dpc_def hal_ok_def dpc_list_def)

lemma ASSERT_DPC_ok: "Type k \<in> {0, DpcObject, ThreadedDpcObject} \<Longrightarrow> ASSERT_DPC k m = m"
  by (auto simp: ASSERT_DPC_def)

lemma with_processor_lock_eq:
  assumes ok: "hal_ok s" and fr: "spin_locks s ProcessorLock = free_lock"
    and i: "DISPATCH_LEVEL \<le> CurrentIrql s" and n: "Number (Dpcs s d) = 0"
    and body: "\<And>t. dpc_list t = dpc_list s \<Longrightarrow> Dpcs t = Dpcs s \<Longrightarrow> body t = Inr (r, set_dpc_list l t)"
  shows "with_processor_lock run fuel d body s = Inr (r, set_dpc_list l s)"
proof -
  let ?h = "hold ProcessorLock DISPATCH_LEVEL (at_irql HIGH_LEVEL s)"
  have okh: "hal_ok (set_dpc_list l ?h)" using hal_ok_at_irql [OF ok, of HIGH_LEVEL] by simp
  have "KiUnLockProcessorFromHighLevel run fuel 0 (CurrentIrql s) (set_dpc_list l ?h) =
      Inr (at_irql (CurrentIrql s) (set_lock ProcessorLock (\<lambda>_. free_lock) (set_dpc_list l ?h)))"
    unfolding KiUnLockProcessorFromHighLevel_def
    using i hal_ok_D(2) [OF ok] by (intro processor_unlock_eq [OF okh]) auto
  then have "KiUnLockProcessorFromHighLevel run fuel 0 (CurrentIrql s) (set_dpc_list l ?h) =
      Inr (set_dpc_list l s)"
    using under_processor_lock [OF ok fr] by simp
  moreover have "body ?h = Inr (r, set_dpc_list l ?h)" by (rule body) auto
  ultimately show ?thesis
    using processor_lock_eq [OF ok fr] n by (simp add: with_processor_lock_def)
qed

lemma set_dpc_list_id: "set_dpc_list (dpc_list s) s = s"
  by (simp add: set_dpc_list_def dpc_list_def)

lemma dpc_queued_same: "dpc_list t = dpc_list s \<Longrightarrow> dpc_queued d t = dpc_queued d s"
  by (simp add: dpc_queued_def dpc_list_def)

lemma dpc_insert_eq:
  fixes s :: "'a ke_state_scheme"
  assumes q: "dpc_rep s ds" "length ds < 2 ^ 32"
  obtains l where "klist_rep l (if d \<in> set ds then ds
      else if Importance (Dpcs s d) = HighImportance then d # ds else ds @ [d])"
    and "\<And>t :: 'a ke_state_scheme. dpc_list t = dpc_list s \<Longrightarrow> Dpcs t = Dpcs s \<Longrightarrow>
      dpc_insert d t = Inr (d \<notin> set ds, set_dpc_list l t)"
proof -
  have rep: "klist_rep (dpc_list s) ds" using q(1) by (simp add: dpc_rep_def)
  have queued: "dpc_queued d t = Inr (d \<in> set ds)" if "dpc_list t = dpc_list s" for t :: "'a ke_state_scheme"
    using dpc_queued_same [OF that] dpc_queued_eq [OF q] by simp
  consider "d \<in> set ds" | "d \<notin> set ds" "Importance (Dpcs s d) = HighImportance"
    | "d \<notin> set ds" "Importance (Dpcs s d) \<noteq> HighImportance" by blast
  then show thesis
  proof cases
    case 1
    have "dpc_insert d t = Inr (d \<notin> set ds, set_dpc_list (dpc_list s) t)"
      if "dpc_list t = dpc_list s" for t :: "'a ke_state_scheme"
      using that 1 queued [OF that] set_dpc_list_id [of t] by (simp add: dpc_insert_def)
    then show thesis using 1 rep by (intro that [of "dpc_list s"]) auto
  next
    case 2
    then obtain l where "LIST_INSERT_HEAD d (dpc_list s) = Inr l" "klist_rep l (d # ds)"
      using LIST_INSERT_HEAD_correct [OF rep] by blast
    with 2 show thesis by (intro that [of l]) (auto simp: dpc_insert_def queued)
  next
    case 3
    then obtain l where "LIST_INSERT_TAIL d (dpc_list s) = Inr l" "klist_rep l (ds @ [d])"
      using LIST_INSERT_TAIL_correct [OF rep] by blast
    with 3 show thesis by (intro that [of l]) (auto simp: dpc_insert_def queued)
  qed
qed

lemma KeInsertQueueDpc_correct:
  fixes s :: "'a ke_state_scheme"
  assumes ok: "hal_ok s" and fr: "spin_locks s ProcessorLock = free_lock"
    and i: "DISPATCH_LEVEL < CurrentIrql s" and q: "dpc_rep s ds" "length ds < 2 ^ 32"
    and k: "Type (Dpcs s d) \<in> {0, DpcObject, ThreadedDpcObject}" "Number (Dpcs s d) = 0"
  shows "\<exists>l. KeInsertQueueDpc run fuel d a b s = Inr (d \<notin> set ds,
      set_dpc_list l (set_dpc d (\<lambda>k. k\<lparr>SystemArgument1 := a, SystemArgument2 := b\<rparr>) s)) \<and>
    klist_rep l (if d \<in> set ds then ds
      else if Importance (Dpcs s d) = HighImportance then d # ds else ds @ [d])"
proof -
  let ?s = "set_dpc d (\<lambda>k. k\<lparr>SystemArgument1 := a, SystemArgument2 := b\<rparr>) s"
  have rep: "dpc_rep ?s ds" using q(1) by (simp add: dpc_rep_def)
  have imp: "Importance (Dpcs ?s d) = Importance (Dpcs s d)" by simp
  obtain l where l: "klist_rep l (if d \<in> set ds then ds
      else if Importance (Dpcs ?s d) = HighImportance then d # ds else ds @ [d])"
    "\<And>t :: 'a ke_state_scheme. dpc_list t = dpc_list ?s \<Longrightarrow> Dpcs t = Dpcs ?s \<Longrightarrow>
      dpc_insert d t = Inr (d \<notin> set ds, set_dpc_list l t)"
    using dpc_insert_eq [OF rep q(2), of d] by blast
  have "with_processor_lock run fuel d (dpc_insert d) ?s = Inr (d \<notin> set ds, set_dpc_list l ?s)"
    using ok fr i k(2) l(2) by (intro with_processor_lock_eq) auto
  then show ?thesis
    using ok i k l(1) [unfolded imp] by (intro exI [of _ l])
      (simp add: KeInsertQueueDpc_def ASSERT_DPC_ok hal_ok_irql KiGetPrcb_def Let_def)
qed

lemma KeRemoveQueueDpc_correct:
  fixes s :: "'a ke_state_scheme"
  assumes ok: "hal_ok s" and fr: "spin_locks s ProcessorLock = free_lock"
    and i: "CurrentIrql s = DISPATCH_LEVEL" and q: "dpc_rep s ds" "length ds < 2 ^ 32"
    and k: "Type (Dpcs s d) \<in> {0, DpcObject, ThreadedDpcObject}" "Number (Dpcs s d) = 0"
  shows "\<exists>l. KeRemoveQueueDpc run fuel d s = Inr (d \<in> set ds, set_dpc_list l s) \<and>
    klist_rep l (remove1 d ds)"
proof -
  have rep: "klist_rep (dpc_list s) ds" using q(1) by (simp add: dpc_rep_def)
  have queued: "dpc_queued d t = Inr (d \<in> set ds)" if "dpc_list t = dpc_list s" for t :: "'a ke_state_scheme"
    using dpc_queued_same [OF that] dpc_queued_eq [OF q] by simp
  obtain l where l: "klist_rep l (remove1 d ds)" "d \<in> set ds \<Longrightarrow> LIST_REMOVE d (dpc_list s) = Inr l"
    "d \<notin> set ds \<Longrightarrow> l = dpc_list s"
  proof (cases "d \<in> set ds")
    case True
    then obtain as bs where ds: "ds = as @ d # bs" "d \<notin> set as" by (meson split_list_first)
    with LIST_REMOVE_correct [of "dpc_list s" as d bs] rep obtain l where
      "LIST_REMOVE d (dpc_list s) = Inr l" "klist_rep l (as @ bs)" by auto
    with ds True show thesis by (intro that [of l]) (auto simp: remove1_append)
  qed (use rep that [of "dpc_list s"] in \<open>simp add: remove1_idem\<close>)
  have "dpc_remove d t = Inr (d \<in> set ds, set_dpc_list l t)"
    if "dpc_list t = dpc_list s" for t :: "'a ke_state_scheme"
    using that l(2,3) queued [OF that] set_dpc_list_id [of t] by (auto simp: dpc_remove_def)
  then have "with_processor_lock run fuel d (dpc_remove d) s = Inr (d \<in> set ds, set_dpc_list l s)"
    using ok fr i k(2) by (intro with_processor_lock_eq) auto
  then show ?thesis
    using ok i k l(1) by (intro exI [of _ l])
      (simp add: KeRemoveQueueDpc_def ASSERT_DPC_ok hal_ok_irql KiGetPrcb_def)
qed

section \<open>Critical sections\<close>

text \<open>
  What a section between \<open>KeAcquireSpinLock\<close> and \<open>KeReleaseSpinLock\<close> relies on. \<open>lockable\<close> is the state
  in which a lock can be taken and released without a DPC running in between.
\<close>

definition lockable :: "lock \<Rightarrow> 'a ke_state_scheme \<Rightarrow> bool" where
  "lockable l s \<longleftrightarrow> hal_ok s \<and> CurrentIrql s \<le> DISPATCH_LEVEL \<and> spin_locks s l = free_lock \<and>
     (LIST_EMPTY (DpcListHead s) \<or> CurrentIrql s = DISPATCH_LEVEL)"

definition locked :: "lock \<Rightarrow> 'a ke_state_scheme \<Rightarrow> 'a ke_state_scheme" where
  "locked l s = hold l (CurrentIrql s) (at_irql DISPATCH_LEVEL s)"

lemma acquire_lockable: "lockable l s \<Longrightarrow> KeAcquireSpinLock l s = Inr (CurrentIrql s, locked l s)"
  by (simp add: lockable_def locked_def KeAcquireSpinLock_eq)

text \<open>\<open>unlocked l s s2\<close>: what the release leaves of a section that started in \<open>s\<close> and ended in \<open>s2\<close>.\<close>

definition unlocked :: "lock \<Rightarrow> 'a ke_state_scheme \<Rightarrow> 'a ke_state_scheme \<Rightarrow> 'a ke_state_scheme" where
  "unlocked l s s2 = at_irql (CurrentIrql s) (set_lock l (\<lambda>_. free_lock) s2)"

lemma release_locked:
  assumes s: "lockable l s" and tr: "ke_state.truncate s2 = ke_state.truncate (locked l s)"
  shows "KeReleaseSpinLock run (Suc fuel) l (CurrentIrql s) s2 = Inr (unlocked l s s2)"
    and "ke_state.truncate (unlocked l s s2) = ke_state.truncate s"
proof -
  have ok: "hal_ok (locked l s)" using s by (auto simp: lockable_def locked_def hal_ok_at_irql)
  have eq: "Hal8259MaskTable s2 = Hal8259MaskTable s" "CurrentIrql s2 = DISPATCH_LEVEL"
    "Pic8259Mask s2 = Pic8259Mask (locked l s)" "Picinitdone s2 = Picinitdone s" "Flags_IF s2 = Flags_IF s"
    "CurrentThread s2 = CurrentThread s" "DpcListHead s2 = DpcListHead s" "DpcListEntry s2 = DpcListEntry s"
    "spin_locks s2 = (spin_locks s)(l := \<lparr>Lock = 1, Thread = CurrentThread s, OldIrql = CurrentIrql s\<rparr>)"
    using tr by (auto simp: ke_state.truncate_def locked_def hold_def set_lock_def at_irql_def)
  have ok2: "hal_ok s2" using ok eq by (simp add: hal_ok_def locked_def hold_def set_lock_def at_irql_def)
  have "KeLowerIrql run (Suc fuel) (CurrentIrql s) (set_lock l (\<lambda>_. free_lock) s2) =
      Inr (at_irql (CurrentIrql s) (set_lock l (\<lambda>_. free_lock) s2))"
    using s ok2 eq by (intro KeLowerIrql_quiet) (auto simp: lockable_def)
  then show "KeReleaseSpinLock run (Suc fuel) l (CurrentIrql s) s2 = Inr (unlocked l s s2)"
    using ok2 eq by (simp add: KeReleaseSpinLock_eq unlocked_def)
  have "(spin_locks s)(l := free_lock) = spin_locks s" using s by (auto simp: lockable_def)
  moreover have "Hal8259MaskTable s ! unat (CurrentIrql s) = Pic8259Mask s"
    using s by (auto simp: lockable_def hal_ok_def)
  ultimately show "ke_state.truncate (unlocked l s s2) = ke_state.truncate s"
    using tr eq by (simp add: ke_state.truncate_def unlocked_def locked_def hold_def set_lock_def at_irql_def)
qed

text \<open>
  The contract a client of a lock sees: \<open>core\<close> is the part of the state the lock machinery owns and
  \<open>rest\<close> the client's own data. A section that leaves the core alone runs to its end between the two
  calls, and afterwards the core is what it was before and the client's data is what the section made it.
\<close>

locale critical_section =
  fixes ready :: "'s \<Rightarrow> bool"
    and core :: "'s \<Rightarrow> 'c"
    and rest :: "'s \<Rightarrow> 'r"
    and acquire :: "'s \<Rightarrow> fault + ('i \<times> 's)"
    and release :: "'i \<Rightarrow> 's \<Rightarrow> fault + 's"
  assumes acquire_ok: "ready s \<Longrightarrow> \<exists>i s1. acquire s = Inr (i, s1) \<and> rest s1 = rest s"
    and release_ok: "ready s \<Longrightarrow> acquire s = Inr (i, s1) \<Longrightarrow> core s2 = core s1 \<Longrightarrow>
      \<exists>s3. release i s2 = Inr s3 \<and> core s3 = core s \<and> rest s3 = rest s2"
    and ready_core: "ready s \<Longrightarrow> core s' = core s \<Longrightarrow> ready s'"
begin

definition bracket :: "('s \<Rightarrow> fault + ('x \<times> 's)) \<Rightarrow> 's \<Rightarrow> fault + ('x \<times> 's)" where
  "bracket body s = bind (acquire s) (\<lambda>(i, s). bind (body s) (\<lambda>(r, s).
     bind (release i s) (\<lambda>s. Inr (r, s))))"

lemma bracket_ok:
  assumes s: "ready s"
    and body: "\<And>t. rest t = rest s \<Longrightarrow> \<exists>t'. body t = Inr (r, t') \<and> core t' = core t \<and> rest t' = y"
  shows "\<exists>s'. bracket body s = Inr (r, s') \<and> core s' = core s \<and> rest s' = y \<and> ready s'"
proof -
  obtain i s1 where a: "acquire s = Inr (i, s1)" "rest s1 = rest s" using acquire_ok [OF s] by blast
  then obtain s2 where b: "body s1 = Inr (r, s2)" "core s2 = core s1" "rest s2 = y" using body by blast
  obtain s3 where c: "release i s2 = Inr s3" "core s3 = core s" "rest s3 = y"
    using release_ok [OF s a(1) b(2)] b(3) by blast
  then show ?thesis using a b ready_core [OF s c(2)] by (simp add: bracket_def)
qed

lemma bracket_fault:
  assumes s: "ready s" and body: "\<And>t. rest t = rest s \<Longrightarrow> body t = Inl e"
  shows "bracket body s = Inl e"
  using acquire_ok [OF s] body by (auto simp: bracket_def)

end

lemma truncate_lockable:
  assumes "lockable l s" and "ke_state.truncate s' = ke_state.truncate s"
  shows "lockable l s'"
proof -
  have "Hal8259MaskTable s' = Hal8259MaskTable s" "CurrentIrql s' = CurrentIrql s"
    "Pic8259Mask s' = Pic8259Mask s" "Picinitdone s' = Picinitdone s" "Flags_IF s' = Flags_IF s"
    "DpcListHead s' = DpcListHead s" "spin_locks s' = spin_locks s"
    using assms(2) by (auto simp: ke_state.truncate_def)
  then show ?thesis using assms(1) by (simp add: lockable_def hal_ok_def)
qed

interpretation spinlock: critical_section "lockable l" ke_state.truncate ke_state.more
  "KeAcquireSpinLock l" "KeReleaseSpinLock run (Suc fuel) l"
proof
  fix s s1 s2 s' :: "'a ke_state_scheme" and i
  assume s: "lockable l s"
  show "\<exists>i s1. KeAcquireSpinLock l s = Inr (i, s1) \<and> ke_state.more s1 = ke_state.more s"
    using acquire_lockable [OF s] by (simp add: locked_def hold_def set_lock_def at_irql_def)
  { assume "KeAcquireSpinLock l s = Inr (i, s1)" "ke_state.truncate s2 = ke_state.truncate s1"
    then show "\<exists>s3. KeReleaseSpinLock run (Suc fuel) l i s2 = Inr s3 \<and>
        ke_state.truncate s3 = ke_state.truncate s \<and> ke_state.more s3 = ke_state.more s2"
      using acquire_lockable [OF s] release_locked(1) [OF s, of s2 run fuel] release_locked(2) [OF s, of s2]
      by (simp add: unlocked_def set_lock_def at_irql_def) }
  { assume "ke_state.truncate s' = ke_state.truncate s"
    then show "lockable l s'" by (rule truncate_lockable [OF s]) }
qed

lemma same_more:
  fixes s t :: "'a ke_state_scheme"
  assumes "ke_state.truncate t = ke_state.truncate s" and "ke_state.more t = ke_state.more s"
  shows "t = s"
  using assms by (cases s; cases t) (simp add: ke_state.truncate_def)

text \<open>The same contract as an equation, for a section whose effect on the client's data is known.\<close>

lemma spinlock_section:
  assumes lk: "lockable l s" and tr: "ke_state.truncate s' = ke_state.truncate s"
    and body: "\<And>t. ke_state.more t = ke_state.more s \<Longrightarrow> \<exists>t'. body t = Inr (r, t') \<and>
      ke_state.truncate t' = ke_state.truncate t \<and> ke_state.more t' = ke_state.more s'"
  shows "spinlock.bracket l run fuel body s = Inr (r, s')"
proof -
  obtain s1 where s1: "spinlock.bracket l run fuel body s = Inr (r, s1)"
      "ke_state.truncate s1 = ke_state.truncate s" "ke_state.more s1 = ke_state.more s'"
    using spinlock.bracket_ok [OF lk body, where run = run and fuel = fuel] by blast
  have "s1 = s'" by (rule same_more [OF trans [OF s1(2) tr [symmetric]] s1(3)])
  then show ?thesis using s1(1) by simp
qed

text \<open>An acquire and the release that gives the state back.\<close>

lemma lock_pair:
  assumes lk: "lockable l s"
  shows "\<exists>i s1. KeAcquireSpinLock l s = Inr (i, s1) \<and> ke_state.more s1 = ke_state.more s \<and>
    KeReleaseSpinLock run (Suc fuel) l i s1 = Inr s"
proof -
  have "spinlock.bracket l run fuel (\<lambda>s. Inr ((), s)) s = Inr ((), s)" by (rule spinlock_section [OF lk]) auto
  then have "KeReleaseSpinLock run (Suc fuel) l (CurrentIrql s) (locked l s) = Inr s"
    by (auto simp: spinlock.bracket_def acquire_lockable [OF lk] bind_def split: sum.splits)
  moreover have "ke_state.more (locked l s) = ke_state.more s" by (simp add: locked_def hold_def at_irql_def set_lock_def)
  ultimately show ?thesis using acquire_lockable [OF lk] by blast
qed

section \<open>Properties\<close>

definition boot_state :: ke_state where
  "boot_state = \<lparr>Picinitdone = True, Pic8259Mask = 0xFFFB, Flags_IF = True,
     Hal8259MaskTable = replicate 32 0xFFFB, CurrentIrql = PASSIVE_LEVEL, CurrentThread = Some 1,
     IdleThread = Some 0, TimerTicks = 0, IdleTime = 0, DpcTime = 0, IsrTime = 0,
     SoftwareInterrupt = [0, 0], spin_locks = \<lambda>_. free_lock,
     Dpcs = \<lambda>_. \<lparr>Type = DpcObject, Importance = LowImportance, Number = 0, DeferredRoutine = 0,
       DeferredContext = 0, SystemArgument1 = 0, SystemArgument2 = 0\<rparr>,
     DpcListEntry = \<lparr>le_next = \<lambda>_. None, le_prev = \<lambda>_. None\<rparr>, DpcListHead = LIST_INIT\<rparr>"

lemma boot_state_ok: "hal_ok boot_state" "lockable l boot_state" "dpc_rep boot_state []"
  by (auto simp: boot_state_def hal_ok_def lockable_def LIST_EMPTY_def LIST_INIT_def dpc_rep_def
      klist_rep_def dpc_list_def)

text \<open>C33. Mutual exclusion: when \<open>KeAcquireSpinLock\<close> returns, the lock was free before, it is now held
  by the current thread, and the processor runs at \<open>DISPATCH_LEVEL\<close> with the interrupt mask of that
  level; a second acquire of a held lock never returns, whichever thread tries.\<close>

theorem spinlock_mutual_exclusion:
  fixes s :: "'a ke_state_scheme"
  assumes ok: "hal_ok s" and acq: "KeAcquireSpinLock l s = Inr (i, s')"
  shows "Lock (spin_locks s l) = 0 \<and> Lock (spin_locks s' l) = 1 \<and>
    Thread (spin_locks s' l) = CurrentThread s \<and> i = CurrentIrql s \<and>
    CurrentIrql s' = DISPATCH_LEVEL \<and> hal_ok s' \<and>
    (\<forall>t :: 'a ke_state_scheme. hal_ok t \<and> spin_locks t l = spin_locks s' l \<longrightarrow> (\<exists>e. KeAcquireSpinLock l t = Inl e))"
proof -
  have le: "CurrentIrql s \<le> DISPATCH_LEVEL"
    using acq ok by (auto simp: KeAcquireSpinLock_def hal_ok_irql ASSERT_Inr)
  have raise: "KeRaiseIrql DISPATCH_LEVEL t = Inr (CurrentIrql t, at_irql DISPATCH_LEVEL t)"
    if "hal_ok t" "CurrentIrql t \<le> DISPATCH_LEVEL" for t :: "'a ke_state_scheme"
    using that by (intro KeRaiseIrql_eq) auto
  have s': "Lock (spin_locks s l) = 0" "i = CurrentIrql s"
    "s' = set_lock l (\<lambda>k. k\<lparr>Lock := 1, OldIrql := CurrentIrql s, Thread := CurrentThread s\<rparr>)
       (at_irql DISPATCH_LEVEL s)"
    using acq ok le by (auto simp: KeAcquireSpinLock_def hal_ok_irql ASSERT_Inr bind_eq_Inr raise
        spin_SPINS KeGetCurrentThread_def split: if_splits)
  have "\<exists>e. KeAcquireSpinLock l t = Inl e" if "hal_ok t" "Lock (spin_locks t l) = 1" for t :: "'a ke_state_scheme"
    using that raise [of t]
    by (cases "CurrentIrql t \<le> DISPATCH_LEVEL")
      (auto simp: KeAcquireSpinLock_def hal_ok_irql ASSERT_def spin_SPINS)
  moreover have "hal_ok s'" using s'(3) hal_ok_at_irql [OF ok, of DISPATCH_LEVEL] by simp
  ultimately show ?thesis using s' by (auto simp: at_irql_def)
qed

theorem spinlock_mutual_exclusion_witness:
  "\<exists>s'. KeAcquireSpinLock PoolLock boot_state = Inr (PASSIVE_LEVEL, s') \<and>
     Lock (spin_locks s' PoolLock) = 1 \<and> (\<exists>e. KeAcquireSpinLock PoolLock s' = Inl e)"
proof -
  have "CurrentIrql boot_state = PASSIVE_LEVEL" by (simp add: boot_state_def)
  then have acq: "KeAcquireSpinLock PoolLock boot_state = Inr (PASSIVE_LEVEL, locked PoolLock boot_state)"
    using acquire_lockable [OF boot_state_ok(2), of PoolLock] by simp
  with spinlock_mutual_exclusion [OF boot_state_ok(1) acq] show ?thesis by blast
qed

text \<open>C32. Acquire and release are inverse: releasing a lock with the IRQL its acquire returned gives
  back exactly the state before, with the IRQL, the interrupt mask and every other lock as they
  were, when no DPC is pending; in particular no assertion of the two functions fails.\<close>

theorem spinlock_roundtrip:
  assumes "lockable l s"
  shows "bind (KeAcquireSpinLock l s) (\<lambda>(i, s1). KeReleaseSpinLock run (Suc fuel) l i s1) = Inr s"
proof -
  have tr: "ke_state.truncate (unlocked l s (locked l s)) = ke_state.truncate s"
    by (rule release_locked(2) [OF assms refl])
  have "ke_state.more (unlocked l s (locked l s)) = ke_state.more s"
    by (simp add: unlocked_def locked_def hold_def set_lock_def at_irql_def)
  then have "unlocked l s (locked l s) = s"
    using tr by (cases s; cases "unlocked l s (locked l s)") (simp add: ke_state.truncate_def)
  then show ?thesis
    using acquire_lockable [OF assms] release_locked(1) [OF assms refl] by simp
qed

theorem spinlock_roundtrip_witness:
  "bind (KeAcquireSpinLock PoolLock boot_state)
     (\<lambda>(i, s1). KeReleaseSpinLock (\<lambda>_ _ _ _ _ s. Inr s) (Suc 0) PoolLock i s1) = Inr boot_state"
  by (rule spinlock_roundtrip) (rule boot_state_ok)

text \<open>C18. \<open>KiProcessDpcQueue\<close> terminates, runs every queued DPC exactly once in queue order with its
  stored arguments, each already unlinked and outside the processor lock, and returns at
  \<open>DISPATCH_LEVEL\<close> with an empty queue. The deferred routines are assumed to return at
  \<open>DISPATCH_LEVEL\<close>, not to hold the processor lock and to leave the queue alone.\<close>

theorem dpc_queue_drained_in_order:
  assumes "dpc_safe run" and "dpc_ready s" and "dpc_rep s ds" and "length ds < fuel"
  shows "\<exists>s'. KiProcessDpcQueue run fuel s = Inr s' \<and>
    foldE (\<lambda>d s. bind (LIST_REMOVE_HEAD (dpc_list s)) (\<lambda>(e, l).
      call_dpc run d (set_dpc_list l s))) ds s = Inr s' \<and>
    dpc_ready s' \<and> dpc_rep s' []"
proof -
  have "dpc_step run = (\<lambda>d s. bind (LIST_REMOVE_HEAD (dpc_list s)) (\<lambda>(e, l).
      call_dpc run d (set_dpc_list l s)))"
    by (auto simp: dpc_step_def dpc_dequeue_def bind_assoc fun_eq_iff intro!: arg_cong [of _ _ "bind _"])
  then show ?thesis using KiProcessDpcQueue_drains [OF assms] by simp
qed

definition one_dpc :: ke_state where
  "one_dpc = set_dpc_list (\<lparr>le_next = \<lambda>_. Some 3, le_prev = \<lambda>_. Some 3\<rparr>,
     \<lparr>lh_first = Some 3, NumberOfElements = 1\<rparr>) (at_irql DISPATCH_LEVEL boot_state)"

definition tick :: "ke_state deferred_routines" where
  "tick r d c a b s = Inr (KiIncrementCurrentTimerTicks s)"

lemma tick_safe: "dpc_safe tick"
  by (auto simp: dpc_safe_def tick_def KiIncrementCurrentTimerTicks_def dpc_ready_def hal_ok_def dpc_list_def)

theorem dpc_queue_drained_in_order_witness:
  "\<exists>s'. KiProcessDpcQueue tick 2 one_dpc = Inr s' \<and> dpc_rep s' [] \<and> TimerTicks s' = 1"
proof -
  have "hal_ok (at_irql DISPATCH_LEVEL boot_state)" by (rule hal_ok_at_irql [OF boot_state_ok(1)]) simp
  then have r: "dpc_ready one_dpc"
    by (simp add: dpc_ready_def one_dpc_def) (simp add: boot_state_def)
  have q: "dpc_rep one_dpc [3]"
    by (simp add: dpc_rep_def one_dpc_def klist_rep_def ring_singleton)
  have l: "length [3 :: nat] < 2" by simp
  obtain s' where s': "KiProcessDpcQueue tick 2 one_dpc = Inr s'" "dpc_rep s' []"
    "foldE (\<lambda>d s. bind (LIST_REMOVE_HEAD (dpc_list s)) (\<lambda>(e, l).
      call_dpc tick d (set_dpc_list l s))) [3] one_dpc = Inr s'"
    using dpc_queue_drained_in_order [OF tick_safe r q l] by auto
  then have "TimerTicks s' = TimerTicks one_dpc + 1"
    by (auto simp: bind_eq_Inr call_dpc_def tick_def KiIncrementCurrentTimerTicks_def set_dpc_list_def
        split: prod.splits)
  moreover have "TimerTicks one_dpc = 0"
    by (simp add: one_dpc_def set_dpc_list_def at_irql_def boot_state_def)
  ultimately show ?thesis using s' by simp
qed

text \<open>\<open>KeInsertQueueDpc\<close>, called above \<open>DISPATCH_LEVEL\<close>, reports whether the DPC was new; a new DPC
  goes to the head of the queue when its importance is high and to the tail otherwise, a queued one
  keeps its place, and apart from the queue and the stored arguments the state is unchanged, with
  IRQL and processor lock restored.\<close>

theorem insert_queue_dpc:
  assumes "hal_ok s" and "spin_locks s ProcessorLock = free_lock" and "DISPATCH_LEVEL < CurrentIrql s"
    and "dpc_rep s ds" and "length ds < 2 ^ 32"
    and "Type (Dpcs s d) = DpcObject" and "Number (Dpcs s d) = 0"
  shows "\<exists>l. KeInsertQueueDpc run fuel d a b s = Inr (d \<notin> set ds,
      set_dpc_list l (set_dpc d (\<lambda>k. k\<lparr>SystemArgument1 := a, SystemArgument2 := b\<rparr>) s)) \<and>
    klist_rep l (if d \<in> set ds then ds
      else if Importance (Dpcs s d) = HighImportance then d # ds else ds @ [d])"
  using assms by (intro KeInsertQueueDpc_correct) auto

theorem insert_queue_dpc_witness:
  "\<exists>l. KeInsertQueueDpc (\<lambda>_ _ _ _ _ s. Inr s) 1 5 7 8 (at_irql CLOCK1_LEVEL boot_state) =
     Inr (True, set_dpc_list l (set_dpc 5 (\<lambda>k. k\<lparr>SystemArgument1 := 7, SystemArgument2 := 8\<rparr>)
       (at_irql CLOCK1_LEVEL boot_state))) \<and> klist_rep l [5]"
proof -
  have "hal_ok (at_irql CLOCK1_LEVEL boot_state)" by (rule hal_ok_at_irql [OF boot_state_ok(1)]) simp
  moreover have "dpc_rep (at_irql CLOCK1_LEVEL boot_state) []"
    using boot_state_ok(3) by (simp add: dpc_rep_def)
  ultimately show ?thesis
    using insert_queue_dpc [of "at_irql CLOCK1_LEVEL boot_state" "[]" 5 "\<lambda>_ _ _ _ _ s. Inr s" 1 7 8]
    by (simp add: boot_state_def)
qed

end
