(* ===== verification/Gdt.thy ===== *)
theory Gdt
  imports KeLocks
begin

text \<open>
  The segment descriptors of \<open>hal/x86.h\<close> and the descriptor table of a processor, \<open>KiCreateCurrentGDT\<close> of \<open>ke/processor.c\<close>, which runs once when paging has been
  switched on. A descriptor is the record of its bit fields; \<open>descriptor\<close> is the double word they make in memory and \<open>desc_base\<close>, \<open>desc_limit\<close> and the like are what a
  processor reads from it. The table is built under the lock of the processor, which is here shown to be a critical section like the spin locks.
\<close>

section \<open>Descriptors\<close>

abbreviation (input) STA_X :: "4 word" where "STA_X \<equiv> 0x8"
abbreviation (input) STA_W :: "4 word" where "STA_W \<equiv> 0x2"
abbreviation (input) STA_R :: "4 word" where "STA_R \<equiv> 0x2"
abbreviation (input) STS_T32A :: "4 word" where "STS_T32A \<equiv> 0x9"
abbreviation (input) GD_KT :: USHORT where "GD_KT \<equiv> 0x08"
abbreviation (input) GD_KD :: USHORT where "GD_KD \<equiv> 0x10"
abbreviation (input) GD_UT :: USHORT where "GD_UT \<equiv> 0x18"
abbreviation (input) GD_UD :: USHORT where "GD_UD \<equiv> 0x20"
abbreviation (input) GD_TSS :: USHORT where "GD_TSS \<equiv> 0x28"
abbreviation (input) NUM_GDT_ENTRIES :: nat where "NUM_GDT_ENTRIES \<equiv> 6"
abbreviation (input) sizeof_KTASKSTATE :: ULONG where "sizeof_KTASKSTATE \<equiv> 104"

record GDTENTRY =
  sd_lim_15_0 :: "16 word"
  sd_base_15_0 :: "16 word"
  sd_base_23_16 :: "8 word"
  sd_type :: "4 word"
  sd_s :: "1 word"
  sd_dpl :: "2 word"
  sd_p :: "1 word"
  sd_lim_19_16 :: "4 word"
  sd_avl :: "1 word"
  sd_rsv1 :: "1 word"
  sd_db :: "1 word"
  sd_g :: "1 word"
  sd_base_31_24 :: "8 word"

definition SEG_NULL :: GDTENTRY where
  "SEG_NULL = \<lparr>sd_lim_15_0 = 0, sd_base_15_0 = 0, sd_base_23_16 = 0, sd_type = 0, sd_s = 0, sd_dpl = 0, sd_p = 0, sd_lim_19_16 = 0,
     sd_avl = 0, sd_rsv1 = 0, sd_db = 0, sd_g = 0, sd_base_31_24 = 0\<rparr>"

definition SEG :: "4 word \<Rightarrow> ULONG \<Rightarrow> ULONG \<Rightarrow> 2 word \<Rightarrow> GDTENTRY" where
  "SEG typ base lim dpl = \<lparr>sd_lim_15_0 = ucast (drop_bit 12 lim AND 0xFFFF), sd_base_15_0 = ucast (base AND 0xFFFF), sd_base_23_16 = ucast (drop_bit 16 base AND 0xFF),
     sd_type = typ, sd_s = 1, sd_dpl = dpl, sd_p = 1, sd_lim_19_16 = ucast (drop_bit 28 lim),
     sd_avl = 0, sd_rsv1 = 0, sd_db = 1, sd_g = 1, sd_base_31_24 = ucast (drop_bit 24 base)\<rparr>"

definition SEG16 :: "4 word \<Rightarrow> ULONG \<Rightarrow> ULONG \<Rightarrow> 2 word \<Rightarrow> GDTENTRY" where
  "SEG16 typ base lim dpl = \<lparr>sd_lim_15_0 = ucast (lim AND 0xFFFF), sd_base_15_0 = ucast (base AND 0xFFFF), sd_base_23_16 = ucast (drop_bit 16 base AND 0xFF),
     sd_type = typ, sd_s = 1, sd_dpl = dpl, sd_p = 1, sd_lim_19_16 = ucast (drop_bit 16 lim),
     sd_avl = 0, sd_rsv1 = 0, sd_db = 1, sd_g = 0, sd_base_31_24 = ucast (drop_bit 24 base)\<rparr>"

definition MODELGDT :: "GDTENTRY list" where
  "MODELGDT = [SEG_NULL, SEG (STA_X OR STA_R) 0 0xFFFFFFFF 0, SEG STA_W 0 0xFFFFFFFF 0, SEG (STA_X OR STA_R) 0 0xFFFFFFFF 3,
     SEG STA_W 0 0xFFFFFFFF 3, SEG_NULL]"

section \<open>The table of the processor\<close>

text \<open>\<open>Gdtr\<close> is the limit and the base the processor holds, \<open>DataSelector\<close> stands for \<open>ds\<close>, \<open>es\<close>, \<open>fs\<close>, \<open>gs\<close> and \<open>ss\<close>, which are loaded alike.\<close>

record gdt_state = ke_state +
  GDT :: "GDTENTRY list"
  TS_ss0 :: USHORT
  Gdtr :: "USHORT \<times> ULONG"
  CodeSelector :: USHORT
  DataSelector :: USHORT
  Ldtr :: USHORT
  TaskRegister :: USHORT

text \<open>The instruction \<open>ltr\<close> marks the descriptor it loads as busy.\<close>

definition ltr :: "USHORT \<Rightarrow> 'a gdt_state_scheme \<Rightarrow> 'a gdt_state_scheme" where
  "ltr sel s = (let i = unat (drop_bit 3 sel); d = GDT s ! i in s\<lparr>TaskRegister := sel, GDT := (GDT s)[i := d\<lparr>sd_type := sd_type d OR 2\<rparr>]\<rparr>)"

definition KiCreateCurrentGDT ::
  "'a gdt_state_scheme deferred_routines \<Rightarrow> nat \<Rightarrow> ULONG \<Rightarrow> ULONG \<Rightarrow> 'a gdt_state_scheme \<Rightarrow> fault + 'a gdt_state_scheme" where
  "KiCreateCurrentGDT run fuel TSS GDT_address s =
     bind (KiLockProcessorRaisetoHighLevel 0 s) (\<lambda>(OldIrql, s).
     let s = s\<lparr>GDT := replicate NUM_GDT_ENTRIES SEG_NULL\<rparr>;
         s = s\<lparr>GDT := MODELGDT\<rparr>;
         s = s\<lparr>TS_ss0 := GD_KD\<rparr>;
         s = s\<lparr>GDT := (GDT s)[unat (drop_bit 3 GD_TSS) := SEG16 STS_T32A TSS sizeof_KTASKSTATE 0]\<rparr>;
         s = s\<lparr>GDT := (GDT s)[unat (drop_bit 3 GD_TSS) := (GDT s ! unat (drop_bit 3 GD_TSS))\<lparr>sd_s := 0\<rparr>]\<rparr>;
         s = s\<lparr>Gdtr := (of_nat (8 * length MODELGDT - 1), GDT_address)\<rparr>;
         s = s\<lparr>DataSelector := GD_KD, CodeSelector := GD_KT, Ldtr := 0\<rparr>;
         s = ltr GD_TSS s
     in KiUnLockProcessorFromHighLevel run fuel 0 OldIrql s)"

text \<open>The rest of the processor's accessors, on a system with one processor.\<close>

definition KeGetCurrentProcessorNumber :: ULONG where "KeGetCurrentProcessorNumber = 0"
definition KeGetNumberOfProcessors :: ULONG where "KeGetNumberOfProcessors = 1"

definition KiGetCurrentGDT :: "fault + ULONG" where
  "KiGetCurrentGDT = Inl (KeBugCheck ''Not Yet Implemented'')"

section \<open>The lock of the processor as a critical section\<close>

definition processor_free :: "'a ke_state_scheme \<Rightarrow> bool" where
  "processor_free s \<longleftrightarrow> hal_ok s \<and> spin_locks s ProcessorLock = free_lock \<and> (LIST_EMPTY (DpcListHead s) \<or> DISPATCH_LEVEL \<le> CurrentIrql s)"

lemma release_processor:
  assumes s: "processor_free s" and tr: "ke_state.truncate s2 = ke_state.truncate (hold ProcessorLock DISPATCH_LEVEL (at_irql HIGH_LEVEL s))"
  shows "\<exists>s3. KiUnLockProcessorFromHighLevel run (Suc fuel) 0 (CurrentIrql s) s2 = Inr s3 \<and> ke_state.truncate s3 = ke_state.truncate s \<and>
    ke_state.more s3 = ke_state.more s2"
proof -
  have ok: "hal_ok (hold ProcessorLock DISPATCH_LEVEL (at_irql HIGH_LEVEL s))" using s by (auto simp: processor_free_def hal_ok_at_irql)
  have eq: "Hal8259MaskTable s2 = Hal8259MaskTable s" "CurrentIrql s2 = HIGH_LEVEL"
    "Pic8259Mask s2 = Pic8259Mask (at_irql HIGH_LEVEL s)" "Picinitdone s2 = Picinitdone s" "Flags_IF s2 = Flags_IF s"
    "CurrentThread s2 = CurrentThread s" "DpcListHead s2 = DpcListHead s" "DpcListEntry s2 = DpcListEntry s"
    "spin_locks s2 = (spin_locks s)(ProcessorLock := \<lparr>Lock = 1, Thread = CurrentThread s, OldIrql = DISPATCH_LEVEL\<rparr>)"
    using tr by (auto simp: ke_state.truncate_def hold_def set_lock_def at_irql_def)
  have ok2: "hal_ok s2" using ok eq by (simp add: hal_ok_def hold_def set_lock_def at_irql_def)
  have le: "CurrentIrql s \<le> HIGH_LEVEL" using s by (simp add: processor_free_def hal_ok_def)
  let ?u = "set_lock ProcessorLock (\<lambda>_. free_lock) s2"
  have "KeReleaseSpinLockFromDpcLevel ProcessorLock s2 = Inr ?u"
    using eq ok2 by (intro KeReleaseSpinLockFromDpcLevel_eq) simp_all
  moreover have "KeLowerIrql run (Suc fuel) (CurrentIrql s) ?u = Inr (at_irql (CurrentIrql s) ?u)"
    using s ok2 eq le by (intro KeLowerIrql_quiet) (auto simp: processor_free_def)
  ultimately have "KiUnLockProcessorFromHighLevel run (Suc fuel) 0 (CurrentIrql s) s2 = Inr (at_irql (CurrentIrql s) ?u)"
    using ok2 eq by (simp add: KiUnLockProcessorFromHighLevel_def KiUnLockProcessorFromHighLevel_with_def KeLowerIrql_def hal_ok_irql KiGetPrcb_def)
  moreover have "(spin_locks s)(ProcessorLock := free_lock) = spin_locks s" "Hal8259MaskTable s ! unat (CurrentIrql s) = Pic8259Mask s"
    using s by (auto simp: processor_free_def hal_ok_def)
  then have "ke_state.truncate (at_irql (CurrentIrql s) ?u) = ke_state.truncate s"
    using tr eq by (simp add: ke_state.truncate_def hold_def set_lock_def at_irql_def)
  ultimately show ?thesis by (intro exI [of _ "at_irql (CurrentIrql s) ?u"]) (simp add: set_lock_def at_irql_def)
qed

interpretation processor: critical_section processor_free ke_state.truncate ke_state.more
  "KiLockProcessorRaisetoHighLevel 0" "KiUnLockProcessorFromHighLevel run (Suc fuel) 0"
proof
  fix s s1 s2 s' :: "'a ke_state_scheme" and i
  assume s: "processor_free s"
  have a: "KiLockProcessorRaisetoHighLevel 0 s = Inr (CurrentIrql s, hold ProcessorLock DISPATCH_LEVEL (at_irql HIGH_LEVEL s))"
    using s by (intro processor_lock_eq) (simp_all add: processor_free_def)
  then show "\<exists>i s1. KiLockProcessorRaisetoHighLevel 0 s = Inr (i, s1) \<and> ke_state.more s1 = ke_state.more s"
    by (simp add: hold_def set_lock_def at_irql_def)
  { assume "KiLockProcessorRaisetoHighLevel 0 s = Inr (i, s1)" "ke_state.truncate s2 = ke_state.truncate s1"
    then show "\<exists>s3. KiUnLockProcessorFromHighLevel run (Suc fuel) 0 i s2 = Inr s3 \<and>
        ke_state.truncate s3 = ke_state.truncate s \<and> ke_state.more s3 = ke_state.more s2"
      using a release_processor [OF s, of s2 run fuel] by simp }
  { assume "ke_state.truncate s' = ke_state.truncate s"
    then have "Hal8259MaskTable s' = Hal8259MaskTable s" "CurrentIrql s' = CurrentIrql s" "Pic8259Mask s' = Pic8259Mask s"
      "Picinitdone s' = Picinitdone s" "Flags_IF s' = Flags_IF s" "DpcListHead s' = DpcListHead s" "spin_locks s' = spin_locks s"
      by (auto simp: ke_state.truncate_def)
    then show "processor_free s'" using s by (simp add: processor_free_def hal_ok_def) }
qed

section \<open>What a processor reads from a descriptor\<close>

text \<open>The bit fields in memory, in the order the compiler lays them out, and their meaning to the processor.\<close>

definition descriptor :: "GDTENTRY \<Rightarrow> 64 word" where
  "descriptor d = ucast (sd_lim_15_0 d) OR push_bit 16 (ucast (sd_base_15_0 d)) OR push_bit 32 (ucast (sd_base_23_16 d)) OR push_bit 40 (ucast (sd_type d)) OR
     push_bit 44 (ucast (sd_s d)) OR push_bit 45 (ucast (sd_dpl d)) OR push_bit 47 (ucast (sd_p d)) OR push_bit 48 (ucast (sd_lim_19_16 d)) OR
     push_bit 52 (ucast (sd_avl d)) OR push_bit 53 (ucast (sd_rsv1 d)) OR push_bit 54 (ucast (sd_db d)) OR push_bit 55 (ucast (sd_g d)) OR
     push_bit 56 (ucast (sd_base_31_24 d))"

definition desc_base :: "64 word \<Rightarrow> ULONG" where
  "desc_base w = ucast (take_bit 24 (drop_bit 16 w)) OR push_bit 24 (ucast (drop_bit 56 w))"

definition desc_limit :: "64 word \<Rightarrow> ULONG" where
  "desc_limit w = (let l = ucast (take_bit 16 w) OR push_bit 16 (ucast (take_bit 4 (drop_bit 48 w)))
     in if bit w 55 then push_bit 12 l OR mask 12 else l)"

definition desc_type :: "64 word \<Rightarrow> 4 word" where "desc_type w = ucast (drop_bit 40 w)"
definition desc_dpl :: "64 word \<Rightarrow> 2 word" where "desc_dpl w = ucast (drop_bit 45 w)"
definition desc_present :: "64 word \<Rightarrow> bool" where "desc_present w = bit w 47"
definition desc_code_or_data :: "64 word \<Rightarrow> bool" where "desc_code_or_data w = bit w 44"

lemma masks: "x AND 0xFFFF = (take_bit 16 x :: ULONG)" "x AND 0xFF = (take_bit 8 x :: ULONG)"
  by (simp_all add: take_bit_eq_mask mask_eq_exp_minus_1)

lemma no_bit:
  "16 \<le> n \<Longrightarrow> \<not> bit (a :: 16 word) n" "8 \<le> n \<Longrightarrow> \<not> bit (b :: 8 word) n" "4 \<le> n \<Longrightarrow> \<not> bit (c :: 4 word) n"
  "2 \<le> n \<Longrightarrow> \<not> bit (d :: 2 word) n" "1 \<le> n \<Longrightarrow> \<not> bit (e :: 1 word) n"
  using bit_imp_le_length [of a n] bit_imp_le_length [of b n] bit_imp_le_length [of c n] bit_imp_le_length [of d n] bit_imp_le_length [of e n] by auto

lemma descriptor_bit:
  "bit (descriptor d) n \<longleftrightarrow> n < 64 \<and> (if n < 16 then bit (sd_lim_15_0 d) n else if n < 32 then bit (sd_base_15_0 d) (n - 16)
     else if n < 40 then bit (sd_base_23_16 d) (n - 32) else if n < 44 then bit (sd_type d) (n - 40) else if n < 45 then bit (sd_s d) (n - 44)
     else if n < 47 then bit (sd_dpl d) (n - 45) else if n < 48 then bit (sd_p d) (n - 47) else if n < 52 then bit (sd_lim_19_16 d) (n - 48)
     else if n < 53 then bit (sd_avl d) (n - 52) else if n < 54 then bit (sd_rsv1 d) (n - 53) else if n < 55 then bit (sd_db d) (n - 54)
     else if n < 56 then bit (sd_g d) (n - 55) else bit (sd_base_31_24 d) (n - 56))"
proof -
  have up: "bit (ucast a :: 64 word) m = bit a m" "bit (ucast b :: 64 word) m = bit b m" "bit (ucast c :: 64 word) m = bit c m" "bit (ucast e :: 64 word) m = bit e m"
    "bit (ucast g :: 64 word) m = bit g m" for a :: "16 word" and b :: "8 word" and c :: "4 word" and e :: "2 word" and g :: "1 word" and m
    by (auto simp: bit_simps dest: bit_imp_le_length)
  show ?thesis by (cases "n < 64") (simp_all add: descriptor_def bit_or_iff bit_push_bit_iff up no_bit bit_imp_le_length)
qed

lemma descriptor_fields:
  "take_bit 16 (descriptor d) = ucast (sd_lim_15_0 d)" "take_bit 4 (drop_bit 48 (descriptor d)) = ucast (sd_lim_19_16 d)"
  "desc_type (descriptor d) = sd_type d" "desc_dpl (descriptor d) = sd_dpl d" "desc_present (descriptor d) \<longleftrightarrow> bit (sd_p d) 0"
  "desc_code_or_data (descriptor d) \<longleftrightarrow> bit (sd_s d) 0" "bit (descriptor d) 55 \<longleftrightarrow> bit (sd_g d) 0"
  "desc_base (descriptor d) = ucast (sd_base_15_0 d) OR push_bit 16 (ucast (sd_base_23_16 d)) OR push_bit 24 (ucast (sd_base_31_24 d))"
proof -
  show "take_bit 16 (descriptor d) = ucast (sd_lim_15_0 d)" by (rule bit_word_eqI) (auto simp: bit_simps descriptor_bit no_bit)
  show "take_bit 4 (drop_bit 48 (descriptor d)) = ucast (sd_lim_19_16 d)" by (rule bit_word_eqI) (auto simp: bit_simps descriptor_bit no_bit)
  show "desc_type (descriptor d) = sd_type d" by (rule bit_word_eqI) (simp add: desc_type_def bit_simps descriptor_bit)
  show "desc_dpl (descriptor d) = sd_dpl d" by (rule bit_word_eqI) (simp add: desc_dpl_def bit_simps descriptor_bit)
  show "desc_present (descriptor d) \<longleftrightarrow> bit (sd_p d) 0" "desc_code_or_data (descriptor d) \<longleftrightarrow> bit (sd_s d) 0" "bit (descriptor d) 55 \<longleftrightarrow> bit (sd_g d) 0"
    by (simp_all add: desc_present_def desc_code_or_data_def descriptor_bit)
  show "desc_base (descriptor d) = ucast (sd_base_15_0 d) OR push_bit 16 (ucast (sd_base_23_16 d)) OR push_bit 24 (ucast (sd_base_31_24 d))"
    by (rule bit_word_eqI) (auto simp: desc_base_def bit_simps descriptor_bit no_bit)
qed

lemma descriptor_limit:
  "desc_limit (descriptor d) = (let l = ucast (sd_lim_15_0 d) OR push_bit 16 (ucast (sd_lim_19_16 d)) in if bit (sd_g d) 0 then push_bit 12 l OR mask 12 else l)"
proof -
  have u: "ucast (ucast x :: 64 word) = (ucast x :: ULONG)" for x :: "16 word" by (rule bit_word_eqI) (auto simp: bit_simps)
  have v: "ucast (ucast x :: 64 word) = (ucast x :: ULONG)" for x :: "4 word" by (rule bit_word_eqI) (auto simp: bit_simps)
  show ?thesis by (simp add: desc_limit_def descriptor_fields u v)
qed

lemma split_base:
  fixes b :: ULONG
  shows "ucast (ucast (b AND 0xFFFF :: ULONG) :: 16 word) OR push_bit 16 (ucast (ucast (drop_bit 16 b AND 0xFF) :: 8 word)) OR push_bit 24 (ucast (ucast (drop_bit 24 b) :: 8 word)) = b"
proof (rule bit_word_eqI)
  fix n assume "n < LENGTH(32)"
  then consider "n < 16" | "16 \<le> n" "n < 24" | "24 \<le> n" "n < 32" by force
  then show "bit (ucast (ucast (b AND 0xFFFF :: ULONG) :: 16 word) OR push_bit 16 (ucast (ucast (drop_bit 16 b AND 0xFF) :: 8 word)) OR
      push_bit 24 (ucast (ucast (drop_bit 24 b) :: 8 word)) :: ULONG) n = bit b n"
    by cases (auto simp: masks bit_simps)
qed

lemma split_limit:
  fixes l :: ULONG
  shows "(push_bit 12 (ucast (ucast (drop_bit 12 l AND 0xFFFF :: ULONG) :: 16 word)) OR push_bit 28 (ucast (ucast (drop_bit 28 l) :: 4 word))) OR mask 12 = l OR mask 12"
  "ucast (ucast (l AND 0xFFFF :: ULONG) :: 16 word) OR push_bit 16 (ucast (ucast (drop_bit 16 l) :: 4 word)) = take_bit 20 l"
  unfolding masks by (rule bit_word_eqI, auto simp: bit_simps)+

text \<open>A descriptor of \<open>SEG\<close> covers whole pages, one of \<open>SEG16\<close> bytes; both keep the base.\<close>

lemma descriptor_SEG:
  "desc_base (descriptor (SEG t b l d)) = b" "desc_limit (descriptor (SEG t b l d)) = l OR mask 12" "desc_type (descriptor (SEG t b l d)) = t"
  "desc_dpl (descriptor (SEG t b l d)) = d" "desc_present (descriptor (SEG t b l d))" "desc_code_or_data (descriptor (SEG t b l d))"
  by (simp_all add: descriptor_fields descriptor_limit SEG_def split_base split_limit)

lemma descriptor_SEG16:
  assumes "d = (SEG16 t b l p)\<lparr>sd_s := 0, sd_type := u\<rparr>"
  shows "desc_base (descriptor d) = b" "desc_limit (descriptor d) = take_bit 20 l" "desc_type (descriptor d) = u"
    "desc_dpl (descriptor d) = p" "desc_present (descriptor d)" "\<not> desc_code_or_data (descriptor d)"
  using assms by (simp_all add: descriptor_fields descriptor_limit SEG16_def split_base split_limit)

section \<open>The table after it was created\<close>

definition created_gdt :: "ULONG \<Rightarrow> ULONG \<Rightarrow> 'a gdt_state_scheme \<Rightarrow> 'a gdt_state_scheme" where
  "created_gdt TSS GDT_address s =
     s\<lparr>TS_ss0 := GD_KD, Gdtr := (47, GDT_address), DataSelector := GD_KD, CodeSelector := GD_KT, Ldtr := 0, TaskRegister := GD_TSS,
       GDT := MODELGDT[5 := (SEG16 STS_T32A TSS sizeof_KTASKSTATE 0)\<lparr>sd_s := 0, sd_type := 0xB\<rparr>]\<rparr>"

lemma KiCreateCurrentGDT_bracket:
  "KiCreateCurrentGDT run fuel TSS GDT_address s =
     bind (KiLockProcessorRaisetoHighLevel 0 s) (\<lambda>(Old, t). KiUnLockProcessorFromHighLevel run fuel 0 Old (created_gdt TSS GDT_address t))"
proof -
  have l: "length MODELGDT = 6" by (simp add: MODELGDT_def)
  have "sd_type ((SEG16 STS_T32A TSS sizeof_KTASKSTATE 0)\<lparr>sd_s := 0\<rparr>) OR 2 = 0xB" by (simp add: SEG16_def)
  then show ?thesis by (simp add: KiCreateCurrentGDT_def created_gdt_def ltr_def Let_def l)
qed

lemma created_gdt_more:
  fixes s t :: "'a gdt_state_scheme"
  assumes "ke_state.more t = ke_state.more s"
  shows "ke_state.more (created_gdt TSS GDT_address t) = ke_state.more (created_gdt TSS GDT_address s)"
  using assms by (cases s; cases t; simp add: created_gdt_def)

lemma created_gdt_created:
  assumes s: "processor_free s"
  shows "KiCreateCurrentGDT run (Suc fuel) TSS GDT_address s = Inr (created_gdt TSS GDT_address s)"
proof -
  have "\<exists>t'. Inr ((), created_gdt TSS GDT_address t) = Inr ((), t') \<and> ke_state.truncate t' = ke_state.truncate t \<and>
      ke_state.more t' = ke_state.more (created_gdt TSS GDT_address s)" if "ke_state.more t = ke_state.more s" for t
    using created_gdt_more [OF that] by (simp add: created_gdt_def ke_state.truncate_def)
  from processor.bracket_ok [OF s this, where run = run and fuel = fuel] obtain s' where
    s': "processor.bracket run fuel (\<lambda>t. Inr ((), created_gdt TSS GDT_address t)) s = Inr ((), s')" "ke_state.truncate s' = ke_state.truncate s"
      "ke_state.more s' = ke_state.more (created_gdt TSS GDT_address s)" by blast
  have tr: "ke_state.truncate (created_gdt TSS GDT_address s) = ke_state.truncate s" by (simp add: created_gdt_def ke_state.truncate_def)
  have e: "s' = created_gdt TSS GDT_address s" by (rule same_more [OF trans [OF s'(2) tr [symmetric]] s'(3)])
  obtain i t where a: "KiLockProcessorRaisetoHighLevel 0 s = Inr (i, t)" using processor.acquire_ok [OF s] by blast
  then have "bind (KiUnLockProcessorFromHighLevel run (Suc fuel) 0 i (created_gdt TSS GDT_address t)) (\<lambda>s. Inr ((), s)) = Inr ((), s')"
    using s'(1) by (simp add: processor.bracket_def)
  then show ?thesis unfolding KiCreateCurrentGDT_bracket a bind_Inr prod.case e by (auto simp: bind_def split: sum.splits)
qed

text \<open>C35. \<open>KiCreateCurrentGDT\<close> gives a processor flat segments: under its own lock and with everything else unchanged it loads a table in which the code and data segments
  of the kernel and of the user each start at 0 and end at 4 GB, those of the user alone with privilege level 3, the null descriptor is not present, and the task segment
  starts at the task state with the kernel's stack segment in it. The bit fields are read back as the processor reads them.\<close>

theorem gdt_loaded:
  assumes "processor_free s"
  shows "\<exists>s'. KiCreateCurrentGDT run (Suc fuel) TSS GDT_address s = Inr s' \<and> ke_state.truncate s' = ke_state.truncate s \<and> gdt_state.more s' = gdt_state.more s \<and>
    Gdtr s' = (of_nat (8 * length MODELGDT - 1), GDT_address) \<and> length (GDT s') = length MODELGDT \<and>
    CodeSelector s' = GD_KT \<and> DataSelector s' = GD_KD \<and> TaskRegister s' = GD_TSS \<and> TS_ss0 s' = GD_KD \<and>
    (let e = \<lambda>selector. descriptor (GDT s' ! unat (drop_bit 3 selector)) in \<not> desc_present (e 0) \<and>
      (\<forall>sel \<in> {GD_KT, GD_KD, GD_UT, GD_UD}. desc_present (e sel) \<and> desc_code_or_data (e sel) \<and> desc_base (e sel) = 0 \<and> desc_limit (e sel) = 0xFFFFFFFF) \<and>
      map (\<lambda>sel. desc_dpl (e sel)) [GD_KT, GD_KD, GD_UT, GD_UD] = [0, 0, 3, 3] \<and>
      map (\<lambda>sel. desc_type (e sel)) [GD_KT, GD_KD, GD_UT, GD_UD] = [STA_X OR STA_R, STA_W, STA_X OR STA_R, STA_W] \<and>
      desc_present (e GD_TSS) \<and> \<not> desc_code_or_data (e GD_TSS) \<and> desc_base (e GD_TSS) = TSS)"
proof -
  let ?s = "created_gdt TSS GDT_address s"
  have g: "GDT ?s = [SEG_NULL, SEG (STA_X OR STA_R) 0 0xFFFFFFFF 0, SEG STA_W 0 0xFFFFFFFF 0, SEG (STA_X OR STA_R) 0 0xFFFFFFFF 3,
     SEG STA_W 0 0xFFFFFFFF 3, (SEG16 STS_T32A TSS sizeof_KTASKSTATE 0)\<lparr>sd_s := 0, sd_type := 0xB\<rparr>]"
    by (simp add: created_gdt_def MODELGDT_def)
  have r: "CodeSelector ?s = 0x08" "DataSelector ?s = 0x10" "TaskRegister ?s = 0x28" "TS_ss0 ?s = 0x10" "Gdtr ?s = (of_nat (8 * length MODELGDT - 1), GDT_address)"
    by (simp_all add: created_gdt_def MODELGDT_def)
  have n: "length MODELGDT = 6" by (simp add: MODELGDT_def)
  have m: "(0xFFFFFFFF :: ULONG) OR mask 12 = 0xFFFFFFFF" by (simp add: mask_eq_exp_minus_1)
  have z: "\<not> desc_present (descriptor SEG_NULL)" by (simp add: descriptor_fields SEG_NULL_def)
  have "ke_state.truncate ?s = ke_state.truncate s" "gdt_state.more ?s = gdt_state.more s" by (simp_all add: created_gdt_def ke_state.truncate_def)
  then show ?thesis
    using created_gdt_created [OF assms, of run fuel TSS GDT_address]
    by (intro exI [of _ ?s]) (simp add: g r m z n Let_def descriptor_SEG descriptor_SEG16 [OF refl])
qed

definition reset_gdt :: gdt_state where
  "reset_gdt = ke_state.extend boot_state (gdt_state.fields [] 0 (0, 0) 8 16 0 0)"

theorem gdt_loaded_witness:
  "\<exists>s'. KiCreateCurrentGDT (\<lambda>_ _ _ _ _. Inr) 1 0x80106000 0x80105F00 reset_gdt = Inr s' \<and> desc_base (descriptor (GDT s' ! 5)) = 0x80106000 \<and>
     desc_dpl (descriptor (GDT s' ! 3)) = 3 \<and> Gdtr s' = (47, 0x80105F00)"
proof -
  have "processor_free reset_gdt"
    using boot_state_ok(1) by (simp add: processor_free_def hal_ok_def reset_gdt_def gdt_state.fields_def ke_state.extend_def boot_state_def LIST_EMPTY_def LIST_INIT_def)
  from gdt_loaded [OF this, of "\<lambda>_ _ _ _ _. Inr" 0 "0x80106000" "0x80105F00"] show ?thesis by (force simp: Let_def MODELGDT_def)
qed

end
