(* ===== verification/Bitmap.thy ===== *)
theory Bitmap
  imports KPrelude
begin

text \<open>
  \<open>lib/bitmap.c\<close>: a bitmap is a count of bits and an array of 32-bit elements. The single-bit
  operations work on the element with a mask; the range operations and the first-fit scan call
  them in counted loops. The section on the abstraction reads a bitmap as a predicate on bit
  numbers, and the locale \<open>range_allocator\<close> is what the page allocators of \<open>mm.c\<close> rely on.
\<close>

section \<open>Operations\<close>

type_synonym size_t = ULONG
type_synonym ElementType = ULONG

record BITMAP =
  BitCount :: size_t
  bits :: "ElementType list"

abbreviation ELEM_BITS :: size_t where "ELEM_BITS \<equiv> 32"
abbreviation sizeof_BITMAP :: size_t where "sizeof_BITMAP \<equiv> 8"
abbreviation BITMAP_ERROR :: size_t where "BITMAP_ERROR \<equiv> - 100"

definition BmElementIndex :: "size_t \<Rightarrow> size_t" where
  "BmElementIndex BitIndex = BitIndex div ELEM_BITS"

definition BmBitMask :: "size_t \<Rightarrow> ElementType" where
  "BmBitMask BitIndex = push_bit (unat (BitIndex mod ELEM_BITS)) 1"

definition BmElementCount :: "size_t \<Rightarrow> size_t" where
  "BmElementCount BitCnt = (BitCnt + ELEM_BITS - 1) div ELEM_BITS"

definition BmByteCount :: "size_t \<Rightarrow> size_t" where
  "BmByteCount BitCnt = 4 * BmElementCount BitCnt"

definition BmLastMask :: "BITMAP \<Rightarrow> ElementType" where
  "BmLastMask bitmap =
     (let LastBits = BitCount bitmap mod ELEM_BITS
      in if LastBits \<noteq> 0 then push_bit (unat LastBits) 1 - 1 else - 1)"

definition BmBitmapBufferSize :: "size_t \<Rightarrow> size_t" where
  "BmBitmapBufferSize BitCnt = sizeof_BITMAP + BmByteCount BitCnt"

definition BmBitmapSize :: "BITMAP \<Rightarrow> size_t" where
  "BmBitmapSize bitmap = BitCount bitmap"

text \<open>An access \<open>bitmap->bits[idx]\<close> past the array is \<open>OutOfBounds\<close>.\<close>

definition update_element :: "size_t \<Rightarrow> (ElementType \<Rightarrow> ElementType) \<Rightarrow> BITMAP \<Rightarrow> fault + BITMAP" where
  "update_element idx f bitmap =
     (if unat idx < length (bits bitmap)
      then Inr (bitmap\<lparr>bits := (bits bitmap)[unat idx := f (bits bitmap ! unat idx)]\<rparr>)
      else Inl OutOfBounds)"

definition BmBitmapMark :: "BITMAP \<Rightarrow> size_t \<Rightarrow> fault + BITMAP" where
  "BmBitmapMark bitmap BitIndex =
     update_element (BmElementIndex BitIndex) (\<lambda>w. w OR BmBitMask BitIndex) bitmap"

definition BmBitmapReset :: "BITMAP \<Rightarrow> size_t \<Rightarrow> fault + BITMAP" where
  "BmBitmapReset bitmap BitIndex =
     update_element (BmElementIndex BitIndex) (\<lambda>w. w AND NOT (BmBitMask BitIndex)) bitmap"

definition BmBitmapFlip :: "BITMAP \<Rightarrow> size_t \<Rightarrow> fault + BITMAP" where
  "BmBitmapFlip bitmap BitIndex =
     update_element (BmElementIndex BitIndex) (\<lambda>w. w XOR BmBitMask BitIndex) bitmap"

definition BmBitmapSet :: "BITMAP \<Rightarrow> size_t \<Rightarrow> bool \<Rightarrow> fault + BITMAP" where
  "BmBitmapSet bitmap idx value =
     ASSERT ''BmBitmapSet: idx < BitCount'' (idx < BitCount bitmap)
       (if value then BmBitmapMark bitmap idx else BmBitmapReset bitmap idx)"

definition BmBitmapTest :: "BITMAP \<Rightarrow> size_t \<Rightarrow> fault + bool" where
  "BmBitmapTest bitmap idx =
     ASSERT ''BmBitmapTest: idx < BitCount'' (idx < BitCount bitmap)
       (if unat (BmElementIndex idx) < length (bits bitmap)
        then Inr (bits bitmap ! unat (BmElementIndex idx) AND BmBitMask idx \<noteq> 0)
        else Inl OutOfBounds)"

definition BmBitmapSetMultiple :: "BITMAP \<Rightarrow> size_t \<Rightarrow> size_t \<Rightarrow> bool \<Rightarrow> fault + BITMAP" where
  "BmBitmapSetMultiple bitmap start cnt value =
     ASSERT ''BmBitmapSetMultiple: start <= BitCount'' (start \<le> BitCount bitmap)
     (ASSERT ''BmBitmapSetMultiple: start + cnt <= BitCount'' (start + cnt \<le> BitCount bitmap)
       (foldE (\<lambda>i bitmap. BmBitmapSet bitmap (start + i) value) (range32 0 cnt) bitmap))"

definition BmBitmapSetAll :: "BITMAP \<Rightarrow> bool \<Rightarrow> fault + BITMAP" where
  "BmBitmapSetAll bitmap value = BmBitmapSetMultiple bitmap 0 (BmBitmapSize bitmap) value"

text \<open>\<open>rest\<close> is what the \<open>block_size - sizeof(BITMAP)\<close> bytes after the header hold on entry.\<close>

definition BmBitmapCreateInBuffer :: "size_t \<Rightarrow> ElementType list \<Rightarrow> size_t \<Rightarrow> fault + BITMAP" where
  "BmBitmapCreateInBuffer BitCnt rest block_size =
     ASSERT ''BmBitmapCreateInBuffer: block_size > sizeof(BITMAP)''
       (BitCnt = 0 \<longrightarrow> block_size > sizeof_BITMAP)
     (let BitCnt = (if BitCnt = 0 then (block_size - sizeof_BITMAP) * 8 else BitCnt)
      in ASSERT ''BmBitmapCreateInBuffer: block_size >= BmBitmapBufferSize(BitCount)''
           (block_size \<ge> BmBitmapBufferSize BitCnt)
           (BmBitmapSetAll \<lparr>BitCount = BitCnt, bits = rest\<rparr> False))"

definition BmBitmapCount :: "BITMAP \<Rightarrow> size_t \<Rightarrow> size_t \<Rightarrow> bool \<Rightarrow> fault + size_t" where
  "BmBitmapCount bitmap start cnt value =
     ASSERT ''BmBitmapCount: start <= BitCount'' (start \<le> BitCount bitmap)
     (ASSERT ''BmBitmapCount: start + cnt <= BitCount'' (start + cnt \<le> BitCount bitmap)
       (foldE (\<lambda>i value_cnt. bind (BmBitmapTest bitmap (start + i)) (\<lambda>b.
            Inr (if b = value then value_cnt + 1 else value_cnt))) (range32 0 cnt) 0))"

fun contains_loop :: "BITMAP \<Rightarrow> size_t \<Rightarrow> bool \<Rightarrow> size_t list \<Rightarrow> fault + bool" where
  "contains_loop bitmap start value [] = Inr False"
| "contains_loop bitmap start value (i # is) =
     bind (BmBitmapTest bitmap (start + i)) (\<lambda>b.
       if b = value then Inr True else contains_loop bitmap start value is)"

definition BmBitmapContains :: "BITMAP \<Rightarrow> size_t \<Rightarrow> size_t \<Rightarrow> bool \<Rightarrow> fault + bool" where
  "BmBitmapContains bitmap start cnt value =
     ASSERT ''BmBitmapContains: start <= BitCount'' (start \<le> BitCount bitmap)
     (ASSERT ''BmBitmapContains: start + cnt <= BitCount'' (start + cnt \<le> BitCount bitmap)
       (contains_loop bitmap start value (range32 0 cnt)))"

definition BmBitmapAny :: "BITMAP \<Rightarrow> size_t \<Rightarrow> size_t \<Rightarrow> fault + bool" where
  "BmBitmapAny bitmap start cnt = BmBitmapContains bitmap start cnt True"

definition BmBitmapNone :: "BITMAP \<Rightarrow> size_t \<Rightarrow> size_t \<Rightarrow> fault + bool" where
  "BmBitmapNone b start cnt = bind (BmBitmapContains b start cnt True) (\<lambda>r. Inr (\<not> r))"

definition BmBitmapAll :: "BITMAP \<Rightarrow> size_t \<Rightarrow> size_t \<Rightarrow> fault + bool" where
  "BmBitmapAll b start cnt = bind (BmBitmapContains b start cnt False) (\<lambda>r. Inr (\<not> r))"

text \<open>
  The loop \<open>for (i = start; i <= last; i++)\<close>. With \<open>last\<close> the largest word the count is zero, the
  first test finds no bit and the loop returns in its first iteration, so the index never wraps.
\<close>

fun scan_loop :: "BITMAP \<Rightarrow> size_t \<Rightarrow> bool \<Rightarrow> size_t list \<Rightarrow> fault + size_t" where
  "scan_loop bitmap cnt value [] = Inr BITMAP_ERROR"
| "scan_loop bitmap cnt value (i # is) =
     bind (BmBitmapContains bitmap i cnt (\<not> value)) (\<lambda>c.
       if \<not> c then Inr i else scan_loop bitmap cnt value is)"

definition BmBitmapScan :: "BITMAP \<Rightarrow> size_t \<Rightarrow> size_t \<Rightarrow> bool \<Rightarrow> fault + size_t" where
  "BmBitmapScan bitmap start cnt value =
     ASSERT ''BmBitmapScan: start <= BitCount'' (start \<le> BitCount bitmap)
       (if cnt \<le> BitCount bitmap
        then (let last = BitCount bitmap - cnt
              in scan_loop bitmap cnt value (map of_nat [unat start..<Suc (unat last)]))
        else Inr BITMAP_ERROR)"

definition BmBitmapScanAndFlip :: "BITMAP \<Rightarrow> size_t \<Rightarrow> size_t \<Rightarrow> bool \<Rightarrow> fault + (size_t \<times> BITMAP)" where
  "BmBitmapScanAndFlip bitmap start cnt value =
     bind (BmBitmapScan bitmap start cnt value) (\<lambda>idx.
       if idx \<noteq> BITMAP_ERROR
       then bind (BmBitmapSetMultiple bitmap idx cnt (\<not> value)) (\<lambda>bitmap. Inr (idx, bitmap))
       else Inr (idx, bitmap))"

section \<open>The abstraction\<close>

definition bm_bit :: "BITMAP \<Rightarrow> nat \<Rightarrow> bool" where
  "bm_bit b i = bit (bits b ! (i div 32)) (i mod 32)"

definition bm_wf :: "BITMAP \<Rightarrow> bool" where
  "bm_wf b \<longleftrightarrow> unat (BitCount b) \<le> 32 * length (bits b)"

lemma unat_BmElementIndex: "unat (BmElementIndex i) = unat i div 32"
  by (simp add: BmElementIndex_def unat_div)

lemma bit_BmBitMask: "bit (BmBitMask i) n \<longleftrightarrow> n = unat i mod 32"
proof -
  have "unat (i mod 32) = unat i mod 32" by (simp add: unat_mod)
  then show ?thesis by (auto simp: BmBitMask_def bit_simps)
qed

lemma and_mask_ne_0: "(w AND BmBitMask i \<noteq> 0) = bit w (unat i mod 32)"
proof
  assume "w AND BmBitMask i \<noteq> 0"
  then obtain n where "bit (w AND BmBitMask i) n" by (metis bit_word_eqI bit_0_eq bot_apply bot_bool_def)
  then show "bit w (unat i mod 32)" by (auto simp: bit_and_iff bit_BmBitMask)
next
  assume "bit w (unat i mod 32)"
  then have "bit (w AND BmBitMask i) (unat i mod 32)" by (simp add: bit_and_iff bit_BmBitMask)
  then show "w AND BmBitMask i \<noteq> 0" by auto
qed

lemma BmBitmapTest_eq:
  assumes "bm_wf b"
  shows "BmBitmapTest b i =
    (if i < BitCount b then Inr (bm_bit b (unat i)) else Inl (AssertionFailed ''BmBitmapTest: idx < BitCount''))"
proof (cases "i < BitCount b")
  case True
  then have "unat i div 32 < length (bits b)"
    using assms by (simp add: bm_wf_def word_less_nat_alt)
  with True show ?thesis
    by (simp add: BmBitmapTest_def unat_BmElementIndex and_mask_ne_0 bm_bit_def)
qed (simp add: BmBitmapTest_def)

lemma BmBitmapSet_correct:
  assumes "bm_wf b" and "i < BitCount b"
  shows "\<exists>b'. BmBitmapSet b i v = Inr b' \<and> bm_wf b' \<and> BitCount b' = BitCount b \<and>
    (\<forall>j. bm_bit b' j = (if j = unat i then v else bm_bit b j))"
proof -
  let ?e = "unat i div 32"
  have len: "?e < length (bits b)" using assms by (simp add: bm_wf_def word_less_nat_alt)
  have same: "j = unat i \<longleftrightarrow> j div 32 = ?e \<and> j mod 32 = unat i mod 32" for j
    by (metis div_mult_mod_eq)
  have lt: "j mod 32 < 32" for j :: nat by simp
  let ?f = "\<lambda>w. if v then w OR BmBitMask i else w AND NOT (BmBitMask i)"
  have bitf: "bit (?f w) n \<longleftrightarrow> (if n = unat i mod 32 then v else bit w n)" if "n < 32" for w n
    using that by (auto simp: bit_simps bit_BmBitMask)
  have "BmBitmapSet b i v = update_element (BmElementIndex i) ?f b"
    using assms(2) by (simp add: BmBitmapSet_def BmBitmapMark_def BmBitmapReset_def)
  then have "BmBitmapSet b i v = Inr (b\<lparr>bits := (bits b)[?e := ?f (bits b ! ?e)]\<rparr>)"
    using len by (simp add: update_element_def unat_BmElementIndex)
  moreover have "bm_bit (b\<lparr>bits := (bits b)[?e := ?f (bits b ! ?e)]\<rparr>) j =
      (if j = unat i then v else bm_bit b j)" for j
    using len same [of j] bitf [OF lt [of j]]
    by (cases "j div 32 = ?e") (auto simp: bm_bit_def)
  ultimately show ?thesis using assms(1) by (simp add: bm_wf_def)
qed

lemma BmBitmapFlip_correct:
  assumes "bm_wf b" and "i < BitCount b"
  shows "\<exists>b'. BmBitmapFlip b i = Inr b' \<and> bm_wf b' \<and> BitCount b' = BitCount b \<and>
    (\<forall>j. bm_bit b' j = (if j = unat i then \<not> bm_bit b j else bm_bit b j))"
proof -
  let ?e = "unat i div 32"
  have len: "?e < length (bits b)" using assms by (simp add: bm_wf_def word_less_nat_alt)
  have same: "j = unat i \<longleftrightarrow> j div 32 = ?e \<and> j mod 32 = unat i mod 32" for j
    by (metis div_mult_mod_eq)
  have "BmBitmapFlip b i = Inr (b\<lparr>bits := (bits b)[?e := bits b ! ?e XOR BmBitMask i]\<rparr>)"
    using len by (simp add: BmBitmapFlip_def update_element_def unat_BmElementIndex)
  moreover have "bm_bit (b\<lparr>bits := (bits b)[?e := bits b ! ?e XOR BmBitMask i]\<rparr>) j =
      (if j = unat i then \<not> bm_bit b j else bm_bit b j)" for j
    using len same [of j] by (cases "j div 32 = ?e") (auto simp: bm_bit_def bit_simps bit_BmBitMask)
  ultimately show ?thesis using assms(1) by (simp add: bm_wf_def)
qed

text \<open>A range that fits the bitmap does not wrap.\<close>

definition in_range :: "BITMAP \<Rightarrow> size_t \<Rightarrow> size_t \<Rightarrow> bool" where
  "in_range b start cnt \<longleftrightarrow> unat start + unat cnt \<le> unat (BitCount b)"

lemma in_range_no_wrap:
  assumes "in_range b start cnt"
  shows "start \<le> BitCount b" and "start + cnt \<le> BitCount b"
    and "\<And>i. i < cnt \<Longrightarrow> unat (start + i) = unat start + unat i"
    and "\<And>i. i < cnt \<Longrightarrow> start + i < BitCount b"
proof -
  have lt: "unat start + unat cnt < 2 ^ 32"
    using assms unat_ULONG_less [of "BitCount b"] by (simp add: in_range_def)
  show "start \<le> BitCount b" using assms by (simp add: in_range_def word_le_nat_alt)
  show "start + cnt \<le> BitCount b"
    using assms lt by (simp add: in_range_def word_le_nat_alt unat_add_no_wrap)
  show u: "unat (start + i) = unat start + unat i" if "i < cnt" for i
    using that lt by (intro unat_add_no_wrap) (simp add: word_less_nat_alt)
  show "start + i < BitCount b" if "i < cnt" for i
    using u [OF that] that assms by (simp add: word_less_nat_alt in_range_def)
qed

lemma set_loop_correct:
  assumes "bm_wf b" and "\<forall>i \<in> set is. start + i < BitCount b"
  shows "\<exists>b'. foldE (\<lambda>i bitmap. BmBitmapSet bitmap (start + i) v) is b = Inr b' \<and> bm_wf b' \<and>
    BitCount b' = BitCount b \<and>
    (\<forall>j. bm_bit b' j = (if j \<in> (\<lambda>i. unat (start + i)) ` set is then v else bm_bit b j))"
  using assms
proof (induction "is" arbitrary: b)
  case (Cons i "is")
  obtain b1 where b1: "BmBitmapSet b (start + i) v = Inr b1" "bm_wf b1" "BitCount b1 = BitCount b"
      "\<forall>j. bm_bit b1 j = (if j = unat (start + i) then v else bm_bit b j)"
    using BmBitmapSet_correct [of b "start + i" v] Cons.prems by auto
  with Cons.IH [of b1] Cons.prems show ?case by auto
qed auto

lemma BmBitmapSetMultiple_correct:
  assumes "bm_wf b" and r: "in_range b start cnt"
  shows "\<exists>b'. BmBitmapSetMultiple b start cnt v = Inr b' \<and> bm_wf b' \<and> BitCount b' = BitCount b \<and>
    (\<forall>j. bm_bit b' j = (if unat start \<le> j \<and> j < unat start + unat cnt then v else bm_bit b j))"
proof -
  note nw = in_range_no_wrap [OF r]
  have img: "j \<in> (\<lambda>i. unat (start + i)) ` set (range32 0 cnt) \<longleftrightarrow>
      unat start \<le> j \<and> j < unat start + unat cnt" for j
  proof
    assume "unat start \<le> j \<and> j < unat start + unat cnt"
    then have j: "j - unat start < unat cnt" "j = unat start + (j - unat start)" by auto
    obtain k :: ULONG where k: "unat k = j - unat start"
      using j(1) unat_ULONG_less [of cnt] unat_of_nat32 [of "j - unat start"] by fastforce
    with j(1) have "k < cnt" by (simp add: word_less_nat_alt)
    then show "j \<in> (\<lambda>i. unat (start + i)) ` set (range32 0 cnt)"
      using nw(3) [of k] k j(2) by (intro image_eqI [of _ _ k]) (auto simp: set_range32)
  qed (auto simp: set_range32 nw(3) word_less_nat_alt)
  have "\<forall>i \<in> set (range32 0 cnt). start + i < BitCount b" using nw(4) by (simp add: set_range32)
  from set_loop_correct [OF assms(1) this, of v] show ?thesis
    unfolding BmBitmapSetMultiple_def using nw(1,2) img by simp
qed

lemma contains_loop_eq:
  assumes "bm_wf b" and "\<forall>i \<in> set is. start + i < BitCount b"
  shows "contains_loop b start v is = Inr (\<exists>i \<in> set is. bm_bit b (unat (start + i)) = v)"
  using assms by (induction "is") (auto simp: BmBitmapTest_eq)

lemma BmBitmapContains_eq:
  assumes "bm_wf b" and r: "in_range b start cnt"
  shows "BmBitmapContains b start cnt v =
    Inr (\<exists>j. unat start \<le> j \<and> j < unat start + unat cnt \<and> bm_bit b j = v)"
proof -
  note nw = in_range_no_wrap [OF r]
  have "(\<exists>i \<in> set (range32 0 cnt). bm_bit b (unat (start + i)) = v) \<longleftrightarrow>
      (\<exists>k < unat cnt. bm_bit b (unat start + k) = v)"
  proof
    assume "\<exists>k < unat cnt. bm_bit b (unat start + k) = v"
    then obtain k where k: "k < unat cnt" "bm_bit b (unat start + k) = v" by auto
    then have u: "unat (of_nat k :: ULONG) = k"
      using unat_ULONG_less [of cnt] by (intro unat_of_nat32) simp
    with k have lt: "(of_nat k :: ULONG) < cnt" by (simp add: word_less_nat_alt)
    show "\<exists>i \<in> set (range32 0 cnt). bm_bit b (unat (start + i)) = v"
      using k u nw(3) [OF lt] lt by (intro bexI [of _ "of_nat k"]) (auto simp: set_range32)
  qed (auto simp: set_range32 nw(3) word_less_nat_alt)
  also have "\<dots> \<longleftrightarrow> (\<exists>j. unat start \<le> j \<and> j < unat start + unat cnt \<and> bm_bit b j = v)"
    by (metis le_add1 le_iff_add nat_add_left_cancel_less)
  finally have ex: "(\<exists>i \<in> set (range32 0 cnt). bm_bit b (unat (start + i)) = v) \<longleftrightarrow>
      (\<exists>j. unat start \<le> j \<and> j < unat start + unat cnt \<and> bm_bit b j = v)" .
  have "\<forall>i \<in> set (range32 0 cnt). start + i < BitCount b" using nw(4) by (simp add: set_range32)
  from contains_loop_eq [OF assms(1) this, of v] show ?thesis
    unfolding BmBitmapContains_def using nw(1,2) ex by simp
qed

text \<open>\<open>run_of b i n v\<close>: the \<open>n\<close> bits from \<open>i\<close> on all have the value \<open>v\<close>.\<close>

definition run_of :: "BITMAP \<Rightarrow> nat \<Rightarrow> nat \<Rightarrow> bool \<Rightarrow> bool" where
  "run_of b i n v \<longleftrightarrow> i + n \<le> unat (BitCount b) \<and> (\<forall>j. i \<le> j \<and> j < i + n \<longrightarrow> bm_bit b j = v)"

lemma scan_loop_eq:
  assumes "bm_wf b" and "unat cnt \<le> unat (BitCount b)"
    and "\<forall>i \<in> set ns. i + unat cnt \<le> unat (BitCount b)"
  shows "scan_loop b cnt v (map of_nat ns) =
    Inr (case filter (\<lambda>i. run_of b i (unat cnt) v) ns of [] \<Rightarrow> BITMAP_ERROR | i # _ \<Rightarrow> of_nat i)"
  using assms(3)
proof (induction ns)
  case (Cons i ns)
  have u: "unat (of_nat i :: ULONG) = i"
    using Cons.prems unat_ULONG_less [of "BitCount b"] by (intro unat_of_nat32) auto
  then have "BmBitmapContains b (of_nat i) cnt (\<not> v) =
      Inr (\<exists>j. i \<le> j \<and> j < i + unat cnt \<and> bm_bit b j = (\<not> v))"
    using BmBitmapContains_eq [OF assms(1), of "of_nat i" cnt] Cons.prems by (simp add: in_range_def)
  also have "\<dots> = Inr (\<not> run_of b i (unat cnt) v)"
    using Cons.prems by (auto simp: run_of_def)
  finally show ?case using Cons by simp
qed simp

lemma BmBitmapScan_eq:
  assumes "bm_wf b" and "start \<le> BitCount b"
  shows "BmBitmapScan b start cnt v =
    Inr (case filter (\<lambda>i. run_of b i (unat cnt) v) [unat start..<Suc (unat (BitCount b)) - unat cnt]
         of [] \<Rightarrow> BITMAP_ERROR | i # _ \<Rightarrow> of_nat i)"
proof (cases "cnt \<le> BitCount b")
  case True
  then have le: "unat cnt \<le> unat (BitCount b)" by (simp add: word_le_nat_alt)
  have "unat (BitCount b - cnt) = unat (BitCount b) - unat cnt" using True by (simp add: unat_sub)
  then have "Suc (unat (BitCount b - cnt)) = Suc (unat (BitCount b)) - unat cnt"
    using le by simp
  then have "BmBitmapScan b start cnt v =
      scan_loop b cnt v (map of_nat [unat start..<Suc (unat (BitCount b)) - unat cnt])"
    using assms(2) True by (simp add: BmBitmapScan_def Let_def del: upt_Suc)
  moreover have "\<forall>i \<in> set [unat start..<Suc (unat (BitCount b)) - unat cnt].
      i + unat cnt \<le> unat (BitCount b)" by auto
  ultimately show ?thesis using scan_loop_eq [OF assms(1) le] by simp
next
  case False
  then have "unat (BitCount b) < unat cnt" by (simp add: word_le_nat_alt)
  then have nil: "[unat start..<Suc (unat (BitCount b)) - unat cnt] = []" by simp
  show ?thesis using False assms unfolding nil by (simp add: BmBitmapScan_def)
qed

lemma filter_upt_Cons:
  assumes "filter P [a..<b] = i # is"
  shows "P i" "a \<le> i" "i < b" "\<And>j. a \<le> j \<Longrightarrow> j < i \<Longrightarrow> \<not> P j"
proof -
  have i: "i \<in> set (filter P [a..<b])" using assms by simp
  then show "P i" "a \<le> i" "i < b" by auto
  fix j assume j: "a \<le> j" "j < i"
  have "sorted (i # is)" using assms sorted_wrt_filter [of "(\<le>)" "[a..<b]" P] by simp
  then have "\<forall>k \<in> set (filter P [a..<b]). i \<le> k" using assms by auto
  then show "\<not> P j" using j \<open>i < b\<close> by auto
qed


text \<open>
  An index that is found is never mistaken for \<open>BITMAP_ERROR\<close>, the 32-bit value of \<open>-100\<close>, when the
  bitmap has fewer than \<open>2^32 - 100\<close> bits.
\<close>

definition bm_ok :: "BITMAP \<Rightarrow> bool" where
  "bm_ok b \<longleftrightarrow> bm_wf b \<and> unat (BitCount b) < 2 ^ 32 - 100"

lemma unat_BITMAP_ERROR: "unat BITMAP_ERROR = 2 ^ 32 - 100"
  by simp

lemma BmBitmapScanAndFlip_cases:
  assumes ok: "bm_ok b" and st: "start \<le> BitCount b"
  obtains (found) i b' where "BmBitmapScanAndFlip b start cnt v = Inr (of_nat i, b')"
      "unat (of_nat i :: size_t) = i" "(of_nat i :: size_t) \<noteq> BITMAP_ERROR"
      "unat start \<le> i" "run_of b i (unat cnt) v"
      "\<And>k. unat start \<le> k \<Longrightarrow> k < i \<Longrightarrow> \<not> run_of b k (unat cnt) v"
      "bm_wf b'" "BitCount b' = BitCount b"
      "\<And>j. bm_bit b' j = (if i \<le> j \<and> j < i + unat cnt then \<not> v else bm_bit b j)"
  | (full) "BmBitmapScanAndFlip b start cnt v = Inr (BITMAP_ERROR, b)"
      "\<And>k. unat start \<le> k \<Longrightarrow> \<not> run_of b k (unat cnt) v"
proof -
  have wf: "bm_wf b" using ok by (simp add: bm_ok_def)
  let ?l = "filter (\<lambda>i. run_of b i (unat cnt) v) [unat start..<Suc (unat (BitCount b)) - unat cnt]"
  note scan = BmBitmapScan_eq [OF wf st, of cnt v]
  show thesis
  proof (cases ?l)
    case Nil
    have "\<not> run_of b k (unat cnt) v" if "unat start \<le> k" for k
    proof
      assume r: "run_of b k (unat cnt) v"
      then have "k \<in> set ?l" using that by (auto simp: run_of_def)
      then show False using Nil by simp
    qed
    then show thesis using full scan Nil by (simp add: BmBitmapScanAndFlip_def)
  next
    case (Cons i l)
    note i = filter_upt_Cons [OF Cons]
    have lt: "i \<le> unat (BitCount b)" using i(1) by (simp add: run_of_def)
    then have u: "unat (of_nat i :: size_t) = i"
      using unat_ULONG_less [of "BitCount b"] by (intro unat_of_nat32) simp
    have ne: "(of_nat i :: size_t) \<noteq> BITMAP_ERROR"
      using u unat_BITMAP_ERROR lt ok unfolding bm_ok_def by (metis leD)
    have "in_range b (of_nat i) cnt" using i(1) u by (simp add: in_range_def run_of_def)
    from BmBitmapSetMultiple_correct [OF wf this, of "\<not> v"] obtain b' where
      "BmBitmapSetMultiple b (of_nat i) cnt (\<not> v) = Inr b'" "bm_wf b'" "BitCount b' = BitCount b"
      "\<forall>j. bm_bit b' j = (if i \<le> j \<and> j < i + unat cnt then \<not> v else bm_bit b j)"
      using u by auto
    with scan Cons ne u i show thesis by (intro found [of i b']) (auto simp: BmBitmapScanAndFlip_def)
  qed
qed

lemma BmBitmapCreateInBuffer_correct:
  assumes "0 < BitCnt" and "unat BitCnt \<le> 32 * length rest" and "BmBitmapBufferSize BitCnt \<le> block_size"
  shows "\<exists>b. BmBitmapCreateInBuffer BitCnt rest block_size = Inr b \<and> bm_wf b \<and> BitCount b = BitCnt \<and>
    (\<forall>j < unat BitCnt. \<not> bm_bit b j)"
proof -
  let ?b = "\<lparr>BitCount = BitCnt, bits = rest\<rparr>"
  have "bm_wf ?b" "in_range ?b 0 BitCnt" using assms(2) by (auto simp: bm_wf_def in_range_def)
  from BmBitmapSetMultiple_correct [OF this, of False] show ?thesis
    using assms by (auto simp: BmBitmapCreateInBuffer_def BmBitmapSetAll_def BmBitmapSize_def)
qed

lemma BmBitmapCreateInBuffer_derived:
  assumes "sizeof_BITMAP < block_size" and "BitCnt = (block_size - sizeof_BITMAP) * 8"
    and "unat BitCnt \<le> 32 * length rest" and "BmBitmapBufferSize BitCnt \<le> block_size"
  shows "\<exists>b. BmBitmapCreateInBuffer 0 rest block_size = Inr b \<and> bm_wf b \<and> BitCount b = BitCnt \<and>
    (\<forall>j < unat BitCnt. \<not> bm_bit b j)"
proof -
  let ?b = "\<lparr>BitCount = BitCnt, bits = rest\<rparr>"
  have "bm_wf ?b" "in_range ?b 0 BitCnt" using assms(3) by (auto simp: bm_wf_def in_range_def)
  from BmBitmapSetMultiple_correct [OF this, of False] show ?thesis
    using assms by (auto simp: BmBitmapCreateInBuffer_def BmBitmapSetAll_def BmBitmapSize_def)
qed

lemma count_loop_eq:
  assumes "bm_wf b" and "\<forall>i \<in> set is. start + i < BitCount b"
  shows "foldE (\<lambda>i value_cnt. bind (BmBitmapTest b (start + i)) (\<lambda>t.
      Inr (if t = v then value_cnt + 1 else value_cnt))) is (n :: size_t) =
    Inr (n + of_nat (length (filter (\<lambda>i. bm_bit b (unat (start + i)) = v) is)))"
  using assms by (induction "is" arbitrary: n) (auto simp: BmBitmapTest_eq ac_simps)

lemma BmBitmapCount_eq:
  assumes "bm_wf b" and r: "in_range b start cnt"
  shows "BmBitmapCount b start cnt v =
    Inr (of_nat (card {j. unat start \<le> j \<and> j < unat start + unat cnt \<and> bm_bit b j = v}))"
proof -
  note nw = in_range_no_wrap [OF r]
  have "\<forall>i \<in> set (range32 0 cnt). start + i < BitCount b" using nw(4) by (simp add: set_range32)
  note loop = count_loop_eq [OF assms(1) this, of v 0]
  have "filter (\<lambda>i. bm_bit b (unat (start + i)) = v) (range32 0 cnt) =
      map of_nat (filter (\<lambda>k. bm_bit b (unat start + k) = v) [0..<unat cnt])"
  proof -
    have "unat (start + of_nat k) = unat start + k" if "k < unat cnt" for k
      using that unat_ULONG_less [of cnt] nw(3) [of "of_nat k"] unat_of_nat32 [of k]
      by (simp add: word_less_nat_alt)
    then have "filter (\<lambda>k. bm_bit b (unat (start + of_nat k)) = v) [0..<unat cnt] =
        filter (\<lambda>k. bm_bit b (unat start + k) = v) [0..<unat cnt]"
      by (intro filter_cong) auto
    then show ?thesis by (simp add: range32_def filter_map comp_def)
  qed
  then have len: "length (filter (\<lambda>i. bm_bit b (unat (start + i)) = v) (range32 0 cnt)) =
      card {k. k < unat cnt \<and> bm_bit b (unat start + k) = v}"
    by (simp add: length_filter_conv_card cong: conj_cong)
  have "bij_betw (\<lambda>k. unat start + k) {k. k < unat cnt \<and> bm_bit b (unat start + k) = v}
      {j. unat start \<le> j \<and> j < unat start + unat cnt \<and> bm_bit b j = v}"
    by (rule bij_betw_byWitness [where f' = "\<lambda>j. j - unat start"]) auto
  note card = bij_betw_same_card [OF this]
  show ?thesis
    unfolding BmBitmapCount_def using nw(1,2) loop len card by simp
qed

section \<open>The contract of a range allocator\<close>

text \<open>
  What \<open>MmAllocateSystemPtes\<close>, \<open>MmFreeSystemPtes\<close> and their user-mode counterparts rely on: a request
  takes units that were all free, and takes exactly those; a failed request leaves the state alone
  and fails only when no run of free units is long enough; a release frees exactly its range.
\<close>

locale range_allocator =
  fixes ok :: "'b \<Rightarrow> bool"
    and units :: "'b \<Rightarrow> nat"
    and used :: "'b \<Rightarrow> nat \<Rightarrow> bool"
    and err :: ULONG
    and alloc :: "'b \<Rightarrow> ULONG \<Rightarrow> fault + (ULONG \<times> 'b)"
    and release :: "'b \<Rightarrow> ULONG \<Rightarrow> ULONG \<Rightarrow> fault + 'b"
  assumes alloc_total: "ok b \<Longrightarrow> \<exists>i b'. alloc b n = Inr (i, b')"
    and alloc_ok: "ok b \<Longrightarrow> alloc b n = Inr (i, b') \<Longrightarrow> ok b' \<and> units b' = units b"
    and alloc_fresh: "ok b \<Longrightarrow> alloc b n = Inr (i, b') \<Longrightarrow> i \<noteq> err \<Longrightarrow>
      unat i + unat n \<le> units b \<and> (\<forall>j. unat i \<le> j \<and> j < unat i + unat n \<longrightarrow> \<not> used b j) \<and>
      (\<forall>j. used b' j = (used b j \<or> unat i \<le> j \<and> j < unat i + unat n))"
    and alloc_full: "ok b \<Longrightarrow> alloc b n = Inr (err, b') \<Longrightarrow> b' = b \<and>
      (\<forall>k. k + unat n \<le> units b \<longrightarrow> (\<exists>j. k \<le> j \<and> j < k + unat n \<and> used b j))"
    and release_ok: "ok b \<Longrightarrow> unat i + unat n \<le> units b \<Longrightarrow>
      \<exists>b'. release b i n = Inr b' \<and> ok b' \<and> units b' = units b \<and>
        (\<forall>j. used b' j = (used b j \<and> \<not> (unat i \<le> j \<and> j < unat i + unat n)))"
begin

definition units_of :: "ULONG \<Rightarrow> ULONG \<Rightarrow> nat set" where
  "units_of i n = {j. unat i \<le> j \<and> j < unat i + unat n}"

fun alloc_all :: "'b \<Rightarrow> ULONG list \<Rightarrow> fault + (ULONG list \<times> 'b)" where
  "alloc_all b [] = Inr ([], b)"
| "alloc_all b (n # ns) = bind (alloc b n) (\<lambda>(i, b). bind (alloc_all b ns) (\<lambda>(is, b). Inr (i # is, b)))"

lemma alloc_all_disjoint:
  assumes "ok b" and "alloc_all b ns = Inr (is, b')" and "err \<notin> set is"
  shows "length is = length ns \<and> ok b' \<and> units b' = units b \<and>
    (\<forall>j. used b' j = (used b j \<or> (\<exists>(i, n) \<in> set (zip is ns). j \<in> units_of i n))) \<and>
    (\<forall>(i, n) \<in> set (zip is ns). \<forall>j \<in> units_of i n. \<not> used b j \<and> j < units b) \<and>
    sorted_wrt (\<lambda>(i, n) (i', n'). units_of i n \<inter> units_of i' n' = {}) (zip is ns)"
  using assms
proof (induction ns arbitrary: b "is")
  case (Cons n ns)
  from Cons.prems(2) obtain i b1 is1 where
    s: "alloc b n = Inr (i, b1)" "alloc_all b1 ns = Inr (is1, b')" "is = i # is1"
    by (auto simp: bind_eq_Inr split: prod.splits)
  have b1: "ok b1" "units b1 = units b" and i: "i \<noteq> err" and is1: "err \<notin> set is1"
    using alloc_ok [OF Cons.prems(1) s(1)] Cons.prems(3) s(3) by auto
  have u: "\<not> used b j \<and> j < units b" if "j \<in> units_of i n" for j
    using that alloc_fresh [OF Cons.prems(1) s(1) i] by (auto simp: units_of_def)
  have u1: "used b1 j = (used b j \<or> j \<in> units_of i n)" for j
    using alloc_fresh [OF Cons.prems(1) s(1) i] by (simp add: units_of_def)
  from Cons.IH [OF b1(1) s(2) is1] b1(2) u u1 s(3) show ?case by fastforce
qed simp

lemma alloc_release:
  assumes "ok b" and "alloc b n = Inr (i, b1)" and "i \<noteq> err"
  shows "\<exists>b2. release b1 i n = Inr b2 \<and> ok b2 \<and> units b2 = units b \<and> used b2 = used b"
proof -
  note f = alloc_fresh [OF assms] and k = alloc_ok [OF assms(1,2)]
  obtain b2 where b2: "release b1 i n = Inr b2" "ok b2" "units b2 = units b1"
      "\<forall>j. used b2 j = (used b1 j \<and> \<not> (unat i \<le> j \<and> j < unat i + unat n))"
    using release_ok [of b1 i n] f k by auto
  have "used b2 j = used b j" for j using b2(4) f by blast
  with b2 k show ?thesis by (intro exI [of _ b2]) (simp add: fun_eq_iff)
qed

end

text \<open>The allocators use the bitmap from bit 0, with a clear bit for a free unit.\<close>

definition bm_alloc :: "BITMAP \<Rightarrow> size_t \<Rightarrow> fault + (size_t \<times> BITMAP)" where
  "bm_alloc b n = BmBitmapScanAndFlip b 0 n False"

definition bm_release :: "BITMAP \<Rightarrow> size_t \<Rightarrow> size_t \<Rightarrow> fault + BITMAP" where
  "bm_release b i n = BmBitmapSetMultiple b i n False"

interpretation bm: range_allocator bm_ok "\<lambda>b. unat (BitCount b)" bm_bit BITMAP_ERROR bm_alloc bm_release
proof
  fix b b' and n i :: size_t
  assume ok: "bm_ok b"
  have z: "(0 :: size_t) \<le> BitCount b" by simp
  show "\<exists>i b'. bm_alloc b n = Inr (i, b')"
    by (rule BmBitmapScanAndFlip_cases [OF ok z, of n False]) (auto simp: bm_alloc_def)
  { assume a: "bm_alloc b n = Inr (i, b')"
    show "bm_ok b' \<and> unat (BitCount b') = unat (BitCount b)"
      by (rule BmBitmapScanAndFlip_cases [OF ok z, of n False])
        (use a ok in \<open>auto simp: bm_alloc_def bm_ok_def\<close>)
    assume ne: "i \<noteq> BITMAP_ERROR"
    show "unat i + unat n \<le> unat (BitCount b) \<and>
       (\<forall>j. unat i \<le> j \<and> j < unat i + unat n \<longrightarrow> \<not> bm_bit b j) \<and>
       (\<forall>j. bm_bit b' j = (bm_bit b j \<or> unat i \<le> j \<and> j < unat i + unat n))"
      by (rule BmBitmapScanAndFlip_cases [OF ok z, of n False])
        (use a ne in \<open>auto simp: bm_alloc_def run_of_def\<close>) }
  { assume a: "bm_alloc b n = Inr (BITMAP_ERROR, b')"
    show "b' = b \<and> (\<forall>k. k + unat n \<le> unat (BitCount b) \<longrightarrow>
        (\<exists>j. k \<le> j \<and> j < k + unat n \<and> bm_bit b j))"
      by (rule BmBitmapScanAndFlip_cases [OF ok z, of n False])
        (use a in \<open>auto simp: bm_alloc_def run_of_def\<close>) }
  { assume "unat i + unat n \<le> unat (BitCount b)"
    then show "\<exists>b'. bm_release b i n = Inr b' \<and> bm_ok b' \<and> unat (BitCount b') = unat (BitCount b) \<and>
        (\<forall>j. bm_bit b' j = (bm_bit b j \<and> \<not> (unat i \<le> j \<and> j < unat i + unat n)))"
      using BmBitmapSetMultiple_correct [of b i n False] ok
      by (fastforce simp: bm_release_def bm_ok_def in_range_def) }
qed


section \<open>Properties\<close>

text \<open>Rules that evaluate the operations on a concrete bitmap.\<close>

lemmas bm_eval = BmBitmapScanAndFlip_def BmBitmapScan_def BmBitmapSetMultiple_def
  BmBitmapContains_def BmBitmapSet_def BmBitmapTest_def BmBitmapMark_def BmBitmapReset_def
  update_element_def BmElementIndex_def BmBitMask_def range32_def upt_conv_Cons

lemma scan_and_flip_none:
  assumes "bm_wf b" and "start \<le> BitCount b"
  shows "BmBitmapScanAndFlip b start 0 v = Inr (start, b)"
proof -
  have "[unat start..<Suc (unat (BitCount b))] = unat start # [Suc (unat start)..<Suc (unat (BitCount b))]"
    using assms(2) by (intro upt_conv_Cons) (simp add: word_le_nat_alt)
  moreover have "run_of b (unat start) 0 v" using assms(2) by (auto simp: run_of_def word_le_nat_alt)
  ultimately have "BmBitmapScan b start 0 v = Inr start" using BmBitmapScan_eq [OF assms, of 0 v] by (simp del: upt_Suc)
  moreover have "BmBitmapSetMultiple b start 0 (\<not> v) = Inr b"
    using assms(2) by (simp add: BmBitmapSetMultiple_def range32_def)
  ultimately show ?thesis by (simp add: BmBitmapScanAndFlip_def)
qed



text \<open>Any sequence of successful allocations from a bitmap, each for its own number of pages,
  yields page ranges that lie inside the bitmap, were free before, and are pairwise disjoint; the
  bits set afterwards are those set before and the allocated ones.\<close>

theorem bitmap_allocations_disjoint:
  assumes "bm_ok b" and "bm.alloc_all b ns = Inr (is, b')" and "BITMAP_ERROR \<notin> set is"
  shows "(\<forall>j. bm_bit b' j = (bm_bit b j \<or> (\<exists>(i, n) \<in> set (zip is ns). unat i \<le> j \<and> j < unat i + unat n))) \<and>
    (\<forall>(i, n) \<in> set (zip is ns). \<forall>j. unat i \<le> j \<and> j < unat i + unat n \<longrightarrow>
        \<not> bm_bit b j \<and> j < unat (BitCount b)) \<and>
    sorted_wrt (\<lambda>(i, n) (i', n'). unat i + unat n \<le> unat i' \<or> unat i' + unat n' \<le> unat i \<or>
      n = 0 \<or> n' = 0) (zip is ns)"
proof -
  have disj: "unat i + unat n \<le> unat i' \<or> unat i' + unat n' \<le> unat i \<or> n = 0 \<or> n' = 0"
    if "bm.units_of i n \<inter> bm.units_of i' n' = {}" for i n i' n' :: size_t
  proof (rule ccontr)
    assume "\<not> ?thesis"
    then have "max (unat i) (unat i') \<in> bm.units_of i n \<inter> bm.units_of i' n'"
      by (auto simp: bm.units_of_def unat_gt_0 max_def)
    then show False using that by auto
  qed
  note all = bm.alloc_all_disjoint [OF assms]
  have "sorted_wrt (\<lambda>(i, n) (i', n'). bm.units_of i n \<inter> bm.units_of i' n' = {}) (zip is ns)"
    using all by blast
  then have "sorted_wrt (\<lambda>(i, n) (i', n'). unat i + unat n \<le> unat i' \<or> unat i' + unat n' \<le> unat i \<or>
      n = 0 \<or> n' = 0) (zip is ns)"
    by (rule sorted_wrt_mono_rel [rotated]) (simp only: split_paired_all prod.case disj)
  with all show ?thesis by (auto simp: bm.units_of_def)
qed

theorem bitmap_allocations_disjoint_witness:
  "\<exists>b'. bm.alloc_all \<lparr>BitCount = 12, bits = [1]\<rparr> [3, 2] = Inr ([1, 4], b') \<and> bm_bit b' 5"
proof -
  have run: "bm.alloc_all \<lparr>BitCount = 12, bits = [1]\<rparr> [3, 2] = Inr ([1, 4], \<lparr>BitCount = 12, bits = [63]\<rparr>)"
    by (simp add: bm_alloc_def bm_eval del: upt_Suc)
  have ok: "bm_ok \<lparr>BitCount = 12, bits = [1]\<rparr>" by (simp add: bm_ok_def bm_wf_def)
  have "BITMAP_ERROR \<notin> set [1, 4]" by simp
  from bitmap_allocations_disjoint [OF ok run this]
  have "bm_bit \<lparr>BitCount = 12, bits = [63]\<rparr> 5" by auto
  with run show ?thesis by blast
qed

text \<open>After \<open>BmBitmapSetMultiple\<close> a \<open>BmBitmapTest\<close> of any bit of the bitmap answers the value
  written when the bit lies in the range and what it answered before otherwise, and
  \<open>BmBitmapCount\<close> over the whole bitmap counts exactly the bits that test as the value.\<close>

theorem set_multiple_test_count:
  assumes "bm_wf b" and "unat start + unat cnt \<le> unat (BitCount b)" and "i < BitCount b"
  shows "\<exists>b'. BmBitmapSetMultiple b start cnt v = Inr b' \<and>
    BmBitmapTest b' i = (if unat start \<le> unat i \<and> unat i < unat start + unat cnt then Inr v
      else BmBitmapTest b i) \<and>
    BmBitmapCount b' start cnt v = Inr cnt \<and>
    BmBitmapCount b' 0 (BitCount b') w =
      Inr (of_nat (card {j. j < unat (BitCount b) \<and>
        (if unat start \<le> j \<and> j < unat start + unat cnt then v else bm_bit b j) = w}))"
proof -
  obtain b' where b': "BmBitmapSetMultiple b start cnt v = Inr b'" "bm_wf b'" "BitCount b' = BitCount b"
      "\<forall>j. bm_bit b' j = (if unat start \<le> j \<and> j < unat start + unat cnt then v else bm_bit b j)"
    using BmBitmapSetMultiple_correct [OF assms(1), of start cnt v] assms(2) by (auto simp: in_range_def)
  have set: "{j. unat start \<le> j \<and> j < unat start + unat cnt \<and> bm_bit b' j = v} =
      {unat start..<unat start + unat cnt}" using b'(4) by auto
  have "BmBitmapCount b' start cnt v = Inr (of_nat (card {unat start..<unat start + unat cnt}))"
    unfolding set [symmetric] using BmBitmapCount_eq [OF b'(2), of start cnt v] assms(2) b'(3)
    by (simp add: in_range_def)
  moreover have "BmBitmapCount b' 0 (BitCount b') w =
      Inr (of_nat (card {j. j < unat (BitCount b) \<and>
        (if unat start \<le> j \<and> j < unat start + unat cnt then v else bm_bit b j) = w}))"
    using BmBitmapCount_eq [OF b'(2), of 0 "BitCount b'" w] b'(3,4) by (simp add: in_range_def)
  ultimately show ?thesis
    using b' assms by (intro exI [of _ b']) (simp add: BmBitmapTest_eq)
qed

theorem set_multiple_test_count_witness:
  "\<exists>b'. BmBitmapSetMultiple \<lparr>BitCount = 40, bits = [0, 0]\<rparr> 30 4 True = Inr b' \<and>
     BmBitmapTest b' 31 = Inr True"
proof -
  have "bm_wf \<lparr>BitCount = 40, bits = [0, 0]\<rparr>" by (simp add: bm_wf_def)
  from set_multiple_test_count [OF this, of 30 4 31 True True] show ?thesis by auto
qed

end
