(* ===== verification/Paging.thy ===== *)
theory Paging
  imports Gdt Bitmap
begin

text \<open>
  The paging hardware and the address arithmetic of \<open>mm/mm.c\<close> and \<open>hal/x86.h\<close>. Physical memory is a
  map from frames and word offsets to words; the page directory and the page tables live in it, and
  every access of the kernel to a virtual address goes through the two-level walk of the MMU that
  \<open>CR3\<close> points at (there is no TLB in the model). The kernel reaches the entries of the current
  address space through virtual addresses: slot 768 of the directory points at the directory
  itself. The main lemmas say which entry \<open>MmGetPdeAddress\<close> and \<open>MmGetPteAddress\<close> reach, and what a
  write through them does to the translation of every other address.
\<close>

section \<open>Addresses\<close>

type_synonym PVOID = ULONG
type_synonym frame = ULONG

abbreviation (input) PGSIZE :: ULONG where "PGSIZE \<equiv> 4096"
abbreviation (input) PTSIZE :: ULONG where "PTSIZE \<equiv> 0x400000"
abbreviation (input) KERNBASE :: ULONG where "KERNBASE \<equiv> 0x80000000"
abbreviation (input) KERNSPACE_END :: ULONG where "KERNSPACE_END \<equiv> 0xFFFFF000"
abbreviation (input) MMPAGEPOOL_START :: ULONG where "MMPAGEPOOL_START \<equiv> 0x80800000"
abbreviation (input) MMPAGEPOOL_SIZE :: ULONG where "MMPAGEPOOL_SIZE \<equiv> 0x2800000"
abbreviation (input) MMNONPAGEPOOL_START :: ULONG where "MMNONPAGEPOOL_START \<equiv> 0x83000000"
abbreviation (input) MMNONPAGEPOOL_SIZE :: ULONG where "MMNONPAGEPOOL_SIZE \<equiv> 0x2800000"
abbreviation (input) MMSYSPTE_START :: ULONG where "MMSYSPTE_START \<equiv> 0x85800000"
abbreviation (input) MMSYSPTE_SIZE :: ULONG where "MMSYSPTE_SIZE \<equiv> 0x10000000"
abbreviation (input) MMSYSPTE_END :: ULONG where "MMSYSPTE_END \<equiv> 0x95800000"
abbreviation (input) MMPAGETABLEAREA_START :: ULONG where "MMPAGETABLEAREA_START \<equiv> 0xC0000000"
abbreviation (input) MM_PDE_ADDRESS :: ULONG where "MM_PDE_ADDRESS \<equiv> 0xC0300000"
abbreviation (input) USERTOP :: ULONG where "USERTOP \<equiv> 0x7FC00000"
abbreviation (input) USERPTEPOOL_START :: ULONG where "USERPTEPOOL_START \<equiv> 0x77C00000"
abbreviation (input) USERPTEPOOL_END :: ULONG where "USERPTEPOOL_END \<equiv> 0x7FC00000"
abbreviation (input) USERTEMP :: ULONG where "USERTEMP \<equiv> 0x400000"
abbreviation (input) USERTEMPEND :: ULONG where "USERTEMPEND \<equiv> 0x800000"
abbreviation (input) IOPHYSMEM :: ULONG where "IOPHYSMEM \<equiv> 0xA0000"
abbreviation (input) EXTPHYSMEM :: ULONG where "EXTPHYSMEM \<equiv> 0x100000"
abbreviation (input) MAXPHYMEM :: ULONG where "MAXPHYMEM \<equiv> 0x10000000"

abbreviation (input) PTE_P :: ULONG where "PTE_P \<equiv> 1"
abbreviation (input) PTE_W :: ULONG where "PTE_W \<equiv> 2"
abbreviation (input) PTE_U :: ULONG where "PTE_U \<equiv> 4"
abbreviation (input) KPOOL_PERM :: ULONG where "KPOOL_PERM \<equiv> 3"

definition PPN :: "PVOID \<Rightarrow> ULONG" where "PPN la = drop_bit 12 la"
definition PDX :: "PVOID \<Rightarrow> ULONG" where "PDX la = drop_bit 22 la AND 0x3FF"
definition PTX :: "PVOID \<Rightarrow> ULONG" where "PTX la = drop_bit 12 la AND 0x3FF"
definition PGOFF :: "PVOID \<Rightarrow> ULONG" where "PGOFF la = la AND 0xFFF"

definition IsPageAlignedAddress :: "PVOID \<Rightarrow> bool" where "IsPageAlignedAddress x \<longleftrightarrow> PGOFF x = 0"
definition IsUserAddress :: "PVOID \<Rightarrow> bool" where "IsUserAddress x \<longleftrightarrow> x < USERTOP"
definition IsKernelAddress :: "PVOID \<Rightarrow> bool" where "IsKernelAddress x \<longleftrightarrow> x > KERNBASE"

definition MmGetPdeAddress :: "PVOID \<Rightarrow> PVOID" where
  "MmGetPdeAddress x = push_bit 2 (drop_bit 22 x) + MM_PDE_ADDRESS"

definition MmGetPteAddress :: "PVOID \<Rightarrow> PVOID" where
  "MmGetPteAddress x = push_bit 2 (drop_bit 12 x) + MMPAGETABLEAREA_START"

definition MiGetVitualAddressFromPTE :: "PVOID \<Rightarrow> PVOID" where
  "MiGetVitualAddressFromPTE x = push_bit 10 x"

section \<open>Page table entries\<close>

text \<open>The fields of \<open>MMPTE_HARDWARE\<close> the code reads and writes.\<close>

type_synonym MMPTE = ULONG

definition Valid :: "MMPTE \<Rightarrow> bool" where "Valid p = bit p 0"
definition Writable :: "MMPTE \<Rightarrow> bool" where "Writable p = bit p 1"
definition UserPriv :: "MMPTE \<Rightarrow> bool" where "UserPriv p = bit p 2"
definition CopyOnWrite :: "MMPTE \<Rightarrow> bool" where "CopyOnWrite p = bit p 11"
definition PageFrameNumber :: "MMPTE \<Rightarrow> frame" where "PageFrameNumber p = drop_bit 12 p"

definition set_Writable :: "bool \<Rightarrow> MMPTE \<Rightarrow> MMPTE" where
  "set_Writable b p = (if b then set_bit 1 p else unset_bit 1 p)"
definition set_CopyOnWrite :: "bool \<Rightarrow> MMPTE \<Rightarrow> MMPTE" where
  "set_CopyOnWrite b p = (if b then set_bit 11 p else unset_bit 11 p)"

text \<open>The walk of the hardware.\<close>

type_synonym pmem = "frame \<Rightarrow> ULONG \<Rightarrow> ULONG"

definition mmu :: "pmem \<Rightarrow> frame \<Rightarrow> PVOID \<Rightarrow> frame option" where
  "mmu m pd va =
     (let pde = m pd (PDX va) in
      if \<not> Valid pde then None
      else let pte = m (PageFrameNumber pde) (PTX va) in
        if \<not> Valid pte then None else Some (PageFrameNumber pte))"

definition word_off :: "PVOID \<Rightarrow> ULONG" where
  "word_off va = drop_bit 2 (PGOFF va)"

section \<open>State of the memory manager\<close>

text \<open>A pointer to an entry of \<open>PfnDataBase\<close> is its index, the frame number.\<close>

record mm_state = gdt_state +
  PhysMem :: pmem
  Cr3 :: ULONG
  PteAddress :: "frame \<Rightarrow> PVOID"
  RefCount :: "frame \<Rightarrow> ULONG"
  PfnLink :: "frame links"
  PfnFreeList :: "frame list_head"
  MaxPA :: ULONG
  MMNumberOfPhysicalPages :: ULONG
  basemem :: ULONG
  GlobalCr3 :: ULONG
  GlobalPgdir :: PVOID
  PtrToBootFreemem :: ULONG
  MiSystemPteBitmap :: BITMAP
  MemManagerTestingON :: bool

definition page_dir :: "'a mm_state_scheme \<Rightarrow> frame" where
  "page_dir s = PPN (Cr3 s)"

definition translate :: "'a mm_state_scheme \<Rightarrow> PVOID \<Rightarrow> frame option" where
  "translate s va = mmu (PhysMem s) (page_dir s) va"

text \<open>Accesses of the kernel through virtual addresses; one that does not translate faults.\<close>

abbreviation (input) page_fault :: fault where "page_fault \<equiv> KeBugCheck ''Kernel PageFault''"

definition vread :: "PVOID \<Rightarrow> 'a mm_state_scheme \<Rightarrow> fault + ULONG" where
  "vread va s = (case translate s va of None \<Rightarrow> Inl page_fault | Some f \<Rightarrow> Inr (PhysMem s f (word_off va)))"

definition vwrite :: "PVOID \<Rightarrow> ULONG \<Rightarrow> 'a mm_state_scheme \<Rightarrow> fault + 'a mm_state_scheme" where
  "vwrite va w s = (case translate s va of None \<Rightarrow> Inl page_fault
     | Some f \<Rightarrow> Inr (s\<lparr>PhysMem := (PhysMem s)(f := (PhysMem s f)(word_off va := w))\<rparr>))"

text \<open>\<open>memset(va, 0, PGSIZE)\<close> and \<open>memcpy(dst, src, PGSIZE)\<close> on page-aligned addresses.\<close>

definition vzero_page :: "PVOID \<Rightarrow> 'a mm_state_scheme \<Rightarrow> fault + 'a mm_state_scheme" where
  "vzero_page va s = (case translate s va of None \<Rightarrow> Inl page_fault
     | Some f \<Rightarrow> Inr (s\<lparr>PhysMem := (PhysMem s)(f := \<lambda>_. 0)\<rparr>))"

definition vcopy_page :: "PVOID \<Rightarrow> PVOID \<Rightarrow> 'a mm_state_scheme \<Rightarrow> fault + 'a mm_state_scheme" where
  "vcopy_page dst src s = (case translate s src of None \<Rightarrow> Inl page_fault | Some g \<Rightarrow>
     (case translate s dst of None \<Rightarrow> Inl page_fault
      | Some f \<Rightarrow> Inr (s\<lparr>PhysMem := (PhysMem s)(f := PhysMem s g)\<rparr>)))"

section \<open>Address arithmetic\<close>

lemma unat_drop_bit: "unat (drop_bit n (w :: ULONG)) = unat w div 2 ^ n"
  by (simp only: unat_drop_bit_eq) (simp only: drop_bit_eq_div)

lemma unat_and_mask: "unat (w AND mask n :: ULONG) = unat w mod 2 ^ n"
  by (simp only: take_bit_eq_mask [symmetric] unsigned_take_bit_eq) (simp only: take_bit_eq_mod)

lemma unat_PGOFF: "unat (PGOFF va) = unat va mod 4096"
  using unat_and_mask [of va 12] by (simp add: PGOFF_def mask_eq_exp_minus_1)

lemma unat_PDX: "unat (PDX va) = unat va div 2 ^ 22"
proof -
  have "unat va div 2 ^ 22 < 1024" using unat_ULONG_less [of va] by simp
  then show ?thesis
    using unat_and_mask [of "drop_bit 22 va" 10] by (simp add: PDX_def mask_eq_exp_minus_1 unat_drop_bit)
qed

lemma unat_PTX: "unat (PTX va) = unat va div 4096 mod 1024"
  using unat_and_mask [of "drop_bit 12 va" 10] by (simp add: PTX_def mask_eq_exp_minus_1 unat_drop_bit)

lemma unat_word_off: "unat (word_off va) = unat va mod 4096 div 4"
  by (simp add: word_off_def unat_drop_bit unat_PGOFF)

lemma unat_push_bit2:
  assumes "unat w < 2 ^ 30"
  shows "unat (push_bit 2 (w :: ULONG)) = 4 * unat w"
  using assms by (simp add: push_bit_eq_mult unat_word_ariths)

lemma unat_MmGetPdeAddress: "unat (MmGetPdeAddress va) = 4 * (unat va div 2 ^ 22) + 0xC0300000"
proof -
  have "unat va div 2 ^ 22 < 1024" using unat_ULONG_less [of va] by simp
  then show ?thesis
    by (simp add: MmGetPdeAddress_def unat_add_no_wrap unat_push_bit2 unat_drop_bit)
qed

lemma unat_MmGetPteAddress: "unat (MmGetPteAddress va) = 4 * (unat va div 4096) + 0xC0000000"
proof -
  have "unat va div 4096 < 2 ^ 20" using unat_ULONG_less [of va] by simp
  then show ?thesis
    by (simp add: MmGetPteAddress_def unat_add_no_wrap unat_push_bit2 unat_drop_bit)
qed

lemma PDX_less: "unat (PDX va) < 1024"
  using unat_ULONG_less [of va] by (simp add: unat_PDX)

lemma PTX_less: "unat (PTX va) < 1024"
  by (simp add: unat_PTX)

lemma PdeAddress_walk:
  "PDX (MmGetPdeAddress va) = 768" "PTX (MmGetPdeAddress va) = 768" "word_off (MmGetPdeAddress va) = PDX va"
proof -
  define d where "d = unat va div 2 ^ 22"
  have d: "d < 1024" using unat_ULONG_less [of va] by (simp add: d_def)
  have a: "unat (MmGetPdeAddress va) = 4 * d + 0xC0300000" by (simp add: unat_MmGetPdeAddress d_def)
  have "(4 * d + 787200 * 4096) mod 4096 = 4 * d"
    using d by (simp only: mod_mult_self1) simp
  moreover have "(4 * d + 0xC0300000) div 2 ^ 22 = 768" "(4 * d + 0xC0300000) div 4096 = 786432 + 768"
    using d by auto
  ultimately have "unat (PDX (MmGetPdeAddress va)) = 768" "unat (PTX (MmGetPdeAddress va)) = 768"
    "unat (word_off (MmGetPdeAddress va)) = unat (PDX va)"
    using a by (simp_all add: unat_PDX unat_PTX unat_word_off d_def)
  then show "PDX (MmGetPdeAddress va) = 768" "PTX (MmGetPdeAddress va) = 768"
    "word_off (MmGetPdeAddress va) = PDX va" by (auto simp: word_unat_eq_iff)
qed

lemma PteAddress_walk:
  "PDX (MmGetPteAddress va) = 768" "PTX (MmGetPteAddress va) = PDX va" "word_off (MmGetPteAddress va) = PTX va"
proof -
  define q where "q = unat va div 4096"
  have q: "q < 2 ^ 20" using unat_ULONG_less [of va] by (simp add: q_def)
  have a: "unat (MmGetPteAddress va) = 4 * q + 0xC0000000" by (simp add: unat_MmGetPteAddress q_def)
  have split: "q = 1024 * (q div 1024) + q mod 1024" by simp
  have "(4 * q + 0xC0000000) div 4096 = q div 1024 + 786432" by linarith
  moreover have "(4 * q + 786432 * 4096) mod 4096 = 4 * (q mod 1024)"
    using mod_mult_mult1 [of 4 q 1024] by (simp only: mod_mult_self1) simp
  moreover have "(4 * q + 0xC0000000) div 2 ^ 22 = 768" using q by simp
  moreover have "(q div 1024 + 768 * 1024) mod 1024 = q div 1024"
    using q by (simp only: mod_mult_self1) simp
  moreover have "q div 1024 = unat va div 2 ^ 22" by (simp add: q_def div_mult2_eq [symmetric])
  ultimately have "unat (PDX (MmGetPteAddress va)) = 768" "unat (PTX (MmGetPteAddress va)) = unat (PDX va)"
    "unat (word_off (MmGetPteAddress va)) = unat (PTX va)"
    using a by (simp_all add: unat_PDX unat_PTX unat_word_off q_def)
  then show "PDX (MmGetPteAddress va) = 768" "PTX (MmGetPteAddress va) = PDX va"
    "word_off (MmGetPteAddress va) = PTX va" by (auto simp: word_unat_eq_iff)
qed

section \<open>Reading and writing entries through the self map\<close>

text \<open>Slot 768 of the directory points at the directory.\<close>

definition self_map :: "'a mm_state_scheme \<Rightarrow> bool" where
  "self_map s \<longleftrightarrow> Valid (PhysMem s (page_dir s) 768) \<and>
     PageFrameNumber (PhysMem s (page_dir s) 768) = page_dir s"

definition pde :: "'a mm_state_scheme \<Rightarrow> PVOID \<Rightarrow> MMPTE" where
  "pde s va = PhysMem s (page_dir s) (PDX va)"

definition pte :: "'a mm_state_scheme \<Rightarrow> PVOID \<Rightarrow> MMPTE" where
  "pte s va = PhysMem s (PageFrameNumber (pde s va)) (PTX va)"

lemma translate_eq:
  "translate s va = (if Valid (pde s va) \<and> Valid (pte s va) then Some (PageFrameNumber (pte s va)) else None)"
  by (simp add: translate_def mmu_def pde_def pte_def Let_def)

lemma translate_PdeAddress: "self_map s \<Longrightarrow> translate s (MmGetPdeAddress va) = Some (page_dir s)"
  by (simp add: translate_def mmu_def self_map_def PdeAddress_walk)

lemma translate_PteAddress:
  "self_map s \<Longrightarrow> translate s (MmGetPteAddress va) =
    (if Valid (pde s va) then Some (PageFrameNumber (pde s va)) else None)"
  by (simp add: translate_def mmu_def self_map_def PteAddress_walk pde_def)

lemma vread_pde: "self_map s \<Longrightarrow> vread (MmGetPdeAddress va) s = Inr (pde s va)"
  by (simp add: vread_def translate_PdeAddress PdeAddress_walk pde_def)

lemma vread_pte: "self_map s \<Longrightarrow> Valid (pde s va) \<Longrightarrow> vread (MmGetPteAddress va) s = Inr (pte s va)"
  by (simp add: vread_def translate_PteAddress PteAddress_walk pte_def)

definition set_entry :: "frame \<Rightarrow> ULONG \<Rightarrow> MMPTE \<Rightarrow> 'a mm_state_scheme \<Rightarrow> 'a mm_state_scheme" where
  "set_entry f i w s = s\<lparr>PhysMem := (PhysMem s)(f := (PhysMem s f)(i := w))\<rparr>"

lemma vwrite_pte:
  "self_map s \<Longrightarrow> Valid (pde s va) \<Longrightarrow>
    vwrite (MmGetPteAddress va) w s = Inr (set_entry (PageFrameNumber (pde s va)) (PTX va) w s)"
  by (simp add: vwrite_def translate_PteAddress PteAddress_walk set_entry_def)

lemma vwrite_pde:
  "self_map s \<Longrightarrow> vwrite (MmGetPdeAddress va) w s = Inr (set_entry (page_dir s) (PDX va) w s)"
  by (simp add: vwrite_def translate_PdeAddress PdeAddress_walk set_entry_def)

text \<open>
  \<open>tables_ok\<close>: the directory maps itself and otherwise each of its valid entries has a page table of
  its own, none of them the directory.
\<close>

definition tables_ok :: "'a mm_state_scheme \<Rightarrow> bool" where
  "tables_ok s \<longleftrightarrow> self_map s \<and>
     (\<forall>i j. unat i < 1024 \<and> unat j < 1024 \<and> i \<noteq> j \<and> Valid (PhysMem s (page_dir s) i) \<and>
        Valid (PhysMem s (page_dir s) j) \<longrightarrow>
        PageFrameNumber (PhysMem s (page_dir s) i) \<noteq> PageFrameNumber (PhysMem s (page_dir s) j))"

lemma tables_okD:
  assumes "tables_ok s"
  shows "self_map s"
    and "Valid (pde s va) \<Longrightarrow> PDX va \<noteq> 768 \<Longrightarrow> PageFrameNumber (pde s va) \<noteq> page_dir s"
    and "Valid (pde s va) \<Longrightarrow> Valid (pde s vb) \<Longrightarrow> PageFrameNumber (pde s va) = PageFrameNumber (pde s vb) \<Longrightarrow>
      PDX va = PDX vb"
proof -
  show sm: "self_map s" using assms by (simp add: tables_ok_def)
  show "PageFrameNumber (pde s va) \<noteq> page_dir s" if "Valid (pde s va)" "PDX va \<noteq> 768"
  proof -
    have "unat (768 :: ULONG) < 1024" by simp
    then show ?thesis using assms that sm PDX_less [of va]
      unfolding tables_ok_def self_map_def pde_def by metis
  qed
  show "PDX va = PDX vb" if "Valid (pde s va)" "Valid (pde s vb)"
    "PageFrameNumber (pde s va) = PageFrameNumber (pde s vb)"
    using assms that PDX_less [of va] PDX_less [of vb] unfolding tables_ok_def pde_def by blast
qed

lemma set_entry_sel [simp]:
  "page_dir (set_entry f i w s) = page_dir s" "Cr3 (set_entry f i w s) = Cr3 s"
  "PhysMem (set_entry f i w s) = (PhysMem s)(f := (PhysMem s f)(i := w))"
  "RefCount (set_entry f i w s) = RefCount s" "PteAddress (set_entry f i w s) = PteAddress s"
  "PfnLink (set_entry f i w s) = PfnLink s" "PfnFreeList (set_entry f i w s) = PfnFreeList s"
  "MMNumberOfPhysicalPages (set_entry f i w s) = MMNumberOfPhysicalPages s"
  "MemManagerTestingON (set_entry f i w s) = MemManagerTestingON s"
  "MiSystemPteBitmap (set_entry f i w s) = MiSystemPteBitmap s"
  "ke_state.truncate (set_entry f i w s) = ke_state.truncate s"
  by (simp_all add: set_entry_def page_dir_def ke_state.truncate_def)

text \<open>Writing the entry of a page outside the table area changes that entry and no other.\<close>

lemma set_pte_frame:
  assumes ok: "tables_ok s" and v: "Valid (pde s va)" and n: "PDX va \<noteq> 768"
  shows "pde (set_entry (PageFrameNumber (pde s va)) (PTX va) w s) vb = pde s vb"
    and "tables_ok (set_entry (PageFrameNumber (pde s va)) (PTX va) w s)"
    and "Valid (pde s vb) \<Longrightarrow> pte (set_entry (PageFrameNumber (pde s va)) (PTX va) w s) vb =
      (if PDX vb = PDX va \<and> PTX vb = PTX va then w else pte s vb)"
proof -
  let ?s = "set_entry (PageFrameNumber (pde s va)) (PTX va) w s"
  have ne: "PageFrameNumber (pde s va) \<noteq> page_dir s" by (rule tables_okD(2) [OF ok v n])
  show d: "pde ?s vb = pde s vb" using ne by (simp add: pde_def)
  show "tables_ok ?s" using ok ne by (simp add: tables_ok_def self_map_def)
  show "pte ?s vb = (if PDX vb = PDX va \<and> PTX vb = PTX va then w else pte s vb)" if "Valid (pde s vb)"
    using tables_okD(3) [OF ok v that] d by (auto simp: pte_def pde_def)
qed

end
