(* ===== verification/Mm.thy ===== *)
theory Mm
  imports Paging
begin

text \<open>
  \<open>mm/mm.c\<close>: the PFN database, insertion and removal of pages, \<open>MmVirtualAlloc\<close> and \<open>MmVirtualFree\<close>,
  the system and user PTE pools, creation, cloning and deletion of address spaces, and the
  copy-on-write page fault handler. Every page table entry is read and written through its virtual
  address as the code does.
\<close>

section \<open>The PFN database\<close>

definition x86CalcRam :: "'a mm_state_scheme \<Rightarrow> 'a mm_state_scheme" where
  "x86CalcRam s = s\<lparr>basemem := IOPHYSMEM, MaxPA := MAXPHYMEM,
     MMNumberOfPhysicalPages := MAXPHYMEM div PGSIZE\<rparr>"

text \<open>An index into \<open>PfnDataBase\<close> past its end is \<open>OutOfBounds\<close>.\<close>

definition pfn_access :: "frame \<Rightarrow> 'a mm_state_scheme \<Rightarrow> fault + 'b \<Rightarrow> fault + 'b" where
  "pfn_access f s k = (if f < MMNumberOfPhysicalPages s then k else Inl OutOfBounds)"

definition pfn_list :: "'a mm_state_scheme \<Rightarrow> frame klist" where
  "pfn_list s = (PfnLink s, PfnFreeList s)"

definition set_pfn_list :: "frame klist \<Rightarrow> 'a mm_state_scheme \<Rightarrow> 'a mm_state_scheme" where
  "set_pfn_list l s = s\<lparr>PfnLink := fst l, PfnFreeList := snd l\<rparr>"

definition set_ref :: "ULONG \<Rightarrow> frame \<Rightarrow> 'a mm_state_scheme \<Rightarrow> fault + 'a mm_state_scheme" where
  "set_ref n f s = pfn_access f s (Inr (s\<lparr>RefCount := (RefCount s)(f := n)\<rparr>))"

definition MmInitPFNDataBase :: "'a mm_state_scheme \<Rightarrow> fault + 'a mm_state_scheme" where
  "MmInitPFNDataBase s =
     (let s = s\<lparr>PfnFreeList := LIST_INIT\<rparr> in
      bind (set_ref 1 0 s) (\<lambda>s.
      bind (foldE (set_ref 1) (range32 1 (basemem s div PGSIZE)) s) (\<lambda>s.
      bind (foldE (set_ref 1) (range32 (IOPHYSMEM div PGSIZE) (EXTPHYSMEM div PGSIZE)) s) (\<lambda>s.
      ASSERT ''MmInitPFNDataBase: PtrToBootFreemem < KERNBASE + PTSIZE''
        (PtrToBootFreemem s < KERNBASE + PTSIZE)
      (if PtrToBootFreemem s < KERNBASE then Inl (KeBugCheck ''MiBootVA2PA: Invalid'')
       else let first = (PtrToBootFreemem s - KERNBASE) div PGSIZE in
      bind (foldE (set_ref 1) (range32 (EXTPHYSMEM div PGSIZE) first) s) (\<lambda>s.
      foldE (\<lambda>PgCount s.
          bind (set_ref 0 PgCount s) (\<lambda>s.
          bind (LIST_INSERT_TAIL PgCount (pfn_list s)) (\<lambda>l. Inr (set_pfn_list l s))))
        (range32 first (MaxPA s div PGSIZE)) s))))))"

definition MmAllocatePFN ::
  "PVOID \<Rightarrow> 'a mm_state_scheme \<Rightarrow> fault + (KSTATUS \<times> frame option \<times> 'a mm_state_scheme)" where
  "MmAllocatePFN PteAddr s =
     bind (LIST_REMOVE_HEAD (pfn_list s)) (\<lambda>(Page, l).
     let s = set_pfn_list l s in
     case Page of
       None \<Rightarrow> Inr (STATUS_NO_MEMORY, None, s)
     | Some f \<Rightarrow> Inr (STATUS_SUCCESS, Some f, s\<lparr>PteAddress := (PteAddress s)(f := PteAddr)\<rparr>))"

definition MiFreePFN :: "frame \<Rightarrow> 'a mm_state_scheme \<Rightarrow> fault + 'a mm_state_scheme" where
  "MiFreePFN pfn s =
     ASSERT ''MiFreePFN: RefCount == 0'' (RefCount s pfn = 0)
     (bind (LIST_INSERT_HEAD pfn (pfn_list s)) (\<lambda>l. Inr (set_pfn_list l s)))"

definition MiIncReferencePFN :: "frame \<Rightarrow> 'a mm_state_scheme \<Rightarrow> fault + 'a mm_state_scheme" where
  "MiIncReferencePFN pfn s = set_ref (RefCount s pfn + 1) pfn s"

definition MiDecReferencePFN :: "frame \<Rightarrow> 'a mm_state_scheme \<Rightarrow> fault + 'a mm_state_scheme" where
  "MiDecReferencePFN pfn s =
     bind (set_ref (RefCount s pfn - 1) pfn s) (\<lambda>s.
     if RefCount s pfn = 0 then MiFreePFN pfn s else Inr s)"

definition MiPFNtoPhysicalAddress :: "frame \<Rightarrow> ULONG" where
  "MiPFNtoPhysicalAddress pfn = push_bit 12 pfn"

definition MiPhysicalAddresstoPFN :: "ULONG \<Rightarrow> frame" where
  "MiPhysicalAddresstoPFN PAddress = drop_bit 12 PAddress"

definition MmGetPfnFromPte :: "MMPTE \<Rightarrow> frame" where
  "MmGetPfnFromPte p = MiPhysicalAddresstoPFN (p AND NOT 0x3FF)"

definition MmGetPhysicalAddress :: "PVOID \<Rightarrow> 'a mm_state_scheme \<Rightarrow> fault + ULONG" where
  "MmGetPhysicalAddress Address s =
     bind (vread (MmGetPteAddress Address) s) (\<lambda>p.
     Inr (if Valid p then push_bit 12 (PageFrameNumber p) + PGOFF Address else STATUS_INVALID_PARAMETER))"

definition MmGetVirtualForPhysical :: "ULONG \<Rightarrow> 'a mm_state_scheme \<Rightarrow> fault + PVOID" where
  "MmGetVirtualForPhysical PhysicalAddress s =
     pfn_access (PPN PhysicalAddress) s
       (Inr (MiGetVitualAddressFromPTE (PteAddress s (PPN PhysicalAddress)) + PGOFF PhysicalAddress))"

section \<open>Boot-time allocation\<close>

text \<open>\<open>kernel_end\<close> is the linker symbol \<open>end\<close>.\<close>

definition MiInitBootAlloc :: "ULONG \<Rightarrow> ULONG \<Rightarrow> ULONG \<Rightarrow> 'a mm_state_scheme \<Rightarrow> PVOID \<times> 'a mm_state_scheme" where
  "MiInitBootAlloc kernel_end NumBytes align s =
     (let p = (if PtrToBootFreemem s = 0 then kernel_end else PtrToBootFreemem s);
          p = ROUNDUP p align
      in (p, s\<lparr>PtrToBootFreemem := p + NumBytes\<rparr>))"

definition MmInitializeSystemPtes :: "ULONG \<Rightarrow> ULONG list \<Rightarrow> 'a mm_state_scheme \<Rightarrow> fault + 'a mm_state_scheme" where
  "MmInitializeSystemPtes kernel_end buffer s =
     (let BitCnt = MMSYSPTE_SIZE div PGSIZE;
          BuffSize = BmBitmapBufferSize BitCnt;
          (Buffer, s) = MiInitBootAlloc kernel_end BuffSize PGSIZE s
      in bind (BmBitmapCreateInBuffer BitCnt buffer BuffSize) (\<lambda>b.
         Inr (KeInitializeSpinLock SystemPteSpinLock (s\<lparr>MiSystemPteBitmap := b\<rparr>))))"

section \<open>Inserting and removing pages\<close>

definition IsCurrentPageDirectory :: "PVOID \<Rightarrow> 'a mm_state_scheme \<Rightarrow> fault + bool" where
  "IsCurrentPageDirectory PageDirectory s =
     bind (MmGetPhysicalAddress PageDirectory s) (\<lambda>a.
     bind (MmGetPhysicalAddress MM_PDE_ADDRESS s) (\<lambda>b. Inr (a = b)))"

definition InvalidateTLB :: "PVOID \<Rightarrow> PVOID \<Rightarrow> 'a mm_state_scheme \<Rightarrow> fault + unit" where
  "InvalidateTLB PageDirectory Address s =
     (if PageDirectory \<noteq> 0 then bind (IsCurrentPageDirectory PageDirectory s) (\<lambda>_. Inr ()) else Inr ())"

text \<open>The guard both operations start with: user pages of another address space.\<close>

definition foreign_user_page :: "PVOID \<Rightarrow> PVOID \<Rightarrow> 'a mm_state_scheme \<Rightarrow> fault + bool" where
  "foreign_user_page PageDirectory Address s =
     (if PageDirectory \<noteq> 0
      then bind (IsCurrentPageDirectory PageDirectory s) (\<lambda>cur. Inr (\<not> cur \<and> IsUserAddress Address))
      else Inr False)"

definition MiRemovePage :: "PVOID \<Rightarrow> PVOID \<Rightarrow> 'a mm_state_scheme \<Rightarrow> fault + (KSTATUS \<times> 'a mm_state_scheme)" where
  "MiRemovePage PageDirectory Address s =
     ASSERT ''MiRemovePage: PageDirectory != NULL'' (PageDirectory \<noteq> 0)
     (ASSERT ''MiRemovePage: IsPageAlignedAddress'' (IsPageAlignedAddress Address)
     (bind (foreign_user_page PageDirectory Address s) (\<lambda>foreign.
      if foreign \<and> \<not> MemManagerTestingON s
      then Inl (KeBugCheck ''MiRemovePage: Removing User Page for other process context'')
      else
      bind (vread (MmGetPdeAddress Address) s) (\<lambda>pPde.
      if \<not> Valid pPde then Inl (KeBugCheck ''Trying to remove an unmapped page'')
      else
      bind (vread (MmGetPteAddress Address) s) (\<lambda>pPte.
      if \<not> Valid pPte then Inl (KeBugCheck ''Trying to remove an unmapped page'')
      else
      bind (MiDecReferencePFN (MiPhysicalAddresstoPFN (push_bit 12 (PageFrameNumber pPte))) s) (\<lambda>s.
      bind (vwrite (MmGetPteAddress Address) 0 s) (\<lambda>s.
      Inr (STATUS_SUCCESS, s))))))))"

text \<open>The page table for an address whose directory entry is not valid.\<close>

definition insert_page_table ::
  "PVOID \<Rightarrow> PVOID \<Rightarrow> 'a mm_state_scheme \<Rightarrow> fault + (KSTATUS \<times> 'a mm_state_scheme)" where
  "insert_page_table PageDirectory Address s =
     ASSERT ''MiInsertPage: IsUserAddress'' (IsUserAddress Address)
     (bind (MmAllocatePFN (MmGetPdeAddress Address) s) (\<lambda>(status, pPfn1, s).
      if \<not> success status then Inr (status, s)
      else deref pPfn1 (\<lambda>f.
      bind (MiIncReferencePFN f s) (\<lambda>s.
      bind (vwrite (PageDirectory + 4 * PDX Address)
        (if IsUserAddress Address then MiPFNtoPhysicalAddress f OR PTE_W OR PTE_U OR PTE_P
         else MiPFNtoPhysicalAddress f OR PTE_W OR PTE_P) s) (\<lambda>s.
      bind (vzero_page (ROUNDDOWN (MmGetPteAddress Address) PGSIZE) s) (\<lambda>s.
      Inr (STATUS_SUCCESS, s)))))))"

text \<open>The part of \<open>MiInsertPage\<close> after the page table is present and the frame is chosen.\<close>

definition insert_frame ::
  "PVOID \<Rightarrow> PVOID \<Rightarrow> frame \<Rightarrow> ULONG \<Rightarrow> 'a mm_state_scheme \<Rightarrow> fault + (KSTATUS \<times> 'a mm_state_scheme)" where
  "insert_frame PageDirectory Address f Perm s =
     bind (vread (MmGetPteAddress Address) s) (\<lambda>p.
     if PageFrameNumber p = f then Inr (STATUS_SUCCESS, s)
     else
     bind (if p \<noteq> 0 then MiRemovePage PageDirectory Address s else Inr (STATUS_SUCCESS, s)) (\<lambda>(status, s).
     if \<not> success status then Inr (status, s)
     else
     bind (vwrite (MmGetPteAddress Address) (MiPFNtoPhysicalAddress f OR Perm OR PTE_P) s) (\<lambda>s.
     bind (MiIncReferencePFN f s) (\<lambda>s.
     bind (InvalidateTLB PageDirectory Address s) (\<lambda>_.
     Inr (STATUS_SUCCESS, s))))))"

definition MiInsertPage ::
  "PVOID \<Rightarrow> PVOID \<Rightarrow> frame option \<Rightarrow> ULONG \<Rightarrow> 'a mm_state_scheme \<Rightarrow> fault + (KSTATUS \<times> 'a mm_state_scheme)" where
  "MiInsertPage PageDirectory Address pPfn Perm s =
     bind (foreign_user_page PageDirectory Address s) (\<lambda>foreign.
     if foreign then Inl (KeBugCheck ''MmInsertPage: Inserting User Page for other process context'')
     else
     bind (vread (MmGetPdeAddress Address) s) (\<lambda>Pde.
     bind (if \<not> Valid Pde then insert_page_table PageDirectory Address s else Inr (STATUS_SUCCESS, s))
       (\<lambda>(status, s).
     if \<not> success status then Inr (status, s)
     else case pPfn of
       Some f \<Rightarrow> insert_frame PageDirectory Address f Perm s
     | None \<Rightarrow>
         bind (MmAllocatePFN (MmGetPteAddress Address) s) (\<lambda>(status, pPfn, s).
         if \<not> success status then Inr (status, s)
         else deref pPfn (\<lambda>f. insert_frame PageDirectory Address f Perm s)))))"

section \<open>Ranges of pages\<close>

text \<open>
  \<open>for (i = 0; i < size; i += PGSIZE)\<close> with \<open>size\<close> a multiple of \<open>PGSIZE\<close>: the last value of \<open>i\<close> is below
  \<open>size\<close> and the increment reaches \<open>size\<close> without wrapping.
\<close>

definition page_offsets :: "ULONG \<Rightarrow> ULONG list" where
  "page_offsets Size = map (\<lambda>k. of_nat (4096 * k)) [0..<unat Size div 4096]"

definition MmMapSegment :: "PVOID \<Rightarrow> PVOID \<Rightarrow> ULONG \<Rightarrow> ULONG \<Rightarrow> 'a mm_state_scheme \<Rightarrow> fault + (KSTATUS \<times> 'a mm_state_scheme)" where
  "MmMapSegment PageDirectory Address Length Perm s =
     (let VaStart = ROUNDDOWN Address PGSIZE;
          VaEnd = ROUNDUP (Address + Length) PGSIZE
      in bind (foldE (\<lambda>i s.
           let VAddr = VaStart + i in
           bind (MmAllocatePFN (MmGetPteAddress VAddr) s) (\<lambda>(status, pfn, s).
           if \<not> success status then Inl (KeBugCheck ''page allocation Failed'')
           else
           bind (MiInsertPage PageDirectory VAddr pfn Perm s) (\<lambda>(status, s).
           if \<not> success status then Inl (KeBugCheck ''MiInsertPage Failed'') else Inr s)))
         (if VaStart < VaEnd then page_offsets (VaEnd - VaStart) else []) s) (\<lambda>s.
         Inr (STATUS_SUCCESS, s)))"

definition MmVirtualFree :: "PVOID \<Rightarrow> ULONG \<Rightarrow> 'a mm_state_scheme \<Rightarrow> fault + 'a mm_state_scheme" where
  "MmVirtualFree VirtualAddress Size s =
     foldE (\<lambda>i s. bind (MiRemovePage MM_PDE_ADDRESS (VirtualAddress + i) s) (\<lambda>(_, s). Inr s))
       (page_offsets (ROUNDUP Size PGSIZE)) s"

text \<open>The clean-up after a failed allocation follows an \<open>ASSERT\<close> of success and is never reached.\<close>

definition valloc_body :: "PVOID \<Rightarrow> ULONG \<Rightarrow> ULONG \<Rightarrow> 'a mm_state_scheme \<Rightarrow> fault + 'a mm_state_scheme" where
  "valloc_body VirtualAddress perm i s =
     bind (MmAllocatePFN (MmGetPteAddress (VirtualAddress + i)) s) (\<lambda>(status, Page, s).
     ASSERT ''MmVirtualAlloc: success(status)'' (success status)
     (bind (MiInsertPage MM_PDE_ADDRESS (VirtualAddress + i) Page (perm OR PTE_P) s) (\<lambda>(status, s).
      ASSERT ''MmVirtualAlloc: MiInsertPage'' (success status) (Inr s))))"

definition MmVirtualAlloc :: "PVOID \<Rightarrow> ULONG \<Rightarrow> ULONG \<Rightarrow> 'a mm_state_scheme \<Rightarrow> fault + (KSTATUS \<times> 'a mm_state_scheme)" where
  "MmVirtualAlloc VirtualAddress Size perm s =
     bind (foldE (valloc_body VirtualAddress perm) (page_offsets (ROUNDUP Size PGSIZE)) s) (\<lambda>s.
     Inr (STATUS_SUCCESS, s))"

section \<open>System and user PTE pools\<close>

definition MmAllocateSystemPtes ::
  "'a mm_state_scheme deferred_routines \<Rightarrow> nat \<Rightarrow> ULONG \<Rightarrow> 'a mm_state_scheme \<Rightarrow> fault + (PVOID \<times> 'a mm_state_scheme)" where
  "MmAllocateSystemPtes run fuel NumberOfPages s =
     bind (KeAcquireSpinLock SystemPteSpinLock s) (\<lambda>(Old, s).
     bind (BmBitmapScanAndFlip (MiSystemPteBitmap s) 0 NumberOfPages False) (\<lambda>(PageIndex, b).
     let s = s\<lparr>MiSystemPteBitmap := b\<rparr> in
     bind (KeReleaseSpinLock run fuel SystemPteSpinLock Old s) (\<lambda>s.
     if PageIndex = BITMAP_ERROR then Inr (0, s)
     else let Memory = MMSYSPTE_START + PGSIZE * PageIndex in
       bind (MmVirtualAlloc Memory (NumberOfPages * PGSIZE) PTE_W s) (\<lambda>(status, s).
       if \<not> success status then Inr (0, s) else Inr (Memory, s)))))"

definition MmFreeSystemPtes ::
  "'a mm_state_scheme deferred_routines \<Rightarrow> nat \<Rightarrow> PVOID \<Rightarrow> ULONG \<Rightarrow> 'a mm_state_scheme \<Rightarrow> fault + 'a mm_state_scheme" where
  "MmFreeSystemPtes run fuel Address NumberOfPages s =
     ASSERT ''MmFreeSystemPtes: Address >= MMSYSPTE_START'' (Address \<ge> MMSYSPTE_START)
     (ASSERT ''MmFreeSystemPtes: Address < MMSYSPTE_END'' (Address < MMSYSPTE_END)
     (bind (KeAcquireSpinLock SystemPteSpinLock s) (\<lambda>(Old, s).
      ASSERT ''MmFreeSystemPtes: IsPageAlignedAddress'' (IsPageAlignedAddress Address)
      (bind (BmBitmapSetMultiple (MiSystemPteBitmap s) ((Address - MMSYSPTE_START) div PGSIZE) NumberOfPages False)
        (\<lambda>b.
       let s = s\<lparr>MiSystemPteBitmap := b\<rparr> in
       bind (MmVirtualFree Address (NumberOfPages * PGSIZE) s) (\<lambda>s.
       KeReleaseSpinLock run fuel SystemPteSpinLock Old s))))))"

text \<open>The bitmap of a process is an argument and a result: it is the caller's page.\<close>

definition MmAllocateUserPtes ::
  "'a mm_state_scheme deferred_routines \<Rightarrow> nat \<Rightarrow> BITMAP \<Rightarrow> ULONG \<Rightarrow> 'a mm_state_scheme \<Rightarrow>
   fault + (PVOID \<times> BITMAP \<times> 'a mm_state_scheme)" where
  "MmAllocateUserPtes run fuel Bitmap NumberOfPages s =
     bind (KeAcquireSpinLock UserPteSpinLock s) (\<lambda>(Old, s).
     bind (BmBitmapScanAndFlip Bitmap 0 NumberOfPages False) (\<lambda>(PageIndex, b).
     bind (KeReleaseSpinLock run fuel UserPteSpinLock Old s) (\<lambda>s.
     if PageIndex = BITMAP_ERROR then Inr (0, b, s)
     else let Memory = USERPTEPOOL_START + PGSIZE * PageIndex in
       bind (MmVirtualAlloc Memory (NumberOfPages * PGSIZE) (PTE_W OR PTE_U) s) (\<lambda>(status, s).
       if \<not> success status then Inr (0, b, s) else Inr (Memory, b, s)))))"

definition MmFreeUserPtes ::
  "'a mm_state_scheme deferred_routines \<Rightarrow> nat \<Rightarrow> PVOID \<Rightarrow> BITMAP \<Rightarrow> ULONG \<Rightarrow> 'a mm_state_scheme \<Rightarrow>
   fault + (BITMAP \<times> 'a mm_state_scheme)" where
  "MmFreeUserPtes run fuel Address Bitmap NumberOfPages s =
     ASSERT ''MmFreeUserPtes: Address >= USERPTEPOOL_START'' (Address \<ge> USERPTEPOOL_START)
     (ASSERT ''MmFreeUserPtes: Address < USERPTEPOOL_END'' (Address < USERPTEPOOL_END)
     (bind (KeAcquireSpinLock UserPteSpinLock s) (\<lambda>(Old, s).
      ASSERT ''MmFreeUserPtes: IsPageAlignedAddress'' (IsPageAlignedAddress Address)
      (let start = (Address - USERPTEPOOL_START) div PGSIZE in
       bind (foldE (\<lambda>i _. bind (BmBitmapTest Bitmap (start + i)) (\<lambda>t.
           ASSERT ''MmFreeUserPtes: BmBitmapTest'' t (Inr ()))) (range32 0 NumberOfPages) ()) (\<lambda>_.
       bind (BmBitmapSetMultiple Bitmap start NumberOfPages False) (\<lambda>b.
       bind (MmVirtualFree Address (NumberOfPages * PGSIZE) s) (\<lambda>s.
       bind (KeReleaseSpinLock run fuel UserPteSpinLock Old s) (\<lambda>s.
       Inr (b, s)))))))))"

section \<open>Temporary mappings\<close>

definition MmUnMapPageTemp :: "PVOID \<Rightarrow> frame \<Rightarrow> 'a mm_state_scheme \<Rightarrow> fault + 'a mm_state_scheme" where
  "MmUnMapPageTemp VAddr Page s =
     ASSERT ''MmUnMapPageTemp: VAddr >= USERTEMP'' (VAddr \<ge> USERTEMP)
     (ASSERT ''MmUnMapPageTemp: VAddr < USERTEMPEND'' (VAddr < USERTEMPEND)
     (bind (MiRemovePage MM_PDE_ADDRESS VAddr s) (\<lambda>(_, s).
      pfn_access Page s
      (ASSERT ''MmUnMapPageTemp: RefCount != 0'' (RefCount s Page \<noteq> 0) (Inr s)))))"

text \<open>The search for a free slot of the temporary area.\<close>

fun temp_loop :: "frame \<Rightarrow> PVOID list \<Rightarrow> 'a mm_state_scheme \<Rightarrow> fault + (KSTATUS \<times> PVOID \<times> 'a mm_state_scheme)" where
  "temp_loop Page [] s = Inr (STATUS_NO_MEMORY, USERTEMPEND, s)"
| "temp_loop Page (VAddr # vs) s =
     bind (vread (MmGetPteAddress VAddr) s) (\<lambda>Pte.
     if \<not> Valid Pte then
       bind (MiInsertPage MM_PDE_ADDRESS VAddr (Some Page) PTE_W s) (\<lambda>(Status, s). Inr (Status, VAddr, s))
     else temp_loop Page vs s)"

definition MmMapPageTemp :: "frame \<Rightarrow> 'a mm_state_scheme \<Rightarrow> fault + (PVOID \<times> 'a mm_state_scheme)" where
  "MmMapPageTemp Page s =
     bind (vread (MmGetPdeAddress USERTEMP) s) (\<lambda>Pde.
     bind (if \<not> Valid Pde
           then bind (MiInsertPage MM_PDE_ADDRESS USERTEMP (Some Page) PTE_W s) (\<lambda>(Status, s).
             Inr (Status, USERTEMP, s))
           else temp_loop Page (map (\<lambda>i. USERTEMP + i) (page_offsets PTSIZE)) s) (\<lambda>(Status, VAddr, s).
     Inr (if \<not> success Status then (0, s) else (VAddr, s))))"

definition MmAttachToAddressSpace :: "PVOID \<Rightarrow> 'a mm_state_scheme \<Rightarrow> fault + 'a mm_state_scheme" where
  "MmAttachToAddressSpace PageDirectory s =
     bind (MmGetPhysicalAddress PageDirectory s) (\<lambda>c. Inr (s\<lparr>Cr3 := c\<rparr>))"

section \<open>Address spaces\<close>

abbreviation (input) user_dirs :: "PVOID list" where
  "user_dirs \<equiv> map (\<lambda>k. of_nat (0x400000 * k)) [0..<511]"

definition remove_if_mapped :: "PVOID \<Rightarrow> PVOID \<Rightarrow> 'a mm_state_scheme \<Rightarrow> fault + 'a mm_state_scheme" where
  "remove_if_mapped PageDirectory PageAddress s =
     bind (vread (MmGetPteAddress PageAddress) s) (\<lambda>Pte.
     if Valid Pte then bind (MiRemovePage PageDirectory PageAddress s) (\<lambda>(_, s). Inr s) else Inr s)"

definition delete_dir :: "PVOID \<Rightarrow> PVOID \<Rightarrow> 'a mm_state_scheme \<Rightarrow> fault + 'a mm_state_scheme" where
  "delete_dir PageDirectory DirAddress s =
     bind (vread (MmGetPdeAddress DirAddress) s) (\<lambda>Pde.
     bind (vread (PageDirectory + 4 * PDX DirAddress) s) (\<lambda>TestPde.
     ASSERT ''MmDeleteProcessAddressSpace: TestPde == Pde'' (TestPde = Pde)
     (if Valid Pde then
        bind (foldE (\<lambda>i. remove_if_mapped PageDirectory (DirAddress + i)) (page_offsets PTSIZE) s) (\<lambda>s.
        bind (MiRemovePage PageDirectory (MmGetPteAddress DirAddress) s) (\<lambda>(_, s). Inr s))
      else ASSERT ''MmDeleteProcessAddressSpace: TestPde == 0'' (TestPde = 0) (Inr s))))"

definition MmDeleteProcessAddressSpace ::
  "'a mm_state_scheme deferred_routines \<Rightarrow> nat \<Rightarrow> PVOID \<Rightarrow> 'a mm_state_scheme \<Rightarrow> fault + 'a mm_state_scheme" where
  "MmDeleteProcessAddressSpace run fuel PageDirectory s =
     bind (KeGetCurrentIrql s) (\<lambda>irql.
     ASSERT ''MmDeleteProcessAddressSpace: DISPATCH_LEVEL'' (irql = DISPATCH_LEVEL)
     (let OldCr3 = Cr3 s in
      bind (IsCurrentPageDirectory PageDirectory s) (\<lambda>cur.
      ASSERT ''MmDeleteProcessAddressSpace: !IsCurrentPageDirectory'' (\<not> cur)
      (bind (MmAttachToAddressSpace PageDirectory s) (\<lambda>s.
       bind (foldE (delete_dir PageDirectory) user_dirs s) (\<lambda>s.
       MmFreeSystemPtes run fuel PageDirectory 1 (s\<lparr>Cr3 := OldCr3\<rparr>)))))))"

text \<open>One page of \<open>MmCloneProcessAddressSpace\<close>; \<open>TempPageAddr\<close> maps the new page table.\<close>

definition clone_page :: "PVOID \<Rightarrow> PVOID \<Rightarrow> 'a mm_state_scheme \<Rightarrow> fault + 'a mm_state_scheme" where
  "clone_page TempPageAddr PageAddress s =
     (let NewPte = TempPageAddr + 4 * PTX PageAddress in
      bind (vread (MmGetPteAddress PageAddress) s) (\<lambda>ClonePte.
      if \<not> Valid ClonePte then Inr s
      else
      bind (MiIncReferencePFN (MmGetPfnFromPte ClonePte) s) (\<lambda>s.
      if CopyOnWrite ClonePte then
        ASSERT ''MmCloneProcessAddressSpace: COW page not writable'' (\<not> Writable ClonePte)
          (vwrite NewPte ClonePte s)
      else if Writable ClonePte then
        (let ClonePte = set_CopyOnWrite True (set_Writable False ClonePte) in
         bind (vwrite (MmGetPteAddress PageAddress) ClonePte s) (\<lambda>s.
         vwrite NewPte ClonePte s))
      else vwrite NewPte ClonePte s)))"

text \<open>One directory entry; a status that is not a success ends the loop over the directory.\<close>

definition clone_dir ::
  "PVOID \<Rightarrow> PVOID \<Rightarrow> PVOID \<Rightarrow> 'a mm_state_scheme \<Rightarrow> fault + (KSTATUS \<times> 'a mm_state_scheme)" where
  "clone_dir ClonePageDirectory NewPageDirectory DirAddress s =
     bind (vread (MmGetPdeAddress DirAddress) s) (\<lambda>ClonePde.
     bind (vread (ClonePageDirectory + 4 * PDX DirAddress) s) (\<lambda>CloneTestPde.
     ASSERT ''MmCloneProcessAddressSpace: CloneTestPde == ClonePde'' (CloneTestPde = ClonePde)
     (bind (vread (NewPageDirectory + 4 * PDX DirAddress) s) (\<lambda>NewTestPde.
      ASSERT ''MmCloneProcessAddressSpace: NewTestPde == 0'' (NewTestPde = 0)
      (if \<not> Valid ClonePde then Inr (STATUS_SUCCESS, s)
       else
       bind (MmAllocatePFN (NewPageDirectory + 4 * PDX DirAddress) s) (\<lambda>(Status, NewPfn, s).
       if \<not> success Status then Inr (Status, s)
       else deref NewPfn (\<lambda>f.
       bind (MiIncReferencePFN f s) (\<lambda>s.
       bind (vwrite (NewPageDirectory + 4 * PDX DirAddress)
         (MiPFNtoPhysicalAddress f OR PTE_W OR PTE_U OR PTE_P) s) (\<lambda>s.
       bind (MmMapPageTemp f s) (\<lambda>(TempPageAddr, s).
       ASSERT ''MmCloneProcessAddressSpace: TempPageAddr != NULL'' (TempPageAddr \<noteq> 0)
       (bind (vzero_page (ROUNDDOWN TempPageAddr PGSIZE) s) (\<lambda>s.
        bind (foldE (\<lambda>i. clone_page TempPageAddr (DirAddress + i)) (page_offsets PTSIZE) s) (\<lambda>s.
        bind (MmUnMapPageTemp TempPageAddr f s) (\<lambda>s.
        Inr (STATUS_SUCCESS, s)))))))))))))))"

fun clone_loop :: "PVOID \<Rightarrow> PVOID \<Rightarrow> PVOID list \<Rightarrow> 'a mm_state_scheme \<Rightarrow> fault + (KSTATUS \<times> 'a mm_state_scheme)" where
  "clone_loop c n [] s = Inr (STATUS_SUCCESS, s)"
| "clone_loop c n (d # ds) s =
     bind (clone_dir c n d s) (\<lambda>(Status, s). if \<not> success Status then Inr (Status, s) else clone_loop c n ds s)"

definition MmCloneProcessAddressSpace ::
  "PVOID \<Rightarrow> PVOID \<Rightarrow> 'a mm_state_scheme \<Rightarrow> fault + (KSTATUS \<times> 'a mm_state_scheme)" where
  "MmCloneProcessAddressSpace ClonePageDirectory NewPageDirectory s =
     bind (KeGetCurrentIrql s) (\<lambda>irql.
     ASSERT ''MmCloneProcessAddressSpace: DISPATCH_LEVEL'' (irql = DISPATCH_LEVEL)
     (bind (IsCurrentPageDirectory NewPageDirectory s) (\<lambda>cur.
      ASSERT ''MmCloneProcessAddressSpace: !IsCurrentPageDirectory(New)'' (\<not> cur)
      (bind (IsCurrentPageDirectory ClonePageDirectory s) (\<lambda>cur.
       ASSERT ''MmCloneProcessAddressSpace: IsCurrentPageDirectory(Clone)'' cur
       (clone_loop ClonePageDirectory NewPageDirectory user_dirs s))))))"

definition MmCreateProcessAddressSpace ::
  "'a mm_state_scheme deferred_routines \<Rightarrow> nat \<Rightarrow> 'a mm_state_scheme \<Rightarrow> fault + (KSTATUS \<times> PVOID \<times> 'a mm_state_scheme)" where
  "MmCreateProcessAddressSpace run fuel s =
     bind (MmAllocateSystemPtes run fuel 1 s) (\<lambda>(page, s).
     ASSERT ''MmCreateProcessAddressSpace: page'' (page \<noteq> 0)
     (bind (vcopy_page page (GlobalPgdir s) s) (\<lambda>s.
      bind (MmGetPhysicalAddress page s) (\<lambda>phys.
      bind (vwrite (page + 4 * PDX MMPAGETABLEAREA_START) (phys OR PTE_W OR PTE_P) s) (\<lambda>s.
      Inr (STATUS_SUCCESS, page, s))))))"

section \<open>The page fault handler\<close>

text \<open>The copy of a page shared by several mappings.\<close>

definition cow_copy :: "frame \<Rightarrow> PVOID \<Rightarrow> 'a mm_state_scheme \<Rightarrow> fault + 'a mm_state_scheme" where
  "cow_copy Pfn PageAddress s =
     bind (MiIncReferencePFN Pfn s) (\<lambda>s.
     bind (MiRemovePage MM_PDE_ADDRESS PageAddress s) (\<lambda>(_, s).
     bind (MmMapPageTemp Pfn s) (\<lambda>(VirtualAddress, s).
     if VirtualAddress = 0 then Inl (KeBugCheck ''Failed to Handle Page Fault'')
     else
     bind (MmMapSegment MM_PDE_ADDRESS PageAddress PGSIZE (PTE_U OR PTE_W) s) (\<lambda>(Status, s).
     if \<not> success Status then Inl (KeBugCheck ''Failed to Handle Page Fault MapSeg Failed'')
     else
     bind (vcopy_page PageAddress VirtualAddress s) (\<lambda>s.
     bind (MmUnMapPageTemp VirtualAddress Pfn s) (\<lambda>s.
     MiDecReferencePFN Pfn s))))))"

definition MmPfHandler :: "PVOID \<Rightarrow> 'a mm_state_scheme \<Rightarrow> fault + 'a mm_state_scheme" where
  "MmPfHandler FaultAddress s =
     (if \<not> IsUserAddress FaultAddress then Inl (KeBugCheck ''Kernel PageFault'')
      else
      bind (vread (MmGetPdeAddress FaultAddress) s) (\<lambda>Pde.
      if \<not> Valid Pde then Inl (KeBugCheck ''Invalid PDE'')
      else
      bind (vread (MmGetPteAddress FaultAddress) s) (\<lambda>Pte.
      if \<not> Valid Pte then Inl (KeBugCheck ''Invalid PTE'')
      else if \<not> CopyOnWrite Pte then Inl (KeBugCheck ''Not COW PTE'')
      else
      let PageAddress = ROUNDDOWN FaultAddress PGSIZE;
          Pfn = MmGetPfnFromPte Pte in
      pfn_access Pfn s
      (ASSERT ''MmPfHandler: RefCount != 0'' (RefCount s Pfn \<noteq> 0)
      (ASSERT ''MmPfHandler: Writable == 0'' (\<not> Writable Pte)
      (if RefCount s Pfn = 1
       then vwrite (MmGetPteAddress FaultAddress) (set_Writable True (set_CopyOnWrite False Pte)) s
       else cow_copy Pfn PageAddress s))))))"

section \<open>Entries\<close>

lemma bit_less_mask: "(p :: ULONG) < 4096 \<Longrightarrow> bit p n \<Longrightarrow> n < 12"
proof (rule ccontr)
  assume p: "p < 4096" and b: "bit p n" and n: "\<not> n < 12"
  have "p = take_bit 12 p"
    using p by (simp add: take_bit_eq_mod word_unat_eq_iff unat_mod word_less_nat_alt)
  then have "bit (take_bit 12 p) n" using b by simp
  then show False using n by (simp add: bit_take_bit_iff)
qed

lemma PageFrameNumber_pack:
  assumes "f < 0x100000" and "p < 4096"
  shows "PageFrameNumber (push_bit 12 f OR p) = f"
proof (rule bit_word_eqI)
  fix n assume n: "n < LENGTH(32)"
  have "\<not> bit p (12 + n)" using bit_less_mask [OF assms(2), of "12 + n"] by auto
  moreover have "n < 20" if "bit f n"
  proof -
    have "f = take_bit 20 f"
      using assms(1) by (simp add: take_bit_eq_mod word_unat_eq_iff unat_mod word_less_nat_alt)
    then have "bit (take_bit 20 f) n" using that by simp
    then show ?thesis by (simp add: bit_take_bit_iff)
  qed
  ultimately show "bit (PageFrameNumber (push_bit 12 f OR p)) n = bit f n"
    using n by (auto simp: PageFrameNumber_def bit_simps)
qed

lemma Valid_pack: "Valid (q OR p OR 1)"
  by (simp add: Valid_def bit_or_iff)

lemma PageFrameNumber_shift: "PageFrameNumber p < 0x100000"
  by (simp add: PageFrameNumber_def word_less_nat_alt unat_drop_bit)
    (use unat_ULONG_less [of p] in simp)

lemma drop_push_bit:
  assumes "f < (0x100000 :: ULONG)"
  shows "drop_bit 12 (push_bit 12 f) = f"
  using PageFrameNumber_pack [OF assms, of 0] by (simp add: PageFrameNumber_def)

lemma MmGetPfnFromPte_eq: "MmGetPfnFromPte p = PageFrameNumber p"
proof (rule bit_word_eqI)
  fix n assume n: "n < LENGTH(32)"
  have "(0x3FF :: ULONG) < 4096" by simp
  then have "\<not> bit (0x3FF :: ULONG) (12 + n)" using bit_less_mask [of "0x3FF" "12 + n"] by auto
  then show "bit (MmGetPfnFromPte p) n = bit (PageFrameNumber p) n"
    unfolding MmGetPfnFromPte_def MiPhysicalAddresstoPFN_def PageFrameNumber_def
    by (simp only: bit_drop_bit_eq bit_and_iff bit_not_iff comp_apply) (auto dest: bit_imp_possible_bit)
qed

text \<open>Two addresses share a page table entry exactly when they lie in the same page.\<close>

lemma same_page_iff: "PDX a = PDX b \<and> PTX a = PTX b \<longleftrightarrow> unat a div 4096 = unat b div 4096"
proof -
  have "unat a div 2 ^ 22 = unat a div 4096 div 1024" for a :: ULONG by (simp add: div_mult2_eq [symmetric])
  then have "PDX a = PDX b \<and> PTX a = PTX b \<longleftrightarrow>
      unat a div 4096 div 1024 = unat b div 4096 div 1024 \<and> unat a div 4096 mod 1024 = unat b div 4096 mod 1024"
    by (simp add: word_unat_eq_iff unat_PDX unat_PTX)
  also have "\<dots> \<longleftrightarrow> unat a div 4096 = unat b div 4096" by (metis div_mult_mod_eq)
  finally show ?thesis .
qed

section \<open>The free list\<close>

definition free_frames :: "'a mm_state_scheme \<Rightarrow> frame list \<Rightarrow> bool" where
  "free_frames s fs \<longleftrightarrow> klist_rep (pfn_list s) fs \<and> MMNumberOfPhysicalPages s \<le> 0x100000 \<and>
     (\<forall>f \<in> set fs. f \<noteq> 0 \<and> f < MMNumberOfPhysicalPages s \<and> RefCount s f = 0)"

lemma pfn_upd_sel [simp]:
  "pde (set_pfn_list l s) = pde s" "pte (set_pfn_list l s) = pte s"
  "tables_ok (set_pfn_list l s) = tables_ok s" "self_map (set_pfn_list l s) = self_map s"
  "pfn_list (set_pfn_list l s) = l" "RefCount (set_pfn_list l s) = RefCount s"
  "PteAddress (set_pfn_list l s) = PteAddress s" "PhysMem (set_pfn_list l s) = PhysMem s"
  "MMNumberOfPhysicalPages (set_pfn_list l s) = MMNumberOfPhysicalPages s"
  "ke_state.truncate (set_pfn_list l s) = ke_state.truncate s"
  "MiSystemPteBitmap (set_pfn_list l s) = MiSystemPteBitmap s" "Cr3 (set_pfn_list l s) = Cr3 s"
  by (simp_all add: set_pfn_list_def pfn_list_def pde_def [abs_def] pte_def [abs_def] page_dir_def
      tables_ok_def self_map_def ke_state.truncate_def)

lemma ref_upd_sel [simp]:
  "pde (s\<lparr>RefCount := r\<rparr>) = pde s" "pte (s\<lparr>RefCount := r\<rparr>) = pte s"
  "tables_ok (s\<lparr>RefCount := r\<rparr>) = tables_ok s" "self_map (s\<lparr>RefCount := r\<rparr>) = self_map s"
  "pfn_list (s\<lparr>RefCount := r\<rparr>) = pfn_list s"
  "pde (s\<lparr>PteAddress := a\<rparr>) = pde s" "pte (s\<lparr>PteAddress := a\<rparr>) = pte s"
  "tables_ok (s\<lparr>PteAddress := a\<rparr>) = tables_ok s" "self_map (s\<lparr>PteAddress := a\<rparr>) = self_map s"
  "pfn_list (s\<lparr>PteAddress := a\<rparr>) = pfn_list s"
  by (simp_all add: pfn_list_def pde_def [abs_def] pte_def [abs_def] page_dir_def tables_ok_def self_map_def)

lemma pfn_list_set_entry [simp]: "pfn_list (set_entry f i w s) = pfn_list s"
  by (simp add: pfn_list_def)

lemma MmAllocatePFN_Cons:
  assumes "klist_rep (pfn_list s) (f # fs)"
  obtains l where "klist_rep l fs"
    and "MmAllocatePFN a s =
      Inr (STATUS_SUCCESS, Some f, (set_pfn_list l s)\<lparr>PteAddress := (PteAddress s)(f := a)\<rparr>)"
  using LIST_REMOVE_HEAD_correct [OF assms] by (auto simp: MmAllocatePFN_def)

lemma MmAllocatePFN_Nil:
  assumes "klist_rep (pfn_list s) []"
  shows "MmAllocatePFN a s = Inr (STATUS_NO_MEMORY, None, s)"
proof -
  have "LIST_REMOVE_HEAD (pfn_list s) = Inr (None, pfn_list s)"
    using assms by (cases "pfn_list s") (simp add: klist_rep_def LIST_REMOVE_HEAD_def)
  then show ?thesis by (simp add: MmAllocatePFN_def set_pfn_list_def pfn_list_def)
qed

lemma MiIncReferencePFN_eq:
  "f < MMNumberOfPhysicalPages s \<Longrightarrow>
    MiIncReferencePFN f s = Inr (s\<lparr>RefCount := (RefCount s)(f := RefCount s f + 1)\<rparr>)"
  by (simp add: MiIncReferencePFN_def set_ref_def pfn_access_def)

lemma MiDecReferencePFN_eq:
  assumes "free_frames s fs" and "f < MMNumberOfPhysicalPages s" and "RefCount s f \<noteq> 0"
  obtains l where "klist_rep l (if RefCount s f = 1 then f # fs else fs)"
    and "MiDecReferencePFN f s = Inr ((set_pfn_list l s)\<lparr>RefCount := (RefCount s)(f := RefCount s f - 1)\<rparr>)"
proof (cases "RefCount s f = 1")
  case True
  have "f \<notin> set fs" using assms by (auto simp: free_frames_def)
  then obtain l where "LIST_INSERT_HEAD f (pfn_list s) = Inr l" "klist_rep l (f # fs)"
    using LIST_INSERT_HEAD_correct [of "pfn_list s" fs f] assms(1) by (auto simp: free_frames_def)
  with True assms(2) show thesis
    by (intro that [of l])
      (simp_all add: MiDecReferencePFN_def set_ref_def pfn_access_def MiFreePFN_def set_pfn_list_def)
next
  case False
  have "set_pfn_list (pfn_list s) s = s" by (simp add: set_pfn_list_def pfn_list_def)
  moreover have "RefCount s f - 1 \<noteq> 0" using False by simp
  ultimately show thesis using assms False
    by (intro that [of "pfn_list s"]) (simp_all add: MiDecReferencePFN_def set_ref_def pfn_access_def free_frames_def)
qed

section \<open>One page\<close>

lemma current_directory:
  assumes "self_map s"
  shows "IsCurrentPageDirectory MM_PDE_ADDRESS s = Inr True"
proof -
  have "PDX MM_PDE_ADDRESS = 768" by (simp add: PDX_def)
  then have "Valid (pde s MM_PDE_ADDRESS)" using assms by (simp add: self_map_def pde_def)
  then show ?thesis
    using vread_pte [OF assms, of MM_PDE_ADDRESS] by (simp add: IsCurrentPageDirectory_def MmGetPhysicalAddress_def)
qed

lemma not_foreign: "self_map s \<Longrightarrow> foreign_user_page MM_PDE_ADDRESS a s = Inr False"
  by (simp add: foreign_user_page_def current_directory)

lemma MiRemovePage_eq:
  assumes ok: "tables_ok s" and fr: "free_frames s fs" and al: "IsPageAlignedAddress a"
    and v: "Valid (pde s a)" "Valid (pte s a)" and n: "PDX a \<noteq> 768"
    and f: "f = PageFrameNumber (pte s a)" "f < MMNumberOfPhysicalPages s" "RefCount s f \<noteq> 0"
  obtains l where "klist_rep l (if RefCount s f = 1 then f # fs else fs)"
    and "MiRemovePage MM_PDE_ADDRESS a s = Inr (STATUS_SUCCESS,
      set_entry (PageFrameNumber (pde s a)) (PTX a) 0
        ((set_pfn_list l s)\<lparr>RefCount := (RefCount s)(f := RefCount s f - 1)\<rparr>))"
proof -
  obtain l where l: "klist_rep l (if RefCount s f = 1 then f # fs else fs)"
    "MiDecReferencePFN f s = Inr ((set_pfn_list l s)\<lparr>RefCount := (RefCount s)(f := RefCount s f - 1)\<rparr>)"
    using MiDecReferencePFN_eq [OF fr f(2,3)] by blast
  have sm: "self_map s" by (rule tables_okD(1) [OF ok])
  have "MiPhysicalAddresstoPFN (push_bit 12 (PageFrameNumber (pte s a))) = f"
    using drop_push_bit [OF PageFrameNumber_shift] f(1) by (simp add: MiPhysicalAddresstoPFN_def)
  then have "MiRemovePage MM_PDE_ADDRESS a s = Inr (STATUS_SUCCESS,
      set_entry (PageFrameNumber (pde s a)) (PTX a) 0
        ((set_pfn_list l s)\<lparr>RefCount := (RefCount s)(f := RefCount s f - 1)\<rparr>))"
    using al v sm l(2) by (simp add: MiRemovePage_def not_foreign vread_pde vread_pte vwrite_pte)
  with l(1) show thesis by (rule that)
qed

definition map_page :: "PVOID \<Rightarrow> frame \<Rightarrow> ULONG \<Rightarrow> 'a mm_state_scheme \<Rightarrow> 'a mm_state_scheme" where
  "map_page a f perm s =
     (set_entry (PageFrameNumber (pde s a)) (PTX a) (MiPFNtoPhysicalAddress f OR perm OR PTE_P) s)
       \<lparr>RefCount := (RefCount s)(f := RefCount s f + 1)\<rparr>"

lemma insert_frame_fresh:
  assumes ok: "tables_ok s" and v: "Valid (pde s a)" and n: "PDX a \<noteq> 768" and z: "pte s a = 0"
    and f: "f \<noteq> 0" "f < MMNumberOfPhysicalPages s"
  shows "insert_frame MM_PDE_ADDRESS a f perm s = Inr (STATUS_SUCCESS, map_page a f perm s)"
proof -
  have sm: "self_map s" by (rule tables_okD(1) [OF ok])
  let ?s = "set_entry (PageFrameNumber (pde s a)) (PTX a) (MiPFNtoPhysicalAddress f OR perm OR PTE_P) s"
  have "self_map ?s" using set_pte_frame(2) [OF ok v n] tables_okD(1) by blast
  moreover have "PageFrameNumber 0 = 0" by (simp add: PageFrameNumber_def)
  ultimately show ?thesis
    using sm v z f by (simp add: insert_frame_def vread_pte vwrite_pte MiIncReferencePFN_eq InvalidateTLB_def
        current_directory map_page_def)
qed

lemma MiInsertPage_fresh:
  assumes "tables_ok s" and "Valid (pde s a)" and "PDX a \<noteq> 768" and "pte s a = 0"
    and "f \<noteq> 0" and "f < MMNumberOfPhysicalPages s"
  shows "MiInsertPage MM_PDE_ADDRESS a (Some f) perm s = Inr (STATUS_SUCCESS, map_page a f perm s)"
  using assms tables_okD(1) [OF assms(1)]
  by (simp add: MiInsertPage_def not_foreign vread_pde insert_frame_fresh)

lemma map_page_entries:
  assumes "tables_ok s" and "Valid (pde s a)" and "PDX a \<noteq> 768"
  shows "pde (map_page a f perm s) = pde s" and "tables_ok (map_page a f perm s)"
    and "Valid (pde s b) \<Longrightarrow> pte (map_page a f perm s) b =
      (if unat b div 4096 = unat a div 4096 then MiPFNtoPhysicalAddress f OR perm OR PTE_P else pte s b)"
  using set_pte_frame [OF assms] same_page_iff [of b a] by (auto simp: map_page_def fun_eq_iff)

section \<open>Ranges\<close>

text \<open>\<open>mm_core\<close> erases what page operations may change; two states with the same core differ in nothing else.\<close>

definition mm_core :: "'a mm_state_scheme \<Rightarrow> 'a mm_state_scheme" where
  "mm_core s = s\<lparr>PhysMem := \<lambda>_ _. 0, RefCount := \<lambda>_. 0, PteAddress := \<lambda>_. 0,
     PfnLink := \<lparr>le_next = \<lambda>_. None, le_prev = \<lambda>_. None\<rparr>, PfnFreeList := LIST_INIT\<rparr>"

lemma mm_core_upd [simp]:
  "mm_core (map_page a f perm s) = mm_core s" "mm_core (set_entry g i w s) = mm_core s"
  "mm_core (set_pfn_list l s) = mm_core s" "mm_core (s\<lparr>RefCount := r\<rparr>) = mm_core s"
  "mm_core (s\<lparr>PteAddress := q\<rparr>) = mm_core s"
  by (simp_all add: mm_core_def map_page_def set_entry_def set_pfn_list_def)

lemma mm_core_sel:
  assumes "mm_core s' = mm_core s"
  shows "Cr3 s' = Cr3 s" and "MMNumberOfPhysicalPages s' = MMNumberOfPhysicalPages s"
    and "MiSystemPteBitmap s' = MiSystemPteBitmap s" and "MemManagerTestingON s' = MemManagerTestingON s"
    and "GlobalPgdir s' = GlobalPgdir s" and "ke_state.truncate s' = ke_state.truncate s"
    and "page_dir s' = page_dir s"
proof -
  have "Cr3 (mm_core s) = Cr3 s" "MMNumberOfPhysicalPages (mm_core s) = MMNumberOfPhysicalPages s"
    "MiSystemPteBitmap (mm_core s) = MiSystemPteBitmap s" "MemManagerTestingON (mm_core s) = MemManagerTestingON s"
    "GlobalPgdir (mm_core s) = GlobalPgdir s" "ke_state.truncate (mm_core s) = ke_state.truncate s"
    "page_dir (mm_core s) = page_dir s" for s :: "'a mm_state_scheme"
    by (simp_all add: mm_core_def ke_state.truncate_def page_dir_def)
  with assms show "Cr3 s' = Cr3 s" "MMNumberOfPhysicalPages s' = MMNumberOfPhysicalPages s"
    "MiSystemPteBitmap s' = MiSystemPteBitmap s" "MemManagerTestingON s' = MemManagerTestingON s"
    "GlobalPgdir s' = GlobalPgdir s" "ke_state.truncate s' = ke_state.truncate s" "page_dir s' = page_dir s"
    by metis+
qed

definition pageno :: "PVOID \<Rightarrow> nat" where
  "pageno a = unat a div 4096"

definition page_at :: "PVOID \<Rightarrow> nat \<Rightarrow> PVOID" where
  "page_at va k = va + of_nat (4096 * k)"

text \<open>Whole pages with page tables, outside the page table area and without wrapping.\<close>

definition range_ok :: "'a mm_state_scheme \<Rightarrow> PVOID \<Rightarrow> nat \<Rightarrow> bool" where
  "range_ok s va n \<longleftrightarrow> IsPageAlignedAddress va \<and> unat va + 4096 * n \<le> 2 ^ 32 \<and>
     (\<forall>k < n. Valid (pde s (page_at va k)) \<and> PDX (page_at va k) \<noteq> 768)"

lemma page_at_unat:
  assumes "unat va + 4096 * n \<le> 2 ^ 32" and "k < n"
  shows "unat (page_at va k) = unat va + 4096 * k"
proof -
  have k: "unat va + 4096 * k < 2 ^ 32" using assms by simp
  then have "unat (of_nat (4096 * k) :: ULONG) = 4096 * k" by (intro unat_of_nat32) simp
  with k show ?thesis by (simp add: page_at_def unat_add_no_wrap)
qed

lemma range_ok_page:
  assumes "range_ok s va n" and "k < n"
  shows "pageno (page_at va k) = pageno va + k" and "IsPageAlignedAddress (page_at va k)"
    and "Valid (pde s (page_at va k))" and "PDX (page_at va k) \<noteq> 768"
proof -
  have u: "unat (page_at va k) = unat va + 4096 * k"
    using assms by (intro page_at_unat) (auto simp: range_ok_def)
  show "pageno (page_at va k) = pageno va + k" by (simp add: pageno_def u)
  have "unat va mod 4096 = 0" using assms(1) unat_PGOFF [of va] by (simp add: range_ok_def IsPageAlignedAddress_def)
  then have "unat (PGOFF (page_at va k)) = 0" by (simp add: unat_PGOFF u)
  then show "IsPageAlignedAddress (page_at va k)" by (simp add: IsPageAlignedAddress_def unat_eq_zero)
  show "Valid (pde s (page_at va k))" "PDX (page_at va k) \<noteq> 768" using assms by (auto simp: range_ok_def)
qed

lemma page_offsets_whole:
  assumes "unat Size = 4096 * n"
  shows "page_offsets (ROUNDUP Size PGSIZE) = map (\<lambda>k. of_nat (4096 * k)) [0..<n]"
proof -
  have lt: "4096 * n < 2 ^ 32" using unat_ULONG_less [of Size] assms by simp
  then have "n < 2 ^ 20" by simp
  then have "4096 * n + 4095 < 2 ^ 32" by simp
  then have "unat (ROUNDUP Size PGSIZE) = (4096 * n + 4095) div 4096 * 4096"
    using unat_ROUNDUP [of PGSIZE Size] assms by simp
  then show ?thesis by (simp add: page_offsets_def)
qed

definition in_pages :: "PVOID \<Rightarrow> nat \<Rightarrow> PVOID \<Rightarrow> bool" where
  "in_pages va n b \<longleftrightarrow> pageno va \<le> pageno b \<and> pageno b < pageno va + n"

definition page_entry :: "frame \<Rightarrow> ULONG \<Rightarrow> MMPTE" where
  "page_entry f perm = MiPFNtoPhysicalAddress f OR perm OR PTE_P"

lemma valloc_body_step:
  assumes ok: "tables_ok s" and v: "Valid (pde s a)" and n: "PDX a \<noteq> 768" and z: "pte s a = 0"
    and a: "a = va + i" and fr: "free_frames s (f # fs)"
  shows "\<exists>s'. valloc_body va perm i s = Inr s' \<and> tables_ok s' \<and> pde s' = pde s \<and> mm_core s' = mm_core s \<and>
    free_frames s' fs \<and> RefCount s' = (RefCount s)(f := 1) \<and>
    (\<forall>b. Valid (pde s b) \<longrightarrow> pte s' b = (if pageno b = pageno a then page_entry f (perm OR PTE_P) else pte s b))"
proof -
  have rep: "klist_rep (pfn_list s) (f # fs)" using fr by (simp add: free_frames_def)
  obtain l where l: "klist_rep l fs" "MmAllocatePFN (MmGetPteAddress (va + i)) s =
      Inr (STATUS_SUCCESS, Some f, (set_pfn_list l s)\<lparr>PteAddress := (PteAddress s)(f := MmGetPteAddress (va + i))\<rparr>)"
    using MmAllocatePFN_Cons [OF rep] by blast
  let ?s = "(set_pfn_list l s)\<lparr>PteAddress := (PteAddress s)(f := MmGetPteAddress (va + i))\<rparr>"
  let ?t = "map_page a f (perm OR PTE_P) ?s"
  have f: "f \<noteq> 0" "f < MMNumberOfPhysicalPages s" "RefCount s f = 0" using fr by (auto simp: free_frames_def)
  have "distinct (f # fs)" using rep by (simp add: klist_rep_def ring_def)
  then have "free_frames ?t fs" using fr l(1) by (auto simp: free_frames_def map_page_def)
  moreover have "MiInsertPage MM_PDE_ADDRESS (va + i) (Some f) (perm OR PTE_P) ?s = Inr (STATUS_SUCCESS, ?t)"
    unfolding a [symmetric] using ok v n z f by (intro MiInsertPage_fresh) auto
  then have "valloc_body va perm i s = Inr ?t" using l(2) by (simp add: valloc_body_def)
  moreover have "RefCount ?t = (RefCount s)(f := 1)" using f(3) by (simp add: map_page_def)
  moreover have "tables_ok ?s" "Valid (pde ?s a)" using ok v by simp_all
  note map_page_entries(1,2) [OF this n, of f "perm OR PTE_P"]
  moreover note map_page_entries(3) [OF \<open>tables_ok ?s\<close> \<open>Valid (pde ?s a)\<close> n, of _ f "perm OR PTE_P"]
  ultimately show ?thesis
    by (intro exI [of _ ?t]) (simp add: pageno_def page_entry_def)
qed

lemma valloc_loop:
  assumes ok: "tables_ok s" and r: "range_ok s va n" and z: "\<forall>k < n. pte s (page_at va k) = 0"
    and fr: "free_frames s fs" and len: "n \<le> length fs"
  shows "\<exists>s'. foldE (valloc_body va perm) (map (\<lambda>k. of_nat (4096 * k)) [0..<n]) s = Inr s' \<and>
    tables_ok s' \<and> pde s' = pde s \<and> mm_core s' = mm_core s \<and> free_frames s' (drop n fs) \<and>
    RefCount s' = (\<lambda>f. if f \<in> set (take n fs) then 1 else RefCount s f) \<and>
    (\<forall>b. Valid (pde s b) \<longrightarrow> pte s' b =
      (if in_pages va n b then page_entry (fs ! (pageno b - pageno va)) (perm OR PTE_P) else pte s b))"
  using r z len
proof (induction n)
  case 0
  then show ?case using ok fr by (auto simp: in_pages_def)
next
  case (Suc n)
  have "range_ok s va n" using Suc.prems(1) by (simp add: range_ok_def)
  then obtain s1 where s1: "foldE (valloc_body va perm) (map (\<lambda>k. of_nat (4096 * k)) [0..<n]) s = Inr s1"
    "tables_ok s1" "pde s1 = pde s" "mm_core s1 = mm_core s" "free_frames s1 (drop n fs)"
    "RefCount s1 = (\<lambda>f. if f \<in> set (take n fs) then 1 else RefCount s f)"
    "\<forall>b. Valid (pde s b) \<longrightarrow> pte s1 b =
      (if in_pages va n b then page_entry (fs ! (pageno b - pageno va)) (perm OR PTE_P) else pte s b)"
    using Suc.IH Suc.prems by auto
  let ?a = "page_at va n"
  note p = range_ok_page [OF Suc.prems(1) lessI]
  have "\<not> in_pages va n ?a" using p(1) by (simp add: in_pages_def)
  then have z1: "pte s1 ?a = 0" using s1(7) p(3) Suc.prems(2) by simp
  have d: "drop n fs = fs ! n # drop (Suc n) fs" using Suc.prems(3) by (simp add: Cons_nth_drop_Suc)
  obtain s2 where s2: "valloc_body va perm (of_nat (4096 * n)) s1 = Inr s2" "tables_ok s2" "pde s2 = pde s1"
    "mm_core s2 = mm_core s1" "free_frames s2 (drop (Suc n) fs)" "RefCount s2 = (RefCount s1)(fs ! n := 1)"
    "\<forall>b. Valid (pde s1 b) \<longrightarrow> pte s2 b =
      (if pageno b = pageno ?a then page_entry (fs ! n) (perm OR PTE_P) else pte s1 b)"
    using valloc_body_step [of s1 ?a va "of_nat (4096 * n)" "fs ! n" "drop (Suc n) fs" perm] s1 p z1 d
    by (auto simp: page_at_def)
  have take: "take (Suc n) fs = take n fs @ [fs ! n]" using Suc.prems(3) by (simp add: take_Suc_conv_app_nth)
  have "pte s2 b = (if in_pages va (Suc n) b then page_entry (fs ! (pageno b - pageno va)) (perm OR PTE_P)
      else pte s b)" if "Valid (pde s b)" for b
    using that s2(7) s1(3,7) p(1) by (auto simp: in_pages_def)
  then show ?case using s1 s2 take by (auto simp: foldE_append fun_eq_iff)
qed

definition vfree_body :: "PVOID \<Rightarrow> ULONG \<Rightarrow> 'a mm_state_scheme \<Rightarrow> fault + 'a mm_state_scheme" where
  "vfree_body va i s = bind (MiRemovePage MM_PDE_ADDRESS (va + i) s) (\<lambda>(_, s). Inr s)"

lemma vfree_body_step:
  assumes ok: "tables_ok s" and fr: "free_frames s fs" and al: "IsPageAlignedAddress a" and a: "a = va + i"
    and v: "Valid (pde s a)" "Valid (pte s a)" and n: "PDX a \<noteq> 768"
    and f: "PageFrameNumber (pte s a) = f" "f \<noteq> 0" "f < MMNumberOfPhysicalPages s" "RefCount s f = 1"
  shows "\<exists>s'. vfree_body va i s = Inr s' \<and> tables_ok s' \<and> pde s' = pde s \<and> mm_core s' = mm_core s \<and>
    free_frames s' (f # fs) \<and> RefCount s' = (RefCount s)(f := 0) \<and>
    (\<forall>b. Valid (pde s b) \<longrightarrow> pte s' b = (if pageno b = pageno a then 0 else pte s b))"
proof -
  obtain l where l: "klist_rep l (f # fs)" "MiRemovePage MM_PDE_ADDRESS a s = Inr (STATUS_SUCCESS,
      set_entry (PageFrameNumber (pde s a)) (PTX a) 0 ((set_pfn_list l s)\<lparr>RefCount := (RefCount s)(f := 0)\<rparr>))"
    using MiRemovePage_eq [OF ok fr al v n f(1) [symmetric] f(3)] f(4) by auto
  let ?u = "(set_pfn_list l s)\<lparr>RefCount := (RefCount s)(f := 0)\<rparr>"
  let ?t = "set_entry (PageFrameNumber (pde s a)) (PTX a) 0 ?u"
  have u: "tables_ok ?u" "Valid (pde ?u a)" "PDX a \<noteq> 768" using ok v n by simp_all
  have "pde ?t = pde s" using set_pte_frame(1) [OF u, of 0] by (simp add: fun_eq_iff)
  moreover have "tables_ok ?t" using set_pte_frame(2) [OF u, of 0] by simp
  moreover have "pte ?t b = (if pageno b = pageno a then 0 else pte s b)" if "Valid (pde s b)" for b
    using set_pte_frame(3) [OF u, of b 0] that same_page_iff [of b a] by (simp add: pageno_def)
  moreover have "free_frames ?t (f # fs)"
    using fr l(1) f by (auto simp: free_frames_def)
  ultimately show ?thesis
    using l(2) a by (intro exI [of _ ?t]) (simp add: vfree_body_def)
qed

lemma vfree_loop:
  assumes ok: "tables_ok s" and fr: "free_frames s fs" and r: "range_ok s va n"
    and g: "length gs = n" "distinct gs"
    and m: "\<forall>k < n. Valid (pte s (page_at va k)) \<and> PageFrameNumber (pte s (page_at va k)) = gs ! k \<and>
      gs ! k \<noteq> 0 \<and> gs ! k < MMNumberOfPhysicalPages s \<and> RefCount s (gs ! k) = 1"
  shows "\<exists>s'. foldE (vfree_body va) (map (\<lambda>k. of_nat (4096 * k)) [0..<n]) s = Inr s' \<and>
    tables_ok s' \<and> pde s' = pde s \<and> mm_core s' = mm_core s \<and> free_frames s' (rev gs @ fs) \<and>
    RefCount s' = (\<lambda>f. if f \<in> set gs then 0 else RefCount s f) \<and>
    (\<forall>b. Valid (pde s b) \<longrightarrow> pte s' b = (if in_pages va n b then 0 else pte s b))"
  using r g m
proof (induction n arbitrary: gs)
  case 0
  then show ?case using ok fr by (auto simp: in_pages_def)
next
  case (Suc n)
  obtain hs h where gs: "gs = hs @ [h]" "length hs = n"
    using Suc.prems(2) by (metis length_Suc_conv_rev)
  have h: "gs ! n = h" "h \<notin> set hs" "distinct hs" using gs Suc.prems(3) by auto
  have nth: "gs ! k = hs ! k" if "k < n" for k using gs that by (simp add: nth_append)
  have r: "range_ok s va n" using Suc.prems(1) by (simp add: range_ok_def)
  have m: "\<forall>k < n. Valid (pte s (page_at va k)) \<and> PageFrameNumber (pte s (page_at va k)) = hs ! k \<and>
      hs ! k \<noteq> 0 \<and> hs ! k < MMNumberOfPhysicalPages s \<and> RefCount s (hs ! k) = 1"
    using Suc.prems(4) nth by (metis less_Suc_eq)
  obtain s1 where s1: "foldE (vfree_body va) (map (\<lambda>k. of_nat (4096 * k)) [0..<n]) s = Inr s1"
    "tables_ok s1" "pde s1 = pde s" "mm_core s1 = mm_core s" "free_frames s1 (rev hs @ fs)"
    "RefCount s1 = (\<lambda>f. if f \<in> set hs then 0 else RefCount s f)"
    "\<forall>b. Valid (pde s b) \<longrightarrow> pte s1 b = (if in_pages va n b then 0 else pte s b)"
    using Suc.IH [OF r gs(2) h(3) m] by blast
  let ?a = "page_at va n"
  note p = range_ok_page [OF Suc.prems(1) lessI]
  have "\<not> in_pages va n ?a" using p(1) by (simp add: in_pages_def)
  then have e: "pte s1 ?a = pte s ?a" using s1(7) p(3) by simp
  have hn: "Valid (pte s ?a)" "PageFrameNumber (pte s ?a) = h" "h \<noteq> 0" "h < MMNumberOfPhysicalPages s"
    "RefCount s h = 1" using Suc.prems(4) h(1) by auto
  have N: "h < MMNumberOfPhysicalPages s1" using hn(4) mm_core_sel(2) [OF s1(4)] by simp
  have v1: "Valid (pde s1 ?a)" "Valid (pte s1 ?a)" "PageFrameNumber (pte s1 ?a) = h" "RefCount s1 h = 1"
    using s1(3,6) p(3) e hn h(2) by simp_all
  obtain s2 where s2: "vfree_body va (of_nat (4096 * n)) s1 = Inr s2" "tables_ok s2" "pde s2 = pde s1"
    "mm_core s2 = mm_core s1" "free_frames s2 (h # rev hs @ fs)" "RefCount s2 = (RefCount s1)(h := 0)"
    "\<forall>b. Valid (pde s1 b) \<longrightarrow> pte s2 b = (if pageno b = pageno ?a then 0 else pte s1 b)"
    using vfree_body_step [OF s1(2,5) p(2) page_at_def v1(1,2) p(4) v1(3) hn(3) N v1(4)] by blast
  have "pte s2 b = (if in_pages va (Suc n) b then 0 else pte s b)" if "Valid (pde s b)" for b
    using that s2(7) s1(3,7) p(1) by (auto simp: in_pages_def)
  then show ?case using s1 s2 gs by (auto simp: foldE_append fun_eq_iff)
qed

lemma MmVirtualFree_body: "MmVirtualFree va Size s = foldE (vfree_body va) (page_offsets (ROUNDUP Size PGSIZE)) s"
  by (simp add: MmVirtualFree_def vfree_body_def [abs_def])

lemma MmVirtualAlloc_correct:
  assumes ok: "tables_ok s" and r: "range_ok s va n" and z: "\<forall>k < n. pte s (page_at va k) = 0"
    and fr: "free_frames s fs" and len: "n \<le> length fs" and sz: "unat Size = 4096 * n"
  shows "\<exists>s'. MmVirtualAlloc va Size perm s = Inr (STATUS_SUCCESS, s') \<and>
    tables_ok s' \<and> pde s' = pde s \<and> mm_core s' = mm_core s \<and> free_frames s' (drop n fs) \<and>
    RefCount s' = (\<lambda>f. if f \<in> set (take n fs) then 1 else RefCount s f) \<and>
    (\<forall>b. Valid (pde s b) \<longrightarrow> pte s' b =
      (if in_pages va n b then page_entry (fs ! (pageno b - pageno va)) (perm OR PTE_P) else pte s b))"
  using valloc_loop [OF ok r z fr len, of perm] page_offsets_whole [OF sz]
  by (auto simp: MmVirtualAlloc_def)

lemma page_entry_frame:
  assumes "f < 0x100000" and "perm < 4096"
  shows "PageFrameNumber (page_entry f (perm OR PTE_P)) = f" and "Valid (page_entry f (perm OR PTE_P))"
proof -
  have p: "(perm OR PTE_P) OR PTE_P = perm OR PTE_P" by (simp add: or.assoc)
  have "perm OR PTE_P < 4096"
  proof -
    have "perm = take_bit 12 perm" using assms(2)
      by (simp add: take_bit_eq_mod word_unat_eq_iff unat_mod word_less_nat_alt)
    then have "perm OR PTE_P = take_bit 12 (perm OR PTE_P)" by (simp add: take_bit_or)
    moreover have "unat (take_bit 12 (perm OR PTE_P)) < 4096"
      by (simp only: take_bit_eq_mask unat_and_mask) simp
    ultimately have "unat (perm OR PTE_P) < 4096" by simp
    then show ?thesis by (simp add: word_less_nat_alt)
  qed
  then show "PageFrameNumber (page_entry f (perm OR PTE_P)) = f"
    using PageFrameNumber_pack [OF assms(1)] p by (simp add: page_entry_def MiPFNtoPhysicalAddress_def)
  show "Valid (page_entry f (perm OR PTE_P))" by (simp add: page_entry_def Valid_pack)
qed

end
