(* ===== verification/MmProps.thy ===== *)
theory MmProps
  imports Mm
begin

text \<open>
  What the memory manager promises: the self map reaches the right entries, a range allocated with
  \<open>MmVirtualAlloc\<close> is mapped to private frames and freeing it restores the address space, the system
  PTE pool hands out disjoint page-aligned ranges, and the page fault handler resolves a
  copy-on-write fault.
\<close>

section \<open>A small machine\<close>

text \<open>
  Directory in frame 1, page tables for the start of the system PTE area, the first user pages and
  the temporary area in frames 2 to 4, five free frames.
\<close>

definition small_mem :: pmem where
  "small_mem f i =
     (if f = 1 then (if i = 768 then 0x1003 else if i = 534 then 0x2003 else if i = 2 then 0x3007
        else if i = 1 then 0x4007 else 0)
      else if f = 3 \<and> i = 0 then 0xA805
      else if f = 10 then i + 7 else 0)"

definition small_links :: "frame links" where
  "small_links = \<lparr>le_next = (\<lambda>p. Some (if p = 5 then 6 else if p = 6 then 7 else 5)),
     le_prev = (\<lambda>p. Some (if p = 5 then 7 else if p = 6 then 5 else 6))\<rparr>"

definition small_mm :: mm_state where
  "small_mm = gdt_state.extend reset_gdt (mm_state.fields small_mem 0x1000 (\<lambda>_. 0)
     (\<lambda>f. if f \<in> {5, 6, 7} then 0 else if f = 10 then 2 else 1) small_links
     \<lparr>lh_first = Some 5, NumberOfElements = 3\<rparr> 0x10000000 0x10000 0xA0000 0x1000 MM_PDE_ADDRESS 0x80200000
     \<lparr>BitCount = 8, bits = [0]\<rparr> False)"

lemma small_mm_sel [simp]:
  "PhysMem small_mm = small_mem" "Cr3 small_mm = 0x1000" "page_dir small_mm = 1"
  "pfn_list small_mm = (small_links, \<lparr>lh_first = Some 5, NumberOfElements = 3\<rparr>)"
  "RefCount small_mm = (\<lambda>f. if f \<in> {5, 6, 7} then 0 else if f = 10 then 2 else 1)"
  "MMNumberOfPhysicalPages small_mm = 0x10000" "MiSystemPteBitmap small_mm = \<lparr>BitCount = 8, bits = [0]\<rparr>"
  "ke_state.truncate small_mm = boot_state" "GlobalPgdir small_mm = MM_PDE_ADDRESS"
  "MemManagerTestingON small_mm = False"
  by (simp_all add: small_mm_def ke_state.extend_def mm_state.fields_def gdt_state.extend_def reset_gdt_def gdt_state.fields_def page_dir_def PPN_def pfn_list_def
      ke_state.truncate_def)

lemma small_free: "free_frames small_mm [5, 6, 7]"
  by (auto simp: free_frames_def klist_rep_def ring_def small_links_def)

lemma small_pde: "pde small_mm va = small_mem 1 (PDX va)"
  by (simp add: pde_def)

lemma Valid_numerals [simp]:
  "Valid 0x1003" "Valid 0x2003" "Valid 0x3007" "Valid 0x4007" "Valid 0xA805" "\<not> Valid 0"
  by (simp_all add: Valid_def)

lemma Frame_numerals [simp]:
  "PageFrameNumber 0x1003 = 1" "PageFrameNumber 0x2003 = 2" "PageFrameNumber 0x3007 = 3"
  "PageFrameNumber 0x4007 = 4" "PageFrameNumber 0xA805 = 10" "PageFrameNumber 0 = 0"
  by (simp_all add: PageFrameNumber_def)

lemma small_tables: "tables_ok small_mm"
  by (auto simp: tables_ok_def self_map_def small_mem_def)

section \<open>Properties\<close>

text \<open>With slot 768 of the directory pointing at the directory, the kernel address
  \<open>MmGetPdeAddress(va)\<close> reads the directory entry of \<open>va\<close>; \<open>MmGetPteAddress(va)\<close> reads its page table entry
  when the directory entry is valid and faults otherwise; and \<open>MiGetVitualAddressFromPTE\<close> maps the
  entry's address back to the page of \<open>va\<close>.\<close>

theorem self_map_reaches_entries:
  assumes "self_map s"
  shows "vread (MmGetPdeAddress va) s = Inr (PhysMem s (PPN (Cr3 s)) (PDX va)) \<and>
    vread (MmGetPteAddress va) s =
      (let Pde = PhysMem s (PPN (Cr3 s)) (PDX va)
       in if Valid Pde then Inr (PhysMem s (PageFrameNumber Pde) (PTX va)) else Inl page_fault) \<and>
    MiGetVitualAddressFromPTE (MmGetPteAddress va) = ROUNDDOWN va PGSIZE"
proof -
  have "unat (MiGetVitualAddressFromPTE (MmGetPteAddress va)) =
      (unat (MmGetPteAddress va) * 1024) mod 2 ^ 32"
    by (simp add: MiGetVitualAddressFromPTE_def push_bit_eq_mult unat_word_ariths)
  also have "unat (MmGetPteAddress va) * 1024 = unat va div 4096 * 4096 + 768 * 2 ^ 32"
    by (simp add: unat_MmGetPteAddress)
  also have "(unat va div 4096 * 4096 + 768 * 2 ^ 32) mod 2 ^ 32 = (unat va div 4096 * 4096) mod 2 ^ 32"
    by (simp only: mod_mult_self1)
  also have "\<dots> = unat va div 4096 * 4096"
    using unat_ULONG_less [of va] by (intro mod_less) (metis div_times_less_eq_dividend order_le_less_trans)
  finally have "MiGetVitualAddressFromPTE (MmGetPteAddress va) = ROUNDDOWN va PGSIZE"
    by (simp add: word_unat_eq_iff unat_ROUNDDOWN)
  then show ?thesis
    using vread_pde [OF assms, of va] vread_pte [OF assms, of va] translate_PteAddress [OF assms, of va]
    by (auto simp: pde_def pte_def page_dir_def vread_def Let_def)
qed

theorem self_map_reaches_entries_witness:
  "vread (MmGetPteAddress 0x85800000) small_mm = Inr 0 \<and> vread (MmGetPdeAddress 0x85800000) small_mm = Inr 0x2003"
  using self_map_reaches_entries [OF tables_okD(1) [OF small_tables], of "0x85800000"]
  by (simp add: PDX_def PTX_def PPN_def small_mem_def)

section \<open>Ranges of pages\<close>

lemma free_frame_bounds:
  assumes "free_frames s fs" and "k < length fs"
  shows "fs ! k \<noteq> 0 \<and> fs ! k < MMNumberOfPhysicalPages s \<and> fs ! k < 0x100000"
proof -
  have "fs ! k \<in> set fs" using assms(2) by simp
  then have "fs ! k \<noteq> 0 \<and> fs ! k < MMNumberOfPhysicalPages s" "MMNumberOfPhysicalPages s \<le> 0x100000"
    using assms(1) by (auto simp: free_frames_def)
  then show ?thesis by (meson order_less_le_trans)
qed

lemma page_of_range:
  assumes "range_ok s va n" and "in_pages va n b"
  shows "\<exists>k < n. k = pageno b - pageno va \<and> PDX b = PDX (page_at va k) \<and> PTX b = PTX (page_at va k)"
proof -
  define k where "k = pageno b - pageno va"
  have k: "k < n" "pageno (page_at va k) = pageno b"
    using assms(2) range_ok_page(1) [OF assms(1), of k] by (auto simp: in_pages_def k_def)
  then have "PDX b = PDX (page_at va k) \<and> PTX b = PTX (page_at va k)"
    using same_page_iff by (simp add: pageno_def)
  with k(1) show ?thesis by (auto simp: k_def)
qed

text \<open>What the entries written by an allocation mean for the MMU.\<close>

lemma mapped_translate:
  assumes fr: "free_frames s fs" and len: "n \<le> length fs" and r: "range_ok s va n" and d: "pde s' = pde s"
    and e: "\<forall>b. Valid (pde s b) \<longrightarrow> pte s' b =
      (if in_pages va n b then page_entry (fs ! (pageno b - pageno va)) (perm OR PTE_P) else pte s b)"
    and perm: "perm < 4096"
  shows "translate s' b = (if in_pages va n b then Some (fs ! (pageno b - pageno va)) else translate s b)"
proof (cases "in_pages va n b")
  case True
  then obtain k where k: "k < n" "k = pageno b - pageno va" "PDX b = PDX (page_at va k)" using page_of_range [OF r] by blast
  then have "Valid (pde s b)" using range_ok_page(3) [OF r k(1)] by (simp add: pde_def)
  then show ?thesis
    using True k d e free_frame_bounds [OF fr, of k] len page_entry_frame [OF _ perm] by (simp add: translate_eq)
next
  case False
  then show ?thesis using d e by (auto simp: translate_eq)
qed

text \<open>A range whose page tables exist: allocation and release.\<close>

lemma alloc_free_tables:
  assumes ok: "tables_ok s" and fr: "free_frames s fs" and r: "range_ok s va n"
    and z: "\<forall>k < n. pte s (page_at va k) = 0" and len: "n \<le> length fs"
    and sz: "unat Size = 4096 * n" and perm: "perm < 4096"
  shows "\<exists>s1 s2. MmVirtualAlloc va Size perm s = Inr (STATUS_SUCCESS, s1) \<and>
    (\<forall>b. translate s1 b = (if in_pages va n b then Some (fs ! (pageno b - pageno va)) else translate s b)) \<and>
    (\<forall>k < n. pte s1 (page_at va k) = MiPFNtoPhysicalAddress (fs ! k) OR perm OR PTE_P) \<and>
    (\<forall>f. RefCount s1 f = (if f \<in> set (take n fs) then 1 else RefCount s f)) \<and>
    free_frames s1 (drop n fs) \<and> mm_core s1 = mm_core s \<and>
    MmVirtualFree va Size s1 = Inr s2 \<and> translate s2 = translate s \<and> RefCount s2 = RefCount s \<and>
    free_frames s2 (rev (take n fs) @ drop n fs) \<and> mm_core s2 = mm_core s"
proof -
  obtain s1 where s1: "MmVirtualAlloc va Size perm s = Inr (STATUS_SUCCESS, s1)"
    "tables_ok s1" "pde s1 = pde s" "mm_core s1 = mm_core s" "free_frames s1 (drop n fs)"
    "RefCount s1 = (\<lambda>f. if f \<in> set (take n fs) then 1 else RefCount s f)"
    "\<forall>b. Valid (pde s b) \<longrightarrow> pte s1 b =
      (if in_pages va n b then page_entry (fs ! (pageno b - pageno va)) (perm OR PTE_P) else pte s b)"
    using MmVirtualAlloc_correct [OF ok r z fr len sz, of perm] by blast
  have N: "MMNumberOfPhysicalPages s1 = MMNumberOfPhysicalPages s" by (rule mm_core_sel(2) [OF s1(4)])
  have fk: "fs ! k \<noteq> 0 \<and> fs ! k < MMNumberOfPhysicalPages s \<and> fs ! k < 0x100000" if "k < n" for k
    using free_frame_bounds [OF fr, of k] that len by simp
  note pg = range_ok_page [OF r]
  have inp: "in_pages va n (page_at va k)" "pageno (page_at va k) - pageno va = k" if "k < n" for k
    using pg(1) [OF that] that by (auto simp: in_pages_def)
  have same: "Valid (pde s b) \<and> pte s b = 0" if "in_pages va n b" for b
    using page_of_range [OF r that] pg(3) z by (auto simp: pde_def pte_def)
  have tr1: "translate s1 b = (if in_pages va n b then Some (fs ! (pageno b - pageno va)) else translate s b)" for b
    by (rule mapped_translate [OF fr len r s1(3,7) perm])
  have e1: "pte s1 (page_at va k) = page_entry (fs ! k) (perm OR PTE_P)" if "k < n" for k
    using s1(7) pg(3) [OF that] inp [OF that] by simp
  have r1: "range_ok s1 va n" using r s1(3) by (simp add: range_ok_def)
  have g: "length (take n fs) = n" "distinct (take n fs)"
    using len fr by (auto simp: free_frames_def klist_rep_def ring_def)
  have m: "\<forall>k < n. Valid (pte s1 (page_at va k)) \<and> PageFrameNumber (pte s1 (page_at va k)) = take n fs ! k \<and>
      take n fs ! k \<noteq> 0 \<and> take n fs ! k < MMNumberOfPhysicalPages s1 \<and> RefCount s1 (take n fs ! k) = 1"
    using e1 fk N page_entry_frame [OF _ perm] s1(6) len by (auto simp: in_set_conv_nth)
  obtain s2 where s2: "MmVirtualFree va Size s1 = Inr s2" "pde s2 = pde s1" "mm_core s2 = mm_core s1"
    "free_frames s2 (rev (take n fs) @ drop n fs)"
    "RefCount s2 = (\<lambda>f. if f \<in> set (take n fs) then 0 else RefCount s1 f)"
    "\<forall>b. Valid (pde s1 b) \<longrightarrow> pte s2 b = (if in_pages va n b then 0 else pte s1 b)"
    using vfree_loop [OF s1(2,5) r1 g m] page_offsets_whole [OF sz] by (auto simp: MmVirtualFree_body)
  have "translate s2 = translate s"
    using s2(2,6) s1(3,7) same by (fastforce simp: fun_eq_iff translate_eq)
  moreover have "RefCount s2 = RefCount s"
  proof
    fix f
    have "RefCount s f = 0" if "f \<in> set (take n fs)"
      using that fr by (auto simp: free_frames_def dest: in_set_takeD)
    then show "RefCount s2 f = RefCount s f" using s2(5) s1(6) by auto
  qed
  moreover have "pte s1 (page_at va k) = MiPFNtoPhysicalAddress (fs ! k) OR perm OR PTE_P" if "k < n" for k
    using e1 [OF that] by (simp add: page_entry_def or.assoc)
  ultimately show ?thesis using s1 s2 tr1 by (intro exI [of _ s1] exI [of _ s2]) auto
qed


section \<open>The system PTE pool\<close>

text \<open>
  The invariant of the pool: every page of the area has a page table, no bit of the bitmap lies past
  the area, and a page whose bit is clear is unmapped.
\<close>

definition sysptes_ok :: "'a mm_state_scheme \<Rightarrow> bool" where
  "sysptes_ok s \<longleftrightarrow> tables_ok s \<and> bm_ok (MiSystemPteBitmap s) \<and>
     unat (BitCount (MiSystemPteBitmap s)) \<le> 65536 \<and>
     range_ok s MMSYSPTE_START (unat (BitCount (MiSystemPteBitmap s))) \<and>
     (\<forall>i < unat (BitCount (MiSystemPteBitmap s)).
        \<not> bm_bit (MiSystemPteBitmap s) i \<longrightarrow> pte s (page_at MMSYSPTE_START i) = 0)"

lemma bitmap_more:
  "ke_state.more t = ke_state.more s \<Longrightarrow> MiSystemPteBitmap t = MiSystemPteBitmap s" for s t :: "'a mm_state_scheme"
  by (cases s; cases t) simp

lemma bitmap_upd_more:
  "ke_state.more t = ke_state.more s \<Longrightarrow>
    ke_state.more (t\<lparr>MiSystemPteBitmap := b\<rparr>) = ke_state.more (s\<lparr>MiSystemPteBitmap := b\<rparr>)"
  for s t :: "'a mm_state_scheme"
  by (cases s; cases t) simp

lemma bitmap_upd [simp]:
  "pde (s\<lparr>MiSystemPteBitmap := b\<rparr>) = pde s" "pte (s\<lparr>MiSystemPteBitmap := b\<rparr>) = pte s"
  "tables_ok (s\<lparr>MiSystemPteBitmap := b\<rparr>) = tables_ok s"
  "free_frames (s\<lparr>MiSystemPteBitmap := b\<rparr>) fs = free_frames s fs"
  "range_ok (s\<lparr>MiSystemPteBitmap := b\<rparr>) va n = range_ok s va n"
  by (simp_all add: pde_def [abs_def] pte_def [abs_def] page_dir_def tables_ok_def self_map_def
      free_frames_def pfn_list_def range_ok_def)

text \<open>The section under the spin lock, as one step on the bitmap.\<close>

lemma bitmap_section:
  fixes s :: "'a mm_state_scheme"
  assumes lk: "lockable SystemPteSpinLock s"
    and scan: "BmBitmapScanAndFlip (MiSystemPteBitmap s) 0 n False = Inr (i, b)"
  shows "MmAllocateSystemPtes run (Suc fuel) n s =
    (if i = BITMAP_ERROR then Inr (0, s\<lparr>MiSystemPteBitmap := b\<rparr>)
     else bind (MmVirtualAlloc (MMSYSPTE_START + PGSIZE * i) (n * PGSIZE) PTE_W (s\<lparr>MiSystemPteBitmap := b\<rparr>))
       (\<lambda>(status, s). if \<not> success status then Inr (0, s) else Inr (MMSYSPTE_START + PGSIZE * i, s)))"
proof -
  define body where "body = (\<lambda>t :: 'a mm_state_scheme.
    bind (BmBitmapScanAndFlip (MiSystemPteBitmap t) 0 n False) (\<lambda>(i, b). Inr (i, t\<lparr>MiSystemPteBitmap := b\<rparr>)))"
  have sec: "\<exists>t'. body t = Inr (i, t') \<and> ke_state.truncate t' = ke_state.truncate t \<and>
      ke_state.more t' = ke_state.more (s\<lparr>MiSystemPteBitmap := b\<rparr>)"
    if "ke_state.more t = ke_state.more s" for t
    using scan bitmap_more [OF that] bitmap_upd_more [OF that]
    by (intro exI [of _ "t\<lparr>MiSystemPteBitmap := b\<rparr>"]) (simp add: body_def ke_state.truncate_def)
  have "spinlock.bracket SystemPteSpinLock run fuel body s = Inr (i, s\<lparr>MiSystemPteBitmap := b\<rparr>)"
    by (rule spinlock_section [OF lk _ sec]) (simp_all add: ke_state.truncate_def)
  moreover have "MmAllocateSystemPtes run (Suc fuel) n s =
      bind (spinlock.bracket SystemPteSpinLock run fuel body s) (\<lambda>(i, s).
      if i = BITMAP_ERROR then Inr (0, s)
      else bind (MmVirtualAlloc (MMSYSPTE_START + PGSIZE * i) (n * PGSIZE) PTE_W s)
       (\<lambda>(status, s). if \<not> success status then Inr (0, s) else Inr (MMSYSPTE_START + PGSIZE * i, s)))"
    unfolding spinlock.bracket_def MmAllocateSystemPtes_def body_def
    by (auto simp: bind_assoc Let_def split_def intro!: arg_cong [of _ _ "bind _"] ext)
  ultimately show ?thesis by simp
qed

lemma mod_page_at: "MMSYSPTE_START + PGSIZE * i = page_at MMSYSPTE_START (unat i)"
  by (simp add: page_at_def mult.commute)

text \<open>A run of pages of the area, and the invariant after the run has been mapped.\<close>

lemma syspte_range:
  assumes ok: "sysptes_ok s" and fit: "i + n \<le> unat (BitCount (MiSystemPteBitmap s))"
  shows "range_ok (s\<lparr>MiSystemPteBitmap := b\<rparr>) (page_at MMSYSPTE_START i) n"
proof -
  let ?m = "unat (BitCount (MiSystemPteBitmap s))" and ?va = "page_at MMSYSPTE_START i"
  have r: "range_ok s MMSYSPTE_START ?m" and m: "?m \<le> 65536" using ok by (auto simp: sysptes_ok_def)
  have i: "i \<le> 65536" using fit m by simp
  have "unat (of_nat (4096 * i) :: ULONG) = 4096 * i" using i by (intro unat_of_nat32) simp
  then have u: "unat ?va = unat MMSYSPTE_START + 4096 * i" using i by (simp add: page_at_def unat_add_no_wrap)
  then have "unat (PGOFF ?va) = 0" by (simp add: unat_PGOFF)
  moreover have "page_at ?va k = page_at MMSYSPTE_START (i + k)" for k by (simp add: page_at_def algebra_simps)
  ultimately show ?thesis using u r fit m by (auto simp: range_ok_def IsPageAlignedAddress_def unat_eq_zero)
qed

lemma syspte_in_run:
  assumes ok: "sysptes_ok s" and fit: "i + n \<le> unat (BitCount (MiSystemPteBitmap s))" and j: "j < unat (BitCount (MiSystemPteBitmap s))"
  shows "in_pages (page_at MMSYSPTE_START i) n (page_at MMSYSPTE_START j) \<longleftrightarrow> i \<le> j \<and> j < i + n"
proof (cases "n = 0")
  case False
  have r: "range_ok s MMSYSPTE_START (unat (BitCount (MiSystemPteBitmap s)))" using ok by (simp add: sysptes_ok_def)
  have "pageno (page_at MMSYSPTE_START i) = pageno MMSYSPTE_START + i" using range_ok_page(1) [OF r, of i] fit False by simp
  then show ?thesis using range_ok_page(1) [OF r j] by (auto simp: in_pages_def)
qed (auto simp: in_pages_def)

lemma syspte_mapped:
  assumes ok: "sysptes_ok s" and fit: "i + n \<le> unat (BitCount (MiSystemPteBitmap s))"
    and b: "MiSystemPteBitmap s' = b" "bm_wf b" "BitCount b = BitCount (MiSystemPteBitmap s)"
      "\<And>j. bm_bit b j = (bm_bit (MiSystemPteBitmap s) j \<or> i \<le> j \<and> j < i + n)"
    and s': "tables_ok s'" "pde s' = pde s"
      "\<And>a. Valid (pde s a) \<Longrightarrow> \<not> in_pages (page_at MMSYSPTE_START i) n a \<Longrightarrow> pte s' a = pte s a"
  shows "sysptes_ok s'"
proof -
  let ?m = "unat (BitCount (MiSystemPteBitmap s))"
  have r: "range_ok s MMSYSPTE_START ?m" and m: "?m \<le> 65536" and bok: "bm_ok (MiSystemPteBitmap s)" using ok by (auto simp: sysptes_ok_def)
  have "pte s' (page_at MMSYSPTE_START j) = 0" if j: "j < ?m" and clear: "\<not> bm_bit b j" for j
  proof -
    have "\<not> bm_bit (MiSystemPteBitmap s) j" "\<not> in_pages (page_at MMSYSPTE_START i) n (page_at MMSYSPTE_START j)"
      using clear b(4) [of j] syspte_in_run [OF ok fit j] by auto
    then show ?thesis using s'(3) range_ok_page(3) [OF r j] ok j by (simp add: sysptes_ok_def)
  qed
  moreover have "range_ok s' MMSYSPTE_START ?m" using r s'(2) by (simp add: range_ok_def)
  moreover have "bm_ok b" using b bok by (simp add: bm_ok_def)
  ultimately show ?thesis using s'(1) m b(1,3) by (simp add: sysptes_ok_def)
qed

text \<open>C20. \<open>MmAllocateSystemPtes\<close> takes the lowest run of \<open>n\<close> free pages of the system PTE area, maps page
  \<open>k\<close> of it to the \<open>k\<close>-th free frame and marks exactly these pages used; the result is page aligned and
  inside the area, translations elsewhere are unchanged and the invariant of the pool is kept. When
  no run is long enough it returns NULL and changes nothing. IRQL and lock are restored either way.\<close>

theorem allocate_system_ptes:
  fixes s :: "'a mm_state_scheme"
  assumes lk: "lockable SystemPteSpinLock s" and ok: "sysptes_ok s" and fr: "free_frames s fs"
    and n: "unat n \<le> length fs" "unat n < 2 ^ 20"
  shows "(\<exists>i s'. MmAllocateSystemPtes run (Suc fuel) n s = Inr (page_at MMSYSPTE_START i, s') \<and>
      run_of (MiSystemPteBitmap s) i (unat n) False \<and>
      (\<forall>k < i. \<not> run_of (MiSystemPteBitmap s) k (unat n) False) \<and>
      (\<forall>j. bm_bit (MiSystemPteBitmap s') j = (bm_bit (MiSystemPteBitmap s) j \<or> i \<le> j \<and> j < i + unat n)) \<and>
      (\<forall>b. translate s' b = (if in_pages (page_at MMSYSPTE_START i) (unat n) b
         then Some (fs ! (pageno b - pageno (page_at MMSYSPTE_START i))) else translate s b)) \<and>
      free_frames s' (drop (unat n) fs) \<and> sysptes_ok s' \<and> ke_state.truncate s' = ke_state.truncate s) \<or>
    (MmAllocateSystemPtes run (Suc fuel) n s = Inr (0, s) \<and>
      (\<forall>k. \<not> run_of (MiSystemPteBitmap s) k (unat n) False))"
proof -
  let ?b = "MiSystemPteBitmap s"
  have bok: "bm_ok ?b" and z: "(0 :: ULONG) \<le> BitCount ?b" using ok by (auto simp: sysptes_ok_def)
  show ?thesis
  proof (rule BmBitmapScanAndFlip_cases [OF bok z, of n False])
    assume "BmBitmapScanAndFlip ?b 0 n False = Inr (BITMAP_ERROR, ?b)"
      "\<And>k. unat (0 :: ULONG) \<le> k \<Longrightarrow> \<not> run_of ?b k (unat n) False"
    then show ?thesis using bitmap_section [OF lk, of n BITMAP_ERROR ?b run fuel] by simp
  next
    fix i b'
    assume scan: "BmBitmapScanAndFlip ?b 0 n False = Inr (of_nat i, b')"
      and i: "unat (of_nat i :: ULONG) = i" "(of_nat i :: ULONG) \<noteq> BITMAP_ERROR"
      and run: "run_of ?b i (unat n) False"
      and least: "\<And>k. unat (0 :: ULONG) \<le> k \<Longrightarrow> k < i \<Longrightarrow> \<not> run_of ?b k (unat n) False"
      and b': "bm_wf b'" "BitCount b' = BitCount ?b"
        "\<And>j. bm_bit b' j = (if i \<le> j \<and> j < i + unat n then \<not> False else bm_bit ?b j)"
    let ?s = "s\<lparr>MiSystemPteBitmap := b'\<rparr>" and ?va = "page_at MMSYSPTE_START i"
    let ?m = "unat (BitCount ?b)"
    have t: "tables_ok s" and m: "?m \<le> 65536" using ok by (auto simp: sysptes_ok_def)
    have fit: "i + unat n \<le> ?m" using run by (simp add: run_of_def)
    note rn = syspte_range [OF ok fit, of b']
    have at: "page_at ?va k = page_at MMSYSPTE_START (i + k)" for k by (simp add: page_at_def algebra_simps)
    have zero: "\<forall>k < unat n. pte ?s (page_at ?va k) = 0"
      using ok run fit at by (auto simp: sysptes_ok_def run_of_def)
    have sz: "unat (n * PGSIZE) = 4096 * unat n" using n(2) by (simp add: unat_word_ariths)
    have fr': "free_frames ?s fs" and t': "tables_ok ?s" using fr t by simp_all
    obtain s' where s': "MmVirtualAlloc ?va (n * PGSIZE) PTE_W ?s = Inr (STATUS_SUCCESS, s')"
      "tables_ok s'" "pde s' = pde s" "mm_core s' = mm_core ?s" "free_frames s' (drop (unat n) fs)"
      "\<forall>b. Valid (pde s b) \<longrightarrow> pte s' b =
        (if in_pages ?va (unat n) b then page_entry (fs ! (pageno b - pageno ?va)) (PTE_W OR PTE_P) else pte s b)"
      using MmVirtualAlloc_correct [OF t' rn zero fr' n(1) sz, of PTE_W] by auto
    have bm: "MiSystemPteBitmap s' = b'" "ke_state.truncate s' = ke_state.truncate s"
      using mm_core_sel(3,6) [OF s'(4)] by (simp_all add: ke_state.truncate_def)
    have inv: "sysptes_ok s'"
      by (rule syspte_mapped [OF ok fit bm(1) b'(1,2) _ s'(2,3)]) (use b'(3) s'(6) in auto)
    have tr: "translate s' b = (if in_pages ?va (unat n) b then Some (fs ! (pageno b - pageno ?va))
        else translate s b)" for b
      by (rule mapped_translate [OF fr n(1) rn [simplified] s'(3,6)]) simp
    have "MmAllocateSystemPtes run (Suc fuel) n s = Inr (?va, s')"
      using bitmap_section [OF lk scan, of run fuel] i s'(1) by (simp add: mod_page_at)
    then show ?thesis
      using run least b' bm s'(5) inv tr by (intro disjI1 exI [of _ i] exI [of _ s']) auto
  qed
qed

theorem allocate_system_ptes_witness:
  "\<exists>s'. MmAllocateSystemPtes (\<lambda>_ _ _ _ _ s. Inr s) (Suc 0) 2 small_mm = Inr (0x85800000, s') \<and>
     translate s' 0x85801234 = Some 6"
proof -
  have lk: "lockable SystemPteSpinLock small_mm"
  proof (rule truncate_lockable [OF boot_state_ok(2)])
    have "ke_state.truncate boot_state = boot_state" by (simp add: boot_state_def ke_state.truncate_def)
    then show "ke_state.truncate small_mm = ke_state.truncate boot_state" by (simp only: small_mm_sel)
  qed
  have eight: "k < 8 \<Longrightarrow> k \<in> {0, 1, 2, 3, 4, 5, 6, 7}" for k :: nat by auto
  have r: "range_ok small_mm 0x85800000 8"
    by (auto simp: range_ok_def IsPageAlignedAddress_def PGOFF_def small_pde page_at_def PDX_def small_mem_def
        dest!: eight)
  have z: "\<forall>k < 8. pte small_mm (page_at 0x85800000 k) = 0"
    by (auto simp: pte_def small_pde page_at_def PDX_def PTX_def small_mem_def dest!: eight)
  have ok: "sysptes_ok small_mm"
    using r z small_tables by (auto simp: sysptes_ok_def bm_ok_def bm_wf_def)
  have first: "run_of \<lparr>BitCount = 8, bits = [0]\<rparr> 0 2 False" by (auto simp: run_of_def bm_bit_def)
  have ip: "in_pages 0x85800000 2 0x85801234" "pageno 0x85801234 - pageno 0x85800000 = 1" "page_at 0x85800000 0 = 0x85800000"
    by (simp_all add: in_pages_def pageno_def page_at_def)
  from allocate_system_ptes [OF lk ok small_free, of 2 "\<lambda>_ _ _ _ _ s. Inr s" 0] first
  obtain i s' where "MmAllocateSystemPtes (\<lambda>_ _ _ _ _ s. Inr s) (Suc 0) 2 small_mm = Inr (page_at 0x85800000 i, s')"
    "\<forall>k < i. \<not> run_of \<lparr>BitCount = 8, bits = [0]\<rparr> k 2 False"
    "\<forall>b. translate s' b = (if in_pages (page_at 0x85800000 i) 2 b
         then Some ([5, 6, 7] ! (pageno b - pageno (page_at 0x85800000 i))) else translate small_mm b)"
    by auto
  moreover from this(2) have "i = 0" using first by blast
  ultimately show ?thesis using ip by auto
qed

section \<open>Missing page tables\<close>

lemma Valid_0: "\<not> Valid 0"
  by (simp add: Valid_def)

text \<open>A frame that holds data, not a page table or the directory of the current address space.\<close>

definition data_frame :: "'a mm_state_scheme \<Rightarrow> frame \<Rightarrow> bool" where
  "data_frame s h \<longleftrightarrow> (\<forall>b. Valid (pde s b) \<longrightarrow> PageFrameNumber (pde s b) \<noteq> h)"

lemma data_frame_dir:
  assumes "tables_ok s" and "data_frame s h"
  shows "h \<noteq> page_dir s"
proof -
  have "PDX MM_PDE_ADDRESS = 768" by (simp add: PDX_def)
  then have "Valid (pde s MM_PDE_ADDRESS)" "PageFrameNumber (pde s MM_PDE_ADDRESS) = page_dir s"
    using tables_okD(1) [OF assms(1)] by (simp_all add: pde_def self_map_def)
  then show ?thesis using assms(2) by (auto simp: data_frame_def)
qed

lemma user_not_768: "IsUserAddress a \<Longrightarrow> PDX a \<noteq> 768"
proof
  assume u: "IsUserAddress a" and "PDX a = 768"
  then have "unat a div 2 ^ 22 = 768" using unat_PDX [of a] by simp
  moreover have "unat a < 0x7FC00000" using u by (simp add: IsUserAddress_def word_less_nat_alt)
  ultimately show False by simp
qed

text \<open>An address through which the current page directory is reached, such as \<open>MM_PDE_ADDRESS\<close> or the page of the system PTE area a process keeps for it.\<close>

definition dir_mapped :: "PVOID \<Rightarrow> 'a mm_state_scheme \<Rightarrow> bool" where
  "dir_mapped D s \<longleftrightarrow> D \<noteq> 0 \<and> IsPageAlignedAddress D \<and> translate s D = Some (page_dir s)"

definition table_entry :: "frame \<Rightarrow> MMPTE" where
  "table_entry h = MiPFNtoPhysicalAddress h OR PTE_W OR PTE_U OR PTE_P"

definition with_pt :: "PVOID \<Rightarrow> frame \<Rightarrow> frame klist \<Rightarrow> 'a mm_state_scheme \<Rightarrow> 'a mm_state_scheme" where
  "with_pt a h l s = (set_pfn_list l s)\<lparr>PteAddress := (PteAddress s)(h := MmGetPdeAddress a), RefCount := (RefCount s)(h := 1),
     PhysMem := (PhysMem s)(page_dir s := (PhysMem s (page_dir s))(PDX a := table_entry h), h := \<lambda>_. 0)\<rparr>"

lemma dir_mapped_self: "self_map s \<Longrightarrow> dir_mapped MM_PDE_ADDRESS s"
  using translate_PdeAddress [of s 0] by (simp add: dir_mapped_def MmGetPdeAddress_def IsPageAlignedAddress_def PGOFF_def)

lemma same_page_translate: "pageno a = pageno b \<Longrightarrow> translate s a = translate s b"
  using same_page_iff [of a b] by (simp add: pageno_def translate_eq pde_def pte_def)

lemma dir_entry:
  assumes "IsPageAlignedAddress D" and "unat i < 1024"
  shows "pageno (D + 4 * i) = pageno D" and "word_off (D + 4 * i) = i"
proof -
  have m: "unat D mod 4096 = 0" using assms(1) unat_PGOFF [of D] by (simp add: IsPageAlignedAddress_def)
  then obtain q where q: "unat D = 4096 * q" by auto
  then have "q \<le> 1048575" using unat_ULONG_less [of D] by simp
  then have lt: "unat D + 4 * unat i < 2 ^ 32" using q assms(2) by simp
  have "4 * unat i < 2 ^ 32" using assms(2) by simp
  then have "unat (4 * i) = 4 * unat i" by (simp add: unat_word_ariths)
  then have u: "unat (D + 4 * i) = 4096 * q + 4 * unat i" using lt q by (simp add: unat_add_no_wrap)
  show "pageno (D + 4 * i) = pageno D" using assms(2) by (simp add: pageno_def u q)
  have "unat (word_off (D + 4 * i)) = unat i" using assms(2) by (simp add: unat_word_off u)
  then show "word_off (D + 4 * i) = i" by (simp add: word_unat_eq_iff)
qed

lemma vwrite_dir:
  assumes "dir_mapped D s" and "unat i < 1024"
  shows "vwrite (D + 4 * i) w s = Inr (set_entry (page_dir s) i w s)"
  using assms dir_entry [of D i] same_page_translate [of "D + 4 * i" D s] by (simp add: vwrite_def dir_mapped_def set_entry_def)

lemma not_foreign_dir:
  assumes "tables_ok s" and "dir_mapped D s"
  shows "foreign_user_page D a s = Inr False"
proof -
  have sm: "self_map s" by (rule tables_okD(1) [OF assms(1)])
  have d: "Valid (pde s D)" "Valid (pte s D)" "PageFrameNumber (pte s D) = page_dir s" "PGOFF D = 0"
    using assms(2) by (auto simp: dir_mapped_def translate_eq IsPageAlignedAddress_def split: if_splits)
  have e: "Valid (pde s MM_PDE_ADDRESS)" "Valid (pte s MM_PDE_ADDRESS)" "PageFrameNumber (pte s MM_PDE_ADDRESS) = page_dir s" "PGOFF MM_PDE_ADDRESS = 0"
    using dir_mapped_self [OF sm] by (auto simp: dir_mapped_def translate_eq IsPageAlignedAddress_def split: if_splits)
  show ?thesis using d e sm by (simp add: foreign_user_page_def IsCurrentPageDirectory_def MmGetPhysicalAddress_def vread_pte)
qed

lemma table_entry_frame:
  assumes "h < 0x100000"
  shows "Valid (table_entry h)" and "PageFrameNumber (table_entry h) = h"
proof -
  show "Valid (table_entry h)" by (simp add: table_entry_def Valid_def bit_or_iff)
  have p: "(PTE_W OR PTE_U OR PTE_P) < 4096" by simp
  show "PageFrameNumber (table_entry h) = h"
    using PageFrameNumber_pack [OF assms p] by (simp only: table_entry_def MiPFNtoPhysicalAddress_def or.assoc)
qed

text \<open>The new table is empty, so no page of it is mapped; it appears at its own address in the table area.\<close>

lemma with_pt_sel [simp]:
  "page_dir (with_pt a h l s) = page_dir s" "pfn_list (with_pt a h l s) = l" "mm_core (with_pt a h l s) = mm_core s"
  "RefCount (with_pt a h l s) = (RefCount s)(h := 1)" "MMNumberOfPhysicalPages (with_pt a h l s) = MMNumberOfPhysicalPages s"
  by (simp_all add: with_pt_def page_dir_def pfn_list_def set_pfn_list_def mm_core_def)

lemma with_pt_tables:
  assumes ok: "tables_ok s" and h: "data_frame s h" "h < 0x100000" and n: "PDX a \<noteq> 768" and i: "\<not> Valid (pde s a)"
  shows "pde (with_pt a h l s) b = (if PDX b = PDX a then table_entry h else pde s b)"
    and "Valid (pde s b) \<Longrightarrow> PDX b \<noteq> 768 \<Longrightarrow> pte (with_pt a h l s) b = pte s b"
    and "PDX b = PDX a \<Longrightarrow> pte (with_pt a h l s) b = 0"
    and "PDX b = 768 \<Longrightarrow> pte (with_pt a h l s) b = (if PTX b = PDX a then table_entry h else pte s b)"
    and "tables_ok (with_pt a h l s)"
    and "data_frame (with_pt a h l s) g \<longleftrightarrow> data_frame s g \<and> g \<noteq> h"
    and "data_frame s g \<Longrightarrow> g \<noteq> h \<Longrightarrow> PhysMem (with_pt a h l s) g = PhysMem s g"
proof -
  let ?s = "with_pt a h l s"
  have hd: "h \<noteq> page_dir s" by (rule data_frame_dir [OF ok h(1)])
  have mem: "PhysMem ?s = (PhysMem s)(page_dir s := (PhysMem s (page_dir s))(PDX a := table_entry h), h := \<lambda>_. 0)"
    by (simp add: with_pt_def)
  note e = table_entry_frame [OF h(2)]
  show d: "pde ?s b = (if PDX b = PDX a then table_entry h else pde s b)" for b using hd by (simp add: pde_def mem)
  have sm: "Valid (PhysMem s (page_dir s) 768)" "PageFrameNumber (PhysMem s (page_dir s) 768) = page_dir s"
    using tables_okD(1) [OF ok] by (simp_all add: self_map_def)
  have ne: "PageFrameNumber (pde s b) \<noteq> h" if "Valid (pde s b)" for b using h(1) that by (simp add: data_frame_def)
  show "pte ?s b = pte s b" if "Valid (pde s b)" "PDX b \<noteq> 768"
  proof -
    have "PDX b \<noteq> PDX a" using that(1) i by (auto simp: pde_def)
    then show ?thesis using d [of b] ne [OF that(1)] tables_okD(2) [OF ok that] by (simp add: pte_def mem)
  qed
  show "pte ?s b = 0" if "PDX b = PDX a" using d [of b] that e by (simp add: pte_def mem)
  show "pte ?s b = (if PTX b = PDX a then table_entry h else pte s b)" if "PDX b = 768"
  proof -
    have "pde s b = PhysMem s (page_dir s) 768" "pde ?s b = pde s b" using that n d [of b] by (simp_all add: pde_def)
    then show ?thesis using sm hd by (simp add: pte_def mem)
  qed
  have slot: "PhysMem ?s (page_dir s) k = (if k = PDX a then table_entry h else PhysMem s (page_dir s) k)" for k using hd by (simp add: mem)
  have used: "PageFrameNumber (PhysMem s (page_dir s) k) \<noteq> h" if k: "unat k < 1024" "Valid (PhysMem s (page_dir s) k)" for k
  proof -
    have "unat (push_bit 22 k :: ULONG) = unat k * 2 ^ 22" using k(1) by (simp add: push_bit_eq_mult unat_word_ariths)
    then have "unat (PDX (push_bit 22 k)) = unat k" using k(1) by (simp add: unat_PDX)
    then have "PDX (push_bit 22 k) = k" by (simp add: word_unat_eq_iff)
    then show ?thesis using ne [of "push_bit 22 k"] k(2) by (simp add: pde_def)
  qed
  show "tables_ok ?s"
  proof -
    have "self_map ?s" using sm n slot [of 768] by (simp add: self_map_def)
    moreover have "PageFrameNumber (PhysMem ?s (page_dir s) j) \<noteq> PageFrameNumber (PhysMem ?s (page_dir s) k)"
      if jk: "unat j < 1024" "unat k < 1024" "j \<noteq> k" "Valid (PhysMem ?s (page_dir s) j)" "Valid (PhysMem ?s (page_dir s) k)" for j k
    proof -
      have "PageFrameNumber (PhysMem s (page_dir s) j) \<noteq> PageFrameNumber (PhysMem s (page_dir s) k)"
        if "Valid (PhysMem s (page_dir s) j)" "Valid (PhysMem s (page_dir s) k)"
        using ok jk(1-3) that by (simp add: tables_ok_def)
      then show ?thesis using jk slot [of j] slot [of k] e used [of j] used [of k] by (auto split: if_splits)
    qed
    ultimately show ?thesis by (simp add: tables_ok_def)
  qed
  show "data_frame ?s g \<longleftrightarrow> data_frame s g \<and> g \<noteq> h"
  proof
    assume g: "data_frame ?s g"
    have "Valid (pde ?s a) \<longrightarrow> PageFrameNumber (pde ?s a) \<noteq> g" using g unfolding data_frame_def by blast
    then have "g \<noteq> h" using d [of a] e by auto
    moreover have "PageFrameNumber (pde s b) \<noteq> g" if "Valid (pde s b)" for b
    proof -
      have "PDX b \<noteq> PDX a" using that i by (auto simp: pde_def)
      moreover have "Valid (pde ?s b) \<longrightarrow> PageFrameNumber (pde ?s b) \<noteq> g" using g unfolding data_frame_def by blast
      ultimately show ?thesis using d [of b] that by auto
    qed
    ultimately show "data_frame s g \<and> g \<noteq> h" by (simp add: data_frame_def)
  qed (use d e in \<open>auto simp: data_frame_def\<close>)
  show "PhysMem ?s g = PhysMem s g" if "data_frame s g" "g \<noteq> h"
    using that data_frame_dir [OF ok that(1)] by (simp add: mem)
qed

lemma with_pt_free:
  assumes "free_frames s (h # fs)" and "klist_rep l fs"
  shows "free_frames (with_pt a h l s) fs"
  using assms by (auto simp: free_frames_def klist_rep_def ring_def)

text \<open>The part of \<open>MiInsertPage\<close> that makes the table.\<close>

lemma insert_page_table_eq:
  assumes ok: "tables_ok s" and D: "dir_mapped D s" and u: "IsUserAddress a" and i: "\<not> Valid (pde s a)"
    and h: "data_frame s h" "h < MMNumberOfPhysicalPages s" "h < 0x100000" "RefCount s h = 0"
    and l: "LIST_REMOVE_HEAD (pfn_list s) = Inr (Some h, l)"
  shows "insert_page_table D a s = Inr (STATUS_SUCCESS, with_pt a h l s)"
proof -
  have n: "PDX a \<noteq> 768" by (rule user_not_768 [OF u])
  have hd: "h \<noteq> page_dir s" by (rule data_frame_dir [OF ok h(1)])
  let ?s1 = "(set_pfn_list l s)\<lparr>PteAddress := (PteAddress s)(h := MmGetPdeAddress a)\<rparr>"
  let ?s2 = "?s1\<lparr>RefCount := (RefCount s)(h := 1)\<rparr>"
  let ?s3 = "set_entry (page_dir s) (PDX a) (table_entry h) ?s2"
  have a1: "MmAllocatePFN (MmGetPdeAddress a) s = Inr (STATUS_SUCCESS, Some h, ?s1)" using l by (simp add: MmAllocatePFN_def)
  have a2: "MiIncReferencePFN h ?s1 = Inr ?s2" using h by (simp add: MiIncReferencePFN_eq)
  have p: "page_dir ?s2 = page_dir s" by (simp add: page_dir_def)
  have t: "translate ?s2 D = translate s D" by (simp add: translate_eq)
  have "dir_mapped D ?s2" using D unfolding dir_mapped_def t p .
  note a3 = vwrite_dir [OF this PDX_less, of a "table_entry h", unfolded p]
  have "pageno (ROUNDDOWN (MmGetPteAddress a) PGSIZE) = pageno (MmGetPteAddress a)" by (simp add: pageno_def unat_ROUNDDOWN)
  then have "translate ?s3 (ROUNDDOWN (MmGetPteAddress a) PGSIZE) = translate ?s3 (MmGetPteAddress a)" by (rule same_page_translate)
  moreover have p3: "page_dir ?s3 = page_dir s" by (simp add: page_dir_def set_entry_def)
  have "self_map ?s3" using tables_okD(1) [OF ok] n unfolding self_map_def p3 by simp
  moreover have "pde ?s3 a = table_entry h" unfolding pde_def p3 by simp
  ultimately have "translate ?s3 (ROUNDDOWN (MmGetPteAddress a) PGSIZE) = Some h" using table_entry_frame [OF h(3)] by (simp add: translate_PteAddress)
  then have "vzero_page (ROUNDDOWN (MmGetPteAddress a) PGSIZE) ?s3 = Inr (with_pt a h l s)"
    by (simp add: vzero_page_def with_pt_def set_entry_def)
  then show ?thesis using u a1 a2 a3 by (simp add: insert_page_table_def table_entry_def)
qed

lemma dir_mapped_with_pt:
  assumes ok: "tables_ok s" and D: "dir_mapped D s" and h: "data_frame s h" "h < 0x100000" and n: "PDX a \<noteq> 768" and i: "\<not> Valid (pde s a)"
  shows "dir_mapped D (with_pt a h l s)"
proof -
  note w = with_pt_tables [OF ok h n i, where l = l]
  have d: "Valid (pde s D)" "Valid (pte s D)" "PageFrameNumber (pte s D) = page_dir s"
    using D by (auto simp: dir_mapped_def translate_eq split: if_splits)
  have "PDX D \<noteq> PDX a" using d(1) i by (auto simp: pde_def)
  then have e: "pde (with_pt a h l s) D = pde s D" using w(1) [of D] by simp
  have "pte (with_pt a h l s) D = pte s D"
  proof (cases "PDX D = 768")
    case True
    then have "pte s D = PhysMem s (page_dir s) (PTX D)" using tables_okD(1) [OF ok] by (simp add: pte_def pde_def self_map_def)
    then have "PTX D \<noteq> PDX a" using d(2) i by (auto simp: pde_def)
    then show ?thesis using w(4) [of D] True by simp
  next
    case False
    then show ?thesis using w(2) [of D] d(1) by simp
  qed
  then show ?thesis using D d e by (simp add: dir_mapped_def translate_eq)
qed

text \<open>So inserting a page where a table is missing is inserting it where the table is present and empty.\<close>

lemma MiInsertPage_with_pt:
  assumes ok: "tables_ok s" and D: "dir_mapped D s" and u: "IsUserAddress a" and i: "\<not> Valid (pde s a)"
    and h: "data_frame s h" "h < MMNumberOfPhysicalPages s" "h < 0x100000" "RefCount s h = 0"
    and l: "LIST_REMOVE_HEAD (pfn_list s) = Inr (Some h, l)"
  shows "MiInsertPage D a p perm s = MiInsertPage D a p perm (with_pt a h l s)"
proof -
  have n: "PDX a \<noteq> 768" by (rule user_not_768 [OF u])
  note w = with_pt_tables [OF ok h(1,3) n i, where l = l]
  have ok': "tables_ok (with_pt a h l s)" by (rule w(5))
  note D' = dir_mapped_with_pt [OF ok D h(1,3) n i, of l]
  have v: "Valid (pde (with_pt a h l s) a)" using w(1) [of a] table_entry_frame [OF h(3)] by simp
  show ?thesis
    unfolding MiInsertPage_def not_foreign_dir [OF ok D] not_foreign_dir [OF ok' D'] bind_Inr
      vread_pde [OF tables_okD(1) [OF ok]] vread_pde [OF tables_okD(1) [OF ok']]
    using i v insert_page_table_eq [OF ok D u i h l] by simp
qed

section \<open>Copy on write\<close>

lemma remove_shared:
  assumes ok: "tables_ok s" and fr: "free_frames s fs" and al: "IsPageAlignedAddress a"
    and v: "Valid (pde s a)" "Valid (pte s a)" and n: "PDX a \<noteq> 768"
    and f: "PageFrameNumber (pte s a) = f" "f < MMNumberOfPhysicalPages s" "RefCount s f \<noteq> 0" "RefCount s f \<noteq> 1"
  shows "\<exists>s'. MiRemovePage MM_PDE_ADDRESS a s = Inr (STATUS_SUCCESS, s') \<and> tables_ok s' \<and> pde s' = pde s \<and>
    mm_core s' = mm_core s \<and> free_frames s' fs \<and> RefCount s' = (RefCount s)(f := RefCount s f - 1) \<and>
    (\<forall>b. Valid (pde s b) \<longrightarrow> pte s' b = (if pageno b = pageno a then 0 else pte s b)) \<and>
    (\<forall>h. h \<noteq> PageFrameNumber (pde s a) \<longrightarrow> PhysMem s' h = PhysMem s h)"
proof -
  obtain l where l: "klist_rep l fs" "MiRemovePage MM_PDE_ADDRESS a s = Inr (STATUS_SUCCESS,
      set_entry (PageFrameNumber (pde s a)) (PTX a) 0
        ((set_pfn_list l s)\<lparr>RefCount := (RefCount s)(f := RefCount s f - 1)\<rparr>))"
    using MiRemovePage_eq [OF ok fr al v n f(1) [symmetric] f(2,3)] f(4) by auto
  let ?u = "(set_pfn_list l s)\<lparr>RefCount := (RefCount s)(f := RefCount s f - 1)\<rparr>"
  let ?t = "set_entry (PageFrameNumber (pde s a)) (PTX a) 0 ?u"
  have u: "tables_ok ?u" "Valid (pde ?u a)" "PDX a \<noteq> 768" using ok v n by simp_all
  have "pde ?t = pde s" using set_pte_frame(1) [OF u, of 0] by (simp add: fun_eq_iff)
  moreover have "tables_ok ?t" using set_pte_frame(2) [OF u, of 0] by simp
  moreover have "pte ?t b = (if pageno b = pageno a then 0 else pte s b)" if "Valid (pde s b)" for b
    using set_pte_frame(3) [OF u, of b 0] that same_page_iff [of b a] by (simp add: pageno_def)
  moreover have "f \<notin> set fs" using fr f(3) by (auto simp: free_frames_def)
  then have "free_frames ?t fs" using fr l(1) by (auto simp: free_frames_def)
  ultimately show ?thesis using l(2) by (intro exI [of _ ?t]) simp
qed

lemma map_fresh:
  assumes ok: "tables_ok s" and v: "Valid (pde s a)" and n: "PDX a \<noteq> 768" and z: "pte s a = 0"
    and f: "f \<noteq> 0" "f < MMNumberOfPhysicalPages s" and fr: "free_frames s fs" "f \<notin> set fs"
  shows "\<exists>s'. MiInsertPage MM_PDE_ADDRESS a (Some f) perm s = Inr (STATUS_SUCCESS, s') \<and> tables_ok s' \<and>
    pde s' = pde s \<and> mm_core s' = mm_core s \<and> free_frames s' fs \<and>
    RefCount s' = (RefCount s)(f := RefCount s f + 1) \<and>
    (\<forall>b. Valid (pde s b) \<longrightarrow> pte s' b = (if pageno b = pageno a then page_entry f perm else pte s b)) \<and>
    (\<forall>h. h \<noteq> PageFrameNumber (pde s a) \<longrightarrow> PhysMem s' h = PhysMem s h)"
proof -
  let ?t = "map_page a f perm s"
  have "free_frames ?t fs" using fr by (auto simp: free_frames_def map_page_def)
  moreover note map_page_entries(1,2) [OF ok v n, of f perm]
  moreover have "pte ?t b = (if pageno b = pageno a then page_entry f perm else pte s b)" if "Valid (pde s b)" for b
    using map_page_entries(3) [OF ok v n that] by (simp add: pageno_def page_entry_def)
  moreover have "RefCount ?t = (RefCount s)(f := RefCount s f + 1)" by (simp add: map_page_def)
  moreover have "PhysMem ?t h = PhysMem s h" if "h \<noteq> PageFrameNumber (pde s a)" for h
    using that by (simp add: map_page_def)
  ultimately show ?thesis
    using MiInsertPage_fresh [OF ok v n z f, of perm] by (intro exI [of _ ?t]) simp
qed

lemma page_offsets_PTSIZE: "page_offsets PTSIZE = 0 # map (\<lambda>k. of_nat (4096 * k)) [1..<1024]"
proof -
  have "[0..<1024] = 0 # [1..<1024]" using upt_conv_Cons [of 0 1024] by simp
  then show ?thesis by (simp only: page_offsets_def) simp
qed

text \<open>The search for a slot of the temporary area stops at the first whose entry is not valid.\<close>

definition temp_slot :: "'a mm_state_scheme \<Rightarrow> PVOID \<Rightarrow> PVOID \<Rightarrow> bool" where
  "temp_slot s a t \<longleftrightarrow> (\<exists>k < 1024. t = page_at USERTEMP k \<and> pte s t = 0 \<and>
     (\<forall>j < k. Valid (pte s (page_at USERTEMP j)) \<and> pageno (page_at USERTEMP j) \<noteq> pageno a))"

lemma temp_pages: "map (\<lambda>i. USERTEMP + i) (page_offsets PTSIZE) = map (page_at USERTEMP) [0..<1024]"
  by (simp add: page_offsets_def page_at_def)

lemma temp_page:
  assumes "k < 1024"
  shows "unat (page_at USERTEMP k) = 0x400000 + 4096 * k" and "PDX (page_at USERTEMP k) = PDX USERTEMP" and "IsPageAlignedAddress (page_at USERTEMP k)"
proof -
  have "unat USERTEMP = 0x400000" by simp
  then show u: "unat (page_at USERTEMP k) = 0x400000 + 4096 * k" using page_at_unat [of USERTEMP 1024 k] assms by simp
  show "PDX (page_at USERTEMP k) = PDX USERTEMP" using assms u by (simp add: word_unat_eq_iff unat_PDX)
  have "unat (PGOFF (page_at USERTEMP k)) = 0" by (simp add: unat_PGOFF u)
  then show "IsPageAlignedAddress (page_at USERTEMP k)" by (simp add: IsPageAlignedAddress_def word_unat_eq_iff)
qed

lemma temp_loop_first:
  assumes "self_map s" and "\<forall>v \<in> set vs. Valid (pde s v) \<and> Valid (pte s v)" and "Valid (pde s t)" "\<not> Valid (pte s t)"
  shows "temp_loop f (vs @ t # ws) s = bind (MiInsertPage MM_PDE_ADDRESS t (Some f) PTE_W s) (\<lambda>(Status, s). Inr (Status, t, s))"
  using assms by (induction vs) (simp_all add: vread_pte)

lemma map_temp_first:
  assumes ok: "tables_ok s" and v: "Valid (pde s USERTEMP)" and k: "k < 1024" "t = page_at USERTEMP k" and z: "\<not> Valid (pte s t)"
    and below: "\<forall>j < k. Valid (pte s (page_at USERTEMP j))"
  shows "MmMapPageTemp f s = bind (MiInsertPage MM_PDE_ADDRESS t (Some f) PTE_W s) (\<lambda>(Status, s).
    Inr (if \<not> success Status then (0, s) else (t, s)))"
proof -
  have sm: "self_map s" by (rule tables_okD(1) [OF ok])
  have d: "pde s (page_at USERTEMP j) = pde s USERTEMP" if "j < 1024" for j using temp_page(2) [OF that] by (simp add: pde_def)
  have "[0..<1024] = [0..<k] @ k # [Suc k..<1024]" using k(1) upt_add_eq_append [of 0 k "1024 - k"] upt_conv_Cons [of k 1024] by simp
  then have l: "map (page_at USERTEMP) [0..<1024] = map (page_at USERTEMP) [0..<k] @ t # map (page_at USERTEMP) [Suc k..<1024]"
    using k(2) by simp
  have vs: "\<forall>v \<in> set (map (page_at USERTEMP) [0..<k]). Valid (pde s v) \<and> Valid (pte s v)" using below d v k(1) by auto
  have vt: "Valid (pde s t)" using d [OF k(1)] v k(2) by simp
  show ?thesis
    using sm v by (simp add: MmMapPageTemp_def vread_pde temp_pages l temp_loop_first [OF sm vs vt z] bind_assoc split_def cong: if_cong)
qed

lemma map_segment_one:
  assumes al: "IsPageAlignedAddress a" and w: "unat a + 4096 < 2 ^ 32"
    and "MmAllocatePFN (MmGetPteAddress a) s = Inr (STATUS_SUCCESS, Some g, s1)"
    and "MiInsertPage MM_PDE_ADDRESS a (Some g) perm s1 = Inr (STATUS_SUCCESS, s2)"
  shows "MmMapSegment MM_PDE_ADDRESS a PGSIZE perm s = Inr (STATUS_SUCCESS, s2)"
proof -
  have m: "unat a mod 4096 = 0" using al unat_PGOFF [of a] by (simp add: IsPageAlignedAddress_def)
  then have "unat (ROUNDDOWN a PGSIZE) = unat a" by (simp add: unat_ROUNDDOWN minus_mod_eq_div_mult [symmetric])
  then have d: "ROUNDDOWN a PGSIZE = a" by (simp add: word_unat_eq_iff)
  have u: "unat (a + PGSIZE) = unat a + 4096" using w by (simp add: unat_add_no_wrap)
  obtain q where q: "unat a = 4096 * q" using m by auto
  then have "q + 1 < 2 ^ 20" using w by simp
  then have "unat a + 4096 + 4095 < 2 ^ 32" using q by simp
  then have "unat (ROUNDUP (a + PGSIZE) PGSIZE) = (unat a + 4096 + 4095) div 4096 * 4096"
    using u unat_ROUNDUP [of PGSIZE "a + PGSIZE"] by simp
  also have "\<dots> = unat a + 4096" by (simp add: q)
  finally have e: "ROUNDUP (a + PGSIZE) PGSIZE = a + PGSIZE" using u by (simp add: word_unat_eq_iff)
  have "a < a + PGSIZE" using u by (simp add: word_less_nat_alt)
  moreover have "page_offsets PGSIZE = [0]" by (simp add: page_offsets_def)
  ultimately show ?thesis using assms(3,4) d e by (simp add: MmMapSegment_def)
qed

lemma copy_page_tables:
  assumes ok: "tables_ok s" and g: "g \<noteq> page_dir s" "\<And>b. Valid (pde s b) \<Longrightarrow> PageFrameNumber (pde s b) \<noteq> g"
  shows "pde (s\<lparr>PhysMem := (PhysMem s)(g := w)\<rparr>) = pde s"
    and "tables_ok (s\<lparr>PhysMem := (PhysMem s)(g := w)\<rparr>)"
    and "Valid (pde s b) \<Longrightarrow> pte (s\<lparr>PhysMem := (PhysMem s)(g := w)\<rparr>) b = pte s b"
proof -
  let ?s = "s\<lparr>PhysMem := (PhysMem s)(g := w)\<rparr>"
  have p: "page_dir ?s = page_dir s" by (simp add: page_dir_def)
  show d: "pde ?s = pde s" using g(1) p by (simp add: fun_eq_iff pde_def)
  show "tables_ok ?s" using ok g(1) p by (simp add: tables_ok_def self_map_def)
  show "pte ?s b = pte s b" if "Valid (pde s b)" using g(2) [OF that] d by (simp add: pte_def)
qed

text \<open>
  What the handler relies on: the page is a user page mapped to a frame of data; to copy it, the next free frames, which hold no tables, are the
  new frame \<open>g\<close> and, when the temporary area has no page table yet, one for that table before it (\<open>hs\<close>); otherwise a slot of the
  temporary area is free.
\<close>

definition cow_page :: "'a mm_state_scheme \<Rightarrow> PVOID \<Rightarrow> frame \<Rightarrow> bool" where
  "cow_page s a f \<longleftrightarrow> tables_ok s \<and> IsPageAlignedAddress a \<and> IsUserAddress a \<and> Valid (pde s a) \<and> Valid (pte s a) \<and>
     PageFrameNumber (pte s a) = f \<and> f \<noteq> 0 \<and> f < MMNumberOfPhysicalPages s \<and> data_frame s f"

definition cow_ready :: "'a mm_state_scheme \<Rightarrow> PVOID \<Rightarrow> frame list \<Rightarrow> frame \<Rightarrow> frame list \<Rightarrow> bool" where
  "cow_ready s a hs g fs \<longleftrightarrow> free_frames s (hs @ g # fs) \<and> data_frame s g \<and> (\<forall>h \<in> set hs. data_frame s h) \<and>
     (if Valid (pde s USERTEMP) then hs = [] \<and> (\<exists>t. temp_slot s a t) else length hs = 1)"

lemma page_entry_simple:
  assumes "f < 0x100000" and "perm \<in> {PTE_W, PTE_U OR PTE_W}"
  shows "PageFrameNumber (page_entry f perm) = f" and "Valid (page_entry f perm)"
proof -
  have "perm OR PTE_P < 4096" using assms(2) by auto
  then show "PageFrameNumber (page_entry f perm) = f"
    using PageFrameNumber_pack [OF assms(1)] by (simp add: page_entry_def MiPFNtoPhysicalAddress_def)
  show "Valid (page_entry f perm)" by (simp add: page_entry_def Valid_pack)
qed

text \<open>The case of a temporary area with a page table, and its slot.\<close>

definition cow_slot :: "'a mm_state_scheme \<Rightarrow> PVOID \<Rightarrow> frame \<Rightarrow> PVOID \<Rightarrow> frame \<Rightarrow> frame list \<Rightarrow> bool" where
  "cow_slot s a f t g fs \<longleftrightarrow> cow_page s a f \<and> free_frames s (g # fs) \<and> data_frame s g \<and> Valid (pde s USERTEMP) \<and> temp_slot s a t"

lemma cow_slotD:
  assumes c: "cow_slot s a f t g fs" and r: "2 \<le> unat (RefCount s f)" "unat (RefCount s f) + 1 < 2 ^ 32"
  shows "tables_ok s" "free_frames s (g # fs)" "IsPageAlignedAddress a" "IsUserAddress a" "Valid (pde s a)"
    "Valid (pte s a)" "Valid (pde s t)" "pte s t = 0" "PageFrameNumber (pte s a) = f" "f \<noteq> 0"
    "f < MMNumberOfPhysicalPages s" "data_frame s f" "data_frame s g" "PDX a \<noteq> 768" "PDX t \<noteq> 768"
    "pageno a \<noteq> pageno t"
    "RefCount s f \<noteq> 0" "RefCount s f \<noteq> 1" "RefCount s f + 1 \<noteq> 0" "RefCount s f + 1 \<noteq> 1" "RefCount s f - 1 \<noteq> 0"
    "g \<noteq> 0" "g < MMNumberOfPhysicalPages s" "RefCount s g = 0" "g \<noteq> f" "distinct (g # fs)" "f \<notin> set fs"
    "IsPageAlignedAddress t" "USERTEMP \<le> t" "t < USERTEMPEND" "t \<noteq> 0" "Valid (pde s USERTEMP)"
proof -
  show cd: "tables_ok s" "free_frames s (g # fs)" "IsPageAlignedAddress a" "IsUserAddress a" "Valid (pde s a)"
    "Valid (pte s a)" "pte s t = 0" "PageFrameNumber (pte s a) = f" "f \<noteq> 0"
    "f < MMNumberOfPhysicalPages s" "data_frame s f" "data_frame s g" "Valid (pde s USERTEMP)"
    using c by (auto simp: cow_slot_def cow_page_def temp_slot_def)
  obtain k where k: "k < 1024" "t = page_at USERTEMP k" using c by (auto simp: cow_slot_def temp_slot_def)
  note u = temp_page [OF k(1), folded k(2)]
  show "Valid (pde s t)" using cd(13) u(2) by (simp add: pde_def)
  show "IsPageAlignedAddress t" "USERTEMP \<le> t" "t < USERTEMPEND" "t \<noteq> 0"
    using u(1,3) k(1) by (auto simp: word_le_nat_alt word_less_nat_alt)
  show "PDX a \<noteq> 768" using cd user_not_768 by blast
  show "PDX t \<noteq> 768" using u(2) by (simp add: PDX_def)
  show "pageno a \<noteq> pageno t"
  proof
    assume "pageno a = pageno t"
    then have "PDX a = PDX t \<and> PTX a = PTX t" using same_page_iff by (simp add: pageno_def)
    then have "pte s a = 0" using cd by (simp add: pte_def pde_def)
    then show False using cd by (simp add: Valid_def)
  qed
  show r0: "RefCount s f \<noteq> 0" "RefCount s f \<noteq> 1" "RefCount s f + 1 \<noteq> 0" "RefCount s f + 1 \<noteq> 1" "RefCount s f - 1 \<noteq> 0"
    using r unat_add_no_wrap [of "RefCount s f" 1] by auto
  show "g \<noteq> 0" "g < MMNumberOfPhysicalPages s" "RefCount s g = 0" "g \<noteq> f" "distinct (g # fs)" "f \<notin> set fs"
    using cd r0(1) by (auto simp: free_frames_def klist_rep_def ring_def)
qed

text \<open>
  Half way through the copy: the shared frame is mapped in the temporary area with an extra reference, and the new frame at the
  faulting page.
\<close>

definition cow_remapped :: "'a mm_state_scheme \<Rightarrow> PVOID \<Rightarrow> frame \<Rightarrow> PVOID \<Rightarrow> frame \<Rightarrow> frame list \<Rightarrow> 'a mm_state_scheme \<Rightarrow> bool" where
  "cow_remapped s a f t g fs s' \<longleftrightarrow> tables_ok s' \<and> pde s' = pde s \<and> mm_core s' = mm_core s \<and> free_frames s' fs \<and>
     RefCount s' = (RefCount s)(f := RefCount s f + 1, g := 1) \<and>
     (\<forall>b. Valid (pde s b) \<longrightarrow> pte s' b = (if pageno b = pageno a then page_entry g (PTE_U OR PTE_W)
       else if pageno b = pageno t then page_entry f PTE_W else pte s b)) \<and>
     (\<forall>h. h \<noteq> PageFrameNumber (pde s a) \<and> h \<noteq> PageFrameNumber (pde s t) \<longrightarrow> PhysMem s' h = PhysMem s h)"

lemma cow_remap:
  assumes c: "cow_slot s a f t g fs" and r: "2 \<le> unat (RefCount s f)" "unat (RefCount s f) + 1 < 2 ^ 32"
  shows "\<exists>s1 s2 s3 s4. MiIncReferencePFN f s = Inr s1 \<and> MiRemovePage MM_PDE_ADDRESS a s1 = Inr (STATUS_SUCCESS, s2) \<and>
    MmMapPageTemp f s2 = Inr (t, s3) \<and> MmMapSegment MM_PDE_ADDRESS a PGSIZE (PTE_U OR PTE_W) s3 = Inr (STATUS_SUCCESS, s4) \<and>
    cow_remapped s a f t g fs s4"
proof -
  note cd = cow_slotD [OF c r]
  note n = cd(14) and nt = cd(15) and ne = cd(16) and r0 = cd(17-21) and g = cd(22-27)
  let ?N = "MMNumberOfPhysicalPages s" and ?R = "RefCount s"
  let ?s1 = "s\<lparr>RefCount := ?R(f := ?R f + 1)\<rparr>"
  have s1: "MiIncReferencePFN f s = Inr ?s1" using cd by (simp add: MiIncReferencePFN_eq)
  have f1: "free_frames ?s1 (g # fs)" using cd r0(1) by (auto simp: free_frames_def)
  obtain s2 where s2: "MiRemovePage MM_PDE_ADDRESS a ?s1 = Inr (STATUS_SUCCESS, s2)" "tables_ok s2" "pde s2 = pde s"
    "mm_core s2 = mm_core s" "free_frames s2 (g # fs)" "RefCount s2 = ?R"
    "\<forall>b. Valid (pde s b) \<longrightarrow> pte s2 b = (if pageno b = pageno a then 0 else pte s b)"
    "\<forall>h. h \<noteq> PageFrameNumber (pde s a) \<longrightarrow> PhysMem s2 h = PhysMem s h"
    using remove_shared [of ?s1 "g # fs" a f] cd f1 n r0 by auto
  have N2: "MMNumberOfPhysicalPages s2 = ?N" by (rule mm_core_sel(2) [OF s2(4)])
  have t2: "Valid (pde s2 t)" "pte s2 t = 0" using s2(3,7) cd ne by auto
  obtain s3 where s3: "MiInsertPage MM_PDE_ADDRESS t (Some f) PTE_W s2 = Inr (STATUS_SUCCESS, s3)"
    "tables_ok s3" "pde s3 = pde s" "mm_core s3 = mm_core s" "free_frames s3 (g # fs)" "RefCount s3 = ?R(f := ?R f + 1)"
    "\<forall>b. Valid (pde s b) \<longrightarrow> pte s3 b = (if pageno b = pageno t then page_entry f PTE_W
       else if pageno b = pageno a then 0 else pte s b)"
    "\<forall>h. h \<noteq> PageFrameNumber (pde s a) \<and> h \<noteq> PageFrameNumber (pde s t) \<longrightarrow> PhysMem s3 h = PhysMem s h"
    using map_fresh [OF s2(2) t2(1) nt t2(2) _ _ s2(5), of f PTE_W] cd N2 g(4,6) s2 by auto
  have m3: "MmMapPageTemp f s2 = Inr (t, s3)"
  proof -
    obtain k where k: "k < 1024" "t = page_at USERTEMP k" "\<forall>j < k. Valid (pte s (page_at USERTEMP j)) \<and> pageno (page_at USERTEMP j) \<noteq> pageno a"
      using c by (auto simp: cow_slot_def temp_slot_def)
    have "Valid (pde s (page_at USERTEMP j))" if "j < k" for j using temp_page(2) [of j] that k(1) cd(32) by (simp add: pde_def)
    then have "\<forall>j < k. Valid (pte s2 (page_at USERTEMP j))" using k(3) s2(7) by simp
    moreover have "Valid (pde s2 USERTEMP)" "\<not> Valid (pte s2 t)" using cd(32) s2(3) t2(2) by (simp_all add: Valid_def)
    ultimately show ?thesis using map_temp_first [OF s2(2) _ k(1,2)] s3(1) by simp
  qed
  have rep: "klist_rep (pfn_list s3) (g # fs)" using s3(5) by (simp add: free_frames_def)
  obtain l where l: "klist_rep l fs" "MmAllocatePFN (MmGetPteAddress a) s3 = Inr (STATUS_SUCCESS, Some g,
      (set_pfn_list l s3)\<lparr>PteAddress := (PteAddress s3)(g := MmGetPteAddress a)\<rparr>)"
    using MmAllocatePFN_Cons [OF rep] by blast
  let ?s3 = "(set_pfn_list l s3)\<lparr>PteAddress := (PteAddress s3)(g := MmGetPteAddress a)\<rparr>"
  have t3: "tables_ok ?s3" "Valid (pde ?s3 a)" "pte ?s3 a = 0" "free_frames ?s3 fs" "g < MMNumberOfPhysicalPages ?s3"
    using s3 cd(5) ne l(1) g mm_core_sel(2) [OF s3(4)] by (auto simp: free_frames_def)
  obtain s4 where s4: "MiInsertPage MM_PDE_ADDRESS a (Some g) (PTE_U OR PTE_W) ?s3 = Inr (STATUS_SUCCESS, s4)"
    "tables_ok s4" "pde s4 = pde s" "mm_core s4 = mm_core s" "free_frames s4 fs"
    "RefCount s4 = ?R(f := ?R f + 1, g := 1)"
    "\<forall>b. Valid (pde s b) \<longrightarrow> pte s4 b = (if pageno b = pageno a then page_entry g (PTE_U OR PTE_W)
       else if pageno b = pageno t then page_entry f PTE_W else pte s b)"
    "\<forall>h. h \<noteq> PageFrameNumber (pde s a) \<and> h \<noteq> PageFrameNumber (pde s t) \<longrightarrow> PhysMem s4 h = PhysMem s h"
    using map_fresh [OF t3(1,2) n t3(3) g(1) t3(5,4), of "PTE_U OR PTE_W"] s3 g ne by auto
  have w: "unat a + 4096 < 2 ^ 32" using cd(4) by (simp add: IsUserAddress_def word_less_nat_alt)
  have m4: "MmMapSegment MM_PDE_ADDRESS a PGSIZE (PTE_U OR PTE_W) s3 = Inr (STATUS_SUCCESS, s4)"
    by (rule map_segment_one [OF cd(3) w l(2) s4(1)])
  show ?thesis using s1 s2(1) m3 m4 s4 unfolding cow_remapped_def by blast
qed

lemma cow_copy_correct:
  assumes c: "cow_slot s a f t g fs" and r: "2 \<le> unat (RefCount s f)" "unat (RefCount s f) + 1 < 2 ^ 32"
  shows "\<exists>s'. cow_copy f a s = Inr s' \<and> tables_ok s' \<and> pde s' = pde s \<and> mm_core s' = mm_core s \<and>
    free_frames s' fs \<and> RefCount s' = (RefCount s)(f := RefCount s f - 1, g := 1) \<and>
    (\<forall>b. Valid (pde s b) \<longrightarrow> pte s' b = (if pageno b = pageno a then page_entry g (PTE_U OR PTE_W) else pte s b)) \<and>
    PhysMem s' g = PhysMem s f \<and> (\<forall>h. data_frame s h \<and> h \<noteq> g \<longrightarrow> PhysMem s' h = PhysMem s h)"
proof -
  note cd = cow_slotD [OF c r]
  note n = cd(14) and nt = cd(15) and ne = cd(16) and r0 = cd(17-21) and g = cd(22-27)
  let ?N = "MMNumberOfPhysicalPages s" and ?R = "RefCount s"
  obtain s1 s2 s3 s4 where m: "MiIncReferencePFN f s = Inr s1" "MiRemovePage MM_PDE_ADDRESS a s1 = Inr (STATUS_SUCCESS, s2)"
    "MmMapPageTemp f s2 = Inr (t, s3)" "MmMapSegment MM_PDE_ADDRESS a PGSIZE (PTE_U OR PTE_W) s3 = Inr (STATUS_SUCCESS, s4)"
    "cow_remapped s a f t g fs s4" using cow_remap [OF assms] by blast
  note s4 = m(1) m(5) [unfolded cow_remapped_def, THEN conjunct1] m(5) [unfolded cow_remapped_def, THEN conjunct2, THEN conjunct1]
    m(5) [unfolded cow_remapped_def, THEN conjunct2, THEN conjunct2, THEN conjunct1]
    m(5) [unfolded cow_remapped_def, THEN conjunct2, THEN conjunct2, THEN conjunct2, THEN conjunct1]
    m(5) [unfolded cow_remapped_def, THEN conjunct2, THEN conjunct2, THEN conjunct2, THEN conjunct2, THEN conjunct1]
    m(5) [unfolded cow_remapped_def, THEN conjunct2, THEN conjunct2, THEN conjunct2, THEN conjunct2, THEN conjunct2, THEN conjunct1]
    m(5) [unfolded cow_remapped_def, THEN conjunct2, THEN conjunct2, THEN conjunct2, THEN conjunct2, THEN conjunct2, THEN conjunct2]
  have small: "f < 0x100000" "g < 0x100000"
    using cd(2,11) g(2) by (auto simp: free_frames_def)
  have tr: "translate s4 t = Some f" "translate s4 a = Some g"
    using s4(3,7) cd(5,7) ne page_entry_simple [OF small(1), of PTE_W] page_entry_simple [OF small(2), of "PTE_U OR PTE_W"]
    by (simp_all add: translate_eq)
  have "data_frame s4 f" "data_frame s4 g" using cd(12,13) s4(3) by (simp_all add: data_frame_def)
  have "PageFrameNumber (pde s a) \<noteq> f" "PageFrameNumber (pde s t) \<noteq> f"
    using cd(5,7,12) by (auto simp: data_frame_def)
  then have pf: "PhysMem s4 f = PhysMem s f" using s4(8) by auto
  let ?s5 = "s4\<lparr>PhysMem := (PhysMem s4)(g := PhysMem s4 f)\<rparr>"
  have c5: "vcopy_page a t s4 = Inr ?s5" using tr by (simp add: vcopy_page_def)
  have dg: "g \<noteq> page_dir s4" "\<And>b. Valid (pde s4 b) \<Longrightarrow> PageFrameNumber (pde s4 b) \<noteq> g"
    using data_frame_dir [OF s4(2) \<open>data_frame s4 g\<close>] \<open>data_frame s4 g\<close> by (auto simp: data_frame_def)
  note k5 = copy_page_tables [OF s4(2) dg, where w = "PhysMem s4 f"]
  have s5: "tables_ok ?s5" "pde ?s5 = pde s" "free_frames ?s5 fs" "mm_core ?s5 = mm_core s"
    "RefCount ?s5 = ?R(f := ?R f + 1, g := 1)" "f < MMNumberOfPhysicalPages ?s5"
    using k5(1,2) s4 cd(11) mm_core_sel(2) [OF s4(4)]
    by (simp_all add: free_frames_def pfn_list_def mm_core_def)
  have p5: "pte ?s5 b = pte s4 b" if "Valid (pde s b)" for b using k5(3) [of b] that s4(3) by simp
  have v5: "Valid (pde ?s5 t)" "Valid (pte ?s5 t)" "PageFrameNumber (pte ?s5 t) = f"
    using cd(7) s5(2) p5 [OF cd(7)] s4(7) ne page_entry_simple [OF small(1), of PTE_W] by simp_all
  obtain s6 where s6: "MiRemovePage MM_PDE_ADDRESS t ?s5 = Inr (STATUS_SUCCESS, s6)" "tables_ok s6"
    "pde s6 = pde s" "mm_core s6 = mm_core s" "free_frames s6 fs" "RefCount s6 = ?R(f := ?R f, g := 1)"
    "\<forall>b. Valid (pde s b) \<longrightarrow> pte s6 b = (if pageno b = pageno t then 0 else pte ?s5 b)"
    "\<forall>h. h \<noteq> PageFrameNumber (pde s t) \<longrightarrow> PhysMem s6 h = PhysMem ?s5 h"
    using remove_shared [OF s5(1,3) _ v5(1,2) nt v5(3) s5(6)] s5(2,4,5) r0 g(4)
cd(28)
    by (auto simp: fun_upd_twist [of f g] fun_upd_idem)
  have N6: "f < MMNumberOfPhysicalPages s6" using cd(11) mm_core_sel(2) [OF s6(4)] by simp
  have u6: "MmUnMapPageTemp t f ?s5 = Inr s6"
    using s6(1,6) N6 r0 g(4) cd(29,30) by (simp add: MmUnMapPageTemp_def pfn_access_def linorder_not_less)
  obtain l7 where l7: "klist_rep l7 fs" "MiDecReferencePFN f s6 =
      Inr ((set_pfn_list l7 s6)\<lparr>RefCount := ?R(f := ?R f - 1, g := 1)\<rparr>)"
    using MiDecReferencePFN_eq [OF s6(5) N6] s6(6) r0 g(4) by (auto simp: fun_upd_twist)
  let ?s7 = "(set_pfn_list l7 s6)\<lparr>RefCount := ?R(f := ?R f - 1, g := 1)\<rparr>"
  have zero: "pte s b = 0" if "Valid (pde s b)" "pageno b = pageno t" for b
    using that cd(8) same_page_iff [of b t] by (simp add: pageno_def pte_def pde_def)
  have "pte ?s7 b = (if pageno b = pageno a then page_entry g (PTE_U OR PTE_W) else pte s b)"
    if "Valid (pde s b)" for b using that s6(7) p5 [OF that] s4(7) ne zero [OF that] by auto
  moreover have "free_frames ?s7 fs" using s6(5) l7(1) g(5,6) by (auto simp: free_frames_def s6(6))
  moreover have "PhysMem ?s7 g = PhysMem s f" "\<forall>h. data_frame s h \<and> h \<noteq> g \<longrightarrow> PhysMem ?s7 h = PhysMem s h"
    using s6(8) pf s4(8) cd(5,7,13) by (auto simp: data_frame_def) metis
  moreover have "cow_copy f a s = Inr ?s7"
    using m(1-4) c5 u6 l7(2) cd(31) by (simp add: cow_copy_def)
  ultimately show ?thesis using s6(2,3,4) by (intro exI [of _ ?s7]) simp
qed


text \<open>The handler on a copy-on-write page.\<close>

lemma MmPfHandler_cow:
  assumes c: "cow_page s a f" and cow: "CopyOnWrite (pte s a)" "\<not> Writable (pte s a)"
    and fault: "pageno va = pageno a" and nz: "RefCount s f \<noteq> 0"
  shows "MmPfHandler va s = (if RefCount s f = 1
      then Inr (set_entry (PageFrameNumber (pde s a)) (PTX a) (set_Writable True (set_CopyOnWrite False (pte s a))) s)
      else cow_copy f a s)"
proof -
  have cd: "tables_ok s" "IsPageAlignedAddress a" "IsUserAddress a" "Valid (pde s a)" "Valid (pte s a)"
    "PageFrameNumber (pte s a) = f" "f < MMNumberOfPhysicalPages s" using c by (simp_all add: cow_page_def)
  have same: "PDX va = PDX a" "PTX va = PTX a" using fault same_page_iff [of va a] by (auto simp: pageno_def)
  then have e: "pde s va = pde s a" "pte s va = pte s a" by (simp_all add: pde_def pte_def)
  have al: "unat a mod 4096 = 0" using cd(2) unat_PGOFF [of a] by (simp add: IsPageAlignedAddress_def)
  have "unat (ROUNDDOWN va PGSIZE) = unat a"
    using fault al by (simp add: unat_ROUNDDOWN pageno_def minus_mod_eq_div_mult [symmetric])
  then have page: "ROUNDDOWN va PGSIZE = a" by (simp add: word_unat_eq_iff)
  have "unat a < 0x7FC00000" using cd(3) by (simp add: IsUserAddress_def word_less_nat_alt)
  then have "unat a div 4096 < 0x7FC00" using div_less_iff_less_mult [of 4096 "unat a" "0x7FC00"] by simp
  then have "unat va < 0x7FC00000"
    using fault div_less_iff_less_mult [of 4096 "unat va" "0x7FC00"] by (simp add: pageno_def)
  then have user: "IsUserAddress va" by (simp add: IsUserAddress_def word_less_nat_alt)
  show ?thesis
    using tables_okD(1) [OF cd(1)] cd e same user cow nz
    by (simp add: MmPfHandler_def vread_pde vread_pte vwrite_pte MmGetPfnFromPte_eq pfn_access_def page)
qed

text \<open>An entry that only changes its permissions.\<close>

lemma translate_same_frame:
  assumes ok: "tables_ok s" "Valid (pde s a)" "Valid (pte s a)" "PDX a \<noteq> 768" and w: "Valid w" "PageFrameNumber w = PageFrameNumber (pte s a)"
  shows "translate (set_entry (PageFrameNumber (pde s a)) (PTX a) w s) = translate s"
proof
  fix b
  note fr = set_pte_frame [OF ok(1,2,4), where w = w]
  show "translate (set_entry (PageFrameNumber (pde s a)) (PTX a) w s) b = translate s b"
  proof (cases "PDX b = PDX a \<and> PTX b = PTX a")
    case True
    then have "pde s b = pde s a" "pte s b = pte s a" by (simp_all add: pde_def pte_def)
    then show ?thesis using fr(1) [of b] fr(3) [of b] True w ok(2,3) by (simp add: translate_eq)
  next
    case False
    then show ?thesis using fr(1) [of b] fr(3) [of b] by (cases "Valid (pde s b)") (auto simp: translate_eq)
  qed
qed

lemma with_pt_set_entry:
  assumes "T \<noteq> page_dir s" and "T \<noteq> h"
  shows "with_pt a h l (set_entry T i w s) = set_entry T i w (with_pt a h l s)"
proof -
  have "PhysMem (with_pt a h l (set_entry T i w s)) = PhysMem (set_entry T i w (with_pt a h l s))"
    using assms by (auto simp: with_pt_def)
  moreover have "with_pt a h l (set_entry T i w s) = (with_pt a h l s)\<lparr>PhysMem := PhysMem (with_pt a h l (set_entry T i w s))\<rparr>"
    by (simp add: with_pt_def set_entry_def set_pfn_list_def)
  moreover have "set_entry T i w (with_pt a h l s) = (with_pt a h l s)\<lparr>PhysMem := PhysMem (set_entry T i w (with_pt a h l s))\<rparr>"
    by (simp add: set_entry_def)
  ultimately show ?thesis by simp
qed

text \<open>Copying with a missing table for the temporary area is copying with the table present and empty.\<close>

lemma remove_referenced:
  assumes p: "cow_page s a f" and r: "RefCount s f + 1 \<noteq> 0" "RefCount s f \<noteq> 0"
  shows "bind (MiIncReferencePFN f s) (\<lambda>s. MiRemovePage MM_PDE_ADDRESS a s) =
    Inr (STATUS_SUCCESS, set_entry (PageFrameNumber (pde s a)) (PTX a) 0 s)"
proof -
  have cd: "tables_ok s" "IsPageAlignedAddress a" "Valid (pde s a)" "Valid (pte s a)" "PageFrameNumber (pte s a) = f" "f < MMNumberOfPhysicalPages s"
    using p by (simp_all add: cow_page_def)
  have sm: "self_map s" by (rule tables_okD(1) [OF cd(1)])
  let ?s1 = "s\<lparr>RefCount := (RefCount s)(f := RefCount s f + 1)\<rparr>"
  have i: "MiIncReferencePFN f s = Inr ?s1" using cd(6) by (simp add: MiIncReferencePFN_eq)
  have d: "MiDecReferencePFN f ?s1 = Inr s" using cd(6) r(2) by (simp add: MiDecReferencePFN_def set_ref_def pfn_access_def)
  have "MiPhysicalAddresstoPFN (push_bit 12 (PageFrameNumber (pte s a))) = f"
    using drop_push_bit [OF PageFrameNumber_shift [of "pte s a"]] cd(5) by (simp add: MiPhysicalAddresstoPFN_def)
  then show ?thesis using i d cd sm by (simp add: MiRemovePage_def not_foreign vread_pde vread_pte vwrite_pte)
qed

lemma cow_copy_removed:
  assumes p: "cow_page s a f" and r: "RefCount s f + 1 \<noteq> 0" "RefCount s f \<noteq> 0"
  shows "cow_copy f a s = bind (MmMapPageTemp f (set_entry (PageFrameNumber (pde s a)) (PTX a) 0 s)) (\<lambda>(VirtualAddress, s).
     if VirtualAddress = 0 then Inl (KeBugCheck ''Failed to Handle Page Fault'')
     else bind (MmMapSegment MM_PDE_ADDRESS a PGSIZE (PTE_U OR PTE_W) s) (\<lambda>(Status, s).
     if \<not> success Status then Inl (KeBugCheck ''Failed to Handle Page Fault MapSeg Failed'')
     else bind (vcopy_page a VirtualAddress s) (\<lambda>s. bind (MmUnMapPageTemp VirtualAddress f s) (\<lambda>s. MiDecReferencePFN f s))))"
proof -
  have f: "f < MMNumberOfPhysicalPages s" using p by (simp add: cow_page_def)
  show ?thesis using remove_referenced [OF assms] f by (simp add: cow_copy_def MiIncReferencePFN_eq)
qed

lemma cow_copy_with_pt:
  assumes p: "cow_page s a f" and r: "RefCount s f + 1 \<noteq> 0" "RefCount s f \<noteq> 0" and i: "\<not> Valid (pde s USERTEMP)"
    and h: "data_frame s h" "h < MMNumberOfPhysicalPages s" "h < 0x100000" "RefCount s h = 0"
    and l: "LIST_REMOVE_HEAD (pfn_list s) = Inr (Some h, l)"
  shows "cow_copy f a s = cow_copy f a (with_pt USERTEMP h l s)" and "cow_page (with_pt USERTEMP h l s) a f"
    and "Valid (pde (with_pt USERTEMP h l s) USERTEMP)" and "temp_slot (with_pt USERTEMP h l s) a USERTEMP"
    and "pte (with_pt USERTEMP h l s) a = pte s a"
proof -
  have cd: "tables_ok s" "IsPageAlignedAddress a" "IsUserAddress a" "Valid (pde s a)" "Valid (pte s a)" "PageFrameNumber (pte s a) = f" "f \<noteq> 0"
    "f < MMNumberOfPhysicalPages s" "data_frame s f" using p by (simp_all add: cow_page_def)
  have n: "PDX USERTEMP \<noteq> 768" "PDX a \<noteq> 768" using user_not_768 [OF cd(3)] by (simp_all add: PDX_def)
  have u: "IsUserAddress USERTEMP" by (simp add: IsUserAddress_def)
  let ?w = "with_pt USERTEMP h l" and ?x = "set_entry (PageFrameNumber (pde s a)) (PTX a) 0"
  note w = with_pt_tables [OF cd(1) h(1,3) n(1) i, where l = l]
  have ap: "PDX a \<noteq> PDX USERTEMP" using cd(4) i by (auto simp: pde_def)
  have pa: "pde (?w s) a = pde s a" using w(1) [of a] ap by simp
  show ta: "pte (?w s) a = pte s a" using w(2) [OF cd(4) n(2)] .
  show cp: "cow_page (?w s) a f"
    using cd pa ta w(5) w(6) [of f] h(4) r(2) by (auto simp: cow_page_def)
  show v: "Valid (pde (?w s) USERTEMP)" using w(1) [of USERTEMP] table_entry_frame [OF h(3)] by simp
  have z: "pte (?w s) USERTEMP = 0" using w(3) [of USERTEMP] by simp
  have "page_at USERTEMP 0 = USERTEMP" by (simp add: page_at_def)
  then show "temp_slot (?w s) a USERTEMP" using z unfolding temp_slot_def by (intro exI [of _ 0]) simp
  have fh: "f \<noteq> h" using r(2) h(4) by auto
  then have r': "RefCount (?w s) f + 1 \<noteq> 0" "RefCount (?w s) f \<noteq> 0" using r by simp_all
  let ?y = "?x s"
  note fr = set_pte_frame [OF cd(1,4) n(2), where w = 0]
  have th: "PageFrameNumber (pde s a) \<noteq> h" using h(1) cd(4) by (auto simp: data_frame_def)
  have td: "PageFrameNumber (pde s a) \<noteq> page_dir s" by (rule tables_okD(2) [OF cd(1,4) n(2)])
  have comm: "?w ?y = ?x (?w s)"
    by (rule with_pt_set_entry [OF td th])
  have y: "tables_ok ?y" "\<not> Valid (pde ?y USERTEMP)" using fr(1,2) i by simp_all
  have dh: "data_frame ?y h" using h(1) fr(1) by (simp add: data_frame_def)
  have ly: "LIST_REMOVE_HEAD (pfn_list ?y) = Inr (Some h, l)" using l by simp
  have dy: "dir_mapped MM_PDE_ADDRESS ?y" by (rule dir_mapped_self [OF tables_okD(1) [OF y(1)]])
  have ins: "MiInsertPage MM_PDE_ADDRESS USERTEMP (Some f) PTE_W ?y = MiInsertPage MM_PDE_ADDRESS USERTEMP (Some f) PTE_W (?w ?y)"
    using h by (intro MiInsertPage_with_pt [OF y(1) dy u y(2) dh _ h(3) _ ly]) simp_all
  note wy = with_pt_tables [OF y(1) dh h(3) n(1) y(2), where l = l]
  have vy: "Valid (pde (?w ?y) USERTEMP)" "\<not> Valid (pte (?w ?y) USERTEMP)"
    using wy(1) [of USERTEMP] wy(3) [of USERTEMP] table_entry_frame [OF h(3)] by (simp_all add: Valid_def)
  have "USERTEMP = page_at USERTEMP 0" by (simp add: page_at_def)
  from map_temp_first [OF wy(5) vy(1) _ this vy(2)] have "MmMapPageTemp f (?w ?y) = bind (MiInsertPage MM_PDE_ADDRESS USERTEMP (Some f) PTE_W (?w ?y)) (\<lambda>(Status, s).
    Inr (if \<not> success Status then (0, s) else (USERTEMP, s)))" by simp
  moreover have "MmMapPageTemp f ?y = bind (MiInsertPage MM_PDE_ADDRESS USERTEMP (Some f) PTE_W ?y) (\<lambda>(Status, s).
    Inr (if \<not> success Status then (0, s) else (USERTEMP, s)))"
    using y by (simp add: MmMapPageTemp_def vread_pde tables_okD(1) bind_assoc split_def cong: if_cong)
  ultimately have m: "MmMapPageTemp f ?y = MmMapPageTemp f (?w ?y)" using ins by simp
  show "cow_copy f a s = cow_copy f a (?w s)"
    unfolding cow_copy_removed [OF p r] cow_copy_removed [OF cp r'] pa m comm ..
qed

text \<open>The copy in both cases.\<close>

definition cow_translation :: "PVOID \<Rightarrow> frame list \<Rightarrow> frame \<Rightarrow> 'a mm_state_scheme \<Rightarrow> PVOID \<Rightarrow> frame option" where
  "cow_translation a hs g s b = (if pageno b = pageno a then Some g
     else if hs \<noteq> [] \<and> pageno b = pageno (MmGetPteAddress USERTEMP) then Some (hd hs) else translate s b)"

lemma cow_copy_translation:
  assumes c: "cow_slot s a f t g fs" and r: "2 \<le> unat (RefCount s f)" "unat (RefCount s f) + 1 < 2 ^ 32"
  shows "\<exists>s'. cow_copy f a s = Inr s' \<and> pte s' a = page_entry g (PTE_U OR PTE_W) \<and> mm_core s' = mm_core s \<and> free_frames s' fs \<and> tables_ok s' \<and>
    translate s' = cow_translation a [] g s \<and> RefCount s' = (RefCount s)(f := RefCount s f - 1, g := 1) \<and>
    PhysMem s' g = PhysMem s f \<and> (\<forall>h. data_frame s h \<and> h \<noteq> g \<longrightarrow> PhysMem s' h = PhysMem s h)"
proof -
  note cd = cow_slotD [OF c r]
  obtain s' where s': "cow_copy f a s = Inr s'" "pde s' = pde s" "mm_core s' = mm_core s" "free_frames s' fs" "tables_ok s'"
    "RefCount s' = (RefCount s)(f := RefCount s f - 1, g := 1)"
    "\<forall>b. Valid (pde s b) \<longrightarrow> pte s' b = (if pageno b = pageno a then page_entry g (PTE_U OR PTE_W) else pte s b)"
    "PhysMem s' g = PhysMem s f" "\<forall>h. data_frame s h \<and> h \<noteq> g \<longrightarrow> PhysMem s' h = PhysMem s h" using cow_copy_correct [OF assms] by blast
  have g: "g < 0x100000" using cd(2) by (auto simp: free_frames_def)
  have "Valid (pde s b)" if "pageno b = pageno a" for b
    using that same_page_iff [of b a] cd(5) by (simp add: pageno_def pde_def)
  then have "translate s' b = cow_translation a [] g s b" for b
    using s'(2,7) page_entry_simple [OF g, of "PTE_U OR PTE_W"]
    by (cases "pageno b = pageno a"; cases "Valid (pde s b)") (auto simp: cow_translation_def translate_eq)
  then have "translate s' = cow_translation a [] g s" by (rule ext)
  moreover have "pte s' a = page_entry g (PTE_U OR PTE_W)" using s'(7) cd(5) by simp
  ultimately show ?thesis using s' by blast
qed

lemma cow_copy_ready:
  assumes p: "cow_page s a f" and c: "cow_ready s a hs g fs" and r: "2 \<le> unat (RefCount s f)" "unat (RefCount s f) + 1 < 2 ^ 32"
  shows "\<exists>s'. cow_copy f a s = Inr s' \<and> pte s' a = page_entry g (PTE_U OR PTE_W) \<and> mm_core s' = mm_core s \<and> free_frames s' fs \<and> tables_ok s' \<and>
    translate s' = cow_translation a hs g s \<and>
    RefCount s' = (\<lambda>x. if x \<in> set hs then 1 else ((RefCount s)(f := RefCount s f - 1, g := 1)) x) \<and>
    PhysMem s' g = PhysMem s f \<and> (\<forall>h. data_frame s h \<and> h \<notin> set (g # hs) \<longrightarrow> PhysMem s' h = PhysMem s h)"
proof (cases "Valid (pde s USERTEMP)")
  case True
  then obtain t where "cow_slot s a f t g fs" "hs = []" using p c by (auto simp: cow_slot_def cow_ready_def)
  from cow_copy_translation [OF this(1) r] this(2) show ?thesis by (simp add: fun_upd_def)
next
  case False
  then obtain h where hs: "hs = [h]" using c by (auto simp: cow_ready_def length_Suc_conv)
  have fr: "free_frames s (h # g # fs)" and dg: "data_frame s g" "data_frame s h" using c hs by (simp_all add: cow_ready_def)
  have h: "h < MMNumberOfPhysicalPages s" "h < 0x100000" "RefCount s h = 0" "h \<noteq> g" using fr by (auto simp: free_frames_def klist_rep_def ring_def)
  obtain l where l: "klist_rep l (g # fs)" "LIST_REMOVE_HEAD (pfn_list s) = Inr (Some h, l)"
    using LIST_REMOVE_HEAD_correct [of "pfn_list s" "h # g # fs"] fr by (auto simp: free_frames_def)
  have r0: "RefCount s f + 1 \<noteq> 0" "RefCount s f \<noteq> 0" using r unat_add_no_wrap [of "RefCount s f" 1] by auto
  let ?s = "with_pt USERTEMP h l s"
  note k = cow_copy_with_pt [OF p r0 False dg(2) h(1-3) l(2)]
  have t: "tables_ok s" "f \<noteq> h" using p r0(2) h(3) by (auto simp: cow_page_def)
  have n: "PDX USERTEMP \<noteq> 768" by (simp add: PDX_def)
  note w = with_pt_tables [OF t(1) dg(2) h(2) n False, where l = l]
  have "cow_slot ?s a f USERTEMP g fs"
    using k(2-4) with_pt_free [OF fr l(1)] dg h(4) w(6) [of g] by (simp add: cow_slot_def)
  moreover have rf: "RefCount ?s f = RefCount s f" using t(2) by simp
  then have "2 \<le> unat (RefCount ?s f)" "unat (RefCount ?s f) + 1 < 2 ^ 32" using r by simp_all
  ultimately obtain s' where s': "cow_copy f a ?s = Inr s'" "pte s' a = page_entry g (PTE_U OR PTE_W)"
    "mm_core s' = mm_core ?s" "free_frames s' fs" "tables_ok s'" "translate s' = cow_translation a [] g ?s"
    "RefCount s' = (RefCount ?s)(f := RefCount ?s f - 1, g := 1)" "PhysMem s' g = PhysMem ?s f"
    "\<forall>h. data_frame ?s h \<and> h \<noteq> g \<longrightarrow> PhysMem s' h = PhysMem ?s h" using cow_copy_translation [of ?s a f USERTEMP g fs] by blast
  have "translate ?s b = (if pageno b = pageno (MmGetPteAddress USERTEMP) then Some h else translate s b)" for b
  proof -
    have same: "pageno b = pageno (MmGetPteAddress USERTEMP) \<longleftrightarrow> PDX b = 768 \<and> PTX b = PDX USERTEMP"
      using same_page_iff [of b "MmGetPteAddress USERTEMP"] PteAddress_walk [of USERTEMP] by (auto simp: pageno_def)
    note e = table_entry_frame [OF h(2)]
    have sd: "Valid (pde s b)" if "PDX b = 768" using tables_okD(1) [OF t(1)] that by (simp add: pde_def self_map_def)
    show ?thesis
    proof (cases "PDX b = 768")
      case True
      then show ?thesis using w(1) [of b] w(4) [OF True] sd [OF True] same n e by (auto simp: translate_eq)
    next
      case b: False
      then show ?thesis using w(1) [of b] w(2) [of b] w(3) [of b] same False Valid_0 by (cases "Valid (pde s b)"; cases "PDX b = PDX USERTEMP") (auto simp: translate_eq pde_def)
    qed
  qed
  then have "translate s' = cow_translation a hs g s" using s'(6) hs by (simp add: fun_eq_iff cow_translation_def)
  moreover have "RefCount s' = (\<lambda>x. if x \<in> set hs then 1 else ((RefCount s)(f := RefCount s f - 1, g := 1)) x)"
    using s'(7) hs t(2) h(4) rf by auto
  moreover have "PhysMem s' g = PhysMem s f" using s'(8) w(7) [of f] p t(2) by (simp add: cow_page_def)
  moreover have "\<forall>x. data_frame s x \<and> x \<notin> set (g # hs) \<longrightarrow> PhysMem s' x = PhysMem s x" using s'(9) w(6,7) hs by auto
  moreover have "cow_copy f a s = Inr s'" "mm_core s' = mm_core s" using s'(1,3) k(1) by simp_all
  ultimately show ?thesis using s'(2,4,5) by blast
qed

text \<open>C4. A write fault on a copy-on-write page of the user half, in an address space whose tables are in order, is resolved. When the frame has one reference, its entry
  becomes writable and loses the mark, and nothing else changes. When it is shared, the page moves to a free frame \<open>g\<close> that holds the same contents, writable
  and with one reference; the shared frame loses one reference and keeps its contents, as does every other data frame. If the temporary area has a page table, it must have a
  free slot (all slots before it valid and not the faulting page), \<open>g\<close> is the head of the free list, and no other address changes its translation. If it has none, as
  in a process that was never forked nor copied a page, the head of the free list becomes this table, with one reference, \<open>g\<close> is the frame after it,
  and only the address at which the new table itself appears in the table area changes its translation too. The free frames must hold no page tables.\<close>

theorem page_fault_copy_on_write:
  assumes p: "cow_page s a f" and c: "RefCount s f = 1 \<or> cow_ready s a hs g fs" and cow: "CopyOnWrite (pte s a)" "\<not> Writable (pte s a)"
    and fault: "pageno va = pageno a" and r: "1 \<le> unat (RefCount s f)" "unat (RefCount s f) + 1 < 2 ^ 32"
  shows "\<exists>s'. MmPfHandler va s = Inr s' \<and> Writable (pte s' a) \<and> \<not> CopyOnWrite (pte s' a) \<and> tables_ok s' \<and>
    (if RefCount s f = 1
     then translate s' = translate s \<and> RefCount s' = RefCount s \<and> pfn_list s' = pfn_list s \<and> (\<forall>h. data_frame s h \<longrightarrow> PhysMem s' h = PhysMem s h)
     else translate s' = cow_translation a hs g s \<and>
       RefCount s' = (\<lambda>x. if x \<in> set hs then 1 else ((RefCount s)(f := RefCount s f - 1, g := 1)) x) \<and> free_frames s' fs \<and>
       PhysMem s' g = PhysMem s f \<and> (\<forall>h. data_frame s h \<and> h \<notin> set (g # hs) \<longrightarrow> PhysMem s' h = PhysMem s h)) \<and> mm_core s' = mm_core s"
proof -
  have cd: "tables_ok s" "IsPageAlignedAddress a" "IsUserAddress a" "Valid (pde s a)" "Valid (pte s a)"
    "PageFrameNumber (pte s a) = f" "f < MMNumberOfPhysicalPages s"
    using p by (simp_all add: cow_page_def)
  have n: "PDX a \<noteq> 768" by (rule user_not_768 [OF cd(3)])
  have nz: "RefCount s f \<noteq> 0" using r(1) by auto
  note handler = MmPfHandler_cow [OF p cow fault nz]
  show ?thesis
  proof (cases "RefCount s f = 1")
    case True
    let ?w = "set_Writable True (set_CopyOnWrite False (pte s a))"
    let ?s = "set_entry (PageFrameNumber (pde s a)) (PTX a) ?w s"
    note fr = set_pte_frame [OF cd(1,4) n, where w = ?w]
    have w: "Writable ?w" "\<not> CopyOnWrite ?w" "Valid ?w" "PageFrameNumber ?w = PageFrameNumber (pte s a)"
      using cd(5) by (auto simp: set_Writable_def set_CopyOnWrite_def Writable_def CopyOnWrite_def Valid_def
          PageFrameNumber_def bit_simps intro!: bit_word_eqI)
    have "translate ?s = translate s" by (rule translate_same_frame [OF cd(1,4,5) n w(3,4)])
    moreover have "pte ?s a = ?w" using fr(3) [OF cd(4)] by simp
    moreover have "PhysMem ?s h = PhysMem s h" if "data_frame s h" for h
      using that cd(4) by (auto simp: data_frame_def)
    ultimately show ?thesis using handler True w fr(2) by (intro exI [of _ ?s]) simp
  next
    case False
    then have "2 \<le> unat (RefCount s f)" using r(1) by (metis One_nat_def Suc_1 le_SucE not_less_eq_eq
        unat_1 word_unat_eq_iff le_antisym)
    moreover have "cow_ready s a hs g fs" using c False by blast
    ultimately obtain s' where s': "cow_copy f a s = Inr s'" "pte s' a = page_entry g (PTE_U OR PTE_W)" "mm_core s' = mm_core s" "free_frames s' fs" "tables_ok s'"
      "translate s' = cow_translation a hs g s" "RefCount s' = (\<lambda>x. if x \<in> set hs then 1 else ((RefCount s)(f := RefCount s f - 1, g := 1)) x)"
      "PhysMem s' g = PhysMem s f" "\<forall>h. data_frame s h \<and> h \<notin> set (g # hs) \<longrightarrow> PhysMem s' h = PhysMem s h"
      using cow_copy_ready [OF p _ _ r(2)] by blast
    have "Writable (page_entry g (PTE_U OR PTE_W))" "\<not> CopyOnWrite (page_entry g (PTE_U OR PTE_W))"
      by (simp_all add: page_entry_def Writable_def CopyOnWrite_def MiPFNtoPhysicalAddress_def bit_simps)
    then show ?thesis using handler False s' by (intro exI [of _ s']) (simp del: set_simps)
  qed
qed

text \<open>The small machine without the table of the temporary area.\<close>

definition forked_mm :: mm_state where
  "forked_mm = small_mm\<lparr>PhysMem := \<lambda>f i. if f = 1 \<and> i = 1 then 0 else small_mem f i\<rparr>"

theorem page_fault_copy_on_write_witness:
  "\<exists>s'. MmPfHandler 0x800123 forked_mm = Inr s' \<and> translate s' 0x800000 = Some 6 \<and>
     PhysMem s' 6 = PhysMem forked_mm 10 \<and> RefCount s' 10 = 1 \<and> RefCount s' 5 = 1"
proof -
  have mem: "PhysMem forked_mm = (\<lambda>f i. if f = 1 \<and> i = 1 then 0 else small_mem f i)" by (simp add: forked_mm_def)
  have pd: "pde forked_mm va = (if PDX va = 1 then 0 else small_mem 1 (PDX va))" for va
    using small_mm_sel(3) by (simp add: forked_mm_def pde_def page_dir_def)
  have d: "data_frame forked_mm h" if "h \<in> {5, 6, 10}" for h
    using that by (auto simp: data_frame_def pd small_mem_def Valid_0)
  have ok: "tables_ok forked_mm"
    using small_mm_sel(3) by (auto simp: forked_mm_def tables_ok_def self_map_def page_dir_def small_mem_def Valid_0)
  have fr: "free_frames forked_mm [5, 6, 7]" using small_free by (simp add: forked_mm_def free_frames_def pfn_list_def)
  have p: "pte forked_mm 0x800000 = 0xA805" using mem by (simp add: pte_def pd PDX_def PTX_def small_mem_def)
  have "PDX 0x800000 = 2" "PDX USERTEMP = 1" by (simp_all add: PDX_def)
  then have v: "Valid (pde forked_mm 0x800000)" "\<not> Valid (pde forked_mm USERTEMP)" by (simp_all add: pd small_mem_def Valid_0)
  have sel: "RefCount forked_mm = RefCount small_mm" "MMNumberOfPhysicalPages forked_mm = 0x10000" by (simp_all add: forked_mm_def)
  have cp: "cow_page forked_mm 0x800000 10"
    using ok v(1) d sel by (simp add: cow_page_def p IsPageAlignedAddress_def PGOFF_def IsUserAddress_def)
  have cr: "cow_ready forked_mm 0x800000 [5] 6 [7]" using fr d v(2) by (simp add: cow_ready_def)
  have w: "CopyOnWrite (pte forked_mm 0x800000)" "\<not> Writable (pte forked_mm 0x800000)"
    by (simp_all add: p CopyOnWrite_def Writable_def bit_numeral_rec)
  have pg: "pageno 0x800123 = pageno 0x800000" by (simp add: pageno_def)
  from page_fault_copy_on_write [OF cp disjI2 [OF cr] w pg] sel obtain s' where s': "MmPfHandler 0x800123 forked_mm = Inr s'"
    "translate s' = cow_translation 0x800000 [5] 6 forked_mm"
    "RefCount s' = (\<lambda>x. if x \<in> set [5] then 1 else ((RefCount forked_mm)(10 := RefCount forked_mm 10 - 1, 6 := 1)) x)" "PhysMem s' 6 = PhysMem forked_mm 10"
    by auto
  then show ?thesis using sel by (intro exI [of _ s']) (simp add: cow_translation_def)
qed

section \<open>Segments\<close>

text \<open>The free frames are not mapped anywhere and are no page tables.\<close>

definition frames_unused :: "'a mm_state_scheme \<Rightarrow> frame list \<Rightarrow> bool" where
  "frames_unused s fs \<longleftrightarrow> (\<forall>f \<in> set fs. data_frame s f \<and> (\<forall>b. translate s b \<noteq> Some f))"

text \<open>The entry of a page, zero where there is no page table; it is what the translation depends on.\<close>

definition page_pte :: "'a mm_state_scheme \<Rightarrow> PVOID \<Rightarrow> MMPTE" where
  "page_pte s b = (if Valid (pde s b) then pte s b else 0)"

lemma translate_page_pte: "translate s b = (if Valid (page_pte s b) then Some (PageFrameNumber (page_pte s b)) else None)"
  by (simp add: translate_eq page_pte_def Valid_0)

text \<open>A page that can be mapped: its entry is zero, or it is a user page without a table.\<close>

definition page_free :: "'a mm_state_scheme \<Rightarrow> PVOID \<Rightarrow> bool" where
  "page_free s a \<longleftrightarrow> page_pte s a = 0 \<and> (if Valid (pde s a) then PDX a \<noteq> 768 else IsUserAddress a)"

lemma page_free_not_768: "page_free s a \<Longrightarrow> PDX a \<noteq> 768"
  using user_not_768 [of a] by (auto simp: page_free_def split: if_splits)

lemma data_frame_area:
  assumes ok: "tables_ok s" and x: "data_frame s x" and c: "PDX c = 768"
  shows "translate s c \<noteq> Some x"
proof
  assume t: "translate s c = Some x"
  have p: "pte s c = PhysMem s (page_dir s) (PTX c)" using c tables_okD(1) [OF ok] by (simp add: pte_def pde_def self_map_def)
  have k: "unat (PTX c) < 1024" by (rule PTX_less)
  then have "unat (push_bit 22 (PTX c) :: ULONG) = unat (PTX c) * 2 ^ 22" by (simp add: push_bit_eq_mult unat_word_ariths)
  then have "unat (PDX (push_bit 22 (PTX c))) = unat (PTX c)" using k by (simp add: unat_PDX)
  then have "PDX (push_bit 22 (PTX c)) = PTX c" by (simp add: word_unat_eq_iff)
  then have "pde s (push_bit 22 (PTX c)) = pte s c" using p by (simp add: pde_def)
  moreover have "Valid (pde s (push_bit 22 (PTX c))) \<longrightarrow> PageFrameNumber (pde s (push_bit 22 (PTX c))) \<noteq> x" using x unfolding data_frame_def by blast
  ultimately show False using t by (simp add: translate_eq split: if_splits)
qed

lemma dir_mapped_map_page:
  assumes ok: "tables_ok s" and D: "dir_mapped D s" and v: "Valid (pde s a)" "PDX a \<noteq> 768" "pte s a = 0"
    and s': "pde s' = pde s" "page_dir s' = page_dir s" "\<forall>b. Valid (pde s b) \<longrightarrow> pte s' b = (if pageno b = pageno a then w else pte s b)"
  shows "dir_mapped D s'"
proof -
  have d: "Valid (pde s D)" "Valid (pte s D)" "PageFrameNumber (pte s D) = page_dir s"
    using D by (auto simp: dir_mapped_def translate_eq split: if_splits)
  have "pageno D \<noteq> pageno a"
  proof
    assume "pageno D = pageno a"
    then have "pte s D = pte s a" using same_page_iff [of D a] by (simp add: pageno_def pte_def pde_def)
    then show False using d(2) v(3) by (simp add: Valid_def)
  qed
  then show ?thesis using D d s' by (simp add: dir_mapped_def translate_eq)
qed

text \<open>One page, with the table made for it when it is missing.\<close>

lemma insert_page_present:
  assumes ok: "tables_ok s" and D: "dir_mapped D s" and v: "Valid (pde s a)" "PDX a \<noteq> 768" "pte s a = 0"
    and g: "g \<noteq> 0" "g < MMNumberOfPhysicalPages s" "RefCount s g = 0" and fr: "free_frames s fs" "g \<notin> set fs"
  shows "\<exists>s'. MiInsertPage D a (Some g) perm s = Inr (STATUS_SUCCESS, s') \<and> tables_ok s' \<and> dir_mapped D s' \<and> mm_core s' = mm_core s \<and>
    free_frames s' fs \<and> RefCount s' = (RefCount s)(g := 1) \<and> pde s' = pde s \<and>
    (\<forall>b. Valid (pde s b) \<longrightarrow> pte s' b = (if pageno b = pageno a then page_entry g perm else pte s b)) \<and>
    (\<forall>x. data_frame s x \<longrightarrow> PhysMem s' x = PhysMem s x)"
proof -
  obtain s' where s': "MiInsertPage MM_PDE_ADDRESS a (Some g) perm s = Inr (STATUS_SUCCESS, s')" "tables_ok s'"
    "pde s' = pde s" "mm_core s' = mm_core s" "free_frames s' fs" "RefCount s' = (RefCount s)(g := RefCount s g + 1)"
    "\<forall>b. Valid (pde s b) \<longrightarrow> pte s' b = (if pageno b = pageno a then page_entry g perm else pte s b)"
    "\<forall>h. h \<noteq> PageFrameNumber (pde s a) \<longrightarrow> PhysMem s' h = PhysMem s h"
    using map_fresh [OF ok v g(1,2) fr, of perm] by blast
  have sm: "self_map s" by (rule tables_okD(1) [OF ok])
  have D': "dir_mapped D s'" using dir_mapped_map_page [OF ok D v s'(3) mm_core_sel(7) [OF s'(4)] s'(7)] .
  have g0: "PageFrameNumber 0 \<noteq> g" using g(1) by (simp add: PageFrameNumber_def)
  let ?t = "set_entry (PageFrameNumber (pde s a)) (PTX a) (page_entry g perm) s"
  have t: "pde ?t = pde s" "tables_ok ?t" "\<forall>b. Valid (pde s b) \<longrightarrow> pte ?t b = (if pageno b = pageno a then page_entry g perm else pte s b)"
    using set_pte_frame [OF ok v(1,2), where w = "page_entry g perm"] same_page_iff by (auto simp: fun_eq_iff pageno_def)
  have dt: "dir_mapped D ?t" using dir_mapped_map_page [OF ok D v t(1) _ t(3)] by simp
  let ?u = "?t\<lparr>RefCount := (RefCount s)(g := RefCount s g + 1)\<rparr>"
  have u: "tables_ok ?u" "page_dir ?u = page_dir ?t" "translate ?u D = translate ?t D" using t(2) by (simp_all add: page_dir_def translate_eq)
  have du: "dir_mapped D ?u" using dt unfolding dir_mapped_def u(2,3) .
  have inv: "\<exists>c. IsCurrentPageDirectory E z = Inr c" if "tables_ok z" "dir_mapped E z" for E and z :: "'a mm_state_scheme"
    using not_foreign_dir [OF that, of 0] that(2) by (cases "IsCurrentPageDirectory E z") (auto simp: foreign_user_page_def dir_mapped_def)
  have "insert_frame E a g perm s = Inr (STATUS_SUCCESS, ?u)" if "dir_mapped E s" "dir_mapped E ?u" for E
    using sm v g g0 inv [OF u(1) that(2)] by (auto simp: insert_frame_def vread_pte vwrite_pte MiIncReferencePFN_eq InvalidateTLB_def page_entry_def)
  moreover have "dir_mapped MM_PDE_ADDRESS s" "dir_mapped MM_PDE_ADDRESS ?u"
    using dir_mapped_self sm tables_okD(1) [OF u(1)] by blast+
  moreover have "MiInsertPage E a (Some g) perm s = insert_frame E a g perm s" if "dir_mapped E s" for E
    using not_foreign_dir [OF ok that, of a] v sm by (simp add: MiInsertPage_def vread_pde)
  ultimately have "MiInsertPage D a (Some g) perm s = Inr (STATUS_SUCCESS, s')" using s'(1) D du by simp
  moreover have "PhysMem s' x = PhysMem s x" if "data_frame s x" for x using s'(8) that v(1) by (auto simp: data_frame_def)
  ultimately show ?thesis using s'(2-7) D' g(3) by (intro exI [of _ s']) simp
qed

lemma insert_page_free:
  assumes ok: "tables_ok s" and D: "dir_mapped D s" and a: "page_free s a"
    and hs: "if Valid (pde s a) then hs = [] else length hs = 1" "\<forall>h \<in> set hs. data_frame s h"
    and g: "g \<noteq> 0" "g < MMNumberOfPhysicalPages s" "RefCount s g = 0" and fr: "free_frames s (hs @ fs)" "g \<notin> set (hs @ fs)"
  shows "\<exists>s'. MiInsertPage D a (Some g) perm s = Inr (STATUS_SUCCESS, s') \<and> tables_ok s' \<and> dir_mapped D s' \<and> mm_core s' = mm_core s \<and>
    free_frames s' fs \<and> RefCount s' = (\<lambda>x. if x \<in> set (g # hs) then 1 else RefCount s x) \<and>
    (\<forall>b. Valid (pde s' b) \<longleftrightarrow> Valid (pde s b) \<or> PDX b = PDX a) \<and>
    (\<forall>b. PDX b \<noteq> 768 \<longrightarrow> page_pte s' b = (if pageno b = pageno a then page_entry g perm else page_pte s b)) \<and>
    (\<forall>x. data_frame s x \<and> x \<notin> set hs \<longrightarrow> data_frame s' x \<and> PhysMem s' x = PhysMem s x)"
proof (cases "Valid (pde s a)")
  case True
  then have a': "PDX a \<noteq> 768" "pte s a = 0" and h: "hs = []" using a hs by (simp_all add: page_free_def page_pte_def)
  obtain s' where s': "MiInsertPage D a (Some g) perm s = Inr (STATUS_SUCCESS, s')" "tables_ok s'" "dir_mapped D s'" "mm_core s' = mm_core s"
    "free_frames s' fs" "RefCount s' = (RefCount s)(g := 1)" "pde s' = pde s"
    "\<forall>b. Valid (pde s b) \<longrightarrow> pte s' b = (if pageno b = pageno a then page_entry g perm else pte s b)"
    "\<forall>x. data_frame s x \<longrightarrow> PhysMem s' x = PhysMem s x"
    using insert_page_present [OF ok D True a' g, of fs perm] fr h by auto
  have same: "Valid (pde s b)" if "PDX b = PDX a" for b using that True by (simp add: pde_def)
  then have "page_pte s' b = (if pageno b = pageno a then page_entry g perm else page_pte s b)" for b
    using s'(7,8) same_page_iff [of b a] by (auto simp: page_pte_def pageno_def)
  then show ?thesis using s' h same by (intro exI [of _ s']) (auto simp: fun_eq_iff data_frame_def)
next
  case False
  then obtain h where h: "hs = [h]" and u: "IsUserAddress a" using a hs(1) by (auto simp: page_free_def length_Suc_conv)
  have n: "PDX a \<noteq> 768" by (rule page_free_not_768 [OF a])
  have hh: "data_frame s h" "h < MMNumberOfPhysicalPages s" "h < 0x100000" "RefCount s h = 0" "g \<noteq> h" "g \<notin> set fs"
    using hs fr h by (auto simp: free_frames_def)
  obtain l where l: "klist_rep l fs" "LIST_REMOVE_HEAD (pfn_list s) = Inr (Some h, l)"
    using LIST_REMOVE_HEAD_correct [of "pfn_list s" "h # fs"] fr h by (auto simp: free_frames_def)
  let ?s = "with_pt a h l s"
  note w = with_pt_tables [OF ok hh(1,3) n False, where l = l]
  have e: "MiInsertPage D a (Some g) perm s = MiInsertPage D a (Some g) perm ?s" by (rule MiInsertPage_with_pt [OF ok D u False hh(1-4) l(2)])
  have v: "Valid (pde ?s a)" "pte ?s a = 0" using w(1) [of a] w(3) [of a] table_entry_frame [OF hh(3)] by simp_all
  have D': "dir_mapped D ?s" by (rule dir_mapped_with_pt [OF ok D hh(1,3) n False])
  have g': "g < MMNumberOfPhysicalPages ?s" "RefCount ?s g = 0" using g hh(5) by simp_all
  have fr': "free_frames ?s fs" by (rule with_pt_free [OF _ l(1)]) (use fr h in simp)
  obtain s' where s': "MiInsertPage D a (Some g) perm ?s = Inr (STATUS_SUCCESS, s')" "tables_ok s'" "dir_mapped D s'" "mm_core s' = mm_core ?s"
    "free_frames s' fs" "RefCount s' = (RefCount ?s)(g := 1)" "pde s' = pde ?s"
    "\<forall>b. Valid (pde ?s b) \<longrightarrow> pte s' b = (if pageno b = pageno a then page_entry g perm else pte ?s b)"
    "\<forall>x. data_frame ?s x \<longrightarrow> PhysMem s' x = PhysMem ?s x"
    using insert_page_present [OF w(5) D' v(1) n v(2) g(1) g' fr' hh(6), of perm] by blast
  have vp: "Valid (pde ?s b) \<longleftrightarrow> Valid (pde s b) \<or> PDX b = PDX a" for b using w(1) [of b] table_entry_frame [OF hh(3)] by simp
  have "page_pte s' b = (if pageno b = pageno a then page_entry g perm else page_pte s b)" if "PDX b \<noteq> 768" for b
  proof (cases "PDX b = PDX a")
    case True
    then have "\<not> Valid (pde s b)" using False by (simp add: pde_def)
    then show ?thesis using s'(7,8) vp [of b] w(3) [OF True] True by (simp add: page_pte_def)
  next
    case b: False
    then have "pageno b \<noteq> pageno a" using same_page_iff [of b a] by (auto simp: pageno_def)
    then show ?thesis using s'(7,8) vp [of b] w(2) [of b] that b by (auto simp: page_pte_def)
  qed
  moreover have "data_frame s' x" "PhysMem s' x = PhysMem s x" if "data_frame s x" "x \<notin> set hs" for x
    using s'(7,9) w(6) [of x] w(7) [of x] that h by (auto simp: data_frame_def)
  ultimately show ?thesis using s' e vp h hh(5) by (intro exI [of _ s']) (auto simp: fun_eq_iff)
qed


text \<open>The pages of a range that get a table of their own on the way, and the places of the frames in the free list: each page takes one frame, and a table after it when
  it is the first page without one.\<close>

definition new_table :: "'a mm_state_scheme \<Rightarrow> PVOID \<Rightarrow> nat \<Rightarrow> bool" where
  "new_table s base k \<longleftrightarrow> \<not> Valid (pde s (page_at base k)) \<and> (k = 0 \<or> PDX (page_at base k) \<noteq> PDX (page_at base (k - 1)))"

definition frame_index :: "'a mm_state_scheme \<Rightarrow> PVOID \<Rightarrow> nat \<Rightarrow> nat" where
  "frame_index s base k = k + length (filter (new_table s base) [0..<k])"

definition range_free :: "'a mm_state_scheme \<Rightarrow> PVOID \<Rightarrow> nat \<Rightarrow> bool" where
  "range_free s base n \<longleftrightarrow> IsPageAlignedAddress base \<and> unat base + 4096 * n \<le> 2 ^ 32 \<and> (\<forall>k < n. page_free s (page_at base k))"

lemma frame_index_Suc: "frame_index s base (Suc k) = frame_index s base k + (if new_table s base k then 2 else 1)"
  by (simp add: frame_index_def)

lemma frame_index_mono: "i < k \<Longrightarrow> frame_index s base i < frame_index s base k"
  by (induction k) (auto simp: frame_index_Suc less_Suc_eq)

lemma range_free_page:
  assumes "range_free s base n" and "k < n"
  shows "unat (page_at base k) = unat base + 4096 * k" and "pageno (page_at base k) = pageno base + k" and "page_free s (page_at base k)"
proof -
  show u: "unat (page_at base k) = unat base + 4096 * k" using assms by (intro page_at_unat [of base n]) (auto simp: range_free_def)
  show "pageno (page_at base k) = pageno base + k" by (simp add: pageno_def u)
  show "page_free s (page_at base k)" using assms by (simp add: range_free_def)
qed

lemma new_table_iff:
  assumes r: "range_free s base n" and k: "k < n"
  shows "new_table s base k \<longleftrightarrow> \<not> Valid (pde s (page_at base k)) \<and> (\<forall>j < k. PDX (page_at base j) \<noteq> PDX (page_at base k))"
proof -
  have "PDX (page_at base (k - 1)) = PDX (page_at base k)" if j: "j < k" "PDX (page_at base j) = PDX (page_at base k)" for j
  proof -
    have "unat (page_at base i) = unat base + 4096 * i" if "i \<le> k" for i using range_free_page(1) [OF r] that k by simp
    then have u: "unat (page_at base j) \<le> unat (page_at base (k - 1))" "unat (page_at base (k - 1)) \<le> unat (page_at base k)" using j(1) by simp_all
    have "unat (PDX (page_at base j)) \<le> unat (PDX (page_at base (k - 1)))" "unat (PDX (page_at base (k - 1))) \<le> unat (PDX (page_at base k))"
      unfolding unat_PDX by (rule div_le_mono [OF u(1)], rule div_le_mono [OF u(2)])
    then show ?thesis using j(2) by (simp add: word_unat_eq_iff)
  qed
  then show ?thesis by (cases k) (auto simp: new_table_def)
qed

text \<open>One round of \<open>MmMapSegment\<close>.\<close>

definition segment_body :: "PVOID \<Rightarrow> PVOID \<Rightarrow> ULONG \<Rightarrow> ULONG \<Rightarrow> 'a mm_state_scheme \<Rightarrow> fault + 'a mm_state_scheme" where
  "segment_body D base perm i s =
     (let VAddr = base + i in
      bind (MmAllocatePFN (MmGetPteAddress VAddr) s) (\<lambda>(status, pfn, s).
      if \<not> success status then Inl (KeBugCheck ''page allocation Failed'')
      else
      bind (MiInsertPage D VAddr pfn perm s) (\<lambda>(status, s).
      if \<not> success status then Inl (KeBugCheck ''MiInsertPage Failed'') else Inr s)))"

lemma segment_body_step:
  assumes ok: "tables_ok s" and D: "dir_mapped D s" and a: "page_free s a" "a = base + i"
    and hs: "if Valid (pde s a) then hs = [] else length hs = 1" "\<forall>h \<in> set hs. data_frame s h" and fr: "free_frames s (g # hs @ fs)"
  shows "\<exists>s'. segment_body D base perm i s = Inr s' \<and> tables_ok s' \<and> dir_mapped D s' \<and> mm_core s' = mm_core s \<and>
    free_frames s' fs \<and> RefCount s' = (\<lambda>x. if x \<in> set (g # hs) then 1 else RefCount s x) \<and>
    (\<forall>b. Valid (pde s' b) \<longleftrightarrow> Valid (pde s b) \<or> PDX b = PDX a) \<and>
    (\<forall>b. PDX b \<noteq> 768 \<longrightarrow> page_pte s' b = (if pageno b = pageno a then page_entry g perm else page_pte s b)) \<and>
    (\<forall>x. data_frame s x \<and> x \<notin> set hs \<longrightarrow> data_frame s' x \<and> PhysMem s' x = PhysMem s x)"
proof -
  have rep: "klist_rep (pfn_list s) (g # hs @ fs)" using fr by (simp add: free_frames_def)
  obtain l where l: "klist_rep l (hs @ fs)" "MmAllocatePFN (MmGetPteAddress a) s = Inr (STATUS_SUCCESS, Some g, (set_pfn_list l s)\<lparr>PteAddress := (PteAddress s)(g := MmGetPteAddress a)\<rparr>)"
    using MmAllocatePFN_Cons [OF rep] by blast
  let ?s = "(set_pfn_list l s)\<lparr>PteAddress := (PteAddress s)(g := MmGetPteAddress a)\<rparr>"
  have ok': "tables_ok ?s" using ok by simp
  have e: "page_dir ?s = page_dir s" "translate ?s D = translate s D" "pde ?s = pde s" "page_pte ?s = page_pte s"
    "data_frame ?s = data_frame s" "MMNumberOfPhysicalPages ?s = MMNumberOfPhysicalPages s" "RefCount ?s = RefCount s"
    "mm_core ?s = mm_core s" "PhysMem ?s = PhysMem s"
    by (simp_all add: page_dir_def translate_eq page_pte_def data_frame_def fun_eq_iff)
  have D': "dir_mapped D ?s" using D unfolding dir_mapped_def e .
  have a': "page_free ?s a" using a(1) by (simp add: page_free_def e)
  have fr': "free_frames ?s (hs @ fs)" "g \<notin> set (hs @ fs)" using fr l(1) rep by (auto simp: free_frames_def klist_rep_def ring_def)
  have g: "g \<noteq> 0" "g < MMNumberOfPhysicalPages s" "RefCount s g = 0" using fr by (auto simp: free_frames_def)
  obtain s' where s': "MiInsertPage D a (Some g) perm ?s = Inr (STATUS_SUCCESS, s')" "tables_ok s'" "dir_mapped D s'" "mm_core s' = mm_core s"
    "free_frames s' fs" "RefCount s' = (\<lambda>x. if x \<in> set (g # hs) then 1 else RefCount s x)"
    "\<forall>b. Valid (pde s' b) \<longleftrightarrow> Valid (pde s b) \<or> PDX b = PDX a"
    "\<forall>b. PDX b \<noteq> 768 \<longrightarrow> page_pte s' b = (if pageno b = pageno a then page_entry g perm else page_pte s b)"
    "\<forall>x. data_frame s x \<and> x \<notin> set hs \<longrightarrow> data_frame s' x \<and> PhysMem s' x = PhysMem s x"
    using insert_page_free [of ?s D a hs g fs perm, unfolded e, OF ok' D' a' hs g fr'] by blast
  then show ?thesis using l(2) a(2) by (intro exI [of _ s']) (simp add: segment_body_def)
qed

lemma segment_loop:
  assumes ok: "tables_ok s" and D: "dir_mapped D s" and r: "range_free s base n"
    and fr: "free_frames s fs" and df: "\<forall>f \<in> set fs. data_frame s f" and len: "frame_index s base n \<le> length fs"
  shows "\<exists>s'. foldE (segment_body D base perm) (map (\<lambda>k. of_nat (4096 * k)) [0..<n]) s = Inr s' \<and> tables_ok s' \<and> dir_mapped D s' \<and>
    mm_core s' = mm_core s \<and> free_frames s' (drop (frame_index s base n) fs) \<and>
    RefCount s' = (\<lambda>x. if x \<in> set (take (frame_index s base n) fs) then 1 else RefCount s x) \<and>
    (\<forall>b. Valid (pde s' b) \<longleftrightarrow> Valid (pde s b) \<or> (\<exists>j < n. PDX b = PDX (page_at base j))) \<and>
    (\<forall>b. PDX b \<noteq> 768 \<longrightarrow> page_pte s' b = (if in_pages base n b then page_entry (fs ! frame_index s base (pageno b - pageno base)) perm else page_pte s b)) \<and>
    (\<forall>x. data_frame s x \<and> (x \<in> set (take (frame_index s base n) fs) \<longrightarrow> (\<exists>k < n. x = fs ! frame_index s base k)) \<longrightarrow>
      data_frame s' x \<and> PhysMem s' x = PhysMem s x)"
  using r len
proof (induction n)
  case 0
  then show ?case using ok D fr by (auto simp: in_pages_def frame_index_def)
next
  case (Suc n)
  let ?i = "frame_index s base" and ?a = "page_at base n"
  have "range_free s base n" "?i n \<le> length fs" using Suc.prems frame_index_mono [of n "Suc n" s base] by (simp_all add: range_free_def)
  then obtain s1 where s1: "foldE (segment_body D base perm) (map (\<lambda>k. of_nat (4096 * k)) [0..<n]) s = Inr s1" "tables_ok s1" "dir_mapped D s1"
    "mm_core s1 = mm_core s" "free_frames s1 (drop (?i n) fs)" "RefCount s1 = (\<lambda>x. if x \<in> set (take (?i n) fs) then 1 else RefCount s x)"
    "\<forall>b. Valid (pde s1 b) \<longleftrightarrow> Valid (pde s b) \<or> (\<exists>j < n. PDX b = PDX (page_at base j))"
    "\<forall>b. PDX b \<noteq> 768 \<longrightarrow> page_pte s1 b = (if in_pages base n b then page_entry (fs ! ?i (pageno b - pageno base)) perm else page_pte s b)"
    "\<forall>x. data_frame s x \<and> (x \<in> set (take (?i n) fs) \<longrightarrow> (\<exists>k < n. x = fs ! ?i k)) \<longrightarrow> data_frame s1 x \<and> PhysMem s1 x = PhysMem s x"
    using Suc.IH by auto
  note p = range_free_page [OF Suc.prems(1) lessI]
  have n768: "PDX ?a \<noteq> 768" by (rule page_free_not_768 [OF p(3)])
  have new: "new_table s base n \<longleftrightarrow> \<not> Valid (pde s1 ?a)" using new_table_iff [OF Suc.prems(1) lessI] s1(7) by auto
  define hs where "hs = (if new_table s base n then [fs ! Suc (?i n)] else [])"
  define m where "m = ?i (Suc n)"
  have m: "m = ?i n + Suc (length hs)" "m \<le> length fs" using Suc.prems(2) by (simp_all add: m_def frame_index_Suc hs_def)
  have d: "drop (?i n) fs = fs ! ?i n # hs @ drop m fs"
    using m by (auto simp: hs_def Cons_nth_drop_Suc split: if_splits)
  have t: "take m fs = take (?i n) fs @ fs ! ?i n # hs"
  proof -
    have "take m fs = take (?i n) fs @ take (Suc (length hs)) (drop (?i n) fs)" by (simp only: m(1) take_add)
    then show ?thesis by (simp add: d)
  qed
  have dist: "distinct fs" using fr by (simp add: free_frames_def klist_rep_def ring_def)
  then have apart: "x \<notin> set (take (?i n) fs)" if "x \<in> set (fs ! ?i n # hs)" for x
    using that t distinct_take [of fs m] by auto
  have fsm: "x \<in> set fs" if "x \<in> set (fs ! ?i n # hs)" for x using that t in_set_takeD [of x m fs] by auto
  have hsd: "\<forall>h \<in> set hs. data_frame s1 h" using s1(9) df apart fsm by auto
  have z: "page_free s1 ?a"
  proof -
    have "\<not> in_pages base n ?a" using p(2) by (simp add: in_pages_def)
    then have "page_pte s1 ?a = 0" using s1(8) n768 p(3) by (simp add: page_free_def)
    moreover have "IsUserAddress ?a" if "\<not> Valid (pde s1 ?a)" using that s1(7) p(3) by (auto simp: page_free_def)
    ultimately show ?thesis using n768 by (simp add: page_free_def)
  qed
  obtain s2 where s2: "segment_body D base perm (of_nat (4096 * n)) s1 = Inr s2" "tables_ok s2" "dir_mapped D s2" "mm_core s2 = mm_core s1"
    "free_frames s2 (drop m fs)" "RefCount s2 = (\<lambda>x. if x \<in> set (fs ! ?i n # hs) then 1 else RefCount s1 x)"
    "\<forall>b. Valid (pde s2 b) \<longleftrightarrow> Valid (pde s1 b) \<or> PDX b = PDX ?a"
    "\<forall>b. PDX b \<noteq> 768 \<longrightarrow> page_pte s2 b = (if pageno b = pageno ?a then page_entry (fs ! ?i n) perm else page_pte s1 b)"
    "\<forall>x. data_frame s1 x \<and> x \<notin> set hs \<longrightarrow> data_frame s2 x \<and> PhysMem s2 x = PhysMem s1 x"
    using segment_body_step [OF s1(2,3) z page_at_def, of hs "fs ! ?i n" "drop m fs" perm] hsd s1(5) new unfolding d by (auto simp: hs_def)
  have "RefCount s2 = (\<lambda>x. if x \<in> set (take m fs) then 1 else RefCount s x)" unfolding t s2(6) s1(6) by (auto simp: fun_eq_iff)
  moreover have "Valid (pde s2 b) \<longleftrightarrow> Valid (pde s b) \<or> (\<exists>j < Suc n. PDX b = PDX (page_at base j))" for b
    using s2(7) s1(7) by (auto simp: less_Suc_eq)
  moreover have "page_pte s2 b = (if in_pages base (Suc n) b then page_entry (fs ! ?i (pageno b - pageno base)) perm else page_pte s b)" if "PDX b \<noteq> 768" for b
    using s2(8) s1(8) that p(2) by (auto simp: in_pages_def)
  moreover have "data_frame s2 x \<and> PhysMem s2 x = PhysMem s x"
    if x: "data_frame s x" "x \<in> set (take m fs) \<longrightarrow> (\<exists>k < Suc n. x = fs ! ?i k)" for x
  proof -
    have lt: "?i k < m" "?i k < length fs" if "k < Suc n" for k using frame_index_mono [OF that, of s base] m by (simp_all add: m_def)
    have "x \<notin> set hs"
    proof
      assume h: "x \<in> set hs"
      then have nt: "new_table s base n" "x = fs ! Suc (?i n)" by (auto simp: hs_def split: if_splits)
      then obtain k where k: "k < Suc n" "x = fs ! ?i k" using x(2) t h by auto
      have "Suc (?i n) < length fs" using m nt(1) by (simp add: hs_def)
      then have "?i k = Suc (?i n)" using dist k nt(2) lt(2) [OF k(1)] by (simp add: nth_eq_iff_index_eq)
      moreover have "?i k \<le> ?i n" using k(1) frame_index_mono [of k n s base] by (cases "k = n") auto
      ultimately show False by simp
    qed
    moreover have "x \<in> set (take (?i n) fs) \<longrightarrow> (\<exists>k < n. x = fs ! ?i k)"
    proof
      assume y: "x \<in> set (take (?i n) fs)"
      then have "x \<in> set (take m fs)" unfolding t by simp
      then obtain k where k: "k < Suc n" "x = fs ! ?i k" using x(2) by blast
      then have "k \<noteq> n" using y apart [of x] by auto
      then show "\<exists>k < n. x = fs ! ?i k" using k by (auto simp: less_Suc_eq)
    qed
    ultimately show ?thesis using s1(9) s2(9) x(1) by auto
  qed
  ultimately show ?case using s1(1,4) s2(1-5) unfolding m_def [symmetric] by (intro exI [of _ s2]) (simp add: foldE_append)
qed


text \<open>The pages that a segment at \<open>va\<close> of \<open>len\<close> bytes touches.\<close>

definition segment_pages :: "PVOID \<Rightarrow> ULONG \<Rightarrow> nat" where
  "segment_pages va len = (unat va mod 4096 + unat len + 4095) div 4096"

lemma page_entry_perm:
  assumes "f < 0x100000" and "perm < 4096"
  shows "PageFrameNumber (page_entry f perm) = f" and "Valid (page_entry f perm)"
proof -
  have "page_entry f (perm OR PTE_P) = page_entry f perm" by (simp add: page_entry_def or.assoc)
  then show "PageFrameNumber (page_entry f perm) = f" "Valid (page_entry f perm)" using page_entry_frame [OF assms] by simp_all
qed

lemma MmMapSegment_maps:
  fixes va len :: ULONG
  defines "base \<equiv> ROUNDDOWN va PGSIZE" and "n \<equiv> segment_pages va len"
  assumes ok: "tables_ok s" and D: "dir_mapped D s" and r: "range_free s base n"
    and fr: "free_frames s fs" and df: "\<forall>f \<in> set fs. data_frame s f" and cnt: "frame_index s base n \<le> length fs"
    and wrap: "unat va + unat len + 4095 < 2 ^ 32" and perm: "perm < 4096"
  shows "\<exists>s'. MmMapSegment D va len perm s = Inr (STATUS_SUCCESS, s') \<and> tables_ok s' \<and>
    mm_core s' = mm_core s \<and> free_frames s' (drop (frame_index s base n) fs) \<and>
    (\<forall>b. PDX b \<noteq> 768 \<longrightarrow> translate s' b = (if in_pages base n b then Some (fs ! frame_index s base (pageno b - pageno base)) else translate s b)) \<and>
    (\<forall>x. data_frame s x \<and> (x \<in> set (take (frame_index s base n) fs) \<longrightarrow> (\<exists>k < n. x = fs ! frame_index s base k)) \<longrightarrow>
      data_frame s' x \<and> PhysMem s' x = PhysMem s x)"
proof -
  obtain s' where s': "foldE (segment_body D base perm) (map (\<lambda>k. of_nat (4096 * k)) [0..<n]) s = Inr s'" "tables_ok s'"
    "mm_core s' = mm_core s" "free_frames s' (drop (frame_index s base n) fs)"
    "\<forall>b. PDX b \<noteq> 768 \<longrightarrow> page_pte s' b = (if in_pages base n b then page_entry (fs ! frame_index s base (pageno b - pageno base)) perm else page_pte s b)"
    "\<forall>x. data_frame s x \<and> (x \<in> set (take (frame_index s base n) fs) \<longrightarrow> (\<exists>k < n. x = fs ! frame_index s base k)) \<longrightarrow> data_frame s' x \<and> PhysMem s' x = PhysMem s x"
    using segment_loop [OF ok D r fr df cnt, of perm] by blast
  have u: "unat (va + len) = unat va + unat len" using wrap by (intro unat_add_no_wrap) simp
  have b: "unat base = unat va div 4096 * 4096" using unat_ROUNDDOWN [of va PGSIZE] by (simp add: base_def)
  have e: "unat (ROUNDUP (va + len) PGSIZE) = (unat va + unat len + 4095) div 4096 * 4096"
    using wrap u unat_ROUNDUP [of PGSIZE "va + len"] by simp
  have "unat va + unat len + 4095 = 4096 * (unat va div 4096) + (unat va mod 4096 + unat len + 4095)"
    using mult_div_mod_eq [of 4096 "unat va"] by linarith
  then have "(unat va + unat len + 4095) div 4096 = unat va div 4096 + n"
    by (simp only: n_def segment_pages_def)
  then have e': "unat (ROUNDUP (va + len) PGSIZE) = unat base + 4096 * n" using e b by simp
  have "base < ROUNDUP (va + len) PGSIZE \<longleftrightarrow> 0 < n" using e' by (simp add: word_less_nat_alt)
  moreover have sz: "unat (ROUNDUP (va + len) PGSIZE - base) = 4096 * n" using e' by (simp add: unat_sub word_le_nat_alt)
  then have "page_offsets (ROUNDUP (va + len) PGSIZE - base) = map (\<lambda>k. of_nat (4096 * k)) [0..<n]"
    by (simp add: page_offsets_def)
  ultimately have "MmMapSegment D va len perm s = Inr (STATUS_SUCCESS, s')"
    using s'(1) unfolding MmMapSegment_def base_def [symmetric] segment_body_def [symmetric] by (auto simp: Let_def)
  moreover have "translate s' b = (if in_pages base n b then Some (fs ! frame_index s base (pageno b - pageno base)) else translate s b)" if "PDX b \<noteq> 768" for b
  proof -
    have "fs ! frame_index s base (pageno b - pageno base) < 0x100000" if i: "in_pages base n b"
    proof -
      have "pageno b - pageno base < n" using i by (auto simp: in_pages_def)
      then have "frame_index s base (pageno b - pageno base) < length fs" using frame_index_mono cnt by (metis order_less_le_trans)
      then show ?thesis using free_frame_bounds [OF fr] by blast
    qed
    then show ?thesis using s'(5) that page_entry_perm [OF _ perm] by (simp add: translate_page_pte)
  qed
  ultimately show ?thesis using s'(2-4,6) by blast
qed

section \<open>Allocation and release\<close>

lemma foldE_success:
  assumes "foldE f xs s = Inr s'" and "\<And>x s s'. f x s = Inr s' \<Longrightarrow> g x s = Inr s'"
  shows "foldE g xs s = Inr s'"
  using assms(1) by (induction xs arbitrary: s) (auto simp: bind_eq_Inr intro: assms(2))

lemma valloc_body_segment: "segment_body MM_PDE_ADDRESS va (perm OR PTE_P) i s = Inr s' \<Longrightarrow> valloc_body va perm i s = Inr s'"
  by (auto simp: segment_body_def valloc_body_def Let_def bind_eq_Inr ASSERT_def split: if_splits)

lemma in_pages_page:
  assumes "range_free s va n" and "in_pages va n b"
  shows "\<exists>k < n. k = pageno b - pageno va \<and> PDX b = PDX (page_at va k) \<and> PTX b = PTX (page_at va k) \<and> page_pte s b = 0 \<and> PDX b \<noteq> 768"
proof -
  define k where "k = pageno b - pageno va"
  have k: "k < n" "pageno b = pageno va + k" using assms(2) by (auto simp: in_pages_def k_def)
  note r = range_free_page [OF assms(1) k(1)]
  have e: "PDX b = PDX (page_at va k)" "PTX b = PTX (page_at va k)" using same_page_iff [of b "page_at va k"] r(2) k(2) by (simp_all add: pageno_def)
  have "page_pte s b = page_pte s (page_at va k)" by (simp add: page_pte_def pte_def pde_def e)
  then show ?thesis using r(3) page_free_not_768 [OF r(3)] k(1) e unfolding k_def by (intro exI [of _ "pageno b - pageno va"]) (simp add: page_free_def)
qed

text \<open>The frames that the pages of a range get.\<close>

definition given_frames :: "'a mm_state_scheme \<Rightarrow> PVOID \<Rightarrow> nat \<Rightarrow> frame list \<Rightarrow> frame list" where
  "given_frames s va n fs = map (\<lambda>k. fs ! frame_index s va k) [0..<n]"

text \<open>A range in which page tables may be missing: they are created from the free list and stay.\<close>

lemma alloc_free_new:
  assumes ok: "tables_ok s" and fr: "free_frames s fs" and r: "range_free s va n" and df: "\<forall>f \<in> set fs. data_frame s f"
    and len: "frame_index s va n \<le> length fs" and sz: "unat Size = 4096 * n" and perm: "perm < 4096"
  defines "gs \<equiv> given_frames s va n fs" and "m \<equiv> frame_index s va n"
  shows "\<exists>s1 s2. MmVirtualAlloc va Size perm s = Inr (STATUS_SUCCESS, s1) \<and>
    (\<forall>b. PDX b \<noteq> 768 \<longrightarrow> translate s1 b = (if in_pages va n b then Some (fs ! frame_index s va (pageno b - pageno va)) else translate s b)) \<and>
    (\<forall>k < n. pte s1 (page_at va k) = MiPFNtoPhysicalAddress (fs ! frame_index s va k) OR perm OR PTE_P) \<and>
    (\<forall>f. RefCount s1 f = (if f \<in> set (take m fs) then 1 else RefCount s f)) \<and> free_frames s1 (drop m fs) \<and> mm_core s1 = mm_core s \<and>
    MmVirtualFree va Size s1 = Inr s2 \<and> (\<forall>b. PDX b \<noteq> 768 \<longrightarrow> translate s2 b = translate s b) \<and>
    (\<forall>f. RefCount s2 f = (if f \<in> set (take m fs) - set gs then 1 else RefCount s f)) \<and>
    free_frames s2 (rev gs @ drop m fs) \<and> mm_core s2 = mm_core s"
proof -
  have gs_nth: "gs = map (\<lambda>k. fs ! frame_index s va k) [0..<n]" by (simp add: gs_def given_frames_def)
  have dir: "dir_mapped MM_PDE_ADDRESS s" using tables_okD(1) [OF ok] by (rule dir_mapped_self)
  obtain s1 where s1: "foldE (segment_body MM_PDE_ADDRESS va (perm OR PTE_P)) (map (\<lambda>k. of_nat (4096 * k)) [0..<n]) s = Inr s1" "tables_ok s1"
    "mm_core s1 = mm_core s" "free_frames s1 (drop m fs)" "RefCount s1 = (\<lambda>x. if x \<in> set (take m fs) then 1 else RefCount s x)"
    "\<forall>b. Valid (pde s1 b) \<longleftrightarrow> Valid (pde s b) \<or> (\<exists>j < n. PDX b = PDX (page_at va j))"
    "\<forall>b. PDX b \<noteq> 768 \<longrightarrow> page_pte s1 b = (if in_pages va n b then page_entry (fs ! frame_index s va (pageno b - pageno va)) (perm OR PTE_P) else page_pte s b)"
    using segment_loop [OF ok dir r fr df len, of "perm OR PTE_P"] unfolding m_def by blast
  have al: "MmVirtualAlloc va Size perm s = Inr (STATUS_SUCCESS, s1)"
    using foldE_success [OF s1(1) valloc_body_segment] page_offsets_whole [OF sz] by (simp add: MmVirtualAlloc_def)
  have N: "MMNumberOfPhysicalPages s1 = MMNumberOfPhysicalPages s" by (rule mm_core_sel(2) [OF s1(3)])
  have i: "frame_index s va k < m" if "k < n" for k using frame_index_mono [OF that] by (simp add: m_def)
  have il: "frame_index s va k < length fs" if "k < n" for k using i [OF that] len by (simp add: m_def)
  have fk: "gs ! k \<noteq> 0 \<and> gs ! k < MMNumberOfPhysicalPages s \<and> gs ! k < 0x100000" "gs ! k \<in> set (take m fs)" if "k < n" for k
    using free_frame_bounds [OF fr il [OF that]] i [OF that] il [OF that] that by (auto simp: gs_nth in_set_conv_nth)
  note p = range_free_page [OF r]
  have inp: "in_pages va n (page_at va k)" "pageno (page_at va k) - pageno va = k" "PDX (page_at va k) \<noteq> 768" "Valid (pde s1 (page_at va k))" if "k < n" for k
    using p(2) [OF that] page_free_not_768 [OF p(3) [OF that]] s1(6) that by (auto simp: in_pages_def)
  have e1: "pte s1 (page_at va k) = page_entry (gs ! k) (perm OR PTE_P)" if "k < n" for k
    using s1(7) inp [OF that] that by (auto simp: page_pte_def gs_nth)
  have r1: "range_ok s1 va n" using r inp(3,4) by (simp add: range_ok_def range_free_def)
  have dist: "distinct fs" using fr by (simp add: free_frames_def klist_rep_def ring_def)
  have g: "length gs = n" "distinct gs"
  proof -
    have "frame_index s va j \<noteq> frame_index s va k" if "j \<noteq> k" for j k
      using frame_index_mono [of j k s va] frame_index_mono [of k j s va] that by (cases "j < k") auto
    then show "distinct gs" using il by (auto simp: gs_nth distinct_map inj_on_def nth_eq_iff_index_eq [OF dist])
  qed (simp add: gs_nth)
  have mm: "\<forall>k < n. Valid (pte s1 (page_at va k)) \<and> PageFrameNumber (pte s1 (page_at va k)) = gs ! k \<and>
      gs ! k \<noteq> 0 \<and> gs ! k < MMNumberOfPhysicalPages s1 \<and> RefCount s1 (gs ! k) = 1"
    using e1 fk N page_entry_frame [OF _ perm] s1(5) by auto
  obtain s2 where s2: "MmVirtualFree va Size s1 = Inr s2" "pde s2 = pde s1" "mm_core s2 = mm_core s1"
    "free_frames s2 (rev gs @ drop m fs)" "RefCount s2 = (\<lambda>f. if f \<in> set gs then 0 else RefCount s1 f)"
    "\<forall>b. Valid (pde s1 b) \<longrightarrow> pte s2 b = (if in_pages va n b then 0 else pte s1 b)"
    using vfree_loop [OF s1(2,4) r1 g mm] page_offsets_whole [OF sz] by (auto simp: MmVirtualFree_body)
  have "translate s1 b = (if in_pages va n b then Some (fs ! frame_index s va (pageno b - pageno va)) else translate s b)" if n: "PDX b \<noteq> 768" for b
  proof (cases "in_pages va n b")
    case True
    then obtain k where k: "k < n" "k = pageno b - pageno va" using in_pages_page [OF r True] by blast
    then show ?thesis using s1(7) n True fk(1) [OF k(1)] page_entry_frame [OF _ perm] by (auto simp: translate_page_pte gs_nth)
  next
    case False
    then show ?thesis using s1(7) n by (simp add: translate_page_pte)
  qed
  moreover have "translate s2 b = translate s b" if n: "PDX b \<noteq> 768" for b
  proof -
    have "page_pte s2 b = (if in_pages va n b then 0 else page_pte s1 b)"
      using s2(2,6) s1(6) in_pages_page [OF r, of b] by (auto simp: page_pte_def)
    also have "\<dots> = page_pte s b" using s1(7) n in_pages_page [OF r, of b] by auto
    finally show ?thesis by (simp add: translate_page_pte)
  qed
  moreover have "RefCount s2 f = (if f \<in> set (take m fs) - set gs then 1 else RefCount s f)" for f
  proof -
    have "RefCount s f = 0" if "f \<in> set gs"
    proof -
      note f = that
      obtain k where "k < n" "f = gs ! k" using f unfolding in_set_conv_nth g(1) by blast
      then have "f \<in> set fs" using fk(2) by (auto dest: in_set_takeD)
      then show ?thesis using fr by (auto simp: free_frames_def)
    qed
    then show ?thesis using s2(5) s1(5) by auto
  qed
  moreover have "pte s1 (page_at va k) = MiPFNtoPhysicalAddress (fs ! frame_index s va k) OR perm OR PTE_P" if "k < n" for k
    using e1 [OF that] that by (simp add: page_entry_def or.assoc gs_nth)
  ultimately show ?thesis using al s1(3-5) s2(1,3,4) by (intro exI [of _ s1] exI [of _ s2]) auto
qed

lemma frame_index_tables:
  assumes "\<forall>k < n. Valid (pde s (page_at va k))" and "k \<le> n"
  shows "frame_index s va k = k"
  using assms by (simp add: frame_index_def new_table_def)



end
