(* ===== verification/Pool.thy ===== *)
theory Pool
  imports MmProps
begin

text \<open>
  The kernel pools of \<open>mm/pool.c\<close>. A pool is a range of addresses cut into blocks, each behind a
  \<open>POOLHEADER\<close>, all of them on one ring in address order. The headers are kept by their address,
  beside the rest of memory; that they do not overlap is part of what is proved. The contents of the
  blocks are the clients' and are not modelled.
\<close>

section \<open>Headers and pools\<close>

type_synonym POOL_TYPE = ULONG

abbreviation (input) PagedPool :: POOL_TYPE where "PagedPool \<equiv> 0"
abbreviation (input) NonPagedPool :: POOL_TYPE where "NonPagedPool \<equiv> 1"
abbreviation (input) NUMBEROFPOOLS :: ULONG where "NUMBEROFPOOLS \<equiv> 2"
abbreviation (input) NULLTAG :: ULONG where "NULLTAG \<equiv> 0"
abbreviation (input) POOL_STATUS_FREE :: ULONG where "POOL_STATUS_FREE \<equiv> 0"
abbreviation (input) POOL_STATUS_ALLOCATED :: ULONG where "POOL_STATUS_ALLOCATED \<equiv> 1"
abbreviation (input) MINIMUMFREEPOOLSIZE :: ULONG where "MINIMUMFREEPOOLSIZE \<equiv> 512"
abbreviation (input) POOLPAD :: ULONG where "POOLPAD \<equiv> 56"

text \<open>
  \<open>sizeof(POOLHEADER)\<close> and the offset of \<open>mem\<close>: six words and one character, padded to a word.
\<close>

abbreviation (input) sizeof_POOLHEADER :: ULONG where "sizeof_POOLHEADER \<equiv> 28"
abbreviation (input) mem_offset :: ULONG where "mem_offset \<equiv> 24"

record POOLHEADER =
  ph_PoolType :: POOL_TYPE
  ph_size :: ULONG
  ph_Tag :: ULONG
  ph_status :: ULONG

record pools =
  Headers :: "PVOID \<Rightarrow> POOLHEADER"
  PoolLink :: "PVOID links"
  KernelPools :: "PVOID list_head list"

record pool_state = mm_state +
  Pools :: pools

definition with_pool :: "POOL_TYPE \<Rightarrow> pools \<Rightarrow> (PVOID klist \<Rightarrow> fault + 'b) \<Rightarrow> fault + 'b" where
  "with_pool pooltype ps f =
     (if unat pooltype < length (KernelPools ps) then f (PoolLink ps, KernelPools ps ! unat pooltype)
      else Inl OutOfBounds)"

definition set_pool :: "POOL_TYPE \<Rightarrow> PVOID klist \<Rightarrow> pools \<Rightarrow> pools" where
  "set_pool pooltype l ps =
     ps\<lparr>PoolLink := fst l, KernelPools := (KernelPools ps)[unat pooltype := snd l]\<rparr>"

definition set_header :: "PVOID \<Rightarrow> (POOLHEADER \<Rightarrow> POOLHEADER) \<Rightarrow> pools \<Rightarrow> pools" where
  "set_header p f ps = ps\<lparr>Headers := (Headers ps)(p := f (Headers ps p))\<rparr>"

definition allocated :: "pools \<Rightarrow> PVOID \<Rightarrow> bool" where
  "allocated ps p \<longleftrightarrow> ph_status (Headers ps p) AND POOL_STATUS_ALLOCATED \<noteq> 0"

section \<open>Initialisation\<close>

definition MmInitializePool ::
  "PVOID \<Rightarrow> ULONG \<Rightarrow> POOL_TYPE \<Rightarrow> 'a pool_state_scheme \<Rightarrow> fault + (KSTATUS \<times> 'a pool_state_scheme)" where
  "MmInitializePool va sz pooltype s =
     with_pool pooltype (Pools s) (\<lambda>(m, _).
     let s = s\<lparr>Pools := set_pool pooltype (m, LIST_INIT) (Pools s)\<rparr> in
     bind (MmVirtualAlloc va sz KPOOL_PERM s) (\<lambda>(status, s).
     if \<not> success status then Inl (KeBugCheck ''Pool Alocation Failed'')
     else
       let ps = set_header va (\<lambda>h. h\<lparr>ph_Tag := NULLTAG\<rparr>) (Pools s);
           ps = ps\<lparr>PoolLink := LIST_INIT_ENTRY va (PoolLink ps)\<rparr>;
           ps = set_header va (\<lambda>h. h\<lparr>ph_PoolType := pooltype, ph_size := sz - sizeof_POOLHEADER,
             ph_status := POOL_STATUS_FREE\<rparr>) ps
       in with_pool pooltype ps (\<lambda>l.
          bind (LIST_INSERT_HEAD va l) (\<lambda>l. Inr (STATUS_SUCCESS, s\<lparr>Pools := set_pool pooltype l ps\<rparr>)))))"

section \<open>Allocation\<close>

text \<open>The walk of \<open>LIST_FOREACH\<close> up to the first fit; the fuel is the list's count of elements.\<close>

fun find_block :: "nat \<Rightarrow> ULONG \<Rightarrow> pools \<Rightarrow> PVOID klist \<Rightarrow> PVOID option \<Rightarrow> fault + PVOID option" where
  "find_block fuel n ps l None = Inr None"
| "find_block 0 n ps l (Some p) = Inl Hang"
| "find_block (Suc fuel) n ps l (Some p) =
     (if \<not> allocated ps p \<and> ph_size (Headers ps p) > n then Inr (Some p)
      else find_block fuel n ps l (LIST_NEXT l p))"

definition split_block :: "POOL_TYPE \<Rightarrow> ULONG \<Rightarrow> PVOID \<Rightarrow> pools \<Rightarrow> fault + pools" where
  "split_block pooltype NumberOfBytes p ps =
     (let new = p + sizeof_POOLHEADER + NumberOfBytes;
          ps = set_header new (\<lambda>h. h\<lparr>ph_Tag := NULLTAG\<rparr>) ps;
          ps = ps\<lparr>PoolLink := LIST_INIT_ENTRY new (PoolLink ps)\<rparr>;
          ps = set_header new (\<lambda>h. h\<lparr>ph_PoolType := pooltype,
            ph_size := ph_size (Headers ps p) - sizeof_POOLHEADER - NumberOfBytes,
            ph_status := POOL_STATUS_FREE\<rparr>) ps
      in with_pool pooltype ps (\<lambda>l.
         bind (LIST_INSERT_AFTER (\<lambda>_. Some p) new l) (\<lambda>l.
         Inr (set_header p (\<lambda>h. h\<lparr>ph_size := NumberOfBytes\<rparr>) (set_pool pooltype l ps)))))"

definition take_block :: "POOL_TYPE \<Rightarrow> ULONG \<Rightarrow> ULONG \<Rightarrow> pools \<Rightarrow> fault + (PVOID \<times> pools)" where
  "take_block pooltype NumberOfBytes tag ps =
     with_pool pooltype ps (\<lambda>l.
     bind (find_block (unat (NumberOfElements (snd l))) NumberOfBytes ps l (lh_first (snd l))) (\<lambda>b.
     case b of
       None \<Rightarrow> Inr (0, ps)
     | Some p \<Rightarrow>
         if allocated ps p then Inl (KeBugCheck ''Free pool block already allocated'')
         else bind (if NumberOfBytes < ph_size (Headers ps p) - MINIMUMFREEPOOLSIZE
             then split_block pooltype NumberOfBytes p ps else Inr ps) (\<lambda>ps.
           Inr (p + mem_offset,
             set_header p (\<lambda>h. h\<lparr>ph_Tag := tag, ph_status := ph_status h OR POOL_STATUS_ALLOCATED\<rparr>) ps))))"

definition MmAllocatePoolWithTag ::
  "'a pool_state_scheme deferred_routines \<Rightarrow> nat \<Rightarrow> POOL_TYPE \<Rightarrow> ULONG \<Rightarrow> ULONG \<Rightarrow> 'a pool_state_scheme \<Rightarrow>
   fault + (PVOID \<times> 'a pool_state_scheme)" where
  "MmAllocatePoolWithTag run fuel pooltype NumberOfBytes tag s =
     bind (KeGetCurrentIrql s) (\<lambda>irql.
     ASSERT ''MmAllocatePoolWithTag: CurrentIrql <= DISPATCH_LEVEL'' (irql \<le> DISPATCH_LEVEL)
     (ASSERT ''MmAllocatePoolWithTag: pooltype == NonPagedPool'' (irql = DISPATCH_LEVEL \<longrightarrow> pooltype = NonPagedPool)
     (let NumberOfBytes = ROUNDUP (NumberOfBytes + POOLPAD) 4 in
      with_pool pooltype (Pools s) (\<lambda>l.
      if LIST_EMPTY (snd l) then Inl (KeBugCheck ''allocating pool before init'')
      else bind (KeAcquireSpinLock PoolLock s) (\<lambda>(Old, s).
        bind (take_block pooltype NumberOfBytes tag (Pools s)) (\<lambda>(p, ps).
        bind (KeReleaseSpinLock run fuel PoolLock Old (s\<lparr>Pools := ps\<rparr>)) (\<lambda>s.
        Inr (p, s))))))))"

section \<open>Release\<close>

text \<open>
  The check reads \<open>!allocated || pooltype >= NUMBEROFPOOLS || Tag != 0 ? tag differs : 0\<close>, which C
  parses with the whole disjunction as the condition of the conditional expression.
\<close>

definition free_check_fails :: "PVOID \<Rightarrow> ULONG \<Rightarrow> pools \<Rightarrow> bool" where
  "free_check_fails b tag ps =
     (if \<not> allocated ps b \<or> ph_PoolType (Headers ps b) \<ge> NUMBEROFPOOLS \<or> tag \<noteq> 0
      then ph_Tag (Headers ps b) \<noteq> tag else False)"

definition merge_next :: "POOL_TYPE \<Rightarrow> PVOID \<Rightarrow> pools \<Rightarrow> fault + pools" where
  "merge_next pooltype b ps =
     with_pool pooltype ps (\<lambda>l.
     case LIST_NEXT l b of
       None \<Rightarrow> Inr ps
     | Some n \<Rightarrow>
         if \<not> allocated ps n
         then bind (LIST_REMOVE n l) (\<lambda>l. Inr (set_pool pooltype l
           (set_header b (\<lambda>h. h\<lparr>ph_size := ph_size h + (ph_size (Headers ps n) + sizeof_POOLHEADER)\<rparr>) ps)))
         else Inr ps)"

definition merge_prev :: "POOL_TYPE \<Rightarrow> PVOID \<Rightarrow> pools \<Rightarrow> fault + pools" where
  "merge_prev pooltype b ps =
     with_pool pooltype ps (\<lambda>l.
     case LIST_PREV l b of
       None \<Rightarrow> Inr ps
     | Some n \<Rightarrow>
         if \<not> allocated ps n
         then bind (LIST_REMOVE b l) (\<lambda>l. Inr (set_pool pooltype l
           (set_header n (\<lambda>h. h\<lparr>ph_size := ph_size h + (ph_size (Headers ps b) + sizeof_POOLHEADER)\<rparr>) ps)))
         else Inr ps)"

definition MmFreePoolWithTag ::
  "'a pool_state_scheme deferred_routines \<Rightarrow> nat \<Rightarrow> PVOID \<Rightarrow> ULONG \<Rightarrow> 'a pool_state_scheme \<Rightarrow>
   fault + 'a pool_state_scheme" where
  "MmFreePoolWithTag run fuel P tag s =
     (let b = P - mem_offset; pooltype = ph_PoolType (Headers (Pools s) b) in
      if free_check_fails b tag (Pools s) then Inl (KeBugCheck ''Verification Failed'')
      else
        let s = s\<lparr>Pools := set_header b (\<lambda>h. h\<lparr>ph_Tag := NULLTAG, ph_status := POOL_STATUS_FREE\<rparr>) (Pools s)\<rparr> in
        bind (KeAcquireSpinLock PoolLock s) (\<lambda>(Old, s).
        bind (merge_next pooltype b (Pools s)) (\<lambda>ps.
        bind (merge_prev pooltype b ps) (\<lambda>ps.
        KeReleaseSpinLock run fuel PoolLock Old (s\<lparr>Pools := ps\<rparr>)))))"

section \<open>The self test and the start\<close>

text \<open>
  \<open>Test_Pool\<close>, which \<open>DEBUG\<close> builds run on both pools: three blocks are taken from the front, each
  time with the same checks of the header and of what follows it; they are released in the order first,
  third, second, which meets every case of the merging. \<open>k\<close> counts the blocks taken.
\<close>

abbreviation (input) test_tag :: ULONG where "test_tag \<equiv> 0x74657374"

definition test_alloc ::
  "'a pool_state_scheme deferred_routines \<Rightarrow> nat \<Rightarrow> POOL_TYPE \<Rightarrow> ULONG \<Rightarrow> ULONG \<Rightarrow> PVOID \<Rightarrow> 'a pool_state_scheme \<Rightarrow>
   fault + (PVOID \<times> PVOID \<times> 'a pool_state_scheme)" where
  "test_alloc run fuel pooltype sz k b s =
     bind (MmAllocatePoolWithTag run fuel pooltype 12 test_tag s) (\<lambda>(P, s).
     ASSERT ''Test_Pool: ptr'' (P \<noteq> 0)
     (ASSERT ''Test_Pool: mem'' (b + mem_offset = P)
     (ASSERT ''Test_Pool: PoolType'' (ph_PoolType (Headers (Pools s) b) = pooltype)
     (ASSERT ''Test_Pool: size'' (ph_size (Headers (Pools s) b) = 12 + POOLPAD)
     (ASSERT ''Test_Pool: allocated'' (allocated (Pools s) b)
     (with_pool pooltype (Pools s) (\<lambda>l.
      case LIST_NEXT l b of
        None \<Rightarrow> Inl (AssertionFailed ''Test_Pool: pPoolBlock'')
      | Some n \<Rightarrow>
          ASSERT ''Test_Pool: next PoolType'' (ph_PoolType (Headers (Pools s) n) = pooltype)
          (ASSERT ''Test_Pool: next size'' (ph_size (Headers (Pools s) n) = sz - ((12 + POOLPAD) + sizeof_POOLHEADER) * k)
          (ASSERT ''Test_Pool: next free'' (\<not> allocated (Pools s) n) (Inr (P, n, s)))))))))))"

definition Test_Pool ::
  "'a pool_state_scheme deferred_routines \<Rightarrow> nat \<Rightarrow> POOL_TYPE \<Rightarrow> 'a pool_state_scheme \<Rightarrow> fault + 'a pool_state_scheme" where
  "Test_Pool run fuel pooltype s =
     with_pool pooltype (Pools s) (\<lambda>l. deref (lh_first (snd l)) (\<lambda>b.
     let sz = ph_size (Headers (Pools s) b) in
     bind (test_alloc run fuel pooltype sz 1 b s) (\<lambda>(ptr1, b, s).
     bind (test_alloc run fuel pooltype sz 2 b s) (\<lambda>(ptr2, b, s).
     bind (test_alloc run fuel pooltype sz 3 b s) (\<lambda>(ptr3, b, s).
     bind (MmFreePoolWithTag run fuel ptr1 test_tag s) (\<lambda>s.
     with_pool pooltype (Pools s) (\<lambda>l. deref (lh_first (snd l)) (\<lambda>b.
     ASSERT ''Test_Pool: first free'' (\<not> allocated (Pools s) b)
     (bind (MmFreePoolWithTag run fuel ptr3 test_tag s) (\<lambda>s.
     with_pool pooltype (Pools s) (\<lambda>l. deref (LIST_NEXT l b) (\<lambda>b. deref (LIST_NEXT l b) (\<lambda>b.
     ASSERT ''Test_Pool: third free'' (\<not> allocated (Pools s) b)
     (bind (MmFreePoolWithTag run fuel ptr2 test_tag s) (\<lambda>s.
     with_pool pooltype (Pools s) (\<lambda>l.
     case lh_first (snd l) of
       None \<Rightarrow> Inl (AssertionFailed ''Test_Pool: pPoolBlock'')
     | Some b \<Rightarrow>
         ASSERT ''Test_Pool: PoolType'' (ph_PoolType (Headers (Pools s) b) = pooltype)
         (ASSERT ''Test_Pool: size'' (ph_size (Headers (Pools s) b) = sz)
         (ASSERT ''Test_Pool: free'' (\<not> allocated (Pools s) b)
         (ASSERT ''Test_Pool: no next'' (LIST_NEXT l b = None) (Inr s))))))))))))))))))))"

text \<open>The first loop clears as many list heads as there are pool types; the two more entries stay.\<close>

definition MmInitializeAllPools ::
  "'a pool_state_scheme deferred_routines \<Rightarrow> nat \<Rightarrow> 'a pool_state_scheme \<Rightarrow> fault + 'a pool_state_scheme" where
  "MmInitializeAllPools run fuel s =
     bind (foldE (\<lambda>i s. with_pool i (Pools s) (\<lambda>(m, _).
       Inr (s\<lparr>Pools := set_pool i (m, \<lparr>lh_first = None, NumberOfElements = 0\<rparr>) (Pools s)\<rparr>)))
       (range32 0 NUMBEROFPOOLS) s) (\<lambda>s.
     bind (MmInitializePool MMPAGEPOOL_START MMPAGEPOOL_SIZE PagedPool s) (\<lambda>(_, s).
     bind (MmInitializePool MMNONPAGEPOOL_START MMNONPAGEPOOL_SIZE NonPagedPool s) (\<lambda>(_, s).
     bind (Test_Pool run fuel PagedPool s) (Test_Pool run fuel NonPagedPool))))"

section \<open>The pool as a list of blocks\<close>

text \<open>
  A block is the address of its header, its size and whether it is allocated. \<open>tiled a bs t\<close>: the
  blocks with their headers fill the addresses from \<open>a\<close> up to \<open>t\<close> without gap or overlap.
  \<open>coalesced\<close>: no two neighbours are free.
\<close>

type_synonym block = "PVOID \<times> nat \<times> bool"

fun tiled :: "nat \<Rightarrow> block list \<Rightarrow> nat \<Rightarrow> bool" where
  "tiled a [] t \<longleftrightarrow> a = t"
| "tiled a ((p, n, _) # bs) t \<longleftrightarrow> unat p = a \<and> tiled (a + 28 + n) bs t"

fun coalesced :: "block list \<Rightarrow> bool" where
  "coalesced ((p, n, a) # (q, m, b) # bs) \<longleftrightarrow> (a \<or> b) \<and> coalesced ((q, m, b) # bs)"
| "coalesced _ \<longleftrightarrow> True"

definition header_is :: "POOL_TYPE \<Rightarrow> pools \<Rightarrow> block \<Rightarrow> bool" where
  "header_is ty ps = (\<lambda>(p, n, a). ph_PoolType (Headers ps p) = ty \<and> unat (ph_size (Headers ps p)) = n \<and>
     ph_status (Headers ps p) = (if a then POOL_STATUS_ALLOCATED else POOL_STATUS_FREE))"

definition pool_rep :: "POOL_TYPE \<Rightarrow> pools \<Rightarrow> block list \<Rightarrow> bool" where
  "pool_rep ty ps bs \<longleftrightarrow> unat ty < length (KernelPools ps) \<and>
     klist_rep (PoolLink ps, KernelPools ps ! unat ty) (map fst bs) \<and> list_all (header_is ty ps) bs"

text \<open>The invariant of a pool: its blocks are on the ring, fill its range and are coalesced.\<close>

definition pool_ok :: "POOL_TYPE \<Rightarrow> nat \<Rightarrow> nat \<Rightarrow> pools \<Rightarrow> block list \<Rightarrow> bool" where
  "pool_ok ty a t ps bs \<longleftrightarrow> pool_rep ty ps bs \<and> tiled a bs t \<and> coalesced bs \<and> t < 2 ^ 32"

text \<open>
  The first-fit policy on blocks: what a request of \<open>n\<close> bytes (padding included) does to the block it
  takes. The size of the rest is only right when the block is large enough for a second header.
\<close>

definition fits :: "nat \<Rightarrow> block \<Rightarrow> bool" where
  "fits n = (\<lambda>(p, sz, a). \<not> a \<and> n < sz)"

definition splits :: "nat \<Rightarrow> nat \<Rightarrow> bool" where
  "splits n sz \<longleftrightarrow> sz < 512 \<or> n + 512 < sz"

definition carve :: "nat \<Rightarrow> block \<Rightarrow> block list" where
  "carve n = (\<lambda>(p, sz, a). if splits n sz
     then [(p, n, True), (p + 28 + of_nat n, sz - 28 - n, False)] else [(p, sz, True)])"

section \<open>Facts about blocks\<close>

lemma tiled_append: "tiled a (xs @ ys) t \<longleftrightarrow> (\<exists>m. tiled a xs m \<and> tiled m ys t)"
  by (induction xs arbitrary: a) auto

lemma tiled_le: "tiled a bs t \<Longrightarrow> a \<le> t"
  by (induction a bs t rule: tiled.induct) auto

lemma tiled_bounds:
  "tiled a bs t \<Longrightarrow> (p, n, c) \<in> set bs \<Longrightarrow> a \<le> unat p \<and> unat p + 28 + n \<le> t"
proof (induction a bs t rule: tiled.induct)
  case (2 a q m d bs t)
  then show ?case using tiled_le [of "a + 28 + m" bs t] by auto
qed simp

lemma tiled_distinct: "tiled a bs t \<Longrightarrow> distinct (map fst bs)"
proof (induction a bs t rule: tiled.induct)
  case (2 a q m d bs t)
  have "q \<noteq> p" if "(p, n, c) \<in> set bs" for p n c
    using that 2 tiled_bounds [of "a + 28 + m" bs t p n c] by auto
  with 2 show ?case by fastforce
qed simp

lemma coalesced_append:
  "coalesced (xs @ y # ys) \<longleftrightarrow> coalesced (xs @ [y]) \<and> coalesced (y # ys)"
  by (induction xs rule: coalesced.induct) (auto, (cases y; cases ys; auto)+)

lemma coalesced_Cons: "coalesced (x # xs) \<longleftrightarrow> (xs = [] \<or> snd (snd x) \<or> snd (snd (hd xs))) \<and> coalesced xs"
  by (cases x; cases xs) auto

lemma coalesced_snoc: "coalesced (xs @ [y]) \<longleftrightarrow> (xs = [] \<or> snd (snd (last xs)) \<or> snd (snd y)) \<and> coalesced xs"
  by (induction xs rule: coalesced.induct) (auto, (cases y; auto)+)

section \<open>Updates of one pool leave the others alone\<close>

definition pool_frame :: "POOL_TYPE \<Rightarrow> PVOID set \<Rightarrow> pools \<Rightarrow> pools \<Rightarrow> bool" where
  "pool_frame ty A ps ps' \<longleftrightarrow> (\<forall>q. q \<notin> A \<longrightarrow> Headers ps' q = Headers ps q) \<and>
     links_frame A (PoolLink ps) (PoolLink ps') \<and> (\<exists>h. KernelPools ps' = (KernelPools ps)[unat ty := h])"

lemma links_frame_refl [simp]: "links_frame A m m"
  by (simp add: links_frame_def)

lemma links_frame_trans: "links_frame A m m' \<Longrightarrow> links_frame A m' m'' \<Longrightarrow> links_frame A m m''"
  by (simp add: links_frame_def)

lemma links_frame_mono: "links_frame A m m' \<Longrightarrow> A \<subseteq> B \<Longrightarrow> links_frame B m m'"
  by (auto simp: links_frame_def)

lemma pool_frame_trans: "pool_frame ty A ps ps' \<Longrightarrow> pool_frame ty A ps' ps'' \<Longrightarrow> pool_frame ty A ps ps''"
  by (auto simp: pool_frame_def intro: links_frame_trans)

lemma pool_frame_set_header: "p \<in> A \<Longrightarrow> pool_frame ty A ps (set_header p f ps)"
  by (auto simp: pool_frame_def set_header_def intro!: exI [of _ "KernelPools ps ! unat ty"])

lemma pool_frame_set_pool:
  "links_frame A (PoolLink ps) (fst l) \<Longrightarrow> pool_frame ty A ps (set_pool ty l ps)"
  by (auto simp: pool_frame_def set_pool_def)

lemma pool_frame_other:
  assumes "pool_frame ty A ps ps'" and "pool_rep ty' ps cs" and "ty' \<noteq> ty" and "fst ` set cs \<inter> A = {}"
  shows "pool_rep ty' ps' cs"
proof -
  have "header_is ty' ps' c" if "c \<in> set cs" for c
  proof -
    have "header_is ty' ps c" using assms(2) that by (simp add: pool_rep_def list_all_iff)
    moreover have "Headers ps' (fst c) = Headers ps (fst c)" using assms(1,4) that by (auto simp: pool_frame_def)
    ultimately show ?thesis by (cases c) (simp add: header_is_def)
  qed
  moreover have "unat ty' \<noteq> unat ty" using assms(3) by (simp add: word_unat_eq_iff)
  ultimately show ?thesis
    using assms klist_rep_frame [of "PoolLink ps" "KernelPools ps ! unat ty'" "map fst cs" A "PoolLink ps'"]
    by (auto simp: pool_rep_def pool_frame_def list_all_iff)
qed

section \<open>Operations on the header list\<close>

lemma set_header_sel [simp]:
  "Headers (set_header p f ps) q = (if q = p then f (Headers ps p) else Headers ps q)"
  "PoolLink (set_header p f ps) = PoolLink ps" "KernelPools (set_header p f ps) = KernelPools ps"
  by (auto simp: set_header_def)

lemma set_pool_sel [simp]:
  "Headers (set_pool ty l ps) = Headers ps" "PoolLink (set_pool ty l ps) = fst l"
  "KernelPools (set_pool ty l ps) = (KernelPools ps)[unat ty := snd l]"
  by (simp_all add: set_pool_def)

lemma allocated_status: "header_is ty ps (p, n, a) \<Longrightarrow> allocated ps p = a"
  by (auto simp: header_is_def allocated_def)

lemma with_pool_rep: "pool_rep ty ps bs \<Longrightarrow> with_pool ty ps f = f (PoolLink ps, KernelPools ps ! unat ty)"
  by (simp add: with_pool_def pool_rep_def)

lemma find_block_from:
  assumes "klist_rep l (xs @ map fst bs)" and "list_all (header_is ty ps) bs" and "length bs \<le> fuel"
  shows "find_block fuel n ps l (case bs of [] \<Rightarrow> None | b # _ \<Rightarrow> Some (fst b)) =
    Inr (map_option fst (find (fits (unat n)) bs))"
  using assms
proof (induction bs arbitrary: xs fuel)
  case (Cons b bs)
  obtain k where k: "fuel = Suc k" "length bs \<le> k" using Cons.prems(3) by (cases fuel) auto
  obtain p sz a where b: "b = (p, sz, a)" by (cases b)
  have nx: "LIST_NEXT l p = (case bs of [] \<Rightarrow> None | b # _ \<Rightarrow> Some (fst b))"
    using LIST_NEXT_at [of l xs p "map fst bs"] Cons.prems(1) b by (cases bs) auto
  have "header_is ty ps (p, sz, a)" using Cons.prems(2) b by simp
  then have "(\<not> allocated ps p \<and> ph_size (Headers ps p) > n) = fits (unat n) b"
    using allocated_status b by (auto simp: fits_def header_is_def word_less_nat_alt)
  then show ?case
    using Cons.IH [of "xs @ [p]" k] Cons.prems(1,2) k nx b by auto
qed simp

lemma tiled_length: "tiled a bs t \<Longrightarrow> 28 * length bs \<le> t - a"
proof (induction a bs t rule: tiled.induct)
  case (2 a p n c bs t)
  then show ?case using tiled_le [of "a + 28 + n" bs t] by auto
qed simp

lemma find_block_correct:
  assumes "pool_ok ty a t ps bs"
  shows "find_block (unat (NumberOfElements (KernelPools ps ! unat ty))) n ps (PoolLink ps, KernelPools ps ! unat ty)
      (lh_first (KernelPools ps ! unat ty)) = Inr (map_option fst (find (fits (unat n)) bs))"
proof -
  have r: "klist_rep (PoolLink ps, KernelPools ps ! unat ty) (map fst bs)" "list_all (header_is ty ps) bs"
    "tiled a bs t" "t < 2 ^ 32"
    using assms by (simp_all add: pool_ok_def pool_rep_def)
  have "length bs < 2 ^ 32" using tiled_length [OF r(3)] r(4) by linarith
  then have "unat (NumberOfElements (KernelPools ps ! unat ty)) = length bs"
    using r(1) unat_of_nat32 by (simp add: klist_rep_def)
  moreover have "lh_first (KernelPools ps ! unat ty) = (case bs of [] \<Rightarrow> None | b # _ \<Rightarrow> Some (fst b))"
    using r(1) by (cases bs) (auto simp: klist_rep_def)
  ultimately show ?thesis using find_block_from [of _ "[]" bs ty ps "length bs" n] r(1,2) by simp
qed

text \<open>Rewriting the header of one block.\<close>

lemma pool_rep_set_header:
  assumes "pool_rep ty ps (xs @ (p, n, c) # ys)" and "distinct (map fst (xs @ (p, n, c) # ys))"
    and "header_is ty (set_header p f ps) (p, n', c')"
  shows "pool_rep ty (set_header p f ps) (xs @ (p, n', c') # ys)"
proof -
  have "header_is ty (set_header p f ps) b" if "b \<in> set xs \<union> set ys" for b
  proof -
    have "header_is ty ps b" using that assms(1) by (auto simp: pool_rep_def list_all_iff)
    moreover have "fst b \<noteq> p" using that assms(2) by force
    ultimately show ?thesis by (cases b) (simp add: header_is_def)
  qed
  then show ?thesis using assms(1,3) by (auto simp: pool_rep_def list_all_iff)
qed

text \<open>The addresses a pool occupies.\<close>

definition pool_range :: "nat \<Rightarrow> nat \<Rightarrow> PVOID set" where
  "pool_range a t = {q. a \<le> unat q \<and> unat q < t}"

lemma tiled_range: "tiled a bs t \<Longrightarrow> fst ` set bs \<subseteq> pool_range a t"
  using tiled_bounds by (fastforce simp: pool_range_def)

lemma pool_okD:
  assumes "pool_ok ty a t ps bs"
  shows "pool_rep ty ps bs" "tiled a bs t" "coalesced bs" "t < 2 ^ 32" "distinct (map fst bs)"
    "fst ` set bs \<subseteq> pool_range a t"
  using assms tiled_distinct tiled_range by (auto simp: pool_ok_def)

lemma unat_add_small: "unat p + k < 2 ^ 32 \<Longrightarrow> unat (p + of_nat k) = unat p + k" for p :: ULONG
  by (subst unat_add_no_wrap) (simp_all add: unat_of_nat)

lemma new_header_address:
  assumes "tiled a (xs @ (p, sz, c) # ys) t" and "t < 2 ^ 32" and "unat n < sz"
  shows "unat (p + 28 + n) = unat p + 28 + unat n"
    and "p + 28 + n \<notin> fst ` set (xs @ (p, sz, c) # ys)" and "p + 28 + n \<in> pool_range a t"
proof -
  obtain m where m: "tiled a xs m" "unat p = m" "tiled (m + 28 + sz) ys t"
    using assms(1) by (auto simp: tiled_append)
  have t: "m + 28 + sz \<le> t" using tiled_le [OF m(3)] .
  have "p + 28 + n = p + of_nat (28 + unat n)" by (simp add: add.assoc)
  then show e: "unat (p + 28 + n) = unat p + 28 + unat n"
    using unat_add_small [of p "28 + unat n"] t assms(2,3) m(2) by (simp add: add.assoc)
  show "p + 28 + n \<notin> fst ` set (xs @ (p, sz, c) # ys)"
  proof
    assume "p + 28 + n \<in> fst ` set (xs @ (p, sz, c) # ys)"
    then consider k d where "(p + 28 + n, k, d) \<in> set xs" | "p + 28 + n = p" | k d where "(p + 28 + n, k, d) \<in> set ys"
      by auto
    then show False
    proof cases
      case 1
      then show ?thesis using tiled_bounds [OF m(1)] e m(2) by fastforce
    next
      case 2
      then have "unat (p + 28 + n) = unat p" by (rule arg_cong)
      then show ?thesis using e by linarith
    next
      case 3
      then show ?thesis using tiled_bounds [OF m(3)] e m(2) assms(3) by fastforce
    qed
  qed
  show "p + 28 + n \<in> pool_range a t"
    using e t assms(3) tiled_le [OF m(1)] m(2) by (simp add: pool_range_def)
qed

lemma header_is_Headers:
  "(\<And>b. b \<in> set bs \<Longrightarrow> Headers ps' (fst b) = Headers ps (fst b)) \<Longrightarrow>
   list_all (header_is ty ps) bs \<Longrightarrow> list_all (header_is ty ps') bs"
  by (auto simp: list_all_iff header_is_def)

lemma split_block_correct:
  assumes ok: "pool_ok ty a t ps (xs @ (p, sz, False) # ys)" and fit: "unat n < sz"
  shows "\<exists>ps'. split_block ty n p ps = Inr ps' \<and>
    pool_rep ty ps' (xs @ (p, unat n, False) # (p + 28 + n, unat (of_nat sz - 28 - n :: ULONG), False) # ys) \<and>
    pool_frame ty (pool_range a t) ps ps' \<and> (\<forall>q \<in> fst ` set (xs @ ys). Headers ps' q = Headers ps q)"
proof -
  let ?bs = "xs @ (p, sz, False) # ys" and ?new = "p + 28 + n" and ?h = "KernelPools ps ! unat ty"
  note d = pool_okD [OF ok]
  note new = new_header_address [OF d(2,4) fit]
  have r: "klist_rep (PoolLink ps, ?h) (map fst ?bs)" "list_all (header_is ty ps) ?bs" "unat ty < length (KernelPools ps)"
    using d(1) by (simp_all add: pool_rep_def)
  have ne: "?new \<noteq> p" "p \<in> pool_range a t" using new(2) d(6) by auto
  let ?m = "LIST_INIT_ENTRY ?new (PoolLink ps)"
  have fm: "links_frame {?new} (PoolLink ps) ?m" by (simp add: links_frame_def LIST_INIT_ENTRY_def)
  have ring: "ring ?m (map fst xs @ p # map fst ys)"
    using klist_rep_frame [OF r(1) fm] new(2) by (auto simp: klist_rep_def)
  have "\<exists>m'. LIST_INSERT_AFTER (\<lambda>_. Some p) ?new (?m, ?h) = Inr (m', ?h\<lparr>NumberOfElements := NumberOfElements ?h + 1\<rparr>) \<and>
      ring m' (map fst xs @ p # ?new # map fst ys) \<and> links_frame (set (?new # map fst xs @ p # map fst ys)) ?m m'"
    by (rule LIST_INSERT_AFTER_correct [OF ring]) (use new(2) in auto)
  then obtain m' where m': "LIST_INSERT_AFTER (\<lambda>_. Some p) ?new (?m, ?h) =
        Inr (m', ?h\<lparr>NumberOfElements := NumberOfElements ?h + 1\<rparr>)"
      "ring m' (map fst xs @ p # ?new # map fst ys)" "links_frame (set (?new # map fst xs @ p # map fst ys)) ?m m'"
    by blast
  have fm': "links_frame (pool_range a t) (PoolLink ps) m'"
  proof (rule links_frame_trans [of _ _ ?m])
    show "links_frame (pool_range a t) (PoolLink ps) ?m" by (rule links_frame_mono [OF fm]) (use new(3) in simp)
    show "links_frame (pool_range a t) ?m m'" by (rule links_frame_mono [OF m'(3)]) (use new(3) d(6) in auto)
  qed
  define ps1 where "ps1 = set_header ?new (\<lambda>h. h\<lparr>ph_PoolType := ty,
      ph_size := ph_size (Headers ps p) - 28 - n, ph_status := 0\<rparr>)
      (set_header ?new (\<lambda>h. h\<lparr>ph_Tag := 0\<rparr>) ps\<lparr>PoolLink := ?m\<rparr>)"
  define ps2 where "ps2 = set_header p (\<lambda>h. h\<lparr>ph_size := n\<rparr>) (set_pool ty (m', ?h\<lparr>NumberOfElements := NumberOfElements ?h + 1\<rparr>) ps1)"
  have eq: "split_block ty n p ps = Inr ps2"
    using m'(1) r(3) ne by (simp add: split_block_def ps1_def ps2_def with_pool_def Let_def)
  have hd1: "Headers ps2 q = Headers ps q" if "q \<noteq> p" "q \<noteq> ?new" for q
    using that by (simp add: ps1_def ps2_def)
  have out: "fst b \<noteq> p \<and> fst b \<noteq> ?new" if "b \<in> set (xs @ ys)" for b
  proof -
    have "fst b \<in> fst ` (set xs \<union> set ys)" using that by simp
    moreover have "p \<notin> fst ` (set xs \<union> set ys)" "?new \<notin> fst ` (set xs \<union> set ys)"
      using d(5) new(2) by (simp_all add: image_Un)
    ultimately show ?thesis by metis
  qed
  have sz: "unat (ph_size (Headers ps p)) = sz" "ph_PoolType (Headers ps p) = ty" "ph_status (Headers ps p) = 0"
    using r(2) by (simp_all add: header_is_def)
  let ?sz = "unat (of_nat sz - 28 - n :: ULONG)"
  have "of_nat sz = ph_size (Headers ps p)" using sz(1) by auto
  then have "list_all (header_is ty ps2) [(p, unat n, False), (?new, ?sz, False)]"
    using ne sz by (simp add: header_is_def ps1_def ps2_def)
  moreover have "list_all (header_is ty ps2) (xs @ ys)"
    using header_is_Headers [of "xs @ ys" ps2 ps ty] hd1 out r(2) by auto
  moreover have "klist_rep (m', ?h\<lparr>NumberOfElements := NumberOfElements ?h + 1\<rparr>) (map fst xs @ p # ?new # map fst ys)"
    using m'(2) r(1) by (cases xs) (auto simp: klist_rep_def algebra_simps)
  ultimately have "pool_rep ty ps2 (xs @ (p, unat n, False) # (?new, ?sz, False) # ys)"
    using r(3) by (simp add: pool_rep_def ps1_def ps2_def)
  moreover have "pool_frame ty (pool_range a t) ps ps2"
    using hd1 ne(2) new(3) fm' by (auto simp: pool_frame_def ps1_def ps2_def)
  moreover have "\<forall>q \<in> fst ` set (xs @ ys). Headers ps2 q = Headers ps q" using hd1 out by blast
  ultimately show ?thesis using eq by blast
qed

lemma tiled_carve:
  assumes "tiled a (xs @ (p, sz, c) # ys) t" and "t < 2 ^ 32" and "n + 28 \<le> sz \<or> \<not> splits n sz"
  shows "tiled a (xs @ carve n (p, sz, c) @ ys) t"
proof (cases "splits n sz")
  case True
  obtain m where m: "tiled a xs m" "unat p = m" "tiled (m + 28 + sz) ys t"
    using assms(1) by (auto simp: tiled_append)
  have fit: "n + 28 \<le> sz" using True assms(3) by simp
  then have "m + 28 + n < 2 ^ 32" using tiled_le [OF m(3)] assms(2) by simp
  then have "unat (p + 28 + of_nat n) = m + 28 + n"
    using unat_add_small [of p "28 + n"] m(2) by (simp add: add.assoc)
  moreover have "m + 28 + n + 28 + (sz - 28 - n) = m + 28 + sz" using fit by simp
  ultimately show ?thesis using m True by (auto simp: carve_def tiled_append ac_simps)
next
  case False
  then show ?thesis using assms(1) by (auto simp: carve_def tiled_append)
qed

lemma coalesced_carve:
  assumes "coalesced (xs @ (p, sz, False) # ys)"
  shows "coalesced (xs @ carve n (p, sz, False) @ ys)"
proof -
  have xs: "coalesced (xs @ [(p, k, True)])" for k
    using assms coalesced_append [of xs "(p, sz, False)" ys] by (simp add: coalesced_snoc)
  have ys: "coalesced ((q, k, False) # ys)" "coalesced ((q, k, True) # ys)" for q k
    using assms coalesced_append [of xs "(p, sz, False)" ys] by (auto simp: coalesced_Cons)
  have "coalesced (xs @ (p, k, True) # zs)" if "coalesced ((p, k, True) # zs)" for k zs
    using xs that coalesced_append [of xs "(p, k, True)" zs] by simp
  then show ?thesis using ys by (simp add: carve_def)
qed

lemma find_append_first: "\<forall>x \<in> set xs. \<not> P x \<Longrightarrow> find P (xs @ ys) = find P ys"
  by (induction xs) auto

lemma take_block_step:
  assumes ok: "pool_ok ty a t ps (xs @ (p, sz, False) # ys)" and first: "\<forall>b \<in> set xs. \<not> fits (unat n) b"
    and fit: "unat n < sz"
  shows "take_block ty n tag ps = bind (if splits (unat n) sz then split_block ty n p ps else Inr ps)
    (\<lambda>ps. Inr (p + mem_offset, set_header p (\<lambda>h. h\<lparr>ph_Tag := tag, ph_status := ph_status h OR 1\<rparr>) ps))"
proof -
  let ?bs = "xs @ (p, sz, False) # ys"
  note d = pool_okD [OF ok]
  have f: "find (fits (unat n)) ?bs = Some (p, sz, False)"
    using find_append_first [OF first, of "(p, sz, False) # ys"] fit by (simp add: fits_def)
  have hp: "header_is ty ps (p, sz, False)" using d(1) by (simp add: pool_rep_def)
  have sz: "unat (ph_size (Headers ps p)) = sz" "\<not> allocated ps p"
    using hp allocated_status [OF hp] by (auto simp: header_is_def)
  have sp: "(n < ph_size (Headers ps p) - 512) = splits (unat n) sz"
  proof (cases "sz < 512")
    case True
    then have "unat (ph_size (Headers ps p) - 512) = sz + 2 ^ 32 - 512"
      using sz(1) by (simp add: unat_sub_if')
    then show ?thesis using True fit by (auto simp: splits_def word_less_nat_alt)
  next
    case False
    then have "unat (ph_size (Headers ps p) - 512) = sz - 512"
      using sz(1) by (simp add: unat_sub word_le_nat_alt)
    then show ?thesis using False by (auto simp: splits_def word_less_nat_alt)
  qed
  show ?thesis
    using find_block_correct [OF ok, of n] f sz(2) sp
    by (simp add: take_block_def with_pool_rep [OF d(1)])
qed

lemma take_block_correct:
  assumes ok: "pool_ok ty a t ps (xs @ (p, sz, False) # ys)" and first: "\<forall>b \<in> set xs. \<not> fits (unat n) b"
    and fit: "unat n < sz" and room: "512 \<le> sz \<or> unat n + 28 \<le> sz"
  shows "\<exists>ps'. take_block ty n tag ps = Inr (p + mem_offset, ps') \<and>
    pool_ok ty a t ps' (xs @ carve (unat n) (p, sz, False) @ ys) \<and> ph_Tag (Headers ps' p) = tag \<and>
    pool_frame ty (pool_range a t) ps ps' \<and> (\<forall>q \<in> fst ` set (xs @ ys). Headers ps' q = Headers ps q)"
proof -
  let ?bs = "xs @ (p, sz, False) # ys"
  note d = pool_okD [OF ok]
  note unfold = take_block_step [OF ok first fit, of tag]
  let ?tag = "\<lambda>h. h\<lparr>ph_Tag := tag, ph_status := ph_status h OR 1\<rparr>"
  have sz: "unat (ph_size (Headers ps p)) = sz" using d(1) by (simp add: pool_rep_def header_is_def)
  obtain ps1 zs where ps1: "(if splits (unat n) sz then split_block ty n p ps else Inr ps) = Inr ps1"
    "pool_frame ty (pool_range a t) ps ps1" "\<forall>q \<in> fst ` set (xs @ ys). Headers ps1 q = Headers ps q"
    "\<exists>k. pool_rep ty ps1 (xs @ (p, k, False) # zs) \<and> carve (unat n) (p, sz, False) @ ys = (p, k, True) # zs"
  proof (cases "splits (unat n) sz")
    case True
    then have room2: "unat n + 28 \<le> sz" using room by (auto simp: splits_def)
    have "of_nat sz = ph_size (Headers ps p)" using sz by auto
    then have u: "unat (of_nat sz - 28 - n :: ULONG) = sz - 28 - unat n"
      using sz room2 by (simp add: unat_sub word_le_nat_alt)
    from split_block_correct [OF ok fit, unfolded u] obtain ps1 where "split_block ty n p ps = Inr ps1"
      "pool_rep ty ps1 (xs @ (p, unat n, False) # (p + 28 + n, sz - 28 - unat n, False) # ys)"
      "pool_frame ty (pool_range a t) ps ps1" "\<forall>q \<in> fst ` set (xs @ ys). Headers ps1 q = Headers ps q" by blast
    then show ?thesis using that True by (auto simp: carve_def)
  next
    case False
    have "pool_frame ty (pool_range a t) ps ps" by (auto simp: pool_frame_def intro: exI [of _ "KernelPools ps ! unat ty"])
    then show ?thesis using that [of ps ys] False d(1) by (auto simp: carve_def)
  qed
  then obtain k where k: "pool_rep ty ps1 (xs @ (p, k, False) # zs)" "carve (unat n) (p, sz, False) @ ys = (p, k, True) # zs"
    by blast
  let ?ps = "set_header p ?tag ps1"
  have room': "unat n + 28 \<le> sz \<or> \<not> splits (unat n) sz" using room by (auto simp: splits_def)
  have til: "tiled a (xs @ (p, k, True) # zs) t" using tiled_carve [OF d(2,4) room'] k(2) by simp
  have "header_is ty ps1 (p, k, False)" using k(1) by (simp add: pool_rep_def)
  then have "pool_rep ty ?ps (xs @ (p, k, True) # zs)"
    using tiled_distinct [OF til] by (intro pool_rep_set_header [OF k(1)]) (auto simp: header_is_def)
  then have "pool_ok ty a t ?ps (xs @ carve (unat n) (p, sz, False) @ ys)"
    using k(2) til coalesced_carve [OF d(3), of "unat n"] d(4) by (simp add: pool_ok_def)
  moreover have "pool_frame ty (pool_range a t) ps ?ps"
    using ps1(2) d(6) by (intro pool_frame_trans [OF ps1(2)] pool_frame_set_header) auto
  moreover have "\<forall>q \<in> fst ` set (xs @ ys). Headers ?ps q = Headers ps q"
    using ps1(3) d(5) by auto
  ultimately show ?thesis using unfold ps1(1) by (intro exI [of _ ?ps]) simp
qed

lemma take_block_none:
  assumes ok: "pool_ok ty a t ps bs" and none: "\<forall>b \<in> set bs. \<not> fits (unat n) b"
  shows "take_block ty n tag ps = Inr (0, ps)"
proof -
  have "find (fits (unat n)) bs = None" using none by (simp add: find_None_iff)
  then show ?thesis
    using find_block_correct [OF ok, of n] by (simp add: take_block_def with_pool_rep [OF pool_okD(1) [OF ok]])
qed

section \<open>Releasing a block\<close>

text \<open>
  What a release does to the blocks: the freed block absorbs a free right neighbour, and a free left
  neighbour absorbs the result.
\<close>

fun absorb :: "nat \<Rightarrow> block list \<Rightarrow> nat \<times> block list" where
  "absorb n ((q, m, False) # ys) = (n + (m + 28), ys)"
| "absorb n ys = (n, ys)"

definition join_left :: "block list \<Rightarrow> PVOID \<Rightarrow> nat \<Rightarrow> block list \<Rightarrow> block list" where
  "join_left xs p n ys = (if xs \<noteq> [] \<and> \<not> snd (snd (last xs))
     then butlast xs @ (fst (last xs), fst (snd (last xs)) + (n + 28), False) # ys else xs @ (p, n, False) # ys)"

definition freed :: "block list \<Rightarrow> PVOID \<Rightarrow> nat \<Rightarrow> block list \<Rightarrow> block list" where
  "freed xs p n ys = join_left xs p (fst (absorb n ys)) (snd (absorb n ys))"

lemma tiled_join: "tiled a (xs @ (p, n, c) # (q, m, d) # ys) t \<Longrightarrow> tiled a (xs @ (p, n + (m + 28), e) # ys) t"
  by (auto simp: tiled_append ac_simps)

lemma join_blocks:
  assumes rep: "pool_rep ty ps (xs @ (p, n, c) # (q, m, d) # ys)"
    and til: "tiled a (xs @ (p, n, c) # (q, m, d) # ys) t" "t < 2 ^ 32"
  shows "\<exists>l ps'. LIST_REMOVE q (PoolLink ps, KernelPools ps ! unat ty) = Inr l \<and>
    ps' = set_pool ty l (set_header p (\<lambda>h. h\<lparr>ph_size := ph_size h + (ph_size (Headers ps q) + 28)\<rparr>) ps) \<and>
    pool_rep ty ps' (xs @ (p, n + (m + 28), c) # ys) \<and> pool_frame ty (pool_range a t) ps ps'"
proof -
  let ?h = "KernelPools ps ! unat ty" and ?bs = "xs @ (p, n, c) # (q, m, d) # ys"
  have r: "klist_rep (PoolLink ps, ?h) (map fst ?bs)" "unat ty < length (KernelPools ps)"
    "list_all (header_is ty ps) ?bs"
    using rep by (simp_all add: pool_rep_def)
  have ds: "distinct (map fst ?bs)" "fst ` set ?bs \<subseteq> pool_range a t"
    by (rule tiled_distinct [OF til(1)]) (rule tiled_range [OF til(1)])
  have "klist_rep (PoolLink ps, ?h) ((map fst xs @ [p]) @ q # map fst ys)" using r(1) by simp
  from LIST_REMOVE_correct [OF this] obtain l where l: "LIST_REMOVE q (PoolLink ps, ?h) = Inr l"
    "klist_rep l (map fst xs @ p # map fst ys)" "links_frame (set (map fst ?bs)) (PoolLink ps) (fst l)"
    by auto
  let ?f = "\<lambda>h. h\<lparr>ph_size := ph_size h + (ph_size (Headers ps q) + 28)\<rparr>"
  let ?ps = "set_pool ty l (set_header p ?f ps)"
  have hd: "unat (ph_size (Headers ps p)) = n" "unat (ph_size (Headers ps q)) = m"
    using r(3) by (simp_all add: header_is_def)
  have "n + (m + 28) < 2 ^ 32"
    using tiled_bounds [OF tiled_join [OF til(1), of c], of p "n + (m + 28)" c] til(2) by simp
  then have "unat (ph_size (Headers ps p) + (ph_size (Headers ps q) + 28)) = n + (m + 28)"
    using hd by (simp add: unat_add_no_wrap)
  then have "header_is ty ?ps (p, n + (m + 28), c)" using r(3) by (auto simp: header_is_def)
  moreover have "Headers ?ps (fst b) = Headers ps (fst b)" if "b \<in> set (xs @ ys)" for b
    using that ds(1) by auto
  then have "list_all (header_is ty ?ps) (xs @ ys)" using header_is_Headers [of "xs @ ys" ?ps ps ty] r(3) by auto
  ultimately have "pool_rep ty ?ps (xs @ (p, n + (m + 28), c) # ys)"
    using l(2) r(2) by (auto simp: pool_rep_def)
  moreover have "pool_frame ty (pool_range a t) ps ?ps"
    using l(3) ds(2) by (intro pool_frame_trans [OF pool_frame_set_header pool_frame_set_pool])
      (auto intro: links_frame_mono)
  ultimately show ?thesis using l(1) by blast
qed

lemma pool_frame_refl [simp]: "pool_frame ty A ps ps"
  by (auto simp: pool_frame_def intro: exI [of _ "KernelPools ps ! unat ty"])

lemma merge_next_correct:
  assumes rep: "pool_rep ty ps (xs @ (p, n, False) # ys)"
    and til: "tiled a (xs @ (p, n, False) # ys) t" "t < 2 ^ 32"
  shows "\<exists>ps'. merge_next ty p ps = Inr ps' \<and> pool_frame ty (pool_range a t) ps ps' \<and>
    pool_rep ty ps' (xs @ (p, fst (absorb n ys), False) # snd (absorb n ys)) \<and>
    tiled a (xs @ (p, fst (absorb n ys), False) # snd (absorb n ys)) t"
proof -
  have k: "klist_rep (PoolLink ps, KernelPools ps ! unat ty) (map fst xs @ p # map fst ys)"
    using rep by (simp add: pool_rep_def)
  note nx = LIST_NEXT_at [OF k]
  show ?thesis
  proof (cases ys)
    case Nil
    then show ?thesis using assms nx by (simp add: merge_next_def with_pool_rep [OF rep])
  next
    case (Cons y zs)
    obtain q m d where y: "y = (q, m, d)" by (cases y)
    have al: "allocated ps q = d" using rep Cons y by (intro allocated_status) (auto simp: pool_rep_def)
    show ?thesis
    proof (cases d)
      case True
      then show ?thesis using assms nx al Cons y by (simp add: merge_next_def with_pool_rep [OF rep])
    next
      case False
      from join_blocks [of ty ps xs p n False q m False zs a t] assms Cons y False
      obtain l ps' where "LIST_REMOVE q (PoolLink ps, KernelPools ps ! unat ty) = Inr l"
        "ps' = set_pool ty l (set_header p (\<lambda>h. h\<lparr>ph_size := ph_size h + (ph_size (Headers ps q) + 28)\<rparr>) ps)"
        "pool_rep ty ps' (xs @ (p, n + (m + 28), False) # zs)" "pool_frame ty (pool_range a t) ps ps'" by auto
      moreover have "tiled a (xs @ (p, n + (m + 28), False) # zs) t" using til(1) Cons y tiled_join by blast
      ultimately show ?thesis using nx al Cons y False by (simp add: merge_next_def with_pool_rep [OF rep])
    qed
  qed
qed

lemma merge_prev_correct:
  assumes rep: "pool_rep ty ps (xs @ (p, n, False) # ys)"
    and til: "tiled a (xs @ (p, n, False) # ys) t" "t < 2 ^ 32"
  shows "\<exists>ps'. merge_prev ty p ps = Inr ps' \<and> pool_frame ty (pool_range a t) ps ps' \<and>
    pool_rep ty ps' (join_left xs p n ys) \<and> tiled a (join_left xs p n ys) t"
proof -
  have k: "klist_rep (PoolLink ps, KernelPools ps ! unat ty) (map fst xs @ p # map fst ys)"
    using rep by (simp add: pool_rep_def)
  note pv = LIST_PREV_at [OF k]
  show ?thesis
  proof (cases xs rule: rev_cases)
    case Nil
    then show ?thesis using assms pv by (simp add: merge_prev_def join_left_def with_pool_rep [OF rep])
  next
    case (snoc zs y)
    obtain q m d where y: "y = (q, m, d)" by (cases y)
    have al: "allocated ps q = d" using rep snoc y by (intro allocated_status) (auto simp: pool_rep_def)
    show ?thesis
    proof (cases d)
      case True
      then show ?thesis using assms pv al snoc y by (simp add: merge_prev_def join_left_def with_pool_rep [OF rep])
    next
      case False
      from join_blocks [of ty ps zs q m False p n False ys a t] assms snoc y False
      obtain l ps' where "LIST_REMOVE p (PoolLink ps, KernelPools ps ! unat ty) = Inr l"
        "ps' = set_pool ty l (set_header q (\<lambda>h. h\<lparr>ph_size := ph_size h + (ph_size (Headers ps p) + 28)\<rparr>) ps)"
        "pool_rep ty ps' (zs @ (q, m + (n + 28), False) # ys)" "pool_frame ty (pool_range a t) ps ps'" by auto
      moreover have "tiled a (zs @ (q, m + (n + 28), False) # ys) t"
        using til(1) snoc y tiled_join [of a zs q m d p n False ys t] by simp
      ultimately show ?thesis using pv al snoc y False by (simp add: merge_prev_def join_left_def with_pool_rep [OF rep])
    qed
  qed
qed

lemma coalesced_freed:
  assumes "coalesced (xs @ (p, n, True) # ys)"
  shows "coalesced (freed xs p n ys)"
proof -
  have c: "coalesced xs" "coalesced ys"
    using assms coalesced_append [of xs "(p, n, True)" ys] by (auto simp: coalesced_snoc coalesced_Cons)
  have ab: "coalesced ((q, k, False) # snd (absorb n ys))" for q k
    using c(2) by (cases "(n, ys)" rule: absorb.cases) (auto simp: coalesced_Cons)
  have bl: "coalesced (butlast xs @ [(q, k, False)])" if "xs \<noteq> []" "\<not> snd (snd (last xs))" for q k
    using c(1) that by (cases xs rule: rev_cases) (auto simp: coalesced_snoc)
  have "coalesced (xs @ [(p, k, False)])" if "xs = [] \<or> snd (snd (last xs))" for k
    using c(1) that by (auto simp: coalesced_snoc)
  moreover have "coalesced (us @ y # zs)" if "coalesced (us @ [y])" "coalesced (y # zs)" for us y zs
    using that coalesced_append [of us y zs] by simp
  ultimately show ?thesis using ab bl by (simp add: freed_def join_left_def)
qed

section \<open>The locked operations\<close>

lemma pools_more:
  fixes s t :: "'a pool_state_scheme"
  assumes "ke_state.more t = ke_state.more s"
  shows "Pools t = Pools s" and "ke_state.more (t\<lparr>Pools := x\<rparr>) = ke_state.more (s\<lparr>Pools := x\<rparr>)"
  using assms by (cases s; cases t; simp)+

text \<open>A critical section on the pools under \<open>PoolLock\<close>.\<close>

lemma pools_section:
  fixes s :: "'a pool_state_scheme"
  assumes lk: "lockable PoolLock s" and body: "f (Pools s) = Inr (r, ps)"
  shows "bind (KeAcquireSpinLock PoolLock s) (\<lambda>(Old, s). bind (f (Pools s)) (\<lambda>(p, ps).
      bind (KeReleaseSpinLock run (Suc fuel) PoolLock Old (s\<lparr>Pools := ps\<rparr>)) (\<lambda>s. Inr (p, s)))) =
    Inr (r, s\<lparr>Pools := ps\<rparr>)"
proof -
  let ?b = "\<lambda>s. bind (f (Pools s)) (\<lambda>(p, ps). Inr (p, s\<lparr>Pools := ps\<rparr>))"
  have "spinlock.bracket PoolLock run fuel ?b s = Inr (r, s\<lparr>Pools := ps\<rparr>)"
  proof (rule spinlock_section [OF lk])
    fix t :: "'a pool_state_scheme"
    assume t: "ke_state.more t = ke_state.more s"
    have "?b t = Inr (r, t\<lparr>Pools := ps\<rparr>)" using body pools_more(1) [OF t] by simp
    then show "\<exists>t'. ?b t = Inr (r, t') \<and> ke_state.truncate t' = ke_state.truncate t \<and>
        ke_state.more t' = ke_state.more (s\<lparr>Pools := ps\<rparr>)"
      using pools_more(2) [OF t] by (intro exI [of _ "t\<lparr>Pools := ps\<rparr>"]) (simp add: ke_state.truncate_def)
  qed (simp add: ke_state.truncate_def)
  then show ?thesis by (simp add: spinlock.bracket_def bind_assoc split_def)
qed

text \<open>Where a request may be made: the pool is not empty and the level suits the pool.\<close>

definition pool_ready :: "POOL_TYPE \<Rightarrow> 'a pool_state_scheme \<Rightarrow> bool" where
  "pool_ready ty s \<longleftrightarrow> lockable PoolLock s \<and> (CurrentIrql s = DISPATCH_LEVEL \<longrightarrow> ty = NonPagedPool)"

lemma MmAllocatePoolWithTag_eq:
  assumes "pool_ready ty s" and "pool_rep ty (Pools s) bs" and "bs \<noteq> []"
    and "take_block ty (ROUNDUP (n + POOLPAD) 4) tag (Pools s) = Inr (p, ps)"
  shows "MmAllocatePoolWithTag run (Suc fuel) ty n tag s = Inr (p, s\<lparr>Pools := ps\<rparr>)"
proof -
  have "KeGetCurrentIrql s = Inr (CurrentIrql s)" "CurrentIrql s \<le> DISPATCH_LEVEL"
    using assms(1) by (auto simp: pool_ready_def lockable_def hal_ok_irql)
  moreover have "\<not> LIST_EMPTY (KernelPools (Pools s) ! unat ty)"
    using assms(2,3) by (auto simp: LIST_EMPTY_def pool_rep_def klist_rep_def)
  ultimately show ?thesis
    using assms(1) pools_section [of s "take_block ty (ROUNDUP (n + POOLPAD) 4) tag" p ps run fuel, OF _ assms(4)]
    by (simp add: MmAllocatePoolWithTag_def with_pool_rep [OF assms(2)] pool_ready_def)
qed

text \<open>Merging rewrites headers of free blocks only.\<close>

lemma merge_next_Headers: "merge_next ty b ps = Inr ps' \<Longrightarrow> q \<noteq> b \<Longrightarrow> Headers ps' q = Headers ps q"
  by (auto simp: merge_next_def with_pool_def bind_eq_Inr split: if_splits option.splits)

lemma merge_prev_Headers: "merge_prev ty b ps = Inr ps' \<Longrightarrow> allocated ps q \<Longrightarrow> Headers ps' q = Headers ps q"
  by (auto simp: merge_prev_def with_pool_def bind_eq_Inr split: if_splits option.splits)

lemma MmFreePoolWithTag_correct:
  assumes lk: "lockable PoolLock s" and ok: "pool_ok ty a t (Pools s) (xs @ (p, n, True) # ys)"
    and tag: "tag = 0 \<or> tag = ph_Tag (Headers (Pools s) p)" and ty: "ty < NUMBEROFPOOLS"
  shows "\<exists>ps'. MmFreePoolWithTag run (Suc fuel) (p + mem_offset) tag s = Inr (s\<lparr>Pools := ps'\<rparr>) \<and>
    pool_ok ty a t ps' (freed xs p n ys) \<and> pool_frame ty (pool_range a t) (Pools s) ps' \<and>
    (\<forall>q. q \<noteq> p \<and> allocated (Pools s) q \<longrightarrow> Headers ps' q = Headers (Pools s) q)"
proof -
  let ?f = "\<lambda>h. h\<lparr>ph_Tag := NULLTAG, ph_status := POOL_STATUS_FREE\<rparr>"
  let ?s = "s\<lparr>Pools := set_header p ?f (Pools s)\<rparr>"
  note d = pool_okD [OF ok]
  have hp: "header_is ty (Pools s) (p, n, True)" using d(1) by (simp add: pool_rep_def)
  have al: "ph_PoolType (Headers (Pools s) p) = ty" "allocated (Pools s) p"
    using hp allocated_status [OF hp] by (auto simp: header_is_def)
  have ck: "\<not> free_check_fails p tag (Pools s)" using al tag ty by (auto simp: free_check_fails_def)
  have r0: "pool_rep ty (set_header p ?f (Pools s)) (xs @ (p, n, False) # ys)"
    using hp by (intro pool_rep_set_header [OF d(1,5)]) (simp add: header_is_def)
  have t0: "tiled a (xs @ (p, n, False) # ys) t" using d(2) by (simp add: tiled_append)
  obtain ps1 where ps1: "merge_next ty p (set_header p ?f (Pools s)) = Inr ps1"
    "pool_frame ty (pool_range a t) (set_header p ?f (Pools s)) ps1"
    "pool_rep ty ps1 (xs @ (p, fst (absorb n ys), False) # snd (absorb n ys))"
    "tiled a (xs @ (p, fst (absorb n ys), False) # snd (absorb n ys)) t"
    using merge_next_correct [OF r0 t0 d(4)] by blast
  obtain ps2 where ps2: "merge_prev ty p ps1 = Inr ps2" "pool_frame ty (pool_range a t) ps1 ps2"
    "pool_rep ty ps2 (freed xs p n ys)" "tiled a (freed xs p n ys) t"
    using merge_prev_correct [OF ps1(3,4) d(4)] by (auto simp: freed_def)
  let ?g = "\<lambda>ps. bind (merge_next ty p ps) (\<lambda>ps. bind (merge_prev ty p ps) (\<lambda>ps. Inr ((), ps)))"
  have lk': "lockable PoolLock ?s" by (rule truncate_lockable [OF lk]) (simp add: ke_state.truncate_def)
  have "MmFreePoolWithTag run (Suc fuel) (p + mem_offset) tag s =
      bind (bind (KeAcquireSpinLock PoolLock ?s) (\<lambda>(Old, s). bind (?g (Pools s)) (\<lambda>(r, ps).
        bind (KeReleaseSpinLock run (Suc fuel) PoolLock Old (s\<lparr>Pools := ps\<rparr>)) (\<lambda>s. Inr (r, s))))) (\<lambda>(r, s). Inr s)"
    using ck al(1) by (simp add: MmFreePoolWithTag_def Let_def bind_assoc split_def)
      (auto simp: bind_def fun_eq_iff split: sum.split)
  also have "\<dots> = Inr (s\<lparr>Pools := ps2\<rparr>)"
    using pools_section [OF lk', of ?g "()" ps2 run fuel] ps1(1) ps2(1) by simp
  finally have "MmFreePoolWithTag run (Suc fuel) (p + mem_offset) tag s = Inr (s\<lparr>Pools := ps2\<rparr>)" .
  moreover have "pool_frame ty (pool_range a t) (Pools s) ps2"
    using d(6) by (intro pool_frame_trans [OF pool_frame_set_header pool_frame_trans [OF ps1(2) ps2(2)]]) auto
  moreover have "Headers ps2 q = Headers (Pools s) q" if "q \<noteq> p" "allocated (Pools s) q" for q
    using merge_next_Headers [OF ps1(1) that(1)] merge_prev_Headers [OF ps2(1), of q] that by (simp add: allocated_def)
  ultimately show ?thesis using ps2(3,4) coalesced_freed [OF d(3)] d(4) by (auto simp: pool_ok_def)
qed

text \<open>The size a request is rounded to.\<close>

lemma request_size:
  assumes "unat n + 59 < 2 ^ 32"
  shows "unat (ROUNDUP (n + POOLPAD) 4) = (unat n + 59) div 4 * 4"
proof -
  have "unat (n + POOLPAD) = unat n + 56" using assms by (simp add: unat_add_no_wrap)
  then show ?thesis using unat_ROUNDUP [of 4 "n + POOLPAD"] assms by simp
qed

lemma freed_carve:
  assumes "coalesced (xs @ (p, sz, False) # ys)" and "n + 28 \<le> sz \<or> \<not> splits n sz" and "n < sz"
  shows "\<exists>k zs. xs @ carve n (p, sz, False) @ ys = xs @ (p, k, True) # zs \<and> freed xs p k zs = xs @ (p, sz, False) # ys"
proof -
  have c: "xs = [] \<or> snd (snd (last xs))" "ys = [] \<or> snd (snd (hd ys))"
    using assms(1) coalesced_append [of xs "(p, sz, False)" ys] by (auto simp: coalesced_snoc coalesced_Cons)
  have "absorb sz ys = (sz, ys)" using c(2) by (cases "(sz, ys)" rule: absorb.cases) auto
  then show ?thesis using c(1) assms(2,3) by (auto simp: carve_def freed_def join_left_def)
qed

text \<open>A block that is allocated and later released, whatever happened in between to the rest of the state.\<close>

lemma alloc_then_free:
  fixes s :: "'a pool_state_scheme"
  assumes ready: "pool_ready ty s" and ok: "pool_ok ty a t (Pools s) (xs @ (p, sz, False) # ys)"
    and n: "unat n + 59 < 2 ^ 32" and N: "N = (unat n + 59) div 4 * 4"
    and first: "\<forall>b \<in> set xs. \<not> fits N b" "N < sz" and room: "512 \<le> sz \<or> N + 28 \<le> sz" and ty: "ty < NUMBEROFPOOLS"
  shows "\<exists>ps. MmAllocatePoolWithTag run (Suc fuel) ty n tag s = Inr (p + 24, s\<lparr>Pools := ps\<rparr>) \<and>
    (\<forall>s' :: 'a pool_state_scheme. Pools s' = ps \<longrightarrow> lockable PoolLock s' \<longrightarrow>
      (\<exists>ps'. MmFreePoolWithTag run (Suc fuel) (p + 24) tag s' = Inr (s'\<lparr>Pools := ps'\<rparr>) \<and> pool_ok ty a t ps' (xs @ (p, sz, False) # ys)))"
proof -
  have sz: "unat (ROUNDUP (n + POOLPAD) 4) = N" using request_size [OF n] N by simp
  from take_block_correct [OF ok, of "ROUNDUP (n + POOLPAD) 4" tag] first room sz
  obtain ps where ps: "take_block ty (ROUNDUP (n + POOLPAD) 4) tag (Pools s) = Inr (p + 24, ps)"
    "pool_ok ty a t ps (xs @ carve N (p, sz, False) @ ys)" "ph_Tag (Headers ps p) = tag" by auto
  have al: "MmAllocatePoolWithTag run (Suc fuel) ty n tag s = Inr (p + 24, s\<lparr>Pools := ps\<rparr>)"
    by (rule MmAllocatePoolWithTag_eq [OF ready pool_okD(1) [OF ok] _ ps(1)]) simp
  have "N + 28 \<le> sz \<or> \<not> splits N sz" using room by (auto simp: splits_def)
  from freed_carve [OF pool_okD(3) [OF ok] this first(2)] obtain k zs
    where k: "xs @ carve N (p, sz, False) @ ys = xs @ (p, k, True) # zs" "freed xs p k zs = xs @ (p, sz, False) # ys"
    by blast
  have "\<exists>ps'. MmFreePoolWithTag run (Suc fuel) (p + 24) tag s' = Inr (s'\<lparr>Pools := ps'\<rparr>) \<and> pool_ok ty a t ps' (xs @ (p, sz, False) # ys)"
    if "Pools s' = ps" "lockable PoolLock s'" for s' :: "'a pool_state_scheme"
    using MmFreePoolWithTag_correct [OF that(2), of ty a t xs p k zs tag run fuel] that(1) ps k ty by auto
  then show ?thesis using al by blast
qed

section \<open>The self test\<close>

text \<open>One of the three allocations, from a pool whose last block is the only free one.\<close>

lemma test_alloc_passes:
  assumes ready: "pool_ready ty s" and ok: "pool_ok ty a t (Pools s) (xs @ [(p, sz, False)])"
    and xs: "\<forall>b \<in> set xs. snd (snd b)" and room: "580 < sz" and k: "of_nat sz - 96 = size0 - 96 * k"
  shows "\<exists>ps q. test_alloc run (Suc fuel) ty size0 k p s = Inr (p + 24, q, s\<lparr>Pools := ps\<rparr>) \<and>
    pool_ok ty a t ps (xs @ [(p, 68, True), (q, sz - 96, False)]) \<and> ph_Tag (Headers ps p) = test_tag \<and>
    pool_frame ty (pool_range a t) (Pools s) ps \<and> (\<forall>q \<in> fst ` set xs. Headers ps q = Headers (Pools s) q)"
proof -
  have n: "unat (ROUNDUP (12 + POOLPAD) 4 :: ULONG) = 68" using request_size [of 12] by simp
  have first: "\<forall>b \<in> set xs. \<not> fits 68 b" using xs by (auto simp: fits_def)
  have ca: "carve 68 (p, sz, False) = [(p, 68, True), (p + 96, sz - 96, False)]" using room by (simp add: carve_def splits_def add.assoc)
  obtain ps where ps: "take_block ty (ROUNDUP (12 + POOLPAD) 4) test_tag (Pools s) = Inr (p + 24, ps)"
    "pool_ok ty a t ps (xs @ [(p, 68, True), (p + 96, sz - 96, False)])" "ph_Tag (Headers ps p) = test_tag"
    "pool_frame ty (pool_range a t) (Pools s) ps" "\<forall>q \<in> fst ` set xs. Headers ps q = Headers (Pools s) q"
    using take_block_correct [OF ok, of "ROUNDUP (12 + POOLPAD) 4" test_tag] first room unfolding n ca by auto
  have al: "MmAllocatePoolWithTag run (Suc fuel) ty 12 test_tag s = Inr (p + 24, s\<lparr>Pools := ps\<rparr>)"
    by (rule MmAllocatePoolWithTag_eq [OF ready pool_okD(1) [OF ok] _ ps(1)]) simp
  have rep: "pool_rep ty ps (xs @ [(p, 68, True), (p + 96, sz - 96, False)])" by (rule pool_okD(1) [OF ps(2)])
  then have h: "header_is ty ps (p, 68, True)" "header_is ty ps (p + 96, sz - 96, False)" by (simp_all add: pool_rep_def)
  have h1: "ph_PoolType (Headers ps p) = ty" "ph_size (Headers ps p) = 68" "allocated ps p"
    "ph_PoolType (Headers ps (p + 96)) = ty" "unat (ph_size (Headers ps (p + 96))) = sz - 96" "\<not> allocated ps (p + 96)"
    using h allocated_status [OF h(1)] allocated_status [OF h(2)] by (auto simp: header_is_def word_unat_eq_iff)
  have "ph_size (Headers ps (p + 96)) = of_nat (sz - 96)" unfolding h1(5) [symmetric] by simp
  also have "\<dots> = of_nat sz - 96" using room by (simp add: of_nat_diff)
  finally have h2: "ph_size (Headers ps (p + 96)) = size0 - 96 * k" using k by simp
  have nx: "LIST_NEXT (PoolLink ps, KernelPools ps ! unat ty) p = Some (p + 96)"
    using LIST_NEXT_at [of "(PoolLink ps, KernelPools ps ! unat ty)" "map fst xs" p "[p + 96]"] rep by (simp add: pool_rep_def)
  have "unat p + 28 \<le> t" "t < 2 ^ 32"
    using tiled_bounds [OF pool_okD(2) [OF ps(2)], of p 68 True] pool_okD(4) [OF ps(2)] by auto
  then have "unat (p + of_nat 24) = unat p + 24" by (intro unat_add_small) simp
  then have "p + 24 \<noteq> 0" by auto
  then have "test_alloc run (Suc fuel) ty size0 k p s = Inr (p + 24, p + 96, s\<lparr>Pools := ps\<rparr>)"
    using al h1 h2 nx by (simp add: test_alloc_def with_pool_rep [OF rep])
  then show ?thesis using ps by blast
qed

text \<open>On a pool that is one free block the test passes and leaves the block as it was.\<close>

lemma test_pool_passes:
  assumes ready: "pool_ready ty s" and ok: "pool_ok ty a t (Pools s) [(p, sz, False)]" and room: "1000 < sz" and ty: "ty < NUMBEROFPOOLS"
  shows "\<exists>ps. Test_Pool run (Suc fuel) ty s = Inr (s\<lparr>Pools := ps\<rparr>) \<and> pool_ok ty a t ps [(p, sz, False)] \<and>
    pool_frame ty (pool_range a t) (Pools s) ps"
proof -
  have rdy: "pool_ready ty (s\<lparr>Pools := q\<rparr>)" "lockable PoolLock (s\<lparr>Pools := q\<rparr>)" for q
    using ready truncate_lockable [of PoolLock s "s\<lparr>Pools := q\<rparr>"] by (simp_all add: pool_ready_def ke_state.truncate_def)
  let ?sz = "ph_size (Headers (Pools s) p)"
  have rep: "pool_rep ty (Pools s) [(p, sz, False)]" by (rule pool_okD(1) [OF ok])
  then have sz: "of_nat sz = ?sz" "unat ?sz = sz" by (auto simp: pool_rep_def header_is_def)
  have fst0: "lh_first (KernelPools (Pools s) ! unat ty) = Some p" using rep by (simp add: pool_rep_def klist_rep_def)
  obtain p1 q1 where 1: "test_alloc run (Suc fuel) ty ?sz 1 p s = Inr (p + 24, q1, s\<lparr>Pools := p1\<rparr>)"
    "pool_ok ty a t p1 ([(p, 68, True)] @ [(q1, sz - 96, False)])" "ph_Tag (Headers p1 p) = test_tag"
    "pool_frame ty (pool_range a t) (Pools s) p1"
    using test_alloc_passes [OF ready, of a t "[]" p sz ?sz 1 run fuel] ok room sz by auto
  have r2: "580 < sz - 96" "580 < sz - 192" using room by simp_all
  have k2: "of_nat (sz - 96) - 96 = ?sz - 96 * 2" using room sz(1) by (simp add: of_nat_diff)
  obtain p2 q2 where 2: "test_alloc run (Suc fuel) ty ?sz 2 q1 (s\<lparr>Pools := p1\<rparr>) = Inr (q1 + 24, q2, s\<lparr>Pools := p2\<rparr>)"
    "pool_ok ty a t p2 ([(p, 68, True), (q1, 68, True)] @ [(q2, sz - 192, False)])" "ph_Tag (Headers p2 q1) = test_tag"
    "pool_frame ty (pool_range a t) p1 p2" "Headers p2 p = Headers p1 p"
    using test_alloc_passes [OF rdy(1), of a t p1 "[(p, 68, True)]" q1 "sz - 96" ?sz 2 run fuel] 1(2) r2 k2 by (auto simp del: less_diff_conv)
  have k3: "of_nat (sz - 192) - 96 = ?sz - 96 * 3" using room sz(1) by (simp add: of_nat_diff)
  obtain p3 q3 where 3: "test_alloc run (Suc fuel) ty ?sz 3 q2 (s\<lparr>Pools := p2\<rparr>) = Inr (q2 + 24, q3, s\<lparr>Pools := p3\<rparr>)"
    "pool_ok ty a t p3 [(p, 68, True), (q1, 68, True), (q2, 68, True), (q3, sz - 288, False)]" "ph_Tag (Headers p3 q2) = test_tag"
    "pool_frame ty (pool_range a t) p2 p3" "Headers p3 p = Headers p2 p" "Headers p3 q1 = Headers p2 q1"
    using test_alloc_passes [OF rdy(1), of a t p2 "[(p, 68, True), (q1, 68, True)]" q2 "sz - 192" ?sz 3 run fuel] 2(2) r2 k3 by (auto simp del: less_diff_conv)
  have ok3: "pool_ok ty a t p3 ([] @ (p, 68, True) # [(q1, 68, True), (q2, 68, True), (q3, sz - 288, False)])" using 3(2) by simp
  have tag3: "ph_Tag (Headers p3 p) = test_tag" "ph_Tag (Headers p3 q1) = test_tag" using 1(3) 2(3,5) 3(5,6) by simp_all
  have d3: "distinct [p, q1, q2, q3]" "list_all (header_is ty p3) [(p, 68, True), (q1, 68, True), (q2, 68, True)]"
    using pool_okD(1,2) [OF 3(2)] tiled_distinct by (fastforce simp: pool_rep_def)+
  then have al3: "allocated p3 q1" "allocated p3 q2" using allocated_status by fastforce+
  obtain p4 where 4: "MmFreePoolWithTag run (Suc fuel) (p + 24) test_tag (s\<lparr>Pools := p3\<rparr>) = Inr (s\<lparr>Pools := p4\<rparr>)"
    "pool_ok ty a t p4 [(p, 68, False), (q1, 68, True), (q2, 68, True), (q3, sz - 288, False)]" "pool_frame ty (pool_range a t) p3 p4"
    "\<forall>q. q \<noteq> p \<and> allocated p3 q \<longrightarrow> Headers p4 q = Headers p3 q"
    using MmFreePoolWithTag_correct [OF rdy(2), of ty a t p3 "[]" p 68 "[(q1, 68, True), (q2, 68, True), (q3, sz - 288, False)]" test_tag run fuel]
      ok3 tag3 ty by (auto simp: freed_def join_left_def)
  have h4: "Headers p4 q1 = Headers p3 q1" "Headers p4 q2 = Headers p3 q2" using 4(4) al3 d3(1) by auto
  have ok4: "pool_ok ty a t p4 ([(p, 68, False), (q1, 68, True)] @ (q2, 68, True) # [(q3, sz - 288, False)])" using 4(2) by simp
  have j5: "freed [(p, 68, False), (q1, 68, True)] q2 68 [(q3, sz - 288, False)] = [(p, 68, False), (q1, 68, True), (q2, sz - 192, False)]"
    using room by (simp add: freed_def join_left_def)
  obtain p5 where 5: "MmFreePoolWithTag run (Suc fuel) (q2 + 24) test_tag (s\<lparr>Pools := p4\<rparr>) = Inr (s\<lparr>Pools := p5\<rparr>)"
    "pool_ok ty a t p5 [(p, 68, False), (q1, 68, True), (q2, sz - 192, False)]" "pool_frame ty (pool_range a t) p4 p5"
    "\<forall>q. q \<noteq> q2 \<and> allocated p4 q \<longrightarrow> Headers p5 q = Headers p4 q"
    using MmFreePoolWithTag_correct [OF rdy(2), of ty a t p4 "[(p, 68, False), (q1, 68, True)]" q2 68 "[(q3, sz - 288, False)]" test_tag run fuel]
      ok4 h4(2) 3(3) ty unfolding j5 by auto
  have h5: "Headers p5 q1 = Headers p4 q1" using 5(4) al3(1) h4(1) d3(1) by (simp add: allocated_def)
  have ok5: "pool_ok ty a t p5 ([(p, 68, False)] @ (q1, 68, True) # [(q2, sz - 192, False)])" using 5(2) by simp
  have j6: "freed [(p, 68, False)] q1 68 [(q2, sz - 192, False)] = [(p, sz, False)]" using room by (simp add: freed_def join_left_def)
  obtain p6 where 6: "MmFreePoolWithTag run (Suc fuel) (q1 + 24) test_tag (s\<lparr>Pools := p5\<rparr>) = Inr (s\<lparr>Pools := p6\<rparr>)"
    "pool_ok ty a t p6 [(p, sz, False)]" "pool_frame ty (pool_range a t) p5 p6"
    using MmFreePoolWithTag_correct [OF rdy(2), of ty a t p5 "[(p, 68, False)]" q1 68 "[(q2, sz - 192, False)]" test_tag run fuel]
      ok5 h5 h4(1) tag3(2) ty unfolding j6 by auto
  note r4 = pool_okD(1) [OF 4(2)] and r5 = pool_okD(1) [OF 5(2)] and r6 = pool_okD(1) [OF 6(2)]
  have a4: "lh_first (KernelPools p4 ! unat ty) = Some p" "\<not> allocated p4 p" using r4 allocated_status by (auto simp: pool_rep_def klist_rep_def)
  have a5: "LIST_NEXT (PoolLink p5, KernelPools p5 ! unat ty) p = Some q1" "LIST_NEXT (PoolLink p5, KernelPools p5 ! unat ty) q1 = Some q2" "\<not> allocated p5 q2"
    using LIST_NEXT_at [of "(PoolLink p5, KernelPools p5 ! unat ty)" "[]" p "[q1, q2]"] LIST_NEXT_at [of "(PoolLink p5, KernelPools p5 ! unat ty)" "[p]" q1 "[q2]"]
      r5 allocated_status by (auto simp: pool_rep_def)
  have a6: "lh_first (KernelPools p6 ! unat ty) = Some p" "LIST_NEXT (PoolLink p6, KernelPools p6 ! unat ty) p = None" "\<not> allocated p6 p"
    "ph_PoolType (Headers p6 p) = ty" "ph_size (Headers p6 p) = ?sz"
    using LIST_NEXT_hd [of "(PoolLink p6, KernelPools p6 ! unat ty)" p "[]"] r6 allocated_status [of ty p6 p sz False] sz(2)
    by (auto simp: pool_rep_def klist_rep_def header_is_def word_unat_eq_iff [of "ph_size (Headers p6 p)"])
  have "Test_Pool run (Suc fuel) ty s = Inr (s\<lparr>Pools := p6\<rparr>)"
    using fst0 1(1) 2(1) 3(1) 4(1) 5(1) 6(1) a4 a5 a6
    by (simp add: Test_Pool_def with_pool_rep [OF rep] with_pool_rep [OF r4] with_pool_rep [OF r5] with_pool_rep [OF r6])
  moreover have "pool_frame ty (pool_range a t) (Pools s) p6"
    using 1(4) 2(4) 3(4) 4(3) 5(3) 6(3) by (blast intro: pool_frame_trans)
  ultimately show ?thesis using 6(2) by blast
qed

section \<open>A small pool\<close>

text \<open>
  The machine of the memory manager with a pool of two pages that holds one free block, and the same
  pool with a free block of 80 bytes before an allocated one.
\<close>

definition no_dpcs :: "'s deferred_routines" where
  "no_dpcs r d c a b s = Inr s"

definition small_pool_state :: "pools \<Rightarrow> pool_state" where
  "small_pool_state ps = mm_state.extend small_mm (pool_state.fields ps)"

definition one_block :: pools where
  "one_block = \<lparr>Headers = \<lambda>_. \<lparr>ph_PoolType = 1, ph_size = 0x1FE4, ph_Tag = 0, ph_status = 0\<rparr>,
     PoolLink = \<lparr>le_next = Some, le_prev = Some\<rparr>,
     KernelPools = [LIST_INIT, \<lparr>lh_first = Some 0x85800000, NumberOfElements = 1\<rparr>, LIST_INIT, LIST_INIT]\<rparr>"

definition two_blocks :: pools where
  "two_blocks = \<lparr>Headers = \<lambda>p. if p = 0x85800000 then \<lparr>ph_PoolType = 1, ph_size = 80, ph_Tag = 0, ph_status = 0\<rparr>
       else \<lparr>ph_PoolType = 1, ph_size = 0x1F78, ph_Tag = 7, ph_status = 1\<rparr>,
     PoolLink = \<lparr>le_next = \<lambda>p. Some (if p = 0x85800000 then 0x8580006C else 0x85800000),
       le_prev = \<lambda>p. Some (if p = 0x85800000 then 0x8580006C else 0x85800000)\<rparr>,
     KernelPools = [LIST_INIT, \<lparr>lh_first = Some 0x85800000, NumberOfElements = 2\<rparr>, LIST_INIT, LIST_INIT]\<rparr>"

lemma small_pool_state_sel [simp]:
  "Pools (small_pool_state ps) = ps" "ke_state.truncate (small_pool_state ps) = boot_state"
  "mm_state.truncate (small_pool_state ps) = small_mm"
  by (simp_all add: small_pool_state_def mm_state.extend_def pool_state.fields_def ke_state.truncate_def
      mm_state.truncate_def small_mm_def ke_state.extend_def mm_state.fields_def gdt_state.extend_def reset_gdt_def gdt_state.fields_def)

lemma small_pool_ready: "pool_ready NonPagedPool (small_pool_state ps)"
proof -
  have lk: "lockable PoolLock (small_pool_state ps)"
    using boot_state_ok(2) [of PoolLock]
    by (simp add: lockable_def hal_ok_def small_pool_state_def mm_state.extend_def pool_state.fields_def
        small_mm_def ke_state.extend_def mm_state.fields_def gdt_state.extend_def reset_gdt_def gdt_state.fields_def)
  then show ?thesis by (simp add: pool_ready_def)
qed

lemma one_block_ok: "pool_ok NonPagedPool 0x85800000 0x85802000 one_block [(0x85800000, 0x1FE4, False)]"
  by (simp add: pool_ok_def pool_rep_def one_block_def klist_rep_def ring_def header_is_def)

lemma two_blocks_ok:
  "pool_ok NonPagedPool 0x85800000 0x85802000 two_blocks [(0x85800000, 80, False), (0x8580006C, 0x1F78, True)]"
  by (simp add: pool_ok_def pool_rep_def two_blocks_def klist_rep_def ring_def header_is_def)

section \<open>Properties\<close>

text \<open>A fresh pool: when its pages can be mapped, \<open>MmInitializePool\<close> leaves a pool with one free block
  that spans the range behind its header, and leaves every other pool outside the range as it was. It keeps the page tables in order and maps nothing else.\<close>

theorem initialize_pool:
  assumes ok: "tables_ok s" "range_ok s va k" "\<forall>i < k. pte s (page_at va i) = 0" "free_frames s fs" "k \<le> length fs"
    and sz: "unat sz = 4096 * k" "0 < k" "unat va + unat sz < 2 ^ 32" and ty: "unat ty < length (KernelPools (Pools s))"
  shows "\<exists>s'. MmInitializePool va sz ty s = Inr (STATUS_SUCCESS, s') \<and>
    pool_ok ty (unat va) (unat va + unat sz) (Pools s') [(va, unat sz - 28, False)] \<and>
    (\<forall>ty' cs. ty' \<noteq> ty \<and> pool_rep ty' (Pools s) cs \<and> fst ` set cs \<inter> pool_range (unat va) (unat va + unat sz) = {} \<longrightarrow>
      pool_rep ty' (Pools s') cs) \<and>
    tables_ok s' \<and> pde s' = pde s \<and> free_frames s' (drop k fs) \<and> mm_core (s'\<lparr>Pools := Pools s\<rparr>) = mm_core s \<and>
    (\<forall>b. Valid (pde s b) \<and> \<not> in_pages va k b \<longrightarrow> pte s' b = pte s b) \<and> length (KernelPools (Pools s')) = length (KernelPools (Pools s))"
proof -
  let ?s = "s\<lparr>Pools := set_pool ty (PoolLink (Pools s), LIST_INIT) (Pools s)\<rparr>"
  have same: "PhysMem ?s = PhysMem s" "Cr3 ?s = Cr3 s" "RefCount ?s = RefCount s" "PfnLink ?s = PfnLink s"
    "PfnFreeList ?s = PfnFreeList s" "MMNumberOfPhysicalPages ?s = MMNumberOfPhysicalPages s" by simp_all
  have eq: "pde ?s = pde s" "pte ?s = pte s" by (simp_all add: fun_eq_iff pde_def pte_def page_dir_def)
  have ok': "tables_ok ?s" "range_ok ?s va k" "\<forall>i < k. pte ?s (page_at va i) = 0" "free_frames ?s fs"
    using ok eq by (simp_all add: tables_ok_def self_map_def range_ok_def free_frames_def pfn_list_def page_dir_def pde_def)
  obtain s1 where s1: "MmVirtualAlloc va sz KPOOL_PERM ?s = Inr (STATUS_SUCCESS, s1)" "mm_core s1 = mm_core ?s"
      and vm: "tables_ok s1" "pde s1 = pde ?s" "free_frames s1 (drop k fs)"
      "\<forall>b. Valid (pde ?s b) \<longrightarrow> pte s1 b = (if in_pages va k b then page_entry (fs ! (pageno b - pageno va)) (KPOOL_PERM OR PTE_P) else pte ?s b)"
    using MmVirtualAlloc_correct [OF ok' ok(5) sz(1), of KPOOL_PERM] by blast
  have "Pools (mm_core u) = Pools u" for u :: "'a pool_state_scheme" by (simp add: mm_core_def)
  then have pools: "Pools s1 = Pools ?s" using s1(2) by metis
  define ps where "ps = (set_header va (\<lambda>h. h\<lparr>ph_PoolType := ty, ph_size := sz - 28, ph_status := 0\<rparr>)
      (set_header va (\<lambda>h. h\<lparr>ph_Tag := 0\<rparr>) (Pools s1)\<lparr>PoolLink := LIST_INIT_ENTRY va (PoolLink (Pools s1))\<rparr>))"
  have h: "KernelPools ps ! unat ty = LIST_INIT" "length (KernelPools ps) = length (KernelPools (Pools s))"
    "PoolLink ps = LIST_INIT_ENTRY va (PoolLink (Pools s))"
    using ty by (simp_all add: ps_def pools)
  have len: "length (KernelPools (Pools s1)) = length (KernelPools (Pools s))" by (simp add: pools)
  obtain l where l: "LIST_INSERT_HEAD va (PoolLink ps, LIST_INIT) = Inr l" "klist_rep l [va]"
    "links_frame {va} (PoolLink ps) (fst l)"
    using LIST_INSERT_HEAD_correct [of "(PoolLink ps, LIST_INIT)" "[]" va] by (auto simp: klist_rep_def LIST_INIT_def)
  let ?s' = "s1\<lparr>Pools := set_pool ty l ps\<rparr>"
  have run: "MmInitializePool va sz ty s = Inr (STATUS_SUCCESS, ?s')"
    using s1(1) l(1) ty h len by (simp add: MmInitializePool_def with_pool_def Let_def ps_def [symmetric])
  have hsz: "unat (sz - 28) = unat sz - 28" using sz(1,2) by (simp add: unat_sub word_le_nat_alt)
  then have "header_is ty (set_pool ty l ps) (va, unat sz - 28, False)" by (simp add: header_is_def ps_def)
  then have "pool_ok ty (unat va) (unat va + unat sz) (Pools ?s') [(va, unat sz - 28, False)]"
    using l(2) ty h(2) sz by (simp add: pool_ok_def pool_rep_def)
  moreover have "pool_frame ty (pool_range (unat va) (unat va + unat sz)) (Pools s) (set_pool ty l ps)"
  proof -
    have "va \<in> pool_range (unat va) (unat va + unat sz)" using sz(1,2) by (simp add: pool_range_def)
    then show ?thesis
      using l(3) h(3) by (auto simp: pool_frame_def ps_def pools links_frame_def LIST_INIT_ENTRY_def)
  qed
  ultimately have "pool_ok ty (unat va) (unat va + unat sz) (Pools ?s') [(va, unat sz - 28, False)]"
      "\<forall>ty' cs. ty' \<noteq> ty \<and> pool_rep ty' (Pools s) cs \<and> fst ` set cs \<inter> pool_range (unat va) (unat va + unat sz) = {} \<longrightarrow> pool_rep ty' (Pools ?s') cs"
    using pool_frame_other by fastforce+
  moreover have eq': "pde ?s' = pde s1" "pte ?s' = pte s1" by (simp_all add: fun_eq_iff pde_def pte_def page_dir_def)
  then have "tables_ok ?s'" "free_frames ?s' (drop k fs)"
    using vm(1,3) by (simp_all add: tables_ok_def self_map_def free_frames_def pfn_list_def page_dir_def)
  moreover have "mm_core (?s'\<lparr>Pools := Pools s\<rparr>) = mm_core s"
  proof -
    have c: "mm_core (u\<lparr>Pools := q\<rparr>) = (mm_core u)\<lparr>Pools := q\<rparr>" for u :: "'a pool_state_scheme" and q by (simp add: mm_core_def)
    from c [of "Pools s" s1] c [of "Pools s" ?s] show ?thesis using s1(2) by simp
  qed
  moreover have "length (KernelPools (Pools ?s')) = length (KernelPools (Pools s))" using h(2) by simp
  ultimately show ?thesis using run vm(2,4) eq eq' by (intro exI [of _ ?s']) simp
qed

theorem initialize_pool_witness:
  "\<exists>s'. MmInitializePool 0x85800000 0x2000 PagedPool (small_pool_state one_block) = Inr (STATUS_SUCCESS, s') \<and>
     pool_ok PagedPool 0x85800000 0x85802000 (Pools s') [(0x85800000, 0x1FE4, False)]"
proof -
  let ?s = "small_pool_state one_block"
  have k: "k < 2 \<Longrightarrow> k = 0 \<or> k = 1" for k :: nat by auto
  have sel: "PhysMem ?s = small_mem" "page_dir ?s = 1"
    "pfn_list ?s = pfn_list small_mm" "RefCount ?s = RefCount small_mm"
    "MMNumberOfPhysicalPages ?s = MMNumberOfPhysicalPages small_mm"
    by (simp_all add: small_pool_state_def mm_state.extend_def pool_state.fields_def small_mm_def
        ke_state.extend_def mm_state.fields_def gdt_state.extend_def reset_gdt_def gdt_state.fields_def page_dir_def PPN_def pfn_list_def)
  have pd: "pde ?s va = small_mem 1 (PDX va)" for va by (simp add: pde_def sel)
  have t: "tables_ok ?s" by (auto simp: tables_ok_def self_map_def small_mem_def sel)
  have r: "range_ok ?s 0x85800000 2"
    by (auto simp: range_ok_def IsPageAlignedAddress_def PGOFF_def pd page_at_def PDX_def small_mem_def dest!: k)
  have z: "\<forall>i < 2. pte ?s (page_at 0x85800000 i) = 0"
    by (auto simp: pte_def pd sel page_at_def PDX_def PTX_def small_mem_def dest!: k)
  have f: "free_frames ?s [5, 6, 7]" using small_free by (simp add: free_frames_def sel)
  show ?thesis
    using initialize_pool [OF t r z f, of "0x2000" PagedPool] by (auto simp: one_block_def)
qed


text \<open>C13. First fit: in a sound pool, a request takes the first free block larger than the request with
  its padding, keeps the block or splits it, records the tag and leaves a sound pool with every other
  block, and every other pool, as it was; when no block is large enough it returns null and changes
  nothing. The block that is taken has to have 512 bytes or room for a second header.\<close>

theorem pool_alloc_first_fit:
  assumes ready: "pool_ready ty s" and ok: "pool_ok ty a t (Pools s) bs" and "bs \<noteq> []"
    and n: "unat n + 59 < 2 ^ 32" and N: "N = (unat n + 59) div 4 * 4"
  shows "((\<forall>b \<in> set bs. \<not> fits N b) \<longrightarrow> MmAllocatePoolWithTag run (Suc fuel) ty n tag s = Inr (0, s)) \<and>
    (\<forall>xs p sz ys. bs = xs @ (p, sz, False) # ys \<and> (\<forall>b \<in> set xs. \<not> fits N b) \<and> N < sz \<and>
        (512 \<le> sz \<or> N + 28 \<le> sz) \<longrightarrow>
      (\<exists>ps. MmAllocatePoolWithTag run (Suc fuel) ty n tag s = Inr (p + 24, s\<lparr>Pools := ps\<rparr>) \<and>
        pool_ok ty a t ps (xs @ (if sz < 512 \<or> N + 512 < sz
          then [(p, N, True), (p + 28 + of_nat N, sz - 28 - N, False)] else [(p, sz, True)]) @ ys) \<and>
        ph_Tag (Headers ps p) = tag \<and> (\<forall>q \<in> fst ` set (xs @ ys). Headers ps q = Headers (Pools s) q) \<and>
        (\<forall>ty' cs. ty' \<noteq> ty \<and> pool_rep ty' (Pools s) cs \<and> fst ` set cs \<inter> pool_range a t = {} \<longrightarrow> pool_rep ty' ps cs)))"
proof -
  have sz: "unat (ROUNDUP (n + POOLPAD) 4) = N" using request_size [OF n] N by simp
  note alloc = MmAllocatePoolWithTag_eq [OF ready pool_okD(1) [OF ok] \<open>bs \<noteq> []\<close>]
  have "MmAllocatePoolWithTag run (Suc fuel) ty n tag s = Inr (0, s)" if "\<forall>b \<in> set bs. \<not> fits N b"
    using alloc [OF take_block_none [OF ok]] that sz by simp
  moreover have "\<exists>ps. MmAllocatePoolWithTag run (Suc fuel) ty n tag s = Inr (p + 24, s\<lparr>Pools := ps\<rparr>) \<and>
      pool_ok ty a t ps (xs @ carve N (p, sz, False) @ ys) \<and> ph_Tag (Headers ps p) = tag \<and>
      (\<forall>q \<in> fst ` set (xs @ ys). Headers ps q = Headers (Pools s) q) \<and>
      (\<forall>ty' cs. ty' \<noteq> ty \<and> pool_rep ty' (Pools s) cs \<and> fst ` set cs \<inter> pool_range a t = {} \<longrightarrow> pool_rep ty' ps cs)"
    if bs: "bs = xs @ (p, sz, False) # ys" "\<forall>b \<in> set xs. \<not> fits N b" "N < sz" "512 \<le> sz \<or> N + 28 \<le> sz" for xs p sz ys
  proof -
    from take_block_correct [of ty a t "Pools s" xs p sz ys "ROUNDUP (n + POOLPAD) 4" tag] ok bs sz
    obtain ps where "take_block ty (ROUNDUP (n + POOLPAD) 4) tag (Pools s) = Inr (p + 24, ps)"
      "pool_ok ty a t ps (xs @ carve N (p, sz, False) @ ys)" "ph_Tag (Headers ps p) = tag"
      "pool_frame ty (pool_range a t) (Pools s) ps" "\<forall>q \<in> fst ` set (xs @ ys). Headers ps q = Headers (Pools s) q" by auto
    then show ?thesis using alloc pool_frame_other by (intro exI [of _ ps]) fastforce
  qed
  ultimately show ?thesis unfolding carve_def splits_def by auto
qed

theorem pool_alloc_first_fit_witness:
  "\<exists>ps. MmAllocatePoolWithTag no_dpcs 1 NonPagedPool 10 7 (small_pool_state one_block) =
       Inr (0x85800018, (small_pool_state one_block)\<lparr>Pools := ps\<rparr>) \<and>
     pool_ok NonPagedPool 0x85800000 0x85802000 ps [(0x85800000, 68, True), (0x85800060, 0x1F84, False)]"
proof -
  have ok: "pool_ok NonPagedPool 0x85800000 0x85802000 (Pools (small_pool_state one_block)) [(0x85800000, 0x1FE4, False)]"
    using one_block_ok by simp
  show ?thesis
    using pool_alloc_first_fit [OF small_pool_ready ok, of 10 68 no_dpcs 0 7,
        THEN conjunct2, THEN spec, THEN spec, THEN spec, THEN spec, of "[]" "0x85800000" "0x1FE4" "[]"]
    by auto
qed


text \<open>C7. Releasing a block of a sound pool, with its tag or with none, merges it with free neighbours on both
  sides and leaves a sound pool; so two free blocks never stand side by side.\<close>

theorem pool_free_coalesces:
  assumes "lockable PoolLock s" and "pool_ok ty a t (Pools s) (xs @ (p, n, True) # ys)"
    and "tag = 0 \<or> tag = ph_Tag (Headers (Pools s) p)" and "ty < NUMBEROFPOOLS"
  shows "\<exists>ps. MmFreePoolWithTag run (Suc fuel) (p + 24) tag s = Inr (s\<lparr>Pools := ps\<rparr>) \<and>
    pool_ok ty a t ps (freed xs p n ys)"
  using MmFreePoolWithTag_correct [OF assms] by blast

theorem pool_free_coalesces_witness:
  "\<exists>ps. MmFreePoolWithTag no_dpcs 1 0x85800084 7 (small_pool_state two_blocks) =
       Inr ((small_pool_state two_blocks)\<lparr>Pools := ps\<rparr>) \<and>
     pool_ok NonPagedPool 0x85800000 0x85802000 ps [(0x85800000, 0x1FE4, False)]"
proof -
  have ok: "pool_ok NonPagedPool 0x85800000 0x85802000 (Pools (small_pool_state two_blocks))
      ([(0x85800000, 80, False)] @ (0x8580006C, 0x1F78, True) # [])"
    using two_blocks_ok by simp
  have "lockable PoolLock (small_pool_state two_blocks)" using small_pool_ready by (auto simp: pool_ready_def)
  then show ?thesis
    using pool_free_coalesces [OF _ ok, of 7 no_dpcs 0] by (simp add: freed_def join_left_def two_blocks_def)
qed





text \<open>When the first block that fits is smaller than 512 bytes and has no room for a second header, it is
  split all the same: the allocation succeeds and puts on the list a free block whose header overlaps
  the end of the block that was taken and whose size has wrapped around to almost \<open>2 ^ 32\<close>.\<close>

theorem pool_split_underflow:
  assumes ready: "pool_ready ty s" and ok: "pool_ok ty a t (Pools s) (xs @ (p, sz, False) # ys)"
    and n: "unat n + 59 < 2 ^ 32" and N: "N = (unat n + 59) div 4 * 4"
    and first: "\<forall>b \<in> set xs. \<not> fits N b" "N < sz" and room: "sz < N + 28" "sz < 512"
  shows "\<exists>ps q. MmAllocatePoolWithTag run (Suc fuel) ty n tag s = Inr (p + 24, s\<lparr>Pools := ps\<rparr>) \<and>
    pool_rep ty ps (xs @ (p, N, True) # (q, 2 ^ 32 + sz - 28 - N, False) # ys) \<and>
    unat q < unat p + 28 + sz \<and> unat p + 28 + sz < unat q + 28"
proof -
  let ?N = "ROUNDUP (n + POOLPAD) 4" and ?q = "p + 28 + ROUNDUP (n + POOLPAD) 4"
  have sz: "unat ?N = N" using request_size [OF n] N by simp
  have ft: "\<forall>b \<in> set xs. \<not> fits (unat ?N) b" "unat ?N < sz" using first sz by simp_all
  note d = pool_okD [OF ok]
  note q = new_header_address [OF d(2,4) ft(2)]
  from split_block_correct [OF ok ft(2)] obtain ps where ps: "split_block ty ?N p (Pools s) = Inr ps"
    "pool_rep ty ps (xs @ (p, N, False) # (?q, unat (of_nat sz - 28 - ?N :: ULONG), False) # ys)" using sz by auto
  have "of_nat sz - 28 - ?N = of_nat (2 ^ 32 + sz - 28 - N)"
  proof -
    have "(of_nat (2 ^ 32 + sz - 28 - N) :: ULONG) = of_nat (2 ^ 32 + sz) - of_nat (28 + N)"
      using room first(2) by (subst of_nat_diff [symmetric]) auto
    moreover have "(of_nat N :: ULONG) = ?N" using sz by (metis word_unat_eq_iff unat_of_nat32 unat_ULONG_less)
    moreover have "(of_nat (2 ^ 32 + sz) :: ULONG) = of_nat sz" by simp
    ultimately show ?thesis by simp
  qed
  moreover have "2 ^ 32 + sz - 28 - N < 2 ^ 32" using room by auto
  ultimately have u: "unat (of_nat sz - 28 - ?N :: ULONG) = 2 ^ 32 + sz - 28 - N" by (simp add: unat_of_nat)
  let ?f = "\<lambda>h. h\<lparr>ph_Tag := tag, ph_status := ph_status h OR 1\<rparr>"
  have "splits N sz" using room by (simp add: splits_def)
  then have "take_block ty ?N tag (Pools s) = Inr (p + 24, set_header p ?f ps)"
    using take_block_step [OF ok ft, of tag] ps(1) sz by simp
  then have "MmAllocatePoolWithTag run (Suc fuel) ty n tag s = Inr (p + 24, s\<lparr>Pools := set_header p ?f ps\<rparr>)"
    by (rule MmAllocatePoolWithTag_eq [OF ready d(1), rotated]) simp
  moreover have "header_is ty ps (p, N, False)" using ps(2) by (simp add: pool_rep_def)
  then have "pool_rep ty (set_header p ?f ps) (xs @ (p, N, True) # (?q, 2 ^ 32 + sz - 28 - N, False) # ys)"
    using ps(2) q(2) d(5) u by (intro pool_rep_set_header [OF ps(2) [unfolded u]]) (auto simp: header_is_def)
  ultimately show ?thesis using q(1) sz room first(2) by (intro exI [of _ "set_header p ?f ps"] exI [of _ ?q]) auto
qed

theorem pool_split_underflow_witness:
  "\<exists>ps q. MmAllocatePoolWithTag no_dpcs 1 NonPagedPool 8 7 (small_pool_state two_blocks) =
       Inr (0x85800018, (small_pool_state two_blocks)\<lparr>Pools := ps\<rparr>) \<and>
     pool_rep NonPagedPool ps [(0x85800000, 64, True), (q, 2 ^ 32 - 12, False), (0x8580006C, 0x1F78, True)] \<and>
     unat q < 0x8580006C \<and> 0x8580006C < unat q + 28"
proof -
  have ok: "pool_ok NonPagedPool 0x85800000 0x85802000 (Pools (small_pool_state two_blocks))
      ([] @ (0x85800000, 80, False) # [(0x8580006C, 0x1F78, True)])"
    using two_blocks_ok by simp
  show ?thesis using pool_split_underflow [OF small_pool_ready ok, of 8 64 no_dpcs 0 7] by simp
qed


end
