(* ===== verification/Sched.thy ===== *)
theory Sched
  imports Pool
begin

text \<open>
  The thread scheduler of \<open>ke/scheduler.c\<close> and the dispatcher objects its wait queues belong to.
  A pointer to a thread is a number; the address of a dispatcher header is the thread or process that
  embeds it, or an object of its own. \<open>KiContextSwitch\<close> saves the stack of one thread and continues on
  the stack of another; here the saved stack is the point where the thread continues, with the local
  variables that are live there.
\<close>

section \<open>Threads, processes and dispatcher headers\<close>

type_synonym PROCESS_PRIORITY = nat

abbreviation (input) PROCESS_PRIORITY_IDLE :: PROCESS_PRIORITY where "PROCESS_PRIORITY_IDLE \<equiv> 1"
abbreviation (input) PROCESS_PRIORITY_MAX :: PROCESS_PRIORITY where "PROCESS_PRIORITY_MAX \<equiv> 6"

datatype THREAD_STATE =
    THREAD_STATE_INITIALIZED
  | THREAD_STATE_READY
  | THREAD_STATE_STANDBY
  | THREAD_STATE_RUNNING
  | THREAD_STATE_WAITING
  | THREAD_STATE_TERMINATED

datatype PROCESS_STATE =
    PROCESS_STATE_IDLE
  | PROCESS_STATE_ACTIVE
  | PROCESS_STATE_CREATION
  | PROCESS_STATE_TERMINATED

datatype KPROCESSOR_MODE = KernelMode | UserMode | MaximumMode

datatype dispatcher = ThreadHeader kthread | ProcessHeader nat | ObjectHeader nat

datatype saved_context =
    InSchedule
  | InExit
  | InWait dispatcher KIRQL
  | InStart ULONG ULONG

record KTHREAD =
  tcb_State :: THREAD_STATE
  tcb_Priority :: PROCESS_PRIORITY
  tcb_Quantum :: LONG
  tcb_WaitIrql :: KIRQL
  tcb_ThreadProcess :: "nat option"
  tcb_UserStack :: PVOID
  tcb_KernelStack :: PVOID
  tcb_PreviousMode :: KPROCESSOR_MODE
  tcb_StackPointer :: saved_context

record KPROCESS =
  pcb_Quantum :: LONG
  pcb_DirectoryTableBase :: PVOID
  pcb_BasePriority :: PROCESS_PRIORITY
  pcb_State :: PROCESS_STATE
  pcb_UserPtePool :: PVOID
  pcb_ProcessEntryPoint :: PVOID

text \<open>A wait block is one of the \<open>MAX_WAITS_ALLOWED\<close> entries embedded in a thread.\<close>

type_synonym wait_block = "kthread \<times> nat"

datatype WAIT_TYPE = WAIT_TYPE_ANY | WAIT_TYPE_ALL

record KWAIT_BLOCK =
  wb_Thread :: PKTHREAD
  wb_Object :: "dispatcher option"
  wb_Type :: WAIT_TYPE

datatype KOBJECTS =
    EventNotificationObject
  | EventSynchronizationObject
  | MutantObject
  | ProcessObject
  | QueueObject
  | SemaphoreObject
  | ThreadObject
  | GateObject
  | TimerNotificationObject
  | TimerSynchronizationObject
  | Spare2Object
  | Spare3Object
  | Spare4Object
  | Spare5Object
  | Spare6Object
  | Spare7Object
  | Spare8Object
  | Spare9Object
  | ApcObject
  | DpcObject_
  | DeviceQueueObject
  | EventPairObject
  | InterruptObject
  | ProfileObject
  | ThreadedDpcObject_
  | MaximumKernelObject

record DISPATCHER_HEADER =
  dh_WaitListHead :: "wait_block list_head"
  dh_Type :: KOBJECTS
  dh_SignalState :: LONG

record sched_state = pool_state +
  Tcbs :: "kthread \<Rightarrow> KTHREAD"
  Pcbs :: "nat \<Rightarrow> KPROCESS"
  SchedLink :: "kthread links"
  Scheduler_list :: "kthread list_head list"
  ExitThreadList :: "kthread list_head"
  TS_esp0 :: ULONG
  DHeaders :: "dispatcher \<Rightarrow> DISPATCHER_HEADER"
  WaitBlocks :: "wait_block \<Rightarrow> KWAIT_BLOCK"
  WaitLink :: "wait_block links"
  ThreadLink :: "wait_block links"
  WaitBlockList :: "kthread \<Rightarrow> wait_block list_head"
  OwnerThread :: "dispatcher \<Rightarrow> PKTHREAD"
  SemaphoreLimit :: "dispatcher \<Rightarrow> LONG"

definition set_tcb :: "kthread \<Rightarrow> (KTHREAD \<Rightarrow> KTHREAD) \<Rightarrow> 'a sched_state_scheme \<Rightarrow> 'a sched_state_scheme" where
  "set_tcb t f s = s\<lparr>Tcbs := (Tcbs s)(t := f (Tcbs s t))\<rparr>"

section \<open>Ready queues\<close>

text \<open>\<open>KiGetCurrentSchedulerList\<close> indexes the array of list heads in the processor block.\<close>

definition KiGetCurrentSchedulerList ::
  "PROCESS_PRIORITY \<Rightarrow> 'a sched_state_scheme \<Rightarrow> (kthread klist \<Rightarrow> fault + 'b) \<Rightarrow> fault + 'b" where
  "KiGetCurrentSchedulerList p s f =
     (if p < length (Scheduler_list s) then f (SchedLink s, Scheduler_list s ! p) else Inl OutOfBounds)"

definition set_sched_list :: "PROCESS_PRIORITY \<Rightarrow> kthread klist \<Rightarrow> 'a sched_state_scheme \<Rightarrow> 'a sched_state_scheme" where
  "set_sched_list p l s = s\<lparr>SchedLink := fst l, Scheduler_list := (Scheduler_list s)[p := snd l]\<rparr>"

text \<open>The check the dispatcher routines open with: \<open>DISPATCH_LEVEL\<close>, and the database locked by this thread.\<close>

definition ASSERT_dispatcher :: "string \<Rightarrow> 'a sched_state_scheme \<Rightarrow> fault + 'b \<Rightarrow> fault + 'b" where
  "ASSERT_dispatcher msg s k =
     bind (KeGetCurrentIrql s) (\<lambda>debugIrql.
     ASSERT (msg @ '': debugIrql == DISPATCH_LEVEL'') (debugIrql = DISPATCH_LEVEL)
     (let (Result, DThread) = KiQueryDispatcherDatabase s in
      ASSERT (msg @ '': Result == 1'') (Result = 1)
      (ASSERT (msg @ '': DThread == DCurrentThread'') (DThread = KeGetCurrentThread s) k)))"

fun select_loop :: "PROCESS_PRIORITY list \<Rightarrow> PROCESS_PRIORITY \<Rightarrow> 'a sched_state_scheme \<Rightarrow> fault + PROCESS_PRIORITY option" where
  "select_loop [] CurrentPriority s = Inr None"
| "select_loop (p # ps) CurrentPriority s =
     (if p < CurrentPriority then Inr None
      else KiGetCurrentSchedulerList p s (\<lambda>l.
        if LIST_EMPTY (snd l) then select_loop ps CurrentPriority s else Inr (Some p)))"

definition KiSelectNextThread ::
  "PROCESS_PRIORITY \<Rightarrow> 'a sched_state_scheme \<Rightarrow> fault + (PKTHREAD \<times> 'a sched_state_scheme)" where
  "KiSelectNextThread CurrentPriority s =
     bind (KeGetCurrentIrql s) (\<lambda>irql.
     ASSERT ''KiSelectNextThread: DISPATCH_LEVEL'' (irql = DISPATCH_LEVEL)
     (ASSERT ''KiSelectNextThread: CurrentPriority <= MAX'' (CurrentPriority \<le> PROCESS_PRIORITY_MAX)
     (ASSERT ''KiSelectNextThread: CurrentPriority >= IDLE'' (CurrentPriority \<ge> PROCESS_PRIORITY_IDLE)
     (bind (select_loop (rev [0..<Suc PROCESS_PRIORITY_MAX]) CurrentPriority s) (\<lambda>r.
      case r of
        None \<Rightarrow> Inr (None, s)
      | Some p \<Rightarrow> KiGetCurrentSchedulerList p s (\<lambda>l.
          ASSERT ''KiSelectNextThread: !LIST_EMPTY'' (\<not> LIST_EMPTY (snd l))
          (bind (LIST_REMOVE_HEAD l) (\<lambda>(t, l).
           ASSERT ''KiSelectNextThread: Thread != NULL'' (t \<noteq> None) (Inr (t, set_sched_list p l s))))))))))"

definition KiReadyThread :: "kthread \<Rightarrow> 'a sched_state_scheme \<Rightarrow> fault + 'a sched_state_scheme" where
  "KiReadyThread Tcb s =
     ASSERT_dispatcher ''KiReadyThread'' s
     (if tcb_State (Tcbs s Tcb) \<notin> {THREAD_STATE_INITIALIZED, THREAD_STATE_WAITING, THREAD_STATE_RUNNING}
      then Inl (KeBugCheck ''Incorrect Thread State'')
      else deref (tcb_ThreadProcess (Tcbs s Tcb)) (\<lambda>process.
        let s = set_tcb Tcb (\<lambda>t. t\<lparr>tcb_State := THREAD_STATE_READY, tcb_Quantum := pcb_Quantum (Pcbs s process)\<rparr>) s
        in KiGetCurrentSchedulerList (tcb_Priority (Tcbs s Tcb)) s (\<lambda>l.
           bind (LIST_INSERT_TAIL Tcb l) (\<lambda>l. Inr (set_sched_list (tcb_Priority (Tcbs s Tcb)) l s)))))"

text \<open>The two tests of the state are joined by a disjunction, so the check fails in every state.\<close>

definition KiStandbyThread :: "kthread \<Rightarrow> 'a sched_state_scheme \<Rightarrow> fault + 'a sched_state_scheme" where
  "KiStandbyThread Tcb s =
     ASSERT_dispatcher ''KiStandbyThread'' s
     (if tcb_State (Tcbs s Tcb) \<noteq> THREAD_STATE_READY \<or> tcb_State (Tcbs s Tcb) \<noteq> THREAD_STATE_TERMINATED
      then Inl (KeBugCheck ''Incorrect Thread State'')
      else
        let s = (if tcb_State (Tcbs s Tcb) \<noteq> THREAD_STATE_TERMINATED
            then set_tcb Tcb (\<lambda>t. t\<lparr>tcb_State := THREAD_STATE_STANDBY\<rparr>) s else s)
        in KiGetCurrentSchedulerList (tcb_Priority (Tcbs s Tcb)) s (\<lambda>l.
           bind (LIST_REMOVE Tcb l) (\<lambda>l. Inr (set_sched_list (tcb_Priority (Tcbs s Tcb)) l s))))"

section \<open>Switching\<close>

abbreviation (input) THREAD_STACK_SIZE :: ULONG where "THREAD_STACK_SIZE \<equiv> 3"

definition KiUpdateTSS :: "ULONG \<Rightarrow> 'a sched_state_scheme \<Rightarrow> 'a sched_state_scheme" where
  "KiUpdateTSS stack s = s\<lparr>TS_esp0 := stack\<rparr>"

text \<open>The accessor of \<open>ke/processor.c\<close> for the same field.\<close>

definition KiUpdateCurrentTSS :: "PVOID \<Rightarrow> 'a sched_state_scheme \<Rightarrow> 'a sched_state_scheme" where
  "KiUpdateCurrentTSS Stack s = s\<lparr>TS_esp0 := Stack\<rparr>"

definition KeGetCurrentProcess :: "'a sched_state_scheme \<Rightarrow> nat option" where
  "KeGetCurrentProcess s = (case KeGetCurrentThread s of None \<Rightarrow> None | Some t \<Rightarrow> tcb_ThreadProcess (Tcbs s t))"

definition KiAttachProcess :: "nat option \<Rightarrow> 'a sched_state_scheme \<Rightarrow> fault + 'a sched_state_scheme" where
  "KiAttachProcess Process s =
     bind (KeGetCurrentIrql s) (\<lambda>irql.
     ASSERT ''KiAttachProcess: DISPATCH_LEVEL'' (irql = DISPATCH_LEVEL)
     (ASSERT ''KiAttachProcess: Process'' (Process \<noteq> None)
     (deref Process (\<lambda>p. MmAttachToAddressSpace (pcb_DirectoryTableBase (Pcbs s p)) s))))"

definition KeStackAttachProcess :: "nat option \<Rightarrow> 'a sched_state_scheme \<Rightarrow> fault + 'a sched_state_scheme" where
  "KeStackAttachProcess Process s =
     ASSERT ''KeStackAttachProcess: KeGetCurrentProcess() != Process'' (KeGetCurrentProcess s \<noteq> Process)
     (bind (KeGetCurrentIrql s) (\<lambda>irql.
      ASSERT ''KeStackAttachProcess: DISPATCH_LEVEL'' (irql = DISPATCH_LEVEL) (KiAttachProcess Process s)))"

definition KeUnstackDetachProcess :: "'a sched_state_scheme \<Rightarrow> fault + 'a sched_state_scheme" where
  "KeUnstackDetachProcess s =
     bind (KeGetCurrentIrql s) (\<lambda>irql.
     ASSERT ''KeUnstackDetachProcess: DISPATCH_LEVEL'' (irql = DISPATCH_LEVEL)
     (ASSERT ''KeUnstackDetachProcess: Thread'' (KeGetCurrentThread s \<noteq> None)
     (deref (KeGetCurrentThread s) (\<lambda>t. KiAttachProcess (tcb_ThreadProcess (Tcbs s t)) s))))"

text \<open>
  The switch saves where the current thread continues and leaves the processor with the next thread;
  what that thread does is decided by its own saved context. The switch also saves EFLAGS on the stack of the current thread and loads those of the next; that is not
  in the model, where \<open>Flags_IF\<close> belongs to the processor.
\<close>

definition KiSwapThread ::
  "saved_context \<Rightarrow> kthread \<Rightarrow> kthread \<Rightarrow> 'a sched_state_scheme \<Rightarrow> fault + 'a sched_state_scheme" where
  "KiSwapThread here Current Next s =
     ASSERT_dispatcher ''KiSwapThread'' s
     (ASSERT ''KiSwapThread: KeGetCurrentThread() == CurrentThread'' (KeGetCurrentThread s = Some Current)
     (ASSERT ''KiSwapThread: CurrentThread->State''
        (tcb_State (Tcbs s Current) \<in> {THREAD_STATE_READY, THREAD_STATE_TERMINATED, THREAD_STATE_WAITING})
     (ASSERT ''KiSwapThread: NextThread->State'' (tcb_State (Tcbs s Next) = THREAD_STATE_READY)
     (bind (KiSetCurrentThread (Some Next) (set_tcb Next (\<lambda>t. t\<lparr>tcb_State := THREAD_STATE_RUNNING\<rparr>) s)) (\<lambda>s.
      bind (KiAttachProcess (tcb_ThreadProcess (Tcbs s Next)) s) (\<lambda>s.
      let s = KiUpdateTSS (tcb_KernelStack (Tcbs s Next) + THREAD_STACK_SIZE * PGSIZE) s
      in Inr (set_tcb Current (\<lambda>t. t\<lparr>tcb_StackPointer := here\<rparr>) s)))))))"

definition KiBlockThread :: "saved_context \<Rightarrow> 'a sched_state_scheme \<Rightarrow> fault + 'a sched_state_scheme" where
  "KiBlockThread here s =
     ASSERT_dispatcher ''KiBlockThread'' s
     (deref (KeGetCurrentThread s) (\<lambda>Current.
      ASSERT ''KiBlockThread: CurrentThread->State == RUNNING'' (tcb_State (Tcbs s Current) = THREAD_STATE_RUNNING)
      (let s = set_tcb Current (\<lambda>t. t\<lparr>tcb_State := THREAD_STATE_WAITING\<rparr>) s
       in bind (KiSelectNextThread PROCESS_PRIORITY_IDLE s) (\<lambda>(Next, s).
          ASSERT ''KiBlockThread: NextThread != NULL'' (Next \<noteq> None)
          (deref Next (\<lambda>Next. KiSwapThread here Current Next s))))))"

section \<open>Scheduling\<close>

text \<open>
  The threads that exited are removed from \<open>ExitThreadList\<close> by whoever runs next. \<open>exit_thread\<close> is
  \<open>PsExitThread\<close>, which belongs to the process manager above the kernel layer.
\<close>

definition exit_list :: "'a sched_state_scheme \<Rightarrow> kthread klist" where
  "exit_list s = (SchedLink s, ExitThreadList s)"

definition set_exit_list :: "kthread klist \<Rightarrow> 'a sched_state_scheme \<Rightarrow> 'a sched_state_scheme" where
  "set_exit_list l s = s\<lparr>SchedLink := fst l, ExitThreadList := snd l\<rparr>"

type_synonym 's thread_routine = "kthread \<Rightarrow> 's \<Rightarrow> fault + 's"

fun reap_loop :: "'a sched_state_scheme thread_routine \<Rightarrow> nat \<Rightarrow> 'a sched_state_scheme \<Rightarrow> fault + 'a sched_state_scheme" where
  "reap_loop exit_thread 0 s = (if LIST_EMPTY (ExitThreadList s) then Inr s else Inl Hang)"
| "reap_loop exit_thread (Suc fuel) s =
     (if LIST_EMPTY (ExitThreadList s) then Inr s
      else bind (LIST_REMOVE_HEAD (exit_list s)) (\<lambda>(t, l).
        deref t (\<lambda>t. bind (exit_thread t (set_exit_list l s)) (reap_loop exit_thread fuel))))"

text \<open>What \<open>Schedule\<close> does on the stack of the thread \<open>Self\<close> once that thread has the processor.\<close>

definition schedule_tail ::
  "'a sched_state_scheme thread_routine \<Rightarrow> 'a sched_state_scheme deferred_routines \<Rightarrow> nat \<Rightarrow> kthread \<Rightarrow>
   'a sched_state_scheme \<Rightarrow> fault + 'a sched_state_scheme" where
  "schedule_tail exit_thread run fuel Self s =
     ASSERT ''Schedule: WaitIrql <= DISPATCH_LEVEL'' (tcb_WaitIrql (Tcbs s Self) \<le> DISPATCH_LEVEL)
     (bind (KiUnLockDispatcherDataBase run fuel (tcb_WaitIrql (Tcbs s Self)) s) (\<lambda>s.
      bind (KeAcquireSpinLock ExitThreadLock s) (\<lambda>(Old, s).
      bind (reap_loop exit_thread fuel s) (\<lambda>s.
      KeReleaseSpinLock run fuel ExitThreadLock Old s))))"

text \<open>The end of \<open>KeWaitForSingleObject\<close> of a thread that blocked, and \<open>KiStartThread\<close> up to the start routine.\<close>

definition wait_tail ::
  "'a sched_state_scheme deferred_routines \<Rightarrow> nat \<Rightarrow> dispatcher \<Rightarrow> KIRQL \<Rightarrow> 'a sched_state_scheme \<Rightarrow>
   fault + 'a sched_state_scheme" where
  "wait_tail run fuel Object Old s =
     (let s = (if dh_Type (DHeaders s Object) = MutantObject
        then s\<lparr>OwnerThread := (OwnerThread s)(Object := KeGetCurrentThread s)\<rparr> else s)
      in KiUnLockDispatcherDataBase run fuel Old s)"

definition KiStartThread ::
  "'a sched_state_scheme deferred_routines \<Rightarrow> nat \<Rightarrow> 'a sched_state_scheme \<Rightarrow> fault + 'a sched_state_scheme" where
  "KiStartThread run fuel s =
     bind (KeGetCurrentIrql s) (\<lambda>debugIrql.
     ASSERT ''KiStartThread: debugIrql == DISPATCH_LEVEL'' (debugIrql = DISPATCH_LEVEL)
     (ASSERT ''KiStartThread: Result == 1'' (fst (KiQueryDispatcherDatabase s) = 1)
     (KiUnLockDispatcherDataBase run fuel PASSIVE_LEVEL s)))"

definition resume_current ::
  "'a sched_state_scheme thread_routine \<Rightarrow> 'a sched_state_scheme deferred_routines \<Rightarrow> nat \<Rightarrow>
   'a sched_state_scheme \<Rightarrow> fault + 'a sched_state_scheme" where
  "resume_current exit_thread run fuel s =
     deref (KeGetCurrentThread s) (\<lambda>t.
     case tcb_StackPointer (Tcbs s t) of
       InSchedule \<Rightarrow> schedule_tail exit_thread run fuel t s
     | InExit \<Rightarrow> Inl (KeBugCheck ''The Thread is Terminated. Should not execute here'')
     | InWait Object Old \<Rightarrow> wait_tail run fuel Object Old s
     | InStart routine argument \<Rightarrow> KiStartThread run fuel s)"

definition schedule_exit ::
  "'a sched_state_scheme thread_routine \<Rightarrow> 'a sched_state_scheme deferred_routines \<Rightarrow> nat \<Rightarrow> kthread \<Rightarrow>
   'a sched_state_scheme \<Rightarrow> fault + 'a sched_state_scheme" where
  "schedule_exit exit_thread run fuel Current s =
     bind (KiSelectNextThread PROCESS_PRIORITY_IDLE s) (\<lambda>(Next, s).
     ASSERT ''Schedule: NextThread != NULL'' (Next \<noteq> None)
     (ASSERT ''Schedule: CurrentThread != NextThread'' (Next \<noteq> Some Current)
     (deref Next (\<lambda>Next.
      bind (KeAcquireSpinLockAtDpcLevel ExitThreadLock s) (\<lambda>s.
      bind (LIST_INSERT_TAIL Current (exit_list s)) (\<lambda>l.
      bind (KeReleaseSpinLockFromDpcLevel ExitThreadLock (set_exit_list l s)) (\<lambda>s.
      bind (KiSwapThread InExit Current Next s) (resume_current exit_thread run fuel))))))))"

definition schedule_yield ::
  "'a sched_state_scheme thread_routine \<Rightarrow> 'a sched_state_scheme deferred_routines \<Rightarrow> nat \<Rightarrow> kthread \<Rightarrow>
   'a sched_state_scheme \<Rightarrow> fault + 'a sched_state_scheme" where
  "schedule_yield exit_thread run fuel Current s =
     bind (KiSelectNextThread (tcb_Priority (Tcbs s Current)) s) (\<lambda>(Next, s).
     ASSERT ''Schedule: CurrentThread != NextThread'' (Next \<noteq> Some Current)
     (case Next of
        None \<Rightarrow> schedule_tail exit_thread run fuel Current s
      | Some Next \<Rightarrow>
          bind (KiReadyThread Current s) (\<lambda>s.
          bind (KiSwapThread InSchedule Current Next s) (resume_current exit_thread run fuel))))"

definition Schedule ::
  "'a sched_state_scheme thread_routine \<Rightarrow> 'a sched_state_scheme deferred_routines \<Rightarrow> nat \<Rightarrow>
   'a sched_state_scheme \<Rightarrow> fault + 'a sched_state_scheme" where
  "Schedule exit_thread run fuel s =
     bind (KiLockDispatcherDataBase s) (\<lambda>(Old, s).
     ASSERT ''Schedule: CurrentThread'' (KeGetCurrentThread s \<noteq> None)
     (deref (KeGetCurrentThread s) (\<lambda>Current.
      let s = set_tcb Current (\<lambda>t. t\<lparr>tcb_WaitIrql := Old\<rparr>) s in
      if tcb_State (Tcbs s Current) = THREAD_STATE_TERMINATED
      then schedule_exit exit_thread run fuel Current s
      else schedule_yield exit_thread run fuel Current s)))"

section \<open>The timer\<close>

text \<open>The one scheduler DPC and the number under which \<open>Schedule\<close> is its deferred routine.\<close>

abbreviation (input) KiSchedulerDPC :: dpc where "KiSchedulerDPC \<equiv> 0"
abbreviation (input) Schedule_routine :: nat where "Schedule_routine \<equiv> 0"

definition KiThreadTimerISR ::
  "'a sched_state_scheme deferred_routines \<Rightarrow> nat \<Rightarrow> 'a sched_state_scheme \<Rightarrow> fault + 'a sched_state_scheme" where
  "KiThreadTimerISR run fuel s =
     bind (KeGetCurrentIrql s) (\<lambda>DCurrentIrql.
     ASSERT ''KiThreadTimerISR: DCurrentIrql == CLOCK1_LEVEL'' (DCurrentIrql = CLOCK1_LEVEL)
     (deref (KeGetCurrentThread s) (\<lambda>Current.
      let s = set_tcb Current (\<lambda>t. t\<lparr>tcb_Quantum := tcb_Quantum t - 1\<rparr>) s in
      if sint (tcb_Quantum (Tcbs s Current)) \<le> 0
      then bind (KeInsertQueueDpc run fuel KiSchedulerDPC 0 0 s) (\<lambda>(Queued, s). Inr s)
      else Inr s)))"

definition TimerISRoutine ::
  "'a sched_state_scheme deferred_routines \<Rightarrow> nat \<Rightarrow> 'a sched_state_scheme \<Rightarrow> fault + 'a sched_state_scheme" where
  "TimerISRoutine run fuel s = KiThreadTimerISR run fuel (KiIncrementCurrentTimerTicks s)"

definition KiSchedInitPhase :: "'a sched_state_scheme \<Rightarrow> fault + 'a sched_state_scheme" where
  "KiSchedInitPhase s =
     bind (KeSetTargetProcessorDpc KiSchedulerDPC 0 (KeInitializeDpc KiSchedulerDPC Schedule_routine 0 s)) (\<lambda>s.
     Inr ((KeInitializeSpinLock ExitThreadLock s)\<lparr>ExitThreadList := LIST_INIT\<rparr>))"

text \<open>The list heads of the processor block, all priorities but the highest by name, that one by \<open>memset\<close>.\<close>

definition KiInitProcessorPhase0 :: "'a sched_state_scheme \<Rightarrow> 'a sched_state_scheme" where
  "KiInitProcessorPhase0 s = s\<lparr>CurrentIrql := 0, CurrentThread := None, IdleThread := None, TimerTicks := 0,
     IdleTime := 0, DpcTime := 0, IsrTime := 0, SoftwareInterrupt := [0, 0],
     spin_locks := (spin_locks s)(ProcessorLock := \<lparr>Lock = 0, Thread = None, OldIrql = 0\<rparr>),
     Scheduler_list := replicate (PROCESS_PRIORITY_MAX + 1) LIST_INIT, DpcListHead := LIST_INIT, TS_esp0 := 0\<rparr>"

section \<open>The ready queues\<close>

text \<open>
  \<open>sched_ok s qs es\<close>: the queue of each priority \<open>p\<close> holds \<open>qs ! p\<close>, the exit list holds \<open>es\<close>, no thread
  is on two of them, and a queued thread is ready and queued by its own priority.
\<close>

definition sched_ok :: "'a sched_state_scheme \<Rightarrow> kthread list list \<Rightarrow> kthread list \<Rightarrow> bool" where
  "sched_ok s qs es \<longleftrightarrow> length qs = 7 \<and> length (Scheduler_list s) = 7 \<and>
     klists (SchedLink s) (Scheduler_list s @ [ExitThreadList s]) (qs @ [es]) \<and>
     (\<forall>p < 7. \<forall>t \<in> set (qs ! p). tcb_State (Tcbs s t) = THREAD_STATE_READY \<and> tcb_Priority (Tcbs s t) = p)"

definition queued :: "kthread list list \<Rightarrow> kthread list \<Rightarrow> kthread set" where
  "queued qs es = set es \<union> (\<Union>q \<in> set qs. set q)"

text \<open>The database lock is held by the current thread at \<open>DISPATCH_LEVEL\<close>.\<close>

definition dispatcher_held :: "'a sched_state_scheme \<Rightarrow> bool" where
  "dispatcher_held s \<longleftrightarrow> hal_ok s \<and> CurrentIrql s = DISPATCH_LEVEL \<and>
     Lock (spin_locks s DispatcherDataBaseLock) = 1 \<and> Thread (spin_locks s DispatcherDataBaseLock) = CurrentThread s"

lemma ASSERT_dispatcher_ok: "dispatcher_held s \<Longrightarrow> ASSERT_dispatcher msg s k = k"
  by (simp add: ASSERT_dispatcher_def dispatcher_held_def hal_ok_irql KiQueryDispatcherDatabase_def
      KeQuerySpinLock_def KeGetCurrentThread_def)

lemma set_tcb_sel [simp]:
  "Tcbs (set_tcb t f s) = (Tcbs s)(t := f (Tcbs s t))" "SchedLink (set_tcb t f s) = SchedLink s"
  "Scheduler_list (set_tcb t f s) = Scheduler_list s" "ExitThreadList (set_tcb t f s) = ExitThreadList s"
  "Pcbs (set_tcb t f s) = Pcbs s" "CurrentThread (set_tcb t f s) = CurrentThread s"
  "CurrentIrql (set_tcb t f s) = CurrentIrql s" "spin_locks (set_tcb t f s) = spin_locks s"
  "hal_ok (set_tcb t f s) = hal_ok s" "DpcListHead (set_tcb t f s) = DpcListHead s"
  "dispatcher_held (set_tcb t f s) = dispatcher_held s" "DHeaders (set_tcb t f s) = DHeaders s"
  "WaitBlocks (set_tcb t f s) = WaitBlocks s" "WaitLink (set_tcb t f s) = WaitLink s"
  "WaitBlockList (set_tcb t f s) = WaitBlockList s" "TS_esp0 (set_tcb t f s) = TS_esp0 s"
  "Dpcs (set_tcb t f s) = Dpcs s" "DpcListEntry (set_tcb t f s) = DpcListEntry s"
  by (simp_all add: set_tcb_def hal_ok_def dispatcher_held_def)

lemma set_sched_list_sel [simp]:
  "Tcbs (set_sched_list p l s) = Tcbs s" "SchedLink (set_sched_list p l s) = fst l"
  "Scheduler_list (set_sched_list p l s) = (Scheduler_list s)[p := snd l]"
  "ExitThreadList (set_sched_list p l s) = ExitThreadList s" "Pcbs (set_sched_list p l s) = Pcbs s"
  "CurrentThread (set_sched_list p l s) = CurrentThread s" "CurrentIrql (set_sched_list p l s) = CurrentIrql s"
  "spin_locks (set_sched_list p l s) = spin_locks s" "hal_ok (set_sched_list p l s) = hal_ok s"
  "DpcListHead (set_sched_list p l s) = DpcListHead s"
  "dispatcher_held (set_sched_list p l s) = dispatcher_held s" "DHeaders (set_sched_list p l s) = DHeaders s"
  "WaitBlocks (set_sched_list p l s) = WaitBlocks s" "WaitLink (set_sched_list p l s) = WaitLink s"
  "WaitBlockList (set_sched_list p l s) = WaitBlockList s" "TS_esp0 (set_sched_list p l s) = TS_esp0 s"
  by (simp_all add: set_sched_list_def hal_ok_def dispatcher_held_def)

lemma sched_okD:
  assumes "sched_ok s qs es"
  shows "length qs = 7" "length (Scheduler_list s) = 7"
    "\<And>p. p < 7 \<Longrightarrow> klist_rep (SchedLink s, Scheduler_list s ! p) (qs ! p)"
    "\<And>p. p < 7 \<Longrightarrow> LIST_EMPTY (Scheduler_list s ! p) \<longleftrightarrow> qs ! p = []"
proof -
  show l: "length qs = 7" "length (Scheduler_list s) = 7" using assms by (simp_all add: sched_ok_def)
  show k: "klist_rep (SchedLink s, Scheduler_list s ! p) (qs ! p)" if "p < 7" for p
  proof -
    have "klists (SchedLink s) (Scheduler_list s @ [ExitThreadList s]) (qs @ [es])"
      using assms by (simp add: sched_ok_def)
    from klists_nth [OF this, of p] show ?thesis using that l by (simp add: nth_append)
  qed
  show "LIST_EMPTY (Scheduler_list s ! p) \<longleftrightarrow> qs ! p = []" if "p < 7" for p
    using k [OF that] by (auto simp: klist_rep_def LIST_EMPTY_def)
qed

lemma queued_nth: "p < length qs \<Longrightarrow> t \<in> set (qs ! p) \<Longrightarrow> t \<in> queued qs es"
  by (auto simp: queued_def)

lemma sched_ok_cong:
  assumes "sched_ok s qs es" and "SchedLink s' = SchedLink s" "Scheduler_list s' = Scheduler_list s"
    "ExitThreadList s' = ExitThreadList s"
    and "\<And>t. t \<in> queued qs [] \<Longrightarrow> tcb_State (Tcbs s' t) = tcb_State (Tcbs s t) \<and> tcb_Priority (Tcbs s' t) = tcb_Priority (Tcbs s t)"
  shows "sched_ok s' qs es"
proof -
  have "t \<in> queued qs []" if "p < 7" "t \<in> set (qs ! p)" for p t
    using that assms(1) by (intro queued_nth [of p]) (simp_all add: sched_ok_def)
  then show ?thesis using assms by (simp add: sched_ok_def)
qed

text \<open>The queue \<open>KiSelectNextThread\<close> takes from: the highest priority, not below the bound, with a thread.\<close>

definition highest :: "PROCESS_PRIORITY \<Rightarrow> kthread list list \<Rightarrow> PROCESS_PRIORITY option" where
  "highest cp qs = find (\<lambda>p. qs ! p \<noteq> []) (rev [cp..<7])"

lemma highest_Some:
  "highest cp qs = Some p \<longleftrightarrow> cp \<le> p \<and> p < 7 \<and> qs ! p \<noteq> [] \<and> (\<forall>r. p < r \<and> r < 7 \<longrightarrow> qs ! r = [])"
proof -
  have "find P (rev [cp..<k]) = Some p \<longleftrightarrow> cp \<le> p \<and> p < k \<and> P p \<and> (\<forall>r. p < r \<and> r < k \<longrightarrow> \<not> P r)" for P k
  proof (induction k)
    case (Suc k)
    then show ?case by (cases "cp \<le> k") (auto simp: less_Suc_eq)
  qed simp
  then show ?thesis by (simp add: highest_def)
qed

lemma highest_None: "highest cp qs = None \<longleftrightarrow> (\<forall>p. cp \<le> p \<and> p < 7 \<longrightarrow> qs ! p = [])"
  by (auto simp: highest_def find_None_iff)

lemma select_loop_eq:
  assumes ok: "sched_ok s qs es" and k: "k \<le> 7"
  shows "select_loop (rev [0..<k]) cp s = Inr (find (\<lambda>p. qs ! p \<noteq> []) (rev [cp..<k]))"
  using k
proof (induction k)
  case (Suc k)
  show ?case
  proof (cases "k < cp")
    case False
    then show ?thesis
      using Suc sched_okD(2,4) [OF ok] by (simp add: KiGetCurrentSchedulerList_def)
  qed simp
qed simp

lemma KiSelectNextThread_correct:
  assumes ok: "sched_ok s qs es" and hal: "hal_ok s" "CurrentIrql s = DISPATCH_LEVEL" and cp: "1 \<le> cp" "cp \<le> 6"
  shows "highest cp qs = None \<Longrightarrow> KiSelectNextThread cp s = Inr (None, s)"
    and "highest cp qs = Some p \<Longrightarrow> qs ! p = n # ns \<Longrightarrow> \<exists>l. KiSelectNextThread cp s = Inr (Some n, set_sched_list p l s) \<and>
      sched_ok (set_sched_list p l s) (qs[p := ns]) es"
proof -
  have sel: "select_loop (rev [0..<Suc 6]) cp s = Inr (highest cp qs)"
    using select_loop_eq [OF ok, of 7 cp] by (simp add: highest_def)
  show "KiSelectNextThread cp s = Inr (None, s)" if "highest cp qs = None"
    using that sel cp hal by (simp add: KiSelectNextThread_def hal_ok_irql)
  show "\<exists>l. KiSelectNextThread cp s = Inr (Some n, set_sched_list p l s) \<and>
      sched_ok (set_sched_list p l s) (qs[p := ns]) es" if h: "highest cp qs = Some p" "qs ! p = n # ns"
  proof -
    note d = sched_okD [OF ok]
    have p: "p < 7" using h(1) highest_Some by blast
    have k: "klists (SchedLink s) (Scheduler_list s @ [ExitThreadList s]) (qs @ [es])"
      using ok by (simp add: sched_ok_def)
    obtain l where l: "LIST_REMOVE_HEAD (SchedLink s, Scheduler_list s ! p) = Inr (Some n, l)"
      "klists (fst l) ((Scheduler_list s)[p := snd l] @ [ExitThreadList s]) (qs[p := ns] @ [es])"
      using klists_remove_head [OF k, of p n ns] p d(1,2) h(2) by (auto simp: nth_append list_update_append)
    have "KiSelectNextThread cp s = Inr (Some n, set_sched_list p l s)"
      using sel h cp hal l(1) p d(2,4) by (simp add: KiSelectNextThread_def hal_ok_irql KiGetCurrentSchedulerList_def)
    moreover have "sched_ok (set_sched_list p l s) (qs[p := ns]) es"
    proof -
      have "tcb_State (Tcbs s t) = THREAD_STATE_READY \<and> tcb_Priority (Tcbs s t) = r"
        if "r < 7" "t \<in> set (qs[p := ns] ! r)" for r t
        using that ok h(2) p d(1) by (auto simp: sched_ok_def nth_list_update split: if_splits)
      then show ?thesis using l(2) d(1,2) by (simp add: sched_ok_def)
    qed
    ultimately show ?thesis by blast
  qed
qed

lemma KiReadyThread_correct:
  assumes ok: "sched_ok s qs es" and held: "dispatcher_held s" and out: "t \<notin> queued qs es"
    and st: "tcb_State (Tcbs s t) \<in> {THREAD_STATE_INITIALIZED, THREAD_STATE_WAITING, THREAD_STATE_RUNNING}"
    and pr: "tcb_ThreadProcess (Tcbs s t) = Some pr" and p: "tcb_Priority (Tcbs s t) = p" "p < 7"
  shows "\<exists>l. KiReadyThread t s = Inr (set_sched_list p l (set_tcb t (\<lambda>k. k\<lparr>tcb_State := THREAD_STATE_READY,
      tcb_Quantum := pcb_Quantum (Pcbs s pr)\<rparr>) s)) \<and>
    sched_ok (set_sched_list p l (set_tcb t (\<lambda>k. k\<lparr>tcb_State := THREAD_STATE_READY,
      tcb_Quantum := pcb_Quantum (Pcbs s pr)\<rparr>) s)) (qs[p := qs ! p @ [t]]) es"
proof -
  note d = sched_okD [OF ok]
  let ?s = "set_tcb t (\<lambda>k. k\<lparr>tcb_State := THREAD_STATE_READY, tcb_Quantum := pcb_Quantum (Pcbs s pr)\<rparr>) s"
  have k: "klists (SchedLink s) (Scheduler_list s @ [ExitThreadList s]) (qs @ [es])"
    using ok by (simp add: sched_ok_def)
  have "t \<notin> set ((qs @ [es]) ! j)" if "j < length (qs @ [es])" for j
    using that out by (auto simp: queued_def nth_append less_Suc_eq dest: nth_mem)
  then obtain l where l: "LIST_INSERT_TAIL t (SchedLink s, Scheduler_list s ! p) = Inr l"
    "klists (fst l) ((Scheduler_list s)[p := snd l] @ [ExitThreadList s]) (qs[p := qs ! p @ [t]] @ [es])"
    using klists_insert_tail [OF k, of p t] p d(1,2) by (auto simp: nth_append list_update_append)
  have "KiReadyThread t s = Inr (set_sched_list p l ?s)"
    using held st pr p l(1) d(2) by (simp add: KiReadyThread_def ASSERT_dispatcher_ok Let_def KiGetCurrentSchedulerList_def)
  moreover have "sched_ok (set_sched_list p l ?s) (qs[p := qs ! p @ [t]]) es"
  proof -
    have "tcb_State (Tcbs ?s u) = THREAD_STATE_READY \<and> tcb_Priority (Tcbs ?s u) = r"
      if "r < 7" "u \<in> set (qs[p := qs ! p @ [t]] ! r)" for r u
      using that ok p d(1) by (auto simp: sched_ok_def nth_list_update split: if_splits)
    then show ?thesis using l(2) d(1,2) by (simp add: sched_ok_def)
  qed
  ultimately show ?thesis by blast
qed

section \<open>Switching and resuming\<close>

lemma MmGetPhysicalAddress_cong:
  "PhysMem s' = PhysMem s \<Longrightarrow> Cr3 s' = Cr3 s \<Longrightarrow> MmGetPhysicalAddress a s' = MmGetPhysicalAddress a s"
  by (simp add: MmGetPhysicalAddress_def vread_def translate_def page_dir_def cong: option.case_cong)

lemma mm_sched_frame [simp]:
  "PhysMem (set_tcb t f s) = PhysMem s" "Cr3 (set_tcb t f s) = Cr3 s"
  "PhysMem (set_sched_list p l s) = PhysMem s" "Cr3 (set_sched_list p l s) = Cr3 s"
  "PhysMem (hold k i r) = PhysMem r" "Cr3 (hold k i r) = Cr3 r" "PhysMem (at_irql i r) = PhysMem r"
  "Cr3 (at_irql i r) = Cr3 r" "PhysMem (set_lock k g r) = PhysMem r" "Cr3 (set_lock k g r) = Cr3 r"
  by (simp_all add: set_tcb_def set_sched_list_def hold_def set_lock_def at_irql_def)

lemma sched_lock_frame [simp]:
  "Tcbs (set_lock k f s) = Tcbs s" "Tcbs (at_irql i s) = Tcbs s" "Tcbs (hold k i s) = Tcbs s"
  "Pcbs (set_lock k f s) = Pcbs s" "Pcbs (at_irql i s) = Pcbs s" "Pcbs (hold k i s) = Pcbs s"
  "SchedLink (set_lock k f s) = SchedLink s" "SchedLink (at_irql i s) = SchedLink s" "SchedLink (hold k i s) = SchedLink s"
  "Scheduler_list (set_lock k f s) = Scheduler_list s" "Scheduler_list (at_irql i s) = Scheduler_list s"
  "Scheduler_list (hold k i s) = Scheduler_list s"
  "ExitThreadList (set_lock k f s) = ExitThreadList s" "ExitThreadList (at_irql i s) = ExitThreadList s"
  "ExitThreadList (hold k i s) = ExitThreadList s" "TS_esp0 (set_lock k f s) = TS_esp0 s" "TS_esp0 (at_irql i s) = TS_esp0 s"
  by (simp_all add: set_lock_def at_irql_def hold_def)

lemma KiSwapThread_eq:
  assumes held: "dispatcher_held s" and cur: "CurrentThread s = Some c" and ne: "n \<noteq> c"
    and st: "tcb_State (Tcbs s c) \<in> {THREAD_STATE_READY, THREAD_STATE_TERMINATED, THREAD_STATE_WAITING}"
      "tcb_State (Tcbs s n) = THREAD_STATE_READY"
    and pr: "tcb_ThreadProcess (Tcbs s n) = Some pr" "MmGetPhysicalAddress (pcb_DirectoryTableBase (Pcbs s pr)) s = Inr cr"
  shows "KiSwapThread here c n s = Inr (set_tcb c (\<lambda>t. t\<lparr>tcb_StackPointer := here\<rparr>)
    ((set_tcb n (\<lambda>t. t\<lparr>tcb_State := THREAD_STATE_RUNNING\<rparr>) s)\<lparr>CurrentThread := Some n, Cr3 := cr,
      TS_esp0 := tcb_KernelStack (Tcbs s n) + 0x3000\<rparr>))"
proof -
  let ?s = "(set_tcb n (\<lambda>t. t\<lparr>tcb_State := THREAD_STATE_RUNNING\<rparr>) s)\<lparr>CurrentThread := Some n\<rparr>"
  have "MmGetPhysicalAddress (pcb_DirectoryTableBase (Pcbs s pr)) ?s = Inr cr"
    using pr(2) MmGetPhysicalAddress_cong [of ?s s] by simp
  moreover have "hal_ok s" using held by (simp add: dispatcher_held_def)
  then have "hal_ok ?s" by (simp add: hal_ok_def set_tcb_def)
  ultimately show ?thesis
    using held cur ne st pr(1)
    by (simp add: KiSwapThread_def ASSERT_dispatcher_ok KeGetCurrentThread_def KiSetCurrentThread_def KiAttachProcess_def
        hal_ok_irql dispatcher_held_def MmAttachToAddressSpace_def KiUpdateTSS_def Let_def)
qed

text \<open>Releasing the database gives the level of the thread that now runs.\<close>

lemma unlock_database:
  assumes "hal_ok s" "CurrentIrql s = DISPATCH_LEVEL" "Lock (spin_locks s DispatcherDataBaseLock) = 1"
    "i \<le> DISPATCH_LEVEL" "LIST_EMPTY (DpcListHead s)"
  shows "KiUnLockDispatcherDataBase run (Suc fuel) i s = Inr (at_irql i (set_lock DispatcherDataBaseLock (\<lambda>_. free_lock) s))"
  using assms KeLowerIrql_quiet [of "set_lock DispatcherDataBaseLock (\<lambda>_. free_lock) s" i run fuel]
  by (simp add: KiUnLockDispatcherDataBase_def KeReleaseSpinLock_def hal_ok_irql unlock_eq)

lemma reap_nothing:
  fixes s :: "'a sched_state_scheme"
  assumes lk: "lockable ExitThreadLock s" and e: "LIST_EMPTY (ExitThreadList s)"
  shows "bind (KeAcquireSpinLock ExitThreadLock s) (\<lambda>(Old, s). bind (reap_loop exit_thread k s) (\<lambda>s.
    KeReleaseSpinLock run (Suc fuel) ExitThreadLock Old s)) = Inr s"
proof -
  let ?b = "\<lambda>s. bind (reap_loop exit_thread k s) (\<lambda>s. Inr ((), s))"
  have "spinlock.bracket ExitThreadLock run fuel ?b s = Inr ((), s)"
  proof (rule spinlock_section [OF lk refl])
    fix t :: "'a sched_state_scheme"
    assume "ke_state.more t = ke_state.more s"
    then have "ExitThreadList t = ExitThreadList s" by (cases s; cases t) simp
    then have "?b t = Inr ((), t)" using e by (cases k) simp_all
    then show "\<exists>t'. ?b t = Inr ((), t') \<and> ke_state.truncate t' = ke_state.truncate t \<and> ke_state.more t' = ke_state.more s"
      using \<open>ke_state.more t = ke_state.more s\<close> by auto
  qed
  then show ?thesis
    by (auto simp: spinlock.bracket_def bind_eq_Inr split: prod.splits)
qed

text \<open>Where a thread that gets the processor continues, and at which level.\<close>

fun resume_irql :: "saved_context \<Rightarrow> KTHREAD \<Rightarrow> KIRQL option" where
  "resume_irql InSchedule t = Some (tcb_WaitIrql t)"
| "resume_irql InExit t = None"
| "resume_irql (InWait Object Old) t = Some Old"
| "resume_irql (InStart routine argument) t = Some PASSIVE_LEVEL"

definition resumed :: "kthread \<Rightarrow> KIRQL \<Rightarrow> 'a sched_state_scheme \<Rightarrow> 'a sched_state_scheme" where
  "resumed t i s =
     at_irql i (set_lock DispatcherDataBaseLock (\<lambda>_. free_lock) (case tcb_StackPointer (Tcbs s t) of
       InWait Object Old \<Rightarrow> if dh_Type (DHeaders s Object) = MutantObject
         then s\<lparr>OwnerThread := (OwnerThread s)(Object := Some t)\<rparr> else s
     | _ \<Rightarrow> s))"

lemma resume_current_eq:
  assumes hal: "hal_ok s" "CurrentIrql s = DISPATCH_LEVEL" "Lock (spin_locks s DispatcherDataBaseLock) = 1"
    and ex: "spin_locks s ExitThreadLock = free_lock" "LIST_EMPTY (ExitThreadList s)" and dpc: "LIST_EMPTY (DpcListHead s)"
    and cur: "CurrentThread s = Some t" "resume_irql (tcb_StackPointer (Tcbs s t)) (Tcbs s t) = Some i" "i \<le> DISPATCH_LEVEL"
  shows "resume_current exit_thread run (Suc fuel) s = Inr (resumed t i s)"
proof (cases "tcb_StackPointer (Tcbs s t)")
  case InSchedule
  let ?s = "at_irql i (set_lock DispatcherDataBaseLock (\<lambda>_. free_lock) s)"
  have i: "i = tcb_WaitIrql (Tcbs s t)" using cur(2) InSchedule by simp
  have "i \<le> MAX_IRQL_LEVEL" using cur(3) by (rule order_trans) simp
  then have "hal_ok ?s" using hal(1) by (intro hal_ok_at_irql) simp_all
  then have "lockable ExitThreadLock ?s" using ex(1) dpc cur(3) by (simp add: lockable_def)
  then have "bind (KeAcquireSpinLock ExitThreadLock ?s) (\<lambda>(Old, s). bind (reap_loop exit_thread (Suc fuel) s) (\<lambda>s.
      KeReleaseSpinLock run (Suc fuel) ExitThreadLock Old s)) = Inr ?s"
    using ex(2) by (intro reap_nothing) simp_all
  then show ?thesis
    using InSchedule i unlock_database [OF hal cur(3) dpc] cur
    by (simp add: resume_current_def KeGetCurrentThread_def schedule_tail_def resumed_def)
next
  case (InWait Object Old)
  let ?s = "if dh_Type (DHeaders s Object) = MutantObject then s\<lparr>OwnerThread := (OwnerThread s)(Object := Some t)\<rparr> else s"
  have "hal_ok ?s" "CurrentIrql ?s = DISPATCH_LEVEL" "Lock (spin_locks ?s DispatcherDataBaseLock) = 1"
    "LIST_EMPTY (DpcListHead ?s)" using hal dpc by (simp_all add: hal_ok_def)
  from unlock_database [OF this(1-3) cur(3) this(4), of run fuel] show ?thesis
    using InWait cur by (simp add: resume_current_def KeGetCurrentThread_def wait_tail_def resumed_def Let_def split: if_splits)
next
  case InStart
  then show ?thesis
    using unlock_database [OF hal cur(3) dpc] cur hal
    by (simp add: resume_current_def KeGetCurrentThread_def KiStartThread_def resumed_def hal_ok_irql
        KiQueryDispatcherDatabase_def KeQuerySpinLock_def)
qed (use cur(2) in simp)

lemma resumed_sel [simp]:
  "Tcbs (resumed t i s) = Tcbs s" "Pcbs (resumed t i s) = Pcbs s" "SchedLink (resumed t i s) = SchedLink s"
  "Scheduler_list (resumed t i s) = Scheduler_list s" "ExitThreadList (resumed t i s) = ExitThreadList s"
  "CurrentThread (resumed t i s) = CurrentThread s" "CurrentIrql (resumed t i s) = i"
  "spin_locks (resumed t i s) = (spin_locks s)(DispatcherDataBaseLock := free_lock)"
  "DpcListHead (resumed t i s) = DpcListHead s" "PhysMem (resumed t i s) = PhysMem s" "Cr3 (resumed t i s) = Cr3 s"
  "TS_esp0 (resumed t i s) = TS_esp0 s"
  by (auto simp: resumed_def split: saved_context.split)

lemma hal_ok_resumed: "hal_ok s \<Longrightarrow> i \<le> DISPATCH_LEVEL \<Longrightarrow> hal_ok (resumed t i s)"
proof -
  assume "hal_ok s" "i \<le> DISPATCH_LEVEL"
  moreover from this have "i \<le> MAX_IRQL_LEVEL" by (auto intro: order_trans)
  moreover have "hal_ok (s\<lparr>OwnerThread := x\<rparr>) = hal_ok s" for x by (simp add: hal_ok_def)
  ultimately show ?thesis
    unfolding resumed_def by (intro hal_ok_at_irql) (auto split: saved_context.split)
qed

section \<open>The running system\<close>

text \<open>
  \<open>running F s c qs\<close>: thread \<open>c\<close> has the processor and \<open>qs\<close> are ready; the locks are free, no DPC is pending
  and no thread waits to be reaped. Every thread has a process, whose directory has the physical address
  \<open>F\<close> gives in every address space, and every ready thread has a saved context to continue from.
\<close>

definition spaces_ok :: "(nat \<Rightarrow> ULONG) \<Rightarrow> 'a sched_state_scheme \<Rightarrow> bool" where
  "spaces_ok F s \<longleftrightarrow> (\<forall>p. \<forall>c \<in> insert (Cr3 s) (range F).
     MmGetPhysicalAddress (pcb_DirectoryTableBase (Pcbs s p)) (s\<lparr>Cr3 := c\<rparr>) = Inr (F p))"

definition can_resume :: "KTHREAD \<Rightarrow> bool" where
  "can_resume t \<longleftrightarrow> (\<exists>i. resume_irql (tcb_StackPointer t) t = Some i \<and> i \<le> DISPATCH_LEVEL)"

definition running :: "(nat \<Rightarrow> ULONG) \<Rightarrow> 'a sched_state_scheme \<Rightarrow> kthread \<Rightarrow> kthread list list \<Rightarrow> bool" where
  "running F s c qs \<longleftrightarrow> sched_ok s qs [] \<and> CurrentThread s = Some c \<and> c \<notin> queued qs [] \<and>
     tcb_State (Tcbs s c) = THREAD_STATE_RUNNING \<and> 1 \<le> tcb_Priority (Tcbs s c) \<and> tcb_Priority (Tcbs s c) \<le> 6 \<and>
     hal_ok s \<and> CurrentIrql s \<le> DISPATCH_LEVEL \<and> spin_locks s DispatcherDataBaseLock = free_lock \<and>
     spin_locks s ExitThreadLock = free_lock \<and> LIST_EMPTY (DpcListHead s) \<and>
     (\<forall>t \<in> insert c (queued qs []). tcb_ThreadProcess (Tcbs s t) \<noteq> None) \<and> qs ! 0 = [] \<and>
     (\<forall>t \<in> queued qs []. can_resume (Tcbs s t)) \<and> spaces_ok F s"

lemma spaces_ok_cong:
  assumes "spaces_ok F s" and "PhysMem s' = PhysMem s" "Pcbs s' = Pcbs s" "Cr3 s' \<in> insert (Cr3 s) (range F)"
  shows "spaces_ok F s'"
  unfolding spaces_ok_def
proof (intro allI ballI)
  fix p c
  assume "c \<in> insert (Cr3 s') (range F)"
  then have "c \<in> insert (Cr3 s) (range F)" using assms(4) by auto
  then have "MmGetPhysicalAddress (pcb_DirectoryTableBase (Pcbs s p)) (s\<lparr>Cr3 := c\<rparr>) = Inr (F p)"
    using assms(1) unfolding spaces_ok_def by blast
  then show "MmGetPhysicalAddress (pcb_DirectoryTableBase (Pcbs s' p)) (s'\<lparr>Cr3 := c\<rparr>) = Inr (F p)"
    using assms(2,3) MmGetPhysicalAddress_cong [of "s'\<lparr>Cr3 := c\<rparr>" "s\<lparr>Cr3 := c\<rparr>"] by simp
qed

lemma spaces_okD: "spaces_ok F s \<Longrightarrow> MmGetPhysicalAddress (pcb_DirectoryTableBase (Pcbs s p)) s = Inr (F p)"
proof -
  assume "spaces_ok F s"
  then have "MmGetPhysicalAddress (pcb_DirectoryTableBase (Pcbs s p)) (s\<lparr>Cr3 := Cr3 s\<rparr>) = Inr (F p)"
    by (simp add: spaces_ok_def)
  then show ?thesis by simp
qed

lemma queued_update: "p < length qs \<Longrightarrow> queued (qs[p := xs]) es \<subseteq> set xs \<union> queued qs es"
  by (auto simp: queued_def dest: set_update_subset_insert [THEN subsetD])

lemma sched_ok_not_in:
  assumes ok: "sched_ok s qs es" and p: "p < 7" "qs ! p = n # ns"
  shows "n \<notin> queued (qs[p := ns]) es"
proof -
  have k: "klists (SchedLink s) (Scheduler_list s @ [ExitThreadList s]) (qs @ [es])" and len: "length qs = 7"
    using ok by (simp_all add: sched_ok_def)
  have dist: "distinct (n # ns)" using sched_okD(3) [OF ok p(1)] p(2) by (simp add: klist_rep_def ring_def)
  have sep: "set (qs ! p) \<inter> set ((qs @ [es]) ! j) = {}" if "j < 8" "j \<noteq> p" for j
  proof -
    have "set ((qs @ [es]) ! p) \<inter> set ((qs @ [es]) ! j) = {}" using k p(1) len that unfolding klists_def by simp
    then show ?thesis using p(1) len by (simp add: nth_append)
  qed
  have "n \<notin> set es" using sep [of 7] p len by (auto simp: nth_append)
  moreover have "n \<notin> set (qs[p := ns] ! j)" if "j < 7" for j
    using that dist sep [of j] p len by (cases "j = p") (auto simp: nth_append)
  then have "n \<notin> set q" if "q \<in> set (qs[p := ns])" for q
    using that len by (metis in_set_conv_nth length_list_update)
  ultimately show ?thesis by (auto simp: queued_def)
qed

text \<open>The abstract scheduler: the current thread, its priority and the ready queues.\<close>

definition round_robin :: "(kthread \<Rightarrow> PROCESS_PRIORITY) \<Rightarrow> kthread \<times> kthread list list \<Rightarrow> kthread \<times> kthread list list" where
  "round_robin prio = (\<lambda>(c, qs). case highest (prio c) qs of
     None \<Rightarrow> (c, qs)
   | Some p \<Rightarrow> let qs' = qs[p := tl (qs ! p)] in (hd (qs ! p), qs'[prio c := qs' ! prio c @ [c]]))"

text \<open>
  \<open>switchable F s qs\<close>: the same with the database locked by the thread that is about to give up the
  processor. \<open>switch_resume\<close> is the switch to a thread just taken from its queue, up to the point where that
  thread has released the database: the two threads change, and otherwise only what a resumed wait may set.
\<close>

definition switchable :: "(nat \<Rightarrow> ULONG) \<Rightarrow> 'a sched_state_scheme \<Rightarrow> kthread list list \<Rightarrow> bool" where
  "switchable F s qs \<longleftrightarrow> sched_ok s qs [] \<and> dispatcher_held s \<and> spin_locks s ExitThreadLock = free_lock \<and>
     LIST_EMPTY (DpcListHead s) \<and> qs ! 0 = [] \<and> spaces_ok F s"

definition same_waits :: "'a sched_state_scheme \<Rightarrow> 'a sched_state_scheme \<Rightarrow> bool" where
  "same_waits s s' \<longleftrightarrow> DHeaders s' = DHeaders s \<and> WaitBlocks s' = WaitBlocks s \<and> WaitLink s' = WaitLink s \<and>
     ThreadLink s' = ThreadLink s \<and> WaitBlockList s' = WaitBlockList s \<and> SemaphoreLimit s' = SemaphoreLimit s"

lemma same_waits_refl [simp]: "same_waits s s"
  by (simp add: same_waits_def)

lemma same_waits_trans: "same_waits s s' \<Longrightarrow> same_waits s' s'' \<Longrightarrow> same_waits s s''"
  by (simp add: same_waits_def)

lemma same_waits_upd [simp]:
  "same_waits s (set_tcb t f s)" "same_waits s (set_sched_list p l s)" "same_waits s (hold k i s)"
  "same_waits s (at_irql i s)" "same_waits s (set_lock k g s)" "same_waits s (s\<lparr>CurrentThread := x, Cr3 := y, TS_esp0 := z\<rparr>)"
  "same_waits s (resumed t i s)"
  by (auto simp: same_waits_def set_tcb_def set_sched_list_def hold_def at_irql_def set_lock_def resumed_def
      split: saved_context.split)

lemma exit_list_empty: "sched_ok s qs [] \<Longrightarrow> LIST_EMPTY (ExitThreadList s)"
  using klists_nth [of "SchedLink s" "Scheduler_list s @ [ExitThreadList s]" "qs @ [[]]" 7]
  by (auto simp: sched_ok_def klist_rep_def LIST_EMPTY_def nth_append)

lemma switch_resume:
  assumes sw: "switchable F s qs" and cur: "CurrentThread s = Some c" and ne: "n \<noteq> c" and out: "n \<notin> queued qs []"
    and st: "tcb_State (Tcbs s c) \<in> {THREAD_STATE_READY, THREAD_STATE_WAITING}" "tcb_State (Tcbs s n) = THREAD_STATE_READY"
    and pr: "1 \<le> tcb_Priority (Tcbs s n)" "tcb_Priority (Tcbs s n) \<le> 6" "tcb_ThreadProcess (Tcbs s n) = Some pn"
    and i: "resume_irql (tcb_StackPointer (Tcbs s n)) (Tcbs s n) = Some i" "i \<le> DISPATCH_LEVEL"
    and qd: "\<And>t. t \<in> queued qs [] \<Longrightarrow> tcb_ThreadProcess (Tcbs s t) \<noteq> None"
    and qr: "\<And>t. t \<in> queued qs [] \<Longrightarrow> t \<noteq> c \<Longrightarrow> can_resume (Tcbs s t)"
    and cr: "c \<in> queued qs [] \<Longrightarrow> can_resume (Tcbs s c\<lparr>tcb_StackPointer := here\<rparr>)"
  shows "\<exists>s'. bind (KiSwapThread here c n s) (resume_current exit_thread run (Suc fuel)) = Inr s' \<and> running F s' n qs \<and>
    Pcbs s' = Pcbs s \<and> same_waits s s' \<and> Tcbs s' = (Tcbs s)(n := Tcbs s n\<lparr>tcb_State := THREAD_STATE_RUNNING\<rparr>,
      c := Tcbs s c\<lparr>tcb_StackPointer := here\<rparr>) \<and>
    CurrentIrql s' = i \<and> Cr3 s' = F pn \<and> TS_esp0 s' = tcb_KernelStack (Tcbs s n) + 0x3000"
proof -
  have d: "sched_ok s qs []" "dispatcher_held s" "spin_locks s ExitThreadLock = free_lock" "LIST_EMPTY (DpcListHead s)"
    "qs ! 0 = []" "spaces_ok F s" using sw by (simp_all add: switchable_def)
  have h: "hal_ok s" "CurrentIrql s = DISPATCH_LEVEL" "Lock (spin_locks s DispatcherDataBaseLock) = 1"
    using d(2) by (simp_all add: dispatcher_held_def)
  define s4 where "s4 = set_tcb c (\<lambda>t. t\<lparr>tcb_StackPointer := here\<rparr>)
      ((set_tcb n (\<lambda>t. t\<lparr>tcb_State := THREAD_STATE_RUNNING\<rparr>) s)\<lparr>CurrentThread := Some n, Cr3 := F pn,
        TS_esp0 := tcb_KernelStack (Tcbs s n) + 0x3000\<rparr>)"
  have swap: "KiSwapThread here c n s = Inr s4"
    unfolding s4_def using d(2) cur ne st pr(3) spaces_okD [OF d(6), of pn] by (intro KiSwapThread_eq) auto
  have tcb4: "Tcbs s4 = (Tcbs s)(n := Tcbs s n\<lparr>tcb_State := THREAD_STATE_RUNNING\<rparr>, c := Tcbs s c\<lparr>tcb_StackPointer := here\<rparr>)"
    using ne by (simp add: s4_def)
  have "hal_ok (x\<lparr>CurrentThread := a, Cr3 := b, TS_esp0 := e\<rparr>) = hal_ok x" for x :: "'a sched_state_scheme" and a b e
    by (simp add: hal_ok_def)
  then have hal4: "hal_ok s4" using h(1) by (simp add: s4_def)
  have sel4: "CurrentIrql s4 = 2" "Lock (spin_locks s4 DispatcherDataBaseLock) = 1"
    "spin_locks s4 ExitThreadLock = free_lock" "DpcListHead s4 = DpcListHead s" "CurrentThread s4 = Some n"
    "PhysMem s4 = PhysMem s" "Pcbs s4 = Pcbs s" "Cr3 s4 = F pn" "TS_esp0 s4 = tcb_KernelStack (Tcbs s n) + 0x3000"
    using h d(3) by (simp_all add: s4_def)
  have ok4: "sched_ok s4 qs []"
    by (rule sched_ok_cong [OF d(1)]) (use out ne in \<open>auto simp: s4_def\<close>)
  have "resume_irql (tcb_StackPointer (Tcbs s4 n)) (Tcbs s4 n) = Some i"
    using i(1) tcb4 ne by (cases "tcb_StackPointer (Tcbs s n)") auto
  from resume_current_eq [OF hal4 sel4(1-3) exit_list_empty [OF ok4] _ sel4(5) this i(2)] sel4(4) d(4)
  have res: "resume_current exit_thread run (Suc fuel) s4 = Inr (resumed n i s4)" by simp
  have "running F (resumed n i s4) n qs"
    unfolding running_def
  proof (intro conjI ballI)
    show "sched_ok (resumed n i s4) qs []" by (rule sched_ok_cong [OF ok4]) simp_all
    show "hal_ok (resumed n i s4)" by (rule hal_ok_resumed [OF hal4 i(2)])
    show "tcb_ThreadProcess (Tcbs (resumed n i s4) t) \<noteq> None" if "t \<in> insert n (queued qs [])" for t
      using that qd pr(3) ne by (cases "t = n"; cases "t = c") (auto simp: tcb4)
    show "can_resume (Tcbs (resumed n i s4) t)" if "t \<in> queued qs []" for t
      using that qr cr out ne by (cases "t = c") (auto simp: tcb4)
    show "spaces_ok F (resumed n i s4)" by (rule spaces_ok_cong [OF d(6)]) (simp_all add: sel4)
  qed (use sel4 d i pr out ne in \<open>simp_all add: tcb4\<close>)
  moreover have "same_waits s s4" by (simp add: same_waits_def s4_def set_tcb_def)
  then have "same_waits s (resumed n i s4)" by (rule same_waits_trans) simp
  ultimately show ?thesis using swap res tcb4 sel4 by (intro exI [of _ "resumed n i s4"]) simp
qed

text \<open>The database locked, with the level the thread came from in its control block.\<close>

definition locked_database :: "kthread \<Rightarrow> 'a sched_state_scheme \<Rightarrow> 'a sched_state_scheme" where
  "locked_database c s = set_tcb c (\<lambda>t. t\<lparr>tcb_WaitIrql := CurrentIrql s\<rparr>)
     (hold DispatcherDataBaseLock (CurrentIrql s) (at_irql DISPATCH_LEVEL s))"

lemma running_lock:
  assumes "running F s c qs"
  shows "KiLockDispatcherDataBase s = Inr (CurrentIrql s, hold DispatcherDataBaseLock (CurrentIrql s) (at_irql DISPATCH_LEVEL s))"
    and "switchable F (hold DispatcherDataBaseLock (CurrentIrql s) (at_irql DISPATCH_LEVEL s)) qs"
proof -
  let ?s = "hold DispatcherDataBaseLock (CurrentIrql s) (at_irql DISPATCH_LEVEL s)"
  have d: "sched_ok s qs []" "hal_ok s" "CurrentIrql s \<le> DISPATCH_LEVEL" "spin_locks s DispatcherDataBaseLock = free_lock"
    "spin_locks s ExitThreadLock = free_lock" "LIST_EMPTY (DpcListHead s)" "spaces_ok F s" "qs ! 0 = []"
    using assms by (simp_all add: running_def)
  show "KiLockDispatcherDataBase s = Inr (CurrentIrql s, ?s)"
    using d(2-4) by (simp add: KiLockDispatcherDataBase_def KeAcquireSpinLock_eq)
  have "hal_ok ?s" using hal_ok_at_irql [OF d(2), of 2] by simp
  moreover have "sched_ok ?s qs []" by (rule sched_ok_cong [OF d(1)]) auto
  moreover have "spaces_ok F ?s" by (rule spaces_ok_cong [OF d(7)]) auto
  ultimately show "switchable F ?s qs" using d by (simp add: switchable_def dispatcher_held_def)
qed

lemma switchable_set_tcb:
  assumes "switchable F s qs" and "c \<notin> queued qs []"
  shows "switchable F (set_tcb c f s) qs"
proof -
  have "sched_ok s qs []" "spaces_ok F s" using assms(1) by (simp_all add: switchable_def)
  then have "sched_ok (set_tcb c f s) qs []" "spaces_ok F (set_tcb c f s)"
    using assms(2) by (auto intro!: sched_ok_cong [of s] spaces_ok_cong [of F s])
  then show ?thesis using assms(1) by (simp add: switchable_def)
qed

lemma switchable_set_sched_list:
  assumes "switchable F s qs" and "sched_ok (set_sched_list p l s) qs' []" and "qs' ! 0 = []"
  shows "switchable F (set_sched_list p l s) qs'"
  using assms spaces_ok_cong [of F s "set_sched_list p l s"] by (simp add: switchable_def)

text \<open>Taking the next thread off its queue.\<close>

lemma select_next:
  assumes sw: "switchable F s qs" and cp: "1 \<le> cp" "cp \<le> 6" and h: "highest cp qs = Some p" "qs ! p = n # ns"
  shows "\<exists>l. KiSelectNextThread cp s = Inr (Some n, set_sched_list p l s) \<and> switchable F (set_sched_list p l s) (qs[p := ns])"
    and "n \<in> queued qs []" and "n \<notin> queued (qs[p := ns]) []" and "queued (qs[p := ns]) [] \<subseteq> queued qs []"
    and "tcb_State (Tcbs s n) = THREAD_STATE_READY" and "tcb_Priority (Tcbs s n) = p" and "1 \<le> p" and "p \<le> 6"
proof -
  have d: "sched_ok s qs []" "hal_ok s" "CurrentIrql s = DISPATCH_LEVEL" "qs ! 0 = []"
    using sw by (simp_all add: switchable_def dispatcher_held_def)
  have p: "p < 7" "cp \<le> p" using h(1) highest_Some by blast+
  have len: "length qs = 7" using d(1) by (simp add: sched_ok_def)
  from KiSelectNextThread_correct(2) [OF d(1-3) cp h] obtain l where l: "KiSelectNextThread cp s = Inr (Some n, set_sched_list p l s)"
    "sched_ok (set_sched_list p l s) (qs[p := ns]) []" by blast
  have "qs[p := ns] ! 0 = []" using d(4) p cp by simp
  then show "\<exists>l. KiSelectNextThread cp s = Inr (Some n, set_sched_list p l s) \<and> switchable F (set_sched_list p l s) (qs[p := ns])"
    using l switchable_set_sched_list [OF sw l(2)] by blast
  show "n \<in> queued qs []" using h(2) p len by (intro queued_nth [of p]) auto
  show "n \<notin> queued (qs[p := ns]) []" by (rule sched_ok_not_in [OF d(1) p(1) h(2)])
  show "queued (qs[p := ns]) [] \<subseteq> queued qs []"
    using queued_update [of p qs ns "[]"] queued_nth [of p qs _ "[]"] h(2) p len by fastforce
  show "tcb_State (Tcbs s n) = THREAD_STATE_READY" "tcb_Priority (Tcbs s n) = p"
    using d(1) h(2) p by (auto simp: sched_ok_def)
  show "1 \<le> p" "p \<le> 6" using p cp by simp_all
qed

text \<open>Making a thread ready while the database is locked.\<close>

lemma make_ready:
  assumes sw: "switchable F s qs" and out: "t \<notin> queued qs []"
    and st: "tcb_State (Tcbs s t) \<in> {THREAD_STATE_INITIALIZED, THREAD_STATE_WAITING, THREAD_STATE_RUNNING}"
    and pr: "tcb_ThreadProcess (Tcbs s t) = Some pc" "tcb_Priority (Tcbs s t) = p" "1 \<le> p" "p \<le> 6"
  shows "\<exists>s'. KiReadyThread t s = Inr s' \<and> switchable F s' (qs[p := qs ! p @ [t]]) \<and> same_waits s s' \<and>
    Tcbs s' = (Tcbs s)(t := Tcbs s t\<lparr>tcb_State := THREAD_STATE_READY, tcb_Quantum := pcb_Quantum (Pcbs s pc)\<rparr>) \<and>
    Pcbs s' = Pcbs s \<and> CurrentThread s' = CurrentThread s \<and> OwnerThread s' = OwnerThread s \<and>
    CurrentIrql s' = CurrentIrql s \<and> spin_locks s' = spin_locks s \<and>
    Hal8259MaskTable s' = Hal8259MaskTable s"
    and "queued (qs[p := qs ! p @ [t]]) [] \<subseteq> insert t (queued qs [])"
proof -
  have d: "sched_ok s qs []" "dispatcher_held s" "qs ! 0 = []" using sw by (simp_all add: switchable_def)
  have len: "length qs = 7" using d(1) by (simp add: sched_ok_def)
  let ?s = "set_tcb t (\<lambda>k. k\<lparr>tcb_State := THREAD_STATE_READY, tcb_Quantum := pcb_Quantum (Pcbs s pc)\<rparr>) s"
  from KiReadyThread_correct [OF d(1,2) out st pr(1,2)] pr(4) obtain l where
    l: "KiReadyThread t s = Inr (set_sched_list p l ?s)" "sched_ok (set_sched_list p l ?s) (qs[p := qs ! p @ [t]]) []" by auto
  have "qs[p := qs ! p @ [t]] ! 0 = []" using d(3) pr(3) by simp
  then have "switchable F (set_sched_list p l ?s) (qs[p := qs ! p @ [t]])"
    using switchable_set_tcb [OF sw out] l(2) by (intro switchable_set_sched_list)
  moreover have "same_waits s (set_sched_list p l ?s)" by (rule same_waits_trans [of _ ?s]) simp_all
  ultimately show "\<exists>s'. KiReadyThread t s = Inr s' \<and> switchable F s' (qs[p := qs ! p @ [t]]) \<and> same_waits s s' \<and>
    Tcbs s' = (Tcbs s)(t := Tcbs s t\<lparr>tcb_State := THREAD_STATE_READY, tcb_Quantum := pcb_Quantum (Pcbs s pc)\<rparr>) \<and>
    Pcbs s' = Pcbs s \<and> CurrentThread s' = CurrentThread s \<and> OwnerThread s' = OwnerThread s \<and>
    CurrentIrql s' = CurrentIrql s \<and> spin_locks s' = spin_locks s \<and> Hal8259MaskTable s' = Hal8259MaskTable s"
    using l(1) by (intro exI [of _ "set_sched_list p l ?s"]) (simp add: set_sched_list_def set_tcb_def)
  show "queued (qs[p := qs ! p @ [t]]) [] \<subseteq> insert t (queued qs [])"
    using queued_update [of p qs "qs ! p @ [t]" "[]"] queued_nth [of p qs _ "[]"] pr(4) len by fastforce
qed

text \<open>\<open>Schedule\<close> when a thread of the same or a higher priority is ready.\<close>

lemma Schedule_switch:
  assumes r: "running F s c qs" and h: "highest (tcb_Priority (Tcbs s c)) qs = Some p" "qs ! p = n # ns"
  shows "\<exists>s'. Schedule exit_thread run (Suc fuel) s = Inr s' \<and> n \<noteq> c \<and>
    running F s' n (let qs' = qs[p := ns] in qs'[tcb_Priority (Tcbs s c) := qs' ! tcb_Priority (Tcbs s c) @ [c]]) \<and>
    Pcbs s' = Pcbs s \<and> same_waits s s' \<and>
    Tcbs s' = (Tcbs s)(n := Tcbs s n\<lparr>tcb_State := THREAD_STATE_RUNNING\<rparr>,
      c := Tcbs s c\<lparr>tcb_WaitIrql := CurrentIrql s, tcb_State := THREAD_STATE_READY,
        tcb_Quantum := pcb_Quantum (Pcbs s (the (tcb_ThreadProcess (Tcbs s c)))), tcb_StackPointer := InSchedule\<rparr>) \<and>
    Some (CurrentIrql s') = resume_irql (tcb_StackPointer (Tcbs s n)) (Tcbs s n) \<and>
    Cr3 s' = F (the (tcb_ThreadProcess (Tcbs s n))) \<and> TS_esp0 s' = tcb_KernelStack (Tcbs s n) + 0x3000"
proof -
  let ?cp = "tcb_Priority (Tcbs s c)"
  have d: "CurrentThread s = Some c" "c \<notin> queued qs []" "CurrentIrql s \<le> DISPATCH_LEVEL" "1 \<le> ?cp" "?cp \<le> 6"
    "tcb_State (Tcbs s c) = THREAD_STATE_RUNNING"
    using r by (simp_all add: running_def)
  define s1 where "s1 = locked_database c s"
  have s1: "Tcbs s1 = (Tcbs s)(c := Tcbs s c\<lparr>tcb_WaitIrql := CurrentIrql s\<rparr>)" "Pcbs s1 = Pcbs s" "CurrentThread s1 = Some c"
    using d(1) by (simp_all add: s1_def locked_database_def)
  have "same_waits s (hold DispatcherDataBaseLock (CurrentIrql s) (at_irql DISPATCH_LEVEL s))"
    by (rule same_waits_trans [of _ "at_irql DISPATCH_LEVEL s"]) simp_all
  then have sw1: "switchable F s1 qs" "same_waits s s1"
    using switchable_set_tcb [OF running_lock(2) [OF r] d(2)] unfolding s1_def locked_database_def
    by (auto intro: same_waits_trans)
  note sel = select_next [OF sw1(1) d(4,5) h]
  have ne: "n \<noteq> c" using sel(2) d(2) by auto
  obtain pc pn where pr: "tcb_ThreadProcess (Tcbs s c) = Some pc" "tcb_ThreadProcess (Tcbs s n) = Some pn"
    using r sel(2) unfolding running_def by (metis insertCI not_None_eq)
  obtain i where i: "resume_irql (tcb_StackPointer (Tcbs s n)) (Tcbs s n) = Some i" "i \<le> DISPATCH_LEVEL"
    using r sel(2) unfolding running_def can_resume_def by blast
  obtain l where l: "KiSelectNextThread ?cp s1 = Inr (Some n, set_sched_list p l s1)"
    "switchable F (set_sched_list p l s1) (qs[p := ns])" using sel(1) by blast
  let ?q1 = "qs[p := ns]" and ?s2 = "set_sched_list p l s1"
  let ?q2 = "?q1[?cp := ?q1 ! ?cp @ [c]]"
  have out: "c \<notin> queued ?q1 []" using d(2) sel(4) by blast
  note mr = make_ready [OF l(2) out _ _ _ d(4,5), of pc]
  obtain s3 where s3: "KiReadyThread c ?s2 = Inr s3" "switchable F s3 ?q2" "same_waits ?s2 s3"
    "Tcbs s3 = (Tcbs ?s2)(c := Tcbs ?s2 c\<lparr>tcb_State := THREAD_STATE_READY, tcb_Quantum := pcb_Quantum (Pcbs ?s2 pc)\<rparr>)"
    "Pcbs s3 = Pcbs ?s2" "CurrentThread s3 = CurrentThread ?s2"
    using mr(1) d(6) pr(1) by (auto simp: s1)
  have q2: "queued ?q2 [] \<subseteq> insert c (queued qs [])" using mr(2) d(6) pr(1) sel(4) by (auto simp: s1)
  have nq2: "n \<notin> queued ?q2 []" using mr(2) d(6) pr(1) sel(3) ne by (auto simp: s1)
  have tcb3: "Tcbs s3 n = Tcbs s n" "Tcbs s3 c = Tcbs s c\<lparr>tcb_WaitIrql := CurrentIrql s, tcb_State := THREAD_STATE_READY,
      tcb_Quantum := pcb_Quantum (Pcbs s pc)\<rparr>" "\<And>t. t \<noteq> c \<Longrightarrow> Tcbs s3 t = Tcbs s t"
    using ne by (simp_all add: s3(4) s1)
  have nst: "tcb_State (Tcbs s n) = THREAD_STATE_READY" "tcb_Priority (Tcbs s n) = p"
    using sel(5,6) ne by (simp_all add: s1)
  have "\<exists>s'. bind (KiSwapThread InSchedule c n s3) (resume_current exit_thread run (Suc fuel)) = Inr s' \<and> running F s' n ?q2 \<and>
    Pcbs s' = Pcbs s3 \<and> same_waits s3 s' \<and> Tcbs s' = (Tcbs s3)(n := Tcbs s3 n\<lparr>tcb_State := THREAD_STATE_RUNNING\<rparr>,
      c := Tcbs s3 c\<lparr>tcb_StackPointer := InSchedule\<rparr>) \<and>
    CurrentIrql s' = i \<and> Cr3 s' = F pn \<and> TS_esp0 s' = tcb_KernelStack (Tcbs s3 n) + 0x3000"
  proof (rule switch_resume [OF s3(2) _ ne nq2])
    show "tcb_ThreadProcess (Tcbs s3 t) \<noteq> None" if "t \<in> queued ?q2 []" for t
    proof -
      have "t \<in> insert c (queued qs [])" using that q2 by blast
      then have "tcb_ThreadProcess (Tcbs s t) \<noteq> None" using r unfolding running_def by blast
      then show ?thesis using tcb3 by (cases "t = c") auto
    qed
    show "can_resume (Tcbs s3 t)" if "t \<in> queued ?q2 []" "t \<noteq> c" for t
    proof -
      have "t \<in> queued qs []" using that q2 by blast
      then show ?thesis using r tcb3(3) [OF that(2)] unfolding running_def by auto
    qed
    show "can_resume (Tcbs s3 c\<lparr>tcb_StackPointer := InSchedule\<rparr>)" using d(3) by (simp add: can_resume_def tcb3(2))
  qed (use s3(6) s1 nst tcb3 sel(7,8) pr i in simp_all)
  then obtain s' where s': "bind (KiSwapThread InSchedule c n s3) (resume_current exit_thread run (Suc fuel)) = Inr s'"
    "running F s' n ?q2" "Pcbs s' = Pcbs s" "same_waits s3 s'" "Tcbs s' = (Tcbs s3)(n := Tcbs s3 n\<lparr>tcb_State := THREAD_STATE_RUNNING\<rparr>,
      c := Tcbs s3 c\<lparr>tcb_StackPointer := InSchedule\<rparr>)" "CurrentIrql s' = i" "Cr3 s' = F pn"
    "TS_esp0 s' = tcb_KernelStack (Tcbs s n) + 0x3000"
    using s3(5) s1 tcb3(1) by auto
  have "Schedule exit_thread run (Suc fuel) s = Inr s'"
    using running_lock(1) [OF r] d(1,6) l(1) s3(1) s'(1) ne
    by (simp add: Schedule_def KeGetCurrentThread_def Let_def schedule_yield_def locked_database_def [symmetric] s1_def [symmetric] s1)
  moreover have "same_waits s s'"
    using same_waits_trans [OF same_waits_trans [OF sw1(2) same_waits_upd(2)] same_waits_trans [OF s3(3) s'(4)]] .
  moreover have "Tcbs s' = (Tcbs s)(n := Tcbs s n\<lparr>tcb_State := THREAD_STATE_RUNNING\<rparr>,
      c := Tcbs s c\<lparr>tcb_WaitIrql := CurrentIrql s, tcb_State := THREAD_STATE_READY,
        tcb_Quantum := pcb_Quantum (Pcbs s pc), tcb_StackPointer := InSchedule\<rparr>)"
    using ne by (auto simp: s'(5) s3(4) s1)
  ultimately show ?thesis using s' pr i ne by (intro exI [of _ s']) (simp add: Let_def)
qed

lemma Schedule_stay:
  assumes r: "running F s c qs" and h: "highest (tcb_Priority (Tcbs s c)) qs = None"
  shows "Schedule exit_thread run (Suc fuel) s = Inr (set_tcb c (\<lambda>t. t\<lparr>tcb_WaitIrql := CurrentIrql s\<rparr>) s)"
proof -
  let ?cp = "tcb_Priority (Tcbs s c)"
  have d: "sched_ok s qs []" "CurrentThread s = Some c" "hal_ok s" "CurrentIrql s \<le> DISPATCH_LEVEL"
    "spin_locks s DispatcherDataBaseLock = free_lock" "spin_locks s ExitThreadLock = free_lock"
    "LIST_EMPTY (DpcListHead s)" "1 \<le> ?cp" "?cp \<le> 6" "tcb_State (Tcbs s c) = THREAD_STATE_RUNNING"
    using r by (simp_all add: running_def)
  define s1 where "s1 = set_tcb c (\<lambda>t. t\<lparr>tcb_WaitIrql := CurrentIrql s\<rparr>)
      (hold DispatcherDataBaseLock (CurrentIrql s) (at_irql DISPATCH_LEVEL s))"
  have hal1: "hal_ok s1" using hal_ok_at_irql [OF d(3), of 2] by (simp add: s1_def)
  have ok1: "sched_ok s1 qs []" by (rule sched_ok_cong [OF d(1)]) (auto simp: s1_def)
  have sel: "KiSelectNextThread ?cp s1 = Inr (None, s1)"
    using KiSelectNextThread_correct(1) [OF ok1 hal1 _ d(8,9) h] by (simp add: s1_def)
  let ?s = "set_tcb c (\<lambda>t. t\<lparr>tcb_WaitIrql := CurrentIrql s\<rparr>) s"
  have ret: "at_irql (CurrentIrql s) (set_lock DispatcherDataBaseLock (\<lambda>_. free_lock) s1) = ?s"
  proof -
    have "(spin_locks s)(DispatcherDataBaseLock := free_lock) = spin_locks s" using d(5) by auto
    then show ?thesis
      using d(3) by (simp add: s1_def set_tcb_def hold_def set_lock_def at_irql_def hal_ok_def)
  qed
  have e: "LIST_EMPTY (ExitThreadList s)"
    using d(1) klists_nth [of "SchedLink s" "Scheduler_list s @ [ExitThreadList s]" "qs @ [[]]" 7]
    by (auto simp: sched_ok_def klist_rep_def LIST_EMPTY_def nth_append)
  have "lockable ExitThreadLock ?s" using d by (simp add: lockable_def)
  then have reap: "bind (KeAcquireSpinLock ExitThreadLock ?s) (\<lambda>(Old, s). bind (reap_loop exit_thread (Suc fuel) s) (\<lambda>s.
      KeReleaseSpinLock run (Suc fuel) ExitThreadLock Old s)) = Inr ?s"
    using e by (intro reap_nothing) simp_all
  have "KiUnLockDispatcherDataBase run (Suc fuel) (CurrentIrql s) s1 = Inr ?s"
    using unlock_database [OF hal1, of "CurrentIrql s" run fuel] d(4,7) ret by (simp add: s1_def)
  then have "schedule_tail exit_thread run (Suc fuel) c s1 = Inr ?s"
    using reap d(4) by (simp add: schedule_tail_def) (simp add: s1_def)
  moreover have "KiLockDispatcherDataBase s = Inr (CurrentIrql s, hold DispatcherDataBaseLock (CurrentIrql s) (at_irql DISPATCH_LEVEL s))"
    using d(3-5) by (simp add: KiLockDispatcherDataBase_def KeAcquireSpinLock_eq)
  ultimately show ?thesis
    using sel d(2,10)
    by (simp add: Schedule_def KeGetCurrentThread_def Let_def schedule_yield_def s1_def [symmetric]) (simp add: s1_def)
qed

lemma running_set_WaitIrql:
  assumes "running F s c qs"
  shows "running F (set_tcb c (\<lambda>t. t\<lparr>tcb_WaitIrql := i\<rparr>) s) c qs"
proof -
  let ?s = "set_tcb c (\<lambda>t. t\<lparr>tcb_WaitIrql := i\<rparr>) s"
  have "sched_ok s qs []" "spaces_ok F s" "c \<notin> queued qs []" using assms by (simp_all add: running_def)
  then have "sched_ok ?s qs []" "spaces_ok F ?s"
    by (auto intro: sched_ok_cong spaces_ok_cong)
  then show ?thesis using assms unfolding running_def by auto
qed

text \<open>Within one priority the threads take turns.\<close>

lemma highest_own:
  assumes "qs ! cp \<noteq> []" and "cp < 7" and "\<forall>p. cp < p \<and> p < 7 \<longrightarrow> qs ! p = []"
  shows "highest cp qs = Some cp"
  using assms by (simp add: highest_Some)

lemma turns:
  assumes "running F s c qs" and "tcb_Priority (Tcbs s c) = cp" and "qs ! cp = ts @ us"
    and "\<forall>p. cp < p \<and> p < 7 \<longrightarrow> qs ! p = []"
  shows "\<exists>s'. foldE (\<lambda>_. Schedule exit_thread run (Suc fuel)) (replicate (length ts) ()) s = Inr s' \<and>
    CurrentThread s' = Some (last (c # ts))"
  using assms
proof (induction ts arbitrary: s c qs us)
  case Nil
  then show ?case by (simp add: running_def)
next
  case (Cons t ts)
  have cp: "cp < 7" and ok: "sched_ok s qs []" and len: "length qs = 7"
    using Cons.prems(1,2) by (auto simp: running_def sched_ok_def)
  have h: "highest (tcb_Priority (Tcbs s c)) qs = Some cp"
    using Cons.prems(2-4) cp by (simp add: highest_own)
  have q: "qs ! cp = t # (ts @ us)" using Cons.prems(3) by simp
  obtain s1 where s1: "Schedule exit_thread run (Suc fuel) s = Inr s1"
    "running F s1 t (qs[cp := (ts @ us) @ [c]])" "Tcbs s1 t = (Tcbs s t)\<lparr>tcb_State := THREAD_STATE_RUNNING\<rparr>"
    using Schedule_switch [OF Cons.prems(1) h q, of exit_thread run fuel] Cons.prems(2) cp len by (auto simp: Let_def)
  have "tcb_Priority (Tcbs s1 t) = cp" using ok cp q s1(3) by (auto simp: sched_ok_def)
  moreover have "qs[cp := (ts @ us) @ [c]] ! cp = ts @ (us @ [c])" using cp len by simp
  moreover have "\<forall>p. cp < p \<and> p < 7 \<longrightarrow> qs[cp := (ts @ us) @ [c]] ! p = []" using Cons.prems(4) by simp
  ultimately obtain s2 where "foldE (\<lambda>_. Schedule exit_thread run (Suc fuel)) (replicate (length ts) ()) s1 = Inr s2"
    "CurrentThread s2 = Some (last (t # ts))"
    using Cons.IH [OF s1(2)] by blast
  then show ?case using s1(1) by auto
qed

section \<open>A small system\<close>

text \<open>Thread 1 runs and threads 2 and 3 are ready, all of priority 3 in process 0, whose directory is the current one.\<close>

definition small_tcb :: "THREAD_STATE \<Rightarrow> KTHREAD" where
  "small_tcb st = \<lparr>tcb_State = st, tcb_Priority = 3, tcb_Quantum = 3, tcb_WaitIrql = 0,
     tcb_ThreadProcess = Some 0, tcb_UserStack = 0, tcb_KernelStack = 0x85900000,
     tcb_PreviousMode = KernelMode, tcb_StackPointer = InSchedule\<rparr>"

definition three_threads :: sched_state where
  "three_threads = pool_state.extend (small_pool_state one_block) (sched_state.fields
     (\<lambda>t. small_tcb (if t = 1 then THREAD_STATE_RUNNING else THREAD_STATE_READY))
     (\<lambda>_. \<lparr>pcb_Quantum = 3, pcb_DirectoryTableBase = 0xC0300000, pcb_BasePriority = 3,
       pcb_State = PROCESS_STATE_ACTIVE, pcb_UserPtePool = 0, pcb_ProcessEntryPoint = 0\<rparr>)
     \<lparr>le_next = (\<lambda>t. Some (if t = 2 then 3 else 2)), le_prev = (\<lambda>t. Some (if t = 2 then 3 else 2))\<rparr>
     [LIST_INIT, LIST_INIT, LIST_INIT, \<lparr>lh_first = Some 2, NumberOfElements = 2\<rparr>, LIST_INIT, LIST_INIT, LIST_INIT]
     LIST_INIT 0 (\<lambda>_. \<lparr>dh_WaitListHead = LIST_INIT, dh_Type = SemaphoreObject, dh_SignalState = 0\<rparr>)
     (\<lambda>_. \<lparr>wb_Thread = None, wb_Object = None, wb_Type = WAIT_TYPE_ANY\<rparr>)
     \<lparr>le_next = (\<lambda>_. None), le_prev = (\<lambda>_. None)\<rparr> \<lparr>le_next = (\<lambda>_. None), le_prev = (\<lambda>_. None)\<rparr>
     (\<lambda>_. LIST_INIT) (\<lambda>_. None) (\<lambda>_. 5))\<lparr>CurrentThread := Some 1\<rparr>"

lemmas three_threads_unfold = three_threads_def pool_state.extend_def sched_state.fields_def small_pool_state_def
  mm_state.extend_def pool_state.fields_def small_mm_def ke_state.extend_def mm_state.fields_def gdt_state.extend_def reset_gdt_def gdt_state.fields_def boot_state_def

lemma three_threads_sel [simp]:
  "Tcbs three_threads = (\<lambda>t. small_tcb (if t = 1 then THREAD_STATE_RUNNING else THREAD_STATE_READY))"
  "Scheduler_list three_threads = [LIST_INIT, LIST_INIT, LIST_INIT, \<lparr>lh_first = Some 2, NumberOfElements = 2\<rparr>,
     LIST_INIT, LIST_INIT, LIST_INIT]"
  "SchedLink three_threads = \<lparr>le_next = (\<lambda>t. Some (if t = 2 then 3 else 2)), le_prev = (\<lambda>t. Some (if t = 2 then 3 else 2))\<rparr>"
  "ExitThreadList three_threads = LIST_INIT" "CurrentThread three_threads = Some 1" "CurrentIrql three_threads = 0"
  "spin_locks three_threads l = free_lock" "DpcListHead three_threads = LIST_INIT" "Cr3 three_threads = 0x1000"
  "PhysMem three_threads = small_mem" "pcb_DirectoryTableBase (Pcbs three_threads p) = 0xC0300000"
  "pcb_Quantum (Pcbs three_threads p) = 3"
  "DHeaders three_threads d = \<lparr>dh_WaitListHead = LIST_INIT, dh_Type = SemaphoreObject, dh_SignalState = 0\<rparr>"
  "SemaphoreLimit three_threads d = 5" "WaitBlockList three_threads t = LIST_INIT"
  by (simp_all add: three_threads_unfold free_lock_def)

lemma three_threads_running: "running (\<lambda>_. 0x1000) three_threads 1 [[], [], [], [2, 3], [], [], []]"
proof -
  have "hal_ok three_threads"
    using boot_state_ok(1) by (simp add: hal_ok_def three_threads_unfold)
  moreover have "p < 7 \<Longrightarrow> p \<in> {0, 1, 2, 3, 4, 5, 6}" for p :: nat by auto
  then have "sched_ok three_threads [[], [], [], [2, 3], [], [], []] []"
    by (auto simp: sched_ok_def klists_def klist_rep_def ring_def LIST_INIT_def small_tcb_def less_Suc_eq numeral_nat)
  moreover have "self_map (three_threads\<lparr>Cr3 := 0x1000\<rparr>)" "Valid (pde (three_threads\<lparr>Cr3 := 0x1000\<rparr>) 0xC0300000)"
    by (simp_all add: self_map_def pde_def page_dir_def small_mem_def PPN_def PDX_def)
  from vread_pte [OF this] have "MmGetPhysicalAddress 0xC0300000 (three_threads\<lparr>Cr3 := 0x1000\<rparr>) = Inr 0x1000"
    by (simp add: MmGetPhysicalAddress_def pde_def pte_def page_dir_def PDX_def PTX_def PPN_def small_mem_def PGOFF_def)
  then have "spaces_ok (\<lambda>_. 0x1000) three_threads" by (auto simp: spaces_ok_def)
  ultimately show ?thesis
    by (auto simp: running_def queued_def small_tcb_def can_resume_def LIST_EMPTY_def LIST_INIT_def)
qed

section \<open>Properties\<close>

text \<open>C1. \<open>Schedule\<close> implements round robin with priorities: when a thread of at least the current priority is
  ready, the first thread of the highest such queue gets the processor, its address space, its kernel
  stack and the level it was suspended at, and the current thread goes to the tail of its own queue
  with a fresh quantum; otherwise the current thread keeps the processor. The system stays sound.\<close>

theorem schedule_refines_round_robin:
  assumes r: "running F s c qs" and step: "round_robin (\<lambda>t. tcb_Priority (Tcbs s t)) (c, qs) = (n, qs')"
  shows "\<exists>s'. Schedule exit_thread run (Suc fuel) s = Inr s' \<and> running F s' n qs' \<and>
    (\<forall>t. tcb_Priority (Tcbs s' t) = tcb_Priority (Tcbs s t)) \<and>
    (if n = c then s' = set_tcb c (\<lambda>t. t\<lparr>tcb_WaitIrql := CurrentIrql s\<rparr>) s
     else Some (CurrentIrql s') = resume_irql (tcb_StackPointer (Tcbs s n)) (Tcbs s n) \<and>
       Cr3 s' = F (the (tcb_ThreadProcess (Tcbs s n))) \<and> TS_esp0 s' = tcb_KernelStack (Tcbs s n) + 3 * PGSIZE \<and>
       tcb_WaitIrql (Tcbs s' c) = CurrentIrql s \<and>
       tcb_Quantum (Tcbs s' c) = pcb_Quantum (Pcbs s (the (tcb_ThreadProcess (Tcbs s c)))))"
proof (cases "highest (tcb_Priority (Tcbs s c)) qs")
  case None
  then have "n = c" "qs' = qs" using step by (simp_all add: round_robin_def)
  then show ?thesis using Schedule_stay [OF r None] running_set_WaitIrql [OF r] by simp
next
  case (Some p)
  then obtain m ns where q: "qs ! p = m # ns" by (auto simp: highest_Some neq_Nil_conv)
  have n: "n = m" "qs' = (let qs' = qs[p := ns] in qs'[tcb_Priority (Tcbs s c) := qs' ! tcb_Priority (Tcbs s c) @ [c]])"
    using step Some q by (simp_all add: round_robin_def Let_def)
  have "m \<in> queued qs []" using q Some r by (intro queued_nth [of p]) (auto simp: highest_Some running_def sched_ok_def)
  then have "m \<noteq> c" using r by (auto simp: running_def)
  let ?pc = "pcb_Quantum (Pcbs s (the (tcb_ThreadProcess (Tcbs s c))))"
  obtain s' where s': "Schedule exit_thread run (Suc fuel) s = Inr s'"
    "running F s' m (let qs' = qs[p := ns] in qs'[tcb_Priority (Tcbs s c) := qs' ! tcb_Priority (Tcbs s c) @ [c]])"
    "Tcbs s' = (Tcbs s)(m := Tcbs s m\<lparr>tcb_State := THREAD_STATE_RUNNING\<rparr>,
      c := Tcbs s c\<lparr>tcb_WaitIrql := CurrentIrql s, tcb_State := THREAD_STATE_READY, tcb_Quantum := ?pc,
        tcb_StackPointer := InSchedule\<rparr>)"
    "Some (CurrentIrql s') = resume_irql (tcb_StackPointer (Tcbs s m)) (Tcbs s m)"
    "Cr3 s' = F (the (tcb_ThreadProcess (Tcbs s m)))" "TS_esp0 s' = tcb_KernelStack (Tcbs s m) + 0x3000"
    using Schedule_switch [OF r Some q, of exit_thread run fuel] by (elim exE conjE)
  then show ?thesis using n \<open>m \<noteq> c\<close> by (intro exI [of _ s']) simp
qed

theorem schedule_refines_round_robin_witness:
  "\<exists>s'. Schedule (\<lambda>_. Inr) no_dpcs 1 three_threads = Inr s' \<and>
     running (\<lambda>_. 0x1000) s' 2 [[], [], [], [3, 1], [], [], []] \<and> TS_esp0 s' = 0x85903000"
proof -
  have "highest 3 [[], [], [], [2, 3], [], [], []] = Some 3"
    by (rule highest_own) (auto simp: less_Suc_eq numeral_nat)
  then have "round_robin (\<lambda>t. tcb_Priority (Tcbs three_threads t)) (1, [[], [], [], [2, 3], [], [], []]) =
      (2, [[], [], [], [3, 1], [], [], []])"
    by (simp add: round_robin_def small_tcb_def Let_def)
  from schedule_refines_round_robin [OF three_threads_running this, of "\<lambda>_. Inr" no_dpcs 0] show ?thesis
    by (auto simp: small_tcb_def)
qed

text \<open>C21. No starvation within a priority: while no thread of a higher priority is ready, the thread at
  position \<open>k\<close> of the queue of the current priority has the processor after \<open>k + 1\<close> calls of \<open>Schedule\<close>.\<close>

theorem schedule_fairness:
  assumes "running F s c qs" and "tcb_Priority (Tcbs s c) = cp" and "k < length (qs ! cp)"
    and "\<forall>p. cp < p \<and> p < 7 \<longrightarrow> qs ! p = []"
  shows "\<exists>s'. foldE (\<lambda>_. Schedule exit_thread run (Suc fuel)) (replicate (Suc k) ()) s = Inr s' \<and>
    CurrentThread s' = Some (qs ! cp ! k)"
proof -
  have "qs ! cp = take (Suc k) (qs ! cp) @ drop (Suc k) (qs ! cp)" by simp
  from turns [OF assms(1,2) this assms(4), of exit_thread run fuel] show ?thesis
    using assms(3) by (simp add: take_Suc_conv_app_nth del: replicate.simps)
qed

theorem schedule_fairness_witness:
  "\<exists>s'. foldE (\<lambda>_. Schedule (\<lambda>_. Inr) no_dpcs 1) (replicate 2 ()) three_threads = Inr s' \<and> CurrentThread s' = Some 3"
proof -
  have "tcb_Priority (Tcbs three_threads 1) = 3" by (simp add: small_tcb_def)
  moreover have "\<forall>p. 3 < p \<and> p < 7 \<longrightarrow> [[], [], [], [2, 3 :: nat], [], [], []] ! p = []"
    by (auto simp: less_Suc_eq numeral_nat)
  ultimately show ?thesis
    using schedule_fairness [OF three_threads_running, of 3 1 "\<lambda>_. Inr" no_dpcs 0] by (simp add: numeral_2_eq_2)
qed

text \<open>\<open>KiStandbyThread\<close> never succeeds: its test of the thread's state joins two inequalities by a
  disjunction, so every state is an incorrect one and the system stops.\<close>

theorem standby_always_fails: "\<exists>e. KiStandbyThread t s = Inl e"
proof -
  have "\<exists>e. ASSERT_dispatcher msg s (Inl x) = Inl e" for msg x
    by (auto simp: ASSERT_dispatcher_def bind_def ASSERT_def split: sum.split prod.split)
  then show ?thesis by (simp add: KiStandbyThread_def)
qed

text \<open>A timer tick at the clock level takes one from the quantum of the running thread; when nothing is
  left, the scheduler DPC is queued, once, and otherwise nothing else changes.\<close>

theorem timer_tick:
  assumes "hal_ok s" and "CurrentIrql s = CLOCK1_LEVEL" and "CurrentThread s = Some c" and "spin_locks s ProcessorLock = free_lock"
    and "dpc_rep s ds" and "length ds < 2 ^ 32" and "Type (Dpcs s 0) = DpcObject" and "Number (Dpcs s 0) = 0"
    and "Importance (Dpcs s 0) = MediumImportance"
  shows "\<exists>s'. KiThreadTimerISR run fuel s = Inr s' \<and> tcb_Quantum (Tcbs s' c) = tcb_Quantum (Tcbs s c) - 1 \<and>
    (\<forall>t. t \<noteq> c \<longrightarrow> Tcbs s' t = Tcbs s t) \<and> CurrentThread s' = Some c \<and>
    dpc_rep s' (if sint (tcb_Quantum (Tcbs s c) - 1) \<le> 0 \<and> 0 \<notin> set ds then ds @ [0] else ds)"
proof -
  let ?s = "set_tcb c (\<lambda>t. t\<lparr>tcb_Quantum := tcb_Quantum t - 1\<rparr>) s"
  have same: "dpc_rep ?s ds" using assms(5) by (simp add: dpc_rep_def dpc_list_def)
  have "\<exists>l. KeInsertQueueDpc run fuel 0 0 0 ?s = Inr (0 \<notin> set ds,
      set_dpc_list l (set_dpc 0 (\<lambda>k. k\<lparr>SystemArgument1 := 0, SystemArgument2 := 0\<rparr>) ?s)) \<and>
    klist_rep l (if 0 \<in> set ds then ds else if Importance (Dpcs ?s 0) = HighImportance then 0 # ds else ds @ [0])"
    using assms same by (intro KeInsertQueueDpc_correct) auto
  then obtain l where l: "KeInsertQueueDpc run fuel 0 0 0 ?s = Inr (0 \<notin> set ds,
      set_dpc_list l (set_dpc 0 (\<lambda>k. k\<lparr>SystemArgument1 := 0, SystemArgument2 := 0\<rparr>) ?s))"
    "klist_rep l (if 0 \<in> set ds then ds else ds @ [0])" using assms(9) by (auto cong: if_cong)
  show ?thesis
  proof (cases "sint (tcb_Quantum (Tcbs s c) - 1) \<le> 0")
    case True
    then show ?thesis
      using l assms(1-3)
      by (intro exI [of _ "set_dpc_list l (set_dpc 0 (\<lambda>k. k\<lparr>SystemArgument1 := 0, SystemArgument2 := 0\<rparr>) ?s)"])
        (auto simp: KiThreadTimerISR_def hal_ok_irql KeGetCurrentThread_def Let_def dpc_rep_def dpc_list_def
          set_dpc_list_def set_dpc_def)
  next
    case False
    then show ?thesis
      using same assms(1-3) by (intro exI [of _ ?s]) (auto simp: KiThreadTimerISR_def hal_ok_irql KeGetCurrentThread_def Let_def)
  qed
qed

theorem timer_tick_witness:
  "\<exists>s'. KiThreadTimerISR no_dpcs 1 (at_irql CLOCK1_LEVEL (three_threads\<lparr>Dpcs := \<lambda>_. \<lparr>Type = DpcObject,
       Importance = MediumImportance, Number = 0, DeferredRoutine = 0, DeferredContext = 0, SystemArgument1 = 0,
       SystemArgument2 = 0\<rparr>, Tcbs := \<lambda>_. small_tcb THREAD_STATE_RUNNING\<lparr>tcb_Quantum := 1\<rparr>\<rparr>)) = Inr s' \<and> dpc_rep s' [0]"
proof -
  let ?u = "three_threads\<lparr>Dpcs := \<lambda>_. \<lparr>Type = DpcObject, Importance = MediumImportance, Number = 0, DeferredRoutine = 0,
    DeferredContext = 0, SystemArgument1 = 0, SystemArgument2 = 0\<rparr>, Tcbs := \<lambda>_. small_tcb THREAD_STATE_RUNNING\<lparr>tcb_Quantum := 1\<rparr>\<rparr>"
  have "hal_ok three_threads" using three_threads_running by (simp add: running_def)
  then have "hal_ok ?u" by (simp add: hal_ok_def)
  then have h: "hal_ok (at_irql CLOCK1_LEVEL ?u)" by (rule hal_ok_at_irql) simp
  have q: "dpc_rep (at_irql CLOCK1_LEVEL ?u) []" by (simp add: dpc_rep_def dpc_list_def klist_rep_def LIST_INIT_def)
  show ?thesis using timer_tick [OF h _ _ _ q, of 1 no_dpcs 1] by auto
qed

end
