(* ===== verification/Wait.thy ===== *)
theory Wait
  imports Sched
begin

text \<open>
  Dispatcher objects and waiting, \<open>ke/wait.c\<close>: the header every waitable object starts with, acquiring
  and releasing it, and the mutants, semaphores and events built on it. A thread that has to wait gives
  up the processor in \<open>KiBlockThread\<close>; what it does after its wait is \<open>wait_tail\<close>, run by \<open>resume_current\<close>.
\<close>

section \<open>Headers and wait blocks\<close>

definition set_dheader :: "dispatcher \<Rightarrow> (DISPATCHER_HEADER \<Rightarrow> DISPATCHER_HEADER) \<Rightarrow> 'a sched_state_scheme \<Rightarrow> 'a sched_state_scheme" where
  "set_dheader d f s = s\<lparr>DHeaders := (DHeaders s)(d := f (DHeaders s d))\<rparr>"

definition wait_list :: "dispatcher \<Rightarrow> 'a sched_state_scheme \<Rightarrow> wait_block klist" where
  "wait_list d s = (WaitLink s, dh_WaitListHead (DHeaders s d))"

definition set_wait_list :: "dispatcher \<Rightarrow> wait_block klist \<Rightarrow> 'a sched_state_scheme \<Rightarrow> 'a sched_state_scheme" where
  "set_wait_list d l s = set_dheader d (\<lambda>h. h\<lparr>dh_WaitListHead := snd l\<rparr>) (s\<lparr>WaitLink := fst l\<rparr>)"

definition thread_list :: "kthread \<Rightarrow> 'a sched_state_scheme \<Rightarrow> wait_block klist" where
  "thread_list t s = (ThreadLink s, WaitBlockList s t)"

definition set_thread_list :: "kthread \<Rightarrow> wait_block klist \<Rightarrow> 'a sched_state_scheme \<Rightarrow> 'a sched_state_scheme" where
  "set_thread_list t l s = s\<lparr>ThreadLink := fst l, WaitBlockList := (WaitBlockList s)(t := snd l)\<rparr>"

text \<open>The two assertions that the block lies inside the current thread hold of a block of that thread.\<close>

definition KiInitWaitBlock :: "wait_block \<Rightarrow> dispatcher \<Rightarrow> 'a sched_state_scheme \<Rightarrow> fault + 'a sched_state_scheme" where
  "KiInitWaitBlock WaitBlock Object s =
     ASSERT ''KiInitWaitBlock: WaitBlock of the current thread'' (KeGetCurrentThread s = Some (fst WaitBlock) \<and> snd WaitBlock < 2)
     (Inr (s\<lparr>WaitBlocks := (WaitBlocks s)(WaitBlock := \<lparr>wb_Thread = KeGetCurrentThread s, wb_Object = Some Object,
          wb_Type = WAIT_TYPE_ANY\<rparr>),
        ThreadLink := LIST_INIT_ENTRY WaitBlock (ThreadLink s),
        WaitLink := LIST_INIT_ENTRY WaitBlock (WaitLink s)\<rparr>))"

definition KeInitDispatcherHeader :: "dispatcher \<Rightarrow> KOBJECTS \<Rightarrow> LONG \<Rightarrow> 'a sched_state_scheme \<Rightarrow> 'a sched_state_scheme" where
  "KeInitDispatcherHeader Dispatcher ty SignalState s =
     set_dheader Dispatcher (\<lambda>h. h\<lparr>dh_SignalState := SignalState, dh_Type := ty, dh_WaitListHead := LIST_INIT\<rparr>) s"

section \<open>Acquiring and releasing a header\<close>

text \<open>
  The last test of \<open>KiDHeaderAcquire\<close> is on enumeration constants, one of which is not zero, so the
  signal state goes down whatever the type of the object. \<open>True\<close> says that the thread blocked and another
  one has the processor.
\<close>

definition KiDHeaderAcquire :: "saved_context \<Rightarrow> dispatcher \<Rightarrow> 'a sched_state_scheme \<Rightarrow> fault + (bool \<times> 'a sched_state_scheme)" where
  "KiDHeaderAcquire here Dispatcher s =
     bind (KeGetCurrentIrql s) (\<lambda>irql.
     ASSERT ''KiDHeaderAcquire: DISPATCH_LEVEL'' (irql = DISPATCH_LEVEL)
     (if dh_SignalState (DHeaders s Dispatcher) = 0
      then deref (KeGetCurrentThread s) (\<lambda>t.
        bind (KiInitWaitBlock (t, 0) Dispatcher s) (\<lambda>s.
        bind (LIST_INSERT_TAIL (t, 0) (wait_list Dispatcher s)) (\<lambda>l.
        bind (KiBlockThread here (set_wait_list Dispatcher l s)) (\<lambda>s.
        Inr (True, s)))))
      else
        ASSERT ''KiDHeaderAcquire: SignalState > 0'' (0 < sint (dh_SignalState (DHeaders s Dispatcher)))
        (Inr (False, set_dheader Dispatcher (\<lambda>h. h\<lparr>dh_SignalState := snd (InterlockedDecrement (dh_SignalState h))\<rparr>) s))))"

definition KiDHeaderTryAcquire :: "dispatcher \<Rightarrow> 'a sched_state_scheme \<Rightarrow> fault + (bool \<times> 'a sched_state_scheme)" where
  "KiDHeaderTryAcquire Dispatcher s =
     bind (KeGetCurrentIrql s) (\<lambda>irql.
     ASSERT ''KiDHeaderTryAcquire: DISPATCH_LEVEL'' (irql = DISPATCH_LEVEL)
     (if 0 < sint (dh_SignalState (DHeaders s Dispatcher))
      then Inr (True, set_dheader Dispatcher (\<lambda>h. h\<lparr>dh_SignalState := snd (InterlockedDecrement (dh_SignalState h))\<rparr>) s)
      else Inr (False, s)))"

text \<open>
  A block whose thread waits on several objects is taken off that thread's own list; for a wait of type
  any, the loop then removes that same block again while the list is not empty.
\<close>

fun unlink_loop :: "nat \<Rightarrow> kthread \<Rightarrow> wait_block \<Rightarrow> 'a sched_state_scheme \<Rightarrow> fault + 'a sched_state_scheme" where
  "unlink_loop 0 t b s = (if LIST_EMPTY (WaitBlockList s t) then Inr s else Inl Hang)"
| "unlink_loop (Suc fuel) t b s =
     (if LIST_EMPTY (WaitBlockList s t) then Inr s
      else bind (LIST_REMOVE b (thread_list t s)) (\<lambda>l.
        let s = set_thread_list t l s in
        deref (wb_Object (WaitBlocks s b)) (\<lambda>d.
        bind (LIST_REMOVE b (wait_list d s)) (\<lambda>l.
        unlink_loop fuel t b (set_wait_list d l s)))))"

text \<open>One waiting block is released; \<open>ready_any\<close> tells the two callers apart, of which only one readies the thread of an any wait.\<close>

definition release_one :: "bool \<Rightarrow> nat \<Rightarrow> dispatcher \<Rightarrow> 'a sched_state_scheme \<Rightarrow> fault + 'a sched_state_scheme" where
  "release_one ready_any fuel Dispatcher s =
     bind (LIST_REMOVE_HEAD (wait_list Dispatcher s)) (\<lambda>(b, l).
     let s = set_wait_list Dispatcher l s in
     deref b (\<lambda>b.
     ASSERT ''KiDHeaderRelease: WaitBlock->Object == Dispatcher'' (wb_Object (WaitBlocks s b) = Some Dispatcher)
     (deref (wb_Thread (WaitBlocks s b)) (\<lambda>t.
      if LIST_EMPTY (WaitBlockList s t) then KiReadyThread t s
      else bind (LIST_REMOVE b (thread_list t s)) (\<lambda>l.
        let s = set_thread_list t l s in
        case wb_Type (WaitBlocks s b) of
          WAIT_TYPE_ANY \<Rightarrow> bind (unlink_loop fuel t b s) (\<lambda>s. if ready_any then KiReadyThread t s else Inr s)
        | WAIT_TYPE_ALL \<Rightarrow> Inr s)))))"

definition ASSERT_release :: "string \<Rightarrow> dispatcher \<Rightarrow> 'a sched_state_scheme \<Rightarrow> fault + 'b \<Rightarrow> fault + 'b" where
  "ASSERT_release msg Dispatcher s k =
     bind (KeGetCurrentIrql s) (\<lambda>irql.
     ASSERT (msg @ '': DISPATCH_LEVEL'') (irql = DISPATCH_LEVEL)
     (ASSERT (msg @ '': SignalState < MAX_DISPATCH_SIGNAL_STATE'') (sint (dh_SignalState (DHeaders s Dispatcher)) < 100)
     (ASSERT (msg @ '': SignalState == 0 or no waiter'')
       (dh_SignalState (DHeaders s Dispatcher) = 0 \<or> LIST_EMPTY (dh_WaitListHead (DHeaders s Dispatcher))) k)))"

definition KiDHeaderRelease :: "nat \<Rightarrow> dispatcher \<Rightarrow> 'a sched_state_scheme \<Rightarrow> fault + 'a sched_state_scheme" where
  "KiDHeaderRelease fuel Dispatcher s =
     ASSERT_release ''KiDHeaderRelease'' Dispatcher s
     (if \<not> LIST_EMPTY (dh_WaitListHead (DHeaders s Dispatcher)) then release_one False fuel Dispatcher s
      else Inr (set_dheader Dispatcher (\<lambda>h. h\<lparr>dh_SignalState := snd (InterlockedIncrement (dh_SignalState h))\<rparr>) s))"

fun release_loop :: "nat \<Rightarrow> nat \<Rightarrow> dispatcher \<Rightarrow> 'a sched_state_scheme \<Rightarrow> fault + 'a sched_state_scheme" where
  "release_loop 0 fuel d s = (if LIST_EMPTY (dh_WaitListHead (DHeaders s d)) then Inr s else Inl Hang)"
| "release_loop (Suc k) fuel d s =
     (if LIST_EMPTY (dh_WaitListHead (DHeaders s d)) then Inr s
      else bind (release_one True fuel d s) (release_loop k fuel d))"

definition KiDHeaderReleaseAll :: "nat \<Rightarrow> dispatcher \<Rightarrow> 'a sched_state_scheme \<Rightarrow> fault + 'a sched_state_scheme" where
  "KiDHeaderReleaseAll fuel Dispatcher s =
     ASSERT_release ''KiDHeaderReleaseAll'' Dispatcher s
     (bind (release_loop fuel fuel Dispatcher s) (\<lambda>s.
      Inr (set_dheader Dispatcher (\<lambda>h. h\<lparr>dh_SignalState := 1\<rparr>) s)))"

definition KeReleaseNotificationDHeader ::
  "'a sched_state_scheme deferred_routines \<Rightarrow> nat \<Rightarrow> dispatcher \<Rightarrow> 'a sched_state_scheme \<Rightarrow> fault + 'a sched_state_scheme" where
  "KeReleaseNotificationDHeader run fuel DHeader s =
     bind (KiLockDispatcherDataBase s) (\<lambda>(Old, s).
     bind (KiDHeaderReleaseAll fuel DHeader s) (\<lambda>s.
     KiUnLockDispatcherDataBase run fuel Old s))"

section \<open>Mutants, semaphores and events\<close>

definition KeInitializeMutant :: "dispatcher \<Rightarrow> bool \<Rightarrow> 'a sched_state_scheme \<Rightarrow> 'a sched_state_scheme" where
  "KeInitializeMutant Mutant InitialOwner s =
     (if \<not> InitialOwner
      then (KeInitDispatcherHeader Mutant MutantObject 1 s)\<lparr>OwnerThread := (OwnerThread s)(Mutant := None)\<rparr>
      else (KeInitDispatcherHeader Mutant MutantObject 0 s)\<lparr>OwnerThread := (OwnerThread s)(Mutant := KeGetCurrentThread s)\<rparr>)"

definition KeReleaseMutant ::
  "'a sched_state_scheme deferred_routines \<Rightarrow> nat \<Rightarrow> dispatcher \<Rightarrow> 'a sched_state_scheme \<Rightarrow> fault + 'a sched_state_scheme" where
  "KeReleaseMutant run fuel Mutant s =
     ASSERT ''KeReleaseMutant: OwnerThread == KeGetCurrentThread()'' (OwnerThread s Mutant = KeGetCurrentThread s)
     (let s = s\<lparr>OwnerThread := (OwnerThread s)(Mutant := None)\<rparr> in
      bind (KiLockDispatcherDataBase s) (\<lambda>(Old, s).
      bind (KiDHeaderRelease fuel Mutant s) (\<lambda>s.
      KiUnLockDispatcherDataBase run fuel Old s)))"

definition KeInitializeSemaphore :: "dispatcher \<Rightarrow> LONG \<Rightarrow> LONG \<Rightarrow> 'a sched_state_scheme \<Rightarrow> fault + 'a sched_state_scheme" where
  "KeInitializeSemaphore Semaphore Count Limit s =
     ASSERT ''KeInitializeSemaphore: Count <= Limit'' (sint Count \<le> sint Limit)
     (Inr ((KeInitDispatcherHeader Semaphore SemaphoreObject Count s)
        \<lparr>SemaphoreLimit := (SemaphoreLimit s)(Semaphore := Limit)\<rparr>))"

definition KeReleaseSemaphore ::
  "'a sched_state_scheme deferred_routines \<Rightarrow> nat \<Rightarrow> dispatcher \<Rightarrow> PROCESS_PRIORITY \<Rightarrow> LONG \<Rightarrow> 'a sched_state_scheme \<Rightarrow>
   fault + (LONG \<times> 'a sched_state_scheme)" where
  "KeReleaseSemaphore run fuel Semaphore Increment Adjustment s =
     ASSERT ''KeReleaseSemaphore: SignalState < Limit''
       (sint (dh_SignalState (DHeaders s Semaphore)) < sint (SemaphoreLimit s Semaphore))
     (ASSERT ''KeReleaseSemaphore: Increment == 0'' (Increment = 0)
     (ASSERT ''KeReleaseSemaphore: Adjustment == 1'' (Adjustment = 1)
     (let OldState = dh_SignalState (DHeaders s Semaphore) in
      bind (KiLockDispatcherDataBase s) (\<lambda>(Old, s).
      bind (KiDHeaderRelease fuel Semaphore s) (\<lambda>s.
      bind (KiUnLockDispatcherDataBase run fuel Old s) (\<lambda>s.
      Inr (OldState, s)))))))"

datatype EVENT_TYPE = NotificationEvent | SynchronizationEvent

definition KeInitializeEvent :: "dispatcher \<Rightarrow> EVENT_TYPE \<Rightarrow> bool \<Rightarrow> 'a sched_state_scheme \<Rightarrow> 'a sched_state_scheme" where
  "KeInitializeEvent Event ty st s =
     set_dheader Event (\<lambda>h. h\<lparr>dh_SignalState := (if st then 1 else 0),
       dh_Type := (if ty = NotificationEvent then EventNotificationObject else EventSynchronizationObject),
       dh_WaitListHead := LIST_INIT\<rparr>) s"

definition ASSERT_event :: "string \<Rightarrow> dispatcher \<Rightarrow> 'a sched_state_scheme \<Rightarrow> fault + 'b \<Rightarrow> fault + 'b" where
  "ASSERT_event msg Event s k =
     ASSERT (msg @ '': event type'') (dh_Type (DHeaders s Event) \<in> {EventNotificationObject, EventSynchronizationObject}) k"

definition KeClearEvent :: "dispatcher \<Rightarrow> 'a sched_state_scheme \<Rightarrow> fault + 'a sched_state_scheme" where
  "KeClearEvent Event s =
     ASSERT_event ''KeClearEvent'' Event s (Inr (set_dheader Event (\<lambda>h. h\<lparr>dh_SignalState := 0\<rparr>) s))"

definition KeResetEvent :: "dispatcher \<Rightarrow> 'a sched_state_scheme \<Rightarrow> fault + (LONG \<times> 'a sched_state_scheme)" where
  "KeResetEvent Event s =
     ASSERT_event ''KeResetEvent'' Event s
     (Inr (dh_SignalState (DHeaders s Event), set_dheader Event (\<lambda>h. h\<lparr>dh_SignalState := 0\<rparr>) s))"

definition KeSetEvent ::
  "'a sched_state_scheme deferred_routines \<Rightarrow> nat \<Rightarrow> dispatcher \<Rightarrow> 'a sched_state_scheme \<Rightarrow> fault + (LONG \<times> 'a sched_state_scheme)" where
  "KeSetEvent run fuel Event s =
     ASSERT_event ''KeSetEvent'' Event s
     (bind (KiLockDispatcherDataBase s) (\<lambda>(Old, s).
      bind (if dh_Type (DHeaders s Event) = EventNotificationObject then KiDHeaderReleaseAll fuel Event s
            else KiDHeaderRelease fuel Event s) (\<lambda>s.
      let (st, v) = InterlockedExchange (dh_SignalState (DHeaders s Event)) 0;
          s = set_dheader Event (\<lambda>h. h\<lparr>dh_SignalState := v\<rparr>) s
      in bind (KiUnLockDispatcherDataBase run fuel Old s) (\<lambda>s. Inr (st, s)))))"

section \<open>Waiting\<close>

text \<open>
  A wait that is satisfied at once runs \<open>wait_tail\<close> itself. One that blocks leaves the processor to the
  next thread, which continues from its own saved context.
\<close>

definition KeWaitForSingleObject ::
  "'a sched_state_scheme thread_routine \<Rightarrow> 'a sched_state_scheme deferred_routines \<Rightarrow> nat \<Rightarrow> dispatcher \<Rightarrow>
   'a sched_state_scheme \<Rightarrow> fault + 'a sched_state_scheme" where
  "KeWaitForSingleObject exit_thread run fuel Object s =
     bind (KeGetCurrentIrql s) (\<lambda>irql.
     ASSERT ''KeWaitForSingleObject: IRQL <= APC_LEVEL'' (irql \<le> APC_LEVEL)
     (bind (KiLockDispatcherDataBase s) (\<lambda>(Old, s).
      let wait = bind (KiDHeaderAcquire (InWait Object Old) Object s) (\<lambda>(blocked, s).
        if blocked then resume_current exit_thread run fuel s else wait_tail run fuel Object Old s) in
      case dh_Type (DHeaders s Object) of
        MutantObject \<Rightarrow>
          ASSERT ''KeWaitForSingleObject: OwnerThread != KeGetCurrentThread()'' (OwnerThread s Object \<noteq> KeGetCurrentThread s)
          (ASSERT ''KeWaitForSingleObject: 0'' (dh_SignalState (DHeaders s Object) \<noteq> 0) wait)
      | ThreadObject \<Rightarrow> wait
      | ProcessObject \<Rightarrow> wait
      | SemaphoreObject \<Rightarrow> wait
      | EventNotificationObject \<Rightarrow> wait
      | EventSynchronizationObject \<Rightarrow> wait
      | _ \<Rightarrow> Inl (KeBugCheck ''Not Yet Implemented''))))"

section \<open>The wait lists\<close>

text \<open>Every operation of this file changes these four fields only, apart from what it asks of the scheduler.\<close>

definition set_waits ::
  "(wait_block \<Rightarrow> KWAIT_BLOCK) \<Rightarrow> wait_block links \<Rightarrow> wait_block links \<Rightarrow> (dispatcher \<Rightarrow> DISPATCHER_HEADER) \<Rightarrow>
   'a sched_state_scheme \<Rightarrow> 'a sched_state_scheme" where
  "set_waits wb th wl dh s = s\<lparr>WaitBlocks := wb, ThreadLink := th, WaitLink := wl, DHeaders := dh\<rparr>"

lemma set_waits_sel [simp]:
  "Tcbs (set_waits wb th wl dh s) = Tcbs s" "Pcbs (set_waits wb th wl dh s) = Pcbs s"
  "SchedLink (set_waits wb th wl dh s) = SchedLink s" "Scheduler_list (set_waits wb th wl dh s) = Scheduler_list s"
  "ExitThreadList (set_waits wb th wl dh s) = ExitThreadList s" "CurrentThread (set_waits wb th wl dh s) = CurrentThread s"
  "CurrentIrql (set_waits wb th wl dh s) = CurrentIrql s" "spin_locks (set_waits wb th wl dh s) = spin_locks s"
  "hal_ok (set_waits wb th wl dh s) = hal_ok s" "DpcListHead (set_waits wb th wl dh s) = DpcListHead s"
  "PhysMem (set_waits wb th wl dh s) = PhysMem s" "Cr3 (set_waits wb th wl dh s) = Cr3 s"
  "dispatcher_held (set_waits wb th wl dh s) = dispatcher_held s" "OwnerThread (set_waits wb th wl dh s) = OwnerThread s"
  "WaitBlockList (set_waits wb th wl dh s) = WaitBlockList s" "SemaphoreLimit (set_waits wb th wl dh s) = SemaphoreLimit s"
  "WaitBlocks (set_waits wb th wl dh s) = wb" "ThreadLink (set_waits wb th wl dh s) = th"
  "WaitLink (set_waits wb th wl dh s) = wl" "DHeaders (set_waits wb th wl dh s) = dh"
  by (simp_all add: set_waits_def hal_ok_def dispatcher_held_def)

lemma waits_as_set_waits:
  "set_dheader d f s = set_waits (WaitBlocks s) (ThreadLink s) (WaitLink s) ((DHeaders s)(d := f (DHeaders s d))) s"
  "set_wait_list d l s = set_waits (WaitBlocks s) (ThreadLink s) (fst l)
     ((DHeaders s)(d := DHeaders s d\<lparr>dh_WaitListHead := snd l\<rparr>)) s"
  by (simp_all add: set_dheader_def set_wait_list_def set_waits_def)

lemma switchable_set_waits [simp]: "switchable F (set_waits wb th wl dh s) qs = switchable F s qs"
  using spaces_ok_cong [of F s "set_waits wb th wl dh s"] spaces_ok_cong [of F "set_waits wb th wl dh s" s]
  by (auto simp: switchable_def sched_ok_def)

text \<open>
  \<open>wait_lists D s ws\<close>: the wait list of each object \<open>d\<close> of \<open>D\<close> holds the threads \<open>ws d\<close>, each by its block 0
  that points back at the thread and the object; no thread is on two lists, and nobody waits on an
  object that is signalled. \<open>low\<close>: the thread continues at a level at which it may wait.
\<close>

abbreviation (input) block :: "kthread \<Rightarrow> wait_block" where "block t \<equiv> (t, 0)"

definition wait_lists :: "dispatcher set \<Rightarrow> 'a sched_state_scheme \<Rightarrow> (dispatcher \<Rightarrow> kthread list) \<Rightarrow> bool" where
  "wait_lists D s ws \<longleftrightarrow>
     (\<forall>d \<in> D. klist_rep (wait_list d s) (map block (ws d)) \<and> 0 \<le> sint (dh_SignalState (DHeaders s d)) \<and>
       (dh_SignalState (DHeaders s d) \<noteq> 0 \<longrightarrow> ws d = []) \<and>
       (\<forall>t \<in> set (ws d). WaitBlocks s (block t) = \<lparr>wb_Thread = Some t, wb_Object = Some d, wb_Type = WAIT_TYPE_ANY\<rparr>)) \<and>
     (\<forall>d \<in> D. \<forall>e \<in> D. d \<noteq> e \<longrightarrow> set (ws d) \<inter> set (ws e) = {}) \<and> (\<forall>t. LIST_EMPTY (WaitBlockList s t))"

definition low :: "KTHREAD \<Rightarrow> bool" where
  "low t \<longleftrightarrow> (\<exists>i. resume_irql (tcb_StackPointer t) t = Some i \<and> i \<le> APC_LEVEL)"

definition waiting :: "KTHREAD \<Rightarrow> bool" where
  "waiting t \<longleftrightarrow> tcb_State t = THREAD_STATE_WAITING \<and> tcb_ThreadProcess t \<noteq> None \<and> 1 \<le> tcb_Priority t \<and>
     tcb_Priority t \<le> 6 \<and> low t"

lemma low_can_resume: "low t \<Longrightarrow> can_resume t"
proof -
  have "i \<le> DISPATCH_LEVEL" if "i \<le> APC_LEVEL" for i :: KIRQL using order_trans [OF that, of DISPATCH_LEVEL] by simp
  then show "low t \<Longrightarrow> can_resume t" unfolding low_def can_resume_def by blast
qed

lemma wait_lists_cong: "wait_lists D s ws \<Longrightarrow> same_waits s s' \<Longrightarrow> wait_lists D s' ws"
  by (simp add: wait_lists_def same_waits_def wait_list_def)

lemma wait_lists_signal:
  assumes "wait_lists D s ws" "d \<in> D" "ws d = []" "0 \<le> sint v"
  shows "wait_lists D (set_dheader d (\<lambda>h. h\<lparr>dh_SignalState := v\<rparr>) s) ws"
  using assms by (auto simp: wait_lists_def wait_list_def waits_as_set_waits)

lemma wait_lists_init:
  assumes "wait_lists D s ws" "d \<in> D" "ws d = []" "0 \<le> sint v"
  shows "wait_lists D (KeInitDispatcherHeader d ty v s) ws"
  using assms by (auto simp: wait_lists_def wait_list_def waits_as_set_waits KeInitDispatcherHeader_def klist_rep_def LIST_INIT_def)

lemma wait_lists_update:
  assumes w: "wait_lists D s ws" and d: "d \<in> D" and z: "dh_SignalState (DHeaders s d) = 0"
    and r: "klist_rep l (map block xs)" and fr: "links_frame (insert (block t) (block ` set (ws d))) (WaitLink s) (fst l)"
    and xs: "set xs \<subseteq> insert t (set (ws d))" and t: "\<And>e. e \<in> D \<Longrightarrow> e \<noteq> d \<Longrightarrow> t \<notin> set (ws e)"
    and b: "\<And>u. u \<noteq> t \<Longrightarrow> wb (block u) = WaitBlocks s (block u)"
      "t \<in> set xs \<Longrightarrow> wb (block t) = \<lparr>wb_Thread = Some t, wb_Object = Some d, wb_Type = WAIT_TYPE_ANY\<rparr>"
  shows "wait_lists D (set_waits wb th (fst l) ((DHeaders s)(d := DHeaders s d\<lparr>dh_WaitListHead := snd l\<rparr>)) s) (ws(d := xs))"
proof -
  let ?s = "set_waits wb th (fst l) ((DHeaders s)(d := DHeaders s d\<lparr>dh_WaitListHead := snd l\<rparr>)) s"
  have sep: "set (ws e) \<inter> insert t (set (ws d)) = {}" if "e \<in> D" "e \<noteq> d" for e
    using w d t [OF that] that by (auto simp: wait_lists_def)
  have "klist_rep (wait_list e ?s) (map block (ws e))" if "e \<in> D" "e \<noteq> d" for e
  proof -
    have "klist_rep (WaitLink s, dh_WaitListHead (DHeaders s e)) (map block (ws e))"
      using w that(1) by (simp add: wait_lists_def wait_list_def)
    moreover have "set (map block (ws e)) \<inter> insert (block t) (block ` set (ws d)) = {}" using sep [OF that] by auto
    ultimately show ?thesis using fr that(2) klist_rep_frame by (fastforce simp: wait_list_def)
  qed
  moreover have "klist_rep (wait_list d ?s) (map block xs)" using r by (simp add: wait_list_def)
  moreover have "wb (block u) = \<lparr>wb_Thread = Some u, wb_Object = Some e, wb_Type = WAIT_TYPE_ANY\<rparr>"
    if "e \<in> D" "u \<in> set ((ws(d := xs)) e)" for e u
    using that w b xs sep d by (cases "u = t"; cases "e = d") (auto simp: wait_lists_def)
  ultimately show ?thesis
    using w z sep xs d unfolding wait_lists_def by (auto simp: subset_iff; blast)
qed

text \<open>What these operations leave alone: the interrupt flag and the globals of the parts above.\<close>

definition same_rest :: "'a sched_state_scheme \<Rightarrow> 'a sched_state_scheme \<Rightarrow> bool" where
  "same_rest s s' \<longleftrightarrow> Flags_IF s' = Flags_IF s \<and> sched_state.more s' = sched_state.more s"

lemma same_rest_steps [simp]:
  "same_rest s (at_irql i s') = same_rest s s'" "same_rest s (set_lock l g s') = same_rest s s'" "same_rest s (hold l i s') = same_rest s s'"
  "same_rest s (set_dheader d f s') = same_rest s s'" "same_rest s (s'\<lparr>OwnerThread := ow\<rparr>) = same_rest s s'" "same_rest s s"
  by (simp_all add: same_rest_def at_irql_def set_lock_def hold_def set_dheader_def)

section \<open>Waiting and releasing while the system runs\<close>

lemma wait_lists_enqueue:
  assumes w: "wait_lists D s ws" and d: "d \<in> D" "dh_SignalState (DHeaders s d) = 0"
    and out: "\<And>e. e \<in> D \<Longrightarrow> c \<notin> set (ws e)" and cur: "CurrentThread s = Some c"
  shows "\<exists>wb th l. KiInitWaitBlock (block c) d s = Inr (set_waits wb th (LIST_INIT_ENTRY (block c) (WaitLink s)) (DHeaders s) s) \<and>
    LIST_INSERT_TAIL (block c) (LIST_INIT_ENTRY (block c) (WaitLink s), dh_WaitListHead (DHeaders s d)) = Inr l \<and>
    wait_lists D (set_waits wb th (fst l) ((DHeaders s)(d := DHeaders s d\<lparr>dh_WaitListHead := snd l\<rparr>)) s) (ws(d := ws d @ [c]))"
proof -
  let ?wb = "(WaitBlocks s)(block c := \<lparr>wb_Thread = Some c, wb_Object = Some d, wb_Type = WAIT_TYPE_ANY\<rparr>)"
  let ?wl = "LIST_INIT_ENTRY (block c) (WaitLink s)"
  let ?s = "set_waits ?wb (LIST_INIT_ENTRY (block c) (ThreadLink s)) ?wl (DHeaders s) s"
  have init: "KiInitWaitBlock (block c) d s = Inr ?s"
    using cur by (simp add: KiInitWaitBlock_def KeGetCurrentThread_def set_waits_def)
  have fr: "links_frame {block c} (WaitLink s) ?wl" by (simp add: links_frame_def LIST_INIT_ENTRY_def)
  have nin: "block c \<notin> set (map block (ws d))" using out [OF d(1)] by auto
  have "klist_rep (?wl, dh_WaitListHead (DHeaders s d)) (map block (ws d))"
    using w d nin klist_rep_frame [OF _ fr] by (auto simp: wait_lists_def wait_list_def)
  from LIST_INSERT_TAIL_correct [OF this nin] obtain l where
    l: "LIST_INSERT_TAIL (block c) (?wl, dh_WaitListHead (DHeaders s d)) = Inr l"
      "klist_rep l (map block (ws d @ [c]))" "links_frame (insert (block c) (block ` set (ws d))) ?wl (fst l)"
    by auto
  have "links_frame (insert (block c) (block ` set (ws d))) (WaitLink s) (fst l)"
    using fr l(3) by (simp add: links_frame_def)
  from wait_lists_update [OF w d l(2) this, of ?wb] out
  have "wait_lists D (set_waits ?wb (LIST_INIT_ENTRY (block c) (ThreadLink s)) (fst l)
      ((DHeaders s)(d := DHeaders s d\<lparr>dh_WaitListHead := snd l\<rparr>)) s) (ws(d := ws d @ [c]))" by auto
  then show ?thesis using init l(1) by blast
qed

lemma wait_blocks:
  assumes r: "running F s c qs" and w: "wait_lists D s ws" and d: "d \<in> D" "dh_SignalState (DHeaders s d) = 0"
    and ty: "dh_Type (DHeaders s d) \<in> {ThreadObject, ProcessObject, SemaphoreObject, EventNotificationObject, EventSynchronizationObject}"
    and low: "CurrentIrql s \<le> APC_LEVEL" and out: "\<And>e. e \<in> D \<Longrightarrow> c \<notin> set (ws e)"
    and h: "highest 1 qs = Some p" "qs ! p = n # ns"
  shows "\<exists>s'. KeWaitForSingleObject exit_thread run (Suc fuel) d s = Inr s' \<and> n \<noteq> c \<and> n \<in> queued qs [] \<and>
    running F s' n (qs[p := ns]) \<and> wait_lists D s' (ws(d := ws d @ [c])) \<and>
    Tcbs s' = (Tcbs s)(n := Tcbs s n\<lparr>tcb_State := THREAD_STATE_RUNNING\<rparr>,
      c := Tcbs s c\<lparr>tcb_State := THREAD_STATE_WAITING, tcb_StackPointer := InWait d (CurrentIrql s)\<rparr>) \<and>
    Some (CurrentIrql s') = resume_irql (tcb_StackPointer (Tcbs s n)) (Tcbs s n) \<and>
    (\<forall>e. dh_Type (DHeaders s' e) = dh_Type (DHeaders s e) \<and> dh_SignalState (DHeaders s' e) = dh_SignalState (DHeaders s e)) \<and>
    SemaphoreLimit s' = SemaphoreLimit s \<and> queued (qs[p := ns]) [] \<subseteq> queued qs []"
proof -
  have c: "CurrentThread s = Some c" "c \<notin> queued qs []" "tcb_State (Tcbs s c) = THREAD_STATE_RUNNING" "hal_ok s"
    using r by (simp_all add: running_def)
  define s1 where "s1 = hold DispatcherDataBaseLock (CurrentIrql s) (at_irql DISPATCH_LEVEL s)"
  have lock: "KiLockDispatcherDataBase s = Inr (CurrentIrql s, s1)" and sw1: "switchable F s1 qs"
    using running_lock [OF r] by (simp_all add: s1_def)
  have held1: "dispatcher_held s1" using sw1 by (simp add: switchable_def)
  have s1: "Tcbs s1 = Tcbs s" "Pcbs s1 = Pcbs s" "CurrentThread s1 = Some c" using c(1) by (simp_all add: s1_def)
  have sw_s1: "same_waits s s1"
    unfolding s1_def by (rule same_waits_trans [of _ "at_irql DISPATCH_LEVEL s"]) simp_all
  then have f1: "DHeaders s1 = DHeaders s" "WaitLink s1 = WaitLink s" "SemaphoreLimit s1 = SemaphoreLimit s"
    by (simp_all add: same_waits_def)
  from wait_lists_enqueue [OF wait_lists_cong [OF w sw_s1] d(1) _ out s1(3)] d(2) f1 obtain wb th l where
    enq: "KiInitWaitBlock (block c) d s1 = Inr (set_waits wb th (LIST_INIT_ENTRY (block c) (WaitLink s1)) (DHeaders s) s1)"
      "LIST_INSERT_TAIL (block c) (LIST_INIT_ENTRY (block c) (WaitLink s1), dh_WaitListHead (DHeaders s d)) = Inr l"
      "wait_lists D (set_waits wb th (fst l) ((DHeaders s)(d := DHeaders s d\<lparr>dh_WaitListHead := snd l\<rparr>)) s1) (ws(d := ws d @ [c]))"
    by auto
  define s2 where "s2 = set_waits wb th (fst l) ((DHeaders s)(d := DHeaders s d\<lparr>dh_WaitListHead := snd l\<rparr>)) s1"
  have put: "set_wait_list d l (set_waits wb th (LIST_INIT_ENTRY (block c) (WaitLink s1)) (DHeaders s) s1) = s2"
    by (simp add: s2_def waits_as_set_waits) (simp add: set_waits_def)
  define s3 where "s3 = set_tcb c (\<lambda>t. t\<lparr>tcb_State := THREAD_STATE_WAITING\<rparr>) s2"
  have sw3: "switchable F s3 qs" using sw1 c(2) unfolding s3_def s2_def by (intro switchable_set_tcb) simp_all
  have s3: "Tcbs s3 = (Tcbs s)(c := Tcbs s c\<lparr>tcb_State := THREAD_STATE_WAITING\<rparr>)" "CurrentThread s3 = Some c" "Pcbs s3 = Pcbs s"
    using s1 by (simp_all add: s3_def s2_def)
  note sel = select_next [OF sw3 _ _ h]
  have nc: "n \<in> queued qs []" "n \<noteq> c" using sel(2) c(2) by auto
  obtain k where k: "KiSelectNextThread 1 s3 = Inr (Some n, set_sched_list p k s3)" "switchable F (set_sched_list p k s3) (qs[p := ns])"
    using sel(1) by auto
  obtain pn i where pn: "tcb_ThreadProcess (Tcbs s n) = Some pn" and
    i: "resume_irql (tcb_StackPointer (Tcbs s n)) (Tcbs s n) = Some i" "i \<le> DISPATCH_LEVEL"
    using r nc(1) unfolding running_def can_resume_def by blast
  have old: "\<And>t. t \<in> queued (qs[p := ns]) [] \<Longrightarrow> t \<in> queued qs [] \<and> t \<noteq> c" using sel(4) c(2) by auto
  let ?s4 = "set_sched_list p k s3" and ?here = "InWait d (CurrentIrql s)"
  have "\<exists>s'. bind (KiSwapThread ?here c n ?s4) (resume_current exit_thread run (Suc fuel)) = Inr s' \<and> running F s' n (qs[p := ns]) \<and>
    Pcbs s' = Pcbs ?s4 \<and> same_waits ?s4 s' \<and> Tcbs s' = (Tcbs ?s4)(n := Tcbs ?s4 n\<lparr>tcb_State := THREAD_STATE_RUNNING\<rparr>,
      c := Tcbs ?s4 c\<lparr>tcb_StackPointer := ?here\<rparr>) \<and>
    CurrentIrql s' = i \<and> Cr3 s' = F pn \<and> TS_esp0 s' = tcb_KernelStack (Tcbs ?s4 n) + 0x3000"
  proof (rule switch_resume [OF k(2) _ nc(2)])
    show "tcb_ThreadProcess (Tcbs ?s4 t) \<noteq> None" if "t \<in> queued (qs[p := ns]) []" for t
      using r old [OF that] by (simp add: running_def s3)
    show "can_resume (Tcbs ?s4 t)" if "t \<in> queued (qs[p := ns]) []" "t \<noteq> c" for t
      using r old [OF that(1)] by (simp add: running_def s3)
  qed (use sel(3,5-8) old nc s3 pn i in auto)
  then obtain s' where s': "bind (KiSwapThread ?here c n ?s4) (resume_current exit_thread run (Suc fuel)) = Inr s'"
    "running F s' n (qs[p := ns])" "same_waits ?s4 s'" "Tcbs s' = (Tcbs s)(n := Tcbs s n\<lparr>tcb_State := THREAD_STATE_RUNNING\<rparr>,
      c := Tcbs s c\<lparr>tcb_State := THREAD_STATE_WAITING, tcb_StackPointer := ?here\<rparr>)" "CurrentIrql s' = i"
    using nc(2) by (auto simp: s3)
  have "dispatcher_held s2" "CurrentThread s2 = Some c" "Tcbs s2 = Tcbs s" using held1 s1 by (simp_all add: s2_def)
  then have blk: "KiBlockThread ?here s2 = KiSwapThread ?here c n ?s4"
    using k(1) c(3) by (simp add: KiBlockThread_def ASSERT_dispatcher_ok KeGetCurrentThread_def s3_def [symmetric] Let_def)
  have irql1: "KeGetCurrentIrql s1 = Inr DISPATCH_LEVEL" using held1 by (simp add: dispatcher_held_def hal_ok_irql)
  have acq: "KiDHeaderAcquire ?here d s1 = bind (KiSwapThread ?here c n ?s4) (\<lambda>s. Inr (True, s))"
    using enq(1,2) d(2) s1(3) f1 irql1 put blk by (simp add: KiDHeaderAcquire_def KeGetCurrentThread_def wait_list_def)
  have "KeWaitForSingleObject exit_thread run (Suc fuel) d s = Inr s'"
    using lock low c(4) ty f1(1) acq s'(1)
    by (auto simp: KeWaitForSingleObject_def hal_ok_irql Let_def bind_assoc bind_eq_Inr)
  moreover have "same_waits s2 s'"
    using s'(3) unfolding s3_def by (meson same_waits_trans same_waits_upd(1,2))
  then have "wait_lists D s' (ws(d := ws d @ [c]))" "DHeaders s' = DHeaders s2" "SemaphoreLimit s' = SemaphoreLimit s"
    using wait_lists_cong [OF enq(3)] f1 by (auto simp: s2_def same_waits_def)
  ultimately show ?thesis using s' nc i sel(4) by (intro exI [of _ s']) (simp add: s2_def)
qed

text \<open>A wait on a signalled object takes one unit and goes on.\<close>

lemma unlock_running:
  assumes sw: "switchable F s qs" and cur: "CurrentThread s = Some c" "c \<notin> queued qs []" "tcb_State (Tcbs s c) = THREAD_STATE_RUNNING"
    "1 \<le> tcb_Priority (Tcbs s c)" "tcb_Priority (Tcbs s c) \<le> 6" and i: "i \<le> DISPATCH_LEVEL"
    and q: "\<And>t. t \<in> insert c (queued qs []) \<Longrightarrow> tcb_ThreadProcess (Tcbs s t) \<noteq> None"
      "\<And>t. t \<in> queued qs [] \<Longrightarrow> can_resume (Tcbs s t)"
  shows "KiUnLockDispatcherDataBase run (Suc fuel) i s = Inr (at_irql i (set_lock DispatcherDataBaseLock (\<lambda>_. free_lock) s))"
    and "running F (at_irql i (set_lock DispatcherDataBaseLock (\<lambda>_. free_lock) s)) c qs"
proof -
  let ?s = "at_irql i (set_lock DispatcherDataBaseLock (\<lambda>_. free_lock) s)"
  have d: "sched_ok s qs []" "dispatcher_held s" "spin_locks s ExitThreadLock = free_lock" "LIST_EMPTY (DpcListHead s)"
    "qs ! 0 = []" "spaces_ok F s" using sw by (simp_all add: switchable_def)
  show "KiUnLockDispatcherDataBase run (Suc fuel) i s = Inr ?s"
    using d(2,4) i by (intro unlock_database) (simp_all add: dispatcher_held_def)
  have "i \<le> MAX_IRQL_LEVEL" using i by (rule order_trans) simp
  then have "hal_ok ?s" using d(2) by (intro hal_ok_at_irql) (simp_all add: dispatcher_held_def)
  moreover have "sched_ok ?s qs []" by (rule sched_ok_cong [OF d(1)]) simp_all
  moreover have "spaces_ok F ?s" by (rule spaces_ok_cong [OF d(6)]) simp_all
  ultimately show "running F ?s c qs" unfolding running_def using d cur i q by simp
qed

lemma locked_waits: "same_waits s (hold DispatcherDataBaseLock i (at_irql DISPATCH_LEVEL s))"
  by (rule same_waits_trans [of _ "at_irql DISPATCH_LEVEL s"]) simp_all

lemma unlocked_waits: "same_waits s (at_irql i (set_lock k f s))"
  by (rule same_waits_trans [of _ "set_lock k f s"]) simp_all

lemma runningD:
  assumes "running F s c qs"
  shows "CurrentThread s = Some c" "c \<notin> queued qs []" "tcb_State (Tcbs s c) = THREAD_STATE_RUNNING"
    "1 \<le> tcb_Priority (Tcbs s c)" "tcb_Priority (Tcbs s c) \<le> 6" "CurrentIrql s \<le> DISPATCH_LEVEL" "hal_ok s"
    "\<And>t. t \<in> insert c (queued qs []) \<Longrightarrow> tcb_ThreadProcess (Tcbs s t) \<noteq> None"
    "\<And>t. t \<in> queued qs [] \<Longrightarrow> can_resume (Tcbs s t)" "length qs = 7"
  using assms by (auto simp: running_def sched_ok_def)

lemma wait_satisfied:
  assumes r: "running F s c qs" and sig: "0 < sint (dh_SignalState (DHeaders s d))" and low: "CurrentIrql s \<le> APC_LEVEL"
    and ty: "dh_Type (DHeaders s d) \<in> {ThreadObject, ProcessObject, SemaphoreObject, EventNotificationObject, EventSynchronizationObject}"
  shows "\<exists>s'. KeWaitForSingleObject exit_thread run (Suc fuel) d s = Inr s' \<and> running F s' c qs \<and> Tcbs s' = Tcbs s \<and>
    same_waits (set_dheader d (\<lambda>h. h\<lparr>dh_SignalState := dh_SignalState h - 1\<rparr>) s) s' \<and> CurrentIrql s' = CurrentIrql s \<and> same_rest s s' \<and> OwnerThread s' = OwnerThread s"
proof -
  note c = runningD [OF r]
  define s1 where "s1 = hold DispatcherDataBaseLock (CurrentIrql s) (at_irql DISPATCH_LEVEL s)"
  have lock: "KiLockDispatcherDataBase s = Inr (CurrentIrql s, s1)" and sw1: "switchable F s1 qs"
    using running_lock [OF r] by (simp_all add: s1_def)
  have s1: "Tcbs s1 = Tcbs s" "CurrentThread s1 = Some c" using c(1) by (simp_all add: s1_def)
  have w1: "same_waits s s1" unfolding s1_def by (rule locked_waits)
  then have f1: "DHeaders s1 = DHeaders s" by (simp add: same_waits_def)
  let ?f = "\<lambda>h. h\<lparr>dh_SignalState := dh_SignalState h - 1\<rparr>"
  define s2 where "s2 = set_dheader d ?f s1"
  have sw2: "switchable F s2 qs" and s2: "Tcbs s2 = Tcbs s" "CurrentThread s2 = Some c"
    using sw1 s1 by (simp_all add: s2_def waits_as_set_waits)
  have un: "KiUnLockDispatcherDataBase run (Suc fuel) (CurrentIrql s) s2 = Inr (at_irql (CurrentIrql s) (set_lock DispatcherDataBaseLock (\<lambda>_. free_lock) s2))"
    "running F (at_irql (CurrentIrql s) (set_lock DispatcherDataBaseLock (\<lambda>_. free_lock) s2)) c qs"
    using unlock_running(1) [OF sw2, where c = c and i = "CurrentIrql s" and run = run and fuel = fuel]
      unlock_running(2) [OF sw2, where c = c and i = "CurrentIrql s"] c by (simp_all add: s2)
  have "KeGetCurrentIrql s1 = Inr DISPATCH_LEVEL" using sw1 by (simp add: switchable_def dispatcher_held_def hal_ok_irql)
  moreover have "dh_SignalState (DHeaders s d) \<noteq> 0" using sig by auto
  ultimately have acq: "KiDHeaderAcquire here d s1 = Inr (False, s2)" for here
    using sig by (simp add: KiDHeaderAcquire_def f1 s2_def InterlockedDecrement_def InterlockedExchangeAdd_def)
  have "dh_Type (DHeaders s2 d) \<noteq> MutantObject" using ty by (auto simp: s2_def waits_as_set_waits f1)
  then have "KeWaitForSingleObject exit_thread run (Suc fuel) d s = Inr (at_irql (CurrentIrql s) (set_lock DispatcherDataBaseLock (\<lambda>_. free_lock) s2))"
    using lock low c(7) ty acq un(1)
    by (auto simp: KeWaitForSingleObject_def hal_ok_irql Let_def f1 wait_tail_def)
  moreover have "same_rest s (at_irql (CurrentIrql s) (set_lock DispatcherDataBaseLock (\<lambda>_. free_lock) s2))"
    by (simp add: s2_def s1_def)
  moreover have "OwnerThread s2 = OwnerThread s" by (simp add: s2_def s1_def set_dheader_def hold_def set_lock_def at_irql_def)
  moreover have "same_waits (set_dheader d ?f s) s2" using w1 by (simp add: same_waits_def s2_def waits_as_set_waits)
  then have "same_waits (set_dheader d ?f s) (at_irql (CurrentIrql s) (set_lock DispatcherDataBaseLock (\<lambda>_. free_lock) s2))"
    using unlocked_waits by (rule same_waits_trans)
  ultimately show ?thesis using un(2) s2
    by (intro exI [of _ "at_irql (CurrentIrql s) (set_lock DispatcherDataBaseLock (\<lambda>_. free_lock) s2)"]) (simp add: at_irql_def set_lock_def)
qed

text \<open>A release with the database locked: the first waiting thread becomes ready, or the count goes up.\<close>

lemma release_first:
  assumes sw: "switchable F s qs" and w: "wait_lists D s ws" and d: "d \<in> D" "ws d = t # ts" and th: "waiting (Tcbs s t)"
    and out: "t \<notin> queued qs []" and p: "p = tcb_Priority (Tcbs s t)"
  shows "\<exists>s'. release_one ready_any fuel d s = Inr s' \<and> switchable F s' (qs[p := qs ! p @ [t]]) \<and>
    wait_lists D s' (ws(d := ts)) \<and>
    Tcbs s' = (Tcbs s)(t := Tcbs s t\<lparr>tcb_State := THREAD_STATE_READY,
      tcb_Quantum := pcb_Quantum (Pcbs s (the (tcb_ThreadProcess (Tcbs s t))))\<rparr>) \<and>
    CurrentThread s' = CurrentThread s \<and> Pcbs s' = Pcbs s \<and> OwnerThread s' = OwnerThread s \<and>
    (\<forall>e. dh_Type (DHeaders s' e) = dh_Type (DHeaders s e) \<and> dh_SignalState (DHeaders s' e) = dh_SignalState (DHeaders s e)) \<and>
    SemaphoreLimit s' = SemaphoreLimit s \<and> queued (qs[p := qs ! p @ [t]]) [] \<subseteq> insert t (queued qs [])"
proof -
  have rep: "klist_rep (wait_list d s) (map block (ws d))" and z: "dh_SignalState (DHeaders s d) = 0"
    and bt: "WaitBlocks s (block t) = \<lparr>wb_Thread = Some t, wb_Object = Some d, wb_Type = WAIT_TYPE_ANY\<rparr>"
    and e: "LIST_EMPTY (WaitBlockList s t)" and nt: "\<And>e. e \<in> D \<Longrightarrow> e \<noteq> d \<Longrightarrow> t \<notin> set (ws e)"
    using w d by (auto simp: wait_lists_def)
  from LIST_REMOVE_HEAD_correct [OF rep] d(2) obtain l where
    l: "LIST_REMOVE_HEAD (wait_list d s) = Inr (Some (block t), l)" "klist_rep l (map block ts)"
      "links_frame (block ` set (ws d)) (WaitLink s) (fst l)" by (auto simp: wait_list_def)
  define s1 where "s1 = set_wait_list d l s"
  have "distinct (map block (ws d))" using rep by (simp add: klist_rep_def ring_def)
  then have "t \<notin> set ts" by (auto simp: d(2))
  moreover have "insert (block t) (block ` set (ws d)) = block ` set (ws d)" using d(2) by auto
  ultimately have w1: "wait_lists D s1 (ws(d := ts))"
    using wait_lists_update [OF w d(1) z l(2), where t = t and wb = "WaitBlocks s"] l(3) nt d(2)
    by (auto simp: s1_def waits_as_set_waits)
  have sw1: "switchable F s1 qs" and s1: "Tcbs s1 = Tcbs s" "Pcbs s1 = Pcbs s" "CurrentThread s1 = CurrentThread s"
    "OwnerThread s1 = OwnerThread s" "SemaphoreLimit s1 = SemaphoreLimit s" "WaitBlocks s1 = WaitBlocks s" "WaitBlockList s1 = WaitBlockList s"
    "\<And>e. dh_Type (DHeaders s1 e) = dh_Type (DHeaders s e) \<and> dh_SignalState (DHeaders s1 e) = dh_SignalState (DHeaders s e)"
    using sw by (simp_all add: s1_def waits_as_set_waits)
  obtain pc where pc: "tcb_ThreadProcess (Tcbs s t) = Some pc" using th by (auto simp: waiting_def)
  have st: "tcb_State (Tcbs s1 t) \<in> {THREAD_STATE_INITIALIZED, THREAD_STATE_WAITING, THREAD_STATE_RUNNING}"
    and pr: "tcb_ThreadProcess (Tcbs s1 t) = Some pc" "tcb_Priority (Tcbs s1 t) = p" "1 \<le> p" "p \<le> 6"
    using th pc by (simp_all add: waiting_def s1 p)
  from make_ready(1) [OF sw1 out st pr] obtain s' where s': "KiReadyThread t s1 = Inr s'" "switchable F s' (qs[p := qs ! p @ [t]])"
    "same_waits s1 s'" "Tcbs s' = (Tcbs s)(t := Tcbs s t\<lparr>tcb_State := THREAD_STATE_READY, tcb_Quantum := pcb_Quantum (Pcbs s pc)\<rparr>)"
    "Pcbs s' = Pcbs s" "CurrentThread s' = CurrentThread s" "OwnerThread s' = OwnerThread s" by (auto simp: s1)
  have "release_one ready_any fuel d s = Inr s'"
    using l(1) bt e s'(1) s1 by (simp add: release_one_def s1_def [symmetric] Let_def)
  moreover have "DHeaders s' = DHeaders s1" "SemaphoreLimit s' = SemaphoreLimit s" using s'(3) s1(5) by (simp_all add: same_waits_def)
  moreover note make_ready(2) [OF sw1 out st pr] wait_lists_cong [OF w1 s'(3)]
  ultimately show ?thesis using s' s1(8) pc by (intro exI [of _ s']) simp
qed

lemma release_ok:
  assumes "dispatcher_held s" "wait_lists D s ws" "d \<in> D" "sint (dh_SignalState (DHeaders s d)) < 100"
  shows "KiDHeaderRelease fuel d s = (if ws d = []
      then Inr (set_dheader d (\<lambda>h. h\<lparr>dh_SignalState := dh_SignalState h + 1\<rparr>) s) else release_one False fuel d s)"
proof -
  have "LIST_EMPTY (dh_WaitListHead (DHeaders s d)) \<longleftrightarrow> ws d = []"
    using assms(2,3) by (auto simp: wait_lists_def wait_list_def klist_rep_def LIST_EMPTY_def)
  moreover have "dh_SignalState (DHeaders s d) = 0 \<or> ws d = []" using assms(2,3) by (auto simp: wait_lists_def)
  ultimately show ?thesis
    using assms(1,4)
    by (auto simp: KiDHeaderRelease_def ASSERT_release_def dispatcher_held_def hal_ok_irql InterlockedIncrement_def
        InterlockedExchangeAdd_def)
qed

lemma sint_Suc: "0 \<le> sint v \<Longrightarrow> sint v < 100 \<Longrightarrow> sint (v + 1 :: LONG) = sint v + 1"
  by (simp add: sint_word_ariths signed_take_bit_int_eq_self)

lemma sint_pred: "0 < sint v \<Longrightarrow> sint (v - 1 :: LONG) = sint v - 1"
  using sint_lt [of v] by (simp add: sint_word_ariths signed_take_bit_int_eq_self)

section \<open>Semaphores as a machine\<close>

text \<open>
  The specification: the running thread, the ready queues, the queue of waiting threads of each semaphore and its
  count. A wait takes a unit or suspends the caller at the tail of the semaphore's queue; a release hands
  the unit to the head of that queue or adds it to the count. \<open>None\<close> is an operation the kernel does not
  allow: a release above the limit, or a wait when no other thread is ready.
\<close>

type_synonym sem_state = "kthread \<times> kthread list list \<times> (dispatcher \<Rightarrow> kthread list) \<times> (dispatcher \<Rightarrow> int)"

datatype sem_op = Yield | Wait dispatcher | Release dispatcher

fun sem_spec :: "(kthread \<Rightarrow> PROCESS_PRIORITY) \<Rightarrow> (dispatcher \<Rightarrow> int) \<Rightarrow> sem_op \<Rightarrow> sem_state \<Rightarrow> sem_state option" where
  "sem_spec prio lim Yield (c, qs, ws, cnt) = (case round_robin prio (c, qs) of (c', qs') \<Rightarrow> Some (c', qs', ws, cnt))"
| "sem_spec prio lim (Wait d) (c, qs, ws, cnt) =
     (if 0 < cnt d then Some (c, qs, ws, cnt(d := cnt d - 1))
      else case highest 1 qs of
        None \<Rightarrow> None
      | Some p \<Rightarrow> Some (hd (qs ! p), qs[p := tl (qs ! p)], ws(d := ws d @ [c]), cnt))"
| "sem_spec prio lim (Release d) (c, qs, ws, cnt) =
     (if cnt d \<ge> lim d \<or> cnt d \<ge> 100 then None
      else case ws d of
        [] \<Rightarrow> Some (c, qs, ws, cnt(d := cnt d + 1))
      | t # ts \<Rightarrow> Some (c, qs[prio t := qs ! prio t @ [t]], ws(d := ts), cnt))"

text \<open>The same operations of the kernel, called by whichever thread has the processor.\<close>

fun sem_kernel ::
  "'a sched_state_scheme thread_routine \<Rightarrow> 'a sched_state_scheme deferred_routines \<Rightarrow> nat \<Rightarrow> sem_op \<Rightarrow>
   'a sched_state_scheme \<Rightarrow> fault + 'a sched_state_scheme" where
  "sem_kernel exit_thread run fuel Yield s = Schedule exit_thread run fuel s"
| "sem_kernel exit_thread run fuel (Wait d) s = KeWaitForSingleObject exit_thread run fuel d s"
| "sem_kernel exit_thread run fuel (Release d) s = bind (KeReleaseSemaphore run fuel d 0 1 s) (\<lambda>(Old, s). Inr s)"

definition op_on :: "dispatcher set \<Rightarrow> sem_op \<Rightarrow> bool" where
  "op_on D x = (case x of Yield \<Rightarrow> True | Wait d \<Rightarrow> d \<in> D | Release d \<Rightarrow> d \<in> D)"

definition sem_system ::
  "(nat \<Rightarrow> ULONG) \<Rightarrow> dispatcher set \<Rightarrow> (kthread \<Rightarrow> PROCESS_PRIORITY) \<Rightarrow> (dispatcher \<Rightarrow> int) \<Rightarrow> 'a sched_state_scheme \<Rightarrow>
   sem_state \<Rightarrow> bool" where
  "sem_system F D prio lim s = (\<lambda>(c, qs, ws, cnt).
     running F s c qs \<and> wait_lists D s ws \<and> CurrentIrql s \<le> APC_LEVEL \<and> (\<forall>t \<in> queued qs []. low (Tcbs s t)) \<and>
     (\<forall>d \<in> D. (\<forall>t \<in> set (ws d). waiting (Tcbs s t)) \<and> dh_Type (DHeaders s d) = SemaphoreObject \<and>
       sint (dh_SignalState (DHeaders s d)) = cnt d \<and> sint (SemaphoreLimit s d) = lim d) \<and>
     (\<forall>t. tcb_Priority (Tcbs s t) = prio t))"

lemma sem_systemD:
  assumes "sem_system F D prio lim s (c, qs, ws, cnt)"
  shows "running F s c qs" "wait_lists D s ws" "CurrentIrql s \<le> APC_LEVEL" "\<And>t. t \<in> queued qs [] \<Longrightarrow> low (Tcbs s t)"
    "\<And>d t. d \<in> D \<Longrightarrow> t \<in> set (ws d) \<Longrightarrow> waiting (Tcbs s t)" "\<And>d. d \<in> D \<Longrightarrow> dh_Type (DHeaders s d) = SemaphoreObject"
    "\<And>d. d \<in> D \<Longrightarrow> sint (dh_SignalState (DHeaders s d)) = cnt d" "\<And>d. d \<in> D \<Longrightarrow> sint (SemaphoreLimit s d) = lim d"
    "\<And>t. tcb_Priority (Tcbs s t) = prio t"
    "\<And>d t. d \<in> D \<Longrightarrow> t \<in> set (ws d) \<Longrightarrow> t \<noteq> c \<and> t \<notin> queued qs []"
proof -
  show *: "running F s c qs" "wait_lists D s ws" "CurrentIrql s \<le> APC_LEVEL" "\<And>t. t \<in> queued qs [] \<Longrightarrow> low (Tcbs s t)"
    "\<And>d t. d \<in> D \<Longrightarrow> t \<in> set (ws d) \<Longrightarrow> waiting (Tcbs s t)" "\<And>d. d \<in> D \<Longrightarrow> dh_Type (DHeaders s d) = SemaphoreObject"
    "\<And>d. d \<in> D \<Longrightarrow> sint (dh_SignalState (DHeaders s d)) = cnt d" "\<And>d. d \<in> D \<Longrightarrow> sint (SemaphoreLimit s d) = lim d"
    "\<And>t. tcb_Priority (Tcbs s t) = prio t"
    using assms by (auto simp: sem_system_def)
  have ready: "tcb_State (Tcbs s t) = THREAD_STATE_READY" if tq: "t \<in> queued qs []" for t
  proof -
    obtain q where "q \<in> set qs" "t \<in> set q" using tq by (auto simp: queued_def)
    then obtain p where "p < length qs" "t \<in> set (qs ! p)" by (metis in_set_conv_nth)
    then show ?thesis using *(1) by (auto simp: running_def sched_ok_def)
  qed
  show "\<And>d t. d \<in> D \<Longrightarrow> t \<in> set (ws d) \<Longrightarrow> t \<noteq> c \<and> t \<notin> queued qs []"
    using *(5) runningD(3) [OF *(1)] ready by (fastforce simp: waiting_def)
qed

lemma sem_yield:
  assumes sys: "sem_system F D prio lim s (c, qs, ws, cnt)" and step: "round_robin prio (c, qs) = (n, qs')"
  shows "\<exists>s'. Schedule exit_thread run (Suc fuel) s = Inr s' \<and> sem_system F D prio lim s' (n, qs', ws, cnt)"
proof (cases "highest (prio c) qs")
  note d = sem_systemD [OF sys]
  case None
  let ?s = "set_tcb c (\<lambda>t. t\<lparr>tcb_WaitIrql := CurrentIrql s\<rparr>) s"
  have "n = c" "qs' = qs" using step None by (simp_all add: round_robin_def)
  moreover have "t \<noteq> c" if "t \<in> queued qs []" for t using that runningD(2) [OF d(1)] by auto
  then have "sem_system F D prio lim ?s (c, qs, ws, cnt)"
    using d running_set_WaitIrql [OF d(1)] wait_lists_cong [OF d(2) same_waits_upd(1)]
    unfolding sem_system_def by (auto simp: set_tcb_def)
  ultimately show ?thesis using Schedule_stay [OF d(1)] None d(9) by auto
next
  note d = sem_systemD [OF sys]
  case (Some p)
  then obtain m ns where q: "qs ! p = m # ns" and p: "p < 7" by (auto simp: highest_Some neq_Nil_conv)
  let ?q1 = "qs[p := ns]"
  have n: "n = m" "qs' = ?q1[prio c := ?q1 ! prio c @ [c]]" using step Some q by (simp_all add: round_robin_def Let_def)
  have len: "length qs = 7" and pc: "prio c < 7" using runningD(5,10) [OF d(1)] d(9) [of c] by simp_all
  have mq: "m \<in> queued qs []" using q p len by (intro queued_nth [of p]) auto
  have sub: "queued qs' [] \<subseteq> insert c (queued qs [])"
    using queued_update [of "prio c" ?q1 "?q1 ! prio c @ [c]" "[]"] queued_update [of p qs ns "[]"] queued_nth [of p qs _ "[]"]
      queued_nth [of "prio c" ?q1 _ "[]"] q p pc len unfolding n(2) by fastforce
  obtain s' where s': "Schedule exit_thread run (Suc fuel) s = Inr s'" "m \<noteq> c" "running F s' m qs'" "same_waits s s'"
    "Tcbs s' = (Tcbs s)(m := Tcbs s m\<lparr>tcb_State := THREAD_STATE_RUNNING\<rparr>,
      c := Tcbs s c\<lparr>tcb_WaitIrql := CurrentIrql s, tcb_State := THREAD_STATE_READY,
        tcb_Quantum := pcb_Quantum (Pcbs s (the (tcb_ThreadProcess (Tcbs s c)))), tcb_StackPointer := InSchedule\<rparr>)"
    "Some (CurrentIrql s') = resume_irql (tcb_StackPointer (Tcbs s m)) (Tcbs s m)"
    using Schedule_switch [OF d(1), of p m ns exit_thread run fuel] Some q d(9) n(2) by (auto simp: Let_def)
  have "CurrentIrql s' \<le> APC_LEVEL" using d(4) [OF mq] s'(6) by (auto simp: low_def)
  moreover have "low (Tcbs s' t)" if "t \<in> queued qs' []" for t
  proof (cases "t = c")
    case True
    then show ?thesis using d(3) by (simp add: s'(5) low_def)
  next
    case False
    then have "t \<in> queued qs []" "t \<noteq> m" using that sub runningD(2) [OF s'(3)] by auto
    then show ?thesis using False d(4) by (simp add: s'(5))
  qed
  moreover have "waiting (Tcbs s' t)" if "e \<in> D" "t \<in> set (ws e)" for e t
    using d(5,10) [OF that] mq by (auto simp: s'(5))
  moreover have "tcb_Priority (Tcbs s' t) = prio t" for t using d(9) by (simp add: s'(5))
  ultimately have "sem_system F D prio lim s' (n, qs', ws, cnt)"
    using s'(3,4) d(6-8) wait_lists_cong [OF d(2) s'(4)] unfolding sem_system_def n(1) by (auto simp: same_waits_def)
  then show ?thesis using s'(1) by blast
qed

lemma sem_wait:
  assumes sys: "sem_system F D prio lim s (c, qs, ws, cnt)" and D: "e \<in> D" and step: "sem_spec prio lim (Wait e) (c, qs, ws, cnt) = Some a"
  shows "\<exists>s'. KeWaitForSingleObject exit_thread run (Suc fuel) e s = Inr s' \<and> sem_system F D prio lim s' a"
proof (cases "0 < cnt e")
  note d = sem_systemD [OF sys]
  case True
  let ?f = "\<lambda>h. h\<lparr>dh_SignalState := dh_SignalState h - 1\<rparr>"
  have sig: "0 < sint (dh_SignalState (DHeaders s e))" using d(7) [OF D] True by simp
  obtain s' where s': "KeWaitForSingleObject exit_thread run (Suc fuel) e s = Inr s'" "running F s' c qs" "Tcbs s' = Tcbs s"
    "same_waits (set_dheader e ?f s) s'" "CurrentIrql s' = CurrentIrql s"
    using wait_satisfied [OF d(1) sig d(3), of exit_thread run fuel] d(6) [OF D] by auto
  have "ws e = []" using sig d(2) D by (auto simp: wait_lists_def)
  then have "wait_lists D (set_dheader e ?f s) ws"
    using wait_lists_signal [OF d(2) D, of "dh_SignalState (DHeaders s e) - 1"] sig
    by (simp add: sint_pred set_dheader_def)
  then have "wait_lists D s' ws" using s'(4) by (rule wait_lists_cong)
  moreover have h: "DHeaders s' = (DHeaders s)(e := ?f (DHeaders s e))" "SemaphoreLimit s' = SemaphoreLimit s"
    using s'(4) by (simp_all add: same_waits_def waits_as_set_waits)
  have "a = (c, qs, ws, cnt(e := cnt e - 1))" using step True by simp
  ultimately have "sem_system F D prio lim s' a"
    using s'(2,3,5) d sig unfolding sem_system_def by (auto simp: h sint_pred)
  then show ?thesis using s'(1) by blast
next
  note d = sem_systemD [OF sys]
  case False
  then obtain p where p: "highest 1 qs = Some p" using step by (auto split: option.splits)
  then obtain m ns where q: "qs ! p = m # ns" by (auto simp: highest_Some neq_Nil_conv)
  have a: "a = (m, qs[p := ns], ws(e := ws e @ [c]), cnt)" using step False p q by simp
  have "0 \<le> sint (dh_SignalState (DHeaders s e))" using d(2) D by (simp add: wait_lists_def)
  then have z: "dh_SignalState (DHeaders s e) = 0" using d(7) [OF D] False by (simp add: signed_eq_0_iff)
  have out: "\<And>x. x \<in> D \<Longrightarrow> c \<notin> set (ws x)" using d(10) by blast
  have ty: "dh_Type (DHeaders s e) \<in> {ThreadObject, ProcessObject, SemaphoreObject, EventNotificationObject, EventSynchronizationObject}"
    using d(6) [OF D] by simp
  from wait_blocks [OF d(1,2) D z ty d(3) out p q, of exit_thread run fuel] obtain s' where
    s': "KeWaitForSingleObject exit_thread run (Suc fuel) e s = Inr s'" "m \<noteq> c" "m \<in> queued qs []" "running F s' m (qs[p := ns])"
      "wait_lists D s' (ws(e := ws e @ [c]))" "Tcbs s' = (Tcbs s)(m := Tcbs s m\<lparr>tcb_State := THREAD_STATE_RUNNING\<rparr>,
        c := Tcbs s c\<lparr>tcb_State := THREAD_STATE_WAITING, tcb_StackPointer := InWait e (CurrentIrql s)\<rparr>)"
      "Some (CurrentIrql s') = resume_irql (tcb_StackPointer (Tcbs s m)) (Tcbs s m)"
      "\<And>x. dh_Type (DHeaders s' x) = dh_Type (DHeaders s x) \<and> dh_SignalState (DHeaders s' x) = dh_SignalState (DHeaders s x)"
      "SemaphoreLimit s' = SemaphoreLimit s" "queued (qs[p := ns]) [] \<subseteq> queued qs []" by blast
  have "CurrentIrql s' \<le> APC_LEVEL" using d(4) [OF s'(3)] s'(7) by (auto simp: low_def)
  moreover have "low (Tcbs s' t)" if "t \<in> queued (qs[p := ns]) []" for t
  proof -
    have "t \<in> queued qs []" "t \<noteq> m" "t \<noteq> c" using that s'(10) runningD(2) [OF s'(4)] runningD(2) [OF d(1)] by auto
    then show ?thesis using d(4) by (simp add: s'(6))
  qed
  moreover have "waiting (Tcbs s' t)" if "x \<in> D" "t \<in> set ((ws(e := ws e @ [c])) x)" for x t
  proof (cases "t = c")
    case True
    then show ?thesis using runningD(4,5,8) [OF d(1)] d(3) by (simp add: s'(6) waiting_def low_def)
  next
    case False
    then have "t \<in> set (ws x)" using that(2) by (auto split: if_splits)
    then show ?thesis using False d(5,10) [OF that(1)] s'(3) by (auto simp: s'(6))
  qed
  moreover have "tcb_Priority (Tcbs s' t) = prio t" for t using d(9) by (simp add: s'(6))
  ultimately have "sem_system F D prio lim s' a"
    using s'(4,5,8,9) d(6-8) unfolding sem_system_def a by auto
  then show ?thesis using s'(1) by blast
qed

lemma sem_release_locked:
  assumes sys: "sem_system F D prio lim s (c, qs, ws, cnt)" and D: "e \<in> D" and step: "sem_spec prio lim (Release e) (c, qs, ws, cnt) = Some a"
    and sw1: "switchable F s1 qs" and s1: "Tcbs s1 = Tcbs s" "CurrentThread s1 = Some c" and w1: "same_waits s s1"
  shows "\<exists>s2 qs' ws' cnt'. KiDHeaderRelease (Suc fuel) e s1 = Inr s2 \<and> a = (c, qs', ws', cnt') \<and> switchable F s2 qs' \<and> wait_lists D s2 ws' \<and>
    CurrentThread s2 = Some c \<and> SemaphoreLimit s2 = SemaphoreLimit s \<and>
    (\<forall>x \<in> D. dh_Type (DHeaders s2 x) = SemaphoreObject \<and> sint (dh_SignalState (DHeaders s2 x)) = cnt' x) \<and>
    (\<forall>t \<in> queued qs' []. low (Tcbs s2 t) \<and> tcb_ThreadProcess (Tcbs s2 t) \<noteq> None) \<and> c \<notin> queued qs' [] \<and> Tcbs s2 c = Tcbs s c \<and>
    (\<forall>x \<in> D. \<forall>t \<in> set (ws' x). waiting (Tcbs s2 t)) \<and> (\<forall>t. tcb_Priority (Tcbs s2 t) = prio t)"
proof -
  note d = sem_systemD [OF sys] and c = runningD [OF sem_systemD(1) [OF sys]]
  have small: "cnt e < lim e" "cnt e < 100" using step by (auto split: if_splits)
  have f1: "DHeaders s1 = DHeaders s" "SemaphoreLimit s1 = SemaphoreLimit s" using w1 by (simp_all add: same_waits_def)
  have wl1: "wait_lists D s1 ws" by (rule wait_lists_cong [OF d(2) w1])
  have nn: "0 \<le> cnt e" using d(2) d(7) [OF D] D by (auto simp: wait_lists_def)
  show ?thesis
  proof (cases "ws e")
    case Nil
    let ?s2 = "set_dheader e (\<lambda>h. h\<lparr>dh_SignalState := dh_SignalState h + 1\<rparr>) s1"
    have "KiDHeaderRelease (Suc fuel) e s1 = Inr ?s2"
      using release_ok [OF _ wl1 D, of "Suc fuel"] sw1 Nil small d(7) [OF D] f1 by (simp add: switchable_def)
    moreover have "wait_lists D ?s2 ws"
      using wait_lists_signal [OF wl1 D Nil, of "dh_SignalState (DHeaders s e) + 1"] small nn d(7) [OF D] f1
      by (simp add: sint_Suc set_dheader_def)
    moreover have "a = (c, qs, ws, cnt(e := cnt e + 1))" using step Nil small by simp
    ultimately show ?thesis
      using sw1 d(4-9) c small nn s1 f1 sint_Suc [of "dh_SignalState (DHeaders s e)"] D
      by (intro exI [of _ ?s2] exI [of _ qs] exI [of _ ws] exI [of _ "cnt(e := cnt e + 1)"]) (simp add: waits_as_set_waits)
  next
    case (Cons t ts)
    have t: "waiting (Tcbs s1 t)" "t \<notin> queued qs []" "t \<noteq> c" using d(5,10) [OF D, of t] Cons by (auto simp: s1)
    have p: "prio t = tcb_Priority (Tcbs s1 t)" using d(9) by (simp add: s1)
    have a: "a = (c, qs[prio t := qs ! prio t @ [t]], ws(e := ts), cnt)" using step Cons small by simp
    from release_first [OF sw1 wl1 D Cons t(1,2) p, of False "Suc fuel"] obtain s2 where
      s2: "release_one False (Suc fuel) e s1 = Inr s2" "switchable F s2 (qs[prio t := qs ! prio t @ [t]])" "wait_lists D s2 (ws(e := ts))"
        "Tcbs s2 = (Tcbs s)(t := Tcbs s t\<lparr>tcb_State := THREAD_STATE_READY,
          tcb_Quantum := pcb_Quantum (Pcbs s1 (the (tcb_ThreadProcess (Tcbs s t))))\<rparr>)"
        "CurrentThread s2 = Some c" "SemaphoreLimit s2 = SemaphoreLimit s" "queued (qs[prio t := qs ! prio t @ [t]]) [] \<subseteq> insert t (queued qs [])"
        "\<And>x. dh_Type (DHeaders s2 x) = dh_Type (DHeaders s x) \<and> dh_SignalState (DHeaders s2 x) = dh_SignalState (DHeaders s x)"
      by (auto simp: s1 f1)
    have "KiDHeaderRelease (Suc fuel) e s1 = Inr s2"
      using release_ok [OF _ wl1 D, of "Suc fuel"] sw1 Cons small d(7) [OF D] f1 s2(1) by (simp add: switchable_def)
    moreover have low: "low (Tcbs s2 u) \<and> tcb_ThreadProcess (Tcbs s2 u) \<noteq> None" if "u \<in> queued (qs[prio t := qs ! prio t @ [t]]) []" for u
    proof (cases "u = t")
      case True
      obtain i where "resume_irql (tcb_StackPointer (Tcbs s t)) (Tcbs s t) = Some i" "i \<le> APC_LEVEL"
        using t(1) by (auto simp: waiting_def low_def s1)
      moreover from this have "resume_irql (tcb_StackPointer (Tcbs s2 t)) (Tcbs s2 t) = Some i"
        by (cases "tcb_StackPointer (Tcbs s t)") (auto simp: s2(4))
      ultimately show ?thesis using True t(1) by (simp add: low_def) (simp add: s2(4) waiting_def s1)
    next
      case False
      then have "u \<in> queued qs []" using that s2(7) by auto
      then show ?thesis using False d(4) c(8) by (simp add: s2(4))
    qed
    moreover have "waiting (Tcbs s2 u)" if "x \<in> D" "u \<in> set ((ws(e := ts)) x)" for x u
    proof -
      have "distinct (map block (ws e))" using d(2) D by (simp add: wait_lists_def klist_rep_def ring_def)
      then have "t \<notin> set ts" by (auto simp: Cons)
      moreover have "t \<notin> set (ws x)" if "x \<noteq> e"
        using d(2) D \<open>x \<in> D\<close> that Cons by (auto simp: wait_lists_def)
      ultimately have "u \<noteq> t" "u \<in> set (ws x)" using that(2) Cons by (auto split: if_splits)
      then show ?thesis using d(5) [OF that(1)] by (simp add: s2(4))
    qed
    moreover have "c \<notin> queued (qs[prio t := qs ! prio t @ [t]]) []" using s2(7) c(2) t(3) by auto
    ultimately show ?thesis
      using s2 d(6,7,9) t(3) a by (intro exI [of _ s2] exI [of _ "qs[prio t := qs ! prio t @ [t]]"] exI [of _ "ws(e := ts)"] exI [of _ cnt]) auto
  qed
qed

lemma sem_release:
  assumes sys: "sem_system F D prio lim s (c, qs, ws, cnt)" and D: "e \<in> D" and step: "sem_spec prio lim (Release e) (c, qs, ws, cnt) = Some a"
  shows "\<exists>s'. KeReleaseSemaphore run (Suc fuel) e 0 1 s = Inr (dh_SignalState (DHeaders s e), s') \<and> sem_system F D prio lim s' a"
proof -
  note d = sem_systemD [OF sys]
  note c = runningD [OF d(1)]
  have small: "cnt e < lim e" "cnt e < 100" using step by (auto split: if_splits)
  define s1 where "s1 = hold DispatcherDataBaseLock (CurrentIrql s) (at_irql DISPATCH_LEVEL s)"
  have lock: "KiLockDispatcherDataBase s = Inr (CurrentIrql s, s1)" and sw1: "switchable F s1 qs"
    using running_lock [OF d(1)] by (simp_all add: s1_def)
  have s1: "Tcbs s1 = Tcbs s" "CurrentThread s1 = Some c" using c(1) by (simp_all add: s1_def)
  have w1: "same_waits s s1" unfolding s1_def by (rule locked_waits)
  from sem_release_locked [OF sys D step sw1 s1 w1, of fuel] obtain s2 qs' ws' cnt' where s2: "KiDHeaderRelease (Suc fuel) e s1 = Inr s2" "a = (c, qs', ws', cnt')" "switchable F s2 qs'"
    "wait_lists D s2 ws'" "CurrentThread s2 = Some c" "SemaphoreLimit s2 = SemaphoreLimit s"
    "\<And>x. x \<in> D \<Longrightarrow> dh_Type (DHeaders s2 x) = SemaphoreObject \<and> sint (dh_SignalState (DHeaders s2 x)) = cnt' x"
    "\<And>t. t \<in> queued qs' [] \<Longrightarrow> low (Tcbs s2 t) \<and> tcb_ThreadProcess (Tcbs s2 t) \<noteq> None" "c \<notin> queued qs' []" "Tcbs s2 c = Tcbs s c"
    "\<And>x t. x \<in> D \<Longrightarrow> t \<in> set (ws' x) \<Longrightarrow> waiting (Tcbs s2 t)" "\<And>t. tcb_Priority (Tcbs s2 t) = prio t" by blast
  let ?s3 = "at_irql (CurrentIrql s) (set_lock DispatcherDataBaseLock (\<lambda>_. free_lock) s2)"
  have pc: "\<And>t. t \<in> insert c (queued qs' []) \<Longrightarrow> tcb_ThreadProcess (Tcbs s2 t) \<noteq> None" using s2(8,10) c(8) by auto
  have un: "KiUnLockDispatcherDataBase run (Suc fuel) (CurrentIrql s) s2 = Inr ?s3" "running F ?s3 c qs'"
    using unlock_running [OF s2(3,5,9)] s2(8,10) c low_can_resume pc by simp_all
  have "KeReleaseSemaphore run (Suc fuel) e 0 1 s = Inr (dh_SignalState (DHeaders s e), ?s3)"
    using lock s2(1) un(1) small d(7,8) [OF D] by (simp add: KeReleaseSemaphore_def Let_def)
  moreover have f3: "same_waits s2 ?s3" by (rule unlocked_waits)
  then have "DHeaders ?s3 = DHeaders s2" "SemaphoreLimit ?s3 = SemaphoreLimit s" using s2(6) by (simp_all add: same_waits_def)
  then have "sem_system F D prio lim ?s3 a"
    using un(2) wait_lists_cong [OF s2(4) f3] d(3,8) s2 unfolding sem_system_def by simp
  ultimately show ?thesis by blast
qed

interpretation semaphores: simulation "sem_kernel exit_thread run (Suc fuel)" "sem_spec prio lim" "op_on D" "sem_system F D prio lim"
  for exit_thread :: "'a sched_state_scheme thread_routine" and run fuel prio lim D F
proof
  fix s :: "'a sched_state_scheme" and a x a'
  assume sys: "sem_system F D prio lim s a" and on: "op_on D x" and st: "sem_spec prio lim x a = Some a'"
  obtain c qs ws cnt where a: "a = (c, qs, ws, cnt)" by (cases a)
  show "\<exists>s'. sem_kernel exit_thread run (Suc fuel) x s = Inr s' \<and> sem_system F D prio lim s' a'"
  proof (cases x)
    case Yield
    then show ?thesis
      using sem_yield [OF sys [unfolded a], of "fst (round_robin prio (c, qs))" "snd (round_robin prio (c, qs))"] st
      by (auto simp: a split: prod.splits)
  next
    case (Wait d)
    then show ?thesis using sem_wait [OF sys [unfolded a]] on st by (simp add: a op_on_def)
  next
    case (Release d)
    from sem_release [OF sys [unfolded a], of d a' run fuel] on st obtain s' where
      "KeReleaseSemaphore run (Suc fuel) d 0 1 s = Inr (dh_SignalState (DHeaders s d), s')" "sem_system F D prio lim s' a'"
      by (auto simp: a Release op_on_def simp del: sem_spec.simps)
    then show ?thesis by (simp add: Release)
  qed
qed

lemma sem_spec_units:
  assumes "sem_spec prio lim x (c, qs, ws, cnt) = Some (c', qs', ws', cnt')"
  shows "cnt' d - int (length (ws' d)) = cnt d - int (length (ws d)) + (if x = Release d then 1 else 0) - (if x = Wait d then 1 else 0)"
  using assms by (cases x) (auto split: prod.splits if_splits option.splits list.splits)

lemma sem_run_units:
  assumes "spec_run (sem_spec prio lim) xs (c, qs, ws, cnt) = Some (c', qs', ws', cnt')"
  shows "cnt' d - int (length (ws' d)) = cnt d - int (length (ws d)) + int (count_list xs (Release d)) - int (count_list xs (Wait d))"
  using assms
proof (induction xs arbitrary: c qs ws cnt)
  case (Cons x xs)
  then obtain a where a: "sem_spec prio lim x (c, qs, ws, cnt) = Some a" "spec_run (sem_spec prio lim) xs a = Some (c', qs', ws', cnt')"
    by (auto split: option.splits)
  obtain c1 qs1 ws1 cnt1 where a1: "a = (c1, qs1, ws1, cnt1)" by (cases a)
  show ?case using Cons.IH [OF a(2) [unfolded a1]] sem_spec_units [OF a(1) [unfolded a1], of d] by (auto simp: algebra_simps)
qed simp

definition all_ready :: "(kthread \<Rightarrow> PROCESS_PRIORITY) \<Rightarrow> kthread list \<Rightarrow> kthread list list \<Rightarrow> kthread list list" where
  "all_ready prio ts qs = fold (\<lambda>t qs. qs[prio t := qs ! prio t @ [t]]) ts qs"

lemma sem_run_releases:
  assumes "cnt d < lim d" "cnt d < 100" "k \<le> length (ws d)"
  shows "spec_run (sem_spec prio lim) (replicate k (Release d)) (c, qs, ws, cnt) =
    Some (c, all_ready prio (take k (ws d)) qs, ws(d := drop k (ws d)), cnt)"
  using assms
proof (induction k arbitrary: qs ws)
  case (Suc k)
  then obtain t ts where w: "ws d = t # ts" by (cases "ws d") auto
  let ?ws = "ws(d := ts)" and ?qs = "qs[prio t := qs ! prio t @ [t]]"
  have "spec_run (sem_spec prio lim) (replicate k (Release d)) (c, ?qs, ?ws, cnt) =
      Some (c, all_ready prio (take k (?ws d)) ?qs, ?ws(d := drop k (?ws d)), cnt)"
    using Suc w by (intro Suc.IH) simp_all
  then show ?case using Suc.prems w by (auto simp: all_ready_def fun_eq_iff)
qed (simp add: all_ready_def)

lemma all_ready_in:
  assumes "t \<in> set ts" "prio t < length qs"
  shows "t \<in> set (all_ready prio ts qs ! prio t)"
proof -
  have keep: "t \<in> set (qs ! prio t) \<Longrightarrow> prio t < length qs \<Longrightarrow> t \<in> set (all_ready prio ts qs ! prio t)" for ts qs
  proof (induction ts arbitrary: qs)
    case (Cons u us)
    then show ?case using Cons.IH [of "qs[prio u := qs ! prio u @ [u]]"]
      by (cases "prio u = prio t") (auto simp: all_ready_def)
  qed (simp add: all_ready_def)
  show ?thesis
    using assms
  proof (induction ts arbitrary: qs)
    case (Cons u us)
    then show ?case using Cons.IH [of "qs[prio u := qs ! prio u @ [u]]"] keep [of "qs[prio u := qs ! prio u @ [u]]" us]
      by (cases "t = u") (auto simp: all_ready_def)
  qed simp
qed

section \<open>Mutants and events\<close>

text \<open>\<open>KeWaitForSingleObject\<close> on a free mutant and \<open>KeReleaseMutant\<close>, of a running thread.\<close>

lemma mutant_acquire:
  assumes r: "running F s c qs" and low: "CurrentIrql s \<le> APC_LEVEL" and m: "dh_Type (DHeaders s d) = MutantObject"
    "dh_SignalState (DHeaders s d) = 1" "OwnerThread s d = None"
  shows "\<exists>s'. KeWaitForSingleObject exit_thread run (Suc fuel) d s = Inr s' \<and> running F s' c qs \<and> Tcbs s' = Tcbs s \<and>
    same_waits (set_dheader d (\<lambda>h. h\<lparr>dh_SignalState := 0\<rparr>) s) s' \<and> CurrentIrql s' = CurrentIrql s \<and>
    OwnerThread s' = (OwnerThread s)(d := Some c) \<and> same_rest s s'"
proof -
  note c = runningD [OF r]
  define s1 where "s1 = hold DispatcherDataBaseLock (CurrentIrql s) (at_irql DISPATCH_LEVEL s)"
  have lock: "KiLockDispatcherDataBase s = Inr (CurrentIrql s, s1)" and sw1: "switchable F s1 qs"
    using running_lock [OF r] by (simp_all add: s1_def)
  have s1: "Tcbs s1 = Tcbs s" "CurrentThread s1 = Some c" "OwnerThread s1 = OwnerThread s"
    using c(1) by (simp_all add: s1_def hold_def set_lock_def at_irql_def)
  have w1: "same_waits s s1" unfolding s1_def by (rule locked_waits)
  then have f1: "DHeaders s1 = DHeaders s" by (simp add: same_waits_def)
  define s2 where "s2 = set_dheader d (\<lambda>h. h\<lparr>dh_SignalState := 0\<rparr>) s1"
  let ?o = "s2\<lparr>OwnerThread := (OwnerThread s)(d := Some c)\<rparr>"
  have "switchable F s2 qs" using sw1 by (simp add: s2_def waits_as_set_waits)
  then have sw2: "switchable F ?o qs"
    using spaces_ok_cong [of F s2 ?o] by (auto simp: switchable_def sched_ok_def dispatcher_held_def hal_ok_def)
  have s2: "Tcbs s2 = Tcbs s" "CurrentThread s2 = Some c" "OwnerThread s2 = OwnerThread s"
    "dh_Type (DHeaders s2 d) = MutantObject" using s1 m(1) by (simp_all add: s2_def waits_as_set_waits f1)
  let ?s3 = "at_irql (CurrentIrql s) (set_lock DispatcherDataBaseLock (\<lambda>_. free_lock) ?o)"
  have un: "KiUnLockDispatcherDataBase run (Suc fuel) (CurrentIrql s) ?o = Inr ?s3" "running F ?s3 c qs"
    using unlock_running(1) [OF sw2, where c = c and i = "CurrentIrql s" and run = run and fuel = fuel]
      unlock_running(2) [OF sw2, where c = c and i = "CurrentIrql s"] c by (simp_all add: s2)
  have "KeGetCurrentIrql s1 = Inr DISPATCH_LEVEL" using sw1 by (simp add: switchable_def dispatcher_held_def hal_ok_irql)
  then have "KiDHeaderAcquire here d s1 = Inr (False, s2)" for here
    using m(2) by (simp add: KiDHeaderAcquire_def f1 s2_def InterlockedDecrement_def InterlockedExchangeAdd_def set_dheader_def)
  then have "KeWaitForSingleObject exit_thread run (Suc fuel) d s = Inr ?s3"
    using lock low c(7) m un(1) s1 s2 f1
    by (simp add: KeWaitForSingleObject_def hal_ok_irql Let_def wait_tail_def KeGetCurrentThread_def)
  moreover have "same_rest s ?s3" by (simp add: s2_def s1_def)
  moreover have "same_waits (set_dheader d (\<lambda>h. h\<lparr>dh_SignalState := 0\<rparr>) s) ?o"
    using w1 by (simp add: same_waits_def s2_def waits_as_set_waits)
  then have "same_waits (set_dheader d (\<lambda>h. h\<lparr>dh_SignalState := 0\<rparr>) s) ?s3" using unlocked_waits by (rule same_waits_trans)
  ultimately show ?thesis using un(2) s2 by (intro exI [of _ ?s3]) (simp add: at_irql_def set_lock_def)
qed

lemma release_no_waiter:
  assumes sw: "switchable F s qs" and e: "LIST_EMPTY (dh_WaitListHead (DHeaders s d))"
    and v: "sint (dh_SignalState (DHeaders s d)) < 100"
  shows "KiDHeaderRelease fuel d s = Inr (set_dheader d (\<lambda>h. h\<lparr>dh_SignalState := dh_SignalState h + 1\<rparr>) s)"
    and "KiDHeaderReleaseAll fuel d s = Inr (set_dheader d (\<lambda>h. h\<lparr>dh_SignalState := 1\<rparr>) s)"
proof -
  have *: "ASSERT_release msg d s k = k" for msg and k :: "fault + 'b"
    using assms by (simp add: ASSERT_release_def switchable_def dispatcher_held_def hal_ok_irql)
  show "KiDHeaderRelease fuel d s = Inr (set_dheader d (\<lambda>h. h\<lparr>dh_SignalState := dh_SignalState h + 1\<rparr>) s)"
    using e by (simp add: KiDHeaderRelease_def * InterlockedIncrement_def InterlockedExchangeAdd_def)
  have "release_loop fuel fuel d s = Inr s" using e by (cases fuel) simp_all
  then show "KiDHeaderReleaseAll fuel d s = Inr (set_dheader d (\<lambda>h. h\<lparr>dh_SignalState := 1\<rparr>) s)"
    by (simp add: KiDHeaderReleaseAll_def *)
qed

lemma under_database_lock:
  assumes r: "running F s c qs"
    and f: "\<And>s1. switchable F s1 qs \<Longrightarrow> same_waits s s1 \<Longrightarrow> OwnerThread s1 = OwnerThread s \<Longrightarrow>
      \<exists>v. f s1 = Inr (x, set_dheader d (\<lambda>h. h\<lparr>dh_SignalState := v\<rparr>) s1) \<and> P v"
  shows "\<exists>s' v. bind (KiLockDispatcherDataBase s) (\<lambda>(Old, s). bind (f s) (\<lambda>(y, s).
      bind (KiUnLockDispatcherDataBase run (Suc fuel) Old s) (\<lambda>s. Inr (y, s)))) = Inr (x, s') \<and> running F s' c qs \<and> Tcbs s' = Tcbs s \<and>
    same_waits (set_dheader d (\<lambda>h. h\<lparr>dh_SignalState := v\<rparr>) s) s' \<and> CurrentIrql s' = CurrentIrql s \<and>
    OwnerThread s' = OwnerThread s \<and> P v \<and> same_rest s s'"
proof -
  note c = runningD [OF r]
  define s1 where "s1 = hold DispatcherDataBaseLock (CurrentIrql s) (at_irql DISPATCH_LEVEL s)"
  have lock: "KiLockDispatcherDataBase s = Inr (CurrentIrql s, s1)" and sw1: "switchable F s1 qs"
    using running_lock [OF r] by (simp_all add: s1_def)
  have s1: "Tcbs s1 = Tcbs s" "CurrentThread s1 = Some c" "OwnerThread s1 = OwnerThread s"
    using c(1) by (simp_all add: s1_def hold_def set_lock_def at_irql_def)
  have w1: "same_waits s s1" unfolding s1_def by (rule locked_waits)
  obtain v where v: "f s1 = Inr (x, set_dheader d (\<lambda>h. h\<lparr>dh_SignalState := v\<rparr>) s1)" "P v" using f [OF sw1 w1 s1(3)] by blast
  let ?s2 = "set_dheader d (\<lambda>h. h\<lparr>dh_SignalState := v\<rparr>) s1"
  let ?s3 = "at_irql (CurrentIrql s) (set_lock DispatcherDataBaseLock (\<lambda>_. free_lock) ?s2)"
  have sw2: "switchable F ?s2 qs" using sw1 by (simp add: waits_as_set_waits)
  have s2: "Tcbs ?s2 = Tcbs s" "CurrentThread ?s2 = Some c" "OwnerThread ?s2 = OwnerThread s"
    using s1 by (simp_all add: waits_as_set_waits)
  have un: "KiUnLockDispatcherDataBase run (Suc fuel) (CurrentIrql s) ?s2 = Inr ?s3" "running F ?s3 c qs"
    using unlock_running(1) [OF sw2, where c = c and i = "CurrentIrql s" and run = run and fuel = fuel]
      unlock_running(2) [OF sw2, where c = c and i = "CurrentIrql s"] c by (simp_all add: s2)
  have m: "same_rest s ?s3" by (simp add: s1_def)
  have "same_waits (set_dheader d (\<lambda>h. h\<lparr>dh_SignalState := v\<rparr>) s) ?s2"
    using w1 by (simp add: same_waits_def waits_as_set_waits)
  then have "same_waits (set_dheader d (\<lambda>h. h\<lparr>dh_SignalState := v\<rparr>) s) ?s3" using unlocked_waits by (rule same_waits_trans)
  then show ?thesis
    using lock v un s2 m by (intro exI [of _ ?s3] exI [of _ v]) (simp add: at_irql_def set_lock_def)
qed

lemma mutant_release:
  assumes r: "running F s c qs" and m: "OwnerThread s d = Some c" "dh_SignalState (DHeaders s d) = 0" "LIST_EMPTY (dh_WaitListHead (DHeaders s d))"
  shows "\<exists>s'. KeReleaseMutant run (Suc fuel) d s = Inr s' \<and> running F s' c qs \<and> Tcbs s' = Tcbs s \<and>
    DHeaders s' = (DHeaders s)(d := DHeaders s d\<lparr>dh_SignalState := 1\<rparr>) \<and> OwnerThread s' = (OwnerThread s)(d := None) \<and> same_rest s s'"
proof -
  let ?t = "s\<lparr>OwnerThread := (OwnerThread s)(d := None)\<rparr>"
  have "spaces_ok F ?t" using r spaces_ok_cong [of F s ?t] by (simp add: running_def)
  then have t: "running F ?t c qs" using r by (simp add: running_def sched_ok_def hal_ok_def)
  have rel: "\<exists>v. bind (KiDHeaderRelease (Suc fuel) d u) (\<lambda>s. Inr ((), s)) = Inr ((), set_dheader d (\<lambda>h. h\<lparr>dh_SignalState := v\<rparr>) u) \<and> v = 1"
    if "switchable F u qs" "same_waits ?t u" for u
  proof -
    have "DHeaders u d = DHeaders s d" using that(2) by (simp add: same_waits_def)
    then show ?thesis
      using release_no_waiter(1) [OF that(1), of d "Suc fuel"] m by (simp add: set_dheader_def)
  qed
  from under_database_lock [OF t rel, of run fuel] obtain s' where
    s': "bind (KiLockDispatcherDataBase ?t) (\<lambda>(Old, s). bind (bind (KiDHeaderRelease (Suc fuel) d s) (\<lambda>s. Inr ((), s))) (\<lambda>(y, s).
        bind (KiUnLockDispatcherDataBase run (Suc fuel) Old s) (\<lambda>s. Inr (y, s)))) = Inr ((), s')" "running F s' c qs" "Tcbs s' = Tcbs ?t"
      "DHeaders s' = (DHeaders s)(d := DHeaders s d\<lparr>dh_SignalState := 1\<rparr>)" "OwnerThread s' = OwnerThread ?t" "same_rest ?t s'"
    by (auto simp: same_waits_def waits_as_set_waits)
  have "KeReleaseMutant run (Suc fuel) d s = Inr s'"
    using s'(1) r m(1) by (auto simp: KeReleaseMutant_def KeGetCurrentThread_def running_def bind_assoc bind_eq_Inr Let_def)
  moreover have "same_rest s s'" using s'(6) by (simp add: same_rest_def)
  ultimately show ?thesis using s' by (intro exI [of _ s']) simp
qed

section \<open>Properties\<close>

lemma three_threads_semaphores:
  "sem_system (\<lambda>_. 0x1000) UNIV (\<lambda>_. 3) (\<lambda>_. 5) three_threads (1, [[], [], [], [2, 3], [], [], []], \<lambda>_. [], \<lambda>_. 0)"
  using three_threads_running
  by (auto simp: sem_system_def wait_lists_def wait_list_def klist_rep_def LIST_INIT_def LIST_EMPTY_def small_tcb_def low_def)

text \<open>C2. Waiting on semaphores, releasing them and yielding refine the semaphore specification: every
  sequence of operations the specification allows runs without a fault, whichever threads it switches
  between, and ends in the state the specification gives.\<close>

theorem semaphore_refinement:
  assumes "sem_system F D prio lim s a" and "\<forall>x \<in> set ops. op_on D x" and "spec_run (sem_spec prio lim) ops a = Some a'"
  shows "\<exists>s'. foldE (sem_kernel exit_thread run (Suc fuel)) ops s = Inr s' \<and> sem_system F D prio lim s' a'"
  using assms by (rule semaphores.run)

theorem semaphore_refinement_witness:
  "\<exists>s'. foldE (sem_kernel (\<lambda>_. Inr) no_dpcs 1) [Wait (ObjectHeader 0), Release (ObjectHeader 0), Yield] three_threads = Inr s' \<and>
     sem_system (\<lambda>_. 0x1000) UNIV (\<lambda>_. 3) (\<lambda>_. 5) s' (3, [[], [], [], [1, 2], [], [], []], \<lambda>_. [], \<lambda>_. 0)"
proof -
  have h: "highest 1 [[], [], [], [2, 3], [], [], []] = Some 3" "highest 3 [[], [], [], [3, 1], [], [], []] = Some 3"
    by (auto simp: highest_Some less_Suc_eq numeral_nat)
  have "spec_run (sem_spec (\<lambda>_. 3) (\<lambda>_. 5)) [Wait (ObjectHeader 0), Release (ObjectHeader 0), Yield]
      (1, [[], [], [], [2, 3], [], [], []], \<lambda>_. [], \<lambda>_. 0) = Some (3, [[], [], [], [1, 2], [], [], []], \<lambda>_. [], \<lambda>_. 0)"
    using h by (auto simp: round_robin_def Let_def fun_eq_iff)
  from semaphore_refinement [OF three_threads_semaphores _ this, of "\<lambda>_. Inr" no_dpcs 0] show ?thesis
    by (simp add: op_on_def)
qed

text \<open>Units of a semaphore are neither lost nor made: over any such run the count minus the number of
  waiting threads changes by the releases minus the waits, and nobody waits while a unit is there.\<close>

theorem semaphore_conservation:
  assumes "sem_system F D prio lim s (c, qs, ws, cnt)" and "\<forall>x \<in> set ops. op_on D x"
    and "spec_run (sem_spec prio lim) ops (c, qs, ws, cnt) = Some (c', qs', ws', cnt')" and "d \<in> D"
  shows "\<exists>s'. foldE (sem_kernel exit_thread run (Suc fuel)) ops s = Inr s' \<and> wait_lists D s' ws' \<and>
    sint (dh_SignalState (DHeaders s' d)) - int (length (ws' d)) =
      sint (dh_SignalState (DHeaders s d)) - int (length (ws d)) + int (count_list ops (Release d)) - int (count_list ops (Wait d)) \<and>
    (0 < sint (dh_SignalState (DHeaders s' d)) \<longrightarrow> ws' d = [])"
proof -
  obtain s' where s': "foldE (sem_kernel exit_thread run (Suc fuel)) ops s = Inr s'" "sem_system F D prio lim s' (c', qs', ws', cnt')"
    using semaphores.run [OF assms(1-3)] by blast
  have "wait_lists D s' ws'" by (rule sem_systemD(2) [OF s'(2)])
  moreover from this have "0 < sint (dh_SignalState (DHeaders s' d)) \<Longrightarrow> ws' d = []" using assms(4) by (auto simp: wait_lists_def)
  ultimately show ?thesis
    using s'(1) sem_run_units [OF assms(3)] sem_systemD(7) [OF s'(2) assms(4)] sem_systemD(7) [OF assms(1,4)]
    by (intro exI [of _ s']) simp
qed

theorem semaphore_conservation_witness:
  "\<exists>s'. foldE (sem_kernel (\<lambda>_. Inr) no_dpcs 1) [Wait (ObjectHeader 0)] three_threads = Inr s' \<and>
     sint (dh_SignalState (DHeaders s' (ObjectHeader 0))) = 0"
proof -
  have "highest 1 [[], [], [], [2, 3], [], [], []] = Some 3" by (auto simp: highest_Some less_Suc_eq numeral_nat)
  then have "spec_run (sem_spec (\<lambda>_. 3) (\<lambda>_. 5)) [Wait (ObjectHeader 0)]
      (1, [[], [], [], [2, 3], [], [], []], \<lambda>_. [], \<lambda>_. 0) = Some (2, [[], [], [], [3], [], [], []], (\<lambda>_. [])(ObjectHeader 0 := [1]), \<lambda>_. 0)"
    by simp
  from semaphore_conservation [OF three_threads_semaphores _ this, of "ObjectHeader 0" "\<lambda>_. Inr" no_dpcs 0] show ?thesis
    by (auto simp: op_on_def)
qed

text \<open>C22. Waiting threads are served in the order they came: the thread at position \<open>k\<close> of a semaphore's
  queue is ready, in the queue of its priority, after \<open>k + 1\<close> releases.\<close>

theorem semaphore_served_in_order:
  assumes "sem_system F D prio lim s (c, qs, ws, cnt)" and "d \<in> D" and "k < length (ws d)"
    and "cnt d < lim d" and "cnt d < 100"
  shows "\<exists>s' qs'. foldE (sem_kernel exit_thread run (Suc fuel)) (replicate (Suc k) (Release d)) s = Inr s' \<and>
    sem_system F D prio lim s' (c, qs', ws(d := drop (Suc k) (ws d)), cnt) \<and>
    ws d ! k \<in> set (qs' ! prio (ws d ! k)) \<and> tcb_State (Tcbs s' (ws d ! k)) = THREAD_STATE_READY"
proof -
  let ?t = "ws d ! k" and ?qs = "all_ready prio (take (Suc k) (ws d)) qs"
  have "\<forall>x \<in> set (replicate (Suc k) (Release d)). op_on D x" using assms(2) by (auto simp: op_on_def)
  moreover have "spec_run (sem_spec prio lim) (replicate (Suc k) (Release d)) (c, qs, ws, cnt) =
      Some (c, ?qs, ws(d := drop (Suc k) (ws d)), cnt)" using assms by (intro sem_run_releases) simp_all
  ultimately obtain s' where s': "foldE (sem_kernel exit_thread run (Suc fuel)) (replicate (Suc k) (Release d)) s = Inr s'"
    "sem_system F D prio lim s' (c, ?qs, ws(d := drop (Suc k) (ws d)), cnt)" using semaphores.run [OF assms(1)] by blast
  have "waiting (Tcbs s ?t)" using sem_systemD(5) [OF assms(1,2)] assms(3) by simp
  then have p: "prio ?t < 7" using sem_systemD(9) [OF assms(1)] by (simp add: waiting_def)
  moreover have "length qs = 7" using sem_systemD(1) [OF assms(1)] by (simp add: running_def sched_ok_def)
  ultimately have "?t \<in> set (?qs ! prio ?t)" using assms(3) by (intro all_ready_in) (simp_all add: take_Suc_conv_app_nth)
  moreover from this have "tcb_State (Tcbs s' ?t) = THREAD_STATE_READY"
    using sem_systemD(1) [OF s'(2)] p by (simp add: running_def sched_ok_def)
  ultimately show ?thesis using s' by blast
qed

theorem semaphore_served_in_order_witness:
  "\<exists>s s' qs'. KeWaitForSingleObject (\<lambda>_. Inr) no_dpcs 1 (ObjectHeader 0) three_threads = Inr s \<and>
     foldE (sem_kernel (\<lambda>_. Inr) no_dpcs 1) [Release (ObjectHeader 0)] s = Inr s' \<and> tcb_State (Tcbs s' 1) = THREAD_STATE_READY"
proof -
  have "highest 1 [[], [], [], [2, 3], [], [], []] = Some 3" by (auto simp: highest_Some less_Suc_eq numeral_nat)
  then have sp: "sem_spec (\<lambda>_. 3) (\<lambda>_. 5) (Wait (ObjectHeader 0))
      (1, [[], [], [], [2, 3], [], [], []], \<lambda>_. [], \<lambda>_. 0) = Some (2, [[], [], [], [3], [], [], []], (\<lambda>_. [])(ObjectHeader 0 := [1]), \<lambda>_. 0)"
    by simp
  from sem_wait [OF three_threads_semaphores UNIV_I this, of "\<lambda>_. Inr" no_dpcs 0] obtain s where
    s: "KeWaitForSingleObject (\<lambda>_. Inr) no_dpcs 1 (ObjectHeader 0) three_threads = Inr s"
      "sem_system (\<lambda>_. 0x1000) UNIV (\<lambda>_. 3) (\<lambda>_. 5) s (2, [[], [], [], [3], [], [], []], (\<lambda>_. [])(ObjectHeader 0 := [1]), \<lambda>_. 0)"
    by auto
  from semaphore_served_in_order [OF s(2), of "ObjectHeader 0" 0 "\<lambda>_. Inr" no_dpcs 0] s(1) show ?thesis
    by (fastforce simp del: sem_kernel.simps)
qed

text \<open>C34. A mutant is acquired and released: while the thread holds it, it is the owner and the signal
  state is 0; after the release the headers of all objects and all owners are as before.\<close>

theorem mutant_roundtrip:
  assumes "running F s c qs" and "CurrentIrql s \<le> APC_LEVEL" and "dh_Type (DHeaders s d) = MutantObject"
    and "dh_SignalState (DHeaders s d) = 1" and "OwnerThread s d = None" and "LIST_EMPTY (dh_WaitListHead (DHeaders s d))"
  shows "\<exists>s1 s2. KeWaitForSingleObject exit_thread run (Suc fuel) d s = Inr s1 \<and> OwnerThread s1 d = Some c \<and>
    dh_SignalState (DHeaders s1 d) = 0 \<and> KeReleaseMutant run (Suc fuel) d s1 = Inr s2 \<and> running F s2 c qs \<and>
    DHeaders s2 = DHeaders s \<and> OwnerThread s2 = OwnerThread s \<and> Tcbs s2 = Tcbs s"
proof -
  from mutant_acquire [OF assms(1-5), of exit_thread run fuel] obtain s1 where
    s1: "KeWaitForSingleObject exit_thread run (Suc fuel) d s = Inr s1" "running F s1 c qs" "Tcbs s1 = Tcbs s"
      "OwnerThread s1 = (OwnerThread s)(d := Some c)" "DHeaders s1 = (DHeaders s)(d := DHeaders s d\<lparr>dh_SignalState := 0\<rparr>)"
    by (auto simp: same_waits_def waits_as_set_waits)
  then have "OwnerThread s1 d = Some c" "dh_SignalState (DHeaders s1 d) = 0" "LIST_EMPTY (dh_WaitListHead (DHeaders s1 d))" using assms(6) by simp_all
  from mutant_release [OF s1(2) this, of run fuel] obtain s2 where
    s2: "KeReleaseMutant run (Suc fuel) d s1 = Inr s2" "running F s2 c qs" "Tcbs s2 = Tcbs s1"
      "DHeaders s2 = (DHeaders s1)(d := DHeaders s1 d\<lparr>dh_SignalState := 1\<rparr>)" "OwnerThread s2 = (OwnerThread s1)(d := None)" by blast
  have "DHeaders s d\<lparr>dh_SignalState := 1\<rparr> = DHeaders s d" using assms(4) by (cases "DHeaders s d") simp
  then have "DHeaders s2 = DHeaders s" using s2(4) s1(5) by simp
  moreover have "OwnerThread s2 = OwnerThread s" using s2(5) s1(4) assms(5) by auto
  ultimately show ?thesis using s1 s2 by (intro exI [of _ s1] exI [of _ s2]) simp
qed

text \<open>The small system with a free mutant.\<close>

definition with_object :: "dispatcher \<Rightarrow> KOBJECTS \<Rightarrow> LONG \<Rightarrow> sched_state" where
  "with_object d ty v = KeInitDispatcherHeader d ty v three_threads"

lemma with_object_running: "running (\<lambda>_. 0x1000) (with_object d ty v) 1 [[], [], [], [2, 3], [], [], []]"
proof -
  have "spaces_ok (\<lambda>_. 0x1000) (with_object d ty v)"
    using three_threads_running by (auto simp: with_object_def KeInitDispatcherHeader_def waits_as_set_waits running_def intro: spaces_ok_cong)
  then show ?thesis
    using three_threads_running
    by (simp add: running_def with_object_def KeInitDispatcherHeader_def waits_as_set_waits sched_ok_def)
qed

lemma with_object_sel [simp]:
  "DHeaders (with_object d ty v) d = \<lparr>dh_WaitListHead = LIST_INIT, dh_Type = ty, dh_SignalState = v\<rparr>"
  "CurrentIrql (with_object d ty v) = 0" "CurrentThread (with_object d ty v) = Some 1" "OwnerThread (with_object d ty v) = (\<lambda>_. None)"
  by (simp_all add: with_object_def KeInitDispatcherHeader_def set_dheader_def) (simp add: three_threads_unfold)

theorem mutant_roundtrip_witness:
  "\<exists>s1 s2. KeWaitForSingleObject (\<lambda>_. Inr) no_dpcs 1 (ObjectHeader 7) (with_object (ObjectHeader 7) MutantObject 1) = Inr s1 \<and>
     OwnerThread s1 (ObjectHeader 7) = Some 1 \<and> KeReleaseMutant no_dpcs 1 (ObjectHeader 7) s1 = Inr s2"
  using mutant_roundtrip [OF with_object_running, of "ObjectHeader 7" MutantObject 1 "ObjectHeader 7" "\<lambda>_. Inr" no_dpcs 0]
  by (auto simp: LIST_EMPTY_def LIST_INIT_def)

text \<open>Nobody but its owner releases a mutant, and nobody acquires a held one: a wait on a mutant that is
  not signalled stops the system instead of waiting, and so does a release by a thread that is not the owner.\<close>

theorem mutant_misuse:
  assumes "running F s c qs" and "CurrentIrql s \<le> APC_LEVEL" and "dh_Type (DHeaders s d) = MutantObject"
    and "dh_SignalState (DHeaders s d) = 0"
  shows "(\<exists>e. KeWaitForSingleObject exit_thread run fuel d s = Inl e) \<and>
    (OwnerThread s d \<noteq> Some c \<longrightarrow> (\<exists>e. KeReleaseMutant run fuel d s = Inl e))"
proof (intro conjI impI)
  note c = runningD [OF assms(1)]
  let ?s = "hold DispatcherDataBaseLock (CurrentIrql s) (at_irql DISPATCH_LEVEL s)"
  have "DHeaders ?s = DHeaders s" using locked_waits [of s "CurrentIrql s"] by (simp add: same_waits_def)
  then show "\<exists>e. KeWaitForSingleObject exit_thread run fuel d s = Inl e"
    using running_lock(1) [OF assms(1)] assms(2-4) c(7)
    by (auto simp: KeWaitForSingleObject_def hal_ok_irql Let_def ASSERT_def)
  assume "OwnerThread s d \<noteq> Some c"
  then show "\<exists>e. KeReleaseMutant run fuel d s = Inl e"
    using c(1) by (simp add: KeReleaseMutant_def KeGetCurrentThread_def)
qed

theorem mutant_misuse_witness:
  "(\<exists>e. KeWaitForSingleObject (\<lambda>_. Inr) no_dpcs 1 (ObjectHeader 7) (with_object (ObjectHeader 7) MutantObject 0) = Inl e) \<and>
   (\<exists>e. KeReleaseMutant no_dpcs 1 (ObjectHeader 7) (with_object (ObjectHeader 7) MutantObject 0) = Inl e)"
  using mutant_misuse [OF with_object_running, of "ObjectHeader 7" MutantObject 0 "ObjectHeader 7"] by auto

text \<open>\<open>KeSetEvent\<close> on an event nobody waits for is lost, for both kinds of event: it returns the
  signalled state but leaves the event not signalled, so the next thread that waits for it blocks.\<close>

theorem set_event_is_lost:
  assumes "running F s c qs" and "dh_Type (DHeaders s d) = EventNotificationObject \<or> dh_Type (DHeaders s d) = EventSynchronizationObject"
    and "dh_SignalState (DHeaders s d) = 0" and "LIST_EMPTY (dh_WaitListHead (DHeaders s d))"
  shows "\<exists>s'. KeSetEvent run (Suc fuel) d s = Inr (1, s') \<and> running F s' c qs \<and> dh_SignalState (DHeaders s' d) = 0 \<and>
    dh_Type (DHeaders s' d) = dh_Type (DHeaders s d)"
proof -
  let ?f = "\<lambda>s. bind (if dh_Type (DHeaders s d) = EventNotificationObject then KiDHeaderReleaseAll (Suc fuel) d s
            else KiDHeaderRelease (Suc fuel) d s) (\<lambda>s. let (st, v) = InterlockedExchange (dh_SignalState (DHeaders s d)) 0 in
      Inr (st, set_dheader d (\<lambda>h. h\<lparr>dh_SignalState := v\<rparr>) s))"
  have body: "\<exists>v. ?f u = Inr (1, set_dheader d (\<lambda>h. h\<lparr>dh_SignalState := v\<rparr>) u) \<and> v = 0"
    if "switchable F u qs" "same_waits s u" for u
  proof -
    have "DHeaders u d = DHeaders s d" using that(2) by (simp add: same_waits_def)
    then show ?thesis
      using release_no_waiter [OF that(1), of d "Suc fuel"] assms(3,4)
      by (simp add: set_dheader_def InterlockedExchange_def)
  qed
  from under_database_lock [OF assms(1) body, of run fuel] obtain s' where
    s': "bind (KiLockDispatcherDataBase s) (\<lambda>(Old, s). bind (?f s) (\<lambda>(y, s).
        bind (KiUnLockDispatcherDataBase run (Suc fuel) Old s) (\<lambda>s. Inr (y, s)))) = Inr (1, s')" "running F s' c qs"
      "DHeaders s' = (DHeaders s)(d := DHeaders s d\<lparr>dh_SignalState := 0\<rparr>)"
    by (auto simp: same_waits_def waits_as_set_waits)
  have "KeSetEvent run (Suc fuel) d s = Inr (1, s')"
    using s'(1) assms(2) by (simp add: KeSetEvent_def ASSERT_event_def bind_assoc Let_def split_def)
  then show ?thesis using s' by simp
qed

theorem set_event_is_lost_witness:
  "\<exists>s'. KeSetEvent no_dpcs 1 (ObjectHeader 7) (with_object (ObjectHeader 7) EventNotificationObject 0) = Inr (1, s') \<and>
     dh_SignalState (DHeaders s' (ObjectHeader 7)) = 0"
  using set_event_is_lost [OF with_object_running, of "ObjectHeader 7" EventNotificationObject 0 "ObjectHeader 7" no_dpcs 0]
  by (auto simp: LIST_EMPTY_def LIST_INIT_def)

text \<open>A wait on a signalled object takes its signal whatever the type of the object, so a thread, process
  or notification event that is signalled once satisfies only one wait.\<close>

theorem wait_consumes_signal:
  assumes "running F s c qs" and "CurrentIrql s \<le> APC_LEVEL" and "dh_SignalState (DHeaders s d) = 1"
    and "dh_Type (DHeaders s d) = ThreadObject \<or> dh_Type (DHeaders s d) = ProcessObject \<or> dh_Type (DHeaders s d) = EventNotificationObject"
  shows "\<exists>s'. KeWaitForSingleObject exit_thread run (Suc fuel) d s = Inr s' \<and> running F s' c qs \<and>
    dh_SignalState (DHeaders s' d) = 0"
proof -
  have "0 < sint (dh_SignalState (DHeaders s d))" using assms(3) by simp
  from wait_satisfied [OF assms(1) this assms(2), of exit_thread run fuel] obtain s' where
    "KeWaitForSingleObject exit_thread run (Suc fuel) d s = Inr s'" "running F s' c qs"
    "same_waits (set_dheader d (\<lambda>h. h\<lparr>dh_SignalState := dh_SignalState h - 1\<rparr>) s) s'" using assms(4) by auto
  then show ?thesis using assms(3) by (auto simp: same_waits_def waits_as_set_waits)
qed

theorem wait_consumes_signal_witness:
  "\<exists>s'. KeWaitForSingleObject (\<lambda>_. Inr) no_dpcs 1 (ThreadHeader 9) (with_object (ThreadHeader 9) ThreadObject 1) = Inr s' \<and>
     dh_SignalState (DHeaders s' (ThreadHeader 9)) = 0"
  using wait_consumes_signal [OF with_object_running, of "ThreadHeader 9" ThreadObject 1 "ThreadHeader 9" "\<lambda>_. Inr" no_dpcs 0]
  by auto

end
