(* ===== verification/KString.thy ===== *)
theory KString
  imports KPrelude
begin

text \<open>
  The string and memory routines of \<open>lib/string.c\<close> and the counted strings of \<open>kern/lib/unicode.c\<close>, on a
  flat memory of bytes as the running code sees it; a pointer is a 32-bit address and moves with
  wrap-around. A loop over a counter ends with the counter; a loop that looks for a terminator may run
  forever, and is an option, \<open>None\<close> when it does not return. \<open>char\<close> is signed, so bytes are compared by \<open>sint\<close>
  where the code compares them as \<open>char\<close>. The tracing output is left out.
\<close>

type_synonym memory = "ULONG \<Rightarrow> UCHAR"
type_synonym address = ULONG
type_synonym size_t = ULONG

abbreviation (input) NUL :: UCHAR where "NUL \<equiv> 0"

lemma unat_pred: "(n :: ULONG) \<noteq> 0 \<Longrightarrow> unat (n - 1) < unat n"
  by (simp add: unat_minus_one unat_gt_0)

lemma unat_pred2: "(n :: ULONG) - 1 \<noteq> 0 \<Longrightarrow> unat (n - 2) < unat (n - 1)"
  using unat_pred [of "n - 1"] by simp

section \<open>Strings\<close>

partial_function (option) strlen_loop :: "memory \<Rightarrow> address \<Rightarrow> LONG \<Rightarrow> LONG option" where
  "strlen_loop m s n = (if m s \<noteq> NUL then strlen_loop m (s + 1) (n + 1) else Some n)"

definition strlen :: "memory \<Rightarrow> address \<Rightarrow> LONG option" where
  "strlen m s = strlen_loop m s 0"

function strnlen_loop :: "memory \<Rightarrow> address \<Rightarrow> size_t \<Rightarrow> LONG \<Rightarrow> LONG" where
  "strnlen_loop m s sz n = (if sz > 0 \<and> m s \<noteq> NUL then strnlen_loop m (s + 1) (sz - 1) (n + 1) else n)"
  by auto
termination by (relation "measure (\<lambda>(m, s, sz, n). unat sz)") (auto intro: unat_pred)

definition strnlen :: "memory \<Rightarrow> address \<Rightarrow> size_t \<Rightarrow> LONG" where
  "strnlen m s sz = strnlen_loop m s sz 0"

partial_function (option) strcpy :: "memory \<Rightarrow> address \<Rightarrow> address \<Rightarrow> memory option" where
  "strcpy m dst src = (let c = m src; m = m(dst := c) in if c \<noteq> NUL then strcpy m (dst + 1) (src + 1) else Some m)"

function strncpy_loop :: "memory \<Rightarrow> address \<Rightarrow> address \<Rightarrow> size_t \<Rightarrow> size_t \<Rightarrow> memory" where
  "strncpy_loop m dst src i sz =
     (if i < sz
      then let m = m(dst := m src) in strncpy_loop m (dst + 1) (if m src \<noteq> NUL then src + 1 else src) (i + 1) sz
      else m)"
  by auto
termination
proof (relation "measure (\<lambda>(m, dst, src, i, sz). unat sz - unat i)")
  fix i sz :: size_t
  assume "i < sz"
  moreover from this have "unat (i + 1) = unat i + 1"
    using unat_add_no_wrap [of i 1] unat_ULONG_less [of sz] by (simp add: word_less_nat_alt)
  ultimately have "unat sz - unat (i + 1) < unat sz - unat i" by (simp add: word_less_nat_alt)
  then show "((m, d, s, i + 1, sz), m', d', s', i, sz) \<in> measure (\<lambda>(m, dst, src, i, sz). unat sz - unat i)" for m d s m' d' s'
    by simp
qed simp

definition strncpy :: "memory \<Rightarrow> address \<Rightarrow> address \<Rightarrow> size_t \<Rightarrow> memory" where
  "strncpy m dst src sz = strncpy_loop m dst src 0 sz"

function strlcpy_loop :: "memory \<Rightarrow> address \<Rightarrow> address \<Rightarrow> size_t \<Rightarrow> memory \<times> address" where
  "strlcpy_loop m dst src sz =
     (let sz' = sz - 1 in
      if sz' > 0 \<and> m src \<noteq> NUL then strlcpy_loop (m(dst := m src)) (dst + 1) (src + 1) sz'
      else (m(dst := NUL), dst))"
  by auto
termination by (relation "measure (\<lambda>(m, dst, src, sz). unat (sz - 1))") (auto intro: unat_pred2)

definition strlcpy :: "memory \<Rightarrow> address \<Rightarrow> address \<Rightarrow> size_t \<Rightarrow> size_t \<times> memory" where
  "strlcpy m dst src sz =
     (if sz > 0 then let (m, d) = strlcpy_loop m dst src sz in (d - dst, m) else (0, m))"

definition char_diff :: "UCHAR \<Rightarrow> UCHAR \<Rightarrow> LONG" where
  "char_diff a b = ucast a - ucast b"

partial_function (option) strcmp :: "memory \<Rightarrow> address \<Rightarrow> address \<Rightarrow> LONG option" where
  "strcmp m p q = (if m p \<noteq> NUL \<and> m p = m q then strcmp m (p + 1) (q + 1) else Some (char_diff (m p) (m q)))"

function strncmp :: "memory \<Rightarrow> address \<Rightarrow> address \<Rightarrow> size_t \<Rightarrow> LONG" where
  "strncmp m p q n =
     (if n > 0 \<and> m p \<noteq> NUL \<and> m p = m q then strncmp m (p + 1) (q + 1) (n - 1)
      else if n = 0 then 0 else char_diff (m p) (m q))"
  by auto
termination by (relation "measure (\<lambda>(m, p, q, n). unat n)") (auto intro: unat_pred)

partial_function (option) strchr :: "memory \<Rightarrow> address \<Rightarrow> UCHAR \<Rightarrow> address option" where
  "strchr m s c = (if m s \<noteq> NUL then if m s = c then Some s else strchr m (s + 1) c else Some 0)"

partial_function (option) strfind :: "memory \<Rightarrow> address \<Rightarrow> UCHAR \<Rightarrow> address option" where
  "strfind m s c = (if m s \<noteq> NUL then if m s = c then Some s else strfind m (s + 1) c else Some s)"

section \<open>Memory\<close>

text \<open>The counter of \<open>memset\<close> is a signed copy of the size.\<close>

lemma memset_measure: "0 \<le> sint (k - 1 :: LONG) \<Longrightarrow> unat (k - 1) < unat k"
proof -
  assume "0 \<le> sint (k - 1)"
  then have "k \<noteq> 0" by auto
  then show ?thesis by (rule unat_pred)
qed

function memset_loop :: "memory \<Rightarrow> address \<Rightarrow> UCHAR \<Rightarrow> LONG \<Rightarrow> memory" where
  "memset_loop m p c k = (if 0 \<le> sint (k - 1) then memset_loop (m(p := c)) (p + 1) c (k - 1) else m)"
  by auto
termination by (relation "measure (\<lambda>(m, p, c, k). unat k)") (auto intro: memset_measure)

definition memset :: "memory \<Rightarrow> address \<Rightarrow> LONG \<Rightarrow> size_t \<Rightarrow> memory" where
  "memset m v c n = memset_loop m v (ucast c) n"

function memcpy :: "memory \<Rightarrow> address \<Rightarrow> address \<Rightarrow> size_t \<Rightarrow> memory" where
  "memcpy m d s n = (if n > 0 then memcpy (m(d := m s)) (d + 1) (s + 1) (n - 1) else m)"
  by auto
termination by (relation "measure (\<lambda>(m, d, s, n). unat n)") (auto intro: unat_pred)

function copy_back :: "memory \<Rightarrow> address \<Rightarrow> address \<Rightarrow> size_t \<Rightarrow> memory" where
  "copy_back m d s n = (if n > 0 then copy_back (m(d - 1 := m (s - 1))) (d - 1) (s - 1) (n - 1) else m)"
  by auto
termination by (relation "measure (\<lambda>(m, d, s, n). unat n)") (auto intro: unat_pred)

definition memmove :: "memory \<Rightarrow> address \<Rightarrow> address \<Rightarrow> size_t \<Rightarrow> memory" where
  "memmove m dst src n =
     (if src < dst \<and> src + n > dst then copy_back m (dst + n) (src + n) n else memcpy m dst src n)"

function memcmp :: "memory \<Rightarrow> address \<Rightarrow> address \<Rightarrow> size_t \<Rightarrow> LONG" where
  "memcmp m s1 s2 n =
     (if n > 0 then if m s1 \<noteq> m s2 then char_diff (m s1) (m s2) else memcmp m (s1 + 1) (s2 + 1) (n - 1) else 0)"
  by auto
termination by (relation "measure (\<lambda>(m, s1, s2, n). unat n)") (auto intro: unat_pred)

function memfind_loop :: "memory \<Rightarrow> address \<Rightarrow> UCHAR \<Rightarrow> address \<Rightarrow> address" where
  "memfind_loop m s c ends = (if s < ends then if m s = c then s else memfind_loop m (s + 1) c ends else s)"
  by auto
termination
proof (relation "measure (\<lambda>(m, s, c, ends). unat ends - unat s)")
  fix s ends :: address
  assume "s < ends"
  moreover from this have "unat (s + 1) = unat s + 1"
    using unat_add_no_wrap [of s 1] unat_ULONG_less [of ends] by (simp add: word_less_nat_alt)
  ultimately have "unat ends - unat (s + 1) < unat ends - unat s" by (simp add: word_less_nat_alt)
  then show "((m, s + 1, c, ends), m', s, c', ends) \<in> measure (\<lambda>(m, s, c, ends). unat ends - unat s)" for m c m' c'
    by simp
qed simp

definition memfind :: "memory \<Rightarrow> address \<Rightarrow> LONG \<Rightarrow> size_t \<Rightarrow> address" where
  "memfind m s c n = memfind_loop m s (ucast c) (s + n)"

section \<open>Numbers\<close>

text \<open>\<open>strtol\<close> gives the value and where it stopped, which the code stores through \<open>endptr\<close> when that is not null.\<close>

partial_function (option) skip_blanks :: "memory \<Rightarrow> address \<Rightarrow> address option" where
  "skip_blanks m s = (if m s = 0x20 \<or> m s = 0x09 then skip_blanks m (s + 1) else Some s)"

definition between :: "UCHAR \<Rightarrow> UCHAR \<Rightarrow> UCHAR \<Rightarrow> bool" where
  "between a c b \<longleftrightarrow> sint a \<le> sint c \<and> sint c \<le> sint b"

definition digit_of :: "UCHAR \<Rightarrow> LONG option" where
  "digit_of c =
     (if between 0x30 c 0x39 then Some (scast c - 0x30)
      else if between 0x61 c 0x7A then Some (scast c - 0x61 + 10)
      else if between 0x41 c 0x5A then Some (scast c - 0x41 + 10)
      else None)"

partial_function (option) strtol_digits :: "memory \<Rightarrow> address \<Rightarrow> LONG \<Rightarrow> LONG \<Rightarrow> (address \<times> LONG) option" where
  "strtol_digits m s base val =
     (case digit_of (m s) of
        None \<Rightarrow> Some (s, val)
      | Some dig \<Rightarrow> if sint base \<le> sint dig then Some (s, val) else strtol_digits m (s + 1) base (val * base + dig))"

definition strtol_base :: "memory \<Rightarrow> address \<Rightarrow> LONG \<Rightarrow> address \<times> LONG" where
  "strtol_base m s base =
     (if (base = 0 \<or> base = 16) \<and> m s = 0x30 \<and> m (s + 1) = 0x78 then (s + 2, 16)
      else if base = 0 \<and> m s = 0x30 then (s + 1, 8)
      else if base = 0 then (s, 10)
      else (s, base))"

definition strtol :: "memory \<Rightarrow> address \<Rightarrow> LONG \<Rightarrow> (LONG \<times> address) option" where
  "strtol m s base =
     (case skip_blanks m s of
        None \<Rightarrow> None
      | Some s \<Rightarrow>
          let (s, neg) = (if m s = 0x2B then (s + 1, False) else if m s = 0x2D then (s + 1, True) else (s, False));
              (s, base) = strtol_base m s base
          in case strtol_digits m s base 0 of
               None \<Rightarrow> None
             | Some (s, val) \<Rightarrow> Some (if neg then - val else val, s))"

section \<open>Counted strings\<close>

record UNICODE_STRING =
  us_Length :: USHORT
  us_MaximumLength :: USHORT
  us_Buffer :: address

definition RtlCompareUnicodeString :: "memory \<Rightarrow> UNICODE_STRING \<Rightarrow> UNICODE_STRING \<Rightarrow> LONG" where
  "RtlCompareUnicodeString m Str1 Str2 =
     (if us_Length Str1 > us_Length Str2 then - 1
      else if us_Length Str2 > us_Length Str1 then 1
      else strncmp m (us_Buffer Str1) (us_Buffer Str2) (ucast (us_Length Str1)))"

definition RtlCopyUnicodeString ::
  "memory \<Rightarrow> UNICODE_STRING \<Rightarrow> UNICODE_STRING option \<Rightarrow> memory \<times> UNICODE_STRING" where
  "RtlCopyUnicodeString m Destination Source =
     (case Source of
        None \<Rightarrow> (m, Destination\<lparr>us_Length := 0\<rparr>)
      | Some Source \<Rightarrow>
          let SourceLength = min (ucast (us_MaximumLength Destination)) (ucast (us_Length Source)) :: ULONG;
              Destination = Destination\<lparr>us_Length := ucast SourceLength\<rparr>;
              m = memcpy m (us_Buffer Destination) (us_Buffer Source) SourceLength
          in (if us_Length Destination < us_MaximumLength Destination
              then (m(us_Buffer Destination + SourceLength := NUL), Destination) else (m, Destination)))"

text \<open>The length is counted before the destination is written, so it is the length in the given memory.\<close>

definition RtlInitUnicodeString :: "memory \<Rightarrow> address \<Rightarrow> UNICODE_STRING option" where
  "RtlInitUnicodeString m SourceString =
     (if SourceString \<noteq> 0
      then case strlen m SourceString of
        None \<Rightarrow> None
      | Some DestSize \<Rightarrow> Some \<lparr>us_Length = ucast DestSize, us_MaximumLength = ucast DestSize + 1, us_Buffer = SourceString\<rparr>
      else Some \<lparr>us_Length = 0, us_MaximumLength = 0, us_Buffer = SourceString\<rparr>)"

section \<open>Copying\<close>

text \<open>
  What a copy of \<open>n\<close> bytes does when it reads every byte before it is overwritten. The offset of an address from
  the start of a block is a word, so \<open>a - d < n\<close> says that \<open>a\<close> lies in the block of \<open>n\<close> bytes at \<open>d\<close>.
\<close>

declare strnlen_loop.simps [simp del] strncpy_loop.simps [simp del] strlcpy_loop.simps [simp del] strncmp.simps [simp del]
  memset_loop.simps [simp del] memcpy.simps [simp del] copy_back.simps [simp del] memcmp.simps [simp del] memfind_loop.simps [simp del]

definition copied :: "address \<Rightarrow> address \<Rightarrow> size_t \<Rightarrow> memory \<Rightarrow> memory" where
  "copied d s n m = (\<lambda>a. if a - d < n then m (s + (a - d)) else m a)"

lemma pred_less_iff: "(x :: ULONG) \<noteq> 0 \<Longrightarrow> n \<noteq> 0 \<Longrightarrow> x - 1 < n - 1 \<longleftrightarrow> x < n"
proof -
  assume "x \<noteq> 0" "n \<noteq> 0"
  moreover from this have "0 < unat x" "0 < unat n" by (simp_all add: unat_gt_0)
  ultimately show ?thesis by (simp add: word_less_nat_alt unat_minus_one) linarith
qed

lemma copied_0 [simp]: "copied d s 0 m = m"
  by (simp add: copied_def)

lemma memcpy_copied:
  assumes "d = s \<or> n \<le> d - s"
  shows "memcpy m d s n = copied d s n m"
  using assms
proof (induction m d s n rule: memcpy.induct)
  case (1 m d s n)
  show ?case
  proof (cases "n = 0")
    case True
    then show ?thesis by (subst memcpy.simps) simp
  next
    case False
    then have "n - 1 \<le> n" by (simp add: word_le_nat_alt unat_minus_one)
    then have "d + 1 = s + 1 \<or> n - 1 \<le> d + 1 - (s + 1)" using "1.prems" by (auto dest: order_trans)
    then have IH: "memcpy (m(d := m s)) (d + 1) (s + 1) (n - 1) = copied (d + 1) (s + 1) (n - 1) (m(d := m s))"
      by (rule "1.IH" [rotated]) (use False in \<open>simp add: word_neq_0_conv\<close>)
    have "copied (d + 1) (s + 1) (n - 1) (m(d := m s)) a = copied d s n m a" for a
    proof (cases "a = d")
      case True
      have "\<not> (- 1 :: ULONG) < n - 1" by (simp add: not_less word_n1_ge)
      then show ?thesis using True False by (simp add: copied_def word_neq_0_conv)
    next
      case neq: False
      then have x: "a - d \<noteq> 0" by simp
      have "a - (d + 1) < n - 1 \<longleftrightarrow> a - d < n" using pred_less_iff [OF x False] by (simp add: algebra_simps)
      moreover have "s + 1 + (a - (d + 1)) = s + (a - d)" by simp
      moreover have "s + (a - d) \<noteq> d" if "a - d < n"
      proof
        assume "s + (a - d) = d"
        then have "a - d = d - s" by (metis add_diff_cancel_left')
        then show False using that "1.prems" x by auto
      qed
      ultimately show ?thesis using neq by (auto simp: copied_def)
    qed
    then show ?thesis using IH False by (subst memcpy.simps) (auto simp: word_neq_0_conv)
  qed
qed

lemma less_Suc_word: "(n :: ULONG) \<noteq> 0 \<Longrightarrow> x < n \<longleftrightarrow> x < n - 1 \<or> x = n - 1"
proof -
  assume n: "n \<noteq> 0"
  then have "0 < unat n" "unat (n - 1) = unat n - 1" by (simp_all add: unat_gt_0 unat_minus_one)
  then show ?thesis by (auto simp: word_less_nat_alt word_unat_eq_iff)
qed

lemma sub_less: "(n :: ULONG) \<noteq> 0 \<Longrightarrow> x < n - 1 \<Longrightarrow> n - 1 - x < n"
proof -
  assume n: "n \<noteq> 0" and x: "x < n - 1"
  have "unat (n - 1) = unat n - 1" "0 < unat n" using n by (simp_all add: unat_minus_one unat_gt_0)
  moreover have "unat (n - 1 - x) = unat (n - 1) - unat x" using x by (intro unat_sub) simp
  ultimately show ?thesis by (simp add: word_less_nat_alt)
qed

lemma copy_back_copied:
  assumes "s = d \<or> n \<le> s - d"
  shows "copy_back m d s n = copied (d - n) (s - n) n m"
  using assms
proof (induction m d s n rule: copy_back.induct)
  case (1 m d s n)
  let ?m = "m(d - 1 := m (s - 1))"
  show ?case
  proof (cases "n = 0")
    case True
    then show ?thesis by (subst copy_back.simps) simp
  next
    case False
    then have "n - 1 \<le> n" by (simp add: word_le_nat_alt unat_minus_one)
    then have "s - 1 = d - 1 \<or> n - 1 \<le> s - 1 - (d - 1)" using "1.prems" by (auto dest: order_trans)
    then have "copy_back ?m (d - 1) (s - 1) (n - 1) = copied (d - 1 - (n - 1)) (s - 1 - (n - 1)) (n - 1) ?m"
      by (rule "1.IH" [rotated]) (use False in \<open>simp add: word_neq_0_conv\<close>)
    then have IH: "copy_back ?m (d - 1) (s - 1) (n - 1) = copied (d - n) (s - n) (n - 1) ?m" by simp
    have "copied (d - n) (s - n) (n - 1) ?m a = copied (d - n) (s - n) n m a" for a
    proof (cases "a - (d - n) = n - 1")
      case True
      then have "a = d - 1" by (simp add: algebra_simps)
      then show ?thesis using True less_Suc_word [OF False, of "n - 1"] by (simp add: copied_def)
    next
      case x: False
      then have lt: "a - (d - n) < n - 1 \<longleftrightarrow> a - (d - n) < n" using less_Suc_word [OF False] by simp
      have "a \<noteq> d - 1" using x by auto
      moreover have "s - n + (a - (d - n)) \<noteq> d - 1" if "a - (d - n) < n"
      proof
        assume "s - n + (a - (d - n)) = d - 1"
        then have e: "s - d = n - 1 - (a - (d - n))" by (simp add: algebra_simps)
        have "a - (d - n) < n - 1" using that lt by simp
        then have "n - 1 - (a - (d - n)) < n" by (rule sub_less [OF False])
        then show False using "1.prems" e x by (metis diff_self eq_iff_diff_eq_0 not_le)
      qed
      ultimately show ?thesis using lt by (simp add: copied_def)
    qed
    then show ?thesis using IH False by (subst copy_back.simps) (auto simp: word_neq_0_conv)
  qed
qed

lemma memmove_copied:
  assumes "unat src + unat n < 2 ^ 32" and "unat dst + unat n \<le> 2 ^ 32"
  shows "memmove m dst src n = copied dst src n m"
proof -
  have sn: "unat (src + n) = unat src + unat n" using assms(1) by (intro unat_add_no_wrap) simp
  have neg: "unat (a - b) = 2 ^ 32 - (unat b - unat a)" if "unat a < unat b" for a b :: ULONG
    using that unat_ULONG_less [of b] by (simp add: unat_sub_if')
  show ?thesis
  proof (cases "src < dst \<and> src + n > dst")
    case True
    then have "n \<le> src - dst" using assms neg [of src dst] by (simp add: word_less_nat_alt word_le_nat_alt)
    then have "src + n = dst + n \<or> n \<le> src + n - (dst + n)" by simp
    then show ?thesis using True copy_back_copied by (simp add: memmove_def)
  next
    case False
    have "dst = src \<or> n \<le> dst - src"
    proof (cases "src < dst")
      case True
      then show ?thesis using False sn by (intro disjI2) (simp add: word_less_nat_alt word_le_nat_alt unat_sub)
    next
      case ge: False
      then show ?thesis using assms(1) neg [of dst src] by (cases "dst = src") (auto simp: word_less_nat_alt word_le_nat_alt word_unat_eq_iff)
    qed
    then show ?thesis using False memcpy_copied by (auto simp: memmove_def)
  qed
qed

section \<open>Terminated strings\<close>

text \<open>\<open>cstr m p xs\<close>: at \<open>p\<close> are the bytes \<open>xs\<close>, none of them zero, and then a zero.\<close>

fun cstr :: "memory \<Rightarrow> address \<Rightarrow> UCHAR list \<Rightarrow> bool" where
  "cstr m p [] \<longleftrightarrow> m p = NUL"
| "cstr m p (x # xs) \<longleftrightarrow> x \<noteq> NUL \<and> m p = x \<and> cstr m (p + 1) xs"

lemma strlen_loop_cstr: "cstr m s xs \<Longrightarrow> strlen_loop m s n = Some (n + of_nat (length xs))"
  by (induction xs arbitrary: s n) (subst strlen_loop.simps, simp add: algebra_simps)+

lemma strlen_cstr: "cstr m s xs \<Longrightarrow> strlen m s = Some (of_nat (length xs))"
  by (simp add: strlen_def strlen_loop_cstr)

lemma strchr_cstr: "cstr m s xs \<Longrightarrow> \<exists>r. strchr m s c = Some r \<and> (c \<notin> set xs \<longrightarrow> r = 0) \<and> (c \<in> set xs \<longrightarrow> m r = c)"
proof (induction xs arbitrary: s)
  case Nil
  then show ?case by (subst strchr.simps) simp
next
  case (Cons x xs)
  then show ?case by (subst (1) strchr.simps) auto
qed

lemma char_diff_eq_0 [simp]: "char_diff a b = 0 \<longleftrightarrow> a = b"
proof
  assume "char_diff a b = 0"
  then have "(ucast a :: LONG) = ucast b" by (simp add: char_diff_def)
  then have "ucast (ucast a :: LONG) = (ucast (ucast b :: LONG) :: UCHAR)" by simp
  then show "a = b" by (simp add: ucast_up_ucast_id is_up)
qed (simp add: char_diff_def)

lemma strcmp_cstr:
  assumes "cstr m p xs" and "cstr m q ys"
  shows "\<exists>v. strcmp m p q = Some v \<and> (v = 0 \<longleftrightarrow> xs = ys)"
  using assms
proof (induction xs arbitrary: p q ys)
  case Nil
  then show ?case by (cases ys; subst strcmp.simps) auto
next
  case (Cons x xs)
  show ?case
  proof (cases ys)
    case Nil
    then show ?thesis using Cons.prems by (subst strcmp.simps) auto
  next
    case (Cons y zs)
    with Cons.prems Cons.IH [of "p + 1" "q + 1" zs] show ?thesis
      by (subst strcmp.simps) auto
  qed
qed

fun bytes :: "memory \<Rightarrow> address \<Rightarrow> nat \<Rightarrow> UCHAR list" where
  "bytes m p 0 = []"
| "bytes m p (Suc n) = m p # bytes m (p + 1) n"

lemma bytes_numeral [simp]: "bytes m p (numeral k) = m p # bytes m (p + 1) (pred_numeral k)"
  by (simp add: numeral_eq_Suc)

lemma unat_Suc_pred: "(n :: ULONG) \<noteq> 0 \<Longrightarrow> unat n = Suc (unat (n - 1))"
  using unat_gt_0 [of n] by (simp add: unat_minus_one)

lemma strncmp_bytes:
  "NUL \<notin> set (bytes m p (unat n)) \<Longrightarrow> strncmp m p q n = 0 \<longleftrightarrow> bytes m p (unat n) = bytes m q (unat n)"
proof (induction m p q n rule: strncmp.induct)
  case (1 m p q n)
  show ?case
  proof (cases "n = 0")
    case False
    note u = unat_Suc_pred [OF False]
    have p: "m p \<noteq> NUL" "NUL \<notin> set (bytes m (p + 1) (unat (n - 1)))" using "1.prems" by (simp_all add: u)
    show ?thesis
    proof (cases "m p = m q")
      case True
      have "strncmp m (p + 1) (q + 1) (n - 1) = 0 \<longleftrightarrow> bytes m (p + 1) (unat (n - 1)) = bytes m (q + 1) (unat (n - 1))"
        using "1.IH" p True False by (simp add: word_neq_0_conv)
      then show ?thesis using True False p by (subst strncmp.simps) (simp add: u word_neq_0_conv)
    next
      case neq: False
      then show ?thesis using False by (subst strncmp.simps) (simp add: u)
    qed
  qed (subst strncmp.simps, simp)
qed

lemma less_succ: "(y :: ULONG) < n - 1 \<Longrightarrow> n \<noteq> 0 \<Longrightarrow> y + 1 < n"
proof -
  assume y: "y < n - 1" and n: "n \<noteq> 0"
  have "unat y < unat n - 1" using y unat_Suc_pred [OF n] by (simp add: word_less_nat_alt)
  moreover from this have "unat (y + 1) = unat y + 1"
    using unat_add_no_wrap [of y 1] unat_ULONG_less [of n] by simp
  ultimately show ?thesis by (simp add: word_less_nat_alt)
qed

lemma offset_succ: "(n :: ULONG) \<le> a - d \<Longrightarrow> n \<noteq> 0 \<Longrightarrow> a \<noteq> d \<and> n - 1 \<le> a - (d + 1)"
proof -
  assume n: "n \<le> a - d" "n \<noteq> 0"
  then have "a - d \<noteq> 0" by auto
  moreover from this have "\<not> a - d - 1 < n - 1" using n pred_less_iff [of "a - d" n] by auto
  ultimately show ?thesis by (auto simp: not_less algebra_simps)
qed

lemma strlcpy_loop_bounded:
  "sz \<noteq> 0 \<Longrightarrow> strlcpy_loop m dst src sz = (m', d) \<Longrightarrow>
     d - dst < sz \<and> m' d = NUL \<and> (\<forall>a. sz \<le> a - dst \<longrightarrow> m' a = m a)"
proof (induction m dst src sz rule: strlcpy_loop.induct)
  case (1 m dst src sz)
  show ?case
  proof (cases "sz - 1 > 0 \<and> m src \<noteq> NUL")
    case True
    then have rec: "strlcpy_loop (m(dst := m src)) (dst + 1) (src + 1) (sz - 1) = (m', d)"
      using "1.prems"(2) by (subst (asm) strlcpy_loop.simps) simp
    have nz: "sz - 1 \<noteq> 0" using True by auto
    have "sz - 1 > 0 \<and> m src \<noteq> NUL" by (rule True)
    from "1.IH" [OF refl this nz rec] have IH: "d - (dst + 1) < sz - 1" "m' d = NUL"
      "\<And>a. sz - 1 \<le> a - (dst + 1) \<Longrightarrow> m' a = (m(dst := m src)) a" by auto
    have "d - dst < sz" using less_succ [OF IH(1) "1.prems"(1)] by (simp add: algebra_simps)
    moreover have "m' a = m a" if "sz \<le> a - dst" for a using IH(3) offset_succ [OF that "1.prems"(1)] by auto
    ultimately show ?thesis using IH(2) by blast
  next
    case False
    then have "m' = m(dst := NUL)" "d = dst" using "1.prems"(2) by (subst (asm) strlcpy_loop.simps; auto)+
    then show ?thesis using "1.prems"(1) offset_succ [of sz _ dst] by (auto simp: word_neq_0_conv)
  qed
qed

text \<open>No byte the copy writes, up to \<open>k\<close> and the terminator, is one of the source, up to its terminator.\<close>

definition apart :: "address \<Rightarrow> nat \<Rightarrow> address \<Rightarrow> nat \<Rightarrow> bool" where
  "apart d k s n \<longleftrightarrow> (\<forall>i \<le> k. \<forall>j \<le> n. d + of_nat i \<noteq> s + of_nat j)"

lemma apart_Suc: "apart d (Suc k) s (Suc n) \<Longrightarrow> apart (d + 1) k (s + 1) n"
  unfolding apart_def
proof (intro allI impI)
  fix i j
  assume *: "\<forall>i \<le> Suc k. \<forall>j \<le> Suc n. d + of_nat i \<noteq> s + of_nat j" and "i \<le> k" "j \<le> n"
  then have "d + of_nat (Suc i) \<noteq> s + of_nat (Suc j)" by blast
  then show "d + 1 + of_nat i \<noteq> s + 1 + of_nat j" by (simp add: algebra_simps)
qed

lemma cstr_upd: "cstr m p xs \<Longrightarrow> (\<And>j. j \<le> length xs \<Longrightarrow> d \<noteq> p + of_nat j) \<Longrightarrow> cstr (m(d := v)) p xs"
proof (induction xs arbitrary: p)
  case (Cons x xs)
  have "d \<noteq> p + 1 + of_nat j" if "j \<le> length xs" for j
    using Cons.prems(2) [of "Suc j"] that by (simp add: algebra_simps)
  then show ?case using Cons.IH [of "p + 1"] Cons.prems(1) Cons.prems(2) [of 0] by auto
qed auto

lemma strlcpy_loop_content:
  assumes "sz \<noteq> 0" "cstr m src xs" "apart dst (length (take (unat sz - 1) xs)) src (length xs)"
  shows "\<exists>m'. strlcpy_loop m dst src sz = (m', dst + of_nat (length (take (unat sz - 1) xs))) \<and> cstr m' dst (take (unat sz - 1) xs)"
  using assms
proof (induction xs arbitrary: m dst src sz)
  case Nil
  then show ?case by (subst strlcpy_loop.simps) simp
next
  case (Cons x xs)
  show ?case
  proof (cases "sz = 1")
    case True
    then show ?thesis by (subst strlcpy_loop.simps) simp
  next
    case False
    have nz: "sz - 1 \<noteq> 0" using False by simp
    have k: "unat sz - 1 = Suc (unat (sz - 1) - 1)" using unat_Suc_pred [OF Cons.prems(1)] unat_Suc_pred [OF nz] by simp
    let ?ys = "take (unat (sz - 1) - 1) xs" and ?m = "m(dst := m src)"
    have all: "apart dst (Suc (length ?ys)) src (Suc (length xs))" using Cons.prems(3) unfolding k by simp
    note ap = apart_Suc [OF all]
    have "dst \<noteq> src + 1 + of_nat j" if "j \<le> length xs" for j
      using all [unfolded apart_def, THEN spec, of 0, THEN mp, THEN spec, of "Suc j"] that by (simp add: algebra_simps)
    then have "cstr ?m (src + 1) xs" using Cons.prems(2) by (intro cstr_upd) simp_all
    from Cons.IH [OF nz this ap] obtain m' where
      m': "strlcpy_loop ?m (dst + 1) (src + 1) (sz - 1) = (m', dst + 1 + of_nat (length ?ys))" "cstr m' (dst + 1) ?ys" by blast
    have "sz - 1 \<le> dst - (dst + 1)" by (simp add: word_n1_ge)
    then have "m' dst = x" using strlcpy_loop_bounded [OF nz m'(1)] Cons.prems(2) by simp
    moreover have "strlcpy_loop m dst src sz = (m', dst + 1 + of_nat (length ?ys))"
      using m'(1) Cons.prems(2) word_neq_0_conv [THEN iffD1, OF nz] by (subst strlcpy_loop.simps) (simp add: Let_def)
    ultimately show ?thesis using m'(2) Cons.prems(2) unfolding k by (simp add: add.assoc)
  qed
qed

text \<open>\<open>strncpy\<close> of bytes that are not zero, from a source that lies apart from the destination.\<close>

lemma strncpy_loop_eq:
  assumes "i \<le> sz" and "\<And>j. j < unat sz - unat i \<Longrightarrow> m (src + of_nat j) \<noteq> NUL"
    and "\<And>j j'. j < unat sz - unat i \<Longrightarrow> j' < unat sz - unat i \<Longrightarrow> dst + of_nat j \<noteq> src + of_nat j'"
  shows "strncpy_loop m dst src i sz = (\<lambda>a. if unat (a - dst) < unat sz - unat i then m (src + (a - dst)) else m a)"
  using assms
proof (induction "unat sz - unat i" arbitrary: m dst src i)
  case 0
  then have "i = sz" by (simp add: word_le_nat_alt word_unat_eq_iff)
  then show ?case by (subst strncpy_loop.simps) simp
next
  case (Suc k)
  let ?m = "m(dst := m src)"
  have lt: "i < sz" using Suc.hyps(2) by (simp add: word_less_nat_alt)
  have u: "unat (i + 1) = unat i + 1" using unat_add_no_wrap [of i 1] unat_ULONG_less [of sz] lt by (simp add: word_less_nat_alt)
  have k: "k = unat sz - unat (i + 1)" using Suc.hyps(2) u by simp
  have src: "m src \<noteq> NUL" "dst \<noteq> src" using Suc.prems(2,3) [of 0] Suc.prems(3) [of 0 0] Suc.hyps(2) by auto
  have "?m (src + 1 + of_nat j) \<noteq> NUL" if "j < k" for j
    using Suc.prems(2) [of "Suc j"] that src(1) Suc.hyps(2) by (auto simp: algebra_simps)
  moreover have "dst + 1 + of_nat j \<noteq> src + 1 + of_nat j'" if "j < k" "j' < k" for j j'
    using Suc.prems(3) [of "Suc j" "Suc j'"] that Suc.hyps(2) by (simp add: algebra_simps)
  ultimately have IH: "strncpy_loop ?m (dst + 1) (src + 1) (i + 1) sz =
      (\<lambda>a. if unat (a - (dst + 1)) < k then ?m (src + 1 + (a - (dst + 1))) else ?m a)"
    using Suc.hyps(1) [OF k, of ?m "src + 1" "dst + 1"] u lt k by (simp add: word_le_nat_alt word_less_nat_alt)
  have "(if unat (a - (dst + 1)) < k then ?m (src + 1 + (a - (dst + 1))) else ?m a) =
      (if unat (a - dst) < Suc k then m (src + (a - dst)) else m a)" for a
  proof (cases "a = dst")
    case True
    have "k < 2 ^ 32 - 1" using Suc.hyps(2) unat_ULONG_less [of sz] by simp
    then show ?thesis using True by (simp add: unsigned_minus_1_eq_mask mask_eq_exp_minus_1)
  next
    case False
    then have x: "unat (a - dst) = Suc (unat (a - (dst + 1)))" using unat_Suc_pred [of "a - dst"] by (simp add: algebra_simps)
    moreover have "src + (a - dst) \<noteq> dst" if "unat (a - dst) < Suc k"
    proof -
      have "dst + of_nat 0 \<noteq> src + of_nat (unat (a - dst))"
        by (rule Suc.prems(3)) (use that Suc.hyps(2) in simp_all)
      then show ?thesis by simp
    qed
    ultimately show ?thesis using False by (auto simp: algebra_simps)
  qed
  then show ?case using IH lt src Suc.hyps(2) by (subst strncpy_loop.simps) (simp add: Let_def fun_eq_iff)
qed

text \<open>Two counted strings compare equal exactly when they hold the same bytes.\<close>

lemma RtlCompareUnicodeString_eq:
  assumes "NUL \<notin> set (bytes m (us_Buffer a) (unat (us_Length a)))"
  shows "RtlCompareUnicodeString m a b = 0 \<longleftrightarrow>
    bytes m (us_Buffer a) (unat (us_Length a)) = bytes m (us_Buffer b) (unat (us_Length b))"
proof -
  have len: "length (bytes m p n) = n" for p n by (induction n arbitrary: p) simp_all
  have u: "unat (ucast w :: ULONG) = unat w" for w :: USHORT
    using unsigned_less [of w, where ?'a = nat] by (simp add: unsigned_ucast_eq take_bit_nat_eq_self)
  show ?thesis
  proof (cases "us_Length a = us_Length b")
    case True
    then show ?thesis
      using strncmp_bytes [of m "us_Buffer a" "ucast (us_Length a)" "us_Buffer b"] assms
      by (simp add: RtlCompareUnicodeString_def u)
  next
    case False
    then have "bytes m (us_Buffer a) (unat (us_Length a)) \<noteq> bytes m (us_Buffer b) (unat (us_Length b))"
      using len by (metis word_unat_eq_iff)
    then show ?thesis using False by (auto simp: RtlCompareUnicodeString_def)
  qed
qed

section \<open>Properties\<close>

text \<open>C40. \<open>memmove\<close> copies the source block as it was, also when the blocks overlap in either direction, and
  changes nothing outside the destination.\<close>

theorem memmove_correct:
  assumes "unat src + unat n < 2 ^ 32" and "unat dst + unat n \<le> 2 ^ 32"
  shows "memmove m dst src n = (\<lambda>a. if a - dst < n then m (src + (a - dst)) else m a)"
  using memmove_copied [OF assms] by (simp add: copied_def)

theorem memmove_correct_witness:
  "memmove (\<lambda>a. if a = 1 then 10 else if a = 2 then 20 else 0) 2 1 2 3 = 20"
  using memmove_correct [of 1 2 2 "\<lambda>a. if a = 1 then 10 else if a = 2 then 20 else 0"] by simp

text \<open>\<open>strlcpy\<close> writes only inside the destination buffer and leaves a terminated string there, whatever
  the source is; when the source is a string apart from the buffer, the result is that string, cut to the size.\<close>

theorem strlcpy_bounded:
  assumes "0 < sz" and "strlcpy m dst src sz = (k, m')"
  shows "k < sz \<and> m' (dst + k) = NUL \<and> (\<forall>a. sz \<le> a - dst \<longrightarrow> m' a = m a) \<and>
    (\<forall>xs. cstr m src xs \<and> apart dst (length (take (unat sz - 1) xs)) src (length xs) \<longrightarrow>
      k = of_nat (length (take (unat sz - 1) xs)) \<and> cstr m' dst (take (unat sz - 1) xs))"
proof -
  obtain m1 d where l: "strlcpy_loop m dst src sz = (m1, d)" by fastforce
  then have k: "k = d - dst" "m' = m1" using assms by (simp_all add: strlcpy_def)
  have nz: "sz \<noteq> 0" using assms(1) by auto
  show ?thesis
    using strlcpy_loop_bounded [OF nz l] strlcpy_loop_content [OF nz, of m src _ dst] l by (fastforce simp: k)
qed

definition hello :: memory where
  "hello = (\<lambda>a. if a = 100 then 104 else if a = 101 then 105 else 0)"

theorem strlcpy_bounded_witness: "cstr (snd (strlcpy hello 200 100 2)) 200 [104] \<and> fst (strlcpy hello 200 100 2) = 1"
proof -
  have "j = 0 \<or> j = 1 \<or> j = 2" if "j \<le> 2" for j :: nat using that by auto
  then have "apart 200 1 100 2" by (force simp: apart_def le_Suc_eq)
  then have "apart 200 (length (take (unat (2 :: ULONG) - 1) [104 :: UCHAR, 105])) 100 (length [104 :: UCHAR, 105])"
    by (simp add: numeral_2_eq_2 [symmetric])
  moreover have "cstr hello 100 [104, 105]" by (simp add: hello_def)
  ultimately show ?thesis
    using strlcpy_bounded [of 2 hello 200 100 "fst (strlcpy hello 200 100 2)" "snd (strlcpy hello 200 100 2)",
        THEN conjunct2, THEN conjunct2, THEN conjunct2, THEN spec, of "[104, 105]"] by simp
qed

end
