(* ===== verification/Ob.thy ===== *)
theory Ob
  imports Wait KString
begin

text \<open>
  Objects, their reference counts and the handle tables, \<open>ob/ob.c\<close> and \<open>ob/obhandle.c\<close>. An object is known by
  the address of its body, which lies 48 bytes behind its header. The array of a handle table is a page of system
  PTEs; like the pool headers it is kept apart from the physical memory, so a new table holds what the page
  held before. The methods of an object type are numbers, and what they do is a parameter. Object names and
  directories are in a theory of their own.
\<close>

section \<open>State\<close>

abbreviation (input) OBJECT_HEADER_MAGIC :: ULONG where "OBJECT_HEADER_MAGIC \<equiv> 0x12121212"
abbreviation (input) OBJ_INHERIT :: ULONG where "OBJ_INHERIT \<equiv> 0x2"
abbreviation (input) OBJ_PERMANENT :: ULONG where "OBJ_PERMANENT \<equiv> 0x10"
abbreviation (input) OB_INVALID_HANDLE :: ULONG where "OB_INVALID_HANDLE \<equiv> - 1"
abbreviation (input) EX_MAX_HANDLE :: nat where "EX_MAX_HANDLE \<equiv> 1024"
abbreviation (input) OBJECT_TYPE_LAST :: nat where "OBJECT_TYPE_LAST \<equiv> 12"

type_synonym HANDLE = ULONG

record OBJECT_TYPE =
  ot_PoolType :: POOL_TYPE
  ot_FLAGS :: ULONG
  ot_ObjectSize :: ULONG
  ot_TypeIndex :: nat
  ot_PoolTag :: ULONG
  ot_Object_List_Head :: "PVOID list_head"
  ot_OpenProcedure :: "nat option"
  ot_CloseProcedure :: "nat option"

record OBJECT_HEADER =
  oh_Magic :: ULONG
  oh_ObjectType :: "nat option"
  oh_OpenHandleCount :: LONG
  oh_RefCount :: LONG
  oh_ObjectName :: UNICODE_STRING
  oh_Attributes :: ULONG

text \<open>The handle table of a process, and the one the process manager draws process identifiers from.\<close>

datatype handle_table = ProcessTable nat | PidTable

record ob_state = sched_state +
  ObjectTypeList :: "nat \<Rightarrow> OBJECT_TYPE"
  ObjectHeaders :: "PVOID \<Rightarrow> OBJECT_HEADER"
  ObjectTypeListLink :: "PVOID links"
  HandlePtr :: "handle_table \<Rightarrow> PVOID"
  HandleArray :: "PVOID \<Rightarrow> nat \<Rightarrow> PVOID"

definition OBJECT_TO_OBJECT_HEADER :: "PVOID \<Rightarrow> PVOID" where
  "OBJECT_TO_OBJECT_HEADER Object = Object - 48"

definition header :: "PVOID \<Rightarrow> 'a ob_state_scheme \<Rightarrow> OBJECT_HEADER" where
  "header Object s = ObjectHeaders s (OBJECT_TO_OBJECT_HEADER Object)"

definition set_object :: "PVOID \<Rightarrow> (OBJECT_HEADER \<Rightarrow> OBJECT_HEADER) \<Rightarrow> 'a ob_state_scheme \<Rightarrow> 'a ob_state_scheme" where
  "set_object Object f s = s\<lparr>ObjectHeaders := (ObjectHeaders s)(OBJECT_TO_OBJECT_HEADER Object := f (header Object s))\<rparr>"

definition set_handle :: "PVOID \<Rightarrow> nat \<Rightarrow> PVOID \<Rightarrow> 'a ob_state_scheme \<Rightarrow> 'a ob_state_scheme" where
  "set_handle h i v s = s\<lparr>HandleArray := (HandleArray s)(h := (HandleArray s h)(i := v))\<rparr>"

type_synonym 's object_methods = "nat \<Rightarrow> PVOID \<Rightarrow> 's \<Rightarrow> fault + (KSTATUS \<times> 's)"

section \<open>Object types\<close>

text \<open>\<open>saved\<close> is the pointer to the type kept by the caller, still null.\<close>

definition ObCreateObjectType ::
  "OBJECT_TYPE \<Rightarrow> nat option \<Rightarrow> 'a ob_state_scheme \<Rightarrow> fault + (nat \<times> 'a ob_state_scheme)" where
  "ObCreateObjectType ty saved s =
     ASSERT ''ObCreateObjectType: TypeIndex < OBJECT_TYPE_LAST'' (ot_TypeIndex ty < OBJECT_TYPE_LAST)
     (ASSERT ''ObCreateObjectType: *SavedObjectType == NULL'' (saved = None)
     (let s = s\<lparr>ObjectTypeList := (ObjectTypeList s)(ot_TypeIndex ty := ty\<lparr>ot_Object_List_Head := LIST_INIT\<rparr>)\<rparr>
      in Inr (ot_TypeIndex ty, KeInitializeSpinLock (ObjectTypeLock (ot_TypeIndex ty)) s)))"

definition type_list :: "nat \<Rightarrow> 'a ob_state_scheme \<Rightarrow> PVOID klist" where
  "type_list ty s = (ObjectTypeListLink s, ot_Object_List_Head (ObjectTypeList s ty))"

definition set_type_list :: "nat \<Rightarrow> PVOID klist \<Rightarrow> 'a ob_state_scheme \<Rightarrow> 'a ob_state_scheme" where
  "set_type_list ty l s = s\<lparr>ObjectTypeListLink := fst l,
     ObjectTypeList := (ObjectTypeList s)(ty := ObjectTypeList s ty\<lparr>ot_Object_List_Head := snd l\<rparr>)\<rparr>"

section \<open>References\<close>

definition ObIsValidObject :: "PVOID \<Rightarrow> 'a ob_state_scheme \<Rightarrow> bool" where
  "ObIsValidObject Object s \<longleftrightarrow> oh_Magic (header Object s) = OBJECT_HEADER_MAGIC"

definition ObIsObjectInheritable :: "PVOID \<Rightarrow> 'a ob_state_scheme \<Rightarrow> fault + bool" where
  "ObIsObjectInheritable Object s =
     ASSERT ''ObIsObjectInheritable: ObIsValidObject(Object)'' (ObIsValidObject Object s)
     (Inr (oh_Attributes (header Object s) AND OBJ_INHERIT \<noteq> 0))"

definition ObRemoveObject ::
  "'a ob_state_scheme object_methods \<Rightarrow> 'a ob_state_scheme deferred_routines \<Rightarrow> nat \<Rightarrow> PVOID \<Rightarrow> 'a ob_state_scheme \<Rightarrow>
   fault + 'a ob_state_scheme" where
  "ObRemoveObject call run fuel Object s =
     ASSERT ''ObRemoveObject: RefCount == 0'' (oh_RefCount (header Object s) = 0)
     (ASSERT ''ObRemoveObject: OpenHandleCount == 0'' (oh_OpenHandleCount (header Object s) = 0)
     (ASSERT ''ObRemoveObject: not OBJ_PERMANENT'' (oh_Attributes (header Object s) AND OBJ_PERMANENT = 0)
     (deref (oh_ObjectType (header Object s)) (\<lambda>ty.
      bind (case ot_CloseProcedure (ObjectTypeList s ty) of None \<Rightarrow> Inr (STATUS_SUCCESS, s) | Some p \<Rightarrow> call p Object s) (\<lambda>(_, s).
      bind (KeAcquireSpinLock (ObjectTypeLock ty) s) (\<lambda>(Old, s).
      bind (LIST_REMOVE (OBJECT_TO_OBJECT_HEADER Object) (type_list ty s)) (\<lambda>l.
      bind (KeReleaseSpinLock run fuel (ObjectTypeLock ty) Old (set_type_list ty l s)) (\<lambda>s.
      MmFreePoolWithTag run fuel (OBJECT_TO_OBJECT_HEADER Object) (ot_PoolTag (ObjectTypeList s ty)) s))))))))"

definition ObCloseObject ::
  "'a ob_state_scheme object_methods \<Rightarrow> 'a ob_state_scheme deferred_routines \<Rightarrow> nat \<Rightarrow> PVOID \<Rightarrow> ULONG \<Rightarrow> 'a ob_state_scheme \<Rightarrow>
   fault + 'a ob_state_scheme" where
  "ObCloseObject call run fuel Object HandleCount s =
     ASSERT ''ObCloseObject: RefCount >= 1'' (1 \<le> sint (oh_RefCount (header Object s)))
     (if oh_Attributes (header Object s) AND OBJ_PERMANENT \<noteq> 0
      then ASSERT ''ObCloseObject: ObjectName.Buffer != NULL'' (us_Buffer (oh_ObjectName (header Object s)) \<noteq> 0) (Inr s)
      else
        let s = (if HandleCount \<noteq> 0
          then set_object Object (\<lambda>h. h\<lparr>oh_OpenHandleCount := snd (InterlockedExchangeAdd (oh_OpenHandleCount h) (- HandleCount)),
            oh_RefCount := snd (InterlockedExchangeAdd (oh_RefCount h) (- HandleCount))\<rparr>) s
          else set_object Object (\<lambda>h. h\<lparr>oh_RefCount := snd (InterlockedDecrement (oh_RefCount h))\<rparr>) s)
        in if 0 < sint (oh_RefCount (header Object s)) then Inr s else ObRemoveObject call run fuel Object s)"

definition ObDereferenceObject ::
  "'a ob_state_scheme object_methods \<Rightarrow> 'a ob_state_scheme deferred_routines \<Rightarrow> nat \<Rightarrow> PVOID \<Rightarrow> 'a ob_state_scheme \<Rightarrow>
   fault + 'a ob_state_scheme" where
  "ObDereferenceObject call run fuel Object s =
     ASSERT ''ObDereferenceObject: ObIsValidObject(Object)'' (ObIsValidObject Object s) (ObCloseObject call run fuel Object 0 s)"

definition ObIncrementHandleCount :: "PVOID \<Rightarrow> 'a ob_state_scheme \<Rightarrow> fault + 'a ob_state_scheme" where
  "ObIncrementHandleCount Object s =
     bind (KeGetCurrentIrql s) (\<lambda>irql.
     ASSERT ''ObIncrementHandleCount: IRQL <= DISPATCH_LEVEL'' (irql \<le> DISPATCH_LEVEL)
     (ASSERT ''ObIncrementHandleCount: RefCount > 0'' (0 < sint (oh_RefCount (header Object s)))
     (Inr (set_object Object (\<lambda>h. h\<lparr>oh_OpenHandleCount := snd (InterlockedIncrement (oh_OpenHandleCount h))\<rparr>) s))))"

definition ObReferenceObject :: "PVOID \<Rightarrow> 'a ob_state_scheme \<Rightarrow> fault + 'a ob_state_scheme" where
  "ObReferenceObject Object s =
     bind (KeGetCurrentIrql s) (\<lambda>irql.
     ASSERT ''ObReferenceObject: IRQL <= DISPATCH_LEVEL'' (irql \<le> DISPATCH_LEVEL)
     (ASSERT ''ObReferenceObject: RefCount != 0'' (oh_RefCount (header Object s) \<noteq> 0)
     (ASSERT ''ObReferenceObject: ObIsValidObject(Object)'' (ObIsValidObject Object s)
     (Inr (set_object Object (\<lambda>h. h\<lparr>oh_RefCount := snd (InterlockedIncrement (oh_RefCount h))\<rparr>) s)))))"

definition ObReferenceObjectByPointer ::
  "PVOID \<Rightarrow> nat option \<Rightarrow> 'a ob_state_scheme \<Rightarrow> fault + (KSTATUS \<times> 'a ob_state_scheme)" where
  "ObReferenceObjectByPointer Object ty s =
     bind (KeGetCurrentIrql s) (\<lambda>irql.
     ASSERT ''ObReferenceObjectByPointer: IRQL <= DISPATCH_LEVEL'' (irql \<le> DISPATCH_LEVEL)
     (ASSERT ''ObReferenceObjectByPointer: ObjectType'' (oh_ObjectType (header Object s) = ty)
     (ASSERT ''ObReferenceObjectByPointer: RefCount'' (oh_RefCount (header Object s) \<noteq> 0)
     (bind (ObReferenceObject Object s) (\<lambda>s. Inr (STATUS_SUCCESS, s))))))"

section \<open>Handle tables\<close>

definition InterlockedCompareExchangePointer :: "PVOID \<Rightarrow> PVOID \<Rightarrow> PVOID \<Rightarrow> PVOID \<times> PVOID" where
  "InterlockedCompareExchangePointer Destination Exchange Comperand =
     (Destination, if Destination = Comperand then Exchange else Destination)"

fun insert_loop :: "PVOID \<Rightarrow> PVOID \<Rightarrow> nat list \<Rightarrow> 'a ob_state_scheme \<Rightarrow> fault + (nat option \<times> 'a ob_state_scheme)" where
  "insert_loop h Object [] s = Inr (None, s)"
| "insert_loop h Object (i # is) s =
     (let (RetValue, v) = InterlockedCompareExchangePointer (HandleArray s h i) Object OB_INVALID_HANDLE;
          s = set_handle h i v s
      in if RetValue = OB_INVALID_HANDLE
         then ASSERT ''ObInsertHandle: Handle[i].Object == Object'' (HandleArray s h i = Object) (Inr (Some i, s))
         else insert_loop h Object is s)"

definition ObInsertHandle :: "PVOID \<Rightarrow> handle_table \<Rightarrow> 'a ob_state_scheme \<Rightarrow> fault + (KSTATUS \<times> HANDLE \<times> 'a ob_state_scheme)" where
  "ObInsertHandle Object HandleTable s =
     ASSERT ''ObInsertHandle: Object'' (Object \<noteq> 0)
     (bind (insert_loop (HandlePtr s HandleTable) Object [0..<EX_MAX_HANDLE] s) (\<lambda>(Found, s).
      case Found of
        Some i \<Rightarrow>
          ASSERT ''ObInsertHandle: i < EX_MAX_HANDLE'' (i < EX_MAX_HANDLE)
          (ASSERT ''ObInsertHandle: Handle[i].Object == Object'' (HandleArray s (HandlePtr s HandleTable) i = Object)
          (Inr (STATUS_SUCCESS, of_nat i, s)))
      | None \<Rightarrow> Inr (STATUS_TOO_MANY_OPENED_FILES, OB_INVALID_HANDLE, s)))"

definition ASSERT_handle :: "string \<Rightarrow> HANDLE \<Rightarrow> fault + 'b \<Rightarrow> fault + 'b" where
  "ASSERT_handle msg Handle k =
     ASSERT (msg @ '': Handle < EX_MAX_HANDLE'') (Handle < of_nat EX_MAX_HANDLE)
     (ASSERT (msg @ '': Handle != OB_INVALID_HANDLE'') (Handle \<noteq> OB_INVALID_HANDLE) k)"

definition ObRemoveHandle :: "HANDLE \<Rightarrow> handle_table \<Rightarrow> PVOID \<Rightarrow> 'a ob_state_scheme \<Rightarrow> fault + 'a ob_state_scheme" where
  "ObRemoveHandle Handle HandleTable Object s =
     ASSERT_handle ''ObRemoveHandle'' Handle
     (ASSERT ''ObRemoveHandle: Handle[Handle].Object == Object'' (HandleArray s (HandlePtr s HandleTable) (unat Handle) = Object)
     (Inr (set_handle (HandlePtr s HandleTable) (unat Handle) OB_INVALID_HANDLE s)))"

definition ObLookupObjectByHandle :: "HANDLE \<Rightarrow> handle_table \<Rightarrow> 'a ob_state_scheme \<Rightarrow> fault + (KSTATUS \<times> PVOID)" where
  "ObLookupObjectByHandle Handle HandleTable s =
     ASSERT_handle ''ObLookupObjectByHandle'' Handle
     (Inr (STATUS_SUCCESS, HandleArray s (HandlePtr s HandleTable) (unat Handle)))"

definition PsGetCurrentProcess :: "'a ob_state_scheme \<Rightarrow> nat option" where
  "PsGetCurrentProcess s = (case KeGetCurrentThread s of None \<Rightarrow> None | Some t \<Rightarrow> tcb_ThreadProcess (Tcbs s t))"

definition ObReferenceObjectByHandle ::
  "HANDLE \<Rightarrow> nat option \<Rightarrow> 'a ob_state_scheme \<Rightarrow> fault + (KSTATUS \<times> PVOID \<times> 'a ob_state_scheme)" where
  "ObReferenceObjectByHandle Handle ty s =
     ASSERT ''ObReferenceObjectByHandle: CurrentProcess'' (PsGetCurrentProcess s \<noteq> None)
     (deref (PsGetCurrentProcess s) (\<lambda>process.
      bind (ObLookupObjectByHandle Handle (ProcessTable process) s) (\<lambda>(Status, Object).
      if \<not> success Status then Inl (KeBugCheck ''Failed to get the object from handle'')
      else bind (ObReferenceObjectByPointer Object ty s) (\<lambda>(Status, s).
        ASSERT ''ObReferenceObjectByHandle: 0'' (success Status) (Inr (STATUS_SUCCESS, Object, s))))))"

text \<open>\<open>ObClose\<close> asks for an object of the type null, and leaves the handle in the table.\<close>

definition ObClose ::
  "'a ob_state_scheme object_methods \<Rightarrow> 'a ob_state_scheme deferred_routines \<Rightarrow> nat \<Rightarrow> HANDLE \<Rightarrow> 'a ob_state_scheme \<Rightarrow>
   fault + 'a ob_state_scheme" where
  "ObClose call run fuel Handle s =
     bind (ObReferenceObjectByHandle Handle None s) (\<lambda>(Status, Object, s).
     ASSERT ''ObClose: K_SUCCESS(Status)'' (success Status)
     (bind (ObDereferenceObject call run fuel Object s) (ObCloseObject call run fuel Object 1)))"

definition ObInsertObject :: "PVOID \<Rightarrow> 'a ob_state_scheme \<Rightarrow> fault + (KSTATUS \<times> HANDLE \<times> 'a ob_state_scheme)" where
  "ObInsertObject Object s =
     ASSERT ''ObInsertObject: Process'' (PsGetCurrentProcess s \<noteq> None)
     (deref (PsGetCurrentProcess s) (\<lambda>process.
      bind (ObInsertHandle Object (ProcessTable process) s) (\<lambda>(Status, Handle, s).
      if \<not> success Status then Inr (Status, Handle, s)
      else bind (ObIncrementHandleCount Object s) (\<lambda>s. Inr (STATUS_SUCCESS, Handle, s)))))"

definition deref_entry ::
  "'a ob_state_scheme object_methods \<Rightarrow> 'a ob_state_scheme deferred_routines \<Rightarrow> nat \<Rightarrow> PVOID \<Rightarrow> nat \<Rightarrow> 'a ob_state_scheme \<Rightarrow>
   fault + 'a ob_state_scheme" where
  "deref_entry call run fuel h i s =
     (if HandleArray s h i \<noteq> OB_INVALID_HANDLE
      then bind (ObDereferenceObject call run fuel (HandleArray s h i) s) (\<lambda>s. Inr (set_handle h i OB_INVALID_HANDLE s))
      else Inr s)"

definition ObDerefAllHandleTableObjects ::
  "'a ob_state_scheme object_methods \<Rightarrow> 'a ob_state_scheme deferred_routines \<Rightarrow> nat \<Rightarrow> handle_table \<Rightarrow> 'a ob_state_scheme \<Rightarrow>
   fault + 'a ob_state_scheme" where
  "ObDerefAllHandleTableObjects call run fuel HandleTable s =
     foldE (deref_entry call run fuel (HandlePtr s HandleTable)) [0..<EX_MAX_HANDLE] s"

text \<open>The 1024 entries of 4 bytes are one page.\<close>

definition ObFreeHandleTable ::
  "'a ob_state_scheme object_methods \<Rightarrow> 'a ob_state_scheme deferred_routines \<Rightarrow> nat \<Rightarrow> handle_table \<Rightarrow> 'a ob_state_scheme \<Rightarrow>
   fault + 'a ob_state_scheme" where
  "ObFreeHandleTable call run fuel HandleTable s =
     bind (ObDerefAllHandleTableObjects call run fuel HandleTable s) (\<lambda>s.
     MmFreeSystemPtes run fuel (HandlePtr s HandleTable) 1 s)"

definition inherit_entry :: "bool \<Rightarrow> PVOID \<Rightarrow> PVOID \<Rightarrow> nat \<Rightarrow> 'a ob_state_scheme \<Rightarrow> fault + 'a ob_state_scheme" where
  "inherit_entry IsClone from h i s =
     (let Object = HandleArray s from i in
      if Object = OB_INVALID_HANDLE \<or> Object = 0 then Inr s
      else bind (if IsClone then Inr True else ObIsObjectInheritable Object s) (\<lambda>inherit.
        if inherit then bind (ObReferenceObject Object s) (\<lambda>s. Inr (set_handle h i Object s))
        else Inr (set_handle h i OB_INVALID_HANDLE s)))"

definition clear_entry :: "PVOID \<Rightarrow> nat \<Rightarrow> 'a ob_state_scheme \<Rightarrow> fault + 'a ob_state_scheme" where
  "clear_entry h i s = Inr (set_handle h i OB_INVALID_HANDLE s)"

definition ObAllocateHandleTable ::
  "'a ob_state_scheme deferred_routines \<Rightarrow> nat \<Rightarrow> handle_table \<Rightarrow> handle_table option \<Rightarrow> bool \<Rightarrow> 'a ob_state_scheme \<Rightarrow>
   fault + (KSTATUS \<times> 'a ob_state_scheme)" where
  "ObAllocateHandleTable run fuel HandleTable InheritHandleTable IsClone s =
     ASSERT ''ObAllocateHandleTable: InheritHandleTable'' (IsClone \<longrightarrow> InheritHandleTable \<noteq> None)
     (bind (MmAllocateSystemPtes run fuel 1 s) (\<lambda>(Memory, s).
      if Memory = 0 then Inr (STATUS_INSUFFICIENT_RESOURCES, s)
      else
        let s = s\<lparr>HandlePtr := (HandlePtr s)(HandleTable := Memory)\<rparr> in
        bind (case InheritHandleTable of
            Some t \<Rightarrow> foldE (inherit_entry IsClone (HandlePtr s t) Memory) [0..<EX_MAX_HANDLE] s
          | None \<Rightarrow> foldE (clear_entry Memory) [0..<EX_MAX_HANDLE] s) (\<lambda>s.
        Inr (STATUS_SUCCESS, s))))"

section \<open>Handles\<close>

lemma header_inj [simp]: "OBJECT_TO_OBJECT_HEADER a = OBJECT_TO_OBJECT_HEADER b \<longleftrightarrow> a = b"
  by (simp add: OBJECT_TO_OBJECT_HEADER_def)

lemma set_object_sel [simp]:
  "header a (set_object b f s) = (if a = b then f (header b s) else header a s)" "HandleArray (set_object b f s) = HandleArray s"
  "HandlePtr (set_object b f s) = HandlePtr s" "CurrentIrql (set_object b f s) = CurrentIrql s" "hal_ok (set_object b f s) = hal_ok s"
  "ObjectTypeList (set_object b f s) = ObjectTypeList s" "ObjectTypeListLink (set_object b f s) = ObjectTypeListLink s"
  by (auto simp: set_object_def header_def hal_ok_def)

lemma set_handle_sel [simp]:
  "header a (set_handle h i v s) = header a s" "HandleArray (set_handle h i v s) = (HandleArray s)(h := (HandleArray s h)(i := v))"
  "HandlePtr (set_handle h i v s) = HandlePtr s" "CurrentIrql (set_handle h i v s) = CurrentIrql s" "hal_ok (set_handle h i v s) = hal_ok s"
  "ObjectHeaders (set_handle h i v s) = ObjectHeaders s"
  by (auto simp: set_handle_def header_def hal_ok_def)

lemma set_handle_same [simp]: "set_handle h i (HandleArray s h i) s = s"
  by (simp add: set_handle_def)

lemma set_handle_twice [simp]: "set_handle h i v (set_handle h i w s) = set_handle h i v s"
  by (simp add: set_handle_def)

lemma insert_loop_eq:
  "insert_loop h ob is s = (case find (\<lambda>i. HandleArray s h i = OB_INVALID_HANDLE) is of
     None \<Rightarrow> Inr (None, s) | Some i \<Rightarrow> Inr (Some i, set_handle h i ob s))"
  by (induction "is") (auto simp: InterlockedCompareExchangePointer_def Let_def)

lemma find_upt_Some: "i < n \<Longrightarrow> P i \<Longrightarrow> \<forall>j < i. \<not> P j \<Longrightarrow> find P [0..<n] = Some i"
  by (subst find_Some_iff) (auto intro!: exI [of _ i])

lemma ObInsertHandle_eq:
  assumes "ob \<noteq> 0"
  shows "ObInsertHandle ob t s = (case find (\<lambda>i. HandleArray s (HandlePtr s t) i = OB_INVALID_HANDLE) [0..<EX_MAX_HANDLE] of
     None \<Rightarrow> Inr (STATUS_TOO_MANY_OPENED_FILES, OB_INVALID_HANDLE, s)
   | Some i \<Rightarrow> Inr (STATUS_SUCCESS, of_nat i, set_handle (HandlePtr s t) i ob s))"
  using assms by (auto simp: ObInsertHandle_def insert_loop_eq split: option.split dest!: find_Some_iff [THEN iffD1])

lemma handle_number: "i < EX_MAX_HANDLE \<Longrightarrow> unat (of_nat i :: HANDLE) = i" "i < EX_MAX_HANDLE \<Longrightarrow> (of_nat i :: HANDLE) < 0x400"
  "i < EX_MAX_HANDLE \<Longrightarrow> (of_nat i :: HANDLE) \<noteq> OB_INVALID_HANDLE"
proof -
  assume i: "i < EX_MAX_HANDLE"
  then show u: "unat (of_nat i :: HANDLE) = i" by (intro unat_of_nat32) simp
  then show lt: "(of_nat i :: HANDLE) < 0x400" using i by (simp add: word_less_nat_alt)
  have "\<not> (- 1 :: HANDLE) < 0x400" by simp
  then show "(of_nat i :: HANDLE) \<noteq> OB_INVALID_HANDLE" using lt by metis
qed

section \<open>Reference counts\<close>

text \<open>An object that a thread at a low level may reference and dereference without removing it.\<close>

definition live :: "PVOID \<Rightarrow> 'a ob_state_scheme \<Rightarrow> bool" where
  "live ob s \<longleftrightarrow> ObIsValidObject ob s \<and> 0 < sint (oh_RefCount (header ob s)) \<and>
     sint (oh_RefCount (header ob s)) < 2 ^ 31 - 1 \<and> oh_Attributes (header ob s) AND OBJ_PERMANENT = 0"

definition add_refs :: "int \<Rightarrow> PVOID \<Rightarrow> 'a ob_state_scheme \<Rightarrow> 'a ob_state_scheme" where
  "add_refs k ob s = set_object ob (\<lambda>h. h\<lparr>oh_RefCount := oh_RefCount h + of_int k\<rparr>) s"

lemma ObReferenceObject_live:
  "live ob s \<Longrightarrow> hal_ok s \<Longrightarrow> CurrentIrql s \<le> DISPATCH_LEVEL \<Longrightarrow> ObReferenceObject ob s = Inr (add_refs 1 ob s)"
proof -
  assume a: "live ob s" "hal_ok s" "CurrentIrql s \<le> DISPATCH_LEVEL"
  then have "oh_RefCount (header ob s) \<noteq> 0" by (auto simp: live_def)
  with a show ?thesis
    by (simp add: ObReferenceObject_def live_def hal_ok_irql InterlockedIncrement_def InterlockedExchangeAdd_def add_refs_def)
qed

lemma sint_plus_nat: "0 \<le> sint v \<Longrightarrow> sint v + int k < 2 ^ 31 \<Longrightarrow> sint (v + of_nat k :: LONG) = sint v + int k"
  by (simp add: sint_word_ariths signed_of_nat signed_take_bit_int_eq_self)

lemma sint_pred_pos: "1 < sint (v :: LONG) \<Longrightarrow> sint (v - 1) = sint v - 1"
  by (rule sint_pred) simp

lemma ObDereferenceObject_shared:
  assumes "ObIsValidObject ob s" "1 < sint (oh_RefCount (header ob s))" "oh_Attributes (header ob s) AND OBJ_PERMANENT = 0"
  shows "ObDereferenceObject call run fuel ob s = Inr (add_refs (- 1) ob s)"
  using assms sint_pred_pos [OF assms(2)]
  by (simp add: ObDereferenceObject_def ObCloseObject_def InterlockedDecrement_def InterlockedExchangeAdd_def add_refs_def Let_def)

lemma add_refs_sel [simp]:
  "header a (add_refs k b s) = (if a = b then header b s\<lparr>oh_RefCount := oh_RefCount (header b s) + of_int k\<rparr> else header a s)"
  "HandleArray (add_refs k b s) = HandleArray s" "HandlePtr (add_refs k b s) = HandlePtr s"
  "CurrentIrql (add_refs k b s) = CurrentIrql s" "hal_ok (add_refs k b s) = hal_ok s"
  by (simp_all add: add_refs_def)

section \<open>Inheriting and freeing a table\<close>

text \<open>How many of the first handles of a table refer to an object.\<close>

definition handles_to :: "(nat \<Rightarrow> PVOID) \<Rightarrow> nat \<Rightarrow> PVOID \<Rightarrow> nat" where
  "handles_to a n ob = length (filter (\<lambda>i. a i = ob) [0..<n])"

definition in_use :: "PVOID \<Rightarrow> bool" where
  "in_use ob \<longleftrightarrow> ob \<noteq> OB_INVALID_HANDLE \<and> ob \<noteq> 0"

lemma handles_to_Suc: "handles_to a (Suc n) ob = handles_to a n ob + (if a n = ob then 1 else 0)"
  by (simp add: handles_to_def)

lemma handles_to_le: "handles_to a n ob \<le> n"
  unfolding handles_to_def using length_filter_le [of _ "[0..<n]"] by simp

text \<open>The headers when \<open>r\<close> references have been added to each object that is in use.\<close>

definition counted :: "'a ob_state_scheme \<Rightarrow> (PVOID \<Rightarrow> nat) \<Rightarrow> 'a ob_state_scheme \<Rightarrow> bool" where
  "counted s r s' \<longleftrightarrow> (\<forall>ob. header ob s' =
     (if in_use ob then header ob s\<lparr>oh_RefCount := oh_RefCount (header ob s) + of_nat (r ob)\<rparr> else header ob s))"

lemma inherit_loop:
  assumes hal: "hal_ok s" "CurrentIrql s \<le> DISPATCH_LEVEL" and ne: "h \<noteq> c" and n: "n \<le> EX_MAX_HANDLE"
    and lv: "\<And>i. i < EX_MAX_HANDLE \<Longrightarrow> in_use (HandleArray s h i) \<Longrightarrow> live (HandleArray s h i) s \<and>
      sint (oh_RefCount (header (HandleArray s h i) s)) < 2 ^ 31 - 2048"
  shows "\<exists>s'. foldE (inherit_entry True h c) [0..<n] s = Inr s' \<and> hal_ok s' \<and> CurrentIrql s' = CurrentIrql s \<and>
    HandleArray s' = (HandleArray s)(c := \<lambda>i. if i < n \<and> in_use (HandleArray s h i) then HandleArray s h i else HandleArray s c i) \<and>
    HandlePtr s' = HandlePtr s \<and> counted s (handles_to (HandleArray s h) n) s'"
  using n
proof (induction n)
  case 0
  then show ?case using hal by (simp add: counted_def handles_to_def)
next
  case (Suc n)
  let ?ob = "HandleArray s h n"
  have "n \<le> EX_MAX_HANDLE" using Suc.prems by simp
  from Suc.IH [OF this] obtain s1 where s1: "foldE (inherit_entry True h c) [0..<n] s = Inr s1" "hal_ok s1" "CurrentIrql s1 = CurrentIrql s"
    "HandleArray s1 = (HandleArray s)(c := \<lambda>i. if i < n \<and> in_use (HandleArray s h i) then HandleArray s h i else HandleArray s c i)"
    "HandlePtr s1 = HandlePtr s" "counted s (handles_to (HandleArray s h) n) s1" by blast
  have at: "HandleArray s1 h n = ?ob" using ne by (simp add: s1(4))
  show ?case
  proof (cases "in_use ?ob")
    case False
    then have "inherit_entry True h c n s1 = Inr s1" by (auto simp: inherit_entry_def at in_use_def Let_def)
    moreover have "counted s (handles_to (HandleArray s h) (Suc n)) s1"
      using s1(6) False by (auto simp: counted_def handles_to_Suc)
    moreover have "(i < Suc n \<and> in_use (HandleArray s h i)) = (i < n \<and> in_use (HandleArray s h i))" for i
      using False by (auto simp: less_Suc_eq)
    ultimately show ?thesis using s1 by (intro exI [of _ s1]) (simp add: foldE_append)
  next
    case True
    have hd: "header ?ob s1 = header ?ob s\<lparr>oh_RefCount := oh_RefCount (header ?ob s) + of_nat (handles_to (HandleArray s h) n ?ob)\<rparr>"
      using s1(6) True by (simp add: counted_def)
    have k: "handles_to (HandleArray s h) n ?ob \<le> 1024" using handles_to_le [of "HandleArray s h" n ?ob] Suc.prems by simp
    have "live ?ob s" "sint (oh_RefCount (header ?ob s)) < 2 ^ 31 - 2048" using lv [of n] True Suc.prems by auto
    then have "live ?ob s1" using k by (auto simp: live_def hd ObIsValidObject_def sint_plus_nat)
    then have "ObReferenceObject ?ob s1 = Inr (add_refs 1 ?ob s1)" using s1 hal by (intro ObReferenceObject_live) simp_all
    then have "inherit_entry True h c n s1 = Inr (set_handle c n ?ob (add_refs 1 ?ob s1))"
      using True by (simp add: inherit_entry_def at in_use_def Let_def)
    moreover have "counted s (handles_to (HandleArray s h) (Suc n)) (set_handle c n ?ob (add_refs 1 ?ob s1))"
      using s1(6) True by (auto simp: counted_def handles_to_Suc add.assoc)
    ultimately show ?thesis
      using s1 True by (intro exI [of _ "set_handle c n ?ob (add_refs 1 ?ob s1)"]) (auto simp: foldE_append fun_eq_iff less_Suc_eq)
  qed
qed

lemma handles_to_mono: "m \<le> n \<Longrightarrow> handles_to a m ob \<le> handles_to a n ob"
  by (induction n) (auto simp: handles_to_Suc le_Suc_eq)

lemma deref_loop:
  assumes b: "\<And>i. i < EX_MAX_HANDLE \<Longrightarrow> HandleArray s1 c i = OB_INVALID_HANDLE \<or> in_use (HandleArray s1 c i)"
    and lv: "\<And>i. i < EX_MAX_HANDLE \<Longrightarrow> in_use (HandleArray s1 c i) \<Longrightarrow> live (HandleArray s1 c i) s \<and>
      sint (oh_RefCount (header (HandleArray s1 c i) s)) < 2 ^ 31 - 2048"
    and r: "\<And>ob. handles_to (HandleArray s1 c) EX_MAX_HANDLE ob \<le> r ob" "\<And>ob. r ob \<le> EX_MAX_HANDLE"
    and cnt: "counted s r s1" and n: "n \<le> EX_MAX_HANDLE"
  shows "\<exists>s'. foldE (deref_entry call run fuel c) [0..<n] s1 = Inr s' \<and>
    HandleArray s' = (HandleArray s1)(c := \<lambda>i. if i < n then OB_INVALID_HANDLE else HandleArray s1 c i) \<and>
    HandlePtr s' = HandlePtr s1 \<and> counted s (\<lambda>ob. r ob - handles_to (HandleArray s1 c) n ob) s'"
  using n
proof (induction n)
  case 0
  then show ?case using cnt by (simp add: handles_to_def)
next
  case (Suc n)
  let ?ob = "HandleArray s1 c n"
  let ?r = "\<lambda>n ob. r ob - handles_to (HandleArray s1 c) n ob"
  have "n \<le> EX_MAX_HANDLE" using Suc.prems by simp
  from Suc.IH [OF this] obtain s2 where s2: "foldE (deref_entry call run fuel c) [0..<n] s1 = Inr s2"
    "HandleArray s2 = (HandleArray s1)(c := \<lambda>i. if i < n then OB_INVALID_HANDLE else HandleArray s1 c i)"
    "HandlePtr s2 = HandlePtr s1" "counted s (?r n) s2" by blast
  have at: "HandleArray s2 c n = ?ob" by (simp add: s2(2))
  show ?case
  proof (cases "?ob = OB_INVALID_HANDLE")
    case True
    then have "deref_entry call run fuel c n s2 = Inr s2" by (simp add: deref_entry_def at)
    moreover have "counted s (?r (Suc n)) s2" using s2(4) True by (auto simp: counted_def handles_to_Suc in_use_def)
    ultimately show ?thesis
      using s2 True by (intro exI [of _ s2]) (auto simp: foldE_append fun_eq_iff less_Suc_eq)
  next
    case False
    then have iu: "in_use ?ob" using b [of n] Suc.prems by auto
    have hd: "header ?ob s2 = header ?ob s\<lparr>oh_RefCount := oh_RefCount (header ?ob s) + of_nat (?r n ?ob)\<rparr>"
      using s2(4) iu by (simp add: counted_def)
    have k: "Suc (handles_to (HandleArray s1 c) n ?ob) \<le> r ?ob"
      using r(1) [of ?ob] handles_to_mono [OF Suc.prems, of "HandleArray s1 c" ?ob] by (simp add: handles_to_Suc)
    have l: "live ?ob s" "sint (oh_RefCount (header ?ob s)) < 2 ^ 31 - 2048" using lv [of n] iu Suc.prems by auto
    have "sint (oh_RefCount (header ?ob s2)) = sint (oh_RefCount (header ?ob s)) + int (?r n ?ob)"
      using l r(2) [of ?ob] by (simp add: hd live_def sint_plus_nat)
    then have "1 < sint (oh_RefCount (header ?ob s2))" using l k by (simp add: live_def)
    then have "ObDereferenceObject call run fuel ?ob s2 = Inr (add_refs (- 1) ?ob s2)"
      using l by (intro ObDereferenceObject_shared) (simp_all add: hd live_def ObIsValidObject_def)
    then have "deref_entry call run fuel c n s2 = Inr (set_handle c n OB_INVALID_HANDLE (add_refs (- 1) ?ob s2))"
      using False by (simp add: deref_entry_def at)
    moreover have "counted s (?r (Suc n)) (set_handle c n OB_INVALID_HANDLE (add_refs (- 1) ?ob s2))"
      using s2(4) k iu by (auto simp: counted_def handles_to_Suc of_nat_diff Suc_diff_Suc)
    ultimately show ?thesis
      using s2 by (intro exI [of _ "set_handle c n OB_INVALID_HANDLE (add_refs (- 1) ?ob s2)"])
        (auto simp: foldE_append fun_eq_iff less_Suc_eq)
  qed
qed

section \<open>Removing an object\<close>

lemma type_list_more:
  fixes s t :: "'a ob_state_scheme"
  assumes "ke_state.more t = ke_state.more s"
  shows "type_list ty t = type_list ty s" and "ke_state.more (set_type_list ty l t) = ke_state.more (set_type_list ty l s)"
  using assms by (cases s; cases t; simp add: type_list_def set_type_list_def)+

text \<open>The section of \<open>ObRemoveObject\<close> under the lock of the object type.\<close>

lemma type_section:
  fixes s :: "'a ob_state_scheme"
  assumes lk: "lockable (ObjectTypeLock ty) s" and body: "LIST_REMOVE e (type_list ty s) = Inr l"
  shows "bind (KeAcquireSpinLock (ObjectTypeLock ty) s) (\<lambda>(Old, s). bind (LIST_REMOVE e (type_list ty s)) (\<lambda>l.
      KeReleaseSpinLock run (Suc fuel) (ObjectTypeLock ty) Old (set_type_list ty l s))) = Inr (set_type_list ty l s)"
proof -
  let ?b = "\<lambda>s. bind (LIST_REMOVE e (type_list ty s)) (\<lambda>l. Inr ((), set_type_list ty l s))"
  have "spinlock.bracket (ObjectTypeLock ty) run fuel ?b s = Inr ((), set_type_list ty l s)"
  proof (rule spinlock_section [OF lk])
    fix t :: "'a ob_state_scheme"
    assume t: "ke_state.more t = ke_state.more s"
    have "?b t = Inr ((), set_type_list ty l t)" using body type_list_more(1) [OF t] by simp
    then show "\<exists>t'. ?b t = Inr ((), t') \<and> ke_state.truncate t' = ke_state.truncate t \<and>
        ke_state.more t' = ke_state.more (set_type_list ty l s)"
      using type_list_more(2) [OF t] by (intro exI [of _ "set_type_list ty l t"]) (simp add: ke_state.truncate_def set_type_list_def)
  qed (simp add: ke_state.truncate_def set_type_list_def)
  then show ?thesis by (simp add: spinlock.bracket_def bind_assoc split_def) (auto simp: bind_def split: sum.splits)
qed

lemma set_type_list_sel [simp]:
  "ke_state.truncate (set_type_list ty l s) = ke_state.truncate s" "Pools (set_type_list ty l s) = Pools s"
  "type_list ty (set_type_list ty l s) = l" "ot_PoolTag (ObjectTypeList (set_type_list ty l s) x) = ot_PoolTag (ObjectTypeList s x)"
  by (simp_all add: set_type_list_def ke_state.truncate_def type_list_def)

text \<open>An entry of a table that still holds null, as in a page of zeroes, cannot be dereferenced.\<close>

lemma inherited_slot_faults:
  assumes "HandleArray s h i = 0" and "oh_Magic (header 0 s) = 0"
  shows "deref_entry call run fuel h i s = Inl (AssertionFailed ''ObDereferenceObject: ObIsValidObject(Object)'')"
  using assms by (simp add: deref_entry_def ObDereferenceObject_def ObIsValidObject_def)

section \<open>A small object\<close>

text \<open>One object of type 3 with one reference, in the allocated block of the small pool, under handle 0 of process 0.\<close>

definition no_methods :: "'s object_methods" where
  "no_methods p ob s = Inr (STATUS_SUCCESS, s)"

abbreviation (input) small_object :: PVOID where "small_object \<equiv> 0x858000B4"

definition small_ob :: ob_state where
  "small_ob = sched_state.extend (three_threads\<lparr>Pools := two_blocks\<rparr>) (ob_state.fields
     (\<lambda>_. \<lparr>ot_PoolType = NonPagedPool, ot_FLAGS = 0, ot_ObjectSize = 16, ot_TypeIndex = 3, ot_PoolTag = 7,
       ot_Object_List_Head = \<lparr>lh_first = Some 0x85800084, NumberOfElements = 1\<rparr>, ot_OpenProcedure = None, ot_CloseProcedure = None\<rparr>)
     (\<lambda>_. \<lparr>oh_Magic = OBJECT_HEADER_MAGIC, oh_ObjectType = Some 3, oh_OpenHandleCount = 0, oh_RefCount = 1, oh_ObjectName = \<lparr>us_Length = 0, us_MaximumLength = 0, us_Buffer = 0\<rparr>,
       oh_Attributes = 0\<rparr>)
     \<lparr>le_next = Some, le_prev = Some\<rparr>
     (\<lambda>t. case t of ProcessTable p \<Rightarrow> 0x86000000 + of_nat p * 0x1000 | PidTable \<Rightarrow> 0x87000000)
     (\<lambda>h i. if h = 0x86000000 \<and> i = 0 then small_object else OB_INVALID_HANDLE))"

lemmas small_ob_unfold = small_ob_def sched_state.extend_def ob_state.fields_def

lemma small_ob_sel [simp]:
  "header ob small_ob = \<lparr>oh_Magic = OBJECT_HEADER_MAGIC, oh_ObjectType = Some 3, oh_OpenHandleCount = 0, oh_RefCount = 1,
     oh_ObjectName = \<lparr>us_Length = 0, us_MaximumLength = 0, us_Buffer = 0\<rparr>, oh_Attributes = 0\<rparr>"
  "HandlePtr small_ob (ProcessTable p) = 0x86000000 + of_nat p * 0x1000"
  "HandleArray small_ob = (\<lambda>h i. if h = 0x86000000 \<and> i = 0 then small_object else OB_INVALID_HANDLE)"
  "ObjectTypeList small_ob ty = \<lparr>ot_PoolType = NonPagedPool, ot_FLAGS = 0, ot_ObjectSize = 16, ot_TypeIndex = 3, ot_PoolTag = 7,
     ot_Object_List_Head = \<lparr>lh_first = Some 0x85800084, NumberOfElements = 1\<rparr>, ot_OpenProcedure = None, ot_CloseProcedure = None\<rparr>"
  "ObjectTypeListLink small_ob = \<lparr>le_next = Some, le_prev = Some\<rparr>" "Pools small_ob = two_blocks"
  "CurrentIrql small_ob = 0" "spin_locks small_ob l = free_lock" "DpcListHead small_ob = LIST_INIT"
  "PsGetCurrentProcess small_ob = Some 0"
  by (simp_all add: small_ob_unfold header_def PsGetCurrentProcess_def KeGetCurrentThread_def small_tcb_def three_threads_unfold free_lock_def)

lemma small_ob_live: "hal_ok small_ob" "live ob small_ob"
proof -
  show "hal_ok small_ob" using three_threads_running by (simp add: running_def hal_ok_def small_ob_unfold three_threads_unfold)
  show "live ob small_ob" by (simp add: live_def ObIsValidObject_def)
qed

section \<open>Properties\<close>

text \<open>C38. Handles: \<open>ObInsertHandle\<close> stores a non-null object in the lowest free entry of a table and returns its index;
  \<open>ObLookupObjectByHandle\<close> then returns the object under that handle and under every other handle what it did before,
  and \<open>ObRemoveHandle\<close> gives back the state before the insertion. A full table is left as it is, with the status
  \<open>STATUS_TOO_MANY_OPENED_FILES\<close> and an invalid handle.\<close>

theorem handle_roundtrip:
  assumes "ob \<noteq> 0" and unused: "unused = (\<lambda>i. HandleArray s (HandlePtr s t) i = OB_INVALID_HANDLE)"
  shows "(\<forall>i < EX_MAX_HANDLE. unused i \<and> (\<forall>j < i. \<not> unused j) \<longrightarrow>
      (\<exists>s'. ObInsertHandle ob t s = Inr (STATUS_SUCCESS, of_nat i, s') \<and>
        ObLookupObjectByHandle (of_nat i) t s' = Inr (STATUS_SUCCESS, ob) \<and>
        (\<forall>H. H \<noteq> of_nat i \<longrightarrow> ObLookupObjectByHandle H t s' = ObLookupObjectByHandle H t s) \<and>
        ObRemoveHandle (of_nat i) t ob s' = Inr s)) \<and>
    ((\<forall>i < EX_MAX_HANDLE. \<not> unused i) \<longrightarrow>
      ObInsertHandle ob t s = Inr (STATUS_TOO_MANY_OPENED_FILES, OB_INVALID_HANDLE, s))"
proof (intro conjI allI impI)
  fix i assume i: "i < EX_MAX_HANDLE" and fr: "unused i \<and> (\<forall>j < i. \<not> unused j)"
  let ?s = "set_handle (HandlePtr s t) i ob s"
  have "find unused [0..<EX_MAX_HANDLE] = Some i" using i fr by (intro find_upt_Some) auto
  then have "ObInsertHandle ob t s = Inr (STATUS_SUCCESS, of_nat i, ?s)" using assms(1) by (simp add: ObInsertHandle_eq unused)
  moreover have "ObLookupObjectByHandle (of_nat i) t ?s = Inr (STATUS_SUCCESS, ob)" "ObRemoveHandle (of_nat i) t ob ?s = Inr s"
    using handle_number [OF i] fr set_handle_same [of "HandlePtr s t" i s]
    by (simp_all add: ObLookupObjectByHandle_def ObRemoveHandle_def ASSERT_handle_def unused)
  moreover have "ObLookupObjectByHandle H t ?s = ObLookupObjectByHandle H t s" if "H \<noteq> of_nat i" for H
    using that by (auto simp: ObLookupObjectByHandle_def)
  ultimately show "\<exists>s'. ObInsertHandle ob t s = Inr (STATUS_SUCCESS, of_nat i, s') \<and>
      ObLookupObjectByHandle (of_nat i) t s' = Inr (STATUS_SUCCESS, ob) \<and>
      (\<forall>H. H \<noteq> of_nat i \<longrightarrow> ObLookupObjectByHandle H t s' = ObLookupObjectByHandle H t s) \<and>
      ObRemoveHandle (of_nat i) t ob s' = Inr s" by blast
next
  assume "\<forall>i < EX_MAX_HANDLE. \<not> unused i"
  then have "find unused [0..<EX_MAX_HANDLE] = None" by (auto simp: find_None_iff)
  then show "ObInsertHandle ob t s = Inr (STATUS_TOO_MANY_OPENED_FILES, OB_INVALID_HANDLE, s)"
    using assms(1) by (simp add: ObInsertHandle_eq unused)
qed

theorem handle_roundtrip_witness:
  "\<exists>s'. ObInsertHandle 0x85801000 (ProcessTable 0) small_ob = Inr (STATUS_SUCCESS, 1, s') \<and>
    ObLookupObjectByHandle 1 (ProcessTable 0) s' = Inr (STATUS_SUCCESS, 0x85801000) \<and> ObRemoveHandle 1 (ProcessTable 0) 0x85801000 s' = Inr small_ob"
proof -
  have ne: "(0x85801000 :: PVOID) \<noteq> 0" by simp
  have "\<forall>i < EX_MAX_HANDLE. HandleArray small_ob (HandlePtr small_ob (ProcessTable 0)) i = OB_INVALID_HANDLE \<and>
      (\<forall>j < i. HandleArray small_ob (HandlePtr small_ob (ProcessTable 0)) j \<noteq> OB_INVALID_HANDLE) \<longrightarrow>
      (\<exists>s'. ObInsertHandle 0x85801000 (ProcessTable 0) small_ob = Inr (STATUS_SUCCESS, of_nat i, s') \<and>
        ObLookupObjectByHandle (of_nat i) (ProcessTable 0) s' = Inr (STATUS_SUCCESS, 0x85801000) \<and>
        ObRemoveHandle (of_nat i) (ProcessTable 0) 0x85801000 s' = Inr small_ob)"
    using handle_roundtrip [OF ne refl, of small_ob "ProcessTable 0"] by blast
  from this [rule_format, of 1] show ?thesis by simp
qed

text \<open>C39. Handles are typed: when \<open>ObReferenceObjectByHandle\<close> is asked for an object of the type \<open>ty\<close> and returns,
  it returns success and the object behind the handle in the table of the current process, that object is of type \<open>ty\<close>, is a
  valid object with a reference, and has one reference more than before.\<close>

theorem reference_by_handle_type:
  assumes "ObReferenceObjectByHandle Handle (Some ty) s = Inr (st, ob, s')"
  shows "st = STATUS_SUCCESS \<and> oh_ObjectType (header ob s) = Some ty \<and> ObIsValidObject ob s \<and> oh_RefCount (header ob s) \<noteq> 0 \<and>
    (\<exists>p. PsGetCurrentProcess s = Some p \<and> HandleArray s (HandlePtr s (ProcessTable p)) (unat Handle) = ob) \<and>
    s' = add_refs 1 ob s"
  using assms
  by (auto simp: ObReferenceObjectByHandle_def ObLookupObjectByHandle_def ASSERT_handle_def ObReferenceObjectByPointer_def
      ObReferenceObject_def outcome InterlockedIncrement_def InterlockedExchangeAdd_def add_refs_def split: if_splits)

theorem reference_by_handle_type_witness:
  "\<exists>s'. ObReferenceObjectByHandle 0 (Some 3) small_ob = Inr (STATUS_SUCCESS, small_object, s') \<and> s' = add_refs 1 small_object small_ob"
proof -
  have "ObReferenceObjectByHandle 0 (Some 3) small_ob = Inr (STATUS_SUCCESS, small_object, add_refs 1 small_object small_ob)"
    by (simp add: ObReferenceObjectByHandle_def ObLookupObjectByHandle_def ASSERT_handle_def ObReferenceObjectByPointer_def
        hal_ok_irql small_ob_live ObReferenceObject_live)
  then show ?thesis using reference_by_handle_type [of 0 3 small_ob] by blast
qed

text \<open>C23. A cloned handle table holds references of its own: when the entries of the parent refer to live objects, none of them permanent and each with room for 2048 more references
  in its count, and the IRQL is at most \<open>DISPATCH_LEVEL\<close>, the
  loop of \<open>ObAllocateHandleTable\<close> gives the child the parent's object at every index in use, adds to each
  object one reference per handle, and leaves the entries of the child at the free indices and the parent as they were. When
  those entries of the child are marked free, \<open>ObDerefAllHandleTableObjects\<close> on the child then takes exactly these
  references back: every header is as before, and every entry of the child is free.\<close>

theorem clone_table_references:
  assumes hal: "hal_ok s" "CurrentIrql s \<le> DISPATCH_LEVEL" and ne: "HandlePtr s parent \<noteq> HandlePtr s child"
    and lv: "\<forall>i < EX_MAX_HANDLE. in_use (a i) \<longrightarrow> live (a i) s \<and> sint (oh_RefCount (header (a i) s)) < 2 ^ 31 - 2048"
    and a: "a = HandleArray s (HandlePtr s parent)"
  shows "\<exists>s1. foldE (inherit_entry True (HandlePtr s parent) (HandlePtr s child)) [0..<EX_MAX_HANDLE] s = Inr s1 \<and>
    HandleArray s1 = (HandleArray s)(HandlePtr s child := (\<lambda>i. if i < EX_MAX_HANDLE \<and> in_use (a i) then a i else HandleArray s (HandlePtr s child) i)) \<and>
    (\<forall>ob. in_use ob \<longrightarrow> header ob s1 = header ob s\<lparr>oh_RefCount := oh_RefCount (header ob s) + of_nat (handles_to a EX_MAX_HANDLE ob)\<rparr>) \<and>
    ((\<forall>i < EX_MAX_HANDLE. \<not> in_use (a i) \<longrightarrow> HandleArray s (HandlePtr s child) i = OB_INVALID_HANDLE) \<longrightarrow>
      (\<exists>s2. ObDerefAllHandleTableObjects call run fuel child s1 = Inr s2 \<and> (\<forall>ob. header ob s2 = header ob s) \<and>
        (\<forall>i < EX_MAX_HANDLE. HandleArray s2 (HandlePtr s child) i = OB_INVALID_HANDLE)))"
proof -
  let ?h = "HandlePtr s parent" and ?c = "HandlePtr s child"
  have lv': "live (HandleArray s ?h i) s \<and> sint (oh_RefCount (header (HandleArray s ?h i) s)) < 2 ^ 31 - 2048"
    if "i < EX_MAX_HANDLE" "in_use (HandleArray s ?h i)" for i using lv that by (simp add: a)
  obtain s1 where s1: "foldE (inherit_entry True ?h ?c) [0..<EX_MAX_HANDLE] s = Inr s1"
    "HandleArray s1 = (HandleArray s)(?c := \<lambda>i. if i < EX_MAX_HANDLE \<and> in_use (a i) then a i else HandleArray s ?c i)"
    "HandlePtr s1 = HandlePtr s" "counted s (handles_to a EX_MAX_HANDLE) s1"
    using inherit_loop [OF hal ne order_refl lv'] a by blast
  have "\<exists>s2. ObDerefAllHandleTableObjects call run fuel child s1 = Inr s2 \<and> (\<forall>ob. header ob s2 = header ob s) \<and>
      (\<forall>i < EX_MAX_HANDLE. HandleArray s2 ?c i = OB_INVALID_HANDLE)"
    if fr: "\<forall>i < EX_MAX_HANDLE. \<not> in_use (a i) \<longrightarrow> HandleArray s ?c i = OB_INVALID_HANDLE"
  proof -
    have b: "HandleArray s1 ?c i = (if in_use (a i) then a i else OB_INVALID_HANDLE)" if "i < EX_MAX_HANDLE" for i
      using fr that by (simp add: s1(2))
    have eq: "handles_to (HandleArray s1 ?c) EX_MAX_HANDLE ob = handles_to a EX_MAX_HANDLE ob" if "in_use ob" for ob
      unfolding handles_to_def using that b by (intro arg_cong [of _ _ length] filter_cong) (auto simp: in_use_def)
    let ?r = "\<lambda>ob. handles_to (HandleArray s1 ?c) EX_MAX_HANDLE ob"
    have "counted s ?r s1" using s1(4) eq by (auto simp: counted_def)
    moreover have "live (HandleArray s1 ?c i) s \<and> sint (oh_RefCount (header (HandleArray s1 ?c i) s)) < 2 ^ 31 - 2048"
      if "i < EX_MAX_HANDLE" "in_use (HandleArray s1 ?c i)" for i
      using that lv b [OF that(1)] by (auto simp: in_use_def split: if_splits)
    moreover have "HandleArray s1 ?c i = OB_INVALID_HANDLE \<or> in_use (HandleArray s1 ?c i)" if "i < EX_MAX_HANDLE" for i
      using b [OF that] by simp
    ultimately obtain s2 where "foldE (deref_entry call run fuel ?c) [0..<EX_MAX_HANDLE] s1 = Inr s2"
      "HandleArray s2 = (HandleArray s1)(?c := \<lambda>i. if i < EX_MAX_HANDLE then OB_INVALID_HANDLE else HandleArray s1 ?c i)"
      "counted s (\<lambda>ob. ?r ob - ?r ob) s2"
      using deref_loop [of s1 ?c s ?r EX_MAX_HANDLE call run fuel] handles_to_le order_refl by blast
    then show ?thesis using s1(3) by (intro exI [of _ s2]) (simp add: ObDerefAllHandleTableObjects_def counted_def)
  qed
  then show ?thesis using s1 by (intro exI [of _ s1]) (simp add: counted_def)
qed

theorem clone_table_references_witness:
  "\<exists>s1. foldE (inherit_entry True 0x86000000 0x86001000) [0..<1024] small_ob = Inr s1 \<and>
    oh_RefCount (header small_object s1) = 2"
proof -
  let ?a = "HandleArray small_ob (HandlePtr small_ob (ProcessTable 0))"
  have "handles_to ?a (Suc k) small_object = 1" for k
    by (induction k) (simp_all add: handles_to_Suc, simp add: handles_to_def)
  from this [of 1023] have n: "handles_to ?a EX_MAX_HANDLE small_object = 1" by simp
  have "HandlePtr small_ob (ProcessTable 0) \<noteq> HandlePtr small_ob (ProcessTable 1)"
    "\<forall>i < EX_MAX_HANDLE. in_use (?a i) \<longrightarrow> live (?a i) small_ob \<and> sint (oh_RefCount (header (?a i) small_ob)) < 2 ^ 31 - 2048"
    "CurrentIrql small_ob \<le> DISPATCH_LEVEL" by (simp_all add: small_ob_live)
  from clone_table_references [OF small_ob_live(1) this(3,1,2) refl, of no_methods no_dpcs 1] obtain s1 where
    "foldE (inherit_entry True (HandlePtr small_ob (ProcessTable 0)) (HandlePtr small_ob (ProcessTable 1))) [0..<EX_MAX_HANDLE] small_ob = Inr s1"
    "\<forall>ob. in_use ob \<longrightarrow> header ob s1 =
      header ob small_ob\<lparr>oh_RefCount := oh_RefCount (header ob small_ob) + of_nat (handles_to ?a EX_MAX_HANDLE ob)\<rparr>" by blast
  moreover from this(2) have "oh_RefCount (header small_object s1) = 2" using n by (simp add: in_use_def)
  ultimately show ?thesis by simp
qed

text \<open>The system call to close a handle cannot succeed: \<open>ObClose\<close> asks for an object of type null, so it stops in
  an assertion for every handle of an object that has a type, which every object the object manager creates has.\<close>

theorem ob_close_always_fails:
  assumes "PsGetCurrentProcess s = Some p" and "oh_ObjectType (header (HandleArray s (HandlePtr s (ProcessTable p)) (unat Handle)) s) \<noteq> None"
  shows "\<exists>e. ObClose call run fuel Handle s = Inl e"
proof (cases "ObClose call run fuel Handle s")
  case (Inr s')
  then show ?thesis
    using assms by (auto simp: ObClose_def ObReferenceObjectByHandle_def ObLookupObjectByHandle_def ASSERT_handle_def
        ObReferenceObjectByPointer_def outcome split: if_splits)
qed simp

theorem ob_close_always_fails_witness: "\<exists>e. ObClose no_methods no_dpcs 1 0 small_ob = Inl e"
  using ob_close_always_fails [of small_ob 0 0 no_methods no_dpcs 1] by simp

text \<open>C24. Dropping the last reference of an object that is not permanent removes it, when the locks of its type and of the pool can be taken and the pool is sound: when nobody holds a handle and its type's close method changes
  nothing, \<open>ObDereferenceObject\<close> takes the object off the list of its type, keeping the order of the others, and gives its
  block back to its pool, joined with its free neighbours.\<close>

theorem last_dereference_removes:
  assumes ob: "ObIsValidObject ob s" "oh_RefCount (header ob s) = 1" "oh_OpenHandleCount (header ob s) = 0"
      "oh_Attributes (header ob s) AND OBJ_PERMANENT = 0" "oh_ObjectType (header ob s) = Some ty"
    and cl: "\<And>p s. ot_CloseProcedure (ObjectTypeList s ty) = Some p \<Longrightarrow> \<exists>st. call p ob s = Inr (st, s)"
    and lk: "lockable (ObjectTypeLock ty) s" "lockable PoolLock s"
    and tl: "klist_rep (type_list ty s) (as @ OBJECT_TO_OBJECT_HEADER ob # bs)"
    and pool: "pool_ok pt a t (Pools s) (xs @ (p, n, True) # ys)" "OBJECT_TO_OBJECT_HEADER ob = p + mem_offset"
      "ot_PoolTag (ObjectTypeList s ty) = ph_Tag (Headers (Pools s) p)" "pt < NUMBEROFPOOLS"
  shows "\<exists>s'. ObDereferenceObject call run (Suc fuel) ob s = Inr s' \<and> klist_rep (type_list ty s') (as @ bs) \<and>
    pool_ok pt a t (Pools s') (freed xs p n ys)"
proof -
  let ?s = "set_object ob (\<lambda>h. h\<lparr>oh_RefCount := 0\<rparr>) s"
  have tr: "ke_state.truncate ?s = ke_state.truncate s" "Pools ?s = Pools s" "type_list ty ?s = type_list ty s"
    by (simp_all add: ke_state.truncate_def set_object_def type_list_def)
  have "set_object ob (\<lambda>h. h\<lparr>oh_RefCount := oh_RefCount h - 1\<rparr>) s = ?s" using ob(2) by (simp add: set_object_def)
  then have "ObDereferenceObject call run (Suc fuel) ob s = ObRemoveObject call run (Suc fuel) ob ?s"
    using ob by (simp add: ObDereferenceObject_def ObCloseObject_def InterlockedDecrement_def InterlockedExchangeAdd_def Let_def)
  moreover obtain l where l: "LIST_REMOVE (OBJECT_TO_OBJECT_HEADER ob) (type_list ty ?s) = Inr l" "klist_rep l (as @ bs)"
    using LIST_REMOVE_correct [OF tl] by (auto simp: tr(3))
  have lk': "lockable (ObjectTypeLock ty) ?s" "lockable PoolLock (set_type_list ty l ?s)"
    using truncate_lockable [OF lk(1) tr(1)] truncate_lockable [OF lk(2), of "set_type_list ty l ?s"] tr(1) by simp_all
  have "pool_ok pt a t (Pools (set_type_list ty l ?s)) (xs @ (p, n, True) # ys)" using pool(1) tr(2) by simp
  from MmFreePoolWithTag_correct [OF lk'(2) this _ pool(4), of "ot_PoolTag (ObjectTypeList s ty)" run fuel] pool(2,3) tr(2)
  obtain ps where ps: "MmFreePoolWithTag run (Suc fuel) (OBJECT_TO_OBJECT_HEADER ob) (ot_PoolTag (ObjectTypeList s ty))
      (set_type_list ty l ?s) = Inr ((set_type_list ty l ?s)\<lparr>Pools := ps\<rparr>)" "pool_ok pt a t ps (freed xs p n ys)" by auto
  have "ObRemoveObject call run (Suc fuel) ob ?s =
      bind (bind (KeAcquireSpinLock (ObjectTypeLock ty) ?s) (\<lambda>(Old, s). bind (LIST_REMOVE (OBJECT_TO_OBJECT_HEADER ob) (type_list ty s)) (\<lambda>l.
        KeReleaseSpinLock run (Suc fuel) (ObjectTypeLock ty) Old (set_type_list ty l s))))
        (\<lambda>s. MmFreePoolWithTag run (Suc fuel) (OBJECT_TO_OBJECT_HEADER ob) (ot_PoolTag (ObjectTypeList s ty)) s)"
    using ob(3-5) cl [where s = ?s] by (auto simp: ObRemoveObject_def bind_assoc split_def split: option.split)
  moreover have "\<dots> = Inr ((set_type_list ty l ?s)\<lparr>Pools := ps\<rparr>)" using type_section [OF lk'(1) l(1)] ps(1) by simp
  moreover have "type_list ty ((set_type_list ty l ?s)\<lparr>Pools := ps\<rparr>) = l" by (simp add: type_list_def set_type_list_def)
  ultimately show ?thesis using l(2) ps(2) by simp
qed

theorem last_dereference_removes_witness:
  "\<exists>s'. ObDereferenceObject no_methods no_dpcs 1 small_object small_ob = Inr s' \<and> klist_rep (type_list 3 s') [] \<and>
    pool_ok NonPagedPool 0x85800000 0x85802000 (Pools s') [(0x85800000, 0x1FE4, False)]"
proof -
  have ok: "pool_ok NonPagedPool 0x85800000 0x85802000 (Pools small_ob) ([(0x85800000, 80, False)] @ (0x8580006C, 0x1F78, True) # [])"
    using two_blocks_ok by simp
  have tl: "klist_rep (type_list 3 small_ob) ([] @ OBJECT_TO_OBJECT_HEADER small_object # [])"
    by (simp add: type_list_def klist_rep_def ring_def OBJECT_TO_OBJECT_HEADER_def)
  have lk: "lockable (ObjectTypeLock 3) small_ob" "lockable PoolLock small_ob" using small_ob_live by (auto simp: lockable_def LIST_EMPTY_def LIST_INIT_def)
  have "ObIsValidObject small_object small_ob" using small_ob_live by (auto simp: live_def)
  then show ?thesis
    using last_dereference_removes [OF _ _ _ _ _ _ lk tl ok, of no_methods no_dpcs 0]
    by (simp add: freed_def join_left_def two_blocks_def no_methods_def OBJECT_TO_OBJECT_HEADER_def)
qed

end
