(* ===== verification/ObName.thy ===== *)
theory ObName
  imports Ob
begin

text \<open>
  The object namespace: directories (\<open>ob/obdir.c\<close>), the parser of object paths and the lookup
  (\<open>ob/obname.c\<close>), symbolic links (\<open>ob/obsym.c\<close>) and the creation of objects, which enters named objects
  into a directory (\<open>ObCreateObject\<close> and \<open>Ob_init\<close> of \<open>ob/ob.c\<close>). Names are bytes of the kernel's memory,
  \<open>Bytes\<close>; like the handle arrays, object headers and bodies are kept apart from them. A node of a directory's ring is
  the address of a \<open>LIST_ENTRY\<close>: the head is the directory itself, whose first field it is, and an entry lies
  12 bytes behind the header of its object. Walks that need not end are options, and
  \<open>Hang\<close> when they do not. String literals are addresses the caller gives. The printing of the tree is left out.
\<close>

section \<open>State\<close>

abbreviation (input) MAX_OBJECT_NAME_SIZE :: ULONG where "MAX_OBJECT_NAME_SIZE \<equiv> 128"
abbreviation (input) MAX_OBJECT_PATH :: USHORT where "MAX_OBJECT_PATH \<equiv> 1024"
abbreviation (input) OBJ_OPENIF :: ULONG where "OBJ_OPENIF \<equiv> 0x80"
abbreviation (input) OBJ_KERNEL_HANDLE :: ULONG where "OBJ_KERNEL_HANDLE \<equiv> 0x200"
abbreviation (input) OBJ_VALID_ATTRIBUTES :: ULONG where "OBJ_VALID_ATTRIBUTES \<equiv> 0x7F2"
abbreviation (input) OB_DIRECTORY_MOUNTPOINT :: ULONG where "OB_DIRECTORY_MOUNTPOINT \<equiv> 1"
abbreviation (input) sizeof_OBJECT_HEADER :: ULONG where "sizeof_OBJECT_HEADER \<equiv> 52"
abbreviation (input) sizeof_OBJECT_DIRECTORY :: ULONG where "sizeof_OBJECT_DIRECTORY \<equiv> 28"
abbreviation (input) sizeof_OBJECT_SYMBOLIC_LINK :: ULONG where "sizeof_OBJECT_SYMBOLIC_LINK \<equiv> 8"
abbreviation (input) TAG_ObNm :: ULONG where "TAG_ObNm \<equiv> 0x6D4E624F"
abbreviation (input) TAG_objt :: ULONG where "TAG_objt \<equiv> 0x746A626F"
abbreviation (input) OBJECT_TYPE_DIRECTORY :: nat where "OBJECT_TYPE_DIRECTORY \<equiv> 1"
abbreviation (input) OBJECT_TYPE_SYMLINK :: nat where "OBJECT_TYPE_SYMLINK \<equiv> 2"

record OBJECT_DIRECTORY =
  od_Flags :: ULONG
  od_DeviceObject :: PVOID

record OBJECT_ATTRIBUTES =
  oa_RootDirectory :: HANDLE
  oa_ObjectName :: "UNICODE_STRING option"
  oa_Attributes :: ULONG

record OBP_LOOKUP_CONTEXT =
  ctx_Directory :: PVOID
  ctx_Object :: PVOID
  ctx_LastMountPoint :: PVOID
  ctx_ParsedTill :: address
  ctx_DirectoryLocked :: bool
  ctx_OldIrql :: KIRQL

record obname_state = ob_state +
  Bytes :: memory
  DirEntryLink :: "PVOID links"
  Directories :: "PVOID \<Rightarrow> OBJECT_DIRECTORY"
  LinkTargetObject :: "PVOID \<Rightarrow> PVOID"
  ObRootDirectory :: PVOID
  ObGlobalDirectory :: PVOID
  ObDirectoryObjectType :: "nat option"
  ObSymbolicLinkObjectType :: "nat option"
  IoDeviceObjectType :: "nat option"

definition entry_link :: "PVOID \<Rightarrow> PVOID" where
  "entry_link Header = Header + 12"

definition OBJECT_HEADER_Body :: "PVOID \<Rightarrow> PVOID" where
  "OBJECT_HEADER_Body Header = Header + 48"

definition hang :: "'b option \<Rightarrow> fault + 'b" where
  "hang r = (case r of None \<Rightarrow> Inl Hang | Some x \<Rightarrow> Inr x)"

section \<open>Kinds of objects\<close>

definition is_type :: "nat option \<Rightarrow> PVOID \<Rightarrow> 'a ob_state_scheme \<Rightarrow> fault + bool" where
  "is_type ty Object s =
     ASSERT ''ObIsValidObject(Object)'' (ObIsValidObject Object s)
     (ASSERT ''ObjectType'' (ty \<noteq> None) (Inr (oh_ObjectType (header Object s) = ty)))"

definition ObIsDirectoryObject :: "PVOID \<Rightarrow> 'a obname_state_scheme \<Rightarrow> fault + bool" where
  "ObIsDirectoryObject Object s = is_type (ObDirectoryObjectType s) Object s"

definition ObIsMountpointObject :: "PVOID \<Rightarrow> 'a obname_state_scheme \<Rightarrow> fault + bool" where
  "ObIsMountpointObject Object s =
     bind (is_type (ObDirectoryObjectType s) Object s) (\<lambda>dir.
     Inr (dir \<and> od_Flags (Directories s Object) AND OB_DIRECTORY_MOUNTPOINT \<noteq> 0))"

definition ObIsSymbolicLinkObject :: "PVOID \<Rightarrow> 'a obname_state_scheme \<Rightarrow> fault + bool" where
  "ObIsSymbolicLinkObject Object s = is_type (ObSymbolicLinkObjectType s) Object s"

definition ObIsDeviceObject :: "PVOID \<Rightarrow> 'a obname_state_scheme \<Rightarrow> fault + bool" where
  "ObIsDeviceObject Object s = is_type (IoDeviceObjectType s) Object s"

definition ObInitializeLookupContext :: OBP_LOOKUP_CONTEXT where
  "ObInitializeLookupContext = \<lparr>ctx_Directory = 0, ctx_Object = 0, ctx_LastMountPoint = 0, ctx_ParsedTill = 0,
     ctx_DirectoryLocked = False, ctx_OldIrql = 0\<rparr>"

section \<open>Name buffers\<close>

definition ObpAllocateObjectNameBuffer ::
  "'a obname_state_scheme deferred_routines \<Rightarrow> nat \<Rightarrow> ULONG \<Rightarrow> 'a obname_state_scheme \<Rightarrow>
   fault + (KSTATUS \<times> UNICODE_STRING \<times> 'a obname_state_scheme)" where
  "ObpAllocateObjectNameBuffer run fuel Length s =
     ASSERT ''ObpAllocateObjectNameBuffer: Length <= MAX_OBJECT_NAME_SIZE'' (Length \<le> MAX_OBJECT_NAME_SIZE)
     (bind (MmAllocatePoolWithTag run fuel NonPagedPool MAX_OBJECT_NAME_SIZE TAG_ObNm s) (\<lambda>(Buffer, s).
      if Buffer = 0
      then Inr (STATUS_INSUFFICIENT_RESOURCES, \<lparr>us_Length = 0, us_MaximumLength = 0, us_Buffer = 0\<rparr>, s)
      else Inr (STATUS_SUCCESS, \<lparr>us_Length = 0, us_MaximumLength = ucast MAX_OBJECT_NAME_SIZE, us_Buffer = Buffer\<rparr>, s)))"

definition ObpFreeObjectNameBuffer ::
  "'a obname_state_scheme deferred_routines \<Rightarrow> nat \<Rightarrow> UNICODE_STRING \<Rightarrow> 'a obname_state_scheme \<Rightarrow>
   fault + 'a obname_state_scheme" where
  "ObpFreeObjectNameBuffer run fuel ObjectName s = MmFreePoolWithTag run fuel (us_Buffer ObjectName) TAG_ObNm s"

section \<open>Directories\<close>

definition ObpAcquireDirectoryLock ::
  "PVOID \<Rightarrow> OBP_LOOKUP_CONTEXT \<Rightarrow> 'a obname_state_scheme \<Rightarrow> fault + (OBP_LOOKUP_CONTEXT \<times> 'a obname_state_scheme)" where
  "ObpAcquireDirectoryLock Directory Context s =
     bind (KeAcquireSpinLock (DirectoryLock Directory) s) (\<lambda>(Old, s).
     Inr (Context\<lparr>ctx_OldIrql := Old, ctx_DirectoryLocked := True\<rparr>, s))"

definition ObpReleaseDirectoryLock ::
  "'a obname_state_scheme deferred_routines \<Rightarrow> nat \<Rightarrow> PVOID \<Rightarrow> OBP_LOOKUP_CONTEXT \<Rightarrow> 'a obname_state_scheme \<Rightarrow>
   fault + (OBP_LOOKUP_CONTEXT \<times> 'a obname_state_scheme)" where
  "ObpReleaseDirectoryLock run fuel Directory Context s =
     (let Context = Context\<lparr>ctx_DirectoryLocked := False\<rparr> in
      bind (KeReleaseSpinLock run fuel (DirectoryLock Directory) (ctx_OldIrql Context) s) (\<lambda>s. Inr (Context, s)))"

text \<open>The loop over the ring: the first entry whose name equals \<open>Name\<close>.\<close>

partial_function (option) find_entry ::
  "PVOID links \<Rightarrow> (PVOID \<Rightarrow> bool) \<Rightarrow> PVOID \<Rightarrow> PVOID \<Rightarrow> (fault + PVOID option) option" where
  "find_entry m found head ListPtr =
     (if ListPtr = head then Some (Inr None)
      else if found (ListPtr - 12) then Some (Inr (Some (ListPtr - 12)))
      else case Flink m ListPtr of None \<Rightarrow> Some (Inl NullPointer) | Some next \<Rightarrow> find_entry m found head next)"

definition lookup_entry ::
  "PVOID \<Rightarrow> UNICODE_STRING \<Rightarrow> 'a obname_state_scheme \<Rightarrow> fault + PVOID option" where
  "lookup_entry Directory Name s =
     deref (Flink (DirEntryLink s) Directory) (\<lambda>first.
     bind (hang (find_entry (DirEntryLink s)
       (\<lambda>Header. RtlCompareUnicodeString (Bytes s) Name (oh_ObjectName (ObjectHeaders s Header)) = 0) Directory first)) id)"

definition ObpLookupEntryDirectory ::
  "'a obname_state_scheme deferred_routines \<Rightarrow> nat \<Rightarrow> PVOID \<Rightarrow> UNICODE_STRING \<Rightarrow> OBP_LOOKUP_CONTEXT \<Rightarrow> 'a obname_state_scheme \<Rightarrow>
   fault + (KSTATUS \<times> OBP_LOOKUP_CONTEXT \<times> 'a obname_state_scheme)" where
  "ObpLookupEntryDirectory run fuel Directory Name Context s =
     (let UnLock = \<not> ctx_DirectoryLocked Context in
      bind (if UnLock then ObpAcquireDirectoryLock Directory Context s else Inr (Context, s)) (\<lambda>(Context, s).
      bind (lookup_entry Directory Name s) (\<lambda>Found.
      bind (case Found of
          None \<Rightarrow> Inr Context
        | Some Header \<Rightarrow>
            let Body = OBJECT_HEADER_Body Header; Context = Context\<lparr>ctx_Directory := Directory, ctx_Object := Body\<rparr> in
            bind (ObIsMountpointObject Body s) (\<lambda>mount.
            Inr (if mount then Context\<lparr>ctx_LastMountPoint := Body\<rparr> else Context))) (\<lambda>Context.
      bind (if UnLock then ObpReleaseDirectoryLock run fuel Directory Context s else Inr (Context, s)) (\<lambda>(Context, s).
      Inr (if Found = None then STATUS_OBJECT_NAME_NOT_FOUND else STATUS_SUCCESS, Context, s))))))"

definition ObpInsertEntryDirectory ::
  "'a obname_state_scheme deferred_routines \<Rightarrow> nat \<Rightarrow> PVOID \<Rightarrow> OBP_LOOKUP_CONTEXT \<Rightarrow> PVOID \<Rightarrow> 'a obname_state_scheme \<Rightarrow>
   fault + (bool \<times> OBP_LOOKUP_CONTEXT \<times> 'a obname_state_scheme)" where
  "ObpInsertEntryDirectory run fuel Parent Context Header s =
     bind (ObIsDirectoryObject Parent s) (\<lambda>dir.
     ASSERT ''ObpInsertEntryDirectory: ObIsDirectoryObject(Parent)'' dir
     (ASSERT ''ObpInsertEntryDirectory: Flink == NULL'' (Flink (DirEntryLink s) (entry_link Header) = None)
     (ASSERT ''ObpInsertEntryDirectory: Context->Directory == Parent'' (ctx_Directory Context = Parent)
     (let UnLock = \<not> ctx_DirectoryLocked Context in
      bind (if UnLock then ObpAcquireDirectoryLock Parent Context s else Inr (Context, s)) (\<lambda>(Context, s).
      bind (InsertTailList Parent (entry_link Header) (DirEntryLink s)) (\<lambda>m.
      let s = s\<lparr>DirEntryLink := m\<rparr> in
      bind (if UnLock then ObpReleaseDirectoryLock run fuel Parent Context s else Inr (Context, s)) (\<lambda>(Context, s).
      Inr (True, Context, s))))))))"

section \<open>Paths\<close>

definition IsPathSeperator :: "UCHAR \<Rightarrow> bool" where
  "IsPathSeperator x \<longleftrightarrow> x = 0x5C \<or> x = 0x2F"

partial_function (option) skip_separators :: "memory \<Rightarrow> address \<Rightarrow> address option" where
  "skip_separators m p = (if m p \<noteq> NUL \<and> IsPathSeperator (m p) then skip_separators m (p + 1) else Some p)"

partial_function (option) skip_name :: "memory \<Rightarrow> address \<Rightarrow> address option" where
  "skip_name m p = (if m p \<noteq> NUL \<and> \<not> IsPathSeperator (m p) then skip_name m (p + 1) else Some p)"

text \<open>The memory, the name and the end of what was parsed are as before when no name is left.\<close>

definition ObParseDirectoryPath ::
  "memory \<Rightarrow> address \<Rightarrow> UNICODE_STRING \<Rightarrow> address \<Rightarrow> fault + (bool \<times> memory \<times> UNICODE_STRING \<times> address)" where
  "ObParseDirectoryPath m Name DirName ParsedTill =
     bind (hang (skip_separators m Name)) (\<lambda>StartPtr.
     if m StartPtr = NUL then Inr (False, m, DirName, ParsedTill)
     else bind (hang (skip_name m (StartPtr + 1))) (\<lambda>EndPtr.
       let Length = EndPtr - StartPtr; Max = ucast (us_MaximumLength DirName) :: ULONG in
       ASSERT ''ObParseDirectoryPath: Length <= DirName->MaximumLength'' (Length \<le> Max)
       (let m = strncpy m (us_Buffer DirName) StartPtr (min Length Max);
            m = m(us_Buffer DirName + Length := NUL)
        in Inr (True, m, DirName\<lparr>us_Length := ucast Length\<rparr>, EndPtr))))"

record 's lookup =
  lk_Status :: KSTATUS
  lk_Directory :: PVOID
  lk_NamePtr :: address
  lk_ParsedTill :: address
  lk_DirName :: UNICODE_STRING
  lk_Context :: OBP_LOOKUP_CONTEXT
  lk_state :: 's

text \<open>
  One round of the loop of \<open>ObpLookupObjectByName\<close>, with its variables in a record. The flag says whether the loop goes on.
\<close>

definition lookup_missing ::
  "'a obname_state_scheme deferred_routines \<Rightarrow> nat \<Rightarrow> PVOID option \<Rightarrow> ('a obname_state_scheme) lookup \<Rightarrow>
   fault + ('a obname_state_scheme) lookup" where
  "lookup_missing run fuel InsertObjectHeader l =
     (let s = lk_state l; Context = (lk_Context l)\<lparr>ctx_Directory := lk_Directory l, ctx_Object := 0\<rparr> in
      bind (ObParseDirectoryPath (Bytes s) (lk_NamePtr l) (lk_DirName l) (lk_ParsedTill l)) (\<lambda>(IsNext, m, DirName, ParsedTill).
      let s = s\<lparr>Bytes := m\<rparr>; l = l\<lparr>lk_ParsedTill := ParsedTill, lk_DirName := DirName, lk_Context := Context, lk_state := s\<rparr> in
      if IsNext then Inr (l\<lparr>lk_Status := STATUS_OBJECT_PATH_NOT_FOUND\<rparr>)
      else case InsertObjectHeader of
        None \<Rightarrow> Inr l
      | Some Header \<Rightarrow>
          let s = s\<lparr>ObjectHeaders := (ObjectHeaders s)(Header := ObjectHeaders s Header\<lparr>oh_ObjectName := DirName\<rparr>)\<rparr> in
          bind (ObpInsertEntryDirectory run fuel (lk_Directory l) Context Header s) (\<lambda>(_, Context, s).
          Inr (l\<lparr>lk_Status := STATUS_SUCCESS, lk_Context := Context, lk_state := s\<rparr>))))"

definition lookup_step ::
  "'a obname_state_scheme deferred_routines \<Rightarrow> nat \<Rightarrow> PVOID option \<Rightarrow> ('a obname_state_scheme) lookup \<Rightarrow>
   fault + (bool \<times> ('a obname_state_scheme) lookup)" where
  "lookup_step run fuel InsertObjectHeader l =
     (let s = lk_state l; Context = (lk_Context l)\<lparr>ctx_ParsedTill := lk_ParsedTill l\<rparr> in
      bind (ObIsDirectoryObject (lk_Directory l) s) (\<lambda>dir.
      if \<not> dir then Inr (False, l\<lparr>lk_Status := STATUS_OBJECT_PATH_NOT_FOUND,
        lk_Context := Context\<lparr>ctx_Directory := lk_Directory l, ctx_Object := 0\<rparr>\<rparr>)
      else bind (ObParseDirectoryPath (Bytes s) (lk_NamePtr l) (lk_DirName l) (lk_ParsedTill l)) (\<lambda>(IsNext, m, DirName, ParsedTill).
        let s = s\<lparr>Bytes := m\<rparr>;
            l = l\<lparr>lk_NamePtr := ParsedTill, lk_ParsedTill := ParsedTill, lk_DirName := DirName, lk_Context := Context, lk_state := s\<rparr> in
        if \<not> IsNext then Inr (False, l)
        else bind (ObpLookupEntryDirectory run fuel (lk_Directory l) DirName Context s) (\<lambda>(Status, Context, s).
          let l = l\<lparr>lk_Status := Status, lk_Context := Context, lk_state := s\<rparr> in
          if Status = STATUS_OBJECT_NAME_NOT_FOUND
          then bind (lookup_missing run fuel InsertObjectHeader l) (\<lambda>l. Inr (False, l))
          else if \<not> success Status then Inr (False, l)
          else Inr (Bytes s (lk_NamePtr l) \<noteq> NUL, l\<lparr>lk_Directory := ctx_Object Context\<rparr>)))))"

partial_function (option) lookup_loop ::
  "'a obname_state_scheme deferred_routines \<Rightarrow> nat \<Rightarrow> PVOID option \<Rightarrow> ('a obname_state_scheme) lookup \<Rightarrow>
   (fault + ('a obname_state_scheme) lookup) option" where
  "lookup_loop run fuel InsertObjectHeader l =
     (case lookup_step run fuel InsertObjectHeader l of
        Inl e \<Rightarrow> Some (Inl e)
      | Inr r \<Rightarrow> if fst r then lookup_loop run fuel InsertObjectHeader (snd r) else Some (Inr (snd r)))"

definition ObpLookupObjectByName ::
  "'a obname_state_scheme deferred_routines \<Rightarrow> nat \<Rightarrow> PVOID \<Rightarrow> UNICODE_STRING \<Rightarrow> OBP_LOOKUP_CONTEXT \<Rightarrow> PVOID option \<Rightarrow>
   'a obname_state_scheme \<Rightarrow> fault + (KSTATUS \<times> OBP_LOOKUP_CONTEXT \<times> 'a obname_state_scheme)" where
  "ObpLookupObjectByName run fuel Parent Name Context InsertObjectHeader s =
     (if ObRootDirectory s = 0 then Inl (KeBugCheck ''Performing named Object Operation before initailizing Root Directory'')
      else ASSERT ''ObpLookupObjectByName: Parent'' (Parent \<noteq> 0)
      (bind (ObpAllocateObjectNameBuffer run fuel MAX_OBJECT_NAME_SIZE s) (\<lambda>(Status, DirName, s).
       if \<not> success Status then Inr (Status, Context, s)
       else bind (bind (hang (lookup_loop run fuel InsertObjectHeader
           \<lparr>lk_Status = Status, lk_Directory = Parent, lk_NamePtr = us_Buffer Name, lk_ParsedTill = us_Buffer Name,
            lk_DirName = DirName, lk_Context = Context, lk_state = s\<rparr>)) id) (\<lambda>l.
         if InsertObjectHeader = None \<or> lk_Status l \<noteq> STATUS_SUCCESS
         then bind (ObpFreeObjectNameBuffer run fuel (lk_DirName l) (lk_state l)) (\<lambda>s. Inr (lk_Status l, lk_Context l, s))
         else Inr (lk_Status l, lk_Context l, lk_state l)))))"

section \<open>Creating objects\<close>

text \<open>\<open>memset\<close> over a new block: the header, the link of the directory entry, the list entry and the body are null.\<close>

definition clear_object :: "PVOID \<Rightarrow> ULONG \<Rightarrow> 'a obname_state_scheme \<Rightarrow> 'a obname_state_scheme" where
  "clear_object Header n s = s\<lparr>
     ObjectHeaders := (ObjectHeaders s)(Header := \<lparr>oh_Magic = 0, oh_ObjectType = None, oh_OpenHandleCount = 0, oh_RefCount = 0,
       oh_ObjectName = \<lparr>us_Length = 0, us_MaximumLength = 0, us_Buffer = 0\<rparr>, oh_Attributes = 0\<rparr>),
     ObjectTypeListLink := set_next Header None (set_prev Header None (ObjectTypeListLink s)),
     DirEntryLink := set_next (entry_link Header) None (set_prev (entry_link Header) None (DirEntryLink s)),
     Directories := (Directories s)(OBJECT_HEADER_Body Header := \<lparr>od_Flags = 0, od_DeviceObject = 0\<rparr>),
     LinkTargetObject := (LinkTargetObject s)(OBJECT_HEADER_Body Header := 0),
     Bytes := memset (Bytes s) Header 0 n\<rparr>"

definition set_header_at :: "PVOID \<Rightarrow> (OBJECT_HEADER \<Rightarrow> OBJECT_HEADER) \<Rightarrow> 'a ob_state_scheme \<Rightarrow> 'a ob_state_scheme" where
  "set_header_at Header f s = s\<lparr>ObjectHeaders := (ObjectHeaders s)(Header := f (ObjectHeaders s Header))\<rparr>"

text \<open>
  What is done about the name: the root the name is relative to, and, when the object is there already, the status to return at once.
  \<open>Object\<close> is the address of the caller's variable, which is what the code passes to \<open>ObReferenceObject\<close>.
\<close>

definition create_lookup ::
  "'a obname_state_scheme deferred_routines \<Rightarrow> nat \<Rightarrow> OBJECT_ATTRIBUTES \<Rightarrow> UNICODE_STRING \<Rightarrow> PVOID \<Rightarrow> 'a obname_state_scheme \<Rightarrow>
   fault + ((KSTATUS \<times> PVOID option) option \<times> PVOID \<times> OBP_LOOKUP_CONTEXT \<times> 'a obname_state_scheme)" where
  "create_lookup run fuel ObjectAttributes Name Object s =
     bind (if oa_RootDirectory ObjectAttributes = 0
       then ASSERT ''ObCreateObject: ObRootDirectory'' (ObRootDirectory s \<noteq> 0) (Inr (STATUS_SUCCESS, ObRootDirectory s, s))
       else ObReferenceObjectByHandle (oa_RootDirectory ObjectAttributes) (ObDirectoryObjectType s) s) (\<lambda>(Status, Root, s).
     if \<not> success Status then Inr (Some (Status, None), Root, ObInitializeLookupContext, s)
     else bind (ObpLookupObjectByName run fuel Root Name ObInitializeLookupContext None s) (\<lambda>(Status, Context, s).
       if success Status
       then if oa_Attributes ObjectAttributes AND OBJ_OPENIF \<noteq> 0
         then ASSERT ''ObCreateObject: ObIsValidObject(Context.Object)'' (ObIsValidObject (ctx_Object Context) s)
           (bind (ObReferenceObject Object s) (\<lambda>s. Inr (Some (Status, Some (ctx_Object Context)), Root, Context, s)))
         else Inr (Some (STATUS_OBJECT_NAME_COLLISION, None), Root, Context, s)
       else if Status \<noteq> STATUS_OBJECT_NAME_NOT_FOUND then Inr (Some (Status, None), Root, Context, s)
       else Inr (None, Root, Context, s)))"

text \<open>The new object enters the directory under its name; a status other than success has freed the block.\<close>

definition create_insert ::
  "'a obname_state_scheme deferred_routines \<Rightarrow> nat \<Rightarrow> UNICODE_STRING \<Rightarrow> PVOID \<Rightarrow> OBP_LOOKUP_CONTEXT \<Rightarrow> PVOID \<Rightarrow> 'a obname_state_scheme \<Rightarrow>
   fault + (KSTATUS \<times> 'a obname_state_scheme)" where
  "create_insert run fuel Name Root Context Header s =
     ASSERT ''ObCreateObject: Length <= MAX_OBJECT_PATH'' (us_Length Name \<le> MAX_OBJECT_PATH)
     (bind (ObpLookupObjectByName run fuel Root Name Context (Some Header) s) (\<lambda>(Status, Context, s).
      if \<not> success Status then bind (MmFreePoolWithTag run fuel Header TAG_objt s) (\<lambda>s. Inr (Status, s))
      else Inr (Status, s)))"

definition create_finish ::
  "'a obname_state_scheme object_methods \<Rightarrow> 'a obname_state_scheme deferred_routines \<Rightarrow> nat \<Rightarrow> nat \<Rightarrow> OBJECT_ATTRIBUTES option \<Rightarrow> PVOID \<Rightarrow>
   'a obname_state_scheme \<Rightarrow> fault + (KSTATUS \<times> PVOID option \<times> 'a obname_state_scheme)" where
  "create_finish call run fuel ty ObjectAttributes Header s =
     (let s = (case ObjectAttributes of None \<Rightarrow> s | Some a \<Rightarrow> set_header_at Header (\<lambda>h. h\<lparr>oh_Attributes := oa_Attributes a\<rparr>) s);
          s = set_header_at Header (\<lambda>h. h\<lparr>oh_ObjectType := Some ty, oh_OpenHandleCount := 0, oh_RefCount := 1\<rparr>) s
      in bind (case ot_OpenProcedure (ObjectTypeList s ty) of
          None \<Rightarrow> Inr (STATUS_SUCCESS, s)
        | Some p \<Rightarrow> call p (OBJECT_HEADER_Body Header) s) (\<lambda>(Status, s).
      if \<not> success Status then bind (MmFreePoolWithTag run fuel Header TAG_objt s) (\<lambda>s. Inr (Status, None, s))
      else bind (KeAcquireSpinLock (ObjectTypeLock ty) s) (\<lambda>(Old, s).
        bind (LIST_INSERT_HEAD Header (type_list ty s)) (\<lambda>l.
        bind (KeReleaseSpinLock run fuel (ObjectTypeLock ty) Old (set_type_list ty l s)) (\<lambda>s.
        Inr (STATUS_SUCCESS, Some (OBJECT_HEADER_Body Header), s))))))"

definition ObCreateObject ::
  "'a obname_state_scheme object_methods \<Rightarrow> 'a obname_state_scheme deferred_routines \<Rightarrow> nat \<Rightarrow> nat option \<Rightarrow> OBJECT_ATTRIBUTES option \<Rightarrow>
   ULONG \<Rightarrow> PVOID \<Rightarrow> 'a obname_state_scheme \<Rightarrow> fault + (KSTATUS \<times> PVOID option \<times> 'a obname_state_scheme)" where
  "ObCreateObject call run fuel ObjectType ObjectAttributes ObjectSize Object s =
     ASSERT ''ObCreateObject: Object != NULL'' (Object \<noteq> 0)
     (ASSERT ''ObCreateObject: ObjectSize > 0'' (ObjectSize > 0)
     (ASSERT ''ObCreateObject: ObjectType'' (ObjectType \<noteq> None)
     (deref ObjectType (\<lambda>ty.
      ASSERT ''ObCreateObject: ObjectType == &ObjectTypeList[ObjectType->TypeIndex]'' (ot_TypeIndex (ObjectTypeList s ty) = ty)
      (ASSERT ''ObCreateObject: valid attributes''
         (case ObjectAttributes of None \<Rightarrow> True | Some a \<Rightarrow> oa_Attributes a AND NOT OBJ_VALID_ATTRIBUTES = 0)
      (let Name = (case ObjectAttributes of None \<Rightarrow> None | Some a \<Rightarrow> oa_ObjectName a) in
       bind (case (ObjectAttributes, Name) of
           (Some a, Some n) \<Rightarrow> create_lookup run fuel a n Object s
         | _ \<Rightarrow> Inr (None, 0, ObInitializeLookupContext, s)) (\<lambda>(Return, Root, Context, s).
       case Return of
         Some (Status, p) \<Rightarrow> Inr (Status, p, s)
       | None \<Rightarrow>
           let ObjectMemSize = sizeof_OBJECT_HEADER + ObjectSize in
           bind (MmAllocatePoolWithTag run fuel (ot_PoolType (ObjectTypeList s ty)) ObjectMemSize (ot_PoolTag (ObjectTypeList s ty)) s) (\<lambda>(Header, s).
           if Header = 0 then Inr (STATUS_INSUFFICIENT_RESOURCES, None, s)
           else
             let s = set_header_at Header (\<lambda>h. h\<lparr>oh_Magic := OBJECT_HEADER_MAGIC\<rparr>) (clear_object Header ObjectMemSize s) in
             bind (case Name of None \<Rightarrow> Inr (STATUS_SUCCESS, s) | Some n \<Rightarrow> create_insert run fuel n Root Context Header s) (\<lambda>(Status, s).
             if \<not> success Status then Inr (Status, None, s)
             else create_finish call run fuel ty ObjectAttributes Header s)))))))))"

text \<open>The caller's handle variable is optional; so is the handle in the result.\<close>

definition insert_requested ::
  "'a obname_state_scheme object_methods \<Rightarrow> 'a obname_state_scheme deferred_routines \<Rightarrow> nat \<Rightarrow> bool \<Rightarrow> KSTATUS \<Rightarrow> PVOID \<Rightarrow> 'a obname_state_scheme \<Rightarrow>
   fault + (KSTATUS \<times> HANDLE option \<times> 'a obname_state_scheme)" where
  "insert_requested call run fuel wanted Status Object s =
     (if \<not> wanted then Inr (Status, None, s)
      else bind (ObInsertObject Object s) (\<lambda>(Status, Handle, s).
        if \<not> success Status then bind (ObDereferenceObject call run fuel Object s) (\<lambda>s. Inr (Status, Some Handle, s))
        else Inr (Status, Some Handle, s)))"

text \<open>\<open>root_name\<close> is the address of the literal that is a single backslash, \<open>var\<close> the address of the local variable \<open>Object\<close>.\<close>

definition ObCreateDirectoryObject ::
  "'a obname_state_scheme object_methods \<Rightarrow> 'a obname_state_scheme deferred_routines \<Rightarrow> nat \<Rightarrow> address \<Rightarrow> PVOID \<Rightarrow> bool \<Rightarrow> OBJECT_ATTRIBUTES \<Rightarrow>
   'a obname_state_scheme \<Rightarrow> fault + (KSTATUS \<times> HANDLE option \<times> PVOID option \<times> OBJECT_ATTRIBUTES \<times> 'a obname_state_scheme)" where
  "ObCreateDirectoryObject call run fuel root_name var wanted ObjectAttributes s =
     ASSERT ''ObCreateDirectoryObject: ObjectName'' (oa_ObjectName ObjectAttributes \<noteq> None)
     (deref (oa_ObjectName ObjectAttributes) (\<lambda>Name.
      let CreatingRootObject = (ObRootDirectory s = 0) in
      bind (if CreatingRootObject then hang (RtlInitUnicodeString (Bytes s) root_name)
        else Inr \<lparr>us_Length = 0, us_MaximumLength = 0, us_Buffer = 0\<rparr>) (\<lambda>LocalDirName.
      if CreatingRootObject \<and> RtlCompareUnicodeString (Bytes s) Name LocalDirName \<noteq> 0
      then Inl (KeBugCheck ''Creating Directory Object before Creating Root Object'')
      else
        let ObjectAttributes = (if CreatingRootObject then ObjectAttributes\<lparr>oa_ObjectName := None\<rparr> else ObjectAttributes) in
        bind (ObCreateObject call run fuel (ObDirectoryObjectType s) (Some ObjectAttributes) sizeof_OBJECT_DIRECTORY var s) (\<lambda>(Status, Created, s).
        if \<not> success Status then Inr (Status, None, None, ObjectAttributes, s)
        else deref Created (\<lambda>Object.
          let s = s\<lparr>Directories := (Directories s)(Object := (Directories s Object)\<lparr>od_Flags := 0\<rparr>),
                DirEntryLink := InitializeListHead Object (DirEntryLink s)\<rparr>;
              s = KeInitializeSpinLock (DirectoryLock Object) s
          in bind (if CreatingRootObject
              then bind (ObpAllocateObjectNameBuffer run fuel (ucast (us_Length LocalDirName)) s) (\<lambda>(Status, Buffer, s).
                let s = set_object Object (\<lambda>h. h\<lparr>oh_ObjectName := Buffer\<rparr>) s in
                if \<not> success Status then Inl (KeBugCheck ''Name Buffer Allocation failed while creating RootDirectory'')
                else let (m, n) = RtlCopyUnicodeString (Bytes s) Buffer (Some LocalDirName)
                  in Inr (Status, set_object Object (\<lambda>h. h\<lparr>oh_ObjectName := n\<rparr>) (s\<lparr>Bytes := m\<rparr>)))
              else Inr (Status, s)) (\<lambda>(Status, s).
          bind (insert_requested call run fuel wanted Status Object s) (\<lambda>(Status, Handle, s).
          Inr (Status, Handle, Some Object, ObjectAttributes, s))))))))"

section \<open>Symbolic links and mount points\<close>

definition ObGetTargetFromSymbolicLink :: "PVOID \<Rightarrow> 'a obname_state_scheme \<Rightarrow> PVOID" where
  "ObGetTargetFromSymbolicLink SymbolicLinkObject s = LinkTargetObject s SymbolicLinkObject"

definition ObpCreateSymbolicLinkObject ::
  "'a obname_state_scheme object_methods \<Rightarrow> 'a obname_state_scheme deferred_routines \<Rightarrow> nat \<Rightarrow> PVOID \<Rightarrow> bool \<Rightarrow> PVOID \<Rightarrow> OBJECT_ATTRIBUTES \<Rightarrow>
   'a obname_state_scheme \<Rightarrow> fault + (KSTATUS \<times> HANDLE option \<times> PVOID option \<times> 'a obname_state_scheme)" where
  "ObpCreateSymbolicLinkObject call run fuel var wanted TargetObject ObjectAttributes s =
     ASSERT ''ObpCreateSymbolicLinkObject: ObjectName'' (oa_ObjectName ObjectAttributes \<noteq> None)
     (if ObRootDirectory s = 0 then Inl (KeBugCheck ''Creating Symbolic Link Object before Creating Root Object'')
      else bind (ObCreateObject call run fuel (ObSymbolicLinkObjectType s) (Some ObjectAttributes) sizeof_OBJECT_DIRECTORY var s)
        (\<lambda>(Status, Created, s).
        if \<not> success Status then Inr (Status, None, None, s)
        else deref Created (\<lambda>Object.
          bind (ObReferenceObject TargetObject s) (\<lambda>s.
          let s = s\<lparr>LinkTargetObject := (LinkTargetObject s)(Object := TargetObject)\<rparr> in
          bind (insert_requested call run fuel wanted Status Object s) (\<lambda>(Status, Handle, s).
          Inr (Status, Handle, Some Object, s))))))"

definition ObCreateSymbolicLink ::
  "'a obname_state_scheme object_methods \<Rightarrow> 'a obname_state_scheme deferred_routines \<Rightarrow> nat \<Rightarrow> PVOID \<Rightarrow> UNICODE_STRING \<Rightarrow> UNICODE_STRING \<Rightarrow>
   'a obname_state_scheme \<Rightarrow> fault + (KSTATUS \<times> 'a obname_state_scheme)" where
  "ObCreateSymbolicLink call run fuel var SymbolicLinkName TargetName s =
     bind (ObpLookupObjectByName run fuel (ObRootDirectory s) TargetName ObInitializeLookupContext None s) (\<lambda>(Status, Context, s).
     ASSERT ''ObCreateSymbolicLink: 0'' (success Status)
     (bind (ObpCreateSymbolicLinkObject call run fuel var False (ctx_Object Context)
         \<lparr>oa_RootDirectory = 0, oa_ObjectName = Some SymbolicLinkName, oa_Attributes = 0\<rparr> s) (\<lambda>(Status, _, _, s).
      Inr (Status, s))))"

definition ObMountFileSystem ::
  "'a obname_state_scheme deferred_routines \<Rightarrow> nat \<Rightarrow> UNICODE_STRING \<Rightarrow> UNICODE_STRING \<Rightarrow> 'a obname_state_scheme \<Rightarrow>
   fault + (KSTATUS \<times> 'a obname_state_scheme)" where
  "ObMountFileSystem run fuel MountPoint TargetName s =
     bind (ObpLookupObjectByName run fuel (ObRootDirectory s) TargetName ObInitializeLookupContext None s) (\<lambda>(Status, Context, s).
     ASSERT ''ObMountFileSystem: 0'' (success Status)
     (let TargetObject = ctx_Object Context in
      bind (ObIsDeviceObject TargetObject s) (\<lambda>device.
      if \<not> device then Inr (STATUS_INVALID_DEVICE_OBJECT_PARAMETER, s)
      else bind (ObpLookupObjectByName run fuel (ObRootDirectory s) MountPoint ObInitializeLookupContext None s) (\<lambda>(Status, Context, s).
        ASSERT ''ObMountFileSystem: 0'' (success Status)
        (let DirObject = ctx_Object Context in
         bind (ObIsMountpointObject DirObject s) (\<lambda>mount.
         if mount then Inr (STATUS_OBJECT_NAME_EXISTS, s)
         else Inr (Status, s\<lparr>Directories := (Directories s)(DirObject := (Directories s DirObject)\<lparr>
             od_Flags := od_Flags (Directories s DirObject) OR OB_DIRECTORY_MOUNTPOINT, od_DeviceObject := TargetObject\<rparr>)\<rparr>)))))))"

text \<open>
  \<open>garbage\<close> is what the uninitialised variable \<open>Object\<close> holds. The function has no return statement for an object that is neither a
  directory nor a symbolic link: \<open>None\<close>.
\<close>

definition ObGetDeviceObject ::
  "'a obname_state_scheme deferred_routines \<Rightarrow> nat \<Rightarrow> PVOID \<Rightarrow> address \<Rightarrow> 'a obname_state_scheme \<Rightarrow>
   fault + ((KSTATUS \<times> PVOID \<times> address) option \<times> 'a obname_state_scheme)" where
  "ObGetDeviceObject run fuel garbage Path s =
     bind (hang (strlen (Bytes s) Path)) (\<lambda>n.
     bind (ObpLookupObjectByName run fuel (ObGlobalDirectory s) \<lparr>us_Length = ucast n, us_MaximumLength = ucast n, us_Buffer = Path\<rparr>
       ObInitializeLookupContext None s) (\<lambda>(Status, Context, s).
     let Object = (if Status = STATUS_SUCCESS then ctx_Object Context
       else if Status = STATUS_OBJECT_NAME_NOT_FOUND \<or> Status = STATUS_OBJECT_PATH_NOT_FOUND then ctx_Directory Context else garbage)
     in bind (ObIsDirectoryObject Object s) (\<lambda>dir.
       if dir then bind (ObIsMountpointObject Object s) (\<lambda>mount.
         ASSERT ''ObGetDeviceObject: 0'' mount
         (Inr (Some (STATUS_SUCCESS, od_DeviceObject (Directories s Object), ctx_ParsedTill Context), s)))
       else bind (ObIsSymbolicLinkObject Object s) (\<lambda>link.
         if link then bind (ObIsDeviceObject (LinkTargetObject s Object) s) (\<lambda>device.
           ASSERT ''ObGetDeviceObject: 0'' device
           (Inr (Some (STATUS_SUCCESS, LinkTargetObject s Object, ctx_ParsedTill Context), s)))
         else Inr (None, s)))))"

section \<open>Initialisation\<close>

definition new_type :: "ULONG \<Rightarrow> nat \<Rightarrow> OBJECT_TYPE" where
  "new_type sz i = \<lparr>ot_PoolType = PagedPool, ot_FLAGS = 0, ot_ObjectSize = sz, ot_TypeIndex = i, ot_PoolTag = NonPagedPool,
     ot_Object_List_Head = LIST_INIT, ot_OpenProcedure = None, ot_CloseProcedure = None\<rparr>"

definition ObpCreateDirectoryObjectType :: "'a obname_state_scheme \<Rightarrow> fault + 'a obname_state_scheme" where
  "ObpCreateDirectoryObjectType s =
     bind (ObCreateObjectType (new_type sizeof_OBJECT_DIRECTORY OBJECT_TYPE_DIRECTORY) (ObDirectoryObjectType s) s) (\<lambda>(i, s).
     Inr (s\<lparr>ObDirectoryObjectType := Some i\<rparr>))"

definition ObpCreateSymbolicLinkObjectType :: "'a obname_state_scheme \<Rightarrow> fault + 'a obname_state_scheme" where
  "ObpCreateSymbolicLinkObjectType s =
     bind (ObCreateObjectType (new_type sizeof_OBJECT_SYMBOLIC_LINK OBJECT_TYPE_SYMLINK) (ObSymbolicLinkObjectType s) s) (\<lambda>(i, s).
     Inr (s\<lparr>ObSymbolicLinkObjectType := Some i\<rparr>))"

definition create_init_directory ::
  "'a obname_state_scheme object_methods \<Rightarrow> 'a obname_state_scheme deferred_routines \<Rightarrow> nat \<Rightarrow> address \<Rightarrow> PVOID \<Rightarrow> string \<Rightarrow> address \<Rightarrow> HANDLE \<Rightarrow>
   'a obname_state_scheme \<Rightarrow> fault + (PVOID \<times> 'a obname_state_scheme)" where
  "create_init_directory call run fuel root_name var msg literal RootDirectory s =
     bind (hang (RtlInitUnicodeString (Bytes s) literal)) (\<lambda>Name.
     bind (ObCreateDirectoryObject call run fuel root_name var False
       \<lparr>oa_RootDirectory = RootDirectory, oa_ObjectName = Some Name, oa_Attributes = OBJ_PERMANENT OR OBJ_KERNEL_HANDLE\<rparr> s)
       (\<lambda>(Status, _, Object, _, s).
     if \<not> success Status then Inl (KeBugCheck msg) else deref Object (\<lambda>ob. Inr (ob, s))))"

text \<open>The literals of the four directory names, and the uninitialised handle the last two are created under.\<close>

definition Ob_init ::
  "'a obname_state_scheme object_methods \<Rightarrow> 'a obname_state_scheme deferred_routines \<Rightarrow> nat \<Rightarrow> PVOID \<Rightarrow> address \<Rightarrow> address \<Rightarrow> address \<Rightarrow> address \<Rightarrow>
   HANDLE \<Rightarrow> 'a obname_state_scheme \<Rightarrow> fault + 'a obname_state_scheme" where
  "Ob_init call run fuel var root_name global_name driver_name device_name DirHandle s =
     bind (ObpCreateDirectoryObjectType s) (\<lambda>s.
     bind (ObpCreateSymbolicLinkObjectType s) (\<lambda>s.
     bind (create_init_directory call run fuel root_name var ''Root ObjectCreation Failed'' root_name 0 s) (\<lambda>(Root, s).
     let s = s\<lparr>ObRootDirectory := Root\<rparr> in
     bind (create_init_directory call run fuel root_name var ''GLOBAL?? ObjectCreation Failed'' global_name 0 s) (\<lambda>(Global, s).
     let s = s\<lparr>ObGlobalDirectory := Global\<rparr> in
     bind (create_init_directory call run fuel root_name var ''Driver ObjectCreation Failed'' driver_name DirHandle s) (\<lambda>(_, s).
     bind (create_init_directory call run fuel root_name var ''Driver ObjectCreation Failed'' device_name DirHandle s) (\<lambda>(_, s).
     Inr s))))))"

section \<open>Paths as lists\<close>

text \<open>The names of a path, and whether something follows the last of them.\<close>

function components :: "UCHAR list \<Rightarrow> UCHAR list list" where
  "components xs = (case dropWhile IsPathSeperator xs of
     [] \<Rightarrow> []
   | y # ys \<Rightarrow> (y # takeWhile (\<lambda>c. \<not> IsPathSeperator c) ys) # components (dropWhile (\<lambda>c. \<not> IsPathSeperator c) ys))"
  by auto
termination
proof (relation "measure length")
  fix xs :: "UCHAR list" and y ys
  assume "dropWhile IsPathSeperator xs = y # ys"
  then have "Suc (length ys) \<le> length xs" by (metis length_Cons length_dropWhile_le)
  then show "(dropWhile (\<lambda>c. \<not> IsPathSeperator c) ys, xs) \<in> measure length"
    using length_dropWhile_le [of "\<lambda>c. \<not> IsPathSeperator c" ys] by simp
qed simp

declare components.simps [simp del]

definition trailing :: "UCHAR list \<Rightarrow> bool" where
  "trailing xs \<longleftrightarrow> xs = [] \<or> IsPathSeperator (last xs)"

text \<open>The 129 bytes a name is parsed into, and memories that agree outside them.\<close>

definition outside :: "address \<Rightarrow> address \<Rightarrow> nat \<Rightarrow> bool" where
  "outside B p n \<longleftrightarrow> (\<forall>j < n. 128 < unat (p + of_nat j - B))"

definition agree :: "address \<Rightarrow> memory \<Rightarrow> memory \<Rightarrow> bool" where
  "agree B m m' \<longleftrightarrow> (\<forall>a. 128 < unat (a - B) \<longrightarrow> m' a = m a)"

lemma agree_trans: "agree B m m' \<Longrightarrow> agree B m' m'' \<Longrightarrow> agree B m m''"
  by (simp add: agree_def)

lemma outside_Suc: "outside B p (Suc n) \<longleftrightarrow> 128 < unat (p - B) \<and> outside B (p + 1) n"
  unfolding outside_def by (subst All_less_Suc2) (simp add: algebra_simps)

lemma bytes_agree: "agree B m m' \<Longrightarrow> outside B p n \<Longrightarrow> bytes m' p n = bytes m p n"
  by (induction n arbitrary: p) (simp_all add: outside_Suc, simp add: agree_def)

lemma cstr_agree: "agree B m m' \<Longrightarrow> outside B p (Suc (length xs)) \<Longrightarrow> cstr m p xs \<Longrightarrow> cstr m' p xs"
  by (induction xs arbitrary: p) (auto simp: outside_Suc agree_def)

lemma cstr_append: "cstr m p (xs @ ys) \<longleftrightarrow> (\<forall>x \<in> set xs. x \<noteq> NUL) \<and> bytes m p (length xs) = xs \<and> cstr m (p + of_nat (length xs)) ys"
  by (induction xs arbitrary: p) (auto simp: algebra_simps)

lemma outside_append: "outside B p (m + n) \<longleftrightarrow> outside B p m \<and> outside B (p + of_nat m) n"
proof -
  have "(\<forall>j < m + n. P j) \<longleftrightarrow> (\<forall>j < m. P j) \<and> (\<forall>j < n. P (m + j))" for P :: "nat \<Rightarrow> bool"
    by (metis add_less_cancel_left le_add_diff_inverse not_le trans_less_add1)
  then show ?thesis by (simp add: outside_def algebra_simps)
qed

lemma skip_separators_cstr:
  "cstr m p xs \<Longrightarrow> skip_separators m p = Some (p + of_nat (length (takeWhile IsPathSeperator xs)))"
  by (induction xs arbitrary: p; subst skip_separators.simps) (auto simp: algebra_simps)

lemma skip_name_cstr:
  "cstr m p xs \<Longrightarrow> skip_name m p = Some (p + of_nat (length (takeWhile (\<lambda>c. \<not> IsPathSeperator c) xs)))"
  by (induction xs arbitrary: p; subst skip_name.simps) (auto simp: algebra_simps)

lemma bytes_nth_eq: "j < n \<Longrightarrow> bytes m p n ! j = m (p + of_nat j)"
  by (induction n arbitrary: p j) (auto simp: nth_Cons' algebra_simps)

lemma length_bytes [simp]: "length (bytes m p n) = n"
  by (induction n arbitrary: p) simp_all

text \<open>One name copied into the buffer.\<close>

lemma strncpy_name:
  assumes src: "bytes m p (length c) = c" "\<forall>x \<in> set c. x \<noteq> NUL" and n: "length c \<le> 128" and out: "outside B p (length c)"
  defines "m' \<equiv> (strncpy m B p (of_nat (length c)))(B + of_nat (length c) := NUL)"
  shows "agree B m m' \<and> bytes m' B (length c) = c"
proof -
  have u: "unat (of_nat (length c) :: ULONG) = length c" using n by (intro unat_of_nat32) simp
  have nz: "m (p + of_nat j) \<noteq> NUL" if "j < length c" for j
    using src that bytes_nth_eq [of j "length c" m p] by (metis nth_mem)
  have ne: "B + of_nat j \<noteq> p + of_nat j'" if "j < length c" "j' < length c" for j j'
  proof
    assume "B + of_nat j = p + of_nat j'"
    then have "p + of_nat j' - B = of_nat j" by (metis add_diff_cancel_left')
    moreover have "unat (of_nat j :: ULONG) = j" using that n by (intro unat_of_nat32) simp
    ultimately show False using out that n by (auto simp: outside_def)
  qed
  have eq: "strncpy m B p (of_nat (length c)) = (\<lambda>a. if unat (a - B) < length c then m (p + (a - B)) else m a)"
    unfolding strncpy_def by (subst strncpy_loop_eq) (use nz ne u in auto)
  have off: "unat (B + of_nat j - B) = j" if "j \<le> length c" for j
    using that n by (simp add: unat_of_nat32)
  have "m' a = m a" if "128 < unat (a - B)" for a using that n off [of "length c"] by (auto simp: m'_def eq)
  moreover have "bytes m' B (length c) = c"
  proof (rule nth_equalityI)
    fix j assume "j < length (bytes m' B (length c))"
    then have j: "j < length c" by simp
    have "(of_nat j :: ULONG) \<noteq> of_nat (length c)" using off [of j] off [of "length c"] j by auto
    then show "bytes m' B (length c) ! j = c ! j"
      using j off [of j] src(1) bytes_nth_eq [of j "length c" m p] by (simp add: bytes_nth_eq m'_def eq)
  qed simp
  ultimately show ?thesis by (simp add: agree_def)
qed

lemma components_Nil: "components xs = [] \<longleftrightarrow> dropWhile IsPathSeperator xs = []"
  by (subst components.simps) (auto split: list.split simp del: dropWhile_eq_Nil_conv)

lemma parse_none:
  assumes "cstr m p xs" and "components xs = []"
  shows "ObParseDirectoryPath m p N t = Inr (False, m, N, t)"
proof -
  have "takeWhile IsPathSeperator xs = xs" using assms(2) by (simp add: components_Nil)
  then have "skip_separators m p = Some (p + of_nat (length xs))" using skip_separators_cstr [OF assms(1)] by (simp del: takeWhile_eq_all_conv)
  then show ?thesis using assms(1) cstr_append [of m p xs "[]"] by (simp add: ObParseDirectoryPath_def hang_def)
qed

text \<open>The next name of a path, and the rest of the path behind it.\<close>

lemma parse_next:
  assumes xs: "cstr m p xs" "outside B p (Suc (length xs))" and c: "components xs = c # cs" "length c \<le> 128"
    and N: "us_Buffer N = B" "us_MaximumLength N = 128"
  shows "\<exists>m' q ys. ObParseDirectoryPath m p N t = Inr (True, m', N\<lparr>us_Length := of_nat (length c)\<rparr>, q) \<and> agree B m m' \<and>
    bytes m' B (length c) = c \<and> cstr m' q ys \<and> outside B q (Suc (length ys)) \<and> components ys = cs \<and> length ys < length xs \<and>
    NUL \<notin> set c \<and> (ys = [] \<longrightarrow> \<not> trailing xs) \<and> (ys \<noteq> [] \<longrightarrow> trailing ys = trailing xs)"
proof -
  let ?us = "takeWhile IsPathSeperator xs" and ?n = "\<lambda>c. \<not> IsPathSeperator c"
  obtain y zs where dw: "dropWhile IsPathSeperator xs = y # zs" "c = y # takeWhile ?n zs" "cs = components (dropWhile ?n zs)"
    using c(1) by (subst (asm) components.simps) (auto split: list.splits)
  define ys where "ys = dropWhile ?n zs"
  have split: "xs = ?us @ c @ ys" using dw takeWhile_dropWhile_id [of IsPathSeperator xs] by (simp add: ys_def)
  let ?p = "p + of_nat (length ?us)"
  let ?q = "?p + of_nat (length c)"
  have len: "length xs = length ?us + (length c + length ys)" using arg_cong [OF split, of length] by simp
  have cs: "bytes m ?p (length c) = c" "\<forall>x \<in> set c. x \<noteq> NUL" "cstr m ?q ys" "cstr m ?p (y # zs)"
    using xs(1) split cstr_append [of m p ?us "c @ ys"] cstr_append [of m ?p c ys] takeWhile_dropWhile_id [of ?n zs]
    by (auto simp: dw(2) ys_def)
  have out: "outside B ?p (length c)" "outside B ?q (Suc (length ys))"
    using xs(2) outside_append [of B p "length ?us" "length c + Suc (length ys)"] outside_append [of B ?p "length c" "Suc (length ys)"]
    by (simp_all add: len)
  let ?m = "(strncpy m B ?p (of_nat (length c)))(B + of_nat (length c) := NUL)"
  have m': "agree B m ?m" "bytes ?m B (length c) = c" using strncpy_name [OF cs(1,2) c(2) out(1)] by simp_all
  have sk: "skip_separators m p = Some ?p" "skip_name m (?p + 1) = Some ?q"
    using skip_separators_cstr [OF xs(1)] skip_name_cstr [of m "?p + 1" zs] cs(4) dw(2) by (simp_all add: algebra_simps)
  have le: "(of_nat (length c) :: ULONG) \<le> 128" using c(2) by (simp add: word_le_nat_alt unat_of_nat32)
  have u16: "(ucast (of_nat (length c) :: ULONG) :: USHORT) = of_nat (length c)"
    using c(2) by (simp add: word_unat_eq_iff unsigned_ucast_eq unat_of_nat take_bit_nat_eq_self)
  have "m ?p \<noteq> NUL" "m ?p = y" using cs(4) by auto
  then have "ObParseDirectoryPath m p N t = Inr (True, ?m, N\<lparr>us_Length := of_nat (length c)\<rparr>, ?q)"
    using sk le N by (simp add: ObParseDirectoryPath_def hang_def Let_def u16 min_absorb1)
  moreover have "ys = [] \<longrightarrow> \<not> trailing xs"
  proof
    assume "ys = []"
    then have "xs = ?us @ c" "c \<noteq> []" using split dw(2) by simp_all
    then have "last xs = last c" "xs \<noteq> []" by (metis last_appendR, metis append_is_Nil_conv)
    moreover have "\<not> IsPathSeperator x" if "x \<in> set c" for x
      using that dw(2) dw(1) set_takeWhileD [of x ?n zs] hd_dropWhile [of IsPathSeperator xs] by auto
    ultimately show "\<not> trailing xs" using dw(2) last_in_set [of c] by (simp add: trailing_def)
  qed
  moreover have "ys \<noteq> [] \<longrightarrow> trailing ys = trailing xs"
    using split by (metis append_is_Nil_conv last_appendR trailing_def)
  ultimately show ?thesis
    using m' cstr_agree [OF m'(1) out(2) cs(3)] out(2) dw cs(2) len by (intro exI [of _ ?m] exI [of _ ?q] exI [of _ ys]) (auto simp: ys_def)
qed

section \<open>The entries of a directory\<close>

definition object_name :: "'a obname_state_scheme \<Rightarrow> PVOID \<Rightarrow> UCHAR list" where
  "object_name s Header = (let n = oh_ObjectName (ObjectHeaders s Header) in bytes (Bytes s) (us_Buffer n) (unat (us_Length n)))"

definition entries :: "'a obname_state_scheme \<Rightarrow> PVOID list \<Rightarrow> UCHAR list \<Rightarrow> PVOID option" where
  "entries s es = map_of (map (\<lambda>h. (object_name s h, OBJECT_HEADER_Body h)) es)"

lemma find_entry_chain:
  assumes "chain m (map entry_link es @ [d])" and "\<forall>e \<in> set es. entry_link e \<noteq> d"
  shows "find_entry m P d (hd (map entry_link es @ [d])) = Some (Inr (find P es))"
  using assms
proof (induction es)
  case Nil
  then show ?case by (subst find_entry.simps) simp
next
  case (Cons e es)
  have "Flink m (entry_link e) = Some (hd (map entry_link es @ [d]))" "chain m (map entry_link es @ [d])"
    using Cons.prems(1) by (cases es; simp)+
  moreover have "entry_link e - 12 = e" by (simp add: entry_link_def)
  ultimately show ?case using Cons.IH Cons.prems(2) by (subst find_entry.simps) simp
qed

lemma find_map_of: "map_option g (find (\<lambda>h. f h = n) es) = map_of (map (\<lambda>h. (f h, g h)) es) n"
  by (induction es) auto

text \<open>The search of a directory finds the entry with the name, whatever is in the lock variables.\<close>

lemma lookup_entry_correct:
  assumes r: "ring (DirEntryLink s) (d # map entry_link es)" and n: "NUL \<notin> set c" "length c \<le> 128"
    and N: "bytes (Bytes s) (us_Buffer N) (length c) = c" "us_Length N = of_nat (length c)"
  shows "\<exists>Found. lookup_entry d N s = Inr Found \<and> map_option OBJECT_HEADER_Body Found = entries s es c \<and>
    (\<forall>h. Found = Some h \<longrightarrow> h \<in> set es)"
proof -
  let ?P = "\<lambda>h. RtlCompareUnicodeString (Bytes s) N (oh_ObjectName (ObjectHeaders s h)) = 0"
  have u: "unat (us_Length N) = length c" using n(2) N(2) by (simp add: unat_of_nat take_bit_nat_eq_self)
  have P: "?P = (\<lambda>h. object_name s h = c)"
    using RtlCompareUnicodeString_eq [of "Bytes s" N] n(1) N(1) by (auto simp: u object_name_def Let_def)
  have ch: "chain (DirEntryLink s) (d # map entry_link es @ [d])" "distinct (d # map entry_link es)" using r by (auto simp: ring_def)
  have fl: "Flink (DirEntryLink s) d = Some (hd (map entry_link es @ [d]))" "chain (DirEntryLink s) (map entry_link es @ [d])"
    using ch(1) by (cases es; simp)+
  have "\<forall>e \<in> set es. entry_link e \<noteq> d" using ch(2) by auto
  then have "lookup_entry d N s = Inr (find ?P es)"
    using find_entry_chain [OF fl(2), of ?P] fl(1) by (simp add: lookup_entry_def hang_def)
  moreover have "map_option OBJECT_HEADER_Body (find ?P es) = entries s es c" unfolding P entries_def by (rule find_map_of)
  moreover have "\<forall>h. find ?P es = Some h \<longrightarrow> h \<in> set es" by (auto simp: find_Some_iff)
  ultimately show ?thesis by blast
qed

section \<open>The namespace\<close>

text \<open>
  The specification of a lookup. A namespace gives for each object \<open>None\<close> when it is no directory and otherwise the
  objects entered in it by name. The result is the status, the directory and the object of the context;
  \<open>slash\<close> says that something follows the last name, so that the object has to be a directory.
\<close>

type_synonym namespace = "PVOID \<Rightarrow> (UCHAR list \<Rightarrow> PVOID option) option"

fun resolve :: "namespace \<Rightarrow> bool \<Rightarrow> PVOID \<Rightarrow> PVOID \<Rightarrow> PVOID \<Rightarrow> UCHAR list list \<Rightarrow> KSTATUS \<times> PVOID \<times> PVOID" where
  "resolve ns slash Dir Obj d [] =
     (if slash \<and> ns d = None then (STATUS_OBJECT_PATH_NOT_FOUND, d, 0) else (STATUS_SUCCESS, Dir, Obj))"
| "resolve ns slash Dir Obj d (c # cs) =
     (case ns d of
        None \<Rightarrow> (STATUS_OBJECT_PATH_NOT_FOUND, d, 0)
      | Some f \<Rightarrow> (case f c of
          None \<Rightarrow> (if cs = [] then STATUS_OBJECT_NAME_NOT_FOUND else STATUS_OBJECT_PATH_NOT_FOUND, d, 0)
        | Some ob \<Rightarrow> resolve ns slash d ob ob cs))"

text \<open>
  The namespace of a state, over a set of objects closed under lookup: each directory is a ring of entries whose names lie outside the
  buffer at \<open>B\<close>, and its lock is free.
\<close>

definition directory_is :: "'a obname_state_scheme \<Rightarrow> address \<Rightarrow> PVOID set \<Rightarrow> PVOID \<Rightarrow> (UCHAR list \<Rightarrow> PVOID option) \<Rightarrow> bool" where
  "directory_is s B R d f \<longleftrightarrow> lockable (DirectoryLock d) s \<and>
     (\<exists>es. ring (DirEntryLink s) (d # map entry_link es) \<and> f = entries s es \<and>
       (\<forall>h \<in> set es. OBJECT_HEADER_Body h \<in> R \<and>
         outside B (us_Buffer (oh_ObjectName (ObjectHeaders s h))) (unat (us_Length (oh_ObjectName (ObjectHeaders s h))))))"

definition namespace_is :: "'a obname_state_scheme \<Rightarrow> address \<Rightarrow> PVOID set \<Rightarrow> namespace \<Rightarrow> bool" where
  "namespace_is s B R ns \<longleftrightarrow> ObDirectoryObjectType s \<noteq> None \<and>
     (\<forall>d \<in> R. ObIsValidObject d s \<and> (oh_ObjectType (header d s) = ObDirectoryObjectType s \<longleftrightarrow> ns d \<noteq> None) \<and>
       (\<forall>f. ns d = Some f \<longrightarrow> directory_is s B R d f))"

lemma obname_more:
  fixes s t :: "'a obname_state_scheme"
  assumes "ke_state.more t = ke_state.more s"
  shows "lookup_entry d N t = lookup_entry d N s" "ObIsMountpointObject ob t = ObIsMountpointObject ob s"
  using assms by (cases s; cases t; simp add: lookup_entry_def ObIsMountpointObject_def is_type_def ObIsValidObject_def header_def)+

text \<open>A search under the lock of the directory leaves the state as it was.\<close>

lemma ObpLookupEntryDirectory_correct:
  fixes s :: "'a obname_state_scheme"
  assumes lk: "lockable (DirectoryLock d) s" and r: "ring (DirEntryLink s) (d # map entry_link es)"
    and n: "NUL \<notin> set c" "length c \<le> 128"
    and N: "bytes (Bytes s) (us_Buffer N) (length c) = c" "us_Length N = of_nat (length c)"
    and es: "\<forall>h \<in> set es. ObIsValidObject (OBJECT_HEADER_Body h) s" "ObDirectoryObjectType s \<noteq> None"
    and ctx: "\<not> ctx_DirectoryLocked ctx"
  shows "\<exists>ctx'. ObpLookupEntryDirectory run (Suc fuel) d N ctx s =
      Inr (if entries s es c = None then STATUS_OBJECT_NAME_NOT_FOUND else STATUS_SUCCESS, ctx', s) \<and>
    \<not> ctx_DirectoryLocked ctx' \<and> ctx_ParsedTill ctx' = ctx_ParsedTill ctx \<and>
    (\<forall>ob. entries s es c = Some ob \<longrightarrow> ctx_Directory ctx' = d \<and> ctx_Object ctx' = ob)"
proof -
  obtain i s1 where s1: "KeAcquireSpinLock (DirectoryLock d) s = Inr (i, s1)" "ke_state.more s1 = ke_state.more s"
    "KeReleaseSpinLock run (Suc fuel) (DirectoryLock d) i s1 = Inr s" using lock_pair [OF lk, of run fuel] by blast
  obtain Found where F: "lookup_entry d N s = Inr Found" "map_option OBJECT_HEADER_Body Found = entries s es c"
    "\<forall>h. Found = Some h \<longrightarrow> h \<in> set es" using lookup_entry_correct [OF r n N] by blast
  have e: "entries s es c = map_option OBJECT_HEADER_Body Found" using F(2) by simp
  note unfold = ObpLookupEntryDirectory_def ObpAcquireDirectoryLock_def ObpReleaseDirectoryLock_def Let_def
  show ?thesis
  proof (cases Found)
    case None
    then show ?thesis using F(1) s1 ctx obname_more [OF s1(2)] by (simp add: unfold e)
  next
    case (Some h)
    then have "ObIsValidObject (OBJECT_HEADER_Body h) s" using F(3) es(1) by simp
    then obtain b where "ObIsMountpointObject (OBJECT_HEADER_Body h) s = Inr b"
      using es(2) by (simp add: ObIsMountpointObject_def is_type_def)
    then show ?thesis using F(1) s1 ctx obname_more [OF s1(2)] Some by (cases b) (simp_all add: unfold e)
  qed
qed

lemma namespace_agree:
  assumes ns: "namespace_is s B R ns" and ag: "agree B (Bytes s) m"
  shows "namespace_is (s\<lparr>Bytes := m\<rparr>) B R ns"
proof -
  let ?s = "s\<lparr>Bytes := m\<rparr>"
  have same: "ObIsValidObject d ?s = ObIsValidObject d s" "header d ?s = header d s" for d by (simp_all add: ObIsValidObject_def header_def)
  have "directory_is ?s B R d f" if "directory_is s B R d f" for d f
  proof -
    obtain es where es: "ring (DirEntryLink s) (d # map entry_link es)" "f = entries s es" "\<forall>h \<in> set es. OBJECT_HEADER_Body h \<in> R \<and>
        outside B (us_Buffer (oh_ObjectName (ObjectHeaders s h))) (unat (us_Length (oh_ObjectName (ObjectHeaders s h))))"
      using \<open>directory_is s B R d f\<close> unfolding directory_is_def by blast
    have "object_name ?s h = object_name s h" if "h \<in> set es" for h
      using bytes_agree [OF ag] es(3) that by (simp add: object_name_def Let_def)
    then have "entries ?s es = entries s es" unfolding entries_def by (intro arg_cong [of _ _ map_of] map_cong) auto
    moreover have "lockable (DirectoryLock d) ?s"
      using that truncate_lockable [of "DirectoryLock d" s ?s] by (simp add: directory_is_def ke_state.truncate_def)
    ultimately show ?thesis unfolding directory_is_def using es by (intro conjI exI [of _ es]) simp_all
  qed
  then show ?thesis using ns unfolding namespace_is_def same by simp
qed

lemma trailing_no_name: "components xs = [] \<Longrightarrow> trailing xs"
  by (cases "xs = []") (simp_all add: components_Nil trailing_def)

definition searching :: "address \<Rightarrow> PVOID set \<Rightarrow> namespace \<Rightarrow> UCHAR list \<Rightarrow> ('a obname_state_scheme) lookup \<Rightarrow> bool" where
  "searching B R ns xs l \<longleftrightarrow> namespace_is (lk_state l) B R ns \<and> lk_Directory l \<in> R \<and>
     cstr (Bytes (lk_state l)) (lk_NamePtr l) xs \<and> outside B (lk_NamePtr l) (Suc (length xs)) \<and>
     us_Buffer (lk_DirName l) = B \<and> us_MaximumLength (lk_DirName l) = 128 \<and> lk_Status l = STATUS_SUCCESS \<and>
     \<not> ctx_DirectoryLocked (lk_Context l) \<and> (\<forall>c \<in> set (components xs). length c \<le> 128)"

definition found :: "address \<Rightarrow> 'a obname_state_scheme \<Rightarrow> KSTATUS \<times> PVOID \<times> PVOID \<Rightarrow> ('a obname_state_scheme) lookup \<Rightarrow> bool" where
  "found B s r l \<longleftrightarrow> (lk_Status l, ctx_Directory (lk_Context l), ctx_Object (lk_Context l)) = r \<and> us_Buffer (lk_DirName l) = B \<and>
     (\<exists>m. lk_state l = s\<lparr>Bytes := m\<rparr> \<and> agree B (Bytes s) m)"

lemma foundI:
  "lk_Status l = st \<Longrightarrow> ctx_Directory (lk_Context l) = D \<Longrightarrow> ctx_Object (lk_Context l) = ob \<Longrightarrow> us_Buffer (lk_DirName l) = B \<Longrightarrow>
   lk_state l = s\<lparr>Bytes := m\<rparr> \<Longrightarrow> agree B (Bytes s) m \<Longrightarrow> found B s (st, D, ob) l"
  unfolding found_def by blast

lemma ObIsDirectoryObject_eq:
  "namespace_is s B R ns \<Longrightarrow> d \<in> R \<Longrightarrow> ObIsDirectoryObject d s = Inr (ns d \<noteq> None)"
  by (auto simp: namespace_is_def ObIsDirectoryObject_def is_type_def)

text \<open>A new entry at the tail of a directory, made under the lock of the directory.\<close>

lemma ObpInsertEntryDirectory_correct:
  fixes s :: "'a obname_state_scheme"
  assumes lk: "lockable (DirectoryLock d) s" and dir: "ObIsDirectoryObject d s = Inr True"
    and h: "Flink (DirEntryLink s) (entry_link h) = None" and ins: "InsertTailList d (entry_link h) (DirEntryLink s) = Inr ln"
    and ctx: "ctx_Directory ctx = d" "\<not> ctx_DirectoryLocked ctx"
  shows "\<exists>ctx'. ObpInsertEntryDirectory run (Suc fuel) d ctx h s = Inr (True, ctx', s\<lparr>DirEntryLink := ln\<rparr>)"
proof -
  let ?b = "\<lambda>s. bind (InsertTailList d (entry_link h) (DirEntryLink s)) (\<lambda>m. Inr ((), s\<lparr>DirEntryLink := m\<rparr>))"
  have "spinlock.bracket (DirectoryLock d) run fuel ?b s = Inr ((), s\<lparr>DirEntryLink := ln\<rparr>)"
  proof (rule spinlock_section [OF lk])
    fix t :: "'a obname_state_scheme"
    assume t: "ke_state.more t = ke_state.more s"
    have "DirEntryLink t = DirEntryLink s" "ke_state.more (t\<lparr>DirEntryLink := ln\<rparr>) = ke_state.more (s\<lparr>DirEntryLink := ln\<rparr>)"
      using t by (cases s; cases t; simp)+
    then show "\<exists>t'. ?b t = Inr ((), t') \<and> ke_state.truncate t' = ke_state.truncate t \<and> ke_state.more t' = ke_state.more (s\<lparr>DirEntryLink := ln\<rparr>)"
      using ins by (intro exI [of _ "t\<lparr>DirEntryLink := ln\<rparr>"]) (simp add: ke_state.truncate_def)
  qed (simp add: ke_state.truncate_def)
  then show ?thesis
    using dir h ctx ins by (auto simp: spinlock.bracket_def ObpInsertEntryDirectory_def ObpAcquireDirectoryLock_def ObpReleaseDirectoryLock_def
        acquire_lockable [OF lk] Let_def bind_eq_Inr)
qed

text \<open>A name that is not there: it is entered when it is the last one and the caller asked for that.\<close>

definition entered :: "address \<Rightarrow> 'a obname_state_scheme \<Rightarrow> PVOID \<Rightarrow> PVOID \<Rightarrow> UCHAR list \<Rightarrow> ('a obname_state_scheme) lookup \<Rightarrow> bool" where
  "entered B s h d c l \<longleftrightarrow> lk_Status l = STATUS_SUCCESS \<and> (\<exists>m ln. agree B (Bytes s) m \<and> bytes m B (length c) = c \<and>
     InsertTailList d (entry_link h) (DirEntryLink s) = Inr ln \<and>
     lk_state l = s\<lparr>Bytes := m, ObjectHeaders := (ObjectHeaders s)(h := ObjectHeaders s h\<lparr>oh_ObjectName :=
       \<lparr>us_Length = of_nat (length c), us_MaximumLength = 128, us_Buffer = B\<rparr>\<rparr>), DirEntryLink := ln\<rparr>)"

definition looked_up ::
  "address \<Rightarrow> PVOID option \<Rightarrow> 'a obname_state_scheme \<Rightarrow> UCHAR list \<Rightarrow> KSTATUS \<times> PVOID \<times> PVOID \<Rightarrow> ('a obname_state_scheme) lookup \<Rightarrow> bool" where
  "looked_up B ins s c r l \<longleftrightarrow> (case ins of
     Some h \<Rightarrow> if fst r = STATUS_OBJECT_NAME_NOT_FOUND then entered B s h (fst (snd r)) c l else found B s r l
   | None \<Rightarrow> found B s r l)"

definition fresh :: "PVOID option \<Rightarrow> PVOID set \<Rightarrow> 'a obname_state_scheme \<Rightarrow> bool" where
  "fresh ins R s \<longleftrightarrow> (\<forall>h. ins = Some h \<longrightarrow> Flink (DirEntryLink s) (entry_link h) = None \<and> OBJECT_HEADER_Body h \<notin> R)"

lemma looked_up_found: "found B s r l \<Longrightarrow> fst r \<noteq> STATUS_OBJECT_NAME_NOT_FOUND \<Longrightarrow> looked_up B ins s c r l"
  by (auto simp: looked_up_def split: option.split)

lemma looked_up_name: "fst r \<noteq> STATUS_OBJECT_NAME_NOT_FOUND \<Longrightarrow> looked_up B ins s c r l = looked_up B ins s c' r l"
  by (simp add: looked_up_def split: option.split)

lemma looked_up_agree:
  assumes "looked_up B ins (s\<lparr>Bytes := m\<rparr>) c r l" and "agree B (Bytes s) m"
  shows "looked_up B ins s c r l"
proof -
  have "found B s r l" if "found B (s\<lparr>Bytes := m\<rparr>) r l" using that agree_trans [OF assms(2)] by (auto simp: found_def)
  moreover have "entered B s h d c l" if "entered B (s\<lparr>Bytes := m\<rparr>) h d c l" for h d
    using that agree_trans [OF assms(2)] by (auto simp: entered_def)
  ultimately show ?thesis using assms(1) by (auto simp: looked_up_def split: option.splits if_splits)
qed

lemma enter_last_name:
  fixes s :: "'a obname_state_scheme"
  assumes ns: "namespace_is s B R ns" "d \<in> R" "ns d \<noteq> None" and fr: "fresh (Some h) R s"
    and ctx: "ctx_Directory ctx = d" "\<not> ctx_DirectoryLocked ctx"
  shows "\<exists>ctx' ln. ObpInsertEntryDirectory run (Suc fuel) d ctx h (s\<lparr>ObjectHeaders := (ObjectHeaders s)(h := ObjectHeaders s h\<lparr>oh_ObjectName := N\<rparr>)\<rparr>) =
      Inr (True, ctx', s\<lparr>ObjectHeaders := (ObjectHeaders s)(h := ObjectHeaders s h\<lparr>oh_ObjectName := N\<rparr>), DirEntryLink := ln\<rparr>) \<and>
    InsertTailList d (entry_link h) (DirEntryLink s) = Inr ln"
proof -
  let ?s = "s\<lparr>ObjectHeaders := (ObjectHeaders s)(h := ObjectHeaders s h\<lparr>oh_ObjectName := N\<rparr>)\<rparr>"
  obtain f where "ns d = Some f" using ns(3) by blast
  then have "directory_is s B R d f" using ns(1,2) by (simp add: namespace_is_def)
  then obtain es where es: "lockable (DirectoryLock d) s" "ring (DirEntryLink s) (d # map entry_link es)"
    unfolding directory_is_def by blast
  have lk: "lockable (DirectoryLock d) ?s" by (rule truncate_lockable [OF es(1)]) (simp add: ke_state.truncate_def)
  have no: "Flink (DirEntryLink s) (entry_link h) = None" using fr by (simp add: fresh_def)
  have "Flink (DirEntryLink s) x \<noteq> None" if "x \<in> set (d # map entry_link es)" for x
    using that es(2) ring_next by metis
  then have "entry_link h \<notin> set (d # map entry_link es)" using no by blast
  then obtain ln where ln: "InsertTailList d (entry_link h) (DirEntryLink s) = Inr ln" using InsertTailList_correct [OF es(2)] by blast
  have "ObIsDirectoryObject d ?s = ObIsDirectoryObject d s"
    by (simp add: ObIsDirectoryObject_def is_type_def ObIsValidObject_def header_def)
  then have "ObIsDirectoryObject d ?s = Inr True" using ObIsDirectoryObject_eq [OF ns(1,2)] ns(3) by simp
  from ObpInsertEntryDirectory_correct [OF lk this _ _ ctx, of h ln run fuel] no ln show ?thesis by auto
qed

lemma lookup_missing_correct:
  assumes ns: "namespace_is s B R ns" "lk_Directory l \<in> R" "ns (lk_Directory l) \<noteq> None" and fr: "fresh ins R s"
    and ys: "cstr (Bytes s) (lk_NamePtr l) ys" "outside B (lk_NamePtr l) (Suc (length ys))" "\<forall>c \<in> set (components ys). length c \<le> 128"
    and l: "lk_state l = s" "lk_DirName l = \<lparr>us_Length = of_nat (length c), us_MaximumLength = 128, us_Buffer = B\<rparr>" "bytes (Bytes s) B (length c) = c"
      "lk_Status l = STATUS_OBJECT_NAME_NOT_FOUND" "\<not> ctx_DirectoryLocked (lk_Context l)"
  shows "\<exists>l'. lookup_missing run (Suc fuel) ins l = Inr l' \<and>
    looked_up B ins s c (if components ys = [] then STATUS_OBJECT_NAME_NOT_FOUND else STATUS_OBJECT_PATH_NOT_FOUND, lk_Directory l, 0) l'"
proof (cases "components ys")
  case Nil
  let ?c = "(lk_Context l)\<lparr>ctx_Directory := lk_Directory l, ctx_Object := 0\<rparr>"
  show ?thesis
  proof (cases ins)
    case None
    have "found B s (STATUS_OBJECT_NAME_NOT_FOUND, lk_Directory l, 0) (l\<lparr>lk_Context := ?c\<rparr>)"
      using l by (intro foundI [where m = "Bytes s"]) (simp_all add: agree_def)
    moreover have "lookup_missing run (Suc fuel) None l = Inr (l\<lparr>lk_Context := ?c\<rparr>)"
      using parse_none [OF ys(1) Nil] l(1) by (simp add: lookup_missing_def Let_def)
    ultimately show ?thesis using Nil None by (simp add: looked_up_def)
  next
    case (Some h)
    let ?N = "\<lparr>us_Length = of_nat (length c), us_MaximumLength = 128, us_Buffer = B\<rparr>"
    from enter_last_name [OF ns fr [unfolded Some], of ?c run fuel ?N] l obtain ctx' ln where
      "ObpInsertEntryDirectory run (Suc fuel) (lk_Directory l) ?c h (s\<lparr>ObjectHeaders := (ObjectHeaders s)(h := ObjectHeaders s h\<lparr>oh_ObjectName := ?N\<rparr>)\<rparr>) =
        Inr (True, ctx', s\<lparr>ObjectHeaders := (ObjectHeaders s)(h := ObjectHeaders s h\<lparr>oh_ObjectName := ?N\<rparr>), DirEntryLink := ln\<rparr>)"
      "InsertTailList (lk_Directory l) (entry_link h) (DirEntryLink s) = Inr ln" by auto
    then show ?thesis
      using parse_none [OF ys(1) Nil] l Nil Some by (auto simp: lookup_missing_def looked_up_def entered_def Let_def agree_def intro!: exI [of _ "Bytes s"])
  qed
next
  case (Cons c' cs)
  then have "length c' \<le> 128" using ys(3) by simp
  from parse_next [OF ys(1,2) Cons this, of "lk_DirName l" "lk_ParsedTill l"] l(2) obtain m q where
    m: "ObParseDirectoryPath (Bytes s) (lk_NamePtr l) (lk_DirName l) (lk_ParsedTill l) =
      Inr (True, m, (lk_DirName l)\<lparr>us_Length := of_nat (length c')\<rparr>, q)" "agree B (Bytes s) m" by auto
  then show ?thesis
    using l Cons by (auto simp: lookup_missing_def Let_def intro!: looked_up_found foundI)
qed

text \<open>One round of the loop on a path with a name: the search of the directory, and what it leads to.\<close>

lemma lookup_step_name:
  assumes se: "searching B R ns xs l" and f: "ns (lk_Directory l) = Some f" and c: "components xs = c # cs"
  shows "\<exists>m ctx q ys. lookup_step run (Suc fuel) ins l =
      (let l1 = l\<lparr>lk_NamePtr := q, lk_ParsedTill := q, lk_DirName := (lk_DirName l)\<lparr>us_Length := of_nat (length c)\<rparr>,
         lk_Status := if f c = None then STATUS_OBJECT_NAME_NOT_FOUND else STATUS_SUCCESS, lk_Context := ctx, lk_state := (lk_state l)\<lparr>Bytes := m\<rparr>\<rparr>
       in if f c = None then bind (lookup_missing run (Suc fuel) ins l1) (\<lambda>l. Inr (False, l))
          else Inr (ys \<noteq> [], l1\<lparr>lk_Directory := ctx_Object ctx\<rparr>)) \<and>
    agree B (Bytes (lk_state l)) m \<and> bytes m B (length c) = c \<and> cstr m q ys \<and> outside B q (Suc (length ys)) \<and> components ys = cs \<and> length ys < length xs \<and>
    (ys = [] \<longrightarrow> \<not> trailing xs) \<and> (ys \<noteq> [] \<longrightarrow> trailing ys = trailing xs) \<and> \<not> ctx_DirectoryLocked ctx \<and>
    (\<forall>ob. f c = Some ob \<longrightarrow> ctx_Directory ctx = lk_Directory l \<and> ctx_Object ctx = ob \<and> ob \<in> R)"
proof -
  let ?s = "lk_state l" and ?d = "lk_Directory l" and ?N = "(lk_DirName l)\<lparr>us_Length := of_nat (length c)\<rparr>"
  have ns: "namespace_is ?s B R ns" and d: "?d \<in> R" and xs: "cstr (Bytes ?s) (lk_NamePtr l) xs" "outside B (lk_NamePtr l) (Suc (length xs))"
    and N: "us_Buffer (lk_DirName l) = B" "us_MaximumLength (lk_DirName l) = 128" and len: "length c \<le> 128" and ctx: "\<not> ctx_DirectoryLocked (lk_Context l)"
    using se c by (auto simp: searching_def)
  from parse_next [OF xs c len N, of "lk_ParsedTill l"] obtain m q ys where
    m: "ObParseDirectoryPath (Bytes ?s) (lk_NamePtr l) (lk_DirName l) (lk_ParsedTill l) = Inr (True, m, ?N, q)" "agree B (Bytes ?s) m"
      "bytes m B (length c) = c" "NUL \<notin> set c"
    and ys: "cstr m q ys" "outside B q (Suc (length ys))" "components ys = cs" "length ys < length xs"
      "ys = [] \<longrightarrow> \<not> trailing xs" "ys \<noteq> [] \<longrightarrow> trailing ys = trailing xs" by blast
  let ?t = "?s\<lparr>Bytes := m\<rparr>"
  have ns': "namespace_is ?t B R ns" by (rule namespace_agree [OF ns m(2)])
  then have "directory_is ?t B R ?d f" using d f by (simp add: namespace_is_def)
  then obtain es where es: "lockable (DirectoryLock ?d) ?t" "ring (DirEntryLink ?t) (?d # map entry_link es)" "f = entries ?t es"
    "\<forall>h \<in> set es. OBJECT_HEADER_Body h \<in> R" unfolding directory_is_def by blast
  then have v: "\<forall>h \<in> set es. ObIsValidObject (OBJECT_HEADER_Body h) ?t" "ObDirectoryObjectType ?t \<noteq> None"
    using ns' unfolding namespace_is_def by blast+
  let ?ctx = "(lk_Context l)\<lparr>ctx_ParsedTill := lk_ParsedTill l\<rparr>"
  have "bytes (Bytes ?t) (us_Buffer ?N) (length c) = c" "us_Length ?N = of_nat (length c)" "\<not> ctx_DirectoryLocked ?ctx"
    using m(3) N ctx by simp_all
  from ObpLookupEntryDirectory_correct [OF es(1,2) m(4) len this(1,2) v this(3), of run fuel, folded es(3)] obtain ctx' where
    lk: "ObpLookupEntryDirectory run (Suc fuel) ?d ?N ?ctx ?t =
        Inr (if f c = None then STATUS_OBJECT_NAME_NOT_FOUND else STATUS_SUCCESS, ctx', ?t)" "\<not> ctx_DirectoryLocked ctx'"
      "\<forall>ob. f c = Some ob \<longrightarrow> ctx_Directory ctx' = ?d \<and> ctx_Object ctx' = ob" by blast
  have R: "ob \<in> R" if "f c = Some ob" for ob
    using that es(3,4) map_of_SomeD [of "map (\<lambda>h. (object_name ?t h, OBJECT_HEADER_Body h)) es" c ob] by (auto simp: entries_def)
  have q: "m q \<noteq> NUL \<longleftrightarrow> ys \<noteq> []" using ys(1) by (cases ys) auto
  have "lookup_step run (Suc fuel) ins l =
      (let l1 = l\<lparr>lk_NamePtr := q, lk_ParsedTill := q, lk_DirName := ?N,
         lk_Status := if f c = None then STATUS_OBJECT_NAME_NOT_FOUND else STATUS_SUCCESS, lk_Context := ctx', lk_state := ?t\<rparr>
       in if f c = None then bind (lookup_missing run (Suc fuel) ins l1) (\<lambda>l. Inr (False, l))
          else Inr (ys \<noteq> [], l1\<lparr>lk_Directory := ctx_Object ctx'\<rparr>))"
    using ObIsDirectoryObject_eq [OF ns d] m(1) lk(1) f q by (cases "f c") (simp_all add: lookup_step_def Let_def)
  then show ?thesis using m(2,3) ys lk(2,3) R by blast
qed

text \<open>The loop implements the specification.\<close>

lemma lookup_loop_correct:
  assumes "searching B R ns xs l" and "slash = trailing xs" and "fresh ins R (lk_state l)"
  shows "\<exists>l'. lookup_loop run (Suc fuel) ins l = Some (Inr l') \<and> looked_up B ins (lk_state l) (last (components xs))
    (resolve ns slash (ctx_Directory (lk_Context l)) (ctx_Object (lk_Context l)) (lk_Directory l) (components xs)) l'"
  using assms
proof (induction "length xs" arbitrary: xs l rule: less_induct)
  case less
  let ?s = "lk_state l" and ?d = "lk_Directory l"
  note se = less.prems(1) [unfolded searching_def]
  have dir: "ObIsDirectoryObject ?d ?s = Inr (ns ?d \<noteq> None)" using se ObIsDirectoryObject_eq by blast
  have same: "?s = ?s\<lparr>Bytes := Bytes ?s\<rparr>" "agree B (Bytes ?s) (Bytes ?s)" by (simp_all add: agree_def)
  show ?case
  proof (cases "ns ?d")
    case None
    have "resolve ns slash D ob ?d (components xs) = (STATUS_OBJECT_PATH_NOT_FOUND, ?d, 0)" for D ob
      using None less.prems(2) trailing_no_name [of xs] by (cases "components xs") simp_all
    then show ?thesis
      using None dir se by (subst lookup_loop.simps) (auto simp: lookup_step_def Let_def agree_def intro!: looked_up_found foundI [where m = "Bytes ?s"])
  next
    case (Some f)
    show ?thesis
    proof (cases "components xs")
      case Nil
      have p: "ObParseDirectoryPath (Bytes ?s) (lk_NamePtr l) (lk_DirName l) t = Inr (False, Bytes ?s, lk_DirName l, t)" for t
        using parse_none [OF _ Nil] se by blast
      show ?thesis
        using Some dir se Nil p by (subst lookup_loop.simps) (auto simp: lookup_step_def Let_def agree_def intro!: looked_up_found foundI [where m = "Bytes ?s"])
    next
      case (Cons c cs)
      from lookup_step_name [OF less.prems(1) Some Cons, of run fuel ins] obtain m ctx q ys where
        st: "lookup_step run (Suc fuel) ins l =
          (let l1 = l\<lparr>lk_NamePtr := q, lk_ParsedTill := q, lk_DirName := (lk_DirName l)\<lparr>us_Length := of_nat (length c)\<rparr>,
             lk_Status := if f c = None then STATUS_OBJECT_NAME_NOT_FOUND else STATUS_SUCCESS, lk_Context := ctx, lk_state := ?s\<lparr>Bytes := m\<rparr>\<rparr>
           in if f c = None then bind (lookup_missing run (Suc fuel) ins l1) (\<lambda>l. Inr (False, l))
              else Inr (ys \<noteq> [], l1\<lparr>lk_Directory := ctx_Object ctx\<rparr>))"
        and ag: "agree B (Bytes ?s) m" "bytes m B (length c) = c" and ys: "cstr m q ys" "outside B q (Suc (length ys))" "components ys = cs" "length ys < length xs"
          "ys = [] \<longrightarrow> \<not> trailing xs" "ys \<noteq> [] \<longrightarrow> trailing ys = trailing xs"
        and ctx: "\<not> ctx_DirectoryLocked ctx" "\<forall>ob. f c = Some ob \<longrightarrow> ctx_Directory ctx = ?d \<and> ctx_Object ctx = ob \<and> ob \<in> R" by blast
      have cs: "\<forall>c \<in> set cs. length c \<le> 128" using se Cons by simp
      have ns': "namespace_is (?s\<lparr>Bytes := m\<rparr>) B R ns" "fresh ins R (?s\<lparr>Bytes := m\<rparr>)"
        using se namespace_agree [of ?s B R ns m] ag(1) less.prems(3) by (simp_all add: fresh_def)
      note trans = looked_up_agree [OF _ ag(1)]
      show ?thesis
      proof (cases "f c")
        case None
        let ?l = "l\<lparr>lk_NamePtr := q, lk_ParsedTill := q, lk_DirName := (lk_DirName l)\<lparr>us_Length := of_nat (length c)\<rparr>,
           lk_Status := STATUS_OBJECT_NAME_NOT_FOUND, lk_Context := ctx, lk_state := ?s\<lparr>Bytes := m\<rparr>\<rparr>"
        have N: "lk_DirName ?l = \<lparr>us_Length = of_nat (length c), us_MaximumLength = 128, us_Buffer = B\<rparr>" using se by simp
        have "\<exists>l'. lookup_missing run (Suc fuel) ins ?l = Inr l' \<and> looked_up B ins (?s\<lparr>Bytes := m\<rparr>) c
            (if cs = [] then STATUS_OBJECT_NAME_NOT_FOUND else STATUS_OBJECT_PATH_NOT_FOUND, ?d, 0) l'"
          using lookup_missing_correct [OF ns'(1) _ _ ns'(2), of ?l ys c run fuel] N ys(1-3) cs se Some ctx(1) ag(2) by simp
        then obtain l' where l': "lookup_missing run (Suc fuel) ins ?l = Inr l'"
          "looked_up B ins ?s c (if cs = [] then STATUS_OBJECT_NAME_NOT_FOUND else STATUS_OBJECT_PATH_NOT_FOUND, ?d, 0) l'" using trans by blast
        have "looked_up B ins ?s (last (c # cs)) (if cs = [] then STATUS_OBJECT_NAME_NOT_FOUND else STATUS_OBJECT_PATH_NOT_FOUND, ?d, 0) l'"
          using l'(2) looked_up_name [of "(STATUS_OBJECT_PATH_NOT_FOUND, ?d, 0)" B ins ?s c l' "last (c # cs)"] by (cases "cs = []") simp_all
        then show ?thesis
          using st None Some Cons l'(1) by (subst lookup_loop.simps) (simp add: Let_def)
      next
        case ob: (Some ob)
        let ?l = "l\<lparr>lk_NamePtr := q, lk_ParsedTill := q, lk_DirName := (lk_DirName l)\<lparr>us_Length := of_nat (length c)\<rparr>,
           lk_Status := STATUS_SUCCESS, lk_Context := ctx, lk_state := ?s\<lparr>Bytes := m\<rparr>, lk_Directory := ob\<rparr>"
        have st': "lookup_step run (Suc fuel) ins l = Inr (ys \<noteq> [], ?l)" using st ob ctx(2) by (simp add: Let_def)
        have c: "ctx_Directory ctx = ?d" "ctx_Object ctx = ob" "ob \<in> R" using ctx(2) ob by auto
        show ?thesis
        proof (cases "ys = []")
          case True
          then have "cs = []" "\<not> slash" using ys(3,5) less.prems(2) components_Nil [of "[]"] by simp_all
          then show ?thesis
            using st' True Some Cons ob c se ag by (subst lookup_loop.simps) (auto intro!: looked_up_found foundI)
        next
          case False
          have "searching B R ns ys ?l" "slash = trailing ys"
            using se ns'(1) ys False ctx(1) cs c less.prems(2) by (simp_all add: searching_def)
          from less.hyps [OF ys(4) this] ns'(2) obtain l' where l': "lookup_loop run (Suc fuel) ins ?l = Some (Inr l')"
            "looked_up B ins (?s\<lparr>Bytes := m\<rparr>) (last cs) (resolve ns slash ?d ob ob cs) l'" using c ys(3) by auto
          have "looked_up B ins ?s (last (c # cs)) (resolve ns slash ?d ob ob cs) l'"
          proof (cases "cs = []")
            case True
            then have "fst (resolve ns slash ?d ob ob cs) \<noteq> STATUS_OBJECT_NAME_NOT_FOUND" by simp
            then show ?thesis using trans [OF l'(2)] looked_up_name by blast
          qed (use trans [OF l'(2)] in simp)
          then show ?thesis using st' False Some Cons ob l'(1) by (subst lookup_loop.simps) simp
        qed
      qed
    qed
  qed
qed

lemma namespace_pools:
  assumes "namespace_is s B R ns"
  shows "namespace_is (s\<lparr>Pools := ps\<rparr>) B R ns"
proof -
  have "lockable (DirectoryLock d) (s\<lparr>Pools := ps\<rparr>)" if "lockable (DirectoryLock d) s" for d
    using that truncate_lockable [of "DirectoryLock d" s "s\<lparr>Pools := ps\<rparr>"] by (simp add: ke_state.truncate_def)
  moreover have "entries (s\<lparr>Pools := ps\<rparr>) es = entries s es" for es by (simp add: entries_def object_name_def)
  moreover have "ObIsValidObject d (s\<lparr>Pools := ps\<rparr>) = ObIsValidObject d s" "header d (s\<lparr>Pools := ps\<rparr>) = header d s" for d
    by (simp_all add: ObIsValidObject_def header_def)
  ultimately show ?thesis using assms unfolding namespace_is_def directory_is_def by simp
qed

section \<open>Entering a name\<close>

lemma directory_unique:
  assumes "directory_is s B R d f" "ring (DirEntryLink s) (d # map entry_link es)"
  shows "f = entries s es \<and> (\<forall>h \<in> set es. OBJECT_HEADER_Body h \<in> R \<and>
    outside B (us_Buffer (oh_ObjectName (ObjectHeaders s h))) (unat (us_Length (oh_ObjectName (ObjectHeaders s h)))))"
proof -
  obtain es' where es': "ring (DirEntryLink s) (d # map entry_link es')" "f = entries s es'" "\<forall>h \<in> set es'. OBJECT_HEADER_Body h \<in> R \<and>
      outside B (us_Buffer (oh_ObjectName (ObjectHeaders s h))) (unat (us_Length (oh_ObjectName (ObjectHeaders s h))))"
    using assms(1) unfolding directory_is_def by blast
  have "inj entry_link" by (auto simp: inj_def entry_link_def)
  then have "es' = es" using ring_unique [OF es'(1) assms(2)] by (simp add: inj_map_eq_map)
  then show ?thesis using es' by simp
qed

lemma entries_snoc: "entries s es c = None \<Longrightarrow> object_name s h = c \<Longrightarrow> entries s (es @ [h]) = (entries s es)(c \<mapsto> OBJECT_HEADER_Body h)"
  by (auto simp: entries_def fun_eq_iff map_add_def split: option.split)

text \<open>What entering a name makes of the namespace, for a next lookup with its buffer at \<open>B'\<close>.\<close>

lemma enter_namespace:
  fixes s :: "'a obname_state_scheme"
  assumes ns: "namespace_is s B R ns" "namespace_is s B' R ns" and d: "d \<in> R" "ns d = Some f" "f c = None"
    and fr: "fresh (Some h) R s" and ap: "\<forall>d \<in> R. d + 36 \<notin> R"
    and h: "oh_Magic (ObjectHeaders s h) = OBJECT_HEADER_MAGIC" "oh_ObjectType (ObjectHeaders s h) \<noteq> ObDirectoryObjectType s"
    and c: "length c \<le> 128" "outside B' B (length c)"
    and m: "agree B (Bytes s) m" "bytes m B (length c) = c" "InsertTailList d (entry_link h) (DirEntryLink s) = Inr ln"
  shows "namespace_is (s\<lparr>Bytes := m, ObjectHeaders := (ObjectHeaders s)(h := ObjectHeaders s h\<lparr>oh_ObjectName :=
      \<lparr>us_Length = of_nat (length c), us_MaximumLength = 128, us_Buffer = B\<rparr>\<rparr>), DirEntryLink := ln\<rparr>)
    B' (insert (OBJECT_HEADER_Body h) R) (ns(d := Some (f(c \<mapsto> OBJECT_HEADER_Body h)), OBJECT_HEADER_Body h := None))"
    (is "namespace_is ?s B' ?R ?ns")
proof -
  have bh: "OBJECT_HEADER_Body h \<notin> R" "Flink (DirEntryLink s) (entry_link h) = None" using fr by (auto simp: fresh_def)
  have body: "OBJECT_TO_OBJECT_HEADER (OBJECT_HEADER_Body h) = h" by (simp add: OBJECT_TO_OBJECT_HEADER_def OBJECT_HEADER_Body_def)
  have obj: "ObIsValidObject ob ?s = ObIsValidObject ob s" "oh_ObjectType (header ob ?s) = oh_ObjectType (header ob s)" for ob
    by (simp_all add: ObIsValidObject_def header_def)
  have new: "ObIsValidObject (OBJECT_HEADER_Body h) s" "oh_ObjectType (header (OBJECT_HEADER_Body h) s) \<noteq> ObDirectoryObjectType s"
    using h by (simp_all add: ObIsValidObject_def header_def body)
  have lk: "lockable (DirectoryLock x) ?s" if "lockable (DirectoryLock x) s" for x
    by (rule truncate_lockable [OF that]) (simp add: ke_state.truncate_def)
  have name: "object_name ?s e = object_name s e \<and>
      outside B' (us_Buffer (oh_ObjectName (ObjectHeaders ?s e))) (unat (us_Length (oh_ObjectName (ObjectHeaders ?s e))))"
    if x: "x \<in> R" "ns x = Some g" "ring (DirEntryLink s) (x # map entry_link es)" "e \<in> set es" for x g es e
  proof -
    have "directory_is s B R x g" "directory_is s B' R x g" using ns x(1,2) by (auto simp: namespace_is_def)
    note e = directory_unique [OF this(1) x(3)] directory_unique [OF this(2) x(3)]
    then have "e \<noteq> h" using bh(1) x(4) by auto
    then show ?thesis using e x(4) bytes_agree [OF m(1)] by (simp add: object_name_def Let_def)
  qed
  have u: "unat (of_nat (length c) :: USHORT) = length c" using c(1) by (simp add: unat_of_nat take_bit_nat_eq_self)
  have hname: "object_name ?s h = c" using m(2) by (simp add: object_name_def Let_def u)
  have "directory_is s B R d f" using ns(1) d by (simp add: namespace_is_def)
  then obtain es where es: "lockable (DirectoryLock d) s" "ring (DirEntryLink s) (d # map entry_link es)" "f = entries s es"
    "\<forall>e \<in> set es. OBJECT_HEADER_Body e \<in> R" unfolding directory_is_def by blast
  have "entry_link h \<notin> set (d # map entry_link es)" using ring_next [OF es(2)] bh(2) by metis
  from InsertTailList_correct [OF es(2) this] m(3)
  have ln: "ring ln (d # map entry_link es @ [entry_link h])" "links_frame (set (entry_link h # d # map entry_link es)) (DirEntryLink s) ln" by auto
  have "entries ?s es = entries s es"
    unfolding entries_def using name [OF d(1,2) es(2)] by (intro arg_cong [of _ _ map_of] map_cong) auto
  then have "entries ?s (es @ [h]) = f(c \<mapsto> OBJECT_HEADER_Body h)" using d(3) es(3) hname entries_snoc [of ?s es c h] by simp
  then have dd: "directory_is ?s B' ?R d (f(c \<mapsto> OBJECT_HEADER_Body h))"
    unfolding directory_is_def using lk [OF es(1)] ln(1) es(4) name [OF d(1,2) es(2)] c(2)
    by (intro conjI exI [of _ "es @ [h]"]) (auto simp: u)
  have other: "directory_is ?s B' ?R x g" if x: "x \<in> R" "x \<noteq> d" "ns x = Some g" for x g
  proof -
    have "directory_is s B' R x g" using ns(2) x by (simp add: namespace_is_def)
    then obtain xs where xs: "lockable (DirectoryLock x) s" "ring (DirEntryLink s) (x # map entry_link xs)" "g = entries s xs"
      "\<forall>e \<in> set xs. OBJECT_HEADER_Body e \<in> R" unfolding directory_is_def by blast
    have "x \<noteq> entry_link e" if "e \<in> set es" for e
      using ap x(1) es(4) that by (force simp: entry_link_def OBJECT_HEADER_Body_def algebra_simps)
    then have "set (d # map entry_link es) \<inter> set (x # map entry_link xs) = {}" using rings_disjoint [OF es(2) xs(2)] x(2) by auto
    moreover have "entry_link h \<notin> set (x # map entry_link xs)" using ring_next [OF xs(2)] bh(2) by metis
    ultimately have "ring ln (x # map entry_link xs)" by (intro ring_frame [OF ln(2) _ xs(2)]) auto
    moreover have "entries ?s xs = entries s xs"
      unfolding entries_def using name [OF x(1,3) xs(2)] by (intro arg_cong [of _ _ map_of] map_cong) auto
    ultimately show ?thesis
      unfolding directory_is_def using lk [OF xs(1)] xs(3,4) name [OF x(1,3) xs(2)] by (intro conjI exI [of _ xs]) auto
  qed
  have "d \<noteq> OBJECT_HEADER_Body h" using d(1) bh(1) by auto
  then show ?thesis
    unfolding namespace_is_def obj using ns(1) new bh(1) dd other d(1,2) unfolding namespace_is_def by auto
qed

lemma namespace_closed:
  assumes "namespace_is s B R ns" "d \<in> R" "ns d = Some f" "f c = Some ob"
  shows "ob \<in> R"
proof -
  have "directory_is s B R d f" using assms(1-3) by (simp add: namespace_is_def)
  then obtain es where "f = entries s es" "\<forall>h \<in> set es. OBJECT_HEADER_Body h \<in> R" unfolding directory_is_def by blast
  then show ?thesis
    using assms(4) map_of_SomeD [of "map (\<lambda>h. (object_name s h, OBJECT_HEADER_Body h)) es" c ob] by (auto simp: entries_def)
qed

text \<open>The walk that ends with the last name missing, and the same walk when that name has been entered.\<close>

lemma resolve_missing:
  assumes "namespace_is s B R ns" "resolve ns slash Dir Obj p cs = (STATUS_OBJECT_NAME_NOT_FOUND, d, x)" "p \<in> R"
  shows "cs \<noteq> [] \<and> d \<in> R \<and> (\<exists>f. ns d = Some f \<and> f (last cs) = None \<and>
    (ob \<notin> R \<longrightarrow> \<not> slash \<longrightarrow>
      resolve (ns(d := Some (f(last cs \<mapsto> ob)), ob := None)) slash Dir Obj p cs = (STATUS_SUCCESS, d, ob)))"
  using assms(2,3)
proof (induction cs arbitrary: Dir Obj p)
  case (Cons c cs)
  obtain g where g: "ns p = Some g" using Cons.prems(1) by (cases "ns p") auto
  show ?case
  proof (cases "g c")
    case None
    then have "cs = []" "d = p" using Cons.prems(1) g by (auto split: if_splits)
    then show ?thesis using None g Cons.prems(2) by auto
  next
    case (Some o')
    have R: "o' \<in> R" by (rule namespace_closed [OF assms(1) Cons.prems(2) g Some])
    have "resolve ns slash p o' o' cs = (STATUS_OBJECT_NAME_NOT_FOUND, d, x)" using Cons.prems(1) g Some by simp
    from Cons.IH [OF this R] obtain f where f: "cs \<noteq> []" "d \<in> R" "ns d = Some f" "f (last cs) = None"
      "ob \<notin> R \<longrightarrow> \<not> slash \<longrightarrow> resolve (ns(d := Some (f(last cs \<mapsto> ob)), ob := None)) slash p o' o' cs = (STATUS_SUCCESS, d, ob)" by blast
    define ns' where "ns' = ns(d := Some (f(last cs \<mapsto> ob)), ob := None)"
    have "\<exists>g'. ns' p = Some g' \<and> g' c = Some o'" if "ob \<notin> R"
      using that f(3,4) g Some Cons.prems(2) by (auto simp: ns'_def)
    then have "resolve ns' slash Dir Obj p (c # cs) = (STATUS_SUCCESS, d, ob)" if "ob \<notin> R" "\<not> slash"
      using that f(5) unfolding ns'_def [symmetric] by auto
    moreover have l: "last (c # cs) = last cs" using f(1) by simp
    ultimately show ?thesis using f(2-4) unfolding l ns'_def by blast
  qed
qed (simp split: if_splits)

section \<open>A small namespace\<close>

text \<open>A root directory with one entry named a, which is no directory, and the path to it.\<close>

abbreviation (input) small_root :: PVOID where "small_root \<equiv> 0x86000030"
abbreviation (input) small_file :: PVOID where "small_file \<equiv> 0x86001030"

definition small_names :: obname_state where
  "small_names = ob_state.extend (small_ob\<lparr>Pools := one_block, ObjectHeaders := (\<lambda>h.
       \<lparr>oh_Magic = OBJECT_HEADER_MAGIC, oh_ObjectType = Some (if h = 0x86000000 then 1 else 3), oh_OpenHandleCount = 0, oh_RefCount = 1,
        oh_ObjectName = \<lparr>us_Length = 1, us_MaximumLength = 128, us_Buffer = 0x87000000\<rparr>, oh_Attributes = 0\<rparr>)\<rparr>)
     (obname_state.fields (\<lambda>a. if a = 0x87000000 then 0x61 else if a = 0x87001000 then 0x5C else if a = 0x87001001 then 0x61 else 0)
       \<lparr>le_next = (\<lambda>p. Some (if p = small_root then 0x8600100C else small_root)),
        le_prev = (\<lambda>p. Some (if p = small_root then 0x8600100C else small_root))\<rparr>
       (\<lambda>_. \<lparr>od_Flags = 0, od_DeviceObject = 0\<rparr>) (\<lambda>_. 0) small_root 0 (Some 1) (Some 2) None)"

lemma small_names_sel [simp]:
  "Pools small_names = one_block" "Bytes small_names = (\<lambda>a. if a = 0x87000000 then 0x61 else if a = 0x87001000 then 0x5C else if a = 0x87001001 then 0x61 else 0)"
  "DirEntryLink small_names = \<lparr>le_next = (\<lambda>p. Some (if p = small_root then 0x8600100C else small_root)),
     le_prev = (\<lambda>p. Some (if p = small_root then 0x8600100C else small_root))\<rparr>"
  "ObRootDirectory small_names = small_root" "ObDirectoryObjectType small_names = Some 1"
  "ObjectHeaders small_names h = \<lparr>oh_Magic = OBJECT_HEADER_MAGIC, oh_ObjectType = Some (if h = 0x86000000 then 1 else 3), oh_OpenHandleCount = 0,
     oh_RefCount = 1, oh_ObjectName = \<lparr>us_Length = 1, us_MaximumLength = 128, us_Buffer = 0x87000000\<rparr>, oh_Attributes = 0\<rparr>"
  "ke_state.truncate small_names = ke_state.truncate small_ob"
  by (simp_all add: small_names_def ob_state.extend_def obname_state.fields_def small_ob_unfold ke_state.truncate_def)

lemma small_names_lockable: "lockable l small_names"
proof -
  have "lockable l small_ob" using small_ob_live by (auto simp: lockable_def LIST_EMPTY_def LIST_INIT_def)
  then show ?thesis by (rule truncate_lockable) simp
qed

lemma small_namespace:
  "namespace_is small_names 0x85800018 {small_root, small_file}
     (\<lambda>d. if d = small_root then Some (\<lambda>n. if n = [0x61] then Some small_file else None) else None)"
proof -
  have "entries small_names [0x86001000] = (\<lambda>n. if n = [0x61] then Some small_file else None)"
    by (simp add: entries_def object_name_def OBJECT_HEADER_Body_def Let_def fun_eq_iff)
  then have "directory_is small_names 0x85800018 {small_root, small_file} small_root (\<lambda>n. if n = [0x61] then Some small_file else None)"
    unfolding directory_is_def using small_names_lockable
    by (intro conjI exI [of _ "[0x86001000]"]) (simp_all add: ring_def entry_link_def OBJECT_HEADER_Body_def outside_def)
  then show ?thesis by (simp add: namespace_is_def ObIsValidObject_def header_def OBJECT_TO_OBJECT_HEADER_def)
qed

text \<open>The same with an empty root directory.\<close>

definition empty_names :: obname_state where
  "empty_names = small_names\<lparr>DirEntryLink := \<lparr>le_next = [small_root \<mapsto> small_root], le_prev = [small_root \<mapsto> small_root]\<rparr>\<rparr>"

lemma empty_names_sel [simp]:
  "Pools empty_names = one_block" "Bytes empty_names = Bytes small_names" "ObjectHeaders empty_names = ObjectHeaders small_names"
  "DirEntryLink empty_names = \<lparr>le_next = [small_root \<mapsto> small_root], le_prev = [small_root \<mapsto> small_root]\<rparr>"
  "ObRootDirectory empty_names = small_root" "ObDirectoryObjectType empty_names = Some 1"
  by (simp_all add: empty_names_def)

lemma empty_names_lockable: "lockable l empty_names"
  by (rule truncate_lockable [OF small_names_lockable [of l]]) (simp add: empty_names_def ke_state.truncate_def)

lemma empty_namespace: "namespace_is empty_names B {small_root} (\<lambda>d. if d = small_root then Some (\<lambda>_. None) else None)"
proof -
  have "directory_is empty_names B {small_root} small_root (\<lambda>_. None)"
    unfolding directory_is_def using empty_names_lockable by (intro conjI exI [of _ "[]"]) (simp_all add: ring_def entries_def)
  then show ?thesis by (simp add: namespace_is_def ObIsValidObject_def header_def OBJECT_TO_OBJECT_HEADER_def)
qed

section \<open>Properties\<close>

text \<open>C3. Lookup by path: on a sound namespace \<open>ObpLookupObjectByName\<close> returns, and what it returns is the specification's walk along the
  names of the path: success with the object and the directory it is in, \<open>STATUS_OBJECT_NAME_NOT_FOUND\<close> with the directory when only the
  last name is missing, and \<open>STATUS_OBJECT_PATH_NOT_FOUND\<close> with the directory reached when an earlier one is missing or is no directory. Repeated
  separators count once, and a trailing one asks for a directory. Nothing but the 129 bytes of the name buffer changes, and
  the buffer goes back to the pool. Names are at most 128 bytes and no name lies in the buffer; the pool is sound, its lock can be taken, its first block that
  fits the buffer has at least 512 bytes or room for a second header, and the caller has no directory locked.\<close>

theorem lookup_refines_namespace:
  assumes pool: "pool_ready NonPagedPool s" "pool_ok NonPagedPool a t (Pools s) (xs @ (p, sz, False) # ys)" "\<forall>b \<in> set xs. \<not> fits 184 b"
      "184 < sz" "512 \<le> sz \<or> 212 \<le> sz" and B: "B = p + 24" "B \<noteq> 0"
    and ns: "namespace_is s B R ns" "Parent \<in> R" "Parent \<noteq> 0" "ObRootDirectory s \<noteq> 0"
    and path: "cstr (Bytes s) (us_Buffer Name) path" "outside B (us_Buffer Name) (Suc (length path))" "\<forall>c \<in> set (components path). length c \<le> 128"
    and ctx: "\<not> ctx_DirectoryLocked ctx"
  shows "\<exists>st ctx' m ps. ObpLookupObjectByName run (Suc fuel) Parent Name ctx None s = Inr (st, ctx', s\<lparr>Bytes := m, Pools := ps\<rparr>) \<and>
    (st, ctx_Directory ctx', ctx_Object ctx') = resolve ns (trailing path) (ctx_Directory ctx) (ctx_Object ctx) Parent (components path) \<and>
    agree B (Bytes s) m \<and> pool_ok NonPagedPool a t ps (xs @ (p, sz, False) # ys)"
proof -
  obtain ps where al: "MmAllocatePoolWithTag run (Suc fuel) NonPagedPool 128 TAG_ObNm s = Inr (B, s\<lparr>Pools := ps\<rparr>)"
    and fr: "\<And>s'. Pools s' = ps \<Longrightarrow> lockable PoolLock s' \<Longrightarrow> \<exists>ps'. MmFreePoolWithTag run (Suc fuel) B TAG_ObNm s' = Inr (s'\<lparr>Pools := ps'\<rparr>) \<and>
      pool_ok NonPagedPool a t ps' (xs @ (p, sz, False) # ys)"
    using alloc_then_free [OF pool(1,2) _ _ pool(3,4), of 128 run fuel TAG_ObNm] pool(5) B(1) by auto
  let ?s = "s\<lparr>Pools := ps\<rparr>"
  let ?l = "\<lparr>lk_Status = STATUS_SUCCESS, lk_Directory = Parent, lk_NamePtr = us_Buffer Name, lk_ParsedTill = us_Buffer Name,
    lk_DirName = \<lparr>us_Length = 0, us_MaximumLength = 128, us_Buffer = B\<rparr>, lk_Context = ctx, lk_state = ?s\<rparr>"
  have "searching B R ns path ?l"
    using namespace_pools [OF ns(1), of ps] ns(2) path ctx unfolding searching_def by simp
  from lookup_loop_correct [OF this refl, of None run fuel] obtain l' where
    l': "lookup_loop run (Suc fuel) None ?l = Some (Inr l')"
      "found B ?s (resolve ns (trailing path) (ctx_Directory ctx) (ctx_Object ctx) Parent (components path)) l'" by (auto simp: fresh_def looked_up_def)
  then obtain m where m: "lk_state l' = ?s\<lparr>Bytes := m\<rparr>" "agree B (Bytes s) m" "us_Buffer (lk_DirName l') = B" by (auto simp: found_def)
  have "lockable PoolLock (lk_state l')"
    using pool(1) truncate_lockable [of PoolLock s "lk_state l'"] by (simp add: m(1) pool_ready_def ke_state.truncate_def)
  then obtain ps' where "MmFreePoolWithTag run (Suc fuel) B TAG_ObNm (lk_state l') = Inr ((lk_state l')\<lparr>Pools := ps'\<rparr>)"
    "pool_ok NonPagedPool a t ps' (xs @ (p, sz, False) # ys)" using fr [of "lk_state l'"] m(1) by auto
  then have "ObpLookupObjectByName run (Suc fuel) Parent Name ctx None s = Inr (lk_Status l', lk_Context l', s\<lparr>Bytes := m, Pools := ps'\<rparr>)"
    "pool_ok NonPagedPool a t ps' (xs @ (p, sz, False) # ys)"
    using ns(3,4) al B(2) l'(1) m(1,3)
    by (simp_all add: ObpLookupObjectByName_def ObpAllocateObjectNameBuffer_def ObpFreeObjectNameBuffer_def hang_def)
  moreover have "(lk_Status l', ctx_Directory (lk_Context l'), ctx_Object (lk_Context l')) =
    resolve ns (trailing path) (ctx_Directory ctx) (ctx_Object ctx) Parent (components path)" using l'(2) by (simp add: found_def)
  ultimately show ?thesis using m(2) by blast
qed

theorem lookup_refines_namespace_witness:
  "\<exists>ctx m ps. ObpLookupObjectByName no_dpcs 1 small_root \<lparr>us_Length = 2, us_MaximumLength = 3, us_Buffer = 0x87001000\<rparr> ObInitializeLookupContext None
     small_names = Inr (STATUS_SUCCESS, ctx, small_names\<lparr>Bytes := m, Pools := ps\<rparr>) \<and> ctx_Object ctx = small_file"
proof -
  have pool: "pool_ready NonPagedPool small_names" using small_names_lockable by (auto simp: pool_ready_def)
  have ok: "pool_ok NonPagedPool 0x85800000 0x85802000 (Pools small_names) ([] @ (0x85800000, 0x1FE4, False) # [])" using one_block_ok by simp
  have cs: "components [0x5C, 0x61] = [[0x61]]" "trailing [0x5C, 0x61] = False"
    by (simp_all add: components.simps IsPathSeperator_def trailing_def)
  have path: "cstr (Bytes small_names) 0x87001000 [0x5C, 0x61]" "outside 0x85800018 0x87001000 (Suc (length [0x5C, 0x61 :: UCHAR]))"
    by (simp_all add: outside_def less_Suc_eq)
  show ?thesis
    using lookup_refines_namespace [OF pool ok _ _ _ _ _ small_namespace, of small_root "\<lparr>us_Length = 2, us_MaximumLength = 3, us_Buffer = 0x87001000\<rparr>"
        "[0x5C, 0x61]" ObInitializeLookupContext no_dpcs 0] path cs
    by (auto simp: ObInitializeLookupContext_def)
qed

text \<open>C25. Entering an object: when the lookup of a path ends with only the last name missing, \<open>ObpLookupObjectByName\<close> with an object to insert
  succeeds and enters the object in that directory under the last name of the path. Every other name of every directory keeps its object, and
  unless the path has a trailing separator a later lookup of it finds the new object. The buffer becomes the object's name, so it has to be apart from the buffer \<open>B'\<close>
  of that later lookup.\<close>

theorem insert_enters_namespace:
  assumes pool: "pool_ready NonPagedPool s" "pool_ok NonPagedPool a t (Pools s) (xs @ (p, sz, False) # ys)" "\<forall>b \<in> set xs. \<not> fits 184 b"
      "184 < sz" "512 \<le> sz \<or> 212 \<le> sz" and B: "B = p + 24" "B \<noteq> 0"
    and ns: "namespace_is s B R ns" "namespace_is s B' R ns" "Parent \<in> R" "Parent \<noteq> 0" "ObRootDirectory s \<noteq> 0" "\<forall>d \<in> R. d + 36 \<notin> R"
    and path: "cstr (Bytes s) (us_Buffer Name) path" "outside B (us_Buffer Name) (Suc (length path))" "\<forall>c \<in> set (components path). length c \<le> 128"
    and ctx: "\<not> ctx_DirectoryLocked ctx"
    and h: "fresh (Some h) R s" "oh_Magic (ObjectHeaders s h) = OBJECT_HEADER_MAGIC" "oh_ObjectType (ObjectHeaders s h) \<noteq> ObDirectoryObjectType s"
    and missing: "resolve ns (trailing path) (ctx_Directory ctx) (ctx_Object ctx) Parent (components path) = (STATUS_OBJECT_NAME_NOT_FOUND, d, 0)"
    and c: "c = last (components path)" "outside B' B (length c)"
  shows "\<exists>ctx' s' f. ObpLookupObjectByName run (Suc fuel) Parent Name ctx (Some h) s = Inr (STATUS_SUCCESS, ctx', s') \<and>
    ns d = Some f \<and> namespace_is s' B' (insert (OBJECT_HEADER_Body h) R) (ns(d := Some (f(c \<mapsto> OBJECT_HEADER_Body h)), OBJECT_HEADER_Body h := None)) \<and>
    (\<not> trailing path \<longrightarrow> resolve (ns(d := Some (f(c \<mapsto> OBJECT_HEADER_Body h)), OBJECT_HEADER_Body h := None)) (trailing path)
      (ctx_Directory ctx) (ctx_Object ctx) Parent (components path) = (STATUS_SUCCESS, d, OBJECT_HEADER_Body h))"
proof -
  obtain ps where al: "MmAllocatePoolWithTag run (Suc fuel) NonPagedPool 128 TAG_ObNm s = Inr (B, s\<lparr>Pools := ps\<rparr>)"
    using alloc_then_free [OF pool(1,2) _ _ pool(3,4), of 128 run fuel TAG_ObNm] pool(5) B(1) by auto
  let ?s = "s\<lparr>Pools := ps\<rparr>"
  let ?l = "\<lparr>lk_Status = STATUS_SUCCESS, lk_Directory = Parent, lk_NamePtr = us_Buffer Name, lk_ParsedTill = us_Buffer Name,
    lk_DirName = \<lparr>us_Length = 0, us_MaximumLength = 128, us_Buffer = B\<rparr>, lk_Context = ctx, lk_state = ?s\<rparr>"
  have fr: "fresh (Some h) R ?s" using h(1) by (simp add: fresh_def)
  have "searching B R ns path ?l"
    using namespace_pools [OF ns(1), of ps] ns(3) path ctx unfolding searching_def by simp
  from lookup_loop_correct [OF this refl, of "Some h" run fuel] fr missing c(1) obtain l' where
    l': "lookup_loop run (Suc fuel) (Some h) ?l = Some (Inr l')" "entered B ?s h d c l'" by (auto simp: looked_up_def)
  from resolve_missing [OF ns(1) missing ns(3), of "OBJECT_HEADER_Body h"] obtain f where
    f: "components path \<noteq> []" "d \<in> R" "ns d = Some f" "f c = None" "OBJECT_HEADER_Body h \<notin> R \<longrightarrow> \<not> trailing path \<longrightarrow>
      resolve (ns(d := Some (f(c \<mapsto> OBJECT_HEADER_Body h)), OBJECT_HEADER_Body h := None)) (trailing path)
      (ctx_Directory ctx) (ctx_Object ctx) Parent (components path) = (STATUS_SUCCESS, d, OBJECT_HEADER_Body h)" using c(1) by auto
  have len: "length c \<le> 128" using path(3) f(1) c(1) by simp
  from l'(2) obtain m ln where m: "agree B (Bytes ?s) m" "bytes m B (length c) = c" "InsertTailList d (entry_link h) (DirEntryLink ?s) = Inr ln"
    "lk_Status l' = STATUS_SUCCESS"
    "lk_state l' = ?s\<lparr>Bytes := m, ObjectHeaders := (ObjectHeaders ?s)(h := ObjectHeaders ?s h\<lparr>oh_ObjectName :=
       \<lparr>us_Length = of_nat (length c), us_MaximumLength = 128, us_Buffer = B\<rparr>\<rparr>), DirEntryLink := ln\<rparr>" unfolding entered_def by blast
  have "oh_Magic (ObjectHeaders ?s h) = OBJECT_HEADER_MAGIC" "oh_ObjectType (ObjectHeaders ?s h) \<noteq> ObDirectoryObjectType ?s" using h(2,3) by simp_all
  from enter_namespace [OF namespace_pools [OF ns(1)] namespace_pools [OF ns(2)] f(2-4) fr ns(6) this len c(2) m(1-3)]
  have "namespace_is (lk_state l') B' (insert (OBJECT_HEADER_Body h) R) (ns(d := Some (f(c \<mapsto> OBJECT_HEADER_Body h)), OBJECT_HEADER_Body h := None))"
    unfolding m(5) .
  moreover have "ObpLookupObjectByName run (Suc fuel) Parent Name ctx (Some h) s = Inr (STATUS_SUCCESS, lk_Context l', lk_state l')"
    using ns(4,5) al B(2) l'(1) m(4) by (simp add: ObpLookupObjectByName_def ObpAllocateObjectNameBuffer_def hang_def)
  ultimately show ?thesis using f(3,5) h(1) by (auto simp: fresh_def)
qed

theorem insert_enters_namespace_witness:
  "\<exists>ctx s'. ObpLookupObjectByName no_dpcs 1 small_root \<lparr>us_Length = 2, us_MaximumLength = 3, us_Buffer = 0x87001000\<rparr> ObInitializeLookupContext
     (Some 0x86002000) empty_names = Inr (STATUS_SUCCESS, ctx, s') \<and>
   namespace_is s' 0x85900000 {small_root, 0x86002030} (\<lambda>d. if d = small_root then Some [[0x61] \<mapsto> 0x86002030] else None)"
proof -
  let ?ns = "\<lambda>d. if d = small_root then Some (\<lambda>_. None) else None"
  have pool: "pool_ready NonPagedPool empty_names" using empty_names_lockable by (auto simp: pool_ready_def)
  have ok: "pool_ok NonPagedPool 0x85800000 0x85802000 (Pools empty_names) ([] @ (0x85800000, 0x1FE4, False) # [])" using one_block_ok by simp
  have cs: "components [0x5C, 0x61] = [[0x61]]" "trailing [0x5C, 0x61] = False"
    by (simp_all add: components.simps IsPathSeperator_def trailing_def)
  have path: "cstr (Bytes empty_names) 0x87001000 [0x5C, 0x61]" "outside 0x85800018 0x87001000 (Suc (length [0x5C, 0x61 :: UCHAR]))"
    by (simp_all add: outside_def less_Suc_eq)
  have h: "fresh (Some 0x86002000) {small_root} empty_names" by (simp add: fresh_def entry_link_def OBJECT_HEADER_Body_def)
  have res: "resolve ?ns False 0 0 small_root [[0x61]] = (STATUS_OBJECT_NAME_NOT_FOUND, small_root, 0)" by simp
  have "\<exists>ctx s' f. ObpLookupObjectByName no_dpcs (Suc 0) small_root \<lparr>us_Length = 2, us_MaximumLength = 3, us_Buffer = 0x87001000\<rparr> ObInitializeLookupContext
     (Some 0x86002000) empty_names = Inr (STATUS_SUCCESS, ctx, s') \<and> ?ns small_root = Some f \<and>
     namespace_is s' 0x85900000 (insert (OBJECT_HEADER_Body 0x86002000) {small_root})
       (?ns(small_root := Some (f([0x61] \<mapsto> OBJECT_HEADER_Body 0x86002000)), OBJECT_HEADER_Body 0x86002000 := None))"
    using insert_enters_namespace [OF pool ok _ _ _ _ _ empty_namespace empty_namespace, of "0x85800018" small_root
        "\<lparr>us_Length = 2, us_MaximumLength = 3, us_Buffer = 0x87001000\<rparr>" "[0x5C, 0x61]" ObInitializeLookupContext "0x86002000" small_root "[0x61]" "0x85900000" no_dpcs 0]
      path cs h res by (simp add: ObInitializeLookupContext_def outside_def) blast
  then obtain ctx s' f where st: "ObpLookupObjectByName no_dpcs (Suc 0) small_root \<lparr>us_Length = 2, us_MaximumLength = 3, us_Buffer = 0x87001000\<rparr> ObInitializeLookupContext
     (Some 0x86002000) empty_names = Inr (STATUS_SUCCESS, ctx, s')" "?ns small_root = Some f"
     "namespace_is s' 0x85900000 (insert (OBJECT_HEADER_Body 0x86002000) {small_root})
       (?ns(small_root := Some (f([0x61] \<mapsto> OBJECT_HEADER_Body 0x86002000)), OBJECT_HEADER_Body 0x86002000 := None))" by blast
  have "?ns(small_root := Some (f([0x61] \<mapsto> OBJECT_HEADER_Body 0x86002000)), OBJECT_HEADER_Body 0x86002000 := None) =
      (\<lambda>d. if d = small_root then Some [[0x61] \<mapsto> 0x86002030] else None)"
    "insert (OBJECT_HEADER_Body 0x86002000) {small_root} = {small_root, 0x86002030}"
    using st(2) by (auto simp: OBJECT_HEADER_Body_def fun_eq_iff)
  then show ?thesis using st(1,3) by auto
qed

end
