(* ===== verification/Ps.thy ===== *)
theory Ps
  imports ObName
begin

text \<open>
  Threads and the process primitives they use: the process and thread blocks of \<open>ps/process.h\<close>, the user
  page pools of a process (\<open>MmCloneUserPtes\<close> and \<open>MmInitializeUserPtes\<close> of \<open>mm/mm.c\<close>), the run-down protection and
  the address space switch of \<open>ps/process.c\<close>, the initial context of a thread (\<open>KiCreateThreadContext\<close> of
  \<open>ke/scheduler.c\<close>) and \<open>ps/thread.c\<close>. A process or thread is known by the address of its object body, the numbers of
  the scheduler are that address; its kernel part, at offset 0 of the body, is the scheduler's. The trap frames
  on the kernel stacks are kept apart from the physical memory, like the pool headers.
\<close>

section \<open>State\<close>

abbreviation (input) THREAD_FLAG_ALLOCATED :: ULONG where "THREAD_FLAG_ALLOCATED \<equiv> 0x01"
abbreviation (input) THREAD_FLAG_INSERTED :: ULONG where "THREAD_FLAG_INSERTED \<equiv> 0x02"
abbreviation (input) THREAD_FLAG_CONTEXT_CREATED :: ULONG where "THREAD_FLAG_CONTEXT_CREATED \<equiv> 0x04"
abbreviation (input) THREAD_FLAG_EXEC_STATE_MASK :: ULONG where "THREAD_FLAG_EXEC_STATE_MASK \<equiv> 0x0F"
abbreviation (input) THREAD_USER_STACK_SIZE :: ULONG where "THREAD_USER_STACK_SIZE \<equiv> 3"
abbreviation (input) DEFAULT_PROCESS_QUANTUM :: LONG where "DEFAULT_PROCESS_QUANTUM \<equiv> 3"
abbreviation (input) PROCESS_PRIORITY_NORMAL :: PROCESS_PRIORITY where "PROCESS_PRIORITY_NORMAL \<equiv> 3"
abbreviation (input) MAX_NAME_LENGTH :: size_t where "MAX_NAME_LENGTH \<equiv> 64"
abbreviation (input) OBJECT_TYPE_PROCESS :: nat where "OBJECT_TYPE_PROCESS \<equiv> 5"
abbreviation (input) OBJECT_TYPE_THREAD :: nat where "OBJECT_TYPE_THREAD \<equiv> 6"
abbreviation (input) sizeof_EPROCESS :: ULONG where "sizeof_EPROCESS \<equiv> 224"
abbreviation (input) sizeof_ETHREAD :: ULONG where "sizeof_ETHREAD \<equiv> 276"
abbreviation (input) sizeof_KTRAPFRAME :: ULONG where "sizeof_KTRAPFRAME \<equiv> 68"
abbreviation (input) GD_KT :: USHORT where "GD_KT \<equiv> 0x08"
abbreviation (input) GD_UT :: USHORT where "GD_UT \<equiv> 0x18"
abbreviation (input) GD_UD :: USHORT where "GD_UD \<equiv> 0x20"
abbreviation (input) FL_MBS :: ULONG where "FL_MBS \<equiv> 0x2"
abbreviation (input) FL_IF :: ULONG where "FL_IF \<equiv> 0x200"

type_synonym eprocess = nat

record EPROCESS =
  ep_Flags :: ULONG
  ep_RundownProtect :: LONG
  ep_UniqueProcessId :: HANDLE
  ep_ParentProcessId :: HANDLE
  ep_Parent :: "eprocess option"
  ep_ThreadListHead :: "kthread list_head"
  ep_ActiveThreads :: ULONG

record ETHREAD =
  et_Flags :: ULONG
  et_ThreadsProcess :: "eprocess option"
  et_Cid :: ULONG

record GENERALREGISTERS =
  Reg_edi :: ULONG
  Reg_esi :: ULONG
  Reg_ebp :: ULONG
  Reg_oesp :: ULONG
  Reg_ebx :: ULONG
  Reg_edx :: ULONG
  Reg_ecx :: ULONG
  Reg_eax :: ULONG

record KTRAPFRAME =
  TrapFrame_regs :: GENERALREGISTERS
  TrapFrame_es :: USHORT
  TrapFrame_ds :: USHORT
  TrapFrame_trapno :: ULONG
  TrapFrame_err :: ULONG
  TrapFrame_eip :: ULONG
  TrapFrame_cs :: USHORT
  TrapFrame_eflags :: ULONG
  TrapFrame_esp :: ULONG
  TrapFrame_ss :: USHORT

definition zero_frame :: KTRAPFRAME where
  "zero_frame = \<lparr>TrapFrame_regs = \<lparr>Reg_edi = 0, Reg_esi = 0, Reg_ebp = 0, Reg_oesp = 0, Reg_ebx = 0, Reg_edx = 0,
     Reg_ecx = 0, Reg_eax = 0\<rparr>, TrapFrame_es = 0, TrapFrame_ds = 0, TrapFrame_trapno = 0, TrapFrame_err = 0,
     TrapFrame_eip = 0, TrapFrame_cs = 0, TrapFrame_eflags = 0, TrapFrame_esp = 0, TrapFrame_ss = 0\<rparr>"

text \<open>A bitmap in a page: its header, whose second word points to the elements.\<close>

record USER_BITMAP =
  ub_BitCount :: size_t
  ub_bits :: PVOID

record ps_state = obname_state +
  Eprocesses :: "eprocess \<Rightarrow> EPROCESS"
  Ethreads :: "kthread \<Rightarrow> ETHREAD"
  ProcessLinks :: "eprocess links"
  ThreadLinks :: "kthread links"
  PsActiveProcessHead :: "eprocess list_head"
  PsProcessType :: "nat option"
  ThreadObjectType :: "nat option"
  PsInitialSystemProcess :: "eprocess option"
  TrapFrames :: "PVOID \<Rightarrow> KTRAPFRAME"
  UserBitmaps :: "PVOID \<Rightarrow> USER_BITMAP"
  BitmapElements :: "PVOID \<Rightarrow> ElementType list"

definition body :: "nat \<Rightarrow> PVOID" where
  "body t = of_nat t"

definition set_process :: "eprocess \<Rightarrow> (EPROCESS \<Rightarrow> EPROCESS) \<Rightarrow> 'a ps_state_scheme \<Rightarrow> 'a ps_state_scheme" where
  "set_process p f s = s\<lparr>Eprocesses := (Eprocesses s)(p := f (Eprocesses s p))\<rparr>"

definition set_thread :: "kthread \<Rightarrow> (ETHREAD \<Rightarrow> ETHREAD) \<Rightarrow> 'a ps_state_scheme \<Rightarrow> 'a ps_state_scheme" where
  "set_thread t f s = s\<lparr>Ethreads := (Ethreads s)(t := f (Ethreads s t))\<rparr>"

definition set_pcb :: "eprocess \<Rightarrow> (KPROCESS \<Rightarrow> KPROCESS) \<Rightarrow> 'a ps_state_scheme \<Rightarrow> 'a ps_state_scheme" where
  "set_pcb p f s = s\<lparr>Pcbs := (Pcbs s)(p := f (Pcbs s p))\<rparr>"

section \<open>User page pools\<close>

definition user_pool :: "PVOID \<Rightarrow> 'a ps_state_scheme \<Rightarrow> (BITMAP \<Rightarrow> fault + 'b) \<Rightarrow> fault + 'b" where
  "user_pool p s k = (if p = 0 then Inl NullPointer
     else k \<lparr>BitCount = ub_BitCount (UserBitmaps s p), bits = BitmapElements s (ub_bits (UserBitmaps s p))\<rparr>)"

definition set_user_pool :: "PVOID \<Rightarrow> BITMAP \<Rightarrow> 'a ps_state_scheme \<Rightarrow> 'a ps_state_scheme" where
  "set_user_pool p b s = s\<lparr>BitmapElements := (BitmapElements s)(ub_bits (UserBitmaps s p) := bits b)\<rparr>"

definition AllocateUserPtes ::
  "'a ps_state_scheme deferred_routines \<Rightarrow> nat \<Rightarrow> PVOID \<Rightarrow> ULONG \<Rightarrow> 'a ps_state_scheme \<Rightarrow> fault + (PVOID \<times> 'a ps_state_scheme)" where
  "AllocateUserPtes run fuel pool n s =
     user_pool pool s (\<lambda>b. bind (MmAllocateUserPtes run fuel b n s) (\<lambda>(a, b, s). Inr (a, set_user_pool pool b s)))"

definition FreeUserPtes ::
  "'a ps_state_scheme deferred_routines \<Rightarrow> nat \<Rightarrow> PVOID \<Rightarrow> PVOID \<Rightarrow> ULONG \<Rightarrow> 'a ps_state_scheme \<Rightarrow> fault + 'a ps_state_scheme" where
  "FreeUserPtes run fuel Address pool n s =
     user_pool pool s (\<lambda>b. bind (MmFreeUserPtes run fuel Address b n s) (\<lambda>(b, s). Inr (set_user_pool pool b s)))"

text \<open>The bitmap of a page: 8 bytes of header and the elements behind it.\<close>

definition bitmap_in_page ::
  "PVOID \<Rightarrow> 'a ps_state_scheme \<Rightarrow> fault + 'a ps_state_scheme" where
  "bitmap_in_page Buffer s =
     bind (BmBitmapCreateInBuffer 0 (BitmapElements s (Buffer + sizeof_BITMAP)) PGSIZE) (\<lambda>b.
     Inr (s\<lparr>UserBitmaps := (UserBitmaps s)(Buffer := \<lparr>ub_BitCount = BitCount b, ub_bits = Buffer + sizeof_BITMAP\<rparr>),
       BitmapElements := (BitmapElements s)(Buffer + sizeof_BITMAP := bits b)\<rparr>))"

definition MmInitializeUserPtes ::
  "'a ps_state_scheme deferred_routines \<Rightarrow> nat \<Rightarrow> 'a ps_state_scheme \<Rightarrow> fault + (KSTATUS \<times> PVOID \<times> 'a ps_state_scheme)" where
  "MmInitializeUserPtes run fuel s =
     bind (MmAllocateSystemPtes run fuel 1 s) (\<lambda>(Buffer, s).
     if Buffer = 0 then Inr (STATUS_INSUFFICIENT_RESOURCES, 0, s)
     else bind (bitmap_in_page Buffer s) (\<lambda>s. Inr (STATUS_SUCCESS, Buffer, s)))"

text \<open>The copy of the page copies the header with its pointer, which still points into the page it was copied from.\<close>

definition copy_bitmap_page :: "PVOID \<Rightarrow> PVOID \<Rightarrow> 'a ps_state_scheme \<Rightarrow> 'a ps_state_scheme" where
  "copy_bitmap_page Buffer from s = s\<lparr>UserBitmaps := (UserBitmaps s)(Buffer := UserBitmaps s from),
     BitmapElements := (BitmapElements s)(Buffer + sizeof_BITMAP := BitmapElements s (from + sizeof_BITMAP))\<rparr>"

definition MmCloneUserPtes ::
  "'a ps_state_scheme deferred_routines \<Rightarrow> nat \<Rightarrow> PVOID \<Rightarrow> 'a ps_state_scheme \<Rightarrow> fault + (KSTATUS \<times> PVOID \<times> 'a ps_state_scheme)" where
  "MmCloneUserPtes run fuel CloneProcessBitmap s =
     bind (MmAllocateSystemPtes run fuel 1 s) (\<lambda>(Buffer, s).
     if Buffer = 0 then Inr (STATUS_INSUFFICIENT_RESOURCES, 0, s)
     else bind (bitmap_in_page Buffer s) (\<lambda>s.
       if CloneProcessBitmap = 0 then Inl NullPointer
       else Inr (STATUS_SUCCESS, Buffer, copy_bitmap_page Buffer CloneProcessBitmap s)))"

section \<open>The current process and run-down protection\<close>

definition PsGetCurrentThread :: "'a ps_state_scheme \<Rightarrow> PKTHREAD" where
  "PsGetCurrentThread s = KeGetCurrentThread s"

definition PsSetCurrentThread :: "PKTHREAD \<Rightarrow> 'a ps_state_scheme \<Rightarrow> fault + 'a ps_state_scheme" where
  "PsSetCurrentThread t s = KiSetCurrentThread t s"

definition PsSetTheadPriority :: "kthread \<Rightarrow> PROCESS_PRIORITY \<Rightarrow> 'a ps_state_scheme \<Rightarrow> 'a ps_state_scheme" where
  "PsSetTheadPriority t prio s = set_tcb t (\<lambda>k. k\<lparr>tcb_Priority := prio\<rparr>) s"

definition PsIsLastThread :: "kthread \<Rightarrow> 'a ps_state_scheme \<Rightarrow> fault + bool" where
  "PsIsLastThread t s = deref (et_ThreadsProcess (Ethreads s t)) (\<lambda>p. Inr (ep_ActiveThreads (Eprocesses s p) = 1))"

text \<open>The object found in the table is dropped: the function returns the null pointer.\<close>

definition PsGetProcessFromPID :: "HANDLE \<Rightarrow> 'a ps_state_scheme \<Rightarrow> fault + eprocess option" where
  "PsGetProcessFromPID ProcessId s =
     bind (ObLookupObjectByHandle ProcessId PidTable s) (\<lambda>(Status, Process).
     ASSERT ''PsGetProcessFromPID: 0'' (success Status) (Inr None))"

definition PsIncProcessRundownProtect :: "eprocess \<Rightarrow> 'a ps_state_scheme \<Rightarrow> 'a ps_state_scheme" where
  "PsIncProcessRundownProtect p s =
     set_process p (\<lambda>e. e\<lparr>ep_RundownProtect := snd (InterlockedIncrement (ep_RundownProtect e))\<rparr>) s"

definition PsDecProcessRundownProtect ::
  "'a ps_state_scheme object_methods \<Rightarrow> 'a ps_state_scheme deferred_routines \<Rightarrow> nat \<Rightarrow> eprocess \<Rightarrow> 'a ps_state_scheme \<Rightarrow>
   fault + 'a ps_state_scheme" where
  "PsDecProcessRundownProtect call run fuel p s =
     ASSERT ''PsDecProcessRundownProtect: RundownProtect'' (ep_RundownProtect (Eprocesses s p) \<noteq> 0)
     (let (Ret, v) = InterlockedDecrement (ep_RundownProtect (Eprocesses s p));
          s = set_process p (\<lambda>e. e\<lparr>ep_RundownProtect := v\<rparr>) s
      in if Ret = 0
         then ASSERT ''PsDecProcessRundownProtect: ActiveThreads == 0'' (ep_ActiveThreads (Eprocesses s p) = 0)
           (ObDereferenceObject call run fuel (body p) s)
         else Inr s)"

definition PsGetCurrentProcessId :: "'a ps_state_scheme \<Rightarrow> fault + HANDLE" where
  "PsGetCurrentProcessId s =
     ASSERT ''PsGetCurrentProcessId: Process'' (PsGetCurrentProcess s \<noteq> None)
     (deref (PsGetCurrentProcess s) (\<lambda>p. Inr (ep_UniqueProcessId (Eprocesses s p))))"

definition PsGetCurrentProcessPageDirectory :: "'a ps_state_scheme \<Rightarrow> PVOID" where
  "PsGetCurrentProcessPageDirectory s =
     (case PsGetCurrentProcess s of Some p \<Rightarrow> pcb_DirectoryTableBase (Pcbs s p) | None \<Rightarrow> GlobalPgdir s)"

definition ASSERT_attach :: "string \<Rightarrow> 'a ps_state_scheme \<Rightarrow> fault + 'b \<Rightarrow> fault + 'b" where
  "ASSERT_attach msg s k =
     ASSERT (msg @ '': Result == 1'') (fst (KiQueryDispatcherDatabase s) = 1)
     (bind (KeGetCurrentIrql s) (\<lambda>irql. ASSERT (msg @ '': DISPATCH_LEVEL'') (irql = DISPATCH_LEVEL) k))"

definition PspAttachProcess :: "eprocess option \<Rightarrow> 'a ps_state_scheme \<Rightarrow> fault + 'a ps_state_scheme" where
  "PspAttachProcess NewProcess s = ASSERT_attach ''PspAttachProcess'' s (KeStackAttachProcess NewProcess s)"

definition PspDetachProcess :: "'a ps_state_scheme \<Rightarrow> fault + 'a ps_state_scheme" where
  "PspDetachProcess s = ASSERT_attach ''PspDetachProcess'' s (KeUnstackDetachProcess s)"

text \<open>What is done in the address space of a process other than the current one, with the dispatcher database locked.\<close>

definition in_process ::
  "'a ps_state_scheme deferred_routines \<Rightarrow> nat \<Rightarrow> eprocess \<Rightarrow> ('a ps_state_scheme \<Rightarrow> fault + ('r \<times> 'a ps_state_scheme)) \<Rightarrow>
   'a ps_state_scheme \<Rightarrow> fault + ('r \<times> KIRQL \<times> 'a ps_state_scheme)" where
  "in_process run fuel p k s =
     bind (KiLockDispatcherDataBase s) (\<lambda>(Old, s).
     bind (PspAttachProcess (Some p) s) (\<lambda>s.
     bind (k s) (\<lambda>(r, s).
     bind (PspDetachProcess s) (\<lambda>s.
     bind (KiUnLockDispatcherDataBase run fuel Old s) (\<lambda>s. Inr (r, Old, s))))))"

section \<open>The first context of a thread\<close>

text \<open>
  The start routine in the saved context of a user thread; kernel start routines lie above \<open>KERNBASE\<close>. The checks
  of the segment registers of the parent's frame compare with \<open>GD_UT\<close> and then take the bitwise or with 3, so they
  cannot fail and are left out.
\<close>

abbreviation (input) KiRunUserThread :: ULONG where "KiRunUserThread \<equiv> 1"

definition stack_top :: "kthread \<Rightarrow> 'a ps_state_scheme \<Rightarrow> PVOID" where
  "stack_top t s = tcb_KernelStack (Tcbs s t) + THREAD_STACK_SIZE * PGSIZE"

definition set_frame :: "PVOID \<Rightarrow> KTRAPFRAME \<Rightarrow> 'a ps_state_scheme \<Rightarrow> 'a ps_state_scheme" where
  "set_frame a f s = s\<lparr>TrapFrames := (TrapFrames s)(a := f)\<rparr>"

definition user_frame :: "kthread \<Rightarrow> PVOID \<Rightarrow> 'a ps_state_scheme \<Rightarrow> KTRAPFRAME \<Rightarrow> KTRAPFRAME" where
  "user_frame t StartRoutine s f = f\<lparr>TrapFrame_es := GD_UD OR 3, TrapFrame_ds := GD_UD OR 3, TrapFrame_eip := StartRoutine,
     TrapFrame_cs := GD_UT OR 3, TrapFrame_eflags := FL_MBS OR FL_IF,
     TrapFrame_esp := tcb_UserStack (Tcbs s t) + THREAD_USER_STACK_SIZE * PGSIZE, TrapFrame_ss := GD_UD OR 3\<rparr>"

definition KiCreateThreadContext ::
  "kthread \<Rightarrow> kthread option \<Rightarrow> PVOID \<Rightarrow> PVOID \<Rightarrow> 'a ps_state_scheme \<Rightarrow> fault + (KSTATUS \<times> 'a ps_state_scheme)" where
  "KiCreateThreadContext t CloneTcb StartRoutine StartContext s =
     ASSERT ''KiCreateThreadContext: 0'' (\<not> (CloneTcb \<noteq> None \<and> StartRoutine \<noteq> 0))
     (let StackPtr = stack_top t s;
          (pTrapFrame, s) = (if IsUserAddress StartRoutine
            then (Some (StackPtr - sizeof_KTRAPFRAME), set_frame (StackPtr - sizeof_KTRAPFRAME) zero_frame s) else (None, s))
      in if IsKernelAddress StartRoutine
         then ASSERT ''KiCreateThreadContext: CloneTcb == NULL'' (CloneTcb = None)
           (ASSERT ''KiCreateThreadContext: StartRoutine'' (StartRoutine \<noteq> 0)
           (Inr (STATUS_SUCCESS, set_tcb t (\<lambda>k. k\<lparr>tcb_PreviousMode := KernelMode,
              tcb_StackPointer := InStart StartRoutine StartContext\<rparr>) s)))
         else
           bind (case CloneTcb of
             Some c \<Rightarrow>
               ASSERT ''KiCreateThreadContext: StartRoutine == NULL'' (StartRoutine = 0)
               (deref pTrapFrame (\<lambda>a.
                let f = TrapFrames s (stack_top c s - sizeof_KTRAPFRAME)
                in Inr (a, set_frame a (f\<lparr>TrapFrame_regs := TrapFrame_regs f\<lparr>Reg_eax := 0\<rparr>\<rparr>) s)))
           | None \<Rightarrow>
               ASSERT ''KiCreateThreadContext: StartRoutine != NULL'' (StartRoutine \<noteq> 0)
               (deref pTrapFrame (\<lambda>a. Inr (a, set_frame a (user_frame t StartRoutine s (TrapFrames s a)) s)))) (\<lambda>(a, s).
           Inr (STATUS_SUCCESS, set_tcb t (\<lambda>k. k\<lparr>tcb_PreviousMode := UserMode,
              tcb_StackPointer := InStart KiRunUserThread a\<rparr>) s)))"

text \<open>\<open>KiRunUserThread\<close>, the start routine itself: the registers it loads from the frame, and the state behind its \<open>iret\<close>.\<close>

definition run_user_thread :: "PVOID \<Rightarrow> 'a ps_state_scheme \<Rightarrow> fault + (KTRAPFRAME \<times> 'a ps_state_scheme)" where
  "run_user_thread Trapframe s =
     (let Thread = KeGetCurrentThread s; Process = KeGetCurrentProcess s in
      deref Thread (\<lambda>t.
      ASSERT ''KiRunUserThread: Process == Thread->ThreadProcess'' (Process = tcb_ThreadProcess (Tcbs s t))
      (deref Process (\<lambda>p.
       bind (IsCurrentPageDirectory (pcb_DirectoryTableBase (Pcbs s p)) s) (\<lambda>cur.
       ASSERT ''KiRunUserThread: IsCurrentPageDirectory'' cur
       (let s = KiUpdateTSS (stack_top t s) (snd (HalDisableInterrupts s)); f = TrapFrames s Trapframe
        in Inr (f, s\<lparr>Flags_IF := bit (TrapFrame_eflags f) 9\<rparr>)))))))"

text \<open>The context of the first system thread, without the flags and for kernel routines only.\<close>

definition SyspCreateThreadContext :: "kthread \<Rightarrow> PVOID \<Rightarrow> PVOID \<Rightarrow> 'a ps_state_scheme \<Rightarrow> fault + (KSTATUS \<times> 'a ps_state_scheme)" where
  "SyspCreateThreadContext t StartRoutine StartContext s =
     ASSERT ''SyspCreateThreadContext: IsKernelAddress(StartRoutine)'' (IsKernelAddress StartRoutine)
     (Inr (STATUS_SUCCESS, set_tcb t (\<lambda>k. k\<lparr>tcb_PreviousMode := KernelMode,
        tcb_StackPointer := InStart StartRoutine StartContext\<rparr>) s))"

section \<open>Creating a thread\<close>

text \<open>
  What clearing the memory of a new thread object means for its fields. The saved context is not cleared: the
  stack pointer has no value before the context of the thread is created.
\<close>

definition clear_header :: "dispatcher \<Rightarrow> 'a sched_state_scheme \<Rightarrow> 'a sched_state_scheme" where
  "clear_header d s = s\<lparr>DHeaders := (DHeaders s)(d :=
     \<lparr>dh_WaitListHead = LIST_INIT, dh_Type = EventNotificationObject, dh_SignalState = 0\<rparr>)\<rparr>"

definition clear_thread :: "kthread \<Rightarrow> 'a ps_state_scheme \<Rightarrow> 'a ps_state_scheme" where
  "clear_thread t s = clear_header (ThreadHeader t) (set_tcb t (\<lambda>k. k\<lparr>tcb_State := THREAD_STATE_INITIALIZED, tcb_Priority := 0,
       tcb_Quantum := 0, tcb_WaitIrql := 0, tcb_ThreadProcess := None, tcb_UserStack := 0, tcb_KernelStack := 0,
       tcb_PreviousMode := KernelMode\<rparr>) s)
     \<lparr>SchedLink := LIST_INIT_ENTRY t (SchedLink s), WaitBlockList := (WaitBlockList s)(t := LIST_INIT),
      Ethreads := (Ethreads s)(t := \<lparr>et_Flags = 0, et_ThreadsProcess = None, et_Cid = 0\<rparr>),
      ThreadLinks := LIST_INIT_ENTRY t (ThreadLinks s)\<rparr>"

definition ASSERT_process_lock :: "string \<Rightarrow> eprocess \<Rightarrow> 'a ps_state_scheme \<Rightarrow> fault + 'b \<Rightarrow> fault + 'b" where
  "ASSERT_process_lock msg p s k =
     bind (KeGetCurrentIrql s) (\<lambda>irql.
     ASSERT (msg @ '': DISPATCH_LEVEL'') (irql = DISPATCH_LEVEL)
     (let (Result, DebugThread) = KeQuerySpinLock (ProcessLock p) s in
      ASSERT (msg @ '': Result == 1'') (Result = 1)
      (ASSERT (msg @ '': DebugThread == KeGetCurrentThread()'') (DebugThread = KeGetCurrentThread s) k)))"

text \<open>
  \<open>KeInitDispatcherHeader\<close> is called with one argument; \<open>junk\<close> is what its other two parameters hold. \<open>var\<close> is the
  address of the caller's variable that receives the object.
\<close>

definition allocate_user_stack ::
  "'a ps_state_scheme deferred_routines \<Rightarrow> nat \<Rightarrow> eprocess \<Rightarrow> 'a ps_state_scheme \<Rightarrow> fault + (PVOID \<times> 'a ps_state_scheme)" where
  "allocate_user_stack run fuel p s =
     (let allocate = (\<lambda>s. bind (AllocateUserPtes run fuel (pcb_UserPtePool (Pcbs s p)) (THREAD_USER_STACK_SIZE + 1) s) (\<lambda>(a, s).
        if a = 0 then Inl (KeBugCheck ''User Ptes exhausted!!'') else Inr (a, s)))
      in if KeGetCurrentProcess s \<noteq> Some p
         then bind (in_process run fuel p allocate s) (\<lambda>(a, Old, s). Inr (a, s))
         else allocate s)"

definition PspAllocateThread ::
  "'a ps_state_scheme object_methods \<Rightarrow> 'a ps_state_scheme deferred_routines \<Rightarrow> nat \<Rightarrow> KOBJECTS \<times> LONG \<Rightarrow> PVOID \<Rightarrow> eprocess \<Rightarrow> bool \<Rightarrow>
   'a ps_state_scheme \<Rightarrow> fault + (KSTATUS \<times> kthread option \<times> 'a ps_state_scheme)" where
  "PspAllocateThread call run fuel junk var p IsClone s =
     ASSERT_process_lock ''PspAllocateThread'' p s
     (ASSERT ''PspAllocateThread: PROCESS_STATE_ACTIVE'' (pcb_State (Pcbs s p) = PROCESS_STATE_ACTIVE)
     (bind (ObCreateObject call run fuel (ThreadObjectType s) None sizeof_ETHREAD var s) (\<lambda>(Status, Object, s).
      ASSERT ''PspAllocateThread: 0'' (success Status)
      (deref Object (\<lambda>Object.
       let t = unat Object in
       bind (MmAllocateSystemPtes run fuel THREAD_STACK_SIZE (clear_thread t s)) (\<lambda>(stack, s).
       if stack = 0 then bind (ObDereferenceObject call run fuel Object s) (\<lambda>s. Inr (STATUS_INSUFFICIENT_RESOURCES, None, s))
       else
         let s = set_tcb t (\<lambda>k. k\<lparr>tcb_State := THREAD_STATE_INITIALIZED, tcb_Priority := pcb_BasePriority (Pcbs s p),
               tcb_Quantum := pcb_Quantum (Pcbs s p), tcb_ThreadProcess := Some p, tcb_KernelStack := stack\<rparr>) s;
             s = KeInitDispatcherHeader (ThreadHeader t) (fst junk) (snd junk) s
         in bind (if IsClone then deref (KeGetCurrentThread s) (\<lambda>c. Inr (tcb_UserStack (Tcbs s c), s))
              else allocate_user_stack run fuel p s) (\<lambda>(ustack, s).
            let s = set_tcb t (\<lambda>k. k\<lparr>tcb_UserStack := ustack\<rparr>) s
            in Inr (STATUS_SUCCESS, Some t, set_thread t (\<lambda>e. e\<lparr>et_ThreadsProcess := Some p, et_Cid := 0\<rparr>) s))))))))"

definition thread_list_of :: "eprocess \<Rightarrow> 'a ps_state_scheme \<Rightarrow> kthread klist" where
  "thread_list_of p s = (ThreadLinks s, ep_ThreadListHead (Eprocesses s p))"

definition set_thread_list_of :: "eprocess \<Rightarrow> kthread klist \<Rightarrow> 'a ps_state_scheme \<Rightarrow> 'a ps_state_scheme" where
  "set_thread_list_of p l s = set_process p (\<lambda>e. e\<lparr>ep_ThreadListHead := snd l\<rparr>) (s\<lparr>ThreadLinks := fst l\<rparr>)"

definition PspInsertThread :: "eprocess \<Rightarrow> kthread \<Rightarrow> 'a ps_state_scheme \<Rightarrow> fault + (KSTATUS \<times> 'a ps_state_scheme)" where
  "PspInsertThread p t s =
     ASSERT_process_lock ''PspInsertThread'' p s
     (bind (LIST_INSERT_TAIL t (thread_list_of p s)) (\<lambda>l. Inr (STATUS_SUCCESS, set_thread_list_of p l s)))"

definition add_flag :: "kthread \<Rightarrow> ULONG \<Rightarrow> 'a ps_state_scheme \<Rightarrow> 'a ps_state_scheme" where
  "add_flag t f s = set_thread t (\<lambda>e. e\<lparr>et_Flags := et_Flags e OR f\<rparr>) s"

definition make_ready :: "kthread \<Rightarrow> 'a ps_state_scheme \<Rightarrow> fault + 'a ps_state_scheme" where
  "make_ready t s =
     bind (KiLockDispatcherDataBaseAtDpcLevel s) (\<lambda>s.
     bind (KiReadyThread t s) KiUnLockDispatcherDataBaseFromDpcLevel)"

definition thread_name :: "kthread \<Rightarrow> address \<Rightarrow> 'a ps_state_scheme \<Rightarrow> 'a ps_state_scheme" where
  "thread_name t name s = s\<lparr>Bytes := strncpy (Bytes s) (body t + 212) name MAX_NAME_LENGTH\<rparr>"

text \<open>
  The part of \<open>PspCreateThread\<close> behind the allocation, under the lock of the process. \<open>PspInsertThread\<close> and \<open>KiCreateThreadContext\<close> cannot report
  a failure, so the error exit behind them is not reached. \<open>ThreadName\<close> is the address of the name, the literal's when the argument is null.
\<close>

definition publish_thread ::
  "'a ps_state_scheme object_methods \<Rightarrow> 'a ps_state_scheme deferred_routines \<Rightarrow> nat \<Rightarrow> eprocess \<Rightarrow> kthread \<Rightarrow> KIRQL \<Rightarrow> address \<Rightarrow>
   PVOID \<Rightarrow> PVOID \<Rightarrow> 'a ps_state_scheme \<Rightarrow> fault + (KSTATUS \<times> kthread option \<times> 'a ps_state_scheme)" where
  "publish_thread call run fuel p t Old ThreadName StartRoutine StartContext s =
     (let error_exit = (\<lambda>Status s. bind (KeReleaseSpinLock run fuel (ProcessLock p) Old s) (\<lambda>s.
            bind (ObDereferenceObject call run fuel (body t) s) (\<lambda>s. Inr (Status, None, s))))
      in ASSERT ''PspCreateThread: Flags == 0'' (et_Flags (Ethreads s t) AND THREAD_FLAG_EXEC_STATE_MASK = 0)
      (bind (PspInsertThread p t (thread_name t ThreadName (add_flag t THREAD_FLAG_ALLOCATED s))) (\<lambda>(Status, s).
       if \<not> success Status then error_exit Status s
       else
       ASSERT ''PspCreateThread: Flags == ALLOCATED'' (et_Flags (Ethreads s t) AND THREAD_FLAG_EXEC_STATE_MASK = THREAD_FLAG_ALLOCATED)
       (let s = add_flag t THREAD_FLAG_INSERTED s in
        bind (if StartRoutine = 0 then deref (KeGetCurrentThread s) (\<lambda>c. KiCreateThreadContext t (Some c) 0 0 s)
          else KiCreateThreadContext t None StartRoutine StartContext s) (\<lambda>(Status, s).
        if \<not> success Status then error_exit Status s
        else
        bind (make_ready t (add_flag t THREAD_FLAG_CONTEXT_CREATED s)) (\<lambda>s.
        let s = set_process p (\<lambda>e. e\<lparr>ep_ActiveThreads := snd (InterlockedIncrement (ep_ActiveThreads e))\<rparr>) s in
        bind (KeReleaseSpinLock run fuel (ProcessLock p) Old (PsIncProcessRundownProtect p s)) (\<lambda>s.
        Inr (STATUS_SUCCESS, Some t, s))))))))"

definition PspCreateThread ::
  "'a ps_state_scheme object_methods \<Rightarrow> 'a ps_state_scheme deferred_routines \<Rightarrow> nat \<Rightarrow> KOBJECTS \<times> LONG \<Rightarrow> PVOID \<Rightarrow> eprocess \<Rightarrow> address \<Rightarrow>
   PVOID \<Rightarrow> PVOID \<Rightarrow> 'a ps_state_scheme \<Rightarrow> fault + (KSTATUS \<times> kthread option \<times> 'a ps_state_scheme)" where
  "PspCreateThread call run fuel junk var p ThreadName StartRoutine StartContext s =
     (let IsClone = (StartRoutine = 0) in
      bind (KeAcquireSpinLock (ProcessLock p) s) (\<lambda>(Old, s).
      bind (PspAllocateThread call run fuel junk var p IsClone s) (\<lambda>(Status, NewThread, s).
      if \<not> success Status then bind (KeReleaseSpinLock run fuel (ProcessLock p) Old s) (\<lambda>s. Inr (Status, None, s))
      else deref NewThread (\<lambda>t. publish_thread call run fuel p t Old ThreadName StartRoutine StartContext s))))"

section \<open>Ending a thread\<close>

text \<open>
  A thread that ends itself marks itself terminated, releases its waiters and gives up the processor: control
  continues on another stack, in \<open>Schedule\<close>, and a terminated thread that were resumed would stop the system there.
\<close>

definition PsExitThread ::
  "'a ps_state_scheme object_methods \<Rightarrow> 'a ps_state_scheme thread_routine \<Rightarrow> 'a ps_state_scheme deferred_routines \<Rightarrow> nat \<Rightarrow>
   kthread option \<Rightarrow> 'a ps_state_scheme \<Rightarrow> fault + 'a ps_state_scheme" where
  "PsExitThread call exit_thread run fuel ThreadPtr s =
     deref (case ThreadPtr of None \<Rightarrow> KeGetCurrentThread s | Some t \<Rightarrow> Some t) (\<lambda>t.
     if KeGetCurrentThread s = Some t
     then
       ASSERT ''PsExitThread: THREAD_STATE_RUNNING'' (tcb_State (Tcbs s t) = THREAD_STATE_RUNNING)
       (bind (KeReleaseNotificationDHeader run fuel (ThreadHeader t) (set_tcb t (\<lambda>k. k\<lparr>tcb_State := THREAD_STATE_TERMINATED\<rparr>) s))
         (Schedule exit_thread run fuel))
     else
       ASSERT ''PsExitThread: not THREAD_STATE_RUNNING'' (tcb_State (Tcbs s t) \<noteq> THREAD_STATE_RUNNING)
       (bind (if tcb_State (Tcbs s t) = THREAD_STATE_READY then KiStandbyThread t s else Inr s) (\<lambda>s.
        bind (if tcb_State (Tcbs s t) \<noteq> THREAD_STATE_TERMINATED
          then KeReleaseNotificationDHeader run fuel (ThreadHeader t) (set_tcb t (\<lambda>k. k\<lparr>tcb_State := THREAD_STATE_TERMINATED\<rparr>) s)
          else Inr s) (\<lambda>s.
        ObDereferenceObject call run fuel (body t) s))))"

definition clear_flag :: "kthread \<Rightarrow> ULONG \<Rightarrow> 'a ps_state_scheme \<Rightarrow> 'a ps_state_scheme" where
  "clear_flag t f s = set_thread t (\<lambda>e. e\<lparr>et_Flags := et_Flags e AND NOT f\<rparr>) s"

text \<open>The part of \<open>PsCloseThread\<close> under the lock of the process that undoes what the flags record.\<close>

definition undo_flags :: "eprocess \<Rightarrow> kthread \<Rightarrow> 'a ps_state_scheme \<Rightarrow> fault + 'a ps_state_scheme" where
  "undo_flags p t s =
     bind (if et_Flags (Ethreads s t) AND THREAD_FLAG_CONTEXT_CREATED \<noteq> 0
       then let s = clear_flag t THREAD_FLAG_CONTEXT_CREATED s in
         ASSERT ''PsCloseThread: Flags == ALLOCATED | INSERTED''
           (et_Flags (Ethreads s t) = THREAD_FLAG_ALLOCATED OR THREAD_FLAG_INSERTED) (Inr s)
       else Inr s) (\<lambda>s.
     bind (if et_Flags (Ethreads s t) AND THREAD_FLAG_INSERTED \<noteq> 0
       then let s = clear_flag t THREAD_FLAG_INSERTED s in
         ASSERT ''PsCloseThread: Flags == ALLOCATED'' (et_Flags (Ethreads s t) = THREAD_FLAG_ALLOCATED)
         (bind (LIST_REMOVE t (thread_list_of p s)) (\<lambda>l. Inr (set_thread_list_of p l s)))
       else Inr s) (\<lambda>s.
     if et_Flags (Ethreads s t) AND THREAD_FLAG_ALLOCATED \<noteq> 0
     then let s = clear_flag t THREAD_FLAG_ALLOCATED s in
       ASSERT ''PsCloseThread: Flags == 0'' (et_Flags (Ethreads s t) = 0) (Inr s)
     else Inr s))"

text \<open>
  The lock of the process is released at the IRQL that \<open>OldIrql\<close> holds at the end, which is the one the dispatcher
  database was locked at.
\<close>

definition PsCloseThread ::
  "'a ps_state_scheme object_methods \<Rightarrow> 'a ps_state_scheme deferred_routines \<Rightarrow> nat \<Rightarrow> kthread \<Rightarrow> 'a ps_state_scheme \<Rightarrow>
   fault + 'a ps_state_scheme" where
  "PsCloseThread call run fuel t s =
     ASSERT ''PsCloseThread: KeGetCurrentThread() != Thread'' (KeGetCurrentThread s \<noteq> Some t)
     (ASSERT ''PsCloseThread: THREAD_STATE_TERMINATED'' (tcb_State (Tcbs s t) = THREAD_STATE_TERMINATED)
     (ASSERT ''PsCloseThread: ALLOCATED'' (et_Flags (Ethreads s t) AND THREAD_FLAG_ALLOCATED \<noteq> 0)
     (ASSERT ''PsCloseThread: Process'' (et_ThreadsProcess (Ethreads s t) \<noteq> None)
     (deref (et_ThreadsProcess (Ethreads s t)) (\<lambda>p.
      ASSERT ''PsCloseThread: ActiveThreads'' (ep_ActiveThreads (Eprocesses s p) \<noteq> 0)
      (if KeGetCurrentProcess s = Some p
       then Inl (KeBugCheck ''A Process is not allowed to close a thread which belongs to different Process'')
       else
       bind (KeAcquireSpinLock (ProcessLock p) s) (\<lambda>(_, s).
       bind (undo_flags p t s) (\<lambda>s.
       bind (in_process run fuel p (\<lambda>s.
         ASSERT ''PsCloseThread: KeGetCurrentProcess() != Process'' (KeGetCurrentProcess s \<noteq> Some p)
         (bind (FreeUserPtes run fuel (tcb_UserStack (Tcbs s t)) (pcb_UserPtePool (Pcbs s p)) THREAD_USER_STACK_SIZE s)
           (\<lambda>s. Inr ((), s)))) s) (\<lambda>(_, Old, s).
       bind (if KeGetCurrentThread s \<noteq> Some t then MmFreeSystemPtes run fuel (tcb_KernelStack (Tcbs s t)) THREAD_STACK_SIZE s
         else Inr s) (\<lambda>s.
       let s = set_process p (\<lambda>e. e\<lparr>ep_ActiveThreads := snd (InterlockedDecrement (ep_ActiveThreads e))\<rparr>) s in
       bind (PsDecProcessRundownProtect call run fuel p s) (\<lambda>s.
       KeReleaseSpinLock run fuel (ProcessLock p) Old s)))))))))))"

text \<open>The numbers under which the close procedures of the two object types are stored.\<close>

abbreviation (input) PsCloseThread_routine :: nat where "PsCloseThread_routine \<equiv> 6"
abbreviation (input) PspCloseProcess_routine :: nat where "PspCloseProcess_routine \<equiv> 5"
abbreviation (input) TAG_ETHR :: ULONG where "TAG_ETHR \<equiv> 0x52485445"

definition PsThreadInit :: "'a ps_state_scheme \<Rightarrow> fault + 'a ps_state_scheme" where
  "PsThreadInit s =
     bind (ObCreateObjectType \<lparr>ot_PoolType = NonPagedPool, ot_FLAGS = 0, ot_ObjectSize = sizeof_ETHREAD, ot_TypeIndex = OBJECT_TYPE_THREAD,
       ot_PoolTag = TAG_ETHR, ot_Object_List_Head = LIST_INIT, ot_OpenProcedure = None,
       ot_CloseProcedure = Some PsCloseThread_routine\<rparr> (ThreadObjectType s) s) (\<lambda>(ty, s).
     Inr (s\<lparr>ThreadObjectType := Some ty\<rparr>))"

end
