(* ===== verification/Loader.thy ===== *)
theory Loader
  imports Ps
begin

text \<open>
  The program loader, the compiled \<open>ELFBinaryLoader\<close> of \<open>ps/loader.c\<close> with the headers of \<open>inc/elf.h\<close>. The binary
  is read from kernel memory; the segments are written through the page tables of the process, which is the
  current address space, byte by byte. The lemmas show what a write through the page tables changes.
\<close>

section \<open>Headers\<close>

abbreviation (input) ELF_MAGIC :: ULONG where "ELF_MAGIC \<equiv> 0x464C457F"
abbreviation (input) sizeof_Proghdr :: ULONG where "sizeof_Proghdr \<equiv> 32"

definition word16 :: "memory \<Rightarrow> address \<Rightarrow> USHORT" where
  "word16 m a = ucast (m a) OR push_bit 8 (ucast (m (a + 1)))"

definition word32 :: "memory \<Rightarrow> address \<Rightarrow> ULONG" where
  "word32 m a = ucast (m a) OR push_bit 8 (ucast (m (a + 1))) OR push_bit 16 (ucast (m (a + 2))) OR push_bit 24 (ucast (m (a + 3)))"

record Elf =
  e_magic :: ULONG
  e_type :: USHORT
  e_machine :: USHORT
  e_version :: ULONG
  e_entry :: ULONG
  e_phoff :: ULONG
  e_phentsize :: USHORT
  e_phnum :: USHORT

definition elf_head :: "memory \<Rightarrow> address \<Rightarrow> Elf" where
  "elf_head m b = \<lparr>e_magic = word32 m b, e_type = word16 m (b + 16), e_machine = word16 m (b + 18), e_version = word32 m (b + 20),
     e_entry = word32 m (b + 24), e_phoff = word32 m (b + 28), e_phentsize = word16 m (b + 42), e_phnum = word16 m (b + 44)\<rparr>"

record Proghdr =
  p_offset :: ULONG
  p_va :: ULONG
  p_filesz :: ULONG
  p_memsz :: ULONG

definition prog_header :: "memory \<Rightarrow> address \<Rightarrow> Proghdr" where
  "prog_header m a = \<lparr>p_offset = word32 m (a + 4), p_va = word32 m (a + 8), p_filesz = word32 m (a + 16), p_memsz = word32 m (a + 20)\<rparr>"

section \<open>Bytes in virtual memory\<close>

text \<open>The byte of a word at an address, in little-endian order.\<close>

definition byte_shift :: "PVOID \<Rightarrow> nat" where
  "byte_shift a = 8 * (unat a mod 4)"

definition word_byte :: "PVOID \<Rightarrow> ULONG \<Rightarrow> UCHAR" where
  "word_byte a w = ucast (drop_bit (byte_shift a) w)"

definition put_byte :: "PVOID \<Rightarrow> UCHAR \<Rightarrow> ULONG \<Rightarrow> ULONG" where
  "put_byte a b w = (w AND NOT (push_bit (byte_shift a) 0xFF)) OR push_bit (byte_shift a) (ucast b)"

definition vread_byte :: "PVOID \<Rightarrow> 'a mm_state_scheme \<Rightarrow> fault + UCHAR" where
  "vread_byte a s = bind (vread a s) (\<lambda>w. Inr (word_byte a w))"

definition vwrite_byte :: "PVOID \<Rightarrow> UCHAR \<Rightarrow> 'a mm_state_scheme \<Rightarrow> fault + 'a mm_state_scheme" where
  "vwrite_byte a b s = bind (vread a s) (\<lambda>w. vwrite a (put_byte a b w) s)"

text \<open>\<open>memcpy\<close> from kernel memory, and the store of a zero word at an address that need not be aligned.\<close>

definition copy_to_user :: "memory \<Rightarrow> PVOID \<Rightarrow> address \<Rightarrow> ULONG \<Rightarrow> 'a mm_state_scheme \<Rightarrow> fault + 'a mm_state_scheme" where
  "copy_to_user m dst src n s = foldE (\<lambda>i. vwrite_byte (dst + of_nat i) (m (src + of_nat i))) [0..<unat n] s"

definition zero_word :: "PVOID \<Rightarrow> 'a mm_state_scheme \<Rightarrow> fault + 'a mm_state_scheme" where
  "zero_word a s = foldE (\<lambda>k. vwrite_byte (a + k) 0) [0, 1, 2, 3] s"

section \<open>Loading\<close>

text \<open>The loop \<open>for (i = p_va + p_filesz; i < p_memsz; i++)\<close>, whose bound is a size and not an address.\<close>

definition zero_rest :: "Proghdr \<Rightarrow> 'a mm_state_scheme \<Rightarrow> fault + 'a mm_state_scheme" where
  "zero_rest ph s = foldE zero_word (range32 (p_va ph + p_filesz ph) (p_memsz ph)) s"

definition load_segment :: "eprocess \<Rightarrow> address \<Rightarrow> address \<Rightarrow> 'a ps_state_scheme \<Rightarrow> fault + 'a ps_state_scheme" where
  "load_segment p Binary a s =
     (let ph = prog_header (Bytes s) a in
      bind (MmMapSegment (pcb_DirectoryTableBase (Pcbs s p)) (p_va ph) (p_memsz ph) (PTE_W OR PTE_U) s) (\<lambda>(_, s).
      if p_filesz ph > p_memsz ph then Inl (KeBugCheck ''Bad ELF binary'')
      else
      bind (copy_to_user (Bytes s) (p_va ph) (Binary + p_offset ph) (p_filesz ph) s) (zero_rest ph)))"

text \<open>The headers from \<open>ph\<close> up to \<open>eph\<close>: none when the end lies below the start because the sum wrapped.\<close>

definition program_headers :: "address \<Rightarrow> USHORT \<Rightarrow> address list" where
  "program_headers ph phnum =
     (if ph < ph + sizeof_Proghdr * ucast phnum then map (\<lambda>i. ph + sizeof_Proghdr * of_nat i) [0..<unat phnum] else [])"

definition ELFBinaryLoader :: "eprocess \<Rightarrow> address \<Rightarrow> 'a ps_state_scheme \<Rightarrow> fault + (KSTATUS \<times> 'a ps_state_scheme)" where
  "ELFBinaryLoader p Binary s =
     (let eh = elf_head (Bytes s) Binary in
      if e_magic eh \<noteq> ELF_MAGIC then Inl (KeBugCheck ''Not an ELF binary'')
      else if e_type eh \<noteq> 2 \<or> e_machine eh \<noteq> 3 \<or> e_version eh \<noteq> 1 \<or> e_phentsize eh \<noteq> 32 \<or> e_phnum eh > 1024
      then Inl (KeBugCheck ''Not an ELF binary 2'')
      else
      bind (foldE (load_segment p Binary) (program_headers (Binary + e_phoff eh) (e_phnum eh)) s) (\<lambda>s.
      Inr (STATUS_SUCCESS, set_pcb p (\<lambda>k. k\<lparr>pcb_ProcessEntryPoint := e_entry eh\<rparr>) s)))"

section \<open>What a write changes\<close>

text \<open>The byte a virtual address holds.\<close>

definition vbyte :: "'a mm_state_scheme \<Rightarrow> PVOID \<Rightarrow> UCHAR option" where
  "vbyte s a = (case translate s a of None \<Rightarrow> None | Some f \<Rightarrow> Some (word_byte a (PhysMem s f (word_off a))))"

text \<open>A page of data: mapped, not a page table of the address space, and mapped at one address only.\<close>

definition data_page :: "'a mm_state_scheme \<Rightarrow> PVOID \<Rightarrow> bool" where
  "data_page s a \<longleftrightarrow> (\<exists>f. translate s a = Some f \<and> f \<noteq> page_dir s \<and>
     (\<forall>b. Valid (pde s b) \<longrightarrow> f \<noteq> PageFrameNumber (pde s b)) \<and> (\<forall>b. translate s b = Some f \<longrightarrow> pageno b = pageno a))"

lemma bit_put_byte:
  assumes "k < 32"
  shows "bit (put_byte a v w) k \<longleftrightarrow> (if byte_shift a \<le> k \<and> k < byte_shift a + 8 then bit v (k - byte_shift a) else bit w k)"
proof -
  have m: "bit (0xFF :: ULONG) j \<longleftrightarrow> j < 8" for j
    using bit_mask_iff [of 8 j, where ?'a = "32 word"] by (auto simp: mask_eq_exp_minus_1)
  have v: "bit v j \<Longrightarrow> j < 8" for j using bit_imp_le_length [of v j] by simp
  have "bit (put_byte a v w) k \<longleftrightarrow> (bit w k \<and> \<not> (byte_shift a \<le> k \<and> bit (0xFF :: ULONG) (k - byte_shift a))) \<or>
      (byte_shift a \<le> k \<and> bit v (k - byte_shift a))"
    using assms v [of "k - byte_shift a"] by (auto simp: put_byte_def bit_simps)
  then show ?thesis
    using v [of "k - byte_shift a"] m [of "k - byte_shift a"] by (cases "byte_shift a \<le> k"; cases "k - byte_shift a < 8") auto
qed

lemma word_byte_put: "word_byte b (put_byte a v w) = (if unat a mod 4 = unat b mod 4 then v else word_byte b w)"
proof (rule bit_word_eqI)
  fix n assume n: "n < LENGTH(8)"
  define x y where "x = unat a mod 4" and "y = unat b mod 4"
  have sh: "byte_shift a = 8 * x" "byte_shift b = 8 * y" by (simp_all add: byte_shift_def x_def y_def)
  have "y < 4" by (simp add: y_def)
  then have lt: "8 * y + n < 32" using n by simp
  have "bit (put_byte a v w) (8 * y + n) \<longleftrightarrow> (if x = y then bit v n else bit w (8 * y + n))"
  proof (cases "x = y")
    case False
    then have "\<not> (8 * x \<le> 8 * y + n \<and> 8 * y + n < 8 * x + 8)" using n by (cases "x < y") auto
    from if_not_P [OF this, where ?'a = bool] if_not_P [OF False, where ?'a = bool] show ?thesis using bit_put_byte [OF lt, of a v w] by (simp only: sh)
  qed (use n in \<open>simp add: bit_put_byte [OF lt] sh\<close>)
  then have "bit (word_byte b (put_byte a v w)) n \<longleftrightarrow> (if x = y then bit v n else bit w (8 * y + n))"
    using n by (simp add: word_byte_def bit_simps sh)
  then show "bit (word_byte b (put_byte a v w)) n \<longleftrightarrow> bit (if unat a mod 4 = unat b mod 4 then v else word_byte b w) n"
    using n by (simp add: word_byte_def bit_simps sh flip: x_def y_def)
qed

lemma PGOFF_eqI:
  assumes "word_off a = word_off b" "unat a mod 4 = unat b mod 4" "pageno a = pageno b"
  shows "a = b"
proof -
  have "unat a mod 4096 div 4 = unat b mod 4096 div 4" using assms(1) unat_word_off [of a] unat_word_off [of b] by metis
  moreover have "unat a mod 4096 mod 4 = unat b mod 4096 mod 4" using assms(2) by (simp add: mod_mod_cancel)
  ultimately have "unat a mod 4096 = unat b mod 4096" by (metis div_mult_mod_eq)
  moreover have "unat a div 4096 = unat b div 4096" using assms(3) by (simp add: pageno_def)
  ultimately have "unat a = unat b" by (metis div_mult_mod_eq)
  then show ?thesis by (rule unsigned_word_eqI)
qed

lemma pde_frame:
  assumes "f \<noteq> page_dir s"
  shows "pde (s\<lparr>PhysMem := (PhysMem s)(f := g)\<rparr>) b = pde s b"
  using assms by (simp add: pde_def page_dir_def)

text \<open>Writing a byte of a data page changes that byte and nothing else that is mapped.\<close>

lemma vwrite_byte_data:
  assumes "data_page s a"
  shows "\<exists>m. vwrite_byte a v s = Inr (s\<lparr>PhysMem := m\<rparr>) \<and> vbyte (s\<lparr>PhysMem := m\<rparr>) = (vbyte s)(a \<mapsto> v) \<and>
    translate (s\<lparr>PhysMem := m\<rparr>) = translate s \<and> (\<forall>b. data_page (s\<lparr>PhysMem := m\<rparr>) b = data_page s b)"
proof -
  obtain f where f: "translate s a = Some f" "f \<noteq> page_dir s" "\<And>b. Valid (pde s b) \<Longrightarrow> f \<noteq> PageFrameNumber (pde s b)"
    "\<And>b. translate s b = Some f \<Longrightarrow> pageno b = pageno a" using assms by (auto simp: data_page_def)
  define m where "m = (PhysMem s)(f := (PhysMem s f)(word_off a := put_byte a v (PhysMem s f (word_off a))))"
  have mf: "m f = (PhysMem s f)(word_off a := put_byte a v (PhysMem s f (word_off a)))" "\<And>g. g \<noteq> f \<Longrightarrow> m g = PhysMem s g"
    by (simp_all add: m_def)
  let ?t = "s\<lparr>PhysMem := m\<rparr>"
  have w: "vwrite_byte a v s = Inr ?t" by (simp add: vwrite_byte_def vread_def vwrite_def f(1) m_def)
  have pde: "pde ?t b = pde s b" for b unfolding m_def by (rule pde_frame [OF f(2)])
  have tr: "translate ?t b = translate s b" for b
  proof (cases "Valid (pde s b)")
    case True
    then have "m (PageFrameNumber (pde s b)) = PhysMem s (PageFrameNumber (pde s b))" using f(3) [of b] by (simp add: m_def)
    then show ?thesis by (simp add: translate_eq pde pte_def)
  qed (simp add: translate_eq pde)
  have vb: "vbyte ?t b = ((vbyte s)(a \<mapsto> v)) b" for b
  proof (cases "translate s b = Some f")
    case True
    then have at: "vbyte ?t b = Some (word_byte b (m f (word_off b)))" "vbyte s b = Some (word_byte b (PhysMem s f (word_off b)))"
      by (simp_all add: vbyte_def tr)
    show ?thesis
    proof (cases "b = a")
      case False
      then have "word_off b \<noteq> word_off a \<or> unat a mod 4 \<noteq> unat b mod 4" using PGOFF_eqI [of b a] f(4) [OF True] by metis
      then have "word_byte b (m f (word_off b)) = word_byte b (PhysMem s f (word_off b))" by (auto simp: mf(1) word_byte_put)
      then show ?thesis using False at by simp
    qed (use at in \<open>simp add: mf(1) word_byte_put\<close>)
  next
    case False
    then have "b \<noteq> a" using f(1) by auto
    moreover have "vbyte ?t b = vbyte s b"
      using False mf(2) by (auto simp: vbyte_def tr split: option.split)
    ultimately show ?thesis by simp
  qed
  have dp: "data_page ?t b = data_page s b" for b by (simp add: data_page_def tr pde) (simp add: page_dir_def)
  show ?thesis
  proof (intro exI [of _ m] conjI)
    show "vbyte ?t = (vbyte s)(a \<mapsto> v)" "translate ?t = translate s" using vb tr by blast+
  qed (use w dp in auto)
qed

lemma copy_loop:
  assumes "\<forall>i < n. data_page s (dst + of_nat i)" "n < 2 ^ 32"
  shows "\<exists>m'. foldE (\<lambda>i. vwrite_byte (dst + of_nat i) (m (src + of_nat i))) [0..<n] s = Inr (s\<lparr>PhysMem := m'\<rparr>) \<and>
    vbyte (s\<lparr>PhysMem := m'\<rparr>) = (\<lambda>a. if unat (a - dst) < n then Some (m (src + (a - dst))) else vbyte s a) \<and>
    (\<forall>b. data_page (s\<lparr>PhysMem := m'\<rparr>) b = data_page s b)"
  using assms
proof (induction n)
  case 0
  then show ?case by (intro exI [of _ "PhysMem s"]) simp
next
  case (Suc n)
  then obtain m1 where m1: "foldE (\<lambda>i. vwrite_byte (dst + of_nat i) (m (src + of_nat i))) [0..<n] s = Inr (s\<lparr>PhysMem := m1\<rparr>)"
    "vbyte (s\<lparr>PhysMem := m1\<rparr>) = (\<lambda>a. if unat (a - dst) < n then Some (m (src + (a - dst))) else vbyte s a)"
    "\<forall>b. data_page (s\<lparr>PhysMem := m1\<rparr>) b = data_page s b" by auto
  let ?a = "dst + of_nat n"
  have "data_page (s\<lparr>PhysMem := m1\<rparr>) ?a" using m1(3) Suc.prems by simp
  from vwrite_byte_data [OF this, of "m (src + of_nat n)"] obtain m2 where
    m2: "vwrite_byte ?a (m (src + of_nat n)) (s\<lparr>PhysMem := m1\<rparr>) = Inr (s\<lparr>PhysMem := m2\<rparr>)"
      "vbyte (s\<lparr>PhysMem := m2\<rparr>) = (vbyte (s\<lparr>PhysMem := m1\<rparr>))(?a \<mapsto> m (src + of_nat n))"
      "\<forall>b. data_page (s\<lparr>PhysMem := m2\<rparr>) b = data_page s b" using m1(3) by auto
  have n: "unat (of_nat n :: ULONG) = n" using Suc.prems by (intro unat_of_nat32) simp
  have "vbyte (s\<lparr>PhysMem := m2\<rparr>) a = (if unat (a - dst) < Suc n then Some (m (src + (a - dst))) else vbyte s a)" for a
  proof (cases "a = ?a")
    case True
    then show ?thesis using n by (simp add: m2(2))
  next
    case False
    then have "a - dst \<noteq> of_nat n" by (metis add.commute diff_add_cancel)
    then have "unat (a - dst) \<noteq> n" using n by (auto dest!: arg_cong [of _ _ "of_nat :: nat \<Rightarrow> ULONG"])
    then show ?thesis using False by (auto simp: m2(2) m1(2) less_Suc_eq)
  qed
  then show ?case using m1(1) m2(1,3) by (intro exI [of _ m2]) (simp add: foldE_append fun_eq_iff)
qed

section \<open>Loading a segment\<close>

text \<open>
  A segment fits when its pages are not mapped and those without a page table are user pages, enough frames are free for the pages and the tables, no free
  frame is in use and no address wraps.
\<close>

abbreviation seg_base :: "Proghdr \<Rightarrow> PVOID" where "seg_base ph \<equiv> ROUNDDOWN (p_va ph) PGSIZE"
abbreviation seg_pages :: "Proghdr \<Rightarrow> nat" where "seg_pages ph \<equiv> segment_pages (p_va ph) (p_memsz ph)"

abbreviation seg_frame :: "Proghdr \<Rightarrow> 'a mm_state_scheme \<Rightarrow> nat \<Rightarrow> nat" where "seg_frame ph s \<equiv> frame_index s (seg_base ph)"

definition segment_fits :: "Proghdr \<Rightarrow> frame list \<Rightarrow> 'a mm_state_scheme \<Rightarrow> bool" where
  "segment_fits ph fs s \<longleftrightarrow> tables_ok s \<and> range_free s (seg_base ph) (seg_pages ph) \<and> free_frames s fs \<and> frames_unused s fs \<and>
     seg_frame ph s (seg_pages ph) \<le> length fs \<and> unat (p_va ph) + unat (p_memsz ph) + 4095 < 2 ^ 32"

lemma pageno_base: "pageno (ROUNDDOWN va PGSIZE) = pageno va"
  using unat_ROUNDDOWN [of va PGSIZE] by (simp add: pageno_def)

lemma segment_address:
  assumes "unat va + unat len + 4095 < 2 ^ 32" and "i < unat len"
  shows "in_pages (ROUNDDOWN va PGSIZE) (segment_pages va len) (va + of_nat i)"
proof -
  have "unat (of_nat i :: ULONG) = i" using assms unat_ULONG_less [of len] by (intro unat_of_nat32) linarith
  then have u: "unat (va + of_nat i) = unat va + i" using assms by (subst unat_add_no_wrap) simp_all
  let ?x = "unat va mod 4096 + unat len"
  have "?x + 4095 = 4096 * ((?x + 4095) div 4096) + (?x + 4095) mod 4096" "(?x + 4095) mod 4096 < 4096" by simp_all
  then have "?x \<le> 4096 * segment_pages va len" unfolding segment_pages_def by linarith
  then have "unat va + i < 4096 * (unat va div 4096 + segment_pages va len)"
    using assms(2) mult_div_mod_eq [of 4096 "unat va"] unfolding distrib_left by linarith
  then have "(unat va + i) div 4096 < unat va div 4096 + segment_pages va len" by (simp add: less_mult_imp_div_less mult.commute)
  then show ?thesis using u div_le_mono [of "unat va" "unat va + i" 4096] by (simp add: in_pages_def pageno_base) (simp add: pageno_def)
qed

lemma data_page_frame:
  assumes "tables_ok s"
  shows "data_page s a \<longleftrightarrow> (\<exists>f. translate s a = Some f \<and> data_frame s f \<and> (\<forall>b. translate s b = Some f \<longrightarrow> pageno b = pageno a))"
  using data_frame_dir [OF assms] by (auto simp: data_page_def data_frame_def)

lemma fresh_data_page:
  assumes ok: "tables_ok s1" and un: "frames_unused s fs" and fr: "free_frames s fs" and len: "frame_index s base n \<le> length fs"
    and tr: "\<And>b. PDX b \<noteq> 768 \<Longrightarrow> translate s1 b = (if in_pages base n b then Some (fs ! frame_index s base (pageno b - pageno base)) else translate s b)"
    and d: "\<And>k. k < n \<Longrightarrow> data_frame s1 (fs ! frame_index s base k)"
    and b: "in_pages base n b" "PDX b \<noteq> 768"
  shows "data_page s1 b"
proof -
  let ?k = "\<lambda>b. pageno b - pageno base" and ?i = "frame_index s base"
  have n: "?k b < n" if "in_pages base n b" for b using that by (auto simp: in_pages_def)
  have k: "?i (?k b) < length fs" if "in_pages base n b" for b
    using frame_index_mono [OF n [OF that], of s base] len by (rule order_less_le_trans)
  have f: "fs ! ?i (?k b) \<in> set fs" using k [OF b(1)] by simp
  then have u: "\<And>c. translate s c \<noteq> Some (fs ! ?i (?k b))" using un by (auto simp: frames_unused_def)
  have d1: "data_frame s1 (fs ! ?i (?k b))" by (rule d [OF n [OF b(1)]])
  have "distinct fs" using fr by (simp add: free_frames_def klist_rep_def ring_def)
  have "pageno c = pageno b" if c: "translate s1 c = Some (fs ! ?i (?k b))" for c
  proof -
    have c768: "PDX c \<noteq> 768" using data_frame_area [OF ok d1, of c] c by auto
    then have i: "in_pages base n c" using c tr [of c] u [of c] by (cases "in_pages base n c") simp_all
    then have "?i (?k c) = ?i (?k b)" using c tr [OF c768] \<open>distinct fs\<close> k [OF i] k [OF b(1)] by (simp add: nth_eq_iff_index_eq)
    then have "?k c = ?k b" using frame_index_mono [of "?k c" "?k b" s base] frame_index_mono [of "?k b" "?k c" s base] by (metis nat_neq_iff)
    then show ?thesis using i b(1) unfolding in_pages_def by linarith
  qed
  moreover have "translate s1 b = Some (fs ! ?i (?k b))" using tr [OF b(2)] b(1) by simp
  ultimately show ?thesis unfolding data_page_frame [OF ok] using d1 by blast
qed

lemma mm_core_Bytes: "mm_core s1 = mm_core s \<Longrightarrow> Bytes s1 = Bytes s" for s :: "'a ps_state_scheme"
proof -
  have "Bytes (mm_core s) = Bytes s" for s :: "'a ps_state_scheme" by (simp add: mm_core_def)
  then show "mm_core s1 = mm_core s \<Longrightarrow> Bytes s1 = Bytes s" by metis
qed

text \<open>C8. Loading a segment of an ELF file into the current address space, reached through the directory the process keeps (any address at which the current directory is mapped, such as the
  page of the system PTE area that its creation allocates), maps its pages to free frames and copies the \<open>p_filesz\<close> bytes at \<open>p_offset\<close> of the file to \<open>p_va\<close>, with every
  data page that was mapped before left as it was. The pages must not be mapped; user pages without a page table, as in a new process, get one from the free list: each page takes
  the next frame, and the first page without a table the frame after that for the table (\<open>frame_index\<close>), and the free list must hold as many frames, none of them in use. When the
  address after the copied bytes is at least the segment's size, as for every program linked above its own size, the loop meant to clear the rest of the segment does not run, because its
  bound is the size and not the end address: a byte of the pages behind the copied ones is what the frame held before, the data of whoever used it last.\<close>

theorem segment_loaded:
  assumes dir: "dir_mapped (pcb_DirectoryTableBase (Pcbs s p)) s" and ph: "ph = prog_header (Bytes s) a"
    and fits: "segment_fits ph fs s" and size: "p_filesz ph \<le> p_memsz ph" and bss: "p_memsz ph \<le> p_va ph + p_filesz ph"
  shows "\<exists>s'. load_segment p Binary a s = Inr s' \<and> free_frames s' (drop (seg_frame ph s (seg_pages ph)) fs) \<and>
    (\<forall>i < unat (p_filesz ph). vbyte s' (p_va ph + of_nat i) = Some (Bytes s (Binary + p_offset ph + of_nat i))) \<and>
    (\<forall>b. in_pages (seg_base ph) (seg_pages ph) b \<and> \<not> b - p_va ph < p_filesz ph \<longrightarrow>
       vbyte s' b = Some (word_byte b (PhysMem s (fs ! seg_frame ph s (pageno b - pageno (seg_base ph))) (word_off b)))) \<and>
    (\<forall>b. data_page s b \<longrightarrow> vbyte s' b = vbyte s b)"
proof -
  let ?base = "seg_base ph" and ?n = "seg_pages ph" and ?va = "p_va ph" and ?D = "pcb_DirectoryTableBase (Pcbs s p)"
  let ?i = "seg_frame ph s"
  note f = fits [unfolded segment_fits_def]
  have r: "range_free s ?base ?n" and ok: "tables_ok s" and fr: "free_frames s fs" and un: "frames_unused s fs" and len: "?i ?n \<le> length fs"
    and wrap: "unat ?va + unat (p_memsz ph) + 4095 < 2 ^ 32" using f by simp_all
  have df: "\<forall>f \<in> set fs. data_frame s f" using un by (simp add: frames_unused_def)
  have perm: "(PTE_W OR PTE_U :: ULONG) < 4096" by simp
  obtain s1 where s1: "MmMapSegment ?D ?va (p_memsz ph) (PTE_W OR PTE_U) s = Inr (STATUS_SUCCESS, s1)" "tables_ok s1"
    "mm_core s1 = mm_core s" "free_frames s1 (drop (?i ?n) fs)"
    "\<And>b. PDX b \<noteq> 768 \<Longrightarrow> translate s1 b = (if in_pages ?base ?n b then Some (fs ! ?i (pageno b - pageno ?base)) else translate s b)"
    "\<And>x. data_frame s x \<Longrightarrow> (x \<in> set (take (?i ?n) fs) \<longrightarrow> (\<exists>k < ?n. x = fs ! ?i k)) \<Longrightarrow> data_frame s1 x \<and> PhysMem s1 x = PhysMem s x"
    using MmMapSegment_maps [OF ok dir r fr df len wrap perm] by blast
  have B: "Bytes s1 = Bytes s" by (rule mm_core_Bytes [OF s1(3)])
  have idx: "?i k < length fs" if "k < ?n" for k using frame_index_mono [OF that, of s ?base] len by (rule order_less_le_trans)
  have page: "data_frame s1 (fs ! ?i k)" "PhysMem s1 (fs ! ?i k) = PhysMem s (fs ! ?i k)" if k: "k < ?n" for k
    using s1(6) [of "fs ! ?i k"] df idx [OF k] k by auto
  have in768: "PDX b \<noteq> 768" if b: "in_pages ?base ?n b" for b
  proof -
    have k: "pageno b - pageno ?base < ?n" using b by (auto simp: in_pages_def)
    then have "pageno (page_at ?base (pageno b - pageno ?base)) = pageno b" using range_free_page(2) [OF r k] b by (simp add: in_pages_def)
    then have "PDX b = PDX (page_at ?base (pageno b - pageno ?base))"
      using same_page_iff [of b "page_at ?base (pageno b - pageno ?base)"] unfolding pageno_def by simp
    then show ?thesis using page_free_not_768 [OF range_free_page(3) [OF r k]] by simp
  qed
  have at: "in_pages ?base ?n (?va + of_nat i)" if "i < unat (p_filesz ph)" for i
    using segment_address [of ?va "p_memsz ph" i] wrap that size by (simp add: word_le_nat_alt)
  have "data_page s1 (?va + of_nat i)" if "i < unat (p_filesz ph)" for i
    using fresh_data_page [OF s1(2) un fr len s1(5) page(1) at [OF that] in768 [OF at [OF that]]] .
  then obtain m where m: "copy_to_user (Bytes s) ?va (Binary + p_offset ph) (p_filesz ph) s1 = Inr (s1\<lparr>PhysMem := m\<rparr>)"
    "vbyte (s1\<lparr>PhysMem := m\<rparr>) = (\<lambda>a. if unat (a - ?va) < unat (p_filesz ph) then Some (Bytes s (Binary + p_offset ph + (a - ?va))) else vbyte s1 a)"
    using copy_loop [of "unat (p_filesz ph)" s1 ?va "Bytes s" "Binary + p_offset ph"] unat_ULONG_less [of "p_filesz ph"]
    unfolding copy_to_user_def by blast
  let ?t = "s1\<lparr>PhysMem := m\<rparr>"
  have "zero_rest ph ?t = Inr ?t" using bss by (simp add: zero_rest_def range32_def word_le_nat_alt)
  then have "load_segment p Binary a s = Inr ?t"
    using s1(1) size m(1) B by (simp add: load_segment_def ph [symmetric] not_less)
  moreover have "free_frames ?t (drop (?i ?n) fs)" using s1(4) by (simp add: free_frames_def pfn_list_def)
  moreover have "vbyte ?t (?va + of_nat i) = Some (Bytes s (Binary + p_offset ph + of_nat i))" if "i < unat (p_filesz ph)" for i
    using that m(2) unat_of_nat32 [of i] unat_ULONG_less [of "p_filesz ph"] by simp
  moreover have "vbyte ?t b = Some (word_byte b (PhysMem s (fs ! ?i (pageno b - pageno ?base)) (word_off b)))"
    if b: "in_pages ?base ?n b" "\<not> b - ?va < p_filesz ph" for b
  proof -
    have "pageno b - pageno ?base < ?n" using b(1) by (auto simp: in_pages_def)
    then show ?thesis using b m(2) s1(5) [OF in768 [OF b(1)]] page(2) by (simp add: vbyte_def word_less_nat_alt)
  qed
  moreover have "vbyte ?t b = vbyte s b" if d: "data_page s b" for b
  proof -
    obtain h where h: "translate s b = Some h" "data_frame s h" using d by (auto simp: data_page_frame [OF ok])
    have b768: "PDX b \<noteq> 768" using data_frame_area [OF ok h(2), of b] h(1) by auto
    have "\<not> in_pages ?base ?n b"
    proof
      assume b: "in_pages ?base ?n b"
      then have k: "pageno b - pageno ?base < ?n" by (auto simp: in_pages_def)
      then have "pageno (page_at ?base (pageno b - pageno ?base)) = pageno b" using range_free_page(2) [OF r k] b by (simp add: in_pages_def)
      from same_page_translate [OF this, of s] have "translate s b = translate s (page_at ?base (pageno b - pageno ?base))" by simp
      then show False using h(1) range_free_page(3) [OF r k] Valid_0 by (simp add: translate_page_pte page_free_def)
    qed
    moreover have "in_pages ?base ?n b" if "unat (b - ?va) < unat (p_filesz ph)" using at [OF that] by simp
    moreover have "h \<notin> set (take (?i ?n) fs)" using h(1) un in_set_takeD [of h "?i ?n" fs] by (auto simp: frames_unused_def)
    ultimately show ?thesis using m(2) s1(5) [OF b768] s1(6) [OF h(2)] h(1) by (auto simp: vbyte_def)
  qed
  ultimately show ?thesis by blast
qed

text \<open>A process with an ELF file of one segment in kernel memory, on the small machine.\<close>

definition elf_file :: memory where
  "elf_file a = (case map_of [(0, 0x7F), (1, 0x45), (2, 0x4C), (3, 0x46), (16, 2), (18, 3), (20, 1), (25, 0x10), (26, 0x80),
       (28, 0x34), (42, 32), (44, 1), (0x39, 1), (0x3D, 0x10), (0x3E, 0x80), (0x44, 2), (0x48, 16), (0x100, 0x55), (0x101, 0x66)]
     (a - 0x90000000) of Some b \<Rightarrow> b | None \<Rightarrow> 0)"

definition elf_state :: ps_state where
  "elf_state = obname_state.extend (small_names\<lparr>Bytes := elf_file\<rparr>) (ps_state.fields
     (\<lambda>_. \<lparr>ep_Flags = 0, ep_RundownProtect = 1, ep_UniqueProcessId = 0, ep_ParentProcessId = 0, ep_Parent = None,
       ep_ThreadListHead = LIST_INIT, ep_ActiveThreads = 0\<rparr>)
     (\<lambda>_. \<lparr>et_Flags = 0, et_ThreadsProcess = None, et_Cid = 0\<rparr>)
     \<lparr>le_next = Map.empty, le_prev = Map.empty\<rparr> \<lparr>le_next = Map.empty, le_prev = Map.empty\<rparr> LIST_INIT None None None
     (\<lambda>_. zero_frame) (\<lambda>_. \<lparr>ub_BitCount = 0, ub_bits = 0\<rparr>) (\<lambda>_. []))"

lemma elf_state_sel [simp]:
  "PhysMem elf_state = small_mem" "Cr3 elf_state = 0x1000" "page_dir elf_state = 1" "Bytes elf_state = elf_file"
  "pcb_DirectoryTableBase (Pcbs elf_state p) = MM_PDE_ADDRESS"
  "pfn_list elf_state = pfn_list small_mm" "RefCount elf_state = RefCount small_mm"
  "MMNumberOfPhysicalPages elf_state = MMNumberOfPhysicalPages small_mm"
  by (simp_all add: elf_state_def obname_state.extend_def ps_state.fields_def small_names_def ob_state.extend_def obname_state.fields_def
      small_ob_unfold three_threads_unfold page_dir_def PPN_def pfn_list_def)

lemma elf_header:
  "prog_header elf_file 0x90000034 = \<lparr>p_offset = 0x100, p_va = 0x801000, p_filesz = 2, p_memsz = 16\<rparr>"
  by (simp add: prog_header_def word32_def elf_file_def)

text \<open>A new process: its directory is mapped at the start of the system PTE area and the slot of the segment has no page table.\<close>

definition new_process :: ps_state where
  "new_process = elf_state\<lparr>PhysMem := \<lambda>f i. if f = 2 \<and> i = 0 then 0x1003 else if f = 1 \<and> i = 2 then 0 else small_mem f i,
     Pcbs := \<lambda>p. (Pcbs elf_state p)\<lparr>pcb_DirectoryTableBase := MMSYSPTE_START\<rparr>\<rparr>"

lemma new_process_sel [simp]:
  "PhysMem new_process = (\<lambda>f i. if f = 2 \<and> i = 0 then 0x1003 else if f = 1 \<and> i = 2 then 0 else small_mem f i)"
  "page_dir new_process = 1" "Bytes new_process = elf_file" "pcb_DirectoryTableBase (Pcbs new_process p) = MMSYSPTE_START"
  "pfn_list new_process = pfn_list small_mm" "RefCount new_process = RefCount small_mm" "MMNumberOfPhysicalPages new_process = MMNumberOfPhysicalPages small_mm"
  using elf_state_sel by (simp_all add: new_process_def page_dir_def pfn_list_def)

lemma new_process_dir: "pde new_process b = (if PDX b = 2 then 0 else small_mem 1 (PDX b))"
  by (simp add: pde_def)

lemma new_process_mapped: "dir_mapped MMSYSPTE_START new_process"
  by (simp add: dir_mapped_def IsPageAlignedAddress_def PGOFF_def translate_eq pte_def new_process_dir PDX_def PTX_def small_mem_def)

lemma elf_fits: "segment_fits \<lparr>p_offset = 0x100, p_va = 0x801000, p_filesz = 2, p_memsz = 16\<rparr> [5, 6, 7] new_process"
proof -
  note pde = new_process_dir
  have n: "segment_pages 0x801000 16 = 1" "ROUNDDOWN 0x801000 PGSIZE = 0x801000" by (simp_all add: segment_pages_def ROUNDDOWN_def)
  have t: "tables_ok new_process" by (auto simp: tables_ok_def self_map_def small_mem_def Valid_0 split: if_splits)
  have f: "free_frames new_process [5, 6, 7]" using small_free by (simp add: free_frames_def)
  have x: "page_at 0x801000 0 = 0x801000" "PDX 0x801000 = 2" by (simp_all add: page_at_def PDX_def)
  have r: "range_free new_process 0x801000 1"
    by (simp add: range_free_def IsPageAlignedAddress_def PGOFF_def page_free_def page_pte_def pde x Valid_0 IsUserAddress_def)
  have "frame_index new_process 0x801000 1 = 2" by (simp add: frame_index_def new_table_def x pde Valid_0)
  moreover have "frames_unused new_process [5, 6, 7]"
    by (auto simp: frames_unused_def data_frame_def translate_eq pte_def pde small_mem_def Valid_0 split: if_splits)
  ultimately show ?thesis using t f r by (simp add: segment_fits_def n)
qed

theorem segment_loaded_witness:
  "\<exists>s'. load_segment 0 0x90000000 0x90000034 new_process = Inr s' \<and> vbyte s' 0x801001 = Some 0x66 \<and> free_frames s' [7]"
proof -
  have n: "segment_pages 0x801000 16 = 1" "ROUNDDOWN 0x801000 PGSIZE = 0x801000" by (simp_all add: segment_pages_def ROUNDDOWN_def)
  have "page_at 0x801000 0 = 0x801000" "PDX 0x801000 = 2" by (simp_all add: page_at_def PDX_def)
  then have i: "frame_index new_process 0x801000 (Suc 0) = 2" by (simp add: frame_index_def new_table_def new_process_dir Valid_0)
  obtain s' where s': "load_segment 0 0x90000000 0x90000034 new_process = Inr s'"
    "\<forall>i < 2. vbyte s' (0x801000 + of_nat i) = Some (elf_file (0x90000100 + of_nat i))" "free_frames s' [7]"
    using segment_loaded [of new_process 0 _ "0x90000034" "[5, 6, 7]" "0x90000000", OF _ refl] elf_fits new_process_mapped by (auto simp: elf_header n i)
  from spec [OF s'(2), of 1] show ?thesis using s'(1,3) by (simp add: elf_file_def)
qed

end
