(* ===== verification/Process.thy ===== *)
theory Process
  imports Loader
begin

text \<open>
  Processes, \<open>ps/process.c\<close>: creation, cloning, exit and closing, the start of the system process, and the system calls of \<open>ex/syscall.c\<close>
  that call them. The process manager reads program files through the third-party FatFs, whose four functions
  are the record \<open>fatfs\<close>. The close procedures of the two object types and \<open>PsExitThread\<close> call each other through
  the object manager and the scheduler; \<open>ps_methods\<close> and \<open>exit_routine\<close> tie these knots up to a depth.
\<close>

abbreviation (input) PROCESS_FLAG_ALLOCATED :: ULONG where "PROCESS_FLAG_ALLOCATED \<equiv> 0x01"
abbreviation (input) PROCESS_FLAG_INSERTED :: ULONG where "PROCESS_FLAG_INSERTED \<equiv> 0x02"
abbreviation (input) PROCESS_FLAG_FIRST_THREAD_CREATED :: ULONG where "PROCESS_FLAG_FIRST_THREAD_CREATED \<equiv> 0x04"
abbreviation (input) PROCESS_FLAG_CLEANUP_MASK :: ULONG where "PROCESS_FLAG_CLEANUP_MASK \<equiv> 0x0F"
abbreviation (input) PROCESS_PRIORITY_IDLE :: PROCESS_PRIORITY where "PROCESS_PRIORITY_IDLE \<equiv> 1"
abbreviation (input) STATUS_INVALID_FILE_FOR_SECTION :: KSTATUS where "STATUS_INVALID_FILE_FOR_SECTION \<equiv> 0xC0000020"
abbreviation (input) TAG_ELIF :: ULONG where "TAG_ELIF \<equiv> 0x454C4946"
abbreviation (input) FA_READ :: UCHAR where "FA_READ \<equiv> 0x01"

section \<open>Program files\<close>

text \<open>The functions of FatFs, on a file object known by a number, which read the disk and may fault there; the sizes are read as the signed integers they are stored in.\<close>

record 's fatfs =
  f_open :: "address \<Rightarrow> UCHAR \<Rightarrow> 's \<Rightarrow> fault + (KSTATUS \<times> nat \<times> 's)"
  fsize :: "nat \<Rightarrow> 's \<Rightarrow> LONG"
  f_read :: "nat \<Rightarrow> PVOID \<Rightarrow> LONG \<Rightarrow> 's \<Rightarrow> fault + (KSTATUS \<times> LONG \<times> 's)"
  f_close :: "nat \<Rightarrow> 's \<Rightarrow> fault + 's"

text \<open>The status, the buffer and the size; the last two are the caller's null and zero on a failure.\<close>

definition PspReadBinary ::
  "'a pool_state_scheme fatfs \<Rightarrow> 'a pool_state_scheme deferred_routines \<Rightarrow> nat \<Rightarrow> address \<Rightarrow> 'a pool_state_scheme \<Rightarrow>
   fault + (KSTATUS \<times> PVOID \<times> LONG \<times> 'a pool_state_scheme)" where
  "PspReadBinary ff run fuel FileName s =
     bind (f_open ff FileName FA_READ s) (\<lambda>(Status, fp, s).
      if \<not> success Status then Inr (Status, 0, 0, s)
      else let FileSize = fsize ff fp s in
      if sint FileSize \<le> 0 then Inr (STATUS_INVALID_FILE_FOR_SECTION, 0, 0, s)
      else bind (MmAllocatePoolWithTag run fuel NonPagedPool (FileSize + 20) TAG_ELIF s) (\<lambda>(LocalBuff, s).
      if LocalBuff = 0 then Inr (STATUS_INSUFFICIENT_RESOURCES, 0, 0, s)
      else bind (f_read ff fp LocalBuff FileSize s) (\<lambda>(Status, BytesRead, s).
        if \<not> success Status \<or> sint BytesRead < sint FileSize
        then bind (MmFreePoolWithTag run fuel LocalBuff TAG_ELIF s) (\<lambda>s. Inr (Status, 0, 0, s))
        else bind (f_close ff fp s) (\<lambda>s. Inr (STATUS_SUCCESS, LocalBuff, FileSize, s)))))"

section \<open>The list of processes\<close>

definition process_list :: "'a ps_state_scheme \<Rightarrow> eprocess klist" where
  "process_list s = (ProcessLinks s, PsActiveProcessHead s)"

definition set_process_list :: "eprocess klist \<Rightarrow> 'a ps_state_scheme \<Rightarrow> 'a ps_state_scheme" where
  "set_process_list l s = s\<lparr>ProcessLinks := fst l, PsActiveProcessHead := snd l\<rparr>"

definition PspRemoveProcess ::
  "'a ps_state_scheme deferred_routines \<Rightarrow> nat \<Rightarrow> eprocess \<Rightarrow> 'a ps_state_scheme \<Rightarrow> fault + (KSTATUS \<times> 'a ps_state_scheme)" where
  "PspRemoveProcess run fuel p s =
     ASSERT ''PspRemoveProcess: PROCESS_STATE_TERMINATED'' (pcb_State (Pcbs s p) = PROCESS_STATE_TERMINATED)
     (bind (KeAcquireSpinLock PsActiveProcessHeadLock s) (\<lambda>(Old, s).
      bind (LIST_REMOVE p (process_list s)) (\<lambda>l.
      bind (KeReleaseSpinLock run fuel PsActiveProcessHeadLock Old (set_process_list l s)) (\<lambda>s.
      Inr (STATUS_SUCCESS, s)))))"

definition PspInsertProcess ::
  "'a ps_state_scheme deferred_routines \<Rightarrow> nat \<Rightarrow> eprocess \<Rightarrow> 'a ps_state_scheme \<Rightarrow> fault + (KSTATUS \<times> 'a ps_state_scheme)" where
  "PspInsertProcess run fuel p s =
     bind (KeAcquireSpinLock PsActiveProcessHeadLock s) (\<lambda>(Old, s).
     bind (LIST_INSERT_TAIL p (process_list s)) (\<lambda>l.
     let s = set_pcb p (\<lambda>k. k\<lparr>pcb_State := PROCESS_STATE_ACTIVE\<rparr>) (set_process_list l s) in
     bind (KeReleaseSpinLock run fuel PsActiveProcessHeadLock Old s) (\<lambda>s.
     Inr (STATUS_SUCCESS, s))))"

definition ProcessGetCleanupFlags :: "eprocess \<Rightarrow> 'a ps_state_scheme \<Rightarrow> ULONG" where
  "ProcessGetCleanupFlags p s = ep_Flags (Eprocesses s p) AND PROCESS_FLAG_CLEANUP_MASK"

definition ProcessSetCleanupFlags :: "eprocess \<Rightarrow> ULONG \<Rightarrow> 'a ps_state_scheme \<Rightarrow> 'a ps_state_scheme" where
  "ProcessSetCleanupFlags p f s = set_process p (\<lambda>e. e\<lparr>ep_Flags := ep_Flags e OR (f AND PROCESS_FLAG_CLEANUP_MASK)\<rparr>) s"

definition ProcessResetCleanupFlags :: "eprocess \<Rightarrow> ULONG \<Rightarrow> 'a ps_state_scheme \<Rightarrow> 'a ps_state_scheme" where
  "ProcessResetCleanupFlags p f s = set_process p (\<lambda>e. e\<lparr>ep_Flags := ep_Flags e AND NOT (f AND PROCESS_FLAG_CLEANUP_MASK)\<rparr>) s"

section \<open>Closing a process\<close>

definition PspFreeProcess ::
  "'a ps_state_scheme object_methods \<Rightarrow> 'a ps_state_scheme deferred_routines \<Rightarrow> nat \<Rightarrow> eprocess \<Rightarrow> 'a ps_state_scheme \<Rightarrow>
   fault + (KSTATUS \<times> 'a ps_state_scheme)" where
  "PspFreeProcess call run fuel p s =
     (if ProcessGetCleanupFlags p s AND PROCESS_FLAG_ALLOCATED \<noteq> 0
      then
        bind (case ep_Parent (Eprocesses s p) of Some q \<Rightarrow> PsDecProcessRundownProtect call run fuel q s | None \<Rightarrow> Inr s) (\<lambda>s.
        bind (ObRemoveHandle (ep_UniqueProcessId (Eprocesses s p)) PidTable (body p) s) (\<lambda>s.
        bind (MmDeleteProcessAddressSpace run fuel (pcb_DirectoryTableBase (Pcbs s p)) s) (\<lambda>s.
        Inr (STATUS_SUCCESS, s))))
      else Inr (STATUS_SUCCESS, s))"

definition PspCloseProcess ::
  "'a ps_state_scheme object_methods \<Rightarrow> 'a ps_state_scheme deferred_routines \<Rightarrow> nat \<Rightarrow> eprocess \<Rightarrow> 'a ps_state_scheme \<Rightarrow>
   fault + (KSTATUS \<times> 'a ps_state_scheme)" where
  "PspCloseProcess call run fuel p s =
     ASSERT ''PspCloseProcess: ObIsValidObject(Process)'' (ObIsValidObject (body p) s)
     (deref (KeGetCurrentThread s) (\<lambda>t.
      ASSERT ''PspCloseProcess: Thread->ThreadsProcess != Process'' (et_ThreadsProcess (Ethreads s t) \<noteq> Some p)
      (ASSERT ''PspCloseProcess: RundownProtect == 0'' (ep_RundownProtect (Eprocesses s p) = 0)
      (PspFreeProcess call run fuel p s))))"

text \<open>
  The close procedures by their routine numbers; closing a thread may close its process, and closing a process its
  parent, so the depth is the number of objects that can close in a row.
\<close>

fun ps_methods ::
  "'a ps_state_scheme object_methods \<Rightarrow> 'a ps_state_scheme deferred_routines \<Rightarrow> nat \<Rightarrow> nat \<Rightarrow> 'a ps_state_scheme object_methods" where
  "ps_methods others run fuel 0 r ob s = Inl Hang"
| "ps_methods others run fuel (Suc depth) r ob s =
     (if r = PsCloseThread_routine
      then bind (PsCloseThread (ps_methods others run fuel depth) run fuel (unat ob) s) (\<lambda>s. Inr (STATUS_SUCCESS, s))
      else if r = PspCloseProcess_routine then PspCloseProcess (ps_methods others run fuel depth) run fuel (unat ob) s
      else others r ob s)"

fun exit_routine ::
  "'a ps_state_scheme object_methods \<Rightarrow> 'a ps_state_scheme deferred_routines \<Rightarrow> nat \<Rightarrow> nat \<Rightarrow> 'a ps_state_scheme thread_routine" where
  "exit_routine call run fuel 0 t s = Inl Hang"
| "exit_routine call run fuel (Suc depth) t s = PsExitThread call (exit_routine call run fuel depth) run fuel (Some t) s"

section \<open>Creating a process\<close>

text \<open>What clearing the memory of a new process object means for its fields.\<close>

definition clear_process :: "eprocess \<Rightarrow> 'a ps_state_scheme \<Rightarrow> 'a ps_state_scheme" where
  "clear_process p s = clear_header (ProcessHeader p) (s\<lparr>
     spin_locks := (spin_locks s)(ProcessLock p := \<lparr>Lock = 0, Thread = None, OldIrql = 0\<rparr>),
     Pcbs := (Pcbs s)(p := \<lparr>pcb_Quantum = 0, pcb_DirectoryTableBase = 0, pcb_BasePriority = 0, pcb_State = PROCESS_STATE_IDLE,
       pcb_UserPtePool = 0, pcb_ProcessEntryPoint = 0\<rparr>),
     HandlePtr := (HandlePtr s)(ProcessTable p := 0),
     Eprocesses := (Eprocesses s)(p := \<lparr>ep_Flags = 0, ep_RundownProtect = 0, ep_UniqueProcessId = 0, ep_ParentProcessId = 0,
       ep_Parent = None, ep_ThreadListHead = LIST_INIT, ep_ActiveThreads = 0\<rparr>),
     ProcessLinks := LIST_INIT_ENTRY p (ProcessLinks s)\<rparr>)"

text \<open>The executive part of the process block, with the reference on the parent.\<close>

definition init_eprocess :: "eprocess \<Rightarrow> eprocess option \<Rightarrow> address \<Rightarrow> HANDLE \<Rightarrow> 'a ps_state_scheme \<Rightarrow> 'a ps_state_scheme" where
  "init_eprocess p Parent Binary ProcessId s =
     (let s = (if Binary \<noteq> 0 then s\<lparr>Bytes := strncpy (Bytes s) (body p + 144) Binary MAX_NAME_LENGTH\<rparr> else s);
          s = set_process p (\<lambda>e. e\<lparr>ep_UniqueProcessId := ProcessId\<rparr>) s;
          s = (case Parent of None \<Rightarrow> s | Some q \<Rightarrow>
            PsIncProcessRundownProtect q (set_process p (\<lambda>e. e\<lparr>ep_ParentProcessId := ep_UniqueProcessId (Eprocesses s q)\<rparr>) s))
      in set_process p (\<lambda>e. e\<lparr>ep_Parent := Parent, ep_ThreadListHead := LIST_INIT\<rparr>) s)"

definition init_kprocess :: "eprocess \<Rightarrow> 'a ps_state_scheme \<Rightarrow> 'a ps_state_scheme" where
  "init_kprocess p s = KeInitDispatcherHeader (ProcessHeader p) ProcessObject 0
     (set_pcb p (\<lambda>k. k\<lparr>pcb_Quantum := DEFAULT_PROCESS_QUANTUM, pcb_BasePriority := PROCESS_PRIORITY_NORMAL,
        pcb_State := PROCESS_STATE_CREATION\<rparr>) (KeInitializeSpinLock (ProcessLock p) s))"

text \<open>The clean-up of a failed allocation, which ends by stopping the system.\<close>

definition fail_process ::
  "'a ps_state_scheme object_methods \<Rightarrow> 'a ps_state_scheme deferred_routines \<Rightarrow> nat \<Rightarrow> eprocess \<Rightarrow> eprocess option \<Rightarrow>
   ('a ps_state_scheme \<Rightarrow> fault + 'a ps_state_scheme) \<Rightarrow> 'a ps_state_scheme \<Rightarrow> fault + 'b" where
  "fail_process call run fuel p Parent release s =
     bind (case Parent of None \<Rightarrow> Inr s | Some q \<Rightarrow> PsDecProcessRundownProtect call run fuel q s) (\<lambda>s.
     bind (release s) (\<lambda>s.
     bind (ObDereferenceObject call run fuel (body p) s) (\<lambda>s. Inl (KeBugCheck ''error''))))"

text \<open>What fills the address space: the parent's pages for a clone, the program otherwise, nothing for the system process.\<close>

definition clone_space ::
  "'a ps_state_scheme object_methods \<Rightarrow> 'a ps_state_scheme deferred_routines \<Rightarrow> nat \<Rightarrow> eprocess \<Rightarrow> eprocess \<Rightarrow> PVOID \<Rightarrow>
   'a ps_state_scheme \<Rightarrow> fault + 'a ps_state_scheme" where
  "clone_space call run fuel p q PageDirectory s =
     bind (KiLockDispatcherDataBase s) (\<lambda>(Old, s).
     bind (MmCloneProcessAddressSpace (pcb_DirectoryTableBase (Pcbs s q)) PageDirectory s) (\<lambda>(Status, s).
     bind (KiUnLockDispatcherDataBase run fuel Old s) (\<lambda>s.
     if \<not> success Status
     then bind (ObFreeHandleTable call run fuel (ProcessTable p) s)
       (fail_process call run fuel p (Some q) (MmDeleteProcessAddressSpace run fuel PageDirectory))
     else Inr (set_pcb p (\<lambda>k. k\<lparr>pcb_ProcessEntryPoint := 0\<rparr>) s))))"

definition load_space ::
  "'a ps_state_scheme deferred_routines \<Rightarrow> nat \<Rightarrow> eprocess \<Rightarrow> PVOID \<Rightarrow> LONG \<Rightarrow> 'a ps_state_scheme \<Rightarrow> fault + 'a ps_state_scheme" where
  "load_space run fuel p BinData BinSize s =
     ASSERT ''PspAllocateProcess: BinData != NULL'' (BinData \<noteq> 0)
     (ASSERT ''PspAllocateProcess: BinSize != 0'' (BinSize \<noteq> 0)
     (bind (in_process run fuel p (ELFBinaryLoader p BinData) s) (\<lambda>(_, Old, s).
      MmFreePoolWithTag run fuel BinData TAG_ELIF s)))"

definition PspAllocateProcess ::
  "'a ps_state_scheme object_methods \<Rightarrow> 'a ps_state_scheme deferred_routines \<Rightarrow> nat \<Rightarrow> 'a ps_state_scheme fatfs \<Rightarrow> PVOID \<Rightarrow>
   eprocess option \<Rightarrow> address \<Rightarrow> OBJECT_ATTRIBUTES option \<Rightarrow> 'a ps_state_scheme \<Rightarrow>
   fault + (KSTATUS \<times> eprocess option \<times> 'a ps_state_scheme)" where
  "PspAllocateProcess call run fuel ff var Parent Binary ObjectAttributes s =
     bind (if Binary \<noteq> 0 then PspReadBinary ff run fuel Binary s else Inr (STATUS_SUCCESS, 0, 0, s)) (\<lambda>(Status, BinData, BinSize, s).
     if \<not> success Status then Inr (Status, None, s)
     else
     bind (ObCreateObject call run fuel (PsProcessType s) ObjectAttributes sizeof_EPROCESS var s) (\<lambda>(Status, Object, s).
     ASSERT ''PspAllocateProcess: 0'' (success Status)
     (deref Object (\<lambda>Object.
      let p = unat Object; IsClone = (Binary = 0 \<and> Parent \<noteq> None) in
      bind (ObInsertHandle Object PidTable (clear_process p s)) (\<lambda>(Status, ProcessId, s).
      ASSERT ''PspAllocateProcess: 0'' (success Status)
      (bind (ObAllocateHandleTable run fuel (ProcessTable p) (map_option ProcessTable Parent) IsClone s) (\<lambda>(Status, s).
       ASSERT ''PspAllocateProcess: Status == STATUS_SUCCESS'' (Status = STATUS_SUCCESS)
       (bind (MmCreateProcessAddressSpace run fuel (init_kprocess p (init_eprocess p Parent Binary ProcessId s))) (\<lambda>(Status, PageDirectory, s).
        if \<not> success Status
        then bind (ObFreeHandleTable call run fuel (ProcessTable p) s)
          (fail_process call run fuel p Parent (\<lambda>s. if BinData \<noteq> 0 then MmFreePoolWithTag run fuel BinData TAG_ELIF s else Inr s))
        else
        let s = set_pcb p (\<lambda>k. k\<lparr>pcb_DirectoryTableBase := PageDirectory\<rparr>) s in
        bind (if IsClone then deref Parent (\<lambda>q. clone_space call run fuel p q PageDirectory s)
          else if Binary \<noteq> 0 then load_space run fuel p BinData BinSize s else Inr s) (\<lambda>s.
        bind (if IsClone then deref Parent (\<lambda>q. MmCloneUserPtes run fuel (pcb_UserPtePool (Pcbs s q)) s)
          else MmInitializeUserPtes run fuel s) (\<lambda>(Status, pool, s).
        let s = set_pcb p (\<lambda>k. k\<lparr>pcb_UserPtePool := pool\<rparr>) s in
        if \<not> success Status
        then bind (MmDeleteProcessAddressSpace run fuel (pcb_DirectoryTableBase (Pcbs s p)) s) (\<lambda>s.
          bind (ObFreeHandleTable call run fuel (ProcessTable p) s) (fail_process call run fuel p Parent Inr))
        else Inr (STATUS_SUCCESS, Some p, s))))))))))))"

text \<open>\<open>name\<close> is the address of the literal that names the first thread; the error exits behind \<open>PspInsertProcess\<close> and \<open>PspCreateThread\<close> drop the object.\<close>

definition PsCreateProcess ::
  "'a ps_state_scheme object_methods \<Rightarrow> 'a ps_state_scheme deferred_routines \<Rightarrow> nat \<Rightarrow> 'a ps_state_scheme fatfs \<Rightarrow> KOBJECTS \<times> LONG \<Rightarrow> PVOID \<Rightarrow>
   address \<Rightarrow> OBJECT_ATTRIBUTES option \<Rightarrow> address \<Rightarrow> 'a ps_state_scheme \<Rightarrow> fault + (KSTATUS \<times> HANDLE \<times> eprocess option \<times> 'a ps_state_scheme)" where
  "PsCreateProcess call run fuel ff junk var name ObjectAttributes Binary s =
     bind (PspAllocateProcess call run fuel ff var (PsGetCurrentProcess s) Binary ObjectAttributes s) (\<lambda>(Status, NewProcess, s).
     if \<not> success Status then Inl (KeBugCheck ''Was not able to allocate a Process Object'')
     else deref NewProcess (\<lambda>p.
       let error_exit = (\<lambda>Status s. bind (ObDereferenceObject call run fuel (body p) s) (\<lambda>s. Inr (Status, 0, None, s)))
       in ASSERT ''PsCreateProcess: CleanupFlags == 0'' (ProcessGetCleanupFlags p s = 0)
       (bind (PspInsertProcess run fuel p (ProcessSetCleanupFlags p PROCESS_FLAG_ALLOCATED s)) (\<lambda>(Status, s).
        ASSERT ''PsCreateProcess: CleanupFlags == ALLOCATED'' (ProcessGetCleanupFlags p s = PROCESS_FLAG_ALLOCATED)
        (if \<not> success Status then error_exit Status s
         else
         let s = ProcessSetCleanupFlags p PROCESS_FLAG_FIRST_THREAD_CREATED (ProcessSetCleanupFlags p PROCESS_FLAG_INSERTED s) in
         bind (PspCreateThread call run fuel junk var p name (pcb_ProcessEntryPoint (Pcbs s p)) 0 s) (\<lambda>(Status, _, s).
         if \<not> success Status then error_exit Status (ProcessResetCleanupFlags p PROCESS_FLAG_FIRST_THREAD_CREATED s)
         else Inr (STATUS_SUCCESS, ep_UniqueProcessId (Eprocesses s p), Some p, s)))))))"

definition KCloneProcess ::
  "'a ps_state_scheme object_methods \<Rightarrow> 'a ps_state_scheme deferred_routines \<Rightarrow> nat \<Rightarrow> 'a ps_state_scheme fatfs \<Rightarrow> KOBJECTS \<times> LONG \<Rightarrow> PVOID \<Rightarrow>
   address \<Rightarrow> 'a ps_state_scheme \<Rightarrow> fault + (HANDLE \<times> 'a ps_state_scheme)" where
  "KCloneProcess call run fuel ff junk var name s =
     bind (PsCreateProcess call run fuel ff junk var name None 0 s) (\<lambda>(Status, ChildProcessid, _, s).
     if \<not> success Status then Inr (Status, s) else Inr (ChildProcessid, s))"

section \<open>Ending a process\<close>

text \<open>
  The loop over the threads: each is taken off the list, and \<open>PsExitThread\<close> is called with a local variable that is never set, \<open>ExitedThread\<close>.
  The outcome is the last thread to exit, or \<open>None\<close> when that call ended the current thread and control is on another stack.
\<close>

fun exit_loop ::
  "'a ps_state_scheme object_methods \<Rightarrow> 'a ps_state_scheme thread_routine \<Rightarrow> 'a ps_state_scheme deferred_routines \<Rightarrow> nat \<Rightarrow> kthread option \<Rightarrow>
   eprocess \<Rightarrow> PKTHREAD \<Rightarrow> nat \<Rightarrow> PKTHREAD \<Rightarrow> 'a ps_state_scheme \<Rightarrow> fault + (PKTHREAD option \<times> 'a ps_state_scheme)" where
  "exit_loop call exit_thread run fuel ExitedThread p Current 0 LastThread s =
     (if LIST_EMPTY (ep_ThreadListHead (Eprocesses s p)) then Inr (Some LastThread, s) else Inl Hang)"
| "exit_loop call exit_thread run fuel ExitedThread p Current (Suc n) LastThread s =
     (if LIST_EMPTY (ep_ThreadListHead (Eprocesses s p)) then Inr (Some LastThread, s)
      else bind (LIST_REMOVE_HEAD (thread_list_of p s)) (\<lambda>(NextThread, l).
        let s = set_thread_list_of p l s in
        if NextThread \<noteq> Current
        then bind (PsExitThread call exit_thread run fuel ExitedThread s) (\<lambda>s'.
          if ExitedThread = None \<or> ExitedThread = Current then Inr (None, s')
          else exit_loop call exit_thread run fuel ExitedThread p Current n LastThread s')
        else exit_loop call exit_thread run fuel ExitedThread p Current n Current s))"

text \<open>The steps from the mark to the release of the reference, without the last thread's exit.\<close>

definition PspExitProcess ::
  "'a ps_state_scheme object_methods \<Rightarrow> 'a ps_state_scheme thread_routine \<Rightarrow> 'a ps_state_scheme deferred_routines \<Rightarrow> nat \<Rightarrow> kthread option \<Rightarrow>
   eprocess \<Rightarrow> 'a ps_state_scheme \<Rightarrow> fault + 'a ps_state_scheme" where
  "PspExitProcess call exit_thread run fuel ExitedThread p s =
     (let Current = KeGetCurrentThread s in
      ASSERT ''PspExitProcess: ObIsValidObject(Process)'' (ObIsValidObject (body p) s)
      (ASSERT ''PspExitProcess: not PROCESS_STATE_TERMINATED'' (pcb_State (Pcbs s p) \<noteq> PROCESS_STATE_TERMINATED)
      (ASSERT ''PspExitProcess: FIRST_THREAD_CREATED'' (ProcessGetCleanupFlags p s AND PROCESS_FLAG_FIRST_THREAD_CREATED \<noteq> 0)
      (ASSERT ''PspExitProcess: INSERTED'' (ProcessGetCleanupFlags p s AND PROCESS_FLAG_INSERTED \<noteq> 0)
      (ASSERT ''PspExitProcess: ALLOCATED'' (ProcessGetCleanupFlags p s AND PROCESS_FLAG_ALLOCATED \<noteq> 0)
      (bind (KeReleaseNotificationDHeader run fuel (ProcessHeader p) (set_pcb p (\<lambda>k. k\<lparr>pcb_State := PROCESS_STATE_TERMINATED\<rparr>) s)) (\<lambda>s.
       bind (ObReferenceObject (body p) s) (\<lambda>s.
       bind (if ProcessGetCleanupFlags p s AND PROCESS_FLAG_FIRST_THREAD_CREATED \<noteq> 0
         then bind (KeAcquireSpinLock (ProcessLock p) s) (\<lambda>(Old, s).
           bind (exit_loop call exit_thread run fuel ExitedThread p Current (unat (NumberOfElements (ep_ThreadListHead (Eprocesses s p)))) None s)
             (\<lambda>(Last, s). case Last of
               None \<Rightarrow> Inr (None, s)
             | Some LastThread \<Rightarrow> bind (KeReleaseSpinLock run fuel (ProcessLock p) Old s) (\<lambda>s.
                 Inr (Last, ProcessResetCleanupFlags p PROCESS_FLAG_FIRST_THREAD_CREATED s))))
         else Inr (Some None, s)) (\<lambda>(Last, s).
       case Last of
         None \<Rightarrow> Inr s
       | Some LastThread \<Rightarrow>
           bind (if ProcessGetCleanupFlags p s AND PROCESS_FLAG_INSERTED \<noteq> 0
             then bind (PspRemoveProcess run fuel p s) (\<lambda>(Status, s).
               ASSERT ''PspExitProcess: K_SUCCESS(Status)'' (success Status) (Inr (ProcessResetCleanupFlags p PROCESS_FLAG_INSERTED s)))
             else Inr s) (\<lambda>s.
           bind (ObDereferenceObject call run fuel (body p) s) (\<lambda>s.
           if LastThread = None then Inr s
           else ASSERT ''PspExitProcess: LastThread == CurrentThread'' (LastThread = Current)
             (PsExitThread call exit_thread run fuel LastThread s))))))))))))"

text \<open>\<open>PspExitProcess\<close> has no return statement; \<open>Status\<close> is what its caller finds in the place of the result.\<close>

definition KExitProcess ::
  "'a ps_state_scheme object_methods \<Rightarrow> 'a ps_state_scheme thread_routine \<Rightarrow> 'a ps_state_scheme deferred_routines \<Rightarrow> nat \<Rightarrow> kthread option \<Rightarrow>
   KSTATUS \<Rightarrow> HANDLE \<Rightarrow> 'a ps_state_scheme \<Rightarrow> fault + (KSTATUS \<times> 'a ps_state_scheme)" where
  "KExitProcess call exit_thread run fuel ExitedThread Status ProcessId s =
     (let exit_process = (\<lambda>p. bind (PspExitProcess call exit_thread run fuel ExitedThread p s) (\<lambda>s. Inr (Status, s))) in
      deref (PsGetCurrentProcess s) (\<lambda>c.
      if ProcessId = 0 then exit_process c
      else if ep_UniqueProcessId (Eprocesses s c) = ProcessId then exit_process c
      else bind (PsGetProcessFromPID ProcessId s) (\<lambda>Target.
        deref Target (\<lambda>t. ASSERT ''KExitProcess: 0'' (ep_Parent (Eprocesses s t) = Some c) (exit_process t)))))"

definition KGetCurrentProcessId :: "'a ps_state_scheme \<Rightarrow> fault + HANDLE" where
  "KGetCurrentProcessId s = PsGetCurrentProcessId s"

section \<open>System calls\<close>

text \<open>
  The arguments are the words at the user address \<open>Args\<close>, read through the page tables; \<open>Mutex\<close> is the static mutant and \<open>undefined_result\<close> what the caller finds when no case applies.
  The flag that would say the mutant is initialised is never set.
\<close>

abbreviation (input) SYS_GETPID :: ULONG where "SYS_GETPID \<equiv> 0"
abbreviation (input) SYS_EXIT :: ULONG where "SYS_EXIT \<equiv> 1"
abbreviation (input) SYS_FORK :: ULONG where "SYS_FORK \<equiv> 2"
abbreviation (input) SYS_TESTING :: ULONG where "SYS_TESTING \<equiv> 21"

definition ExpSysCallEntry ::
  "'a ps_state_scheme object_methods \<Rightarrow> 'a ps_state_scheme thread_routine \<Rightarrow> 'a ps_state_scheme deferred_routines \<Rightarrow> nat \<Rightarrow> 'a ps_state_scheme fatfs \<Rightarrow>
   KOBJECTS \<times> LONG \<Rightarrow> PVOID \<Rightarrow> address \<Rightarrow> kthread option \<Rightarrow> dispatcher \<Rightarrow> ULONG \<Rightarrow> PVOID \<Rightarrow> 'a ps_state_scheme \<Rightarrow>
   fault + (ULONG \<times> 'a ps_state_scheme)" where
  "ExpSysCallEntry call exit_thread run fuel ff junk var name ExitedThread Mutex undefined_result Args s =
     bind (vread Args s) (\<lambda>SyscallIndex.
     if SyscallIndex = SYS_EXIT
     then bind (vread (Args + 4) s) (\<lambda>_. KExitProcess call exit_thread run fuel ExitedThread undefined_result 0 s)
     else if SyscallIndex = SYS_FORK then KCloneProcess call run fuel ff junk var name s
     else if SyscallIndex = SYS_GETPID then bind (KGetCurrentProcessId s) (\<lambda>pid. Inr (pid, s))
     else if SyscallIndex = SYS_TESTING
     then bind (foldE (\<lambda>i s. bind (vread (Args + 4 * i) s) (\<lambda>_. Inr s)) [1, 2, 3] s) (\<lambda>s.
       bind (KeWaitForSingleObject exit_thread run fuel Mutex (KeInitializeMutant Mutex False s)) (\<lambda>s. Inr (1, s)))
     else Inr (undefined_result, s))"

section \<open>Start-up\<close>

definition PsInitPhase0 ::
  "'a ps_state_scheme deferred_routines \<Rightarrow> nat \<Rightarrow> 'a ps_state_scheme \<Rightarrow> fault + 'a ps_state_scheme" where
  "PsInitPhase0 run fuel s =
     bind (ObAllocateHandleTable run fuel PidTable None False (s\<lparr>PsActiveProcessHead := LIST_INIT\<rparr>)) (\<lambda>(Status, s).
     if \<not> success Status then Inl (KeBugCheck ''Unable to Allocate Process ID Table'')
     else bind (ObCreateObjectType \<lparr>ot_PoolType = NonPagedPool, ot_FLAGS = 0, ot_ObjectSize = sizeof_EPROCESS,
         ot_TypeIndex = OBJECT_TYPE_PROCESS, ot_PoolTag = 0, ot_Object_List_Head = LIST_INIT, ot_OpenProcedure = None,
         ot_CloseProcedure = Some PspCloseProcess_routine\<rparr> (PsProcessType s) s) (\<lambda>(ty, s).
       PsThreadInit (s\<lparr>PsProcessType := Some ty\<rparr>)))"

text \<open>The first thread is not an object: its memory comes from the pool.\<close>

definition SyspCreateFirstSystemThread ::
  "'a ps_state_scheme deferred_routines \<Rightarrow> nat \<Rightarrow> eprocess \<Rightarrow> 'a ps_state_scheme \<Rightarrow> fault + (kthread \<times> 'a ps_state_scheme)" where
  "SyspCreateFirstSystemThread run fuel p s =
     bind (MmAllocatePoolWithTag run fuel NonPagedPool sizeof_ETHREAD TAG_ETHR s) (\<lambda>(NewThread, s).
     if NewThread = 0 then Inl (KeBugCheck ''First Thread Mem Allocation Failed'')
     else
     let t = unat NewThread in
     bind (MmAllocateSystemPtes run fuel THREAD_STACK_SIZE (clear_thread t (s\<lparr>Bytes := memset (Bytes s) NewThread 0 sizeof_ETHREAD\<rparr>))) (\<lambda>(stack, s).
     if stack = 0 then Inl (KeBugCheck ''Stack Allocation failed'')
     else
     let s = set_tcb t (\<lambda>k. k\<lparr>tcb_State := THREAD_STATE_INITIALIZED, tcb_Priority := pcb_BasePriority (Pcbs s p), tcb_ThreadProcess := Some p,
           tcb_KernelStack := stack, tcb_PreviousMode := KernelMode\<rparr>) s
     in Inr (t, set_thread t (\<lambda>e. e\<lparr>et_ThreadsProcess := Some p, et_Cid := 0\<rparr>) s)))"

text \<open>
  Up to the context switch, after which the first thread runs at its start routine, \<open>PsSystemProcessStart\<close> at the address \<open>start\<close>, with itself as the
  argument. \<open>name\<close> is the address of the literal with the name of the thread.
\<close>

definition PsCreateSystemProcess ::
  "'a ps_state_scheme object_methods \<Rightarrow> 'a ps_state_scheme thread_routine \<Rightarrow> 'a ps_state_scheme deferred_routines \<Rightarrow> nat \<Rightarrow> 'a ps_state_scheme fatfs \<Rightarrow>
   PVOID \<Rightarrow> address \<Rightarrow> PVOID \<Rightarrow> 'a ps_state_scheme \<Rightarrow> fault + 'a ps_state_scheme" where
  "PsCreateSystemProcess call exit_thread run fuel ff var name start s =
     bind (PspAllocateProcess call run fuel ff var None 0
       (Some \<lparr>oa_RootDirectory = 0, oa_ObjectName = None, oa_Attributes = OBJ_PERMANENT OR OBJ_KERNEL_HANDLE\<rparr>) s) (\<lambda>(Status, NewProcess, s).
     if \<not> success Status then Inl (KeBugCheck ''Creation of system process failed'')
     else deref NewProcess (\<lambda>p.
       bind (PspInsertProcess run fuel p (s\<lparr>PsInitialSystemProcess := Some p\<rparr>)) (\<lambda>(Status, s).
       if \<not> success Status then Inl (KeBugCheck ''Insertion of system process failed'')
       else
       bind (SyspCreateFirstSystemThread run fuel p s) (\<lambda>(t, s).
       bind (LIST_INSERT_TAIL t (thread_list_of p (thread_name t name s))) (\<lambda>l.
       bind (KiCreateThreadContext t None start (body t) (set_thread_list_of p l (thread_name t name s))) (\<lambda>(Status, s).
       bind (KiLockDispatcherDataBase s) (\<lambda>(Old, s).
       bind (KiAttachProcess (Some p) s) (\<lambda>s.
       bind (KiSetCurrentThread (Some t) s) (\<lambda>s.
       resume_current exit_thread run fuel s)))))))))"

text \<open>
  \<open>KeGetNumberOfProcessors\<close> is 1 on the only kind of system that compiles. \<open>idle\<close> is the address of \<open>PspIdleThread\<close>, an endless loop, \<open>KosInit\<close> the
  rest of the start-up; the thread then loops for ever.
\<close>

definition PsSystemProcessStart ::
  "'a ps_state_scheme object_methods \<Rightarrow> 'a ps_state_scheme deferred_routines \<Rightarrow> nat \<Rightarrow> KOBJECTS \<times> LONG \<Rightarrow> PVOID \<Rightarrow> address \<Rightarrow> PVOID \<Rightarrow>
   ('a ps_state_scheme \<Rightarrow> fault + 'a ps_state_scheme) \<Rightarrow> PVOID \<Rightarrow> 'a ps_state_scheme \<Rightarrow> fault + 'a ps_state_scheme" where
  "PsSystemProcessStart call run fuel junk var name idle KosInit StartContext s =
     (let (IntsEnabled, s) = HalDisableInterrupts s in
      bind (KiSetCurrentThread (if StartContext = 0 then None else Some (unat StartContext)) s) (\<lambda>s.
      ASSERT ''PsSystemProcessStart: CurrentThread'' (KeGetCurrentThread s \<noteq> None)
      (deref (KeGetCurrentThread s) (\<lambda>c.
       let s = set_tcb c (\<lambda>k. k\<lparr>tcb_State := THREAD_STATE_RUNNING\<rparr>) s in
       ASSERT ''PsSystemProcessStart: PsInitialSystemProcess'' (PsInitialSystemProcess s \<noteq> None)
       (deref (PsInitialSystemProcess s) (\<lambda>p.
        bind (PspCreateThread call run fuel junk var p name idle 0 s) (\<lambda>(_, Thread, s).
        deref Thread (\<lambda>t.
        bind (KiSetIdleThread (Some t) 0 (PsSetTheadPriority t PROCESS_PRIORITY_IDLE s)) (\<lambda>s.
        KosInit (if IntsEnabled then snd (HalEnableInterrupts s) else s))))))))))"

end
