(* ===== verification/Intr.thy ===== *)
theory Intr
  imports Process
begin

text \<open>
  Interrupts, exceptions and system calls: the descriptor table and the interrupt objects of \<open>ke/interrupt.c\<close> and their dispatch, the handlers of
  \<open>ke/exception.c\<close>, the timer of \<open>ke/timer.c\<close> and the phases of \<open>ke/ke.c\<close>. The entry stubs of \<open>int.S\<close> are the table
  \<open>TrapFunctionList\<close>; a handler is known by its number, and \<open>others\<close> says what the handlers of the drivers do. Writes to
  the ports of the controllers are a list.
\<close>

abbreviation (input) INTR_CNT :: nat where "INTR_CNT \<equiv> 256"
abbreviation (input) IRQ_END :: ULONG where "IRQ_END \<equiv> 0x3F"
abbreviation (input) SYSCALL_INTR :: ULONG where "SYSCALL_INTR \<equiv> 0x40"
abbreviation (input) IrqTimer :: ULONG where "IrqTimer \<equiv> 0x20"
abbreviation (input) STS_IG32 :: "4 word" where "STS_IG32 \<equiv> 0xE"
abbreviation (input) STS_TG32 :: "4 word" where "STS_TG32 \<equiv> 0xF"

definition IsDeviceInterrupt :: "ULONG \<Rightarrow> bool" where
  "IsDeviceInterrupt v \<longleftrightarrow> IRQ_START \<le> v \<and> v \<le> IRQ_END"

definition IsSystemException :: "ULONG \<Rightarrow> bool" where
  "IsSystemException v \<longleftrightarrow> v \<le> 0x1F"

definition IsSystemCallIntr :: "ULONG \<Rightarrow> bool" where
  "IsSystemCallIntr v \<longleftrightarrow> v = SYSCALL_INTR"

section \<open>State\<close>

record IDTENTRY =
  gd_off_15_0 :: "16 word"
  gd_ss :: "16 word"
  gd_args :: "5 word"
  gd_rsv1 :: "3 word"
  gd_type :: "4 word"
  gd_s :: "1 word"
  gd_dpl :: "2 word"
  gd_p :: "1 word"
  gd_off_31_16 :: "16 word"

record KINTERRUPT =
  KISRRoutine :: "nat option"
  ki_Irql :: KIRQL
  InterruptName :: string
  ki_Vector :: ULONG

record intr_state = ps_state +
  IDT :: "nat \<Rightarrow> IDTENTRY"
  PcrIDT :: bool
  KiInterruptObjects :: "nat \<Rightarrow> KINTERRUPT"
  Cr2 :: PVOID
  PortWrites :: "(USHORT \<times> UCHAR) list"

definition outb :: "USHORT \<Rightarrow> UCHAR \<Rightarrow> 'a intr_state_scheme \<Rightarrow> 'a intr_state_scheme" where
  "outb port b s = s\<lparr>PortWrites := PortWrites s @ [(port, b)]\<rparr>"

definition SETGATE :: "bool \<Rightarrow> USHORT \<Rightarrow> ULONG \<Rightarrow> ULONG \<Rightarrow> IDTENTRY" where
  "SETGATE istrap sel off dpl = \<lparr>gd_off_15_0 = ucast (off AND 0xFFFF), gd_ss = sel, gd_args = 0, gd_rsv1 = 0,
     gd_type = (if istrap then STS_TG32 else STS_IG32), gd_s = 0, gd_dpl = ucast dpl, gd_p = 1, gd_off_31_16 = ucast (drop_bit 16 off)\<rparr>"

definition set_gate :: "ULONG \<Rightarrow> IDTENTRY \<Rightarrow> 'a intr_state_scheme \<Rightarrow> 'a intr_state_scheme" where
  "set_gate v g s = s\<lparr>IDT := (IDT s)(unat v := g)\<rparr>"

definition interrupt_object :: "ULONG \<Rightarrow> 'a intr_state_scheme \<Rightarrow> KINTERRUPT" where
  "interrupt_object v s = KiInterruptObjects s (unat v)"

definition set_interrupt :: "ULONG \<Rightarrow> (KINTERRUPT \<Rightarrow> KINTERRUPT) \<Rightarrow> 'a intr_state_scheme \<Rightarrow> 'a intr_state_scheme" where
  "set_interrupt v f s = s\<lparr>KiInterruptObjects := (KiInterruptObjects s)(unat v := f (interrupt_object v s))\<rparr>"

section \<open>Registration\<close>

definition KiGetIrqlForVector :: "ULONG \<Rightarrow> KIRQL" where
  "KiGetIrqlForVector v = CLOCK1_LEVEL - (v - IRQ_START)"

definition KiRegisterVectortoIrql :: "KIRQL \<Rightarrow> ULONG \<Rightarrow> 'a intr_state_scheme \<Rightarrow> fault + 'a intr_state_scheme" where
  "KiRegisterVectortoIrql Irql Vector s = HalRegisterVectortoIrql Irql Vector s"

definition KiCreateInterruptObject ::
  "(nat \<Rightarrow> PVOID) \<Rightarrow> ULONG \<Rightarrow> ULONG \<Rightarrow> nat option \<Rightarrow> string \<Rightarrow> 'a intr_state_scheme \<Rightarrow> fault + 'a intr_state_scheme" where
  "KiCreateInterruptObject TrapFunctionList Vector DPL Routine Name s =
     ASSERT ''KiCreateInterruptObject: Vector'' (IsDeviceInterrupt Vector \<or> IsSystemCallIntr Vector)
     (ASSERT ''KiCreateInterruptObject: KISRRoutine == NULL'' (KISRRoutine (interrupt_object Vector s) = None)
     (let s = set_gate Vector (SETGATE False GD_KT (TrapFunctionList (unat Vector)) DPL) s;
          Irql = (if IsDeviceInterrupt Vector then KiGetIrqlForVector Vector else PASSIVE_LEVEL);
          s = set_interrupt Vector (\<lambda>i. i\<lparr>KISRRoutine := Routine, ki_Irql := Irql, InterruptName := Name, ki_Vector := Vector\<rparr>) s
      in bind (if Irql \<noteq> PASSIVE_LEVEL then KiRegisterVectortoIrql Irql Vector s else Inr s) (\<lambda>s.
      Inr (KeInitializeSpinLock (ISR_Spinlock (unat Vector)) s))))"

definition KiRegisterException ::
  "(nat \<Rightarrow> PVOID) \<Rightarrow> ULONG \<Rightarrow> ULONG \<Rightarrow> bool \<Rightarrow> nat option \<Rightarrow> string \<Rightarrow> 'a intr_state_scheme \<Rightarrow> fault + 'a intr_state_scheme" where
  "KiRegisterException TrapFunctionList Vector DPL InterruptsOn Routine Name s =
     ASSERT ''KiRegisterException: IsSystemException(Vector)'' (IsSystemException Vector)
     (ASSERT ''KiRegisterException: KISRRoutine == NULL'' (KISRRoutine (interrupt_object Vector s) = None)
     (Inr (set_interrupt Vector (\<lambda>i. i\<lparr>KISRRoutine := Routine, InterruptName := Name, ki_Vector := Vector\<rparr>)
        (set_gate Vector (SETGATE InterruptsOn GD_KT (TrapFunctionList (unat Vector)) DPL) s))))"

definition KiInitSyscallInterface :: "(nat \<Rightarrow> PVOID) \<Rightarrow> 'a intr_state_scheme \<Rightarrow> fault + 'a intr_state_scheme" where
  "KiInitSyscallInterface TrapFunctionList s = KiCreateInterruptObject TrapFunctionList SYSCALL_INTR 3 None ''SysCall'' s"

text \<open>The numbers of the handlers in this directory.\<close>

abbreviation (input) KiExceptionHandler_routine :: nat where "KiExceptionHandler_routine \<equiv> 1"
abbreviation (input) KiExceptionPFHandler_routine :: nat where "KiExceptionPFHandler_routine \<equiv> 2"
abbreviation (input) TimerISRoutine_routine :: nat where "TimerISRoutine_routine \<equiv> 3"

definition exceptions :: "(ULONG \<times> ULONG \<times> bool \<times> nat \<times> string) list" where
  "exceptions = [(0, 0, True, KiExceptionHandler_routine, ''Divide Error''), (1, 0, True, KiExceptionHandler_routine, ''Reserved''),
     (2, 0, True, KiExceptionHandler_routine, ''NMI''), (3, 3, True, KiExceptionHandler_routine, ''BreakPoint''),
     (4, 3, True, KiExceptionHandler_routine, ''OverFlow''), (5, 3, True, KiExceptionHandler_routine, ''Bound RangeExceeded''),
     (6, 0, True, KiExceptionHandler_routine, ''Invalid Opcode''), (7, 0, True, KiExceptionHandler_routine, ''Device Not Available''),
     (8, 0, True, KiExceptionHandler_routine, ''Double Fault''), (9, 0, True, KiExceptionHandler_routine, ''Coprocessor''),
     (10, 0, True, KiExceptionHandler_routine, ''Invalid TSS''), (11, 0, True, KiExceptionHandler_routine, ''Segment Not Present''),
     (12, 0, True, KiExceptionHandler_routine, ''Stack Segment Fault''), (13, 0, True, KiExceptionHandler_routine, ''General Protection Fault''),
     (14, 0, False, KiExceptionPFHandler_routine, ''Page Fault''), (15, 0, True, KiExceptionHandler_routine, ''Reserved''),
     (16, 0, True, KiExceptionHandler_routine, ''x87 FPU floating-point''), (17, 0, True, KiExceptionHandler_routine, ''Alignment check''),
     (18, 0, True, KiExceptionHandler_routine, ''Machine check''), (19, 0, True, KiExceptionHandler_routine, ''SIMD floating-point exception'')]"

definition KeInitializeExceptions :: "(nat \<Rightarrow> PVOID) \<Rightarrow> 'a intr_state_scheme \<Rightarrow> fault + 'a intr_state_scheme" where
  "KeInitializeExceptions TrapFunctionList s =
     foldE (\<lambda>(v, dpl, on, r, name). KiRegisterException TrapFunctionList v dpl on (Some r) name) exceptions s"

definition init_vector :: "(nat \<Rightarrow> PVOID) \<Rightarrow> nat \<Rightarrow> 'a intr_state_scheme \<Rightarrow> 'a intr_state_scheme" where
  "init_vector TrapFunctionList c s =
     KeInitializeSpinLock (ISR_Spinlock c) (set_interrupt (of_nat c)
       (\<lambda>i. i\<lparr>KISRRoutine := None, InterruptName := ''UNKNOWN'', ki_Vector := of_nat c\<rparr>)
       (set_gate (of_nat c) (SETGATE False GD_KT (TrapFunctionList c) 0) s))"

definition KiCreateCurrentIDT :: "'a intr_state_scheme \<Rightarrow> fault + 'a intr_state_scheme" where
  "KiCreateCurrentIDT s = ASSERT ''KiCreateCurrentIDT: Pcr->IDT == NULL'' (\<not> PcrIDT s) (Inr (s\<lparr>PcrIDT := True\<rparr>))"

definition KiTrapInitialize :: "(nat \<Rightarrow> PVOID) \<Rightarrow> 'a intr_state_scheme \<Rightarrow> fault + 'a intr_state_scheme" where
  "KiTrapInitialize TrapFunctionList s =
     bind (KiCreateCurrentIDT (fold (init_vector TrapFunctionList) [0..<INTR_CNT] s)) (\<lambda>s.
     bind (KeInitializeExceptions TrapFunctionList s) (KiInitSyscallInterface TrapFunctionList))"

section \<open>Handlers\<close>

definition KiExceptionHandler :: "PVOID \<Rightarrow> 'a intr_state_scheme \<Rightarrow> fault + 'a intr_state_scheme" where
  "KiExceptionHandler TrapFrame s = Inl (KeBugCheck ''EXCEPTION'')"

definition KiExceptionPFHandler :: "PVOID \<Rightarrow> 'a intr_state_scheme \<Rightarrow> fault + 'a intr_state_scheme" where
  "KiExceptionPFHandler TrapFrame s = MmPfHandler (Cr2 s) (snd (HalEnableInterrupts s))"

type_synonym 's handlers = "nat \<Rightarrow> PVOID \<Rightarrow> 's \<Rightarrow> fault + 's"

definition ki_handlers ::
  "'a intr_state_scheme handlers \<Rightarrow> 'a intr_state_scheme deferred_routines \<Rightarrow> nat \<Rightarrow> 'a intr_state_scheme handlers" where
  "ki_handlers others run fuel r TrapFrame s =
     (if r = KiExceptionHandler_routine then KiExceptionHandler TrapFrame s
      else if r = KiExceptionPFHandler_routine then KiExceptionPFHandler TrapFrame s
      else if r = TimerISRoutine_routine then TimerISRoutine run fuel s
      else others r TrapFrame s)"

section \<open>Dispatch\<close>

definition KiAcknowledgeInterrupt :: "ULONG \<Rightarrow> 'a intr_state_scheme \<Rightarrow> fault + 'a intr_state_scheme" where
  "KiAcknowledgeInterrupt Irq s =
     ASSERT ''KiAcknowledgeInterrupt: Irq'' (IRQ_START \<le> Irq \<and> Irq \<le> IRQ_END)
     (let s = outb 0x20 0x20 s in Inr (if Irq \<ge> 0x28 then outb 0xA0 0x20 s else s))"

definition KiInterruptDispatch ::
  "'a intr_state_scheme handlers \<Rightarrow> 'a intr_state_scheme deferred_routines \<Rightarrow> nat \<Rightarrow> PVOID \<Rightarrow> 'a intr_state_scheme \<Rightarrow>
   fault + 'a intr_state_scheme" where
  "KiInterruptDispatch handlers run fuel TrapFrame s =
     ASSERT ''KiInterruptDispatch: IntStatus == FALSE'' (\<not> HalAreInterruptsEnabled s)
     (let Vector = TrapFrame_trapno (TrapFrames s TrapFrame) in
      bind (KeRaiseIrql (ki_Irql (interrupt_object Vector s)) s) (\<lambda>(Old, s).
      bind (KeAcquireSpinLockAtDpcLevel (ISR_Spinlock (unat Vector)) s) (\<lambda>s.
      let s = snd (HalEnableInterrupts s) in
      bind (deref (KISRRoutine (interrupt_object Vector s)) (\<lambda>r. handlers r TrapFrame s)) (\<lambda>s.
      bind (KiAcknowledgeInterrupt Vector s) (\<lambda>s.
      bind (KeReleaseSpinLockFromDpcLevel (ISR_Spinlock (unat Vector)) s) (\<lambda>s.
      bind (KeLowerIrql run fuel Old s) (\<lambda>s.
      ASSERT ''KiInterruptDispatch: IntStatus == TRUE'' (HalAreInterruptsEnabled s) (Inr s))))))))"

definition KiExceptionDispatch :: "'a intr_state_scheme handlers \<Rightarrow> PVOID \<Rightarrow> 'a intr_state_scheme \<Rightarrow> fault + 'a intr_state_scheme" where
  "KiExceptionDispatch handlers TrapFrame s =
     deref (KISRRoutine (interrupt_object (TrapFrame_trapno (TrapFrames s TrapFrame)) s)) (\<lambda>r. handlers r TrapFrame s)"

text \<open>\<open>syscall\<close> is \<open>ExpSysCallEntry\<close> with its parameters; the arguments are found through the user stack pointer.\<close>

definition KiSystemCallDispatch ::
  "(PVOID \<Rightarrow> 'a intr_state_scheme \<Rightarrow> fault + (ULONG \<times> 'a intr_state_scheme)) \<Rightarrow> PVOID \<Rightarrow> 'a intr_state_scheme \<Rightarrow>
   fault + 'a intr_state_scheme" where
  "KiSystemCallDispatch syscall TrapFrame s =
     ASSERT ''KiSystemCallDispatch: interrupts'' (\<not> HalAreInterruptsEnabled s)
     (let s = snd (HalEnableInterrupts s) in
      ASSERT ''KiSystemCallDispatch: IsSystemCallIntr(Vector)'' (IsSystemCallIntr (TrapFrame_trapno (TrapFrames s TrapFrame)))
      (bind (syscall (TrapFrame_esp (TrapFrames s TrapFrame)) s) (\<lambda>(RetStatus, s).
       let f = TrapFrames s TrapFrame
       in Inr (set_frame TrapFrame (f\<lparr>TrapFrame_regs := TrapFrame_regs f\<lparr>Reg_eax := RetStatus\<rparr>\<rparr>) s))))"

definition KiTrap ::
  "'a intr_state_scheme handlers \<Rightarrow> (PVOID \<Rightarrow> 'a intr_state_scheme \<Rightarrow> fault + (ULONG \<times> 'a intr_state_scheme)) \<Rightarrow>
   'a intr_state_scheme deferred_routines \<Rightarrow> nat \<Rightarrow> PVOID \<Rightarrow> 'a intr_state_scheme \<Rightarrow> fault + 'a intr_state_scheme" where
  "KiTrap handlers syscall run fuel TrapFrame s =
     (let trapno = TrapFrame_trapno (TrapFrames s TrapFrame) in
      if IsDeviceInterrupt trapno then KiInterruptDispatch handlers run fuel TrapFrame s
      else if IsSystemException trapno then KiExceptionDispatch handlers TrapFrame s
      else if IsSystemCallIntr trapno then KiSystemCallDispatch syscall TrapFrame s
      else Inl (KeBugCheck ''Unknown Exception''))"

section \<open>The timer\<close>

text \<open>The operands of the division that rounds are the other way round than its comment says.\<close>

definition TimerCount :: USHORT where
  "TimerCount = ucast ((100 + 1193182 div 2) div 1193182 :: ULONG)"

definition KiTimerInit :: "(nat \<Rightarrow> PVOID) \<Rightarrow> 'a intr_state_scheme \<Rightarrow> fault + 'a intr_state_scheme" where
  "KiTimerInit TrapFunctionList s =
     KiCreateInterruptObject TrapFunctionList IrqTimer 0 (Some TimerISRoutine_routine) ''Timer''
       (outb 0x40 (ucast (drop_bit 8 TimerCount)) (outb 0x40 (ucast (TimerCount AND 0xFF)) (outb 0x43 0x34 s)))"

text \<open>A loop of calls of \<open>Schedule\<close>; \<open>interrupts\<close> is what happens in between, the timer ticks among it.\<close>

fun delay_loop ::
  "('a sched_state_scheme \<Rightarrow> bool) \<Rightarrow> ('a sched_state_scheme \<Rightarrow> fault + 'a sched_state_scheme) \<Rightarrow> nat \<Rightarrow> 'a sched_state_scheme \<Rightarrow>
   fault + 'a sched_state_scheme" where
  "delay_loop wait_more round 0 s = (if wait_more s then Inl Hang else Inr s)"
| "delay_loop wait_more round (Suc n) s = (if wait_more s then bind (round s) (delay_loop wait_more round n) else Inr s)"

text \<open>\<open>LARGE_INTEGER\<close> is unsigned, so the comparison with zero, which means to recognise an interval from now on, is never true, and every delay ends at a count of
  ticks since the start: the two's complement of the interval.\<close>

type_synonym LARGE_INTEGER = ULONG64

definition KeDelayExecutionThread ::
  "('a sched_state_scheme \<Rightarrow> fault + 'a sched_state_scheme) \<Rightarrow> 'a sched_state_scheme thread_routine \<Rightarrow> 'a sched_state_scheme deferred_routines \<Rightarrow>
   nat \<Rightarrow> nat \<Rightarrow> LARGE_INTEGER \<Rightarrow> 'a sched_state_scheme \<Rightarrow> fault + 'a sched_state_scheme" where
  "KeDelayExecutionThread interrupts exit_thread run fuel rounds Interval s =
     (let StartTicks = KiGetCurrentTimerTicks s; (IntsEnabled, s) = HalEnableInterrupts s;
          LocalInterval = ucast (- 1 * Interval) :: ULONG;
          round = (\<lambda>s. bind (Schedule exit_thread run fuel s) interrupts)
      in ASSERT ''KeDelayExecutionThread: HalEnableInterrupts()'' IntsEnabled
      (if Interval < 0
       then delay_loop (\<lambda>s. KiGetCurrentTimerTicks s - StartTicks < ucast LocalInterval) round rounds s
       else delay_loop (\<lambda>s. KiGetCurrentTimerTicks s < ucast LocalInterval) round rounds s))"

lemma delay_loop_ends: "delay_loop wait_more round n s = Inr s' \<Longrightarrow> \<not> wait_more s'"
  by (induction n arbitrary: s) (auto simp: bind_eq_Inr split: if_splits)

lemma delay_until:
  assumes "KeDelayExecutionThread interrupts exit_thread run fuel rounds Interval s = Inr s'"
  shows "ucast (ucast (- Interval) :: ULONG) \<le> KiGetCurrentTimerTicks s'"
  using assms delay_loop_ends by (fastforce simp: KeDelayExecutionThread_def ASSERT_def split_def Let_def split: if_splits)

section \<open>Phases\<close>

definition KeInitPhase0 :: "(nat \<Rightarrow> PVOID) \<Rightarrow> 'a intr_state_scheme \<Rightarrow> fault + 'a intr_state_scheme" where
  "KeInitPhase0 TrapFunctionList s =
     bind (KiTrapInitialize TrapFunctionList ((KiInitProcessorPhase0 s)\<lparr>PcrIDT := False\<rparr>)) KiSchedInitPhase"

definition KeInitPhase1 :: "(nat \<Rightarrow> PVOID) \<Rightarrow> 'a intr_state_scheme \<Rightarrow> fault + 'a intr_state_scheme" where
  "KeInitPhase1 TrapFunctionList s = KiTimerInit TrapFunctionList s"

section \<open>The descriptor table\<close>

lemma KeInitializeSpinLock_intr [simp]: "KeInitializeSpinLock l s = s"
  by (simp add: KeInitializeSpinLock_def)

lemma set_gate_sel [simp]:
  "IDT (set_gate v g s) = (IDT s)(unat v := g)" "KiInterruptObjects (set_gate v g s) = KiInterruptObjects s"
  "interrupt_object w (set_gate v g s) = interrupt_object w s" "PcrIDT (set_gate v g s) = PcrIDT s"
  by (simp_all add: set_gate_def interrupt_object_def)

lemma set_interrupt_sel [simp]:
  "IDT (set_interrupt v f s) = IDT s" "KiInterruptObjects (set_interrupt v f s) = (KiInterruptObjects s)(unat v := f (interrupt_object v s))"
  "PcrIDT (set_interrupt v f s) = PcrIDT s"
  by (simp_all add: set_interrupt_def)

lemma init_vectors:
  assumes "n \<le> INTR_CNT"
  shows "IDT (fold (init_vector T) [0..<n] s) v = (if v < n then SETGATE False GD_KT (T v) 0 else IDT s v)"
    and "v < n \<Longrightarrow> KISRRoutine (KiInterruptObjects (fold (init_vector T) [0..<n] s) v) = None"
    and "PcrIDT (fold (init_vector T) [0..<n] s) = PcrIDT s"
proof -
  have "IDT (fold (init_vector T) [0..<n] s) v = (if v < n then SETGATE False GD_KT (T v) 0 else IDT s v) \<and>
      (v < n \<longrightarrow> KISRRoutine (KiInterruptObjects (fold (init_vector T) [0..<n] s) v) = None) \<and>
      PcrIDT (fold (init_vector T) [0..<n] s) = PcrIDT s"
    using assms
  proof (induction n)
    case (Suc n)
    have "unat (of_nat n :: ULONG) = n" using Suc.prems by (intro unat_of_nat32) simp
    with Suc show ?case by (auto simp: init_vector_def less_Suc_eq)
  qed simp
  then show "IDT (fold (init_vector T) [0..<n] s) v = (if v < n then SETGATE False GD_KT (T v) 0 else IDT s v)"
    "v < n \<Longrightarrow> KISRRoutine (KiInterruptObjects (fold (init_vector T) [0..<n] s) v) = None"
    "PcrIDT (fold (init_vector T) [0..<n] s) = PcrIDT s" by blast+
qed

text \<open>Registering exceptions with different vectors, none of which has a handler.\<close>

type_synonym registration = "ULONG \<times> ULONG \<times> bool \<times> nat \<times> string"

definition registered :: "registration list \<Rightarrow> nat \<Rightarrow> (ULONG \<times> bool \<times> nat \<times> string) option" where
  "registered xs v = map_of (map (\<lambda>(v, x). (unat v, x)) xs) v"

lemma register_exceptions:
  assumes "distinct (map fst xs)" and "\<forall>x \<in> set xs. fst x \<le> 0x1F"
    and "\<forall>v < 32. KISRRoutine (KiInterruptObjects s v) \<noteq> None \<longrightarrow> registered xs v = None"
  shows "\<exists>s'. foldE (\<lambda>(v, dpl, on, r, name). KiRegisterException T v dpl on (Some r) name) xs s = Inr s' \<and>
    (\<forall>v. IDT s' v = (case registered xs v of None \<Rightarrow> IDT s v | Some (dpl, on, r, name) \<Rightarrow> SETGATE on GD_KT (T v) dpl)) \<and>
    (\<forall>v. KISRRoutine (KiInterruptObjects s' v) =
      (case registered xs v of None \<Rightarrow> KISRRoutine (KiInterruptObjects s v) | Some (dpl, on, r, name) \<Rightarrow> Some r)) \<and> PcrIDT s' = PcrIDT s"
  using assms
proof (induction xs arbitrary: s)
  case (Cons x xs)
  obtain v dpl "on" r name where x: "x = (v, dpl, on, r, name)" by (cases x)
  have lt: "v \<le> 0x1F" using Cons.prems(2) x by simp
  then have v: "unat v < 32" by (simp add: word_le_nat_alt)
  have "registered (x # xs) (unat v) \<noteq> None" by (simp add: registered_def x)
  then have free: "KISRRoutine (interrupt_object v s) = None" using Cons.prems(3) v by (auto simp: interrupt_object_def)
  have new: "registered xs (unat v) = None"
    using Cons.prems(1) x by (force simp: registered_def map_of_eq_None_iff simp flip: word_unat_eq_iff)
  let ?s = "set_interrupt v (\<lambda>i. i\<lparr>KISRRoutine := Some r, InterruptName := name, ki_Vector := v\<rparr>)
    (set_gate v (SETGATE on GD_KT (T (unat v)) dpl) s)"
  have step: "KiRegisterException T v dpl on (Some r) name s = Inr ?s"
    using lt free by (simp add: KiRegisterException_def IsSystemException_def)
  have reg: "registered (x # xs) w = (if w = unat v then Some (dpl, on, r, name) else registered xs w)" for w
    by (simp add: registered_def x)
  have "\<forall>w < 32. KISRRoutine (KiInterruptObjects ?s w) \<noteq> None \<longrightarrow> registered xs w = None"
  proof (intro allI impI)
    fix w :: nat assume w: "w < 32" "KISRRoutine (KiInterruptObjects ?s w) \<noteq> None"
    show "registered xs w = None"
    proof (cases "w = unat v")
      case False
      then have "KISRRoutine (KiInterruptObjects s w) \<noteq> None" using w(2) by simp
      then have "registered (x # xs) w = None" using Cons.prems(3) w(1) by blast
      then show ?thesis using False reg [of w] by simp
    qed (simp add: new)
  qed
  then obtain s' where s': "foldE (\<lambda>(v, dpl, on, r, name). KiRegisterException T v dpl on (Some r) name) xs ?s = Inr s'"
    "\<And>w. IDT s' w = (case registered xs w of None \<Rightarrow> IDT ?s w | Some (dpl, on, r, name) \<Rightarrow> SETGATE on GD_KT (T w) dpl)"
    "\<And>w. KISRRoutine (KiInterruptObjects s' w) =
      (case registered xs w of None \<Rightarrow> KISRRoutine (KiInterruptObjects ?s w) | Some (dpl, on, r, name) \<Rightarrow> Some r)" "PcrIDT s' = PcrIDT s"
    using Cons.IH [of ?s] Cons.prems(1,2) by auto
  show ?case
  proof (intro exI [of _ s'] conjI allI)
    fix w
    show "IDT s' w = (case registered (x # xs) w of None \<Rightarrow> IDT s w | Some (dpl, on, r, name) \<Rightarrow> SETGATE on GD_KT (T w) dpl)"
      using s'(2) [of w] new by (cases "registered xs w") (auto simp: reg)
    show "KISRRoutine (KiInterruptObjects s' w) =
        (case registered (x # xs) w of None \<Rightarrow> KISRRoutine (KiInterruptObjects s w) | Some (dpl, on, r, name) \<Rightarrow> Some r)"
      using s'(3) [of w] new by (cases "registered xs w") (auto simp: reg)
  qed (use s'(1,4) step in \<open>simp_all add: x\<close>)
qed (simp add: registered_def)

text \<open>The exceptions that are registered are the vectors below 20.\<close>

lemma exceptions_registered:
  "registered exceptions v =
    (if v < 20 then Some (if v \<in> {3, 4, 5} then 3 else 0, v \<noteq> 14, if v = 14 then KiExceptionPFHandler_routine else KiExceptionHandler_routine,
       snd (snd (snd (snd (exceptions ! v))))) else None)"
proof (cases "v < 20")
  case True
  then have "v \<in> {0, 1, 2, 3, 4, 5, 6, 7, 8, 9, 10, 11, 12, 13, 14, 15, 16, 17, 18, 19}"
    unfolding insert_iff empty_iff by presburger
  then show ?thesis by (elim insertE) (simp_all add: registered_def exceptions_def)
qed (simp add: registered_def exceptions_def)

section \<open>Properties\<close>

text \<open>The address a gate leads to.\<close>

definition gate_target :: "IDTENTRY \<Rightarrow> PVOID" where
  "gate_target g = ucast (gd_off_15_0 g) OR push_bit 16 (ucast (gd_off_31_16 g))"

lemma SETGATE_target: "gate_target (SETGATE t sel off dpl) = off"
proof (rule bit_word_eqI)
  fix n assume "n < LENGTH(32)"
  moreover have "bit (0xFFFF :: ULONG) n \<longleftrightarrow> n < 16" using bit_mask_iff [of 16 n, where ?'a = "32 word"] by (auto simp: mask_eq_exp_minus_1)
  ultimately show "bit (gate_target (SETGATE t sel off dpl)) n = bit off n"
    by (cases "n < 16") (auto simp: gate_target_def SETGATE_def bit_simps)
qed

lemma trap_initialized:
  assumes "\<not> PcrIDT s"
  shows "\<exists>s'. KiTrapInitialize T s = Inr s' \<and> PcrIDT s' \<and> (\<forall>v < INTR_CNT.
    gate_target (IDT s' v) = T v \<and> gd_ss (IDT s' v) = GD_KT \<and> gd_p (IDT s' v) = 1 \<and> gd_s (IDT s' v) = 0 \<and>
    gd_dpl (IDT s' v) = (if v \<in> {3, 4, 5, 0x40} then 3 else 0) \<and>
    gd_type (IDT s' v) = (if v < 20 \<and> v \<noteq> 14 then STS_TG32 else STS_IG32) \<and>
    KISRRoutine (KiInterruptObjects s' v) =
      (if v < 20 then Some (if v = 14 then KiExceptionPFHandler_routine else KiExceptionHandler_routine) else None))"
proof -
  let ?s1 = "(fold (init_vector T) [0..<INTR_CNT] s)\<lparr>PcrIDT := True\<rparr>"
  note init = init_vectors [where n = INTR_CNT and T = T and s = s, OF order_refl]
  have "distinct (map fst exceptions)" "\<forall>x \<in> set exceptions. fst x \<le> 0x1F" by (simp_all add: exceptions_def)
  moreover have "\<forall>v < 32. KISRRoutine (KiInterruptObjects ?s1 v) \<noteq> None \<longrightarrow> registered exceptions v = None"
    using init(2) by simp
  ultimately obtain s2 where s2: "KeInitializeExceptions T ?s1 = Inr s2" "PcrIDT s2"
    "\<And>v. IDT s2 v = (case registered exceptions v of None \<Rightarrow> IDT ?s1 v | Some (dpl, on, r, name) \<Rightarrow> SETGATE on GD_KT (T v) dpl)"
    "\<And>v. KISRRoutine (KiInterruptObjects s2 v) =
      (case registered exceptions v of None \<Rightarrow> KISRRoutine (KiInterruptObjects ?s1 v) | Some (dpl, on, r, name) \<Rightarrow> Some r)"
    unfolding KeInitializeExceptions_def using register_exceptions [of exceptions ?s1 T] by auto
  let ?s3 = "set_interrupt SYSCALL_INTR (\<lambda>i. i\<lparr>KISRRoutine := None, ki_Irql := PASSIVE_LEVEL, InterruptName := ''SysCall'', ki_Vector := SYSCALL_INTR\<rparr>)
    (set_gate SYSCALL_INTR (SETGATE False GD_KT (T 0x40) 3) s2)"
  have "KISRRoutine (interrupt_object SYSCALL_INTR s2) = None"
    using s2(4) [of "0x40"] init(2) [of "0x40"] by (simp add: interrupt_object_def exceptions_registered)
  then have "KiTrapInitialize T s = Inr ?s3"
    using assms s2(1) init(3)
    by (simp add: KiTrapInitialize_def KiCreateCurrentIDT_def KiInitSyscallInterface_def KiCreateInterruptObject_def IsDeviceInterrupt_def IsSystemCallIntr_def)
  moreover have "gate_target (IDT ?s3 v) = T v \<and> gd_ss (IDT ?s3 v) = GD_KT \<and> gd_p (IDT ?s3 v) = 1 \<and> gd_s (IDT ?s3 v) = 0 \<and>
      gd_dpl (IDT ?s3 v) = (if v \<in> {3, 4, 5, 0x40} then 3 else 0) \<and> gd_type (IDT ?s3 v) = (if v < 20 \<and> v \<noteq> 14 then STS_TG32 else STS_IG32) \<and>
      KISRRoutine (KiInterruptObjects ?s3 v) =
        (if v < 20 then Some (if v = 14 then KiExceptionPFHandler_routine else KiExceptionHandler_routine) else None)" if "v < INTR_CNT" for v
  proof -
    have i: "IDT ?s1 v = SETGATE False GD_KT (T v) 0" "KISRRoutine (KiInterruptObjects ?s1 v) = None" using init that by simp_all
    have "IDT ?s3 v = (if v < 20 then SETGATE (v \<noteq> 14) GD_KT (T v) (if v \<in> {3, 4, 5} then 3 else 0)
        else SETGATE False GD_KT (T v) (if v = 0x40 then 3 else 0))"
      using s2(3) [of v] i(1) by (simp add: exceptions_registered)
    moreover have "KISRRoutine (KiInterruptObjects ?s3 v) =
        (if v < 20 then Some (if v = 14 then KiExceptionPFHandler_routine else KiExceptionHandler_routine) else None)"
      using s2(4) [of v] i(2) by (simp add: exceptions_registered)
    ultimately show ?thesis by (simp add: SETGATE_target) (simp add: SETGATE_def)
  qed
  moreover have "PcrIDT ?s3" using s2(2) by simp
  ultimately show ?thesis by blast
qed

text \<open>The initialisation of the traps touches nothing but the table and the interrupt objects.\<close>

lemma set_frame_ps [simp]:
  "ps_state.truncate (set_gate v g s) = ps_state.truncate s" "ps_state.truncate (set_interrupt v f s) = ps_state.truncate s"
  "ps_state.truncate (s\<lparr>PcrIDT := b\<rparr>) = ps_state.truncate s"
  by (simp_all add: set_gate_def set_interrupt_def ps_state.truncate_def)

lemma init_vector_frame: "ps_state.truncate (fold (init_vector T) cs s) = ps_state.truncate s"
  by (induction cs arbitrary: s) (simp_all add: init_vector_def)

lemma trap_initialize_frame:
  assumes "KiTrapInitialize T s = Inr s'"
  shows "ps_state.truncate s' = ps_state.truncate s"
proof -
  let ?s1 = "(fold (init_vector T) [0..<INTR_CNT] s)\<lparr>PcrIDT := True\<rparr>"
  obtain s2 where s2: "KeInitializeExceptions T ?s1 = Inr s2" "KiInitSyscallInterface T s2 = Inr s'"
    using assms by (auto simp: KiTrapInitialize_def KiCreateCurrentIDT_def bind_eq_Inr ASSERT_def split: if_splits)
  have "ps_state.truncate s2 = ps_state.truncate ?s1"
    using s2(1) unfolding KeInitializeExceptions_def
    by (rule foldE_invariant [where P = "\<lambda>t. ps_state.truncate t = ps_state.truncate ?s1"])
      (auto simp: KiRegisterException_def ASSERT_def split: if_splits prod.splits)
  moreover have "ps_state.truncate s' = ps_state.truncate s2"
    using s2(2) by (auto simp: KiInitSyscallInterface_def KiCreateInterruptObject_def ASSERT_def IsDeviceInterrupt_def Let_def split: if_splits)
  ultimately show ?thesis by (simp add: init_vector_frame)
qed

text \<open>The state in which the handler of a device interrupt runs.\<close>

definition in_isr :: "ULONG \<Rightarrow> KIRQL \<Rightarrow> 'a intr_state_scheme \<Rightarrow> 'a intr_state_scheme" where
  "in_isr v i s = (hold (ISR_Spinlock (unat v)) DISPATCH_LEVEL (at_irql i s))\<lparr>Flags_IF := True\<rparr>"

text \<open>The end of interrupt commands: one to the master, and one to the slave for its lines.\<close>

definition acknowledged :: "ULONG \<Rightarrow> 'a intr_state_scheme \<Rightarrow> 'a intr_state_scheme" where
  "acknowledged v s = s\<lparr>PortWrites := PortWrites s @ (if v < 0x28 then [(0x20, 0x20)] else [(0x20, 0x20), (0xA0, 0x20)])\<rparr>"

lemma acknowledge_eq: "IsDeviceInterrupt v \<Longrightarrow> KiAcknowledgeInterrupt v s = Inr (acknowledged v s)"
  by (simp add: IsDeviceInterrupt_def KiAcknowledgeInterrupt_def outb_def acknowledged_def not_less [symmetric])

text \<open>What a handler must keep: the level, the thread, its lock and the interrupt flag.\<close>

definition isr_keeps :: "ULONG \<Rightarrow> 'a intr_state_scheme \<Rightarrow> 'a intr_state_scheme \<Rightarrow> bool" where
  "isr_keeps v s s' \<longleftrightarrow> hal_ok s' \<and> CurrentIrql s' = CurrentIrql s \<and> CurrentThread s' = CurrentThread s \<and>
     spin_locks s' (ISR_Spinlock (unat v)) = spin_locks s (ISR_Spinlock (unat v)) \<and> Flags_IF s'"

lemma acknowledged_sel [simp]:
  "hal_ok (acknowledged v s) = hal_ok s" "CurrentIrql (acknowledged v s) = CurrentIrql s" "CurrentThread (acknowledged v s) = CurrentThread s"
  "spin_locks (acknowledged v s) = spin_locks s" "Flags_IF (acknowledged v s) = Flags_IF s" "DpcListHead (acknowledged v s) = DpcListHead s"
  by (simp_all add: acknowledged_def hal_ok_def)

lemma Flags_IF_upd [simp]:
  "Flags_IF (at_irql i s) = Flags_IF s" "Flags_IF (set_lock l f s) = Flags_IF s"
  by (simp_all add: at_irql_def set_lock_def)

text \<open>The state in which the level drops: the handler has run, the controller has been told and the lock is free.\<close>

definition isr_done :: "ULONG \<Rightarrow> 'a intr_state_scheme \<Rightarrow> 'a intr_state_scheme" where
  "isr_done v s = set_lock (ISR_Spinlock (unat v)) (\<lambda>_. free_lock) (acknowledged v s)"

text \<open>C14. A device interrupt, taken with interrupts off at an IRQL up to that of its vector, runs its handler at the IRQL of the vector with the lock of the vector held and interrupts enabled.
  When the handler keeps these, the controller is told the end of the interrupt and the lock is released before the level drops: whatever the deferred routines and the
  state of their queue are, the rest of the interrupt is \<open>KeLowerIrql\<close> to the interrupted level, and with it the deferred calls, from the state in which both has happened, and the check that
  interrupts are on. When no deferred call is to be run at the interrupted level, the IRQL and the interrupt mask are then as they were before the interrupt and what is left is
  what the handler did.\<close>

theorem device_interrupt:
  assumes ok: "hal_ok s" and off: "\<not> Flags_IF s" and v: "v = TrapFrame_trapno (TrapFrames s frame)" "IsDeviceInterrupt v"
    and i: "i = ki_Irql (interrupt_object v s)" "CurrentIrql s \<le> i" "DISPATCH_LEVEL \<le> i" "i \<le> MAX_IRQL_LEVEL" "i \<noteq> 3"
    and lk: "spin_locks s (ISR_Spinlock (unat v)) = free_lock" and r: "KISRRoutine (interrupt_object v s) = Some r"
    and isr: "handlers r frame (in_isr v i s) = Inr s2" "isr_keeps v (in_isr v i s) s2"
  shows "KiTrap handlers syscall run fuel frame s =
      bind (KeLowerIrql run fuel (CurrentIrql s) (isr_done v s2)) (\<lambda>t. ASSERT ''KiInterruptDispatch: IntStatus == TRUE'' (Flags_IF t) (Inr t)) \<and>
    (0 < fuel \<and> (LIST_EMPTY (DpcListHead s2) \<or> DISPATCH_LEVEL \<le> CurrentIrql s) \<longrightarrow>
      KiTrap handlers syscall run fuel frame s = Inr (at_irql (CurrentIrql s) (isr_done v s2)))"
proof -
  let ?l = "ISR_Spinlock (unat v)" and ?s1 = "at_irql i s" and ?s3 = "isr_done v s2"
  have raise: "KeRaiseIrql i s = Inr (CurrentIrql s, ?s1)" by (rule KeRaiseIrql_eq [OF ok i(2,4,5)])
  have "hal_ok ?s1" by (rule hal_ok_at_irql [OF ok i(4)])
  then have acq: "KeAcquireSpinLockAtDpcLevel ?l ?s1 = Inr (hold ?l DISPATCH_LEVEL ?s1)"
    using i(3) lk by (intro KeAcquireSpinLockAtDpcLevel_eq) (simp_all add: at_irql_def)
  have k: "hal_ok s2" "CurrentIrql s2 = i" "CurrentThread s2 = CurrentThread s" "Flags_IF s2"
    "spin_locks s2 ?l = \<lparr>Lock = 1, Thread = CurrentThread s, OldIrql = DISPATCH_LEVEL\<rparr>"
    using isr(2) by (simp_all add: isr_keeps_def in_isr_def)
  have rel: "KeReleaseSpinLockFromDpcLevel ?l (acknowledged v s2) = Inr ?s3"
    unfolding isr_done_def by (rule KeReleaseSpinLockFromDpcLevel_eq [where i = DISPATCH_LEVEL]) (use k i(3) in simp_all)
  have "KISRRoutine (interrupt_object v ((hold ?l DISPATCH_LEVEL ?s1)\<lparr>Flags_IF := True\<rparr>)) = Some r"
    using r by (simp add: interrupt_object_def hold_def set_lock_def at_irql_def)
  then have run: "KiTrap handlers syscall run fuel frame s =
      bind (KeLowerIrql run fuel (CurrentIrql s) ?s3) (\<lambda>t. ASSERT ''KiInterruptDispatch: IntStatus == TRUE'' (Flags_IF t) (Inr t))"
    using off v raise acq isr(1) acknowledge_eq [OF v(2), of s2] rel i(1)
    by (simp add: KiTrap_def KiInterruptDispatch_def HalAreInterruptsEnabled_def HalEnableInterrupts_def in_isr_def Let_def)
  have "KeLowerIrql run fuel (CurrentIrql s) ?s3 = Inr (at_irql (CurrentIrql s) ?s3)"
    if q: "0 < fuel" "LIST_EMPTY (DpcListHead s2) \<or> DISPATCH_LEVEL \<le> CurrentIrql s"
  proof -
    obtain n where n: "fuel = Suc n" using q(1) by (cases fuel) auto
    show ?thesis unfolding n isr_done_def by (rule KeLowerIrql_quiet) (use k i(2) q(2) in simp_all)
  qed
  then show ?thesis using run k(4) by (simp add: isr_done_def)
qed

text \<open>The small machine at a timer interrupt, with interrupts disabled by the gate.\<close>

definition timer_frame :: KTRAPFRAME where
  "timer_frame = zero_frame\<lparr>TrapFrame_trapno := IrqTimer\<rparr>"

definition at_timer :: intr_state where
  "at_timer = (ps_state.extend (elf_state\<lparr>TrapFrames := \<lambda>_. timer_frame\<rparr>) (intr_state.fields (\<lambda>_. SETGATE False GD_KT 0 0) False
     (\<lambda>_. \<lparr>KISRRoutine = Some TimerISRoutine_routine, ki_Irql = CLOCK1_LEVEL, InterruptName = ''Timer'', ki_Vector = IrqTimer\<rparr>) 0 []))\<lparr>Flags_IF := False\<rparr>"

lemma at_timer_sel [simp]:
  "Flags_IF at_timer = False" "TrapFrames at_timer a = timer_frame" "\<not> PcrIDT at_timer" "CurrentIrql at_timer = 0" "CurrentThread at_timer = Some 1"
  "interrupt_object v at_timer = \<lparr>KISRRoutine = Some TimerISRoutine_routine, ki_Irql = CLOCK1_LEVEL, InterruptName = ''Timer'', ki_Vector = IrqTimer\<rparr>"
  "spin_locks at_timer l = free_lock" "Hal8259MaskTable at_timer = replicate 32 0xFFFB" "Picinitdone at_timer" "Pic8259Mask at_timer = 0xFFFB"
  "TimerTicks at_timer = 0" "Tcbs at_timer t = small_tcb (if t = 1 then THREAD_STATE_RUNNING else THREAD_STATE_READY)" "DpcListHead at_timer = LIST_INIT"
  by (simp_all add: at_timer_def ps_state.extend_def intr_state.fields_def elf_state_def obname_state.extend_def ps_state.fields_def
      small_names_def ob_state.extend_def obname_state.fields_def small_ob_unfold three_threads_unfold interrupt_object_def)

theorem device_interrupt_witness:
  "\<exists>s'. KiTrap (ki_handlers (\<lambda>_ _. Inr) no_dpcs 1) (\<lambda>_ s. Inr (0, s)) no_dpcs 1 0x85803FBC at_timer = Inr s' \<and> CurrentIrql s' = PASSIVE_LEVEL"
proof -
  have ok: "hal_ok at_timer" by (simp add: hal_ok_def)
  let ?s1 = "in_isr IrqTimer CLOCK1_LEVEL at_timer"
  let ?s2 = "set_tcb 1 (\<lambda>t. t\<lparr>tcb_Quantum := tcb_Quantum t - 1\<rparr>) (KiIncrementCurrentTimerTicks ?s1)"
  have h: "hal_ok ?s1" using hal_ok_at_irql [OF ok, of CLOCK1_LEVEL] by (simp add: in_isr_def hal_ok_def hold_def set_lock_def)
  have sel: "CurrentIrql ?s1 = CLOCK1_LEVEL" "CurrentThread ?s1 = Some 1" "Flags_IF ?s1" "DpcListHead ?s1 = LIST_INIT" "Tcbs ?s1 = Tcbs at_timer"
    by (simp_all add: in_isr_def hold_def set_lock_def at_irql_def)
  have h2: "hal_ok (KiIncrementCurrentTimerTicks ?s1)" using h by (simp add: KiIncrementCurrentTimerTicks_def hal_ok_def)
  have "\<not> sint (tcb_Quantum (Tcbs at_timer 1) - 1) \<le> 0" by (simp add: small_tcb_def)
  then have isr: "ki_handlers (\<lambda>_ _. Inr) no_dpcs 1 TimerISRoutine_routine 0x85803FBC ?s1 = Inr ?s2"
    using hal_ok_irql [OF h2] sel
    by (simp add: ki_handlers_def TimerISRoutine_def KiThreadTimerISR_def KeGetCurrentThread_def set_tcb_def) (simp add: KiIncrementCurrentTimerTicks_def)
  have "isr_keeps IrqTimer ?s1 ?s2" using h2 sel
    by (simp add: isr_keeps_def set_tcb_def hal_ok_def) (simp add: KiIncrementCurrentTimerTicks_def)
  moreover have "LIST_EMPTY (DpcListHead ?s2)" using sel(4) by (simp add: set_tcb_def KiIncrementCurrentTimerTicks_def LIST_EMPTY_def LIST_INIT_def)
  ultimately have "KiTrap (ki_handlers (\<lambda>_ _. Inr) no_dpcs 1) (\<lambda>_ s. Inr (0, s)) no_dpcs 1 0x85803FBC at_timer = Inr (at_irql PASSIVE_LEVEL (isr_done IrqTimer ?s2))"
    using device_interrupt [of at_timer IrqTimer "0x85803FBC" CLOCK1_LEVEL TimerISRoutine_routine
        "ki_handlers (\<lambda>_ _. Inr) no_dpcs 1" ?s2 "\<lambda>_ s. Inr (0, s)" no_dpcs 1, THEN conjunct2] ok isr
    by (simp add: timer_frame_def IsDeviceInterrupt_def)
  then show ?thesis by (simp add: at_irql_def)
qed

end
