(* ===== verification/KStdio.thy ===== *)
theory KStdio
  imports KString
begin

text \<open>
  Formatted output, \<open>lib/stdio.c\<close>: parsing a conversion, formatting integers and strings, the \<open>__vprintf\<close> loop
  and \<open>vsnprintf\<close> on top of it. A format is the bytes of its array, the terminator included, so that a step
  past the terminator is a fault. \<open>output\<close> and \<open>aux\<close> are those of the code; the memory the string arguments
  are read from is part of \<open>aux\<close>, because \<open>output\<close> may write there. A \<open>va_list\<close> is the list of the 32-bit stack
  slots that are left; a 64-bit argument takes two, the low one first. The console behind \<open>printf\<close> is \<open>Vga\<close>.
\<close>

section \<open>Characters\<close>

text \<open>The classification functions of \<open>inc/string.h\<close> take an \<open>int\<close>; a \<open>char\<close> is sign-extended on the way.\<close>

definition in_range :: "int \<Rightarrow> LONG \<Rightarrow> int \<Rightarrow> bool" where
  "in_range a c b \<longleftrightarrow> a \<le> sint c \<and> sint c \<le> b"

definition islower :: "LONG \<Rightarrow> bool" where "islower c \<longleftrightarrow> in_range 0x61 c 0x7A"
definition isupper :: "LONG \<Rightarrow> bool" where "isupper c \<longleftrightarrow> in_range 0x41 c 0x5A"
definition isalpha :: "LONG \<Rightarrow> bool" where "isalpha c \<longleftrightarrow> islower c \<or> isupper c"
definition isdigit :: "LONG \<Rightarrow> bool" where "isdigit c \<longleftrightarrow> in_range 0x30 c 0x39"
definition isalnum :: "LONG \<Rightarrow> bool" where "isalnum c \<longleftrightarrow> isalpha c \<or> isdigit c"
definition isxdigit :: "LONG \<Rightarrow> bool" where "isxdigit c \<longleftrightarrow> isdigit c \<or> in_range 0x61 c 0x66 \<or> in_range 0x41 c 0x46"
definition isspace :: "LONG \<Rightarrow> bool" where "isspace c \<longleftrightarrow> c \<in> {0x20, 0x0C, 0x0A, 0x0D, 0x09, 0x0B}"
definition isblank :: "LONG \<Rightarrow> bool" where "isblank c \<longleftrightarrow> c = 0x20 \<or> c = 0x09"
definition isgraph :: "LONG \<Rightarrow> bool" where "isgraph c \<longleftrightarrow> 32 < sint c \<and> sint c < 127"
definition isprint :: "LONG \<Rightarrow> bool" where "isprint c \<longleftrightarrow> 32 \<le> sint c \<and> sint c < 127"
definition iscntrl :: "LONG \<Rightarrow> bool" where "iscntrl c \<longleftrightarrow> 0 \<le> sint c \<and> sint c < 32 \<or> c = 127"
definition isascii :: "LONG \<Rightarrow> bool" where "isascii c \<longleftrightarrow> 0 \<le> sint c \<and> sint c < 128"
definition ispunct :: "LONG \<Rightarrow> bool" where "ispunct c \<longleftrightarrow> isprint c \<and> \<not> isalnum c \<and> \<not> isspace c"
definition tolower :: "LONG \<Rightarrow> LONG" where "tolower c = (if isupper c then c - 0x41 + 0x61 else c)"
definition toupper :: "LONG \<Rightarrow> LONG" where "toupper c = (if islower c then c - 0x61 + 0x41 else c)"

definition byte :: "char \<Rightarrow> UCHAR" where
  "byte c = of_char c"

definition char_int :: "char \<Rightarrow> LONG" where
  "char_int c = scast (byte c)"

definition char_of_byte :: "UCHAR \<Rightarrow> char" where
  "char_of_byte b = char_of (unat b)"

section \<open>Conversions\<close>

abbreviation (input) MINUS :: ULONG where "MINUS \<equiv> 1"
abbreviation (input) PLUS :: ULONG where "PLUS \<equiv> 2"
abbreviation (input) SPACE :: ULONG where "SPACE \<equiv> 4"
abbreviation (input) POUND :: ULONG where "POUND \<equiv> 8"
abbreviation (input) ZERO :: ULONG where "ZERO \<equiv> 16"
abbreviation (input) GROUP :: ULONG where "GROUP \<equiv> 32"

datatype conversion_type = CHARTYPE | SHORTTYPE | INTTYPE | INTTYPEMAX | LONGTYPE | LONGLONGTYPE | PTRDIFFT | SIZET

record printf_conversion =
  cv_flags :: ULONG
  cv_width :: LONG
  cv_precision :: LONG
  cv_type :: conversion_type

definition has :: "ULONG \<Rightarrow> printf_conversion \<Rightarrow> bool" where
  "has f c \<longleftrightarrow> cv_flags c AND f \<noteq> 0"

type_synonym va_list = "ULONG list"

fun va_arg32 :: "va_list \<Rightarrow> fault + (ULONG \<times> va_list)" where
  "va_arg32 [] = Inl OutOfBounds"
| "va_arg32 (a # as) = Inr (a, as)"

fun va_arg64 :: "va_list \<Rightarrow> fault + (64 word \<times> va_list)" where
  "va_arg64 (lo # hi # as) = Inr (ucast lo OR push_bit 32 (ucast hi), as)"
| "va_arg64 _ = Inl OutOfBounds"

fun parse_flags :: "ULONG \<Rightarrow> string \<Rightarrow> fault + (ULONG \<times> string)" where
  "parse_flags fl [] = Inl OutOfBounds"
| "parse_flags fl (c # format) =
     (if c = CHR ''-'' then parse_flags (fl OR MINUS) format
      else if c = CHR ''+'' then parse_flags (fl OR PLUS) format
      else if c = CHR '' '' then parse_flags (fl OR SPACE) format
      else if c = CHR ''#'' then parse_flags (fl OR POUND) format
      else if c = CHR ''0'' then parse_flags (fl OR ZERO) format
      else if c = CHR 0x27 then parse_flags (fl OR GROUP) format
      else Inr (fl, c # format))"

fun parse_number :: "LONG \<Rightarrow> string \<Rightarrow> fault + (LONG \<times> string)" where
  "parse_number n [] = Inl OutOfBounds"
| "parse_number n (c # format) =
     (if isdigit (char_int c) then parse_number (n * 10 + char_int c - 0x30) format else Inr (n, c # format))"

fun star_or_number :: "string \<Rightarrow> va_list \<Rightarrow> fault + (LONG \<times> string \<times> va_list)" where
  "star_or_number [] args = Inl OutOfBounds"
| "star_or_number (c # format) args =
     (if c = CHR ''*'' then bind (va_arg32 args) (\<lambda>(n, args). Inr (n, format, args))
      else bind (parse_number 0 (c # format)) (\<lambda>(n, format). Inr (n, format, args)))"

fun parse_precision :: "string \<Rightarrow> va_list \<Rightarrow> fault + (LONG \<times> string \<times> va_list)" where
  "parse_precision [] args = Inl OutOfBounds"
| "parse_precision (c # format) args =
     (if c = CHR ''.'' then bind (star_or_number format args) (\<lambda>(n, format, args).
        Inr (if sint n < 0 then - 1 else n, format, args))
      else Inr (- 1, c # format, args))"

fun parse_type :: "string \<Rightarrow> fault + (conversion_type \<times> string)" where
  "parse_type [] = Inl OutOfBounds"
| "parse_type (c # format) =
     (if c = CHR ''h''
      then (case format of [] \<Rightarrow> Inl OutOfBounds | d # format' \<Rightarrow>
        if d = CHR ''h'' then Inr (CHARTYPE, format') else Inr (SHORTTYPE, format))
      else if c = CHR ''j'' then Inr (INTTYPEMAX, format)
      else if c = CHR ''l''
      then (case format of [] \<Rightarrow> Inl OutOfBounds | d # format' \<Rightarrow>
        if d = CHR ''l'' then Inr (LONGLONGTYPE, format') else Inr (LONGTYPE, format))
      else if c = CHR ''t'' then Inr (PTRDIFFT, format)
      else if c = CHR ''z'' then Inr (SIZET, format)
      else Inr (INTTYPE, c # format))"

definition parse_conversion :: "string \<Rightarrow> va_list \<Rightarrow> fault + (printf_conversion \<times> string \<times> va_list)" where
  "parse_conversion format args =
     bind (parse_flags 0 format) (\<lambda>(flags, format).
     let flags = (if flags AND MINUS \<noteq> 0 then flags AND NOT ZERO else flags);
         flags = (if flags AND PLUS \<noteq> 0 then flags AND NOT SPACE else flags)
     in bind (star_or_number format args) (\<lambda>(width, format, args).
     let (width, flags) = (if sint width < 0 then (- width, flags OR MINUS) else (width, flags))
     in bind (parse_precision format args) (\<lambda>(precision, format, args).
     let flags = (if 0 \<le> sint precision then flags AND NOT ZERO else flags)
     in bind (parse_type format) (\<lambda>(ty, format).
     Inr (\<lparr>cv_flags = flags, cv_width = width, cv_precision = precision, cv_type = ty\<rparr>, format, args)))))"

section \<open>Integers and strings\<close>

text \<open>The four constant bases of the code.\<close>

datatype integer_base = base_d | base_o | base_x | base_X

fun ib_base :: "integer_base \<Rightarrow> 64 word" where
  "ib_base base_d = 10" | "ib_base base_o = 8" | "ib_base base_x = 16" | "ib_base base_X = 16"

fun ib_digits :: "integer_base \<Rightarrow> string" where
  "ib_digits base_d = ''0123456789''" | "ib_digits base_o = ''01234567''"
| "ib_digits base_x = ''0123456789abcdef''" | "ib_digits base_X = ''0123456789ABCDEF''"

fun ib_x :: "integer_base \<Rightarrow> char option" where
  "ib_x base_d = None" | "ib_x base_o = None" | "ib_x base_x = Some (CHR ''x'')" | "ib_x base_X = Some (CHR ''X'')"

fun ib_group :: "integer_base \<Rightarrow> nat" where
  "ib_group base_d = 3" | "ib_group base_o = 3" | "ib_group base_x = 4" | "ib_group base_X = 4"

text \<open>The buffer of 64 characters the digits are collected in, last digit first; a write past its end is a fault.\<close>

definition push :: "char \<Rightarrow> string \<Rightarrow> fault + string" where
  "push ch buf = (if length buf < 64 then Inr (buf @ [ch]) else Inl OutOfBounds)"

lemma div_base_less: "0 < v \<Longrightarrow> unat (v div ib_base b) < unat v"
  by (cases b) (simp_all add: unat_div word_less_nat_alt)

function int_digits :: "printf_conversion \<Rightarrow> integer_base \<Rightarrow> 64 word \<Rightarrow> nat \<Rightarrow> string \<Rightarrow> fault + string" where
  "int_digits c b v cnt buf =
     (if v > 0
      then bind (if has GROUP c \<and> cnt > 0 \<and> cnt mod ib_group b = 0 then push (CHR '','') buf else Inr buf) (\<lambda>buf.
        bind (push (ib_digits b ! unat (v mod ib_base b)) buf) (\<lambda>buf.
        int_digits c b (v div ib_base b) (cnt + 1) buf))
      else Inr buf)"
  by auto
termination by (relation "measure (\<lambda>(c, b, v, cnt, buf). unat v)") (simp_all add: div_base_less)

function pad_zeros :: "LONG \<Rightarrow> string \<Rightarrow> string" where
  "pad_zeros precision buf =
     (if int (length buf) < sint precision \<and> length buf < 63 then pad_zeros precision (buf @ [CHR ''0'']) else buf)"
  by auto
termination by (relation "measure (\<lambda>(p, buf). 63 - length buf)") auto

definition output_dup :: "char \<Rightarrow> ULONG \<Rightarrow> (char \<Rightarrow> 's \<Rightarrow> 's) \<Rightarrow> 's \<Rightarrow> 's" where
  "output_dup ch cnt output aux = fold output (replicate (unat cnt) ch) aux"

definition sign_char :: "bool \<Rightarrow> bool \<Rightarrow> printf_conversion \<Rightarrow> char option" where
  "sign_char is_signed negative c =
     (if \<not> is_signed then None
      else if has PLUS c then Some (if negative then CHR ''-'' else CHR ''+'')
      else if has SPACE c then Some (if negative then CHR ''-'' else CHR '' '')
      else if negative then Some (CHR ''-'') else None)"

definition format_integer ::
  "64 word \<Rightarrow> bool \<Rightarrow> bool \<Rightarrow> integer_base \<Rightarrow> printf_conversion \<Rightarrow> (char \<Rightarrow> 's \<Rightarrow> 's) \<Rightarrow> 's \<Rightarrow> fault + 's" where
  "format_integer v is_signed negative b c output aux =
     (let sgn = sign_char is_signed negative c;
          x = (if has POUND c \<and> v \<noteq> 0 then ib_x b else None)
      in bind (int_digits c b v 0 []) (\<lambda>buf.
         let buf = pad_zeros (if sint (cv_precision c) < 0 then 1 else cv_precision c) buf
         in bind (if has POUND c \<and> ib_base b = 8 \<and> (buf = [] \<or> last buf \<noteq> CHR ''0'') then push (CHR ''0'') buf else Inr buf) (\<lambda>buf.
         let pad_cnt = cv_width c - of_nat (length buf) - (if x \<noteq> None then 2 else 0) - (if sgn \<noteq> None then 1 else 0);
             pad_cnt = (if sint pad_cnt < 0 then 0 else pad_cnt);
             aux = (if cv_flags c AND (MINUS OR ZERO) = 0 then output_dup (CHR '' '') pad_cnt output aux else aux);
             aux = (case sgn of None \<Rightarrow> aux | Some ch \<Rightarrow> output ch aux);
             aux = (case x of None \<Rightarrow> aux | Some ch \<Rightarrow> output ch (output (CHR ''0'') aux));
             aux = (if has ZERO c then output_dup (CHR ''0'') pad_cnt output aux else aux);
             aux = fold output (rev buf) aux
         in Inr (if has MINUS c then output_dup (CHR '' '') pad_cnt output aux else aux))))"

text \<open>\<open>get i\<close> reads the \<open>i\<close>-th character of the string when the loop gets there.\<close>

definition format_string ::
  "(nat \<Rightarrow> 's \<Rightarrow> char) \<Rightarrow> LONG \<Rightarrow> printf_conversion \<Rightarrow> (char \<Rightarrow> 's \<Rightarrow> 's) \<Rightarrow> 's \<Rightarrow> 's" where
  "format_string get n c output aux =
     (let aux = (if sint (cv_width c) > sint n \<and> \<not> has MINUS c then output_dup (CHR '' '') (cv_width c - n) output aux else aux);
          aux = fold (\<lambda>i aux. output (get i aux) aux) [0..<nat (sint n)] aux
      in if sint (cv_width c) > sint n \<and> has MINUS c then output_dup (CHR '' '') (cv_width c - n) output aux else aux)"

section \<open>The format loop\<close>

abbreviation (input) SIZE_MAX :: "64 word" where "SIZE_MAX \<equiv> 0xFFFFFFFF"

fun signed_arg :: "conversion_type \<Rightarrow> va_list \<Rightarrow> fault + (64 word \<times> va_list)" where
  "signed_arg CHARTYPE args = bind (va_arg32 args) (\<lambda>(a, args). Inr (scast (ucast a :: 8 word), args))"
| "signed_arg SHORTTYPE args = bind (va_arg32 args) (\<lambda>(a, args). Inr (scast (ucast a :: 16 word), args))"
| "signed_arg INTTYPE args = bind (va_arg32 args) (\<lambda>(a, args). Inr (scast a, args))"
| "signed_arg INTTYPEMAX args = va_arg64 args"
| "signed_arg LONGTYPE args = bind (va_arg32 args) (\<lambda>(a, args). Inr (scast a, args))"
| "signed_arg LONGLONGTYPE args = va_arg64 args"
| "signed_arg PTRDIFFT args = bind (va_arg32 args) (\<lambda>(a, args). Inr (scast a, args))"
| "signed_arg SIZET args = bind (va_arg32 args) (\<lambda>(a, args).
     let v = ucast a in Inr (if v > SIZE_MAX div 2 then v - SIZE_MAX - 1 else v, args))"

fun unsigned_arg :: "conversion_type \<Rightarrow> va_list \<Rightarrow> fault + (64 word \<times> va_list)" where
  "unsigned_arg CHARTYPE args = bind (va_arg32 args) (\<lambda>(a, args). Inr (ucast (ucast a :: 8 word), args))"
| "unsigned_arg SHORTTYPE args = bind (va_arg32 args) (\<lambda>(a, args). Inr (ucast (ucast a :: 16 word), args))"
| "unsigned_arg INTTYPE args = bind (va_arg32 args) (\<lambda>(a, args). Inr (ucast a, args))"
| "unsigned_arg INTTYPEMAX args = va_arg64 args"
| "unsigned_arg LONGTYPE args = bind (va_arg32 args) (\<lambda>(a, args). Inr (ucast a, args))"
| "unsigned_arg LONGLONGTYPE args = va_arg64 args"
| "unsigned_arg PTRDIFFT args = bind (va_arg32 args) (\<lambda>(a, args). Inr (scast a AND (push_bit 1 0x7FFFFFFF OR 1), args))"
| "unsigned_arg SIZET args = bind (va_arg32 args) (\<lambda>(a, args). Inr (ucast a, args))"

text \<open>
  One conversion, on the character that selects it; \<open>self\<close> is the nested \<open>__printf\<close> of the two messages, whose
  formats hold nothing but a character conversion.
\<close>

definition conversion ::
  "(string \<Rightarrow> va_list \<Rightarrow> 's \<Rightarrow> fault + 's) \<Rightarrow> ('s \<Rightarrow> memory) \<Rightarrow> (char \<Rightarrow> 's \<Rightarrow> 's) \<Rightarrow> char \<Rightarrow> printf_conversion \<Rightarrow> va_list \<Rightarrow> 's \<Rightarrow>
   fault + (va_list \<times> 's)" where
  "conversion self mem output ch c args aux =
     (if ch \<in> {CHR ''d'', CHR ''i''}
      then bind (signed_arg (cv_type c) args) (\<lambda>(v, args).
        bind (format_integer (if sint v < 0 then - v else v) True (sint v < 0) base_d c output aux) (\<lambda>aux. Inr (args, aux)))
      else if ch \<in> {CHR ''o'', CHR ''u'', CHR ''x'', CHR ''X''}
      then bind (unsigned_arg (cv_type c) args) (\<lambda>(v, args).
        bind (format_integer v False False
          (if ch = CHR ''o'' then base_o else if ch = CHR ''u'' then base_d else if ch = CHR ''x'' then base_x else base_X)
          c output aux) (\<lambda>aux. Inr (args, aux)))
      else if ch = CHR ''c''
      then bind (va_arg32 args) (\<lambda>(a, args). Inr (args, format_string (\<lambda>_ _. char_of_byte (ucast a)) 1 c output aux))
      else if ch = CHR ''s''
      then bind (va_arg32 args) (\<lambda>(s, args).
        Inr (args,
          if s = 0 then format_string (\<lambda>i _. ''(null)'' ! i) (of_nat (min 6 (unat (cv_precision c)))) c output aux
          else format_string (\<lambda>i aux. char_of_byte (mem aux (s + of_nat i))) (strnlen (mem aux) s (cv_precision c)) c output aux))
      else if ch = CHR ''p''
      then bind (va_arg32 args) (\<lambda>(p, args).
        bind (format_integer (ucast p) False False base_x (c\<lparr>cv_flags := POUND\<rparr>) output aux) (\<lambda>aux. Inr (args, aux)))
      else if ch \<in> {CHR ''f'', CHR ''e'', CHR ''E'', CHR ''g'', CHR ''G'', CHR ''n''}
      then bind (self (''<<no %%%c in kernel>>'' @ [CHR 0x00]) [char_int ch] aux) (\<lambda>aux. Inr (args, aux))
      else bind (self (''<<no %%%c conversion>>'' @ [CHR 0x00]) [char_int ch] aux) (\<lambda>aux. Inr (args, aux)))"

text \<open>The parsing functions only move forward in the format.\<close>

lemma parse_shorter:
  "parse_flags fl format = Inr (fl', format') \<Longrightarrow> length format' \<le> length format"
  "parse_number n format = Inr (n', format') \<Longrightarrow> length format' \<le> length format"
  "star_or_number format args = Inr (w, format', args') \<Longrightarrow> length format' \<le> length format"
  "parse_precision format args = Inr (w, format', args') \<Longrightarrow> length format' \<le> length format"
  "parse_type format = Inr (ty, format') \<Longrightarrow> length format' \<le> length format"
proof -
  show "parse_flags fl format = Inr (fl', format') \<Longrightarrow> length format' \<le> length format" for fl fl' format format'
    by (induction fl format rule: parse_flags.induct) (auto split: if_splits)
  show number: "parse_number n format = Inr (n', format') \<Longrightarrow> length format' \<le> length format" for n n' format format'
    by (induction n format rule: parse_number.induct) (auto split: if_splits)
  show star: "star_or_number format args = Inr (w, format', args') \<Longrightarrow> length format' \<le> length format" for w format format' args args'
    by (cases format) (auto simp: bind_eq_Inr simp del: parse_number.simps split: if_splits dest: number)
  show "parse_precision format args = Inr (w, format', args') \<Longrightarrow> length format' \<le> length format"
    by (cases format) (auto simp: bind_eq_Inr split: if_splits dest: star)
  show "parse_type format = Inr (ty, format') \<Longrightarrow> length format' \<le> length format"
    by (cases format) (auto split: if_splits list.splits)
qed

lemma parse_conversion_shorter:
  assumes "parse_conversion format args = Inr (c, format', args')"
  shows "length format' \<le> length format"
  using assms by (auto simp: parse_conversion_def bind_eq_Inr Let_def split: prod.splits if_splits dest!: parse_shorter)

lemma bind_cong [fundef_cong]: "m = m' \<Longrightarrow> (\<And>x. m' = Inr x \<Longrightarrow> f x = f' x) \<Longrightarrow> bind m f = bind m' f'"
  by (cases m') auto

function vprintf_loop ::
  "(string \<Rightarrow> va_list \<Rightarrow> 's \<Rightarrow> fault + 's) \<Rightarrow> ('s \<Rightarrow> memory) \<Rightarrow> (char \<Rightarrow> 's \<Rightarrow> 's) \<Rightarrow> string \<Rightarrow> va_list \<Rightarrow> 's \<Rightarrow> fault + 's" where
  "vprintf_loop self mem output [] args aux = Inl OutOfBounds"
| "vprintf_loop self mem output (ch # format) args aux =
     (if ch = CHR 0x00 then Inr aux
      else if ch \<noteq> CHR ''%'' then vprintf_loop self mem output format args (output ch aux)
      else case format of
        [] \<Rightarrow> Inl OutOfBounds
      | ch' # format' \<Rightarrow>
          if ch' = CHR ''%'' then vprintf_loop self mem output format' args (output (CHR ''%'') aux)
          else bind (parse_conversion format args) (\<lambda>r. case r of (c, format, args) \<Rightarrow>
            (case format of
               [] \<Rightarrow> Inl OutOfBounds
             | ch # format \<Rightarrow> bind (conversion self mem output ch c args aux) (\<lambda>r. case r of (args, aux) \<Rightarrow>
                 vprintf_loop self mem output format args aux))))"
  by pat_completeness auto
termination
  by (relation "measure (\<lambda>(self, mem, output, format, args, aux). length format)")
    (auto dest!: parse_conversion_shorter)

definition vprintf :: "('s \<Rightarrow> memory) \<Rightarrow> (char \<Rightarrow> 's \<Rightarrow> 's) \<Rightarrow> string \<Rightarrow> va_list \<Rightarrow> 's \<Rightarrow> fault + 's" where
  "vprintf mem output = vprintf_loop (vprintf_loop (\<lambda>_ _ _. Inl Hang) mem output) mem output"

section \<open>Output to a buffer\<close>

record vsnprintf_aux =
  vs_mem :: memory
  vs_p :: address
  vs_length :: LONG
  vs_max_length :: LONG

definition vsnprintf_helper :: "char \<Rightarrow> vsnprintf_aux \<Rightarrow> vsnprintf_aux" where
  "vsnprintf_helper ch aux =
     (let fits = sint (vs_length aux) < sint (vs_max_length aux);
          aux = aux\<lparr>vs_length := vs_length aux + 1\<rparr>
      in if fits then aux\<lparr>vs_mem := (vs_mem aux)(vs_p aux := byte ch), vs_p := vs_p aux + 1\<rparr> else aux)"

definition vsnprintf :: "memory \<Rightarrow> address \<Rightarrow> size_t \<Rightarrow> string \<Rightarrow> va_list \<Rightarrow> fault + (LONG \<times> memory)" where
  "vsnprintf m buffer buf_size format args =
     bind (vprintf vs_mem vsnprintf_helper format args
       \<lparr>vs_mem = m, vs_p = buffer, vs_length = 0, vs_max_length = (if buf_size > 0 then buf_size - 1 else 0)\<rparr>) (\<lambda>aux.
     Inr (vs_length aux, if buf_size > 0 then (vs_mem aux)(vs_p aux := NUL) else vs_mem aux))"

definition snprintf :: "memory \<Rightarrow> address \<Rightarrow> size_t \<Rightarrow> string \<Rightarrow> ULONG list \<Rightarrow> fault + (LONG \<times> memory)" where
  "snprintf m buffer buf_size format args = vsnprintf m buffer buf_size (format @ [CHR 0x00]) args"

section \<open>The digit buffer\<close>

declare int_digits.simps [simp del] pad_zeros.simps [simp del]

lemma ib_base_pos: "2 \<le> unat (ib_base b)"
  by (cases b) simp_all

lemma int_digits_fits:
  assumes "unat v < unat (ib_base b) ^ k" and "length buf + 2 * k \<le> 63"
  shows "\<exists>r. int_digits c b v cnt buf = Inr r \<and> length r \<le> length buf + 2 * k"
  using assms
proof (induction k arbitrary: v cnt buf)
  case 0
  then have "v = 0" by (simp add: unat_eq_0)
  then show ?case by (subst int_digits.simps) simp
next
  case (Suc k)
  show ?case
  proof (cases "v = 0")
    case True
    then show ?thesis by (subst int_digits.simps) simp
  next
    case False
    let ?g = "has GROUP c \<and> cnt > 0 \<and> cnt mod ib_group b = 0"
    define buf1 where "buf1 = (if ?g then buf @ [CHR '','']  else buf)"
    have b1: "(if ?g then push (CHR '','') buf else Inr buf) = Inr buf1" "length buf1 \<le> length buf + 1"
      using Suc.prems(2) by (simp_all add: push_def buf1_def)
    let ?d = "ib_digits b ! unat (v mod ib_base b)"
    have b2: "push ?d buf1 = Inr (buf1 @ [?d])" using b1(2) Suc.prems(2) by (simp add: push_def)
    have "unat (v div ib_base b) < unat (ib_base b) ^ k"
      using Suc.prems(1) ib_base_pos [of b] by (simp add: unat_div less_mult_imp_div_less mult.commute)
    moreover have "length (buf1 @ [?d]) + 2 * k \<le> 63" using b1(2) Suc.prems(2) by simp
    ultimately obtain r where "int_digits c b (v div ib_base b) (cnt + 1) (buf1 @ [?d]) = Inr r"
      "length r \<le> length (buf1 @ [?d]) + 2 * k" using Suc.IH by blast
    then show ?thesis using b1 b2 False by (subst int_digits.simps) (auto simp: word_neq_0_conv)
  qed
qed

lemma pad_zeros_length: "length buf \<le> 63 \<Longrightarrow> length (pad_zeros p buf) \<le> 63"
  by (induction p buf rule: pad_zeros.induct) (subst pad_zeros.simps, auto)

lemma digits_fit: "\<exists>r. int_digits c b v 0 [] = Inr r \<and> length r \<le> 63"
proof -
  have "unat v < 2 ^ 64" using unsigned_less [of v, where ?'a = nat] by simp
  moreover have "2 ^ 64 \<le> unat (ib_base b) ^ 22" by (cases b) simp_all
  ultimately have "unat v < unat (ib_base b) ^ 22" by (rule order_less_le_trans)
  from int_digits_fits [OF this, of "[]" c 0] show ?thesis by auto
qed

text \<open>The characters of an integer, in the order they are printed.\<close>

definition int_buffer :: "64 word \<Rightarrow> integer_base \<Rightarrow> printf_conversion \<Rightarrow> string" where
  "int_buffer v b c =
     (let buf = pad_zeros (if sint (cv_precision c) < 0 then 1 else cv_precision c) (case int_digits c b v 0 [] of Inl _ \<Rightarrow> [] | Inr r \<Rightarrow> r)
      in if has POUND c \<and> ib_base b = 8 \<and> (buf = [] \<or> last buf \<noteq> CHR ''0'') then buf @ [CHR ''0''] else buf)"

definition int_text :: "64 word \<Rightarrow> bool \<Rightarrow> bool \<Rightarrow> integer_base \<Rightarrow> printf_conversion \<Rightarrow> string" where
  "int_text v is_signed negative b c =
     (let sgn = sign_char is_signed negative c;
          x = (if has POUND c \<and> v \<noteq> 0 then ib_x b else None);
          buf = int_buffer v b c;
          pad_cnt = cv_width c - of_nat (length buf) - (if x \<noteq> None then 2 else 0) - (if sgn \<noteq> None then 1 else 0);
          n = unat (if sint pad_cnt < 0 then 0 else pad_cnt)
      in (if cv_flags c AND (MINUS OR ZERO) = 0 then replicate n (CHR '' '') else []) @
         (case sgn of None \<Rightarrow> [] | Some ch \<Rightarrow> [ch]) @ (case x of None \<Rightarrow> [] | Some ch \<Rightarrow> [CHR ''0'', ch]) @
         (if has ZERO c then replicate n (CHR ''0'') else []) @ rev buf @
         (if has MINUS c then replicate n (CHR '' '') else []))"

lemma format_integer_text: "format_integer v sg ng b c out aux = Inr (fold out (int_text v sg ng b c) aux)"
proof -
  obtain r where r: "int_digits c b v 0 [] = Inr r" "length r \<le> 63" using digits_fit by blast
  let ?p = "pad_zeros (if sint (cv_precision c) < 0 then 1 else cv_precision c) r"
  have "length (pad_zeros p r) < 64" for p using pad_zeros_length [OF r(2), of p] by simp
  then have "(if has POUND c \<and> ib_base b = 8 \<and> (?p = [] \<or> last ?p \<noteq> CHR ''0'') then push (CHR ''0'') ?p else Inr ?p) =
      Inr (int_buffer v b c)" unfolding int_buffer_def r(1) Let_def sum.case push_def by auto
  then show ?thesis
    unfolding format_integer_def int_text_def Let_def r(1) bind_Inr
    by (cases "sign_char sg ng c"; cases "if has POUND c \<and> v \<noteq> 0 then ib_x b else None") (simp_all add: output_dup_def)
qed

section \<open>What is printed\<close>

text \<open>
  Two runs of the formatter that see the same memory and whose states stay related under every character
  do the same, so a property of the output follows from a property of a single character.
\<close>

locale related_output =
  fixes mem :: "'s \<Rightarrow> memory" and out :: "char \<Rightarrow> 's \<Rightarrow> 's" and mem' :: "'t \<Rightarrow> memory" and out' :: "char \<Rightarrow> 't \<Rightarrow> 't"
    and R :: "'s \<Rightarrow> 't \<Rightarrow> bool"
  assumes same_memory: "R s t \<Longrightarrow> mem s = mem' t" and emit: "R s t \<Longrightarrow> R (out ch s) (out' ch t)"
begin

lemma fold_output: "R s t \<Longrightarrow> R (fold out cs s) (fold out' cs t)"
  by (induction cs arbitrary: s t) (simp_all add: emit)

lemma dup: "R s t \<Longrightarrow> R (output_dup ch n out s) (output_dup ch n out' t)"
  unfolding output_dup_def by (rule fold_output)

lemma integer: "R s t \<Longrightarrow> rel_sum (=) R (format_integer v sg ng b c out s) (format_integer v sg ng b c out' t)"
  by (simp add: format_integer_text fold_output)

lemma chars: "R s t \<Longrightarrow> (\<And>i s t. R s t \<Longrightarrow> get i s = get' i t) \<Longrightarrow>
    R (fold (\<lambda>i s. out (get i s) s) is s) (fold (\<lambda>i t. out' (get' i t) t) is t)"
  by (induction "is" arbitrary: s t) (auto intro: emit)

lemma string: "R s t \<Longrightarrow> (\<And>i s t. R s t \<Longrightarrow> get i s = get' i t) \<Longrightarrow>
    R (format_string get n c out s) (format_string get' n c out' t)"
  by (auto simp: format_string_def Let_def intro!: dup chars)

lemma conversion_related:
  assumes self: "\<And>f as s t. R s t \<Longrightarrow> rel_sum (=) R (self f as s) (self' f as t)" and st: "R s t"
  shows "rel_sum (=) (rel_prod (=) R) (conversion self mem out ch c args s) (conversion self' mem' out' ch c args t)"
proof -
  have b: "rel_sum (=) (rel_prod (=) R) (bind x (\<lambda>s. Inr (as, s))) (bind y (\<lambda>s. Inr (as, s)))"
    if "rel_sum (=) R x y" for x y and as :: va_list
    using that by (cases x; cases y) auto
  have a: "rel_sum (=) (rel_prod (=) R) (bind x f) (bind x g)"
    if "\<And>v as. x = Inr (v, as) \<Longrightarrow> rel_sum (=) (rel_prod (=) R) (f (v, as)) (g (v, as))" for x :: "fault + ('v \<times> va_list)" and f g
    using that by (cases x) auto
  have str: "R (format_string (\<lambda>i s. char_of_byte (mem s (p + of_nat i))) n c out s)
      (format_string (\<lambda>i t. char_of_byte (mem' t (p + of_nat i))) n c out' t)" for p n c
    using st same_memory by (intro string) simp_all
  have c: "rel_sum (=) (rel_prod (=) R) (if P then x else y) (if P then x' else y')"
    if "P \<Longrightarrow> rel_sum (=) (rel_prod (=) R) x x'" "\<not> P \<Longrightarrow> rel_sum (=) (rel_prod (=) R) y y'"
    for P and x y :: "fault + (va_list \<times> 's)" and x' y' using that by simp
  have d: "rel_sum (=) (rel_prod (=) R) (Inr (as, x)) (Inr (as, y))" if "R x y" for as :: va_list and x y using that by simp
  show ?thesis
    unfolding conversion_def
    by (intro c; (rule a)?; (unfold prod.case same_memory [OF st])?;
        (rule b, (rule integer self), rule st)?; (rule d)?; auto intro: string str st)
qed

lemma loop_related:
  assumes self: "\<And>f as s t. R s t \<Longrightarrow> rel_sum (=) R (self f as s) (self' f as t)" and st: "R s t"
  shows "rel_sum (=) R (vprintf_loop self mem out format args s) (vprintf_loop self' mem' out' format args t)"
  using st
proof (induction "length format" arbitrary: format args s t rule: less_induct)
  case less
  show ?case
  proof (cases format)
    case (Cons ch rest)
    show ?thesis
    proof (cases "ch = CHR ''%''")
      case False
      then show ?thesis using less.hyps [of rest] less.prems Cons by (simp add: emit)
    next
      case pc: True
      show ?thesis
      proof (cases rest)
        case (Cons ch' rest')
        show ?thesis
        proof (cases "ch' = CHR ''%''")
          case True
          then show ?thesis using less.hyps [of rest'] less.prems \<open>format = ch # rest\<close> Cons pc by (simp add: emit)
        next
          case False
          show ?thesis
          proof (cases "parse_conversion rest args")
            case (Inl e)
            then show ?thesis using \<open>format = ch # rest\<close> Cons pc False by simp
          next
            case (Inr r)
            obtain c f as where r: "r = (c, f, as)" by (cases r)
            have len: "length f \<le> length rest" using parse_conversion_shorter Inr r by blast
            show ?thesis
            proof (cases f)
              case Nil
              then show ?thesis using \<open>format = ch # rest\<close> Cons pc False Inr r by simp
            next
              case f: (Cons h g)
              have rel: "rel_sum (=) (rel_prod (=) R) (conversion self mem out h c as s) (conversion self' mem' out' h c as t)"
                using self less.prems by (rule conversion_related)
              have "length g < length format" using len f \<open>format = ch # rest\<close> by simp
              then show ?thesis
                using rel less.hyps [of g] \<open>format = ch # rest\<close> Cons pc False Inr r f
                by (cases "conversion self mem out h c as s"; cases "conversion self' mem' out' h c as t") auto
            qed
          qed
        qed
      qed (use Cons pc in simp)
    qed
  qed simp
qed

lemma vprintf_related: "R s t \<Longrightarrow> rel_sum (=) R (vprintf mem out format args s) (vprintf mem' out' format args t)"
  unfolding vprintf_def by (intro loop_related) simp_all

end

text \<open>\<open>printed\<close>: the characters \<open>vsnprintf\<close> hands to its helper, in order.\<close>

definition recorded :: "char \<Rightarrow> vsnprintf_aux \<times> string \<Rightarrow> vsnprintf_aux \<times> string" where
  "recorded ch = (\<lambda>(aux, cs). (vsnprintf_helper ch aux, cs @ [ch]))"

definition start_aux :: "memory \<Rightarrow> address \<Rightarrow> size_t \<Rightarrow> vsnprintf_aux" where
  "start_aux m buffer buf_size =
     \<lparr>vs_mem = m, vs_p = buffer, vs_length = 0, vs_max_length = (if buf_size > 0 then buf_size - 1 else 0)\<rparr>"

definition printed :: "memory \<Rightarrow> address \<Rightarrow> size_t \<Rightarrow> string \<Rightarrow> va_list \<Rightarrow> string" where
  "printed m buffer buf_size format args =
     (case vprintf (vs_mem \<circ> fst) recorded format args (start_aux m buffer buf_size, []) of Inl _ \<Rightarrow> [] | Inr (_, cs) \<Rightarrow> cs)"

text \<open>As long as fewer than \<open>2 ^ 31\<close> characters have come, the buffer holds the first of them.\<close>

definition buffered :: "memory \<Rightarrow> address \<Rightarrow> nat \<Rightarrow> vsnprintf_aux \<Rightarrow> string \<Rightarrow> bool" where
  "buffered m b mx aux cs \<longleftrightarrow> mx < 2 ^ 31 \<and> vs_max_length aux = of_nat mx \<and> vs_length aux = of_nat (length cs) \<and>
     (length cs < 2 ^ 31 \<longrightarrow> vs_p aux = b + of_nat (min (length cs) mx) \<and>
       (\<forall>i < min (length cs) mx. vs_mem aux (b + of_nat i) = byte (cs ! i)) \<and>
       (\<forall>a. of_nat mx \<le> a - b \<longrightarrow> vs_mem aux a = m a))"

lemma sint_of_nat: "n < 2 ^ 31 \<Longrightarrow> sint (of_nat n :: LONG) = int n"
  by (simp add: signed_of_nat signed_take_bit_int_eq_self)

lemma of_nat_eq32: "i < 2 ^ 32 \<Longrightarrow> j < 2 ^ 32 \<Longrightarrow> (of_nat i :: ULONG) = of_nat j \<longleftrightarrow> i = j"
  by (metis unat_of_nat32)

lemma of_nat_le32: "i < 2 ^ 32 \<Longrightarrow> j < 2 ^ 32 \<Longrightarrow> (of_nat i :: ULONG) \<le> of_nat j \<longleftrightarrow> i \<le> j"
  by (simp add: word_le_nat_alt unat_of_nat32)

lemma buffered_step:
  assumes "buffered m b mx aux cs"
  shows "buffered m b mx (vsnprintf_helper ch aux) (cs @ [ch])"
proof (cases "length cs < 2 ^ 31")
  case True
  have i: "mx < 2 ^ 31" "vs_max_length aux = of_nat mx" "vs_length aux = of_nat (length cs)"
    "vs_p aux = b + of_nat (min (length cs) mx)" "\<And>i. i < min (length cs) mx \<Longrightarrow> vs_mem aux (b + of_nat i) = byte (cs ! i)"
    "\<And>a. of_nat mx \<le> a - b \<Longrightarrow> vs_mem aux a = m a" using assms True by (auto simp: buffered_def)
  have fits: "sint (vs_length aux) < sint (vs_max_length aux) \<longleftrightarrow> length cs < mx"
    using i True by (simp add: sint_of_nat)
  show ?thesis
  proof (cases "length cs < mx")
    case lt: True
    have p: "vs_p aux = b + of_nat (length cs)" using i(4) lt by simp
    have "((vs_mem aux)(vs_p aux := byte ch)) (b + of_nat j) = byte ((cs @ [ch]) ! j)" if "j < Suc (length cs)" for j
    proof (cases "j = length cs")
      case False
      then have "j < length cs" using that by simp
      then show ?thesis using i(1) i(5) [of j] lt of_nat_eq32 [of j "length cs"] by (simp add: p nth_append)
    qed (simp add: p)
    moreover have "\<not> of_nat mx \<le> (of_nat (length cs) :: ULONG)" using lt i(1) True by (simp add: of_nat_le32)
    ultimately show ?thesis
      using fits lt i p by (auto simp: buffered_def vsnprintf_helper_def Let_def min_def)
  next
    case ge: False
    then show ?thesis
      using fits i by (auto simp: buffered_def vsnprintf_helper_def Let_def min_def nth_append)
  qed
next
  case False
  then show ?thesis using assms by (auto simp: buffered_def vsnprintf_helper_def Let_def)
qed

interpretation buffer: related_output "vs_mem \<circ> fst" recorded vs_mem vsnprintf_helper
  "\<lambda>(aux', cs) aux. aux' = aux \<and> buffered m b mx aux cs" for m b mx
  by unfold_locales (auto simp: recorded_def buffered_step)

lemma bytes_nth: "(\<And>i. i < n \<Longrightarrow> m (p + of_nat i) = xs ! i) \<Longrightarrow> length xs = n \<Longrightarrow> bytes m p n = xs"
proof (induction n arbitrary: p xs)
  case (Suc n)
  then obtain y ys where xs: "xs = y # ys" by (cases xs) auto
  have "m (p + 1 + of_nat i) = ys ! i" if "i < n" for i
    using Suc.prems(1) [of "Suc i"] that by (simp add: xs algebra_simps)
  then show ?case using Suc.IH [of "p + 1" ys] Suc.prems(1) [of 0] Suc.prems(2) by (simp add: xs)
qed simp

lemma vsnprintf_buffer:
  assumes sz: "0 < sz" "sz \<le> 0x80000000" and few: "length (printed m b sz format args) < 2 ^ 31"
    and r: "vsnprintf m b sz format args = Inr (n, m')" and k: "k = min (length (printed m b sz format args)) (unat sz - 1)"
  shows "n = of_nat (length (printed m b sz format args))" "bytes m' b k = map byte (take k (printed m b sz format args))"
    "m' (b + of_nat k) = NUL" "\<forall>a. sz \<le> a - b \<longrightarrow> m' a = m a"
proof -
  let ?cs = "printed m b sz format args" and ?mx = "unat sz - 1"
  have nz: "sz \<noteq> 0" using sz(1) by auto
  have mx: "?mx < 2 ^ 31" "of_nat ?mx = sz - 1" using sz unat_Suc_pred [OF nz] by (simp_all add: word_le_nat_alt)
  have "buffered m b ?mx (start_aux m b sz) []" using sz(1) mx by (simp add: buffered_def start_aux_def)
  then have rel: "rel_sum (=) (\<lambda>(aux', cs) aux. aux' = aux \<and> buffered m b ?mx aux cs)
      (vprintf (vs_mem \<circ> fst) recorded format args (start_aux m b sz, [])) (vprintf vs_mem vsnprintf_helper format args (start_aux m b sz))"
    by (intro buffer.vprintf_related) simp
  obtain aux where aux: "vprintf vs_mem vsnprintf_helper format args (start_aux m b sz) = Inr aux"
    "n = vs_length aux" "m' = (vs_mem aux)(vs_p aux := NUL)"
    using r sz(1) by (auto simp: vsnprintf_def start_aux_def bind_eq_Inr)
  then obtain cs where cs: "vprintf (vs_mem \<circ> fst) recorded format args (start_aux m b sz, []) = Inr (aux, cs)" "buffered m b ?mx aux cs"
    using rel by (cases "vprintf (vs_mem \<circ> fst) recorded format args (start_aux m b sz, [])") auto
  then have eq: "?cs = cs" by (simp add: printed_def)
  have few: "length cs < 2 ^ 31" using few eq by simp
  then have i: "vs_length aux = of_nat (length cs)" "vs_p aux = b + of_nat k"
    "\<And>i. i < k \<Longrightarrow> vs_mem aux (b + of_nat i) = byte (cs ! i)" "\<And>a. sz - 1 \<le> a - b \<Longrightarrow> vs_mem aux a = m a"
    using cs(2) mx(2) by (auto simp: buffered_def k eq)
  show "n = of_nat (length ?cs)" using i(1) aux(2) eq by simp
  show "m' (b + of_nat k) = NUL" using i(2) aux(3) by simp
  have kl: "k \<le> length cs" using k eq by simp
  have "m' (b + of_nat j) = map byte (take k ?cs) ! j" if "j < k" for j
  proof -
    have "(of_nat j :: ULONG) \<noteq> of_nat k" using of_nat_eq32 [of j k] that kl few by simp
    then show ?thesis using i(2,3) that aux(3) kl by (simp add: eq)
  qed
  then show "bytes m' b k = map byte (take k ?cs)" by (rule bytes_nth) (simp_all add: eq kl min_absorb2)
  show "\<forall>a. sz \<le> a - b \<longrightarrow> m' a = m a"
  proof (intro allI impI)
    fix a
    assume a: "sz \<le> a - b"
    have "of_nat k < sz"
      using k unat_Suc_pred [OF nz] few eq by (simp add: word_less_nat_alt unat_of_nat32)
    then have "vs_p aux \<noteq> a" using i(2) a by (auto simp: not_le [symmetric])
    moreover have "sz - 1 \<le> a - b" using a unat_Suc_pred [OF nz] by (simp add: word_le_nat_alt)
    ultimately show "m' a = m a" using i(4) aux(3) by simp
  qed
qed

section \<open>Decimal numbers\<close>

fun decimal :: "nat \<Rightarrow> nat list" where
  "decimal n = (if n = 0 then [] else n mod 10 # decimal (n div 10))"

declare decimal.simps [simp del]

definition digit_char :: "nat \<Rightarrow> char" where
  "digit_char d = ''0123456789'' ! d"

lemma decimal_less: "d \<in> set (decimal n) \<Longrightarrow> d < 10"
  by (induction n rule: decimal.induct) (subst (asm) (2) decimal.simps, auto split: if_splits)

lemma decimal_length: "n < 10 ^ k \<Longrightarrow> length (decimal n) \<le> k"
proof (induction k arbitrary: n)
  case (Suc k)
  then have "n div 10 < 10 ^ k" by (simp add: less_mult_imp_div_less mult.commute)
  then show ?case using Suc.IH by (subst decimal.simps) auto
qed (simp add: decimal.simps)

lemma decimal_value: "foldl (\<lambda>a d. a * 10 + of_nat d) 0 (rev (decimal n)) = (of_nat n :: LONG)"
proof (induction n rule: decimal.induct)
  case (1 n)
  show ?case
  proof (cases "n = 0")
    case False
    have "of_nat (n div 10 * 10 + n mod 10) = (of_nat n :: LONG)" by simp
    then have "of_nat (n div 10) * 10 + of_nat (n mod 10) = (of_nat n :: LONG)" by (simp only: of_nat_add of_nat_mult of_nat_numeral)
    then show ?thesis using 1 False by (subst decimal.simps) simp
  qed (simp add: decimal.simps)
qed

lemma digit_of_digit_char: "d < 10 \<Longrightarrow> digit_of (byte (digit_char d)) = Some (of_nat d)"
proof -
  assume "d < 10"
  then have "d \<in> {0, 1, 2, 3, 4, 5, 6, 7, 8, 9}" by auto
  then show ?thesis by (elim insertE) (simp_all add: digit_of_def between_def byte_def digit_char_def)
qed

lemma strtol_digits_decimal:
  assumes "cstr m s (map (byte \<circ> digit_char) ds)" and "\<forall>d \<in> set ds. d < 10"
  shows "strtol_digits m s 10 val = Some (s + of_nat (length ds), foldl (\<lambda>a d. a * 10 + of_nat d) val ds)"
  using assms
proof (induction ds arbitrary: s val)
  case Nil
  then show ?case by (subst strtol_digits.simps) (simp add: digit_of_def between_def)
next
  case (Cons d ds)
  have d: "digit_of (m s) = Some (of_nat d)" "\<not> (10 :: int) \<le> sint (of_nat d :: LONG)"
    using Cons.prems digit_of_digit_char [of d] by (simp_all add: sint_of_nat)
  have "strtol_digits m (s + 1) 10 (val * 10 + of_nat d) =
      Some (s + 1 + of_nat (length ds), foldl (\<lambda>a d. a * 10 + of_nat d) (val * 10 + of_nat d) ds)"
    using Cons by simp
  then show ?case by (subst strtol_digits.simps) (simp add: d add.assoc)
qed

lemma int_digits_decimal:
  assumes "\<not> has GROUP c" "length buf + length (decimal (unat v)) \<le> 64"
  shows "int_digits c base_d v cnt buf = Inr (buf @ map digit_char (decimal (unat v)))"
  using assms
proof (induction "unat v" arbitrary: v cnt buf rule: less_induct)
  case less
  show ?case
  proof (cases "v = 0")
    case True
    then show ?thesis by (subst int_digits.simps) (simp add: decimal.simps)
  next
    case False
    have dec: "decimal (unat v) = unat (v mod 10) # decimal (unat (v div 10))"
      using False by (subst decimal.simps) (simp add: unat_eq_0 unat_mod unat_div)
    have lt: "unat (v div 10) < unat v" using div_base_less [of v base_d] False by (simp add: word_neq_0_conv)
    have len: "length (buf @ [digit_char (unat (v mod 10))]) + length (decimal (unat (v div 10))) \<le> 64"
      using less.prems(2) by (simp add: dec)
    then have "length buf < 64" by simp
    then show ?thesis
      using less.hyps [OF lt less.prems(1) len] less.prems(1) False
      by (subst int_digits.simps) (simp add: word_neq_0_conv push_def dec digit_char_def)
  qed
qed

text \<open>The conversion \<open>%d\<close> without flags, width or precision.\<close>

abbreviation (input) plain :: printf_conversion where
  "plain \<equiv> \<lparr>cv_flags = 0, cv_width = 0, cv_precision = - 1, cv_type = INTTYPE\<rparr>"

definition magnitude :: "LONG \<Rightarrow> 64 word" where
  "magnitude v = (if sint v < 0 then - scast v else scast v)"

definition decimal_digits :: "nat \<Rightarrow> nat list" where
  "decimal_digits n = (if n = 0 then [0] else rev (decimal n))"

lemma magnitude_unat: "unat (magnitude v) = nat \<bar>sint v\<bar>"
proof -
  have "- (2 ^ 31) \<le> sint v" "sint v < 2 ^ 31" using sint_ge [of v] sint_lt [of v] by simp_all
  then have "uint (word_of_int \<bar>sint v\<bar> :: 64 word) = \<bar>sint v\<bar>" by (simp add: take_bit_int_eq_self uint_word_of_int_eq)
  moreover have "magnitude v = word_of_int \<bar>sint v\<bar>"
    by (simp only: magnitude_def abs_if scast_eq of_int_minus if_distrib [of word_of_int])
  ultimately show ?thesis by (simp add: unat_eq_nat_uint)
qed

lemma digit_char_byte: "d < 10 \<Longrightarrow> byte (digit_char d) \<notin> {0, 0x20, 0x09, 0x2B, 0x2D}"
proof -
  assume "d < 10"
  then have "d \<in> {0, 1, 2, 3, 4, 5, 6, 7, 8, 9}" by auto
  then show ?thesis by (elim insertE) (simp_all add: byte_def digit_char_def)
qed

lemma decimal_digits:
  assumes "n < 10 ^ 10"
  shows "\<forall>d \<in> set (decimal_digits n). d < 10" "0 < length (decimal_digits n)" "length (decimal_digits n) \<le> 10"
    "foldl (\<lambda>a d. a * 10 + of_nat d) 0 (decimal_digits n) = (of_nat n :: LONG)"
    and "pad_zeros 1 (map digit_char (decimal n)) = rev (map digit_char (decimal_digits n))"
proof -
  show "\<forall>d \<in> set (decimal_digits n). d < 10" by (auto simp: decimal_digits_def dest: decimal_less)
  have ne: "decimal n \<noteq> []" if "n \<noteq> 0" using that by (subst decimal.simps) simp
  then show "0 < length (decimal_digits n)" "length (decimal_digits n) \<le> 10"
    using decimal_length [OF assms] by (auto simp: decimal_digits_def)
  show "foldl (\<lambda>a d. a * 10 + of_nat d) 0 (decimal_digits n) = (of_nat n :: LONG)"
    by (auto simp: decimal_digits_def decimal_value)
  show "pad_zeros 1 (map digit_char (decimal n)) = rev (map digit_char (decimal_digits n))"
  proof (cases "n = 0")
    case True
    have "pad_zeros 1 [CHR ''0''] = [CHR ''0'']" by (subst pad_zeros.simps) simp
    then show ?thesis using True by (subst pad_zeros.simps) (simp add: decimal.simps decimal_digits_def digit_char_def)
  next
    case False
    then have "0 < length (decimal n)" using ne by simp
    then show ?thesis using False by (subst pad_zeros.simps) (simp add: decimal_digits_def rev_map)
  qed
qed

lemma magnitude_small: "unat (magnitude v) < 10 ^ 10"
proof -
  have "- (2 ^ 31) \<le> sint v" "sint v < 2 ^ 31" using sint_ge [of v] sint_lt [of v] by simp_all
  then show ?thesis by (simp add: magnitude_unat)
qed

definition decimal_text :: "LONG \<Rightarrow> string" where
  "decimal_text v = (if sint v < 0 then ''-'' else []) @ map digit_char (decimal_digits (unat (magnitude v)))"

lemma int_text_plain: "int_text (magnitude v) True (sint v < 0) base_d plain = decimal_text v"
proof -
  let ?n = "unat (magnitude v)"
  note dd = decimal_digits [OF magnitude_small, of v]
  have "int_digits plain base_d (magnitude v) 0 [] = Inr (map digit_char (decimal ?n))"
    using int_digits_decimal [of plain "[]"] decimal_length [OF magnitude_small, of v] by (simp add: has_def)
  then have buf: "int_buffer (magnitude v) base_d plain = rev (map digit_char (decimal_digits ?n))"
    using dd(5) by (simp add: int_buffer_def has_def)
  have neg: "sint (- of_nat k :: LONG) < 0" if "0 < k" "k < 2 ^ 31" for k
    using that by (simp add: word_size sint_of_nat flip: of_nat_Suc add: signed_take_bit_int_eq_self sint_word_ariths(4))
  have pad: "sint (- of_nat (length (decimal_digits ?n)) - (if sint v < 0 then 1 else 0) :: LONG) < 0"
    using neg [of "length (decimal_digits ?n)"] neg [of "Suc (length (decimal_digits ?n))"] dd(2,3) by (auto simp: minus_diff_commute [of _ 1])
  show ?thesis
    using pad by (auto simp: int_text_def Let_def buf has_def sign_char_def decimal_text_def)
qed

lemma vprintf_d: "vprintf mem out [CHR ''%'', CHR ''d'', CHR 0x00] [v] aux = Inr (fold out (decimal_text v) aux)"
proof -
  have "isdigit (char_int (CHR ''d'')) = False" "isdigit (char_int (CHR 0x00)) = False"
    by (simp_all add: isdigit_def in_range_def char_int_def byte_def)
  then have parse: "parse_conversion [CHR ''d'', CHR 0x00] [v] = Inr (plain, [CHR ''d'', CHR 0x00], [v])"
    by (simp add: parse_conversion_def Let_def)
  have up: "sint (scast v :: 64 word) = sint v"
    using sint_ge [of v] sint_lt [of v] by (simp add: signed_scast_eq signed_take_bit_int_eq_self)
  have conv: "conversion self mem out (CHR ''d'') plain [v] aux = Inr ([], fold out (decimal_text v) aux)" for self
    using int_text_plain [of v] by (simp add: conversion_def format_integer_text up magnitude_def)
  show ?thesis using parse conv by (simp add: vprintf_def)
qed

lemma cstr_bytes: "bytes m p n = xs \<Longrightarrow> m (p + of_nat n) = NUL \<Longrightarrow> NUL \<notin> set xs \<Longrightarrow> cstr m p xs"
proof (induction n arbitrary: p xs)
  case (Suc n)
  then show ?case using Suc.IH [of "p + 1" "bytes m (p + 1) n"] by (auto simp: algebra_simps)
qed simp

lemma strtol_decimal:
  assumes "cstr m b (map byte (decimal_text v))"
  shows "strtol m b 10 = Some (v, b + of_nat (length (decimal_text v)))"
proof -
  let ?n = "unat (magnitude v)"
  note dd = decimal_digits [OF magnitude_small, of v]
  have val: "of_nat ?n = (if sint v < 0 then - v else v)"
  proof -
    have "of_nat ?n = (of_int \<bar>sint v\<bar> :: LONG)" unfolding magnitude_unat by (rule of_nat_nat) simp
    also have "\<dots> = (if sint v < 0 then - v else v)" by (simp add: abs_if)
    finally show ?thesis .
  qed
  obtain d ds where ds: "decimal_digits ?n = d # ds" using dd(2) by (cases "decimal_digits ?n") auto
  have d: "byte (digit_char d) \<notin> {0, 0x20, 0x09, 0x2B, 0x2D}" using digit_char_byte dd(1) ds by simp
  show ?thesis
  proof (cases "sint v < 0")
    case True
    then have c: "m b = 0x2D" "cstr m (b + 1) (map (byte \<circ> digit_char) (decimal_digits ?n))"
      using assms by (auto simp: decimal_text_def byte_def)
    have "skip_blanks m b = Some b" using c(1) by (subst skip_blanks.simps) simp
    then show ?thesis
      using c strtol_digits_decimal [OF c(2) dd(1), of 0] dd(4) val True
      by (simp add: strtol_def strtol_base_def decimal_text_def add.assoc)
  next
    case False
    then have c: "cstr m b (map (byte \<circ> digit_char) (decimal_digits ?n))" using assms by (simp add: decimal_text_def)
    then have "m b = byte (digit_char d)" by (simp add: ds)
    moreover from this have "skip_blanks m b = Some b" using d by (subst skip_blanks.simps) simp
    ultimately show ?thesis
      using strtol_digits_decimal [OF c dd(1), of 0] dd(4) val False d
      by (simp add: strtol_def strtol_base_def decimal_text_def)
  qed
qed

lemma fold_recorded: "fold recorded cs (aux, xs) = (fold vsnprintf_helper cs aux, xs @ cs)"
  by (induction cs arbitrary: aux xs) (simp_all add: recorded_def)

lemma decimal_text_chars: "length (decimal_text v) \<le> 11" "NUL \<notin> set (map byte (decimal_text v))"
proof -
  note dd = decimal_digits [OF magnitude_small, of v]
  show "length (decimal_text v) \<le> 11" using dd(3) by (simp add: decimal_text_def)
  show "NUL \<notin> set (map byte (decimal_text v))"
    using dd(1) digit_char_byte by (fastforce simp: decimal_text_def byte_def)
qed

text \<open>The two messages are printed whatever \<open>self\<close> is, so one level of nesting is enough.\<close>

lemma parse_plain:
  "parse_conversion (CHR ''c'' # f) args = Inr (plain, CHR ''c'' # f, args)"
  "parse_conversion (CHR 0x00 # f) args = Inr (plain, CHR 0x00 # f, args)"
proof -
  have "isdigit (char_int (CHR ''c'')) = False" "isdigit (char_int (CHR 0x00)) = False"
    by (simp_all add: isdigit_def in_range_def char_int_def byte_def)
  then show "parse_conversion (CHR ''c'' # f) args = Inr (plain, CHR ''c'' # f, args)"
    "parse_conversion (CHR 0x00 # f) args = Inr (plain, CHR 0x00 # f, args)"
    by (simp_all add: parse_conversion_def Let_def)
qed

lemma literal_printed:
  "CHR 0x00 \<notin> set cs \<Longrightarrow> CHR ''%'' \<notin> set cs \<Longrightarrow>
     vprintf_loop self mem out (cs @ f) args aux = vprintf_loop self mem out f args (fold out cs aux)"
  by (induction cs arbitrary: aux) auto

lemma message_printed:
  assumes "CHR 0x00 \<notin> set cs" "CHR ''%'' \<notin> set cs"
  shows "\<exists>aux'. vprintf_loop self mem out (''<<no %%%c'' @ cs @ [CHR 0x00]) [w] aux = Inr aux'"
proof -
  have "vprintf_loop self mem out (''<<no '' @ ''%%%c'' @ cs @ [CHR 0x00]) [w] aux =
      vprintf_loop self mem out (''%%%c'' @ cs @ [CHR 0x00]) [w] (fold out ''<<no '' aux)" by (rule literal_printed) auto
  then show ?thesis using literal_printed [OF assms, of self mem out "[CHR 0x00]"] by (simp add: parse_plain conversion_def)
qed

text \<open>A format that ends in a lone percent sign is read past its terminator.\<close>

lemma trailing_percent: "snprintf m b sz ''%'' [] = Inl OutOfBounds"
proof -
  have "vprintf vs_mem vsnprintf_helper [CHR ''%'', CHR 0x00] [] aux = Inl OutOfBounds" for aux
    using message_printed [of "'' conversion>>''" "\<lambda>_ _ _. Inl Hang" vs_mem vsnprintf_helper "char_int (CHR 0x00)" aux]
    by (auto simp: vprintf_def parse_plain conversion_def simp del: vprintf_loop.simps(2)) (simp add: parse_plain conversion_def)
  then show ?thesis by (simp add: snprintf_def vsnprintf_def)
qed

section \<open>Properties\<close>

text \<open>C30. \<open>vsnprintf\<close> keeps to its buffer: as long as fewer than \<open>2 ^ 31\<close> characters are printed, it writes
  nothing outside the \<open>sz\<close> bytes, leaves there the first \<open>sz - 1\<close> printed characters followed by a
  terminator, and returns how many characters there were.\<close>

theorem vsnprintf_bounded:
  assumes "0 < sz" and "sz \<le> 0x80000000" and "length (printed m b sz format args) < 2 ^ 31"
    and "vsnprintf m b sz format args = Inr (n, m')" and "k = min (length (printed m b sz format args)) (unat sz - 1)"
  shows "n = of_nat (length (printed m b sz format args)) \<and> bytes m' b k = map byte (take k (printed m b sz format args)) \<and>
    m' (b + of_nat k) = NUL \<and> (\<forall>a. sz \<le> a - b \<longrightarrow> m' a = m a)"
  using vsnprintf_buffer [OF assms] by blast

theorem vsnprintf_bounded_witness:
  "\<exists>n m'. vsnprintf (\<lambda>_. 0) 100 2 [CHR ''a'', CHR ''b'', CHR 0x00] [] = Inr (n, m') \<and> n = 2 \<and> m' 100 = 97 \<and> m' 101 = 0"
proof -
  have p: "printed (\<lambda>_. 0) 100 2 [CHR ''a'', CHR ''b'', CHR 0x00] [] = ''ab''"
    by (simp add: printed_def vprintf_def recorded_def)
  obtain n m' where r: "vsnprintf (\<lambda>_. 0) 100 2 [CHR ''a'', CHR ''b'', CHR 0x00] [] = Inr (n, m')"
    by (simp add: vsnprintf_def vprintf_def)
  have "bytes m' 100 1 = m' 100 # bytes m' 101 0" by (simp add: One_nat_def del: bytes.simps(1))
  then show ?thesis
    using vsnprintf_bounded [OF _ _ _ r refl] r by (auto simp: p byte_def)
qed

text \<open>The 64 characters in which \<open>format_integer\<close> collects digits, separators and leading zeros are
  enough for every value, base, flag and precision: it never writes past them.\<close>

theorem format_integer_buffer: "\<exists>aux'. format_integer v is_signed negative b c output aux = Inr aux'"
  by (simp add: format_integer_text)

text \<open>C29. Printing a number with \<open>%d\<close> and reading it with \<open>strtol\<close> gives it back, for all 32-bit values, and
  \<open>strtol\<close> stops at the terminator.\<close>

theorem print_parse_roundtrip:
  assumes "12 \<le> sz" and "sz \<le> 0x80000000"
  shows "\<exists>n m'. snprintf m b sz ''%d'' [v] = Inr (n, m') \<and> strtol m' b 10 = Some (v, b + n)"
proof -
  let ?f = "[CHR ''%'', CHR ''d'', CHR 0x00]"
  have sz: "0 < sz" "11 \<le> unat sz - 1" using assms(1) by (auto simp: word_less_nat_alt word_le_nat_alt)
  have p: "printed m b sz ?f [v] = decimal_text v" unfolding printed_def vprintf_d by (simp add: fold_recorded)
  obtain n m' where r: "vsnprintf m b sz ?f [v] = Inr (n, m')" unfolding vsnprintf_def vprintf_d by simp
  have k: "length (decimal_text v) = min (length (printed m b sz ?f [v])) (unat sz - 1)"
    using decimal_text_chars(1) [of v] sz(2) by (simp add: p)
  have few: "length (printed m b sz ?f [v]) < 2 ^ 31" using decimal_text_chars(1) [of v] by (simp add: p)
  note buf = vsnprintf_buffer [OF sz(1) assms(2) few r k]
  have "cstr m' b (map byte (decimal_text v))"
    using buf(2,3) decimal_text_chars(2) by (intro cstr_bytes) (simp_all add: p)
  then show ?thesis using r buf(1) strtol_decimal by (auto simp: snprintf_def p)
qed

theorem print_parse_roundtrip_witness:
  "\<exists>n m'. snprintf (\<lambda>_. 0) 100 12 ''%d'' [0x80000000] = Inr (n, m') \<and> strtol m' 100 10 = Some (0x80000000, 100 + n)"
  by (rule print_parse_roundtrip) simp_all

end
