(* ===== verification/Io.thy ===== *)
theory Io
  imports Intr KStdio
begin

text \<open>
  The I/O manager, \<open>io/\<close>, and the driver that puts FatFs behind it, \<open>fs/kosfs.c\<close>: request packets, driver, device and file objects, and the
  path of a request from a file handle through the dispatch table of a driver to the file system. Driver routines are known by their
  numbers; the functions of the third-party FatFs are the record \<open>fat\<close>. Packets and object bodies are kept apart from the bytes of memory.
\<close>

abbreviation (input) IRP_MJ_CREATE :: UCHAR where "IRP_MJ_CREATE \<equiv> 0x00"
abbreviation (input) IRP_MJ_CLOSE :: UCHAR where "IRP_MJ_CLOSE \<equiv> 0x02"
abbreviation (input) IRP_MJ_READ :: UCHAR where "IRP_MJ_READ \<equiv> 0x03"
abbreviation (input) IRP_MJ_WRITE :: UCHAR where "IRP_MJ_WRITE \<equiv> 0x04"
abbreviation (input) IRP_MJ_QUERY_INFORMATION :: UCHAR where "IRP_MJ_QUERY_INFORMATION \<equiv> 0x05"
abbreviation (input) IRP_MJ_SET_INFORMATION :: UCHAR where "IRP_MJ_SET_INFORMATION \<equiv> 0x06"
abbreviation (input) IRP_MJ_MAXIMUM_FUNCTION :: UCHAR where "IRP_MJ_MAXIMUM_FUNCTION \<equiv> 0x1B"
abbreviation (input) IRP_MN_NULL :: UCHAR where "IRP_MN_NULL \<equiv> 0"
abbreviation (input) IO_MAX_STACKSIZE_ALLOWED :: nat where "IO_MAX_STACKSIZE_ALLOWED \<equiv> 4"
abbreviation (input) MAXPATHLEN :: size_t where "MAXPATHLEN \<equiv> 1024"
abbreviation (input) OBJECT_TYPE_FILE :: nat where "OBJECT_TYPE_FILE \<equiv> 0"
abbreviation (input) OBJECT_TYPE_DEVICE :: nat where "OBJECT_TYPE_DEVICE \<equiv> 3"
abbreviation (input) OBJECT_TYPE_DRIVER :: nat where "OBJECT_TYPE_DRIVER \<equiv> 4"
abbreviation (input) sizeof_IRP :: ULONG where "sizeof_IRP \<equiv> 100"
abbreviation (input) sizeof_DEVICE_OBJECT :: ULONG where "sizeof_DEVICE_OBJECT \<equiv> 112"
abbreviation (input) sizeof_DRIVER_OBJECT :: ULONG where "sizeof_DRIVER_OBJECT \<equiv> 140"
abbreviation (input) sizeof_FILE_OBJECT :: ULONG where "sizeof_FILE_OBJECT \<equiv> 1048"
abbreviation (input) sizeof_FIL :: ULONG where "sizeof_FIL \<equiv> 548"
abbreviation (input) sizeof_FATFS :: ULONG where "sizeof_FATFS \<equiv> 564"
abbreviation (input) TAG_IRP :: ULONG where "TAG_IRP \<equiv> 0x49707249"
abbreviation (input) TAG_FILE :: ULONG where "TAG_FILE \<equiv> 0x656C6946"
abbreviation (input) TAG_FCB :: ULONG where "TAG_FCB \<equiv> 0x20424346"
abbreviation (input) TAG_FATF :: ULONG where "TAG_FATF \<equiv> 0x46544146"

section \<open>State\<close>

record IO_STACK_LOCATION =
  sl_MajorFunction :: UCHAR
  sl_MinorFunction :: UCHAR

record IRP =
  irp_Buffer :: PVOID
  irp_BufferSize :: size_t
  irp_pFileObj :: PVOID
  irp_Offset :: ULONG
  irp_IoStack :: "nat \<Rightarrow> IO_STACK_LOCATION"
  irp_CurrentStackLocation :: LONG
  irp_Cancel :: bool
  irp_IrpCancelRoutine :: "nat option"
  irp_Completed :: bool
  irp_Status :: KSTATUS
  irp_Information :: ULONG

record DEVICE_OBJECT =
  dev_Size :: USHORT
  dev_DriverObject :: PVOID
  dev_Characteristics :: ULONG
  dev_StackSize :: LONG
  dev_DeviceExtension :: PVOID

record DRIVER_OBJECT =
  drv_DriverSize :: ULONG
  drv_DriverInit :: "nat option"
  drv_DriverUnload :: "nat option"
  drv_MajorFunction :: "nat \<Rightarrow> nat option"

record FILE_OBJECT =
  fo_DeviceObject :: PVOID
  fo_FileMode :: ULONG
  fo_FileOffset :: LONG
  fo_FsContext :: PVOID

record io_state = intr_state +
  IoFileObjectType :: "nat option"
  IoDriverObjectType :: "nat option"
  DeviceNumber :: ULONG
  DeviceObjects :: "PVOID \<Rightarrow> DEVICE_OBJECT"
  DriverObjects :: "PVOID \<Rightarrow> DRIVER_OBJECT"
  FileObjects :: "PVOID \<Rightarrow> FILE_OBJECT"
  Irps :: "PVOID \<Rightarrow> IRP"

definition set_irp :: "PVOID \<Rightarrow> (IRP \<Rightarrow> IRP) \<Rightarrow> 'a io_state_scheme \<Rightarrow> 'a io_state_scheme" where
  "set_irp a f s = s\<lparr>Irps := (Irps s)(a := f (Irps s a))\<rparr>"

definition set_file :: "PVOID \<Rightarrow> (FILE_OBJECT \<Rightarrow> FILE_OBJECT) \<Rightarrow> 'a io_state_scheme \<Rightarrow> 'a io_state_scheme" where
  "set_file a f s = s\<lparr>FileObjects := (FileObjects s)(a := f (FileObjects s a))\<rparr>"

definition set_device :: "PVOID \<Rightarrow> (DEVICE_OBJECT \<Rightarrow> DEVICE_OBJECT) \<Rightarrow> 'a io_state_scheme \<Rightarrow> 'a io_state_scheme" where
  "set_device a f s = s\<lparr>DeviceObjects := (DeviceObjects s)(a := f (DeviceObjects s a))\<rparr>"

definition set_driver :: "PVOID \<Rightarrow> (DRIVER_OBJECT \<Rightarrow> DRIVER_OBJECT) \<Rightarrow> 'a io_state_scheme \<Rightarrow> 'a io_state_scheme" where
  "set_driver a f s = s\<lparr>DriverObjects := (DriverObjects s)(a := f (DriverObjects s a))\<rparr>"

text \<open>\<open>ObCreateObject\<close> clears the memory of a new object; this is what that means for the fields of each kind.\<close>

definition clear_device :: "PVOID \<Rightarrow> 'a io_state_scheme \<Rightarrow> 'a io_state_scheme" where
  "clear_device a = set_device a (\<lambda>_. \<lparr>dev_Size = 0, dev_DriverObject = 0, dev_Characteristics = 0, dev_StackSize = 0, dev_DeviceExtension = 0\<rparr>)"

definition clear_driver :: "PVOID \<Rightarrow> 'a io_state_scheme \<Rightarrow> 'a io_state_scheme" where
  "clear_driver a = set_driver a (\<lambda>_. \<lparr>drv_DriverSize = 0, drv_DriverInit = None, drv_DriverUnload = None, drv_MajorFunction = (\<lambda>_. None)\<rparr>)"

definition clear_file :: "PVOID \<Rightarrow> 'a io_state_scheme \<Rightarrow> 'a io_state_scheme" where
  "clear_file a = set_file a (\<lambda>_. \<lparr>fo_DeviceObject = 0, fo_FileMode = 0, fo_FileOffset = 0, fo_FsContext = 0\<rparr>)"

section \<open>Request packets\<close>

text \<open>The routines of the drivers by their numbers: a device, a packet, a state.\<close>

type_synonym 's driver_routines = "nat \<Rightarrow> PVOID \<Rightarrow> PVOID \<Rightarrow> 's \<Rightarrow> fault + (KSTATUS \<times> 's)"

definition stack_location :: "LONG \<Rightarrow> IRP \<Rightarrow> fault + nat" where
  "stack_location i irp = (if 0 \<le> sint i \<and> sint i < int IO_MAX_STACKSIZE_ALLOWED then Inr (unat i) else Inl OutOfBounds)"

definition IoGetCurrentIrpStackLocation :: "PVOID \<Rightarrow> 'a io_state_scheme \<Rightarrow> fault + IO_STACK_LOCATION" where
  "IoGetCurrentIrpStackLocation pIrp s =
     bind (stack_location (irp_CurrentStackLocation (Irps s pIrp)) (Irps s pIrp)) (\<lambda>i. Inr (irp_IoStack (Irps s pIrp) i))"

definition IoAdvanceIrpStackPointer :: "PVOID \<Rightarrow> 'a io_state_scheme \<Rightarrow> 'a io_state_scheme" where
  "IoAdvanceIrpStackPointer pIrp s = set_irp pIrp (\<lambda>i. i\<lparr>irp_CurrentStackLocation := irp_CurrentStackLocation i + 1\<rparr>) s"

definition IoCompleteRequest :: "PVOID \<Rightarrow> 'a io_state_scheme \<Rightarrow> 'a io_state_scheme" where
  "IoCompleteRequest pIrp s = set_irp pIrp (\<lambda>i. i\<lparr>irp_Completed := True\<rparr>) s"

text \<open>The packet is not cleared: what its memory held before stays in the fields that are not written.\<close>

definition IoBuildIrp ::
  "'a io_state_scheme deferred_routines \<Rightarrow> nat \<Rightarrow> PVOID \<Rightarrow> UCHAR \<Rightarrow> UCHAR \<Rightarrow> PVOID \<Rightarrow> size_t \<Rightarrow> ULONG \<Rightarrow> 'a io_state_scheme \<Rightarrow>
   fault + (PVOID \<times> 'a io_state_scheme)" where
  "IoBuildIrp run fuel pFileObj MajorFunction MinorFunction Buffer BufferSize Offset s =
     bind (MmAllocatePoolWithTag run fuel PagedPool sizeof_IRP TAG_IRP s) (\<lambda>(pIrp, s).
     if pIrp = 0 then Inr (0, s)
     else
     let s = set_irp pIrp (\<lambda>i. i\<lparr>irp_Buffer := Buffer, irp_BufferSize := BufferSize, irp_pFileObj := pFileObj, irp_Offset := Offset,
           irp_CurrentStackLocation := - 1, irp_Cancel := False, irp_IrpCancelRoutine := None, irp_Completed := False\<rparr>) s
     in bind (stack_location (irp_CurrentStackLocation (Irps s pIrp) + 1) (Irps s pIrp)) (\<lambda>n.
        Inr (pIrp, set_irp pIrp (\<lambda>i. i\<lparr>irp_IoStack := (irp_IoStack i)(n := \<lparr>sl_MajorFunction = MajorFunction,
          sl_MinorFunction = MinorFunction\<rparr>)\<rparr>) s)))"

definition IoFreeIRP ::
  "'a io_state_scheme deferred_routines \<Rightarrow> nat \<Rightarrow> PVOID \<Rightarrow> 'a io_state_scheme \<Rightarrow> fault + 'a io_state_scheme" where
  "IoFreeIRP run fuel pIrp s = MmFreePoolWithTag run fuel pIrp TAG_IRP s"

definition IoCallDriver ::
  "'a io_state_scheme driver_routines \<Rightarrow> PVOID \<Rightarrow> PVOID \<Rightarrow> 'a io_state_scheme \<Rightarrow> fault + (KSTATUS \<times> 'a io_state_scheme)" where
  "IoCallDriver drivers pDeviceObject pIrp s =
     (let s = IoAdvanceIrpStackPointer pIrp s in
      if sint (irp_CurrentStackLocation (Irps s pIrp)) \<ge> sint (dev_StackSize (DeviceObjects s pDeviceObject))
      then Inl (KeBugCheck ''Crossed Irp stack size'')
      else
      let pDriverObject = dev_DriverObject (DeviceObjects s pDeviceObject) in
      bind (IoGetCurrentIrpStackLocation pIrp s) (\<lambda>pIosp.
      if pDriverObject = 0 then Inl NullPointer
      else if sl_MajorFunction pIosp > IRP_MJ_MAXIMUM_FUNCTION then Inl OutOfBounds
      else deref (drv_MajorFunction (DriverObjects s pDriverObject) (unat (sl_MajorFunction pIosp))) (\<lambda>r. drivers r pDeviceObject pIrp s)))"

definition IoFileOperations ::
  "'a io_state_scheme driver_routines \<Rightarrow> 'a io_state_scheme deferred_routines \<Rightarrow> nat \<Rightarrow> PVOID \<Rightarrow> PVOID \<Rightarrow> ULONG \<Rightarrow> ULONG \<Rightarrow> ULONG \<Rightarrow>
   'a io_state_scheme \<Rightarrow> fault + (KSTATUS \<times> 'a io_state_scheme)" where
  "IoFileOperations drivers run fuel FileObject Buffer NumberOfBytes MajorFunction MinorFunction s =
     ASSERT ''IoFileOperations: 0'' (FileObject \<noteq> 0)
     (bind (IoBuildIrp run fuel FileObject (ucast MajorFunction) (ucast MinorFunction) Buffer NumberOfBytes
        (fo_FileOffset (FileObjects s FileObject)) s) (\<lambda>(pIrp, s).
      ASSERT ''IoFileOperations: pIrp'' (pIrp \<noteq> 0)
      (bind (IoCallDriver drivers (fo_DeviceObject (FileObjects s FileObject)) pIrp s) (\<lambda>(status, s).
       bind (IoFreeIRP run fuel pIrp s) (\<lambda>s. Inr (status, s))))))"

section \<open>Files\<close>

text \<open>
  \<open>var\<close> is the address of the local variable that receives the object. The file name is in the object, 16 bytes behind its start. On an error of the
  driver or of the handle table the packet is not freed, and the handle is the caller's when there is one.
\<close>

definition IoCreateFile ::
  "'a io_state_scheme object_methods \<Rightarrow> 'a io_state_scheme driver_routines \<Rightarrow> 'a io_state_scheme deferred_routines \<Rightarrow> nat \<Rightarrow> PVOID \<Rightarrow> PVOID \<Rightarrow>
   address \<Rightarrow> ULONG \<Rightarrow> 'a io_state_scheme \<Rightarrow> fault + (KSTATUS \<times> HANDLE option \<times> 'a io_state_scheme)" where
  "IoCreateFile call drivers run fuel garbage var Filename FileMode s =
     bind (ObGetDeviceObject run fuel garbage Filename s) (\<lambda>(Found, s).
     deref Found (\<lambda>(Status, DeviceObject, PathRemaining).
     ASSERT ''IoCreateFile: 0'' (success Status)
     (ASSERT ''IoCreateFile: IoFileObjectType'' (IoFileObjectType s \<noteq> None)
     (bind (ObCreateObject call run fuel (IoFileObjectType s)
        (Some \<lparr>oa_RootDirectory = 0, oa_ObjectName = None, oa_Attributes = OBJ_INHERIT\<rparr>) sizeof_FILE_OBJECT var s) (\<lambda>(Status, Object, s).
      ASSERT ''IoCreateFile: 0'' (success Status)
      (ASSERT ''IoCreateFile: pFileObj'' (Object \<noteq> None)
      (deref Object (\<lambda>pFileObj.
       let s = set_file pFileObj (\<lambda>f. f\<lparr>fo_DeviceObject := DeviceObject, fo_FileMode := FileMode, fo_FileOffset := 0\<rparr>) (clear_file pFileObj s);
           s = s\<lparr>Bytes := strncpy (Bytes s) (pFileObj + 16) PathRemaining MAXPATHLEN\<rparr>;
           failed = (\<lambda>Status s. bind (ObDereferenceObject call run fuel pFileObj s) (\<lambda>s. Inr (Status, None, s)))
       in bind (IoBuildIrp run fuel pFileObj IRP_MJ_CREATE IRP_MN_NULL 0 0 0 s) (\<lambda>(pIrp, s).
          if pIrp = 0 then failed STATUS_INSUFFICIENT_RESOURCES s
          else bind (IoCallDriver drivers DeviceObject pIrp s) (\<lambda>(Status, s).
            if \<not> success Status then failed Status s
            else bind (ObInsertObject pFileObj s) (\<lambda>(Status, Handle, s).
              if \<not> success Status then failed Status s
              else bind (IoFreeIRP run fuel pIrp s) (\<lambda>s. Inr (Status, Some Handle, s)))))))))))))"

definition KCreateFile ::
  "'a io_state_scheme object_methods \<Rightarrow> 'a io_state_scheme driver_routines \<Rightarrow> 'a io_state_scheme deferred_routines \<Rightarrow> nat \<Rightarrow> PVOID \<Rightarrow> PVOID \<Rightarrow>
   address \<Rightarrow> ULONG \<Rightarrow> 'a io_state_scheme \<Rightarrow> fault + (KSTATUS \<times> HANDLE option \<times> 'a io_state_scheme)" where
  "KCreateFile call drivers run fuel garbage var Filename FileMode s = IoCreateFile call drivers run fuel garbage var Filename FileMode s"

definition IoCloseFile ::
  "'a io_state_scheme driver_routines \<Rightarrow> 'a io_state_scheme deferred_routines \<Rightarrow> nat \<Rightarrow> PVOID \<Rightarrow> 'a io_state_scheme \<Rightarrow>
   fault + (KSTATUS \<times> 'a io_state_scheme)" where
  "IoCloseFile drivers run fuel FileObject s =
     (if fo_FsContext (FileObjects s FileObject) = 0 then Inr (STATUS_SUCCESS, s)
      else IoFileOperations drivers run fuel FileObject 0 0 (ucast IRP_MJ_CLOSE) (ucast IRP_MN_NULL) s)"

definition KCloseFile ::
  "'a io_state_scheme object_methods \<Rightarrow> 'a io_state_scheme deferred_routines \<Rightarrow> nat \<Rightarrow> HANDLE \<Rightarrow> 'a io_state_scheme \<Rightarrow> fault + 'a io_state_scheme" where
  "KCloseFile call run fuel Handle s = ObClose call run fuel Handle s"

definition KReadFile ::
  "'a io_state_scheme object_methods \<Rightarrow> 'a io_state_scheme driver_routines \<Rightarrow> 'a io_state_scheme deferred_routines \<Rightarrow> nat \<Rightarrow>
   HANDLE \<Rightarrow> PVOID \<Rightarrow> ULONG \<Rightarrow> 'a io_state_scheme \<Rightarrow> fault + (KSTATUS \<times> 'a io_state_scheme)" where
  "KReadFile call drivers run fuel Handle Buffer NumberOfBytes s =
     bind (ObReferenceObjectByHandle Handle (IoFileObjectType s) s) (\<lambda>(Status, FileObject, s).
     ASSERT ''KReadFile: 0'' (success Status)
     (bind (IoFileOperations drivers run fuel FileObject Buffer NumberOfBytes (ucast IRP_MJ_READ) (ucast IRP_MN_NULL) s) (\<lambda>(Status, s).
      bind (ObDereferenceObject call run fuel FileObject s) (\<lambda>s. Inr (Status, s)))))"

text \<open>The status of the write is dropped.\<close>

definition KWriteFile ::
  "'a io_state_scheme object_methods \<Rightarrow> 'a io_state_scheme driver_routines \<Rightarrow> 'a io_state_scheme deferred_routines \<Rightarrow> nat \<Rightarrow>
   HANDLE \<Rightarrow> PVOID \<Rightarrow> ULONG \<Rightarrow> 'a io_state_scheme \<Rightarrow> fault + (KSTATUS \<times> 'a io_state_scheme)" where
  "KWriteFile call drivers run fuel Handle Buffer NumberOfBytes s =
     bind (ObReferenceObjectByHandle Handle (IoFileObjectType s) s) (\<lambda>(Status, FileObject, s).
     ASSERT ''KWriteFile: 0'' (success Status)
     (bind (IoFileOperations drivers run fuel FileObject Buffer NumberOfBytes (ucast IRP_MJ_WRITE) (ucast IRP_MN_NULL) s) (\<lambda>(_, s).
      bind (ObDereferenceObject call run fuel FileObject s) (\<lambda>s. Inr (Status, s)))))"

abbreviation (input) IoCloseFile_routine :: nat where "IoCloseFile_routine \<equiv> 7"

text \<open>The close procedure of file objects among the methods of object types.\<close>

definition io_methods ::
  "'a io_state_scheme object_methods \<Rightarrow> 'a io_state_scheme driver_routines \<Rightarrow> 'a io_state_scheme deferred_routines \<Rightarrow> nat \<Rightarrow>
   'a io_state_scheme object_methods" where
  "io_methods others drivers run fuel r ob s = (if r = IoCloseFile_routine then IoCloseFile drivers run fuel ob s else others r ob s)"

definition IoCreateFileObjectType :: "'a io_state_scheme \<Rightarrow> fault + 'a io_state_scheme" where
  "IoCreateFileObjectType s =
     bind (ObCreateObjectType \<lparr>ot_PoolType = NonPagedPool, ot_FLAGS = 0, ot_ObjectSize = sizeof_FILE_OBJECT, ot_TypeIndex = OBJECT_TYPE_FILE,
       ot_PoolTag = TAG_FILE, ot_Object_List_Head = LIST_INIT, ot_OpenProcedure = None,
       ot_CloseProcedure = Some IoCloseFile_routine\<rparr> (IoFileObjectType s) s) (\<lambda>(ty, s).
     Inr (s\<lparr>IoFileObjectType := Some ty\<rparr>))"

section \<open>Devices and drivers\<close>

definition IoCreateSymbolicLink ::
  "'a io_state_scheme object_methods \<Rightarrow> 'a io_state_scheme deferred_routines \<Rightarrow> nat \<Rightarrow> PVOID \<Rightarrow> UNICODE_STRING \<Rightarrow> UNICODE_STRING \<Rightarrow>
   'a io_state_scheme \<Rightarrow> fault + (KSTATUS \<times> 'a io_state_scheme)" where
  "IoCreateSymbolicLink call run fuel var SymbolicLinkName Device s = ObCreateSymbolicLink call run fuel var SymbolicLinkName Device s"

definition IoMountFileSystem ::
  "'a io_state_scheme deferred_routines \<Rightarrow> nat \<Rightarrow> UNICODE_STRING \<Rightarrow> UNICODE_STRING \<Rightarrow> 'a io_state_scheme \<Rightarrow> fault + (KSTATUS \<times> 'a io_state_scheme)" where
  "IoMountFileSystem run fuel MountPoint Device s = ObMountFileSystem run fuel MountPoint Device s"

text \<open>
  A device without a name gets one in the local buffer \<open>LocalBuffer\<close>; \<open>junk\<close> is the local string header, of which only the pointer is set. The
  caller's \<open>DeviceObject\<close> is never written, so the device is not part of the result; the type and the exclusive flag are not used.
\<close>

definition IoCreateDevice ::
  "'a io_state_scheme object_methods \<Rightarrow> 'a io_state_scheme deferred_routines \<Rightarrow> nat \<Rightarrow> PVOID \<Rightarrow> address \<Rightarrow> UNICODE_STRING \<Rightarrow> PVOID \<Rightarrow> ULONG \<Rightarrow>
   UNICODE_STRING option \<Rightarrow> ULONG \<Rightarrow> 'a io_state_scheme \<Rightarrow> fault + (KSTATUS \<times> 'a io_state_scheme)" where
  "IoCreateDevice call run fuel var LocalBuffer junk DriverObject DeviceExtensionSize DeviceName Characteristics s =
     bind (case DeviceName of
         Some n \<Rightarrow> Inr (n, s)
       | None \<Rightarrow> bind (snprintf (Bytes s) LocalBuffer 21 ([CHR 0x5C] @ ''Device'' @ [CHR 0x5C] @ ''KosDev-%08lx'') [DeviceNumber s]) (\<lambda>(_, m).
           Inr (junk\<lparr>us_Buffer := LocalBuffer\<rparr>, s\<lparr>Bytes := m, DeviceNumber := DeviceNumber s + 1\<rparr>))) (\<lambda>(Name, s).
     bind (ObCreateObject call run fuel (IoDeviceObjectType s) (Some \<lparr>oa_RootDirectory = 0, oa_ObjectName = Some Name, oa_Attributes = 0\<rparr>)
       (sizeof_DEVICE_OBJECT + DeviceExtensionSize) var s) (\<lambda>(Status, Object, s).
     if \<not> success Status then Inr (Status, s)
     else deref Object (\<lambda>d. Inr (STATUS_SUCCESS, set_device d (\<lambda>k. k\<lparr>dev_Size := ucast (sizeof_DEVICE_OBJECT + DeviceExtensionSize),
       dev_DriverObject := DriverObject, dev_Characteristics := Characteristics, dev_StackSize := 1,
       dev_DeviceExtension := d + sizeof_DEVICE_OBJECT\<rparr>) (clear_device d s)))))"

definition IoCreateDeviceObjectType :: "'a io_state_scheme \<Rightarrow> fault + 'a io_state_scheme" where
  "IoCreateDeviceObjectType s =
     bind (ObCreateObjectType \<lparr>ot_PoolType = PagedPool, ot_FLAGS = 0, ot_ObjectSize = sizeof_DEVICE_OBJECT, ot_TypeIndex = OBJECT_TYPE_DEVICE,
       ot_PoolTag = NonPagedPool, ot_Object_List_Head = LIST_INIT, ot_OpenProcedure = None, ot_CloseProcedure = None\<rparr> (IoDeviceObjectType s) s) (\<lambda>(ty, s).
     Inr (s\<lparr>IoDeviceObjectType := Some ty\<rparr>))"

text \<open>The start routines of the drivers by their numbers: the driver object and the address of the registry path.\<close>

type_synonym 's driver_entries = "nat \<Rightarrow> PVOID \<Rightarrow> PVOID \<Rightarrow> 's \<Rightarrow> fault + (KSTATUS \<times> 's)"

definition IoCreateDriver ::
  "'a io_state_scheme object_methods \<Rightarrow> 'a io_state_scheme driver_entries \<Rightarrow> 'a io_state_scheme deferred_routines \<Rightarrow> nat \<Rightarrow> PVOID \<Rightarrow>
   UNICODE_STRING \<Rightarrow> nat \<Rightarrow> PVOID \<Rightarrow> 'a io_state_scheme \<Rightarrow> fault + (KSTATUS \<times> PVOID \<times> 'a io_state_scheme)" where
  "IoCreateDriver call start run fuel var DriverName DriverInit RegPath s =
     ASSERT ''IoCreateDriver: IoDriverObjectType'' (IoDriverObjectType s \<noteq> None)
     (bind (ObCreateObject call run fuel (IoDriverObjectType s) (Some \<lparr>oa_RootDirectory = 0, oa_ObjectName = Some DriverName, oa_Attributes = 0\<rparr>)
        sizeof_DRIVER_OBJECT var s) (\<lambda>(Status, Object, s).
      if \<not> success Status then Inr (Status, 0, s)
      else deref Object (\<lambda>d.
        bind (start DriverInit d RegPath (set_driver d (\<lambda>k. k\<lparr>drv_DriverSize := sizeof_DRIVER_OBJECT, drv_DriverInit := Some DriverInit\<rparr>)
          (clear_driver d s))) (\<lambda>(Status, s).
        if \<not> success Status then Inl (KeBugCheck ''DriverEntry Failed'')
        else Inr (STATUS_SUCCESS, d, s)))))"

definition IoCreateDriverObjectType :: "'a io_state_scheme \<Rightarrow> fault + 'a io_state_scheme" where
  "IoCreateDriverObjectType s =
     bind (ObCreateObjectType \<lparr>ot_PoolType = PagedPool, ot_FLAGS = 0, ot_ObjectSize = sizeof_OBJECT_DIRECTORY, ot_TypeIndex = OBJECT_TYPE_DRIVER,
       ot_PoolTag = NonPagedPool, ot_Object_List_Head = LIST_INIT, ot_OpenProcedure = None, ot_CloseProcedure = None\<rparr> (IoDriverObjectType s) s) (\<lambda>(ty, s).
     Inr (s\<lparr>IoDriverObjectType := Some ty\<rparr>))"

definition IoInit :: "'a io_state_scheme \<Rightarrow> fault + 'a io_state_scheme" where
  "IoInit s = bind (IoCreateDeviceObjectType s) (\<lambda>s. bind (IoCreateFileObjectType s) IoCreateDriverObjectType)"

section \<open>The file system driver\<close>

text \<open>
  The functions of FatFs on the file objects and work areas whose addresses they get. FatFs calls the disk driver, which waits for the disk and can
  stop the system, so each of them may change any part of the state and may fault.
\<close>

record 's fat =
  f_chdrive :: "UCHAR \<Rightarrow> 's \<Rightarrow> fault + (KSTATUS \<times> 's)"
  fat_open :: "PVOID \<Rightarrow> address \<Rightarrow> UCHAR \<Rightarrow> 's \<Rightarrow> fault + (KSTATUS \<times> 's)"
  fat_read :: "PVOID \<Rightarrow> PVOID \<Rightarrow> ULONG \<Rightarrow> 's \<Rightarrow> fault + (KSTATUS \<times> ULONG \<times> 's)"
  fat_write :: "PVOID \<Rightarrow> PVOID \<Rightarrow> ULONG \<Rightarrow> 's \<Rightarrow> fault + (KSTATUS \<times> ULONG \<times> 's)"
  fat_close :: "PVOID \<Rightarrow> 's \<Rightarrow> fault + (KSTATUS \<times> 's)"
  f_mount :: "UCHAR \<Rightarrow> PVOID \<Rightarrow> 's \<Rightarrow> fault + (KSTATUS \<times> 's)"

abbreviation (input) FR_OK :: KSTATUS where "FR_OK \<equiv> 0"
abbreviation (input) FA_WRITE :: UCHAR where "FA_WRITE \<equiv> 0x02"
abbreviation (input) FA_CREATE_NEW :: UCHAR where "FA_CREATE_NEW \<equiv> 0x04"
abbreviation (input) FA_OPEN_ALWAYS :: UCHAR where "FA_OPEN_ALWAYS \<equiv> 0x10"
abbreviation (input) O_RDONLY :: ULONG where "O_RDONLY \<equiv> 0x0000"
abbreviation (input) O_WRONLY :: ULONG where "O_WRONLY \<equiv> 0x0001"
abbreviation (input) O_RDWR :: ULONG where "O_RDWR \<equiv> 0x0002"
abbreviation (input) O_CREATE :: ULONG where "O_CREATE \<equiv> 0x0100"
abbreviation (input) O_TRUNC :: ULONG where "O_TRUNC \<equiv> 0x0200"
abbreviation (input) O_EXCL :: ULONG where "O_EXCL \<equiv> 0x0400"
abbreviation (input) O_MKDIR :: ULONG where "O_MKDIR \<equiv> 0x0800"
abbreviation (input) SYSTEM_DRIVE :: UCHAR where "SYSTEM_DRIVE \<equiv> 1"

definition KfsUnload :: "PVOID \<Rightarrow> 'a io_state_scheme \<Rightarrow> fault + 'a io_state_scheme" where
  "KfsUnload DriverObject s = Inl (KeBugCheck ''Not Yet Implement'')"

definition transferred :: "PVOID \<Rightarrow> KSTATUS \<Rightarrow> ULONG \<Rightarrow> 'a io_state_scheme \<Rightarrow> 'a io_state_scheme" where
  "transferred pIrp Status n s = IoCompleteRequest pIrp (set_irp pIrp (\<lambda>i. i\<lparr>irp_Status := Status, irp_Information := n\<rparr>) s)"

definition KfsRead :: "'a io_state_scheme fat \<Rightarrow> PVOID \<Rightarrow> 'a io_state_scheme \<Rightarrow> fault + (KSTATUS \<times> 'a io_state_scheme)" where
  "KfsRead ff pIrp s =
     (let Fcb = fo_FsContext (FileObjects s (irp_pFileObj (Irps s pIrp))) in
      ASSERT ''KfsRead: Fcb'' (Fcb \<noteq> 0)
      (bind (IoGetCurrentIrpStackLocation pIrp s) (\<lambda>pIosp.
       ASSERT ''KfsRead: IRP_MJ_READ'' (sl_MajorFunction pIosp = IRP_MJ_READ)
       (bind (fat_read ff Fcb (irp_Buffer (Irps s pIrp)) (irp_BufferSize (Irps s pIrp)) s) (\<lambda>(Status, BytesRead, s).
        ASSERT ''KfsRead: Status == FR_OK'' (Status = FR_OK)
        (Inr (Status, transferred pIrp Status BytesRead s)))))))"

definition KfsWrite :: "'a io_state_scheme fat \<Rightarrow> PVOID \<Rightarrow> 'a io_state_scheme \<Rightarrow> fault + (KSTATUS \<times> 'a io_state_scheme)" where
  "KfsWrite ff pIrp s =
     bind (IoGetCurrentIrpStackLocation pIrp s) (\<lambda>pIosp.
     ASSERT ''KfsWrite: IRP_MJ_WRITE'' (sl_MajorFunction pIosp = IRP_MJ_WRITE)
     (let Fcb = fo_FsContext (FileObjects s (irp_pFileObj (Irps s pIrp))) in
      ASSERT ''KfsWrite: Fcb != NULL'' (Fcb \<noteq> 0)
      (bind (fat_write ff Fcb (irp_Buffer (Irps s pIrp)) (irp_BufferSize (Irps s pIrp)) s) (\<lambda>(Status, BytesWritten, s).
       Inr (Status, transferred pIrp Status BytesWritten s)))))"

definition FileModeToFSMode :: "ULONG \<Rightarrow> fault + UCHAR" where
  "FileModeToFSMode FileMode =
     (let FsMode = (if FileMode = O_RDONLY then FA_READ else 0);
          FsMode = (if FileMode AND O_WRONLY \<noteq> 0 then FsMode OR (FA_WRITE OR FA_OPEN_ALWAYS) else FsMode);
          FsMode = (if FileMode AND O_RDWR \<noteq> 0 then FsMode OR (FA_READ OR FA_WRITE OR FA_OPEN_ALWAYS) else FsMode);
          FsMode = (if FileMode AND O_CREATE \<noteq> 0 then FsMode OR FA_CREATE_NEW else FsMode);
          FsMode = (if FileMode AND O_TRUNC \<noteq> 0 then FsMode OR (FA_READ OR FA_OPEN_ALWAYS) else FsMode);
          FsMode = (if FileMode AND O_EXCL \<noteq> 0 then FsMode OR FA_CREATE_NEW else FsMode)
      in if FileMode AND O_MKDIR \<noteq> 0 then Inl (KeBugCheck ''Not Yet done!!'') else Inr FsMode)"

text \<open>The failure exit behind \<open>f_open\<close> begins with an assertion that always fails.\<close>

definition KfsCreate ::
  "'a io_state_scheme fat \<Rightarrow> 'a io_state_scheme deferred_routines \<Rightarrow> nat \<Rightarrow> PVOID \<Rightarrow> 'a io_state_scheme \<Rightarrow> fault + (KSTATUS \<times> 'a io_state_scheme)" where
  "KfsCreate ff run fuel pIrp s =
     (let pFileObject = irp_pFileObj (Irps s pIrp) in
      ASSERT ''KfsCreate: FsContext == NULL'' (fo_FsContext (FileObjects s pFileObject) = 0)
      (bind (MmAllocatePoolWithTag run fuel NonPagedPool sizeof_FIL TAG_FCB s) (\<lambda>(Fcb, s).
       if Fcb = 0 then Inr (STATUS_INSUFFICIENT_RESOURCES, s)
       else
       bind (f_chdrive ff SYSTEM_DRIVE s) (\<lambda>(_, s).
       bind (FileModeToFSMode (fo_FileMode (FileObjects s pFileObject))) (\<lambda>mode.
       bind (fat_open ff Fcb (pFileObject + 16) mode s) (\<lambda>(Status, s).
       ASSERT ''KfsCreate: 0'' (success Status)
       (Inr (Status, IoCompleteRequest pIrp (set_file pFileObject (\<lambda>f. f\<lparr>fo_FsContext := Fcb\<rparr>) s)))))))))"

definition KfsClose ::
  "'a io_state_scheme fat \<Rightarrow> 'a io_state_scheme deferred_routines \<Rightarrow> nat \<Rightarrow> PVOID \<Rightarrow> 'a io_state_scheme \<Rightarrow> fault + (KSTATUS \<times> 'a io_state_scheme)" where
  "KfsClose ff run fuel pIrp s =
     bind (fat_close ff (fo_FsContext (FileObjects s (irp_pFileObj (Irps s pIrp)))) s) (\<lambda>(Status, s).
      ASSERT ''KfsClose: Status == STATUS_SUCCESS'' (Status = STATUS_SUCCESS)
      (bind (MmFreePoolWithTag run fuel (fo_FsContext (FileObjects s (irp_pFileObj (Irps s pIrp)))) TAG_FCB s) (\<lambda>s.
       Inr (Status, IoCompleteRequest pIrp s))))"

definition KfsQueryInfo :: "PVOID \<Rightarrow> 'a io_state_scheme \<Rightarrow> fault + (KSTATUS \<times> 'a io_state_scheme)" where
  "KfsQueryInfo pIrp s = Inl (KeBugCheck ''Not Yet Implemented'')"

definition KfsSetInfo :: "PVOID \<Rightarrow> 'a io_state_scheme \<Rightarrow> fault + (KSTATUS \<times> 'a io_state_scheme)" where
  "KfsSetInfo pIrp s = Inl (KeBugCheck ''Not Yet Implement'')"

definition KfsPassThrough :: "PVOID \<Rightarrow> 'a io_state_scheme \<Rightarrow> fault + (KSTATUS \<times> 'a io_state_scheme)" where
  "KfsPassThrough pIrp s = Inl (KeBugCheck ''KePassThrough: Passthroughs are not yet supported'')"

text \<open>The routines of this driver by their numbers.\<close>

abbreviation (input) KfsRead_routine :: nat where "KfsRead_routine \<equiv> 1"
abbreviation (input) KfsWrite_routine :: nat where "KfsWrite_routine \<equiv> 2"
abbreviation (input) KfsCreate_routine :: nat where "KfsCreate_routine \<equiv> 3"
abbreviation (input) KfsClose_routine :: nat where "KfsClose_routine \<equiv> 4"
abbreviation (input) KfsQueryInfo_routine :: nat where "KfsQueryInfo_routine \<equiv> 5"
abbreviation (input) KfsSetInfo_routine :: nat where "KfsSetInfo_routine \<equiv> 6"
abbreviation (input) KfsPassThrough_routine :: nat where "KfsPassThrough_routine \<equiv> 7"
abbreviation (input) KfsUnload_routine :: nat where "KfsUnload_routine \<equiv> 8"
abbreviation (input) KFSDriverEntry_routine :: nat where "KFSDriverEntry_routine \<equiv> 9"

definition kfs_routines ::
  "'a io_state_scheme fat \<Rightarrow> 'a io_state_scheme deferred_routines \<Rightarrow> nat \<Rightarrow> 'a io_state_scheme driver_routines \<Rightarrow> 'a io_state_scheme driver_routines" where
  "kfs_routines ff run fuel others r dev pIrp s =
     (if r = KfsRead_routine then KfsRead ff pIrp s
      else if r = KfsWrite_routine then KfsWrite ff pIrp s
      else if r = KfsCreate_routine then KfsCreate ff run fuel pIrp s
      else if r = KfsClose_routine then KfsClose ff run fuel pIrp s
      else if r = KfsQueryInfo_routine then KfsQueryInfo pIrp s
      else if r = KfsSetInfo_routine then KfsSetInfo pIrp s
      else if r = KfsPassThrough_routine then KfsPassThrough pIrp s
      else others r dev pIrp s)"

definition kfs_table :: "nat \<Rightarrow> nat option" where
  "kfs_table = (\<lambda>i. if i \<le> unat IRP_MJ_MAXIMUM_FUNCTION then Some KfsPassThrough_routine else None)
     (unat IRP_MJ_READ := Some KfsRead_routine, unat IRP_MJ_WRITE := Some KfsWrite_routine, unat IRP_MJ_CREATE := Some KfsCreate_routine,
      unat IRP_MJ_CLOSE := Some KfsClose_routine, unat IRP_MJ_QUERY_INFORMATION := Some KfsQueryInfo_routine,
      unat IRP_MJ_SET_INFORMATION := Some KfsSetInfo_routine)"

text \<open>\<open>literal\<close> is where the string literals are.\<close>

definition KFSDriverEntry ::
  "'a io_state_scheme fat \<Rightarrow> 'a io_state_scheme object_methods \<Rightarrow> 'a io_state_scheme deferred_routines \<Rightarrow> nat \<Rightarrow> PVOID \<Rightarrow> (string \<Rightarrow> address) \<Rightarrow>
   PVOID \<Rightarrow> PVOID \<Rightarrow> 'a io_state_scheme \<Rightarrow> fault + (KSTATUS \<times> 'a io_state_scheme)" where
  "KFSDriverEntry ff call run fuel var literal pDriverObject RegistryPath s =
     (let s = set_driver pDriverObject (\<lambda>d. d\<lparr>drv_DriverUnload := Some KfsUnload_routine, drv_MajorFunction := kfs_table\<rparr>) s in
      bind (hang (RtlInitUnicodeString (Bytes s) (literal ([CHR 0x5C] @ ''Device'' @ [CHR 0x5C] @ ''Kfsdisk1'')))) (\<lambda>Name.
      bind (IoCreateDevice call run fuel var 0 Name pDriverObject 0 (Some Name) 0 s) (\<lambda>(Status, s).
      ASSERT ''KFSDriverEntry: Status == STATUS_SUCCESS'' (Status = STATUS_SUCCESS)
      (bind (hang (RtlInitUnicodeString (Bytes s) (literal ([CHR 0x5C] @ ''GLOBAL??'' @ [CHR 0x5C] @ ''c:'')))) (\<lambda>SymbolicLinkName.
       bind (IoCreateSymbolicLink call run fuel var SymbolicLinkName Name s) (\<lambda>(Status, s).
       ASSERT ''KFSDriverEntry: Status == STATUS_SUCCESS'' (Status = STATUS_SUCCESS)
       (bind (hang (RtlInitUnicodeString (Bytes s) (literal ([CHR 0x5C] @ ''GLOBAL??'')))) (\<lambda>MountPoint.
        bind (IoMountFileSystem run fuel MountPoint Name s) (\<lambda>(Status, s).
        ASSERT ''KFSDriverEntry: Status == STATUS_SUCCESS'' (Status = STATUS_SUCCESS)
        (bind (MmAllocatePoolWithTag run fuel NonPagedPool sizeof_FATFS TAG_FATF s) (\<lambda>(filesys1, s).
         if filesys1 = 0 then Inl (KeBugCheck ''FS Mount Failed'')
         else bind (f_mount ff 1 filesys1 s) (\<lambda>(_, s). Inr (STATUS_SUCCESS, s)))))))))))))"

definition KFSinit ::
  "'a io_state_scheme fat \<Rightarrow> 'a io_state_scheme object_methods \<Rightarrow> 'a io_state_scheme driver_entries \<Rightarrow> 'a io_state_scheme deferred_routines \<Rightarrow> nat \<Rightarrow>
   PVOID \<Rightarrow> (string \<Rightarrow> address) \<Rightarrow> 'a io_state_scheme \<Rightarrow> fault + 'a io_state_scheme" where
  "KFSinit ff call others run fuel var literal s =
     bind (hang (RtlInitUnicodeString (Bytes s) (literal ([CHR 0x5C] @ ''Driver'' @ [CHR 0x5C] @ ''KFSDriver'')))) (\<lambda>DriverName.
     bind (IoCreateDriver call (\<lambda>r d path s. if r = KFSDriverEntry_routine then KFSDriverEntry ff call run fuel var literal d path s else others r d path s)
       run fuel var DriverName KFSDriverEntry_routine 0 s) (\<lambda>(status, _, s).
     if \<not> success status then Inl (KeBugCheck ''Create Driver failed'') else Inr s))"

end
