(* ===== verification/Ide.thy ===== *)
theory Ide
  imports Io Wait
begin

text \<open>
  The driver of the IDE disks, \<open>drivers/ide.c\<close>: detection, transfer of sectors through the data port, and the completion interrupt that ups a
  semaphore from a deferred procedure. What the controller answers is the record \<open>ata\<close>; writes to its byte registers are
  recorded in the list of port writes. \<open>resume\<close> says what the rest of the system does from a wait that blocks until the thread has the
  processor again. The delays between accesses, and the names and counts that are only printed, have no effect and are left out.
\<close>

abbreviation (input) DISK_SECTOR_SIZE :: nat where "DISK_SECTOR_SIZE \<equiv> 512"
abbreviation (input) CHANNEL_CNT :: nat where "CHANNEL_CNT \<equiv> 2"
abbreviation (input) STA_BSY :: UCHAR where "STA_BSY \<equiv> 0x80"
abbreviation (input) STA_DRDY :: UCHAR where "STA_DRDY \<equiv> 0x40"
abbreviation (input) STA_DRQ :: UCHAR where "STA_DRQ \<equiv> 0x08"
abbreviation (input) CTL_SRST :: UCHAR where "CTL_SRST \<equiv> 0x04"
abbreviation (input) DEV_MBS :: UCHAR where "DEV_MBS \<equiv> 0xA0"
abbreviation (input) DEV_LBA :: UCHAR where "DEV_LBA \<equiv> 0x40"
abbreviation (input) DEV_DEV :: UCHAR where "DEV_DEV \<equiv> 0x10"
abbreviation (input) CMD_IDENTIFY_DEVICE :: UCHAR where "CMD_IDENTIFY_DEVICE \<equiv> 0xEC"
abbreviation (input) CMD_READ_SECTOR_RETRY :: UCHAR where "CMD_READ_SECTOR_RETRY \<equiv> 0x20"
abbreviation (input) CMD_WRITE_SECTOR_RETRY :: UCHAR where "CMD_WRITE_SECTOR_RETRY \<equiv> 0x30"
abbreviation (input) CTRL_SYNC :: UCHAR where "CTRL_SYNC \<equiv> 0"
abbreviation (input) GET_SECTOR_COUNT :: UCHAR where "GET_SECTOR_COUNT \<equiv> 1"
abbreviation (input) GET_SECTOR_SIZE :: UCHAR where "GET_SECTOR_SIZE \<equiv> 2"
abbreviation (input) GET_BLOCK_SIZE :: UCHAR where "GET_BLOCK_SIZE \<equiv> 3"
abbreviation (input) CTRL_ERASE_SECTOR :: UCHAR where "CTRL_ERASE_SECTOR \<equiv> 4"
abbreviation (input) IdeDpcObject :: dpc where "IdeDpcObject \<equiv> 1"
abbreviation (input) IdeDpcRoutine_routine :: nat where "IdeDpcRoutine_routine \<equiv> 1"
abbreviation (input) interrupt_handler_routine :: nat where "interrupt_handler_routine \<equiv> 4"

datatype DRESULT = RES_OK | RES_ERROR | RES_WRPRT | RES_NOTRDY | RES_PARERR

section \<open>State\<close>

text \<open>A disk is its channel and its number on it; \<open>lock\<close> and \<open>completion_wait\<close> are the dispatcher objects of a channel.\<close>

record disk =
  is_ata :: bool
  capacity :: ULONG
  read_cnt :: LONG64
  write_cnt :: LONG64

record channel =
  reg_base :: USHORT
  ch_irq :: UCHAR
  expecting_interrupt :: bool
  devices :: "nat \<Rightarrow> disk"

record ide_state = io_state +
  Channels :: "nat \<Rightarrow> channel"

record 's ata =
  inb :: "USHORT \<Rightarrow> 's \<Rightarrow> UCHAR \<times> 's"
  insw :: "USHORT \<Rightarrow> nat \<Rightarrow> 's \<Rightarrow> USHORT list \<times> 's"
  outsw :: "USHORT \<Rightarrow> USHORT list \<Rightarrow> 's \<Rightarrow> 's"

type_synonym disk_id = "nat \<times> nat"

definition channel_lock :: "nat \<Rightarrow> dispatcher" where
  "channel_lock c = ObjectHeader (0x100 + c)"

definition completion_wait :: "nat \<Rightarrow> dispatcher" where
  "completion_wait c = ObjectHeader (0x200 + c)"

definition set_channel :: "nat \<Rightarrow> (channel \<Rightarrow> channel) \<Rightarrow> 'a ide_state_scheme \<Rightarrow> 'a ide_state_scheme" where
  "set_channel c f s = s\<lparr>Channels := (Channels s)(c := f (Channels s c))\<rparr>"

definition disk_of :: "disk_id \<Rightarrow> 'a ide_state_scheme \<Rightarrow> disk" where
  "disk_of d s = devices (Channels s (fst d)) (snd d)"

definition set_disk :: "disk_id \<Rightarrow> (disk \<Rightarrow> disk) \<Rightarrow> 'a ide_state_scheme \<Rightarrow> 'a ide_state_scheme" where
  "set_disk d f s = set_channel (fst d) (\<lambda>c. c\<lparr>devices := (devices c)(snd d := f (devices c (snd d)))\<rparr>) s"

definition reg_data :: "nat \<Rightarrow> 'a ide_state_scheme \<Rightarrow> USHORT" where "reg_data c s = reg_base (Channels s c) + 0"
definition reg_error :: "nat \<Rightarrow> 'a ide_state_scheme \<Rightarrow> USHORT" where "reg_error c s = reg_base (Channels s c) + 1"
definition reg_nsect :: "nat \<Rightarrow> 'a ide_state_scheme \<Rightarrow> USHORT" where "reg_nsect c s = reg_base (Channels s c) + 2"
definition reg_lbal :: "nat \<Rightarrow> 'a ide_state_scheme \<Rightarrow> USHORT" where "reg_lbal c s = reg_base (Channels s c) + 3"
definition reg_lbam :: "nat \<Rightarrow> 'a ide_state_scheme \<Rightarrow> USHORT" where "reg_lbam c s = reg_base (Channels s c) + 4"
definition reg_lbah :: "nat \<Rightarrow> 'a ide_state_scheme \<Rightarrow> USHORT" where "reg_lbah c s = reg_base (Channels s c) + 5"
definition reg_device :: "nat \<Rightarrow> 'a ide_state_scheme \<Rightarrow> USHORT" where "reg_device c s = reg_base (Channels s c) + 6"
definition reg_status :: "nat \<Rightarrow> 'a ide_state_scheme \<Rightarrow> USHORT" where "reg_status c s = reg_base (Channels s c) + 7"
definition reg_command :: "nat \<Rightarrow> 'a ide_state_scheme \<Rightarrow> USHORT" where "reg_command c s = reg_status c s"
definition reg_ctl :: "nat \<Rightarrow> 'a ide_state_scheme \<Rightarrow> USHORT" where "reg_ctl c s = reg_base (Channels s c) + 0x206"
definition reg_alt_status :: "nat \<Rightarrow> 'a ide_state_scheme \<Rightarrow> USHORT" where "reg_alt_status c s = reg_ctl c s"

section \<open>Low-level primitives\<close>

fun idle_loop :: "'a ide_state_scheme ata \<Rightarrow> nat \<Rightarrow> nat \<Rightarrow> 'a ide_state_scheme \<Rightarrow> 'a ide_state_scheme" where
  "idle_loop hw c 0 s = s"
| "idle_loop hw c (Suc n) s =
     (let (b, s) = inb hw (reg_status c s) s in if b AND (STA_BSY OR STA_DRQ) = 0 then s else idle_loop hw c n s)"

definition wait_until_idle :: "'a ide_state_scheme ata \<Rightarrow> disk_id \<Rightarrow> 'a ide_state_scheme \<Rightarrow> 'a ide_state_scheme" where
  "wait_until_idle hw d s = idle_loop hw (fst d) 1000 s"

fun busy_loop :: "'a ide_state_scheme ata \<Rightarrow> nat \<Rightarrow> nat \<Rightarrow> 'a ide_state_scheme \<Rightarrow> bool \<times> 'a ide_state_scheme" where
  "busy_loop hw c 0 s = (False, s)"
| "busy_loop hw c (Suc n) s =
     (let (b, s) = inb hw (reg_alt_status c s) s
      in if b AND STA_BSY = 0 then let (b, s) = inb hw (reg_alt_status c s) s in (b AND STA_DRQ \<noteq> 0, s) else busy_loop hw c n s)"

definition wait_while_busy :: "'a ide_state_scheme ata \<Rightarrow> disk_id \<Rightarrow> 'a ide_state_scheme \<Rightarrow> bool \<times> 'a ide_state_scheme" where
  "wait_while_busy hw d s = busy_loop hw (fst d) 3000 s"

definition select_device :: "'a ide_state_scheme ata \<Rightarrow> disk_id \<Rightarrow> 'a ide_state_scheme \<Rightarrow> 'a ide_state_scheme" where
  "select_device hw d s =
     (let s = outb (reg_device (fst d) s) (DEV_MBS OR (if snd d = 1 then DEV_DEV else 0)) s
      in snd (inb hw (reg_alt_status (fst d) s) s))"

definition select_device_wait :: "'a ide_state_scheme ata \<Rightarrow> disk_id \<Rightarrow> 'a ide_state_scheme \<Rightarrow> 'a ide_state_scheme" where
  "select_device_wait hw d s = wait_until_idle hw d (select_device hw d (wait_until_idle hw d s))"

definition select_sector ::
  "'a ide_state_scheme ata \<Rightarrow> disk_id \<Rightarrow> ULONG \<Rightarrow> 'a ide_state_scheme \<Rightarrow> fault + 'a ide_state_scheme" where
  "select_sector hw d sec_no s =
     ASSERT ''select_sector: sec_no < d->capacity'' (sec_no < capacity (disk_of d s))
     (ASSERT ''select_sector: sec_no < (1UL << 28)'' (sec_no < 0x10000000)
     (let c = fst d;
          s = select_device_wait hw d s;
          s = outb (reg_nsect c s) 1 s;
          s = outb (reg_lbal c s) (ucast sec_no) s;
          s = outb (reg_lbam c s) (ucast (drop_bit 8 sec_no)) s;
          s = outb (reg_lbah c s) (ucast (drop_bit 16 sec_no)) s
      in Inr (outb (reg_device c s) (DEV_MBS OR DEV_LBA OR (if snd d = 1 then DEV_DEV else 0) OR ucast (drop_bit 24 sec_no)) s)))"

definition issue_pio_command :: "nat \<Rightarrow> UCHAR \<Rightarrow> 'a ide_state_scheme \<Rightarrow> fault + 'a ide_state_scheme" where
  "issue_pio_command c command s =
     ASSERT ''issue_pio_command: intr_get_level() == INTR_ON'' (HalAreInterruptsEnabled s)
     (let s = set_channel c (\<lambda>k. k\<lparr>expecting_interrupt := True\<rparr>) s in Inr (outb (reg_command c s) command s))"

text \<open>Words in memory, the low byte first.\<close>

fun put_words :: "address \<Rightarrow> USHORT list \<Rightarrow> memory \<Rightarrow> memory" where
  "put_words a [] m = m"
| "put_words a (w # ws) m = put_words (a + 2) ws (m(a := ucast w, a + 1 := ucast (drop_bit 8 w)))"

definition get_words :: "address \<Rightarrow> nat \<Rightarrow> memory \<Rightarrow> USHORT list" where
  "get_words a n m = map (\<lambda>i. ucast (m (a + of_nat (2 * i))) OR push_bit 8 (ucast (m (a + of_nat (2 * i) + 1)))) [0..<n]"

definition input_sector :: "'a ide_state_scheme ata \<Rightarrow> nat \<Rightarrow> PVOID \<Rightarrow> 'a ide_state_scheme \<Rightarrow> 'a ide_state_scheme" where
  "input_sector hw c sector s =
     (let (ws, s) = insw hw (reg_data c s) (DISK_SECTOR_SIZE div 2) s in s\<lparr>Bytes := put_words sector ws (Bytes s)\<rparr>)"

definition output_sector :: "'a ide_state_scheme ata \<Rightarrow> nat \<Rightarrow> PVOID \<Rightarrow> 'a ide_state_scheme \<Rightarrow> 'a ide_state_scheme" where
  "output_sector hw c sector s = outsw hw (reg_data c s) (get_words sector (DISK_SECTOR_SIZE div 2) (Bytes s)) s"

section \<open>Waiting\<close>

text \<open>A wait for a dispatcher object. When the wait blocks, another thread runs on; \<open>resume\<close> leads to the state in which this one continues.\<close>

definition wait_for ::
  "'a sched_state_scheme thread_routine \<Rightarrow> 'a sched_state_scheme deferred_routines \<Rightarrow> nat \<Rightarrow>
   ('a sched_state_scheme \<Rightarrow> fault + 'a sched_state_scheme) \<Rightarrow> dispatcher \<Rightarrow> 'a sched_state_scheme \<Rightarrow> fault + 'a sched_state_scheme" where
  "wait_for exit_thread run fuel resume Object s =
     bind (KeWaitForSingleObject exit_thread run fuel Object s) (\<lambda>s'.
     if KeGetCurrentThread s' = KeGetCurrentThread s then Inr s' else resume s')"

definition IdeDpcRoutine :: "'a ide_state_scheme deferred_routines \<Rightarrow> nat \<Rightarrow> 'a ide_state_scheme \<Rightarrow> fault + 'a ide_state_scheme" where
  "IdeDpcRoutine run fuel s =
     foldE (\<lambda>c s. if expecting_interrupt (Channels s c)
       then bind (KeReleaseSemaphore run fuel (completion_wait c) 0 1 s) (\<lambda>(_, s). Inr s) else Inr s) [0..<CHANNEL_CNT] s"

definition interrupt_handler :: "'a ide_state_scheme deferred_routines \<Rightarrow> nat \<Rightarrow> 'a ide_state_scheme \<Rightarrow> fault + 'a ide_state_scheme" where
  "interrupt_handler run fuel s = bind (KeInsertQueueDpc run fuel IdeDpcObject 0 0 s) (\<lambda>(_, s). Inr s)"

section \<open>Detection of the disks\<close>

definition probe_device :: "'a ide_state_scheme ata \<Rightarrow> disk_id \<Rightarrow> 'a ide_state_scheme \<Rightarrow> bool \<times> 'a ide_state_scheme" where
  "probe_device hw d s =
     (let c = fst d;
          s = select_device hw d s;
          s = outb (reg_nsect c s) 0x55 s; s = outb (reg_lbal c s) 0xAA s;
          s = outb (reg_nsect c s) 0xAA s; s = outb (reg_lbal c s) 0x55 s;
          s = outb (reg_nsect c s) 0x55 s; s = outb (reg_lbal c s) 0xAA s;
          (a, s) = inb hw (reg_nsect c s) s
      in if a = 0x55 then let (b, s) = inb hw (reg_lbal c s) s in (b = 0xAA, s) else (False, s))"

fun slave_loop :: "'a ide_state_scheme ata \<Rightarrow> nat \<Rightarrow> nat \<Rightarrow> 'a ide_state_scheme \<Rightarrow> 'a ide_state_scheme" where
  "slave_loop hw c 0 s = s"
| "slave_loop hw c (Suc n) s =
     (let (a, s) = inb hw (reg_nsect c s) s
      in if a = 1 then let (b, s) = inb hw (reg_lbal c s) s in if b = 1 then s else slave_loop hw c n s
         else slave_loop hw c n s)"

definition reset_channel :: "'a ide_state_scheme ata \<Rightarrow> nat \<Rightarrow> 'a ide_state_scheme \<Rightarrow> 'a ide_state_scheme" where
  "reset_channel hw c s =
     (let (present0, s) = probe_device hw (c, 0) s;
          (present1, s) = probe_device hw (c, 1) s;
          s = outb (reg_ctl c s) 0 s;
          s = outb (reg_ctl c s) CTL_SRST s;
          s = outb (reg_ctl c s) 0 s;
          s = (if present0 then snd (wait_while_busy hw (c, 0) (select_device hw (c, 0) s)) else s)
      in if present1 then snd (wait_while_busy hw (c, 1) (slave_loop hw c 3000 (select_device hw (c, 1) s))) else s)"

definition check_device_type :: "'a ide_state_scheme ata \<Rightarrow> disk_id \<Rightarrow> 'a ide_state_scheme \<Rightarrow> bool \<times> 'a ide_state_scheme" where
  "check_device_type hw d s =
     (let c = fst d;
          s = select_device hw d s;
          (err, s) = inb hw (reg_error c s) s;
          (lbam, s) = inb hw (reg_lbam c s) s;
          (lbah, s) = inb hw (reg_lbah c s) s;
          (status, s) = inb hw (reg_status c s) s
      in if (err \<noteq> 1 \<and> (err \<noteq> 0x81 \<or> snd d = 1)) \<or> status AND STA_DRDY = 0 \<or> status AND STA_BSY \<noteq> 0
         then (err \<noteq> 0x81, set_disk d (\<lambda>k. k\<lparr>is_ata := False\<rparr>) s)
         else (True, set_disk d (\<lambda>k. k\<lparr>is_ata := (lbam = 0 \<and> lbah = 0) \<or> (lbam = 0x3C \<and> lbah = 0xC3)\<rparr>) s))"

text \<open>\<open>print_ata_string\<close>: the bytes that are printed. The pairs are swapped and blanks and null bytes at the end are dropped.\<close>

fun ata_length :: "address \<Rightarrow> nat \<Rightarrow> memory \<Rightarrow> nat" where
  "ata_length a 0 m = 0"
| "ata_length a (Suc n) m =
     (let c = m (a + (of_nat n XOR 1)) in if c \<noteq> 0 \<and> \<not> isspace (scast c) then Suc n else ata_length a n m)"

definition print_ata_string :: "address \<Rightarrow> nat \<Rightarrow> memory \<Rightarrow> UCHAR list" where
  "print_ata_string a n m = map (\<lambda>i. m (a + (of_nat i XOR 1))) [0..<ata_length a n m]"

text \<open>\<open>id_buf\<close> is the address of the buffer on the stack.\<close>

definition identify_ata_device ::
  "'a ide_state_scheme ata \<Rightarrow> 'a ide_state_scheme thread_routine \<Rightarrow> 'a ide_state_scheme deferred_routines \<Rightarrow> nat \<Rightarrow>
   ('a ide_state_scheme \<Rightarrow> fault + 'a ide_state_scheme) \<Rightarrow> address \<Rightarrow> disk_id \<Rightarrow> 'a ide_state_scheme \<Rightarrow> fault + 'a ide_state_scheme" where
  "identify_ata_device hw exit_thread run fuel resume id_buf d s =
     ASSERT ''identify_ata_device: d->is_ata'' (is_ata (disk_of d s))
     (bind (issue_pio_command (fst d) CMD_IDENTIFY_DEVICE (select_device_wait hw d s)) (\<lambda>s.
      bind (wait_for exit_thread run fuel resume (completion_wait (fst d)) s) (\<lambda>s.
      let (ready, s) = wait_while_busy hw d s
      in if \<not> ready then Inr (set_disk d (\<lambda>k. k\<lparr>is_ata := False\<rparr>) s)
         else let s = input_sector hw (fst d) id_buf s; ws = get_words id_buf (DISK_SECTOR_SIZE div 2) (Bytes s)
              in Inr (set_disk d (\<lambda>k. k\<lparr>capacity := ucast (ws ! 60) OR push_bit 16 (ucast (ws ! 61))\<rparr>) s))))"

definition init_device :: "nat \<Rightarrow> nat \<Rightarrow> 'a ide_state_scheme \<Rightarrow> 'a ide_state_scheme" where
  "init_device c n s = set_disk (c, n) (\<lambda>k. k\<lparr>is_ata := False, capacity := 0, read_cnt := 0, write_cnt := 0\<rparr>) s"

definition init_channel ::
  "(nat \<Rightarrow> PVOID) \<Rightarrow> 'a ide_state_scheme ata \<Rightarrow> 'a ide_state_scheme thread_routine \<Rightarrow> 'a ide_state_scheme deferred_routines \<Rightarrow> nat \<Rightarrow>
   ('a ide_state_scheme \<Rightarrow> fault + 'a ide_state_scheme) \<Rightarrow> address \<Rightarrow> nat \<Rightarrow> 'a ide_state_scheme \<Rightarrow> fault + 'a ide_state_scheme" where
  "init_channel TrapFunctionList hw exit_thread run fuel resume id_buf c s =
     (let s = set_channel c (\<lambda>k. if c = 0 then k\<lparr>reg_base := 0x1F0, ch_irq := 14 + 0x20\<rparr> else k\<lparr>reg_base := 0x170, ch_irq := 15 + 0x20\<rparr>) s;
          s = set_channel c (\<lambda>k. k\<lparr>expecting_interrupt := False\<rparr>) (KeInitializeMutant (channel_lock c) False s)
      in bind (KeInitializeSemaphore (completion_wait c) 0 100 s) (\<lambda>s.
         bind (KiCreateInterruptObject TrapFunctionList (ucast (ch_irq (Channels s c))) 0 (Some interrupt_handler_routine)
           (if c = 0 then ''hd0'' else ''hd1'') (init_device c 1 (init_device c 0 s))) (\<lambda>s.
         let s = reset_channel hw c (KeInitializeDpc IdeDpcObject IdeDpcRoutine_routine 0 s);
             (slave, s) = check_device_type hw (c, 0) s;
             s = (if slave then snd (check_device_type hw (c, 1) s) else s)
         in foldE (\<lambda>n s. if is_ata (disk_of (c, n) s) then identify_ata_device hw exit_thread run fuel resume id_buf (c, n) s else Inr s) [0, 1] s)))"

definition disk_init ::
  "(nat \<Rightarrow> PVOID) \<Rightarrow> 'a ide_state_scheme ata \<Rightarrow> 'a ide_state_scheme thread_routine \<Rightarrow> 'a ide_state_scheme deferred_routines \<Rightarrow> nat \<Rightarrow>
   ('a ide_state_scheme \<Rightarrow> fault + 'a ide_state_scheme) \<Rightarrow> address \<Rightarrow> 'a ide_state_scheme \<Rightarrow> fault + 'a ide_state_scheme" where
  "disk_init TrapFunctionList hw exit_thread run fuel resume id_buf s =
     foldE (init_channel TrapFunctionList hw exit_thread run fuel resume id_buf) [0..<CHANNEL_CNT] s"

section \<open>Transfer\<close>

text \<open>A negative \<open>chan_no\<close>, which no caller passes, would index before the array.\<close>

definition disk_get :: "int \<Rightarrow> int \<Rightarrow> 'a ide_state_scheme \<Rightarrow> fault + disk_id option" where
  "disk_get chan_no dev_no s =
     ASSERT ''disk_get: dev_no == 0 || dev_no == 1'' (dev_no = 0 \<or> dev_no = 1)
     (if chan_no < 0 then Inl OutOfBounds
      else if chan_no < int CHANNEL_CNT \<and> is_ata (disk_of (nat chan_no, nat dev_no) s) then Inr (Some (nat chan_no, nat dev_no))
      else Inr None)"

text \<open>\<open>disk_print_stats\<close>: the disks it prints, with their counts.\<close>

definition disk_print_stats :: "'a ide_state_scheme \<Rightarrow> fault + (disk_id \<times> LONG64 \<times> LONG64) list" where
  "disk_print_stats s =
     foldE (\<lambda>(c, n) out. bind (disk_get c n s) (\<lambda>d. Inr (case d of
         Some d \<Rightarrow> if is_ata (disk_of d s) then out @ [(d, read_cnt (disk_of d s), write_cnt (disk_of d s))] else out
       | None \<Rightarrow> out))) [(0, 0), (0, 1), (1, 0), (1, 1)] []"

definition disk_size :: "disk_id option \<Rightarrow> 'a ide_state_scheme \<Rightarrow> fault + ULONG" where
  "disk_size d s = ASSERT ''disk_size: d != NULL'' (d \<noteq> None) (deref d (\<lambda>d. Inr (capacity (disk_of d s))))"

definition disk_read_internal ::
  "'a ide_state_scheme ata \<Rightarrow> 'a ide_state_scheme thread_routine \<Rightarrow> 'a ide_state_scheme deferred_routines \<Rightarrow> nat \<Rightarrow>
   ('a ide_state_scheme \<Rightarrow> fault + 'a ide_state_scheme) \<Rightarrow> disk_id option \<Rightarrow> ULONG \<Rightarrow> PVOID \<Rightarrow> 'a ide_state_scheme \<Rightarrow>
   fault + 'a ide_state_scheme" where
  "disk_read_internal hw exit_thread run fuel resume d sec_no buf s =
     ASSERT ''disk_read_internal: d != NULL'' (d \<noteq> None)
     (ASSERT ''disk_read_internal: buffer != NULL'' (buf \<noteq> 0)
     (deref d (\<lambda>d.
      bind (wait_for exit_thread run fuel resume (channel_lock (fst d)) s) (\<lambda>s.
      bind (select_sector hw d sec_no s) (\<lambda>s.
      bind (issue_pio_command (fst d) CMD_READ_SECTOR_RETRY s) (\<lambda>s.
      bind (wait_for exit_thread run fuel resume (completion_wait (fst d)) s) (\<lambda>s.
      let (ready, s) = wait_while_busy hw d s
      in if \<not> ready then Inl (KeBugCheck ''%s: disk read failed, sector=%u'')
         else KeReleaseMutant run fuel (channel_lock (fst d))
           (set_disk d (\<lambda>k. k\<lparr>read_cnt := read_cnt k + 1\<rparr>) (input_sector hw (fst d) buf s)))))))))"

definition disk_write_internal ::
  "'a ide_state_scheme ata \<Rightarrow> 'a ide_state_scheme thread_routine \<Rightarrow> 'a ide_state_scheme deferred_routines \<Rightarrow> nat \<Rightarrow>
   ('a ide_state_scheme \<Rightarrow> fault + 'a ide_state_scheme) \<Rightarrow> disk_id option \<Rightarrow> ULONG \<Rightarrow> PVOID \<Rightarrow> 'a ide_state_scheme \<Rightarrow>
   fault + 'a ide_state_scheme" where
  "disk_write_internal hw exit_thread run fuel resume d sec_no buf s =
     ASSERT ''disk_write_internal: d != NULL'' (d \<noteq> None)
     (ASSERT ''disk_write_internal: buffer != NULL'' (buf \<noteq> 0)
     (deref d (\<lambda>d.
      bind (wait_for exit_thread run fuel resume (channel_lock (fst d)) s) (\<lambda>s.
      bind (select_sector hw d sec_no s) (\<lambda>s.
      bind (issue_pio_command (fst d) CMD_WRITE_SECTOR_RETRY s) (\<lambda>s.
      let (ready, s) = wait_while_busy hw d s
      in if \<not> ready then Inl (KeBugCheck ''%s: disk write failed, sector=%u'')
         else bind (wait_for exit_thread run fuel resume (completion_wait (fst d)) (output_sector hw (fst d) buf s)) (\<lambda>s.
           KeReleaseMutant run fuel (channel_lock (fst d)) (set_disk d (\<lambda>k. k\<lparr>write_cnt := write_cnt k + 1\<rparr>) s))))))))"

text \<open>The two low bits of a drive number are the channel and the device.\<close>

definition drive :: "UCHAR \<Rightarrow> int \<times> int" where
  "drive Drive = (if Drive AND 2 = 2 then 1 else 0, if Drive AND 1 = 1 then 1 else 0)"

definition disk_read ::
  "'a ide_state_scheme ata \<Rightarrow> 'a ide_state_scheme thread_routine \<Rightarrow> 'a ide_state_scheme deferred_routines \<Rightarrow> nat \<Rightarrow>
   ('a ide_state_scheme \<Rightarrow> fault + 'a ide_state_scheme) \<Rightarrow> UCHAR \<Rightarrow> PVOID \<Rightarrow> ULONG \<Rightarrow> UCHAR \<Rightarrow> 'a ide_state_scheme \<Rightarrow>
   fault + (DRESULT \<times> 'a ide_state_scheme)" where
  "disk_read hw exit_thread run fuel resume Drive buf SectorNumber SectorCount s =
     bind (disk_get (fst (drive Drive)) (snd (drive Drive)) s) (\<lambda>d.
     ASSERT ''disk_read: d'' (d \<noteq> None)
     (bind (foldE (\<lambda>i. disk_read_internal hw exit_thread run fuel resume d (SectorNumber + of_nat i) (buf + of_nat (DISK_SECTOR_SIZE * i)))
        [0..<unat SectorCount] s) (\<lambda>s.
      Inr (RES_OK, s))))"

definition disk_write ::
  "'a ide_state_scheme ata \<Rightarrow> 'a ide_state_scheme thread_routine \<Rightarrow> 'a ide_state_scheme deferred_routines \<Rightarrow> nat \<Rightarrow>
   ('a ide_state_scheme \<Rightarrow> fault + 'a ide_state_scheme) \<Rightarrow> UCHAR \<Rightarrow> PVOID \<Rightarrow> ULONG \<Rightarrow> UCHAR \<Rightarrow> 'a ide_state_scheme \<Rightarrow>
   fault + (DRESULT \<times> 'a ide_state_scheme)" where
  "disk_write hw exit_thread run fuel resume Drive buf SectorNumber SectorCount s =
     bind (disk_get (fst (drive Drive)) (snd (drive Drive)) s) (\<lambda>d.
     ASSERT ''disk_write: d'' (d \<noteq> None)
     (bind (foldE (\<lambda>i. disk_write_internal hw exit_thread run fuel resume d (SectorNumber + of_nat i) (buf + of_nat (DISK_SECTOR_SIZE * i)))
        [0..<unat SectorCount] s) (\<lambda>s.
      Inr (RES_OK, s))))"

definition put_dword :: "address \<Rightarrow> ULONG \<Rightarrow> memory \<Rightarrow> memory" where
  "put_dword a w m = put_words a [ucast w, ucast (drop_bit 16 w)] m"

definition disk_ioctl :: "UCHAR \<Rightarrow> UCHAR \<Rightarrow> PVOID \<Rightarrow> 'a ide_state_scheme \<Rightarrow> fault + (DRESULT \<times> 'a ide_state_scheme)" where
  "disk_ioctl Drive Command buf s =
     ASSERT ''disk_ioctl: Drive < 4'' (Drive < 4)
     (if Command = CTRL_SYNC then Inr (RES_OK, s)
      else if Command = GET_SECTOR_COUNT then
        bind (disk_get (fst (drive Drive)) (snd (drive Drive)) s) (\<lambda>d.
        ASSERT ''disk_ioctl: d'' (d \<noteq> None)
        (bind (disk_size d s) (\<lambda>n. Inr (RES_OK, s\<lparr>Bytes := put_dword buf n (Bytes s)\<rparr>))))
      else if Command = GET_SECTOR_SIZE \<or> Command = GET_BLOCK_SIZE then Inr (RES_OK, s\<lparr>Bytes := put_dword buf (of_nat DISK_SECTOR_SIZE) (Bytes s)\<rparr>)
      else if Command = CTRL_ERASE_SECTOR then Inr (RES_OK, s)
      else Inl (AssertionFailed ''disk_ioctl: 0''))"

definition get_fattime :: "ULONG" where "get_fattime = 0"
definition disk_initialize :: "UCHAR \<Rightarrow> UCHAR" where "disk_initialize drv = 0"
definition disk_status :: "UCHAR \<Rightarrow> UCHAR" where "disk_status drv = 0"

end
