(* ===== verification/BootLoader.thy ===== *)
theory BootLoader
  imports Ide Loader
begin

text \<open>
  The boot loader \<open>boot/loadk.c\<close>, which reads the kernel from the disk into memory and jumps to it. It runs before everything else and shares only the layout of an ELF
  file with the kernel. The disk answers by \<open>boot_disk\<close>: what the status register reads after the port writes so far, at the n-th reading, and the words
  that the data port gives. \<open>fuel\<close> bounds how long the loader waits for the disk; a disk that is never ready is the value \<open>Hang\<close>.
\<close>

abbreviation (input) SECTSIZE :: ULONG where "SECTSIZE \<equiv> 512"
abbreviation (input) ELFHDR :: address where "ELFHDR \<equiv> 0x10000"

datatype port_write = OutB USHORT UCHAR | OutW USHORT USHORT

record boot_machine =
  Mem :: memory
  Written :: "port_write list"
  StatusReads :: nat

record boot_disk =
  disk_status :: "port_write list \<Rightarrow> nat \<Rightarrow> UCHAR"
  disk_words :: "port_write list \<Rightarrow> nat \<Rightarrow> ULONG list"

definition boot_out :: "port_write \<Rightarrow> boot_machine \<Rightarrow> boot_machine" where
  "boot_out w s = s\<lparr>Written := Written s @ [w]\<rparr>"

section \<open>Reading the disk\<close>

fun waitdisk :: "boot_disk \<Rightarrow> nat \<Rightarrow> boot_machine \<Rightarrow> fault + boot_machine" where
  "waitdisk hw 0 s = Inl Hang"
| "waitdisk hw (Suc n) s =
     (let b = disk_status hw (Written s) (StatusReads s); s = s\<lparr>StatusReads := Suc (StatusReads s)\<rparr>
      in if b AND 0xC0 \<noteq> 0x40 then waitdisk hw n s else Inr s)"

fun put_dwords :: "address \<Rightarrow> ULONG list \<Rightarrow> memory \<Rightarrow> memory" where
  "put_dwords a [] m = m"
| "put_dwords a (w # ws) m = put_dwords (a + 4) ws (put_dword a w m)"

definition readsect :: "boot_disk \<Rightarrow> nat \<Rightarrow> address \<Rightarrow> ULONG \<Rightarrow> boot_machine \<Rightarrow> fault + boot_machine" where
  "readsect hw fuel dst offset s =
     bind (waitdisk hw fuel s) (\<lambda>s.
     let s = boot_out (OutB 0x1F2 1) s;
         s = boot_out (OutB 0x1F3 (ucast offset)) s;
         s = boot_out (OutB 0x1F4 (ucast (drop_bit 8 offset))) s;
         s = boot_out (OutB 0x1F5 (ucast (drop_bit 16 offset))) s;
         s = boot_out (OutB 0x1F6 (ucast (drop_bit 24 offset OR 0xE0))) s;
         s = boot_out (OutB 0x1F7 0x20) s
     in bind (waitdisk hw fuel s) (\<lambda>s.
        Inr (s\<lparr>Mem := put_dwords dst (disk_words hw (Written s) (unat SECTSIZE div 4)) (Mem s)\<rparr>)))"

text \<open>The loop \<open>while (va < end_va)\<close> does not end when \<open>end_va\<close> lies behind the last multiple of the sector size.\<close>

definition readseg :: "boot_disk \<Rightarrow> nat \<Rightarrow> ULONG \<Rightarrow> ULONG \<Rightarrow> ULONG \<Rightarrow> boot_machine \<Rightarrow> fault + boot_machine" where
  "readseg hw fuel va count offset s =
     (let va = va AND 0xFFFFFF; end_va = va + count; va = va AND NOT (SECTSIZE - 1); offset = offset div SECTSIZE + 1
      in if end_va > 0xFFFFFE00 then Inl Hang
         else foldE (\<lambda>k. readsect hw fuel (va + of_nat k * SECTSIZE) (offset + of_nat k)) [0..<(unat end_va - unat va + 511) div 512] s)"

section \<open>Loading the kernel\<close>

text \<open>The loop over the program headers reads each header from memory when it comes to it. The result is the address that is called, or \<open>None\<close> when the loader
  stops for ever because the file is not an ELF file.\<close>

definition load_kern :: "boot_disk \<Rightarrow> nat \<Rightarrow> boot_machine \<Rightarrow> fault + (ULONG option \<times> boot_machine)" where
  "load_kern hw fuel s =
     bind (readseg hw fuel ELFHDR (SECTSIZE * 8) 0 s) (\<lambda>s.
     let h = elf_head (Mem s) ELFHDR in
     if e_magic h \<noteq> ELF_MAGIC then Inr (None, boot_out (OutW 0x8A00 0x8E00) (boot_out (OutW 0x8A00 0x8A00) s))
     else
       let ph = ELFHDR + e_phoff h; eph = ph + sizeof_Proghdr * ucast (e_phnum h) in
       bind (foldE (\<lambda>k s. let p = prog_header (Mem s) (ph + sizeof_Proghdr * of_nat k) in readseg hw fuel (p_va p) (p_memsz p) (p_offset p) s)
         (if ph < eph then [0..<unat (e_phnum h)] else []) s) (\<lambda>s.
       Inr (Some (e_entry (elf_head (Mem s) ELFHDR) AND 0xFFFFFF), s)))"

section \<open>A sector in memory\<close>

fun words_at :: "memory \<Rightarrow> address \<Rightarrow> nat \<Rightarrow> ULONG list" where
  "words_at img b 0 = []"
| "words_at img b (Suc n) = word32 img b # words_at img (b + 4) n"

lemma put_dword_word32: "put_dword a (word32 img b) m = m(a := img b, a + 1 := img (b + 1), a + 2 := img (b + 2), a + 3 := img (b + 3))"
proof -
  have "ucast (ucast (word32 img b) :: USHORT) = img b" "ucast (drop_bit 8 (ucast (word32 img b) :: USHORT)) = img (b + 1)"
    "ucast (ucast (drop_bit 16 (word32 img b)) :: USHORT) = img (b + 2)" "ucast (drop_bit 8 (ucast (drop_bit 16 (word32 img b)) :: USHORT)) = img (b + 3)"
    unfolding word32_def by (rule bit_word_eqI, auto simp: bit_simps dest: bit_imp_le_length)+
  then show ?thesis by (simp add: put_dword_def add.assoc)
qed

lemma put_dwords_at:
  assumes "4 * n \<le> 2 ^ 32"
  shows "put_dwords a (words_at img b n) m x = (if unat (x - a) < 4 * n then img (b + (x - a)) else m x)"
  using assms
proof (induction n arbitrary: a b m)
  case (Suc n)
  let ?m = "put_dword a (word32 img b) m" and ?k = "unat (x - a)"
  have IH: "put_dwords a (words_at img b (Suc n)) m x = (if unat (x - (a + 4)) < 4 * n then img (b + 4 + (x - (a + 4))) else ?m x)"
    using Suc by simp
  have x: "x = a + of_nat ?k" by simp
  show ?case
  proof (cases "4 \<le> ?k")
    case True
    have "x - (a + 4) = (x - a) - 4" by simp
    also have "unat ... = ?k - 4" using True by (subst unat_sub) (simp_all add: word_le_nat_alt)
    finally have k: "unat (x - (a + 4)) = ?k - 4" .
    have "x \<noteq> a" "x \<noteq> a + 1" "x \<noteq> a + 2" "x \<noteq> a + 3" using True by auto
    then have "?m x = m x" by (simp add: put_dword_word32)
    moreover have "b + 4 + (x - (a + 4)) = b + (x - a)" by simp
    moreover have "unat (x - (a + 4)) < 4 * n \<longleftrightarrow> ?k < 4 * Suc n" using k True by auto
    ultimately show ?thesis unfolding IH by simp
  next
    case False
    then consider "?k = 0" | "?k = 1" | "?k = 2" | "?k = 3" by linarith
    then have "x - a \<in> {0, 1, 2, 3} \<and> ?m x = img (b + (x - a)) \<and> 2 ^ 32 - 4 \<le> unat (x - (a + 4))"
    proof cases
      case 1
      then have "x = a" using x by simp
      moreover have "unat (- 4 :: ULONG) = 2 ^ 32 - 4" by simp
      ultimately show ?thesis by (simp add: put_dword_word32)
    next
      case 2
      then have "x = a + 1" using x by simp
      moreover have "unat (- 3 :: ULONG) = 2 ^ 32 - 3" by simp
      ultimately show ?thesis by (simp add: put_dword_word32)
    next
      case 3
      then have "x = a + 2" using x by simp
      moreover have "unat (- 2 :: ULONG) = 2 ^ 32 - 2" by simp
      ultimately show ?thesis by (simp add: put_dword_word32)
    next
      case 4
      then have "x = a + 3" using x by simp
      moreover have "unat (- 1 :: ULONG) = 2 ^ 32 - 1" by (simp add: unsigned_minus_1_eq_mask mask_eq_exp_minus_1)
      ultimately show ?thesis by (simp add: put_dword_word32)
    qed
    moreover have "\<not> 2 ^ 32 - 4 < 4 * n" using Suc.prems by simp
    ultimately show ?thesis using False Suc.prems unfolding IH by auto
  qed
qed simp

lemma unat_diff_less:
  assumes "a + n \<le> 2 ^ 32" and "0 < n"
  shows "unat (x - of_nat a :: ULONG) < n \<longleftrightarrow> a \<le> unat x \<and> unat x < a + n"
proof -
  have u: "unat (of_nat a :: ULONG) = a" using assms by (intro unat_of_nat32) simp
  show ?thesis
  proof (cases "a \<le> unat x")
    case True
    then have "unat (x - of_nat a) = unat x - a" using u by (simp add: unat_sub word_le_nat_alt)
    then show ?thesis using True by auto
  next
    case False
    then have "unat (x - of_nat a) = unat x + 2 ^ 32 - a" using u by (simp add: unat_sub_if_size word_size)
    then show ?thesis using False assms by auto
  qed
qed

section \<open>What the disk gives\<close>

text \<open>\<open>read_command lba\<close> is what the loader writes to ask for a sector. The disk holds the file \<open>img\<close> from sector 1 on, and is ready again after fewer than \<open>fuel\<close> readings.\<close>

definition read_command :: "ULONG \<Rightarrow> port_write list" where
  "read_command lba = [OutB 0x1F2 1, OutB 0x1F3 (ucast lba), OutB 0x1F4 (ucast (drop_bit 8 lba)), OutB 0x1F5 (ucast (drop_bit 16 lba)),
     OutB 0x1F6 (ucast (drop_bit 24 lba OR 0xE0)), OutB 0x1F7 0x20]"

definition disk_answers :: "boot_disk \<Rightarrow> nat \<Rightarrow> memory \<Rightarrow> bool" where
  "disk_answers hw fuel img \<longleftrightarrow> (\<forall>ws n. \<exists>k < fuel. disk_status hw ws (n + k) AND 0xC0 = 0x40) \<and>
     (\<forall>ws lba. 1 \<le> lba \<and> lba \<le> 0x800000 \<longrightarrow> disk_words hw (ws @ read_command lba) 128 = words_at img (512 * (lba - 1)) 128)"

lemma waitdisk_ready:
  assumes "\<exists>k < fuel. disk_status hw (Written s) (StatusReads s + k) AND 0xC0 = 0x40"
  shows "\<exists>n. waitdisk hw fuel s = Inr (s\<lparr>StatusReads := n\<rparr>)"
  using assms
proof (induction fuel arbitrary: s)
  case (Suc fuel)
  then obtain k where k: "k < Suc fuel" "disk_status hw (Written s) (StatusReads s + k) AND 0xC0 = 0x40" by blast
  show ?case
  proof (cases "disk_status hw (Written s) (StatusReads s) AND 0xC0 = 0x40")
    case True
    then show ?thesis by (auto simp: Let_def)
  next
    case False
    then obtain j where j: "k = Suc j" using k(2) by (cases k) auto
    let ?s = "s\<lparr>StatusReads := Suc (StatusReads s)\<rparr>"
    have "\<exists>n. waitdisk hw fuel ?s = Inr (?s\<lparr>StatusReads := n\<rparr>)" using k j by (intro Suc.IH) auto
    then show ?thesis using False by (simp add: Let_def)
  qed
qed simp

lemma readsect_correct:
  assumes d: "disk_answers hw fuel img" and o: "1 \<le> offset" "offset \<le> 0x800000"
  shows "\<exists>s'. readsect hw fuel dst offset s = Inr s' \<and>
    Mem s' = (\<lambda>x. if unat (x - dst) < 512 then img (512 * (offset - 1) + (x - dst)) else Mem s x)"
proof -
  have ready: "\<exists>n. waitdisk hw fuel t = Inr (t\<lparr>StatusReads := n\<rparr>)" for t using d by (intro waitdisk_ready) (simp add: disk_answers_def)
  obtain n where n: "waitdisk hw fuel s = Inr (s\<lparr>StatusReads := n\<rparr>)" using ready by blast
  let ?t = "s\<lparr>StatusReads := n, Written := Written s @ read_command offset\<rparr>"
  obtain n' where n': "waitdisk hw fuel ?t = Inr (?t\<lparr>StatusReads := n'\<rparr>)" using ready by blast
  have w: "disk_words hw (Written s @ read_command offset) 128 = words_at img (512 * (offset - 1)) 128" using d o by (simp add: disk_answers_def)
  have "readsect hw fuel dst offset s = Inr (?t\<lparr>StatusReads := n', Mem := put_dwords dst (words_at img (512 * (offset - 1)) 128) (Mem s)\<rparr>)"
    using n n' w by (simp add: readsect_def boot_out_def read_command_def Let_def)
  then show ?thesis using put_dwords_at [of 128 dst img "512 * (offset - 1)" "Mem s"] by (simp add: fun_eq_iff)
qed

lemma sectors_loaded:
  assumes d: "disk_answers hw fuel img" and n: "1 \<le> unat b" "unat b + n \<le> 0x800001" and lo: "lo + 512 * n \<le> 2 ^ 32"
  shows "\<exists>s'. foldE (\<lambda>k. readsect hw fuel (of_nat lo + of_nat k * SECTSIZE) (b + of_nat k)) [0..<n] s = Inr s' \<and>
    Mem s' = (\<lambda>x. if lo \<le> unat x \<and> unat x < lo + 512 * n then img (512 * (b - 1) + (x - of_nat lo)) else Mem s x)"
  using n(2) lo
proof (induction n)
  case (Suc n)
  obtain s1 where s1: "foldE (\<lambda>k. readsect hw fuel (of_nat lo + of_nat k * SECTSIZE) (b + of_nat k)) [0..<n] s = Inr s1"
      "Mem s1 = (\<lambda>x. if lo \<le> unat x \<and> unat x < lo + 512 * n then img (512 * (b - 1) + (x - of_nat lo)) else Mem s x)"
    using Suc by auto
  let ?dst = "of_nat lo + of_nat n * SECTSIZE :: ULONG"
  have dst: "?dst = of_nat (lo + 512 * n)" by (simp add: mult.commute)
  have un: "unat (of_nat n :: ULONG) = n" using Suc.prems by (intro unat_of_nat32) simp
  have ub: "unat (b + of_nat n) = unat b + n" using Suc.prems un by (simp add: unat_add_no_wrap)
  have "1 \<le> b + of_nat n" "b + of_nat n \<le> 0x800000" using ub n(1) Suc.prems by (simp_all add: word_le_nat_alt)
  then obtain s2 where s2: "readsect hw fuel ?dst (b + of_nat n) s1 = Inr s2"
      "Mem s2 = (\<lambda>x. if unat (x - ?dst) < 512 then img (512 * (b + of_nat n - 1) + (x - ?dst)) else Mem s1 x)"
    using readsect_correct [OF d] by blast
  have src: "512 * (b + of_nat n - 1) + (x - ?dst) = 512 * (b - 1) + (x - of_nat lo)" for x by (simp add: algebra_simps)
  have off: "unat (x - ?dst) < 512 \<longleftrightarrow> lo + 512 * n \<le> unat x \<and> unat x < lo + 512 * Suc n" for x
    unfolding dst using Suc.prems by (subst unat_diff_less) auto
  have "Mem s2 = (\<lambda>x. if lo \<le> unat x \<and> unat x < lo + 512 * Suc n then img (512 * (b - 1) + (x - of_nat lo)) else Mem s x)"
    unfolding s2(2) src s1(2) off by (auto simp: fun_eq_iff)
  then show ?case using s1(1) s2(1) by (simp add: foldE_append)
qed (auto simp: fun_eq_iff)

section \<open>Segments\<close>

text \<open>The sectors a segment is read to, as a range of physical addresses.\<close>

definition phys :: "ULONG \<Rightarrow> nat" where
  "phys va = unat (va AND 0xFFFFFF)"

definition seg_lo :: "ULONG \<Rightarrow> nat" where
  "seg_lo va = phys va div 512 * 512"

definition seg_hi :: "ULONG \<Rightarrow> ULONG \<Rightarrow> nat" where
  "seg_hi va count = (phys va + unat count + 511) div 512 * 512"

lemma phys_less: "phys va < 0x1000000"
proof -
  have "va AND 0xFFFFFF = va mod 0x1000000" using take_bit_eq_mask [of 24 va] by (simp add: take_bit_eq_mod mask_eq_exp_minus_1)
  then show ?thesis by (simp add: phys_def unat_mod)
qed

lemma unat_sector_start: "unat (x AND NOT 511 :: ULONG) = unat x div 512 * 512"
proof -
  have t: "unat (take_bit 9 x) = unat x mod 512" by (simp add: take_bit_eq_mod unat_mod)
  have m: "(511 :: ULONG) = mask 9" by (simp add: mask_eq_exp_minus_1)
  have "x AND NOT 511 = push_bit 9 (drop_bit 9 x)" unfolding m by (rule bit_word_eqI) (auto simp: bit_simps)
  also have "\<dots> = x - take_bit 9 x" using bits_ident [of 9 x] by (metis add_diff_cancel_right')
  also have "unat \<dots> = unat x - unat x mod 512" using t by (subst unat_sub) (simp_all add: word_le_nat_alt)
  finally show ?thesis by (simp add: minus_mod_eq_div_mult)
qed

lemma readseg_correct:
  assumes d: "disk_answers hw fuel img" and c: "phys va + unat count \<le> 0xFFFFFE00" and o: "unat offset + unat count < 0xFFFFFC00"
  shows "\<exists>s'. readseg hw fuel va count offset s = Inr s' \<and>
    Mem s' = (\<lambda>x. if seg_lo va \<le> unat x \<and> unat x < seg_hi va count then img (512 * (offset div 512) + (x - of_nat (seg_lo va))) else Mem s x)"
proof -
  let ?v = "va AND 0xFFFFFF" and ?b = "offset div SECTSIZE + 1"
  let ?n = "(phys va + unat count - seg_lo va + 511) div 512"
  have e: "unat (?v + count) = phys va + unat count" using c by (simp add: phys_def unat_add_no_wrap)
  have lo: "unat (?v AND NOT (SECTSIZE - 1)) = seg_lo va" using unat_sector_start [of ?v] by (simp add: phys_def seg_lo_def)
  have low: "of_nat (seg_lo va) = ?v AND NOT (SECTSIZE - 1)" unfolding lo [symmetric] by simp
  obtain q where q: "seg_lo va = q * 512" by (simp add: seg_lo_def)
  have le: "seg_lo va \<le> phys va" "phys va < seg_lo va + 512" by (simp_all add: seg_lo_def)
  have hi: "seg_lo va + 512 * ?n = seg_hi va count"
  proof -
    have "(phys va + unat count + 511) div 512 = (q * 512 + (phys va + unat count - q * 512 + 511)) div 512" using le(1) q by simp
    also have "\<dots> = q + ?n" unfolding q by simp
    finally show ?thesis using q by (simp add: seg_hi_def)
  qed
  have ub: "unat ?b = unat offset div 512 + 1" 
  proof -
    have "unat (offset div SECTSIZE) = unat offset div 512" by (simp add: unat_div)
    moreover have "unat offset div 512 < 0x800000" using unat_ULONG_less [of offset] by (simp add: less_mult_imp_div_less)
    ultimately show ?thesis by (simp add: unat_add_no_wrap)
  qed
  have fit: "unat ?b + ?n \<le> 0x800001" using o le ub by linarith
  have "512 * ?n \<le> phys va + unat count - seg_lo va + 511" by simp
  then have "seg_lo va + 512 * ?n \<le> phys va + unat count + 511" using le(1) by linarith
  then have top: "seg_lo va + 512 * ?n \<le> 2 ^ 32" using c by simp
  have "1 \<le> unat ?b" using ub by simp
  from sectors_loaded [OF d this fit top, of s] obtain s' where
    s': "foldE (\<lambda>k. readsect hw fuel (of_nat (seg_lo va) + of_nat k * SECTSIZE) (?b + of_nat k)) [0..<?n] s = Inr s'"
      "Mem s' = (\<lambda>x. if seg_lo va \<le> unat x \<and> unat x < seg_lo va + 512 * ?n then img (512 * (?b - 1) + (x - of_nat (seg_lo va))) else Mem s x)"
    by blast
  have "\<not> ?v + count > 0xFFFFFE00" using e c by (simp add: word_less_nat_alt)
  then have "readseg hw fuel va count offset s = Inr s'"
    using s'(1) unfolding readseg_def Let_def e lo low by simp
  then show ?thesis using s'(2) unfolding hi add_diff_cancel_right' by blast
qed

section \<open>The header of the file\<close>

definition header_read :: "memory \<Rightarrow> memory \<Rightarrow> bool" where
  "header_read img m \<longleftrightarrow> (\<forall>i < 4096. m (ELFHDR + of_nat i) = img (of_nat i))"

lemma header_words:
  assumes h: "header_read img m" and b: "unat b + 4 \<le> 4096"
  shows "word32 m (ELFHDR + b) = word32 img b" and "word16 m (ELFHDR + b) = word16 img b"
proof -
  have "m (ELFHDR + b + of_nat j) = img (b + of_nat j)" if "j < 4" for j
  proof -
    have "m (ELFHDR + of_nat (unat b + j)) = img (of_nat (unat b + j))" using h b that by (simp add: header_read_def del: of_nat_add)
    then show ?thesis by (simp add: add.assoc)
  qed
  from this [of 0] this [of 1] this [of 2] this [of 3]
  show "word32 m (ELFHDR + b) = word32 img b" "word16 m (ELFHDR + b) = word16 img b" by (simp_all add: word32_def word16_def)
qed

lemma header_fields:
  assumes "header_read img m"
  shows "elf_head m ELFHDR = elf_head img 0"
    and "unat a + 32 \<le> 4096 \<Longrightarrow> prog_header m (ELFHDR + a) = prog_header img a"
proof -
  show "elf_head m ELFHDR = elf_head img 0"
    using header_words(1) [OF assms, of 0] header_words(2) [OF assms, of 16] header_words(2) [OF assms, of 18] header_words(1) [OF assms, of 20]
      header_words(1) [OF assms, of 24] header_words(1) [OF assms, of 28] header_words(2) [OF assms, of 42] header_words(2) [OF assms, of 44]
    by (simp add: elf_head_def)
next
  assume a: "unat a + 32 \<le> 4096"
  have "word32 m (ELFHDR + a + b) = word32 img (a + b)" if "unat b < 28" for b
    using header_words(1) [OF assms, of "a + b"] a that unat_add_no_wrap [of a b] by (simp add: add.assoc)
  from this [of 4] this [of 8] this [of 16] this [of 20]
  show "prog_header m (ELFHDR + a) = prog_header img a" by (simp add: prog_header_def add.assoc)
qed

text \<open>The segments of a file, and what is asked of them: they lie where the loader can reach, at the same offset in their sector as in the file, apart from the header, and
  no segment is read over one before it.\<close>

definition file_segment :: "memory \<Rightarrow> nat \<Rightarrow> Proghdr" where
  "file_segment img k = prog_header img (e_phoff (elf_head img 0) + sizeof_Proghdr * of_nat k)"

definition placed :: "Proghdr \<Rightarrow> bool" where
  "placed p \<longleftrightarrow> unat (p_memsz p) \<le> 0xF0000000 \<and> unat (p_offset p) + unat (p_memsz p) < 0xFFFFFC00 \<and> phys (p_va p) mod 512 = unat (p_offset p) mod 512 \<and>
     (seg_hi (p_va p) (p_memsz p) \<le> 0x10000 \<or> 0x11000 \<le> seg_lo (p_va p))"

definition segment_in :: "memory \<Rightarrow> memory \<Rightarrow> Proghdr \<Rightarrow> bool" where
  "segment_in img m p \<longleftrightarrow> (\<forall>i < unat (p_memsz p). m (of_nat (phys (p_va p) + i)) = img (p_offset p + of_nat i))"

definition loadable :: "memory \<Rightarrow> bool" where
  "loadable img \<longleftrightarrow> (let h = elf_head img 0; n = unat (e_phnum h) in e_magic h = ELF_MAGIC \<and> unat (e_phoff h) + 32 * n \<le> 4096 \<and>
     (\<forall>k < n. placed (file_segment img k)) \<and>
     (\<forall>k < n. \<forall>j < k. phys (p_va (file_segment img j)) + unat (p_memsz (file_segment img j)) \<le> seg_lo (p_va (file_segment img k)) \<or>
        seg_hi (p_va (file_segment img k)) (p_memsz (file_segment img k)) \<le> phys (p_va (file_segment img j))))"

lemma segment_read:
  assumes d: "disk_answers hw fuel img" and p: "placed p"
  shows "\<exists>s'. readseg hw fuel (p_va p) (p_memsz p) (p_offset p) s = Inr s' \<and> segment_in img (Mem s') p \<and>
    (\<forall>x. unat x < seg_lo (p_va p) \<or> seg_hi (p_va p) (p_memsz p) \<le> unat x \<longrightarrow> Mem s' x = Mem s x)"
proof -
  let ?v = "phys (p_va p)" and ?n = "unat (p_memsz p)"
  have v: "?v < 0x1000000" by (rule phys_less)
  have "?v + ?n \<le> 0xFFFFFE00" "unat (p_offset p) + ?n < 0xFFFFFC00" using p v by (simp_all add: placed_def)
  from readseg_correct [OF d this, of s] obtain s' where s': "readseg hw fuel (p_va p) (p_memsz p) (p_offset p) s = Inr s'"
      "Mem s' = (\<lambda>x. if seg_lo (p_va p) \<le> unat x \<and> unat x < seg_hi (p_va p) (p_memsz p)
         then img (512 * (p_offset p div 512) + (x - of_nat (seg_lo (p_va p)))) else Mem s x)"
    by blast
  have "Mem s' (of_nat (?v + i)) = img (p_offset p + of_nat i)" if i: "i < ?n" for i
  proof -
    have u: "unat (of_nat (?v + i) :: ULONG) = ?v + i" using i v p by (intro unat_of_nat32) (simp add: placed_def)
    have r: "seg_lo (p_va p) \<le> ?v" "?v + i < seg_hi (p_va p) (p_memsz p)" using i unfolding seg_lo_def seg_hi_def by linarith+
    have "?v + i = seg_lo (p_va p) + (unat (p_offset p) mod 512 + i)" using p mod_div_mult_eq [of ?v 512] unfolding seg_lo_def placed_def by linarith
    then have e: "of_nat (?v + i) - of_nat (seg_lo (p_va p)) = (of_nat (unat (p_offset p) mod 512) + of_nat i :: ULONG)" by simp
    have o: "of_nat (unat (p_offset p) mod 512) = p_offset p mod 512"
    proof -
      have "unat (p_offset p mod 512) = unat (p_offset p) mod 512" by (simp add: unat_mod)
      moreover have "of_nat (unat (p_offset p mod 512)) = p_offset p mod 512" by simp
      ultimately show ?thesis by simp
    qed
    have "512 * (p_offset p div 512) + p_offset p mod 512 = p_offset p" by (rule mult_div_mod_eq)
    then have eq: "512 * (p_offset p div 512) + (of_nat (?v + i) - of_nat (seg_lo (p_va p))) = p_offset p + of_nat i"
      unfolding e o add.assoc [symmetric] by (rule arg_cong [where f = "\<lambda>w. w + of_nat i"])
    have "Mem s' (of_nat (?v + i)) = img (512 * (p_offset p div 512) + (of_nat (?v + i) - of_nat (seg_lo (p_va p))))" using r unfolding s'(2) u by simp
    then show ?thesis unfolding eq .
  qed
  then have "segment_in img (Mem s') p" unfolding segment_in_def by blast
  moreover have "\<forall>x. unat x < seg_lo (p_va p) \<or> seg_hi (p_va p) (p_memsz p) \<le> unat x \<longrightarrow> Mem s' x = Mem s x" unfolding s'(2) by auto
  ultimately show ?thesis using s'(1) by blast
qed

lemma header_kept:
  assumes h: "header_read img m" and same: "\<forall>x. unat x < lo \<or> hi \<le> unat x \<longrightarrow> m' x = m x" and "hi \<le> 0x10000 \<or> 0x11000 \<le> lo"
  shows "header_read img m'"
proof -
  have "m' (ELFHDR + of_nat i) = img (of_nat i)" if i: "i < 4096" for i
  proof -
    have "unat (of_nat i :: ULONG) = i" using i by (intro unat_of_nat32) simp
    then have "unat (ELFHDR + of_nat i) = 0x10000 + i" using i by (simp add: unat_add_no_wrap)
    then have "m' (ELFHDR + of_nat i) = m (ELFHDR + of_nat i)" using same assms(3) i by auto
    then show ?thesis using h i by (simp add: header_read_def)
  qed
  then show ?thesis by (simp add: header_read_def)
qed

lemma segment_kept:
  assumes g: "segment_in img m p" and same: "\<forall>x. unat x < lo \<or> hi \<le> unat x \<longrightarrow> m' x = m x"
    and "phys (p_va p) + unat (p_memsz p) \<le> lo \<or> hi \<le> phys (p_va p)" and "unat (p_memsz p) \<le> 0xF0000000"
  shows "segment_in img m' p"
proof -
  have "m' (of_nat (phys (p_va p) + i)) = m (of_nat (phys (p_va p) + i))" if i: "i < unat (p_memsz p)" for i
  proof -
    have "unat (of_nat (phys (p_va p) + i) :: ULONG) = phys (p_va p) + i" using i assms(4) phys_less [of "p_va p"] by (intro unat_of_nat32) simp
    then show ?thesis using same assms(3) i by auto
  qed
  then show ?thesis using g by (simp add: segment_in_def)
qed

lemma segments_read:
  assumes d: "disk_answers hw fuel img" and l: "loadable img" and h: "header_read img (Mem s)" and n: "n \<le> unat (e_phnum (elf_head img 0))"
  shows "\<exists>s'. foldE (\<lambda>k s. let p = prog_header (Mem s) (ELFHDR + e_phoff (elf_head img 0) + sizeof_Proghdr * of_nat k)
        in readseg hw fuel (p_va p) (p_memsz p) (p_offset p) s) [0..<n] s = Inr s' \<and>
    header_read img (Mem s') \<and> (\<forall>k < n. segment_in img (Mem s') (file_segment img k))"
  using n
proof (induction n)
  case 0
  then show ?case using h by simp
next
  case (Suc n)
  let ?f = "\<lambda>k s. let p = prog_header (Mem s) (ELFHDR + e_phoff (elf_head img 0) + sizeof_Proghdr * of_nat k)
      in readseg hw fuel (p_va p) (p_memsz p) (p_offset p) s" and ?p = "file_segment img n"
  obtain s1 where s1: "foldE ?f [0..<n] s = Inr s1" "header_read img (Mem s1)" "\<forall>k < n. segment_in img (Mem s1) (file_segment img k)"
    using Suc by auto
  let ?h = "elf_head img 0"
  have ph: "unat (e_phoff ?h) + 32 * unat (e_phnum ?h) \<le> 4096" and pl: "\<And>k. k < unat (e_phnum ?h) \<Longrightarrow> placed (file_segment img k)"
    and ord: "\<forall>j < n. phys (p_va (file_segment img j)) + unat (p_memsz (file_segment img j)) \<le> seg_lo (p_va ?p) \<or>
      seg_hi (p_va ?p) (p_memsz ?p) \<le> phys (p_va (file_segment img j))"
    using l Suc.prems unfolding loadable_def Let_def by auto
  have "unat (sizeof_Proghdr * of_nat n) = 32 * n"
  proof -
    have "sizeof_Proghdr * of_nat n = (of_nat (32 * n) :: ULONG)" by simp
    then show ?thesis using ph Suc.prems by (simp only:) (intro unat_of_nat32, simp)
  qed
  then have "unat (e_phoff ?h + sizeof_Proghdr * of_nat n) + 32 \<le> 4096" using ph Suc.prems by (simp add: unat_add_no_wrap)
  then have p: "prog_header (Mem s1) (ELFHDR + e_phoff ?h + sizeof_Proghdr * of_nat n) = ?p"
    using header_fields(2) [OF s1(2)] by (simp add: file_segment_def add.assoc)
  have plp: "placed ?p" using pl Suc.prems by simp
  obtain s2 where s2: "readseg hw fuel (p_va ?p) (p_memsz ?p) (p_offset ?p) s1 = Inr s2" "segment_in img (Mem s2) ?p"
      "\<forall>x. unat x < seg_lo (p_va ?p) \<or> seg_hi (p_va ?p) (p_memsz ?p) \<le> unat x \<longrightarrow> Mem s2 x = Mem s1 x"
    using segment_read [OF d plp] by blast
  have "header_read img (Mem s2)" using header_kept [OF s1(2) s2(3)] plp by (simp add: placed_def)
  moreover have "segment_in img (Mem s2) (file_segment img k)" if "k < Suc n" for k
  proof (cases "k = n")
    case False
    then have k: "k < n" using that by simp
    then have "placed (file_segment img k)" using pl Suc.prems by simp
    then show ?thesis using segment_kept [OF _ s2(3)] s1(3) ord k by (simp add: placed_def)
  qed (use s2(2) in simp)
  moreover have "?f n s1 = Inr s2" using s2(1) p by (simp add: Let_def)
  ultimately show ?case using s1(1) by (intro exI [of _ s2]) (simp add: foldE_append)
qed

text \<open>C28. The boot loader: when the disk holds, from its second sector on, an ELF file whose program headers fit into the first page and whose segments have the same offset within a sector
  in the file and in memory and lie apart from each
  other and from the place of the header, \<open>load_kern\<close> waits for the disk, reads every segment to its physical address, byte for byte with what lies behind it in the
  file up to its size in memory, and calls the entry point.\<close>

theorem kernel_loaded:
  assumes d: "disk_answers hw fuel img" and l: "loadable img"
  shows "\<exists>s'. load_kern hw fuel s = Inr (Some (e_entry (elf_head img 0) AND 0xFFFFFF), s') \<and>
    (\<forall>k < unat (e_phnum (elf_head img 0)). segment_in img (Mem s') (file_segment img k))"
proof -
  let ?h = "elf_head img 0" and ?n = "unat (e_phnum (elf_head img 0))"
  have sz: "phys ELFHDR = 0x10000" "seg_lo ELFHDR = 0x10000" "seg_hi ELFHDR (SECTSIZE * 8) = 0x11000" by (simp_all add: phys_def seg_lo_def seg_hi_def)
  obtain s1 where s1: "readseg hw fuel ELFHDR (SECTSIZE * 8) 0 s = Inr s1"
      "Mem s1 = (\<lambda>x. if 0x10000 \<le> unat x \<and> unat x < 0x11000 then img (512 * (0 div 512) + (x - of_nat 0x10000)) else Mem s x)"
    using readseg_correct [OF d, of ELFHDR "SECTSIZE * 8" 0 s] unfolding sz by auto
  have h: "header_read img (Mem s1)"
  proof -
    have "Mem s1 (ELFHDR + of_nat i) = img (of_nat i)" if i: "i < 4096" for i
    proof -
      have "unat (of_nat i :: ULONG) = i" using i by (intro unat_of_nat32) simp
      then have "unat (ELFHDR + of_nat i) = 0x10000 + i" using i by (simp add: unat_add_no_wrap)
      then show ?thesis using i by (simp add: s1(2))
    qed
    then show ?thesis by (simp add: header_read_def)
  qed
  have m: "e_magic ?h = ELF_MAGIC" "unat (e_phoff ?h) + 32 * ?n \<le> 4096" using l by (simp_all add: loadable_def Let_def)
  obtain s2 where s2: "foldE (\<lambda>k s. let p = prog_header (Mem s) (ELFHDR + e_phoff ?h + sizeof_Proghdr * of_nat k)
        in readseg hw fuel (p_va p) (p_memsz p) (p_offset p) s) [0..<?n] s1 = Inr s2"
      "header_read img (Mem s2)" "\<forall>k < ?n. segment_in img (Mem s2) (file_segment img k)"
    using segments_read [OF d l h order_refl] by blast
  have range: "(if ELFHDR + e_phoff ?h < ELFHDR + e_phoff ?h + sizeof_Proghdr * ucast (e_phnum ?h) then [0..<?n] else []) = [0..<?n]"
  proof -
    have "?n < 2 ^ 32" by (rule order.strict_trans [OF unsigned_less]) simp
    then have u: "unat (ucast (e_phnum ?h) :: ULONG) = ?n" by (simp add: unsigned_ucast_eq take_bit_nat_eq_self)
    have "unat (sizeof_Proghdr * ucast (e_phnum ?h)) = 32 * ?n" using m(2) u by (subst unat_mult_lem [THEN iffD1]) simp_all
    moreover have "unat (ELFHDR + e_phoff ?h) = 0x10000 + unat (e_phoff ?h)" using m(2) by (simp add: unat_add_no_wrap)
    ultimately have "unat (ELFHDR + e_phoff ?h + sizeof_Proghdr * ucast (e_phnum ?h)) = unat (ELFHDR + e_phoff ?h) + 32 * ?n"
      using m(2) by (subst unat_add_no_wrap) simp_all
    then show ?thesis by (simp add: word_less_nat_alt)
  qed
  have "load_kern hw fuel s = Inr (Some (e_entry ?h AND 0xFFFFFF), s2)"
    using s2(1) m(1) unfolding load_kern_def s1(1) bind_Inr Let_def header_fields(1) [OF h] range by (simp add: header_fields(1) [OF s2(2)] Let_def)
  then show ?thesis using s2(3) by (intro exI [of _ s2]) simp
qed

text \<open>A file with one segment of 8 KB, and a disk that holds it.\<close>

definition small_kernel :: memory where
  "small_kernel = (\<lambda>a. if a = 0 then 0x7F else if a = 1 then 0x45 else if a = 2 then 0x4C else if a = 3 then 0x46 else
     if a = 24 then 0x0C else if a = 26 then 0x10 else if a = 27 then 0x80 else if a = 28 then 52 else if a = 44 then 1 else
     if a = 57 then 0x10 else if a = 62 then 0x10 else if a = 63 then 0x80 else if a = 73 then 0x20 else if a < 4096 then 0 else ucast (drop_bit 9 a))"

definition asked_sector :: "port_write list \<Rightarrow> ULONG" where
  "asked_sector ws = (case rev ws of _ # OutB _ d # OutB _ c # OutB _ b # OutB _ a # _ \<Rightarrow>
     ucast a OR push_bit 8 (ucast b) OR push_bit 16 (ucast c) OR push_bit 24 (take_bit 4 (ucast d)) | _ \<Rightarrow> 0)"

definition small_disk :: boot_disk where
  "small_disk = \<lparr>disk_status = \<lambda>_ n. if even n then 0x80 else 0x40, disk_words = \<lambda>ws. words_at small_kernel (512 * (asked_sector ws - 1))\<rparr>"

lemma asked_sector_read:
  assumes "lba \<le> 0x800000"
  shows "asked_sector (ws @ read_command lba) = lba"
proof -
  have l: "n < 28" if "bit lba n" for n
  proof (rule ccontr)
    assume n: "\<not> n < 28"
    have "lba = take_bit 28 lba" using assms by (simp add: take_bit_eq_mod word_le_nat_alt word_unat_eq_iff unat_mod)
    then show False using that n by (metis bit_take_bit_iff)
  qed
  have e: "\<not> bit (0xE0 :: ULONG) n" if "n < 4" for n
  proof -
    have "n = 0 \<or> n = 1 \<or> n = 2 \<or> n = 3" using that by linarith
    then show ?thesis by (auto simp: bit_iff_odd_drop_bit)
  qed
  have a: "asked_sector (ws @ read_command lba) = ucast (ucast lba :: UCHAR) OR push_bit 8 (ucast (ucast (drop_bit 8 lba) :: UCHAR)) OR
      push_bit 16 (ucast (ucast (drop_bit 16 lba) :: UCHAR)) OR push_bit 24 (take_bit 4 (ucast (ucast (drop_bit 24 lba OR 0xE0) :: UCHAR)))"
    by (simp add: asked_sector_def read_command_def)
  show ?thesis unfolding a
    by (rule bit_word_eqI) (auto simp: bit_simps dest: l e)
qed

lemma small_disk_answers: "disk_answers small_disk 2 small_kernel"
proof -
  have "\<exists>k < 2. disk_status small_disk ws (n + k) AND 0xC0 = 0x40" for ws n
  proof (cases "even n")
    case True
    then show ?thesis by (intro exI [of _ 1]) (simp add: small_disk_def)
  next
    case False
    then show ?thesis by (intro exI [of _ 0]) (simp add: small_disk_def)
  qed
  moreover have "disk_words small_disk (ws @ read_command lba) 128 = words_at small_kernel (512 * (lba - 1)) 128" if "lba \<le> 0x800000" for ws lba
    using asked_sector_read [OF that, of ws] by (simp add: small_disk_def)
  ultimately show ?thesis by (simp add: disk_answers_def)
qed

lemma small_kernel_header:
  "e_magic (elf_head small_kernel 0) = ELF_MAGIC" "e_phoff (elf_head small_kernel 0) = 52" "e_phnum (elf_head small_kernel 0) = 1"
  "e_entry (elf_head small_kernel 0) = 0x8010000C"
  by code_simp+

lemma small_kernel_segment: "file_segment small_kernel 0 = \<lparr>p_offset = 0x1000, p_va = 0x80100000, p_filesz = 0, p_memsz = 0x2000\<rparr>"
  by code_simp

theorem kernel_loaded_witness:
  "\<exists>s'. load_kern small_disk 2 \<lparr>Mem = \<lambda>_. 0, Written = [], StatusReads = 0\<rparr> = Inr (Some 0x10000C, s') \<and>
     segment_in small_kernel (Mem s') \<lparr>p_offset = 0x1000, p_va = 0x80100000, p_filesz = 0, p_memsz = 0x2000\<rparr>"
proof -
  have "loadable small_kernel"
    by (simp add: loadable_def small_kernel_header small_kernel_segment placed_def phys_def seg_lo_def seg_hi_def)
  from kernel_loaded [OF small_disk_answers this, of "\<lparr>Mem = \<lambda>_. 0, Written = [], StatusReads = 0\<rparr>"]
  show ?thesis by (simp add: small_kernel_header small_kernel_segment)
qed

end
