(* ===== verification/HexDump.thy ===== *)
theory HexDump
  imports KStdio
begin

text \<open>
  \<open>hex_dump\<close> of \<open>lib/stdio.c\<close>, which prints a piece of memory in lines of 16 bytes, each behind its offset and followed, on demand, by its characters. As for
  \<open>vprintf\<close>, \<open>output\<close> takes one character and \<open>mem\<close> is the memory as the output sees it.
\<close>

definition printf_to :: "('s \<Rightarrow> memory) \<Rightarrow> (char \<Rightarrow> 's \<Rightarrow> 's) \<Rightarrow> string \<Rightarrow> va_list \<Rightarrow> 's \<Rightarrow> fault + 's" where
  "printf_to mem output format args = vprintf mem output (format @ [CHR 0x00]) args"

definition hex_line ::
  "('s \<Rightarrow> memory) \<Rightarrow> (char \<Rightarrow> 's \<Rightarrow> 's) \<Rightarrow> ULONG \<Rightarrow> address \<Rightarrow> nat \<Rightarrow> nat \<Rightarrow> bool \<Rightarrow> 's \<Rightarrow> fault + 's" where
  "hex_line mem output ofs buf first lim ascii aux =
     (let print = printf_to mem output; byte_at = (\<lambda>i aux. mem aux (buf + of_nat (i - first))) in
      bind (print ''%08jx  '' [ofs div 16 * 16, 0] aux) (\<lambda>aux.
      bind (foldE (\<lambda>_. print ''   '' []) [0..<first] aux) (\<lambda>aux.
      bind (foldE (\<lambda>i aux. print ''%02hhx%c'' [ucast (byte_at i aux), char_int (if i = 7 then CHR ''-'' else CHR '' '')] aux) [first..<lim] aux) (\<lambda>aux.
      bind (if \<not> ascii then Inr aux
        else bind (foldE (\<lambda>_. print ''   '' []) [lim..<16] aux) (\<lambda>aux.
             bind (print ''|'' [] aux) (\<lambda>aux.
             bind (foldE (\<lambda>_. print '' '' []) [0..<first] aux) (\<lambda>aux.
             bind (foldE (\<lambda>i aux. let c = ucast (byte_at i aux) in print ''%c'' [if isprint c then c else char_int (CHR ''.'')] aux) [first..<lim] aux) (\<lambda>aux.
             bind (foldE (\<lambda>_. print '' '' []) [lim..<16] aux)
             (print ''|'' []))))))
        (print [CHR 0x0A] [])))))"

lemma line_advances:
  assumes "(n :: size_t) \<noteq> 0" and "first < 16"
  defines "k \<equiv> (if 16 - first > unat n then first + unat n else 16) - first"
  shows "0 < k" and "k \<le> unat n" and "unat (n - of_nat k) < unat n"
proof -
  have n: "0 < unat n" using assms(1) by (metis neq0_conv unat_eq_zero)
  then show k: "0 < k" "k \<le> unat n" using assms(2) by (auto simp: k_def)
  then have "unat (of_nat k :: size_t) = k" using unat_ULONG_less [of n] by (intro unat_of_nat32) linarith
  then show "unat (n - of_nat k) < unat n" using k by (simp add: unat_sub word_le_nat_alt)
qed

function hex_dump :: "('s \<Rightarrow> memory) \<Rightarrow> (char \<Rightarrow> 's \<Rightarrow> 's) \<Rightarrow> ULONG \<Rightarrow> address \<Rightarrow> size_t \<Rightarrow> bool \<Rightarrow> 's \<Rightarrow> fault + 's" where
  "hex_dump mem output ofs buf nbytes ascii aux =
     (if nbytes = 0 then Inr aux
      else let first = unat (ofs mod 16);
               lim = (if 16 - first > unat nbytes then first + unat nbytes else 16);
               n = of_nat (lim - first)
           in bind (hex_line mem output ofs buf first lim ascii aux) (hex_dump mem output (ofs + n) (buf + n) (nbytes - n) ascii))"
  by auto
termination
proof (relation "measure (\<lambda>(_, _, _, _, nbytes, _). unat nbytes)")
  fix mem :: "'s \<Rightarrow> memory" and out :: "char \<Rightarrow> 's \<Rightarrow> 's" and ofs buf :: ULONG and nbytes :: size_t and ascii :: bool and aux y :: 's
    and first lim :: nat and n :: ULONG
  assume a: "nbytes \<noteq> 0" "first = unat (ofs mod 16)" "lim = (if unat nbytes < 16 - first then first + unat nbytes else 16)" "n = of_nat (lim - first)"
  have "first < 16" unfolding a(2) by (simp add: unat_mod)
  from line_advances(3) [OF a(1) this] show "((mem, out, ofs + n, buf + n, nbytes - n, ascii, y), mem, out, ofs, buf, nbytes, ascii, aux) \<in>
      measure (\<lambda>(_, _, _, _, nbytes, _). unat nbytes)"
    using a(3,4) by simp
qed simp

declare hex_dump.simps [simp del]

text \<open>The three bytes \<open>4B\<close>, \<open>4F\<close>, \<open>0A\<close> at offset 13 fill the end of one line.\<close>

lemma hex_dump_line:
  "hex_dump (\<lambda>_ a. if a = 0 then 0x4B else if a = 1 then 0x4F else 0x0A) (\<lambda>c cs. cs @ [c]) 0x2D 0 3 True [] =
     Inr (''00000020  '' @ replicate 39 (CHR '' '') @ ''4b 4f 0a |'' @ replicate 13 (CHR '' '') @ ''KO.|'' @ [CHR 0x0A])"
  unfolding hex_dump.simps [of _ _ "0x2D"] by code_simp

end
