(* ===== verification/PsProps.thy ===== *)
theory PsProps
  imports Process
begin

text \<open>
  What the process manager promises: the first context of a thread, the publication of a new thread to its process and to the scheduler, the
  list of processes, the count that protects a process, and what the clone of a user page pool shares with the original.
\<close>

section \<open>Updates\<close>

lemma set_process_sel [simp]:
  "Eprocesses (set_process p f s) = (Eprocesses s)(p := f (Eprocesses s p))" "Tcbs (set_process p f s) = Tcbs s" "Pcbs (set_process p f s) = Pcbs s"
  "Ethreads (set_process p f s) = Ethreads s" "SchedLink (set_process p f s) = SchedLink s" "Scheduler_list (set_process p f s) = Scheduler_list s"
  "ExitThreadList (set_process p f s) = ExitThreadList s" "ThreadLinks (set_process p f s) = ThreadLinks s" "ProcessLinks (set_process p f s) = ProcessLinks s"
  "PsActiveProcessHead (set_process p f s) = PsActiveProcessHead s" "spin_locks (set_process p f s) = spin_locks s"
  "hal_ok (set_process p f s) = hal_ok s" "CurrentIrql (set_process p f s) = CurrentIrql s" "CurrentThread (set_process p f s) = CurrentThread s"
  "DpcListHead (set_process p f s) = DpcListHead s" "TrapFrames (set_process p f s) = TrapFrames s" "ke_state.truncate (set_process p f s) = ke_state.truncate s"
  by (simp_all add: set_process_def hal_ok_def ke_state.truncate_def)

lemma set_thread_sel [simp]:
  "Ethreads (set_thread t f s) = (Ethreads s)(t := f (Ethreads s t))" "Eprocesses (set_thread t f s) = Eprocesses s" "Tcbs (set_thread t f s) = Tcbs s" "Pcbs (set_thread t f s) = Pcbs s"
  "SchedLink (set_thread t f s) = SchedLink s" "Scheduler_list (set_thread t f s) = Scheduler_list s" "ExitThreadList (set_thread t f s) = ExitThreadList s"
  "ThreadLinks (set_thread t f s) = ThreadLinks s" "spin_locks (set_thread t f s) = spin_locks s" "hal_ok (set_thread t f s) = hal_ok s"
  "CurrentIrql (set_thread t f s) = CurrentIrql s" "CurrentThread (set_thread t f s) = CurrentThread s" "DpcListHead (set_thread t f s) = DpcListHead s"
  "TrapFrames (set_thread t f s) = TrapFrames s"
  by (simp_all add: set_thread_def hal_ok_def)

lemma thread_name_sel [simp]:
  "Ethreads (thread_name t n s) = Ethreads s" "Eprocesses (thread_name t n s) = Eprocesses s" "Tcbs (thread_name t n s) = Tcbs s" "Pcbs (thread_name t n s) = Pcbs s"
  "SchedLink (thread_name t n s) = SchedLink s" "Scheduler_list (thread_name t n s) = Scheduler_list s" "ExitThreadList (thread_name t n s) = ExitThreadList s"
  "ThreadLinks (thread_name t n s) = ThreadLinks s" "spin_locks (thread_name t n s) = spin_locks s" "hal_ok (thread_name t n s) = hal_ok s"
  "CurrentIrql (thread_name t n s) = CurrentIrql s" "CurrentThread (thread_name t n s) = CurrentThread s" "DpcListHead (thread_name t n s) = DpcListHead s"
  "TrapFrames (thread_name t n s) = TrapFrames s"
  by (simp_all add: thread_name_def hal_ok_def)

lemma set_thread_list_sel [simp]:
  "ThreadLinks (set_thread_list_of p l s) = fst l" "Eprocesses (set_thread_list_of p l s) = (Eprocesses s)(p := Eprocesses s p\<lparr>ep_ThreadListHead := snd l\<rparr>)"
  "Ethreads (set_thread_list_of p l s) = Ethreads s" "Tcbs (set_thread_list_of p l s) = Tcbs s" "Pcbs (set_thread_list_of p l s) = Pcbs s"
  "SchedLink (set_thread_list_of p l s) = SchedLink s" "Scheduler_list (set_thread_list_of p l s) = Scheduler_list s"
  "ExitThreadList (set_thread_list_of p l s) = ExitThreadList s" "spin_locks (set_thread_list_of p l s) = spin_locks s"
  "hal_ok (set_thread_list_of p l s) = hal_ok s" "CurrentIrql (set_thread_list_of p l s) = CurrentIrql s"
  "CurrentThread (set_thread_list_of p l s) = CurrentThread s" "DpcListHead (set_thread_list_of p l s) = DpcListHead s"
  "TrapFrames (set_thread_list_of p l s) = TrapFrames s" "thread_list_of p (set_thread_list_of p l s) = l"
  by (simp_all add: set_thread_list_of_def thread_list_of_def hal_ok_def) (simp_all add: set_process_def hal_ok_def)

lemma set_frame_sel [simp]:
  "TrapFrames (set_frame a f s) = (TrapFrames s)(a := f)" "Eprocesses (set_frame a f s) = Eprocesses s"
  "Ethreads (set_frame a f s) = Ethreads s" "Tcbs (set_frame a f s) = Tcbs s" "Pcbs (set_frame a f s) = Pcbs s"
  "SchedLink (set_frame a f s) = SchedLink s" "Scheduler_list (set_frame a f s) = Scheduler_list s"
  "ExitThreadList (set_frame a f s) = ExitThreadList s" "spin_locks (set_frame a f s) = spin_locks s"
  "hal_ok (set_frame a f s) = hal_ok s" "CurrentIrql (set_frame a f s) = CurrentIrql s" "ThreadLinks (set_frame a f s) = ThreadLinks s"
  "CurrentThread (set_frame a f s) = CurrentThread s" "DpcListHead (set_frame a f s) = DpcListHead s"
  by (simp_all add: set_frame_def hal_ok_def)

lemma set_tcb_ps_sel [simp]:
  "Eprocesses (set_tcb t f s) = Eprocesses s" "Ethreads (set_tcb t f s) = Ethreads s" "ThreadLinks (set_tcb t f s) = ThreadLinks s"
  "TrapFrames (set_tcb t f s) = TrapFrames s"
  by (simp_all add: set_tcb_def)

lemma set_sched_list_ps_sel [simp]:
  "Eprocesses (set_sched_list p l s) = Eprocesses s" "Ethreads (set_sched_list p l s) = Ethreads s"
  "ThreadLinks (set_sched_list p l s) = ThreadLinks s" "TrapFrames (set_sched_list p l s) = TrapFrames s"
  by (simp_all add: set_sched_list_def)

lemma sched_ok_same:
  assumes "Tcbs s' = Tcbs s" "SchedLink s' = SchedLink s" "Scheduler_list s' = Scheduler_list s" "ExitThreadList s' = ExitThreadList s"
  shows "sched_ok s' = sched_ok s"
  using assms by (simp add: sched_ok_def fun_eq_iff)

lemma sched_ok_lock: "sched_ok (set_lock l f s) = sched_ok s"
  by (rule sched_ok_same) (simp_all add: set_lock_def)

lemma sched_ok_frame [simp]: "sched_ok (set_frame a f s) = sched_ok s"
  by (rule sched_ok_same) (simp_all add: set_frame_def)

lemma sched_ok_tcb:
  assumes ok: "sched_ok s qs es" and out: "t \<notin> queued qs es"
  shows "sched_ok (set_tcb t f s) qs es"
proof -
  have "u \<noteq> t" if "p < 7" "u \<in> set (qs ! p)" for p u
    using out that ok by (auto simp: queued_def sched_ok_def dest: nth_mem)
  then show ?thesis using ok by (simp add: sched_ok_def)
qed

section \<open>The first context of a thread\<close>

text \<open>The state after the context of a new thread, and of the copy of a thread, has been made.\<close>

definition user_started :: "kthread \<Rightarrow> KTRAPFRAME \<Rightarrow> 'a ps_state_scheme \<Rightarrow> 'a ps_state_scheme" where
  "user_started t f s = set_tcb t (\<lambda>k. k\<lparr>tcb_PreviousMode := UserMode, tcb_StackPointer := InStart KiRunUserThread (stack_top t s - sizeof_KTRAPFRAME)\<rparr>)
     (set_frame (stack_top t s - sizeof_KTRAPFRAME) f s)"

definition kernel_started :: "kthread \<Rightarrow> PVOID \<Rightarrow> PVOID \<Rightarrow> 'a ps_state_scheme \<Rightarrow> 'a ps_state_scheme" where
  "kernel_started t start ctx s = set_tcb t (\<lambda>k. k\<lparr>tcb_PreviousMode := KernelMode, tcb_StackPointer := InStart start ctx\<rparr>) s"

text \<open>A thread that starts from the frame of \<open>user_frame\<close> enters user mode at its start routine, with interrupts on and its kernel stack ready for the next trap.\<close>

lemma run_user_thread_enters:
  assumes "CurrentThread s = Some t" and "tcb_ThreadProcess (Tcbs s t) = Some p" and "IsCurrentPageDirectory (pcb_DirectoryTableBase (Pcbs s p)) s = Inr True"
    and "TrapFrames s a = user_frame t start s0 f"
  shows "\<exists>r s'. run_user_thread a s = Inr (r, s') \<and> TrapFrame_eip r = start \<and> TrapFrame_cs r = 0x1B \<and> TrapFrame_ss r = 0x23 \<and>
    TrapFrame_esp r = tcb_UserStack (Tcbs s0 t) + 3 * PGSIZE \<and> HalAreInterruptsEnabled s' \<and> TS_esp0 s' = stack_top t s"
proof -
  have "bit (0x202 :: ULONG) 9" by (simp add: bit_iff_odd_drop_bit)
  then show ?thesis
    using assms by (simp add: run_user_thread_def KeGetCurrentThread_def KeGetCurrentProcess_def HalDisableInterrupts_def HalAreInterruptsEnabled_def
        KiUpdateTSS_def user_frame_def)
qed

lemma address_kinds:
  "IsKernelAddress a \<Longrightarrow> \<not> IsUserAddress a" "IsUserAddress a \<Longrightarrow> \<not> IsKernelAddress a" "\<not> IsKernelAddress 0" "IsUserAddress 0"
  by (auto simp: IsKernelAddress_def IsUserAddress_def dest: order_less_trans)

lemma context_kernel:
  assumes k: "IsKernelAddress start"
  shows "KiCreateThreadContext t None start ctx s = Inr (STATUS_SUCCESS, kernel_started t start ctx s)"
proof -
  have "start \<noteq> 0" using k address_kinds(3) by metis
  then show ?thesis using k address_kinds(1) [OF k] by (simp add: KiCreateThreadContext_def kernel_started_def Let_def)
qed

lemma context_user:
  assumes u: "IsUserAddress start" and n: "start \<noteq> 0"
  shows "KiCreateThreadContext t None start ctx s = Inr (STATUS_SUCCESS, user_started t (user_frame t start s zero_frame) s)"
  using n u address_kinds(2) [OF u] by (simp add: KiCreateThreadContext_def user_started_def Let_def user_frame_def set_frame_def)

lemma context_clone:
  shows "KiCreateThreadContext t (Some c) 0 0 s = Inr (STATUS_SUCCESS,
    user_started t (let f = ((TrapFrames s)(stack_top t s - sizeof_KTRAPFRAME := zero_frame)) (stack_top c s - sizeof_KTRAPFRAME)
      in f\<lparr>TrapFrame_regs := TrapFrame_regs f\<lparr>Reg_eax := 0\<rparr>\<rparr>) s)"
  by (simp add: KiCreateThreadContext_def user_started_def Let_def address_kinds(3,4) set_frame_def stack_top_def)

text \<open>The context of a thread that starts at \<open>start\<close>, or goes on like the thread \<open>c\<close> when \<open>start\<close> is null.\<close>

definition started :: "kthread \<Rightarrow> kthread option \<Rightarrow> PVOID \<Rightarrow> PVOID \<Rightarrow> 'a ps_state_scheme \<Rightarrow> 'a ps_state_scheme" where
  "started t c start ctx s =
     (if start = 0 then user_started t (let f = ((TrapFrames s)(stack_top t s - sizeof_KTRAPFRAME := zero_frame)) (stack_top (the c) s - sizeof_KTRAPFRAME)
        in f\<lparr>TrapFrame_regs := TrapFrame_regs f\<lparr>Reg_eax := 0\<rparr>\<rparr>) s
      else if IsKernelAddress start then kernel_started t start ctx s else user_started t (user_frame t start s zero_frame) s)"

lemma create_started:
  assumes "if start = 0 then c \<noteq> None \<and> CurrentThread s = c else IsKernelAddress start \<or> IsUserAddress start"
  shows "(if start = 0 then deref (KeGetCurrentThread s) (\<lambda>c. KiCreateThreadContext t (Some c) 0 0 s)
    else KiCreateThreadContext t None start ctx s) = Inr (STATUS_SUCCESS, started t c start ctx s)"
  using assms by (auto simp: started_def context_kernel context_user context_clone KeGetCurrentThread_def split: if_splits)

lemma started_tcb:
  "\<exists>h. Tcbs (started t c start ctx s) = (Tcbs s)(t := (Tcbs s t)\<lparr>tcb_PreviousMode := fst h, tcb_StackPointer := snd h\<rparr>)"
  by (auto simp: started_def user_started_def kernel_started_def intro!: exI [of _ "(a, b)" for a b])

lemma started_sel [simp]:
  "Eprocesses (started t c start ctx s) = Eprocesses s" "Ethreads (started t c start ctx s) = Ethreads s" "Pcbs (started t c start ctx s) = Pcbs s"
  "SchedLink (started t c start ctx s) = SchedLink s" "Scheduler_list (started t c start ctx s) = Scheduler_list s"
  "ExitThreadList (started t c start ctx s) = ExitThreadList s" "ThreadLinks (started t c start ctx s) = ThreadLinks s"
  "CurrentThread (started t c start ctx s) = CurrentThread s" "spin_locks (started t c start ctx s) = spin_locks s"
  "hal_ok (started t c start ctx s) = hal_ok s" "CurrentIrql (started t c start ctx s) = CurrentIrql s"
  "DpcListHead (started t c start ctx s) = DpcListHead s"
  by (simp_all add: started_def user_started_def kernel_started_def)

section \<open>The publication of a thread\<close>

text \<open>The lock of the process is held by the current thread, the dispatcher database is free and the IRQL is \<open>DISPATCH_LEVEL\<close>.\<close>

definition publishing :: "eprocess \<Rightarrow> KIRQL \<Rightarrow> 'a ps_state_scheme \<Rightarrow> bool" where
  "publishing p Old s \<longleftrightarrow> hal_ok s \<and> CurrentIrql s = DISPATCH_LEVEL \<and> spin_locks s DispatcherDataBaseLock = free_lock \<and>
     spin_locks s (ProcessLock p) = \<lparr>Lock = 1, Thread = CurrentThread s, OldIrql = Old\<rparr> \<and> Old \<le> DISPATCH_LEVEL \<and>
     (LIST_EMPTY (DpcListHead s) \<or> Old = DISPATCH_LEVEL)"

lemma publishing_sel [simp]:
  "publishing p Old (set_process q f s) = publishing p Old s" "publishing p Old (set_thread t g s) = publishing p Old s"
  "publishing p Old (thread_name t n s) = publishing p Old s" "publishing p Old (set_thread_list_of q l s) = publishing p Old s"
  "publishing p Old (set_frame a b s) = publishing p Old s" "publishing p Old (set_tcb t h s) = publishing p Old s"
  by (simp_all add: publishing_def)

lemma ASSERT_process_lock_ok: "publishing p Old s \<Longrightarrow> ASSERT_process_lock msg p s k = k"
  by (simp add: ASSERT_process_lock_def publishing_def hal_ok_irql KeQuerySpinLock_def KeGetCurrentThread_def)

text \<open>Making a thread ready holds the dispatcher database for the insertion only.\<close>

lemma make_ready_correct:
  assumes pub: "publishing p Old s" and ok: "sched_ok s qs es" and out: "t \<notin> queued qs es"
    and st: "tcb_State (Tcbs s t) = THREAD_STATE_INITIALIZED" and pr: "tcb_ThreadProcess (Tcbs s t) = Some p"
    and prio: "tcb_Priority (Tcbs s t) < 7"
  shows "\<exists>l. make_ready t s = Inr (set_sched_list (tcb_Priority (Tcbs s t)) l (set_tcb t (\<lambda>k. k\<lparr>tcb_State := THREAD_STATE_READY,
      tcb_Quantum := pcb_Quantum (Pcbs s p)\<rparr>) s)) \<and>
    sched_ok (set_sched_list (tcb_Priority (Tcbs s t)) l (set_tcb t (\<lambda>k. k\<lparr>tcb_State := THREAD_STATE_READY,
      tcb_Quantum := pcb_Quantum (Pcbs s p)\<rparr>) s)) (qs[tcb_Priority (Tcbs s t) := qs ! tcb_Priority (Tcbs s t) @ [t]]) es"
proof -
  let ?h = "hold DispatcherDataBaseLock DISPATCH_LEVEL s" and ?q = "tcb_Priority (Tcbs s t)"
  let ?f = "\<lambda>k. k\<lparr>tcb_State := THREAD_STATE_READY, tcb_Quantum := pcb_Quantum (Pcbs s p)\<rparr>"
  have p: "hal_ok s" "CurrentIrql s = DISPATCH_LEVEL" "spin_locks s DispatcherDataBaseLock = free_lock"
    using pub by (simp_all add: publishing_def)
  have h: "sched_ok ?h qs es" "dispatcher_held ?h" "Tcbs ?h = Tcbs s" "Pcbs ?h = Pcbs s"
    using ok p(1,2) by (simp_all add: sched_ok_lock hold_def dispatcher_held_def)
  obtain l where l: "KiReadyThread t ?h = Inr (set_sched_list ?q l (set_tcb t ?f ?h))"
    "sched_ok (set_sched_list ?q l (set_tcb t ?f ?h)) (qs[?q := qs ! ?q @ [t]]) es"
    using KiReadyThread_correct [OF h(1,2) out, of p ?q] unfolding h(3,4) using st pr prio by auto
  let ?s = "set_sched_list ?q l (set_tcb t ?f ?h)"
  have free: "set_lock DispatcherDataBaseLock (\<lambda>_. free_lock) ?s = set_sched_list ?q l (set_tcb t ?f s)"
    using p(3) by (simp add: set_lock_def set_sched_list_def set_tcb_def hold_def fun_upd_idem)
  have "KiUnLockDispatcherDataBaseFromDpcLevel ?s = Inr (set_lock DispatcherDataBaseLock (\<lambda>_. free_lock) ?s)"
    unfolding KiUnLockDispatcherDataBaseFromDpcLevel_def
    by (rule KeReleaseSpinLockFromDpcLevel_eq [where i = DISPATCH_LEVEL])
      (use p in \<open>simp_all add: set_lock_def set_sched_list_def set_tcb_def hold_def hal_ok_def\<close>)
  moreover have "KiLockDispatcherDataBaseAtDpcLevel s = Inr ?h"
    unfolding KiLockDispatcherDataBaseAtDpcLevel_def by (rule KeAcquireSpinLockAtDpcLevel_eq) (use p in simp_all)
  moreover have "sched_ok (set_sched_list ?q l (set_tcb t ?f s)) (qs[?q := qs ! ?q @ [t]]) es"
    using l(2) free sched_ok_lock [of DispatcherDataBaseLock "\<lambda>_. free_lock" ?s] by simp
  ultimately show ?thesis using l(1) free by (intro exI [of _ l]) (simp add: make_ready_def)
qed

text \<open>The part of a publication in front of the scheduler's: the flags, the name, the list of the process and the context.\<close>

definition inserted :: "eprocess \<Rightarrow> kthread \<Rightarrow> kthread klist \<Rightarrow> address \<Rightarrow> 'a ps_state_scheme \<Rightarrow> 'a ps_state_scheme" where
  "inserted p t l name s = add_flag t THREAD_FLAG_INSERTED (set_thread_list_of p l (thread_name t name (add_flag t THREAD_FLAG_ALLOCATED s)))"

definition count_thread :: "eprocess \<Rightarrow> 'a ps_state_scheme \<Rightarrow> 'a ps_state_scheme" where
  "count_thread p s = PsIncProcessRundownProtect p
     (set_process p (\<lambda>e. e\<lparr>ep_ActiveThreads := snd (InterlockedIncrement (ep_ActiveThreads e))\<rparr>) s)"

lemma publish_thread_eq:
  assumes pub: "publishing p Old s" and ts: "klist_rep (thread_list_of p s) ts" "t \<notin> set ts"
    and ok: "sched_ok s qs es" "t \<notin> queued qs es" and fl: "et_Flags (Ethreads s t) = 0"
    and tcb: "tcb_State (Tcbs s t) = THREAD_STATE_INITIALIZED" "tcb_ThreadProcess (Tcbs s t) = Some p" "tcb_Priority (Tcbs s t) = q" "q < 7"
    and start: "if start = 0 then c \<noteq> None \<and> CurrentThread s = c else IsKernelAddress start \<or> IsUserAddress start"
  shows "\<exists>l l'. klist_rep l (ts @ [t]) \<and>
    (let s' = set_sched_list q l' (set_tcb t (\<lambda>k. k\<lparr>tcb_State := THREAD_STATE_READY, tcb_Quantum := pcb_Quantum (Pcbs s p)\<rparr>)
         (add_flag t THREAD_FLAG_CONTEXT_CREATED (started t c start ctx (inserted p t l name s))))
     in sched_ok s' (qs[q := qs ! q @ [t]]) es \<and>
       publish_thread call run (Suc fuel) p t Old name start ctx s =
         Inr (STATUS_SUCCESS, Some t, at_irql Old (set_lock (ProcessLock p) (\<lambda>_. free_lock) (count_thread p s'))))"
proof -
  let ?s0 = "thread_name t name (add_flag t THREAD_FLAG_ALLOCATED s)"
  have tl0: "thread_list_of p ?s0 = thread_list_of p s" by (simp add: thread_list_of_def add_flag_def)
  obtain l where l: "LIST_INSERT_TAIL t (thread_list_of p s) = Inr l" "klist_rep l (ts @ [t])"
    using LIST_INSERT_TAIL_correct [OF ts] by auto
  let ?i = "inserted p t l name s"
  have pub0: "publishing p Old ?s0" "publishing p Old ?i" using pub by (simp_all add: inserted_def add_flag_def)
  have ins: "PspInsertThread p t ?s0 = Inr (STATUS_SUCCESS, set_thread_list_of p l ?s0)"
    using l(1) by (simp add: PspInsertThread_def ASSERT_process_lock_ok [OF pub0(1)] tl0)
  have f1: "et_Flags (Ethreads (set_thread_list_of p l ?s0) t) = THREAD_FLAG_ALLOCATED" using fl by (simp add: add_flag_def)
  have st: "if start = 0 then c \<noteq> None \<and> CurrentThread ?i = c else IsKernelAddress start \<or> IsUserAddress start"
    using start by (simp add: inserted_def add_flag_def)
  let ?c = "add_flag t THREAD_FLAG_CONTEXT_CREATED (started t c start ctx ?i)"
  obtain h where h: "Tcbs (started t c start ctx ?i) = (Tcbs ?i)(t := (Tcbs ?i t)\<lparr>tcb_PreviousMode := fst h, tcb_StackPointer := snd h\<rparr>)"
    using started_tcb by blast
  have ti: "Tcbs ?i = Tcbs s" by (simp add: inserted_def add_flag_def)
  have "sched_ok ?c = sched_ok (set_tcb t (\<lambda>k. k\<lparr>tcb_PreviousMode := fst h, tcb_StackPointer := snd h\<rparr>) s)"
    using h ti by (intro sched_ok_same) (simp_all add: inserted_def add_flag_def)
  then have okc: "sched_ok ?c qs es" using sched_ok_tcb [OF ok] by simp
  have pubc: "publishing p Old ?c" using pub0(2) by (simp add: publishing_def add_flag_def)
  have tc: "tcb_State (Tcbs ?c t) = THREAD_STATE_INITIALIZED" "tcb_ThreadProcess (Tcbs ?c t) = Some p" "tcb_Priority (Tcbs ?c t) = q" "Pcbs ?c = Pcbs s"
    using tcb h ti by (simp_all add: add_flag_def inserted_def)
  obtain l' where l': "make_ready t ?c = Inr (set_sched_list q l' (set_tcb t (\<lambda>k. k\<lparr>tcb_State := THREAD_STATE_READY, tcb_Quantum := pcb_Quantum (Pcbs s p)\<rparr>) ?c))"
    "sched_ok (set_sched_list q l' (set_tcb t (\<lambda>k. k\<lparr>tcb_State := THREAD_STATE_READY, tcb_Quantum := pcb_Quantum (Pcbs s p)\<rparr>) ?c)) (qs[q := qs ! q @ [t]]) es"
    using make_ready_correct [OF pubc okc ok(2) tc(1,2)] tc(3,4) tcb(4) by auto
  let ?s' = "set_sched_list q l' (set_tcb t (\<lambda>k. k\<lparr>tcb_State := THREAD_STATE_READY, tcb_Quantum := pcb_Quantum (Pcbs s p)\<rparr>) ?c)"
  have n: "publishing p Old (count_thread p ?s')" using pubc by (simp add: publishing_def count_thread_def PsIncProcessRundownProtect_def)
  have rel: "KeReleaseSpinLock run (Suc fuel) (ProcessLock p) Old (count_thread p ?s') =
      Inr (at_irql Old (set_lock (ProcessLock p) (\<lambda>_. free_lock) (count_thread p ?s')))"
    using n KeReleaseSpinLock_eq [of "count_thread p ?s'" "ProcessLock p" Old run "Suc fuel"]
      KeLowerIrql_quiet [of "set_lock (ProcessLock p) (\<lambda>_. free_lock) (count_thread p ?s')" Old run fuel]
    by (auto simp: publishing_def)
  have "publish_thread call run (Suc fuel) p t Old name start ctx s =
      Inr (STATUS_SUCCESS, Some t, at_irql Old (set_lock (ProcessLock p) (\<lambda>_. free_lock) (count_thread p ?s')))"
    using fl f1 ins create_started [OF st, of t ctx, unfolded inserted_def] l'(1) rel
    by (simp add: publish_thread_def Let_def inserted_def count_thread_def split del: if_split)
  then show ?thesis using l(2) l'(2) by (intro exI [of _ l] exI [of _ l']) (simp add: Let_def)
qed

text \<open>What can be read of the state a publication ends in.\<close>

definition published :: "eprocess \<Rightarrow> kthread \<Rightarrow> KIRQL \<Rightarrow> kthread list \<Rightarrow> kthread list list \<Rightarrow> kthread list \<Rightarrow> 'a ps_state_scheme \<Rightarrow> 'a ps_state_scheme \<Rightarrow> bool" where
  "published p t Old ts qs es s s' \<longleftrightarrow>
     klist_rep (thread_list_of p s') (ts @ [t]) \<and>
     sched_ok s' (qs[tcb_Priority (Tcbs s t) := qs ! tcb_Priority (Tcbs s t) @ [t]]) es \<and>
     tcb_State (Tcbs s' t) = THREAD_STATE_READY \<and> tcb_Quantum (Tcbs s' t) = pcb_Quantum (Pcbs s p) \<and>
     et_Flags (Ethreads s' t) = THREAD_FLAG_ALLOCATED OR THREAD_FLAG_INSERTED OR THREAD_FLAG_CONTEXT_CREATED \<and>
     ep_ActiveThreads (Eprocesses s' p) = ep_ActiveThreads (Eprocesses s p) + 1 \<and>
     ep_RundownProtect (Eprocesses s' p) = ep_RundownProtect (Eprocesses s p) + 1 \<and>
     spin_locks s' = (spin_locks s)(ProcessLock p := free_lock) \<and> CurrentIrql s' = Old"

lemma ps_outer_sel [simp]:
  "Eprocesses (at_irql i s) = Eprocesses s" "Ethreads (at_irql i s) = Ethreads s" "ThreadLinks (at_irql i s) = ThreadLinks s"
  "Tcbs (at_irql i s) = Tcbs s" "TrapFrames (at_irql i s) = TrapFrames s" "sched_ok (at_irql i s) = sched_ok s"
  "Eprocesses (set_lock l f s) = Eprocesses s" "Ethreads (set_lock l f s) = Ethreads s" "ThreadLinks (set_lock l f s) = ThreadLinks s"
  "Tcbs (set_lock l f s) = Tcbs s" "TrapFrames (set_lock l f s) = TrapFrames s" "sched_ok (set_lock l f s) = sched_ok s"
  by (simp_all add: at_irql_def set_lock_def sched_ok_def fun_eq_iff)

lemma count_thread_sel [simp]:
  "ThreadLinks (count_thread p s) = ThreadLinks s" "Ethreads (count_thread p s) = Ethreads s" "Tcbs (count_thread p s) = Tcbs s"
  "TrapFrames (count_thread p s) = TrapFrames s" "sched_ok (count_thread p s) = sched_ok s" "spin_locks (count_thread p s) = spin_locks s"
  "ep_ThreadListHead (Eprocesses (count_thread p s) p) = ep_ThreadListHead (Eprocesses s p)"
  "ep_ActiveThreads (Eprocesses (count_thread p s) p) = ep_ActiveThreads (Eprocesses s p) + 1"
  "ep_RundownProtect (Eprocesses (count_thread p s) p) = ep_RundownProtect (Eprocesses s p) + 1"
  by (simp_all add: count_thread_def PsIncProcessRundownProtect_def InterlockedIncrement_def InterlockedExchangeAdd_def sched_ok_def fun_eq_iff)

lemma published_state:
  assumes "klist_rep l (ts @ [t])" "et_Flags (Ethreads s t) = 0" "tcb_Priority (Tcbs s t) = q"
    "s' = set_sched_list q l' (set_tcb t (\<lambda>k. k\<lparr>tcb_State := THREAD_STATE_READY, tcb_Quantum := pcb_Quantum (Pcbs s p)\<rparr>)
      (add_flag t THREAD_FLAG_CONTEXT_CREATED (started t c start ctx (inserted p t l name s))))"
    "sched_ok s' (qs[q := qs ! q @ [t]]) es"
  shows "published p t Old ts qs es s (at_irql Old (set_lock (ProcessLock p) (\<lambda>_. free_lock) (count_thread p s')))"
  using assms by (simp add: published_def thread_list_of_def inserted_def add_flag_def)

lemma publish_thread_correct:
  assumes "publishing p Old s" "klist_rep (thread_list_of p s) ts" "t \<notin> set ts"
    "sched_ok s qs es" "t \<notin> queued qs es" "et_Flags (Ethreads s t) = 0"
    "tcb_State (Tcbs s t) = THREAD_STATE_INITIALIZED" "tcb_ThreadProcess (Tcbs s t) = Some p" "tcb_Priority (Tcbs s t) < 7"
    "if start = 0 then c \<noteq> None \<and> CurrentThread s = c else IsKernelAddress start \<or> IsUserAddress start"
  shows "\<exists>l s'. publish_thread call run (Suc fuel) p t Old name start ctx s = Inr (STATUS_SUCCESS, Some t, s') \<and>
    published p t Old ts qs es s s' \<and>
    tcb_StackPointer (Tcbs s' t) = tcb_StackPointer (Tcbs (started t c start ctx (inserted p t l name s)) t) \<and>
    TrapFrames s' = TrapFrames (started t c start ctx (inserted p t l name s))"
proof -
  obtain l l' where *: "klist_rep l (ts @ [t])" "let s' = set_sched_list (tcb_Priority (Tcbs s t)) l'
        (set_tcb t (\<lambda>k. k\<lparr>tcb_State := THREAD_STATE_READY, tcb_Quantum := pcb_Quantum (Pcbs s p)\<rparr>)
         (add_flag t THREAD_FLAG_CONTEXT_CREATED (started t c start ctx (inserted p t l name s))))
     in sched_ok s' (qs[tcb_Priority (Tcbs s t) := qs ! tcb_Priority (Tcbs s t) @ [t]]) es \<and>
       publish_thread call run (Suc fuel) p t Old name start ctx s =
         Inr (STATUS_SUCCESS, Some t, at_irql Old (set_lock (ProcessLock p) (\<lambda>_. free_lock) (count_thread p s')))"
    using publish_thread_eq [OF assms(1-8) refl assms(9,10)] by blast
  then show ?thesis
    using published_state [OF *(1) assms(6) refl refl, of l' p c start ctx name qs es Old]
    by (intro exI [of _ l]) (simp add: Let_def add_flag_def)
qed

text \<open>
  The state of the loader's examples with a fresh thread 9 of process 0, whose lock the running thread 1 holds; thread 9 has its own
  kernel stack, and the running thread is inside a trap.
\<close>

definition trap_frame :: KTRAPFRAME where
  "trap_frame = zero_frame\<lparr>TrapFrame_regs := (TrapFrame_regs zero_frame)\<lparr>Reg_ebx := 17, Reg_eax := 2\<rparr>, TrapFrame_eip := 0x800100,
     TrapFrame_cs := 0x1B\<rparr>"

definition fresh_thread :: ps_state where
  "fresh_thread = set_frame 0x85902FBC trap_frame
     (set_tcb 9 (\<lambda>_. (small_tcb THREAD_STATE_INITIALIZED)\<lparr>tcb_KernelStack := 0x85A00000\<rparr>) (hold (ProcessLock 0) 0 (at_irql 2 elf_state)))"

lemma elf_state_sched:
  "Tcbs elf_state = Tcbs three_threads" "SchedLink elf_state = SchedLink three_threads" "Scheduler_list elf_state = Scheduler_list three_threads"
  "ExitThreadList elf_state = ExitThreadList three_threads" "CurrentThread elf_state = Some 1" "spin_locks elf_state l = free_lock"
  "DpcListHead elf_state = LIST_INIT" "hal_ok elf_state = hal_ok three_threads" "Ethreads elf_state t = \<lparr>et_Flags = 0, et_ThreadsProcess = None, et_Cid = 0\<rparr>"
  "thread_list_of p elf_state = (\<lparr>le_next = Map.empty, le_prev = Map.empty\<rparr>, LIST_INIT)"
  by (simp_all add: elf_state_def obname_state.extend_def ps_state.fields_def small_names_def ob_state.extend_def obname_state.fields_def
      small_ob_unfold three_threads_unfold hal_ok_def free_lock_def thread_list_of_def)

lemma elf_state_processes: "CurrentIrql elf_state = 0" "process_list elf_state = (\<lparr>le_next = Map.empty, le_prev = Map.empty\<rparr>, LIST_INIT)"
  by (simp_all add: elf_state_def obname_state.extend_def ps_state.fields_def small_names_def ob_state.extend_def obname_state.fields_def
      small_ob_unfold three_threads_unfold process_list_def)

lemma fresh_thread_ok:
  "publishing 0 0 fresh_thread" "klist_rep (thread_list_of 0 fresh_thread) []" "sched_ok fresh_thread [[], [], [], [2, 3], [], [], []] []"
  "9 \<notin> queued [[], [], [], [2, 3], [], [], []] []" "et_Flags (Ethreads fresh_thread 9) = 0"
  "Tcbs fresh_thread 9 = (small_tcb THREAD_STATE_INITIALIZED)\<lparr>tcb_KernelStack := 0x85A00000\<rparr>" "CurrentThread fresh_thread = Some 1"
proof -
  have r: "hal_ok three_threads" "sched_ok three_threads [[], [], [], [2, 3], [], [], []] []"
    using three_threads_running by (simp_all add: running_def)
  show q: "(9::kthread) \<notin> queued [[], [], [], [2, 3], [], [], []] []" by (simp add: queued_def)
  let ?h = "hold (ProcessLock 0) 0 (at_irql 2 elf_state)"
  have "sched_ok ?h [[], [], [], [2, 3], [], [], []] []"
    using r(2) by (simp add: hold_def) (simp add: sched_ok_def elf_state_sched)
  from sched_ok_tcb [OF this q] show "sched_ok fresh_thread [[], [], [], [2, 3], [], [], []] []"
    by (simp add: fresh_thread_def)
  show "publishing 0 0 fresh_thread"
    using r(1) hal_ok_at_irql [of elf_state 2] by (simp add: publishing_def fresh_thread_def hold_def elf_state_sched LIST_EMPTY_def LIST_INIT_def)
  show "klist_rep (thread_list_of 0 fresh_thread) []"
    using elf_state_sched(10) [of 0] by (simp add: fresh_thread_def hold_def thread_list_of_def klist_rep_def LIST_INIT_def)
qed (simp_all add: fresh_thread_def hold_def elf_state_sched)

section \<open>Properties\<close>

text \<open>C9. A new thread is published completely: it is at the end of its process's list of threads and of the ready queue of its priority, with
  a full quantum and the three flags set, the process counts one more active thread and one more reason to stay, the lock of
  the process is free again and the IRQL is the caller's. When it first runs, it runs its start routine in the kernel, or enters user mode
  there with the user selectors, the interrupts enabled and the stack pointer at the top of its user stack.\<close>

theorem thread_published:
  assumes "publishing p Old s" "klist_rep (thread_list_of p s) ts" "t \<notin> set ts" "sched_ok s qs es" "t \<notin> queued qs es"
    "et_Flags (Ethreads s t) = 0" "tcb_State (Tcbs s t) = THREAD_STATE_INITIALIZED" "tcb_ThreadProcess (Tcbs s t) = Some p"
    "tcb_Priority (Tcbs s t) < 7" and start: "start \<noteq> 0" "IsKernelAddress start \<or> IsUserAddress start"
  shows "\<exists>s'. publish_thread call run (Suc fuel) p t Old name start ctx s = Inr (STATUS_SUCCESS, Some t, s') \<and>
    published p t Old ts qs es s s' \<and>
    (if IsKernelAddress start then tcb_StackPointer (Tcbs s' t) = InStart start ctx
     else tcb_StackPointer (Tcbs s' t) = InStart KiRunUserThread (stack_top t s - sizeof_KTRAPFRAME) \<and>
       TrapFrames s' (stack_top t s - sizeof_KTRAPFRAME) = zero_frame\<lparr>TrapFrame_es := 0x23, TrapFrame_ds := 0x23, TrapFrame_eip := start,
         TrapFrame_cs := 0x1B, TrapFrame_eflags := 0x202, TrapFrame_esp := tcb_UserStack (Tcbs s t) + 3 * PGSIZE, TrapFrame_ss := 0x23\<rparr>)"
proof -
  have c: "if start = 0 then (None :: kthread option) \<noteq> None \<and> CurrentThread s = None else IsKernelAddress start \<or> IsUserAddress start"
    using start by simp
  obtain l s' where s': "publish_thread call run (Suc fuel) p t Old name start ctx s = Inr (STATUS_SUCCESS, Some t, s')" "published p t Old ts qs es s s'"
    "tcb_StackPointer (Tcbs s' t) = tcb_StackPointer (Tcbs (started t None start ctx (inserted p t l name s)) t)"
    "TrapFrames s' = TrapFrames (started t None start ctx (inserted p t l name s))"
    using publish_thread_correct [OF assms(1-9) c, of call run fuel name ctx] by blast
  show ?thesis
    using s' start(1)
    by (intro exI [of _ s']) (simp add: started_def kernel_started_def user_started_def user_frame_def inserted_def add_flag_def stack_top_def)
qed

theorem thread_published_witness:
  "\<exists>s'. publish_thread no_methods no_dpcs 1 0 9 0 0 0x800000 0 fresh_thread = Inr (STATUS_SUCCESS, Some 9, s') \<and>
     TrapFrame_eip (TrapFrames s' 0x85A02FBC) = 0x800000 \<and> tcb_State (Tcbs s' 9) = THREAD_STATE_READY"
  using thread_published [OF fresh_thread_ok(1,2) _ fresh_thread_ok(3-5), of "0x800000" no_methods no_dpcs 0 0 0]
  by (auto simp: fresh_thread_ok(6) small_tcb_def published_def IsKernelAddress_def IsUserAddress_def stack_top_def)

text \<open>C26. The first context of a thread cloned from the running one is the running thread's trap frame on a stack of its own, with the
  result register zero: the child goes on behind the same system call, which gives it 0, and is published like any new thread.\<close>

theorem thread_forked:
  assumes "publishing p Old s" "klist_rep (thread_list_of p s) ts" "t \<notin> set ts" "sched_ok s qs es" "t \<notin> queued qs es"
    "et_Flags (Ethreads s t) = 0" "tcb_State (Tcbs s t) = THREAD_STATE_INITIALIZED" "tcb_ThreadProcess (Tcbs s t) = Some p"
    "tcb_Priority (Tcbs s t) < 7" and c: "CurrentThread s = Some c" "stack_top c s \<noteq> stack_top t s"
  shows "\<exists>s'. publish_thread call run (Suc fuel) p t Old name 0 ctx s = Inr (STATUS_SUCCESS, Some t, s') \<and>
    published p t Old ts qs es s s' \<and> tcb_StackPointer (Tcbs s' t) = InStart KiRunUserThread (stack_top t s - sizeof_KTRAPFRAME) \<and>
    (let f = TrapFrames s (stack_top c s - sizeof_KTRAPFRAME) in
     TrapFrames s' = (TrapFrames s)(stack_top t s - sizeof_KTRAPFRAME := f\<lparr>TrapFrame_regs := (TrapFrame_regs f)\<lparr>Reg_eax := 0\<rparr>\<rparr>))"
proof -
  have c': "if (0::ULONG) = 0 then Some c \<noteq> None \<and> CurrentThread s = Some c else IsKernelAddress 0 \<or> IsUserAddress 0" using c(1) by simp
  obtain l s' where s': "publish_thread call run (Suc fuel) p t Old name 0 ctx s = Inr (STATUS_SUCCESS, Some t, s')" "published p t Old ts qs es s s'"
    "tcb_StackPointer (Tcbs s' t) = tcb_StackPointer (Tcbs (started t (Some c) 0 ctx (inserted p t l name s)) t)"
    "TrapFrames s' = TrapFrames (started t (Some c) 0 ctx (inserted p t l name s))"
    using publish_thread_correct [OF assms(1-9) c', of call run fuel name ctx] by blast
  show ?thesis
    using s' c(2) by (intro exI [of _ s']) (simp add: started_def user_started_def inserted_def add_flag_def stack_top_def Let_def)
qed

theorem thread_forked_witness:
  "\<exists>s'. publish_thread no_methods no_dpcs 1 0 9 0 0 0 0 fresh_thread = Inr (STATUS_SUCCESS, Some 9, s') \<and>
     TrapFrame_eip (TrapFrames s' 0x85A02FBC) = 0x800100 \<and> Reg_eax (TrapFrame_regs (TrapFrames s' 0x85A02FBC)) = 0 \<and>
     Reg_ebx (TrapFrame_regs (TrapFrames s' 0x85A02FBC)) = 17"
proof -
  have f: "Tcbs fresh_thread (Suc 0) = small_tcb THREAD_STATE_RUNNING" "TrapFrames fresh_thread 0x85902FBC = trap_frame"
    by (simp_all add: fresh_thread_def hold_def elf_state_sched)
  show ?thesis
    using thread_forked [OF fresh_thread_ok(1,2) _ fresh_thread_ok(3-5) _ _ _ fresh_thread_ok(7), of no_methods no_dpcs 0 0 0]
    by (auto simp: fresh_thread_ok(6) f small_tcb_def stack_top_def trap_frame_def Let_def)
qed

section \<open>The list of processes\<close>

lemma process_list_more: "ke_state.more t = ke_state.more s \<Longrightarrow> process_list t = process_list s \<and> Pcbs t = Pcbs (s :: 'a ps_state_scheme)"
  by (cases s; cases t) (simp add: process_list_def)

lemma PspInsertProcess_correct:
  assumes lk: "lockable PsActiveProcessHeadLock s" and l: "klist_rep (process_list s) ps" "p \<notin> set ps"
  shows "\<exists>s'. PspInsertProcess run (Suc fuel) p s = Inr (STATUS_SUCCESS, s') \<and> klist_rep (process_list s') (ps @ [p]) \<and>
    Pcbs s' = (Pcbs s)(p := (Pcbs s p)\<lparr>pcb_State := PROCESS_STATE_ACTIVE\<rparr>) \<and> ke_state.truncate s' = ke_state.truncate s"
proof -
  obtain l' where l': "LIST_INSERT_TAIL p (process_list s) = Inr l'" "klist_rep l' (ps @ [p])" using LIST_INSERT_TAIL_correct [OF l] by auto
  let ?f = "\<lambda>s :: 'a ps_state_scheme. set_pcb p (\<lambda>k. k\<lparr>pcb_State := PROCESS_STATE_ACTIVE\<rparr>) (set_process_list l' s)"
  have "spinlock.bracket PsActiveProcessHeadLock run fuel (\<lambda>s. bind (LIST_INSERT_TAIL p (process_list s)) (\<lambda>l.
      Inr (STATUS_SUCCESS, set_pcb p (\<lambda>k. k\<lparr>pcb_State := PROCESS_STATE_ACTIVE\<rparr>) (set_process_list l s)))) s = Inr (STATUS_SUCCESS, ?f s)"
  proof (rule spinlock_section [OF lk])
    show "ke_state.truncate (?f s) = ke_state.truncate s" by (simp add: set_pcb_def set_process_list_def ke_state.truncate_def)
    fix t :: "'a ps_state_scheme"
    assume m: "ke_state.more t = ke_state.more s"
    then show "\<exists>t'. bind (LIST_INSERT_TAIL p (process_list t)) (\<lambda>l.
        Inr (STATUS_SUCCESS, set_pcb p (\<lambda>k. k\<lparr>pcb_State := PROCESS_STATE_ACTIVE\<rparr>) (set_process_list l t))) = Inr (STATUS_SUCCESS, t') \<and>
        ke_state.truncate t' = ke_state.truncate t \<and> ke_state.more t' = ke_state.more (?f s)"
      using process_list_more [OF m] l'(1)
      by (intro exI [of _ "?f t"]) (cases s; cases t; simp add: set_pcb_def set_process_list_def ke_state.truncate_def)
  qed
  then have "PspInsertProcess run (Suc fuel) p s = Inr (STATUS_SUCCESS, ?f s)"
    by (auto simp: PspInsertProcess_def spinlock.bracket_def Let_def acquire_lockable [OF lk] bind_eq_Inr)
  then show ?thesis using l'(2)
    by (intro exI [of _ "?f s"]) (simp add: set_pcb_def set_process_list_def process_list_def ke_state.truncate_def)
qed

lemma PspRemoveProcess_correct:
  assumes lk: "lockable PsActiveProcessHeadLock s" and l: "klist_rep (process_list s) (as @ p # bs)"
    and st: "pcb_State (Pcbs s p) = PROCESS_STATE_TERMINATED"
  shows "\<exists>s'. PspRemoveProcess run (Suc fuel) p s = Inr (STATUS_SUCCESS, s') \<and> klist_rep (process_list s') (as @ bs) \<and>
    Pcbs s' = Pcbs s \<and> ke_state.truncate s' = ke_state.truncate s"
proof -
  obtain l' where l': "LIST_REMOVE p (process_list s) = Inr l'" "klist_rep l' (as @ bs)" using LIST_REMOVE_correct [OF l] by auto
  have "spinlock.bracket PsActiveProcessHeadLock run fuel (\<lambda>s. bind (LIST_REMOVE p (process_list s)) (\<lambda>l.
      Inr (STATUS_SUCCESS, set_process_list l s))) s = Inr (STATUS_SUCCESS, set_process_list l' s)"
  proof (rule spinlock_section [OF lk])
    show "ke_state.truncate (set_process_list l' s) = ke_state.truncate s" by (simp add: set_process_list_def ke_state.truncate_def)
    fix t :: "'a ps_state_scheme"
    assume m: "ke_state.more t = ke_state.more s"
    then show "\<exists>t'. bind (LIST_REMOVE p (process_list t)) (\<lambda>l. Inr (STATUS_SUCCESS, set_process_list l t)) = Inr (STATUS_SUCCESS, t') \<and>
        ke_state.truncate t' = ke_state.truncate t \<and> ke_state.more t' = ke_state.more (set_process_list l' s)"
      using process_list_more [OF m] l'(1)
      by (intro exI [of _ "set_process_list l' t"]) (cases s; cases t; simp add: set_process_list_def ke_state.truncate_def)
  qed
  then have "PspRemoveProcess run (Suc fuel) p s = Inr (STATUS_SUCCESS, set_process_list l' s)"
    using st by (auto simp: PspRemoveProcess_def spinlock.bracket_def acquire_lockable [OF lk] bind_eq_Inr)
  then show ?thesis using l'(2)
    by (intro exI [of _ "set_process_list l' s"]) (simp add: set_process_list_def process_list_def ke_state.truncate_def)
qed

text \<open>C27. The list of processes holds each process from its insertion to its removal: insertion puts the process at the end, makes it active,
  and from then on any listed process that has terminated can be taken off, which leaves the others in their order. The lock, the IRQL
  and everything else the interrupt level depends on are the caller's again after each step.\<close>

theorem processes_listed:
  assumes lk: "lockable PsActiveProcessHeadLock s" and l: "klist_rep (process_list s) ps" "p \<notin> set ps"
  shows "\<exists>s1. PspInsertProcess run (Suc fuel) p s = Inr (STATUS_SUCCESS, s1) \<and> klist_rep (process_list s1) (ps @ [p]) \<and>
    pcb_State (Pcbs s1 p) = PROCESS_STATE_ACTIVE \<and> ke_state.truncate s1 = ke_state.truncate s \<and>
    (\<forall>q \<in> set (ps @ [p]). \<exists>s2. PspRemoveProcess run (Suc fuel) q (set_pcb q (\<lambda>k. k\<lparr>pcb_State := PROCESS_STATE_TERMINATED\<rparr>) s1) =
       Inr (STATUS_SUCCESS, s2) \<and> klist_rep (process_list s2) (remove1 q (ps @ [p])) \<and> ke_state.truncate s2 = ke_state.truncate s)"
proof -
  obtain s1 where s1: "PspInsertProcess run (Suc fuel) p s = Inr (STATUS_SUCCESS, s1)" "klist_rep (process_list s1) (ps @ [p])"
    "pcb_State (Pcbs s1 p) = PROCESS_STATE_ACTIVE" "ke_state.truncate s1 = ke_state.truncate s"
    using PspInsertProcess_correct [OF lk l, of run fuel] by fastforce
  have "\<exists>s2. PspRemoveProcess run (Suc fuel) q (set_pcb q (\<lambda>k. k\<lparr>pcb_State := PROCESS_STATE_TERMINATED\<rparr>) s1) = Inr (STATUS_SUCCESS, s2) \<and>
      klist_rep (process_list s2) (remove1 q (ps @ [p])) \<and> ke_state.truncate s2 = ke_state.truncate s" if q: "q \<in> set (ps @ [p])" for q
  proof -
    let ?s = "set_pcb q (\<lambda>k. k\<lparr>pcb_State := PROCESS_STATE_TERMINATED\<rparr>) s1"
    obtain as bs where sp: "ps @ [p] = as @ q # bs" "q \<notin> set as" using split_list_first [OF q] by blast
    have tr: "ke_state.truncate ?s = ke_state.truncate s" using s1(4) by (simp add: set_pcb_def ke_state.truncate_def)
    have "klist_rep (process_list ?s) (as @ q # bs)" using s1(2) sp(1) by (simp add: process_list_def set_pcb_def)
    from PspRemoveProcess_correct [OF truncate_lockable [OF lk tr] this, of run fuel] show ?thesis
      using sp tr by (auto simp: set_pcb_def remove1_append)
  qed
  then show ?thesis using s1 by blast
qed

theorem processes_listed_witness:
  "\<exists>s1 s2. PspInsertProcess no_dpcs 1 7 elf_state = Inr (STATUS_SUCCESS, s1) \<and>
     PspRemoveProcess no_dpcs 1 7 (set_pcb 7 (\<lambda>k. k\<lparr>pcb_State := PROCESS_STATE_TERMINATED\<rparr>) s1) = Inr (STATUS_SUCCESS, s2) \<and> klist_rep (process_list s2) []"
proof -
  have "lockable PsActiveProcessHeadLock elf_state" "klist_rep (process_list elf_state) []"
    using three_threads_running
    by (simp_all add: running_def lockable_def elf_state_sched elf_state_processes LIST_EMPTY_def LIST_INIT_def klist_rep_def)
  from processes_listed [OF this, of 7 no_dpcs 0] show ?thesis by fastforce
qed

section \<open>Work in another address space\<close>

lemma attach_process:
  assumes "hal_ok s" "CurrentIrql s = DISPATCH_LEVEL" "MmGetPhysicalAddress (pcb_DirectoryTableBase (Pcbs s p)) s = Inr A"
  shows "KiAttachProcess (Some p) s = Inr (s\<lparr>Cr3 := A\<rparr>)"
  using assms by (simp add: KiAttachProcess_def hal_ok_irql MmAttachToAddressSpace_def)

lemma ASSERT_attach_ok:
  assumes "hal_ok s" "CurrentIrql s = DISPATCH_LEVEL" "Lock (spin_locks s DispatcherDataBaseLock) = 1"
  shows "ASSERT_attach msg s k = k"
  using assms by (simp add: ASSERT_attach_def hal_ok_irql KiQueryDispatcherDatabase_def KeQuerySpinLock_def)

lemma locked_sel:
  assumes "lockable l s"
  shows "hal_ok (locked l s)" "CurrentIrql (locked l s) = DISPATCH_LEVEL" "Lock (spin_locks (locked l s) l) = 1" "CurrentThread (locked l s) = CurrentThread s"
proof -
  show "hal_ok (locked l s)" using assms by (simp add: lockable_def locked_def hold_def hal_ok_at_irql)
qed (simp_all add: locked_def hold_def set_lock_def)

lemma truncate_core:
  assumes "ke_state.truncate s' = ke_state.truncate s"
  shows "hal_ok s' = hal_ok s" "CurrentIrql s' = CurrentIrql s" "spin_locks s' = spin_locks s" "CurrentThread s' = CurrentThread s"
  using assms by (simp_all add: ke_state.truncate_def hal_ok_def)

lemma bytes_more: "ke_state.more t = ke_state.more s \<Longrightarrow> Bytes t = Bytes (s :: 'a ps_state_scheme)"
  by (cases s; cases t) simp

text \<open>C15. What is done for another process is done in its address space: with the dispatcher database free and the directory of the process mapped,
  at the physical address \<open>A\<close>, the routine runs at \<open>DISPATCH_LEVEL\<close> with the database locked and \<open>A\<close> in \<open>CR3\<close>. The routine may change memory and
  any structure above the interrupt level; it has to leave the IRQL, the locks, the current thread and the deferred calls as it found them, the thread in
  its process, and the directory of that process mapped, at \<open>B\<close>, in the address space it ran in. Then its result is returned, \<open>B\<close> is in \<open>CR3\<close>, the
  lock is free, the IRQL is the caller's, and nothing but \<open>CR3\<close>, the lock and the IRQL differs from what the routine left.\<close>

theorem in_process_correct:
  fixes s :: "'a ps_state_scheme"
  assumes lk: "lockable DispatcherDataBaseLock s" and c: "CurrentThread s = Some c" "tcb_ThreadProcess (Tcbs s c) = Some q" "q \<noteq> p"
    and A: "MmGetPhysicalAddress (pcb_DirectoryTableBase (Pcbs s p)) s = Inr A"
    and k: "k ((locked DispatcherDataBaseLock s)\<lparr>Cr3 := A\<rparr>) = Inr (r, s2)"
    and pres: "ke_state.truncate s2 = ke_state.truncate (locked DispatcherDataBaseLock s)" "tcb_ThreadProcess (Tcbs s2 c) = Some q"
    and B: "MmGetPhysicalAddress (pcb_DirectoryTableBase (Pcbs s2 q)) s2 = Inr B"
  shows "\<exists>s'. in_process run (Suc fuel) p k s = Inr (r, CurrentIrql s, s') \<and> Cr3 s' = B \<and> ke_state.more s' = ke_state.more (s2\<lparr>Cr3 := B\<rparr>) \<and>
    ke_state.truncate s' = ke_state.truncate s"
proof -
  let ?l = "locked DispatcherDataBaseLock s" and ?b = "s2\<lparr>Cr3 := B\<rparr>"
  note l = locked_sel [OF lk]
  have lt: "Tcbs ?l = Tcbs s" "Pcbs ?l = Pcbs s" by (simp_all add: locked_def hold_def)
  have "MmGetPhysicalAddress (pcb_DirectoryTableBase (Pcbs s p)) ?l = Inr A"
    using A MmGetPhysicalAddress_cong [of ?l s] by (simp add: locked_def hold_def)
  then have "PspAttachProcess (Some p) ?l = Inr (?l\<lparr>Cr3 := A\<rparr>)"
    using l c lt by (simp add: PspAttachProcess_def ASSERT_attach_ok KeStackAttachProcess_def KeGetCurrentProcess_def KeGetCurrentThread_def
        hal_ok_irql attach_process)
  moreover have "PspDetachProcess s2 = Inr ?b"
    using l c(1) truncate_core [OF pres(1)] pres(2) B
    by (simp add: PspDetachProcess_def ASSERT_attach_ok KeUnstackDetachProcess_def KeGetCurrentThread_def hal_ok_irql attach_process)
  moreover have tr: "ke_state.truncate ?b = ke_state.truncate ?l" using pres(1) by (simp add: ke_state.truncate_def)
  ultimately have "in_process run (Suc fuel) p k s = Inr (r, CurrentIrql s, unlocked DispatcherDataBaseLock s ?b)"
    using acquire_lockable [OF lk] k release_locked(1) [OF lk tr]
    by (simp add: in_process_def KiLockDispatcherDataBase_def KiUnLockDispatcherDataBase_def)
  then show ?thesis using release_locked(2) [OF lk tr] by (simp add: unlocked_def at_irql_def set_lock_def)
qed

text \<open>Two address spaces: the directories in the frames 1 and 8 share the kernel's page table, which maps both of them; process 7 has the second one.\<close>

definition two_spaces :: ps_state where
  "two_spaces = elf_state\<lparr>PhysMem := \<lambda>f i. if f = 2 then (if i = 0 then 0x1003 else if i = 1 then 0x8003 else 0)
       else if f = 8 then (if i = 768 then 0x8003 else if i = 534 then 0x2003 else 0) else small_mem f i,
     Pcbs := \<lambda>p. (Pcbs elf_state p)\<lparr>pcb_DirectoryTableBase := (if p = 7 then MMSYSPTE_START + PGSIZE else MMSYSPTE_START)\<rparr>\<rparr>"

lemma two_spaces_directory:
  assumes "Cr3 s = 0x1000 \<or> Cr3 s = 0x8000" "PhysMem s = PhysMem two_spaces"
  shows "MmGetPhysicalAddress (pcb_DirectoryTableBase (Pcbs two_spaces p)) s = Inr (if p = 7 then 0x8000 else 0x1000)"
proof -
  let ?b = "pcb_DirectoryTableBase (Pcbs two_spaces p)"
  have b: "PDX ?b = 534" "PTX ?b = (if p = 7 then 1 else 0)" "PGOFF ?b = 0" by (simp_all add: two_spaces_def PDX_def PTX_def PGOFF_def)
  have d: "page_dir s = 1 \<or> page_dir s = 8" using assms(1) by (auto simp: page_dir_def PPN_def)
  then have e: "pde s ?b = 0x2003" using assms(2) b(1) by (auto simp: pde_def two_spaces_def small_mem_def)
  then have "pte s ?b = (if p = 7 then 0x8003 else 0x1003)" using assms(2) b(2) by (simp add: pte_def two_spaces_def)
  moreover have "Valid 0x8003" "PageFrameNumber 0x8003 = 8" by (simp_all add: Valid_def PageFrameNumber_def)
  then have "self_map s" using d assms(2) by (auto simp: self_map_def two_spaces_def small_mem_def)
  ultimately show ?thesis using vread_pte [of s ?b] e b(3) by (auto simp: MmGetPhysicalAddress_def Valid_def PageFrameNumber_def)
qed

theorem in_process_correct_witness:
  "\<exists>s'. in_process no_dpcs 1 7 (\<lambda>s. Inr (Cr3 s, s\<lparr>Bytes := \<lambda>_. 42\<rparr>)) two_spaces = Inr (0x8000, 0, s') \<and> Cr3 s' = 0x1000 \<and> Bytes s' 0 = 42"
proof -
  have hal_two: "hal_ok two_spaces = hal_ok elf_state" by (simp add: hal_ok_def two_spaces_def)
  have "lockable DispatcherDataBaseLock elf_state"
    using three_threads_running by (simp add: running_def lockable_def elf_state_sched elf_state_processes LIST_EMPTY_def LIST_INIT_def)
  then have lk: "lockable DispatcherDataBaseLock two_spaces" by (simp add: lockable_def hal_two) (simp add: two_spaces_def)
  have c: "CurrentThread two_spaces = Some 1" "tcb_ThreadProcess (Tcbs two_spaces 1) = Some 0" "CurrentIrql two_spaces = 0"
    by (simp_all add: two_spaces_def elf_state_sched elf_state_processes small_tcb_def)
  let ?l = "(locked DispatcherDataBaseLock two_spaces)\<lparr>Cr3 := 0x8000\<rparr>" and ?k = "\<lambda>s :: ps_state. Inr (Cr3 s, s\<lparr>Bytes := \<lambda>_. 42\<rparr>)"
  have A: "MmGetPhysicalAddress (pcb_DirectoryTableBase (Pcbs two_spaces 7)) two_spaces = Inr 0x8000"
    using two_spaces_directory [of two_spaces 7] by (simp add: two_spaces_def)
  have B: "MmGetPhysicalAddress (pcb_DirectoryTableBase (Pcbs (?l\<lparr>Bytes := \<lambda>_. 42\<rparr>) 0)) (?l\<lparr>Bytes := \<lambda>_. 42\<rparr>) = Inr 0x1000"
    using two_spaces_directory [of "?l\<lparr>Bytes := \<lambda>_. 42\<rparr>" 0] by (simp add: locked_def hold_def)
  have "ke_state.truncate (?l\<lparr>Bytes := \<lambda>_. 42\<rparr>) = ke_state.truncate (locked DispatcherDataBaseLock two_spaces)"
    "tcb_ThreadProcess (Tcbs (?l\<lparr>Bytes := \<lambda>_. 42\<rparr>) 1) = Some 0"
    using c(2) by (simp_all add: ke_state.truncate_def locked_def hold_def)
  from in_process_correct [where k = ?k, OF lk c(1,2) _ A _ this B, of "0x8000" no_dpcs 0] obtain s' where
    "in_process no_dpcs (Suc 0) 7 ?k two_spaces = Inr (0x8000, CurrentIrql two_spaces, s')" "Cr3 s' = 0x1000"
    "ke_state.more s' = ke_state.more (?l\<lparr>Bytes := \<lambda>_. 42, Cr3 := 0x1000\<rparr>)" by auto
  moreover from bytes_more [OF this(3)] have "Bytes s' 0 = 42" by simp
  ultimately show ?thesis using c(3) by auto
qed

end
