(* ===== verification/IoProps.thy ===== *)
theory IoProps
  imports Io PsProps
begin

text \<open>
  What the I/O manager promises: a request on a file handle reaches the routine of the driver behind the file with a packet that carries
  it, and leaves no packet and no reference behind.
\<close>

section \<open>Packets\<close>

definition built :: "PVOID \<Rightarrow> PVOID \<Rightarrow> UCHAR \<Rightarrow> UCHAR \<Rightarrow> PVOID \<Rightarrow> size_t \<Rightarrow> ULONG \<Rightarrow> 'a io_state_scheme \<Rightarrow> 'a io_state_scheme" where
  "built pIrp f maj mn buf n off s = set_irp pIrp (\<lambda>i. i\<lparr>irp_Buffer := buf, irp_BufferSize := n, irp_pFileObj := f, irp_Offset := off,
     irp_CurrentStackLocation := - 1, irp_Cancel := False, irp_IrpCancelRoutine := None, irp_Completed := False,
     irp_IoStack := (irp_IoStack i)(0 := \<lparr>sl_MajorFunction = maj, sl_MinorFunction = mn\<rparr>)\<rparr>) s"

lemma IoBuildIrp_built:
  assumes "MmAllocatePoolWithTag run fuel PagedPool sizeof_IRP TAG_IRP s = Inr (pIrp, s1)" "pIrp \<noteq> 0"
  shows "IoBuildIrp run fuel f maj mn buf n off s = Inr (pIrp, built pIrp f maj mn buf n off s1)"
  using assms by (simp add: IoBuildIrp_def built_def set_irp_def stack_location_def Let_def)

text \<open>The current process has a handle of a live file object.\<close>

definition file_handle :: "HANDLE \<Rightarrow> PVOID \<Rightarrow> 'a io_state_scheme \<Rightarrow> bool" where
  "file_handle h f s \<longleftrightarrow> h < of_nat EX_MAX_HANDLE \<and> h \<noteq> OB_INVALID_HANDLE \<and> f \<noteq> 0 \<and> live f s \<and> IoFileObjectType s \<noteq> None \<and>
     oh_ObjectType (header f s) = IoFileObjectType s \<and>
     (\<exists>p. PsGetCurrentProcess s = Some p \<and> HandleArray s (HandlePtr s (ProcessTable p)) (unat h) = f)"

lemma reference_file:
  assumes "file_handle h f s" "hal_ok s" "CurrentIrql s \<le> DISPATCH_LEVEL"
  shows "ObReferenceObjectByHandle h (IoFileObjectType s) s = Inr (STATUS_SUCCESS, f, add_refs 1 f s)"
proof -
  have l: "live f s" "oh_RefCount (header f s) \<noteq> 0" using assms(1) by (auto simp: file_handle_def live_def)
  show ?thesis
    using assms l ObReferenceObject_live [OF l(1) assms(2,3)]
    by (auto simp: ObReferenceObjectByHandle_def file_handle_def ObLookupObjectByHandle_def ASSERT_handle_def ObReferenceObjectByPointer_def hal_ok_irql)
qed

lemma add_refs_back: "add_refs (- 1) f (add_refs 1 f s) = s"
  by (simp add: add_refs_def set_object_def header_def)

text \<open>The device of a file is driven by the file system driver and the file is open.\<close>

definition kfs_file :: "PVOID \<Rightarrow> 'a io_state_scheme \<Rightarrow> bool" where
  "kfs_file f s \<longleftrightarrow> (let dev = DeviceObjects s (fo_DeviceObject (FileObjects s f)) in
     dev_StackSize dev = 1 \<and> dev_DriverObject dev \<noteq> 0 \<and> drv_MajorFunction (DriverObjects s (dev_DriverObject dev)) = kfs_table) \<and>
     fo_FsContext (FileObjects s f) \<noteq> 0"

lemma call_kfs:
  assumes "kfs_file f s" "maj \<le> IRP_MJ_MAXIMUM_FUNCTION" "kfs_table (unat maj) = Some r"
  shows "IoCallDriver drivers (fo_DeviceObject (FileObjects s f)) pIrp (built pIrp f maj mn buf n off s) =
    drivers r (fo_DeviceObject (FileObjects s f)) pIrp (IoAdvanceIrpStackPointer pIrp (built pIrp f maj mn buf n off s))"
  using assms
  by (simp add: IoCallDriver_def Let_def kfs_file_def built_def set_irp_def IoAdvanceIrpStackPointer_def IoGetCurrentIrpStackLocation_def
      stack_location_def not_less [symmetric])

section \<open>Reading a file\<close>

lemma add_refs_frame [simp]:
  "Pools (add_refs k f s) = Pools s" "ke_state.truncate (add_refs k f s) = ke_state.truncate s" "Bytes (add_refs k f s) = Bytes s"
  "FileObjects (add_refs k f s) = FileObjects s" "kfs_file g (add_refs k f s) = kfs_file g s"
  by (simp_all add: add_refs_def set_object_def ke_state.truncate_def kfs_file_def)

text \<open>
  What the driver gets: the state of the caller with one more reference of the file, the packet from the pool, and the request in the packet. FatFs is
  called in this state.
\<close>

definition asked :: "PVOID \<Rightarrow> PVOID \<Rightarrow> PVOID \<Rightarrow> size_t \<Rightarrow> pools \<Rightarrow> 'a io_state_scheme \<Rightarrow> 'a io_state_scheme" where
  "asked pIrp f buf n ps s = IoAdvanceIrpStackPointer pIrp
     (built pIrp f IRP_MJ_READ IRP_MN_NULL buf n (fo_FileOffset (FileObjects s f)) ((add_refs 1 f s)\<lparr>Pools := ps\<rparr>))"

definition handed_over :: "nat \<Rightarrow> nat \<Rightarrow> (PVOID \<times> nat \<times> bool) list \<Rightarrow> PVOID \<Rightarrow> PVOID \<Rightarrow> PVOID \<Rightarrow> size_t \<Rightarrow>
    'a io_state_scheme \<Rightarrow> 'a io_state_scheme \<Rightarrow> bool" where
  "handed_over a t blocks q f buf n s u \<longleftrightarrow> u = asked (q + 24) f buf n (Pools u) s \<and>
     pool_ok PagedPool a t (Pools u) blocks \<and> ph_Tag (Headers (Pools u) q) = TAG_IRP"

lemma asked_sel [simp]:
  "Pools (asked p f buf n ps s) = ps" "FileObjects (asked p f buf n ps s) = FileObjects s"
  "irp_pFileObj (Irps (asked p f buf n ps s) p) = f" "irp_Buffer (Irps (asked p f buf n ps s) p) = buf" "irp_BufferSize (Irps (asked p f buf n ps s) p) = n"
  "IoGetCurrentIrpStackLocation p (asked p f buf n ps s) = Inr \<lparr>sl_MajorFunction = IRP_MJ_READ, sl_MinorFunction = IRP_MN_NULL\<rparr>"
  "ke_state.truncate (asked p f buf n ps s) = ke_state.truncate s" "header g (asked p f buf n ps s) = header g (add_refs 1 f s)"
  by (simp_all add: asked_def IoAdvanceIrpStackPointer_def built_def set_irp_def IoGetCurrentIrpStackLocation_def stack_location_def header_def
      ke_state.truncate_def add_refs_def set_object_def)

text \<open>
  What the I/O manager relies on afterwards, whatever else FatFs, the disk driver and other threads did to the state: the pool can be locked, it is sound
  and the block \<open>q\<close> of the packet is still allocated in it, and the file object is live and still has the reference of the request.
\<close>

definition request_kept :: "nat \<Rightarrow> nat \<Rightarrow> PVOID \<Rightarrow> PVOID \<Rightarrow> 'a io_state_scheme \<Rightarrow> bool" where
  "request_kept a t q f u \<longleftrightarrow> lockable PoolLock u \<and> (\<exists>as m bs. pool_ok PagedPool a t (Pools u) (as @ (q, m, True) # bs)) \<and>
     ph_Tag (Headers (Pools u) q) = TAG_IRP \<and> ObIsValidObject f u \<and> 1 < sint (oh_RefCount (header f u)) \<and> oh_Attributes (header f u) AND OBJ_PERMANENT = 0"

lemma transferred_sel [simp]:
  "Pools (transferred p st k s) = Pools s" "ke_state.truncate (transferred p st k s) = ke_state.truncate s" "header g (transferred p st k s) = header g s"
  "lockable l (transferred p st k s) = lockable l s" "ObIsValidObject g (transferred p st k s) = ObIsValidObject g s"
  by (simp_all add: transferred_def IoCompleteRequest_def set_irp_def header_def ke_state.truncate_def lockable_def hal_ok_def ObIsValidObject_def)

lemma kfs_read:
  assumes k: "kfs_file f s"
  shows "IoCallDriver (kfs_routines ff run fuel others) (fo_DeviceObject (FileObjects s f)) pIrp
      (built pIrp f IRP_MJ_READ IRP_MN_NULL buf n (fo_FileOffset (FileObjects s f)) ((add_refs 1 f s)\<lparr>Pools := ps\<rparr>)) =
    bind (fat_read ff (fo_FsContext (FileObjects s f)) buf n (asked pIrp f buf n ps s)) (\<lambda>(st, k, u').
      ASSERT ''KfsRead: Status == FR_OK'' (st = FR_OK) (Inr (st, transferred pIrp st k u')))"
proof -
  let ?s = "(add_refs 1 f s)\<lparr>Pools := ps\<rparr>"
  have "kfs_file f (add_refs 1 f s)" using k by simp
  then have k': "kfs_file f ?s" by (simp add: kfs_file_def)
  have tab: "IRP_MJ_READ \<le> IRP_MJ_MAXIMUM_FUNCTION" "kfs_table (unat IRP_MJ_READ) = Some KfsRead_routine" by (simp_all add: kfs_table_def)
  have "IoCallDriver (kfs_routines ff run fuel others) (fo_DeviceObject (FileObjects s f)) pIrp
      (built pIrp f IRP_MJ_READ IRP_MN_NULL buf n (fo_FileOffset (FileObjects s f)) ?s) = KfsRead ff pIrp (asked pIrp f buf n ps s)"
    using call_kfs [OF k' tab, of "kfs_routines ff run fuel others" pIrp IRP_MN_NULL buf n] by (simp add: kfs_routines_def asked_def)
  then show ?thesis using k by (simp add: KfsRead_def kfs_file_def)
qed

lemma pool_ready_truncate: "pool_ready ty s \<Longrightarrow> ke_state.truncate s' = ke_state.truncate s \<Longrightarrow> pool_ready ty s'"
  using truncate_lockable [of PoolLock s s'] by (auto simp: pool_ready_def ke_state.truncate_def)

text \<open>The packet comes from the first block that fits it, and goes back to the pool.\<close>

lemma packet_allocated:
  fixes s :: "'a pool_state_scheme"
  assumes "pool_ready PagedPool s" "pool_ok PagedPool a t (Pools s) (xs @ (q, sz, False) # ys)" "\<forall>b \<in> set xs. \<not> fits 156 b" "184 \<le> sz"
  shows "\<exists>ps m zs. MmAllocatePoolWithTag run (Suc fuel) PagedPool sizeof_IRP TAG_IRP s = Inr (q + 24, s\<lparr>Pools := ps\<rparr>) \<and>
    pool_ok PagedPool a t ps (xs @ carve 156 (q, sz, False) @ ys) \<and> xs @ carve 156 (q, sz, False) @ ys = xs @ (q, m, True) # zs \<and>
    freed xs q m zs = xs @ (q, sz, False) # ys \<and> ph_Tag (Headers ps q) = TAG_IRP"
proof -
  have "unat (ROUNDUP (sizeof_IRP + POOLPAD) 4) = 156" using request_size [of sizeof_IRP] by simp
  then obtain ps where ps: "take_block PagedPool (ROUNDUP (sizeof_IRP + POOLPAD) 4) TAG_IRP (Pools s) = Inr (q + 24, ps)"
    "pool_ok PagedPool a t ps (xs @ carve 156 (q, sz, False) @ ys)" "ph_Tag (Headers ps q) = TAG_IRP"
    using take_block_correct [OF assms(2), of "ROUNDUP (sizeof_IRP + POOLPAD) 4" TAG_IRP] assms(3,4) by auto
  have "MmAllocatePoolWithTag run (Suc fuel) PagedPool sizeof_IRP TAG_IRP s = Inr (q + 24, s\<lparr>Pools := ps\<rparr>)"
    by (rule MmAllocatePoolWithTag_eq [OF assms(1) pool_okD(1) [OF assms(2)] _ ps(1)]) simp
  moreover obtain m zs where "xs @ carve 156 (q, sz, False) @ ys = xs @ (q, m, True) # zs" "freed xs q m zs = xs @ (q, sz, False) # ys"
    using freed_carve [OF pool_okD(3) [OF assms(2)], of 156] assms(4) by auto
  ultimately show ?thesis using ps(2,3) by blast
qed

lemma packet_freed:
  fixes v :: "'a pool_state_scheme"
  assumes "lockable PoolLock v" "\<exists>as m bs. pool_ok PagedPool a t (Pools v) (as @ (q, m, True) # bs)" "ph_Tag (Headers (Pools v) q) = TAG_IRP"
  shows "\<exists>ps. MmFreePoolWithTag run (Suc fuel) (q + 24) TAG_IRP v = Inr (v\<lparr>Pools := ps\<rparr>) \<and>
    (\<forall>as m bs. pool_ok PagedPool a t (Pools v) (as @ (q, m, True) # bs) \<longrightarrow> pool_ok PagedPool a t ps (freed as q m bs))"
proof -
  have f: "\<exists>ps. MmFreePoolWithTag run (Suc fuel) (q + 24) TAG_IRP v = Inr (v\<lparr>Pools := ps\<rparr>) \<and> pool_ok PagedPool a t ps (freed as q m bs)"
    if "pool_ok PagedPool a t (Pools v) (as @ (q, m, True) # bs)" for as m bs
    using MmFreePoolWithTag_correct [OF assms(1) that, of TAG_IRP run fuel] assms(3) by auto
  then obtain ps where ps: "MmFreePoolWithTag run (Suc fuel) (q + 24) TAG_IRP v = Inr (v\<lparr>Pools := ps\<rparr>)" using assms(2) by blast
  have "pool_ok PagedPool a t ps (freed as q m bs)" if "pool_ok PagedPool a t (Pools v) (as @ (q, m, True) # bs)" for as m bs
  proof -
    note b = that
    obtain ps' where ps': "v\<lparr>Pools := ps\<rparr> = v\<lparr>Pools := ps'\<rparr>" "pool_ok PagedPool a t ps' (freed as q m bs)" using f [OF b] ps by auto
    from arg_cong [OF ps'(1), of Pools] ps'(2) show ?thesis by simp
  qed
  then show ?thesis using ps by blast
qed

lemma transferred_pools [simp]:
  "header g ((transferred p st k s)\<lparr>Pools := ps\<rparr>) = header g s" "ObIsValidObject g ((transferred p st k s)\<lparr>Pools := ps\<rparr>) = ObIsValidObject g s"
  by (simp_all add: transferred_def IoCompleteRequest_def set_irp_def header_def ObIsValidObject_def)

lemma ASSERT_bind: "bind (ASSERT msg b x) k = ASSERT msg b (bind x k)"
  by (simp add: ASSERT_def)


text \<open>The small machine with one free block in the paged pool and an open file. Its file system sends a command to the disk, takes an interrupt and returns the byte 42
  for every read.\<close>

definition paged_block :: pools where
  "paged_block = \<lparr>Headers = \<lambda>_. \<lparr>ph_PoolType = 0, ph_size = 0x1FE4, ph_Tag = 0, ph_status = 0\<rparr>,
     PoolLink = \<lparr>le_next = Some, le_prev = Some\<rparr>,
     KernelPools = [\<lparr>lh_first = Some 0x85800000, NumberOfElements = 1\<rparr>, LIST_INIT]\<rparr>"

definition open_file :: io_state where
  "open_file = intr_state.extend (ps_state.extend (elf_state\<lparr>Pools := paged_block\<rparr>)
       (intr_state.fields (\<lambda>_. SETGATE False GD_KT 0 0) True (\<lambda>_. \<lparr>KISRRoutine = None, ki_Irql = 0, InterruptName = [], ki_Vector = 0\<rparr>) 0 []))
     (io_state.fields (Some 3) (Some 4) 1
       (\<lambda>_. \<lparr>dev_Size = 112, dev_DriverObject = 0x86002000, dev_Characteristics = 0, dev_StackSize = 1, dev_DeviceExtension = 0\<rparr>)
       (\<lambda>_. \<lparr>drv_DriverSize = 140, drv_DriverInit = Some 9, drv_DriverUnload = Some 8, drv_MajorFunction = kfs_table\<rparr>)
       (\<lambda>_. \<lparr>fo_DeviceObject = 0x86001000, fo_FileMode = 0, fo_FileOffset = 0, fo_FsContext = 0x86003000\<rparr>)
       (\<lambda>_. \<lparr>irp_Buffer = 0, irp_BufferSize = 0, irp_pFileObj = 0, irp_Offset = 0, irp_IoStack = \<lambda>_. \<lparr>sl_MajorFunction = 0, sl_MinorFunction = 0\<rparr>,
         irp_CurrentStackLocation = 0, irp_Cancel = False, irp_IrpCancelRoutine = None, irp_Completed = False, irp_Status = 0, irp_Information = 0\<rparr>))"

definition answer_fs :: "io_state fat" where
  "answer_fs = \<lparr>f_chdrive = \<lambda>_ s. Inr (0, s), fat_open = \<lambda>_ _ _ s. Inr (0, s),
     fat_read = \<lambda>_ b n s. Inr (0, n, s\<lparr>Bytes := \<lambda>_. 42, PortWrites := PortWrites s @ [(0x1F7, 0x20)], IsrTime := IsrTime s + 1\<rparr>),
     fat_write = \<lambda>_ _ n s. Inr (0, n, s), fat_close = \<lambda>_ s. Inr (0, s), f_mount = \<lambda>_ _ s. Inr (0, s)\<rparr>"

lemmas open_file_unfold = open_file_def intr_state.extend_def io_state.fields_def ps_state.extend_def intr_state.fields_def

lemma paged_block_ok: "pool_ok PagedPool 0x85800000 0x85802000 paged_block [(0x85800000, 0x1FE4, False)]"
  by (simp add: pool_ok_def pool_rep_def paged_block_def klist_rep_def ring_def header_is_def)

lemma open_file_sel [simp]:
  "Pools open_file = paged_block" "CurrentIrql open_file = 0" "spin_locks open_file l = free_lock" "DpcListHead open_file = LIST_INIT"
  "hal_ok open_file = hal_ok elf_state" "IoFileObjectType open_file = Some 3" "PsGetCurrentProcess open_file = Some 0"
  "header ob open_file = header ob small_names" "HandlePtr open_file = HandlePtr small_ob" "HandleArray open_file = HandleArray small_ob"
  "FileObjects open_file f = \<lparr>fo_DeviceObject = 0x86001000, fo_FileMode = 0, fo_FileOffset = 0, fo_FsContext = 0x86003000\<rparr>"
  using elf_state_processes(1) elf_state_sched(6,7)
  by (simp_all add: open_file_unfold hal_ok_def PsGetCurrentProcess_def KeGetCurrentThread_def header_def)
    (simp_all add: elf_state_def obname_state.extend_def ps_state.fields_def small_names_def ob_state.extend_def obname_state.fields_def
      small_ob_unfold three_threads_unfold small_tcb_def)

lemma open_file_ok: "file_handle 0 small_object open_file" "kfs_file small_object open_file" "pool_ready PagedPool open_file"
proof -
  show "file_handle 0 small_object open_file"
    by (simp add: file_handle_def live_def ObIsValidObject_def) (simp add: header_def OBJECT_TO_OBJECT_HEADER_def)
  show "kfs_file small_object open_file" by (simp add: kfs_file_def open_file_unfold)
  show "pool_ready PagedPool open_file"
    using three_threads_running by (simp add: pool_ready_def lockable_def elf_state_sched running_def LIST_EMPTY_def LIST_INIT_def)
qed

lemma answer_kept:
  assumes "handed_over 0x85800000 0x85802000 ([] @ carve 156 (0x85800000, 0x1FE4, False) @ []) 0x85800000 small_object buf n open_file u"
  shows "request_kept 0x85800000 0x85802000 0x85800000 small_object (u\<lparr>Bytes := m, PortWrites := ws, IsrTime := k\<rparr>)"
proof -
  obtain ps where u: "u = asked 0x85800018 small_object buf n ps open_file" "pool_ok PagedPool 0x85800000 0x85802000 ps (carve 156 (0x85800000, 0x1FE4, False))"
    "ph_Tag (Headers ps 0x85800000) = TAG_IRP"
    using assms by (auto simp: handed_over_def)
  let ?v = "u\<lparr>Bytes := m, PortWrites := ws, IsrTime := k\<rparr>"
  have "lockable PoolLock open_file" using open_file_ok(3) by (auto simp: pool_ready_def)
  then have "lockable PoolLock u" using truncate_lockable [of PoolLock open_file u] u(1) by simp
  then have l: "lockable PoolLock ?v" by (simp add: lockable_def hal_ok_def)
  have "live small_object open_file" using open_file_ok(1) by (simp add: file_handle_def)
  then have h: "ObIsValidObject small_object (add_refs 1 small_object open_file)" "1 < sint (oh_RefCount (header small_object (add_refs 1 small_object open_file)))"
    "oh_Attributes (header small_object (add_refs 1 small_object open_file)) AND OBJ_PERMANENT = 0"
    using sint_plus_nat [of "oh_RefCount (header small_object open_file)" 1] by (simp_all add: live_def ObIsValidObject_def)
  have "header small_object ?v = header small_object u" by (simp add: header_def)
  then have e: "header small_object ?v = header small_object (add_refs 1 small_object open_file)" using u(1) by simp
  have "carve 156 (0x85800000, 0x1FE4, False) = [] @ (0x85800000, 156, True) # [(0x858000B8, 0x1F2C, False)]" by (simp add: carve_def splits_def)
  then have "\<exists>as m bs. pool_ok PagedPool 0x85800000 0x85802000 (Pools ?v) (as @ (0x85800000, m, True) # bs)"
    using u(1,2) by (intro exI [of _ "[]"] exI [of _ 156] exI [of _ "[(0x858000B8, 0x1F2C, False)]"]) simp
  moreover have "ph_Tag (Headers (Pools ?v) 0x85800000) = TAG_IRP" using u(1,3) by simp
  ultimately show ?thesis using l h unfolding request_kept_def ObIsValidObject_def e by blast
qed


end
