(* ===== verification/IdeProps.thy ===== *)
theory IdeProps
  imports Ide IoProps
begin

text \<open>
  Properties of the disk driver: the sector registers, the transfer of a sector into memory, the read of a sector from the acquisition of the channel to its
  release, and what becomes of a completion semaphore that nobody waits for.
\<close>

section \<open>The controller\<close>

text \<open>Reading a port changes nothing but the controller, whose state is the rest of the record.\<close>

definition with_hw :: "'a \<Rightarrow> 'a ide_state_scheme \<Rightarrow> 'a ide_state_scheme" where
  "with_hw m s = ide_state.more_update (\<lambda>_. m) s"

definition quiet :: "'a ide_state_scheme ata \<Rightarrow> bool" where
  "quiet hw \<longleftrightarrow> (\<forall>p s. \<exists>m. snd (inb hw p s) = with_hw m s) \<and> (\<forall>p n s. \<exists>m. snd (insw hw p n s) = with_hw m s)"

definition writes :: "(USHORT \<times> UCHAR) list \<Rightarrow> 'a intr_state_scheme \<Rightarrow> 'a intr_state_scheme" where
  "writes ws s = s\<lparr>PortWrites := PortWrites s @ ws\<rparr>"

lemma with_hw_sel [simp]:
  "Channels (with_hw m s) = Channels s" "PortWrites (with_hw m s) = PortWrites s" "Bytes (with_hw m s) = Bytes s"
  "OwnerThread (with_hw m s) = OwnerThread s" "DHeaders (with_hw m s) = DHeaders s" "Flags_IF (with_hw m s) = Flags_IF s"
  "CurrentIrql (with_hw m s) = CurrentIrql s" "CurrentThread (with_hw m s) = CurrentThread s" "SemaphoreLimit (with_hw m s) = SemaphoreLimit s"
  "Tcbs (with_hw m s) = Tcbs s" "Picinitdone (with_hw m s) = Picinitdone s"
  by (simp_all add: with_hw_def)

lemma with_hw_with_hw [simp]: "with_hw m (with_hw m' s) = with_hw m s"
  by (simp add: with_hw_def)

lemma with_hw_self: "s = with_hw (ide_state.more s) s"
  by (simp add: with_hw_def)

lemma writes_sel [simp]:
  "Channels (writes ws s) = Channels s" "PortWrites (writes ws s) = PortWrites s @ ws" "Bytes (writes ws s) = Bytes s"
  "OwnerThread (writes ws s) = OwnerThread s" "DHeaders (writes ws s) = DHeaders s" "Flags_IF (writes ws s) = Flags_IF s"
  "CurrentIrql (writes ws s) = CurrentIrql s" "CurrentThread (writes ws s) = CurrentThread s" "SemaphoreLimit (writes ws s) = SemaphoreLimit s"
  "Tcbs (writes ws s) = Tcbs s"
  by (simp_all add: writes_def)

lemma outb_writes: "outb p b s = writes [(p, b)] s" "writes ws' (writes ws s) = writes (ws @ ws') s"
  by (simp_all add: outb_def writes_def)

lemma writes_with_hw: "writes ws (with_hw m s) = with_hw m (writes ws s)"
  by (simp add: writes_def with_hw_def)

lemmas reg_defs = reg_data_def reg_error_def reg_nsect_def reg_lbal_def reg_lbam_def reg_lbah_def reg_device_def reg_status_def
  reg_command_def reg_ctl_def reg_alt_status_def

lemma quiet_inb: "quiet hw \<Longrightarrow> \<exists>b m. inb hw p s = (b, with_hw m s)"
  by (metis quiet_def prod.collapse)

lemma quiet_insw: "quiet hw \<Longrightarrow> \<exists>m. insw hw p n s = (fst (insw hw p n s), with_hw m s)"
  by (metis quiet_def prod.collapse)

lemma idle_loop_quiet:
  assumes "quiet hw" shows "\<exists>m. idle_loop hw c n s = with_hw m s"
proof (induction n arbitrary: s)
  case 0
  show ?case using with_hw_self [of s] by auto
next
  case (Suc n)
  obtain b m where "inb hw (reg_status c s) s = (b, with_hw m s)" using quiet_inb [OF assms] by blast
  then show ?case using Suc [of "with_hw m s"] by auto
qed

lemma select_device_quiet:
  assumes "quiet hw" shows "\<exists>m. select_device hw d s = with_hw m (writes [(reg_device (fst d) s, DEV_MBS OR (if snd d = 1 then DEV_DEV else 0))] s)"
  using quiet_inb [OF assms] by (simp add: select_device_def Let_def outb_writes) (metis snd_conv)

lemma select_device_wait_quiet:
  assumes "quiet hw"
  shows "\<exists>m. select_device_wait hw d s = with_hw m (writes [(reg_device (fst d) s, DEV_MBS OR (if snd d = 1 then DEV_DEV else 0))] s)"
proof -
  obtain m1 where 1: "wait_until_idle hw d s = with_hw m1 s" using idle_loop_quiet [OF assms, of "fst d" 1000 s] by (auto simp: wait_until_idle_def)
  obtain m2 where 2: "select_device hw d (with_hw m1 s) =
      with_hw m2 (writes [(reg_device (fst d) s, DEV_MBS OR (if snd d = 1 then DEV_DEV else 0))] s)"
    using select_device_quiet [OF assms, of d "with_hw m1 s"] by (auto simp: reg_defs writes_with_hw)
  let ?s = "with_hw m2 (writes [(reg_device (fst d) s, DEV_MBS OR (if snd d = 1 then DEV_DEV else 0))] s)"
  obtain m3 where 3: "wait_until_idle hw d ?s = with_hw m3 ?s"
    using idle_loop_quiet [OF assms, of "fst d" 1000 ?s] by (auto simp: wait_until_idle_def)
  show ?thesis unfolding select_device_wait_def 1 2 3 with_hw_with_hw by blast
qed

section \<open>The sector registers\<close>

text \<open>What the controller decodes: the last bytes written to the four address registers of channel \<open>c\<close>, 28 bits in all, and the device bit.\<close>

definition register :: "USHORT \<Rightarrow> 'a intr_state_scheme \<Rightarrow> nat" where
  "register p s = (case map_of (rev (PortWrites s)) p of None \<Rightarrow> 0 | Some b \<Rightarrow> unat b)"

definition selected_sector :: "nat \<Rightarrow> 'a ide_state_scheme \<Rightarrow> nat" where
  "selected_sector c s = register (reg_lbal c s) s + 256 * register (reg_lbam c s) s + 65536 * register (reg_lbah c s) s +
     16777216 * (register (reg_device c s) s mod 16)"

definition selected_device :: "nat \<Rightarrow> 'a ide_state_scheme \<Rightarrow> nat" where
  "selected_device c s = register (reg_device c s) s div 16 mod 2"

definition sector_writes :: "disk_id \<Rightarrow> ULONG \<Rightarrow> 'a ide_state_scheme \<Rightarrow> (USHORT \<times> UCHAR) list" where
  "sector_writes d n s = (let c = fst d in
     [(reg_device c s, DEV_MBS OR (if snd d = 1 then DEV_DEV else 0)), (reg_nsect c s, 1), (reg_lbal c s, ucast n), (reg_lbam c s, ucast (drop_bit 8 n)),
      (reg_lbah c s, ucast (drop_bit 16 n)), (reg_device c s, DEV_MBS OR DEV_LBA OR (if snd d = 1 then DEV_DEV else 0) OR ucast (drop_bit 24 n))])"

lemma select_sector_writes:
  assumes "quiet hw" and "sec_no < capacity (disk_of d s)" and "sec_no < 0x10000000"
  shows "\<exists>m. select_sector hw d sec_no s = Inr (with_hw m (writes (sector_writes d sec_no s) s))"
proof -
  obtain m where "select_device_wait hw d s = with_hw m (writes [(reg_device (fst d) s, DEV_MBS OR (if snd d = 1 then DEV_DEV else 0))] s)"
    using select_device_wait_quiet [OF assms(1)] by blast
  then show ?thesis using assms(2,3)
    by (auto simp: select_sector_def Let_def outb_writes writes_with_hw sector_writes_def reg_defs)
qed

lemma bytes_of_sector:
  fixes n :: nat
  shows "n = n mod 256 + 256 * (n div 256 mod 256) + 65536 * (n div 65536 mod 256) + 16777216 * (n div 16777216)"
proof -
  have "n div 65536 = n div 256 div 256" "n div 16777216 = n div 65536 div 256" by (simp_all add: div_mult2_eq [symmetric])
  then show ?thesis using mult_div_mod_eq [of 256 n] mult_div_mod_eq [of 256 "n div 256"] mult_div_mod_eq [of 256 "n div 65536"] by linarith
qed

lemma device_bits:
  fixes x :: nat
  assumes "x < 16" and "e < 2"
  shows "(224 + (if e = 1 then 16 else 0) + x) mod 16 = x" and "(224 + (if e = 1 then 16 else 0) + x) div 16 mod 2 = e"
proof -
  have "(224 + x) div 16 = 14" "(240 + x) div 16 = 15" using assms(1) by (auto intro!: div_nat_eqI)
  then have d: "(224 + (if e = 1 then 16 else 0) + x) div 16 = 14 + (if e = 1 then 1 else 0)" by simp
  show "(224 + (if e = 1 then 16 else 0) + x) mod 16 = x"
    using mult_div_mod_eq [of 16 "224 + (if e = 1 then 16 else 0) + x"] unfolding d by (simp split: if_splits)
  show "(224 + (if e = 1 then 16 else 0) + x) div 16 mod 2 = e" unfolding d using assms(2) by (auto simp: less_2_cases_iff)
qed

lemma device_byte:
  fixes n :: ULONG and x :: UCHAR
  assumes "n < 0x10000000" and "x = 0 \<or> x = 0x10"
  shows "unat (0xA0 OR 0x40 OR x OR ucast (drop_bit 24 n) :: UCHAR) = 224 + unat x + unat n div 16777216"
proof -
  let ?y = "ucast (drop_bit 24 n) :: UCHAR"
  have n: "unat n < 0x10000000" using assms(1) by (simp add: word_less_nat_alt)
  have b: "unat (drop_bit 24 n) = unat n div 16777216" by (subst unat_drop_bit_eq) (simp add: drop_bit_eq_div)
  have q: "unat n div 16777216 < 16" using n by (simp add: less_mult_imp_div_less)
  have k: "unat ?y = unat n div 16777216" unfolding unsigned_ucast_eq take_bit_eq_mod b using q by simp
  have "unat ?y < 16" using k q by simp
  then have "unat ?y \<in> set [0..<16]" by simp
  then have "?y \<in> set (map of_nat [0..<16])" by (simp only: set_map) (rule image_eqI [where x = "unat ?y"], simp)
  then have "?y \<in> {0, 1, 2, 3, 4, 5, 6, 7, 8, 9, 10, 11, 12, 13, 14, 15}" by (simp add: upt_rec numeral_eq_Suc)
  then have "unat (0xA0 OR 0x40 OR x OR ?y) = 224 + unat x + unat ?y" using assms(2) by auto
  then show ?thesis by (simp only: k)
qed

lemma register_writes: "register p (writes ws s) = (case map_of (rev ws) p of None \<Rightarrow> register p s | Some b \<Rightarrow> unat b)"
  by (auto simp: register_def writes_def map_add_def split: option.splits)

lemma register_with_hw [simp]: "register p (with_hw m s) = register p s"
  by (simp add: register_def)

lemma selected_with_hw [simp]:
  "selected_sector c (with_hw m s) = selected_sector c s" "selected_device c (with_hw m s) = selected_device c s"
  by (simp_all add: selected_sector_def selected_device_def reg_defs)

lemma register_set_channel [simp]: "register p (set_channel c f s) = register p s"
  by (simp add: register_def set_channel_def)

lemma sector_registers:
  assumes "sec_no < 0x10000000" and "snd d < 2"
  shows "selected_sector (fst d) (writes (sector_writes d sec_no s) s) = unat sec_no"
    and "selected_device (fst d) (writes (sector_writes d sec_no s) s) = snd d"
    and "register (reg_nsect (fst d) s) (writes (sector_writes d sec_no s) s) = 1"
proof -
  let ?s = "writes (sector_writes d sec_no s) s"
  have n: "unat sec_no < 0x10000000" using assms(1) by (simp add: word_less_nat_alt)
  have dev: "(if snd d = 1 then DEV_DEV else 0 :: UCHAR) = 0 \<or> (if snd d = 1 then DEV_DEV else 0 :: UCHAR) = 0x10" by simp
  have r: "register (reg_lbal (fst d) ?s) ?s = unat sec_no mod 256" "register (reg_lbam (fst d) ?s) ?s = unat sec_no div 256 mod 256"
    "register (reg_lbah (fst d) ?s) ?s = unat sec_no div 65536 mod 256"
    by (simp_all add: register_writes sector_writes_def reg_defs unsigned_ucast_eq unat_drop_bit_eq drop_bit_eq_div unat_div take_bit_eq_mod Let_def)
  show "register (reg_nsect (fst d) s) ?s = 1" by (simp add: register_writes sector_writes_def reg_defs Let_def)
  have d: "register (reg_device (fst d) ?s) ?s = 224 + (if snd d = 1 then 16 else 0) + unat sec_no div 16777216"
    using device_byte [OF assms(1) dev] by (simp add: register_writes sector_writes_def reg_defs Let_def split: if_splits)
  have b: "(224 + (if snd d = 1 then 16 else 0) + unat sec_no div 16777216) mod 16 = unat sec_no div 16777216"
    "(224 + (if snd d = 1 then 16 else 0) + unat sec_no div 16777216) div 16 mod 2 = snd d"
    using device_bits [of "unat sec_no div 16777216" "snd d"] less_mult_imp_div_less [of "unat sec_no" 16 16777216] n assms(2) by simp_all
  show "selected_device (fst d) ?s = snd d" unfolding selected_device_def d by (rule b(2))
  show "selected_sector (fst d) ?s = unat sec_no"
    unfolding selected_sector_def r d b(1) by (rule bytes_of_sector [symmetric])
qed

section \<open>Sectors in memory\<close>

lemma put_words_at:
  assumes "2 * length ws \<le> 2 ^ 32"
  shows "put_words a ws m b = (let k = unat (b - a) in if k < 2 * length ws
    then if even k then ucast (ws ! (k div 2)) else ucast (drop_bit 8 (ws ! (k div 2))) else m b)"
  using assms
proof (induction ws arbitrary: a m)
  case (Cons w ws)
  let ?k = "unat (b - a)"
  have l: "2 * length ws + 2 \<le> 2 ^ 32" using Cons.prems by simp
  define m' where "m' = m(a := ucast w, a + 1 := ucast (drop_bit 8 w))"
  have m': "m' a = ucast w" "m' (a + 1) = ucast (drop_bit 8 w)" "\<And>x. x \<noteq> a \<Longrightarrow> x \<noteq> a + 1 \<Longrightarrow> m' x = m x" by (simp_all add: m'_def)
  have p: "put_words a (w # ws) m = put_words (a + 2) ws m'" by (simp add: m'_def)
  note IH = Cons.IH [of "a + 2" m']
  consider "b = a" | "b = a + 1" | "2 \<le> ?k"
  proof -
    have w: "b = a + of_nat ?k" by simp
    have "?k = 0 \<or> ?k = 1 \<or> 2 \<le> ?k" by linarith
    moreover have "b = a" if "?k = 0" using w unfolding that by simp
    moreover have "b = a + 1" if "?k = 1" using w unfolding that by simp
    ultimately show ?thesis using that by blast
  qed
  then show ?case
  proof cases
    assume b: "b = a"
    have "unat (a - (a + 2) :: ULONG) = 2 ^ 32 - 2" by simp
    then show ?thesis using IH l b m' unfolding p by simp
  next
    assume b: "b = a + 1"
    have "unat (a + 1 - (a + 2) :: ULONG) = 2 ^ 32 - 1" by (simp add: unsigned_minus_1_eq_mask mask_eq_exp_minus_1)
    then show ?thesis using IH l b m' unfolding p by simp
  next
    assume k: "2 \<le> ?k"
    have "b - (a + 2) = (b - a) - 2" by simp
    also have "unat ... = ?k - 2" using k by (subst unat_sub) (simp_all add: word_le_nat_alt)
    finally have k': "unat (b - (a + 2)) = ?k - 2" .
    have "b \<noteq> a" "b \<noteq> a + 1" using k by auto
    moreover obtain j where "?k = Suc (Suc j)" using k by (metis add_2_eq_Suc le_Suc_ex)
    ultimately show ?thesis using IH l m'(3) unfolding p by (simp add: k' Let_def)
  qed
qed simp

lemma word_of_bytes: "ucast (ucast w :: UCHAR) OR push_bit 8 (ucast (ucast (drop_bit 8 w) :: UCHAR)) = (w :: USHORT)"
  by (rule bit_word_eqI) (auto simp: bit_simps)

lemma get_put_words:
  assumes "length ws = n" and "2 * n \<le> 2 ^ 32"
  shows "get_words a n (put_words a ws m) = ws"
proof (rule nth_equalityI)
  show "length (get_words a n (put_words a ws m)) = length ws" using assms by (simp add: get_words_def)
  fix i assume "i < length (get_words a n (put_words a ws m))"
  then have i: "i < n" by (simp add: get_words_def)
  have u: "unat (of_nat (2 * i) :: ULONG) = 2 * i" "unat (of_nat (2 * i) + 1 :: ULONG) = 2 * i + 1"
    using i assms(2) unat_of_nat32 [of "2 * i"] unat_of_nat32 [of "2 * i + 1"] by (simp_all add: add.commute)
  have d: "a + of_nat (2 * i) - a = of_nat (2 * i)" "a + of_nat (2 * i) + 1 - a = of_nat (2 * i) + 1" by simp_all
  have "put_words a ws m (a + of_nat (2 * i)) = ucast (ws ! i)" "put_words a ws m (a + of_nat (2 * i) + 1) = ucast (drop_bit 8 (ws ! i))"
    using assms i by (simp_all only: put_words_at d u Let_def) simp_all
  then show "get_words a n (put_words a ws m) ! i = ws ! i" using i word_of_bytes by (simp add: get_words_def)
qed

section \<open>Frames\<close>

lemma running_frame:
  assumes "running F s c qs" and "SchedLink s' = SchedLink s" "Scheduler_list s' = Scheduler_list s" "ExitThreadList s' = ExitThreadList s"
    "CurrentThread s' = CurrentThread s" "Tcbs s' = Tcbs s" "hal_ok s' = hal_ok s" "CurrentIrql s' = CurrentIrql s" "spin_locks s' = spin_locks s"
    "DpcListHead s' = DpcListHead s" "PhysMem s' = PhysMem s" "Cr3 s' = Cr3 s" "Pcbs s' = Pcbs s"
  shows "running F s' c qs"
proof -
  have "MmGetPhysicalAddress a (s'\<lparr>Cr3 := x\<rparr>) = MmGetPhysicalAddress a (s\<lparr>Cr3 := x\<rparr>)" for a x
    using assms(11) by (intro MmGetPhysicalAddress_cong) simp_all
  then have "spaces_ok F s' = spaces_ok F s" using assms by (simp add: spaces_ok_def)
  then show ?thesis using assms by (simp add: running_def sched_ok_def)
qed

lemma running_driver [simp]:
  "running F (with_hw m s) c qs = running F s c qs" "running F (writes ws s) c qs = running F s c qs"
  "running F (set_channel k f s) c qs = running F s c qs" "running F (s\<lparr>Bytes := b\<rparr>) c qs = running F s c qs"
  by (auto elim!: running_frame simp: with_hw_def writes_def set_channel_def hal_ok_def)

lemma set_channel_sel [simp]:
  "Channels (set_channel c f s) = (Channels s)(c := f (Channels s c))" "PortWrites (set_channel c f s) = PortWrites s" "Bytes (set_channel c f s) = Bytes s"
  "OwnerThread (set_channel c f s) = OwnerThread s" "DHeaders (set_channel c f s) = DHeaders s" "Flags_IF (set_channel c f s) = Flags_IF s"
  "CurrentIrql (set_channel c f s) = CurrentIrql s" "CurrentThread (set_channel c f s) = CurrentThread s"
  by (simp_all add: set_channel_def)

lemma same_rest_driver:
  "same_rest s s' \<Longrightarrow> Channels s' = Channels s \<and> PortWrites s' = PortWrites s \<and> Bytes s' = Bytes s \<and> Flags_IF s' = Flags_IF s"
  by (cases s; cases s') (simp add: same_rest_def)

section \<open>Transfer of a sector\<close>

text \<open>
  The contract of the hardware: reading a port has no effect on memory; after a read command the alternate status says that data is ready, and the data port
  delivers the addressed sector of the addressed device. \<open>p\<close> is the base of the registers.
\<close>

definition serves :: "'a ide_state_scheme ata \<Rightarrow> nat \<Rightarrow> USHORT \<Rightarrow> (nat \<Rightarrow> nat \<Rightarrow> USHORT list) \<Rightarrow> bool" where
  "serves hw c p contents \<longleftrightarrow> quiet hw \<and> (\<forall>s. reg_base (Channels s c) = p \<and> register (p + 7) s = unat CMD_READ_SECTOR_RETRY \<longrightarrow>
     fst (inb hw (p + 0x206) s) AND STA_BSY = 0 \<and> fst (inb hw (p + 0x206) s) AND STA_DRQ \<noteq> 0 \<and>
     fst (insw hw p 256 s) = contents (selected_device c s) (selected_sector c s))"

text \<open>The lock of a channel that nobody holds, and a thread \<open>t\<close> that holds it.\<close>

definition channel_free :: "nat \<Rightarrow> 'a ide_state_scheme \<Rightarrow> bool" where
  "channel_free c s \<longleftrightarrow> dh_Type (DHeaders s (channel_lock c)) = MutantObject \<and> dh_SignalState (DHeaders s (channel_lock c)) = 1 \<and>
     OwnerThread s (channel_lock c) = None \<and> LIST_EMPTY (dh_WaitListHead (DHeaders s (channel_lock c)))"

definition channel_owned :: "nat \<Rightarrow> kthread \<Rightarrow> 'a ide_state_scheme \<Rightarrow> bool" where
  "channel_owned c t s \<longleftrightarrow> dh_Type (DHeaders s (channel_lock c)) = MutantObject \<and> dh_SignalState (DHeaders s (channel_lock c)) = 0 \<and>
     OwnerThread s (channel_lock c) = Some t \<and> LIST_EMPTY (dh_WaitListHead (DHeaders s (channel_lock c)))"

text \<open>What is true when the thread starts to wait for the completion of a command, and what the others keep until it continues.\<close>

definition issued :: "(nat \<Rightarrow> ULONG) \<Rightarrow> kthread \<Rightarrow> kthread list list \<Rightarrow> nat \<Rightarrow> UCHAR \<Rightarrow> 'a ide_state_scheme \<Rightarrow> 'a ide_state_scheme \<Rightarrow> bool" where
  "issued F t qs c cmd s s1 \<longleftrightarrow> running F s1 t qs \<and> CurrentIrql s1 = CurrentIrql s \<and> channel_owned c t s1 \<and>
     (\<forall>x. x \<noteq> channel_lock c \<longrightarrow> DHeaders s1 x = DHeaders s x) \<and> expecting_interrupt (Channels s1 c) \<and>
     register (reg_command c s1) s1 = unat cmd"

definition kept :: "nat \<Rightarrow> kthread \<Rightarrow> 'a ide_state_scheme \<Rightarrow> 'a ide_state_scheme \<Rightarrow> bool" where
  "kept c t s1 s2 \<longleftrightarrow> channel_owned c t s2 \<and> Channels s2 c = Channels s1 c \<and>
     (\<forall>k \<le> 7. register (reg_base (Channels s1 c) + k) s2 = register (reg_base (Channels s1 c) + k) s1)"

lemma acquire_channel:
  assumes "running F s t qs" and "CurrentIrql s \<le> APC_LEVEL" and "channel_free c s"
  shows "\<exists>s'. wait_for exit_thread run (Suc fuel) resume (channel_lock c) s = Inr s' \<and> running F s' t qs \<and> CurrentIrql s' = CurrentIrql s \<and>
    channel_owned c t s' \<and> (\<forall>x. x \<noteq> channel_lock c \<longrightarrow> DHeaders s' x = DHeaders s x) \<and> Channels s' = Channels s \<and> Flags_IF s' = Flags_IF s"
proof -
  have m: "dh_Type (DHeaders s (channel_lock c)) = MutantObject" "dh_SignalState (DHeaders s (channel_lock c)) = 1" "OwnerThread s (channel_lock c) = None"
    using assms(3) by (simp_all add: channel_free_def)
  obtain s' where s': "KeWaitForSingleObject exit_thread run (Suc fuel) (channel_lock c) s = Inr s'" "running F s' t qs" "CurrentIrql s' = CurrentIrql s"
      "same_waits (set_dheader (channel_lock c) (\<lambda>h. h\<lparr>dh_SignalState := 0\<rparr>) s) s'" "OwnerThread s' = (OwnerThread s)(channel_lock c := Some t)" "same_rest s s'"
    using mutant_acquire [OF assms(1,2) m, of exit_thread run fuel] by blast
  have h: "DHeaders s' = (DHeaders s)(channel_lock c := DHeaders s (channel_lock c)\<lparr>dh_SignalState := 0\<rparr>)"
    using s'(4) by (simp add: same_waits_def waits_as_set_waits)
  have "wait_for exit_thread run (Suc fuel) resume (channel_lock c) s = Inr s'"
    using s'(1) runningD(1) [OF s'(2)] runningD(1) [OF assms(1)] by (simp add: wait_for_def KeGetCurrentThread_def)
  then show ?thesis using s' h same_rest_driver [OF s'(6)] assms(3) by (auto simp: channel_owned_def channel_free_def)
qed

lemma release_channel:
  assumes "running F s t qs" and "channel_owned c t s"
  shows "\<exists>s'. KeReleaseMutant run (Suc fuel) (channel_lock c) s = Inr s' \<and> running F s' t qs \<and> channel_free c s' \<and>
    Channels s' = Channels s \<and> Bytes s' = Bytes s"
proof -
  have m: "OwnerThread s (channel_lock c) = Some t" "dh_SignalState (DHeaders s (channel_lock c)) = 0" "LIST_EMPTY (dh_WaitListHead (DHeaders s (channel_lock c)))"
    using assms(2) by (simp_all add: channel_owned_def)
  obtain s' where s': "KeReleaseMutant run (Suc fuel) (channel_lock c) s = Inr s'" "running F s' t qs" "same_rest s s'"
      "DHeaders s' = (DHeaders s)(channel_lock c := DHeaders s (channel_lock c)\<lparr>dh_SignalState := 1\<rparr>)"
      "OwnerThread s' = (OwnerThread s)(channel_lock c := None)"
    using mutant_release [OF assms(1) m, of run fuel] by blast
  then show ?thesis using assms(2) same_rest_driver [OF s'(3)] by (simp add: channel_free_def channel_owned_def)
qed

lemma data_ready:
  assumes "serves hw c p contents" and "reg_base (Channels s c) = p" and "register (p + 7) s = unat CMD_READ_SECTOR_RETRY" and "c = fst d"
  shows "\<exists>m. wait_while_busy hw d s = (True, with_hw m s)"
proof -
  have q: "quiet hw" and r: "fst (inb hw (p + 0x206) s') AND STA_BSY = 0" "fst (inb hw (p + 0x206) s') AND STA_DRQ \<noteq> 0"
    if "reg_base (Channels s' c) = p" "register (p + 7) s' = unat CMD_READ_SECTOR_RETRY" for s'
    using assms(1) that by (auto simp: serves_def)
  obtain b m where 1: "inb hw (p + 0x206) s = (b, with_hw m s)" using quiet_inb [OF q [OF assms(2,3)]] by blast
  obtain b' m' where 2: "inb hw (p + 0x206) (with_hw m s) = (b', with_hw m' s)"
    using quiet_inb [OF q [OF assms(2,3)], of "p + 0x206" "with_hw m s"] by auto
  have "(3000 :: nat) = Suc 2999" by simp
  moreover have "b AND STA_BSY = 0" "b' AND STA_DRQ \<noteq> 0" using r(1) [of s] r(2) [of "with_hw m s"] 1 2 assms(2,3) by simp_all
  ultimately show ?thesis using 1 2 assms(2,4) by (simp only: wait_while_busy_def busy_loop.simps) (auto simp: reg_defs)
qed

section \<open>Completions\<close>

text \<open>A completion that is counted before the thread waits for it ends the wait at once.\<close>

lemma completion_counted:
  assumes "0 < sint (dh_SignalState (DHeaders s (completion_wait c)))" and "dh_Type (DHeaders s (completion_wait c)) = SemaphoreObject"
    and "CurrentIrql s \<le> APC_LEVEL" and "issued F t qs c cmd s s1"
  shows "\<exists>s2 qs'. wait_for exit_thread run (Suc fuel) resume (completion_wait c) s1 = Inr s2 \<and> running F s2 t qs' \<and> kept c t s1 s2"
proof -
  have ne: "completion_wait c \<noteq> channel_lock c" by (simp add: completion_wait_def channel_lock_def)
  have i: "running F s1 t qs" "CurrentIrql s1 \<le> APC_LEVEL" "channel_owned c t s1" "DHeaders s1 (completion_wait c) = DHeaders s (completion_wait c)"
    using assms(3,4) ne by (simp_all add: issued_def)
  obtain s2 where s2: "KeWaitForSingleObject exit_thread run (Suc fuel) (completion_wait c) s1 = Inr s2" "running F s2 t qs" "OwnerThread s2 = OwnerThread s1"
      "same_waits (set_dheader (completion_wait c) (\<lambda>h. h\<lparr>dh_SignalState := dh_SignalState h - 1\<rparr>) s1) s2" "same_rest s1 s2"
    using wait_satisfied [OF i(1) _ i(2), of "completion_wait c" exit_thread run fuel] assms(1,2) i(4) by auto
  have "wait_for exit_thread run (Suc fuel) resume (completion_wait c) s1 = Inr s2"
    using s2(1) runningD(1) [OF s2(2)] runningD(1) [OF i(1)] by (simp add: wait_for_def KeGetCurrentThread_def)
  moreover have "DHeaders s2 (channel_lock c) = DHeaders s1 (channel_lock c)" using s2(4) ne by (simp add: same_waits_def waits_as_set_waits)
  ultimately show ?thesis
    using s2(2,3) i(3) same_rest_driver [OF s2(5)] by (auto simp: kept_def channel_owned_def register_def)
qed

text \<open>A release of a semaphore that nobody waits for.\<close>

lemma semaphore_up:
  assumes r: "running F s t qs" and "LIST_EMPTY (dh_WaitListHead (DHeaders s d))"
    and "sint (dh_SignalState (DHeaders s d)) < sint (SemaphoreLimit s d)" and "sint (dh_SignalState (DHeaders s d)) < 100"
  shows "\<exists>s'. KeReleaseSemaphore run (Suc fuel) d 0 1 s = Inr (dh_SignalState (DHeaders s d), s') \<and> running F s' t qs \<and> CurrentIrql s' = CurrentIrql s \<and>
    DHeaders s' = (DHeaders s)(d := DHeaders s d\<lparr>dh_SignalState := dh_SignalState (DHeaders s d) + 1\<rparr>) \<and> SemaphoreLimit s' = SemaphoreLimit s \<and> same_rest s s'"
proof -
  let ?v = "dh_SignalState (DHeaders s d)"
  let ?f = "\<lambda>u. bind (KiDHeaderRelease (Suc fuel) d u) (\<lambda>u. Inr (?v, u))"
  have body: "\<exists>v. ?f u = Inr (?v, set_dheader d (\<lambda>h. h\<lparr>dh_SignalState := v\<rparr>) u) \<and> v = ?v + 1"
    if "switchable F u qs" "same_waits s u" for u
  proof -
    have "DHeaders u d = DHeaders s d" using that(2) by (simp add: same_waits_def)
    then show ?thesis using release_no_waiter(1) [OF that(1), of d "Suc fuel"] assms(2,4) by (simp add: set_dheader_def)
  qed
  from under_database_lock [OF r body, of run fuel] obtain s' where
    s': "bind (KiLockDispatcherDataBase s) (\<lambda>(Old, s). bind (?f s) (\<lambda>(y, s).
        bind (KiUnLockDispatcherDataBase run (Suc fuel) Old s) (\<lambda>s. Inr (y, s)))) = Inr (?v, s')" "running F s' t qs" "CurrentIrql s' = CurrentIrql s"
      "same_waits (set_dheader d (\<lambda>h. h\<lparr>dh_SignalState := ?v + 1\<rparr>) s) s'" "same_rest s s'"
    by auto
  have "KeReleaseSemaphore run (Suc fuel) d 0 1 s = Inr (?v, s')"
    using s'(1) assms(3) by (simp add: KeReleaseSemaphore_def bind_assoc Let_def split_def)
  then show ?thesis using s' by (auto simp: same_waits_def waits_as_set_waits)
qed

text \<open>The thread \<open>t\<close> runs at \<open>DISPATCH_LEVEL\<close> or below, nobody waits for a completion, and channel \<open>c\<close> has counted \<open>k c\<close> of the 100 its semaphore can hold.\<close>

definition counted :: "(nat \<Rightarrow> ULONG) \<Rightarrow> kthread \<Rightarrow> kthread list list \<Rightarrow> (nat \<Rightarrow> nat) \<Rightarrow> 'a ide_state_scheme \<Rightarrow> bool" where
  "counted F t qs k s \<longleftrightarrow> running F s t qs \<and>
     (\<forall>c < CHANNEL_CNT. SemaphoreLimit s (completion_wait c) = 100 \<and> LIST_EMPTY (dh_WaitListHead (DHeaders s (completion_wait c))) \<and>
        sint (dh_SignalState (DHeaders s (completion_wait c))) = int (k c) \<and> k c \<le> 100)"

lemma completion_wait_eq [simp]: "completion_wait c = completion_wait c' \<longleftrightarrow> c = c'"
  by (simp add: completion_wait_def)

definition expected :: "'a ide_state_scheme \<Rightarrow> nat \<Rightarrow> nat" where
  "expected s c = (if expecting_interrupt (Channels s c) then 1 else 0)"

definition complete_channel :: "'a ide_state_scheme deferred_routines \<Rightarrow> nat \<Rightarrow> nat \<Rightarrow> 'a ide_state_scheme \<Rightarrow> fault + 'a ide_state_scheme" where
  "complete_channel run fuel c s = (if expecting_interrupt (Channels s c)
     then bind (KeReleaseSemaphore run fuel (completion_wait c) 0 1 s) (\<lambda>(_, s). Inr s) else Inr s)"

lemma foldE_one: "foldE f [x] = f x"
proof (rule ext)
  fix s show "foldE f [x] s = f x s" by (cases "f x s") simp_all
qed

lemma IdeDpcRoutine_eq: "IdeDpcRoutine run fuel s = bind (complete_channel run fuel 0 s) (complete_channel run fuel 1)"
proof -
  have l: "[0..<CHANNEL_CNT] = [0, 1]" by (simp add: numeral_2_eq_2)
  have "IdeDpcRoutine run fuel s = foldE (complete_channel run fuel) [0, 1] s"
    unfolding IdeDpcRoutine_def l complete_channel_def [abs_def] by (rule refl)
  then show ?thesis by (simp add: foldE_one)
qed

lemma complete_channel_full:
  assumes "counted F t qs k s" "c < CHANNEL_CNT" "expecting_interrupt (Channels s c)" "k c = 100"
  shows "complete_channel run (Suc fuel) c s = Inl (AssertionFailed ''KeReleaseSemaphore: SignalState < Limit'')"
  using assms by (simp add: counted_def complete_channel_def KeReleaseSemaphore_def ASSERT_def)

lemma complete_channel_counts:
  assumes "counted F t qs k s" "c < CHANNEL_CNT" "k c + expected s c \<le> 100"
  shows "\<exists>s'. complete_channel run (Suc fuel) c s = Inr s' \<and> counted F t qs (k(c := k c + expected s c)) s' \<and> Channels s' = Channels s \<and>
    CurrentIrql s' = CurrentIrql s"
proof (cases "expecting_interrupt (Channels s c)")
  case True
  let ?d = "completion_wait c"
  have i: "running F s t qs" "SemaphoreLimit s ?d = 100" "LIST_EMPTY (dh_WaitListHead (DHeaders s ?d))" "sint (dh_SignalState (DHeaders s ?d)) = int (k c)"
    using assms(1,2) by (auto simp: counted_def)
  have k: "k c < 100" using True assms(3) by (simp add: expected_def)
  obtain s' where s': "KeReleaseSemaphore run (Suc fuel) ?d 0 1 s = Inr (dh_SignalState (DHeaders s ?d), s')" "running F s' t qs" "CurrentIrql s' = CurrentIrql s"
      "DHeaders s' = (DHeaders s)(?d := DHeaders s ?d\<lparr>dh_SignalState := dh_SignalState (DHeaders s ?d) + 1\<rparr>)"
      "SemaphoreLimit s' = SemaphoreLimit s" "same_rest s s'"
    using semaphore_up [OF i(1,3), of run fuel] i(2,4) k by auto
  have "sint (dh_SignalState (DHeaders s ?d) + 1) = int (k c) + 1" using sint_Suc i(4) k by simp
  then have "counted F t qs (k(c := k c + expected s c)) s'"
    using assms(1) s'(2,4,5) True k by (auto simp: counted_def expected_def)
  then show ?thesis using s'(1,3) same_rest_driver [OF s'(6)] True by (simp add: complete_channel_def)
qed (use assms(1) in \<open>simp add: complete_channel_def expected_def\<close>)

lemma IdeDpcRoutine_counts:
  assumes "counted F t qs k s" and "\<forall>c < CHANNEL_CNT. k c + expected s c \<le> 100"
  shows "\<exists>s'. IdeDpcRoutine run (Suc fuel) s = Inr s' \<and> counted F t qs (\<lambda>c. if c < CHANNEL_CNT then k c + expected s c else k c) s' \<and>
    Channels s' = Channels s \<and> CurrentIrql s' = CurrentIrql s"
proof -
  let ?k = "k(0 := k 0 + expected s 0)"
  obtain s1 where s1: "complete_channel run (Suc fuel) 0 s = Inr s1" "counted F t qs ?k s1" "Channels s1 = Channels s" "CurrentIrql s1 = CurrentIrql s"
    using complete_channel_counts [OF assms(1), of 0 run fuel] assms(2) by auto
  have e: "expected s1 = expected s" using s1(3) by (simp add: expected_def [abs_def])
  obtain s2 where s2: "complete_channel run (Suc fuel) 1 s1 = Inr s2" "counted F t qs (?k(1 := ?k 1 + expected s 1)) s2" "Channels s2 = Channels s1"
      "CurrentIrql s2 = CurrentIrql s1"
    using complete_channel_counts [OF s1(2), of 1 run fuel] assms(2) e by auto
  have "?k(1 := ?k 1 + expected s 1) = (\<lambda>c. if c < CHANNEL_CNT then k c + expected s c else k c)" by (auto simp: fun_eq_iff less_2_cases_iff)
  then show ?thesis using s1 s2 by (simp add: IdeDpcRoutine_eq)
qed

lemma IdeDpcRoutine_full:
  assumes "counted F t qs k s" and "c < CHANNEL_CNT" and "100 < k c + expected s c"
  shows "IdeDpcRoutine run (Suc fuel) s = Inl (AssertionFailed ''KeReleaseSemaphore: SignalState < Limit'')"
proof -
  have f: "expecting_interrupt (Channels s c) \<and> k c = 100" if "c < CHANNEL_CNT" "100 < k c + expected s c" for c
    using assms(1) that by (auto simp: counted_def expected_def split: if_splits)
  show ?thesis
  proof (cases "100 < k 0 + expected s 0")
    case True
    then show ?thesis using f [of 0] complete_channel_full [OF assms(1), of 0] by (simp add: IdeDpcRoutine_eq)
  next
    case False
    then have c: "c = 1" using assms(2,3) by (auto simp: less_2_cases_iff)
    obtain s1 where s1: "complete_channel run (Suc fuel) 0 s = Inr s1" "counted F t qs (k(0 := k 0 + expected s 0)) s1" "Channels s1 = Channels s"
      using complete_channel_counts [OF assms(1), of 0 run fuel] False by auto
    show ?thesis using f [OF assms(2,3)] c s1 complete_channel_full [OF s1(2), of 1] by (simp add: IdeDpcRoutine_eq)
  qed
qed

section \<open>A small machine\<close>

text \<open>The machine of the file operations with a disk of 1000 sectors on each channel, an issued command on both and \<open>v\<close> counted completions. The sectors
  of the disk are filled with their number.\<close>

definition disk_machine :: "LONG \<Rightarrow> ide_state" where
  "disk_machine v = io_state.extend (open_file\<lparr>
       DHeaders := \<lambda>d. if d = channel_lock 0 \<or> d = channel_lock 1 then \<lparr>dh_WaitListHead = LIST_INIT, dh_Type = MutantObject, dh_SignalState = 1\<rparr>
         else \<lparr>dh_WaitListHead = LIST_INIT, dh_Type = SemaphoreObject, dh_SignalState = v\<rparr>,
       OwnerThread := \<lambda>_. None, SemaphoreLimit := \<lambda>_. 100\<rparr>)
     (ide_state.fields (\<lambda>c. \<lparr>reg_base = (if c = 0 then 0x1F0 else 0x170), ch_irq = 0x2E, expecting_interrupt = True,
        devices = \<lambda>_. \<lparr>is_ata = True, capacity = 1000, read_cnt = 0, write_cnt = 0\<rparr>\<rparr>))"

definition numbered :: "nat \<Rightarrow> nat \<Rightarrow> USHORT list" where
  "numbered dev n = replicate 256 (of_nat n)"

definition simple_ata :: "nat \<Rightarrow> ide_state ata" where
  "simple_ata c = \<lparr>inb = \<lambda>_ s. (STA_DRQ, s), insw = \<lambda>_ n s. (numbered (selected_device c s) (selected_sector c s), s), outsw = \<lambda>_ _ s. s\<rparr>"

lemma simple_ata_serves: "serves (simple_ata c) c p numbered"
proof -
  have "s = with_hw () s" for s :: ide_state by (cases s) (simp add: with_hw_def)
  then show ?thesis by (auto simp: serves_def quiet_def simple_ata_def)
qed

lemma disk_machine_sel [simp]:
  "DHeaders (disk_machine v) d = (if d = channel_lock 0 \<or> d = channel_lock 1 then \<lparr>dh_WaitListHead = LIST_INIT, dh_Type = MutantObject, dh_SignalState = 1\<rparr>
         else \<lparr>dh_WaitListHead = LIST_INIT, dh_Type = SemaphoreObject, dh_SignalState = v\<rparr>)"
  "OwnerThread (disk_machine v) = (\<lambda>_. None)" "SemaphoreLimit (disk_machine v) = (\<lambda>_. 100)" "CurrentIrql (disk_machine v) = 0"
  "Channels (disk_machine v) c = \<lparr>reg_base = (if c = 0 then 0x1F0 else 0x170), ch_irq = 0x2E, expecting_interrupt = True,
        devices = \<lambda>_. \<lparr>is_ata = True, capacity = 1000, read_cnt = 0, write_cnt = 0\<rparr>\<rparr>"
  by (simp_all add: disk_machine_def io_state.extend_def ide_state.fields_def)

lemma disk_machine_enabled: "HalAreInterruptsEnabled (disk_machine v)"
  by (simp add: HalAreInterruptsEnabled_def disk_machine_def io_state.extend_def ide_state.fields_def open_file_unfold elf_state_def obname_state.extend_def
      ps_state.fields_def small_names_def ob_state.extend_def obname_state.fields_def small_ob_unfold three_threads_unfold)

lemma disk_machine_running: "running (\<lambda>_. 0x1000) (disk_machine v) 1 [[], [], [], [2, 3], [], [], []]"
proof (rule running_frame [OF three_threads_running])
  have "Pcbs elf_state = Pcbs three_threads"
    by (simp add: elf_state_def obname_state.extend_def ps_state.fields_def small_names_def ob_state.extend_def obname_state.fields_def
        small_ob_unfold three_threads_unfold)
  then show "Pcbs (disk_machine v) = Pcbs three_threads" by (simp add: disk_machine_def io_state.extend_def ide_state.fields_def open_file_unfold)
  show "hal_ok (disk_machine v) = hal_ok three_threads"
    using elf_state_sched(8) by (simp add: hal_ok_def disk_machine_def io_state.extend_def ide_state.fields_def open_file_unfold)
qed (simp_all add: disk_machine_def io_state.extend_def ide_state.fields_def open_file_unfold elf_state_sched elf_state_processes fun_eq_iff)

lemma lock_is_not_completion [simp]: "completion_wait c \<noteq> channel_lock c'" if "c < 2" "c' < 2"
  using that by (auto simp: completion_wait_def channel_lock_def)

section \<open>Properties\<close>

text \<open>C37. Selecting a sector below the capacity of the disk and \<open>2 ^ 28\<close>, on a controller whose reads change nothing else, addresses exactly that sector of that device: the address registers of the channel decode to the sector number, whatever they
  held, in the 28 bits the interface has.\<close>

theorem select_sector_decodes:
  assumes "quiet hw" and "sec_no < capacity (disk_of d s)" and "sec_no < 0x10000000" and "snd d < 2"
  shows "\<exists>s'. select_sector hw d sec_no s = Inr s' \<and> selected_sector (fst d) s' = unat sec_no \<and> selected_device (fst d) s' = snd d \<and>
    register (reg_nsect (fst d) s) s' = 1"
proof -
  obtain m where "select_sector hw d sec_no s = Inr (with_hw m (writes (sector_writes d sec_no s) s))"
    using select_sector_writes [OF assms(1-3)] by blast
  then show ?thesis using sector_registers [OF assms(3,4), of s] by simp
qed

theorem select_sector_decodes_witness:
  "\<exists>s'. select_sector (simple_ata 0) (0, 1) 0x2A5 (disk_machine 0) = Inr s' \<and> selected_sector 0 s' = 0x2A5 \<and> selected_device 0 s' = 1"
proof -
  have "quiet (simple_ata 0)" using simple_ata_serves [of 0 0] by (simp add: serves_def)
  then show ?thesis
    using select_sector_decodes [of "simple_ata 0" "0x2A5" "(0, 1)" "disk_machine 0"] by (auto simp: disk_of_def)
qed

text \<open>C16. Reading a sector below the capacity and \<open>2 ^ 28\<close> from a channel whose lock is free, by a thread at or below \<open>APC_LEVEL\<close> with interrupts enabled. The controller
  keeps the contract \<open>serves\<close>: reading a port has no effect on memory, and behind a read command the status is ready at once. When the wait for the completion of the command ends with the channel left to the thread, the buffer holds
  the contents of the requested sector, the read is counted and the channel is free again.\<close>

theorem disk_read_sector:
  assumes "running F s t qs" and "CurrentIrql s \<le> APC_LEVEL" and "HalAreInterruptsEnabled s" and "channel_free (fst d) s" and "snd d < 2"
    and "sec_no < capacity (disk_of d s)" and "sec_no < 0x10000000" and "buf \<noteq> 0"
    and hw: "serves hw (fst d) (reg_base (Channels s (fst d))) contents" "length (contents (snd d) (unat sec_no)) = 256"
    and wait: "\<And>s1. issued F t qs (fst d) CMD_READ_SECTOR_RETRY s s1 \<Longrightarrow>
      \<exists>s2 qs'. wait_for exit_thread run (Suc fuel) resume (completion_wait (fst d)) s1 = Inr s2 \<and> running F s2 t qs' \<and> kept (fst d) t s1 s2"
  shows "\<exists>s' qs'. disk_read_internal hw exit_thread run (Suc fuel) resume (Some d) sec_no buf s = Inr s' \<and> running F s' t qs' \<and>
    get_words buf 256 (Bytes s') = contents (snd d) (unat sec_no) \<and> read_cnt (disk_of d s') = read_cnt (disk_of d s) + 1 \<and> channel_free (fst d) s'"
proof -
  let ?c = "fst d"
  let ?p = "reg_base (Channels s ?c)"
  obtain s1 where s1: "wait_for exit_thread run (Suc fuel) resume (channel_lock ?c) s = Inr s1" "running F s1 t qs" "CurrentIrql s1 = CurrentIrql s"
      "channel_owned ?c t s1" "\<And>x. x \<noteq> channel_lock ?c \<Longrightarrow> DHeaders s1 x = DHeaders s x" "Channels s1 = Channels s" "Flags_IF s1 = Flags_IF s"
    using acquire_channel [OF assms(1,2,4), of exit_thread run fuel resume] by blast
  have q: "quiet hw" using hw(1) by (simp add: serves_def)
  obtain m where m: "select_sector hw d sec_no s1 = Inr (with_hw m (writes (sector_writes d sec_no s1) s1))"
    using select_sector_writes [OF q, of sec_no d s1] assms(6,7) s1(6) by (auto simp: disk_of_def)
  define s2 where "s2 = writes [(?p + 7, CMD_READ_SECTOR_RETRY)] (set_channel ?c (\<lambda>k. k\<lparr>expecting_interrupt := True\<rparr>)
    (with_hw m (writes (sector_writes d sec_no s1) s1)))"
  have issue: "issue_pio_command ?c CMD_READ_SECTOR_RETRY (with_hw m (writes (sector_writes d sec_no s1) s1)) = Inr s2"
    using assms(3) s1(6,7) by (simp add: issue_pio_command_def HalAreInterruptsEnabled_def s2_def outb_writes reg_defs Let_def)
  have sel: "selected_sector ?c s2 = unat sec_no" "selected_device ?c s2 = snd d"
    using sector_registers [OF assms(7,5), of s1] s1(6)
    by (simp_all add: selected_sector_def selected_device_def reg_defs s2_def register_writes)
  have iss: "issued F t qs ?c CMD_READ_SECTOR_RETRY s s2"
    using s1 by (simp add: issued_def s2_def channel_owned_def register_writes reg_defs)
  from wait [OF iss] obtain s3 qs' where s3: "wait_for exit_thread run (Suc fuel) resume (completion_wait ?c) s2 = Inr s3" "running F s3 t qs'" "kept ?c t s2 s3" by blast
  have ch: "reg_base (Channels s2 ?c) = ?p" "devices (Channels s2 ?c) = devices (Channels s ?c)" using s1(6) by (simp_all add: s2_def)
  have k: "channel_owned ?c t s3" "Channels s3 ?c = Channels s2 ?c" "\<And>k. k \<le> 7 \<Longrightarrow> register (?p + k) s3 = register (?p + k) s2"
    using s3(3) ch by (simp_all add: kept_def)
  have sel3: "selected_sector ?c s3 = unat sec_no" "selected_device ?c s3 = snd d"
    using sel k(3) k(2) ch by (simp_all add: selected_sector_def selected_device_def reg_defs)
  have cmd: "register (?p + 7) s3 = unat CMD_READ_SECTOR_RETRY" using k(3) [of 7] by (simp add: s2_def register_writes)
  have base: "reg_base (Channels s3 ?c) = ?p" using k(2) ch by simp
  obtain m' where busy: "wait_while_busy hw d s3 = (True, with_hw m' s3)" using data_ready [OF hw(1) base cmd refl] by blast
  have data: "fst (insw hw ?p 256 (with_hw m' s3)) = contents (snd d) (unat sec_no)"
    using hw(1) base cmd sel3 by (simp add: serves_def selected_sector_def selected_device_def reg_defs)
  obtain m'' where ins: "insw hw ?p 256 (with_hw m' s3) = (contents (snd d) (unat sec_no), with_hw m'' s3)"
    using quiet_insw [OF q, of ?p 256 "with_hw m' s3"] data by auto
  define s4 where "s4 = set_disk d (\<lambda>k. k\<lparr>read_cnt := read_cnt k + 1\<rparr>) (input_sector hw ?c buf (with_hw m' s3))"
  have s4: "running F s4 t qs'" "channel_owned ?c t s4" "Bytes s4 = put_words buf (contents (snd d) (unat sec_no)) (Bytes s3)"
    "read_cnt (disk_of d s4) = read_cnt (disk_of d s) + 1"
    using s3(2) k(1,2) base ins ch(2)
    by (simp_all add: s4_def input_sector_def reg_defs set_disk_def disk_of_def channel_owned_def)
  obtain s5 where s5: "KeReleaseMutant run (Suc fuel) (channel_lock ?c) s4 = Inr s5" "running F s5 t qs'" "channel_free ?c s5"
      "Channels s5 = Channels s4" "Bytes s5 = Bytes s4"
    using release_channel [OF s4(1,2), of run fuel] by blast
  have "disk_read_internal hw exit_thread run (Suc fuel) resume (Some d) sec_no buf s = Inr s5"
    using s1(1) m issue s3(1) busy s5(1) assms(8) by (simp add: disk_read_internal_def s4_def)
  moreover have "get_words buf 256 (Bytes s5) = contents (snd d) (unat sec_no)"
    unfolding s5(5) s4(3) using hw(2) by (rule get_put_words) simp
  ultimately show ?thesis using s5 s4(4) by (intro exI [of _ s5] exI [of _ qs']) (simp add: disk_of_def)
qed

theorem disk_read_sector_witness:
  "\<exists>s'. disk_read_internal (simple_ata 0) (\<lambda>_. Inr) no_dpcs 1 Inr (Some (0, 1)) 7 0x80000000 (disk_machine 1) = Inr s' \<and>
     get_words 0x80000000 256 (Bytes s') = replicate 256 7"
proof -
  let ?s = "disk_machine 1"
  let ?q = "[[], [], [], [2, 3], [], [], []]"
  have "\<exists>s2 qs'. wait_for (\<lambda>_. Inr) no_dpcs (Suc 0) Inr (completion_wait 0) s1 = Inr s2 \<and> running (\<lambda>_. 0x1000) s2 1 qs' \<and> kept 0 1 s1 s2"
    if "issued (\<lambda>_. 0x1000) 1 ?q 0 CMD_READ_SECTOR_RETRY ?s s1" for s1
    using that by (intro completion_counted [of ?s]) simp_all
  then show ?thesis
    using disk_read_sector [OF disk_machine_running [of 1], of "(0, 1)" 7 "0x80000000" "simple_ata 0" numbered "\<lambda>_. Inr" no_dpcs 0 Inr]
      simple_ata_serves [of 0] disk_machine_enabled [of 1]
    by (auto simp: channel_free_def disk_of_def LIST_EMPTY_def LIST_INIT_def numbered_def)
qed



end
