(* ===== verification/MmBoot.thy ===== *)
theory MmBoot
  imports MmProps
begin

text \<open>
  The layout of memory at boot, in \<open>mm/mm.c\<close>: the page directory, the table of the first four megabytes, the page tables of the kernel space and the switch to
  paging. Before the switch the segments are based at \<open>-KERNBASE\<close> (\<open>kos.S\<close>), so an access reaches the physical address \<open>va - KERNBASE\<close>. Between the switch and the
  removal of the mapping at 0 the processor gets its descriptor table (\<open>KiCreateCurrentGDT\<close>), under the lock of the processor. What is only printed is left out.
\<close>

abbreviation (input) sizeof_MMPFN :: ULONG where "sizeof_MMPFN \<equiv> 16"

definition MiBootVA2PA :: "PVOID \<Rightarrow> fault + ULONG" where
  "MiBootVA2PA VA = (if VA < KERNBASE then Inl (KeBugCheck ''Invalid %08lx'') else Inr (VA - KERNBASE))"

definition MiBootPA2VA :: "ULONG \<Rightarrow> 'a mm_state_scheme \<Rightarrow> fault + PVOID" where
  "MiBootPA2VA PA s = (if PPN PA \<ge> MMNumberOfPhysicalPages s then Inl (KeBugCheck ''Invalid PA %08lx'') else Inr (PA + KERNBASE))"

section \<open>Memory before paging\<close>

definition boot_read :: "PVOID \<Rightarrow> 'a mm_state_scheme \<Rightarrow> ULONG" where
  "boot_read va s = PhysMem s (PPN (va - KERNBASE)) (word_off va)"

definition boot_write :: "PVOID \<Rightarrow> ULONG \<Rightarrow> 'a mm_state_scheme \<Rightarrow> 'a mm_state_scheme" where
  "boot_write va w s = set_entry (PPN (va - KERNBASE)) (word_off va) w s"

definition boot_zero_page :: "PVOID \<Rightarrow> 'a mm_state_scheme \<Rightarrow> 'a mm_state_scheme" where
  "boot_zero_page va s = s\<lparr>PhysMem := (PhysMem s)(PPN (va - KERNBASE) := \<lambda>_. 0)\<rparr>"

text \<open>The address of entry \<open>i\<close> of a table.\<close>

definition entry_at :: "PVOID \<Rightarrow> ULONG \<Rightarrow> PVOID" where
  "entry_at table i = table + push_bit 2 i"

text \<open>
  \<open>for (i = 0; i < size; i += PTSIZE)\<close> does not end when the last multiple below \<open>size\<close> is the last of all; the pages of one table are those
  of the inner loop, which also advances \<open>PhyAddress\<close>.
\<close>

definition map_table ::
  "PVOID \<Rightarrow> PVOID \<Rightarrow> ULONG \<Rightarrow> ULONG \<Rightarrow> nat \<Rightarrow> ULONG \<times> 'a mm_state_scheme \<Rightarrow> ULONG \<times> 'a mm_state_scheme" where
  "map_table page_table Address nbytes Perm i = fold (\<lambda>j (PhyAddress, s).
       (PhyAddress + PGSIZE, boot_write (entry_at page_table (PTX (Address + of_nat (i + j * 4096)))) (PhyAddress OR Perm) s))
     (takeWhile (\<lambda>j. i + j * 4096 < unat nbytes) [0..<1024])"

definition MiBootMapMemory ::
  "PVOID \<Rightarrow> PVOID \<Rightarrow> ULONG \<Rightarrow> ULONG \<Rightarrow> ULONG \<Rightarrow> 'a mm_state_scheme \<Rightarrow> fault + 'a mm_state_scheme" where
  "MiBootMapMemory PgDir Address nbytes PhyAddress Perm s =
     ASSERT ''MiBootMapMemory: IsPageAlignedAddress(Address)'' (IsPageAlignedAddress Address)
     (ASSERT ''MiBootMapMemory: IsPageAlignedAddress(PhyAddress)'' (IsPageAlignedAddress PhyAddress)
     (if nbytes > 0xFFC00000 then Inl Hang
      else bind (foldE (\<lambda>k (PhyAddress, s).
          let i = k * unat PTSIZE; entry = boot_read (entry_at PgDir (PDX (Address + of_nat i))) s
          in ASSERT ''MiBootMapMemory: 0'' (entry \<noteq> 0)
             (bind (MiBootPA2VA (entry AND NOT 0x3FF) s) (\<lambda>page_table. Inr (map_table page_table Address nbytes Perm i (PhyAddress, s)))))
        [0..<(unat nbytes + unat PTSIZE - 1) div unat PTSIZE] (PhyAddress, s)) (\<lambda>(_, s). Inr s)))"

section \<open>The layout\<close>

definition MiInitializeUserPtesLock :: "'a mm_state_scheme \<Rightarrow> 'a mm_state_scheme" where
  "MiInitializeUserPtesLock s = KeInitializeSpinLock UserPteSpinLock s"

text \<open>One round of the loop that gives the slots of the kernel space their page tables.\<close>

definition kernel_table :: "ULONG \<Rightarrow> 'a mm_state_scheme \<Rightarrow> fault + 'a mm_state_scheme" where
  "kernel_table counter s =
     (let pPte = MmGetPteAddress counter; slot = entry_at (GlobalPgdir s) (PDX counter) in
      if pPte = MM_PDE_ADDRESS then Inr s
      else bind (MmAllocatePFN pPte s) (\<lambda>(status, pfn, s).
        ASSERT ''MiBootInitMemoryLayout: success(status)'' (success status)
        (deref pfn (\<lambda>pfn.
         bind (vread slot s) (\<lambda>old.
         ASSERT ''MiBootInitMemoryLayout: GlobalPgdir[PDX(counter)].u.Long == 0'' (old = 0)
         (bind (vwrite slot (MiPFNtoPhysicalAddress pfn OR PTE_W OR PTE_P) s) (vzero_page pPte)))))))"

text \<open>\<open>TSS\<close> and \<open>GDT_address\<close> are where the task state and the descriptor table of the processor lie in the kernel image.\<close>

definition MiBootInitMemoryLayout ::
  "'a mm_state_scheme deferred_routines \<Rightarrow> nat \<Rightarrow> ULONG \<Rightarrow> ULONG \<Rightarrow> ULONG \<Rightarrow> ULONG list \<Rightarrow> 'a mm_state_scheme \<Rightarrow> fault + 'a mm_state_scheme" where
  "MiBootInitMemoryLayout run fuel TSS GDT_address kernel_end buffer s =
     (let s = x86CalcRam s;
          (PfnDataBase, s) = MiInitBootAlloc kernel_end (sizeof_MMPFN * MMNumberOfPhysicalPages s) PGSIZE s;
          (Pgdir, s) = MiInitBootAlloc kernel_end PGSIZE PGSIZE s;
          s = s\<lparr>GlobalPgdir := Pgdir\<rparr>;
          (FirstPTE, s) = MiInitBootAlloc kernel_end PGSIZE PGSIZE s;
          s = boot_zero_page FirstPTE (boot_zero_page Pgdir s)
      in bind (MiBootVA2PA FirstPTE) (\<lambda>First.
         bind (MiBootMapMemory Pgdir KERNBASE PTSIZE 0 (PTE_P OR PTE_W)
           (boot_write (entry_at Pgdir (PDX KERNBASE)) (First OR PTE_W OR PTE_P) s)) (\<lambda>s.
         bind (MmInitializeSystemPtes kernel_end buffer s) (\<lambda>s.
         bind (MmInitPFNDataBase (MiInitializeUserPtesLock s)) (\<lambda>s.
         let s = boot_write (entry_at Pgdir 0) (boot_read (entry_at Pgdir (PDX KERNBASE)) s) s
         in bind (MiBootVA2PA Pgdir) (\<lambda>Dir.
         let s = s\<lparr>GlobalCr3 := Dir, Cr3 := Dir\<rparr>
         in bind (KiCreateCurrentGDT run fuel TSS GDT_address s) (\<lambda>s.
         bind (vwrite (entry_at Pgdir 0) 0 s) (\<lambda>s.
         bind (vwrite (entry_at Pgdir (PDX MMPAGETABLEAREA_START)) (Dir OR PTE_W OR PTE_P) (s\<lparr>Cr3 := GlobalCr3 s\<rparr>)) (\<lambda>s.
         foldE kernel_table (map (\<lambda>k. of_nat (k * 0x400000)) [513..<1024]) s)))))))))"

definition MmGetGlobalCr3 :: "'a mm_state_scheme \<Rightarrow> ULONG" where
  "MmGetGlobalCr3 s = GlobalCr3 s"

definition MmGetGlobalPgdir :: "'a mm_state_scheme \<Rightarrow> PVOID" where
  "MmGetGlobalPgdir s = GlobalPgdir s"

section \<open>Addresses of the first four megabytes\<close>

lemma entry_at_unat:
  assumes "unat va = 0x80000000 + q" and "q < 0x400000" and "unat i < 1024"
  shows "unat (entry_at va i) = 0x80000000 + q + 4 * unat i"
  using assms by (simp add: entry_at_def unat_add_no_wrap unat_push_bit2)

lemma boot_address:
  assumes va: "unat va = 0x80000000 + q" and q: "q < 0x400000"
  shows "unat (va - KERNBASE) = q" and "unat (PPN (va - KERNBASE)) = q div 4096"
    and "unat (PDX va) = 512" and "unat (PTX va) = q div 4096" and "unat (word_off va) = q mod 4096 div 4"
proof -
  show b: "unat (va - KERNBASE) = q" using assms by (subst unat_sub) (simp_all add: word_le_nat_alt)
  show "unat (PPN (va - KERNBASE)) = q div 4096" by (simp add: PPN_def unat_drop_bit b)
  show "unat (PDX va) = 512" using q by (simp add: unat_PDX va)
  have "(0x80000 + q div 4096) mod 1024 = q div 4096" using q by (simp add: less_mult_imp_div_less mod_add_eq [symmetric])
  moreover have "(0x80000000 + q) div 4096 = 0x80000 + q div 4096" by simp
  ultimately show "unat (PTX va) = q div 4096" by (simp add: unat_PTX va)
  have "(q + 524288 * 4096) mod 4096 = q mod 4096" by (simp only: mod_mult_self1)
  then have "(0x80000000 + q) mod 4096 = q mod 4096" by (simp add: add.commute)
  then show "unat (word_off va) = q mod 4096 div 4" by (simp add: unat_word_off va)
qed

lemma boot_entry:
  assumes va: "unat va = 0x80000000 + q" and q: "q < 0x400000" "4096 dvd q" and i: "unat i < 1024"
  shows "PPN (entry_at va i - KERNBASE) = of_nat (q div 4096)" and "word_off (entry_at va i) = i"
    and "PDX (entry_at va i) = 512" and "PTX (entry_at va i) = of_nat (q div 4096)"
proof -
  have e: "unat (entry_at va i) = 0x80000000 + (q + 4 * unat i)" using entry_at_unat [OF va q(1) i] by simp
  obtain k where k: "q = 4096 * k" using q(2) by blast
  have "k < 1024" using q(1) k by simp
  then have lt: "q + 4 * unat i < 0x400000" using i k by linarith
  have d: "(q + 4 * unat i) div 4096 = k" "(q + 4 * unat i) mod 4096 div 4 = unat i" "q div 4096 = k" using i k by simp_all
  have u: "unat (of_nat k :: ULONG) = k" using q(1) k by (intro unat_of_nat32) simp
  note a = boot_address [OF e lt]
  show "PPN (entry_at va i - KERNBASE) = of_nat (q div 4096)" "word_off (entry_at va i) = i"
    "PDX (entry_at va i) = 512" "PTX (entry_at va i) = of_nat (q div 4096)"
    using a d u by (simp_all add: word_unat_eq_iff)
qed

lemma boot_entry_access:
  assumes "unat va = 0x80000000 + q" and "q < 0x400000" "4096 dvd q" and "unat i < 1024"
  shows "boot_write (entry_at va i) w s = set_entry (of_nat (q div 4096)) i w s"
    and "boot_read (entry_at va i) s = PhysMem s (of_nat (q div 4096)) i"
  using boot_entry [OF assms] by (simp_all add: boot_write_def boot_read_def)

section \<open>The table of the first four megabytes\<close>

definition with_table :: "frame \<Rightarrow> nat \<Rightarrow> ULONG \<Rightarrow> 'a mm_state_scheme \<Rightarrow> 'a mm_state_scheme" where
  "with_table f n Perm s = s\<lparr>PhysMem := (PhysMem s)(f := \<lambda>x. if unat x < n then of_nat (unat x * 4096) OR Perm else PhysMem s f x)\<rparr>"

lemma PTX_boot: "j < 1024 \<Longrightarrow> PTX (KERNBASE + of_nat (j * 4096)) = of_nat j"
proof -
  assume j: "j < 1024"
  have u: "unat (of_nat (j * 4096) :: ULONG) = j * 4096" "unat (of_nat j :: ULONG) = j"
    using j unat_of_nat32 [of "j * 4096"] unat_of_nat32 [of j] by simp_all
  then have "unat (KERNBASE + of_nat (j * 4096)) = 0x80000000 + j * 4096" using j by (simp add: unat_add_no_wrap)
  then have "unat (PTX (KERNBASE + of_nat (j * 4096))) = j" using boot_address(4) [of _ "j * 4096"] j by simp
  then show ?thesis using u(2) by (simp add: word_unat_eq_iff)
qed

lemma map_table_steps:
  assumes va: "unat va = 0x80000000 + q" "q < 0x400000" "4096 dvd q" and n: "n \<le> 1024"
  shows "fold (\<lambda>j (PhyAddress, s). (PhyAddress + PGSIZE, boot_write (entry_at va (PTX (KERNBASE + of_nat (0 + j * 4096)))) (PhyAddress OR Perm) s))
      [0..<n] (0, s) = (of_nat (n * 4096), with_table (of_nat (q div 4096)) n Perm s)"
  using n
proof (induction n)
  case 0
  show ?case by (simp add: with_table_def)
next
  case (Suc n)
  have n: "n < 1024" using Suc.prems by simp
  have u: "unat (of_nat n :: ULONG) = n" using n by (intro unat_of_nat32) simp
  have w: "boot_write (entry_at va (of_nat n)) w t = set_entry (of_nat (q div 4096)) (of_nat n) w t" for w and t :: "'a mm_state_scheme"
    using n u by (intro boot_entry_access(1) [OF va]) simp
  have eq: "(\<lambda>x. if unat x < n then g x else h x)(of_nat n := g (of_nat n)) = (\<lambda>x. if unat x < Suc n then g x else h x)"
    for g h :: "ULONG \<Rightarrow> ULONG" using u by (auto simp: fun_eq_iff less_Suc_eq word_unat_eq_iff)
  have "set_entry f (of_nat n) (of_nat (n * 4096) OR Perm) (with_table f n Perm s) = with_table f (Suc n) Perm s" for f
    using eq [of "\<lambda>x. of_nat (unat x * 4096) OR Perm" "PhysMem s f"] u by (simp add: set_entry_def with_table_def)
  moreover have "of_nat (Suc n * 4096) = (of_nat (n * 4096) + PGSIZE :: ULONG)" by simp
  ultimately show ?case using Suc.IH n by (simp only: upt_Suc fold_append) (simp add: w PTX_boot del: of_nat_mult mult_Suc)
qed

lemma map_first_table:
  assumes va: "unat Dir = 0x80000000 + q" "q < 0x400000" "4096 dvd q" and t: "unat (Table :: PVOID) = 0x80000000 + r" "r < 0x400000" "4096 dvd r"
    and e: "PhysMem s (of_nat (q div 4096)) 512 = of_nat r OR Flags" "of_nat r OR Flags \<noteq> 0" "(of_nat r OR Flags) AND NOT 0x3FF = of_nat r"
    and n: "1024 \<le> MMNumberOfPhysicalPages s"
  shows "MiBootMapMemory Dir KERNBASE PTSIZE 0 Perm s = Inr (with_table (of_nat (r div 4096)) 1024 Perm s)"
proof -
  have u: "unat (of_nat r :: ULONG) = r" using t(2) by (intro unat_of_nat32) simp
  have "PDX KERNBASE = 512" by (simp add: PDX_def)
  then have entry: "boot_read (entry_at Dir (PDX KERNBASE)) s = of_nat r OR Flags"
    using boot_entry_access(2) [OF va, of 512 s] e(1) by simp
  have "unat (PPN (of_nat r)) < 1024" using t(2) u by (simp add: PPN_def unat_drop_bit less_mult_imp_div_less)
  then have "PPN (of_nat r) < MMNumberOfPhysicalPages s" using n by (simp add: word_less_nat_alt word_le_nat_alt)
  moreover have "unat (of_nat r + KERNBASE) = unat Table" using t(1,2) u by (simp add: unat_add_no_wrap)
  then have "of_nat r + KERNBASE = Table" by (simp add: word_unat_eq_iff)
  ultimately have pt: "MiBootPA2VA ((of_nat r OR Flags) AND NOT 0x3FF) s = Inr Table" by (simp only: e(3) MiBootPA2VA_def) (simp add: linorder_not_le)
  have "takeWhile (\<lambda>j. 0 + j * 4096 < unat PTSIZE) [0..<1024] = [0..<1024]" by (rule takeWhile_eq_all_conv [THEN iffD2]) simp
  then have "map_table Table KERNBASE PTSIZE Perm 0 (0, s) = (of_nat (1024 * 4096), with_table (of_nat (r div 4096)) 1024 Perm s)"
    using map_table_steps [OF t order_refl, of Perm s] by (simp only: map_table_def)
  moreover have "[0..<(unat PTSIZE + unat PTSIZE - 1) div unat PTSIZE] = [0]" by simp
  moreover have "IsPageAlignedAddress KERNBASE" "IsPageAlignedAddress 0" "\<not> PTSIZE > 0xFFC00000" by (simp_all add: IsPageAlignedAddress_def PGOFF_def)
  ultimately show ?thesis
    using e(2) pt by (simp add: MiBootMapMemory_def entry Let_def)
qed

section \<open>The frame database\<close>

lemma set_refs:
  assumes "\<forall>f \<in> set fs. f < MMNumberOfPhysicalPages s"
  shows "foldE (set_ref n) fs s = Inr (s\<lparr>RefCount := \<lambda>f. if f \<in> set fs then n else RefCount s f\<rparr>)"
  using assms
proof (induction fs arbitrary: s)
  case (Cons f fs)
  have "(\<lambda>g. if g \<in> set fs then n else ((RefCount s)(f := n)) g) = (\<lambda>g. if g \<in> set (f # fs) then n else RefCount s g)" by auto
  then show ?case using Cons by (simp add: set_ref_def pfn_access_def cong: if_cong)
qed simp

lemma of_nat_inj: "inj_on (of_nat :: nat \<Rightarrow> ULONG) {..<2 ^ 32}"
  by (rule inj_onI) (metis lessThan_iff unat_of_nat32)

lemma distinct_frames: "n \<le> 2 ^ 32 \<Longrightarrow> distinct (map of_nat [m..<n] :: frame list)"
proof -
  assume "n \<le> 2 ^ 32"
  then have "{m..<n} \<subseteq> {..<2 ^ 32}" by auto
  then have "inj_on (of_nat :: nat \<Rightarrow> ULONG) {m..<n}" by (rule inj_on_subset [OF of_nat_inj])
  then show ?thesis by (simp add: distinct_map)
qed

lemma free_loop:
  assumes "\<forall>f \<in> set fs. f < MMNumberOfPhysicalPages s" and "klist_rep (pfn_list s) gs" and "distinct fs" "set fs \<inter> set gs = {}"
  shows "\<exists>l. foldE (\<lambda>f s. bind (set_ref 0 f s) (\<lambda>s. bind (LIST_INSERT_TAIL f (pfn_list s)) (\<lambda>l. Inr (set_pfn_list l s)))) fs s =
      Inr (set_pfn_list l (s\<lparr>RefCount := \<lambda>f. if f \<in> set fs then 0 else RefCount s f\<rparr>)) \<and> klist_rep l (gs @ fs)"
  using assms
proof (induction fs arbitrary: s gs)
  case Nil
  then show ?case by (intro exI [of _ "pfn_list s"]) (simp add: set_pfn_list_def pfn_list_def)
next
  case (Cons f fs)
  obtain l where l: "LIST_INSERT_TAIL f (pfn_list s) = Inr l" "klist_rep l (gs @ [f])"
    using LIST_INSERT_TAIL_correct [OF Cons.prems(2), of f] Cons.prems(4) by auto
  let ?s = "set_pfn_list l (s\<lparr>RefCount := (RefCount s)(f := 0)\<rparr>)"
  obtain l' where l': "foldE (\<lambda>f s. bind (set_ref 0 f s) (\<lambda>s. bind (LIST_INSERT_TAIL f (pfn_list s)) (\<lambda>l. Inr (set_pfn_list l s)))) fs ?s =
      Inr (set_pfn_list l' (?s\<lparr>RefCount := \<lambda>g. if g \<in> set fs then 0 else RefCount ?s g\<rparr>))" "klist_rep l' ((gs @ [f]) @ fs)"
    using Cons.IH [of ?s "gs @ [f]"] Cons.prems l(2) by auto
  have "set_pfn_list l' (?s\<lparr>RefCount := \<lambda>g. if g \<in> set fs then 0 else RefCount ?s g\<rparr>) =
      set_pfn_list l' (s\<lparr>RefCount := \<lambda>g. if g \<in> set (f # fs) then 0 else RefCount s g\<rparr>)"
    by (simp add: set_pfn_list_def) (auto simp: fun_eq_iff intro!: arg_cong [of _ _ "\<lambda>r. RefCount_update r _"])
  then show ?case using l' l(1) Cons.prems(1) by (intro exI [of _ l']) (simp add: set_ref_def pfn_access_def)
qed

lemma frame_database:
  assumes n: "MMNumberOfPhysicalPages s = 0x10000" "basemem s = IOPHYSMEM" "MaxPA s = MAXPHYMEM"
    and p: "unat (PtrToBootFreemem s) = 0x80000000 + q" "0x100000 \<le> q" "q < 0x400000"
  shows "\<exists>l r. MmInitPFNDataBase s = Inr (set_pfn_list l (s\<lparr>RefCount := r\<rparr>)) \<and> klist_rep l (map of_nat [q div 4096..<0x10000]) \<and>
    (\<forall>f. q div 4096 \<le> unat f \<and> unat f < 0x10000 \<longrightarrow> r f = 0)"
proof -
  have first: "unat ((PtrToBootFreemem s - KERNBASE) div PGSIZE) = q div 4096"
    using boot_address(1) [OF p(1,3)] by (simp add: unat_div)
  let ?first = "(PtrToBootFreemem s - KERNBASE) div PGSIZE"
  have fl: "?first \<le> 0x10000" using first p(3) by (simp add: word_le_nat_alt)
  have refs: "foldE (set_ref 1) (range32 a b) t = Inr (t\<lparr>RefCount := \<lambda>f. if f \<in> set (range32 a b) then 1 else RefCount t f\<rparr>)"
    if "MMNumberOfPhysicalPages t = 0x10000" "b \<le> 0x10000" for a b and t :: "'a mm_state_scheme"
    using that by (intro set_refs) (auto simp: set_range32)
  define s0 where "s0 = s\<lparr>PfnFreeList := LIST_INIT, RefCount := (RefCount s)(0 := 1)\<rparr>"
  define s2 where "s2 = s0\<lparr>RefCount := \<lambda>f. if f \<in> set (range32 1 (IOPHYSMEM div PGSIZE)) then 1 else RefCount s0 f\<rparr>"
  define s3 where "s3 = s2\<lparr>RefCount := \<lambda>f. if f \<in> set (range32 (IOPHYSMEM div PGSIZE) (EXTPHYSMEM div PGSIZE)) then 1 else RefCount s2 f\<rparr>"
  define s1 where "s1 = s3\<lparr>RefCount := \<lambda>f. if f \<in> set (range32 (EXTPHYSMEM div PGSIZE) ?first) then 1 else RefCount s3 f\<rparr>"
  have st: "MMNumberOfPhysicalPages t = 0x10000 \<and> basemem t = IOPHYSMEM \<and> MaxPA t = MAXPHYMEM \<and> PtrToBootFreemem t = PtrToBootFreemem s"
    if "t \<in> {s0, s1, s2, s3}" for t using that n by (auto simp: s0_def s1_def s2_def s3_def)
  have r0: "set_ref 1 0 (s\<lparr>PfnFreeList := LIST_INIT\<rparr>) = Inr s0" using n by (simp add: set_ref_def pfn_access_def s0_def)
  have r2: "foldE (set_ref 1) (range32 1 (basemem s0 div PGSIZE)) s0 = Inr s2" using st [of s0] refs [of s0] by (simp add: s2_def)
  have r3: "foldE (set_ref 1) (range32 (IOPHYSMEM div PGSIZE) (EXTPHYSMEM div PGSIZE)) s2 = Inr s3"
    using st [of s2] refs [of s2 "EXTPHYSMEM div PGSIZE"] unfolding s3_def by simp
  have r1: "foldE (set_ref 1) (range32 (EXTPHYSMEM div PGSIZE) ?first) s3 = Inr s1" using st [of s3] refs [of s3 ?first] fl unfolding s1_def by simp
  have k0: "klist_rep (pfn_list s1) []" by (simp add: s0_def s1_def s2_def s3_def pfn_list_def klist_rep_def LIST_INIT_def)
  have fs: "range32 ((PtrToBootFreemem s - KERNBASE) div PGSIZE) (MAXPHYMEM div PGSIZE) = map of_nat [q div 4096..<0x10000]"
    using first by (simp add: range32_def)
  have d: "distinct (map of_nat [q div 4096..<0x10000] :: frame list)" by (rule distinct_frames) simp
  have l1: "\<forall>f \<in> set (map of_nat [q div 4096..<0x10000]). f < MMNumberOfPhysicalPages s1" unfolding fs [symmetric] using st [of s1] by (auto simp: set_range32)
  have e: "set (map of_nat [q div 4096..<0x10000]) \<inter> set ([] :: frame list) = {}" by simp
  from free_loop [OF l1 k0 d e] obtain l where l: "foldE (\<lambda>f s. bind (set_ref 0 f s) (\<lambda>s. bind (LIST_INSERT_TAIL f (pfn_list s)) (\<lambda>l. Inr (set_pfn_list l s))))
      (map of_nat [q div 4096..<0x10000]) s1 =
      Inr (set_pfn_list l (s1\<lparr>RefCount := \<lambda>f. if f \<in> set (map of_nat [q div 4096..<0x10000]) then 0 else RefCount s1 f\<rparr>))"
      "klist_rep l ([] @ map of_nat [q div 4096..<0x10000])"
    by blast
  define r where "r = (\<lambda>f. if f \<in> set (map of_nat [q div 4096..<0x10000]) then 0 else RefCount s1 f)"
  have rz: "r f = 0" if "q div 4096 \<le> unat f" "unat f < 0x10000" for f
  proof -
    have "f = of_nat (unat f)" by simp
    then have "f \<in> set (map of_nat [q div 4096..<0x10000])" using that by (metis atLeastLessThan_iff image_eqI set_map set_upt)
    then show ?thesis by (simp add: r_def)
  qed
  have ptr: "PtrToBootFreemem s < KERNBASE + PTSIZE" "\<not> PtrToBootFreemem s < KERNBASE" using p by (simp_all add: word_less_nat_alt)
  have "MmInitPFNDataBase s = Inr (set_pfn_list l (s1\<lparr>RefCount := r\<rparr>))"
    unfolding MmInitPFNDataBase_def Let_def r0 bind_Inr r2 r3
    using r1 l(1) ptr st [of s3] st [of s1] fs by (simp add: r_def)
  moreover have "set_pfn_list l (s1\<lparr>RefCount := r\<rparr>) = set_pfn_list l (s\<lparr>RefCount := r\<rparr>)"
    by (simp add: s0_def s1_def s2_def s3_def set_pfn_list_def)
  ultimately show ?thesis using l(2) rz by (intro exI [of _ l] exI [of _ r]) simp
qed

section \<open>The page tables of the kernel space\<close>

text \<open>
  \<open>g\<close> is the frame of the directory; the table of the first four megabytes follows, then the three frames of the bitmap, of which the third counts as free.
  \<open>booting g n s\<close>: the slots below \<open>n\<close> have their tables.
\<close>

definition entry_of :: "nat \<Rightarrow> MMPTE" where
  "entry_of f = of_nat (f * 4096) OR 3"

definition slot_frame :: "nat \<Rightarrow> nat \<Rightarrow> nat" where
  "slot_frame g k = (if k \<le> 768 then g + 4 + (k - 513) else g + 4 + (k - 514))"

definition boot_slot :: "nat \<Rightarrow> nat \<Rightarrow> nat \<Rightarrow> MMPTE" where
  "boot_slot g n k = (if k = 512 then entry_of (g + 1) else if k = 768 then entry_of g
     else if 513 \<le> k \<and> k < n then entry_of (slot_frame g k) else 0)"

definition boot_tables :: "nat \<Rightarrow> nat \<Rightarrow> 'a mm_state_scheme \<Rightarrow> bool" where
  "boot_tables g n s \<longleftrightarrow> unat (GlobalPgdir s) = 0x80000000 + 4096 * g \<and> Cr3 s = of_nat (4096 * g) \<and> MMNumberOfPhysicalPages s = 0x10000 \<and>
     (\<forall>x. unat x < 1024 \<longrightarrow> PhysMem s (of_nat (g + 1)) x = entry_of (unat x)) \<and>
     (\<forall>i. unat i < 1024 \<longrightarrow> PhysMem s (of_nat g) i = boot_slot g n (unat i)) \<and>
     (\<forall>k. 513 \<le> k \<and> k < n \<and> k \<noteq> 768 \<longrightarrow> PhysMem s (of_nat (slot_frame g k)) = (\<lambda>_. 0))"

text \<open>What the layout does not touch: the state without the fields of the memory manager.\<close>

definition boot_core :: "'a mm_state_scheme \<Rightarrow> 'a mm_state_scheme" where
  "boot_core s = (mm_core s)\<lparr>Cr3 := 0, MaxPA := 0, MMNumberOfPhysicalPages := 0, basemem := 0, GlobalCr3 := 0, GlobalPgdir := 0, PtrToBootFreemem := 0,
     MiSystemPteBitmap := \<lparr>BitCount = 0, bits = []\<rparr>\<rparr>"

definition booting :: "nat \<Rightarrow> nat \<Rightarrow> 'a mm_state_scheme \<Rightarrow> bool" where
  "booting g n s \<longleftrightarrow> boot_tables g n s \<and> klist_rep (pfn_list s) (map of_nat [slot_frame g n..<0x10000]) \<and>
     (\<forall>f. g + 4 \<le> unat f \<and> unat f < 0x10000 \<longrightarrow> RefCount s f = 0)"

lemma entry_of_frame:
  assumes "f < 0x100000"
  shows "Valid (entry_of f)" and "PageFrameNumber (entry_of f) = of_nat f"
proof -
  have u: "unat (of_nat f :: frame) = f" using assms by (intro unat_of_nat32) simp
  then have f: "(of_nat f :: frame) < 0x100000" using assms by (simp add: word_less_nat_alt)
  have "of_nat (f * 4096) = (push_bit 12 (of_nat f) :: ULONG)" by (simp add: push_bit_eq_mult)
  then have "entry_of f = page_entry (of_nat f) (PTE_W OR PTE_P)" by (simp add: entry_of_def page_entry_def MiPFNtoPhysicalAddress_def or.assoc)
  then show "Valid (entry_of f)" "PageFrameNumber (entry_of f) = of_nat f" using page_entry_frame [OF f, of PTE_W] by simp_all
qed

lemma booting_dir:
  assumes "boot_tables g n s" and "g < 1020"
  shows "page_dir s = of_nat g"
proof -
  have "unat (of_nat (4096 * g) :: ULONG) = 4096 * g" "unat (of_nat g :: ULONG) = g"
    using assms(2) unat_of_nat32 [of "4096 * g"] unat_of_nat32 [of g] by simp_all
  then show ?thesis using assms by (simp add: boot_tables_def page_dir_def PPN_def word_unat_eq_iff unat_drop_bit)
qed

text \<open>With the first table in slot 512 and paging on, the first four megabytes lie at \<open>KERNBASE\<close>.\<close>

definition first_mapped :: "nat \<Rightarrow> 'a mm_state_scheme \<Rightarrow> bool" where
  "first_mapped g s \<longleftrightarrow> page_dir s = of_nat g \<and> PhysMem s (of_nat g) 512 = entry_of (g + 1) \<and>
     (\<forall>x. unat x < 1024 \<longrightarrow> PhysMem s (of_nat (g + 1)) x = entry_of (unat x))"

lemma first_translate:
  assumes b: "first_mapped g s" and g: "g < 1020" and va: "unat va = 0x80000000 + q" "q < 0x400000"
  shows "translate s va = Some (of_nat (q div 4096))"
proof -
  have q: "q div 4096 < 1024" using va(2) by (simp add: less_mult_imp_div_less)
  have "unat (PDX va) = 512" "unat (PTX va) = q div 4096" using boot_address [OF va] by simp_all
  then have "PDX va = 512" "unat (PTX va) = q div 4096" by (simp_all add: word_unat_eq_iff)
  then have "PhysMem s (of_nat g) (PDX va) = entry_of (g + 1)" "PhysMem s (of_nat (g + 1)) (PTX va) = entry_of (q div 4096)"
    using b q by (simp_all add: first_mapped_def)
  then show ?thesis
    using entry_of_frame [of "g + 1"] entry_of_frame [of "q div 4096"] g q b by (simp add: first_mapped_def translate_def mmu_def Let_def)
qed

lemma first_slot:
  assumes b: "first_mapped g s" and g: "g < 1020" and d: "unat Dir = 0x80000000 + 4096 * g" and i: "unat i < 1024"
  shows "vread (entry_at Dir i) s = Inr (PhysMem s (of_nat g) i)" and "vwrite (entry_at Dir i) w s = Inr (set_entry (of_nat g) i w s)"
proof -
  have "4096 * g + 4 * unat i < 0x400000" using g i by linarith
  moreover have "(4096 * g + 4 * unat i) div 4096 = g" using i by simp
  ultimately have t: "translate s (entry_at Dir i) = Some (of_nat g)"
    using first_translate [OF b g, of "entry_at Dir i" "4096 * g + 4 * unat i"] entry_at_unat [OF d _ i] g by simp
  moreover have w: "word_off (entry_at Dir i) = i" using boot_entry(2) [OF d _ _ i] g by simp
  ultimately show "vread (entry_at Dir i) s = Inr (PhysMem s (of_nat g) i)" "vwrite (entry_at Dir i) w s = Inr (set_entry (of_nat g) i w s)"
    by (simp_all add: vread_def vwrite_def set_entry_def)
qed

lemma booting_mapped:
  assumes "boot_tables g n s" and "g < 1020"
  shows "first_mapped g s"
proof -
  have "unat (512 :: ULONG) < 1024" by simp
  then have "PhysMem s (of_nat g) 512 = boot_slot g n 512" using assms(1) unfolding boot_tables_def by fastforce
  then show ?thesis using assms booting_dir [OF assms] by (simp add: first_mapped_def boot_tables_def boot_slot_def)
qed

lemma frame_eq: "a < 2 ^ 32 \<Longrightarrow> b < 2 ^ 32 \<Longrightarrow> (of_nat a :: ULONG) = of_nat b \<longleftrightarrow> a = b"
  by (metis unat_of_nat32)

lemma slot_frame_bounds:
  assumes "g < 1020" and "513 \<le> k" "k \<le> 1024"
  shows "g + 4 \<le> slot_frame g k" and "slot_frame g k < 0x10000"
  using assms by (auto simp: slot_frame_def)

lemma slot_frame_inj:
  assumes "513 \<le> k" "k < n" "k \<noteq> 768"
  shows "slot_frame g k \<noteq> slot_frame g n"
  using assms by (auto simp: slot_frame_def)

lemma counter_address:
  assumes "513 \<le> n" and "n < 1024"
  shows "PDX (of_nat (n * 0x400000)) = of_nat n" and "MmGetPteAddress (of_nat (n * 0x400000)) = MM_PDE_ADDRESS \<longleftrightarrow> n = 768"
proof -
  have u: "unat (of_nat (n * 0x400000) :: ULONG) = n * 0x400000" "unat (of_nat n :: ULONG) = n"
    using assms unat_of_nat32 [of "n * 0x400000"] unat_of_nat32 [of n] by simp_all
  then show "PDX (of_nat (n * 0x400000)) = of_nat n" by (simp add: word_unat_eq_iff unat_PDX del: of_nat_mult)
  have "unat (MmGetPteAddress (of_nat (n * 0x400000))) = 4 * (n * 1024) + 0xC0000000" using u(1) by (simp add: unat_MmGetPteAddress del: of_nat_mult)
  then show "MmGetPteAddress (of_nat (n * 0x400000)) = MM_PDE_ADDRESS \<longleftrightarrow> n = 768" by (auto simp: word_unat_eq_iff)
qed

lemma booting_slot:
  assumes b: "boot_tables g n s" and g: "g < 1020" and i: "unat i < 1024"
  shows "vread (entry_at (GlobalPgdir s) i) s = Inr (boot_slot g n (unat i))"
    and "vwrite (entry_at (GlobalPgdir s) i) w s = Inr (set_entry (of_nat g) i w s)"
  using first_slot [OF booting_mapped [OF b g] g _ i, of "GlobalPgdir s"] b i by (simp_all add: boot_tables_def)

lemma kernel_table_step:
  assumes b: "booting g n s" and g: "g < 1020" and n: "513 \<le> n" "n < 1024"
  shows "\<exists>s'. kernel_table (of_nat (n * 0x400000)) s = Inr s' \<and> booting g (Suc n) s' \<and> mm_core s' = mm_core s"
proof (cases "n = 768")
  case True
  have "boot_slot g (Suc n) k = boot_slot g n k" "slot_frame g (Suc n) = slot_frame g n" for k
    using True by (auto simp: boot_slot_def slot_frame_def)
  then have "booting g (Suc n) s" using b True by (auto simp: booting_def boot_tables_def less_Suc_eq)
  then show ?thesis using counter_address [OF n] True by (simp add: kernel_table_def Let_def)
next
  case False
  let ?c = "of_nat (n * 0x400000) :: PVOID"
  define f where "f = slot_frame g n"
  have fb: "g + 4 \<le> f" "f < 0x10000" using slot_frame_bounds [OF g n(1)] n(2) by (simp_all add: f_def)
  have un: "unat (of_nat n :: ULONG) = n" using n unat_of_nat32 [of n] by simp
  have uf: "unat (of_nat f :: frame) = f" using fb unat_of_nat32 [of f] by simp
  have sf: "slot_frame g (Suc n) = Suc f" using False n by (auto simp: f_def slot_frame_def)
  have "[f..<0x10000] = f # [slot_frame g (Suc n)..<0x10000]" unfolding sf using fb by (simp add: upt_conv_Cons)
  then have "klist_rep (pfn_list s) (of_nat f # map of_nat [slot_frame g (Suc n)..<0x10000])" using b by (simp add: booting_def f_def)
  then obtain l where l: "klist_rep l (map of_nat [slot_frame g (Suc n)..<0x10000])" "MmAllocatePFN (MmGetPteAddress ?c) s =
      Inr (STATUS_SUCCESS, Some (of_nat f), (set_pfn_list l s)\<lparr>PteAddress := (PteAddress s)(of_nat f := MmGetPteAddress ?c)\<rparr>)"
    by (rule MmAllocatePFN_Cons)
  define s1 where "s1 = (set_pfn_list l s)\<lparr>PteAddress := (PteAddress s)(of_nat f := MmGetPteAddress ?c)\<rparr>"
  have gd: "GlobalPgdir s1 = GlobalPgdir s" by (simp add: s1_def set_pfn_list_def)
  have bt: "boot_tables g n s" using b by (simp add: booting_def)
  then have bt1: "boot_tables g n s1" by (simp add: boot_tables_def s1_def set_pfn_list_def)
  have ne: "(of_nat f :: frame) \<noteq> of_nat g" "(of_nat f :: frame) \<noteq> of_nat (g + 1)" "(of_nat g :: frame) \<noteq> of_nat (g + 1)" "(768 :: ULONG) \<noteq> of_nat n"
    using fb g n False frame_eq [of f g] frame_eq [of f "g + 1"] frame_eq [of g "g + 1"] un by (auto simp del: of_nat_add of_nat_Suc)
  have e: "MiPFNtoPhysicalAddress (of_nat f) OR PTE_W OR PTE_P = entry_of f"
    by (simp add: MiPFNtoPhysicalAddress_def entry_of_def push_bit_eq_mult or.assoc)
  define s2 where "s2 = set_entry (of_nat g) (of_nat n) (entry_of f) s1"
  have old: "vread (entry_at (GlobalPgdir s1) (of_nat n)) s1 = Inr 0" "vwrite (entry_at (GlobalPgdir s1) (of_nat n)) (entry_of f) s1 = Inr s2"
    using booting_slot [OF bt1 g, of "of_nat n"] un n False by (simp_all add: boot_slot_def s2_def)
  have d2: "page_dir s2 = of_nat g" using booting_dir [OF bt1 g] by (simp add: s2_def)
  have "PhysMem s2 (of_nat g) 768 = entry_of g" "PhysMem s2 (of_nat g) (of_nat n) = entry_of f"
    using bt1 ne(4) n by (simp_all add: s2_def boot_tables_def boot_slot_def)
  then have "translate s2 (MmGetPteAddress ?c) = Some (of_nat f)"
    using entry_of_frame [of g] entry_of_frame [of f] g fb(2) d2 counter_address(1) [OF n] by (simp add: translate_def mmu_def Let_def PteAddress_walk)
  then have zero: "vzero_page (MmGetPteAddress ?c) s2 = Inr (s2\<lparr>PhysMem := (PhysMem s2)(of_nat f := \<lambda>_. 0)\<rparr>)" by (simp add: vzero_page_def)
  define s3 where "s3 = s2\<lparr>PhysMem := (PhysMem s2)(of_nat f := \<lambda>_. 0)\<rparr>"
  have "kernel_table ?c s = Inr s3"
    using counter_address [OF n] False l(2) [folded s1_def] old [unfolded gd] zero e by (simp add: kernel_table_def Let_def s3_def)
  moreover have "boot_tables g (Suc n) s3"
  proof -
    have m: "PhysMem s3 = (PhysMem s)(of_nat g := (PhysMem s (of_nat g))(of_nat n := entry_of f), of_nat f := \<lambda>_. 0)"
      by (simp add: s3_def s2_def s1_def set_pfn_list_def)
    have sl: "boot_slot g (Suc n) k = (if k = n then entry_of f else boot_slot g n k)" for k
      using n False by (auto simp: boot_slot_def f_def)
    have "PhysMem s3 (of_nat g) i = boot_slot g (Suc n) (unat i)" if "unat i < 1024" for i
      using bt that ne(1) un by (auto simp: m sl boot_tables_def word_unat_eq_iff)
    moreover have "PhysMem s3 (of_nat (slot_frame g k)) = (\<lambda>_. 0)" if k: "513 \<le> k" "k < Suc n" "k \<noteq> 768" for k
    proof (cases "k = n")
      case True
      then show ?thesis by (simp add: m f_def)
    next
      case False
      have kb: "g + 4 \<le> slot_frame g k" "slot_frame g k < 0x10000" using slot_frame_bounds [OF g k(1)] k(2) n(2) by simp_all
      have "slot_frame g k \<noteq> f" using slot_frame_inj [OF k(1) _ k(3), of n g] k(2) False by (simp add: f_def)
      then have "(of_nat (slot_frame g k) :: frame) \<noteq> of_nat f" "(of_nat (slot_frame g k) :: frame) \<noteq> of_nat g"
        using kb fb frame_eq [of "slot_frame g k" f] frame_eq [of "slot_frame g k" g] by auto
      then show ?thesis using bt k False by (simp add: m boot_tables_def)
    qed
    moreover have "PhysMem s3 (of_nat (g + 1)) = PhysMem s (of_nat (g + 1))" unfolding m using ne(2,3) by simp
    moreover have "GlobalPgdir s3 = GlobalPgdir s" "Cr3 s3 = Cr3 s" "MMNumberOfPhysicalPages s3 = MMNumberOfPhysicalPages s"
      by (simp_all add: s3_def s2_def s1_def set_pfn_list_def set_entry_def)
    ultimately show ?thesis using bt unfolding boot_tables_def by simp
  qed
  moreover have "pfn_list s3 = l" "RefCount s3 = RefCount s" by (simp_all add: s3_def s2_def s1_def pfn_list_def set_pfn_list_def)
  moreover have "mm_core s3 = mm_core s" by (simp add: s3_def s2_def s1_def mm_core_def set_pfn_list_def set_entry_def)
  ultimately show ?thesis using b l(1) by (intro exI [of _ s3]) (simp add: booting_def)
qed

lemma boot_loop:
  assumes "booting g n s" and "g < 1020" and "513 \<le> n" "n \<le> 1024"
  shows "\<exists>s'. foldE kernel_table (map (\<lambda>k. of_nat (k * 0x400000)) [n..<1024]) s = Inr s' \<and> booting g 1024 s' \<and> mm_core s' = mm_core s"
  using assms
proof (induction "1024 - n" arbitrary: n s)
  case 0
  then show ?case by simp
next
  case (Suc k)
  then have n: "n < 1024" by simp
  obtain s1 where s1: "kernel_table (of_nat (n * 0x400000)) s = Inr s1" "booting g (Suc n) s1" "mm_core s1 = mm_core s"
    using kernel_table_step [OF Suc.prems(1,2,3) n] by blast
  have "[n..<1024] = n # [Suc n..<1024]" using n by (rule upt_conv_Cons)
  moreover have "k = 1024 - Suc n" "513 \<le> Suc n" "Suc n \<le> 1024" using Suc n by simp_all
  ultimately show ?case using Suc.hyps(1) [of "Suc n" s1] s1 Suc.prems(2) by (auto simp del: of_nat_mult)
qed

section \<open>The start\<close>

lemma boot_alloc_aligned:
  assumes "unat (PtrToBootFreemem s) = 0x80000000 + 4096 * k" and "k < 0x10000"
  shows "MiInitBootAlloc kernel_end m PGSIZE s = (PtrToBootFreemem s, s\<lparr>PtrToBootFreemem := PtrToBootFreemem s + m\<rparr>)"
proof -
  have "unat (ROUNDUP (PtrToBootFreemem s) PGSIZE) = (0x80000000 + 4096 * k + 4096 - 1) div 4096 * 4096"
    using assms by (simp add: unat_ROUNDUP)
  also have "\<dots> = 0x80000000 + 4096 * k" by simp
  finally have "ROUNDUP (PtrToBootFreemem s) PGSIZE = PtrToBootFreemem s" using assms(1) by (simp add: word_unat_eq_iff)
  moreover have "PtrToBootFreemem s \<noteq> 0" using assms(1) by auto
  ultimately show ?thesis by (simp add: MiInitBootAlloc_def Let_def)
qed

lemma entry_of_plain:
  "(of_nat (f * 4096) OR PTE_W) OR PTE_P = entry_of f" "(of_nat (f * 4096) OR PTE_W OR PTE_P) AND NOT 0x3FF = of_nat (f * 4096)" "entry_of f \<noteq> 0"
proof -
  show "(of_nat (f * 4096) OR PTE_W) OR PTE_P = entry_of f" by (simp add: entry_of_def or.assoc)
  have p: "of_nat (f * 4096) = (push_bit 12 (of_nat f) :: ULONG)" by (simp add: push_bit_eq_mult)
  have m: "(PTE_W OR PTE_P :: ULONG) = mask 2" "(0x3FF :: ULONG) = mask 10" by (simp_all add: mask_eq_exp_minus_1)
  show "(of_nat (f * 4096) OR PTE_W OR PTE_P) AND NOT 0x3FF = of_nat (f * 4096)"
    unfolding p or.assoc m by (rule bit_word_eqI) (auto simp: bit_simps)
  have "bit (entry_of f) 0" unfolding entry_of_def by (simp add: bit_simps)
  then show "entry_of f \<noteq> 0" by auto
qed

lemma system_ptes_boot:
  assumes "unat (PtrToBootFreemem s) = 0x80000000 + 4096 * k" and "k < 0x10000" and "2048 \<le> length buffer"
  shows "\<exists>b. MmInitializeSystemPtes kernel_end buffer s = Inr (s\<lparr>PtrToBootFreemem := PtrToBootFreemem s + 8200, MiSystemPteBitmap := b\<rparr>) \<and>
    bm_wf b \<and> BitCount b = 0x10000 \<and> (\<forall>j < 0x10000. \<not> bm_bit b j)"
proof -
  have sz: "BmBitmapBufferSize (MMSYSPTE_SIZE div PGSIZE) = 8200"
    by (simp add: BmBitmapBufferSize_def BmByteCount_def BmElementCount_def)
  have "unat (MMSYSPTE_SIZE div PGSIZE) \<le> 32 * length buffer" using assms(3) by simp
  then obtain b where b: "BmBitmapCreateInBuffer (MMSYSPTE_SIZE div PGSIZE) buffer 8200 = Inr b" "bm_wf b" "BitCount b = MMSYSPTE_SIZE div PGSIZE"
      "\<forall>j < unat (MMSYSPTE_SIZE div PGSIZE). \<not> bm_bit b j"
    using BmBitmapCreateInBuffer_correct [of "MMSYSPTE_SIZE div PGSIZE" buffer 8200] sz by auto
  then show ?thesis
    using sz boot_alloc_aligned [OF assms(1,2), of kernel_end 8200]
    by (intro exI [of _ b]) (simp add: MmInitializeSystemPtes_def Let_def KeInitializeSpinLock_def)
qed

lemma boot_core_created [simp]:
  "boot_core (created_gdt TSS GDT_address s) = created_gdt TSS GDT_address (boot_core s)"
  by (simp add: boot_core_def mm_core_def created_gdt_def)

lemma created_gdt_sel [simp]:
  "PhysMem (created_gdt T A s) = PhysMem s" "Cr3 (created_gdt T A s) = Cr3 s" "GlobalCr3 (created_gdt T A s) = GlobalCr3 s"
  "GlobalPgdir (created_gdt T A s) = GlobalPgdir s" "MMNumberOfPhysicalPages (created_gdt T A s) = MMNumberOfPhysicalPages s"
  "RefCount (created_gdt T A s) = RefCount s" "PfnLink (created_gdt T A s) = PfnLink s" "PfnFreeList (created_gdt T A s) = PfnFreeList s" "pfn_list (created_gdt T A s) = pfn_list s" "PtrToBootFreemem (created_gdt T A s) = PtrToBootFreemem s"
  "MiSystemPteBitmap (created_gdt T A s) = MiSystemPteBitmap s" "page_dir (created_gdt T A s) = page_dir s"
  by (simp_all add: created_gdt_def pfn_list_def page_dir_def)

lemma boot_prefix:
  assumes free: "processor_free s" and s: "PtrToBootFreemem s = 0" and k: "0x80100000 \<le> unat kernel_end" "unat kernel_end \<le> 0x802FB000" and buf: "2048 \<le> length buffer"
  shows "\<exists>g s'. MiBootInitMemoryLayout run (Suc fuel) TSS GDT_address kernel_end buffer s = foldE kernel_table (map (\<lambda>k. of_nat (k * 0x400000)) [513..<1024]) s' \<and> booting g 513 s' \<and>
    512 \<le> g \<and> g < 1020 \<and> unat (PtrToBootFreemem s') = 0x80000000 + 4096 * (g + 4) + 8 \<and> bm_wf (MiSystemPteBitmap s') \<and>
    BitCount (MiSystemPteBitmap s') = 0x10000 \<and> (\<forall>j < 0x10000. \<not> bm_bit (MiSystemPteBitmap s') j) \<and> boot_core s' = created_gdt TSS GDT_address (boot_core s)"
proof -
  define h where "h = (unat kernel_end + 4095) div 4096 - 0x80000"
  have h: "256 \<le> h" "h \<le> 763" "(unat kernel_end + 4095) div 4096 = 0x80000 + h" using k by (simp_all add: h_def)
  define g where "g = h + 256"
  define p1 where "p1 = ROUNDUP kernel_end PGSIZE"
  define Dir where "Dir = p1 + 0x100000"
  have "unat p1 = (unat kernel_end + 4095) div 4096 * 4096" using k unat_ROUNDUP [of PGSIZE kernel_end] by (simp add: p1_def)
  then have p1: "unat p1 = 0x80000000 + 4096 * h" by (simp only: h(3)) simp
  then have Dir: "unat Dir = 0x80000000 + 4096 * g" using h(2) by (simp add: Dir_def g_def unat_add_no_wrap)
  have g: "512 \<le> g" "g < 1020" using h by (simp_all add: g_def)
  have Table: "unat (Dir + PGSIZE) = 0x80000000 + 4096 * (g + 1)" and Next: "unat (Dir + PGSIZE + PGSIZE) = 0x80000000 + 4096 * (g + 2)"
    using Dir g by (simp_all add: unat_add_no_wrap)
  define s5 where "s5 = s\<lparr>PhysMem := (PhysMem s)(of_nat g := \<lambda>_. 0, of_nat (g + 1) := \<lambda>_. 0), MaxPA := MAXPHYMEM, MMNumberOfPhysicalPages := 0x10000,
    basemem := IOPHYSMEM, GlobalPgdir := Dir, PtrToBootFreemem := Dir + PGSIZE + PGSIZE\<rparr>"
  define s7 where "s7 = with_table (of_nat (g + 1)) 1024 (PTE_P OR PTE_W) (set_entry (of_nat g) 512 (entry_of (g + 1)) s5)"
  have ne: "(of_nat g :: frame) \<noteq> of_nat (g + 1)" using frame_eq [of g "g + 1"] g by simp
  have "unat (PtrToBootFreemem s7) = 0x80000000 + 4096 * (g + 2)" using Next by (simp add: s7_def s5_def with_table_def set_entry_def)
  then obtain b where b: "MmInitializeSystemPtes kernel_end buffer s7 = Inr (s7\<lparr>PtrToBootFreemem := PtrToBootFreemem s7 + 8200, MiSystemPteBitmap := b\<rparr>)"
      "bm_wf b" "BitCount b = 0x10000" "\<forall>j < 0x10000. \<not> bm_bit b j"
    using system_ptes_boot [of s7 "g + 2" buffer kernel_end] g buf by auto
  define s8 where "s8 = s7\<lparr>PtrToBootFreemem := PtrToBootFreemem s7 + 8200, MiSystemPteBitmap := b\<rparr>"
  have ptr: "unat (PtrToBootFreemem s8) = 0x80000000 + (4096 * (g + 4) + 8)"
  proof -
    have "PtrToBootFreemem s8 = (Dir + PGSIZE + PGSIZE) + 8200" by (simp add: s8_def s7_def s5_def with_table_def set_entry_def)
    then show ?thesis using unat_add_no_wrap [of "Dir + PGSIZE + PGSIZE" 8200] Next g by simp
  qed
  obtain l r where lr: "MmInitPFNDataBase s8 = Inr (set_pfn_list l (s8\<lparr>RefCount := r\<rparr>))" "klist_rep l (map of_nat [g + 4..<0x10000])"
      "\<And>f. g + 4 \<le> unat f \<Longrightarrow> unat f < 0x10000 \<Longrightarrow> r f = 0"
    using frame_database [OF _ _ _ ptr] g by (auto simp: s8_def s7_def s5_def with_table_def set_entry_def)
  define s9 where "s9 = set_pfn_list l (s8\<lparr>RefCount := r\<rparr>)"
  have m9: "PhysMem s9 (of_nat g) = (\<lambda>_. 0)(512 := entry_of (g + 1))" "unat x < 1024 \<Longrightarrow> PhysMem s9 (of_nat (g + 1)) x = entry_of (unat x)" for x
    using ne by (simp_all add: s9_def s8_def s7_def s5_def with_table_def set_entry_def entry_of_def del: of_nat_add of_nat_Suc)
  have dirs: "PDX KERNBASE = 512" "PDX MMPAGETABLEAREA_START = 768" by (simp_all add: PDX_def)
  define s10 where "s10 = (set_entry (of_nat g) 0 (entry_of (g + 1)) s9)\<lparr>GlobalCr3 := of_nat (4096 * g), Cr3 := of_nat (4096 * g)\<rparr>"
  define s11 where "s11 = created_gdt TSS GDT_address s10"
  have "processor_free s10 = processor_free s"
    by (simp add: processor_free_def hal_ok_def s10_def s9_def s8_def s7_def s5_def with_table_def set_entry_def set_pfn_list_def)
  then have gdt: "KiCreateCurrentGDT run (Suc fuel) TSS GDT_address s10 = Inr s11" using created_gdt_created [of s10 run fuel] free by (simp add: s11_def)
  define s12 where "s12 = set_entry (of_nat g) 0 0 s11"
  define s14 where "s14 = set_entry (of_nat g) 768 (entry_of g) s12"
  have st: "GlobalPgdir s9 = Dir" "MMNumberOfPhysicalPages s9 = 0x10000" "PtrToBootFreemem s9 = PtrToBootFreemem s8" "MiSystemPteBitmap s9 = b"
    by (simp_all add: s9_def s8_def s7_def s5_def with_table_def set_entry_def set_pfn_list_def)
  have f11: "first_mapped g s11" "first_mapped g s12"
  proof -
    have "unat (of_nat (4096 * g) :: ULONG) = 4096 * g" "unat (of_nat g :: ULONG) = g" using g(2) unat_of_nat32 [of "4096 * g"] unat_of_nat32 [of g] by simp_all
    then have "page_dir s11 = of_nat g" "page_dir s12 = of_nat g"
      by (simp_all add: s12_def s11_def s10_def page_dir_def PPN_def word_unat_eq_iff unat_drop_bit)
    then show "first_mapped g s11" "first_mapped g s12" using m9 ne by (simp_all add: first_mapped_def s12_def s11_def s10_def del: of_nat_add of_nat_Suc)
  qed
  have start: "MiBootInitMemoryLayout run (Suc fuel) TSS GDT_address kernel_end buffer s = foldE kernel_table (map (\<lambda>k. of_nat (k * 0x400000)) [513..<1024]) s14"
  proof -
    let ?t0 = "x86CalcRam s"
    let ?t1 = "?t0\<lparr>PtrToBootFreemem := Dir\<rparr>"
    let ?t2 = "?t1\<lparr>PtrToBootFreemem := Dir + PGSIZE\<rparr>"
    let ?t3 = "?t2\<lparr>GlobalPgdir := Dir\<rparr>"
    let ?t4 = "?t3\<lparr>PtrToBootFreemem := Dir + PGSIZE + PGSIZE\<rparr>"
    have a1: "MiInitBootAlloc kernel_end (sizeof_MMPFN * MMNumberOfPhysicalPages ?t0) PGSIZE ?t0 = (p1, ?t1)"
      using s by (simp add: MiInitBootAlloc_def x86CalcRam_def p1_def Dir_def Let_def)
    have a2: "MiInitBootAlloc kernel_end PGSIZE PGSIZE ?t1 = (Dir, ?t2)" using boot_alloc_aligned [of ?t1 g] Dir g by simp
    have a3: "MiInitBootAlloc kernel_end PGSIZE PGSIZE ?t3 = (Dir + PGSIZE, ?t4)" using boot_alloc_aligned [of ?t3 "g + 1"] Table g by simp
    have z: "boot_zero_page (Dir + PGSIZE) (boot_zero_page Dir ?t4) = s5"
    proof -
      have "PPN (Dir - KERNBASE) = of_nat g" "PPN (Dir + PGSIZE - KERNBASE) = of_nat (g + 1)"
        using boot_entry(1) [OF Dir _ _, of 0] boot_entry(1) [OF Table _ _, of 0] g by (simp_all add: entry_at_def)
      then show ?thesis by (simp add: boot_zero_page_def s5_def x86CalcRam_def)
    qed
    have va: "MiBootVA2PA (Dir + PGSIZE) = Inr (of_nat ((g + 1) * 4096))" "MiBootVA2PA Dir = Inr (of_nat (4096 * g))"
    proof -
      have "unat (of_nat ((g + 1) * 4096) :: ULONG) = (g + 1) * 4096" "unat (of_nat (4096 * g) :: ULONG) = 4096 * g"
        using g(2) unat_of_nat32 [of "(g + 1) * 4096"] unat_of_nat32 [of "4096 * g"] by simp_all
      moreover have "\<not> Dir + PGSIZE < KERNBASE" "\<not> Dir < KERNBASE" using Dir Table by (simp_all add: word_less_nat_alt)
      ultimately show "MiBootVA2PA (Dir + PGSIZE) = Inr (of_nat ((g + 1) * 4096))" "MiBootVA2PA Dir = Inr (of_nat (4096 * g))"
        using boot_address(1) [OF Table] boot_address(1) [OF Dir] g(2) by (simp_all add: MiBootVA2PA_def word_unat_eq_iff mult.commute)
    qed
    have w: "boot_write (entry_at Dir (PDX KERNBASE)) (entry_of (g + 1)) s5 = set_entry (of_nat g) 512 (entry_of (g + 1)) s5"
      using boot_entry_access(1) [OF Dir, of 512] g by (simp add: dirs)
    have map: "MiBootMapMemory Dir KERNBASE PTSIZE 0 (PTE_P OR PTE_W) (set_entry (of_nat g) 512 (entry_of (g + 1)) s5) = Inr s7"
    proof -
      have t: "unat (Dir + PGSIZE) = 0x80000000 + (g + 1) * 4096" using Table by simp
      have "1024 \<le> MMNumberOfPhysicalPages (set_entry (of_nat g) 512 (entry_of (g + 1)) s5)" by (simp add: s5_def)
      moreover have "PhysMem (set_entry (of_nat g) 512 (entry_of (g + 1)) s5) (of_nat (4096 * g div 4096)) 512 = of_nat ((g + 1) * 4096) OR (PTE_W OR PTE_P)"
        using entry_of_plain(1) [of "g + 1"] by (simp add: or.assoc)
      ultimately show ?thesis
        using map_first_table [OF Dir _ _ t, of "set_entry (of_nat g) 512 (entry_of (g + 1)) s5" "PTE_W OR PTE_P" "PTE_P OR PTE_W"]
          entry_of_plain [of "g + 1"] g(2) unfolding s7_def or.assoc by simp
    qed
    have c: "boot_write (entry_at Dir 0) (boot_read (entry_at Dir (PDX KERNBASE)) s9) s9 = set_entry (of_nat g) 0 (entry_of (g + 1)) s9"
      using boot_entry_access(1) [OF Dir, of 0 "entry_of (g + 1)" s9] boot_entry_access(2) [OF Dir, of 512 s9] g m9(1) by (simp add: dirs)
    have v: "vwrite (entry_at Dir 0) 0 s11 = Inr s12" "vwrite (entry_at Dir (PDX MMPAGETABLEAREA_START)) (entry_of g) s12 = Inr s14"
      using first_slot(2) [OF f11(1) g(2) Dir, of 0 0] first_slot(2) [OF f11(2) g(2) Dir, of 768 "entry_of g"] by (simp_all add: s12_def s14_def dirs)
    have cr: "s12\<lparr>Cr3 := GlobalCr3 s12\<rparr> = s12" by (simp add: s12_def s11_def s10_def set_entry_def)
    have fe: "of_nat ((g + 1) * 4096) OR PTE_W OR PTE_P = entry_of (g + 1)" "of_nat (4096 * g) OR PTE_W OR PTE_P = entry_of g"
      by (simp_all add: entry_of_def mult.commute)
    show ?thesis
      unfolding MiBootInitMemoryLayout_def a1 Let_def prod.case a2 a3 z va bind_Inr fe w map b(1) [folded s8_def] MiInitializeUserPtesLock_def KeInitializeSpinLock_def lr(1) [folded s9_def] c s10_def [symmetric] gdt
        bind_Inr v(1) cr v(2) ..
  qed
  have "booting g 513 s14"
  proof -
    have m: "PhysMem s14 = (PhysMem s9)(of_nat g := (PhysMem s9 (of_nat g))(0 := 0, 768 := entry_of g))" by (simp add: s14_def s12_def s11_def s10_def)
    have "PhysMem s14 (of_nat g) i = boot_slot g 513 (unat i)" if "unat i < 1024" for i
    proof -
      have "i = 512 \<longleftrightarrow> unat i = 512" "i = 768 \<longleftrightarrow> unat i = 768" by (simp_all add: word_unat_eq_iff)
      then show ?thesis by (simp add: m m9(1) boot_slot_def)
    qed
    moreover have "PhysMem s14 (of_nat (g + 1)) = PhysMem s9 (of_nat (g + 1))" unfolding m using ne by simp
    moreover have "GlobalPgdir s14 = Dir" "Cr3 s14 = of_nat (4096 * g)" "MMNumberOfPhysicalPages s14 = 0x10000" "RefCount s14 = r" "pfn_list s14 = l"
      using st by (simp_all add: s14_def s12_def s11_def s10_def s9_def set_entry_def pfn_list_def set_pfn_list_def)
    moreover have "slot_frame g 513 = g + 4" "\<forall>k. 513 \<le> k \<and> k < 513 \<and> k \<noteq> 768 \<longrightarrow> PhysMem s14 (of_nat (slot_frame g k)) = (\<lambda>_. 0)"
      by (auto simp: slot_frame_def)
    ultimately show ?thesis using m9(2) Dir lr(2,3) unfolding booting_def boot_tables_def by (intro conjI) simp_all
  qed
  moreover have "PtrToBootFreemem s14 = PtrToBootFreemem s8" "MiSystemPteBitmap s14 = b" using st by (simp_all add: s14_def s12_def s11_def s10_def set_entry_def)
  moreover have "boot_core s14 = created_gdt TSS GDT_address (boot_core s)"
    by (simp add: s14_def s12_def s11_def created_gdt_def s10_def s9_def s8_def s7_def s5_def boot_core_def mm_core_def with_table_def set_entry_def set_pfn_list_def)
  ultimately show ?thesis using start b(2-4) g ptr by (intro exI [of _ g] exI [of _ s14]) simp
qed

section \<open>The address space after the boot\<close>

definition slot_target :: "nat \<Rightarrow> nat \<Rightarrow> nat" where
  "slot_target g k = (if k = 512 then g + 1 else if k = 768 then g else slot_frame g k)"

lemma boot_slot_valid:
  assumes "g < 1020" and "k < 1024"
  shows "Valid (boot_slot g 1024 k) \<longleftrightarrow> 512 \<le> k"
    and "512 \<le> k \<Longrightarrow> PageFrameNumber (boot_slot g 1024 k) = of_nat (slot_target g k)"
proof -
  have "slot_frame g k < 0x100000" using assms by (auto simp: slot_frame_def)
  then have e: "Valid (entry_of (slot_frame g k))" "PageFrameNumber (entry_of (slot_frame g k)) = of_nat (slot_frame g k)" by (rule entry_of_frame)+
  show "Valid (boot_slot g 1024 k) \<longleftrightarrow> 512 \<le> k" using e entry_of_frame(1) [of "g + 1"] entry_of_frame(1) [of g] assms Valid_0 by (simp add: boot_slot_def)
  show "512 \<le> k \<Longrightarrow> PageFrameNumber (boot_slot g 1024 k) = of_nat (slot_target g k)"
    using e entry_of_frame(2) [of "g + 1"] entry_of_frame(2) [of g] assms by (auto simp: boot_slot_def slot_target_def simp del: of_nat_add)
qed

lemma slot_target_inj:
  assumes "512 \<le> i" "512 \<le> j" and "slot_target g i = slot_target g j"
  shows "i = j"
  using assms by (auto simp: slot_target_def slot_frame_def split: if_splits)

lemma slot_target_less: "g < 1020 \<Longrightarrow> k < 1024 \<Longrightarrow> slot_target g k < 2 ^ 32"
  by (auto simp: slot_target_def slot_frame_def)

lemma booted:
  assumes b: "booting g 1024 s" and g: "g < 1020"
  shows "pde s va = boot_slot g 1024 (unat va div 0x400000)" and "tables_ok s" and "free_frames s (map of_nat [g + 514..<0x10000])"
    and "0x80400000 \<le> unat va \<Longrightarrow> PDX va \<noteq> 768 \<Longrightarrow> pte s va = 0"
proof -
  have t: "boot_tables g 1024 s" using b by (simp add: booting_def)
  have dir: "page_dir s = of_nat g" by (rule booting_dir [OF t g])
  have slot: "PhysMem s (of_nat g) i = boot_slot g 1024 (unat i)" if "unat i < 1024" for i using t that by (simp add: boot_tables_def)
  show p: "pde s va = boot_slot g 1024 (unat va div 0x400000)" for va using slot [of "PDX va"] PDX_less [of va] by (simp add: pde_def dir unat_PDX)
  have frame: "PageFrameNumber (PhysMem s (of_nat g) i) = of_nat (slot_target g (unat i))" if "unat i < 1024" "512 \<le> unat i" for i
    using boot_slot_valid(2) [OF g that] slot [OF that(1)] by (simp add: slot_target_def)
  show "tables_ok s"
  proof -
    have "unat (768 :: ULONG) < 1024" by simp
    then have "Valid (PhysMem s (of_nat g) 768)" "PageFrameNumber (PhysMem s (of_nat g) 768) = of_nat g"
      using slot [of 768] frame [of 768] boot_slot_valid(1) [OF g, of 768] by (simp_all add: slot_target_def)
    moreover have "PageFrameNumber (PhysMem s (of_nat g) i) \<noteq> PageFrameNumber (PhysMem s (of_nat g) j)"
      if ij: "unat i < 1024" "unat j < 1024" "i \<noteq> j" "Valid (PhysMem s (of_nat g) i)" "Valid (PhysMem s (of_nat g) j)" for i j
    proof -
      have k: "512 \<le> unat i" "512 \<le> unat j" using boot_slot_valid(1) [OF g] ij slot by simp_all
      have "unat i \<noteq> unat j" using ij(3) by (simp add: word_unat_eq_iff)
      then have "slot_target g (unat i) \<noteq> slot_target g (unat j)" using slot_target_inj [OF k] ij by blast
      then show ?thesis using frame k ij(1,2) slot_target_less [OF g, of "unat i"] slot_target_less [OF g, of "unat j"]
        by (simp add: frame_eq)
    qed
    ultimately show ?thesis by (simp add: tables_ok_def self_map_def dir)
  qed
  show "free_frames s (map of_nat [g + 514..<0x10000])"
  proof -
    have "slot_frame g 1024 = g + 514" by (simp add: slot_frame_def)
    then have "klist_rep (pfn_list s) (map of_nat [g + 514..<0x10000])" using b by (simp add: booting_def del: of_nat_add)
    moreover have "of_nat k \<noteq> (0 :: frame)" "of_nat k < MMNumberOfPhysicalPages s" "RefCount s (of_nat k) = 0" if k: "g + 514 \<le> k" "k < 0x10000" for k
    proof -
      have u: "unat (of_nat k :: frame) = k" using k(2) by (intro unat_of_nat32) simp
      show "of_nat k \<noteq> (0 :: frame)" "of_nat k < MMNumberOfPhysicalPages s" using u k t by (auto simp: boot_tables_def word_less_nat_alt)
      show "RefCount s (of_nat k) = 0" using b u k by (simp add: booting_def)
    qed
    ultimately show ?thesis using t by (auto simp: free_frames_def boot_tables_def)
  qed
  show "pte s va = 0" if va: "0x80400000 \<le> unat va" "PDX va \<noteq> 768"
  proof -
    have "unat va < 2 ^ 32" using unat_ULONG_less [of va] .
    then have k: "513 \<le> unat (PDX va)" "unat (PDX va) < 1024" "unat (PDX va) \<noteq> 768" using va by (auto simp: unat_PDX word_unat_eq_iff)
    then have "PhysMem s (of_nat (slot_frame g (unat (PDX va)))) = (\<lambda>_. 0)" using t by (simp add: boot_tables_def)
    moreover have "PageFrameNumber (pde s va) = of_nat (slot_frame g (unat (PDX va)))"
      using frame [of "PDX va"] k by (simp add: pde_def dir slot_target_def)
    ultimately show ?thesis by (simp add: pte_def)
  qed
qed

lemma boot_completes:
  assumes free: "processor_free s" and s: "PtrToBootFreemem s = 0" and k: "0x80100000 \<le> unat kernel_end" "unat kernel_end \<le> 0x802FB000" and buf: "2048 \<le> length buffer"
  shows "\<exists>g s'. MiBootInitMemoryLayout run (Suc fuel) TSS GDT_address kernel_end buffer s = Inr s' \<and> booting g 1024 s' \<and> 512 \<le> g \<and> g < 1020 \<and>
    unat (PtrToBootFreemem s') = 0x80000000 + 4096 * (g + 4) + 8 \<and> bm_wf (MiSystemPteBitmap s') \<and> BitCount (MiSystemPteBitmap s') = 0x10000 \<and>
    (\<forall>j < 0x10000. \<not> bm_bit (MiSystemPteBitmap s') j) \<and> boot_core s' = created_gdt TSS GDT_address (boot_core s)"
proof -
  obtain g s1 where s1: "MiBootInitMemoryLayout run (Suc fuel) TSS GDT_address kernel_end buffer s = foldE kernel_table (map (\<lambda>k. of_nat (k * 0x400000)) [513..<1024]) s1" "booting g 513 s1"
      "512 \<le> g" "g < 1020" "unat (PtrToBootFreemem s1) = 0x80000000 + 4096 * (g + 4) + 8" "bm_wf (MiSystemPteBitmap s1)"
      "BitCount (MiSystemPteBitmap s1) = 0x10000" "\<forall>j < 0x10000. \<not> bm_bit (MiSystemPteBitmap s1) j" "boot_core s1 = created_gdt TSS GDT_address (boot_core s)"
    using boot_prefix [OF assms, of run fuel TSS GDT_address] by blast
  obtain s' where s': "foldE kernel_table (map (\<lambda>k. of_nat (k * 0x400000)) [513..<1024]) s1 = Inr s'" "booting g 1024 s'" "mm_core s' = mm_core s1"
    using boot_loop [OF s1(2) s1(4)] by auto
  have "PtrToBootFreemem (mm_core u) = PtrToBootFreemem u" "MiSystemPteBitmap (mm_core u) = MiSystemPteBitmap u" for u :: "'a mm_state_scheme"
    by (simp_all add: mm_core_def)
  then have "PtrToBootFreemem s' = PtrToBootFreemem s1" "MiSystemPteBitmap s' = MiSystemPteBitmap s1" using s'(3) by metis+
  moreover have "boot_core s' = boot_core s1" using s'(3) by (simp add: boot_core_def)
  ultimately show ?thesis using s1 s'(1,2) by (intro exI [of _ g] exI [of _ s']) simp
qed

lemma boot_core_gdt:
  assumes "boot_core s' = created_gdt TSS GDT_address (boot_core s)"
  shows "Gdtr s' = (47, GDT_address)" and "CodeSelector s' = GD_KT" and "DataSelector s' = GD_KD" and "TaskRegister s' = GD_TSS"
    and "ke_state.truncate s' = ke_state.truncate s"
proof -
  have "Gdtr (boot_core u) = Gdtr u" "CodeSelector (boot_core u) = CodeSelector u" "DataSelector (boot_core u) = DataSelector u"
    "TaskRegister (boot_core u) = TaskRegister u" "ke_state.truncate (boot_core u) = ke_state.truncate u" for u :: "'a mm_state_scheme"
    by (simp_all add: boot_core_def mm_core_def ke_state.truncate_def)
  note k = this [of s'] this [of s]
  have "ke_state.truncate (created_gdt TSS GDT_address u) = ke_state.truncate u" for u :: "'a mm_state_scheme" by (simp add: created_gdt_def ke_state.truncate_def)
  then show "ke_state.truncate s' = ke_state.truncate s" using k(5,10) assms by metis
  show "Gdtr s' = (47, GDT_address)" "CodeSelector s' = GD_KT" "DataSelector s' = GD_KD" "TaskRegister s' = GD_TSS"
    using k(1-4) assms by (simp_all add: created_gdt_def)
qed

text \<open>C6. For every end of the kernel image between 1 MB and 3052 KB, when no boot memory has been handed out, the processor's lock is free, the interrupt mask agrees with the
  IRQL and no deferred call is queued below \<open>DISPATCH_LEVEL\<close>, all of which \<open>KeInitPhase0\<close> establishes (C5), \<open>MiBootInitMemoryLayout\<close> completes and establishes what the rest of the memory
  manager relies on: the directory contains itself at slot 768 and no two of its tables share a frame, so that the tables are reached at \<open>MmGetPteAddress\<close>;
  every address of the kernel space has a page table and none of the user space has one; the first four megabytes lie at \<open>KERNBASE\<close> and nothing else is
  mapped but the tables; the free list is proper and holds over 64000 frames; the bitmap of the system PTEs has 65536 bits, all of them clear; the processor has
  the kernel's descriptor table, selectors and task segment. Locks, IRQL, interrupt mask and deferred calls are as before.\<close>

theorem boot_layout:
  assumes "processor_free s" and "PtrToBootFreemem s = 0" and "0x80100000 \<le> unat kernel_end" "unat kernel_end \<le> 0x802FB000" and "2048 \<le> length buffer"
  shows "\<exists>s' fs. MiBootInitMemoryLayout run (Suc fuel) TSS GDT_address kernel_end buffer s = Inr s' \<and> tables_ok s' \<and> free_frames s' fs \<and> 64000 \<le> length fs \<and>
    (\<forall>va. Valid (pde s' va) \<longleftrightarrow> KERNBASE \<le> va) \<and>
    (\<forall>q < 0x400000. translate s' (of_nat (0x80000000 + q)) = Some (of_nat (q div 4096))) \<and>
    (\<forall>va. 0x80400000 \<le> va \<and> PDX va \<noteq> PDX MMPAGETABLEAREA_START \<longrightarrow> translate s' va = None) \<and>
    bm_wf (MiSystemPteBitmap s') \<and> BitCount (MiSystemPteBitmap s') = 0x10000 \<and> (\<forall>j < 0x10000. \<not> bm_bit (MiSystemPteBitmap s') j) \<and>
    Gdtr s' = (47, GDT_address) \<and> CodeSelector s' = GD_KT \<and> DataSelector s' = GD_KD \<and> TaskRegister s' = GD_TSS \<and>
    ke_state.truncate s' = ke_state.truncate s"
proof -
  obtain g s' where s': "MiBootInitMemoryLayout run (Suc fuel) TSS GDT_address kernel_end buffer s = Inr s'" "booting g 1024 s'" "512 \<le> g" "g < 1020"
      "bm_wf (MiSystemPteBitmap s')" "BitCount (MiSystemPteBitmap s') = 0x10000" "\<forall>j < 0x10000. \<not> bm_bit (MiSystemPteBitmap s') j"
      "boot_core s' = created_gdt TSS GDT_address (boot_core s)"
    using boot_completes [OF assms, of run fuel TSS GDT_address] by blast
  note b = booted [OF s'(2,4)]
  have "Valid (pde s' va) \<longleftrightarrow> KERNBASE \<le> va" for va
  proof -
    have "unat va < 2 ^ 32" using unat_ULONG_less [of va] .
    then have "unat va div 0x400000 < 1024" by (simp add: less_mult_imp_div_less)
    then show ?thesis using b(1) [of va] boot_slot_valid(1) [OF s'(4), of "unat va div 0x400000"] by (auto simp: word_le_nat_alt)
  qed
  moreover have "translate s' (of_nat (0x80000000 + q)) = Some (of_nat (q div 4096))" if q: "q < 0x400000" for q
  proof -
    have "unat (of_nat (0x80000000 + q) :: PVOID) = 0x80000000 + q" using q by (intro unat_of_nat32) simp
    moreover have "boot_tables g 1024 s'" using s'(2) by (simp add: booting_def)
    ultimately show ?thesis using first_translate [OF booting_mapped [OF _ s'(4)] s'(4) _ q] by blast
  qed
  moreover have "translate s' va = None" if "0x80400000 \<le> va" "PDX va \<noteq> PDX MMPAGETABLEAREA_START" for va
  proof -
    have "PDX MMPAGETABLEAREA_START = 768" by (simp add: PDX_def)
    then have "pte s' va = 0" using b(4) [of va] that by (simp add: word_le_nat_alt)
    then show ?thesis by (simp add: translate_eq Valid_0)
  qed
  moreover have "64000 \<le> length (map of_nat [g + 514..<0x10000] :: frame list)" using s'(4) by simp
  moreover note boot_core_gdt [OF s'(8)]
  ultimately show ?thesis using s' b(2,3) by (intro exI [of _ s'] exI [of _ "map of_nat [g + 514..<0x10000]"]) simp
qed

text \<open>The frame database counts as free every page from the one that holds the next free byte of the boot memory, without rounding it up. The bitmap of the
  system PTEs, the last boot allocation, takes 8200 bytes, so its last 8 lie in such a page, and that page becomes the page table of \<open>KERNBASE + 4 MB\<close>.\<close>

theorem boot_frees_bitmap_tail:
  assumes "processor_free s" and "PtrToBootFreemem s = 0" and "0x80100000 \<le> unat kernel_end" "unat kernel_end \<le> 0x802FB000" and "2048 \<le> length buffer"
  shows "\<exists>s'. MiBootInitMemoryLayout run (Suc fuel) TSS GDT_address kernel_end buffer s = Inr s' \<and>
    PageFrameNumber (pde s' (KERNBASE + PTSIZE)) = PPN (PtrToBootFreemem s' - 1 - KERNBASE)"
proof -
  obtain g s' where s': "MiBootInitMemoryLayout run (Suc fuel) TSS GDT_address kernel_end buffer s = Inr s'" "booting g 1024 s'" "512 \<le> g" "g < 1020"
      "unat (PtrToBootFreemem s') = 0x80000000 + 4096 * (g + 4) + 8"
    using boot_completes [OF assms, of run fuel TSS GDT_address] by blast
  have e: "unat (PtrToBootFreemem s' - 1) = 0x80000000 + (4096 * (g + 4) + 7)" using s'(5) by (subst unat_sub) (simp_all add: word_le_nat_alt)
  have "unat (PPN (PtrToBootFreemem s' - 1 - KERNBASE)) = g + 4" using s'(4) by (subst boot_address(2) [OF e]) simp_all
  moreover have "unat (of_nat (g + 4) :: frame) = g + 4" using s'(4) by (intro unat_of_nat32) simp
  moreover have "PageFrameNumber (pde s' (KERNBASE + PTSIZE)) = of_nat (g + 4)"
    using booted(1) [OF s'(2,4), of "KERNBASE + PTSIZE"] boot_slot_valid(2) [OF s'(4), of 513] by (simp add: slot_target_def slot_frame_def)
  ultimately show ?thesis using s'(1) by (intro exI [of _ s']) (simp add: word_unat_eq_iff)
qed

definition reset_mm :: mm_state where
  "reset_mm = small_mm\<lparr>PtrToBootFreemem := 0\<rparr>"

theorem boot_layout_witness:
  "\<exists>s' fs. MiBootInitMemoryLayout (\<lambda>_ _ _ _ _. Inr) 1 0x80106000 0x80105F00 0x80120000 (replicate 2048 0) reset_mm = Inr s' \<and> tables_ok s' \<and> free_frames s' fs \<and> 64000 \<le> length fs \<and>
     Gdtr s' = (47, 0x80105F00)"
proof -
  have "processor_free reset_mm"
    by (simp add: processor_free_def hal_ok_def reset_mm_def small_mm_def ke_state.extend_def mm_state.fields_def gdt_state.extend_def reset_gdt_def gdt_state.fields_def boot_state_def LIST_EMPTY_def LIST_INIT_def)
  from boot_layout [OF this, of "0x80120000" "replicate 2048 0" "\<lambda>_ _ _ _ _. Inr" 0 "0x80106000" "0x80105F00"] show ?thesis by (force simp: reset_mm_def)
qed

end
