(* ===== verification/MmStart.thy ===== *)
theory MmStart
  imports MmBoot Pool
begin

text \<open>
  \<open>MmInitPhase0\<close> of \<open>mm/mm.c\<close>: the layout of memory at boot, then the kernel pools. Its theorem composes the two: what the layout leaves behind is what the pools need,
  and what the pools leave behind is what allocation from them assumes.
\<close>

definition MmInitPhase0 ::
  "'a pool_state_scheme deferred_routines \<Rightarrow> nat \<Rightarrow> ULONG \<Rightarrow> ULONG \<Rightarrow> ULONG \<Rightarrow> ULONG list \<Rightarrow> 'a pool_state_scheme \<Rightarrow> fault + 'a pool_state_scheme" where
  "MmInitPhase0 run fuel TSS GDT_address kernel_end buffer s = bind (MiBootInitMemoryLayout run fuel TSS GDT_address kernel_end buffer s) (MmInitializeAllPools run fuel)"

lemma Pools_update_ok [simp]:
  "tables_ok (s\<lparr>Pools := ps\<rparr>) = tables_ok s" "free_frames (s\<lparr>Pools := ps\<rparr>) fs = free_frames s fs"
  "pde (s\<lparr>Pools := ps\<rparr>) = pde s" "pte (s\<lparr>Pools := ps\<rparr>) = pte s"
  by (simp_all add: fun_eq_iff tables_ok_def self_map_def free_frames_def pfn_list_def page_dir_def pde_def pte_def)

text \<open>A part of the kernel space behind the first four megabytes is mapped by tables of its own, all of them empty.\<close>

lemma booted_range:
  assumes b: "booting g 1024 s" "g < 1020" and a: "IsPageAlignedAddress va" and r: "0x80400000 \<le> unat va" "unat va + 4096 * n \<le> 0xC0000000"
  shows "range_ok s va n" and "k < n \<Longrightarrow> pte s (page_at va k) = 0"
proof -
  have p: "Valid (pde s (page_at va k))" "PDX (page_at va k) \<noteq> 768" "pte s (page_at va k) = 0" if k: "k < n" for k
  proof -
    have u: "unat (page_at va k) = unat va + 4096 * k" using r(2) k by (intro page_at_unat [of va n]) simp_all
    then have d: "513 \<le> unat (page_at va k) div 0x400000" "unat (page_at va k) div 0x400000 < 768" using r k by (simp_all add: less_mult_imp_div_less)
    then show "Valid (pde s (page_at va k))" using booted(1) [OF b, of "page_at va k"] boot_slot_valid(1) [OF b(2)] by simp
    show "PDX (page_at va k) \<noteq> 768" using d(2) by (auto simp: word_unat_eq_iff unat_PDX)
    then show "pte s (page_at va k) = 0" using booted(4) [OF b, of "page_at va k"] u r(1) by simp
  qed
  show "range_ok s va n" using p a r(2) by (simp add: range_ok_def)
  show "k < n \<Longrightarrow> pte s (page_at va k) = 0" by (rule p(3))
qed

lemma pools_cleared:
  assumes "2 \<le> length (KernelPools (Pools s))"
  shows "\<exists>ps. foldE (\<lambda>i s. with_pool i (Pools s) (\<lambda>(m, _).
       Inr (s\<lparr>Pools := set_pool i (m, \<lparr>lh_first = None, NumberOfElements = 0\<rparr>) (Pools s)\<rparr>))) (range32 0 NUMBEROFPOOLS) s = Inr (s\<lparr>Pools := ps\<rparr>) \<and>
    length (KernelPools ps) = length (KernelPools (Pools s))"
proof -
  have "unat (2 :: ULONG) = 2" by simp
  then have "range32 0 NUMBEROFPOOLS = [0, 1]" by (simp add: range32_def upt_rec)
  moreover have "KernelPools (Pools s) \<noteq> []" using assms by auto
  ultimately show ?thesis using assms
    by (intro exI [of _ "Pools s\<lparr>KernelPools := (KernelPools (Pools s))[0 := \<lparr>lh_first = None, NumberOfElements = 0\<rparr>,
         1 := \<lparr>lh_first = None, NumberOfElements = 0\<rparr>]\<rparr>"]) (simp add: with_pool_def set_pool_def)
qed

lemma pools_twice: "s\<lparr>Pools := p, Pools := q\<rparr> = s\<lparr>Pools := q\<rparr>"
  by simp

lemma mm_core_kept:
  assumes "mm_core (s\<lparr>Pools := q\<rparr>) = mm_core t"
  shows "MiSystemPteBitmap s = MiSystemPteBitmap t" and "lockable l s = lockable l t" and "CurrentIrql s = CurrentIrql t"
proof -
  have "MiSystemPteBitmap (mm_core u) = MiSystemPteBitmap u" "lockable l (mm_core u) = lockable l u" "CurrentIrql (mm_core u) = CurrentIrql u"
    for u :: "'a pool_state_scheme" by (simp_all add: mm_core_def lockable_def hal_ok_def)
  from this [of "s\<lparr>Pools := q\<rparr>"] this [of t]
  show "MiSystemPteBitmap s = MiSystemPteBitmap t" "lockable l s = lockable l t" "CurrentIrql s = CurrentIrql t"
    using assms by (simp_all add: lockable_def hal_ok_def)
qed

lemma boot_core_lockable:
  assumes "boot_core s = created_gdt TSS GDT_address (boot_core t)"
  shows "lockable l s = lockable l t" and "CurrentIrql s = CurrentIrql t"
proof -
  have "lockable l (boot_core u) = lockable l u" "CurrentIrql (boot_core u) = CurrentIrql u" for u :: "'a mm_state_scheme"
    by (simp_all add: boot_core_def mm_core_def lockable_def hal_ok_def)
  moreover have "lockable l (created_gdt TSS GDT_address u) = lockable l u" "CurrentIrql (created_gdt TSS GDT_address u) = CurrentIrql u"
    for u :: "'a mm_state_scheme" by (simp_all add: created_gdt_def lockable_def hal_ok_def)
  ultimately show "lockable l s = lockable l t" "CurrentIrql s = CurrentIrql t" using assms by metis+
qed

lemma boot_core_Pools: "boot_core s = created_gdt TSS GDT_address (boot_core t) \<Longrightarrow> Pools s = Pools t"
proof -
  have "Pools (boot_core u) = Pools u" "Pools (created_gdt TSS GDT_address u) = Pools u" for u :: "'a pool_state_scheme"
    by (simp_all add: boot_core_def mm_core_def created_gdt_def)
  then show "boot_core s = created_gdt TSS GDT_address (boot_core t) \<Longrightarrow> Pools s = Pools t" by metis
qed

text \<open>A pool of 40 MB in an empty part of the kernel space.\<close>

lemma pool_of_40MB:
  assumes b: "booting g 1024 s0" "g < 1020" and s: "pde s = pde s0" "tables_ok s" "free_frames s fs" "10240 \<le> length fs"
    and va: "IsPageAlignedAddress va" "0x80400000 \<le> unat va" "unat va + 0x2800000 \<le> 0xC0000000"
    and empty: "\<forall>b. in_pages va 10240 b \<and> Valid (pde s0 b) \<longrightarrow> pte s b = pte s0 b" and ty: "unat ty < length (KernelPools (Pools s))"
  shows "\<exists>s'. MmInitializePool va 0x2800000 ty s = Inr (STATUS_SUCCESS, s') \<and>
    pool_ok ty (unat va) (unat va + 0x2800000) (Pools s') [(va, 0x2800000 - 28, False)] \<and>
    (\<forall>ty' cs. ty' \<noteq> ty \<and> pool_rep ty' (Pools s) cs \<and> fst ` set cs \<inter> pool_range (unat va) (unat va + 0x2800000) = {} \<longrightarrow> pool_rep ty' (Pools s') cs) \<and>
    tables_ok s' \<and> pde s' = pde s \<and> free_frames s' (drop 10240 fs) \<and> mm_core (s'\<lparr>Pools := Pools s\<rparr>) = mm_core s \<and>
    (\<forall>b. Valid (pde s b) \<and> \<not> in_pages va 10240 b \<longrightarrow> pte s' b = pte s b) \<and> length (KernelPools (Pools s')) = length (KernelPools (Pools s))"
proof -
  have end1: "unat va + 4096 * 10240 \<le> 0xC0000000" and end2: "unat va + 4096 * 10240 \<le> 2 ^ 32" using va(3) by simp_all
  note r0 = booted_range [OF b va(1,2) end1]
  have r: "range_ok s va 10240" using r0(1) s(1) by (simp add: range_ok_def)
  have "pte s (page_at va k) = 0" if k: "k < 10240" for k
  proof -
    have "in_pages va 10240 (page_at va k)" using range_ok_page(1) [OF r0(1) k] k by (simp add: in_pages_def)
    then show ?thesis using empty range_ok_page(3) [OF r0(1) k] r0(2) [OF k] by simp
  qed
  then have z: "\<forall>k < 10240. pte s (page_at va k) = 0" by blast
  have u: "unat (0x2800000 :: ULONG) = 0x2800000" by simp
  have sz: "unat (0x2800000 :: ULONG) = 4096 * 10240" "0 < (10240 :: nat)" "unat va + unat (0x2800000 :: ULONG) < 2 ^ 32" using va(3) by simp_all
  show ?thesis using initialize_pool [OF s(2) r z s(3,4) sz ty] unfolding u .
qed

text \<open>The self test of the two pools, one after the other, leaves both of them one free block.\<close>

lemma pools_tested:
  assumes s: "pool_ready PagedPool s"
    and paged: "pool_ok PagedPool 0x80800000 0x83000000 (Pools s) [(MMPAGEPOOL_START, 0x2800000 - 28, False)]"
    and nonpaged: "pool_ok NonPagedPool 0x83000000 0x85800000 (Pools s) [(MMNONPAGEPOOL_START, 0x2800000 - 28, False)]"
  shows "\<exists>ps. bind (Test_Pool run (Suc fuel) PagedPool s) (Test_Pool run (Suc fuel) NonPagedPool) = Inr (s\<lparr>Pools := ps\<rparr>) \<and>
    pool_ok PagedPool 0x80800000 0x83000000 ps [(MMPAGEPOOL_START, 0x2800000 - 28, False)] \<and>
    pool_ok NonPagedPool 0x83000000 0x85800000 ps [(MMNONPAGEPOOL_START, 0x2800000 - 28, False)]"
proof -
  obtain p1 where 1: "Test_Pool run (Suc fuel) PagedPool s = Inr (s\<lparr>Pools := p1\<rparr>)"
    "pool_ok PagedPool 0x80800000 0x83000000 p1 [(MMPAGEPOOL_START, 0x2800000 - 28, False)]" "pool_frame PagedPool (pool_range 0x80800000 0x83000000) (Pools s) p1"
    using test_pool_passes [OF s paged] by auto
  have rdy: "pool_ready NonPagedPool (s\<lparr>Pools := p1\<rparr>)" using s by (auto simp: pool_ready_def lockable_def hal_ok_def)
  have "pool_rep NonPagedPool p1 [(MMNONPAGEPOOL_START, 0x2800000 - 28, False)]"
    using pool_frame_other [OF 1(3) pool_okD(1) [OF nonpaged]] by (simp add: pool_range_def)
  then have np: "pool_ok NonPagedPool 0x83000000 0x85800000 (Pools (s\<lparr>Pools := p1\<rparr>)) [(MMNONPAGEPOOL_START, 0x2800000 - 28, False)]"
    using nonpaged by (simp add: pool_ok_def)
  obtain p2 where 2: "Test_Pool run (Suc fuel) NonPagedPool (s\<lparr>Pools := p1\<rparr>) = Inr (s\<lparr>Pools := p2\<rparr>)"
    "pool_ok NonPagedPool 0x83000000 0x85800000 p2 [(MMNONPAGEPOOL_START, 0x2800000 - 28, False)]" "pool_frame NonPagedPool (pool_range 0x83000000 0x85800000) p1 p2"
    using test_pool_passes [OF rdy np, of run fuel] by auto
  have "pool_rep PagedPool p2 [(MMPAGEPOOL_START, 0x2800000 - 28, False)]"
    using pool_frame_other [OF 2(3) pool_okD(1) [OF 1(2)]] by (simp add: pool_range_def)
  then have "pool_ok PagedPool 0x80800000 0x83000000 p2 [(MMPAGEPOOL_START, 0x2800000 - 28, False)]" using 1(2) by (simp add: pool_ok_def)
  then show ?thesis using 1(1) 2(1,2) by auto
qed

lemma memory_started:
  assumes free: "processor_free s" and s: "PtrToBootFreemem s = 0" and k: "0x80100000 \<le> unat kernel_end" "unat kernel_end \<le> 0x802FB000" and buf: "2048 \<le> length buffer"
    and pools: "2 \<le> length (KernelPools (Pools s))" and lk: "lockable PoolLock s" "CurrentIrql s < DISPATCH_LEVEL"
  shows "\<exists>s' fs. MmInitPhase0 run (Suc fuel) TSS GDT_address kernel_end buffer s = Inr s' \<and> tables_ok s' \<and> free_frames s' fs \<and> 43000 \<le> length fs \<and>
    pool_ok PagedPool 0x80800000 0x83000000 (Pools s') [(MMPAGEPOOL_START, 0x2800000 - 28, False)] \<and> pool_ready PagedPool s' \<and>
    pool_ok NonPagedPool 0x83000000 0x85800000 (Pools s') [(MMNONPAGEPOOL_START, 0x2800000 - 28, False)] \<and> pool_ready NonPagedPool s' \<and>
    bm_wf (MiSystemPteBitmap s') \<and> (\<forall>j < 0x10000. \<not> bm_bit (MiSystemPteBitmap s') j) \<and>
    boot_core (s'\<lparr>Pools := Pools s\<rparr>) = created_gdt TSS GDT_address (boot_core s)"
proof -
  obtain g s0 where s0: "MiBootInitMemoryLayout run (Suc fuel) TSS GDT_address kernel_end buffer s = Inr s0" "booting g 1024 s0" "512 \<le> g" "g < 1020"
      "bm_wf (MiSystemPteBitmap s0)" "\<forall>j < 0x10000. \<not> bm_bit (MiSystemPteBitmap s0) j" "boot_core s0 = created_gdt TSS GDT_address (boot_core s)"
    using boot_completes [OF free s k buf, of run fuel TSS GDT_address] by blast
  note b = booted [OF s0(2,4)]
  let ?fs = "map of_nat [g + 514..<0x10000] :: frame list"
  have n: "64000 \<le> length ?fs" using s0(4) by simp
  obtain ps where ps: "length (KernelPools ps) = length (KernelPools (Pools s))"
      "foldE (\<lambda>i s. with_pool i (Pools s) (\<lambda>(m, _). Inr (s\<lparr>Pools := set_pool i (m, \<lparr>lh_first = None, NumberOfElements = 0\<rparr>) (Pools s)\<rparr>)))
         (range32 0 NUMBEROFPOOLS) s0 = Inr (s0\<lparr>Pools := ps\<rparr>)"
    using pools_cleared [of s0] pools boot_core_Pools [OF s0(7)] by auto
  have pos: "KernelPools (Pools s) \<noteq> []" using pools by auto
  obtain s1 where s1: "MmInitializePool MMPAGEPOOL_START 0x2800000 PagedPool (s0\<lparr>Pools := ps\<rparr>) = Inr (STATUS_SUCCESS, s1)"
      "pool_ok PagedPool 0x80800000 0x83000000 (Pools s1) [(MMPAGEPOOL_START, 0x2800000 - 28, False)]"
      "tables_ok s1" "pde s1 = pde s0" "free_frames s1 (drop 10240 ?fs)" "mm_core (s1\<lparr>Pools := ps\<rparr>) = mm_core (s0\<lparr>Pools := ps\<rparr>)"
      "\<forall>b. Valid (pde s0 b) \<and> \<not> in_pages MMPAGEPOOL_START 10240 b \<longrightarrow> pte s1 b = pte s0 b" "length (KernelPools (Pools s1)) = length (KernelPools ps)"
    using pool_of_40MB [OF s0(2,4), of "s0\<lparr>Pools := ps\<rparr>" ?fs MMPAGEPOOL_START PagedPool] b(2,3) n pos ps(1)
    by (auto simp: IsPageAlignedAddress_def PGOFF_def)
  have n2: "10240 \<le> 54782 - g" using s0(4) by simp
  have apart: "\<not> in_pages MMPAGEPOOL_START 10240 a" if "in_pages MMNONPAGEPOOL_START 10240 a" for a using that by (simp add: in_pages_def pageno_def)
  obtain s2 where s2: "MmInitializePool MMNONPAGEPOOL_START 0x2800000 NonPagedPool s1 = Inr (STATUS_SUCCESS, s2)"
      "pool_ok NonPagedPool 0x83000000 0x85800000 (Pools s2) [(MMNONPAGEPOOL_START, 0x2800000 - 28, False)]"
      "\<forall>ty' cs. ty' \<noteq> NonPagedPool \<and> pool_rep ty' (Pools s1) cs \<and> fst ` set cs \<inter> pool_range 0x83000000 0x85800000 = {} \<longrightarrow> pool_rep ty' (Pools s2) cs"
      "tables_ok s2" "free_frames s2 (drop 10240 (drop 10240 ?fs))" "mm_core (s2\<lparr>Pools := Pools s1\<rparr>) = mm_core s1"
    using pool_of_40MB [OF s0(2,4) s1(4,3,5), of MMNONPAGEPOOL_START NonPagedPool] n2 pools ps(1) s1(7,8) apart
    by (auto simp: IsPageAlignedAddress_def PGOFF_def)
  have "pool_rep PagedPool (Pools s2) [(MMPAGEPOOL_START, 0x2800000 - 28, False)]" using s2(3) s1(2) by (simp add: pool_ok_def pool_range_def)
  then have paged: "pool_ok PagedPool 0x80800000 0x83000000 (Pools s2) [(MMPAGEPOOL_START, 0x2800000 - 28, False)]" using s1(2) by (simp add: pool_ok_def)
  have k2: "MiSystemPteBitmap s2 = MiSystemPteBitmap s0" "lockable PoolLock s2" "CurrentIrql s2 < DISPATCH_LEVEL"
    using mm_core_kept [OF s2(6)] mm_core_kept [OF s1(6)] boot_core_lockable [OF s0(7)] lk by (simp_all add: lockable_def hal_ok_def)
  then have "pool_ready PagedPool s2" by (simp add: pool_ready_def)
  from pools_tested [OF this paged s2(2), of run fuel] obtain p3 where p3: "bind (Test_Pool run (Suc fuel) PagedPool s2) (Test_Pool run (Suc fuel) NonPagedPool) = Inr (s2\<lparr>Pools := p3\<rparr>)"
    "pool_ok PagedPool 0x80800000 0x83000000 p3 [(MMPAGEPOOL_START, 0x2800000 - 28, False)]" "pool_ok NonPagedPool 0x83000000 0x85800000 p3 [(MMNONPAGEPOOL_START, 0x2800000 - 28, False)]"
    by blast
  have "MmInitPhase0 run (Suc fuel) TSS GDT_address kernel_end buffer s = Inr (s2\<lparr>Pools := p3\<rparr>)"
    using s0(1) ps(2) s1(1) s2(1) p3(1) by (simp add: MmInitPhase0_def MmInitializeAllPools_def)
  moreover have "boot_core (s2\<lparr>Pools := Pools s\<rparr>) = created_gdt TSS GDT_address (boot_core s)"
  proof -
    have c: "boot_core (u\<lparr>Pools := q\<rparr>) = (boot_core u)\<lparr>Pools := q\<rparr>" for u :: "'a pool_state_scheme" and q by (simp add: boot_core_def mm_core_def)
    have d: "boot_core u = boot_core t" if "mm_core u = mm_core t" for u t :: "'a pool_state_scheme" using that by (simp add: boot_core_def)
    have "(boot_core s2)\<lparr>Pools := Pools s1\<rparr> = boot_core s1" "(boot_core s1)\<lparr>Pools := ps\<rparr> = (boot_core s0)\<lparr>Pools := ps\<rparr>"
      using d [OF s2(6)] d [OF s1(6)] by (simp_all add: c)
    then have "(boot_core s2)\<lparr>Pools := Pools s\<rparr> = (boot_core s0)\<lparr>Pools := Pools s\<rparr>" by (metis pools_twice)
    moreover have "(created_gdt TSS GDT_address u)\<lparr>Pools := Pools u\<rparr> = created_gdt TSS GDT_address u" for u :: "'a pool_state_scheme"
      by (simp add: created_gdt_def)
    moreover have "Pools (boot_core s) = Pools s" by (simp add: boot_core_def mm_core_def)
    ultimately show ?thesis using s0(7) c [of "Pools s" s2] by metis
  qed
  moreover have "43000 \<le> length (drop 10240 (drop 10240 ?fs))" using s0(4) by simp
  moreover have "pool_ready PagedPool (s2\<lparr>Pools := p3\<rparr>)" "pool_ready NonPagedPool (s2\<lparr>Pools := p3\<rparr>)"
    using k2(2,3) by (simp_all add: pool_ready_def lockable_def hal_ok_def)
  ultimately show ?thesis using p3(2,3) s2(4,5) s0(5,6) k2(1) by (intro exI [of _ "s2\<lparr>Pools := p3\<rparr>"] exI [of _ "drop 10240 (drop 10240 ?fs)"]) simp
qed

end
