(* ===== verification/KosStart.thy ===== *)
theory KosStart
  imports IdeProps IoProps MmStart
begin

text \<open>
  The start of the kernel, \<open>KOSstart.c\<close>: \<open>KOS_start\<close> is entered from \<open>kos.S\<close> with paging off and initialises the parts in order; its last call switches to the first
  thread of the system process, which runs \<open>KosInit\<close>. The literals, local variables and external functions are the arguments the parts take. The screen has a state of its own
  (\<open>Vga\<close>), so \<open>VgaInit\<close> and what is printed are left out; the global data are zero, by \<open>memset\<close>, in the state that \<open>KOS_start\<close> gets.
\<close>

section \<open>The calls in their order\<close>

text \<open>What follows the first two phases; the state in which the first thread starts to run is the result, and the bug check behind the last call is never reached.\<close>

definition start_managers ::
  "(nat \<Rightarrow> PVOID) \<Rightarrow> 'a ide_state_scheme object_methods \<Rightarrow> 'a ide_state_scheme thread_routine \<Rightarrow> 'a ide_state_scheme deferred_routines \<Rightarrow> nat \<Rightarrow>
   'a ide_state_scheme fatfs \<Rightarrow> 'a ide_state_scheme fat \<Rightarrow> 'a ide_state_scheme driver_entries \<Rightarrow> PVOID \<Rightarrow> (string \<Rightarrow> address) \<Rightarrow> HANDLE \<Rightarrow> PVOID \<Rightarrow>
   'a ide_state_scheme \<Rightarrow> fault + 'a ide_state_scheme" where
  "start_managers TrapFunctionList call exit_thread run fuel ff fat others var literal DirHandle start s =
     bind (Ob_init call run fuel var (literal [CHR 0x5C]) (literal ([CHR 0x5C] @ ''GLOBAL??'')) (literal ([CHR 0x5C] @ ''Driver''))
       (literal ([CHR 0x5C] @ ''Device'')) DirHandle s) (\<lambda>s.
     bind (PsInitPhase0 run fuel s) (\<lambda>s.
     bind (Halinit s) (\<lambda>s.
     bind (KeInitPhase1 TrapFunctionList s) (\<lambda>s.
     bind (IoInit s) (\<lambda>s.
     bind (KFSinit fat call others run fuel var literal s) (\<lambda>s.
     PsCreateSystemProcess call exit_thread run fuel ff var (literal ''FIrst System Thread'') start s))))))"

definition KOS_start ::
  "(nat \<Rightarrow> PVOID) \<Rightarrow> ULONG \<Rightarrow> ULONG \<Rightarrow> ULONG \<Rightarrow> ULONG list \<Rightarrow> 'a ide_state_scheme object_methods \<Rightarrow> 'a ide_state_scheme thread_routine \<Rightarrow> 'a ide_state_scheme deferred_routines \<Rightarrow>
   nat \<Rightarrow> 'a ide_state_scheme fatfs \<Rightarrow> 'a ide_state_scheme fat \<Rightarrow> 'a ide_state_scheme driver_entries \<Rightarrow> PVOID \<Rightarrow> (string \<Rightarrow> address) \<Rightarrow> HANDLE \<Rightarrow> PVOID \<Rightarrow>
   'a ide_state_scheme \<Rightarrow> fault + 'a ide_state_scheme" where
  "KOS_start TrapFunctionList TSS GDT_address kernel_end buffer call exit_thread run fuel ff fat others var literal DirHandle start s =
     bind (KeInitPhase0 TrapFunctionList s) (\<lambda>s.
     bind (KeGetCurrentIrql s) (\<lambda>_.
     bind (MmInitPhase0 run fuel TSS GDT_address kernel_end buffer s)
       (start_managers TrapFunctionList call exit_thread run fuel ff fat others var literal DirHandle start)))"

text \<open>The first thread: the disks, a file that is read for a test, and the first user process; then it loops for ever. \<open>handle\<close> is what the variable for the handle holds
  before.\<close>

definition KosInit ::
  "(nat \<Rightarrow> PVOID) \<Rightarrow> 'a ide_state_scheme ata \<Rightarrow> ('a ide_state_scheme \<Rightarrow> fault + 'a ide_state_scheme) \<Rightarrow> address \<Rightarrow> 'a ide_state_scheme object_methods \<Rightarrow>
   'a ide_state_scheme driver_routines \<Rightarrow> 'a ide_state_scheme thread_routine \<Rightarrow> 'a ide_state_scheme deferred_routines \<Rightarrow> nat \<Rightarrow> 'a ide_state_scheme fatfs \<Rightarrow>
   'a ide_state_scheme fat \<Rightarrow> KOBJECTS \<times> LONG \<Rightarrow> PVOID \<Rightarrow> PVOID \<Rightarrow> (string \<Rightarrow> address) \<Rightarrow> HANDLE \<Rightarrow> PVOID \<Rightarrow> 'a ide_state_scheme \<Rightarrow> fault + 'a ide_state_scheme" where
  "KosInit TrapFunctionList hw resume id_buf call drivers exit_thread run fuel ff fat junk garbage var literal handle buff s =
     bind (disk_init TrapFunctionList hw exit_thread run fuel resume id_buf s) (\<lambda>s.
     ASSERT ''KosInit: KeGetCurrentThread()'' (KeGetCurrentThread s \<noteq> None)
     (bind (f_chdrive fat 1 s) (\<lambda>(_, s).
      bind (KCreateFile call drivers run fuel garbage var (literal ''/abc.txt'') O_RDONLY s) (\<lambda>(Status, Handle, s).
      ASSERT ''KosInit: K_SUCCESS(Status)'' (success Status)
      (bind (KReadFile call drivers run fuel (case Handle of None \<Rightarrow> handle | Some h \<Rightarrow> h) buff 30 s) (\<lambda>(Status, s).
       ASSERT ''KosInit: K_SUCCESS(Status)'' (success Status)
       (bind (PsCreateProcess call run fuel ff junk var (literal ''Test ROutine'') None (literal ''testprog.exe'') s) (\<lambda>(_, _, _, s).
        Inr s))))))))"

section \<open>The first two phases\<close>

text \<open>The state at the entry: the global data are zero, interrupts are off.\<close>

definition at_reset :: "'a pool_state_scheme \<Rightarrow> bool" where
  "at_reset s \<longleftrightarrow> \<not> Picinitdone s \<and> Pic8259Mask s = 0 \<and> \<not> Flags_IF s \<and> Hal8259MaskTable s = replicate 32 0 \<and> spin_locks s PoolLock = free_lock \<and>
     Type (Dpcs s KiSchedulerDPC) = 0 \<and> PtrToBootFreemem s = 0 \<and> 2 \<le> length (KernelPools (Pools s))"

text \<open>Every vector has its gate into the kernel; exactly the breakpoint exceptions and the system call are open to the user; exceptions other than the page fault leave
  interrupts on; the 20 exceptions have handlers, and nothing else has.\<close>

definition gates_set :: "(nat \<Rightarrow> PVOID) \<Rightarrow> 'a intr_state_scheme \<Rightarrow> bool" where
  "gates_set T s \<longleftrightarrow> (\<forall>v < INTR_CNT.
    gate_target (IDT s v) = T v \<and> gd_ss (IDT s v) = GD_KT \<and> gd_p (IDT s v) = 1 \<and> gd_s (IDT s v) = 0 \<and>
    gd_dpl (IDT s v) = (if v \<in> {3, 4, 5, 0x40} then 3 else 0) \<and>
    gd_type (IDT s v) = (if v < 20 \<and> v \<noteq> 14 then STS_TG32 else STS_IG32) \<and>
    KISRRoutine (KiInterruptObjects s v) =
      (if v < 20 then Some (if v = 14 then KiExceptionPFHandler_routine else KiExceptionHandler_routine) else None))"

lemma sched_init:
  assumes "Type (Dpcs s KiSchedulerDPC) = 0"
  shows "KiSchedInitPhase s = Inr (s\<lparr>Dpcs := Dpcs (set_dpc KiSchedulerDPC (\<lambda>k. k\<lparr>Type := DpcObject, DeferredRoutine := Schedule_routine, DeferredContext := 0,
      Importance := LowImportance, Number := 0\<rparr>) s), ExitThreadList := LIST_INIT\<rparr>)"
  by (simp add: KiSchedInitPhase_def KeSetTargetProcessorDpc_def KeInitializeDpc_def ASSERT_DPC_def KeInitializeSpinLock_def set_dpc_def fun_upd_def cong: if_cong)

lemma ke_phase0:
  assumes r: "at_reset s"
  shows "\<exists>s'. KeInitPhase0 T s = Inr s' \<and> PtrToBootFreemem s' = 0 \<and> 2 \<le> length (KernelPools (Pools s')) \<and> lockable PoolLock s' \<and>
    CurrentIrql s' = PASSIVE_LEVEL \<and> \<not> Flags_IF s' \<and> gates_set T s' \<and> processor_free s'"
proof -
  let ?s0 = "(KiInitProcessorPhase0 s)\<lparr>PcrIDT := False\<rparr>"
  obtain s1 where s1: "KiTrapInitialize T ?s0 = Inr s1" "gates_set T s1"
    using trap_initialized [of ?s0 T] by (auto simp: gates_set_def)
  have tr: "ps_state.truncate s1 = ps_state.truncate (KiInitProcessorPhase0 s)" using trap_initialize_frame [OF s1(1)] by simp
  then have eq: "Picinitdone s1 = Picinitdone s" "Pic8259Mask s1 = Pic8259Mask s" "Flags_IF s1 = Flags_IF s" "Hal8259MaskTable s1 = Hal8259MaskTable s"
    "CurrentIrql s1 = 0" "DpcListHead s1 = LIST_INIT" "Dpcs s1 = Dpcs s" "PtrToBootFreemem s1 = PtrToBootFreemem s" "Pools s1 = Pools s"
    "spin_locks s1 = (spin_locks s)(ProcessorLock := free_lock)"
    by (simp_all add: ps_state.truncate_def KiInitProcessorPhase0_def free_lock_def)
  let ?s' = "s1\<lparr>Dpcs := Dpcs (set_dpc KiSchedulerDPC (\<lambda>k. k\<lparr>Type := DpcObject, DeferredRoutine := Schedule_routine, DeferredContext := 0,
      Importance := LowImportance, Number := 0\<rparr>) s1), ExitThreadList := LIST_INIT\<rparr>"
  have "Type (Dpcs s1 KiSchedulerDPC) = 0" using eq r by (simp add: at_reset_def)
  then have "KeInitPhase0 T s = Inr ?s'" using s1(1) sched_init [of s1] by (simp add: KeInitPhase0_def)
  moreover have "lockable PoolLock ?s'" using r eq by (simp add: lockable_def hal_ok_def at_reset_def LIST_EMPTY_def LIST_INIT_def)
  moreover have "processor_free ?s'" using r eq by (simp add: processor_free_def hal_ok_def at_reset_def LIST_EMPTY_def LIST_INIT_def)
  ultimately show ?thesis using r eq s1(2) by (intro exI [of _ ?s']) (simp add: at_reset_def gates_set_def)
qed

lemma boot_core_intr:
  assumes "boot_core (s\<lparr>Pools := q\<rparr>) = created_gdt TSS GDT_address (boot_core t)"
  shows "IDT s = IDT t" and "KiInterruptObjects s = KiInterruptObjects t" and "CurrentIrql s = CurrentIrql t" and "Flags_IF s = Flags_IF t"
    and "Gdtr s = (47, GDT_address)" and "CodeSelector s = GD_KT" and "DataSelector s = GD_KD" and "TaskRegister s = GD_TSS"
    and "processor_free s = processor_free t"
proof -
  have "IDT (boot_core u) = IDT u" "KiInterruptObjects (boot_core u) = KiInterruptObjects u" "CurrentIrql (boot_core u) = CurrentIrql u" "Flags_IF (boot_core u) = Flags_IF u"
    "processor_free (boot_core u) = processor_free u"
    for u :: "'a intr_state_scheme" by (simp_all add: boot_core_def mm_core_def processor_free_def hal_ok_def)
  from this [of "s\<lparr>Pools := q\<rparr>"] this [of t]
  show "IDT s = IDT t" "KiInterruptObjects s = KiInterruptObjects t" "CurrentIrql s = CurrentIrql t" "Flags_IF s = Flags_IF t"
    "processor_free s = processor_free t" using assms by (simp_all add: created_gdt_def processor_free_def hal_ok_def)
  show "Gdtr s = (47, GDT_address)" "CodeSelector s = GD_KT" "DataSelector s = GD_KD" "TaskRegister s = GD_TSS"
    using boot_core_gdt(1-4) [OF assms] by simp_all
qed

text \<open>C5. The start of the kernel: from cleared global data, \<open>KOS_start\<close> gets through the initialisation of the processor, the interrupt table, the descriptor table, the page tables and the pools with their self test
  without a fault, for every end of the kernel image between 1 MB and 3052 KB, and calls the managers in a state in which every vector has its gate, only the breakpoint exceptions and the system call are open to the user, the 20
  exceptions have handlers, both pools are one free block each and ready for allocation, memory is laid out, the processor uses the kernel's descriptor table, selectors and task
  segment, its lock is free, and interrupts are still off at \<open>PASSIVE_LEVEL\<close>.\<close>

theorem kernel_start:
  assumes "at_reset s" and "0x80100000 \<le> unat kernel_end" "unat kernel_end \<le> 0x802FB000" and "2048 \<le> length buffer"
  shows "\<exists>s' fs. KOS_start T TSS GDT_address kernel_end buffer call exit_thread run (Suc fuel) ff fat others var literal DirHandle start s =
      start_managers T call exit_thread run (Suc fuel) ff fat others var literal DirHandle start s' \<and>
    gates_set T s' \<and>
    tables_ok s' \<and> free_frames s' fs \<and> 43000 \<le> length fs \<and>
    pool_ok PagedPool 0x80800000 0x83000000 (Pools s') [(MMPAGEPOOL_START, 0x2800000 - 28, False)] \<and> pool_ready PagedPool s' \<and>
    pool_ok NonPagedPool 0x83000000 0x85800000 (Pools s') [(MMNONPAGEPOOL_START, 0x2800000 - 28, False)] \<and> pool_ready NonPagedPool s' \<and>
    Gdtr s' = (47, GDT_address) \<and> CodeSelector s' = GD_KT \<and> DataSelector s' = GD_KD \<and> TaskRegister s' = GD_TSS \<and> processor_free s' \<and>
    CurrentIrql s' = PASSIVE_LEVEL \<and> \<not> Flags_IF s'"
proof -
  obtain s1 where s1: "KeInitPhase0 T s = Inr s1" "PtrToBootFreemem s1 = 0" "2 \<le> length (KernelPools (Pools s1))" "lockable PoolLock s1"
      "CurrentIrql s1 = PASSIVE_LEVEL" "\<not> Flags_IF s1" "gates_set T s1" "processor_free s1"
    using ke_phase0 [OF assms(1), of T] by blast
  have "CurrentIrql s1 < DISPATCH_LEVEL" using s1(5) by simp
  from memory_started [OF s1(8,2) assms(2-4) s1(3,4) this, of run fuel TSS GDT_address] obtain s' fs where s': "MmInitPhase0 run (Suc fuel) TSS GDT_address kernel_end buffer s1 = Inr s'" "tables_ok s'" "free_frames s' fs"
      "43000 \<le> length fs" "pool_ok PagedPool 0x80800000 0x83000000 (Pools s') [(MMPAGEPOOL_START, 0x2800000 - 28, False)]" "pool_ready PagedPool s'"
      "pool_ok NonPagedPool 0x83000000 0x85800000 (Pools s') [(MMNONPAGEPOOL_START, 0x2800000 - 28, False)]" "pool_ready NonPagedPool s'"
      "boot_core (s'\<lparr>Pools := Pools s1\<rparr>) = created_gdt TSS GDT_address (boot_core s1)"
    by blast
  note k = boot_core_intr [OF s'(9)]
  have "hal_ok s1" using s1(4) by (simp add: lockable_def)
  then have "KeGetCurrentIrql s1 = Inr (CurrentIrql s1)" by (rule hal_ok_irql)
  then have "KOS_start T TSS GDT_address kernel_end buffer call exit_thread run (Suc fuel) ff fat others var literal DirHandle start s =
      start_managers T call exit_thread run (Suc fuel) ff fat others var literal DirHandle start s'"
    by (simp add: KOS_start_def s1(1) s'(1))
  then show ?thesis using s'(2-8) s1(5-8) k by (intro exI [of _ s'] exI [of _ fs]) (simp add: gates_set_def)
qed

definition reset_machine :: ide_state where
  "reset_machine = (disk_machine 0)\<lparr>Picinitdone := False, Pic8259Mask := 0, Flags_IF := False, Hal8259MaskTable := replicate 32 0,
     spin_locks := \<lambda>_. free_lock, Dpcs := \<lambda>d. (Dpcs (disk_machine 0) d)\<lparr>Type := 0\<rparr>, PtrToBootFreemem := 0, Pools := one_block\<rparr>"

theorem kernel_start_witness:
  "\<forall>call exit_thread run ff fat others literal. \<exists>s'.
     KOS_start of_nat 0x80106000 0x80105F00 0x80120000 (replicate 2048 0) call exit_thread run 1 ff fat others 0 literal 0 0x80101000 reset_machine =
       start_managers of_nat call exit_thread run 1 ff fat others 0 literal 0 0x80101000 s' \<and> tables_ok s' \<and> pool_ready NonPagedPool s' \<and>
     gate_target (IDT s' 14) = 14"
proof (intro allI)
  fix call exit_thread run ff fat others literal
  have "at_reset reset_machine" by (simp add: at_reset_def reset_machine_def one_block_def)
  from kernel_start [OF this, of "0x80120000" "replicate 2048 0" of_nat "0x80106000" "0x80105F00" call exit_thread run 0 ff fat others 0 literal 0 "0x80101000"]
  obtain s' where s': "KOS_start of_nat 0x80106000 0x80105F00 0x80120000 (replicate 2048 0) call exit_thread run 1 ff fat others 0 literal 0 0x80101000 reset_machine =
       start_managers of_nat call exit_thread run 1 ff fat others 0 literal 0 0x80101000 s'"
      "gates_set of_nat s'" "tables_ok s'" "pool_ready NonPagedPool s'"
    by auto
  moreover have "gate_target (IDT s' 14) = of_nat 14" using s'(2) unfolding gates_set_def by (rule allE [of _ 14]) simp
  ultimately show "\<exists>s'. KOS_start of_nat 0x80106000 0x80105F00 0x80120000 (replicate 2048 0) call exit_thread run 1 ff fat others 0 literal 0 0x80101000 reset_machine =
       start_managers of_nat call exit_thread run 1 ff fat others 0 literal 0 0x80101000 s' \<and> tables_ok s' \<and> pool_ready NonPagedPool s' \<and>
     gate_target (IDT s' 14) = 14" by auto
qed

section \<open>The end\<close>

text \<open>
  \<open>_KeBugCheck\<close>, where every failed assertion ends. Its own calls assert too: a failure in them enters it again, with the same state, before the message is recorded, so
  the recursion has no end. \<open>fuel\<close> bounds its depth; the message of the first call is kept and the processor loops at \<open>HIGH_LEVEL\<close>.
\<close>

record bug_state = ide_state +
  BugCheckIrql :: KIRQL
  KeBugCheckstr :: "string option"

fun bug_check :: "nat \<Rightarrow> string \<Rightarrow> 'a bug_state_scheme \<Rightarrow> fault + 'a bug_state_scheme" where
  "bug_check 0 fmt s = Inl Hang"
| "bug_check (Suc fuel) fmt s =
     (case KeGetCurrentIrql s of
        Inl e \<Rightarrow> bug_check fuel ''Assertion Failed'' s
      | Inr irql \<Rightarrow> (let s = s\<lparr>BugCheckIrql := irql\<rparr> in
          case KeRaiseIrql HIGH_LEVEL s of
            Inl e \<Rightarrow> bug_check fuel ''Assertion Failed'' s
          | Inr (_, s) \<Rightarrow> Inr (case KeBugCheckstr s of Some _ \<Rightarrow> s | None \<Rightarrow> s\<lparr>KeBugCheckstr := Some fmt\<rparr>)))"

lemma bug_check_stops:
  assumes ok: "hal_ok s"
  shows "\<exists>s'. bug_check (Suc fuel) fmt s = Inr s' \<and> CurrentIrql s' = HIGH_LEVEL \<and> Pic8259Mask s' = Hal8259MaskTable s ! 31 \<and> BugCheckIrql s' = CurrentIrql s \<and>
    KeBugCheckstr s' = Some (case KeBugCheckstr s of None \<Rightarrow> fmt | Some m \<Rightarrow> m)"
proof -
  let ?s = "s\<lparr>BugCheckIrql := CurrentIrql s\<rparr>"
  have "hal_ok ?s" using ok by (simp add: hal_ok_def)
  moreover have "CurrentIrql ?s \<le> HIGH_LEVEL" using ok by (simp add: hal_ok_def)
  ultimately have "KeRaiseIrql HIGH_LEVEL ?s = Inr (CurrentIrql ?s, at_irql HIGH_LEVEL ?s)" by (intro KeRaiseIrql_eq) auto
  then show ?thesis using hal_ok_irql [OF ok] by (auto simp: at_irql_def split: option.splits)
qed

text \<open>When the interrupt mask is not the one of the IRQL, the check that reports it starts the recursion.\<close>

lemma bug_check_recurses:
  assumes "CurrentIrql s < HIGH_LEVEL" and "length (Hal8259MaskTable s) = 32" and "Hal8259MaskTable s ! unat (CurrentIrql s) \<noteq> Pic8259Mask s"
  shows "bug_check fuel fmt s = Inl Hang"
  using assms
proof (induction fuel arbitrary: fmt s)
  case (Suc fuel)
  have i: "KeGetCurrentIrql s = Inr (CurrentIrql s)" using Suc.prems(1) by (simp add: KeGetCurrentIrql_def)
  have "\<exists>e. KeRaiseIrql HIGH_LEVEL (s\<lparr>BugCheckIrql := CurrentIrql s\<rparr>) = Inl e"
    using Suc.prems by (auto simp: KeRaiseIrql_def KeGetCurrentIrql_def HalRaiseIrql_def mask_at_def Pic8259GetMask_def)
  then show ?case using Suc.IH [of "s\<lparr>BugCheckIrql := CurrentIrql s\<rparr>"] Suc.prems i by auto
qed simp

end
