(* ===== verification/Vga.thy ===== *)
theory Vga
  imports KStdio
begin

text \<open>
  The console: the text screen of \<open>drivers/vga.c\<close> and \<open>lib/console.c\<close> above it. The frame buffer is indexed by
  cells, \<open>VgaBuffer[y][x]\<close> is the cell \<open>80 * y + x\<close>, without a bound, as in the code. The cursor registers of
  the controller are the pair of an index register and the registers it selects. The parallel port to which the
  console copies its output is the list of the bytes latched on it. The lemmas relate the screen to an abstract
  terminal of 25 rows of 80 characters.
\<close>

section \<open>State\<close>

abbreviation (input) COL_CNT :: size_t where "COL_CNT \<equiv> 80"
abbreviation (input) ROW_CNT :: size_t where "ROW_CNT \<equiv> 25"
abbreviation (input) GRAY_ON_BLACK :: UCHAR where "GRAY_ON_BLACK \<equiv> 0x07"

record vga_state =
  XPos :: size_t
  YPos :: size_t
  VgaBuffer :: "ULONG \<Rightarrow> UCHAR \<times> UCHAR"
  VgaInitialized :: bool
  CrtcIndex :: UCHAR
  CrtcRegister :: "UCHAR \<Rightarrow> UCHAR"
  ParallelPort :: "UCHAR list"

definition cell :: "size_t \<Rightarrow> size_t \<Rightarrow> ULONG" where
  "cell y x = 80 * y + x"

definition put_cell :: "size_t \<Rightarrow> size_t \<Rightarrow> UCHAR \<Rightarrow> vga_state \<Rightarrow> vga_state" where
  "put_cell y x ch s = s\<lparr>VgaBuffer := (VgaBuffer s)(cell y x := (ch, GRAY_ON_BLACK))\<rparr>"

section \<open>The controller\<close>

text \<open>A 16-bit write to port \<open>0x3d4\<close> writes the index and the register it selects; byte accesses do one at a time.\<close>

definition outw_crtc :: "USHORT \<Rightarrow> vga_state \<Rightarrow> vga_state" where
  "outw_crtc w s = s\<lparr>CrtcIndex := ucast w, CrtcRegister := (CrtcRegister s)(ucast w := ucast (drop_bit 8 w))\<rparr>"

definition outb_crtc :: "UCHAR \<Rightarrow> vga_state \<Rightarrow> vga_state" where
  "outb_crtc b s = s\<lparr>CrtcIndex := b\<rparr>"

definition inb_crtc :: "vga_state \<Rightarrow> UCHAR" where
  "inb_crtc s = CrtcRegister s (CrtcIndex s)"

definition MoveCursor :: "vga_state \<Rightarrow> vga_state" where
  "MoveCursor s =
     (let cp = ucast (XPos s + COL_CNT * YPos s) :: USHORT
      in outw_crtc (0x0F OR push_bit 8 cp) (outw_crtc (0x0E OR (cp AND 0xFF00)) s))"

definition FindCursor :: "vga_state \<Rightarrow> (size_t \<times> size_t) \<times> vga_state" where
  "FindCursor s =
     (let s = outb_crtc 0x0E s;
          cp = push_bit 8 (ucast (inb_crtc s)) :: USHORT;
          s = outb_crtc 0x0F s;
          cp = cp OR ucast (inb_crtc s)
      in ((ucast cp mod COL_CNT, ucast cp div COL_CNT), s))"

section \<open>The screen\<close>

definition ClearRow :: "size_t \<Rightarrow> vga_state \<Rightarrow> vga_state" where
  "ClearRow y s = fold (\<lambda>x. put_cell y x 0x20) (range32 0 COL_CNT) s"

definition Clear :: "vga_state \<Rightarrow> vga_state" where
  "Clear s = MoveCursor ((fold ClearRow (range32 0 ROW_CNT) s)\<lparr>XPos := 0, YPos := 0\<rparr>)"

definition scroll_rows :: "vga_state \<Rightarrow> vga_state" where
  "scroll_rows s = s\<lparr>VgaBuffer := (\<lambda>i. if i < COL_CNT * (ROW_CNT - 1) then VgaBuffer s (i + COL_CNT) else VgaBuffer s i)\<rparr>"

definition Newline :: "vga_state \<Rightarrow> vga_state" where
  "Newline s =
     (let s = s\<lparr>XPos := 0, YPos := YPos s + 1\<rparr> in
      if YPos s \<ge> ROW_CNT then ClearRow (ROW_CNT - 1) (scroll_rows (s\<lparr>YPos := ROW_CNT - 1\<rparr>)) else s)"

definition VgaInit :: "vga_state \<Rightarrow> fault + vga_state" where
  "VgaInit s =
     ASSERT ''VgaInit: Initilized == 0'' (\<not> VgaInitialized s)
     (let ((x, y), s) = FindCursor s in Inr (s\<lparr>XPos := x, YPos := y, VgaInitialized := True\<rparr>))"

definition Vga_putc :: "ULONG \<Rightarrow> vga_state \<Rightarrow> vga_state" where
  "Vga_putc ch s = MoveCursor
     (if ch = 10 then Newline s
      else if ch = 12 then Clear s
      else if ch = 8 then (if XPos s > 0 then s\<lparr>XPos := XPos s - 1\<rparr> else s)
      else if ch = 13 then s\<lparr>XPos := 0\<rparr>
      else if ch = 9 then
        let s = s\<lparr>XPos := ROUNDUP (XPos s + 1) 8\<rparr> in if XPos s \<ge> COL_CNT then Newline s else s
      else
        let s = put_cell (YPos s) (XPos s) (ucast ch) s;
            s = s\<lparr>XPos := XPos s + 1\<rparr>
        in if XPos s \<ge> COL_CNT then Newline s else s)"

section \<open>The console\<close>

text \<open>The bounded poll of the port's status before the write only delays it; the byte is written in either case.\<close>

definition pport_putc :: "UCHAR \<Rightarrow> vga_state \<Rightarrow> vga_state" where
  "pport_putc c s = s\<lparr>ParallelPort := ParallelPort s @ [c]\<rparr>"

definition PutcharWithoutLock :: "UCHAR \<Rightarrow> vga_state \<Rightarrow> vga_state" where
  "PutcharWithoutLock ch s = pport_putc ch (Vga_putc (ucast ch) s)"

definition putchar :: "ULONG \<Rightarrow> vga_state \<Rightarrow> ULONG \<times> vga_state" where
  "putchar ch s = (ch, PutcharWithoutLock (ucast ch) s)"

definition putbuf :: "memory \<Rightarrow> address \<Rightarrow> size_t \<Rightarrow> vga_state \<Rightarrow> vga_state" where
  "putbuf m buffer n s = fold (\<lambda>i. PutcharWithoutLock (m (buffer + of_nat i))) [0..<unat n] s"

text \<open>The loop of \<open>puts\<close> has both calls in its body.\<close>

partial_function (option) puts_loop :: "memory \<Rightarrow> address \<Rightarrow> vga_state \<Rightarrow> vga_state option" where
  "puts_loop m str s =
     (if m str \<noteq> NUL then puts_loop m (str + 1) (PutcharWithoutLock 10 (PutcharWithoutLock (m str) s)) else Some s)"

definition puts :: "memory \<Rightarrow> address \<Rightarrow> vga_state \<Rightarrow> (ULONG \<times> vga_state) option" where
  "puts m str s = (case puts_loop m str s of None \<Rightarrow> None | Some s \<Rightarrow> Some (0, s))"

text \<open>The formatted output of \<open>vprintf\<close>: the character count and the console; the strings it reads lie in \<open>m\<close>.\<close>

definition VprintfWithoutLock :: "char \<Rightarrow> ULONG \<times> vga_state \<Rightarrow> ULONG \<times> vga_state" where
  "VprintfWithoutLock ch aux = (fst aux + 1, PutcharWithoutLock (byte ch) (snd aux))"

definition console_vprintf :: "memory \<Rightarrow> string \<Rightarrow> va_list \<Rightarrow> vga_state \<Rightarrow> fault + (ULONG \<times> vga_state)" where
  "console_vprintf m format args s = vprintf (\<lambda>_. m) VprintfWithoutLock format args (0, s)"

section \<open>The abstract terminal\<close>

text \<open>The column, the row and the cells of the screen, row by row: each is a character and its attribute.\<close>

type_synonym screen_cell = "UCHAR \<times> UCHAR"
type_synonym terminal = "nat \<times> nat \<times> screen_cell list list"

abbreviation (input) blank_row :: "screen_cell list" where "blank_row \<equiv> replicate 80 (0x20, GRAY_ON_BLACK)"

fun line_feed :: "terminal \<Rightarrow> terminal" where
  "line_feed (x, y, rows) = (if Suc y < 25 then (0, Suc y, rows) else (0, 24, tl rows @ [blank_row]))"

fun print_char :: "UCHAR \<Rightarrow> terminal \<Rightarrow> terminal" where
  "print_char ch (x, y, rows) =
     (if ch = 10 then line_feed (x, y, rows)
      else if ch = 12 then (0, 0, replicate 25 blank_row)
      else if ch = 8 then (x - 1, y, rows)
      else if ch = 13 then (0, y, rows)
      else if ch = 9 then let x' = (x div 8 + 1) * 8 in if x' \<ge> 80 then line_feed (x', y, rows) else (x', y, rows)
      else let rows' = rows[y := (rows ! y)[x := (ch, GRAY_ON_BLACK)]] in
        if Suc x \<ge> 80 then line_feed (Suc x, y, rows') else (Suc x, y, rows'))"

definition buf :: "vga_state \<Rightarrow> nat \<Rightarrow> screen_cell" where
  "buf s n = VgaBuffer s (of_nat n)"

definition screen :: "vga_state \<Rightarrow> screen_cell list list" where
  "screen s = map (\<lambda>y. map (\<lambda>x. buf s (80 * y + x)) [0..<80]) [0..<25]"

definition terminal_of :: "vga_state \<Rightarrow> terminal" where
  "terminal_of s = (unat (XPos s), unat (YPos s), screen s)"

definition on_screen :: "vga_state \<Rightarrow> bool" where
  "on_screen s \<longleftrightarrow> XPos s < COL_CNT \<and> YPos s < ROW_CNT"

text \<open>The cursor registers of the controller hold the position of the cursor.\<close>

definition cursor_shown :: "vga_state \<Rightarrow> bool" where
  "cursor_shown s \<longleftrightarrow> fst (FindCursor s) = (XPos s, YPos s)"

lemma cell_nat: "y < 25 \<Longrightarrow> x < 80 \<Longrightarrow> cell y x = of_nat (80 * unat y + unat x)"
  by (simp add: cell_def)

lemma buf_put_cell:
  assumes "y < 25" "x < 80" "n < 2000"
  shows "buf (put_cell y x ch s) n = (if n = 80 * unat y + unat x then (ch, GRAY_ON_BLACK) else buf s n)"
proof -
  have "unat y < 25" "unat x < 80" using assms(1,2) by (simp_all add: word_less_nat_alt)
  then have "80 * unat y + unat x < 2 ^ 32" "n < 2 ^ 32" using assms(3) by simp_all
  then have "(of_nat n :: ULONG) = of_nat (80 * unat y + unat x) \<longleftrightarrow> n = 80 * unat y + unat x"
    by (metis unat_of_nat32)
  then show ?thesis by (simp add: buf_def put_cell_def cell_nat [OF assms(1,2)])
qed

lemma put_cell_sel [simp]:
  "XPos (put_cell y x ch s) = XPos s" "YPos (put_cell y x ch s) = YPos s"
  by (simp_all add: put_cell_def)

lemma screen_nth: "y < 25 \<Longrightarrow> x < 80 \<Longrightarrow> screen s ! y ! x = buf s (80 * y + x)"
  by (simp add: screen_def)

lemma screen_length [simp]: "length (screen s) = 25" "y < 25 \<Longrightarrow> length (screen s ! y) = 80"
  by (simp_all add: screen_def)

lemma screen_eqI:
  assumes "length rows = 25" "\<And>y. y < 25 \<Longrightarrow> length (rows ! y) = 80" "\<And>y x. y < 25 \<Longrightarrow> x < 80 \<Longrightarrow> rows ! y ! x = buf s (80 * y + x)"
  shows "screen s = rows"
  using assms by (intro nth_equalityI) (simp_all add: screen_nth)

lemma cell_inj:
  assumes lt: "x < 80" "x' < 80"
  shows "80 * y + x = 80 * y' + x' \<longleftrightarrow> y = y' \<and> x = (x' :: nat)"
proof
  assume eq: "80 * y + x = 80 * y' + x'"
  have "(80 * y + x) div 80 = y" "(80 * y' + x') div 80 = y'" using lt by simp_all
  with eq have "y = y'" by simp
  with eq show "y = y' \<and> x = x'" by simp
qed simp

lemma screen_put_cell:
  assumes "y < 25" "x < 80"
  shows "screen (put_cell y x ch s) = (screen s)[unat y := (screen s ! unat y)[unat x := (ch, GRAY_ON_BLACK)]]"
proof -
  have u: "unat y < 25" "unat x < 80" using assms by (simp_all add: word_less_nat_alt)
  show ?thesis
    by (rule screen_eqI) (use u assms in \<open>auto simp: nth_list_update screen_nth buf_put_cell cell_inj\<close>)
qed

lemma clear_cells:
  assumes "y < 25" "n \<le> 80" "k < 2000"
  shows "buf (fold (\<lambda>x. put_cell y x 0x20) (map of_nat [0..<n]) s) k =
    (if 80 * unat y \<le> k \<and> k < 80 * unat y + n then (0x20, GRAY_ON_BLACK) else buf s k)"
  using assms(2)
proof (induction n)
  case (Suc n)
  then have "(of_nat n :: size_t) < 80" "unat (of_nat n :: size_t) = n"
    by (simp_all add: word_less_nat_alt unat_of_nat32)
  with Suc assms show ?case by (auto simp: buf_put_cell)
qed auto

lemma ClearRow_sel [simp]: "XPos (ClearRow y s) = XPos s" "YPos (ClearRow y s) = YPos s"
proof -
  have "XPos (fold (\<lambda>x. put_cell y x 0x20) xs s) = XPos s \<and> YPos (fold (\<lambda>x. put_cell y x 0x20) xs s) = YPos s" for xs
    by (induction xs arbitrary: s) simp_all
  then show "XPos (ClearRow y s) = XPos s" "YPos (ClearRow y s) = YPos s" by (simp_all add: ClearRow_def)
qed

lemma screen_ClearRow:
  assumes "y < 25"
  shows "screen (ClearRow y s) = (screen s)[unat y := blank_row]"
proof -
  have u: "unat y < 25" using assms by (simp add: word_less_nat_alt)
  have c: "buf (ClearRow y s) k = (if 80 * unat y \<le> k \<and> k < 80 * unat y + 80 then (0x20, GRAY_ON_BLACK) else buf s k)" if "k < 2000" for k
    using clear_cells [OF assms _ that, of 80 s] by (simp add: ClearRow_def range32_def)
  show ?thesis
    by (rule screen_eqI) (use u in \<open>auto simp: nth_list_update screen_nth c\<close>)
qed

lemma screen_Clear_rows:
  "n \<le> 25 \<Longrightarrow> screen (fold ClearRow (map of_nat [0..<n]) s) = replicate n blank_row @ drop n (screen s)"
proof (induction n)
  case (Suc n)
  then have n: "(of_nat n :: size_t) < 25" "unat (of_nat n :: size_t) = n"
    by (simp_all add: word_less_nat_alt unat_of_nat32)
  with Suc show ?case
    by (simp add: screen_ClearRow list_update_append replicate_append_same upd_conv_take_nth_drop flip: Cons_nth_drop_Suc)
qed simp

lemma screen_scroll: "screen (scroll_rows s) = tl (screen s) @ [screen s ! 24]"
proof (rule screen_eqI)
  fix y x :: nat assume yx: "y < 25" "x < 80"
  have lt: "(of_nat (80 * y + x) :: ULONG) < 1920 \<longleftrightarrow> y < 24"
  proof -
    have "unat (of_nat (80 * y + x) :: ULONG) = 80 * y + x" using yx by (intro unat_of_nat32) simp
    then have "(of_nat (80 * y + x) :: ULONG) < 1920 \<longleftrightarrow> 80 * y + x < 1920" by (simp add: word_less_nat_alt)
    then show ?thesis using yx by auto
  qed
  have "buf (scroll_rows s) (80 * y + x) = (if y < 24 then buf s (80 * Suc y + x) else buf s (80 * y + x))"
    using lt by (simp add: buf_def scroll_rows_def ac_simps)
  then show "(tl (screen s) @ [screen s ! 24]) ! y ! x = buf (scroll_rows s) (80 * y + x)"
    using yx by (cases "y = 24") (auto simp: nth_append nth_tl screen_nth)
qed (auto simp: nth_append nth_tl)

lemma scroll_sel [simp]: "XPos (scroll_rows s) = XPos s" "YPos (scroll_rows s) = YPos s"
  by (simp_all add: scroll_rows_def)

lemma screen_pos [simp]: "screen (s\<lparr>XPos := x\<rparr>) = screen s" "screen (s\<lparr>YPos := y\<rparr>) = screen s"
  by (simp_all add: screen_def buf_def)

lemma MoveCursor_sel [simp]:
  "XPos (MoveCursor s) = XPos s" "YPos (MoveCursor s) = YPos s" "screen (MoveCursor s) = screen s" "ParallelPort (MoveCursor s) = ParallelPort s"
  by (simp_all add: MoveCursor_def outw_crtc_def screen_def buf_def Let_def)

text \<open>The two register writes together hold the 16-bit position.\<close>

lemma crtc_bytes:
  fixes cp :: USHORT
  shows "push_bit 8 (ucast (ucast (drop_bit 8 (0x0E OR (cp AND 0xFF00))) :: UCHAR)) OR
    ucast (ucast (drop_bit 8 (0x0F OR push_bit 8 cp)) :: UCHAR) = cp"
proof (rule bit_word_eqI)
  fix n assume "n < LENGTH(16)"
  then have "n \<in> {0, 1, 2, 3, 4, 5, 6, 7, 8, 9, 10, 11, 12, 13, 14, 15}" by simp presburger
  then show "bit ((push_bit 8 (ucast (ucast (drop_bit 8 (0x0E OR (cp AND 0xFF00))) :: UCHAR)) :: USHORT) OR
      ucast (ucast (drop_bit 8 (0x0F OR push_bit 8 cp)) :: UCHAR)) n = bit cp n"
    by (elim insertE emptyE) (simp_all add: bit_simps)
qed

lemma FindCursor_MoveCursor:
  "fst (FindCursor (MoveCursor s)) = (let cp = ucast (ucast (XPos s + 80 * YPos s) :: USHORT) in (cp mod 80, cp div 80))"
proof -
  have i: "ucast (0x0E OR (cp AND 0xFF00)) = (0x0E :: UCHAR)" "ucast (0x0F OR push_bit 8 cp) = (0x0F :: UCHAR)" for cp :: USHORT
  proof -
    have n: "n = 0 \<or> n = 1 \<or> n = 2 \<or> n = 3 \<or> n = 4 \<or> n = 5 \<or> n = 6 \<or> n = 7" if "n < LENGTH(8)" for n
      using that by simp presburger
    show "ucast (0x0E OR (cp AND 0xFF00)) = (0x0E :: UCHAR)" "ucast (0x0F OR push_bit 8 cp) = (0x0F :: UCHAR)"
      by (rule bit_word_eqI, drule n, elim disjE, simp_all add: bit_simps)+
  qed
  show ?thesis
    using crtc_bytes [of "ucast (XPos s + 80 * YPos s)"]
    by (simp add: FindCursor_def MoveCursor_def outw_crtc_def outb_crtc_def inb_crtc_def Let_def i)
qed

lemma cursor_roundtrip:
  assumes "on_screen s"
  shows "cursor_shown (MoveCursor s)"
proof -
  define p where "p = XPos s + 80 * YPos s"
  have u: "unat (XPos s) < 80" "unat (YPos s) < 25" using assms by (simp_all add: on_screen_def word_less_nat_alt)
  then have up: "unat p = unat (XPos s) + 80 * unat (YPos s)"
    unfolding p_def by (simp add: unat_word_ariths)
  have "take_bit 16 p = p"
    using u up by (intro unsigned_word_eqI [where ?'a = nat]) (simp add: unsigned_take_bit_eq take_bit_nat_eq_self)
  moreover have "(ucast (ucast p :: USHORT) :: size_t) = take_bit 16 p"
    by (rule bit_word_eqI) (auto simp: bit_simps)
  ultimately have b: "(ucast (ucast p :: USHORT) :: size_t) = p" by simp
  have "p mod 80 = XPos s" "p div 80 = YPos s"
    using u up by (intro unsigned_word_eqI [where ?'a = nat]; simp add: unat_mod unat_div)+
  then show ?thesis by (simp add: cursor_shown_def FindCursor_MoveCursor Let_def b flip: p_def)
qed

section \<open>The screen refines the terminal\<close>

lemma Newline_terminal:
  assumes "YPos s < 25"
  shows "terminal_of (Newline s) = line_feed (terminal_of s) \<and> on_screen (Newline s)"
proof (cases "YPos s + 1 \<ge> 25")
  case True
  then have "unat (YPos s) = 24" using assms by (simp add: word_le_nat_alt word_less_nat_alt unat_word_ariths)
  moreover have "(tl (screen s) @ [screen s ! 24])[24 := blank_row] = tl (screen s) @ [blank_row]"
    by (simp add: list_update_append)
  ultimately show ?thesis
    using True by (simp add: Newline_def terminal_of_def on_screen_def screen_ClearRow screen_scroll)
next
  case False
  then have "unat (YPos s + 1) = Suc (unat (YPos s))" "Suc (unat (YPos s)) < 25"
    using assms by (simp_all add: word_le_nat_alt word_less_nat_alt unat_word_ariths)
  moreover have "Newline s = s\<lparr>XPos := 0, YPos := YPos s + 1\<rparr>" using False by (simp add: Newline_def Let_def)
  ultimately show ?thesis using False by (simp add: terminal_of_def on_screen_def not_le)
qed

lemma Clear_terminal: "terminal_of (Clear s) = (0, 0, replicate 25 blank_row) \<and> on_screen (Clear s)"
  using screen_Clear_rows [of 25 s] by (simp add: Clear_def terminal_of_def on_screen_def range32_def)

lemma next_tab:
  assumes "x < (80 :: size_t)"
  shows "unat (ROUNDUP (x + 1) 8) = (unat x div 8 + 1) * 8"
proof -
  have u: "unat x < 80" using assms by (simp add: word_less_nat_alt)
  then have "unat (x + 1) = Suc (unat x)" by (simp add: unat_word_ariths)
  moreover have "(Suc (unat x) + 8 - 1) div 8 = unat x div 8 + 1" by simp
  ultimately show ?thesis using unat_ROUNDUP [of 8 "x + 1"] u by simp
qed

lemma advance:
  assumes "on_screen s"
  shows "unat (XPos s + 1) = Suc (unat (XPos s))"
  using assms by (simp add: on_screen_def word_less_nat_alt unat_word_ariths)

lemma ucast_char_id: "(ucast (ucast (ch :: UCHAR) :: ULONG) :: UCHAR) = ch"
  by (rule bit_word_eqI) (simp add: bit_simps)

lemma ucast_char_eq: "(ucast (ch :: UCHAR) :: ULONG) = ucast c \<longleftrightarrow> ch = c"
  by (metis ucast_char_id)

text \<open>One character on the screen is one character on the terminal; nothing is written outside the screen.\<close>

lemma Vga_putc_terminal:
  assumes s: "on_screen s"
  shows "terminal_of (Vga_putc (ucast ch) s) = print_char ch (terminal_of s) \<and> on_screen (Vga_putc (ucast ch) s)"
proof -
  have u: "unat (XPos s) < 80" "unat (YPos s) < 25" "XPos s < 80" "YPos s < 25"
    using s by (simp_all add: on_screen_def word_less_nat_alt)
  have move: "terminal_of (MoveCursor t) = terminal_of t" "on_screen (MoveCursor t) = on_screen t" for t
    by (simp_all add: terminal_of_def on_screen_def)
  have pos: "terminal_of (t\<lparr>XPos := x\<rparr>) = (unat x, unat (YPos t), screen t)" "on_screen (t\<lparr>XPos := x\<rparr>) = (x < 80 \<and> YPos t < 25)"
    "YPos (t\<lparr>XPos := x\<rparr>) = YPos t" for t x
    by (simp_all add: terminal_of_def on_screen_def)
  have put: "terminal_of (put_cell (YPos s) (XPos s) ch s) =
      (unat (XPos s), unat (YPos s), (screen s)[unat (YPos s) := (screen s ! unat (YPos s))[unat (XPos s) := (ch, GRAY_ON_BLACK)]])"
    using u by (simp add: terminal_of_def screen_put_cell)
  consider "ch = 10" | "ch = 12" | "ch = 8" | "ch = 13" | "ch = 9" | "ch \<notin> {8, 9, 10, 12, 13}" by auto
  then show ?thesis
  proof cases
    case 3
    have "0 < XPos s \<Longrightarrow> unat (XPos s - 1) = unat (XPos s) - 1 \<and> XPos s - 1 < 80"
      using u by (simp add: unat_sub word_le_nat_alt word_less_nat_alt)
    moreover have "XPos s = 0" if "\<not> 0 < XPos s" using that by (metis word_gt_0)
    ultimately show ?thesis using 3 s u
      by (cases "0 < XPos s") (simp_all add: Vga_putc_def move pos terminal_of_def on_screen_def word_neq_0_conv)
  next
    case 5
    let ?x = "ROUNDUP (XPos s + 1) 8"
    have x: "unat ?x = (unat (XPos s) div 8 + 1) * 8" by (rule next_tab [OF u(3)])
    show ?thesis
    proof (cases "?x \<ge> 80")
      case True
      then have "80 \<le> (unat (XPos s) div 8 + 1) * 8" using x by (simp add: word_le_nat_alt)
      with True 5 u show ?thesis
        using Newline_terminal [of "s\<lparr>XPos := ?x\<rparr>"] by (simp add: Vga_putc_def move pos terminal_of_def Let_def x)
    next
      case False
      then have "\<not> 80 \<le> (unat (XPos s) div 8 + 1) * 8" using x by (simp add: word_le_nat_alt)
      with False 5 u show ?thesis by (simp add: Vga_putc_def move pos terminal_of_def Let_def x)
    qed
  next
    case 6
    then have ne: "(ucast ch :: ULONG) \<notin> {8, 9, 10, 12, 13}"
      using ucast_char_eq [of ch 8] ucast_char_eq [of ch 9] ucast_char_eq [of ch 10] ucast_char_eq [of ch 12] ucast_char_eq [of ch 13]
      by simp
    let ?t = "put_cell (YPos s) (XPos s) ch s"
    have e: "Vga_putc (ucast ch) s =
        MoveCursor (if XPos s + 1 \<ge> 80 then Newline (?t\<lparr>XPos := XPos s + 1\<rparr>) else ?t\<lparr>XPos := XPos s + 1\<rparr>)"
      using ne by (simp add: Vga_putc_def Let_def ucast_char_id)
    have le: "XPos s + 1 \<ge> 80 \<longleftrightarrow> 80 \<le> Suc (unat (XPos s))" using advance [OF s] by (simp add: word_le_nat_alt)
    have sc: "screen ?t = (screen s)[unat (YPos s) := (screen s ! unat (YPos s))[unat (XPos s) := (ch, GRAY_ON_BLACK)]]"
      using put by (simp add: terminal_of_def)
    show ?thesis
      using 6 u le Newline_terminal [of "?t\<lparr>XPos := XPos s + 1\<rparr>"]
      by (auto simp: e move pos terminal_of_def sc advance [OF s] Let_def not_le)
  qed (use s u in \<open>simp_all add: Vga_putc_def move pos Newline_terminal Clear_terminal, simp_all add: terminal_of_def\<close>)
qed

interpretation console: simulation "\<lambda>ch s. Inr (PutcharWithoutLock ch s)" "\<lambda>ch t. Some (print_char ch t)" "\<lambda>_. True"
  "\<lambda>s t. on_screen s \<and> cursor_shown s \<and> terminal_of s = t"
proof unfold_locales
  fix s t ch t'
  assume s: "on_screen s \<and> cursor_shown s \<and> terminal_of s = t" and t': "Some (print_char ch t) = Some t'"
  let ?v = "Vga_putc (ucast ch) s"
  have v: "terminal_of ?v = t'" "on_screen ?v" using Vga_putc_terminal [of s ch] s t' by auto
  obtain u where u: "?v = MoveCursor u" unfolding Vga_putc_def by blast
  have "on_screen u" using v(2) by (simp add: u on_screen_def)
  from cursor_roundtrip [OF this] have "cursor_shown ?v" by (simp add: u)
  then show "\<exists>s'. Inr (PutcharWithoutLock ch s) = Inr s' \<and> on_screen s' \<and> cursor_shown s' \<and> terminal_of s' = t'"
    using v by (simp add: PutcharWithoutLock_def pport_putc_def on_screen_def cursor_shown_def terminal_of_def FindCursor_def
        screen_def buf_def outb_crtc_def inb_crtc_def Let_def)
qed

lemma spec_run_total: "spec_run (\<lambda>x a. Some (f x a)) xs a = Some (fold f xs a)"
  by (induction xs arbitrary: a) simp_all

lemma foldE_total: "foldE (\<lambda>x s. Inr (f x s)) xs s = Inr (fold f xs s)"
  by (induction xs arbitrary: s) simp_all

lemma parallel_port: "ParallelPort (PutcharWithoutLock ch s) = ParallelPort s @ [ch]"
proof -
  have row: "ParallelPort (ClearRow y t) = ParallelPort t" for y t
  proof -
    have "ParallelPort (fold (\<lambda>x. put_cell y x 0x20) xs t) = ParallelPort t" for xs
      by (induction xs arbitrary: t) (simp_all add: put_cell_def)
    then show ?thesis by (simp add: ClearRow_def)
  qed
  then have rows: "ParallelPort (fold ClearRow ys t) = ParallelPort t" for ys t by (induction ys arbitrary: t) simp_all
  have "ParallelPort (Newline t) = ParallelPort t" for t by (simp add: Newline_def Let_def row scroll_rows_def)
  then have "ParallelPort (Vga_putc c t) = ParallelPort t" for c t
    by (simp add: Vga_putc_def Let_def Clear_def rows put_cell_def)
  then show ?thesis by (simp add: PutcharWithoutLock_def pport_putc_def)
qed

lemma parallel_port_all: "ParallelPort (fold PutcharWithoutLock cs s) = ParallelPort s @ cs"
  by (induction cs arbitrary: s) (simp_all add: parallel_port)

lemma puts_loop_eq:
  "cstr m p xs \<Longrightarrow> puts_loop m p s = Some (fold PutcharWithoutLock (concat (map (\<lambda>c. [c, 10]) xs)) s)"
proof (induction xs arbitrary: p s)
  case Nil
  then show ?case by (subst puts_loop.simps) simp
next
  case (Cons x xs)
  have "m p = x" "x \<noteq> NUL" "cstr m (p + 1) xs" using Cons.prems by auto
  then show ?case by (subst puts_loop.simps) (simp add: Cons.IH)
qed

text \<open>The characters a format prints, and the formatter writing them to the console.\<close>

definition formatted :: "memory \<Rightarrow> string \<Rightarrow> va_list \<Rightarrow> fault + string" where
  "formatted m format args = vprintf (\<lambda>_. m) (\<lambda>ch cs. cs @ [ch]) format args []"

interpretation console_output: related_output "\<lambda>_. m" "\<lambda>ch cs. cs @ [ch]" "\<lambda>_. m" VprintfWithoutLock
  "\<lambda>cs aux. aux = (of_nat (length cs), fold PutcharWithoutLock (map byte cs) s)" for m s
  by unfold_locales (simp_all add: VprintfWithoutLock_def)

lemma console_vprintf_eq:
  assumes "formatted m format args = Inr cs"
  shows "console_vprintf m format args s = Inr (of_nat (length cs), fold PutcharWithoutLock (map byte cs) s)"
proof -
  have "rel_sum (=) (\<lambda>cs aux. aux = (of_nat (length cs), fold PutcharWithoutLock (map byte cs) s))
      (vprintf (\<lambda>_. m) (\<lambda>ch cs. cs @ [ch]) format args []) (vprintf (\<lambda>_. m) VprintfWithoutLock format args (0, s))"
    by (rule console_output.vprintf_related) simp
  then show ?thesis
    using assms by (cases "console_vprintf m format args s") (auto simp: formatted_def console_vprintf_def)
qed

lemma console_text:
  assumes "on_screen s" and "cursor_shown s"
  shows "on_screen (fold PutcharWithoutLock cs s) \<and> cursor_shown (fold PutcharWithoutLock cs s) \<and>
    terminal_of (fold PutcharWithoutLock cs s) = fold print_char cs (terminal_of s)"
  using console.run [of s "terminal_of s" cs "fold print_char cs (terminal_of s)"] assms
  by (simp add: spec_run_total foldE_total)

definition blank_screen :: vga_state where
  "blank_screen = \<lparr>XPos = 0, YPos = 24, VgaBuffer = \<lambda>_. (0x20, 7), VgaInitialized = True, CrtcIndex = 0,
     CrtcRegister = (\<lambda>r. if r = 0x0E then 0x07 else 0x80), ParallelPort = []\<rparr>"

lemma blank_screen_ok: "on_screen blank_screen" "cursor_shown blank_screen"
  by (simp_all add: blank_screen_def on_screen_def cursor_shown_def FindCursor_def outb_crtc_def inb_crtc_def Let_def)

section \<open>Outside the screen\<close>

lemma put_cell_outside:
  assumes "y < 25" "x < 80" and "2000 \<le> i"
  shows "VgaBuffer (put_cell y x ch s) i = VgaBuffer s i"
proof -
  have "unat y < 25" "unat x < 80" "2000 \<le> unat i" using assms by (simp_all add: word_less_nat_alt word_le_nat_alt)
  moreover have "unat (cell y x) = 80 * unat y + unat x" using calculation by (simp add: cell_def unat_word_ariths)
  ultimately have "unat (cell y x) \<noteq> unat i" by linarith
  then show ?thesis by (auto simp: put_cell_def)
qed

lemma ClearRow_outside:
  assumes "y < 25" and "2000 \<le> i"
  shows "VgaBuffer (ClearRow y s) i = VgaBuffer s i"
proof -
  have "VgaBuffer (fold (\<lambda>x. put_cell y x 0x20) xs s) i = VgaBuffer s i" if "\<forall>x \<in> set xs. x < 80" for xs
    using that by (induction xs arbitrary: s) (simp_all add: put_cell_outside [OF assms(1) _ assms(2)])
  moreover have "\<forall>x \<in> set (range32 0 COL_CNT). x < 80" by (simp add: set_range32)
  ultimately show ?thesis by (simp add: ClearRow_def)
qed

lemma Newline_outside:
  assumes "2000 \<le> i"
  shows "VgaBuffer (Newline s) i = VgaBuffer s i"
proof -
  have "\<not> i < 1920" using assms by (simp add: word_less_nat_alt word_le_nat_alt)
  then show ?thesis using assms by (simp add: Newline_def Let_def ClearRow_outside scroll_rows_def)
qed

lemma Clear_outside:
  assumes "2000 \<le> i"
  shows "VgaBuffer (Clear s) i = VgaBuffer s i"
proof -
  have "VgaBuffer (fold ClearRow ys s) i = VgaBuffer s i" if "\<forall>y \<in> set ys. y < 25" for ys
    using that by (induction ys arbitrary: s) (simp_all add: ClearRow_outside [OF _ assms])
  moreover have "\<forall>y \<in> set (range32 0 ROW_CNT). y < 25" by (simp add: set_range32)
  ultimately show ?thesis by (simp add: Clear_def MoveCursor_def outw_crtc_def Let_def)
qed

lemma printed_outside:
  assumes "on_screen s" and "2000 \<le> i"
  shows "VgaBuffer (PutcharWithoutLock ch s) i = VgaBuffer s i"
proof -
  have m: "VgaBuffer (MoveCursor t) i = VgaBuffer t i" for t by (simp add: MoveCursor_def outw_crtc_def Let_def)
  have p: "VgaBuffer (put_cell (YPos s) (XPos s) c s) i = VgaBuffer s i" for c
    using assms by (intro put_cell_outside) (simp_all add: on_screen_def)
  have "VgaBuffer (Vga_putc c s) i = VgaBuffer s i" for c
    unfolding Vga_putc_def m using assms(2) by (simp add: Let_def p Newline_outside Clear_outside)
  then show ?thesis by (simp add: PutcharWithoutLock_def pport_putc_def)
qed

lemma text_outside:
  assumes "on_screen s" "cursor_shown s" and "2000 \<le> i"
  shows "VgaBuffer (fold PutcharWithoutLock cs s) i = VgaBuffer s i"
  using assms(1,2)
proof (induction cs arbitrary: s)
  case (Cons c cs)
  have "on_screen (PutcharWithoutLock c s)" "cursor_shown (PutcharWithoutLock c s)" using console_text [OF Cons.prems, of "[c]"] by simp_all
  then show ?case using Cons.IH [of "PutcharWithoutLock c s"] printed_outside [OF Cons.prems(1) assms(3)] by simp
qed simp

section \<open>Properties\<close>

text \<open>C10. The console refines a terminal of 25 rows of 80 cells, each a character and an attribute: from a cursor on the screen that the controller shows, printing any
  bytes (control characters, the wrap at the end of a row, scrolling at the last row included) leaves the cells and the cursor the terminal has, where printed and cleared
  cells get the attribute gray on black and scrolled ones keep theirs; the frame buffer behind the 2000 cells of the screen is as before, the cursor registers of the controller
  show the new position, and the parallel port has received every byte.\<close>

theorem console_refines_terminal:
  assumes "on_screen s" and "cursor_shown s"
  shows "on_screen (fold PutcharWithoutLock text s) \<and> cursor_shown (fold PutcharWithoutLock text s) \<and>
    terminal_of (fold PutcharWithoutLock text s) = fold print_char text (terminal_of s) \<and>
    (\<forall>i \<ge> 2000. VgaBuffer (fold PutcharWithoutLock text s) i = VgaBuffer s i) \<and>
    ParallelPort (fold PutcharWithoutLock text s) = ParallelPort s @ text"
  using console_text [OF assms] parallel_port_all text_outside [OF assms] by blast

theorem console_refines_terminal_witness:
  "\<exists>rows. terminal_of (fold PutcharWithoutLock [0x41, 10, 0x42] blank_screen) = (1, 24, rows)"
proof -
  have "terminal_of blank_screen = (0, 24, screen blank_screen)"
    by (simp add: terminal_of_def) (simp add: blank_screen_def)
  then show ?thesis
    using console_refines_terminal [OF blank_screen_ok, of "[0x41, 10, 0x42]"] by (simp add: Let_def)
qed

text \<open>\<open>vprintf\<close> prints on the console exactly the characters the format and its arguments stand for, as the
  abstract terminal shows them, and returns their number.\<close>

theorem printf_on_terminal:
  assumes "on_screen s" and "cursor_shown s" and "formatted m format args = Inr cs"
  shows "\<exists>s'. console_vprintf m format args s = Inr (of_nat (length cs), s') \<and> on_screen s' \<and>
    terminal_of s' = fold print_char (map byte cs) (terminal_of s)"
  using console_vprintf_eq [OF assms(3), of s] console_text [OF assms(1,2), of "map byte cs"] by blast

theorem printf_on_terminal_witness:
  "\<exists>s'. console_vprintf (\<lambda>_. 0) [CHR ''O'', CHR ''K'', CHR 0x00] [] blank_screen = Inr (2, s')"
proof -
  have "formatted (\<lambda>_. 0) [CHR ''O'', CHR ''K'', CHR 0x00] [] = Inr ''OK''"
    by (simp add: formatted_def vprintf_def)
  from printf_on_terminal [OF blank_screen_ok this] show ?thesis by auto
qed

text \<open>\<open>puts\<close>, whose comment says that it writes the string followed by a new-line character, writes a new-line
  after every character of the string, and so none for the empty string; the return value is 0.\<close>

theorem puts_breaks_every_character:
  assumes "cstr m str xs"
  shows "puts m str s = Some (0, fold PutcharWithoutLock (concat (map (\<lambda>c. [c, 10]) xs)) s)"
  using puts_loop_eq [OF assms] by (simp add: puts_def)

theorem puts_breaks_every_character_witness:
  "puts hello 100 blank_screen = Some (0, fold PutcharWithoutLock [104, 10, 105, 10] blank_screen)"
  using puts_breaks_every_character [of hello 100 "[104, 105]" blank_screen] by (simp add: hello_def)

end
