(* ===== verification/Spec2Isabelle.thy ===== *)
theory Spec2Isabelle
  imports BootLoader HexDump KosStart Vga
begin

text \<open>
  Kaush-OS is a small 32-bit kernel written in C after the structure of Windows NT. This development models its
  core from the sources under \<open>KaushOS/\<close>, function by function, and proves what makes the parts correct.

  \<^bold>\<open>How code becomes definitions.\<close> A C function is a HOL function of the same name over an explicit
  state. Every \<open>ASSERT\<close> (always compiled in), \<open>KeBugCheck\<close>, null dereference and endless wait is a value: operations return \<open>fault + 'a\<close>, and
  \<open>bind\<close>, \<open>ASSERT\<close> and \<open>deref\<close> are the only control structure besides counted loops (\<open>foldE\<close>) and recursion. Machine integers are words of their width.
  The state is a chain of extensible records, \<open>ke_state\<close>, \<open>mm_state\<close>, \<open>pool_state\<close>, \<open>sched_state\<close>, \<open>ob_state\<close>, \<open>obname_state\<close>, \<open>ps_state\<close>,
  \<open>intr_state\<close>, \<open>io_state\<close> and \<open>ide_state\<close>, each adding the globals of one part, so
  that an operation of a lower part applies to the state of every higher one unchanged.

  \<^bold>\<open>The parts and their theories.\<close>
  \<^item> \<open>KPrelude\<close>: machine types, outcomes, counted loops, status codes, and the locale \<open>simulation\<close> of forward simulations.
  \<^item> \<open>KList\<close> (\<open>inc/list.h\<close>): the intrusive lists \<open>LIST_HEAD\<close> and \<open>LIST_ENTRY\<close> as rings of links; each operation implements the operation on a HOL list.
  \<^item> \<open>Bitmap\<close> (\<open>lib/bitmap.c\<close>): the bit array and the first-fit scan that hands out runs of pages.
  \<^item> \<open>KeState\<close>, \<open>KeLocks\<close> (\<open>ke/irql.c\<close>, \<open>ke/locks.c\<close>, \<open>ke/dpc.c\<close>, \<open>hal/\<close>, \<open>inc/interlocked.h\<close>): the IRQL and the interrupt mask that follows it, spin locks, and the queue
    of deferred procedure calls that lowering the IRQL drains.
  \<^item> \<open>Paging\<close>, \<open>Mm\<close>, \<open>MmProps\<close> (\<open>mm/mm.c\<close>): the two-level page tables in physical memory with the recursive mapping the kernel edits them through, the
    database of page frames, allocation and release of virtual ranges, and copy on write.
  \<^item> \<open>Pool\<close> (\<open>mm/pool.c\<close>): the kernel pools, first fit with splitting and merging, and the self test that debug builds run on them.
  \<^item> \<open>MmBoot\<close>, \<open>MmStart\<close> (\<open>mm/mm.c\<close>): the layout of memory at boot, before and after the switch to paging, and the start of the pools on it.
  \<^item> \<open>Sched\<close> (\<open>ke/scheduler.c\<close>): ready queues, the choice of the next thread, the context switch and the timer tick.
  \<^item> \<open>Wait\<close> (\<open>ke/wait.c\<close>): dispatcher objects, blocking and waking, semaphores, mutants and events.
  \<^item> \<open>KString\<close>, \<open>KStdio\<close>, \<open>HexDump\<close> (\<open>lib/string.c\<close>, \<open>lib/unicode.c\<close>, \<open>lib/stdio.c\<close>): the memory and string routines on a flat memory of bytes, and formatted output.
  \<^item> \<open>Ob\<close>, \<open>ObName\<close> (\<open>ob/\<close>): objects with their reference counts, handle tables, and the namespace of directories and symbolic links.
  \<^item> \<open>Ps\<close>, \<open>Process\<close>, \<open>PsProps\<close> (\<open>ps/thread.c\<close>, \<open>ps/process.c\<close>): threads and processes with their lists, run-down protection, cloning, exit, and work done in the address
    space of another process; \<open>Loader\<close> (\<open>ps/loader.c\<close>) maps the segments of an ELF file.
  \<^item> \<open>Intr\<close> (\<open>ke/interrupt.c\<close>, \<open>ke/exception.c\<close>, \<open>ke/timer.c\<close>, \<open>ke/ke.c\<close>, \<open>ex/syscall.c\<close>): gates, interrupt objects, and the path of an interrupt, an exception or a system call.
  \<^item> \<open>Io\<close>, \<open>IoProps\<close> (\<open>io/\<close>, \<open>fs/kosfs.c\<close>): request packets, drivers, devices and files, and the file system driver above FatFs.
  \<^item> \<open>Ide\<close>, \<open>IdeProps\<close> (\<open>drivers/ide.c\<close>): the disks, from their detection to the transfer of sectors and the completion interrupt.
  \<^item> \<open>Gdt\<close> (\<open>hal/x86.h\<close>, \<open>ke/processor.c\<close>): segment descriptors and the descriptor table of the processor.
  \<^item> \<open>BootLoader\<close> (\<open>boot/loadk.c\<close>): the boot loader, on a machine of its own, reads the kernel's ELF file from the disk.
  \<^item> \<open>KosStart\<close> (\<open>KOSstart.c\<close>): the start of the kernel, its first thread and the bug check.
  \<^item> \<open>Vga\<close> (\<open>drivers/vga.c\<close>, \<open>lib/console.c\<close>): the text screen and the console on its own small state, since no other part depends on what was printed.

  \<^bold>\<open>What is shown.\<close> Specifications with refinement proofs: lists (sequences), the scheduler (round robin with priorities), semaphores (a machine
  with a count and a queue of waiters for each), path lookup (a walk through a namespace) and the console (a terminal). Invariants that operations keep: the
  rings of all lists, the tiling of a pool by coalesced blocks, the tables and frame counts of an address space, reference counts under cloning of
  a handle table. Round trips: locks, allocation and release of pages and of pool blocks, handles, printing and parsing of numbers. Paths through several parts: an
  interrupt from its gate to the handler and back, the creation of a thread up to its ready queue, the boot loader from the disk to the segments in memory, the kernel from its entry with cleared data through the
  interrupt gates and the layout of memory to pools that are tested and ready for allocation, a read from a handle to the file system, a read of a sector from the lock of the channel to
  the buffer in memory. Termination: the DPC queue is drained and its
  loop ends. Fairness: every thread of the highest ready priority gets the processor, and waiting threads are served in order. Error
  behaviour and bounds, among them the defects that the proofs brought to light.

  \<^bold>\<open>How the parts rely on each other.\<close> The locale \<open>critical_section\<close> of \<open>KeLocks\<close> states what a client may assume of a lock; it is interpreted by the spin locks
  (\<open>spinlock\<close>) and by the lock of the processor (\<open>processor\<close> in \<open>Gdt\<close>), and the pool, the memory manager, the scheduler and the object manager work through it: a section under a free lock changes what its body changes and nothing else.

  \<^bold>\<open>Bounds and fuel.\<close> \<open>fuel\<close> bounds the rounds in which deferred routines may queue further ones while the IRQL is lowered; one round is enough when the queue is empty, and
  the theorem on the DPC queue says how much is enough otherwise. Walks along a list are bounded by its count, or are partial functions that are shown to return.
  A spin on a lock that is held on the only processor is the value \<open>Hang\<close>.

  \<^bold>\<open>Parameters.\<close> \<open>run\<close> is what the deferred routines do, \<open>exit_thread\<close> stands for \<open>PsExitThread\<close>, \<open>call\<close> for the methods of object types, \<open>drivers\<close> and \<open>others\<close> for the
  routines of drivers and handlers behind a pointer; \<open>Io\<close> and \<open>Intr\<close> define the instances that the kernel registers. \<open>fatfs\<close> and \<open>fat\<close> hold the functions of FatFs, \<open>ata\<close> the
  answers of the disk controller, \<open>resume\<close> what the other threads do during a wait that blocks, and \<open>TrapFunctionList\<close> the addresses of the entry stubs. String literals, addresses of
  local variables and the values of uninitialised ones (\<open>junk\<close>, \<open>garbage\<close>) are arguments too.

  \<^bold>\<open>Not modelled.\<close> The TLB: \<open>invlpg\<close> has no effect in the model, where every access walks the tables. Pool headers, frame database, bitmaps, handle arrays, object headers and
  bodies, request packets and trap frames are kept apart from the bytes of physical memory. FatFs (\<open>fs/ff.c\<close>) is third-party code. The real-mode and startup assembly, the entry stubs and the user library are assembly or run
  outside the kernel; what they rely on from the hardware is not described by the sources. What \<open>kprintf\<close> and \<open>Log\<close> print in the course of other functions is left out, and so are the
  test routines that nothing calls (\<open>MiTest\<close>, \<open>CopyProcess\<close>) and all code inside \<open>#if 0\<close>.
\<close>

end
